(* ===== verification/Prelude.thy ===== *)
theory Prelude
  imports Main "HOL-Library.AList" "HOL-Library.Multiset"
begin

text \<open>
  What every component shares: the error codes of \<open>src/core/errors\<close>, results as a sum of an
  error and a value, the sequencing of fallible steps, loops over arrays that stop at the first
  error, and the JavaScript \<open>Map\<close> as an association list (a new key is appended, an old key
  keeps its place, which is \<open>AList.update\<close>). Row and user identifiers are UUIDs that the code
  only compares and sorts by; they are \<open>nat\<close>s here. Message texts of the errors are left out.
\<close>

type_synonym id = nat

section \<open>Errors\<close>

datatype error_code =
    ValidationError | Unauthorized | Forbidden | NotFound | Conflict
  | UnprocessableEntity | RateLimited | InternalError

text \<open>
  \<open>AppException\<close> carries an error code; \<open>EntityNotFound\<close> is what TypeORM's \<open>findOneOrFail\<close>
  rejects with, \<open>DupEntry\<close> a violated unique index (named by its columns), \<open>DbError\<close> any
  other rejection of the database driver.
\<close>

datatype error =
    AppException error_code
  | EntityNotFound
  | DupEntry string
  | DbError string

type_synonym 'a result = "error + 'a"

fun http_status :: "error_code \<Rightarrow> nat" where
  "http_status ValidationError = 400"
| "http_status Unauthorized = 401"
| "http_status Forbidden = 403"
| "http_status NotFound = 404"
| "http_status Conflict = 409"
| "http_status UnprocessableEntity = 422"
| "http_status RateLimited = 429"
| "http_status InternalError = 500"

section \<open>Sequencing fallible steps\<close>

definition andThen :: "'e + 'a \<Rightarrow> ('a \<Rightarrow> 'e + 'b) \<Rightarrow> 'e + 'b" where
  "andThen m f = (case m of Inl e \<Rightarrow> Inl e | Inr x \<Rightarrow> f x)"

lemma andThen_simps [simp]:
  "andThen (Inl e) f = Inl e"
  "andThen (Inr x) f = f x"
  by (simp_all add: andThen_def)

lemma andThen_Inr_iff [simp]: "andThen m f = Inr r \<longleftrightarrow> (\<exists>x. m = Inr x \<and> f x = Inr r)"
  by (cases m) auto

lemma andThen_Inl_iff: "andThen m f = Inl e \<longleftrightarrow> m = Inl e \<or> (\<exists>x. m = Inr x \<and> f x = Inl e)"
  by (cases m) auto

lemma throw_Inr_iff [simp]: "(if c then Inl e else m) = Inr r \<longleftrightarrow> \<not> c \<and> m = Inr r"
  by simp

lemma need_Inr_iff [simp]: "(if c then m else Inl e) = Inr r \<longleftrightarrow> c \<and> m = Inr r"
  by simp

text \<open>A row that must exist: \<open>findOne\<close> followed by a throw when nothing was found.\<close>

definition orThrow :: "'a option \<Rightarrow> 'e \<Rightarrow> 'e + 'a" where
  "orThrow v e = (case v of None \<Rightarrow> Inl e | Some x \<Rightarrow> Inr x)"

lemma orThrow_simps [simp]:
  "orThrow None e = Inl e"
  "orThrow (Some x) e = Inr x"
  by (simp_all add: orThrow_def)

lemma orThrow_Inr_iff [simp]: "orThrow v e = Inr x \<longleftrightarrow> v = Some x"
  by (cases v) auto

text \<open>A check that returns nothing.\<close>

definition ensure :: "bool \<Rightarrow> 'e \<Rightarrow> 'e + unit" where
  "ensure c e = (if c then Inr () else Inl e)"

lemma ensure_Inr_iff [simp]: "ensure c e = Inr u \<longleftrightarrow> c"
  by (simp add: ensure_def)

lemma ensure_simps [simp]: "ensure True e = Inr ()" "ensure False e = Inl e"
  by (simp_all add: ensure_def)

lemma ensure_Inl_iff: "ensure c e = Inl e' \<longleftrightarrow> \<not> c \<and> e' = e"
  by (auto simp: ensure_def)

text \<open>\<open>for (const x of xs)\<close> with a state and an early exit.\<close>

fun forEach :: "('a \<Rightarrow> 's \<Rightarrow> 'e + 's) \<Rightarrow> 'a list \<Rightarrow> 's \<Rightarrow> 'e + 's" where
  "forEach f [] s = Inr s"
| "forEach f (x # xs) s = andThen (f x s) (forEach f xs)"

lemma forEach_append: "forEach f (xs @ ys) s = andThen (forEach f xs s) (forEach f ys)"
proof (induction xs arbitrary: s)
  case (Cons x xs)
  then show ?case by (cases "f x s") auto
qed simp

lemma forEach_invariant:
  assumes "forEach f xs s = Inr t" and "P s"
    and "\<And>x s t. x \<in> set xs \<Longrightarrow> P s \<Longrightarrow> f x s = Inr t \<Longrightarrow> P t"
  shows "P t"
  using assms
proof (induction xs arbitrary: s)
  case (Cons x xs)
  from Cons.prems(1) obtain u where u: "f x s = Inr u" "forEach f xs u = Inr t" by auto
  show ?case
  proof (rule Cons.IH [OF u(2)])
    show "P u" using Cons.prems(3) [OF _ Cons.prems(2) u(1)] by simp
  qed (use Cons.prems(3) in auto)
qed simp

text \<open>A loop of checks: it returns exactly when every check passes.\<close>

fun checkAll :: "('a \<Rightarrow> 'e + unit) \<Rightarrow> 'a list \<Rightarrow> 'e + unit" where
  "checkAll f [] = Inr ()"
| "checkAll f (x # xs) = andThen (f x) (\<lambda>_. checkAll f xs)"

lemma checkAll_Inr_iff [simp]: "checkAll f xs = Inr u \<longleftrightarrow> (\<forall>x \<in> set xs. f x = Inr ())"
  by (induction xs) auto

text \<open>A loop that builds an array.\<close>

fun mapR :: "('a \<Rightarrow> 'e + 'b) \<Rightarrow> 'a list \<Rightarrow> 'e + 'b list" where
  "mapR f [] = Inr []"
| "mapR f (x # xs) = andThen (f x) (\<lambda>y. andThen (mapR f xs) (\<lambda>ys. Inr (y # ys)))"

lemma mapR_Inr_iff: "mapR f xs = Inr ys \<longleftrightarrow> list_all2 (\<lambda>x y. f x = Inr y) xs ys"
proof (induction xs arbitrary: ys)
  case (Cons x xs)
  then show ?case by (cases ys) auto
qed auto

lemma mapR_length: "mapR f xs = Inr ys \<Longrightarrow> length ys = length xs"
  by (auto simp: mapR_Inr_iff dest: list_all2_lengthD)

section \<open>Sums over lists and maps\<close>

lemma sum_list_map_filter_split:
  fixes f :: "'a \<Rightarrow> 'b::comm_monoid_add"
  shows "sum_list (map f (filter P xs)) + sum_list (map f (filter (\<lambda>x. \<not> P x) xs))
    = sum_list (map f xs)"
  by (induction xs) (auto simp: ac_simps)

lemma sum_list_filter_le:
  fixes f :: "'a \<Rightarrow> int"
  assumes "\<And>x. x \<in> set xs \<Longrightarrow> 0 \<le> f x"
  shows "sum_list (map f (filter P xs)) \<le> sum_list (map f xs)"
  using assms by (induction xs) (auto simp: add_increasing)

lemma sum_list_nonneg_map:
  fixes f :: "'a \<Rightarrow> int"
  shows "(\<And>x. x \<in> set xs \<Longrightarrow> 0 \<le> f x) \<Longrightarrow> 0 \<le> sum_list (map f xs)"
  by (induction xs) auto

lemma member_le_sum_map:
  fixes f :: "'a \<Rightarrow> int"
  assumes "x \<in> set xs" "\<And>y. y \<in> set xs \<Longrightarrow> 0 \<le> f y"
  shows "f x \<le> sum_list (map f xs)"
proof -
  have "0 \<le> sum_list (map f (remove1 x xs))"
    by (rule sum_list_nonneg_map) (meson assms(2) notin_set_remove1)
  then show ?thesis using sum_list_map_remove1 [OF assms(1), of f] by simp
qed

lemma sum_list_sort_key: "sum_list (map f (sort_key g xs)) = (sum_list (map f xs) :: int)"
  by (metis mset_map mset_sort sum_mset_sum_list)

text \<open>Summing by key: a list split by the value of a key, for distinct keys that occur.\<close>

lemma sum_list_by_key:
  fixes f :: "'a \<Rightarrow> int"
  assumes "distinct ks"
  shows "sum_list (map (\<lambda>k. sum_list (map f (filter (\<lambda>x. key x = k) xs))) ks)
    = sum_list (map f (filter (\<lambda>x. key x \<in> set ks) xs))"
proof (induction xs)
  case (Cons x xs)
  have "sum_list (map (\<lambda>k. sum_list (map f (filter (\<lambda>y. key y = k) (x # xs)))) ks)
      = sum_list (map (\<lambda>k. (if key x = k then f x else 0)
          + sum_list (map f (filter (\<lambda>y. key y = k) xs))) ks)"
    by (rule arg_cong [of _ _ sum_list]) (auto intro: map_cong)
  also have "\<dots> = sum_list (map (\<lambda>k. if key x = k then f x else 0) ks)
      + sum_list (map f (filter (\<lambda>y. key y \<in> set ks) xs))"
    by (simp add: sum_list_addf Cons.IH)
  also have "sum_list (map (\<lambda>k. if key x = k then f x else 0) ks) = (if key x \<in> set ks then f x else 0)"
    using assms by (induction ks) auto
  finally show ?case by simp
qed simp

section \<open>Pages\<close>

text \<open>\<open>skip((page - 1) * limit)\<close> and \<open>take(limit)\<close> of the list queries.\<close>

definition paginate :: "nat \<Rightarrow> nat \<Rightarrow> 'a list \<Rightarrow> 'a list" where
  "paginate page limit rows = take limit (drop ((page - 1) * limit) rows)"

lemma paginate_all:
  assumes "0 < limit"
  shows "concat (map (\<lambda>p. paginate (Suc p) limit rows) [0..<n]) = take (n * limit) rows"
proof (induction n)
  case (Suc n)
  then show ?case by (simp add: paginate_def) (metis add.commute take_add)
qed simp

lemma find_filter: "List.find P (filter Q xs) = List.find (\<lambda>x. Q x \<and> P x) xs"
  by (induction xs) auto

lemma find_unique:
  assumes "distinct (map key xs)" "x \<in> set xs"
  shows "List.find (\<lambda>y. key y = key x) xs = Some x"
  using assms by (induction xs) (auto simp: rev_image_eqI)

lemma find_append:
  "List.find P (xs @ ys) = (case List.find P xs of None \<Rightarrow> List.find P ys | Some x \<Rightarrow> Some x)"
  by (induction xs) auto

lemma find_SomeD: "List.find P xs = Some x \<Longrightarrow> x \<in> set xs \<and> P x"
  by (induction xs) (auto split: if_splits)

text \<open>Rows appended under a new key are exactly the rows of that key.\<close>

lemma filter_new_suffix:
  assumes "map key xs = map key old @ replicate n r" "\<forall>x \<in> set old. key x \<noteq> r"
  shows "filter (\<lambda>x. key x = r) xs = drop (length old) xs"
proof -
  have all: "filter (\<lambda>x. key x = r) (drop (length old) xs) = drop (length old) xs"
  proof (rule filter_True, rule ballI)
    fix x assume "x \<in> set (drop (length old) xs)"
    then have "key x \<in> set (drop (length old) (map key xs))" by (simp add: drop_map)
    then show "key x = r" unfolding assms(1) by simp
  qed
  have none: "filter (\<lambda>x. key x = r) (take (length old) xs) = []"
  proof (rule filter_False, rule ballI)
    fix x assume "x \<in> set (take (length old) xs)"
    then have "key x \<in> set (take (length old) (map key xs))" by (simp add: take_map)
    then show "\<not> key x = r" unfolding assms(1) using assms(2) by auto
  qed
  show ?thesis
    by (subst append_take_drop_id [of "length old" xs, symmetric], subst filter_append)
      (simp only: all none append_Nil)
qed

lemma filter_key_distinct:
  assumes "distinct (map key xs)" "x \<in> set xs"
  shows "filter (\<lambda>y. key y = key x) xs = [x]"
  using assms
proof (induction xs)
  case (Cons y xs)
  show ?case
  proof (cases "x = y")
    case True
    then have "filter (\<lambda>z. key z = key x) xs = []"
      using Cons.prems(1) by (intro filter_False) (auto simp: image_iff)
    with True show ?thesis by simp
  next
    case False
    then have x: "x \<in> set xs" using Cons.prems(2) by simp
    then have "key x \<in> set (map key xs)" by simp
    then have "key y \<noteq> key x" using Cons.prems(1) by auto
    with x Cons show ?thesis by simp
  qed
qed simp

section \<open>Instants in the database\<close>

text \<open>A \<open>TIMESTAMP\<close> column without a precision holds whole seconds, and MySQL rounds the milliseconds of
  a JavaScript date to the nearest one.\<close>

definition toTimestamp :: "nat \<Rightarrow> nat" where
  "toTimestamp ms = (ms + 500) div 1000 * 1000"

lemma toTimestamp_bounds: "toTimestamp t \<le> t + 500" "t < toTimestamp t + 500"
proof -
  have "(t + 500) div 1000 * 1000 \<le> t + 500" by (rule div_times_less_eq_dividend)
  then show "toTimestamp t \<le> t + 500" by (simp add: toTimestamp_def)
  have "t + 500 < 1000 + 1000 * ((t + 500) div 1000)" by (rule dividend_less_times_div) simp
  then show "t < toTimestamp t + 500" by (simp add: toTimestamp_def)
qed

end
