(* ===== verification/Js_Number.thy ===== *)
theory Js_Number
  imports Complex_Main "HOL-Library.Log_Nat"
begin

text \<open>
  The numbers of the source language. A JavaScript Number is an IEEE 754 double, and every
  monetary computation of the services goes through it: a DECIMAL(14,2) column arrives as a
  string, \<open>Number(...)\<close> rounds it to the nearest double, each \<open>+\<close>, \<open>-\<close>, \<open>*\<close>, \<open>/\<close>
  rounds its exact result, and \<open>.toFixed(2)\<close> or \<open>Math.round\<close> reads the double back.
  \<open>fl\<close> is that rounding (53 significant bits, round half to even; the exponent range is
  left unbounded, so neither overflow nor subnormal numbers are modelled: every amount of the
  program is zero or between \<open>10 ^ (-9)\<close> and \<open>10 ^ 24\<close>). A decimal string with two
  digits after the point is modelled by its number of cents, an \<open>int\<close>.

  The lemmas bound the error of every operation, and collect the bounds in the predicate
  \<open>near B k x c\<close>: the double \<open>x\<close> is within \<open>k\<close> units in the last place of \<open>c\<close> cents, for
  amounts of at most \<open>B\<close> cents. A component that keeps every intermediate double \<open>near\<close> an
  exact number of cents stores that exact number.
\<close>

section \<open>Rounding to a double\<close>

text \<open>The exponent of the binade of a positive number: \<open>2 powi binade x \<le> x\<close>.\<close>

definition binade :: "real \<Rightarrow> int" where
  "binade x = (if 1 \<le> x then bitlen \<lfloor>x\<rfloor> - 1 else - bitlen (\<lceil>1 / x\<rceil> - 1))"

text \<open>Round to the nearest integer, ties to the even one.\<close>

definition rne :: "real \<Rightarrow> int" where
  "rne y =
     (let f = \<lfloor>y\<rfloor>; d = y - of_int f
      in if d < 1 / 2 then f else if 1 / 2 < d then f + 1 else if even f then f else f + 1)"

definition fl :: "real \<Rightarrow> real" where
  "fl x =
     (if x = 0 then 0
      else let s = 2 powi (52 - binade \<bar>x\<bar>) in of_int (rne (x * s)) / s)"

definition js_add :: "real \<Rightarrow> real \<Rightarrow> real" where
  "js_add x y = fl (x + y)"

definition js_sub :: "real \<Rightarrow> real \<Rightarrow> real" where
  "js_sub x y = fl (x - y)"

definition js_mul :: "real \<Rightarrow> real \<Rightarrow> real" where
  "js_mul x y = fl (x * y)"

definition js_div :: "real \<Rightarrow> real \<Rightarrow> real" where
  "js_div x y = fl (x / y)"

text \<open>\<open>Number(s)\<close> for the decimal string \<open>s\<close> of \<open>c\<close> cents.\<close>

definition js_num :: "int \<Rightarrow> real" where
  "js_num c = fl (of_int c / 100)"

text \<open>
  \<open>x.toFixed(2)\<close> as a number of cents: the exact value of the double, rounded to the nearest
  multiple of 0.01, the larger one on a tie; a negative number is negated, formatted and negated.
\<close>

definition to_fixed2 :: "real \<Rightarrow> int" where
  "to_fixed2 x = (if x < 0 then - \<lfloor>- x * 100 + 1 / 2\<rfloor> else \<lfloor>x * 100 + 1 / 2\<rfloor>)"

definition math_round :: "real \<Rightarrow> int" where
  "math_round x = \<lfloor>x + 1 / 2\<rfloor>"

text \<open>The tolerance literal \<open>1e-9\<close> of the comparisons.\<close>

definition js_eps :: real where
  "js_eps = fl (1 / 10 ^ 9)"

section \<open>The rounding error\<close>

lemma binade_le:
  assumes "0 < x"
  shows "2 powi binade x \<le> x"
proof (cases "1 \<le> x")
  case True
  then have pos: "0 < \<lfloor>x\<rfloor>" by linarith
  have b: "2 ^ nat (bitlen \<lfloor>x\<rfloor> - 1) \<le> \<lfloor>x\<rfloor>" using bitlen_bounds [OF pos] by simp
  have "bitlen \<lfloor>x\<rfloor> \<noteq> 0" using pos by (simp only: bitlen_eq_zero_iff)
  then have "0 < bitlen \<lfloor>x\<rfloor>" using bitlen_nonneg [of "\<lfloor>x\<rfloor>"] by linarith
  have "(2::real) powi (bitlen \<lfloor>x\<rfloor> - 1) = 2 ^ nat (bitlen \<lfloor>x\<rfloor> - 1)"
    using \<open>0 < bitlen \<lfloor>x\<rfloor>\<close> by (simp add: power_int_def)
  also have "\<dots> = of_int (2 ^ nat (bitlen \<lfloor>x\<rfloor> - 1))" by simp
  also have "\<dots> \<le> of_int \<lfloor>x\<rfloor>" using b by (simp only: of_int_le_iff)
  also have "\<dots> \<le> x" by simp
  finally show ?thesis using True by (simp add: binade_def)
next
  case False
  let ?m = "\<lceil>1 / x\<rceil> - 1"
  from False assms have "1 < 1 / x" by simp
  then have pos: "0 < ?m" by linarith
  then have "?m < 2 ^ nat (bitlen ?m)" using bitlen_bounds by blast
  then have "\<lceil>1 / x\<rceil> \<le> 2 ^ nat (bitlen ?m)" by linarith
  then have "(of_int \<lceil>1 / x\<rceil> :: real) \<le> of_int (2 ^ nat (bitlen ?m))"
    by (simp only: of_int_le_iff)
  then have "(of_int \<lceil>1 / x\<rceil> :: real) \<le> 2 ^ nat (bitlen ?m)" by simp
  then have "1 / x \<le> 2 ^ nat (bitlen ?m)" by linarith
  then have "1 \<le> x * 2 ^ nat (bitlen ?m)" using assms by (simp add: field_simps)
  then have "inverse (2 ^ nat (bitlen ?m)) \<le> x" by (simp add: field_simps)
  moreover have "(2::real) powi (- bitlen ?m) = inverse (2 powi bitlen ?m)"
    by (rule power_int_minus)
  moreover have "(2::real) powi bitlen ?m = 2 ^ nat (bitlen ?m)"
    by (simp add: power_int_def bitlen_nonneg)
  ultimately show ?thesis using False by (simp add: binade_def)
qed

lemma rne_error: "\<bar>of_int (rne y) - y\<bar> \<le> 1 / 2"
  unfolding rne_def Let_def by (auto; linarith)

lemma rne_of_int [simp]: "rne (of_int n) = n"
  by (simp add: rne_def)

lemma rne_minus: "rne (- y) = - rne y"
proof (cases "y = of_int \<lfloor>y\<rfloor>")
  case True
  then show ?thesis by (metis of_int_minus rne_of_int)
next
  case False
  then have "\<lfloor>- y\<rfloor> = - \<lfloor>y\<rfloor> - 1" by linarith
  then show ?thesis by (auto simp: rne_def Let_def)
qed

lemma fl_0 [simp]: "fl 0 = 0"
  by (simp add: fl_def)

lemma fl_minus [simp]: "fl (- x) = - fl x"
  by (simp add: fl_def Let_def rne_minus)

lemma fl_error: "\<bar>fl x - x\<bar> \<le> \<bar>x\<bar> / 2 ^ 53"
proof (cases "x = 0")
  case False
  define e where "e = binade \<bar>x\<bar>"
  define s :: real where "s = 2 powi (52 - e)"
  have s: "0 < s" by (simp add: s_def)
  have "\<bar>fl x - x\<bar> = \<bar>of_int (rne (x * s)) - x * s\<bar> / s"
    using False s by (simp add: fl_def Let_def e_def [symmetric] s_def [symmetric] field_simps
        abs_div_pos [symmetric])
  also have "\<dots> \<le> (1 / 2) / s"
    using rne_error [of "x * s"] s by (intro divide_right_mono) auto
  also have "\<dots> = 2 powi e / 2 ^ 53"
    by (simp add: s_def power_int_diff)
  also have "\<dots> \<le> \<bar>x\<bar> / 2 ^ 53"
    using False binade_le [of "\<bar>x\<bar>"] by (intro divide_right_mono) (auto simp: e_def)
  finally show ?thesis .
qed simp

lemma fl_nonneg: "0 \<le> x \<Longrightarrow> 0 \<le> fl x"
  using fl_error [of x] by (simp add: abs_real_def split: if_splits)

lemma fl_exactI:
  assumes "x * 2 powi (52 - binade \<bar>x\<bar>) = of_int n"
  shows "fl x = x"
proof (cases "x = 0")
  case False
  have "fl x = of_int n / 2 powi (52 - binade \<bar>x\<bar>)"
    using False assms by (simp add: fl_def Let_def)
  also have "\<dots> = x" using assms by (simp add: field_simps)
  finally show ?thesis .
qed simp

lemma fl_of_int:
  assumes "\<bar>n\<bar> \<le> 2 ^ 53 - 1"
  shows "fl (of_int n) = of_int n"
proof (cases "n = 0")
  case False
  let ?e = "binade \<bar>of_int n\<bar>"
  have n1: "(1::real) \<le> \<bar>of_int n\<bar>" using False by (simp flip: of_int_abs)
  have fl: "\<lfloor>\<bar>of_int n :: real\<bar>\<rfloor> = \<bar>n\<bar>" by (simp flip: of_int_abs)
  have "bitlen \<bar>n\<bar> \<le> 53"
    using bitlen_le_iff_power [of "\<bar>n\<bar>" 53] assms by simp
  then have e: "0 \<le> 52 - ?e" using n1 by (simp add: binade_def fl)
  then have "(2::real) powi (52 - ?e) = of_int (2 ^ nat (52 - ?e))"
    by (simp add: power_int_def)
  then have "of_int n * (2::real) powi (52 - ?e) = of_int (n * 2 ^ nat (52 - ?e))"
    by simp
  then show ?thesis by (rule fl_exactI)
qed simp


lemma fl_numeral [simp]: "numeral k \<le> (2 ^ 53 - 1 :: int) \<Longrightarrow> fl (numeral k) = numeral k"
  using fl_of_int [of "numeral k"] by simp

lemma fl_1 [simp]: "fl 1 = 1"
  using fl_of_int [of 1] by simp

lemma fl_of_nat: "n < 2 ^ 53 \<Longrightarrow> fl (of_nat n) = of_nat n"
  using fl_of_int [of "int n"] by simp

section \<open>Staying near an exact number of cents\<close>

definition ulp_of :: "int \<Rightarrow> real" where
  "ulp_of B = (of_int B + 1) / (100 * 2 ^ 53)"

definition near :: "int \<Rightarrow> nat \<Rightarrow> real \<Rightarrow> int \<Rightarrow> bool" where
  "near B k x c \<longleftrightarrow> \<bar>x - of_int c / 100\<bar> \<le> of_nat k * ulp_of B"

text \<open>The side condition of every step: \<open>k\<close> units are less than half a cent.\<close>

definition fits :: "int \<Rightarrow> nat \<Rightarrow> bool" where
  "fits B k \<longleftrightarrow> 0 \<le> B \<and> int k * (B + 1) < 2 ^ 52"

named_theorems js_defs "the arithmetic operations of the source language"
declare js_add_def [js_defs] js_sub_def [js_defs] js_mul_def [js_defs] js_div_def [js_defs]
  js_num_def [js_defs]

lemma ulp_of_pos: "0 \<le> B \<Longrightarrow> 0 < ulp_of B"
  by (simp add: ulp_of_def)

lemma fits_mono: "fits B k \<Longrightarrow> j \<le> k \<Longrightarrow> fits B j"
  unfolding fits_def
  by (metis add_nonneg_nonneg le_less_trans mult_right_mono of_nat_le_iff zero_le_one)

lemma fits_lt:
  assumes "fits B k"
  shows "of_nat k * ulp_of B < 1 / 200"
proof -
  from assms have "of_int (int k * (B + 1)) < (of_int (2 ^ 52) :: real)"
    by (simp only: fits_def of_int_less_iff)
  then have "real k * (of_int B + 1) < 2 ^ 52" by simp
  then show ?thesis by (simp add: ulp_of_def)
qed

lemma near_mono: "near B j x c \<Longrightarrow> j \<le> k \<Longrightarrow> 0 \<le> B \<Longrightarrow> near B k x c"
  unfolding near_def using ulp_of_pos [of B]
  by (metis less_imp_le mult_right_mono of_nat_le_iff order_trans)

lemma near_round:
  assumes x: "near B k x c" and c: "\<bar>c\<bar> \<le> B" and B: "fits B k"
  shows "near B (Suc k) (fl x) c"
proof -
  have "\<bar>x\<bar> \<le> \<bar>of_int c\<bar> / 100 + of_nat k * ulp_of B"
    using x unfolding near_def by linarith
  also have "\<bar>of_int c :: real\<bar> \<le> of_int B" using c by linarith
  finally have "\<bar>x\<bar> \<le> (of_int B + 1) / 100" using fits_lt [OF B] by (simp add: field_simps)
  then have "\<bar>x\<bar> / 2 ^ 53 \<le> ulp_of B" by (simp add: ulp_of_def)
  with fl_error [of x] have "\<bar>fl x - x\<bar> \<le> ulp_of B" by linarith
  with x show ?thesis unfolding near_def by (simp add: algebra_simps)
qed

lemma near_exact: "near B 0 (of_int c / 100) c"
  by (simp add: near_def)

lemma near_0 [simp]: "near B 0 0 0"
  by (simp add: near_def)

lemma near_num: "\<bar>c\<bar> \<le> B \<Longrightarrow> near B 1 (js_num c) c"
  using near_round [OF near_exact, of c B] by (simp add: js_num_def fits_def)

lemma near_add:
  assumes "near B i x a" "near B j y b" "\<bar>a + b\<bar> \<le> B" "fits B (i + j)"
  shows "near B (Suc (i + j)) (js_add x y) (a + b)"
proof -
  have "near B (i + j) (x + y) (a + b)"
    using assms(1,2) unfolding near_def by (simp add: algebra_simps add_divide_distrib)
  with assms show ?thesis unfolding js_add_def by (intro near_round) auto
qed

lemma near_sub:
  assumes "near B i x a" "near B j y b" "\<bar>a - b\<bar> \<le> B" "fits B (i + j)"
  shows "near B (Suc (i + j)) (js_sub x y) (a - b)"
proof -
  have "near B (i + j) (x - y) (a - b)"
    using assms(1,2) unfolding near_def by (simp add: algebra_simps diff_divide_distrib)
  with assms show ?thesis unfolding js_sub_def by (intro near_round) auto
qed

lemma near_mul:
  assumes "\<bar>p * q\<bar> \<le> B" "fits B 1"
  shows "near B 2 (js_mul (js_num p) (of_int q)) (p * q)"
proof -
  have "\<bar>js_num p - of_int p / 100\<bar> \<le> \<bar>of_int p / 100\<bar> / 2 ^ 53"
    unfolding js_num_def by (rule fl_error)
  then have "\<bar>js_num p - of_int p / 100\<bar> * \<bar>of_int q\<bar> \<le> \<bar>of_int p / 100\<bar> / 2 ^ 53 * \<bar>of_int q\<bar>"
    by (intro mult_right_mono) auto
  also have "\<dots> = of_int \<bar>p * q\<bar> / (100 * 2 ^ 53)" by (simp add: abs_mult)
  also have "\<dots> \<le> ulp_of B"
  proof -
    have "(of_int \<bar>p * q\<bar> :: real) \<le> of_int B" using assms(1) by (simp only: of_int_le_iff)
    then show ?thesis unfolding ulp_of_def by (intro divide_right_mono) auto
  qed
  finally have "\<bar>js_num p * of_int q - of_int (p * q) / 100\<bar> \<le> ulp_of B"
    by (simp add: abs_mult [symmetric] left_diff_distrib)
  then have "near B 1 (js_num p * of_int q) (p * q)" by (simp add: near_def)
  from near_round [OF this] assms show ?thesis by (simp add: js_mul_def numeral_2_eq_2)
qed

lemma to_fixed2_eq:
  assumes "\<bar>x - of_int c / 100\<bar> < 1 / 200"
  shows "to_fixed2 x = c"
proof (cases "x < 0")
  case True
  have "\<lfloor>- x * 100 + 1 / 2\<rfloor> = - c"
    by (rule floor_unique) (use assms in \<open>simp_all add: abs_real_def split: if_splits\<close>)
  with True show ?thesis by (simp add: to_fixed2_def)
next
  case False
  have "\<lfloor>x * 100 + 1 / 2\<rfloor> = c"
    by (rule floor_unique) (use assms in \<open>simp_all add: abs_real_def split: if_splits\<close>)
  with False show ?thesis by (simp add: to_fixed2_def)
qed

lemma to_fixed2_near: "near B k x c \<Longrightarrow> fits B k \<Longrightarrow> to_fixed2 x = c"
  using fits_lt unfolding near_def by (intro to_fixed2_eq) (meson order_le_less_trans)

lemma near_less:
  assumes "near B i x a" "near B j y b" "a < b" "fits B (i + j)"
  shows "x < y"
proof -
  have "(of_int a :: real) + 1 \<le> of_int b" using assms(3) by linarith
  then show ?thesis
    using assms(1,2) fits_lt [OF assms(4)] unfolding near_def by (simp add: algebra_simps)
qed

lemma math_round_eq:
  assumes "\<bar>x - of_int n\<bar> < 1 / 2"
  shows "math_round x = n"
  unfolding math_round_def by (rule floor_unique) (use assms in \<open>simp_all add: abs_real_def split: if_splits\<close>)

lemma math_round_of_int [simp]: "math_round (of_int n) = n"
  by (rule math_round_eq) simp

lemma to_fixed2_js_num: "\<bar>c\<bar> < 2 ^ 51 \<Longrightarrow> to_fixed2 (js_num c) = c"
  by (rule to_fixed2_near [of "2 ^ 51" 1, OF near_num]) (auto simp: fits_def)

section \<open>Evaluating a rounding\<close>

text \<open>A number in the binade \<open>e\<close> rounds to \<open>n\<close> units of the last place when it is nearest to it.\<close>

lemma bitlen_between:
  assumes "2 ^ k \<le> m" "m < 2 ^ Suc k"
  shows "bitlen m = int k + 1"
proof -
  have "0 < m" using assms(1) by (meson less_le_trans zero_less_numeral zero_less_power)
  moreover have n: "nat (1 + int k) = Suc k" by simp
  ultimately show ?thesis
    using bitlen_le_iff_power [of m "1 + int k"] bitlen_ge_iff_power [of "1 + int k" m] assms
    by (simp add: n)
qed

lemma binade_ge1:
  assumes "2 ^ k \<le> x" "x < 2 ^ Suc k"
  shows "binade x = int k"
proof -
  have "(1::real) \<le> 2 ^ k" by simp
  then have "1 \<le> x" using assms(1) by linarith
  have "2 ^ k \<le> \<lfloor>x\<rfloor>" using assms(1) by (simp add: le_floor_iff)
  moreover have "\<lfloor>x\<rfloor> < 2 ^ Suc k" using assms(2) by (simp add: floor_less_iff)
  ultimately show ?thesis using bitlen_between \<open>1 \<le> x\<close> by (simp add: binade_def)
qed

lemma binade_lt1:
  assumes "1 \<le> x * 2 ^ Suc k" "x * 2 ^ k < 1" "0 < x"
  shows "binade x = - int (Suc k)"
proof -
  have "x < 1"
  proof (rule ccontr)
    assume "\<not> x < 1"
    then have "1 * 1 \<le> x * 2 ^ k" by (intro mult_mono) auto
    with assms(2) show False by simp
  qed
  have "1 / x \<le> 2 ^ Suc k" "2 ^ k < 1 / x" using assms by (simp_all add: field_simps)
  then have "2 ^ k < \<lceil>1 / x\<rceil>" "\<lceil>1 / x\<rceil> \<le> 2 ^ Suc k"
    by (simp_all add: less_ceiling_iff ceiling_le_iff)
  then have "2 ^ k \<le> \<lceil>1 / x\<rceil> - 1" "\<lceil>1 / x\<rceil> - 1 < 2 ^ Suc k" by linarith+
  from bitlen_between [OF this] show ?thesis using \<open>x < 1\<close> by (simp add: binade_def)
qed

lemma rne_eqI: "\<bar>y - of_int n\<bar> < 1 / 2 \<Longrightarrow> rne y = n"
proof -
  assume y: "\<bar>y - of_int n\<bar> < 1 / 2"
  then have "\<bar>of_int (rne y) - of_int n :: real\<bar> < 1" using rne_error [of y] by linarith
  then show ?thesis by linarith
qed

lemma fl_eqI:
  assumes "binade x = e" "0 < x" "\<bar>x * 2 powi (52 - e) - of_int n\<bar> < 1 / 2"
  shows "fl x = of_int n / 2 powi (52 - e)"
  using assms rne_eqI [OF assms(3)] by (simp add: fl_def Let_def)

text \<open>A tie goes to the even neighbour.\<close>

lemma fl_tieI:
  assumes "binade x = e" "0 < x" "x * 2 powi (52 - e) = of_int n + 1 / 2" "odd n"
  shows "fl x = of_int (n + 1) / 2 powi (52 - e)"
proof -
  have "\<lfloor>of_int n + 1 / 2 :: real\<rfloor> = n" by (rule floor_unique) simp_all
  then have "rne (of_int n + 1 / 2) = n + 1" using assms(4) by (simp add: rne_def Let_def)
  then show ?thesis using assms by (simp add: fl_def Let_def)
qed

text \<open>Amounts in quarters are exact, so that concrete runs evaluate.\<close>

lemma fl_quarter:
  assumes "\<bar>n\<bar> < 2 ^ 40"
  shows "fl (of_int n / 4) = of_int n / 4"
proof (cases "n = 0")
  case False
  let ?e = "binade \<bar>of_int n / 4\<bar>"
  have "(of_int \<bar>n\<bar> :: real) < of_int (2 ^ 40)" using assms by (simp only: of_int_less_iff)
  then have "\<bar>of_int n / 4 :: real\<bar> < 2 powi 38" by (simp add: power_int_def)
  moreover have "(2::real) powi ?e \<le> \<bar>of_int n / 4\<bar>" using False by (intro binade_le) simp
  ultimately have lt: "(2::real) powi ?e < 2 powi 38" by linarith
  have e: "?e < 38"
  proof (rule ccontr)
    assume "\<not> ?e < 38"
    then have "(2::real) powi 38 \<le> 2 powi ?e" by (intro power_int_increasing) auto
    with lt show False by linarith
  qed
  then have "(2::real) powi (52 - ?e) = 4 * of_int (2 ^ nat (50 - ?e))"
    using power_int_add [of "2::real" 2 "50 - ?e"] by (simp add: power_int_def)
  then have "of_int n / 4 * (2::real) powi (52 - ?e) = of_int (n * 2 ^ nat (50 - ?e))" by simp
  then show ?thesis by (rule fl_exactI)
qed simp

lemma fl_half: "\<bar>n\<bar> < 2 ^ 39 \<Longrightarrow> fl (of_int n / 2) = of_int n / 2"
  using fl_quarter [of "2 * n"] by simp

lemma js_eps_bounds: "99 / 10 ^ 11 \<le> js_eps" "js_eps \<le> 101 / 10 ^ 11"
proof -
  have "\<bar>js_eps - 1 / 10 ^ 9\<bar> \<le> \<bar>1 / 10 ^ 9\<bar> / 2 ^ 53"
    unfolding js_eps_def by (rule fl_error)
  then show "99 / 10 ^ 11 \<le> js_eps" "js_eps \<le> 101 / 10 ^ 11"
    by (simp_all add: abs_real_def split: if_splits)
qed

end
