(* ===== verification/Double_Entry.thy ===== *)
theory Double_Entry
  imports Prelude Js_Number
begin

text \<open>
  The double-entry checks of \<open>accounting/utils/double-entry.ts\<close>: conversion of a decimal string
  to integer cents by \<open>Math.round(Number(amount) * 100)\<close>, the one-sided-line check and the
  balance check that sums the cents as JavaScript numbers. The refinement lemma
  \<open>assertBalanced_spec\<close> says that on DECIMAL(14,2) amounts this floating-point code decides
  exactly the integer double-entry law.
\<close>

record dc_line =
  debitAmount :: int
  creditAmount :: int

text \<open>An amount that a DECIMAL(14,2) column can hold: fourteen digits of cents.\<close>

definition decimal14_2 :: "int \<Rightarrow> bool" where
  "decimal14_2 c \<longleftrightarrow> \<bar>c\<bar> < 10 ^ 14"

definition toCents :: "int \<Rightarrow> int" where
  "toCents amount = math_round (js_mul (js_num amount) 100)"

definition centsToDecimalString :: "real \<Rightarrow> int" where
  "centsToDecimalString cents = to_fixed2 (js_div cents 100)"

definition assertOneSidedLine :: "'a dc_line_scheme \<Rightarrow> unit result" where
  "assertOneSidedLine line =
     (let debitCents = toCents (debitAmount line); creditCents = toCents (creditAmount line)
      in if debitCents < 0 \<or> creditCents < 0 then Inl (AppException ValidationError)
         else let debitSet = 0 < debitCents; creditSet = 0 < creditCents
         in if debitSet = creditSet then Inl (AppException ValidationError)
         else Inr ())"

text \<open>The accumulators of the loop are JavaScript numbers.\<close>

definition sum_line :: "'a dc_line_scheme \<Rightarrow> real \<times> real \<Rightarrow> (real \<times> real) result" where
  "sum_line line tot =
     andThen (assertOneSidedLine line)
       (\<lambda>_. Inr (js_add (fst tot) (of_int (toCents (debitAmount line))),
               js_add (snd tot) (of_int (toCents (creditAmount line)))))"

definition assertBalanced :: "'a dc_line_scheme list \<Rightarrow> (int \<times> int) result" where
  "assertBalanced lines =
     (if lines = [] then Inl (AppException ValidationError)
      else andThen (forEach sum_line lines (0, 0))
        (\<lambda>(totalDebitCents, totalCreditCents).
           if totalDebitCents \<noteq> totalCreditCents then Inl (AppException ValidationError)
           else Inr (centsToDecimalString totalDebitCents,
                     centsToDecimalString totalCreditCents)))"

section \<open>Cents are exact\<close>

lemma decimal14_2_bound: "decimal14_2 c \<Longrightarrow> \<bar>c\<bar> \<le> 2 ^ 47"
  by (simp add: decimal14_2_def)

lemma toCents_bounded:
  assumes "\<bar>c\<bar> \<le> 2 ^ 50"
  shows "toCents c = c"
proof -
  let ?x = "js_num c * 100"
  have c: "\<bar>of_int c :: real\<bar> \<le> 2 ^ 50"
    using assms by (metis of_int_abs of_int_le_iff of_int_numeral of_int_power)
  have "\<bar>js_num c - of_int c / 100\<bar> \<le> \<bar>of_int c / 100\<bar> / 2 ^ 53"
    unfolding js_num_def by (rule fl_error)
  then have 1: "\<bar>?x - of_int c\<bar> \<le> 1 / 8" using c by (simp add: abs_real_def split: if_splits)
  have "\<bar>?x\<bar> \<le> 2 ^ 50 + 1" using 1 c by linarith
  then have "\<bar>?x\<bar> / 2 ^ 53 \<le> 1 / 4" by simp
  with fl_error [of ?x] have "\<bar>fl ?x - ?x\<bar> \<le> 1 / 4" by linarith
  with 1 have "\<bar>fl ?x - of_int c\<bar> < 1 / 2" by linarith
  then show ?thesis unfolding toCents_def js_mul_def by (rule math_round_eq)
qed

lemma toCents_exact [simp]: "decimal14_2 c \<Longrightarrow> toCents c = c"
  by (rule toCents_bounded) (auto dest: decimal14_2_bound)

lemma centsToDecimalString_exact:
  assumes "\<bar>n\<bar> < 2 ^ 51"
  shows "centsToDecimalString (of_int n) = n"
  using to_fixed2_js_num [OF assms] by (simp add: centsToDecimalString_def js_div_def js_num_def)

lemma js_add_of_int:
  assumes "\<bar>a + b\<bar> \<le> 2 ^ 53 - 1"
  shows "js_add (of_int a) (of_int b) = of_int (a + b)"
  unfolding js_add_def by (metis assms fl_of_int of_int_add)

section \<open>The integer law\<close>

definition one_sided :: "'a dc_line_scheme \<Rightarrow> bool" where
  "one_sided l \<longleftrightarrow> 0 \<le> debitAmount l \<and> 0 \<le> creditAmount l
     \<and> (0 < debitAmount l) \<noteq> (0 < creditAmount l)"

definition debits :: "'a dc_line_scheme list \<Rightarrow> int" where
  "debits ls = sum_list (map debitAmount ls)"

definition credits :: "'a dc_line_scheme list \<Rightarrow> int" where
  "credits ls = sum_list (map creditAmount ls)"

definition balanced :: "'a dc_line_scheme list \<Rightarrow> bool" where
  "balanced ls \<longleftrightarrow> ls \<noteq> [] \<and> (\<forall>l \<in> set ls. one_sided l) \<and> debits ls = credits ls"

text \<open>
  The size of a journal: the sums of the absolute amounts. The columns \<open>total_debit\<close> and
  \<open>total_credit\<close> are DECIMAL(14,2), so every journal that can be stored has sums below
  \<open>10 ^ 14\<close> cents, well below the \<open>2 ^ 50\<close> under which the doubles are exact.
\<close>

definition moderate :: "'a dc_line_scheme list \<Rightarrow> bool" where
  "moderate ls \<longleftrightarrow> sum_list (map (\<lambda>l. \<bar>debitAmount l\<bar>) ls) \<le> 2 ^ 50
     \<and> sum_list (map (\<lambda>l. \<bar>creditAmount l\<bar>) ls) \<le> 2 ^ 50"

lemma debits_simps [simp]: "debits [] = 0" "debits (l # ls) = debitAmount l + debits ls"
  by (simp_all add: debits_def)

lemma credits_simps [simp]: "credits [] = 0" "credits (l # ls) = creditAmount l + credits ls"
  by (simp_all add: credits_def)

lemma assertOneSidedLine_iff:
  assumes "\<bar>debitAmount l\<bar> \<le> 2 ^ 50" "\<bar>creditAmount l\<bar> \<le> 2 ^ 50"
  shows "assertOneSidedLine l =
    (if one_sided l then Inr () else Inl (AppException ValidationError))"
  using toCents_bounded [OF assms(1)] toCents_bounded [OF assms(2)]
  by (auto simp: assertOneSidedLine_def one_sided_def Let_def)

lemma abs_sum_nonneg: "0 \<le> sum_list (map (\<lambda>l. \<bar>f l :: int\<bar>) ls)"
  by (rule sum_list_nonneg_map) simp

lemma abs_sum_le: "\<bar>sum_list (map f ls)\<bar> \<le> sum_list (map (\<lambda>l. \<bar>f l :: int\<bar>) ls)"
  by (induction ls) auto

lemma moderate_sums: "moderate ls \<Longrightarrow> \<bar>debits ls\<bar> \<le> 2 ^ 50 \<and> \<bar>credits ls\<bar> \<le> 2 ^ 50"
  unfolding moderate_def debits_def credits_def
  using abs_sum_le [of debitAmount ls] abs_sum_le [of creditAmount ls] by linarith

lemma forEach_sum_line:
  assumes "\<bar>d\<bar> + sum_list (map (\<lambda>l. \<bar>debitAmount l\<bar>) ls) \<le> 2 ^ 50"
    and "\<bar>c\<bar> + sum_list (map (\<lambda>l. \<bar>creditAmount l\<bar>) ls) \<le> 2 ^ 50"
  shows "forEach sum_line ls (of_int d, of_int c) =
    (if \<forall>l \<in> set ls. one_sided l then Inr (of_int (d + debits ls), of_int (c + credits ls))
     else Inl (AppException ValidationError))"
  using assms
proof (induction ls arbitrary: d c)
  case (Cons l ls)
  let ?d = "d + debitAmount l" and ?c = "c + creditAmount l"
  note nonneg = abs_sum_nonneg [of debitAmount ls] abs_sum_nonneg [of creditAmount ls]
  have b: "\<bar>debitAmount l\<bar> \<le> 2 ^ 50" "\<bar>creditAmount l\<bar> \<le> 2 ^ 50"
    using Cons.prems nonneg by auto
  have bound: "\<bar>?d\<bar> + sum_list (map (\<lambda>l. \<bar>debitAmount l\<bar>) ls) \<le> 2 ^ 50"
      "\<bar>?c\<bar> + sum_list (map (\<lambda>l. \<bar>creditAmount l\<bar>) ls) \<le> 2 ^ 50"
    using Cons.prems by auto
  have step: "js_add (of_int d) (of_int (debitAmount l)) = of_int ?d"
      "js_add (of_int c) (of_int (creditAmount l)) = of_int ?c"
    using bound nonneg by (intro js_add_of_int; simp; linarith)+
  show ?case
    using Cons.IH [OF bound] assertOneSidedLine_iff [OF b] toCents_bounded [OF b(1)]
      toCents_bounded [OF b(2)]
    by (simp add: sum_line_def step algebra_simps del: of_int_add)
qed simp

lemma assertBalanced_spec:
  assumes "moderate ls"
  shows "assertBalanced ls =
    (if balanced ls then Inr (debits ls, credits ls) else Inl (AppException ValidationError))"
proof -
  have f: "forEach sum_line ls (0, 0) =
      (if \<forall>l \<in> set ls. one_sided l then Inr (of_int (debits ls), of_int (credits ls))
       else Inl (AppException ValidationError))"
    using forEach_sum_line [of 0 ls 0] assms by (simp add: moderate_def)
  have "\<bar>debits ls\<bar> < 2 ^ 51" "\<bar>credits ls\<bar> < 2 ^ 51"
    using moderate_sums [OF assms] by auto
  then show ?thesis
    by (auto simp: assertBalanced_def f balanced_def centsToDecimalString_exact)
qed

section \<open>Sums of cents\<close>

text \<open>
  \<open>total += Math.round(Number(amount) * 100)\<close> over the rows of an array, as the draft totals and
  the trial balance accumulate it.
\<close>

definition sumCents :: "('a \<Rightarrow> int) \<Rightarrow> 'a list \<Rightarrow> real" where
  "sumCents f rows = foldl (\<lambda>total row. js_add total (of_int (toCents (f row)))) 0 rows"

lemma sumCents_from:
  assumes "\<bar>t\<bar> + sum_list (map (\<lambda>r. \<bar>f r\<bar>) rows) \<le> 2 ^ 50"
  shows "foldl (\<lambda>total row. js_add total (of_int (toCents (f row)))) (of_int t) rows
    = of_int (t + sum_list (map f rows))"
  using assms
proof (induction rows arbitrary: t)
  case (Cons r rows)
  note nonneg = abs_sum_nonneg [of f rows]
  have b: "\<bar>f r\<bar> \<le> 2 ^ 50" and t: "\<bar>t + f r\<bar> + sum_list (map (\<lambda>r. \<bar>f r\<bar>) rows) \<le> 2 ^ 50"
    using Cons.prems nonneg by auto
  have "js_add (of_int t) (of_int (f r)) = of_int (t + f r)"
    using t nonneg by (intro js_add_of_int) (simp; linarith)
  then show ?case using Cons.IH [OF t] by (simp add: toCents_bounded [OF b] del: of_int_add)
qed simp

lemma sumCents_exact:
  "sum_list (map (\<lambda>r. \<bar>f r\<bar>) rows) \<le> 2 ^ 50 \<Longrightarrow> sumCents f rows = of_int (sum_list (map f rows))"
  using sumCents_from [of 0 f rows] by (simp add: sumCents_def)

end
