(* ===== verification/Doc_Number.thy ===== *)
theory Doc_Number
  imports Prelude
begin

text \<open>
  Document numbers. Every numbered document (sale, purchase order, goods receipt, stock
  transfer, stock adjustment, payment, journal entry) takes its number from a per-company,
  per-year counter row that is upserted, locked with SELECT ... FOR UPDATE and incremented inside
  the caller's transaction, and formats it as PREFIX-year-sequence with the sequence padded to six
  digits (four for quotations). The locale \<open>numbered\<close> states that contract for any injective format and
  \<open>numbering\<close> for the common one; every service interprets it on its own
  counter table.

  The upsert is wrapped in \<open>retryOnDuplicateEntry\<close> (\<open>inventory/utils/upsert-retry.ts\<close>), modelled
  as a recursion on the attempt; the work is a function of the attempt number.
\<close>

section \<open>Formatting\<close>

definition digit :: "nat \<Rightarrow> char" where
  "digit d = ''0123456789'' ! d"

fun nat_str :: "nat \<Rightarrow> string" where
  "nat_str n = (if n < 10 then [digit n] else nat_str (n div 10) @ [digit (n mod 10)])"

declare nat_str.simps [simp del]

definition padStart :: "string \<Rightarrow> nat \<Rightarrow> char \<Rightarrow> string" where
  "padStart s n c = replicate (n - length s) c @ s"

definition formatDocumentNumber :: "string \<Rightarrow> nat \<Rightarrow> nat \<Rightarrow> string" where
  "formatDocumentNumber prefix year sq =
     prefix @ ''-'' @ nat_str year @ ''-'' @ padStart (nat_str sq) 6 (CHR ''0'')"

definition formatSaleNumber :: "nat \<Rightarrow> nat \<Rightarrow> string" where
  "formatSaleNumber year sq =
     ''SAL-'' @ nat_str year @ ''-'' @ padStart (nat_str sq) 6 (CHR ''0'')"

definition formatPurchaseOrderNumber :: "nat \<Rightarrow> nat \<Rightarrow> string" where
  "formatPurchaseOrderNumber year sq =
     ''PO-'' @ nat_str year @ ''-'' @ padStart (nat_str sq) 6 (CHR ''0'')"

text \<open>Reading a number back: the inverse used to state that no two documents share a number.\<close>

definition digit_value :: "char \<Rightarrow> nat" where
  "digit_value c = of_char c - 48"

definition str_nat :: "string \<Rightarrow> nat" where
  "str_nat s = foldl (\<lambda>n c. n * 10 + digit_value c) 0 s"

definition parse_document_number :: "string \<Rightarrow> string \<Rightarrow> nat \<times> nat" where
  "parse_document_number prefix s =
     (let rest = drop (length prefix + 1) s;
          y = takeWhile (\<lambda>c. c \<noteq> CHR ''-'') rest
      in (str_nat y, str_nat (drop (length y + 1) rest)))"

lemma digit_value_digit: "d < 10 \<Longrightarrow> digit_value (digit d) = d"
  by (simp add: digit_def digit_value_def numeral_eq_Suc less_Suc_eq) (elim disjE; simp)

lemma digit_not_dash: "d < 10 \<Longrightarrow> digit d \<noteq> CHR ''-''"
  by (simp add: digit_def numeral_eq_Suc less_Suc_eq) (elim disjE; simp)

lemma str_nat_snoc [simp]: "str_nat (s @ [c]) = str_nat s * 10 + digit_value c"
  by (simp add: str_nat_def)

lemma str_nat_nat_str [simp]: "str_nat (nat_str n) = n"
proof (induction n rule: nat_str.induct)
  case (1 n)
  show ?case
  proof (cases "n < 10")
    case True
    then show ?thesis by (subst nat_str.simps) (simp add: str_nat_def digit_value_digit)
  next
    case False
    with 1 show ?thesis by (subst nat_str.simps) (simp add: digit_value_digit)
  qed
qed

lemma nat_str_no_dash: "CHR ''-'' \<notin> set (nat_str n)"
proof (induction n rule: nat_str.induct)
  case (1 n)
  show ?case
  proof (cases "n < 10")
    case True
    then show ?thesis by (subst nat_str.simps) (auto simp: digit_not_dash [THEN not_sym])
  next
    case False
    with 1 show ?thesis
      by (subst nat_str.simps) (auto simp: digit_not_dash [THEN not_sym])
  qed
qed

lemma str_nat_zeros: "str_nat (replicate k (CHR ''0'') @ s) = str_nat s"
  by (induction k) (simp_all add: str_nat_def digit_value_def)

lemma str_nat_padStart [simp]: "str_nat (padStart s n (CHR ''0'')) = str_nat s"
  by (simp add: padStart_def str_nat_zeros)

text \<open>The shape shared by all number formats, for any width of the padding.\<close>

definition padded_number :: "nat \<Rightarrow> string \<Rightarrow> nat \<Rightarrow> nat \<Rightarrow> string" where
  "padded_number width prefix year sq =
     prefix @ ''-'' @ nat_str year @ ''-'' @ padStart (nat_str sq) width (CHR ''0'')"

lemma parse_padded: "parse_document_number prefix (padded_number width prefix year sq) = (year, sq)"
proof -
  have "takeWhile (\<lambda>c. c \<noteq> CHR ''-'') (nat_str year @ CHR ''-'' # rest) = nat_str year" for rest
    by (rule takeWhile_tail [THEN trans])
      (use nat_str_no_dash in \<open>auto simp: takeWhile_eq_all_conv\<close>)
  then show ?thesis by (simp add: parse_document_number_def padded_number_def Let_def)
qed

lemma padded_inject [simp]:
  "padded_number w p y s = padded_number w p y' s' \<longleftrightarrow> y = y' \<and> s = s'"
  by (metis parse_padded prod.inject)

lemma formatDocumentNumber_eq: "formatDocumentNumber prefix = padded_number 6 prefix"
  by (simp add: fun_eq_iff formatDocumentNumber_def padded_number_def)

lemma parse_format: "parse_document_number prefix (formatDocumentNumber prefix year sq) = (year, sq)"
  by (simp add: formatDocumentNumber_eq parse_padded)

lemma format_inject [simp]:
  "formatDocumentNumber p y s = formatDocumentNumber p y' s' \<longleftrightarrow> y = y' \<and> s = s'"
  by (simp add: formatDocumentNumber_eq)

lemma formatSaleNumber_eq: "formatSaleNumber y s = formatDocumentNumber ''SAL'' y s"
  by (simp add: formatSaleNumber_def formatDocumentNumber_def)

lemma formatPurchaseOrderNumber_eq:
  "formatPurchaseOrderNumber y s = formatDocumentNumber ''PO'' y s"
  by (simp add: formatPurchaseOrderNumber_def formatDocumentNumber_def)

section \<open>Counter tables\<close>

text \<open>A counter table: last sequence by company and year, one row each (unique index).\<close>

type_synonym counters = "id \<times> nat \<rightharpoonup> nat"

text \<open>
  The upsert inserts a row with sequence 0 if there is none and leaves an existing row alone; the
  locking read then finds the row, and the update stores its sequence plus one.
\<close>

definition upsert_counter :: "id \<Rightarrow> nat \<Rightarrow> counters \<Rightarrow> counters" where
  "upsert_counter company year t =
     (case t (company, year) of None \<Rightarrow> t((company, year) \<mapsto> 0) | Some _ \<Rightarrow> t)"

definition next_sequence :: "id \<Rightarrow> nat \<Rightarrow> counters \<Rightarrow> nat \<times> counters" where
  "next_sequence company year t =
     (let t' = upsert_counter company year t;
          n = the (t' (company, year)) + 1
      in (n, t'((company, year) \<mapsto> n)))"

definition last_sequence :: "counters \<Rightarrow> id \<Rightarrow> nat \<Rightarrow> nat" where
  "last_sequence t company year = (case t (company, year) of None \<Rightarrow> 0 | Some n \<Rightarrow> n)"

lemma next_sequence_eq:
  "next_sequence c y t = (Suc (last_sequence t c y), t((c, y) \<mapsto> Suc (last_sequence t c y)))"
  by (auto simp: next_sequence_def upsert_counter_def last_sequence_def Let_def
      split: option.splits)

lemma last_sequence_upd [simp]:
  "last_sequence (t((c, y) \<mapsto> n)) c' y' = (if c' = c \<and> y' = y then n else last_sequence t c' y')"
  by (auto simp: last_sequence_def)

section \<open>The numbering contract\<close>

text \<open>A run of requests for numbers, for whatever companies and years, to one generator.\<close>

fun issueNumbers ::
  "(id \<Rightarrow> nat \<Rightarrow> 'db \<Rightarrow> string \<times> 'db) \<Rightarrow> (id \<times> nat) list \<Rightarrow> 'db \<Rightarrow> (id \<times> string) list \<times> 'db" where
  "issueNumbers gen [] db = ([], db)"
| "issueNumbers gen ((c, y) # rs) db =
     (let (s, db') = gen c y db; (out, db'') = issueNumbers gen rs db' in ((c, s) # out, db''))"

locale numbered =
  fixes gen :: "id \<Rightarrow> nat \<Rightarrow> 'db \<Rightarrow> string \<times> 'db"
    and tab :: "'db \<Rightarrow> counters"
    and fmt :: "nat \<Rightarrow> nat \<Rightarrow> string"
  assumes gen_number: "fst (gen c y db) = fmt y (Suc (last_sequence (tab db) c y))"
    and gen_table: "tab (snd (gen c y db)) = (tab db)((c, y) \<mapsto> Suc (last_sequence (tab db) c y))"
    and fmt_inject: "fmt y s = fmt y' s' \<Longrightarrow> y = y' \<and> s = s'"
begin

lemma issued_above:
  assumes "(c, s) \<in> set (fst (issueNumbers gen rs db))"
  shows "\<exists>y n. s = fmt y n \<and> last_sequence (tab db) c y < n"
  using assms
proof (induction rs arbitrary: db)
  case (Cons r rs)
  obtain c' y' where r: "r = (c', y')" by force
  obtain s' db' where g: "gen c' y' db = (s', db')" by force
  obtain out db'' where i: "issueNumbers gen rs db' = (out, db'')" by force
  have tab': "tab db' = (tab db)((c', y') \<mapsto> Suc (last_sequence (tab db) c' y'))"
    using gen_table [of c' y' db] by (simp add: g)
  from Cons.prems consider "(c, s) = (c', s')" | "(c, s) \<in> set out" by (auto simp: r g i)
  then show ?case
  proof cases
    case 1
    then show ?thesis using gen_number [of c' y' db] by (auto simp: g)
  next
    case 2
    with Cons.IH [of db'] i obtain y n where
      n: "s = fmt y n" "last_sequence (tab db') c y < n" by auto
    from n(2) have "last_sequence (tab db) c y < n" by (auto simp: tab' split: if_splits)
    with n(1) show ?thesis by blast
  qed
qed simp

lemma issued_distinct: "distinct (fst (issueNumbers gen rs db))"
proof (induction rs arbitrary: db)
  case (Cons r rs)
  obtain c y where r: "r = (c, y)" by force
  obtain s db' where g: "gen c y db = (s, db')" by force
  obtain out db'' where i: "issueNumbers gen rs db' = (out, db'')" by force
  have s: "s = fmt y (Suc (last_sequence (tab db) c y))"
    using gen_number [of c y db] by (simp add: g)
  have tab': "tab db' = (tab db)((c, y) \<mapsto> Suc (last_sequence (tab db) c y))"
    using gen_table [of c y db] by (simp add: g)
  have "(c, s) \<notin> set out"
  proof
    assume "(c, s) \<in> set out"
    with issued_above [of c s rs db'] i obtain y' n where
      n: "s = fmt y' n" "last_sequence (tab db') c y' < n" by auto
    from fmt_inject [of y "Suc (last_sequence (tab db) c y)" y' n] n(1) s
    have "y' = y" "n = Suc (last_sequence (tab db) c y)" by auto
    with n(2) show False by (simp add: tab')
  qed
  with Cons.IH [of db'] i show ?case by (simp add: r g)
qed simp

end

text \<open>The common format, with the prefix of the document.\<close>

locale numbering =
  fixes gen :: "id \<Rightarrow> nat \<Rightarrow> 'db \<Rightarrow> string \<times> 'db"
    and tab :: "'db \<Rightarrow> counters"
    and prefix :: string
  assumes number_is: "fst (gen c y db) = formatDocumentNumber prefix y (Suc (last_sequence (tab db) c y))"
    and counter_is: "tab (snd (gen c y db)) = (tab db)((c, y) \<mapsto> Suc (last_sequence (tab db) c y))"

sublocale numbering \<subseteq> numbered gen tab "formatDocumentNumber prefix"
  by unfold_locales (simp_all add: number_is counter_is)

section \<open>Retrying the upsert\<close>

text \<open>What one call of the work may do: return, or reject with a MySQL code and errno.\<close>

datatype 'a attempt = Returns 'a | Rejects "string option" "nat option"

fun isDuplicateEntry :: "string option \<Rightarrow> nat option \<Rightarrow> bool" where
  "isDuplicateEntry code errno = (code = Some ''ER_DUP_ENTRY'' \<or> errno = Some 1062)"

text \<open>
  The loop from \<open>attempt\<close> with \<open>left = maxAttempts - attempt + 1\<close> attempts to go; \<open>None\<close> is the
  \<open>throw lastError\<close> after a loop that made no attempt (\<open>maxAttempts = 0\<close>, nothing was caught).
\<close>

fun retry_from :: "(nat \<Rightarrow> 'a attempt) \<Rightarrow> nat \<Rightarrow> nat \<Rightarrow> 'a attempt option" where
  "retry_from work attempt 0 = None"
| "retry_from work attempt (Suc left) =
     (case work attempt of
        Returns x \<Rightarrow> Some (Returns x)
      | Rejects code errno \<Rightarrow>
          if \<not> isDuplicateEntry code errno \<or> left = 0 then Some (Rejects code errno)
          else retry_from work (Suc attempt) left)"

definition retryOnDuplicateEntry :: "(nat \<Rightarrow> 'a attempt) \<Rightarrow> nat \<Rightarrow> 'a attempt option" where
  "retryOnDuplicateEntry work maxAttempts = retry_from work 1 maxAttempts"

definition dup_at :: "(nat \<Rightarrow> 'a attempt) \<Rightarrow> nat \<Rightarrow> bool" where
  "dup_at work i = (case work i of Returns _ \<Rightarrow> False | Rejects c e \<Rightarrow> isDuplicateEntry c e)"

lemma retry_from_skip:
  assumes "\<forall>i < k. dup_at work (a + i)" "k < n"
  shows "retry_from work a n = retry_from work (a + k) (n - k)"
  using assms
proof (induction k arbitrary: a n)
  case (Suc k)
  then obtain m where n: "n = Suc m" by (cases n) auto
  from Suc.prems have "dup_at work a" by force
  then have "retry_from work a n = retry_from work (Suc a) m"
    using Suc.prems n by (auto simp: dup_at_def split: attempt.splits)
  also have "\<dots> = retry_from work (Suc a + k) (m - k)"
    using Suc.prems n by (intro Suc.IH) auto
  finally show ?case using n by simp
qed simp

end
