(* ===== verification/Organization.thy ===== *)
theory Organization
  imports Prelude
begin

text \<open>
  The master data the transactional services validate against: companies, branches and
  warehouses (\<open>organization/\<close>), customers and suppliers (\<open>customer-supplier/\<close>) and payment
  methods (\<open>payments/entities/payment-method.entity.ts\<close>), with the lookup services. A table is a
  map from row identifiers to the rows that are not soft-deleted (TypeORM filters on
  \<open>deletedAt\<close>). Columns that no modelled code reads are left out. Dates: a JavaScript \<open>Date\<close> is
  its UTC calendar day with the millisecond of the day.
\<close>

section \<open>Dates\<close>

type_synonym day = "nat \<times> nat \<times> nat"
type_synonym jdate = "day \<times> nat"

fun day_le :: "day \<Rightarrow> day \<Rightarrow> bool" where
  "day_le (y, m, d) (y', m', d') = (y < y' \<or> y = y' \<and> (m < m' \<or> m = m' \<and> d \<le> d'))"

definition date_le :: "jdate \<Rightarrow> jdate \<Rightarrow> bool" where
  "date_le a b \<longleftrightarrow> (fst a \<noteq> fst b \<and> day_le (fst a) (fst b)) \<or> (fst a = fst b \<and> snd a \<le> snd b)"

text \<open>\<open>getTime()\<close>: a number that orders dates as the milliseconds since the epoch do.\<close>

definition date_key :: "jdate \<Rightarrow> nat" where
  "date_key d = (case d of ((y, m, dd), ms) \<Rightarrow> ((y * 100 + m) * 100 + dd) * 86400000 + ms)"

definition getUTCFullYear :: "jdate \<Rightarrow> nat" where
  "getUTCFullYear d = fst (fst d)"

definition toDateOnly :: "jdate \<Rightarrow> day" where
  "toDateOnly d = fst d"

fun calendar_day :: "day \<Rightarrow> bool" where
  "calendar_day (y, m, d) = (1 \<le> m \<and> m \<le> 12 \<and> 1 \<le> d \<and> d \<le> 31)"

lemma day_le_refl [simp]: "day_le a a"
  by (cases a) auto

lemma day_le_trans: "day_le a b \<Longrightarrow> day_le b c \<Longrightarrow> day_le a c"
  by (cases a; cases b; cases c) auto

lemma day_le_antisym: "day_le a b \<Longrightarrow> day_le b a \<Longrightarrow> a = b"
  by (cases a; cases b) auto

lemma day_le_total: "day_le a b \<or> day_le b a"
  by (cases a; cases b) auto

section \<open>Companies, branches, warehouses\<close>

datatype active_status = Active | Inactive

record branch =
  br_company :: id
  br_status :: active_status

record warehouse =
  wh_company :: id
  wh_branch :: id
  wh_status :: active_status

datatype party_status = PActive | PInactive | PBlocked

record customer =
  cu_company :: id
  cu_status :: party_status
  cu_receivableAccount :: "id option"

record supplier =
  su_company :: id
  su_status :: party_status
  su_payableAccount :: "id option"
  su_creditDays :: nat

record payment_method =
  pm_company :: id
  pm_status :: active_status
  pm_glAccount :: "id option"

record payment_term =
  pt_company :: id
  pt_status :: active_status

text \<open>\<open>warehouseIds\<close> lists the warehouses in the order a query returns them.\<close>

record org_db =
  companies :: "id \<rightharpoonup> active_status"
  branches :: "id \<rightharpoonup> branch"
  warehouses :: "id \<rightharpoonup> warehouse"
  warehouseIds :: "id list"
  customers :: "id \<rightharpoonup> customer"
  suppliers :: "id \<rightharpoonup> supplier"
  paymentMethods :: "id \<rightharpoonup> payment_method"
  paymentTerms :: "id \<rightharpoonup> payment_term"

definition findActiveCompany :: "org_db \<Rightarrow> id \<Rightarrow> active_status option" where
  "findActiveCompany org i =
     (case companies org i of Some Active \<Rightarrow> Some Active | _ \<Rightarrow> None)"

definition findActiveBranch :: "org_db \<Rightarrow> id \<Rightarrow> branch option" where
  "findActiveBranch org i =
     (case branches org i of None \<Rightarrow> None
      | Some b \<Rightarrow> if br_status b = Active then Some b else None)"

definition findWarehouse :: "org_db \<Rightarrow> id \<Rightarrow> warehouse result" where
  "findWarehouse org i = orThrow (warehouses org i) (AppException NotFound)"

definition findCustomerInCompany :: "org_db \<Rightarrow> id \<Rightarrow> id \<Rightarrow> customer result" where
  "findCustomerInCompany org i company =
     (case customers org i of None \<Rightarrow> Inl (AppException NotFound)
      | Some c \<Rightarrow> if cu_company c = company then Inr c else Inl (AppException NotFound))"

definition findSupplierInCompany :: "org_db \<Rightarrow> id \<Rightarrow> id \<Rightarrow> supplier result" where
  "findSupplierInCompany org i company =
     (case suppliers org i of None \<Rightarrow> Inl (AppException NotFound)
      | Some s \<Rightarrow> if su_company s = company then Inr s else Inl (AppException NotFound))"

definition findPaymentMethodInCompany :: "org_db \<Rightarrow> id \<Rightarrow> id \<Rightarrow> payment_method result" where
  "findPaymentMethodInCompany org i company =
     (case paymentMethods org i of None \<Rightarrow> Inl (AppException NotFound)
      | Some p \<Rightarrow> if pm_company p = company then Inr p else Inl (AppException NotFound))"

definition findPaymentTermInCompany :: "org_db \<Rightarrow> id \<Rightarrow> id \<Rightarrow> payment_term result" where
  "findPaymentTermInCompany org i company =
     (case paymentTerms org i of None \<Rightarrow> Inl (AppException NotFound)
      | Some t \<Rightarrow> if pt_company t = company then Inr t else Inl (AppException NotFound))"

text \<open>The active warehouses of a branch.\<close>

definition activeWarehousesOf :: "org_db \<Rightarrow> id \<Rightarrow> id \<Rightarrow> id list" where
  "activeWarehousesOf org company b =
     filter (\<lambda>i. case warehouses org i of None \<Rightarrow> False
       | Some wh \<Rightarrow> wh_company wh = company \<and> wh_branch wh = b \<and> wh_status wh = Active) (warehouseIds org)"

text \<open>The check every \<open>create\<close> starts with.\<close>

definition assertActiveCompany :: "org_db \<Rightarrow> id \<Rightarrow> unit result" where
  "assertActiveCompany org company =
     (case findActiveCompany org company of None \<Rightarrow> Inl (AppException ValidationError)
      | Some _ \<Rightarrow> Inr ())"

definition assertValidBranch :: "org_db \<Rightarrow> id \<Rightarrow> id \<Rightarrow> unit result" where
  "assertValidBranch org b company =
     (case findActiveBranch org b of None \<Rightarrow> Inl (AppException ValidationError)
      | Some br \<Rightarrow> if br_company br \<noteq> company then Inl (AppException ValidationError) else Inr ())"

text \<open>An optional branch is checked only when it is given.\<close>

definition assertBranchIfGiven :: "org_db \<Rightarrow> id option \<Rightarrow> id \<Rightarrow> unit result" where
  "assertBranchIfGiven org b company =
     (case b of None \<Rightarrow> Inr () | Some i \<Rightarrow> assertValidBranch org i company)"

lemma assertActiveCompany_Inr [simp]:
  "assertActiveCompany org c = Inr u \<longleftrightarrow> companies org c = Some Active"
  by (auto simp: assertActiveCompany_def findActiveCompany_def
      split: option.splits active_status.splits)

lemma assertValidBranch_Inr [simp]:
  "assertValidBranch org b c = Inr u \<longleftrightarrow>
    (\<exists>br. branches org b = Some br \<and> br_status br = Active \<and> br_company br = c)"
  by (auto simp: assertValidBranch_def findActiveBranch_def split: option.splits)

lemma findCustomerInCompany_Inr [simp]:
  "findCustomerInCompany org i c = Inr cu \<longleftrightarrow> customers org i = Some cu \<and> cu_company cu = c"
  by (auto simp: findCustomerInCompany_def split: option.splits)

lemma findSupplierInCompany_Inr [simp]:
  "findSupplierInCompany org i c = Inr su \<longleftrightarrow> suppliers org i = Some su \<and> su_company su = c"
  by (auto simp: findSupplierInCompany_def split: option.splits)

lemma findPaymentMethodInCompany_Inr [simp]:
  "findPaymentMethodInCompany org i c = Inr p \<longleftrightarrow> paymentMethods org i = Some p \<and> pm_company p = c"
  by (auto simp: findPaymentMethodInCompany_def split: option.splits)

end
