(* ===== verification/Journals.thy ===== *)
theory Journals
  imports Double_Entry Doc_Number Organization
begin

text \<open>
  Manual and automatic journal entries (\<open>accounting/services/journal-entries.service.ts\<close>) with
  the accounting period resolver (\<open>accounting-period-resolver.service.ts\<close>). The tables are lists
  of rows in table order where the code searches them by a condition; \<open>nextId\<close> supplies the
  UUIDs. An operation returns \<open>Inl\<close> for a rejected transaction (rolled back, so the caller keeps
  the old state) or the result with the new state. The unique indexes of the journal table are
  part of \<open>insertJournal\<close>.
\<close>

section \<open>Tables\<close>

record account =
  ac_id :: id
  ac_company :: id
  ac_code :: string
  ac_active :: bool

datatype fiscal_year_status = FYOpen | FYClosed
datatype period_status = POpen | PLocked

record fiscal_year =
  fy_company :: id
  fy_start :: day
  fy_end :: day
  fy_status :: fiscal_year_status

record period =
  pe_id :: id
  pe_fiscalYear :: id
  pe_start :: day
  pe_end :: day
  pe_status :: period_status

datatype journal_status = JDraft | JPosted | JCancelled
datatype source_type = SManual | SPayment | SOpeningBalance
datatype journal_reference = JPayment | JSale | JPurchaseOrder

record line_dto = dc_line +
  ln_account :: id
  ln_reference :: "(journal_reference \<times> id) option"

record journal_line = line_dto +
  ln_entry :: id

record journal =
  je_id :: id
  je_number :: string
  je_company :: id
  je_branch :: "id option"
  je_period :: id
  je_entryDate :: jdate
  je_status :: journal_status
  je_sourceType :: source_type
  je_sourceId :: "id option"
  je_totalDebit :: int
  je_totalCredit :: int
  je_createdBy :: id
  je_postedBy :: "id option"
  je_postedAt :: "jdate option"

record acct_db =
  accounts :: "account list"
  fiscalYears :: "id \<rightharpoonup> fiscal_year"
  periods :: "period list"
  journals :: "journal list"
  journalLines :: "journal_line list"
  journalCounters :: counters
  nextId :: id

section \<open>Accounting periods\<close>

definition period_of_company :: "acct_db \<Rightarrow> id \<Rightarrow> period \<Rightarrow> bool" where
  "period_of_company db company p =
     (case fiscalYears db (pe_fiscalYear p) of None \<Rightarrow> False | Some fy \<Rightarrow> fy_company fy = company)"

definition covers :: "period \<Rightarrow> day \<Rightarrow> bool" where
  "covers p d \<longleftrightarrow> day_le (pe_start p) d \<and> day_le d (pe_end p)"

text \<open>The two status checks, in the order of the code.\<close>

definition assertPostable :: "fiscal_year option \<Rightarrow> period \<Rightarrow> unit result" where
  "assertPostable fy p =
     (if (case fy of None \<Rightarrow> False | Some f \<Rightarrow> fy_status f = FYClosed) then Inl (AppException Conflict)
      else if pe_status p = PLocked then Inl (AppException Conflict)
      else Inr ())"

definition createYearPeriod :: "id \<Rightarrow> nat \<Rightarrow> acct_db \<Rightarrow> period \<times> acct_db" where
  "createYearPeriod company year db =
     (let fid = nextId db; pid = nextId db + 1;
          p = \<lparr>pe_id = pid, pe_fiscalYear = fid, pe_start = (year, 1, 1), pe_end = (year, 12, 31),
               pe_status = POpen\<rparr>
      in (p, db\<lparr>fiscalYears := (fiscalYears db)(fid \<mapsto> \<lparr>fy_company = company,
                  fy_start = (year, 1, 1), fy_end = (year, 12, 31), fy_status = FYOpen\<rparr>),
                periods := periods db @ [p],
                nextId := nextId db + 2\<rparr>))"

definition resolveOpenPeriod :: "id \<Rightarrow> jdate \<Rightarrow> acct_db \<Rightarrow> (period \<times> acct_db) result" where
  "resolveOpenPeriod company entryDate db =
     (let dateOnly = toDateOnly entryDate
      in case List.find (\<lambda>p. period_of_company db company p \<and> covers p dateOnly) (periods db) of
           Some p \<Rightarrow>
             andThen (assertPostable (fiscalYears db (pe_fiscalYear p)) p) (\<lambda>_. Inr (p, db))
         | None \<Rightarrow>
             let year = getUTCFullYear entryDate
             in case List.find (\<lambda>p. period_of_company db company p
                    \<and> pe_start p = (year, 1, 1) \<and> pe_end p = (year, 12, 31)) (periods db) of
                  Some p \<Rightarrow> Inr (p, db)
                | None \<Rightarrow> Inr (createYearPeriod company year db))"

section \<open>Journal numbers and rows\<close>

definition generateJournalNumber :: "id \<Rightarrow> nat \<Rightarrow> acct_db \<Rightarrow> string \<times> acct_db" where
  "generateJournalNumber company year db =
     (let (nextSequence, t) = next_sequence company year (journalCounters db)
      in (formatDocumentNumber ''JE'' year nextSequence, db\<lparr>journalCounters := t\<rparr>))"

interpretation journal_numbers: numbering generateJournalNumber journalCounters "''JE''"
  by unfold_locales (simp_all add: generateJournalNumber_def next_sequence_eq)

definition findJournalInCompany :: "id \<Rightarrow> id \<Rightarrow> acct_db \<Rightarrow> journal result" where
  "findJournalInCompany i company db =
     orThrow (List.find (\<lambda>j. je_id j = i \<and> je_company j = company) (journals db))
       (AppException NotFound)"

definition findBySource :: "id \<Rightarrow> source_type \<Rightarrow> id \<Rightarrow> acct_db \<Rightarrow> journal option" where
  "findBySource company sourceType sourceId db =
     List.find (\<lambda>j. je_company j = company \<and> je_sourceType j = sourceType
        \<and> je_sourceId j = Some sourceId) (journals db)"

definition linesOf :: "id \<Rightarrow> acct_db \<Rightarrow> journal_line list" where
  "linesOf i db = filter (\<lambda>l. ln_entry l = i) (journalLines db)"

text \<open>
  Insertion under the unique indexes (company, number) and (company, source type, source id); a
  null source id never collides.
\<close>

definition insertJournal :: "journal \<Rightarrow> acct_db \<Rightarrow> acct_db result" where
  "insertJournal j db =
     (if \<exists>k \<in> set (journals db). je_company k = je_company j \<and> je_number k = je_number j
      then Inl (DupEntry ''number'')
      else if \<exists>k \<in> set (journals db). je_company k = je_company j
          \<and> je_sourceType k = je_sourceType j \<and> je_sourceId j \<noteq> None
          \<and> je_sourceId k = je_sourceId j
      then Inl (DupEntry ''source'')
      else Inr (db\<lparr>journals := journals db @ [j]\<rparr>))"

text \<open>A line is stored with its amounts read as numbers and formatted with \<open>toFixed(2)\<close>.\<close>

definition storeLine :: "id \<Rightarrow> line_dto \<Rightarrow> journal_line" where
  "storeLine entry l =
     \<lparr>debitAmount = to_fixed2 (js_num (debitAmount l)),
      creditAmount = to_fixed2 (js_num (creditAmount l)),
      ln_account = ln_account l, ln_reference = ln_reference l, ln_entry = entry\<rparr>"

definition insertLines :: "id \<Rightarrow> line_dto list \<Rightarrow> acct_db \<Rightarrow> acct_db" where
  "insertLines entry ls db =
     db\<lparr>journalLines := journalLines db @ map (storeLine entry) ls\<rparr>"

definition updateJournal :: "id \<Rightarrow> (journal \<Rightarrow> journal) \<Rightarrow> acct_db \<Rightarrow> acct_db" where
  "updateJournal i f db = db\<lparr>journals := map (\<lambda>j. if je_id j = i then f j else j) (journals db)\<rparr>"

section \<open>Operations\<close>

definition assertLineAccount :: "id \<Rightarrow> acct_db \<Rightarrow> line_dto \<Rightarrow> unit result" where
  "assertLineAccount company db l =
     (case List.find (\<lambda>a. ac_id a = ln_account l \<and> ac_company a = company) (accounts db) of
        None \<Rightarrow> Inl (AppException ValidationError)
      | Some a \<Rightarrow> if \<not> ac_active a then Inl (AppException ValidationError) else Inr ())"

definition assertLinesReferenceValidAccounts :: "line_dto list \<Rightarrow> id \<Rightarrow> acct_db \<Rightarrow> unit result" where
  "assertLinesReferenceValidAccounts ls company db = checkAll (assertLineAccount company db) ls"

text \<open>The draft totals: the same integer-cents accumulation, not checked for balance.\<close>

definition draftTotals :: "line_dto list \<Rightarrow> real \<times> real" where
  "draftTotals ls = (sumCents debitAmount ls, sumCents creditAmount ls)"

record create_journal_dto =
  cj_branch :: "id option"
  cj_entryDate :: "jdate option"
  cj_lines :: "line_dto list"

definition createJournal ::
  "org_db \<Rightarrow> id \<Rightarrow> id \<Rightarrow> create_journal_dto \<Rightarrow> jdate \<Rightarrow> acct_db \<Rightarrow> (journal \<times> acct_db) result" where
  "createJournal org company user dto now db =
     andThen (assertActiveCompany org company) (\<lambda>_.
     andThen (assertBranchIfGiven org (cj_branch dto) company) (\<lambda>_.
     let entryDate = (case cj_entryDate dto of Some d \<Rightarrow> d | None \<Rightarrow> now)
     in andThen (assertLinesReferenceValidAccounts (cj_lines dto) company db) (\<lambda>_.
     andThen (resolveOpenPeriod company entryDate db) (\<lambda>(p, db1).
     let (number, db2) = generateJournalNumber company (getUTCFullYear entryDate) db1;
         (totalDebitCents, totalCreditCents) = draftTotals (cj_lines dto);
         j = \<lparr>je_id = nextId db2, je_number = number, je_company = company,
              je_branch = cj_branch dto, je_period = pe_id p, je_entryDate = entryDate,
              je_status = JDraft, je_sourceType = SManual, je_sourceId = None,
              je_totalDebit = to_fixed2 (js_div totalDebitCents 100),
              je_totalCredit = to_fixed2 (js_div totalCreditCents 100),
              je_createdBy = user, je_postedBy = None, je_postedAt = None\<rparr>
     in andThen (insertJournal j (db2\<lparr>nextId := nextId db2 + 1\<rparr>)) (\<lambda>db3.
        Inr (j, insertLines (je_id j) (cj_lines dto) db3))))))"

definition postJournal :: "id \<Rightarrow> id \<Rightarrow> id \<Rightarrow> jdate \<Rightarrow> acct_db \<Rightarrow> acct_db result" where
  "postJournal i company user now db =
     andThen (findJournalInCompany i company db) (\<lambda>entry.
     if je_status entry \<noteq> JDraft then Inl (AppException Conflict)
     else andThen (assertBalanced (linesOf i db)) (\<lambda>(totalDebit, totalCredit).
     andThen (orThrow (List.find (\<lambda>p. pe_id p = je_period entry) (periods db)) EntityNotFound) (\<lambda>p.
     andThen (orThrow (fiscalYears db (pe_fiscalYear p)) EntityNotFound) (\<lambda>fy.
     andThen (assertPostable (Some fy) p) (\<lambda>_.
     Inr (updateJournal i (\<lambda>j. j\<lparr>je_status := JPosted, je_totalDebit := totalDebit,
            je_totalCredit := totalCredit, je_postedBy := Some user,
            je_postedAt := Some now\<rparr>) db))))))"

text \<open>
  \<open>cancel\<close> runs outside a transaction: a read with its check, then a save. \<open>repository.save\<close>
  writes every column of the entity that was read, so the row becomes that entity.
\<close>

definition cancelJournalRead :: "id \<Rightarrow> id \<Rightarrow> acct_db \<Rightarrow> journal result" where
  "cancelJournalRead i company db =
     andThen (findJournalInCompany i company db) (\<lambda>entry.
     if je_status entry \<noteq> JDraft then Inl (AppException Conflict) else Inr entry)"

definition cancelJournalSave :: "journal \<Rightarrow> acct_db \<Rightarrow> acct_db" where
  "cancelJournalSave entry db = updateJournal (je_id entry) (\<lambda>_. entry\<lparr>je_status := JCancelled\<rparr>) db"

definition cancelJournal :: "id \<Rightarrow> id \<Rightarrow> acct_db \<Rightarrow> acct_db result" where
  "cancelJournal i company db =
     andThen (cancelJournalRead i company db) (\<lambda>entry. Inr (cancelJournalSave entry db))"

record internal_params =
  ip_company :: id
  ip_branch :: "id option"
  ip_entryDate :: jdate
  ip_sourceType :: source_type
  ip_sourceId :: id
  ip_user :: id
  ip_lines :: "line_dto list"

definition createInternal :: "internal_params \<Rightarrow> jdate \<Rightarrow> acct_db \<Rightarrow> (journal \<times> acct_db) result" where
  "createInternal params now db =
     andThen (assertBalanced (ip_lines params)) (\<lambda>(totalDebit, totalCredit).
     andThen (resolveOpenPeriod (ip_company params) (ip_entryDate params) db) (\<lambda>(p, db1).
     let (number, db2) =
           generateJournalNumber (ip_company params) (getUTCFullYear (ip_entryDate params)) db1;
         j = \<lparr>je_id = nextId db2, je_number = number, je_company = ip_company params,
              je_branch = ip_branch params, je_period = pe_id p,
              je_entryDate = ip_entryDate params, je_status = JPosted,
              je_sourceType = ip_sourceType params, je_sourceId = Some (ip_sourceId params),
              je_totalDebit = totalDebit, je_totalCredit = totalCredit,
              je_createdBy = ip_user params, je_postedBy = Some (ip_user params),
              je_postedAt = Some now\<rparr>
     in andThen (insertJournal j (db2\<lparr>nextId := nextId db2 + 1\<rparr>)) (\<lambda>db3.
        Inr (j, insertLines (je_id j) (ip_lines params) db3))))"

section \<open>Frames\<close>

lemma updateJournal_simps [simp]:
  "journalLines (updateJournal i f db) = journalLines db"
  "nextId (updateJournal i f db) = nextId db"
  "accounts (updateJournal i f db) = accounts db"
  "periods (updateJournal i f db) = periods db"
  "fiscalYears (updateJournal i f db) = fiscalYears db"
  "linesOf k (updateJournal i f db) = linesOf k db"
  by (simp_all add: updateJournal_def linesOf_def)

text \<open>Steps that touch neither journals nor lines and only draw identifiers.\<close>

definition same_ledger :: "acct_db \<Rightarrow> acct_db \<Rightarrow> bool" where
  "same_ledger db db' \<longleftrightarrow> journals db' = journals db \<and> journalLines db' = journalLines db
     \<and> accounts db' = accounts db \<and> nextId db \<le> nextId db'"

lemma same_ledger_trans: "same_ledger a b \<Longrightarrow> same_ledger b c \<Longrightarrow> same_ledger a c"
  by (simp add: same_ledger_def)

lemma resolveOpenPeriod_same:
  "resolveOpenPeriod company d db = Inr (p, db') \<Longrightarrow> same_ledger db db'"
  by (auto simp: resolveOpenPeriod_def same_ledger_def Let_def createYearPeriod_def
      split: option.splits)

lemma generateJournalNumber_same:
  "generateJournalNumber company y db = (n, db') \<Longrightarrow> same_ledger db db'"
  by (auto simp: generateJournalNumber_def same_ledger_def Let_def next_sequence_eq)

lemma nextId_same: "same_ledger db (db\<lparr>nextId := nextId db + n\<rparr>)"
  by (simp add: same_ledger_def)

lemma insertJournal_Inr:
  "insertJournal j db = Inr db' \<longleftrightarrow>
     (\<forall>k \<in> set (journals db). je_company k = je_company j \<longrightarrow> je_number k \<noteq> je_number j)
     \<and> (\<forall>k \<in> set (journals db). je_company k = je_company j \<and> je_sourceType k = je_sourceType j
          \<and> je_sourceId j \<noteq> None \<longrightarrow> je_sourceId k \<noteq> je_sourceId j)
     \<and> db' = db\<lparr>journals := journals db @ [j]\<rparr>"
  by (auto simp: insertJournal_def)

lemma findJournalInCompany_Inr:
  "findJournalInCompany i company db = Inr j \<Longrightarrow>
     j \<in> set (journals db) \<and> je_id j = i \<and> je_company j = company"
  by (auto simp: findJournalInCompany_def find_Some_iff)

section \<open>The ledger invariant\<close>

text \<open>
  Every posted entry has lines that satisfy the integer double-entry law, and its stored totals
  are their sums; every entry, posted or not, is of moderate size; identifiers are unique and
  below the supply.
\<close>

definition entry_ok :: "acct_db \<Rightarrow> journal \<Rightarrow> bool" where
  "entry_ok db j \<longleftrightarrow> je_id j < nextId db \<and> moderate (linesOf (je_id j) db)
     \<and> (je_status j = JPosted \<longrightarrow> balanced (linesOf (je_id j) db)
          \<and> je_totalDebit j = debits (linesOf (je_id j) db)
          \<and> je_totalCredit j = credits (linesOf (je_id j) db))"

definition ledger_ok :: "acct_db \<Rightarrow> bool" where
  "ledger_ok db \<longleftrightarrow> distinct (map je_id (journals db))
     \<and> (\<forall>j \<in> set (journals db). entry_ok db j)
     \<and> (\<forall>l \<in> set (journalLines db). ln_entry l < nextId db)"

text \<open>A posted entry, with its lines, is still there unchanged.\<close>

definition keeps_posted :: "acct_db \<Rightarrow> acct_db \<Rightarrow> bool" where
  "keeps_posted db db' \<longleftrightarrow> (\<forall>j \<in> set (journals db). je_status j = JPosted \<longrightarrow>
     j \<in> set (journals db') \<and> linesOf (je_id j) db' = linesOf (je_id j) db)"

lemma keeps_posted_refl [simp]: "keeps_posted db db"
  by (simp add: keeps_posted_def)

lemma keeps_posted_trans: "keeps_posted a b \<Longrightarrow> keeps_posted b c \<Longrightarrow> keeps_posted a c"
  by (simp add: keeps_posted_def)

lemma linesOf_same: "same_ledger db db' \<Longrightarrow> linesOf i db' = linesOf i db"
  by (simp add: same_ledger_def linesOf_def)

lemma ledger_ok_same: "same_ledger db db' \<Longrightarrow> ledger_ok db \<Longrightarrow> ledger_ok db'"
  by (fastforce simp: ledger_ok_def entry_ok_def linesOf_same same_ledger_def linesOf_def)

lemma keeps_posted_same: "same_ledger db db' \<Longrightarrow> keeps_posted db db'"
  by (simp add: keeps_posted_def linesOf_same same_ledger_def)

lemma moderate_each:
  assumes "moderate ls" "l \<in> set ls"
  shows "\<bar>debitAmount l\<bar> \<le> 2 ^ 50 \<and> \<bar>creditAmount l\<bar> \<le> 2 ^ 50"
proof -
  have "\<bar>f l\<bar> \<le> sum_list (map (\<lambda>l. \<bar>f l :: int\<bar>) ls)" for f
    by (rule member_le_sum_list) (use assms(2) in auto)
  from this [of debitAmount] this [of creditAmount] assms(1) show ?thesis
    unfolding moderate_def by linarith
qed

lemma storeLine_amounts:
  assumes "\<bar>debitAmount l\<bar> \<le> 2 ^ 50" "\<bar>creditAmount l\<bar> \<le> 2 ^ 50"
  shows "debitAmount (storeLine e l) = debitAmount l"
    and "creditAmount (storeLine e l) = creditAmount l"
  using assms by (simp_all add: storeLine_def to_fixed2_js_num)

lemma stored_lines:
  assumes "moderate ls"
  shows "debits (map (storeLine e) ls) = debits ls" "credits (map (storeLine e) ls) = credits ls"
    "moderate (map (storeLine e) ls) = moderate ls"
    "balanced (map (storeLine e) ls) = balanced ls"
proof -
  have d: "map debitAmount (map (storeLine e) ls) = map debitAmount ls"
    and c: "map creditAmount (map (storeLine e) ls) = map creditAmount ls"
    using moderate_each [OF assms] by (simp_all add: storeLine_amounts)
  from d show 1: "debits (map (storeLine e) ls) = debits ls" by (simp only: debits_def)
  from c show 2: "credits (map (storeLine e) ls) = credits ls" by (simp only: credits_def)
  have "map (\<lambda>l. \<bar>debitAmount l\<bar>) (map (storeLine e) ls) = map (\<lambda>l. \<bar>debitAmount l\<bar>) ls"
    "map (\<lambda>l. \<bar>creditAmount l\<bar>) (map (storeLine e) ls) = map (\<lambda>l. \<bar>creditAmount l\<bar>) ls"
    using moderate_each [OF assms] by (simp_all add: storeLine_amounts)
  then show "moderate (map (storeLine e) ls) = moderate ls" by (simp only: moderate_def)
  have "one_sided (storeLine e l) = one_sided l" if "l \<in> set ls" for l
    using moderate_each [OF assms that] by (simp add: one_sided_def storeLine_amounts)
  with 1 2 show "balanced (map (storeLine e) ls) = balanced ls" by (auto simp: balanced_def)
qed

text \<open>Adding an entry whose identifier was drawn from the supply.\<close>

lemma insert_entry:
  assumes ok: "ledger_ok db" and ins: "insertJournal j (db\<lparr>nextId := nextId db + 1\<rparr>) = Inr db'"
    and j: "je_id j = nextId db" and ls: "moderate ls"
    and posted: "je_status j = JPosted \<Longrightarrow>
      balanced ls \<and> je_totalDebit j = debits ls \<and> je_totalCredit j = credits ls"
  shows "ledger_ok (insertLines (je_id j) ls db') \<and> keeps_posted db (insertLines (je_id j) ls db')
    \<and> j \<in> set (journals (insertLines (je_id j) ls db'))
    \<and> linesOf (je_id j) (insertLines (je_id j) ls db') = map (storeLine (je_id j)) ls"
proof -
  let ?db = "insertLines (je_id j) ls db'"
  from ins have db': "db' = db\<lparr>nextId := nextId db + 1, journals := journals db @ [j]\<rparr>"
    by (simp add: insertJournal_Inr)
  have old: "linesOf (je_id k) ?db = linesOf (je_id k) db" if "je_id k < nextId db" for k
    using that j by (auto simp: linesOf_def insertLines_def storeLine_def db' filter_empty_conv)
  have "linesOf (je_id j) db = []"
    using ok j by (auto simp: linesOf_def ledger_ok_def filter_empty_conv)
  then have new: "linesOf (je_id j) ?db = map (storeLine (je_id j)) ls"
    by (simp add: linesOf_def insertLines_def storeLine_def db' filter_map o_def)
  have "entry_ok ?db k" if "k \<in> set (journals db)" for k
    using ok that old [of k] by (auto simp: ledger_ok_def entry_ok_def insertLines_def db')
  moreover have "entry_ok ?db j"
  proof -
    have "je_id j < nextId ?db" using j by (simp add: insertLines_def db')
    with ls posted show ?thesis unfolding entry_ok_def new by (simp add: stored_lines [OF ls])
  qed
  moreover have "journals ?db = journals db @ [j]" by (simp add: insertLines_def db')
  moreover have "\<forall>l \<in> set (journalLines ?db). ln_entry l < nextId ?db"
    using ok j by (auto simp: insertLines_def db' storeLine_def ledger_ok_def)
  ultimately have "ledger_ok ?db"
    using ok j by (fastforce simp: ledger_ok_def entry_ok_def)
  moreover have "keeps_posted db ?db"
    using ok old \<open>journals ?db = _\<close> by (auto simp: keeps_posted_def ledger_ok_def entry_ok_def)
  ultimately show ?thesis using new \<open>journals ?db = _\<close> by simp
qed

section \<open>Every operation keeps the ledger\<close>

lemma createJournal_ok:
  assumes ok: "ledger_ok db" and ls: "moderate (cj_lines dto)"
    and c: "createJournal org company user dto now db = Inr (j, db')"
  shows "ledger_ok db' \<and> keeps_posted db db' \<and> j \<in> set (journals db') \<and> je_status j = JDraft
    \<and> linesOf (je_id j) db' = map (storeLine (je_id j)) (cj_lines dto)"
proof -
  define d where "d = (case cj_entryDate dto of Some d \<Rightarrow> d | None \<Rightarrow> now)"
  from c obtain p db1 where r: "resolveOpenPeriod company d db = Inr (p, db1)"
    unfolding createJournal_def Let_def d_def [symmetric] by auto
  obtain n db2 where g: "generateJournalNumber company (getUTCFullYear d) db1 = (n, db2)" by force
  from c r g obtain db3 where
    i: "insertJournal j (db2\<lparr>nextId := nextId db2 + 1\<rparr>) = Inr db3"
    and j: "je_id j = nextId db2" "je_status j = JDraft"
    and db': "db' = insertLines (je_id j) (cj_lines dto) db3"
    unfolding createJournal_def Let_def d_def [symmetric] by (auto simp: split_beta)
  have s: "same_ledger db db2"
    using resolveOpenPeriod_same [OF r] generateJournalNumber_same [OF g] by (rule same_ledger_trans)
  have "keeps_posted db db2" by (rule keeps_posted_same [OF s])
  with insert_entry [OF ledger_ok_same [OF s ok] i j(1) ls] show ?thesis
    using j(2) by (auto simp: db' intro: keeps_posted_trans)
qed

lemma createInternal_ok:
  assumes ok: "ledger_ok db" and ls: "moderate (ip_lines ps)"
    and c: "createInternal ps now db = Inr (j, db')"
  shows "ledger_ok db' \<and> keeps_posted db db' \<and> j \<in> set (journals db') \<and> je_status j = JPosted
    \<and> linesOf (je_id j) db' = map (storeLine (je_id j)) (ip_lines ps)
    \<and> balanced (ip_lines ps) \<and> je_totalDebit j = debits (ip_lines ps)"
proof -
  from c obtain td tc p db1 where
    b: "assertBalanced (ip_lines ps) = Inr (td, tc)"
    and r: "resolveOpenPeriod (ip_company ps) (ip_entryDate ps) db = Inr (p, db1)"
    unfolding createInternal_def by auto
  obtain n db2 where
    g: "generateJournalNumber (ip_company ps) (getUTCFullYear (ip_entryDate ps)) db1 = (n, db2)"
    by force
  from c b r g obtain db3 where
    i: "insertJournal j (db2\<lparr>nextId := nextId db2 + 1\<rparr>) = Inr db3"
    and j: "je_id j = nextId db2" "je_status j = JPosted" "je_totalDebit j = td"
      "je_totalCredit j = tc"
    and db': "db' = insertLines (je_id j) (ip_lines ps) db3"
    unfolding createInternal_def by (auto simp: Let_def)
  have bal: "balanced (ip_lines ps) \<and> td = debits (ip_lines ps) \<and> tc = credits (ip_lines ps)"
    using b assertBalanced_spec [OF ls] by (auto split: if_splits)
  have s: "same_ledger db db2"
    using resolveOpenPeriod_same [OF r] generateJournalNumber_same [OF g] by (rule same_ledger_trans)
  have "keeps_posted db db2" by (rule keeps_posted_same [OF s])
  with insert_entry [OF ledger_ok_same [OF s ok] i j(1) ls] show ?thesis
    using j bal by (auto simp: db' intro: keeps_posted_trans)
qed

text \<open>A change of one row that is not posted.\<close>

lemma updateJournal_row:
  assumes ok: "ledger_ok db" and j: "j \<in> set (journals db)" "je_id j = i"
  shows "journals (updateJournal i f db) = map (\<lambda>k. if k = j then f j else k) (journals db)"
proof -
  have inj: "inj_on je_id (set (journals db))" using ok by (simp add: ledger_ok_def distinct_map)
  have "map (\<lambda>k. if je_id k = i then f k else k) (journals db)
      = map (\<lambda>k. if k = j then f j else k) (journals db)"
  proof (rule map_cong [OF refl])
    fix k assume k: "k \<in> set (journals db)"
    show "(if je_id k = i then f k else k) = (if k = j then f j else k)"
      using inj_on_eq_iff [OF inj k j(1)] j(2) by simp
  qed
  then show ?thesis by (simp add: updateJournal_def)
qed

lemma update_entry:
  assumes ok: "ledger_ok db" and j: "j \<in> set (journals db)" "je_id j = i" "je_status j \<noteq> JPosted"
    and f: "je_id (f j) = i" "entry_ok db (f j)"
  shows "ledger_ok (updateJournal i f db) \<and> keeps_posted db (updateJournal i f db)
    \<and> f j \<in> set (journals (updateJournal i f db))"
proof -
  note js = updateJournal_row [OF ok j(1,2), of f]
  have ids: "map je_id (journals (updateJournal i f db)) = map je_id (journals db)"
    using j(2) f(1) by (simp add: js)
  have e: "entry_ok (updateJournal i f db) k = entry_ok db k" for k
    by (simp add: entry_ok_def)
  have "\<forall>k \<in> set (journals (updateJournal i f db)). entry_ok db k"
    unfolding js using ok f(2) by (auto simp: ledger_ok_def)
  then have "ledger_ok (updateJournal i f db)"
    using ok ids by (simp add: ledger_ok_def e)
  moreover have "keeps_posted db (updateJournal i f db)"
    unfolding keeps_posted_def js using j(3) by force
  moreover have "f j \<in> set (journals (updateJournal i f db))"
    unfolding js using j(1) by force
  ultimately show ?thesis by simp
qed

lemma postJournal_ok:
  assumes ok: "ledger_ok db" and p: "postJournal i company user now db = Inr db'"
  shows "ledger_ok db' \<and> keeps_posted db db'
    \<and> (\<exists>j \<in> set (journals db'). je_id j = i \<and> je_status j = JPosted \<and> balanced (linesOf i db'))"
proof -
  from p obtain j td tc where j: "findJournalInCompany i company db = Inr j" "je_status j = JDraft"
    and b: "assertBalanced (linesOf i db) = Inr (td, tc)"
    and db': "db' = updateJournal i (\<lambda>j. j\<lparr>je_status := JPosted, je_totalDebit := td,
        je_totalCredit := tc, je_postedBy := Some user, je_postedAt := Some now\<rparr>) db"
    by (auto simp: postJournal_def split: if_splits)
  let ?f = "\<lambda>j. j\<lparr>je_status := JPosted, je_totalDebit := td,
        je_totalCredit := tc, je_postedBy := Some user, je_postedAt := Some now\<rparr>"
  note f = findJournalInCompany_Inr [OF j(1)]
  then have e: "entry_ok db j" using ok by (simp add: ledger_ok_def)
  then have m: "moderate (linesOf i db)" using f by (simp add: entry_ok_def)
  have bal: "balanced (linesOf i db) \<and> td = debits (linesOf i db) \<and> tc = credits (linesOf i db)"
    using b assertBalanced_spec [OF m] by (simp split: if_splits)
  have "entry_ok db (?f j)" using e f bal by (simp add: entry_ok_def)
  with update_entry [OF ok, of j i ?f] f j(2)
  have u: "ledger_ok db' \<and> keeps_posted db db' \<and> ?f j \<in> set (journals db')"
    by (simp add: db')
  then show ?thesis using f bal by (intro conjI bexI [of _ "?f j"]) (simp_all add: db')
qed

lemma cancelJournal_ok:
  assumes ok: "ledger_ok db" and p: "cancelJournal i company db = Inr db'"
  shows "ledger_ok db' \<and> keeps_posted db db'"
proof -
  from p obtain j where j: "findJournalInCompany i company db = Inr j" "je_status j = JDraft"
    and db': "db' = updateJournal (je_id j) (\<lambda>_. j\<lparr>je_status := JCancelled\<rparr>) db"
    by (auto simp: cancelJournal_def cancelJournalRead_def cancelJournalSave_def split: if_splits)
  note f = findJournalInCompany_Inr [OF j(1)]
  then have "entry_ok db (j\<lparr>je_status := JCancelled\<rparr>)"
    using ok by (auto simp: ledger_ok_def entry_ok_def)
  with update_entry [OF ok, of j i "\<lambda>_. j\<lparr>je_status := JCancelled\<rparr>"] f j(2) show ?thesis
    by (simp add: db')
qed

end
