(* ===== verification/Posting.thy ===== *)
theory Posting
  imports Journals
begin

text \<open>
  Automatic posting of payments to the general ledger
  (\<open>accounting/services/accounting-posting.service.ts\<close>): account resolution that fails closed,
  the two-line entry of a receipt or a supplier payment, the idempotent lookup by source, and the
  reversal entry with debits and credits exchanged. The payment row itself
  (\<open>payments/entities/payment.entity.ts\<close>) is declared here because posting reads it.
\<close>

datatype payment_direction = Receipt | Payment | Refund
datatype payment_status = Confirmed | Cancelled

record payment =
  pa_id :: id
  pa_number :: string
  pa_company :: id
  pa_branch :: "id option"
  pa_direction :: payment_direction
  pa_customer :: "id option"
  pa_supplier :: "id option"
  pa_method :: id
  pa_amount :: int
  pa_currency :: string
  pa_idempotencyKey :: "string option"
  pa_status :: payment_status
  pa_date :: jdate
  pa_createdBy :: id
  pa_updatedBy :: id
  pa_reversedAt :: "jdate option"
  pa_reversedBy :: "id option"
  pa_reallocatedAt :: "jdate option"
  pa_reallocatedBy :: "id option"

definition findActiveAccount :: "id \<Rightarrow> id \<Rightarrow> acct_db \<Rightarrow> account option" where
  "findActiveAccount i company db =
     List.find (\<lambda>a. ac_id a = i \<and> ac_company a = company \<and> ac_active a) (accounts db)"

definition resolveCashBankAccount :: "payment_method \<Rightarrow> id \<Rightarrow> acct_db \<Rightarrow> account result" where
  "resolveCashBankAccount pm company db =
     (case pm_glAccount pm of None \<Rightarrow> Inl (AppException ValidationError)
      | Some i \<Rightarrow> orThrow (findActiveAccount i company db) (AppException ValidationError))"

definition resolveReceivableAccount :: "customer \<Rightarrow> id \<Rightarrow> acct_db \<Rightarrow> account result" where
  "resolveReceivableAccount cu company db =
     (case cu_receivableAccount cu of None \<Rightarrow> Inl (AppException ValidationError)
      | Some i \<Rightarrow> orThrow (findActiveAccount i company db) (AppException ValidationError))"

definition resolvePayableAccount :: "supplier \<Rightarrow> id \<Rightarrow> acct_db \<Rightarrow> account result" where
  "resolvePayableAccount su company db =
     (case su_payableAccount su of None \<Rightarrow> Inl (AppException ValidationError)
      | Some i \<Rightarrow> orThrow (findActiveAccount i company db) (AppException ValidationError))"

text \<open>The debit and the credit account of a payment.\<close>

definition postingAccounts ::
  "payment \<Rightarrow> account \<Rightarrow> customer option \<Rightarrow> supplier option \<Rightarrow> acct_db \<Rightarrow> (id \<times> id) result" where
  "postingAccounts p cashBank cust supp db =
     (case pa_direction p of
        Receipt \<Rightarrow>
          (case cust of None \<Rightarrow> Inl (AppException ValidationError)
           | Some c \<Rightarrow> andThen (resolveReceivableAccount c (pa_company p) db)
               (\<lambda>receivable. Inr (ac_id cashBank, ac_id receivable)))
      | Payment \<Rightarrow>
          (case supp of None \<Rightarrow> Inl (AppException ValidationError)
           | Some s \<Rightarrow> andThen (resolvePayableAccount s (pa_company p) db)
               (\<lambda>payable. Inr (ac_id payable, ac_id cashBank)))
      | Refund \<Rightarrow> Inl (AppException UnprocessableEntity))"

definition postingLines :: "payment \<Rightarrow> id \<Rightarrow> id \<Rightarrow> int \<Rightarrow> line_dto list" where
  "postingLines p debitAccount creditAccount amount =
     [\<lparr>debitAmount = amount, creditAmount = 0, ln_account = debitAccount,
        ln_reference = Some (JPayment, pa_id p)\<rparr>,
      \<lparr>debitAmount = 0, creditAmount = amount, ln_account = creditAccount,
        ln_reference = Some (JPayment, pa_id p)\<rparr>]"

definition isDuplicateSourceError :: "error \<Rightarrow> bool" where
  "isDuplicateSourceError e = (case e of DupEntry ix \<Rightarrow> ix = ''source'' | _ \<Rightarrow> False)"

definition postPayment ::
  "payment \<Rightarrow> payment_method \<Rightarrow> customer option \<Rightarrow> supplier option \<Rightarrow> id \<Rightarrow> jdate \<Rightarrow> acct_db
    \<Rightarrow> (journal \<times> acct_db) result" where
  "postPayment p pm cust supp user now db =
     (case findBySource (pa_company p) SPayment (pa_id p) db of
        Some existing \<Rightarrow> Inr (existing, db)
      | None \<Rightarrow>
          andThen (resolveCashBankAccount pm (pa_company p) db) (\<lambda>cashBank.
          let amount = to_fixed2 (js_num (pa_amount p))
          in andThen (postingAccounts p cashBank cust supp db) (\<lambda>(debitAccount, creditAccount).
             case createInternal
                \<lparr>ip_company = pa_company p, ip_branch = pa_branch p, ip_entryDate = pa_date p,
                 ip_sourceType = SPayment, ip_sourceId = pa_id p, ip_user = user,
                 ip_lines = postingLines p debitAccount creditAccount amount\<rparr> now db of
               Inr r \<Rightarrow> Inr r
             | Inl e \<Rightarrow>
                 if isDuplicateSourceError e then
                   (case findBySource (pa_company p) SPayment (pa_id p) db of
                      Some existing \<Rightarrow> Inr (existing, db)
                    | None \<Rightarrow> Inl e)
                 else Inl e)))"

definition reversalLine :: "payment \<Rightarrow> journal_line \<Rightarrow> line_dto" where
  "reversalLine p l =
     \<lparr>debitAmount = creditAmount l, creditAmount = debitAmount l, ln_account = ln_account l,
      ln_reference = Some (JPayment, pa_id p)\<rparr>"

definition reversePayment ::
  "payment \<Rightarrow> id \<Rightarrow> jdate \<Rightarrow> acct_db \<Rightarrow> (journal option \<times> acct_db) result" where
  "reversePayment p user now db =
     (if pa_direction p = Refund then Inr (None, db)
      else case findBySource (pa_company p) SPayment (pa_id p) db of
        None \<Rightarrow> Inr (None, db)
      | Some original \<Rightarrow>
          if linesOf (je_id original) db = [] then Inr (None, db)
          else andThen (createInternal
             \<lparr>ip_company = pa_company p, ip_branch = pa_branch p, ip_entryDate = now,
              ip_sourceType = SManual, ip_sourceId = nextId db, ip_user = user,
              ip_lines = map (reversalLine p) (linesOf (je_id original) db)\<rparr> now
             (db\<lparr>nextId := nextId db + 1\<rparr>)) (\<lambda>(j, db'). Inr (Some j, db')))"

section \<open>What posting does to the ledger\<close>

text \<open>The signed movement of an account over some lines.\<close>

definition account_net :: "id \<Rightarrow> 'a line_dto_scheme list \<Rightarrow> int" where
  "account_net a ls =
     sum_list (map (\<lambda>l. debitAmount l - creditAmount l) (filter (\<lambda>l. ln_account l = a) ls))"

lemma account_net_simps [simp]:
  "account_net a [] = 0"
  "account_net a (l # ls) =
     (if ln_account l = a then debitAmount l - creditAmount l else 0) + account_net a ls"
  by (simp_all add: account_net_def)

lemma account_net_stored:
  assumes "moderate ls"
  shows "account_net a (map (storeLine e) ls) = account_net a ls"
proof -
  have "\<forall>l \<in> set ls. debitAmount (storeLine e l) = debitAmount l
      \<and> creditAmount (storeLine e l) = creditAmount l"
    using moderate_each [OF assms] by (simp add: storeLine_amounts)
  then show ?thesis by (induction ls) (auto simp: storeLine_def)
qed

lemma account_net_reversal: "account_net a (map (reversalLine p) ls) = - account_net a ls"
  by (induction ls) (auto simp: reversalLine_def)

lemma moderate_reversal: "moderate (map (reversalLine p) ls) = moderate ls"
  by (auto simp: moderate_def reversalLine_def o_def)

lemma findBySource_Some:
  "findBySource c t s db = Some j \<Longrightarrow>
     j \<in> set (journals db) \<and> je_company j = c \<and> je_sourceType j = t \<and> je_sourceId j = Some s"
  by (auto simp: findBySource_def find_Some_iff)

lemma moderate_posting: "\<bar>amount\<bar> \<le> 2 ^ 50 \<Longrightarrow> moderate (postingLines p d c amount)"
  by (simp add: moderate_def postingLines_def)

lemma posting_balanced:
  assumes "0 < amount" "amount \<le> 2 ^ 50"
  shows "assertBalanced (postingLines p d c amount) = Inr (amount, amount)"
proof -
  have "balanced (postingLines p d c amount)"
    using assms(1) by (simp add: balanced_def one_sided_def postingLines_def)
  then show ?thesis
    using assertBalanced_spec [OF moderate_posting, of amount p d c] assms
    by (simp add: postingLines_def)
qed

text \<open>A payment that has no entry yet: the entry created for it.\<close>

lemma postPayment_fresh:
  assumes ok: "ledger_ok db" and amount: "\<bar>pa_amount p\<bar> \<le> 2 ^ 50"
    and new: "findBySource (pa_company p) SPayment (pa_id p) db = None"
    and post: "postPayment p pm cust supp user now db = Inr (j, db')"
  shows "\<exists>cashBank d c. resolveCashBankAccount pm (pa_company p) db = Inr cashBank
    \<and> postingAccounts p cashBank cust supp db = Inr (d, c)
    \<and> ledger_ok db' \<and> keeps_posted db db' \<and> j \<in> set (journals db') \<and> je_status j = JPosted
    \<and> je_totalDebit j = pa_amount p
    \<and> linesOf (je_id j) db' = map (storeLine (je_id j)) (postingLines p d c (pa_amount p))"
proof -
  have a: "to_fixed2 (js_num (pa_amount p)) = pa_amount p"
    using amount by (intro to_fixed2_js_num) auto
  from post new obtain cashBank d c where
    r: "resolveCashBankAccount pm (pa_company p) db = Inr cashBank"
      "postingAccounts p cashBank cust supp db = Inr (d, c)"
    unfolding postPayment_def by auto
  have i: "createInternal \<lparr>ip_company = pa_company p, ip_branch = pa_branch p,
        ip_entryDate = pa_date p, ip_sourceType = SPayment, ip_sourceId = pa_id p, ip_user = user,
        ip_lines = postingLines p d c (pa_amount p)\<rparr> now db = Inr (j, db')"
    (is "?c = _")
    using post new a r by (cases ?c) (simp_all add: postPayment_def split: if_splits)
  from createInternal_ok [OF ok _ i] moderate_posting [OF amount] r show ?thesis
    by (auto simp: postingLines_def)
qed

text \<open>The reversal cancels the original entry on every account.\<close>

lemma reversePayment_nets:
  assumes ok: "ledger_ok db" and rev: "reversePayment p user now db = Inr (Some j, db')"
  shows "\<exists>original. findBySource (pa_company p) SPayment (pa_id p) db = Some original
    \<and> ledger_ok db' \<and> keeps_posted db db' \<and> je_status j = JPosted \<and> j \<in> set (journals db')
    \<and> (\<forall>a. account_net a (linesOf (je_id j) db') = - account_net a (linesOf (je_id original) db))"
proof -
  let ?db = "db\<lparr>nextId := nextId db + 1\<rparr>"
  from rev obtain original where o: "findBySource (pa_company p) SPayment (pa_id p) db = Some original"
    and i: "createInternal \<lparr>ip_company = pa_company p, ip_branch = pa_branch p, ip_entryDate = now,
        ip_sourceType = SManual, ip_sourceId = nextId db, ip_user = user,
        ip_lines = map (reversalLine p) (linesOf (je_id original) db)\<rparr> now ?db = Inr (j, db')"
    by (auto simp: reversePayment_def split: option.splits if_splits)
  have "moderate (linesOf (je_id original) db)"
    using findBySource_Some [OF o] ok by (simp add: ledger_ok_def entry_ok_def)
  then have m: "moderate (map (reversalLine p) (linesOf (je_id original) db))"
    by (simp only: moderate_reversal)
  have ok': "ledger_ok ?db" by (rule ledger_ok_same [OF nextId_same ok])
  have k: "keeps_posted db ?db" by (rule keeps_posted_same [OF nextId_same])
  have c: "ledger_ok db' \<and> keeps_posted ?db db' \<and> j \<in> set (journals db') \<and> je_status j = JPosted
      \<and> linesOf (je_id j) db'
        = map (storeLine (je_id j)) (map (reversalLine p) (linesOf (je_id original) db))"
    using createInternal_ok [OF ok' _ i] m by (simp del: map_map)
  then have "account_net a (linesOf (je_id j) db') = - account_net a (linesOf (je_id original) db)" for a
    by (simp add: account_net_stored [OF m] account_net_reversal del: map_map)
  moreover have "keeps_posted db db'" using k c by (blast intro: keeps_posted_trans)
  ultimately show ?thesis using o c by blast
qed

end
