(* ===== verification/Ledger_Reports.thy ===== *)
theory Ledger_Reports
  imports Posting
begin

text \<open>
  The read side of the ledger: the trial balance (\<open>trial-balance.service.ts\<close>) and the general
  ledger (\<open>general-ledger.service.ts\<close>). The joins, filters, grouping and sums of the SQL query are
  list functions over the tables; the totals of the trial balance are accumulated in JavaScript
  numbers from the grouped rows. \<open>collate\<close> is the sort key the database's collation gives to
  account codes and journal numbers (a parameter).
\<close>

record ledger_query =
  lq_account :: "id option"
  lq_branch :: "id option"
  lq_allowedBranches :: "id list option"
  lq_from :: "jdate option"
  lq_to :: "jdate option"

definition branchMatches :: "ledger_query \<Rightarrow> journal \<Rightarrow> bool" where
  "branchMatches q j =
     (case lq_branch q of
        Some b \<Rightarrow> je_branch j = Some b
      | None \<Rightarrow>
          (case lq_allowedBranches q of
             None \<Rightarrow> True
           | Some bs \<Rightarrow> bs = [] \<or> (case je_branch j of None \<Rightarrow> False | Some b \<Rightarrow> b \<in> set bs)))"

text \<open>The WHERE clause on the joined journal entry.\<close>

definition entryMatches :: "id \<Rightarrow> ledger_query \<Rightarrow> journal \<Rightarrow> bool" where
  "entryMatches company q j \<longleftrightarrow> je_company j = company \<and> je_status j = JPosted \<and> branchMatches q j
     \<and> (case lq_from q of None \<Rightarrow> True | Some d \<Rightarrow> date_le d (je_entryDate j))
     \<and> (case lq_to q of None \<Rightarrow> True | Some d \<Rightarrow> date_le (je_entryDate j) d)"

definition entryOf :: "acct_db \<Rightarrow> journal_line \<Rightarrow> journal option" where
  "entryOf db l = List.find (\<lambda>j. je_id j = ln_entry l) (journals db)"

definition accountOf :: "acct_db \<Rightarrow> journal_line \<Rightarrow> account option" where
  "accountOf db l = List.find (\<lambda>a. ac_id a = ln_account l) (accounts db)"

text \<open>The lines left by the two inner joins and the WHERE clause.\<close>

definition selectedLines :: "id \<Rightarrow> ledger_query \<Rightarrow> acct_db \<Rightarrow> journal_line list" where
  "selectedLines company q db =
     filter (\<lambda>l. (case entryOf db l of None \<Rightarrow> False | Some j \<Rightarrow> entryMatches company q j)
        \<and> accountOf db l \<noteq> None) (journalLines db)"

section \<open>Trial balance\<close>

record tb_row =
  tb_account :: id
  tb_debit :: int
  tb_credit :: int

text \<open>GROUP BY account, in the order of the account codes: an account without lines has no row.\<close>

definition groupedRows :: "(string \<Rightarrow> nat) \<Rightarrow> acct_db \<Rightarrow> journal_line list \<Rightarrow> tb_row list" where
  "groupedRows collate db ls =
     map (\<lambda>a. let mine = filter (\<lambda>l. ln_account l = ac_id a) ls
              in \<lparr>tb_account = ac_id a, tb_debit = debits mine, tb_credit = credits mine\<rparr>)
       (filter (\<lambda>a. list_ex (\<lambda>l. ln_account l = ac_id a) ls)
         (sort_key (collate \<circ> ac_code) (accounts db)))"

definition trialBalance ::
  "(string \<Rightarrow> nat) \<Rightarrow> id \<Rightarrow> ledger_query \<Rightarrow> acct_db \<Rightarrow> tb_row list \<times> int \<times> int" where
  "trialBalance collate company q db =
     (let rawRows = groupedRows collate db (selectedLines company q db);
          totalDebitCents = sumCents tb_debit rawRows;
          totalCreditCents = sumCents tb_credit rawRows
      in (map (\<lambda>r. r\<lparr>tb_debit := to_fixed2 (js_num (tb_debit r)),
                     tb_credit := to_fixed2 (js_num (tb_credit r))\<rparr>) rawRows,
          to_fixed2 (js_div totalDebitCents 100), to_fixed2 (js_div totalCreditCents 100)))"

section \<open>General ledger\<close>

definition ledgerRows ::
  "(string \<Rightarrow> nat) \<Rightarrow> id \<Rightarrow> ledger_query \<Rightarrow> acct_db \<Rightarrow> (journal \<times> journal_line) list" where
  "ledgerRows collate company q db =
     (let ls = filter (\<lambda>l. case lq_account q of None \<Rightarrow> True | Some a \<Rightarrow> ln_account l = a)
                 (selectedLines company q db)
      in sort_key (\<lambda>(j, l). date_key (je_entryDate j)) (sort_key (\<lambda>(j, l). collate (je_number j))
           (map (\<lambda>l. (the (entryOf db l), l)) ls)))"

definition generalLedger ::
  "(string \<Rightarrow> nat) \<Rightarrow> id \<Rightarrow> ledger_query \<Rightarrow> nat \<Rightarrow> nat \<Rightarrow> acct_db
    \<Rightarrow> (journal \<times> journal_line) list \<times> nat" where
  "generalLedger collate company q page limit db =
     (let rows = ledgerRows collate company q db in (paginate page limit rows, length rows))"

section \<open>The selected lines balance\<close>

text \<open>The foreign keys of the line table: the entry and the account of a line exist.\<close>

definition references_ok :: "acct_db \<Rightarrow> bool" where
  "references_ok db \<longleftrightarrow> distinct (map ac_id (accounts db))
     \<and> (\<forall>l \<in> set (journalLines db). accountOf db l \<noteq> None)"

lemma entryOf_row:
  assumes "ledger_ok db"
  shows "entryOf db l = Some j \<longleftrightarrow> j \<in> set (journals db) \<and> je_id j = ln_entry l"
proof
  assume "entryOf db l = Some j"
  then show "j \<in> set (journals db) \<and> je_id j = ln_entry l"
    unfolding entryOf_def by (auto simp: find_Some_iff)
next
  assume j: "j \<in> set (journals db) \<and> je_id j = ln_entry l"
  then show "entryOf db l = Some j"
    using find_unique [of je_id "journals db" j] assms by (simp add: entryOf_def ledger_ok_def)
qed

lemma selected_lines:
  assumes ok: "ledger_ok db" and refs: "references_ok db"
    and sel: "sel = filter (entryMatches company q) (journals db)"
  shows "selectedLines company q db = filter (\<lambda>l. ln_entry l \<in> set (map je_id sel)) (journalLines db)"
  unfolding selectedLines_def
proof (rule filter_cong [OF refl])
  fix l assume l: "l \<in> set (journalLines db)"
  have "(case entryOf db l of None \<Rightarrow> False | Some j \<Rightarrow> entryMatches company q j)
      \<longleftrightarrow> (\<exists>j. entryOf db l = Some j \<and> entryMatches company q j)"
    by (auto split: option.splits)
  also have "\<dots> \<longleftrightarrow> ln_entry l \<in> set (map je_id sel)"
    by (force simp: entryOf_row [OF ok] sel)
  finally show "((case entryOf db l of None \<Rightarrow> False | Some j \<Rightarrow> entryMatches company q j)
      \<and> accountOf db l \<noteq> None) = (ln_entry l \<in> set (map je_id sel))"
    using refs l by (simp add: references_ok_def)
qed

lemma selected_balance:
  assumes ok: "ledger_ok db" and refs: "references_ok db"
  shows "debits (selectedLines company q db) = credits (selectedLines company q db)"
proof -
  define sel where "sel = filter (entryMatches company q) (journals db)"
  have d: "distinct (map je_id sel)"
    using ok by (simp add: sel_def ledger_ok_def distinct_map_filter)
  have split: "sum_list (map f (selectedLines company q db))
      = sum_list (map (\<lambda>j. sum_list (map f (linesOf (je_id j) db))) sel)" for f :: "journal_line \<Rightarrow> int"
    unfolding selected_lines [OF ok refs sel_def] sum_list_by_key [OF d, symmetric] linesOf_def
    by (simp add: o_def)
  have "sum_list (map debitAmount (linesOf (je_id j) db)) = sum_list (map creditAmount (linesOf (je_id j) db))"
    if "j \<in> set sel" for j
    using that ok by (auto simp: sel_def entryMatches_def ledger_ok_def entry_ok_def balanced_def
        debits_def credits_def)
  then show ?thesis unfolding debits_def credits_def split
    by (rule arg_cong [where f = sum_list, OF map_cong [OF refl]])
qed

lemma grouped_sums:
  fixes f :: "journal_line \<Rightarrow> int"
  assumes refs: "distinct (map ac_id (accounts db))"
    and acc: "\<forall>l \<in> set ls. accountOf db l \<noteq> None"
  shows "sum_list (map (\<lambda>a. sum_list (map f (filter (\<lambda>l. ln_account l = ac_id a) ls)))
      (filter (\<lambda>a. list_ex (\<lambda>l. ln_account l = ac_id a) ls) (sort_key (collate \<circ> ac_code) (accounts db))))
    = sum_list (map f ls)"
proof -
  define rs where "rs = filter (\<lambda>a. list_ex (\<lambda>l. ln_account l = ac_id a) ls)
      (sort_key (collate \<circ> ac_code) (accounts db))"
  have "distinct (map ac_id (sort_key (collate \<circ> ac_code) (accounts db)))"
    using refs by (simp add: distinct_map)
  then have "distinct (map ac_id rs)" by (simp add: rs_def distinct_map_filter)
  moreover have "ln_account l \<in> set (map ac_id rs)" if l: "l \<in> set ls" for l
  proof -
    obtain a where "a \<in> set (accounts db)" "ac_id a = ln_account l"
      using acc l unfolding accountOf_def by (blast dest: find_SomeD)
    then show ?thesis using l by (force simp: rs_def list_ex_iff)
  qed
  ultimately show ?thesis
    using sum_list_by_key [of "map ac_id rs" f ln_account ls]
    unfolding rs_def [symmetric] by (simp add: o_def cong: filter_cong)
qed

lemma selected_accounts:
  "l \<in> set (selectedLines company q db) \<Longrightarrow> accountOf db l \<noteq> None"
  by (simp add: selectedLines_def)

lemma grouped_debits:
  assumes "references_ok db"
  shows "sum_list (map tb_debit (groupedRows collate db (selectedLines company q db)))
      = debits (selectedLines company q db)"
    and "sum_list (map tb_credit (groupedRows collate db (selectedLines company q db)))
      = credits (selectedLines company q db)"
proof -
  have d: "distinct (map ac_id (accounts db))" using assms by (simp add: references_ok_def)
  have a: "\<forall>l \<in> set (selectedLines company q db). accountOf db l \<noteq> None"
    by (simp add: selected_accounts)
  show "sum_list (map tb_debit (groupedRows collate db (selectedLines company q db)))
      = debits (selectedLines company q db)"
    using grouped_sums [OF d a, where f = debitAmount]
    by (simp add: groupedRows_def o_def Let_def debits_def)
  show "sum_list (map tb_credit (groupedRows collate db (selectedLines company q db)))
      = credits (selectedLines company q db)"
    using grouped_sums [OF d a, where f = creditAmount]
    by (simp add: groupedRows_def o_def Let_def credits_def)
qed

lemma selected_one_sided:
  assumes ok: "ledger_ok db" and l: "l \<in> set (selectedLines company q db)"
  shows "one_sided l"
proof -
  from l obtain j where "l \<in> set (journalLines db)" "entryOf db l = Some j" "je_status j = JPosted"
    by (auto simp: selectedLines_def entryMatches_def split: option.splits)
  then have "l \<in> set (linesOf (je_id j) db)" "balanced (linesOf (je_id j) db)"
    using ok by (auto simp: entryOf_row linesOf_def ledger_ok_def entry_ok_def)
  then show ?thesis by (simp add: balanced_def)
qed

lemma abs_nonneg_map: "(\<And>x. x \<in> set xs \<Longrightarrow> 0 \<le> f x) \<Longrightarrow> map (\<lambda>x. \<bar>f x :: int\<bar>) xs = map f xs"
  by simp

lemma trialBalance_totals:
  assumes ok: "ledger_ok db" and refs: "references_ok db"
    and m: "moderate (selectedLines company q db)"
  shows "snd (trialBalance collate company q db)
    = (debits (selectedLines company q db), credits (selectedLines company q db))"
proof -
  let ?ls = "selectedLines company q db" and ?rows = "groupedRows collate db (selectedLines company q db)"
  have nonneg: "0 \<le> tb_debit r \<and> 0 \<le> tb_credit r" if "r \<in> set ?rows" for r
    using that selected_one_sided [OF ok]
    by (force simp: groupedRows_def Let_def debits_def credits_def one_sided_def
        intro!: sum_list_nonneg_map)
  note sums = grouped_debits [OF refs, of collate company q]
  have b: "\<bar>debits ?ls\<bar> \<le> 2 ^ 50" "\<bar>credits ?ls\<bar> \<le> 2 ^ 50" using moderate_sums [OF m] by auto
  have "sumCents tb_debit ?rows = of_int (debits ?ls)"
    using sumCents_exact [of tb_debit ?rows] nonneg b sums by (simp add: abs_nonneg_map)
  moreover have "sumCents tb_credit ?rows = of_int (credits ?ls)"
    using sumCents_exact [of tb_credit ?rows] nonneg b sums by (simp add: abs_nonneg_map)
  ultimately show ?thesis
    using b centsToDecimalString_exact [of "debits ?ls"] centsToDecimalString_exact [of "credits ?ls"]
    by (simp add: trialBalance_def Let_def centsToDecimalString_def)
qed

end
