(* ===== verification/Accounting.thy ===== *)
theory Accounting
  imports Ledger_Reports
begin

text \<open>
  The accounting component as a state machine. A step is one committed request: a draft entry
  created, an entry posted or cancelled, a payment posted, a payment reversed. The properties say
  what holds of the ledger in every state reached by any sequence of such steps, and what one step
  does. The section on cancelling opens up \<open>cancel\<close>, which the code runs as a read and a later write outside
  any transaction.
\<close>

inductive acct_step :: "acct_db \<Rightarrow> acct_db \<Rightarrow> bool" where
  create: "moderate (cj_lines dto) \<Longrightarrow>
    createJournal org company user dto now db = Inr (j, db') \<Longrightarrow> acct_step db db'"
| post: "postJournal i company user now db = Inr db' \<Longrightarrow> acct_step db db'"
| cancel: "cancelJournal i company db = Inr db' \<Longrightarrow> acct_step db db'"
| pay: "\<bar>pa_amount p\<bar> \<le> 2 ^ 50 \<Longrightarrow>
    postPayment p pm cust supp user now db = Inr (j, db') \<Longrightarrow> acct_step db db'"
| reverse: "reversePayment p user now db = Inr (oj, db') \<Longrightarrow> acct_step db db'"

inductive acct_reachable :: "acct_db \<Rightarrow> bool" where
  empty: "journals db = [] \<Longrightarrow> journalLines db = [] \<Longrightarrow> acct_reachable db"
| step: "acct_reachable db \<Longrightarrow> acct_step db db' \<Longrightarrow> acct_reachable db'"

lemma acct_step_ok:
  assumes "acct_step db db'" and ok: "ledger_ok db"
  shows "ledger_ok db' \<and> keeps_posted db db'"
  using assms(1)
proof cases
  case (create dto org company user now j)
  then show ?thesis using createJournal_ok [OF ok] by blast
next
  case (post i company user now)
  then show ?thesis using postJournal_ok [OF ok] by blast
next
  case (cancel i company)
  then show ?thesis using cancelJournal_ok [OF ok] by blast
next
  case (pay p pm cust supp user now j)
  show ?thesis
  proof (cases "findBySource (pa_company p) SPayment (pa_id p) db")
    case None
    then show ?thesis using postPayment_fresh [OF ok pay(1) None pay(2)] by blast
  next
    case (Some j)
    with pay(2) ok show ?thesis by (simp add: postPayment_def)
  qed
next
  case (reverse p user now oj)
  show ?thesis
  proof (cases oj)
    case None
    with reverse ok show ?thesis
      by (auto simp: reversePayment_def split: option.splits if_splits)
  next
    case (Some j)
    with reverse show ?thesis using reversePayment_nets [OF ok] by blast
  qed
qed

lemma reachable_ledger_ok: "acct_reachable db \<Longrightarrow> ledger_ok db"
proof (induction rule: acct_reachable.induct)
  case (empty db)
  then show ?case by (simp add: ledger_ok_def)
next
  case (step db db')
  then show ?case using acct_step_ok by blast
qed

section \<open>A small company\<close>

text \<open>A cash account and a receivable account, a cash payment method and a customer, used by the
  witnesses.\<close>

definition demo_ledger :: acct_db where
  "demo_ledger = \<lparr>accounts = [\<lparr>ac_id = 10, ac_company = 1, ac_code = ''1000'', ac_active = True\<rparr>,
       \<lparr>ac_id = 11, ac_company = 1, ac_code = ''1100'', ac_active = True\<rparr>],
     fiscalYears = Map.empty, periods = [], journals = [], journalLines = [],
     journalCounters = Map.empty, nextId = 100\<rparr>"

definition demo_payment :: payment where
  "demo_payment = \<lparr>pa_id = 5, pa_number = ''PMT-2026-000001'', pa_company = 1, pa_branch = None,
     pa_direction = Receipt, pa_customer = Some 7, pa_supplier = None, pa_method = 3,
     pa_amount = 12550, pa_currency = ''USD'', pa_idempotencyKey = None, pa_status = Confirmed, pa_date = ((2026, 3, 1), 0),
     pa_createdBy = 9, pa_updatedBy = 9, pa_reversedAt = None, pa_reversedBy = None,
     pa_reallocatedAt = None, pa_reallocatedBy = None\<rparr>"

definition demo_cash :: payment_method where
  "demo_cash = \<lparr>pm_company = 1, pm_status = Active, pm_glAccount = Some 10\<rparr>"

definition demo_customer :: customer where
  "demo_customer = \<lparr>cu_company = 1, cu_status = PActive, cu_receivableAccount = Some 11\<rparr>"

definition demo_entry :: journal where
  "demo_entry = \<lparr>je_id = 102, je_number = formatDocumentNumber ''JE'' 2026 1, je_company = 1,
     je_branch = None, je_period = 101, je_entryDate = ((2026, 3, 1), 0), je_status = JPosted,
     je_sourceType = SPayment, je_sourceId = Some 5, je_totalDebit = 12550, je_totalCredit = 12550,
     je_createdBy = 9, je_postedBy = Some 9, je_postedAt = Some ((2026, 3, 2), 0)\<rparr>"

definition demo_period :: period where
  "demo_period = \<lparr>pe_id = 101, pe_fiscalYear = 100, pe_start = (2026, 1, 1), pe_end = (2026, 12, 31),
     pe_status = POpen\<rparr>"

definition demo_posted :: acct_db where
  "demo_posted = demo_ledger\<lparr>
     fiscalYears := [100 \<mapsto> \<lparr>fy_company = 1, fy_start = (2026, 1, 1), fy_end = (2026, 12, 31),
       fy_status = FYOpen\<rparr>],
     periods := [demo_period], journals := [demo_entry],
     journalLines := map (storeLine 102) (postingLines demo_payment 10 11 12550),
     journalCounters := [(1, 2026) \<mapsto> 1], nextId := 103\<rparr>"

lemmas demo_defs = demo_ledger_def demo_payment_def demo_cash_def demo_customer_def demo_entry_def

lemma demo_postPayment:
  "postPayment demo_payment demo_cash (Some demo_customer) None 9 ((2026, 3, 2), 0) demo_ledger
    = Inr (demo_entry, demo_posted)"
proof -
  have b: "assertBalanced (postingLines p d c 12550) = Inr (12550, 12550)" for p d c
    by (rule posting_balanced) simp_all
  have n: "to_fixed2 (js_num 12550) = 12550" by (rule to_fixed2_js_num) simp
  show ?thesis
    by (simp add: postPayment_def demo_posted_def demo_period_def demo_defs findBySource_def
        resolveCashBankAccount_def resolveReceivableAccount_def findActiveAccount_def
        postingAccounts_def createInternal_def resolveOpenPeriod_def createYearPeriod_def
        generateJournalNumber_def next_sequence_eq last_sequence_def insertJournal_def
        insertLines_def getUTCFullYear_def b n Let_def)
qed

lemma demo_rows:
  "journals demo_posted = [demo_entry]"
  "accounts demo_posted = accounts demo_ledger"
  "journalLines demo_posted = map (storeLine 102) (postingLines demo_payment 10 11 12550)"
  by (simp_all add: demo_posted_def)

lemma demo_lines:
  "linesOf 102 demo_posted = map (storeLine 102) (postingLines demo_payment 10 11 12550)"
  by (simp add: linesOf_def demo_rows postingLines_def storeLine_def)

lemma demo_ledger_reachable: "acct_reachable demo_ledger"
  by (rule acct_reachable.empty) (simp_all add: demo_ledger_def)

lemma demo_reachable: "acct_reachable demo_posted"
  by (rule acct_reachable.step [OF demo_ledger_reachable acct_step.pay [OF _ demo_postPayment]])
    (simp add: demo_payment_def)

section \<open>Properties\<close>

text \<open>C1: in every reachable state of the ledger, every posted journal entry has at least one
  line, every line debits or credits but not both, the debits equal the credits to the cent, and the
  stored totals are those sums, although the code checks the balance in floating point.\<close>

theorem posted_entries_balance:
  assumes "acct_reachable db" and "j \<in> set (journals db)" and "je_status j = JPosted"
  shows "balanced (linesOf (je_id j) db)
    \<and> je_totalDebit j = debits (linesOf (je_id j) db)
    \<and> je_totalCredit j = credits (linesOf (je_id j) db)"
  using reachable_ledger_ok [OF assms(1)] assms(2,3) by (simp add: ledger_ok_def entry_ok_def)

theorem posted_entries_balance_witness:
  "acct_reachable demo_posted \<and> demo_entry \<in> set (journals demo_posted)
    \<and> balanced (linesOf (je_id demo_entry) demo_posted)"
proof -
  have in_db: "demo_entry \<in> set (journals demo_posted)" by (simp add: demo_rows)
  have st: "je_status demo_entry = JPosted" by (simp add: demo_entry_def)
  show ?thesis using posted_entries_balance [OF demo_reachable in_db st] demo_reachable in_db by simp
qed

text \<open>C4: the trial balance of any company, branch filter and date range, in every reachable
  state, has equal debit and credit totals, and they are the exact sums of the selected lines, as
  long as those sums stay below \<open>2 ^ 50\<close> cents.\<close>

theorem trial_balance_balances:
  assumes "acct_reachable db" and "references_ok db"
    and "moderate (selectedLines company q db)"
    and "trialBalance collate company q db = (rows, totalDebit, totalCredit)"
  shows "totalDebit = totalCredit \<and> totalDebit = debits (selectedLines company q db)"
  using trialBalance_totals [OF reachable_ledger_ok [OF assms(1)] assms(2,3), of collate]
    selected_balance [OF reachable_ledger_ok [OF assms(1)] assms(2), of company q] assms(4)
  by simp

definition demo_query :: ledger_query where
  "demo_query = \<lparr>lq_account = None, lq_branch = None, lq_allowedBranches = None, lq_from = None,
     lq_to = None\<rparr>"

lemma demo_selected:
  "selectedLines 1 demo_query demo_posted
    = map (storeLine 102) (postingLines demo_payment 10 11 12550)"
  by (simp add: selectedLines_def demo_rows entryOf_def accountOf_def entryMatches_def
      branchMatches_def demo_query_def postingLines_def storeLine_def)
    (simp add: demo_defs)

theorem trial_balance_balances_witness:
  "\<exists>rows. trialBalance length 1 demo_query demo_posted = (rows, 12550, 12550)"
proof -
  obtain rows d c where t: "trialBalance length 1 demo_query demo_posted = (rows, d, c)"
    by (metis prod_cases3)
  have refs: "references_ok demo_posted"
    by (simp add: references_ok_def accountOf_def demo_rows postingLines_def storeLine_def)
      (simp add: demo_ledger_def)
  have m: "moderate (postingLines demo_payment 10 11 12550)" by (rule moderate_posting) simp
  have "moderate (selectedLines 1 demo_query demo_posted)"
    unfolding demo_selected using stored_lines(3) [OF m] m by simp
  from trial_balance_balances [OF demo_reachable refs this t] t show ?thesis
    unfolding demo_selected using stored_lines(1) [OF m] by (simp add: postingLines_def)
qed

text \<open>C3: on amounts of the size the columns can hold, the balance check, which converts and sums in
  floating point, accepts exactly the lists of lines that satisfy the integer double-entry law, and
  returns their exact totals; every other list is a validation error.\<close>

theorem balance_check_exact:
  assumes "moderate ls"
  shows "assertBalanced ls =
    (if balanced ls then Inr (debits ls, credits ls) else Inl (AppException ValidationError))"
  by (rule assertBalanced_spec [OF assms])

theorem balance_check_exact_witness:
  "assertBalanced (postingLines demo_payment 10 11 12550) = Inr (12550, 12550)"
  using balance_check_exact [OF moderate_posting, of 12550 demo_payment 10 11]
  by (simp add: postingLines_def balanced_def one_sided_def)

text \<open>Posting a payment that has no journal entry yet creates one posted entry of two lines: a
  receipt debits the cash or bank account of the payment method and credits the customer's
  receivable account, a supplier payment debits the supplier's payable account and credits cash or
  bank, both with the payment's exact amount; posting the same payment again returns that entry and
  changes nothing.\<close>

theorem payment_posts_its_amount:
  assumes "acct_reachable db" and "\<bar>pa_amount p\<bar> \<le> 2 ^ 50"
    and "findBySource (pa_company p) SPayment (pa_id p) db = None"
    and "postPayment p pm cust supp user now db = Inr (j, db')"
  shows "\<exists>cashBank d c. resolveCashBankAccount pm (pa_company p) db = Inr cashBank
    \<and> postingAccounts p cashBank cust supp db = Inr (d, c)
    \<and> je_status j = JPosted \<and> je_totalDebit j = pa_amount p
    \<and> linesOf (je_id j) db' = map (storeLine (je_id j)) (postingLines p d c (pa_amount p))"
  using postPayment_fresh [OF reachable_ledger_ok [OF assms(1)] assms(2-4)] by blast

theorem payment_posts_its_amount_witness:
  "linesOf (je_id demo_entry) demo_posted
    = map (storeLine 102) (postingLines demo_payment 10 11 12550)
    \<and> je_totalDebit demo_entry = 12550"
proof -
  have "findBySource (pa_company demo_payment) SPayment (pa_id demo_payment) demo_ledger = None"
    by (simp add: findBySource_def demo_ledger_def)
  from payment_posts_its_amount [OF demo_ledger_reachable _ this demo_postPayment]
  show ?thesis
    by (auto simp: demo_defs resolveCashBankAccount_def findActiveAccount_def postingAccounts_def
        resolveReceivableAccount_def)
qed

text \<open>Reversing a posted payment adds a posted entry that cancels the original on every
  account: the net movement of each account in the reversal is the opposite of its net movement in
  the original, and no posted entry is touched.\<close>

theorem payment_reversal_nets_to_zero:
  assumes "acct_reachable db" and "reversePayment p user now db = Inr (Some j, db')"
  shows "\<exists>original. findBySource (pa_company p) SPayment (pa_id p) db = Some original
    \<and> je_status j = JPosted \<and> j \<in> set (journals db') \<and> keeps_posted db db'
    \<and> (\<forall>a. account_net a (linesOf (je_id j) db') + account_net a (linesOf (je_id original) db) = 0)"
  using reversePayment_nets [OF reachable_ledger_ok [OF assms(1)] assms(2)] by auto

definition demo_reversal :: journal where
  "demo_reversal = \<lparr>je_id = 104, je_number = formatDocumentNumber ''JE'' 2026 2, je_company = 1,
     je_branch = None, je_period = 101, je_entryDate = ((2026, 3, 5), 0), je_status = JPosted,
     je_sourceType = SManual, je_sourceId = Some 103, je_totalDebit = 12550, je_totalCredit = 12550,
     je_createdBy = 9, je_postedBy = Some 9, je_postedAt = Some ((2026, 3, 5), 0)\<rparr>"

lemma demo_reverse:
  "\<exists>db'. reversePayment demo_payment 9 ((2026, 3, 5), 0) demo_posted = Inr (Some demo_reversal, db')"
proof -
  have n: "to_fixed2 (js_num 12550) = 12550" "to_fixed2 (js_num 0) = 0"
    by (rule to_fixed2_js_num, simp)+
  have b: "assertBalanced (map (reversalLine p) (map (storeLine 102) (postingLines p d c 12550)))
      = Inr (12550, 12550)" for p d c
    by (subst assertBalanced_spec)
      (simp_all add: moderate_def balanced_def one_sided_def postingLines_def storeLine_def
        reversalLine_def n)
  have f: "findBySource (pa_company demo_payment) SPayment (pa_id demo_payment) demo_posted
      = Some demo_entry"
    by (simp add: findBySource_def demo_rows) (simp add: demo_entry_def demo_payment_def)
  have l: "linesOf (je_id demo_entry) demo_posted
      = map (storeLine 102) (postingLines demo_payment 10 11 12550)"
    using demo_lines by (simp add: demo_entry_def)
  have ne: "postingLines p d c a \<noteq> []" for p d c a by (simp add: postingLines_def)
  have dir: "pa_direction demo_payment \<noteq> Refund" by (simp add: demo_payment_def)
  show ?thesis
    unfolding reversePayment_def
    by (simp add: f l dir ne del: One_nat_def)
      (simp add: b [unfolded map_map] createInternal_def resolveOpenPeriod_def demo_posted_def
        demo_reversal_def demo_payment_def demo_ledger_def demo_period_def demo_entry_def
        period_of_company_def covers_def toDateOnly_def assertPostable_def generateJournalNumber_def
        next_sequence_eq last_sequence_def insertJournal_def getUTCFullYear_def Let_def)
qed

theorem payment_reversal_nets_to_zero_witness:
  "\<exists>db'. reversePayment demo_payment 9 ((2026, 3, 5), 0) demo_posted = Inr (Some demo_reversal, db')
    \<and> account_net 10 (linesOf 104 db') + account_net 10 (linesOf 102 demo_posted) = 0"
proof -
  obtain db' where r:
    "reversePayment demo_payment 9 ((2026, 3, 5), 0) demo_posted = Inr (Some demo_reversal, db')"
    using demo_reverse by blast
  have f: "findBySource (pa_company demo_payment) SPayment (pa_id demo_payment) demo_posted
      = Some demo_entry"
    by (simp add: findBySource_def demo_rows) (simp add: demo_entry_def demo_payment_def)
  from payment_reversal_nets_to_zero [OF demo_reachable r] r show ?thesis
    by (auto simp: f demo_entry_def demo_reversal_def)
qed

section \<open>Cancelling outside a transaction\<close>

definition demo_draft_entry :: journal where
  "demo_draft_entry = \<lparr>je_id = 103, je_number = formatDocumentNumber ''JE'' 2026 2, je_company = 1,
     je_branch = None, je_period = 101, je_entryDate = ((2026, 3, 4), 0), je_status = JDraft,
     je_sourceType = SManual, je_sourceId = None, je_totalDebit = 500, je_totalCredit = 500,
     je_createdBy = 9, je_postedBy = None, je_postedAt = None\<rparr>"

definition demo_dto :: create_journal_dto where
  "demo_dto = \<lparr>cj_branch = None, cj_entryDate = Some ((2026, 3, 4), 0),
     cj_lines = postingLines demo_payment 10 11 500\<rparr>"

definition demo_org :: org_db where
  "demo_org = \<lparr>companies = [1 \<mapsto> Active], branches = Map.empty, warehouses = Map.empty, warehouseIds = [],
     customers = Map.empty, suppliers = Map.empty, paymentMethods = Map.empty, paymentTerms = Map.empty\<rparr>"

definition demo_drafted :: acct_db where
  "demo_drafted = demo_posted\<lparr>journals := [demo_entry, demo_draft_entry],
     journalLines := map (storeLine 102) (postingLines demo_payment 10 11 12550)
       @ map (storeLine 103) (postingLines demo_payment 10 11 500),
     journalCounters := [(1, 2026) \<mapsto> 2], nextId := 104\<rparr>"

lemma demo_create:
  "createJournal demo_org 1 9 demo_dto ((2026, 3, 9), 0) demo_posted
    = Inr (demo_draft_entry, demo_drafted)"
proof -
  have t: "draftTotals (postingLines p d c 500) = (of_int 500, of_int 500)" for p d c
    unfolding draftTotals_def by (subst sumCents_exact; simp add: postingLines_def)+
  have c: "to_fixed2 (js_div 500 100) = 500"
    using centsToDecimalString_exact [of 500] by (simp add: centsToDecimalString_def)
  have a: "assertLinesReferenceValidAccounts (postingLines p 10 11 500) 1 demo_posted = Inr ()" for p
    by (simp add: assertLinesReferenceValidAccounts_def assertLineAccount_def postingLines_def
        demo_rows) (simp add: demo_ledger_def)
  have o: "companies demo_org 1 = Some Active" by (simp add: demo_org_def)
  show ?thesis
    unfolding createJournal_def demo_dto_def
    by (simp add: o a t c assertBranchIfGiven_def andThen_def [of "assertActiveCompany _ _"]
        del: One_nat_def)
      (simp add: resolveOpenPeriod_def assertActiveCompany_def findActiveCompany_def demo_org_def demo_posted_def demo_ledger_def demo_period_def
        period_of_company_def covers_def toDateOnly_def assertPostable_def generateJournalNumber_def
        next_sequence_eq last_sequence_def insertJournal_def insertLines_def getUTCFullYear_def
        demo_drafted_def demo_draft_entry_def demo_entry_def Let_def c numeral_2_eq_2)
qed

lemma demo_drafted_reachable: "acct_reachable demo_drafted"
proof (rule acct_reachable.step [OF demo_reachable acct_step.create [OF _ demo_create]])
  show "moderate (cj_lines demo_dto)" unfolding demo_dto_def by (simp add: moderate_posting)
qed

lemma list_updated:
  "journals (updateJournal i f db) = map (\<lambda>j. if je_id j = i then f j else j) (journals db)"
  by (simp add: updateJournal_def)

text \<open>\<open>cancel\<close> reads the status and saves the row outside a transaction. When a \<open>post\<close> of the
  same draft commits between the two, the save overwrites the posted entry: after it no posted entry
  with that identifier is left, although the ledger promises that posted entries are immutable.\<close>

theorem cancel_race_unposts:
  assumes "acct_reachable db"
    and "cancelJournalRead i company db = Inr entry"
    and "postJournal i company user now db = Inr db1"
  shows "\<exists>j \<in> set (journals db1). je_id j = i \<and> je_status j = JPosted
    \<and> j \<notin> set (journals (cancelJournalSave entry db1))
    \<and> (\<forall>k \<in> set (journals (cancelJournalSave entry db1)). je_id k = i \<longrightarrow> je_status k = JCancelled)"
proof -
  obtain j where j: "j \<in> set (journals db1)" "je_id j = i" "je_status j = JPosted"
    using postJournal_ok [OF reachable_ledger_ok [OF assms(1)] assms(3)] by (elim conjE bexE)
  have "findJournalInCompany i company db = Inr entry"
    using assms(2) by (simp add: cancelJournalRead_def)
  then have e: "je_id entry = i" using findJournalInCompany_Inr by blast
  let ?saved = "journals (cancelJournalSave entry db1)"
  have c: "\<forall>k \<in> set ?saved. je_id k = i \<longrightarrow> je_status k = JCancelled"
  proof
    fix k assume "k \<in> set ?saved"
    then obtain q where "k = (if je_id q = i then entry\<lparr>je_status := JCancelled\<rparr> else q)"
      unfolding cancelJournalSave_def e list_updated set_map by (elim imageE)
    then show "je_id k = i \<longrightarrow> je_status k = JCancelled" by (cases "je_id q = i") simp_all
  qed
  have n: "j \<notin> set ?saved"
  proof
    assume "j \<in> set ?saved"
    with c j(2) have "je_status j = JCancelled" by simp
    with j(3) show False by simp
  qed
  show ?thesis by (intro bexI [OF _ j(1)] conjI) (rule j n c)+
qed

lemma demo_draft_lines:
  "linesOf 103 demo_drafted = map (storeLine 103) (postingLines demo_payment 10 11 500)"
  by (simp add: linesOf_def demo_drafted_def postingLines_def storeLine_def)

lemma demo_find_draft: "findJournalInCompany 103 1 demo_drafted = Inr demo_draft_entry"
  by (simp add: findJournalInCompany_def demo_drafted_def demo_entry_def demo_draft_entry_def)

theorem cancel_race_unposts_witness:
  "\<exists>db1. cancelJournalRead 103 1 demo_drafted = Inr demo_draft_entry
    \<and> postJournal 103 1 9 ((2026, 3, 10), 0) demo_drafted = Inr db1
    \<and> (\<exists>j \<in> set (journals db1). je_status j = JPosted
        \<and> j \<notin> set (journals (cancelJournalSave demo_draft_entry db1)))"
proof -
  have r: "cancelJournalRead 103 1 demo_drafted = Inr demo_draft_entry"
    unfolding cancelJournalRead_def demo_find_draft by (simp add: demo_draft_entry_def)
  have n: "to_fixed2 (js_num 500) = 500" "to_fixed2 (js_num 0) = 0"
    by (rule to_fixed2_js_num, simp)+
  have b: "assertBalanced (linesOf 103 demo_drafted) = Inr (500, 500)"
    unfolding demo_draft_lines by (subst assertBalanced_spec)
      (simp_all add: moderate_def balanced_def one_sided_def postingLines_def storeLine_def n)
  obtain db1 where p: "postJournal 103 1 9 ((2026, 3, 10), 0) demo_drafted = Inr db1"
    unfolding postJournal_def demo_find_draft b
    by (simp add: demo_draft_entry_def demo_drafted_def demo_posted_def demo_period_def
        assertPostable_def)
  from cancel_race_unposts [OF demo_drafted_reachable r p] r p show ?thesis by blast
qed

text \<open>Runs of the accounting services. Requests are served one after the other, except that the save of a
  \<open>cancel\<close> may come late: it writes the entry that \<open>cancel\<close> read in some other state. The set holds the
  entries whose cancellation is late.\<close>

inductive acct_run :: "id set \<Rightarrow> acct_db \<Rightarrow> acct_db \<Rightarrow> bool" for late where
  start: "acct_run late db db"
| served: "acct_run late db d \<Longrightarrow> acct_step d d' \<Longrightarrow> acct_run late db d'"
| late_save: "acct_run late db d \<Longrightarrow> cancelJournalRead i company old = Inr entry \<Longrightarrow> i \<in> late
    \<Longrightarrow> acct_run late db (cancelJournalSave entry d)"

lemma late_save_ok:
  assumes ok: "ledger_ok d" and r: "cancelJournalRead i company old = Inr entry"
  shows "ledger_ok (cancelJournalSave entry d)"
    "j \<in> set (journals d) \<Longrightarrow> je_id j \<noteq> i \<Longrightarrow> j \<in> set (journals (cancelJournalSave entry d))"
    "linesOf k (cancelJournalSave entry d) = linesOf k d"
proof -
  have "findJournalInCompany i company old = Inr entry" using r by (simp add: cancelJournalRead_def)
  then have e: "je_id entry = i" using findJournalInCompany_Inr by blast
  let ?f = "\<lambda>q. if je_id q = i then entry\<lparr>je_status := JCancelled\<rparr> else q"
  have js: "journals (cancelJournalSave entry d) = map ?f (journals d)"
    unfolding cancelJournalSave_def e list_updated ..
  show lines: "linesOf k (cancelJournalSave entry d) = linesOf k d" for k
    by (simp add: cancelJournalSave_def updateJournal_def linesOf_def)
  have next_id: "nextId (cancelJournalSave entry d) = nextId d" "journalLines (cancelJournalSave entry d) = journalLines d"
    by (simp_all add: cancelJournalSave_def updateJournal_def)
  have ids: "map je_id (map ?f (journals d)) = map je_id (journals d)" using e by simp
  have "entry_ok (cancelJournalSave entry d) (?f q)" if "q \<in> set (journals d)" for q
    using ok that e by (auto simp: ledger_ok_def entry_ok_def lines next_id)
  then have "\<forall>x \<in> set (map ?f (journals d)). entry_ok (cancelJournalSave entry d) x"
    unfolding list.set_map by blast
  then show "ledger_ok (cancelJournalSave entry d)"
    using ok unfolding ledger_ok_def js ids next_id by blast
  show "j \<in> set (journals d) \<Longrightarrow> je_id j \<noteq> i \<Longrightarrow> j \<in> set (journals (cancelJournalSave entry d))"
    unfolding js by force
qed

lemma run_keeps_posted:
  assumes "acct_run late db d" "ledger_ok db"
  shows "ledger_ok d \<and> (\<forall>j \<in> set (journals db). je_status j = JPosted \<and> je_id j \<notin> late
    \<longrightarrow> j \<in> set (journals d) \<and> linesOf (je_id j) d = linesOf (je_id j) db)"
  using assms
proof (induction rule: acct_run.induct)
  case (served db d d')
  then show ?case using acct_step_ok [OF served.hyps(2)] by (simp add: keeps_posted_def)
next
  case (late_save db d i company old entry)
  then have "ledger_ok d" by blast
  note l = late_save_ok [OF this late_save.hyps(2)]
  show ?case using late_save l by (metis l)
qed simp

text \<open>C2: a posted entry and its lines never change again: whatever requests the accounting services
  serve one at a time, and whatever cancellations of other entries save late, the entry is still in the
  table, identical, with the same lines. The exception for the entry itself is needed: a cancellation of
  its draft that has passed its check saves over the posted entry (\<open>cancel_race_unposts\<close>).\<close>

theorem posted_is_immutable:
  assumes "acct_reachable db" and "acct_run late db db'"
    and "j \<in> set (journals db)" and "je_status j = JPosted" and "je_id j \<notin> late"
  shows "j \<in> set (journals db') \<and> linesOf (je_id j) db' = linesOf (je_id j) db"
  using run_keeps_posted [OF assms(2) reachable_ledger_ok [OF assms(1)]] assms(3-5) by blast

text \<open>A draft is created and posted, and a late cancellation saves over it; the first entry stays.\<close>

theorem posted_is_immutable_witness:
  "\<exists>db1. postJournal 103 1 9 ((2026, 3, 10), 0) demo_drafted = Inr db1
    \<and> demo_entry \<in> set (journals (cancelJournalSave demo_draft_entry db1))
    \<and> linesOf 102 (cancelJournalSave demo_draft_entry db1)
      = map (storeLine 102) (postingLines demo_payment 10 11 12550)
    \<and> cancelJournalSave demo_draft_entry db1 \<noteq> demo_posted"
proof -
  obtain db1 where p: "postJournal 103 1 9 ((2026, 3, 10), 0) demo_drafted = Inr db1"
    and r: "cancelJournalRead 103 1 demo_drafted = Inr demo_draft_entry"
    using cancel_race_unposts_witness by blast
  let ?d = "cancelJournalSave demo_draft_entry db1"
  have "acct_step demo_posted demo_drafted"
    by (rule acct_step.create [OF _ demo_create]) (simp add: demo_dto_def moderate_posting)
  from acct_run.served [OF acct_run.served [OF acct_run.start this] acct_step.post [OF p]]
  have "acct_run {103} demo_posted ?d" by (rule acct_run.late_save [OF _ r]) simp
  from posted_is_immutable [OF demo_reachable this, of demo_entry]
  have kept: "demo_entry \<in> set (journals ?d)" "linesOf 102 ?d = linesOf 102 demo_posted"
    by (simp_all add: demo_rows demo_entry_def)
  obtain q where "q \<in> set (journals db1)" "je_id q = 103"
    using postJournal_ok [OF reachable_ledger_ok [OF demo_drafted_reachable] p] by blast
  then have "demo_draft_entry\<lparr>je_status := JCancelled\<rparr> \<in> set (journals ?d)"
    unfolding cancelJournalSave_def list_updated set_map
    by (intro image_eqI [of _ _ q]) (simp_all add: demo_draft_entry_def)
  then have "?d \<noteq> demo_posted" by (auto simp: demo_rows demo_entry_def demo_draft_entry_def)
  with p kept show ?thesis by (simp add: demo_lines)
qed

section \<open>Periods, pages and numbers\<close>

text \<open>Whenever a period is resolved for a date, found or created for the calendar year, it
  belongs to the company, covers the date, is not locked, and its fiscal year is open.\<close>

theorem resolved_period_is_right:
  assumes "resolveOpenPeriod company d db = Inr (p, db')"
    and "calendar_day (toDateOnly d)"
  shows "period_of_company db' company p \<and> covers p (toDateOnly d) \<and> p \<in> set (periods db')
    \<and> pe_status p = POpen
    \<and> map_option fy_status (fiscalYears db' (pe_fiscalYear p)) = Some FYOpen"
proof -
  let ?d = "toDateOnly d"
  let ?P = "\<lambda>q. period_of_company db company q \<and> covers q ?d"
  obtain y m dd ms where d: "d = ((y, m, dd), ms)" by (metis prod.exhaust)
  have year: "covers q ?d" if "pe_start q = (y, 1, 1)" "pe_end q = (y, 12, 31)" for q
    using that assms(2) by (auto simp: covers_def toDateOnly_def d)
  show ?thesis
  proof (cases "List.find ?P (periods db)")
    case (Some q)
    with assms(1) have "p = q" "db' = db"
      and a: "assertPostable (fiscalYears db (pe_fiscalYear q)) q = Inr ()"
      by (auto simp: resolveOpenPeriod_def)
    moreover have "q \<in> set (periods db) \<and> ?P q" using find_SomeD [OF Some] .
    moreover have "pe_status q = POpen"
      using a by (cases "pe_status q") (auto simp: assertPostable_def split: if_splits)
    moreover obtain fy where "fiscalYears db (pe_fiscalYear q) = Some fy"
      using calculation(4) by (auto simp: period_of_company_def split: option.splits)
    moreover have "fy_status fy = FYOpen"
      using a calculation(6) by (cases "fy_status fy") (auto simp: assertPostable_def)
    ultimately show ?thesis by auto
  next
    case None
    let ?Q = "\<lambda>q. period_of_company db company q \<and> pe_start q = (y, 1, 1) \<and> pe_end q = (y, 12, 31)"
    have "List.find ?Q (periods db) = None"
      using None year unfolding find_None_iff by blast
    with assms(1) None have c: "createYearPeriod company y db = (p, db')"
      by (simp add: resolveOpenPeriod_def Let_def getUTCFullYear_def d toDateOnly_def)
    then have s: "pe_start p = (y, 1, 1)" "pe_end p = (y, 12, 31)" "pe_status p = POpen"
        "p \<in> set (periods db')" "period_of_company db' company p"
        "map_option fy_status (fiscalYears db' (pe_fiscalYear p)) = Some FYOpen"
      by (auto simp: createYearPeriod_def Let_def period_of_company_def)
    then show ?thesis using year by blast
  qed
qed

theorem resolved_period_is_right_witness:
  "\<exists>p db'. resolveOpenPeriod 1 ((2026, 3, 4), 0) demo_posted = Inr (p, db') \<and> pe_status p = POpen"
proof -
  have "resolveOpenPeriod 1 ((2026, 3, 4), 0) demo_posted = Inr (demo_period, demo_posted)"
    by (simp add: resolveOpenPeriod_def demo_posted_def demo_period_def period_of_company_def
        covers_def toDateOnly_def assertPostable_def)
  from resolved_period_is_right [OF this] this show ?thesis by (auto simp: toDateOnly_def)
qed

text \<open>The pages of the general ledger, read one after the other with any page size, list every
  matching line exactly once, in the order of the whole report.\<close>

theorem general_ledger_pages:
  assumes "0 < limit"
    and "length (ledgerRows collate company q db) \<le> n * limit"
  shows "concat (map (\<lambda>p. fst (generalLedger collate company q (Suc p) limit db)) [0..<n])
    = ledgerRows collate company q db"
  using paginate_all [OF assms(1), of "ledgerRows collate company q db" n] assms(2)
  by (simp add: generalLedger_def Let_def)

theorem general_ledger_pages_witness:
  "concat (map (\<lambda>p. fst (generalLedger length 1 demo_query (Suc p) 1 demo_posted)) [0..<2])
    = ledgerRows length 1 demo_query demo_posted \<and> length (ledgerRows length 1 demo_query demo_posted) = 2"
proof -
  have n: "length (ledgerRows length 1 demo_query demo_posted) = 2"
    unfolding ledgerRows_def demo_selected
    by (simp add: demo_query_def postingLines_def storeLine_def)
  with general_ledger_pages [of 1 length 1 demo_query demo_posted 2] show ?thesis by simp
qed

text \<open>Journal entry numbers are unique: any run of numbering requests, for any companies and
  years in any order, issues no number twice within a company.\<close>

theorem journal_numbers_unique: "distinct (fst (issueNumbers generateJournalNumber requests db))"
  by (rule journal_numbers.issued_distinct)

end
