(* ===== verification/Stock.thy ===== *)
theory Stock
  imports Doc_Number Organization
begin

text \<open>
  Stock on hand and the movement log (\<open>inventory/\<close>): the row lock of \<open>utils/stock-lock.ts\<close>, the
  append-only stock movements, and the read side of \<open>inventory-ledger.service.ts\<close>. A stock row
  is identified by its warehouse and variant (unique index), so the table is a map; the movement
  log is a list in order of insertion. The row objects the services keep in a JavaScript \<open>Map\<close>
  while they hold the locks are a map of their own beside the table.

  The locale \<open>stock_operation\<close> states the contract of every service that writes stock: on hand
  equals the sum of the logged movements, before and after. \<open>guarded_stock_operation\<close> adds that
  no row goes negative.
\<close>

section \<open>State\<close>

datatype movement_type =
    PurchaseReceipt | SaleIssue | TransferIn | TransferOut | Adjustment | OpeningBalance
  | SaleReturnMovement | PurchaseReturnMovement

datatype movement_reference =
    RefGoodsReceipt | RefSale | RefStockTransfer | RefStockAdjustment | RefSaleReturn
  | RefPurchaseReturn

record stock_row =
  onHandQuantity :: int
  reservedQuantity :: int

record stock_movement =
  mv_id :: id
  mv_warehouse :: id
  mv_variant :: id
  mv_type :: movement_type
  mv_change :: int
  mv_after :: int
  mv_refType :: movement_reference
  mv_refId :: id
  mv_createdAt :: jdate
  mv_createdBy :: "id option"

record stock_db =
  warehouseStock :: "id \<times> id \<rightharpoonup> stock_row"
  stockMovements :: "stock_movement list"
  rowIds :: id

section \<open>Operations on rows\<close>

text \<open>The upsert inserts an empty row if there is none; the locking read then returns the row.\<close>

definition lockWarehouseStockRow ::
  "id \<Rightarrow> id \<Rightarrow> 'a stock_db_scheme \<Rightarrow> stock_row \<times> 'a stock_db_scheme" where
  "lockWarehouseStockRow w v db =
     (let db' = (case warehouseStock db (w, v) of
                   None \<Rightarrow> db\<lparr>warehouseStock := (warehouseStock db)((w, v) \<mapsto>
                      \<lparr>onHandQuantity = 0, reservedQuantity = 0\<rparr>)\<rparr>
                 | Some _ \<Rightarrow> db)
      in (the (warehouseStock db' (w, v)), db'))"

definition stockKey :: "id \<Rightarrow> id \<Rightarrow> id \<times> id" where
  "stockKey w v = (w, v)"

text \<open>The rows already locked are not read again; the order is the caller's.\<close>

fun lockWarehouseStockRows ::
  "(id \<times> id) list \<Rightarrow> (id \<times> id \<rightharpoonup> stock_row) \<Rightarrow> 'a stock_db_scheme
    \<Rightarrow> (id \<times> id \<rightharpoonup> stock_row) \<times> 'a stock_db_scheme" where
  "lockWarehouseStockRows [] rows db = (rows, db)"
| "lockWarehouseStockRows ((w, v) # targets) rows db =
     (if rows (stockKey w v) \<noteq> None then lockWarehouseStockRows targets rows db
      else let (row, db') = lockWarehouseStockRow w v db
           in lockWarehouseStockRows targets (rows(stockKey w v \<mapsto> row)) db')"

text \<open>\<open>manager.update(WarehouseStock, id, { onHandQuantity })\<close>.\<close>

definition updateOnHand :: "id \<Rightarrow> id \<Rightarrow> int \<Rightarrow> 'a stock_db_scheme \<Rightarrow> 'a stock_db_scheme" where
  "updateOnHand w v q db =
     db\<lparr>warehouseStock := (warehouseStock db)((w, v) :=
        map_option (\<lambda>r. r\<lparr>onHandQuantity := q\<rparr>) (warehouseStock db (w, v)))\<rparr>"

definition saveMovement :: "(id \<Rightarrow> stock_movement) \<Rightarrow> 'a stock_db_scheme \<Rightarrow> 'a stock_db_scheme" where
  "saveMovement m db =
     db\<lparr>stockMovements := stockMovements db @ [m (rowIds db)], rowIds := rowIds db + 1\<rparr>"

section \<open>The read side\<close>

definition level :: "'a stock_db_scheme \<Rightarrow> id \<Rightarrow> id \<Rightarrow> int" where
  "level db w v = (case warehouseStock db (w, v) of None \<Rightarrow> 0 | Some r \<Rightarrow> onHandQuantity r)"

definition movementsOf :: "'a stock_db_scheme \<Rightarrow> id \<Rightarrow> id \<Rightarrow> stock_movement list" where
  "movementsOf db w v = filter (\<lambda>m. mv_warehouse m = w \<and> mv_variant m = v) (stockMovements db)"

definition movementSum :: "stock_movement list \<Rightarrow> id \<Rightarrow> id \<Rightarrow> int" where
  "movementSum ms w v =
     sum_list (map mv_change (filter (\<lambda>m. mv_warehouse m = w \<and> mv_variant m = v) ms))"

record reconciliation =
  rc_stock :: int
  rc_ledger :: int
  rc_difference :: int
  rc_reconciled :: bool

text \<open>Both queries join the warehouse and filter on its company.\<close>

definition getReconciliation ::
  "org_db \<Rightarrow> id \<Rightarrow> id option \<Rightarrow> id option \<Rightarrow> 'a stock_db_scheme \<Rightarrow> reconciliation result" where
  "getReconciliation org company warehouseId variantId db =
     (case (warehouseId, variantId) of
        (Some w, Some v) \<Rightarrow>
          (let inCompany = (case warehouses org w of None \<Rightarrow> False | Some wh \<Rightarrow> wh_company wh = company);
               ledgerBalance = (if inCompany then movementSum (stockMovements db) w v else 0);
               stockBalance = (if inCompany then level db w v else 0);
               difference = stockBalance - ledgerBalance
           in Inr \<lparr>rc_stock = stockBalance, rc_ledger = ledgerBalance, rc_difference = difference,
                   rc_reconciled = (difference = 0)\<rparr>)
      | _ \<Rightarrow> Inl (AppException ValidationError))"

definition getStockCard ::
  "org_db \<Rightarrow> id \<Rightarrow> id option \<Rightarrow> id option \<Rightarrow> 'a stock_db_scheme \<Rightarrow> stock_movement list result" where
  "getStockCard org company warehouseId variantId db =
     (case (warehouseId, variantId) of
        (Some w, Some v) \<Rightarrow>
          (if (case warehouses org w of None \<Rightarrow> False | Some wh \<Rightarrow> wh_company wh = company)
           then Inr (sort_key (\<lambda>m. date_key (mv_createdAt m)) (sort_key mv_id (movementsOf db w v)))
           else Inr [])
      | _ \<Rightarrow> Inl (AppException ValidationError))"

section \<open>Laws of the rows\<close>

text \<open>Nothing but the rows, the log and the identifier supply is touched.\<close>

definition stock_frame :: "'a stock_db_scheme \<Rightarrow> 'a stock_db_scheme \<Rightarrow> bool" where
  "stock_frame db db' \<longleftrightarrow> stock_db.more db' = stock_db.more db"

lemma stock_frame_refl [simp]: "stock_frame db db"
  by (simp add: stock_frame_def)

lemma stock_frame_trans: "stock_frame a b \<Longrightarrow> stock_frame b c \<Longrightarrow> stock_frame a c"
  by (simp add: stock_frame_def)

lemma lockWarehouseStockRow_laws:
  assumes "lockWarehouseStockRow w v db = (r, db')"
  shows "onHandQuantity r = level db w v" "level db' w' v' = level db w' v'"
    "warehouseStock db' (w, v) = Some r" "stockMovements db' = stockMovements db"
    "warehouseStock db k \<noteq> None \<Longrightarrow> warehouseStock db' k = warehouseStock db k"
    "rowIds db' = rowIds db" "stock_frame db db'"
  using assms
  by (auto simp: lockWarehouseStockRow_def level_def stock_frame_def Let_def
      split: option.splits if_splits)

lemma updateOnHand_laws [simp]:
  "stockMovements (updateOnHand w v q db) = stockMovements db"
  "rowIds (updateOnHand w v q db) = rowIds db"
  "(warehouseStock (updateOnHand w v q db) k = None) = (warehouseStock db k = None)"
  by (simp_all add: updateOnHand_def)

lemma level_updateOnHand:
  "warehouseStock db (w, v) \<noteq> None \<Longrightarrow>
    level (updateOnHand w v q db) w' v' = (if w' = w \<and> v' = v then q else level db w' v')"
  by (auto simp: level_def updateOnHand_def)

lemma updateOnHand_frame: "stock_frame db (updateOnHand w v q db)"
  by (simp add: stock_frame_def updateOnHand_def)

lemma saveMovement_laws [simp]:
  "warehouseStock (saveMovement m db) = warehouseStock db"
  "level (saveMovement m db) w v = level db w v"
  "stockMovements (saveMovement m db) = stockMovements db @ [m (rowIds db)]"
  by (simp_all add: saveMovement_def level_def)

lemma saveMovement_frame: "stock_frame db (saveMovement m db)"
  by (simp add: stock_frame_def saveMovement_def)

lemma movementSum_simps [simp]:
  "movementSum [] w v = 0"
  "movementSum (ms @ ns) w v = movementSum ms w v + movementSum ns w v"
  "movementSum (m # ms) w v =
     (if mv_warehouse m = w \<and> mv_variant m = v then mv_change m else 0) + movementSum ms w v"
  by (simp_all add: movementSum_def)

section \<open>The contract of a stock operation\<close>

definition reconciled :: "'a stock_db_scheme \<Rightarrow> bool" where
  "reconciled db \<longleftrightarrow> (\<forall>w v. level db w v = movementSum (stockMovements db) w v)"

definition stock_nonneg :: "'a stock_db_scheme \<Rightarrow> bool" where
  "stock_nonneg db \<longleftrightarrow> (\<forall>w v. 0 \<le> level db w v)"

text \<open>
  What an operation does to the stock: every row moves by the sum of the movements it appends.
\<close>

definition logs :: "'a stock_db_scheme \<Rightarrow> 'a stock_db_scheme \<Rightarrow> stock_movement list \<Rightarrow> bool" where
  "logs db db' ms \<longleftrightarrow> stockMovements db' = stockMovements db @ ms
     \<and> (\<forall>w v. level db' w v = level db w v + movementSum ms w v)"

lemma logs_refl: "logs db db []"
  by (simp add: logs_def)

lemma logs_trans: "logs a b ms \<Longrightarrow> logs b c ns \<Longrightarrow> logs a c (ms @ ns)"
  by (simp add: logs_def)

lemma logs_reconciled: "logs db db' ms \<Longrightarrow> reconciled db \<Longrightarrow> reconciled db'"
  by (simp add: logs_def reconciled_def)

locale stock_operation =
  fixes oper :: "'p \<Rightarrow> 'a stock_db_scheme \<Rightarrow> ('r \<times> 'a stock_db_scheme) result"
  assumes oper_logs: "oper p db = Inr (r, db') \<Longrightarrow> \<exists>ms. logs db db' ms"
begin

lemma keeps_reconciled: "oper p db = Inr (r, db') \<Longrightarrow> reconciled db \<Longrightarrow> reconciled db'"
  using oper_logs logs_reconciled by blast

lemma log_grows: "oper p db = Inr (r, db') \<Longrightarrow> \<exists>ms. stockMovements db' = stockMovements db @ ms"
  using oper_logs unfolding logs_def by blast

text \<open>Requests one after the other; a rejected request leaves the state as it was.\<close>

fun serve :: "'p list \<Rightarrow> 'a stock_db_scheme \<Rightarrow> 'a stock_db_scheme" where
  "serve [] db = db"
| "serve (p # ps) db = serve ps (case oper p db of Inl _ \<Rightarrow> db | Inr (r, db') \<Rightarrow> db')"

lemma serve_reconciled: "reconciled db \<Longrightarrow> reconciled (serve ps db)"
proof (induction ps arbitrary: db)
  case (Cons p ps)
  then show ?case using keeps_reconciled by (auto split: sum.splits)
qed simp

end

locale guarded_stock_operation = stock_operation +
  assumes oper_nonneg: "oper p db = Inr (r, db') \<Longrightarrow> stock_nonneg db \<Longrightarrow> stock_nonneg db'"
begin

lemma serve_nonneg: "stock_nonneg db \<Longrightarrow> stock_nonneg (serve ps db)"
proof (induction ps arbitrary: db)
  case (Cons p ps)
  then show ?case using oper_nonneg by (auto split: sum.splits)
qed simp

end

end
