(* ===== verification/Catalog.thy ===== *)
theory Catalog
  imports Organization Js_Number
begin

text \<open>
  The product catalog the documents read: variants (\<open>products/services/product-variants.service.ts\<close>),
  their units of measure (\<open>product-variant-uoms.service.ts\<close>), price lists and effective-dated
  prices (\<open>price-list-items.service.ts\<close>), and the conversion of a quantity to base units that the
  sales, purchase and receipt services share. Prices are cents, conversion factors are
  ten-thousandths (DECIMAL(14,4)), dates are compared through \<open>date_key\<close>.
\<close>

section \<open>Tables\<close>

record product_variant =
  pv_id :: id
  pv_company :: id
  pv_sku :: string
  pv_productName :: string
  pv_baseUom :: "id option"
  pv_status :: active_status
  pv_deleted :: bool

datatype uom_category = UCount | UWeight | UVolume | ULength | UArea

record uom =
  um_id :: id
  um_company :: id
  um_code :: string
  um_name :: string
  um_category :: uom_category
  um_active :: bool

datatype uom_usage = UsageSales | UsagePurchase | UsageBoth

record variant_uom =
  vu_id :: id
  vu_variant :: id
  vu_company :: id
  vu_uom :: id
  vu_factor :: int
  vu_usage :: uom_usage
  vu_isBase :: bool
  vu_active :: bool
  vu_deleted :: bool

record price_list =
  pl_id :: id
  pl_company :: id
  pl_status :: active_status

record price_list_item =
  pi_id :: id
  pi_list :: id
  pi_variant :: id
  pi_company :: id
  pi_uom :: "id option"
  pi_price :: int
  pi_from :: nat
  pi_to :: "nat option"
  pi_status :: active_status
  pi_deleted :: bool

record catalog_db =
  variants :: "product_variant list"
  uoms :: "uom list"
  variantUoms :: "variant_uom list"
  priceLists :: "price_list list"
  priceItems :: "price_list_item list"
  catalogIds :: id

section \<open>Variants\<close>

definition findVariantInCompany :: "catalog_db \<Rightarrow> id \<Rightarrow> id \<Rightarrow> product_variant result" where
  "findVariantInCompany cat i company =
     orThrow (List.find (\<lambda>v. pv_id v = i \<and> pv_company v = company \<and> \<not> pv_deleted v) (variants cat))
       (AppException NotFound)"

text \<open>The loop at the head of the sale and purchase order services, and the check of the stock
  adjustments and transfers.\<close>

definition assertVariantActive :: "catalog_db \<Rightarrow> id \<Rightarrow> id \<Rightarrow> unit result" where
  "assertVariantActive cat company i =
     andThen (findVariantInCompany cat i company) (\<lambda>v.
     if pv_status v \<noteq> Active then Inl (AppException ValidationError) else Inr ())"

section \<open>Units of measure\<close>

record uom_selection =
  us_uom :: id
  us_code :: string
  us_name :: string
  us_factor :: int
  us_usage :: uom_usage
  us_isBase :: bool

definition findActiveUomOrThrow :: "catalog_db \<Rightarrow> id \<Rightarrow> id \<Rightarrow> uom result" where
  "findActiveUomOrThrow cat u company =
     (case List.find (\<lambda>x. um_id x = u \<and> um_company x = company) (uoms cat) of
        None \<Rightarrow> Inl (AppException ValidationError)
      | Some x \<Rightarrow> if \<not> um_active x then Inl (AppException ValidationError) else Inr x)"

definition isUsageAllowed :: "uom_usage \<Rightarrow> uom_usage \<Rightarrow> bool" where
  "isUsageAllowed actual expected = (actual = UsageBoth \<or> actual = expected)"

definition findMapping :: "catalog_db \<Rightarrow> id \<Rightarrow> id \<Rightarrow> id \<Rightarrow> (variant_uom \<Rightarrow> bool) \<Rightarrow> variant_uom option" where
  "findMapping cat v company u p =
     List.find (\<lambda>m. vu_variant m = v \<and> vu_company m = company \<and> vu_uom m = u \<and> \<not> vu_deleted m
        \<and> p m) (variantUoms cat)"

definition resolveSupportedUomId ::
  "catalog_db \<Rightarrow> product_variant \<Rightarrow> id \<Rightarrow> id option \<Rightarrow> id option result" where
  "resolveSupportedUomId cat v company requested =
     (case requested of
        None \<Rightarrow> Inr (pv_baseUom v)
      | Some u \<Rightarrow>
          (case pv_baseUom v of
             None \<Rightarrow> Inl (AppException ValidationError)
           | Some b \<Rightarrow>
               if u = b then andThen (findActiveUomOrThrow cat b company) (\<lambda>x. Inr (Some (um_id x)))
               else (case findMapping cat (pv_id v) company u vu_active of
                       None \<Rightarrow> Inl (AppException ValidationError)
                     | Some m \<Rightarrow> Inr (Some (vu_uom m)))))"

definition resolveSelectionForUsage ::
  "catalog_db \<Rightarrow> product_variant \<Rightarrow> id \<Rightarrow> uom_usage \<Rightarrow> id option \<Rightarrow> uom_selection option result" where
  "resolveSelectionForUsage cat v company usage requested =
     (case pv_baseUom v of
        None \<Rightarrow> if requested \<noteq> None then Inl (AppException ValidationError) else Inr None
      | Some b \<Rightarrow>
          let u = (case requested of None \<Rightarrow> b | Some r \<Rightarrow> r)
          in andThen (findActiveUomOrThrow cat u company) (\<lambda>x.
             if u = b then
               (let base = findMapping cat (pv_id v) company b (\<lambda>_. True)
                in Inr (Some \<lparr>us_uom = um_id x, us_code = um_code x, us_name = um_name x,
                     us_factor = (case base of None \<Rightarrow> 10000 | Some m \<Rightarrow> vu_factor m),
                     us_usage = (case base of None \<Rightarrow> UsageBoth | Some m \<Rightarrow> vu_usage m),
                     us_isBase = True\<rparr>))
             else
               (case findMapping cat (pv_id v) company u vu_active of
                  None \<Rightarrow> Inl (AppException ValidationError)
                | Some m \<Rightarrow>
                    if \<not> isUsageAllowed (vu_usage m) usage then Inl (AppException ValidationError)
                    else Inr (Some \<lparr>us_uom = vu_uom m, us_code = um_code x, us_name = um_name x,
                      us_factor = vu_factor m, us_usage = vu_usage m, us_isBase = False\<rparr>))))"

text \<open>The factor a document uses: \<open>selectedUom?.conversionFactorToBase ?? '1.0000'\<close>.\<close>

definition selectedFactor :: "uom_selection option \<Rightarrow> int" where
  "selectedFactor sel = (case sel of None \<Rightarrow> 10000 | Some s \<Rightarrow> us_factor s)"

section \<open>Base quantities\<close>

text \<open>\<open>Number(f)\<close> for a DECIMAL(14,4) string of \<open>f\<close> ten-thousandths.\<close>

definition js_num4 :: "int \<Rightarrow> real" where
  "js_num4 f = fl (of_int f / 10000)"

definition rawBaseQuantity :: "int \<Rightarrow> int \<Rightarrow> real" where
  "rawBaseQuantity quantity factor = js_mul (of_int quantity) (js_num4 factor)"

text \<open>The check of the sales and purchase order services: whole and positive.\<close>

definition computeBaseQuantity :: "int \<Rightarrow> int \<Rightarrow> int result" where
  "computeBaseQuantity quantity factor =
     (let raw = rawBaseQuantity quantity factor; rounded = math_round raw
      in if raw \<le> 0 \<or> js_eps < \<bar>js_sub raw (of_int rounded)\<bar> then Inl (AppException ValidationError)
         else Inr rounded)"

text \<open>The check of the goods receipts service: whole and not negative.\<close>

definition computeReceiptBaseQuantity :: "int \<Rightarrow> int \<Rightarrow> int result" where
  "computeReceiptBaseQuantity quantity factor =
     (let raw = rawBaseQuantity quantity factor; rounded = math_round raw
      in if raw < 0 \<or> js_eps < \<bar>js_sub raw (of_int rounded)\<bar> then Inl (AppException ValidationError)
         else Inr rounded)"

lemma abs_tri: "\<bar>a - b\<bar> \<le> d \<Longrightarrow> \<bar>b - c\<bar> \<le> e \<Longrightarrow> \<bar>a - c\<bar> \<le> d + (e :: real)"
  by linarith

lemma abs_far: "\<bar>a - b\<bar> \<le> e \<Longrightarrow> d \<le> \<bar>b - c\<bar> \<Longrightarrow> d - e \<le> \<bar>a - (c :: real)\<bar>"
  by linarith

lemma raw_error:
  assumes "0 \<le> q" "0 \<le> f" "q * f \<le> 4 * 10 ^ 10"
  shows "\<bar>rawBaseQuantity q f - of_int (q * f) / 10000\<bar> \<le> 9 / 10 ^ 10"
proof -
  define x :: real where "x = of_int (q * f) / 10000"
  have x: "0 \<le> x" "x \<le> 4 * 10 ^ 6"
  proof -
    have "(of_int (q * f) :: real) \<le> of_int (4 * 10 ^ 10)" using assms(3) by (simp only: of_int_le_iff)
    then show "x \<le> 4 * 10 ^ 6" by (simp add: x_def)
    show "0 \<le> x" using assms by (simp add: x_def)
  qed
  let ?n = "js_num4 f" and ?q = "of_int q :: real"
  have "\<bar>?n - of_int f / 10000\<bar> \<le> \<bar>of_int f / 10000\<bar> / 2 ^ 53"
    unfolding js_num4_def by (rule fl_error)
  then have "\<bar>?q\<bar> * \<bar>?n - of_int f / 10000\<bar> \<le> \<bar>?q\<bar> * (\<bar>of_int f / 10000\<bar> / 2 ^ 53)"
    by (intro mult_left_mono) auto
  also have "\<dots> = x / 2 ^ 53" using assms by (simp add: x_def)
  finally have 1: "\<bar>?q * ?n - x\<bar> \<le> x / 2 ^ 53"
    by (simp add: x_def abs_mult [symmetric] right_diff_distrib)
  have 2: "\<bar>fl (?q * ?n) - ?q * ?n\<bar> \<le> \<bar>?q * ?n\<bar> / 2 ^ 53" by (rule fl_error)
  have "x / 2 ^ 53 \<le> 45 / 10 ^ 11" using x by simp
  with 1 have a: "\<bar>?q * ?n - x\<bar> \<le> 45 / 10 ^ 11" by (rule order_trans)
  have "\<bar>?q * ?n\<bar> \<le> 4 * 10 ^ 6 + 1" using a x by (simp add: abs_real_def split: if_splits)
  then have "\<bar>?q * ?n\<bar> / 2 ^ 53 \<le> 45 / 10 ^ 11" by simp
  with 2 have "\<bar>fl (?q * ?n) - ?q * ?n\<bar> \<le> 45 / 10 ^ 11" by (rule order_trans)
  then have "\<bar>fl (?q * ?n) - x\<bar> \<le> 45 / 10 ^ 11 + 45 / 10 ^ 11" using a by (rule abs_tri)
  then have "\<bar>fl (?q * ?n) - x\<bar> \<le> 9 / 10 ^ 10" by simp
  then show ?thesis by (simp only: rawBaseQuantity_def js_mul_def x_def)
qed

lemma base_check:
  assumes "0 \<le> q" "0 \<le> f" "q * f \<le> 4 * 10 ^ 10"
  shows "(js_eps < \<bar>js_sub (rawBaseQuantity q f) (of_int (math_round (rawBaseQuantity q f)))\<bar>)
      \<longleftrightarrow> \<not> 10000 dvd q * f"
    and "10000 dvd q * f \<Longrightarrow> math_round (rawBaseQuantity q f) = q * f div 10000"
proof -
  let ?r = "rawBaseQuantity q f" and ?m = "math_round (rawBaseQuantity q f)"
  let ?d = "?r - of_int ?m"
  note e = raw_error [OF assms]
  show m: "?m = q * f div 10000" if dvd: "10000 dvd q * f"
  proof (rule math_round_eq)
    have "(of_int (q * f) :: real) / 10000 = of_int (q * f div 10000)"
      using real_of_int_div [OF dvd] by simp
    with e show "\<bar>?r - of_int (q * f div 10000)\<bar> < 1 / 2" by simp
  qed
  have sub: "\<bar>js_sub ?r (of_int ?m) - ?d\<bar> \<le> \<bar>?d\<bar> / 2 ^ 53"
    unfolding js_sub_def by (rule fl_error)
  show "(js_eps < \<bar>js_sub ?r (of_int ?m)\<bar>) \<longleftrightarrow> \<not> 10000 dvd q * f"
  proof (cases "10000 dvd q * f")
    case True
    have "(of_int (q * f) :: real) / 10000 = of_int (q * f div 10000)"
      using real_of_int_div [OF True] by simp
    then have "\<bar>?d\<bar> \<le> 9 / 10 ^ 10" using e m [OF True] by simp
    then have "\<bar>?d\<bar> + \<bar>?d\<bar> / 2 ^ 53 \<le> 95 / 10 ^ 11" by simp
    moreover have "\<bar>js_sub ?r (of_int ?m)\<bar> \<le> \<bar>?d\<bar> + \<bar>?d\<bar> / 2 ^ 53" using sub by linarith
    ultimately have "\<bar>js_sub ?r (of_int ?m)\<bar> \<le> 95 / 10 ^ 11" by (rule order_trans [rotated])
    with js_eps_bounds True show ?thesis by linarith
  next
    case False
    have "1 \<le> \<bar>q * f - ?m * 10000\<bar>" using False by (metis abs_ge_zero abs_le_zero_iff diff_eq_eq
          dvd_triv_right int_one_le_iff_zero_less linorder_not_less add.left_neutral)
    then have "(1::real) \<le> of_int \<bar>q * f - ?m * 10000\<bar>" by (simp only: of_int_1_le_iff)
    then have "1 / 10000 \<le> \<bar>of_int (q * f) / 10000 - (of_int ?m :: real)\<bar>"
      by (simp add: abs_real_def split: if_splits)
    with e have "1 / 10000 - 9 / 10 ^ 10 \<le> \<bar>?d\<bar>" by (rule abs_far)
    then have "99 / 10 ^ 6 \<le> \<bar>?d\<bar>" by simp
    moreover have "\<bar>?d\<bar> - \<bar>?d\<bar> / 2 ^ 53 \<le> \<bar>js_sub ?r (of_int ?m)\<bar>" using sub by linarith
    ultimately have "9 / 10 ^ 6 < \<bar>js_sub ?r (of_int ?m)\<bar>" by simp
    with js_eps_bounds False show ?thesis by simp
  qed
qed

lemma raw_nonneg: "0 \<le> q \<Longrightarrow> 0 \<le> f \<Longrightarrow> 0 \<le> rawBaseQuantity q f"
  by (simp add: rawBaseQuantity_def js_mul_def js_num4_def fl_nonneg)

lemma raw_pos:
  assumes "0 < q" "0 < f" "q * f \<le> 4 * 10 ^ 10"
  shows "0 < rawBaseQuantity q f"
proof -
  have "1 \<le> q * f" using assms by (simp add: int_one_le_iff_zero_less)
  then have x: "(1::real) \<le> of_int (q * f)" by (simp only: of_int_1_le_iff)
  have "\<bar>rawBaseQuantity q f - of_int (q * f) / 10000\<bar> \<le> 9 / 10 ^ 10"
    using raw_error [of q f] assms by simp
  then have "of_int (q * f) / 10000 - 9 / 10 ^ 10 \<le> rawBaseQuantity q f" by linarith
  moreover have "(1::real) / 10000 \<le> of_int (q * f) / 10000" using x by linarith
  ultimately show ?thesis by simp
qed

text \<open>The floating-point conversion decides divisibility exactly.\<close>

lemma computeBaseQuantity_exact:
  assumes "0 < q" "0 < f" "q * f \<le> 4 * 10 ^ 10"
  shows "computeBaseQuantity q f =
    (if 10000 dvd q * f then Inr (q * f div 10000) else Inl (AppException ValidationError))"
  using base_check [of q f] raw_pos [OF assms] assms
  by (auto simp: computeBaseQuantity_def Let_def)

lemma computeReceiptBaseQuantity_exact:
  assumes "0 \<le> q" "0 \<le> f" "q * f \<le> 4 * 10 ^ 10"
  shows "computeReceiptBaseQuantity q f =
    (if 10000 dvd q * f then Inr (q * f div 10000) else Inl (AppException ValidationError))"
  using base_check [OF assms] raw_nonneg [OF assms(1,2)]
  by (auto simp: computeReceiptBaseQuantity_def Let_def)

section \<open>Unit mappings of a variant\<close>

text \<open>
  The mapping table has a unique index on variant and unit that also sees soft-deleted rows. The
  base mapping is created with the variant and cannot be edited or removed here.
\<close>

record create_uom_dto =
  cu_uom :: id
  cu_factor :: int
  cu_usage :: uom_usage

record update_uom_dto =
  uu_factor :: "int option"
  uu_usage :: "uom_usage option"
  uu_active :: "bool option"

definition findVariantUom :: "catalog_db \<Rightarrow> id \<Rightarrow> id \<Rightarrow> variant_uom result" where
  "findVariantUom cat i company =
     orThrow (List.find (\<lambda>m. vu_id m = i \<and> vu_company m = company \<and> \<not> vu_deleted m) (variantUoms cat))
       (AppException NotFound)"

definition createVariantUom ::
  "id \<Rightarrow> id \<Rightarrow> create_uom_dto \<Rightarrow> catalog_db \<Rightarrow> (variant_uom \<times> catalog_db) result" where
  "createVariantUom variant company dto cat =
     andThen (findVariantInCompany cat variant company) (\<lambda>v.
     case pv_baseUom v of
       None \<Rightarrow> Inl (AppException ValidationError)
     | Some b \<Rightarrow>
         if cu_uom dto = b then Inl (AppException Conflict)
         else andThen (findActiveUomOrThrow cat b company) (\<lambda>baseUom.
         andThen (findActiveUomOrThrow cat (cu_uom dto) company) (\<lambda>targetUom.
         if um_category baseUom \<noteq> um_category targetUom then Inl (AppException ValidationError)
         else if findMapping cat variant company (cu_uom dto) (\<lambda>_. True) \<noteq> None
         then Inl (AppException Conflict)
         else if \<exists>m \<in> set (variantUoms cat). vu_variant m = variant \<and> vu_uom m = cu_uom dto
         then Inl (DupEntry ''variant_uom'')
         else
           let m = \<lparr>vu_id = catalogIds cat, vu_variant = variant, vu_company = company,
                    vu_uom = cu_uom dto, vu_factor = cu_factor dto, vu_usage = cu_usage dto,
                    vu_isBase = False, vu_active = True, vu_deleted = False\<rparr>
           in Inr (m, cat\<lparr>variantUoms := variantUoms cat @ [m], catalogIds := catalogIds cat + 1\<rparr>))))"

definition saveVariantUom :: "variant_uom \<Rightarrow> catalog_db \<Rightarrow> catalog_db" where
  "saveVariantUom m cat =
     cat\<lparr>variantUoms := map (\<lambda>x. if vu_id x = vu_id m then m else x) (variantUoms cat)\<rparr>"

definition updateVariantUom ::
  "id \<Rightarrow> id \<Rightarrow> update_uom_dto \<Rightarrow> catalog_db \<Rightarrow> (variant_uom \<times> catalog_db) result" where
  "updateVariantUom i company dto cat =
     andThen (findVariantUom cat i company) (\<lambda>m.
     if vu_isBase m then Inl (AppException Conflict)
     else
       let m1 = (case uu_factor dto of None \<Rightarrow> m | Some f \<Rightarrow> m\<lparr>vu_factor := f\<rparr>);
           m2 = (case uu_usage dto of None \<Rightarrow> m1 | Some u \<Rightarrow> m1\<lparr>vu_usage := u\<rparr>);
           m3 = (case uu_active dto of None \<Rightarrow> m2 | Some a \<Rightarrow> m2\<lparr>vu_active := a\<rparr>)
       in Inr (m3, saveVariantUom m3 cat))"

definition removeVariantUom :: "id \<Rightarrow> id \<Rightarrow> catalog_db \<Rightarrow> catalog_db result" where
  "removeVariantUom i company cat =
     andThen (findVariantUom cat i company) (\<lambda>m.
     if vu_isBase m then Inl (AppException Conflict)
     else if \<exists>p \<in> set (priceItems cat). pi_company p = company \<and> pi_variant p = vu_variant m
         \<and> pi_uom p = Some (vu_uom m) \<and> \<not> pi_deleted p
     then Inl (AppException Conflict)
     else Inr (saveVariantUom (m\<lparr>vu_deleted := True\<rparr>) cat))"

text \<open>Base mappings are what they were, and no mapping pairs a variant with a unit twice.\<close>

definition uom_keys :: "catalog_db \<Rightarrow> (id \<times> id) list" where
  "uom_keys cat = map (\<lambda>m. (vu_variant m, vu_uom m)) (variantUoms cat)"

definition uom_ids_ok :: "catalog_db \<Rightarrow> bool" where
  "uom_ids_ok cat \<longleftrightarrow> distinct (map vu_id (variantUoms cat))
     \<and> (\<forall>m \<in> set (variantUoms cat). vu_id m < catalogIds cat)"

definition baseMappings :: "catalog_db \<Rightarrow> variant_uom list" where
  "baseMappings cat = filter vu_isBase (variantUoms cat)"

lemma saveVariantUom_ok:
  assumes m: "findVariantUom cat i company = Inr m" and ids: "uom_ids_ok cat"
    and same: "vu_id m' = vu_id m" "vu_variant m' = vu_variant m" "vu_uom m' = vu_uom m"
      "\<not> vu_isBase m" "\<not> vu_isBase m'"
  shows "uom_ids_ok (saveVariantUom m' cat) \<and> uom_keys (saveVariantUom m' cat) = uom_keys cat
    \<and> baseMappings (saveVariantUom m' cat) = baseMappings cat"
proof -
  have mem: "m \<in> set (variantUoms cat)"
    using m by (auto simp: findVariantUom_def dest: find_SomeD)
  have uniq: "x = m" if "x \<in> set (variantUoms cat)" "vu_id x = vu_id m" for x
    using ids that mem by (auto simp: uom_ids_ok_def distinct_map inj_on_def)
  let ?f = "\<lambda>x. if vu_id x = vu_id m' then m' else x"
  have id: "map vu_id (map ?f (variantUoms cat)) = map vu_id (variantUoms cat)"
    by (simp add: o_def if_distrib cong: if_cong)
  have key: "map (\<lambda>m. (vu_variant m, vu_uom m)) (map ?f (variantUoms cat)) = uom_keys cat"
    unfolding uom_keys_def map_map by (rule map_cong [OF refl]) (use uniq same in auto)
  have "filter vu_isBase (map ?f xs) = filter vu_isBase xs" if "set xs \<subseteq> set (variantUoms cat)" for xs
    using that by (induction xs) (use uniq same in auto)
  then have base: "filter vu_isBase (map ?f (variantUoms cat)) = baseMappings cat"
    by (simp add: baseMappings_def)
  have "\<forall>x \<in> set (map ?f (variantUoms cat)). vu_id x < catalogIds cat"
    using ids mem same by (auto simp: uom_ids_ok_def)
  moreover have "distinct (map vu_id (map ?f (variantUoms cat)))"
    unfolding id using ids by (simp add: uom_ids_ok_def)
  moreover have "variantUoms (saveVariantUom m' cat) = map ?f (variantUoms cat)"
    "catalogIds (saveVariantUom m' cat) = catalogIds cat"
    by (simp_all add: saveVariantUom_def)
  ultimately show ?thesis
    unfolding uom_ids_ok_def uom_keys_def [of "saveVariantUom m' cat"]
      baseMappings_def [of "saveVariantUom m' cat"]
    by (simp only: key base simp_thms)
qed

end
