(* ===== verification/Stock_Documents.thy ===== *)
theory Stock_Documents
  imports Stock Catalog
begin

text \<open>
  Stock adjustments (\<open>inventory/services/stock-adjustments.service.ts\<close>) and stock transfers
  (\<open>stock-transfers.service.ts\<close>). Both run in one transaction: a rejected request returns
  \<open>Inl\<close> and the caller keeps the old state.
\<close>

section \<open>Tables\<close>

datatype adjustment_reason = ROpeningBalance | RDamage | RLoss | RFound | RCorrection

record stock_adjustment =
  sa_id :: id
  sa_number :: string
  sa_warehouse :: id
  sa_variant :: id
  sa_change :: int
  sa_reason :: adjustment_reason
  sa_company :: id
  sa_createdBy :: id

record stock_transfer =
  st_id :: id
  st_number :: string
  st_source :: id
  st_destination :: id
  st_company :: id
  st_createdBy :: id

record transfer_item =
  ti_transfer :: id
  ti_variant :: id
  ti_quantity :: int

record inventory_db = stock_db +
  stockAdjustments :: "stock_adjustment list"
  stockTransfers :: "stock_transfer list"
  transferItems :: "transfer_item list"
  adjustmentCounters :: counters
  transferCounters :: counters

definition generateAdjustmentNumber ::
  "id \<Rightarrow> nat \<Rightarrow> 'a inventory_db_scheme \<Rightarrow> string \<times> 'a inventory_db_scheme" where
  "generateAdjustmentNumber company year db =
     (let (nextSequence, t) = next_sequence company year (adjustmentCounters db)
      in (formatDocumentNumber ''ADJ'' year nextSequence, db\<lparr>adjustmentCounters := t\<rparr>))"

definition generateTransferNumber ::
  "id \<Rightarrow> nat \<Rightarrow> 'a inventory_db_scheme \<Rightarrow> string \<times> 'a inventory_db_scheme" where
  "generateTransferNumber company year db =
     (let (nextSequence, t) = next_sequence company year (transferCounters db)
      in (formatDocumentNumber ''TRF'' year nextSequence, db\<lparr>transferCounters := t\<rparr>))"

interpretation adjustment_numbers: numbering generateAdjustmentNumber adjustmentCounters "''ADJ''"
  by unfold_locales (simp_all add: generateAdjustmentNumber_def next_sequence_eq)

interpretation transfer_numbers: numbering generateTransferNumber transferCounters "''TRF''"
  by unfold_locales (simp_all add: generateTransferNumber_def next_sequence_eq)

text \<open>The warehouse checks of the stock documents.\<close>

definition assertUsableWarehouse :: "warehouse \<Rightarrow> id \<Rightarrow> unit result" where
  "assertUsableWarehouse wh company =
     (if wh_status wh \<noteq> Active then Inl (AppException ValidationError)
      else if wh_company wh \<noteq> company then Inl (AppException ValidationError)
      else Inr ())"

section \<open>Adjustments\<close>

record adjustment_dto =
  ad_warehouse :: id
  ad_variant :: id
  ad_change :: int
  ad_reason :: adjustment_reason

definition applyAdjustment ::
  "id \<Rightarrow> id \<Rightarrow> adjustment_dto \<Rightarrow> jdate \<Rightarrow> 'a inventory_db_scheme
    \<Rightarrow> (stock_adjustment \<times> 'a inventory_db_scheme) result" where
  "applyAdjustment company user dto now db =
     (let (number, db1) = generateAdjustmentNumber company (getUTCFullYear now) db;
          (stock, db2) = lockWarehouseStockRow (ad_warehouse dto) (ad_variant dto) db1;
          newQuantity = onHandQuantity stock + ad_change dto
      in if newQuantity < 0 then Inl (AppException Conflict)
         else
           let db3 = updateOnHand (ad_warehouse dto) (ad_variant dto) newQuantity db2;
               a = \<lparr>sa_id = rowIds db3, sa_number = number, sa_warehouse = ad_warehouse dto,
                    sa_variant = ad_variant dto, sa_change = ad_change dto,
                    sa_reason = ad_reason dto, sa_company = company, sa_createdBy = user\<rparr>;
               db4 = db3\<lparr>stockAdjustments := stockAdjustments db3 @ [a], rowIds := rowIds db3 + 1\<rparr>
           in Inr (a, saveMovement (\<lambda>i. \<lparr>mv_id = i, mv_warehouse = ad_warehouse dto,
                  mv_variant = ad_variant dto,
                  mv_type = (if ad_reason dto = ROpeningBalance then OpeningBalance else Adjustment),
                  mv_change = ad_change dto, mv_after = newQuantity,
                  mv_refType = RefStockAdjustment, mv_refId = sa_id a, mv_createdAt = now,
                  mv_createdBy = Some user\<rparr>) db4))"

definition createAdjustment ::
  "org_db \<Rightarrow> catalog_db \<Rightarrow> id \<Rightarrow> id \<Rightarrow> adjustment_dto \<Rightarrow> jdate \<Rightarrow> 'a inventory_db_scheme
    \<Rightarrow> (stock_adjustment \<times> 'a inventory_db_scheme) result" where
  "createAdjustment org cat company user dto now db =
     andThen (findWarehouse org (ad_warehouse dto)) (\<lambda>wh.
     andThen (assertUsableWarehouse wh company) (\<lambda>_.
     andThen (assertVariantActive cat company (ad_variant dto)) (\<lambda>_.
     if ad_change dto = 0 then Inl (AppException ValidationError)
     else applyAdjustment company user dto now db)))"

lemma level_cong: "warehouseStock db' = warehouseStock db \<Longrightarrow> level db' w v = level db w v"
  by (simp add: level_def)

lemma applyAdjustment_logs:
  assumes "applyAdjustment company user dto now db = Inr (a, db')"
  shows "logs db db' [last (stockMovements db')]"
    and "level db' (ad_warehouse dto) (ad_variant dto) \<ge> 0"
    and "\<not> (w = ad_warehouse dto \<and> v = ad_variant dto) \<Longrightarrow> level db' w v = level db w v"
    and "level db' (ad_warehouse dto) (ad_variant dto)
      = level db (ad_warehouse dto) (ad_variant dto) + ad_change dto"
    and "mv_after (last (stockMovements db')) = level db' (ad_warehouse dto) (ad_variant dto)"
proof -
  obtain n db1 where g: "generateAdjustmentNumber company (getUTCFullYear now) db = (n, db1)" by force
  obtain r db2 where l: "lockWarehouseStockRow (ad_warehouse dto) (ad_variant dto) db1 = (r, db2)"
    by force
  note laws = lockWarehouseStockRow_laws [OF l]
  have 1: "warehouseStock db1 = warehouseStock db" "stockMovements db1 = stockMovements db"
    using g by (auto simp: generateAdjustmentNumber_def next_sequence_eq)
  have lev: "level db1 w v = level db w v" for w v using 1 by (simp add: level_def)
  let ?q = "onHandQuantity r + ad_change dto"
  from assms g l obtain m where q: "0 \<le> ?q"
    and db': "warehouseStock db' = warehouseStock (updateOnHand (ad_warehouse dto) (ad_variant dto) ?q db2)"
      "stockMovements db' = stockMovements db @ [m]"
    and m: "mv_warehouse m = ad_warehouse dto" "mv_variant m = ad_variant dto"
      "mv_change m = ad_change dto" "mv_after m = ?q"
    using laws(4) 1 by (auto simp: applyAdjustment_def Let_def split: if_splits)
  have up: "level db' w v = (if w = ad_warehouse dto \<and> v = ad_variant dto then ?q else level db w v)"
    for w v
  proof -
    have "level db' w v = level (updateOnHand (ad_warehouse dto) (ad_variant dto) ?q db2) w v"
      using db'(1) by (rule level_cong)
    also have "\<dots> = (if w = ad_warehouse dto \<and> v = ad_variant dto then ?q else level db2 w v)"
      using laws(3) by (intro level_updateOnHand) simp
    finally show ?thesis using laws(2) lev by simp
  qed
  show "logs db db' [last (stockMovements db')]"
    unfolding logs_def using up m laws(1) lev by (auto simp: db'(2))
  show "level db' (ad_warehouse dto) (ad_variant dto) \<ge> 0" using up q by simp
  show "\<not> (w = ad_warehouse dto \<and> v = ad_variant dto) \<Longrightarrow> level db' w v = level db w v"
    using up by auto
  show "level db' (ad_warehouse dto) (ad_variant dto)
      = level db (ad_warehouse dto) (ad_variant dto) + ad_change dto"
    using up laws(1) lev by simp
  show "mv_after (last (stockMovements db')) = level db' (ad_warehouse dto) (ad_variant dto)"
    using up m db'(2) by simp
qed

lemma createAdjustment_applies:
  "createAdjustment org cat company user dto now db = Inr (a, db') \<Longrightarrow>
    applyAdjustment company user dto now db = Inr (a, db')"
  by (auto simp: createAdjustment_def)

type_synonym adjustment_request = "org_db \<times> catalog_db \<times> id \<times> id \<times> adjustment_dto \<times> jdate"

definition serveAdjustment ::
  "adjustment_request \<Rightarrow> inventory_db \<Rightarrow> (stock_adjustment \<times> inventory_db) result" where
  "serveAdjustment p db =
     (case p of (org, cat, company, user, dto, now) \<Rightarrow> createAdjustment org cat company user dto now db)"

interpretation adjustments: guarded_stock_operation serveAdjustment
proof unfold_locales
  fix p :: adjustment_request and db r db'
  assume a: "serveAdjustment p db = Inr (r, db')"
  obtain org cat company user dto now where p: "p = (org, cat, company, user, dto, now)"
    by (metis prod.exhaust)
  from a have "applyAdjustment company user dto now db = Inr (r, db')"
    by (auto simp: serveAdjustment_def p intro: createAdjustment_applies)
  note laws = applyAdjustment_logs [OF this]
  show "\<exists>ms. logs db db' ms" using laws(1) by blast
  show "stock_nonneg db \<Longrightarrow> stock_nonneg db'"
    unfolding stock_nonneg_def using laws(2,3) by metis
qed

section \<open>Transfers\<close>

record transfer_item_dto =
  td_variant :: id
  td_quantity :: int

record transfer_dto =
  tr_source :: id
  tr_destination :: id
  tr_items :: "transfer_item_dto list"

text \<open>The variants are read through the transaction, without the company service.\<close>

definition transferLockTargets :: "transfer_dto \<Rightarrow> (id \<times> id) list" where
  "transferLockTargets dto =
     sort_key fst (sort_key snd
       (map (\<lambda>i. (tr_source dto, td_variant i)) (tr_items dto)
        @ map (\<lambda>i. (tr_destination dto, td_variant i)) (tr_items dto)))"

definition assertSourceStock :: "id \<Rightarrow> (id \<times> id \<rightharpoonup> stock_row) \<Rightarrow> transfer_item_dto \<Rightarrow> unit result" where
  "assertSourceStock source rows i =
     (case rows (stockKey source (td_variant i)) of
        None \<Rightarrow> Inl (AppException Conflict)
      | Some r \<Rightarrow> if onHandQuantity r < td_quantity i then Inl (AppException Conflict) else Inr ())"

text \<open>
  One turn of the mutation loop. The row objects are shared by all items of a variant: the source
  row is decreased and the destination row increased in place, and both are written back.
\<close>

definition adjustRow :: "(id \<times> id \<rightharpoonup> stock_row) \<Rightarrow> id \<times> id \<Rightarrow> int \<Rightarrow> (id \<times> id \<rightharpoonup> stock_row)" where
  "adjustRow rows k d = rows(k := map_option (\<lambda>r. r\<lparr>onHandQuantity := onHandQuantity r + d\<rparr>) (rows k))"

definition onHandOf :: "(id \<times> id \<rightharpoonup> stock_row) \<Rightarrow> id \<times> id \<Rightarrow> int" where
  "onHandOf rows k = onHandQuantity (the (rows k))"

definition moveItem ::
  "id \<Rightarrow> id \<Rightarrow> transfer_item_dto \<Rightarrow> (id \<times> id \<rightharpoonup> stock_row) \<times> 'a stock_db_scheme
    \<Rightarrow> (id \<times> id \<rightharpoonup> stock_row) \<times> 'a stock_db_scheme" where
  "moveItem source destination i s =
     (let (rows, db) = s; v = td_variant i;
          rows1 = adjustRow rows (stockKey source v) (- td_quantity i);
          rows2 = adjustRow rows1 (stockKey destination v) (td_quantity i);
          db1 = updateOnHand source v (onHandOf rows2 (stockKey source v)) db;
          db2 = updateOnHand destination v (onHandOf rows2 (stockKey destination v)) db1
      in (rows2, db2))"

definition logItem ::
  "id \<Rightarrow> id \<Rightarrow> id \<Rightarrow> id \<Rightarrow> jdate \<Rightarrow> (id \<times> id \<rightharpoonup> stock_row) \<Rightarrow> transfer_item_dto
    \<Rightarrow> 'a inventory_db_scheme \<Rightarrow> 'a inventory_db_scheme" where
  "logItem source destination transfer user now rows i db =
     (let db1 = db\<lparr>transferItems := transferItems db @ [\<lparr>ti_transfer = transfer,
            ti_variant = td_variant i, ti_quantity = td_quantity i\<rparr>]\<rparr>;
          db2 = saveMovement (\<lambda>k. \<lparr>mv_id = k, mv_warehouse = source, mv_variant = td_variant i,
            mv_type = TransferOut, mv_change = - td_quantity i,
            mv_after = onHandOf rows (stockKey source (td_variant i)),
            mv_refType = RefStockTransfer, mv_refId = transfer, mv_createdAt = now,
            mv_createdBy = Some user\<rparr>) db1
      in saveMovement (\<lambda>k. \<lparr>mv_id = k, mv_warehouse = destination, mv_variant = td_variant i,
            mv_type = TransferIn, mv_change = td_quantity i,
            mv_after = onHandOf rows (stockKey destination (td_variant i)),
            mv_refType = RefStockTransfer, mv_refId = transfer, mv_createdAt = now,
            mv_createdBy = Some user\<rparr>) db2)"

definition applyTransfer ::
  "catalog_db \<Rightarrow> id \<Rightarrow> id \<Rightarrow> transfer_dto \<Rightarrow> jdate \<Rightarrow> 'a inventory_db_scheme
    \<Rightarrow> (stock_transfer \<times> 'a inventory_db_scheme) result" where
  "applyTransfer cat company user dto now db =
     (let (number, db1) = generateTransferNumber company (getUTCFullYear now) db
      in andThen (checkAll (\<lambda>i. assertVariantActive cat company (td_variant i)) (tr_items dto)) (\<lambda>_.
         let (rows, db2) = lockWarehouseStockRows (transferLockTargets dto) Map.empty db1
         in andThen (checkAll (assertSourceStock (tr_source dto) rows) (tr_items dto)) (\<lambda>_.
            let (rows', db3) = fold (moveItem (tr_source dto) (tr_destination dto)) (tr_items dto) (rows, db2);
                t = \<lparr>st_id = rowIds db3, st_number = number, st_source = tr_source dto,
                     st_destination = tr_destination dto, st_company = company, st_createdBy = user\<rparr>;
                db4 = db3\<lparr>stockTransfers := stockTransfers db3 @ [t], rowIds := rowIds db3 + 1\<rparr>
            in Inr (t, fold (logItem (tr_source dto) (tr_destination dto) (st_id t) user now rows')
                         (tr_items dto) db4))))"

definition createTransfer ::
  "org_db \<Rightarrow> catalog_db \<Rightarrow> id \<Rightarrow> id \<Rightarrow> transfer_dto \<Rightarrow> jdate \<Rightarrow> 'a inventory_db_scheme
    \<Rightarrow> (stock_transfer \<times> 'a inventory_db_scheme) result" where
  "createTransfer org cat company user dto now db =
     (if tr_source dto = tr_destination dto then Inl (AppException ValidationError)
      else andThen (findWarehouse org (tr_source dto)) (\<lambda>src.
      andThen (findWarehouse org (tr_destination dto)) (\<lambda>dst.
      andThen (assertUsableWarehouse src company) (\<lambda>_.
      andThen (assertUsableWarehouse dst company) (\<lambda>_.
      applyTransfer cat company user dto now db)))))"

section \<open>What a transfer does\<close>

text \<open>The row objects agree with the table they were locked from.\<close>

definition mirrors :: "(id \<times> id \<rightharpoonup> stock_row) \<Rightarrow> 'a stock_db_scheme \<Rightarrow> bool" where
  "mirrors rows db \<longleftrightarrow> (\<forall>w v r. rows (w, v) = Some r \<longrightarrow>
     warehouseStock db (w, v) \<noteq> None \<and> onHandQuantity r = level db w v)"

lemma lockRows_laws:
  assumes "lockWarehouseStockRows ts rows db = (rows', db')" "mirrors rows db"
  shows "mirrors rows' db' \<and> (\<forall>w v. level db' w v = level db w v)
    \<and> stockMovements db' = stockMovements db \<and> stock_frame db db' \<and> rowIds db' = rowIds db
    \<and> (\<forall>k. k \<in> set ts \<or> rows k \<noteq> None \<longrightarrow> rows' k \<noteq> None)"
  using assms
proof (induction ts rows db rule: lockWarehouseStockRows.induct)
  case (1 rows db)
  then show ?case by simp
next
  case (2 w v ts rows db)
  show ?case
  proof (cases "rows (stockKey w v)")
    case (Some r)
    then have "lockWarehouseStockRows ts rows db = (rows', db')" using "2.prems"(1) by simp
    with 2 Some show ?thesis by (auto simp: stockKey_def)
  next
    case None
    obtain r d where l: "lockWarehouseStockRow w v db = (r, d)" by force
    note laws = lockWarehouseStockRow_laws [OF l]
    have m: "mirrors (rows(stockKey w v \<mapsto> r)) d"
      using "2.prems"(2) laws(1-3,5)
      by (auto simp: mirrors_def stockKey_def)
    have "lockWarehouseStockRows ts (rows(stockKey w v \<mapsto> r)) d = (rows', db')"
      using "2.prems"(1) None l by simp
    from "2.IH"(2) [OF _ l [symmetric] refl this m] None laws show ?thesis
      by (auto simp: stockKey_def intro: stock_frame_trans)
  qed
qed

text \<open>The movement of one item on the level of a row.\<close>

definition itemDelta :: "id \<Rightarrow> id \<Rightarrow> transfer_item_dto \<Rightarrow> id \<Rightarrow> id \<Rightarrow> int" where
  "itemDelta source destination i w v =
     (if v = td_variant i then (if w = destination then td_quantity i else 0)
        - (if w = source then td_quantity i else 0) else 0)"

definition transferDelta :: "id \<Rightarrow> id \<Rightarrow> transfer_item_dto list \<Rightarrow> id \<Rightarrow> id \<Rightarrow> int" where
  "transferDelta source destination items w v =
     sum_list (map (\<lambda>i. itemDelta source destination i w v) items)"

definition lockedFor :: "id \<Rightarrow> id \<Rightarrow> transfer_item_dto \<Rightarrow> (id \<times> id \<rightharpoonup> stock_row) \<Rightarrow> bool" where
  "lockedFor source destination i rows \<longleftrightarrow>
     rows (source, td_variant i) \<noteq> None \<and> rows (destination, td_variant i) \<noteq> None"

lemma moveItem_laws:
  assumes m: "moveItem s d i (rows, db) = (rows', db')" and sd: "s \<noteq> d"
    and mi: "mirrors rows db" and lk: "lockedFor s d i rows"
  shows "mirrors rows' db' \<and> (\<forall>w v. level db' w v = level db w v + itemDelta s d i w v)
    \<and> stockMovements db' = stockMovements db \<and> stock_frame db db'
    \<and> (\<forall>k. (rows' k = None) = (rows k = None))"
proof -
  let ?v = "td_variant i" and ?q = "td_quantity i"
  obtain a b where ab: "rows (s, ?v) = Some a" "rows (d, ?v) = Some b"
    using lk by (auto simp: lockedFor_def)
  have lev: "onHandQuantity a = level db s ?v" "onHandQuantity b = level db d ?v"
    and ne: "warehouseStock db (s, ?v) \<noteq> None" "warehouseStock db (d, ?v) \<noteq> None"
    using mi ab unfolding mirrors_def by blast+
  let ?db1 = "updateOnHand s ?v (onHandQuantity a - ?q) db"
  from m have rows': "rows' = rows((s, ?v) \<mapsto> a\<lparr>onHandQuantity := onHandQuantity a - ?q\<rparr>,
        (d, ?v) \<mapsto> b\<lparr>onHandQuantity := onHandQuantity b + ?q\<rparr>)"
    and db': "db' = updateOnHand d ?v (onHandQuantity b + ?q) ?db1"
    using ab sd by (auto simp: moveItem_def adjustRow_def onHandOf_def stockKey_def Let_def)
  have up: "level db' w v = level db w v + itemDelta s d i w v" for w v
  proof -
    have ne1: "warehouseStock ?db1 (d, ?v) \<noteq> None" using ne(2) by simp
    show ?thesis unfolding db' level_updateOnHand [OF ne1] level_updateOnHand [OF ne(1)]
      using sd lev by (auto simp: itemDelta_def)
  qed
  have "mirrors rows' db'"
    unfolding mirrors_def
  proof (intro allI impI)
    fix w v r assume r: "rows' (w, v) = Some r"
    have ne': "(warehouseStock db' k = None) = (warehouseStock db k = None)" for k
      by (simp add: db')
    show "warehouseStock db' (w, v) \<noteq> None \<and> onHandQuantity r = level db' w v"
      using r ne mi lev sd unfolding ne' up rows'
      by (auto simp: mirrors_def itemDelta_def split: if_splits)
  qed
  moreover have "stock_frame db db'"
    unfolding db' by (rule stock_frame_trans [OF updateOnHand_frame updateOnHand_frame])
  moreover have "\<forall>k. (rows' k = None) = (rows k = None)" using ab by (simp add: rows')
  ultimately show ?thesis using up by (simp add: db')
qed

lemma fold_moveItem:
  assumes "fold (moveItem s d) items (rows, db) = (rows', db')" "s \<noteq> d" "mirrors rows db"
    and "\<forall>i \<in> set items. lockedFor s d i rows"
  shows "mirrors rows' db' \<and> (\<forall>w v. level db' w v = level db w v + transferDelta s d items w v)
    \<and> stockMovements db' = stockMovements db \<and> stock_frame db db'"
  using assms
proof (induction items arbitrary: rows db)
  case Nil
  then show ?case by (simp add: transferDelta_def)
next
  case (Cons i items)
  obtain r1 d1 where m: "moveItem s d i (rows, db) = (r1, d1)" by force
  have lk: "lockedFor s d i rows" using Cons.prems(4) by simp
  note one = moveItem_laws [OF m Cons.prems(2,3) lk]
  then have "\<forall>j \<in> set items. lockedFor s d j r1" using Cons.prems(4) by (simp add: lockedFor_def)
  with Cons.IH [of r1 d1] Cons.prems m one show ?case
    by (auto simp: transferDelta_def intro: stock_frame_trans)
qed

lemma fold_logItem:
  "\<exists>ms. stockMovements (fold (logItem s d t u now rows) items db) = stockMovements db @ ms
    \<and> (\<forall>w v. movementSum ms w v = transferDelta s d items w v)
    \<and> warehouseStock (fold (logItem s d t u now rows) items db) = warehouseStock db"
proof (induction items arbitrary: db)
  case Nil
  show ?case by (simp add: transferDelta_def)
next
  case (Cons i items)
  let ?db = "logItem s d t u now rows i db"
  obtain a b where "stockMovements ?db = stockMovements db @ [a, b]"
      "\<forall>w v. movementSum [a, b] w v = itemDelta s d i w v" "warehouseStock ?db = warehouseStock db"
    by (auto simp: logItem_def Let_def itemDelta_def)
  then obtain xs where one: "stockMovements ?db = stockMovements db @ xs"
      "\<forall>w v. movementSum xs w v = itemDelta s d i w v" "warehouseStock ?db = warehouseStock db"
    by blast
  from Cons.IH [of ?db] obtain ms where "stockMovements (fold (logItem s d t u now rows) items ?db)
        = stockMovements ?db @ ms"
      "\<forall>w v. movementSum ms w v = transferDelta s d items w v"
      "warehouseStock (fold (logItem s d t u now rows) items ?db) = warehouseStock ?db"
    by blast
  with one show ?case
    by (intro exI [of _ "xs @ ms"]) (simp add: transferDelta_def)
qed

lemma applyTransfer_laws:
  assumes a: "applyTransfer cat company user dto now db = Inr (t, db')"
    and sd: "tr_source dto \<noteq> tr_destination dto"
  shows "\<exists>ms. logs db db' ms \<and> (\<forall>w v. movementSum ms w v
      = transferDelta (tr_source dto) (tr_destination dto) (tr_items dto) w v)"
    and "\<forall>i \<in> set (tr_items dto). td_quantity i \<le> level db (tr_source dto) (td_variant i)"
proof -
  let ?s = "tr_source dto" and ?d = "tr_destination dto" and ?is = "tr_items dto"
  obtain n db1 where g: "generateTransferNumber company (getUTCFullYear now) db = (n, db1)" by force
  have 1: "warehouseStock db1 = warehouseStock db" "stockMovements db1 = stockMovements db"
    using g by (auto simp: generateTransferNumber_def next_sequence_eq)
  obtain rows db2 where l: "lockWarehouseStockRows (transferLockTargets dto) Map.empty db1 = (rows, db2)"
    by force
  have "mirrors Map.empty db1" by (simp add: mirrors_def)
  note lock = lockRows_laws [OF l this]
  obtain rows' db3 where f: "fold (moveItem ?s ?d) ?is (rows, db2) = (rows', db3)" by force
  have lk: "\<forall>i \<in> set ?is. lockedFor ?s ?d i rows"
    using lock by (auto simp: lockedFor_def transferLockTargets_def)
  have mi: "mirrors rows db2" using lock by blast
  note mv = fold_moveItem [OF f sd mi lk]
  have lev1: "level db1 w v = level db w v" for w v by (rule level_cong [OF 1(1)])
  let ?db4 = "db3\<lparr>stockTransfers := stockTransfers db3 @ [t], rowIds := rowIds db3 + 1\<rparr>"
  from a g l f have ck: "\<forall>i \<in> set ?is. assertSourceStock ?s rows i = Inr ()"
    and db': "db' = fold (logItem ?s ?d (st_id t) user now rows') ?is ?db4"
    by (auto simp: applyTransfer_def Let_def)
  obtain ms where ms: "stockMovements db' = stockMovements ?db4 @ ms"
      "\<forall>w v. movementSum ms w v = transferDelta ?s ?d ?is w v"
      "warehouseStock db' = warehouseStock ?db4"
    using fold_logItem [of ?s ?d "st_id t" user now rows' ?is ?db4] by (auto simp: db')
  have "level db' w v = level db3 w v" for w v by (rule level_cong) (simp add: ms(3))
  then have "logs db db' ms" using ms mv lock lev1 1(2) by (simp add: logs_def)
  with ms(2) show "\<exists>ms. logs db db' ms \<and> (\<forall>w v. movementSum ms w v = transferDelta ?s ?d ?is w v)"
    by blast
  show "\<forall>i \<in> set ?is. td_quantity i \<le> level db ?s (td_variant i)"
  proof
    fix i assume i: "i \<in> set ?is"
    then obtain r where r: "rows (?s, td_variant i) = Some r" "td_quantity i \<le> onHandQuantity r"
      using ck by (force simp: assertSourceStock_def stockKey_def split: option.splits if_splits)
    have "onHandQuantity r = level db2 ?s (td_variant i)" using mi r(1) by (simp add: mirrors_def)
    also have "\<dots> = level db ?s (td_variant i)" using lock lev1 by simp
    finally show "td_quantity i \<le> level db ?s (td_variant i)" using r(2) by simp
  qed
qed

lemma createTransfer_applies:
  "createTransfer org cat company user dto now db = Inr (t, db') \<Longrightarrow>
    tr_source dto \<noteq> tr_destination dto \<and> applyTransfer cat company user dto now db = Inr (t, db')"
  by (auto simp: createTransfer_def)

type_synonym transfer_request = "org_db \<times> catalog_db \<times> id \<times> id \<times> transfer_dto \<times> jdate"

definition serveTransfer :: "transfer_request \<Rightarrow> inventory_db \<Rightarrow> (stock_transfer \<times> inventory_db) result" where
  "serveTransfer p db =
     (case p of (org, cat, company, user, dto, now) \<Rightarrow> createTransfer org cat company user dto now db)"

interpretation transfers: stock_operation serveTransfer
proof unfold_locales
  fix p :: transfer_request and db r db'
  assume a: "serveTransfer p db = Inr (r, db')"
  obtain org cat company user dto now where p: "p = (org, cat, company, user, dto, now)"
    by (metis prod.exhaust)
  from a have "createTransfer org cat company user dto now db = Inr (r, db')"
    by (simp add: serveTransfer_def p)
  then have t: "tr_source dto \<noteq> tr_destination dto" "applyTransfer cat company user dto now db = Inr (r, db')"
    using createTransfer_applies by blast+
  show "\<exists>ms. logs db db' ms" using applyTransfer_laws(1) [OF t(2,1)] by blast
qed

text \<open>A transfer whose items name distinct variants cannot overdraw the source.\<close>

lemma transferDelta_distinct:
  assumes "distinct (map td_variant items)" "i \<in> set items" "s \<noteq> d"
  shows "transferDelta s d items s (td_variant i) = - td_quantity i"
  using assms
proof (induction items)
  case (Cons j items)
  have none: "transferDelta s d items s v = 0" if "v \<notin> td_variant ` set items" for v
    using that by (induction items) (auto simp: transferDelta_def itemDelta_def)
  show ?case
  proof (cases "i = j")
    case True
    then have "transferDelta s d items s (td_variant i) = 0"
      using Cons.prems(1) by (intro none) auto
    then show ?thesis using True Cons.prems(3) by (simp add: transferDelta_def itemDelta_def)
  next
    case False
    then have i: "i \<in> set items" using Cons.prems(2) by simp
    then have "td_variant i \<in> td_variant ` set items" by (rule imageI)
    with Cons.prems(1) have "td_variant i \<noteq> td_variant j" by auto
    with i Cons show ?thesis by (simp add: transferDelta_def itemDelta_def)
  qed
qed simp

lemma transferDelta_other:
  assumes "\<forall>i \<in> set items. 0 \<le> td_quantity i" "w \<noteq> s \<or> v \<notin> td_variant ` set items"
  shows "0 \<le> transferDelta s d items w v"
  unfolding transferDelta_def
  by (rule sum_list_nonneg_map) (use assms in \<open>auto simp: itemDelta_def\<close>)

section \<open>Properties\<close>

text \<open>An accepted adjustment moves the stock of its row by exactly its quantity, never below
  zero, leaves every other row alone, and logs one movement whose running balance is the new stock.\<close>

theorem adjustment_moves_its_row:
  assumes "createAdjustment org cat company user dto now db = Inr (a, db')"
  shows "level db' (ad_warehouse dto) (ad_variant dto)
      = level db (ad_warehouse dto) (ad_variant dto) + ad_change dto
    \<and> 0 \<le> level db' (ad_warehouse dto) (ad_variant dto)
    \<and> mv_after (last (stockMovements db')) = level db' (ad_warehouse dto) (ad_variant dto)
    \<and> (\<forall>w v. \<not> (w = ad_warehouse dto \<and> v = ad_variant dto) \<longrightarrow> level db' w v = level db w v)"
  using applyAdjustment_logs [OF createAdjustment_applies [OF assms]] by blast

definition demo_org_wh :: org_db where
  "demo_org_wh = \<lparr>companies = [1 \<mapsto> Active], branches = Map.empty,
     warehouses = [2 \<mapsto> \<lparr>wh_company = 1, wh_branch = 8, wh_status = Active\<rparr>,
                   3 \<mapsto> \<lparr>wh_company = 1, wh_branch = 8, wh_status = Active\<rparr>], warehouseIds = [2, 3],
     customers = Map.empty, suppliers = Map.empty, paymentMethods = Map.empty, paymentTerms = Map.empty\<rparr>"

definition demo_cat :: catalog_db where
  "demo_cat = \<lparr>variants = [\<lparr>pv_id = 20, pv_company = 1, pv_sku = ''TEE-M'', pv_productName = ''Tee'',
       pv_baseUom = None, pv_status = Active, pv_deleted = False\<rparr>],
     uoms = [], variantUoms = [], priceLists = [], priceItems = [], catalogIds = 50\<rparr>"

definition demo_stock0 :: inventory_db where
  "demo_stock0 = \<lparr>warehouseStock = Map.empty, stockMovements = [], rowIds = 100,
     stockAdjustments = [], stockTransfers = [], transferItems = [],
     adjustmentCounters = Map.empty, transferCounters = Map.empty\<rparr>"

definition demo_opening :: adjustment_dto where
  "demo_opening = \<lparr>ad_warehouse = 2, ad_variant = 20, ad_change = 5, ad_reason = ROpeningBalance\<rparr>"

definition demo_stock5 :: inventory_db where
  "demo_stock5 = \<lparr>warehouseStock = [(2, 20) \<mapsto> \<lparr>onHandQuantity = 5, reservedQuantity = 0\<rparr>],
     stockMovements = [\<lparr>mv_id = 101, mv_warehouse = 2, mv_variant = 20, mv_type = OpeningBalance,
        mv_change = 5, mv_after = 5, mv_refType = RefStockAdjustment, mv_refId = 100,
        mv_createdAt = ((2026, 1, 5), 0), mv_createdBy = Some 9\<rparr>], rowIds = 102,
     stockAdjustments = [\<lparr>sa_id = 100, sa_number = formatDocumentNumber ''ADJ'' 2026 1,
        sa_warehouse = 2, sa_variant = 20, sa_change = 5, sa_reason = ROpeningBalance,
        sa_company = 1, sa_createdBy = 9\<rparr>], stockTransfers = [], transferItems = [],
     adjustmentCounters = [(1, 2026) \<mapsto> 1], transferCounters = Map.empty\<rparr>"

lemma demo_adjust:
  "createAdjustment demo_org_wh demo_cat 1 9 demo_opening ((2026, 1, 5), 0) demo_stock0
    = Inr (hd (stockAdjustments demo_stock5), demo_stock5)"
  by (simp add: createAdjustment_def applyAdjustment_def demo_org_wh_def demo_cat_def demo_stock0_def
      demo_opening_def demo_stock5_def findWarehouse_def assertUsableWarehouse_def
      assertVariantActive_def findVariantInCompany_def generateAdjustmentNumber_def
      next_sequence_eq last_sequence_def lockWarehouseStockRow_def updateOnHand_def
      saveMovement_def getUTCFullYear_def Let_def)

theorem adjustment_moves_its_row_witness:
  "level demo_stock5 2 20 = 5 \<and> mv_after (last (stockMovements demo_stock5)) = 5"
  using adjustment_moves_its_row [OF demo_adjust]
  by (simp add: demo_opening_def demo_stock0_def level_def)

text \<open>An accepted transfer moves each item from the source to the destination and nothing else:
  the level of every row changes by the item quantities, the logged movements add up to that change,
  and each single item was covered by the source stock.\<close>

theorem transfer_moves_items:
  assumes "createTransfer org cat company user dto now db = Inr (t, db')"
  shows "(\<exists>ms. logs db db' ms \<and> (\<forall>w v. movementSum ms w v
      = transferDelta (tr_source dto) (tr_destination dto) (tr_items dto) w v))
    \<and> (\<forall>i \<in> set (tr_items dto). td_quantity i \<le> level db (tr_source dto) (td_variant i))"
  using createTransfer_applies [OF assms] applyTransfer_laws by blast

definition demo_double :: transfer_dto where
  "demo_double = \<lparr>tr_source = 2, tr_destination = 3,
     tr_items = [\<lparr>td_variant = 20, td_quantity = 3\<rparr>, \<lparr>td_variant = 20, td_quantity = 3\<rparr>]\<rparr>"

lemma demo_transfer:
  "\<exists>t db'. createTransfer demo_org_wh demo_cat 1 9 demo_double ((2026, 1, 6), 0) demo_stock5 = Inr (t, db')"
  by (simp add: createTransfer_def applyTransfer_def demo_org_wh_def demo_cat_def demo_double_def
      demo_stock5_def findWarehouse_def assertUsableWarehouse_def assertVariantActive_def
      findVariantInCompany_def generateTransferNumber_def next_sequence_eq transferLockTargets_def
      lockWarehouseStockRow_def stockKey_def assertSourceStock_def Let_def split_beta)

theorem transfer_moves_items_witness:
  "\<exists>t db'. createTransfer demo_org_wh demo_cat 1 9 demo_double ((2026, 1, 6), 0) demo_stock5 = Inr (t, db')
    \<and> level db' 3 20 = 6"
proof -
  obtain t db' where t: "createTransfer demo_org_wh demo_cat 1 9 demo_double ((2026, 1, 6), 0) demo_stock5
      = Inr (t, db')" using demo_transfer by blast
  from transfer_moves_items [OF t] have "level db' 3 20 = 6"
    by (auto simp: logs_def demo_double_def transferDelta_def itemDelta_def demo_stock5_def level_def)
  with t show ?thesis by blast
qed

text \<open>When the items of an accepted transfer name distinct variants, no stock row that was not
  negative becomes negative.\<close>

theorem transfer_keeps_stock_nonneg:
  assumes "createTransfer org cat company user dto now db = Inr (t, db')"
    and "distinct (map td_variant (tr_items dto))" and "\<forall>i \<in> set (tr_items dto). 0 \<le> td_quantity i"
    and "stock_nonneg db"
  shows "stock_nonneg db'"
proof -
  let ?s = "tr_source dto" and ?d = "tr_destination dto" and ?is = "tr_items dto"
  from createTransfer_applies [OF assms(1)] have sd: "?s \<noteq> ?d"
    and a: "applyTransfer cat company user dto now db = Inr (t, db')" by auto
  from applyTransfer_laws(1) [OF a sd] have lev:
    "level db' w v = level db w v + transferDelta ?s ?d ?is w v" for w v by (auto simp: logs_def)
  show ?thesis unfolding stock_nonneg_def
  proof (intro allI)
    fix w v
    show "0 \<le> level db' w v"
    proof (cases "w = ?s \<and> v \<in> td_variant ` set ?is")
      case True
      then obtain i where i: "i \<in> set ?is" "v = td_variant i" by blast
      with applyTransfer_laws(2) [OF a sd] transferDelta_distinct [OF assms(2) i(1) sd] True
      show ?thesis by (simp add: lev)
    next
      case False
      then have "0 \<le> transferDelta ?s ?d ?is w v" using transferDelta_other [OF assms(3)] by blast
      with assms(4) show ?thesis by (simp add: lev stock_nonneg_def)
    qed
  qed
qed

definition demo_single :: transfer_dto where
  "demo_single = \<lparr>tr_source = 2, tr_destination = 3, tr_items = [\<lparr>td_variant = 20, td_quantity = 5\<rparr>]\<rparr>"

theorem transfer_keeps_stock_nonneg_witness:
  "\<exists>t db'. createTransfer demo_org_wh demo_cat 1 9 demo_single ((2026, 1, 6), 0) demo_stock5 = Inr (t, db')
    \<and> stock_nonneg db'"
proof -
  obtain t db' where t: "createTransfer demo_org_wh demo_cat 1 9 demo_single ((2026, 1, 6), 0) demo_stock5
      = Inr (t, db')"
    by (simp add: createTransfer_def applyTransfer_def demo_org_wh_def demo_cat_def demo_single_def
      demo_stock5_def findWarehouse_def assertUsableWarehouse_def assertVariantActive_def
      findVariantInCompany_def generateTransferNumber_def next_sequence_eq transferLockTargets_def
      lockWarehouseStockRow_def stockKey_def assertSourceStock_def Let_def split_beta)
  have "stock_nonneg demo_stock5" by (simp add: stock_nonneg_def level_def demo_stock5_def)
  with transfer_keeps_stock_nonneg [OF t] t show ?thesis by (auto simp: demo_single_def)
qed

text \<open>Without that condition the guard fails: the sufficiency check compares each item with
  the same unreduced row, so a transfer that names a variant twice is accepted although the items
  together exceed the stock, and leaves the source row negative.\<close>

theorem transfer_overdraws:
  "level demo_stock5 2 20 = 5
    \<and> (\<exists>t db'. createTransfer demo_org_wh demo_cat 1 9 demo_double ((2026, 1, 6), 0) demo_stock5
          = Inr (t, db') \<and> level db' 2 20 = - 1)"
proof -
  obtain t db' where t: "createTransfer demo_org_wh demo_cat 1 9 demo_double ((2026, 1, 6), 0) demo_stock5
      = Inr (t, db')" using demo_transfer by blast
  then have "applyTransfer demo_cat 1 9 demo_double ((2026, 1, 6), 0) demo_stock5 = Inr (t, db')"
    using createTransfer_applies by blast
  from applyTransfer_laws(1) [OF this] have "level db' 2 20 = - 1"
    by (auto simp: logs_def demo_double_def transferDelta_def itemDelta_def demo_stock5_def level_def)
  with t show ?thesis by (simp add: level_def demo_stock5_def)
qed

end
