(* ===== verification/Money.thy ===== *)
theory Money
  imports Prelude Js_Number
begin

text \<open>
  The line arithmetic that the sale and the purchase order services share: a line subtotal
  \<open>Number(price) * quantity\<close>, the discount check against it, the running totals and the grand total,
  all in JavaScript numbers and formatted with \<open>toFixed(2)\<close> at the end. The refinement lemma
  \<open>document_totals_exact\<close> says that the formatted totals are the exact sums of cents as long as
  the document stays within \<open>fits B\<close>: the number of lines times the gross amount in cents is
  below \<open>2 ^ 52\<close>, for instance a thousand lines of together five billion currency units.
\<close>

record money_line =
  ml_price :: int
  ml_quantity :: int
  ml_discount :: int
  ml_tax :: int

definition lineSubtotal :: "'a money_line_scheme \<Rightarrow> real" where
  "lineSubtotal l = js_mul (js_num (ml_price l)) (of_int (ml_quantity l))"

definition lineTotal :: "'a money_line_scheme \<Rightarrow> real" where
  "lineTotal l = js_add (js_sub (lineSubtotal l) (js_num (ml_discount l))) (js_num (ml_tax l))"

definition assertNonNegative :: "'a money_line_scheme \<Rightarrow> unit result" where
  "assertNonNegative l =
     (if js_num (ml_discount l) < 0 \<or> js_num (ml_tax l) < 0
      then Inl (AppException ValidationError) else Inr ())"

definition assertDiscountFits :: "'a money_line_scheme \<Rightarrow> unit result" where
  "assertDiscountFits l =
     (if lineSubtotal l < js_num (ml_discount l) then Inl (AppException ValidationError) else Inr ())"

text \<open>The three running totals, in the order the loop adds them.\<close>

record money_totals =
  mt_subtotal :: real
  mt_discount :: real
  mt_tax :: real

definition zeroTotals :: money_totals where
  "zeroTotals = \<lparr>mt_subtotal = 0, mt_discount = 0, mt_tax = 0\<rparr>"

definition addLine :: "'a money_line_scheme \<Rightarrow> money_totals \<Rightarrow> money_totals" where
  "addLine l t =
     \<lparr>mt_subtotal = js_add (mt_subtotal t) (lineSubtotal l),
      mt_discount = js_add (mt_discount t) (js_num (ml_discount l)),
      mt_tax = js_add (mt_tax t) (js_num (ml_tax l))\<rparr>"

definition documentTotals :: "'a money_line_scheme list \<Rightarrow> money_totals" where
  "documentTotals ls = fold addLine ls zeroTotals"

definition grandTotal :: "money_totals \<Rightarrow> real" where
  "grandTotal t = js_add (js_sub (mt_subtotal t) (mt_discount t)) (mt_tax t)"

section \<open>Exact cents\<close>

definition gross :: "'a money_line_scheme \<Rightarrow> int" where
  "gross l = ml_price l * ml_quantity l"

definition line_ok :: "'a money_line_scheme \<Rightarrow> bool" where
  "line_ok l \<longleftrightarrow> 0 \<le> ml_price l \<and> 0 \<le> ml_quantity l \<and> 0 \<le> ml_discount l \<and> ml_discount l \<le> gross l
     \<and> 0 \<le> ml_tax l"

definition sumGross :: "'a money_line_scheme list \<Rightarrow> int" where
  "sumGross ls = sum_list (map gross ls)"

definition sumDiscount :: "'a money_line_scheme list \<Rightarrow> int" where
  "sumDiscount ls = sum_list (map ml_discount ls)"

definition sumTax :: "'a money_line_scheme list \<Rightarrow> int" where
  "sumTax ls = sum_list (map ml_tax ls)"

lemma sums_simps [simp]:
  "sumGross [] = 0" "sumDiscount [] = 0" "sumTax [] = 0"
  "sumGross (l # ls) = gross l + sumGross ls"
  "sumDiscount (l # ls) = ml_discount l + sumDiscount ls"
  "sumTax (l # ls) = ml_tax l + sumTax ls"
  by (simp_all add: sumGross_def sumDiscount_def sumTax_def)

text \<open>
  A document of \<open>n\<close> lines fits when ten roundings per line cannot move a total by half a cent.
\<close>

definition document_fits :: "int \<Rightarrow> 'a money_line_scheme list \<Rightarrow> bool" where
  "document_fits B ls \<longleftrightarrow> (\<forall>l \<in> set ls. line_ok l) \<and> sumGross ls + sumTax ls \<le> B
     \<and> fits B (10 * length ls + 20)"

lemma gross_nonneg: "line_ok l \<Longrightarrow> 0 \<le> gross l"
  by (simp add: line_ok_def gross_def)

lemma sums_nonneg:
  assumes "\<forall>l \<in> set ls. line_ok l"
  shows "0 \<le> sumGross ls" "0 \<le> sumDiscount ls" "0 \<le> sumTax ls" "sumDiscount ls \<le> sumGross ls"
  using assms by (induction ls) (auto simp: line_ok_def gross_def add_mono)

lemma near_lineSubtotal:
  assumes "line_ok l" "gross l \<le> B" "fits B 1"
  shows "near B 2 (lineSubtotal l) (gross l)"
  using near_mul [of "ml_price l" "ml_quantity l" B] assms gross_nonneg [OF assms(1)]
  by (simp add: lineSubtotal_def gross_def)

text \<open>The check passes only if the discount is within the line, and passes whenever it is below.\<close>

lemma assertDiscountFits_sound:
  assumes l: "0 \<le> ml_price l" "0 \<le> ml_quantity l" "0 \<le> ml_discount l"
    and B: "gross l \<le> B" "ml_discount l \<le> B" "fits B 3"
    and c: "assertDiscountFits l = Inr ()"
  shows "ml_discount l \<le> gross l"
proof (rule ccontr)
  assume "\<not> ml_discount l \<le> gross l"
  then have lt: "gross l < ml_discount l" by simp
  have "0 \<le> gross l" using l by (simp add: gross_def)
  then have "near B 2 (lineSubtotal l) (gross l)"
    using near_mul [of "ml_price l" "ml_quantity l" B] B fits_mono [OF B(3), of 1]
    by (simp add: lineSubtotal_def gross_def)
  moreover have "near B 1 (js_num (ml_discount l)) (ml_discount l)"
    using l B by (intro near_num) simp
  ultimately have "lineSubtotal l < js_num (ml_discount l)"
    using lt B(3) by (intro near_less [of B 2 _ _ 1]) (simp_all add: numeral_3_eq_3)
  with c show False by (simp add: assertDiscountFits_def)
qed

lemma assertDiscountFits_complete:
  assumes l: "0 \<le> ml_price l" "0 \<le> ml_quantity l" "0 \<le> ml_discount l"
    and B: "gross l \<le> B" "fits B 3" and lt: "ml_discount l < gross l"
  shows "assertDiscountFits l = Inr ()"
proof -
  have "near B 2 (lineSubtotal l) (gross l)"
    using near_mul [of "ml_price l" "ml_quantity l" B] B fits_mono [OF B(2), of 1] lt l
    by (simp add: lineSubtotal_def gross_def)
  moreover have "near B 1 (js_num (ml_discount l)) (ml_discount l)"
    using l B lt by (intro near_num) simp
  ultimately have "js_num (ml_discount l) < lineSubtotal l"
    using lt B(2) by (intro near_less [of B 1 _ _ 2]) (simp_all add: numeral_3_eq_3)
  then show ?thesis by (simp add: assertDiscountFits_def)
qed

lemma fold_addLine:
  assumes "\<forall>l \<in> set ls. line_ok l" "near B i (mt_subtotal t) s" "near B j (mt_discount t) d"
    "near B k (mt_tax t) x" "0 \<le> s" "0 \<le> d" "0 \<le> x" "d \<le> s"
    "s + sumGross ls + x + sumTax ls \<le> B" "fits B (i + 3 * length ls)" "fits B (j + 2 * length ls)"
    "fits B (k + 2 * length ls)"
  shows "near B (i + 3 * length ls) (mt_subtotal (fold addLine ls t)) (s + sumGross ls)
    \<and> near B (j + 2 * length ls) (mt_discount (fold addLine ls t)) (d + sumDiscount ls)
    \<and> near B (k + 2 * length ls) (mt_tax (fold addLine ls t)) (x + sumTax ls)"
  using assms
proof (induction ls arbitrary: t i j k s d x)
  case (Cons l ls)
  let ?t = "addLine l t"
  have l: "line_ok l" using Cons.prems(1) by simp
  have nn: "0 \<le> sumGross ls" "0 \<le> sumTax ls" "0 \<le> sumDiscount ls" "sumDiscount ls \<le> sumGross ls"
    using sums_nonneg [of ls] Cons.prems(1) by auto
  have g: "0 \<le> gross l" "ml_discount l \<le> gross l" "0 \<le> ml_discount l" "0 \<le> ml_tax l"
    using l gross_nonneg by (auto simp: line_ok_def)
  have B: "0 \<le> B" using Cons.prems(10) by (simp add: fits_def)
  have f1: "fits B 1" using Cons.prems(10) by (rule fits_mono) simp
  have "near B 2 (lineSubtotal l) (gross l)"
    using l Cons.prems nn g f1 by (intro near_lineSubtotal) auto
  then have 1: "near B (i + 3) (mt_subtotal ?t) (s + gross l)"
    using near_add [OF Cons.prems(2), of 2 "lineSubtotal l" "gross l"] Cons.prems(5-10) nn g
      fits_mono [OF Cons.prems(10), of "i + 2"]
    by (simp add: addLine_def numeral_3_eq_3)
  have "near B 1 (js_num (ml_discount l)) (ml_discount l)"
    using Cons.prems nn g by (intro near_num) auto
  then have 2: "near B (j + 2) (mt_discount ?t) (d + ml_discount l)"
    using near_add [OF Cons.prems(3), of 1 "js_num (ml_discount l)" "ml_discount l"] Cons.prems(5-11)
      nn g fits_mono [OF Cons.prems(11), of "j + 1"]
    by (simp add: addLine_def)
  have "near B 1 (js_num (ml_tax l)) (ml_tax l)"
    using Cons.prems nn g by (intro near_num) auto
  then have 3: "near B (k + 2) (mt_tax ?t) (x + ml_tax l)"
    using near_add [OF Cons.prems(4), of 1 "js_num (ml_tax l)" "ml_tax l"] Cons.prems(5-12)
      nn g fits_mono [OF Cons.prems(12), of "k + 1"]
    by (simp add: addLine_def)
  have "near B (i + 3 + 3 * length ls) (mt_subtotal (fold addLine ls ?t)) (s + gross l + sumGross ls)
    \<and> near B (j + 2 + 2 * length ls) (mt_discount (fold addLine ls ?t)) (d + ml_discount l + sumDiscount ls)
    \<and> near B (k + 2 + 2 * length ls) (mt_tax (fold addLine ls ?t)) (x + ml_tax l + sumTax ls)"
    using Cons.prems g by (intro Cons.IH [OF _ 1 2 3]) (auto simp: algebra_simps)
  then show ?case by (simp add: algebra_simps)
qed simp

lemma documentTotals_near:
  assumes "document_fits B ls"
  shows "near B (3 * length ls) (mt_subtotal (documentTotals ls)) (sumGross ls)"
    "near B (2 * length ls) (mt_discount (documentTotals ls)) (sumDiscount ls)"
    "near B (2 * length ls) (mt_tax (documentTotals ls)) (sumTax ls)"
proof -
  have f: "fits B (10 * length ls + 20)" using assms by (simp add: document_fits_def)
  show "near B (3 * length ls) (mt_subtotal (documentTotals ls)) (sumGross ls)"
    "near B (2 * length ls) (mt_discount (documentTotals ls)) (sumDiscount ls)"
    "near B (2 * length ls) (mt_tax (documentTotals ls)) (sumTax ls)"
    using fold_addLine [of ls B 0 zeroTotals 0 0 0 0 0] assms fits_mono [OF f]
    by (simp_all add: documentTotals_def zeroTotals_def document_fits_def)
qed

lemma document_totals_exact:
  assumes ok: "document_fits B ls"
  shows "to_fixed2 (mt_subtotal (documentTotals ls)) = sumGross ls"
    "to_fixed2 (mt_discount (documentTotals ls)) = sumDiscount ls"
    "to_fixed2 (mt_tax (documentTotals ls)) = sumTax ls"
    "to_fixed2 (grandTotal (documentTotals ls)) = sumGross ls - sumDiscount ls + sumTax ls"
proof -
  have f: "fits B (10 * length ls + 20)" and b: "sumGross ls + sumTax ls \<le> B"
    using ok by (simp_all add: document_fits_def)
  have lines: "\<forall>l \<in> set ls. line_ok l" using ok by (simp add: document_fits_def)
  note nn = sums_nonneg [OF lines]
  note n = documentTotals_near [OF ok]
  show "to_fixed2 (mt_subtotal (documentTotals ls)) = sumGross ls"
    by (rule to_fixed2_near [OF n(1) fits_mono [OF f]]) simp
  show "to_fixed2 (mt_discount (documentTotals ls)) = sumDiscount ls"
    by (rule to_fixed2_near [OF n(2) fits_mono [OF f]]) simp
  show "to_fixed2 (mt_tax (documentTotals ls)) = sumTax ls"
    by (rule to_fixed2_near [OF n(3) fits_mono [OF f]]) simp
  have s: "near B (Suc (5 * length ls)) (js_sub (mt_subtotal (documentTotals ls))
      (mt_discount (documentTotals ls))) (sumGross ls - sumDiscount ls)"
    using near_sub [OF n(1,2)] nn b fits_mono [OF f, of "5 * length ls"] by simp
  have "near B (Suc (Suc (7 * length ls))) (grandTotal (documentTotals ls))
      (sumGross ls - sumDiscount ls + sumTax ls)"
    using near_add [OF s n(3)] nn b fits_mono [OF f, of "Suc (7 * length ls)"]
    by (simp add: grandTotal_def)
  then show "to_fixed2 (grandTotal (documentTotals ls)) = sumGross ls - sumDiscount ls + sumTax ls"
    by (rule to_fixed2_near [OF _ fits_mono [OF f]]) simp
qed

lemma lineTotal_exact:
  assumes l: "line_ok l" and B: "gross l + ml_tax l \<le> B" "fits B 6"
  shows "to_fixed2 (lineTotal l) = gross l - ml_discount l + ml_tax l"
proof -
  have g: "0 \<le> gross l" "ml_discount l \<le> gross l" "0 \<le> ml_discount l" "0 \<le> ml_tax l"
    using l gross_nonneg by (auto simp: line_ok_def)
  have 1: "near B 2 (lineSubtotal l) (gross l)"
    using l g B fits_mono [OF B(2), of 1] by (intro near_lineSubtotal) auto
  have 2: "near B 1 (js_num (ml_discount l)) (ml_discount l)" using g B by (intro near_num) auto
  have 3: "near B 1 (js_num (ml_tax l)) (ml_tax l)" using g B by (intro near_num) auto
  have "near B 4 (js_sub (lineSubtotal l) (js_num (ml_discount l))) (gross l - ml_discount l)"
    using near_sub [OF 1 2] g B fits_mono [OF B(2), of 3] by (simp add: numeral_eq_Suc)
  from near_add [OF this 3] have "near B 6 (lineTotal l) (gross l - ml_discount l + ml_tax l)"
    using g B fits_mono [OF B(2), of 5] by (simp add: lineTotal_def numeral_eq_Suc)
  then show ?thesis by (rule to_fixed2_near [OF _ B(2)])
qed

section \<open>Applying an amount to a total\<close>

text \<open>
  \<open>newPaid > grandTotal + 1e-9\<close>: the check of every service that applies an allocation to a
  document. Between whole cents it never lets an excess through; up to a million currency units it
  never refuses an amount that fits.
\<close>

definition exceeds :: "real \<Rightarrow> real \<Rightarrow> bool" where
  "exceeds newPaid limit = (js_add limit js_eps < newPaid)"

lemma exceeds_if_over:
  assumes n: "near B 3 newPaid p" and t: "near B 1 limit c" and B: "fits B 6"
    and c: "0 \<le> c" "c < p" "p \<le> B"
  shows "exceeds newPaid limit"
proof -
  let ?u = "ulp_of B"
  have u: "6 * ?u < 1 / 200" "0 < ?u" using fits_lt [OF B] B ulp_of_pos by (simp_all add: fits_def)
  have p: "of_int p / 100 - 3 * ?u \<le> newPaid" using n unfolding near_def by (simp add: abs_le_iff)
  have "\<bar>limit - of_int c / 100\<bar> \<le> ?u" using t unfolding near_def by simp
  then have s: "limit + js_eps \<le> of_int c / 100 + ?u + 1 / 1000" "- (1 / 100) \<le> limit + js_eps"
    using js_eps_bounds u c(1) by (simp_all add: abs_le_iff)
  have cB: "(of_int c :: real) + 1 \<le> of_int p" "(of_int p :: real) \<le> of_int B" using c by linarith+
  have "0 \<le> (of_int c :: real)" using c(1) by simp
  then have "limit + js_eps \<le> (of_int B + 1) / 100" "- (limit + js_eps) \<le> (of_int B + 1) / 100"
    using s u cB by simp_all
  then have "\<bar>limit + js_eps\<bar> \<le> (of_int B + 1) / 100" by (rule abs_leI)
  then have "\<bar>limit + js_eps\<bar> / 2 ^ 53 \<le> ?u" by (simp add: ulp_of_def)
  with fl_error [of "limit + js_eps"] have "fl (limit + js_eps) \<le> limit + js_eps + ?u" by linarith
  then have "fl (limit + js_eps) \<le> of_int c / 100 + 2 * ?u + 1 / 1000" using s by linarith
  also have "\<dots> < newPaid" using p u cB by (simp add: field_simps)
  finally show ?thesis by (simp add: exceeds_def js_add_def)
qed

lemma not_exceeds_if_fits:
  assumes n: "near (10 ^ 8) 3 newPaid p" and t: "near (10 ^ 8) 1 limit c"
    and c: "p \<le> c" "0 \<le> c" "c \<le> 10 ^ 8"
  shows "\<not> exceeds newPaid limit"
proof -
  let ?u = "ulp_of (10 ^ 8)"
  have u: "?u \<le> 12 / 10 ^ 11" by (simp add: ulp_of_def)
  have "\<bar>newPaid - of_int p / 100\<bar> \<le> 3 * ?u" using n unfolding near_def by simp
  then have p: "newPaid \<le> of_int c / 100 + 36 / 10 ^ 11" using u c(1) by (simp add: abs_le_iff)
  have "\<bar>limit - of_int c / 100\<bar> \<le> ?u" using t unfolding near_def by simp
  then have s: "of_int c / 100 + 87 / 10 ^ 11 \<le> limit + js_eps" "limit + js_eps \<le> of_int c / 100 + 1 / 100"
    using js_eps_bounds u by (simp_all add: abs_le_iff)
  have cB: "0 \<le> (of_int c :: real)" "(of_int c :: real) \<le> 10 ^ 8"
    using c by (simp_all add: of_int_le_numeral_power_cancel_iff)
  have "\<bar>limit + js_eps\<bar> \<le> 10 ^ 6 + 1" using s cB by (simp add: abs_le_iff)
  then have "\<bar>limit + js_eps\<bar> / 2 ^ 53 \<le> 12 / 10 ^ 11" by simp
  with fl_error [of "limit + js_eps"] have "limit + js_eps - 12 / 10 ^ 11 \<le> fl (limit + js_eps)"
    by linarith
  then have "of_int c / 100 + 75 / 10 ^ 11 \<le> fl (limit + js_eps)" using s by simp
  with p show ?thesis by (simp add: exceeds_def js_add_def)
qed

text \<open>\<open>newRefunded >= eligible - 1e-9\<close>.\<close>

definition reaches :: "real \<Rightarrow> real \<Rightarrow> bool" where
  "reaches newPaid limit = (js_sub limit js_eps \<le> newPaid)"

lemma reaches_iff:
  assumes n: "near (10 ^ 8) 3 newPaid p" and t: "near (10 ^ 8) 1 limit c"
    and c: "0 \<le> c" "c \<le> 10 ^ 8"
  shows "reaches newPaid limit \<longleftrightarrow> c \<le> p"
proof -
  let ?u = "ulp_of (10 ^ 8)"
  have u: "?u \<le> 12 / 10 ^ 11" by (simp add: ulp_of_def)
  have "\<bar>newPaid - of_int p / 100\<bar> \<le> 3 * ?u" using n unfolding near_def by simp
  then have p: "newPaid \<le> of_int p / 100 + 36 / 10 ^ 11" "of_int p / 100 - 36 / 10 ^ 11 \<le> newPaid"
    using u by (simp_all add: abs_le_iff)
  have "\<bar>limit - of_int c / 100\<bar> \<le> ?u" using t unfolding near_def by simp
  then have s: "limit - js_eps \<le> of_int c / 100 - 87 / 10 ^ 11" "of_int c / 100 - 113 / 10 ^ 11 \<le> limit - js_eps"
    using js_eps_bounds u by (simp_all add: abs_le_iff)
  have cB: "0 \<le> (of_int c :: real)" "(of_int c :: real) \<le> 10 ^ 8"
    using c by (simp_all add: of_int_le_numeral_power_cancel_iff)
  have "\<bar>limit - js_eps\<bar> \<le> 10 ^ 6 + 1" using s cB by (simp add: abs_le_iff)
  then have "\<bar>limit - js_eps\<bar> / 2 ^ 53 \<le> 12 / 10 ^ 11" by simp
  with fl_error [of "limit - js_eps"] have "\<bar>fl (limit - js_eps) - (limit - js_eps)\<bar> \<le> 12 / 10 ^ 11"
    by (rule order_trans)
  then have f: "fl (limit - js_eps) \<le> of_int c / 100 - 75 / 10 ^ 11"
      "of_int c / 100 - 125 / 10 ^ 11 \<le> fl (limit - js_eps)"
    using s by linarith+
  show ?thesis
  proof
    assume "c \<le> p"
    then have "(of_int c :: real) \<le> of_int p" by simp
    then show "reaches newPaid limit" using p f by (simp add: reaches_def js_sub_def)
  next
    assume "reaches newPaid limit"
    then have r: "fl (limit - js_eps) \<le> newPaid" by (simp add: reaches_def js_sub_def)
    show "c \<le> p"
    proof (rule ccontr)
      assume "\<not> c \<le> p"
      then have "(of_int p :: real) + 1 \<le> of_int c" by linarith
      then show False using p f r by simp
    qed
  qed
qed

section \<open>Amounts added in cents\<close>

lemma newPaid_near:
  assumes "0 \<le> p" "0 \<le> a" "p + a \<le> B" "fits B 6"
  shows "near B 3 (js_add (js_num p) (js_num a)) (p + a)"
  using near_add [OF near_num near_num, of p B a] assms fits_mono [OF assms(4), of 2]
  by (simp add: numeral_3_eq_3 numeral_2_eq_2)

lemma newPaid_exact:
  assumes "0 \<le> p" "0 \<le> a" "p + a \<le> B" "fits B 6"
  shows "to_fixed2 (js_add (js_num p) (js_num a)) = p + a"
  by (rule to_fixed2_near [OF newPaid_near [OF assms] fits_mono [OF assms(4)]]) simp

lemma newBalance_exact:
  assumes "0 \<le> p" "0 \<le> a" "p + a \<le> B" "0 \<le> g" "g \<le> B" "fits B 6"
  shows "to_fixed2 (js_sub (js_num g) (js_add (js_num p) (js_num a))) = g - (p + a)"
proof -
  have "near B 5 (js_sub (js_num g) (js_add (js_num p) (js_num a))) (g - (p + a))"
    using near_sub [OF near_num newPaid_near [OF assms(1-3,6)], of g] assms fits_mono [OF assms(6), of 4]
    by (simp add: numeral_eq_Suc abs_le_iff)
  then show ?thesis by (rule to_fixed2_near [OF _ fits_mono [OF assms(6)]]) simp
qed

lemma exceeds_over:
  assumes "0 \<le> p" "0 \<le> a" "p + a \<le> B" "0 \<le> g" "g < p + a" "fits B 6"
  shows "exceeds (js_add (js_num p) (js_num a)) (js_num g)"
  using assms by (intro exceeds_if_over [OF newPaid_near near_num]) auto

lemma not_exceeds_within:
  assumes "0 \<le> p" "0 \<le> a" "p + a \<le> g" "g \<le> 10 ^ 8"
  shows "\<not> exceeds (js_add (js_num p) (js_num a)) (js_num g)"
  using assms by (intro not_exceeds_if_fits [OF newPaid_near near_num]) (auto simp: fits_def)

lemma reaches_exact:
  assumes "0 \<le> p" "0 \<le> a" "p + a \<le> 10 ^ 8" "0 \<le> g" "g \<le> 10 ^ 8"
  shows "reaches (js_add (js_num p) (js_num a)) (js_num g) \<longleftrightarrow> g \<le> p + a"
  using assms by (intro reaches_iff [OF newPaid_near near_num]) (auto simp: fits_def)

end
