(* ===== verification/Loyalty.thy ===== *)
theory Loyalty
  imports Stock_Documents Money
begin

text \<open>
  Promotions (\<open>promotions/services/promotions.service.ts\<close>) and loyalty points
  (\<open>loyalty/services/loyalty.service.ts\<close>, \<open>loyalty-program.service.ts\<close>), the two services a sale
  calls with its own transaction. Points are an append-only ledger; a balance is always the sum of
  the rows. The unique index on company, source type and source id is part of \<open>insertPoints\<close>.
  Rates are ten-thousandths (scale 4), amounts cents.
\<close>

section \<open>Tables\<close>

datatype discount_type = Percentage | FixedAmount

record promotion =
  pr_id :: id
  pr_company :: id
  pr_code :: string
  pr_type :: discount_type
  pr_value :: int
  pr_minimum :: int
  pr_maximum :: "int option"
  pr_start :: day
  pr_end :: "day option"
  pr_usageLimit :: "int option"
  pr_usageCount :: int
  pr_status :: active_status

record loyalty_program =
  lp_company :: id
  lp_pointsPerUnit :: int
  lp_valuePerPoint :: int
  lp_minimum :: int
  lp_active :: bool

datatype points_type = Earn | Redeem | Reversal | PointsAdjustment
datatype points_source = FromSale | FromSaleReturn

record points_row =
  lt_id :: id
  lt_company :: id
  lt_customer :: id
  lt_type :: points_type
  lt_delta :: int
  lt_value :: "int option"
  lt_source :: "(points_source \<times> id) option"
  lt_reverses :: "id option"
  lt_createdBy :: id

record crm_db = inventory_db +
  promotions :: "promotion list"
  loyaltyPrograms :: "loyalty_program list"
  pointsRows :: "points_row list"

section \<open>Promotions\<close>

definition resolveAndLockForUse ::
  "id \<Rightarrow> string \<Rightarrow> real \<Rightarrow> jdate \<Rightarrow> 'a crm_db_scheme \<Rightarrow> promotion result" where
  "resolveAndLockForUse company code orderSubtotal asOf db =
     (case List.find (\<lambda>p. pr_company p = company \<and> pr_code p = code) (promotions db) of
        None \<Rightarrow> Inl (AppException ValidationError)
      | Some p \<Rightarrow>
          if pr_status p \<noteq> Active then Inl (AppException ValidationError)
          else if \<not> day_le (pr_start p) (toDateOnly asOf) then Inl (AppException ValidationError)
          else if (case pr_end p of None \<Rightarrow> False | Some e \<Rightarrow> \<not> day_le (toDateOnly asOf) e)
          then Inl (AppException ValidationError)
          else if orderSubtotal < js_num (pr_minimum p) then Inl (AppException ValidationError)
          else if (case pr_usageLimit p of None \<Rightarrow> False | Some n \<Rightarrow> n \<le> pr_usageCount p)
          then Inl (AppException ValidationError)
          else Inr p)"

definition incrementUsage :: "id \<Rightarrow> 'a crm_db_scheme \<Rightarrow> 'a crm_db_scheme" where
  "incrementUsage i db =
     db\<lparr>promotions := map (\<lambda>p. if pr_id p = i then p\<lparr>pr_usageCount := pr_usageCount p + 1\<rparr> else p)
          (promotions db)\<rparr>"

definition computeDiscountAmount :: "promotion \<Rightarrow> real \<Rightarrow> real" where
  "computeDiscountAmount p orderSubtotal =
     min (case pr_type p of
            Percentage \<Rightarrow>
              (let discount = js_div (js_mul orderSubtotal (fl (of_int (pr_value p) / 10000))) 100
               in case pr_maximum p of None \<Rightarrow> discount | Some m \<Rightarrow> min discount (js_num m))
          | FixedAmount \<Rightarrow> fl (of_int (pr_value p) / 10000))
       orderSubtotal"

section \<open>Points\<close>

definition findPointsBySource ::
  "id \<Rightarrow> points_source \<Rightarrow> id \<Rightarrow> 'a crm_db_scheme \<Rightarrow> points_row option" where
  "findPointsBySource company src i db =
     List.find (\<lambda>t. lt_company t = company \<and> lt_source t = Some (src, i)) (pointsRows db)"

definition insertPoints :: "points_row \<Rightarrow> 'a crm_db_scheme \<Rightarrow> 'a crm_db_scheme result" where
  "insertPoints t db =
     (if lt_source t \<noteq> None
         \<and> (\<exists>k \<in> set (pointsRows db). lt_company k = lt_company t \<and> lt_source k = lt_source t)
      then Inl (DupEntry ''source'')
      else Inr (db\<lparr>pointsRows := pointsRows db @ [t], rowIds := rowIds db + 1\<rparr>))"

text \<open>The save that falls back to the row of a concurrent winner.\<close>

definition savePointsOrWinner ::
  "points_row \<Rightarrow> points_source \<Rightarrow> id \<Rightarrow> 'a crm_db_scheme \<Rightarrow> (points_row option \<times> 'a crm_db_scheme) result" where
  "savePointsOrWinner t src i db =
     (case insertPoints t db of
        Inr db' \<Rightarrow> Inr (Some t, db')
      | Inl (DupEntry ix) \<Rightarrow>
          (case findPointsBySource (lt_company t) src i db of
             Some winning \<Rightarrow> Inr (Some winning, db)
           | None \<Rightarrow> Inl (DupEntry ix))
      | Inl e \<Rightarrow> Inl e)"

definition getActiveProgramOrNull :: "id \<Rightarrow> 'a crm_db_scheme \<Rightarrow> loyalty_program option" where
  "getActiveProgramOrNull company db =
     (case List.find (\<lambda>p. lp_company p = company) (loyaltyPrograms db) of
        None \<Rightarrow> None | Some p \<Rightarrow> if lp_active p then Some p else None)"

definition getAvailableBalance :: "id \<Rightarrow> id \<Rightarrow> 'a crm_db_scheme \<Rightarrow> int" where
  "getAvailableBalance company customer db =
     sum_list (map lt_delta (filter (\<lambda>t. lt_company t = company \<and> lt_customer t = customer) (pointsRows db)))"

definition pointsFor :: "loyalty_program \<Rightarrow> int \<Rightarrow> int" where
  "pointsFor p saleTotal =
     \<lfloor>js_mul (js_num saleTotal) (fl (of_int (lp_pointsPerUnit p) / 10000))\<rfloor>"

definition earnForSale ::
  "id \<Rightarrow> id \<Rightarrow> id \<Rightarrow> int \<Rightarrow> id \<Rightarrow> 'a crm_db_scheme \<Rightarrow> (points_row option \<times> 'a crm_db_scheme) result" where
  "earnForSale company customer saleId saleTotal user db =
     (case findPointsBySource company FromSale saleId db of
        Some existing \<Rightarrow> Inr (Some existing, db)
      | None \<Rightarrow>
          (case getActiveProgramOrNull company db of
             None \<Rightarrow> Inr (None, db)
           | Some p \<Rightarrow>
               if js_num saleTotal < js_num (lp_minimum p) then Inr (None, db)
               else
                 let points = pointsFor p saleTotal
                 in if points \<le> 0 then Inr (None, db)
                    else savePointsOrWinner \<lparr>lt_id = rowIds db, lt_company = company,
                           lt_customer = customer, lt_type = Earn, lt_delta = points, lt_value = None,
                           lt_source = Some (FromSale, saleId), lt_reverses = None,
                           lt_createdBy = user\<rparr> FromSale saleId db))"

definition reverseForSaleReturn ::
  "id \<Rightarrow> id \<Rightarrow> id \<Rightarrow> id \<Rightarrow> int \<Rightarrow> id \<Rightarrow> 'a crm_db_scheme
    \<Rightarrow> (points_row option \<times> 'a crm_db_scheme) result" where
  "reverseForSaleReturn company customer saleId saleReturnId reversalPoints user db =
     (if reversalPoints \<le> 0 then Inr (None, db)
      else case findPointsBySource company FromSaleReturn saleReturnId db of
        Some existing \<Rightarrow> Inr (Some existing, db)
      | None \<Rightarrow>
          (case findPointsBySource company FromSale saleId db of
             None \<Rightarrow> Inr (None, db)
           | Some originalEarn \<Rightarrow>
               savePointsOrWinner \<lparr>lt_id = rowIds db, lt_company = company, lt_customer = customer,
                 lt_type = Reversal, lt_delta = - reversalPoints, lt_value = None,
                 lt_source = Some (FromSaleReturn, saleReturnId),
                 lt_reverses = Some (lt_id originalEarn), lt_createdBy = user\<rparr>
                 FromSaleReturn saleReturnId db))"

definition redeem ::
  "org_db \<Rightarrow> id \<Rightarrow> id \<Rightarrow> id \<Rightarrow> int \<Rightarrow> 'a crm_db_scheme \<Rightarrow> (points_row \<times> 'a crm_db_scheme) result" where
  "redeem org company customer user points db =
     andThen (findCustomerInCompany org customer company) (\<lambda>_.
     case getActiveProgramOrNull company db of
       None \<Rightarrow> Inl (AppException UnprocessableEntity)
     | Some p \<Rightarrow>
         if getAvailableBalance company customer db < points
         then Inl (AppException UnprocessableEntity)
         else
           let t = \<lparr>lt_id = rowIds db, lt_company = company, lt_customer = customer, lt_type = Redeem,
                    lt_delta = - points,
                    lt_value = Some (to_fixed2 (js_mul (of_int points)
                       (fl (of_int (lp_valuePerPoint p) / 10000)))),
                    lt_source = None, lt_reverses = None, lt_createdBy = user\<rparr>
           in andThen (insertPoints t db) (\<lambda>db'. Inr (t, db')))"

section \<open>The ledger of points\<close>

text \<open>The unique index, as an invariant.\<close>

definition points_unique :: "'a crm_db_scheme \<Rightarrow> bool" where
  "points_unique db \<longleftrightarrow>
     distinct (map (\<lambda>t. (lt_company t, lt_source t)) (filter (\<lambda>t. lt_source t \<noteq> None) (pointsRows db)))"

lemma insertPoints_Inr:
  "insertPoints t db = Inr db' \<longleftrightarrow>
     (lt_source t \<noteq> None \<longrightarrow> (\<forall>k \<in> set (pointsRows db). lt_company k = lt_company t \<longrightarrow>
        lt_source k \<noteq> lt_source t))
     \<and> db' = db\<lparr>pointsRows := pointsRows db @ [t], rowIds := rowIds db + 1\<rparr>"
  by (auto simp: insertPoints_def)

lemma insertPoints_unique:
  "points_unique db \<Longrightarrow> insertPoints t db = Inr db' \<Longrightarrow> points_unique db'"
  by (auto simp: insertPoints_Inr points_unique_def)

lemma findPointsBySource_None:
  "findPointsBySource company src i db = None \<longleftrightarrow>
     (\<forall>t \<in> set (pointsRows db). \<not> (lt_company t = company \<and> lt_source t = Some (src, i)))"
  by (auto simp: findPointsBySource_def find_None_iff)

lemma savePointsOrWinner_cases:
  assumes "savePointsOrWinner t src i db = Inr (r, db')" "lt_source t = Some (src, i)"
    "findPointsBySource (lt_company t) src i db = None"
  shows "r = Some t \<and> insertPoints t db = Inr db'"
  using assms by (auto simp: savePointsOrWinner_def insertPoints_def findPointsBySource_None
      split: if_splits sum.splits error.splits)

text \<open>What earning and reversing leave of the other tables.\<close>

definition points_frame :: "'a crm_db_scheme \<Rightarrow> 'a crm_db_scheme \<Rightarrow> bool" where
  "points_frame db db' \<longleftrightarrow> warehouseStock db' = warehouseStock db \<and> stockMovements db' = stockMovements db
     \<and> rowIds db \<le> rowIds db' \<and> promotions db' = promotions db \<and> loyaltyPrograms db' = loyaltyPrograms db
     \<and> crm_db.more db' = crm_db.more db"

lemma insertPoints_frame: "insertPoints t db = Inr db' \<Longrightarrow> points_frame db db'"
  by (auto simp: insertPoints_Inr points_frame_def)

lemma savePointsOrWinner_frame:
  "savePointsOrWinner t src i db = Inr (r, db') \<Longrightarrow> points_frame db db'"
  using insertPoints_frame [of t db]
  by (auto simp: savePointsOrWinner_def points_frame_def split: sum.splits error.splits option.splits)

lemma earnForSale_frame:
  "earnForSale company customer s g user db = Inr (r, db') \<Longrightarrow> points_frame db db'"
  by (auto simp: earnForSale_def Let_def points_frame_def split: option.splits if_splits
      dest!: savePointsOrWinner_frame)

lemma reverseForSaleReturn_frame:
  "reverseForSaleReturn company customer s r n user db = Inr (t, db') \<Longrightarrow> points_frame db db'"
  by (auto simp: reverseForSaleReturn_def points_frame_def split: option.splits if_splits
      dest!: savePointsOrWinner_frame)

lemma savePointsOrWinner_unique:
  "points_unique db \<Longrightarrow> savePointsOrWinner t src i db = Inr (r, db') \<Longrightarrow> points_unique db'"
  using insertPoints_unique [of db t]
  by (auto simp: savePointsOrWinner_def split: sum.splits error.splits option.splits)

lemma earnForSale_unique:
  "points_unique db \<Longrightarrow> earnForSale company customer s g user db = Inr (r, db') \<Longrightarrow> points_unique db'"
  by (auto simp: earnForSale_def Let_def split: option.splits if_splits
      dest: savePointsOrWinner_unique)

lemma earnForSale_once:
  assumes "earnForSale company customer s g user db = Inr (Some t, db1)"
  shows "earnForSale company customer' s g' user' db1 = Inr (Some t, db1)"
proof (cases "findPointsBySource company FromSale s db")
  case None
  with assms obtain n where t: "t = \<lparr>lt_id = rowIds db, lt_company = company, lt_customer = customer,
        lt_type = Earn, lt_delta = n, lt_value = None, lt_source = Some (FromSale, s),
        lt_reverses = None, lt_createdBy = user\<rparr>"
      and i: "insertPoints t db = Inr db1"
    by (auto simp: earnForSale_def Let_def split: option.splits if_splits
        dest!: savePointsOrWinner_cases)
  have "findPointsBySource company FromSale s db1 = Some t"
    using i None t by (simp add: insertPoints_Inr findPointsBySource_def find_append)
  then show ?thesis by (simp add: earnForSale_def)
next
  case (Some k)
  with assms show ?thesis by (auto simp: earnForSale_def)
qed

end
