(* ===== verification/Price_Lists.thy ===== *)
theory Price_Lists
  imports Catalog
begin

text \<open>
  Effective-dated prices (\<open>products/services/price-list-items.service.ts\<close>): a price row is valid
  from an instant up to, and not including, another, or for ever. The service keeps the windows of
  the active rows of one list, variant and unit disjoint, since the database cannot; the price at
  a date is then unique. The price list a sale uses is resolved as in \<open>sales.service.ts\<close>.
\<close>

section \<open>Windows\<close>

text \<open>An end of \<open>None\<close> is \<open>Infinity\<close>.\<close>

definition beforeEnd :: "nat \<Rightarrow> nat option \<Rightarrow> bool" where
  "beforeEnd t e = (case e of None \<Rightarrow> True | Some x \<Rightarrow> t < x)"

definition windowsMeet :: "nat \<Rightarrow> nat option \<Rightarrow> nat \<Rightarrow> nat option \<Rightarrow> bool" where
  "windowsMeet s e s' e' = (beforeEnd s e' \<and> beforeEnd s' e)"

definition livePrice :: "price_list_item \<Rightarrow> bool" where
  "livePrice p = (pi_status p = Active \<and> \<not> pi_deleted p)"

section \<open>Operations\<close>

definition findPriceItem :: "catalog_db \<Rightarrow> id \<Rightarrow> id \<Rightarrow> price_list_item result" where
  "findPriceItem cat i company =
     orThrow (List.find (\<lambda>p. pi_id p = i \<and> pi_company p = company \<and> \<not> pi_deleted p) (priceItems cat))
       (AppException NotFound)"

definition assertValidRange :: "nat \<Rightarrow> nat option \<Rightarrow> unit result" where
  "assertValidRange validFrom validTo =
     (case validTo of None \<Rightarrow> Inr ()
      | Some e \<Rightarrow> if e \<le> validFrom then Inl (AppException ValidationError) else Inr ())"

definition assertPositivePrice :: "int \<Rightarrow> unit result" where
  "assertPositivePrice price =
     (if js_num price \<le> 0 then Inl (AppException ValidationError) else Inr ())"

definition assertNoOverlap ::
  "catalog_db \<Rightarrow> id \<Rightarrow> id \<Rightarrow> id option \<Rightarrow> nat \<Rightarrow> nat option \<Rightarrow> id option \<Rightarrow> unit result" where
  "assertNoOverlap cat priceList variant uomId validFrom validTo excludeId =
     (let candidates = filter (\<lambda>p. pi_list p = priceList \<and> pi_variant p = variant \<and> livePrice p
            \<and> beforeEnd validFrom (pi_to p)) (priceItems cat)
      in case List.find (\<lambda>p. excludeId \<noteq> Some (pi_id p) \<and> pi_uom p = uomId
              \<and> windowsMeet (pi_from p) (pi_to p) validFrom validTo) candidates of
           Some _ \<Rightarrow> Inl (AppException Conflict)
         | None \<Rightarrow> Inr ())"

record create_price_dto =
  cp_variant :: id
  cp_uom :: "id option"
  cp_price :: int
  cp_from :: nat
  cp_to :: "nat option"

definition createPriceItem ::
  "id \<Rightarrow> id \<Rightarrow> create_price_dto \<Rightarrow> catalog_db \<Rightarrow> (price_list_item \<times> catalog_db) result" where
  "createPriceItem priceList company dto cat =
     andThen (orThrow (List.find (\<lambda>l. pl_id l = priceList \<and> pl_company l = company) (priceLists cat))
        (AppException NotFound)) (\<lambda>l.
     andThen (findVariantInCompany cat (cp_variant dto) company) (\<lambda>v.
     andThen (resolveSupportedUomId cat v company (cp_uom dto)) (\<lambda>u.
     andThen (assertPositivePrice (cp_price dto)) (\<lambda>_.
     andThen (assertValidRange (cp_from dto) (cp_to dto)) (\<lambda>_.
     andThen (assertNoOverlap cat priceList (cp_variant dto) u (cp_from dto) (cp_to dto) None) (\<lambda>_.
     if u \<noteq> None \<and> (\<exists>p \<in> set (priceItems cat). pi_list p = priceList
          \<and> pi_variant p = cp_variant dto \<and> pi_uom p = u \<and> pi_from p = cp_from dto)
     then Inl (DupEntry ''price_list_item'')
     else
       let p = \<lparr>pi_id = catalogIds cat, pi_list = priceList, pi_variant = cp_variant dto,
                pi_company = pl_company l, pi_uom = u, pi_price = cp_price dto,
                pi_from = cp_from dto, pi_to = cp_to dto, pi_status = Active, pi_deleted = False\<rparr>
       in Inr (p, cat\<lparr>priceItems := priceItems cat @ [p], catalogIds := catalogIds cat + 1\<rparr>)))))))"

definition savePriceItem :: "price_list_item \<Rightarrow> catalog_db \<Rightarrow> catalog_db" where
  "savePriceItem p cat =
     cat\<lparr>priceItems := map (\<lambda>x. if pi_id x = pi_id p then p else x) (priceItems cat)\<rparr>"

text \<open>\<open>up_to = Some e\<close> is a \<open>validTo\<close> in the request.\<close>

record update_price_dto =
  up_price :: "int option"
  up_to :: "nat option"

definition updatePriceItem ::
  "id \<Rightarrow> id \<Rightarrow> update_price_dto \<Rightarrow> catalog_db \<Rightarrow> (price_list_item \<times> catalog_db) result" where
  "updatePriceItem i company dto cat =
     andThen (findPriceItem cat i company) (\<lambda>p.
     let nextPrice = (case up_price dto of None \<Rightarrow> pi_price p | Some x \<Rightarrow> x);
         nextValidTo = (case up_to dto of None \<Rightarrow> pi_to p | Some e \<Rightarrow> Some e)
     in andThen (assertPositivePrice nextPrice) (\<lambda>_.
        andThen (assertValidRange (pi_from p) nextValidTo) (\<lambda>_.
        andThen (if up_to dto \<noteq> None
                 then assertNoOverlap cat (pi_list p) (pi_variant p) (pi_uom p) (pi_from p)
                        nextValidTo (Some i)
                 else Inr ()) (\<lambda>_.
        let q = p\<lparr>pi_price := nextPrice, pi_to := nextValidTo\<rparr>
        in Inr (q, savePriceItem q cat)))))"

definition deactivatePriceItem :: "id \<Rightarrow> id \<Rightarrow> catalog_db \<Rightarrow> (price_list_item \<times> catalog_db) result" where
  "deactivatePriceItem i company cat =
     andThen (findPriceItem cat i company) (\<lambda>p.
     let q = p\<lparr>pi_status := Inactive\<rparr> in Inr (q, savePriceItem q cat))"

definition removePriceItem :: "id \<Rightarrow> id \<Rightarrow> catalog_db \<Rightarrow> catalog_db result" where
  "removePriceItem i company cat =
     andThen (findPriceItem cat i company) (\<lambda>p. Inr (savePriceItem (p\<lparr>pi_deleted := True\<rparr>) cat))"

text \<open>The rows in descending order of \<open>validFrom\<close>, the first one that covers the date.\<close>

definition priceMatches :: "id \<Rightarrow> id \<Rightarrow> id \<Rightarrow> price_list_item \<Rightarrow> bool" where
  "priceMatches company priceList variant p =
     (pi_company p = company \<and> pi_list p = priceList \<and> pi_variant p = variant \<and> livePrice p)"

definition priceCovers :: "id option \<Rightarrow> nat \<Rightarrow> price_list_item \<Rightarrow> bool" where
  "priceCovers u t p = (pi_uom p = u \<and> pi_from p \<le> t \<and> beforeEnd t (pi_to p))"

definition resolveActivePrice ::
  "catalog_db \<Rightarrow> id \<Rightarrow> id \<Rightarrow> id \<Rightarrow> id option \<Rightarrow> nat \<Rightarrow> price_list_item option" where
  "resolveActivePrice cat company priceList variant u t =
     List.find (priceCovers u t)
       (rev (sort_key pi_from (filter (priceMatches company priceList variant) (priceItems cat))))"

section \<open>The price list of a sale item\<close>

definition resolveDefaultPriceListId :: "catalog_db \<Rightarrow> id \<Rightarrow> id option" where
  "resolveDefaultPriceListId cat company =
     (case filter (\<lambda>l. pl_company l = company \<and> pl_status l = Active) (priceLists cat) of
        [l] \<Rightarrow> Some (pl_id l) | _ \<Rightarrow> None)"

definition resolvePriceListId :: "catalog_db \<Rightarrow> id option \<Rightarrow> id \<Rightarrow> id option \<Rightarrow> id result" where
  "resolvePriceListId cat requested company defaultList =
     (case requested of
        Some i \<Rightarrow>
          (case List.find (\<lambda>l. pl_id l = i) (priceLists cat) of
             None \<Rightarrow> Inl (AppException ValidationError)
           | Some l \<Rightarrow>
               if pl_company l \<noteq> company then Inl (AppException ValidationError)
               else if pl_status l \<noteq> Active then Inl (AppException ValidationError)
               else Inr (pl_id l))
      | None \<Rightarrow> orThrow defaultList (AppException ValidationError))"

section \<open>Windows stay disjoint\<close>

definition same_price_key :: "price_list_item \<Rightarrow> price_list_item \<Rightarrow> bool" where
  "same_price_key p q = (pi_list p = pi_list q \<and> pi_variant p = pi_variant q \<and> pi_uom p = pi_uom q)"

definition prices_ok :: "catalog_db \<Rightarrow> bool" where
  "prices_ok cat \<longleftrightarrow> distinct (map pi_id (priceItems cat))
     \<and> (\<forall>p \<in> set (priceItems cat). pi_id p < catalogIds cat)
     \<and> (\<forall>p \<in> set (priceItems cat). \<forall>q \<in> set (priceItems cat).
          livePrice p \<and> livePrice q \<and> pi_id p \<noteq> pi_id q \<and> same_price_key p q
          \<longrightarrow> \<not> windowsMeet (pi_from p) (pi_to p) (pi_from q) (pi_to q))"

lemma windowsMeet_sym: "windowsMeet s e s' e' = windowsMeet s' e' s e"
  by (auto simp: windowsMeet_def)

lemma assertNoOverlap_Inr:
  "assertNoOverlap cat pl v u s e ex = Inr x \<Longrightarrow> q \<in> set (priceItems cat) \<Longrightarrow> livePrice q \<Longrightarrow>
    pi_list q = pl \<Longrightarrow> pi_variant q = v \<Longrightarrow> pi_uom q = u \<Longrightarrow> ex \<noteq> Some (pi_id q) \<Longrightarrow>
    \<not> windowsMeet s e (pi_from q) (pi_to q)"
  by (auto simp: assertNoOverlap_def Let_def find_None_iff windowsMeet_def split: option.splits)

lemma findPriceItem_Inr:
  "findPriceItem cat i company = Inr p \<Longrightarrow> p \<in> set (priceItems cat) \<and> pi_id p = i \<and> \<not> pi_deleted p"
  by (auto simp: findPriceItem_def dest: find_SomeD)

text \<open>Replacing a row by one that is not live, or whose window meets no other.\<close>

lemma savePriceItem_ok:
  assumes ok: "prices_ok cat" and p: "p \<in> set (priceItems cat)"
    and q: "pi_id q = pi_id p" "same_price_key q p"
    and free: "\<And>r. livePrice q \<Longrightarrow> r \<in> set (priceItems cat) \<Longrightarrow> livePrice r \<Longrightarrow> pi_id r \<noteq> pi_id p
      \<Longrightarrow> same_price_key r q \<Longrightarrow> \<not> windowsMeet (pi_from q) (pi_to q) (pi_from r) (pi_to r)"
  shows "prices_ok (savePriceItem q cat)"
proof -
  let ?f = "\<lambda>x. if pi_id x = pi_id q then q else x"
  have items: "priceItems (savePriceItem q cat) = map ?f (priceItems cat)"
    "catalogIds (savePriceItem q cat) = catalogIds cat"
    by (simp_all add: savePriceItem_def)
  have ids: "map pi_id (map ?f (priceItems cat)) = map pi_id (priceItems cat)" by simp
  have new: "x = q \<or> x \<in> set (priceItems cat) \<and> pi_id x \<noteq> pi_id p" if "x \<in> set (map ?f (priceItems cat))" for x
    using that q(1) by auto
  have disj: "\<not> windowsMeet (pi_from a) (pi_to a) (pi_from b) (pi_to b)"
    if a: "a \<in> set (map ?f (priceItems cat))" and b: "b \<in> set (map ?f (priceItems cat))"
      and l: "livePrice a" "livePrice b" "pi_id a \<noteq> pi_id b" "same_price_key a b" for a b
  proof -
    consider "a = q" "b \<in> set (priceItems cat)" "pi_id b \<noteq> pi_id p"
      | "b = q" "a \<in> set (priceItems cat)" "pi_id a \<noteq> pi_id p"
      | "a \<in> set (priceItems cat)" "b \<in> set (priceItems cat)"
      using new [OF a] new [OF b] l(3) by auto
    then show ?thesis
    proof cases
      case 1
      then show ?thesis using free [of b] l by (auto simp: same_price_key_def)
    next
      case 2
      then show ?thesis using free [of a] l
        by (subst windowsMeet_sym) (auto simp: same_price_key_def)
    next
      case 3
      then show ?thesis using ok l by (auto simp: prices_ok_def)
    qed
  qed
  have "\<forall>x \<in> set (map ?f (priceItems cat)). pi_id x < catalogIds cat"
    using ok p q(1) by (auto simp: prices_ok_def)
  moreover have "distinct (map pi_id (map ?f (priceItems cat)))"
    unfolding ids using ok by (simp add: prices_ok_def)
  ultimately show ?thesis unfolding prices_ok_def items using disj by blast
qed

lemma createPriceItem_ok:
  assumes ok: "prices_ok cat" and c: "createPriceItem pl company dto cat = Inr (p, cat')"
  shows "prices_ok cat'"
proof -
  from c obtain u where n: "assertNoOverlap cat pl (cp_variant dto) u (cp_from dto) (cp_to dto) None = Inr ()"
    and p: "pi_id p = catalogIds cat" "pi_list p = pl" "pi_variant p = cp_variant dto" "pi_uom p = u"
      "pi_from p = cp_from dto" "pi_to p = cp_to dto"
    and cat': "cat' = cat\<lparr>priceItems := priceItems cat @ [p], catalogIds := catalogIds cat + 1\<rparr>"
    unfolding createPriceItem_def Let_def by auto
  have free: "\<not> windowsMeet (pi_from p) (pi_to p) (pi_from q) (pi_to q)"
    if "q \<in> set (priceItems cat)" "livePrice q" "same_price_key q p" for q
    using assertNoOverlap_Inr [OF n that(1,2)] that(3) p by (simp add: same_price_key_def)
  have old: "pi_id q < catalogIds cat" if "q \<in> set (priceItems cat)" for q
    using ok that by (simp add: prices_ok_def)
  have "distinct (map pi_id (priceItems cat @ [p]))"
    using ok old p(1) by (fastforce simp: prices_ok_def)
  moreover have "\<forall>q \<in> set (priceItems cat @ [p]). pi_id q < catalogIds cat + 1"
    using old p(1) by (auto simp: less_SucI)
  moreover have "\<not> windowsMeet (pi_from a) (pi_to a) (pi_from b) (pi_to b)"
    if asm: "a \<in> set (priceItems cat @ [p])" "b \<in> set (priceItems cat @ [p])"
      "livePrice a" "livePrice b" "pi_id a \<noteq> pi_id b" "same_price_key a b" for a b
  proof -
    consider "a = p" "b \<in> set (priceItems cat)" | "b = p" "a \<in> set (priceItems cat)"
      | "a \<in> set (priceItems cat)" "b \<in> set (priceItems cat)"
      using asm by auto
    then show ?thesis
    proof cases
      case 1
      then show ?thesis using free [of b] asm by (auto simp: same_price_key_def)
    next
      case 2
      then show ?thesis using free [of a] asm by (subst windowsMeet_sym) auto
    next
      case 3
      then show ?thesis using ok asm by (auto simp: prices_ok_def)
    qed
  qed
  ultimately show ?thesis by (simp add: prices_ok_def cat' del: set_append)
qed

lemma updatePriceItem_ok:
  assumes ok: "prices_ok cat" and c: "updatePriceItem i company dto cat = Inr (p', cat')"
  shows "prices_ok cat'"
proof -
  from c obtain p where f: "findPriceItem cat i company = Inr p"
    and n: "up_to dto \<noteq> None \<Longrightarrow> assertNoOverlap cat (pi_list p) (pi_variant p) (pi_uom p)
        (pi_from p) (up_to dto) (Some i) = Inr ()"
    and p': "p' = p\<lparr>pi_price := pi_price p', pi_to := (case up_to dto of None \<Rightarrow> pi_to p | Some e \<Rightarrow> Some e)\<rparr>"
    and cat': "cat' = savePriceItem p' cat"
    unfolding updatePriceItem_def Let_def by (auto split: option.splits if_splits)
  note mem = findPriceItem_Inr [OF f]
  from p' have id: "pi_id p' = pi_id p" "pi_from p' = pi_from p" "same_price_key p' p"
    "livePrice p' = livePrice p"
    "pi_to p' = (case up_to dto of None \<Rightarrow> pi_to p | Some e \<Rightarrow> Some e)"
    by (metis (no_types, lifting) price_list_item.select_convs price_list_item.surjective
        price_list_item.update_convs same_price_key_def livePrice_def)+
  show ?thesis unfolding cat'
  proof (rule savePriceItem_ok [OF ok _ id(1,3)])
    show "p \<in> set (priceItems cat)" using mem by simp
  next
    fix r assume r: "livePrice p'" "r \<in> set (priceItems cat)" "livePrice r" "pi_id r \<noteq> pi_id p"
      "same_price_key r p'"
    show "\<not> windowsMeet (pi_from p') (pi_to p') (pi_from r) (pi_to r)"
    proof (cases "up_to dto")
      case None
      then show ?thesis using ok mem r id by (auto simp: prices_ok_def same_price_key_def)
    next
      case (Some e)
      with n assertNoOverlap_Inr [of cat _ _ _ _ _ _ _ r] show ?thesis
        using mem r id by (fastforce simp: same_price_key_def)
    qed
  qed
qed

lemma dropPriceItem_ok:
  assumes ok: "prices_ok cat" and p: "p \<in> set (priceItems cat)"
    and q: "pi_id q = pi_id p" "same_price_key q p" "\<not> livePrice q"
  shows "prices_ok (savePriceItem q cat)"
  by (rule savePriceItem_ok [OF ok p q(1,2)]) (use q(3) in simp)

section \<open>The price at a date\<close>

lemma resolveActivePrice_iff:
  assumes "prices_ok cat"
  shows "resolveActivePrice cat company pl v u t = Some p \<longleftrightarrow>
    p \<in> set (priceItems cat) \<and> priceMatches company pl v p \<and> priceCovers u t p"
proof -
  let ?rows = "rev (sort_key pi_from (filter (priceMatches company pl v) (priceItems cat)))"
  have uniq: "p = q" if "p \<in> set (priceItems cat)" "priceMatches company pl v p" "priceCovers u t p"
      "q \<in> set (priceItems cat)" "priceMatches company pl v q" "priceCovers u t q" for p q
  proof (rule ccontr)
    assume "p \<noteq> q"
    then have "pi_id p \<noteq> pi_id q"
      using assms that by (auto simp: prices_ok_def distinct_map inj_on_def)
    moreover have "windowsMeet (pi_from p) (pi_to p) (pi_from q) (pi_to q)"
      using that by (auto simp: priceCovers_def windowsMeet_def beforeEnd_def split: option.splits)
    ultimately show False
      using assms that by (auto simp: prices_ok_def priceMatches_def priceCovers_def same_price_key_def)
  qed
  show ?thesis
  proof
    assume "resolveActivePrice cat company pl v u t = Some p"
    then show "p \<in> set (priceItems cat) \<and> priceMatches company pl v p \<and> priceCovers u t p"
      unfolding resolveActivePrice_def using find_SomeD by fastforce
  next
    assume p: "p \<in> set (priceItems cat) \<and> priceMatches company pl v p \<and> priceCovers u t p"
    then have "List.find (priceCovers u t) ?rows \<noteq> None" by (auto simp: find_None_iff)
    then obtain q where q: "List.find (priceCovers u t) ?rows = Some q" by auto
    then have "q \<in> set (priceItems cat) \<and> priceMatches company pl v q \<and> priceCovers u t q"
      using find_SomeD by fastforce
    with uniq p have "q = p" by blast
    with q show "resolveActivePrice cat company pl v u t = Some p"
      by (simp add: resolveActivePrice_def)
  qed
qed

section \<open>The catalog as a state machine\<close>

inductive catalog_step :: "catalog_db \<Rightarrow> catalog_db \<Rightarrow> bool" where
  createPrice: "createPriceItem pl company dto cat = Inr (p, cat') \<Longrightarrow> catalog_step cat cat'"
| updatePrice: "updatePriceItem i company udto cat = Inr (p, cat') \<Longrightarrow> catalog_step cat cat'"
| deactivatePrice: "deactivatePriceItem i company cat = Inr (p, cat') \<Longrightarrow> catalog_step cat cat'"
| removePrice: "removePriceItem i company cat = Inr cat' \<Longrightarrow> catalog_step cat cat'"
| createUom: "createVariantUom v company cdto cat = Inr (m, cat') \<Longrightarrow> catalog_step cat cat'"
| updateUom: "updateVariantUom i company mdto cat = Inr (m, cat') \<Longrightarrow> catalog_step cat cat'"
| removeUom: "removeVariantUom i company cat = Inr cat' \<Longrightarrow> catalog_step cat cat'"

text \<open>A catalog starts without prices and with the base mapping of each variant.\<close>

definition fresh_catalog :: "catalog_db \<Rightarrow> bool" where
  "fresh_catalog cat \<longleftrightarrow> priceItems cat = [] \<and> uom_ids_ok cat \<and> distinct (uom_keys cat)
     \<and> (\<forall>m \<in> set (variantUoms cat). vu_isBase m)"

inductive catalog_reachable :: "catalog_db \<Rightarrow> catalog_db \<Rightarrow> bool" for cat0 where
  start: "fresh_catalog cat0 \<Longrightarrow> catalog_reachable cat0 cat0"
| step: "catalog_reachable cat0 cat \<Longrightarrow> catalog_step cat cat' \<Longrightarrow> catalog_reachable cat0 cat'"

lemma deactivatePriceItem_ok:
  assumes "prices_ok cat" "deactivatePriceItem i company cat = Inr (p, cat')"
  shows "prices_ok cat'"
  using assms dropPriceItem_ok [OF assms(1)] findPriceItem_Inr
  by (fastforce simp: deactivatePriceItem_def Let_def same_price_key_def livePrice_def)

lemma removePriceItem_ok:
  assumes "prices_ok cat" "removePriceItem i company cat = Inr cat'"
  shows "prices_ok cat'"
  using assms dropPriceItem_ok [OF assms(1)] findPriceItem_Inr
  by (fastforce simp: removePriceItem_def same_price_key_def livePrice_def)

lemma prices_ok_more_ids:
  "prices_ok cat \<Longrightarrow> priceItems cat' = priceItems cat \<Longrightarrow> catalogIds cat \<le> catalogIds cat' \<Longrightarrow> prices_ok cat'"
  unfolding prices_ok_def by (metis order_less_le_trans)

definition uoms_ok :: "catalog_db \<Rightarrow> catalog_db \<Rightarrow> bool" where
  "uoms_ok cat0 cat \<longleftrightarrow> uom_ids_ok cat \<and> distinct (uom_keys cat) \<and> baseMappings cat = baseMappings cat0"

lemma uoms_ok_more_ids:
  "uoms_ok cat0 cat \<Longrightarrow> variantUoms cat' = variantUoms cat \<Longrightarrow> catalogIds cat \<le> catalogIds cat'
    \<Longrightarrow> uoms_ok cat0 cat'"
  unfolding uoms_ok_def uom_ids_ok_def uom_keys_def baseMappings_def by (metis order_less_le_trans)

lemma createVariantUom_ok:
  assumes ok: "uoms_ok cat0 cat" and c: "createVariantUom v company dto cat = Inr (m, cat')"
  shows "uoms_ok cat0 cat' \<and> priceItems cat' = priceItems cat \<and> catalogIds cat \<le> catalogIds cat'"
proof -
  from c have new: "\<forall>x \<in> set (variantUoms cat). \<not> (vu_variant x = v \<and> vu_uom x = cu_uom dto)"
    and m: "vu_id m = catalogIds cat" "vu_variant m = v" "vu_uom m = cu_uom dto" "\<not> vu_isBase m"
    and cat': "cat' = cat\<lparr>variantUoms := variantUoms cat @ [m], catalogIds := catalogIds cat + 1\<rparr>"
    unfolding createVariantUom_def Let_def by (auto split: option.splits if_splits)
  have "distinct (uom_keys cat')"
    using ok new m by (auto simp: uoms_ok_def uom_keys_def cat')
  moreover have "uom_ids_ok cat'"
    using ok m by (fastforce simp: uoms_ok_def uom_ids_ok_def cat')
  moreover have "baseMappings cat' = baseMappings cat0"
    using ok m(4) by (simp add: uoms_ok_def baseMappings_def cat')
  ultimately show ?thesis by (simp add: uoms_ok_def cat')
qed

lemma updateVariantUom_ok:
  assumes ok: "uoms_ok cat0 cat" and c: "updateVariantUom i company dto cat = Inr (m', cat')"
  shows "uoms_ok cat0 cat' \<and> priceItems cat' = priceItems cat \<and> catalogIds cat \<le> catalogIds cat'"
proof -
  from c obtain m where f: "findVariantUom cat i company = Inr m" "\<not> vu_isBase m"
    and m': "vu_id m' = vu_id m" "vu_variant m' = vu_variant m" "vu_uom m' = vu_uom m" "\<not> vu_isBase m'"
    and cat': "cat' = saveVariantUom m' cat"
    unfolding updateVariantUom_def Let_def by (auto split: option.splits if_splits)
  have "uom_ids_ok cat" using ok by (simp add: uoms_ok_def)
  from saveVariantUom_ok [OF f(1) this m'(1-3) f(2) m'(4)] ok show ?thesis
    by (simp add: uoms_ok_def cat') (simp add: saveVariantUom_def)
qed

lemma removeVariantUom_ok:
  assumes ok: "uoms_ok cat0 cat" and c: "removeVariantUom i company cat = Inr cat'"
  shows "uoms_ok cat0 cat' \<and> priceItems cat' = priceItems cat \<and> catalogIds cat \<le> catalogIds cat'"
proof -
  from c obtain m where f: "findVariantUom cat i company = Inr m" "\<not> vu_isBase m"
    and cat': "cat' = saveVariantUom (m\<lparr>vu_deleted := True\<rparr>) cat"
    unfolding removeVariantUom_def by (auto split: if_splits)
  have "uom_ids_ok cat" using ok by (simp add: uoms_ok_def)
  from saveVariantUom_ok [OF f(1) this, of "m\<lparr>vu_deleted := True\<rparr>"] f(2) ok show ?thesis
    by (simp add: uoms_ok_def cat') (simp add: saveVariantUom_def)
qed

lemma price_frame:
  "createPriceItem pl company dto cat = Inr (p, cat') \<Longrightarrow>
    variantUoms cat' = variantUoms cat \<and> catalogIds cat \<le> catalogIds cat'"
  "updatePriceItem i company udto cat = Inr (p, cat') \<Longrightarrow>
    variantUoms cat' = variantUoms cat \<and> catalogIds cat \<le> catalogIds cat'"
  "deactivatePriceItem i company cat = Inr (p, cat') \<Longrightarrow>
    variantUoms cat' = variantUoms cat \<and> catalogIds cat \<le> catalogIds cat'"
  "removePriceItem i company cat = Inr cat' \<Longrightarrow>
    variantUoms cat' = variantUoms cat \<and> catalogIds cat \<le> catalogIds cat'"
  by (auto simp: createPriceItem_def updatePriceItem_def deactivatePriceItem_def removePriceItem_def
      savePriceItem_def Let_def)

lemma catalog_step_ok:
  assumes "catalog_step cat cat'" "prices_ok cat" "uoms_ok cat0 cat"
  shows "prices_ok cat' \<and> uoms_ok cat0 cat'"
  using assms(1)
proof cases
  case (createPrice pl company dto p)
  then show ?thesis using createPriceItem_ok price_frame(1) uoms_ok_more_ids assms by metis
next
  case (updatePrice i company udto p)
  then show ?thesis using updatePriceItem_ok price_frame(2) uoms_ok_more_ids assms by metis
next
  case (deactivatePrice i company p)
  then show ?thesis using deactivatePriceItem_ok price_frame(3) uoms_ok_more_ids assms by metis
next
  case (removePrice i company)
  then show ?thesis using removePriceItem_ok price_frame(4) uoms_ok_more_ids assms by metis
next
  case (createUom v company cdto m)
  then show ?thesis using createVariantUom_ok prices_ok_more_ids assms by metis
next
  case (updateUom i company mdto m)
  then show ?thesis using updateVariantUom_ok prices_ok_more_ids assms by metis
next
  case (removeUom i company)
  then show ?thesis using removeVariantUom_ok prices_ok_more_ids assms by metis
qed

lemma catalog_reachable_ok:
  assumes "catalog_reachable cat0 cat"
  shows "prices_ok cat \<and> uoms_ok cat0 cat"
  using assms
proof induction
  case start
  then show ?case by (simp add: fresh_catalog_def prices_ok_def uoms_ok_def)
next
  case (step cat cat')
  then show ?case using catalog_step_ok by blast
qed

section \<open>Properties\<close>

text \<open>A variant sold by the piece or by the box of twelve, one price list, one price.\<close>

definition demo_variant :: product_variant where
  "demo_variant = \<lparr>pv_id = 20, pv_company = 1, pv_sku = ''TEE-M'', pv_productName = ''Tee'',
     pv_baseUom = Some 30, pv_status = Active, pv_deleted = False\<rparr>"

definition demo_catalog0 :: catalog_db where
  "demo_catalog0 = \<lparr>variants = [demo_variant],
     uoms = [\<lparr>um_id = 30, um_company = 1, um_code = ''PC'', um_name = ''Piece'', um_category = UCount,
              um_active = True\<rparr>,
             \<lparr>um_id = 31, um_company = 1, um_code = ''BOX'', um_name = ''Box'', um_category = UCount,
              um_active = True\<rparr>],
     variantUoms = [\<lparr>vu_id = 32, vu_variant = 20, vu_company = 1, vu_uom = 30, vu_factor = 10000,
              vu_usage = UsageBoth, vu_isBase = True, vu_active = True, vu_deleted = False\<rparr>],
     priceLists = [\<lparr>pl_id = 40, pl_company = 1, pl_status = Active\<rparr>], priceItems = [],
     catalogIds = 50\<rparr>"

definition demo_price :: price_list_item where
  "demo_price = \<lparr>pi_id = 50, pi_list = 40, pi_variant = 20, pi_company = 1, pi_uom = Some 30,
     pi_price = 1250, pi_from = 0, pi_to = None, pi_status = Active, pi_deleted = False\<rparr>"

definition demo_box :: variant_uom where
  "demo_box = \<lparr>vu_id = 51, vu_variant = 20, vu_company = 1, vu_uom = 31, vu_factor = 120000,
     vu_usage = UsageSales, vu_isBase = False, vu_active = True, vu_deleted = False\<rparr>"

definition demo_catalog1 :: catalog_db where
  "demo_catalog1 = demo_catalog0\<lparr>priceItems := [demo_price], catalogIds := 51\<rparr>"

definition demo_catalog :: catalog_db where
  "demo_catalog = demo_catalog1\<lparr>variantUoms := variantUoms demo_catalog0 @ [demo_box],
     catalogIds := 52\<rparr>"

lemma js_num_pos: "0 < c \<Longrightarrow> c < 2 ^ 51 \<Longrightarrow> 0 < js_num c"
  using near_less [of "2 ^ 51" 0 0 0 1 "js_num c" c] near_num [of c "2 ^ 51"] by (simp add: fits_def)

lemma demo_createPrice:
  "createPriceItem 40 1 \<lparr>cp_variant = 20, cp_uom = None, cp_price = 1250, cp_from = 0, cp_to = None\<rparr>
     demo_catalog0 = Inr (demo_price, demo_catalog1)"
  using js_num_pos [of 1250]
  by (simp add: createPriceItem_def demo_catalog0_def demo_catalog1_def demo_price_def demo_variant_def
      findVariantInCompany_def resolveSupportedUomId_def assertPositivePrice_def assertValidRange_def
      assertNoOverlap_def Let_def)

lemma demo_createUom:
  "createVariantUom 20 1 \<lparr>cu_uom = 31, cu_factor = 120000, cu_usage = UsageSales\<rparr> demo_catalog1
    = Inr (demo_box, demo_catalog)"
  by (simp add: createVariantUom_def demo_catalog0_def demo_catalog1_def demo_catalog_def demo_box_def
      demo_variant_def findVariantInCompany_def findActiveUomOrThrow_def findMapping_def
      Let_def)

lemma demo_catalog_reachable: "catalog_reachable demo_catalog0 demo_catalog"
proof -
  have "fresh_catalog demo_catalog0"
    by (simp add: fresh_catalog_def demo_catalog0_def uom_ids_ok_def uom_keys_def)
  note start = catalog_reachable.start [OF this]
  show ?thesis
    by (rule catalog_reachable.step [OF catalog_reachable.step [OF start
          catalog_step.createPrice [OF demo_createPrice]] catalog_step.createUom [OF demo_createUom]])
qed

text \<open>C11: whatever sequence of price and unit operations has run, the windows of two active price
  rows of one list, variant and unit never overlap.\<close>

theorem price_windows_disjoint:
  assumes "catalog_reachable cat0 cat"
    and "p \<in> set (priceItems cat)" "q \<in> set (priceItems cat)"
    and "livePrice p" "livePrice q" "pi_id p \<noteq> pi_id q" "same_price_key p q"
  shows "\<not> windowsMeet (pi_from p) (pi_to p) (pi_from q) (pi_to q)"
  using catalog_reachable_ok [OF assms(1)] assms(2-) by (auto simp: prices_ok_def)

definition demo_dto_until :: create_price_dto where
  "demo_dto_until = \<lparr>cp_variant = 20, cp_uom = Some 31, cp_price = 13000, cp_from = 5, cp_to = Some 9\<rparr>"

definition demo_price2 :: price_list_item where
  "demo_price2 = \<lparr>pi_id = 52, pi_list = 40, pi_variant = 20, pi_company = 1, pi_uom = Some 31,
     pi_price = 13000, pi_from = 5, pi_to = Some 9, pi_status = Active, pi_deleted = False\<rparr>"

definition demo_price3 :: price_list_item where
  "demo_price3 = demo_price2\<lparr>pi_id := 53, pi_from := 9, pi_to := None\<rparr>"

definition demo_catalog3 :: catalog_db where
  "demo_catalog3 = demo_catalog\<lparr>priceItems := [demo_price, demo_price2, demo_price3],
     catalogIds := 54\<rparr>"

lemma demo_catalog3_reachable: "catalog_reachable demo_catalog0 demo_catalog3"
proof -
  let ?cat2 = "demo_catalog\<lparr>priceItems := [demo_price, demo_price2], catalogIds := 53\<rparr>"
  note eval = createPriceItem_def demo_catalog0_def demo_catalog1_def demo_catalog_def demo_price_def
    demo_price2_def demo_price3_def demo_catalog3_def demo_box_def demo_variant_def
    findVariantInCompany_def resolveSupportedUomId_def findMapping_def assertPositivePrice_def
    assertValidRange_def assertNoOverlap_def livePrice_def windowsMeet_def beforeEnd_def Let_def
  have "createPriceItem 40 1 demo_dto_until demo_catalog = Inr (demo_price2, ?cat2)"
    using js_num_pos [of 13000] by (simp add: eval demo_dto_until_def)
  then have 1: "catalog_step demo_catalog ?cat2" by (rule catalog_step.createPrice)
  have "createPriceItem 40 1 (demo_dto_until\<lparr>cp_from := 9, cp_to := None\<rparr>) ?cat2
      = Inr (demo_price3, demo_catalog3)"
    using js_num_pos [of 13000] by (simp add: eval demo_dto_until_def)
  then have 2: "catalog_step ?cat2 demo_catalog3" by (rule catalog_step.createPrice)
  show ?thesis
    by (rule catalog_reachable.step [OF catalog_reachable.step [OF demo_catalog_reachable 1] 2])
qed

theorem price_windows_disjoint_witness:
  "\<not> windowsMeet (pi_from demo_price2) (pi_to demo_price2) (pi_from demo_price3) (pi_to demo_price3)"
  using price_windows_disjoint [OF demo_catalog3_reachable, of demo_price2 demo_price3]
  by (simp add: demo_catalog3_def demo_price2_def demo_price3_def livePrice_def same_price_key_def)

text \<open>C12: the price the services resolve for a date is the active row of that list, variant and unit
  whose window covers the date, if there is one; no other row can be returned, whatever order the
  database returns rows in.\<close>

theorem active_price_is_the_covering_row:
  assumes "catalog_reachable cat0 cat"
  shows "resolveActivePrice cat company pl v u t = Some p \<longleftrightarrow>
    p \<in> set (priceItems cat) \<and> priceMatches company pl v p \<and> priceCovers u t p"
  using catalog_reachable_ok [OF assms] by (intro resolveActivePrice_iff) simp

theorem active_price_is_the_covering_row_witness:
  "resolveActivePrice demo_catalog3 1 40 20 (Some 31) 9 = Some demo_price3
    \<and> resolveActivePrice demo_catalog3 1 40 20 (Some 31) 8 = Some demo_price2"
  using active_price_is_the_covering_row [OF demo_catalog3_reachable, of 1 40 20 "Some 31" 9 demo_price3]
    active_price_is_the_covering_row [OF demo_catalog3_reachable, of 1 40 20 "Some 31" 8 demo_price2]
  by (simp add: demo_catalog3_def demo_price2_def demo_price3_def livePrice_def priceMatches_def
      priceCovers_def beforeEnd_def)

text \<open>The conversion to base units, done in floating point with a tolerance of 1e-9, accepts a
  positive quantity exactly when quantity times factor is a whole number of base units, and then
  returns that number, for results up to four million units.\<close>

theorem base_quantity_exact:
  assumes "0 < q" and "0 < f" and "q * f \<le> 4 * 10 ^ 10"
  shows "computeBaseQuantity q f =
    (if 10000 dvd q * f then Inr (q * f div 10000) else Inl (AppException ValidationError))"
  by (rule computeBaseQuantity_exact [OF assms])

theorem base_quantity_exact_witness:
  "computeBaseQuantity 3 120000 = Inr 36 \<and> computeBaseQuantity 3 2500 = Inl (AppException ValidationError)"
  using base_quantity_exact [of 3 120000] base_quantity_exact [of 3 2500] by simp

text \<open>No sequence of catalog operations changes, removes or adds a base unit mapping, and no
  variant ever has two mappings of one unit, soft-deleted ones included.\<close>

theorem unit_mappings_unique:
  assumes "catalog_reachable cat0 cat"
  shows "distinct (uom_keys cat) \<and> baseMappings cat = baseMappings cat0"
  using catalog_reachable_ok [OF assms] by (simp add: uoms_ok_def)

theorem unit_mappings_unique_witness:
  "uom_keys demo_catalog = [(20, 30), (20, 31)] \<and> distinct (uom_keys demo_catalog)"
  using unit_mappings_unique [OF demo_catalog_reachable]
  by (simp add: uom_keys_def demo_catalog_def demo_catalog0_def demo_box_def)

end
