(* ===== verification/Sales.thy ===== *)
theory Sales
  imports Loyalty Price_Lists
begin

text \<open>
  Sales (\<open>sales/services/sales.service.ts\<close>): creation with server-side pricing, the retry key of an
  integration, confirmation that issues stock and earns points, the fulfilment states and the
  application of a payment. \<open>confirm\<close>, \<open>cancel\<close>, \<open>ship\<close> and \<open>deliver\<close> read the sale outside the
  transaction that writes it, so the first two are given as a read and a run; \<open>repository.save\<close>
  writes the entity that was read. Access to sales accounts is
  \<open>sales-accounts/services/sales-account-access.service.ts\<close>.
\<close>

section \<open>Tables\<close>

datatype sale_status = SaleDraft | SaleConfirmed | SaleCancelled
datatype sale_type = Pos | Retail | Wholesale
datatype fulfillment_status = PendingShipment | Shipped | Delivered

record sale_row = money_line +
  si_variant :: id
  si_uom :: "id option"
  si_baseQuantity :: int
  si_factor :: int
  si_lineTotal :: int
  si_productName :: string
  si_sku :: string

record sale_item = sale_row +
  si_id :: id
  si_sale :: id

record sale =
  sl_id :: id
  sl_creation :: "(string \<times> string) option"
  sl_number :: string
  sl_type :: sale_type
  sl_customer :: id
  sl_salesAccount :: "id option"
  sl_company :: id
  sl_branch :: "id option"
  sl_warehouse :: "id option"
  sl_date :: jdate
  sl_status :: sale_status
  sl_subtotal :: int
  sl_discount :: int
  sl_tax :: int
  sl_grandTotal :: int
  sl_paid :: int
  sl_balance :: int
  sl_currency :: string
  sl_fulfillment :: "fulfillment_status option"
  sl_shippedAt :: "jdate option"
  sl_deliveredAt :: "jdate option"
  sl_createdBy :: id
  sl_updatedBy :: id
  sl_deleted :: bool

record sales_account =
  sc_company :: id
  sc_status :: active_status

record sales_db = crm_db +
  sales :: "sale list"
  saleItems :: "sale_item list"
  saleCounters :: counters
  salesAccounts :: "id \<rightharpoonup> sales_account"
  salesAssignments :: "(id \<times> id) list"

section \<open>Checks\<close>

text \<open>The active assignments, as pairs of user and sales account.\<close>

definition canAccessSalesAccount :: "id \<Rightarrow> id \<Rightarrow> 'a sales_db_scheme \<Rightarrow> bool" where
  "canAccessSalesAccount user account db = ((user, account) \<in> set (salesAssignments db))"

definition assertValidSalesAccount :: "id \<Rightarrow> id \<Rightarrow> id \<Rightarrow> 'a sales_db_scheme \<Rightarrow> unit result" where
  "assertValidSalesAccount account company user db =
     (case salesAccounts db account of
        None \<Rightarrow> Inl (AppException NotFound)
      | Some a \<Rightarrow>
          if sc_company a \<noteq> company then Inl (AppException NotFound)
          else if sc_status a \<noteq> Active then Inl (AppException ValidationError)
          else if \<not> canAccessSalesAccount user account db then Inl (AppException Forbidden)
          else Inr ())"

definition assertValidWarehouse :: "org_db \<Rightarrow> id \<Rightarrow> id \<Rightarrow> id option \<Rightarrow> unit result" where
  "assertValidWarehouse org w company branchId =
     andThen (findWarehouse org w) (\<lambda>wh.
     if wh_status wh \<noteq> Active then Inl (AppException ValidationError)
     else if wh_company wh \<noteq> company then Inl (AppException ValidationError)
     else if branchId \<noteq> None \<and> branchId \<noteq> Some (wh_branch wh) then Inl (AppException ValidationError)
     else Inr ())"

definition assertValidCustomer :: "org_db \<Rightarrow> id \<Rightarrow> id \<Rightarrow> unit result" where
  "assertValidCustomer org customer company =
     andThen (findCustomerInCompany org customer company) (\<lambda>c.
     if cu_status c = PBlocked then Inl (AppException ValidationError) else Inr ())"

definition findSaleInCompany :: "id \<Rightarrow> id \<Rightarrow> 'a sales_db_scheme \<Rightarrow> sale result" where
  "findSaleInCompany i company db =
     orThrow (List.find (\<lambda>s. sl_id s = i \<and> sl_company s = company \<and> \<not> sl_deleted s) (sales db))
       (AppException NotFound)"

definition itemsOfSale :: "id \<Rightarrow> 'a sales_db_scheme \<Rightarrow> sale_item list" where
  "itemsOfSale i db = filter (\<lambda>x. si_sale x = i) (saleItems db)"

definition generateSaleNumber ::
  "id \<Rightarrow> nat \<Rightarrow> 'a sales_db_scheme \<Rightarrow> string \<times> 'a sales_db_scheme" where
  "generateSaleNumber company year db =
     (let (nextSequence, t) = next_sequence company year (saleCounters db)
      in (formatSaleNumber year nextSequence, db\<lparr>saleCounters := t\<rparr>))"

interpretation sale_numbers: numbering generateSaleNumber saleCounters "''SAL''"
  by unfold_locales (simp_all add: generateSaleNumber_def next_sequence_eq formatSaleNumber_eq)

section \<open>Pricing an item\<close>

record sale_item_dto =
  sd_variant :: id
  sd_uom :: "id option"
  sd_quantity :: int
  sd_priceList :: "id option"
  sd_discount :: "int option"
  sd_tax :: "int option"

record resolved_item =
  ri_variant :: product_variant
  ri_selection :: "uom_selection option"
  ri_baseQuantity :: int
  ri_price :: price_list_item

definition resolveItemPricing ::
  "catalog_db \<Rightarrow> id \<Rightarrow> id option \<Rightarrow> jdate \<Rightarrow> sale_item_dto \<Rightarrow> resolved_item result" where
  "resolveItemPricing cat company defaultList transactionDate dto =
     andThen (orThrow (List.find (\<lambda>v. pv_id v = sd_variant dto \<and> pv_company v = company
        \<and> \<not> pv_deleted v) (variants cat)) EntityNotFound) (\<lambda>v.
     andThen (resolveSelectionForUsage cat v company UsageSales (sd_uom dto)) (\<lambda>sel.
     andThen (computeBaseQuantity (sd_quantity dto) (selectedFactor sel)) (\<lambda>baseQuantity.
     andThen (resolvePriceListId cat (sd_priceList dto) company defaultList) (\<lambda>priceListId.
     case resolveActivePrice cat company priceListId (sd_variant dto) (map_option us_uom sel)
            (date_key transactionDate) of
       None \<Rightarrow> Inl (AppException ValidationError)
     | Some p \<Rightarrow> if pi_status p \<noteq> Active then Inl (AppException ValidationError)
         else Inr \<lparr>ri_variant = v, ri_selection = sel, ri_baseQuantity = baseQuantity,
           ri_price = p\<rparr>))))"

text \<open>The line of a resolved item: the price from the price row, the discount and the tax from the
  request, defaulting to zero.\<close>

definition saleLine :: "resolved_item \<Rightarrow> sale_item_dto \<Rightarrow> money_line" where
  "saleLine r dto =
     \<lparr>ml_price = pi_price (ri_price r), ml_quantity = sd_quantity dto,
      ml_discount = (case sd_discount dto of None \<Rightarrow> 0 | Some d \<Rightarrow> d),
      ml_tax = (case sd_tax dto of None \<Rightarrow> 0 | Some t \<Rightarrow> t)\<rparr>"

definition saleRow :: "resolved_item \<Rightarrow> sale_item_dto \<Rightarrow> sale_row" where
  "saleRow r dto =
     (let l = saleLine r dto
      in \<lparr>ml_price = ml_price l, ml_quantity = ml_quantity l,
          ml_discount = to_fixed2 (js_num (ml_discount l)),
          ml_tax = to_fixed2 (js_num (ml_tax l)),
          si_variant = sd_variant dto, si_uom = map_option us_uom (ri_selection r),
          si_baseQuantity = ri_baseQuantity r, si_factor = selectedFactor (ri_selection r),
          si_lineTotal = to_fixed2 (lineTotal l), si_productName = pv_productName (ri_variant r),
          si_sku = pv_sku (ri_variant r)\<rparr>)"

text \<open>One turn of the item loop.\<close>

definition priceItem ::
  "catalog_db \<Rightarrow> id \<Rightarrow> id option \<Rightarrow> jdate \<Rightarrow> sale_item_dto \<Rightarrow> money_totals \<times> sale_row list
    \<Rightarrow> (money_totals \<times> sale_row list) result" where
  "priceItem cat company defaultList transactionDate dto s =
     andThen (resolveItemPricing cat company defaultList transactionDate dto) (\<lambda>r.
     let l = saleLine r dto
     in andThen (assertNonNegative l) (\<lambda>_.
        andThen (assertDiscountFits l) (\<lambda>_.
        Inr (addLine l (fst s), snd s @ [saleRow r dto]))))"

section \<open>Creation\<close>

record create_sale_dto =
  cs_type :: "sale_type option"
  cs_customer :: id
  cs_salesAccount :: "id option"
  cs_branch :: "id option"
  cs_warehouse :: "id option"
  cs_date :: "jdate option"
  cs_items :: "sale_item_dto list"
  cs_promotion :: "string option"
  cs_currency :: string

definition assertCreationHash :: "sale \<Rightarrow> string \<Rightarrow> unit result" where
  "assertCreationHash s hash =
     (if map_option snd (sl_creation s) \<noteq> Some hash \<or> sl_deleted s then Inl (AppException Conflict)
      else Inr ())"

definition findByCreationKey ::
  "id \<Rightarrow> string \<times> string \<Rightarrow> 'a sales_db_scheme \<Rightarrow> sale option result" where
  "findByCreationKey company creation db =
     (case List.find (\<lambda>s. sl_company s = company \<and> map_option fst (sl_creation s) = Some (fst creation))
            (sales db) of
        None \<Rightarrow> Inr None
      | Some s \<Rightarrow> andThen (assertCreationHash s (snd creation)) (\<lambda>_. Inr (Some s)))"

text \<open>Insertion under the unique indexes on the number and on the creation key.\<close>

definition insertSale :: "sale \<Rightarrow> 'a sales_db_scheme \<Rightarrow> 'a sales_db_scheme result" where
  "insertSale s db =
     (if \<exists>k \<in> set (sales db). sl_company k = sl_company s \<and> sl_number k = sl_number s
      then Inl (DupEntry ''sale_number'')
      else if \<exists>k \<in> set (sales db). sl_company k = sl_company s \<and> sl_creation s \<noteq> None
          \<and> map_option fst (sl_creation k) = map_option fst (sl_creation s)
      then Inl (DupEntry ''creation_key'')
      else Inr (db\<lparr>sales := sales db @ [s], rowIds := rowIds db + 1\<rparr>))"

definition insertSaleItem :: "id \<Rightarrow> sale_row \<Rightarrow> 'a sales_db_scheme \<Rightarrow> 'a sales_db_scheme" where
  "insertSaleItem saleId r db =
     db\<lparr>saleItems := saleItems db @ [\<lparr>ml_price = ml_price r, ml_quantity = ml_quantity r,
          ml_discount = ml_discount r, ml_tax = ml_tax r, si_variant = si_variant r,
          si_uom = si_uom r, si_baseQuantity = si_baseQuantity r, si_factor = si_factor r,
          si_lineTotal = si_lineTotal r, si_productName = si_productName r, si_sku = si_sku r,
          si_id = rowIds db, si_sale = saleId\<rparr>], rowIds := rowIds db + 1\<rparr>"

text \<open>The promotion, when a code is given: the promotion to count and the discount it adds.\<close>

definition promotionDiscount ::
  "id \<Rightarrow> string option \<Rightarrow> money_totals \<Rightarrow> jdate \<Rightarrow> 'a sales_db_scheme \<Rightarrow> (id option \<times> money_totals) result" where
  "promotionDiscount company code t transactionDate db =
     (case code of
        None \<Rightarrow> Inr (None, t)
      | Some c \<Rightarrow>
          andThen (resolveAndLockForUse company c (mt_subtotal t) transactionDate db) (\<lambda>p.
          Inr (Some (pr_id p), t\<lparr>mt_discount := js_add (mt_discount t)
             (computeDiscountAmount p (js_sub (mt_subtotal t) (mt_discount t)))\<rparr>)))"

definition createSaleTx ::
  "catalog_db \<Rightarrow> id \<Rightarrow> id \<Rightarrow> create_sale_dto \<Rightarrow> (string \<times> string) option \<Rightarrow> jdate
    \<Rightarrow> 'a sales_db_scheme \<Rightarrow> (sale \<times> 'a sales_db_scheme) result" where
  "createSaleTx cat company user dto creation transactionDate db =
     andThen (case cs_salesAccount dto of None \<Rightarrow> Inr ()
        | Some a \<Rightarrow> assertValidSalesAccount a company user db) (\<lambda>_.
     let (saleNumber, db1) = generateSaleNumber company (getUTCFullYear transactionDate) db
     in andThen (case creation of None \<Rightarrow> Inr None | Some c \<Rightarrow> findByCreationKey company c db1) (\<lambda>replay.
     case replay of
       Some s \<Rightarrow> Inr (s, db1)
     | None \<Rightarrow>
         let defaultPriceListId = resolveDefaultPriceListId cat company
         in andThen (forEach (priceItem cat company defaultPriceListId transactionDate) (cs_items dto)
              (zeroTotals, [])) (\<lambda>(t, rows).
         andThen (promotionDiscount company (cs_promotion dto) t transactionDate db1) (\<lambda>(promotionId, t').
         let s = \<lparr>sl_id = rowIds db1, sl_creation = creation, sl_number = saleNumber,
              sl_type = (case cs_type dto of None \<Rightarrow> Retail | Some x \<Rightarrow> x),
              sl_customer = cs_customer dto, sl_salesAccount = cs_salesAccount dto,
              sl_company = company, sl_branch = cs_branch dto, sl_warehouse = cs_warehouse dto,
              sl_date = transactionDate, sl_status = SaleDraft,
              sl_subtotal = to_fixed2 (mt_subtotal t'), sl_discount = to_fixed2 (mt_discount t'),
              sl_tax = to_fixed2 (mt_tax t'), sl_grandTotal = to_fixed2 (grandTotal t'), sl_paid = 0,
              sl_balance = to_fixed2 (grandTotal t'), sl_currency = cs_currency dto,
              sl_fulfillment = None, sl_shippedAt = None, sl_deliveredAt = None,
              sl_createdBy = user, sl_updatedBy = user, sl_deleted = False\<rparr>
         in andThen (insertSale s db1) (\<lambda>db2.
            let db3 = (case promotionId of None \<Rightarrow> db2 | Some p \<Rightarrow> incrementUsage p db2)
            in Inr (s, fold (insertSaleItem (sl_id s)) rows db3))))))"

definition createSale ::
  "org_db \<Rightarrow> catalog_db \<Rightarrow> id \<Rightarrow> id \<Rightarrow> create_sale_dto \<Rightarrow> (string \<times> string) option \<Rightarrow> jdate
    \<Rightarrow> 'a sales_db_scheme \<Rightarrow> (sale \<times> 'a sales_db_scheme) result" where
  "createSale org cat company user dto creation now db =
     andThen (case creation of None \<Rightarrow> Inr None | Some c \<Rightarrow> findByCreationKey company c db) (\<lambda>replay.
     case replay of
       Some s \<Rightarrow> Inr (s, db)
     | None \<Rightarrow>
         andThen (assertActiveCompany org company) (\<lambda>_.
         andThen (assertBranchIfGiven org (cs_branch dto) company) (\<lambda>_.
         andThen (case cs_warehouse dto of None \<Rightarrow> Inr ()
            | Some w \<Rightarrow> assertValidWarehouse org w company (cs_branch dto)) (\<lambda>_.
         andThen (assertValidCustomer org (cs_customer dto) company) (\<lambda>_.
         andThen (checkAll (\<lambda>i. assertVariantActive cat company (sd_variant i)) (cs_items dto)) (\<lambda>_.
         let transactionDate = (case cs_date dto of None \<Rightarrow> now | Some d \<Rightarrow> d)
         in case createSaleTx cat company user dto creation transactionDate db of
              Inr r \<Rightarrow> Inr r
            | Inl (DupEntry ix) \<Rightarrow>
                (case creation of
                   None \<Rightarrow> Inl (DupEntry ix)
                 | Some c \<Rightarrow> andThen (findByCreationKey company c db) (\<lambda>r.
                     case r of Some s \<Rightarrow> Inr (s, db) | None \<Rightarrow> Inl (DupEntry ix)))
            | Inl e \<Rightarrow> Inl e))))))"

section \<open>What a creation stores\<close>

lemma generateSaleNumber_frame:
  "generateSaleNumber company y db = (n, db') \<Longrightarrow> saleItems db' = saleItems db \<and> sales db' = sales db
    \<and> rowIds db' = rowIds db \<and> stockMovements db' = stockMovements db \<and> warehouseStock db' = warehouseStock db"
  by (auto simp: generateSaleNumber_def next_sequence_eq)

lemma js_num_neg: "js_num c < 0 \<longleftrightarrow> c < 0"
proof -
  have e: "\<bar>js_num c - of_int c / 100\<bar> \<le> \<bar>of_int c / 100\<bar> / 2 ^ 53"
    unfolding js_num_def by (rule fl_error)
  show ?thesis
  proof (cases "c < 0")
    case True
    then have "(of_int c :: real) < 0" by simp
    with e True show ?thesis by (simp add: abs_real_def split: if_splits)
  next
    case False
    then have "(0::real) \<le> of_int c" by simp
    with e False show ?thesis by (simp add: abs_real_def split: if_splits)
  qed
qed

lemma assertNonNegative_Inr: "assertNonNegative l = Inr u \<longleftrightarrow> 0 \<le> ml_discount l \<and> 0 \<le> ml_tax l"
  by (auto simp: assertNonNegative_def js_num_neg)

text \<open>The loop resolves every item, checks every line and adds them up in order.\<close>

definition pricedAs ::
  "catalog_db \<Rightarrow> id \<Rightarrow> id option \<Rightarrow> jdate \<Rightarrow> sale_item_dto \<Rightarrow> resolved_item \<Rightarrow> bool" where
  "pricedAs cat company defaultList d i r \<longleftrightarrow> resolveItemPricing cat company defaultList d i = Inr r
     \<and> assertNonNegative (saleLine r i) = Inr () \<and> assertDiscountFits (saleLine r i) = Inr ()"

lemma priceItem_Inr:
  assumes "priceItem cat company dl d i (t0, rows0) = Inr s1"
  shows "\<exists>r. pricedAs cat company dl d i r \<and> s1 = (addLine (saleLine r i) t0, rows0 @ [saleRow r i])"
  using assms by (auto simp: priceItem_def pricedAs_def Let_def)

lemma priceItems_loop:
  assumes "forEach (priceItem cat company dl d) items (t0, rows0) = Inr (t, rows)"
  shows "\<exists>rs. list_all2 (pricedAs cat company dl d) items rs
    \<and> t = fold addLine (map2 saleLine rs items) t0 \<and> rows = rows0 @ map2 saleRow rs items"
  using assms
proof (induction items arbitrary: t0 rows0)
  case (Cons i items)
  from Cons.prems obtain s1 where s1: "priceItem cat company dl d i (t0, rows0) = Inr s1"
    "forEach (priceItem cat company dl d) items s1 = Inr (t, rows)" by auto
  from priceItem_Inr [OF s1(1)] obtain r where r: "pricedAs cat company dl d i r"
    "s1 = (addLine (saleLine r i) t0, rows0 @ [saleRow r i])" by blast
  from Cons.IH [OF s1(2) [unfolded r(2)]] obtain rs where
    "list_all2 (pricedAs cat company dl d) items rs"
    "t = fold addLine (map2 saleLine rs items) (addLine (saleLine r i) t0)"
    "rows = (rows0 @ [saleRow r i]) @ map2 saleRow rs items" by blast
  with r show ?case by (intro exI [of _ "r # rs"]) simp
qed simp

lemma insertSaleItem_rows:
  "map money_line.truncate (saleItems (fold (insertSaleItem i) rows db))
    = map money_line.truncate (saleItems db) @ map money_line.truncate rows"
  "map si_sale (saleItems (fold (insertSaleItem i) rows db)) = map si_sale (saleItems db) @ replicate (length rows) i"
  "map si_lineTotal (saleItems (fold (insertSaleItem i) rows db))
    = map si_lineTotal (saleItems db) @ map si_lineTotal rows"
  "length (saleItems (fold (insertSaleItem i) rows db)) = length (saleItems db) + length rows"
  by (induction rows arbitrary: db) (simp_all add: insertSaleItem_def money_line.truncate_def
      replicate_append_same [symmetric])

lemma insertSaleItem_all:
  "map sale_row.truncate (saleItems (fold (insertSaleItem i) rows db))
    = map sale_row.truncate (saleItems db) @ rows"
proof (induction rows arbitrary: db)
  case (Cons r rows)
  then show ?case by (cases r) (simp add: insertSaleItem_def sale_row.truncate_def)
qed simp

lemma insertSaleItem_frame:
  "sales (fold (insertSaleItem i) rows db) = sales db"
  "warehouseStock (fold (insertSaleItem i) rows db) = warehouseStock db"
  "stockMovements (fold (insertSaleItem i) rows db) = stockMovements db"
  "rowIds db \<le> rowIds (fold (insertSaleItem i) rows db)"
proof -
  show "sales (fold (insertSaleItem i) rows db) = sales db"
    "warehouseStock (fold (insertSaleItem i) rows db) = warehouseStock db"
    "stockMovements (fold (insertSaleItem i) rows db) = stockMovements db"
    by (induction rows arbitrary: db) (simp_all add: insertSaleItem_def)
  show "rowIds db \<le> rowIds (fold (insertSaleItem i) rows db)"
  proof (induction rows arbitrary: db)
    case (Cons r rows)
    have "rowIds db \<le> rowIds (insertSaleItem i r db)" by (simp add: insertSaleItem_def)
    with Cons [of "insertSaleItem i r db"] show ?case by simp
  qed simp
qed

text \<open>The items of a sale whose identifier is new are exactly the rows inserted for it.\<close>

lemma itemsOfSale_new:
  assumes "\<forall>x \<in> set (saleItems db). si_sale x \<noteq> i"
  shows "map money_line.truncate (itemsOfSale i (fold (insertSaleItem i) rows db))
      = map money_line.truncate rows"
    and "map si_lineTotal (itemsOfSale i (fold (insertSaleItem i) rows db)) = map si_lineTotal rows"
    and "map sale_row.truncate (itemsOfSale i (fold (insertSaleItem i) rows db)) = rows"
proof -
  have "itemsOfSale i (fold (insertSaleItem i) rows db)
      = drop (length (saleItems db)) (saleItems (fold (insertSaleItem i) rows db))"
    unfolding itemsOfSale_def by (rule filter_new_suffix [OF insertSaleItem_rows(2) assms])
  then show "map money_line.truncate (itemsOfSale i (fold (insertSaleItem i) rows db))
      = map money_line.truncate rows"
    "map si_lineTotal (itemsOfSale i (fold (insertSaleItem i) rows db)) = map si_lineTotal rows"
    "map sale_row.truncate (itemsOfSale i (fold (insertSaleItem i) rows db)) = rows"
    by (simp_all add: insertSaleItem_rows insertSaleItem_all flip: drop_map)
qed

lemma truncate_money [simp]:
  "gross (money_line.truncate l) = gross l" "ml_discount (money_line.truncate l) = ml_discount l"
  "ml_tax (money_line.truncate l) = ml_tax l" "line_ok (money_line.truncate l) = line_ok l"
  by (simp_all add: money_line.truncate_def gross_def line_ok_def)

lemma sums_truncate:
  "sumGross (map money_line.truncate ls) = sumGross ls"
  "sumDiscount (map money_line.truncate ls) = sumDiscount ls"
  "sumTax (map money_line.truncate ls) = sumTax ls"
  by (simp_all add: sumGross_def sumDiscount_def sumTax_def o_def)

end
