(* ===== verification/Sale_Creation.thy ===== *)
theory Sale_Creation
  imports Sales
begin

text \<open>
  What \<open>create\<close> of \<open>sales/services/sales.service.ts\<close> guarantees: the stored totals are the exact
  sums of the stored items, the prices are those of the price list, and a creation key is replayed.
\<close>

section \<open>The run of a creation\<close>

text \<open>The request as its DTO validates it, with amounts of at most \<open>B\<close> cents.\<close>

definition request_within :: "int \<Rightarrow> create_sale_dto \<Rightarrow> bool" where
  "request_within B dto \<longleftrightarrow> (\<forall>i \<in> set (cs_items dto). 1 \<le> sd_quantity i
     \<and> (\<forall>d. sd_discount i = Some d \<longrightarrow> 0 \<le> d \<and> d \<le> B) \<and> (\<forall>t. sd_tax i = Some t \<longrightarrow> 0 \<le> t \<and> t \<le> B))"

lemma findByCreationKey_mem: "findByCreationKey company c db = Inr (Some s) \<Longrightarrow> s \<in> set (sales db)"
  by (auto simp: findByCreationKey_def split: option.splits dest: find_SomeD)

text \<open>A run that does not replay a sale, with or without a creation key.\<close>

lemma createSaleTx_new:
  assumes "createSaleTx cat company user dto creation d db = Inr (s, db')" "cs_promotion dto = None" "s \<notin> set (sales db)"
  shows "\<exists>n db1 rs. generateSaleNumber company (getUTCFullYear d) db = (n, db1)
    \<and> list_all2 (pricedAs cat company (resolveDefaultPriceListId cat company) d) (cs_items dto) rs
    \<and> db' = fold (insertSaleItem (rowIds db1)) (map2 saleRow rs (cs_items dto))
        (db1\<lparr>sales := sales db1 @ [s], rowIds := rowIds db1 + 1\<rparr>)
    \<and> sl_id s = rowIds db1 \<and> sl_status s = SaleDraft \<and> sl_fulfillment s = None \<and> sl_paid s = 0
    \<and> sl_number s = n \<and> sl_company s = company
    \<and> (let t = documentTotals (map2 saleLine rs (cs_items dto))
       in sl_subtotal s = to_fixed2 (mt_subtotal t) \<and> sl_discount s = to_fixed2 (mt_discount t)
        \<and> sl_tax s = to_fixed2 (mt_tax t) \<and> sl_grandTotal s = to_fixed2 (grandTotal t)
        \<and> sl_balance s = to_fixed2 (grandTotal t))"
proof -
  obtain n db1 where g: "generateSaleNumber company (getUTCFullYear d) db = (n, db1)" by fastforce
  have none: "(case creation of None \<Rightarrow> Inr None | Some c \<Rightarrow> findByCreationKey company c db1) = Inr None"
  proof (cases creation)
    case (Some c)
    show ?thesis
    proof (cases "findByCreationKey company c db1")
      case (Inl e)
      with assms(1) Some show ?thesis by (auto simp: createSaleTx_def g)
    next
      case (Inr r)
      show ?thesis
      proof (cases r)
        case (Some x)
        with assms(1) Inr \<open>creation = _\<close> have "s = x" by (auto simp: createSaleTx_def g)
        with Some Inr findByCreationKey_mem [of company c db1 x] generateSaleNumber_frame [OF g] assms(3)
        show ?thesis by simp
      qed (simp add: \<open>creation = _\<close> Inr)
    qed
  qed simp
  from assms(1,2) obtain t rows where loop:
      "forEach (priceItem cat company (resolveDefaultPriceListId cat company) d) (cs_items dto)
         (zeroTotals, []) = Inr (t, rows)"
    and s: "sl_id s = rowIds db1" "sl_status s = SaleDraft" "sl_fulfillment s = None" "sl_paid s = 0"
      "sl_number s = n" "sl_company s = company"
      "sl_subtotal s = to_fixed2 (mt_subtotal t)" "sl_discount s = to_fixed2 (mt_discount t)"
      "sl_tax s = to_fixed2 (mt_tax t)" "sl_grandTotal s = to_fixed2 (grandTotal t)"
      "sl_balance s = to_fixed2 (grandTotal t)"
    and db': "db' = fold (insertSaleItem (sl_id s)) rows
        (db1\<lparr>sales := sales db1 @ [s], rowIds := rowIds db1 + 1\<rparr>)"
    by (auto simp: createSaleTx_def g none promotionDiscount_def insertSale_def Let_def split: if_splits)
  from priceItems_loop [OF loop] obtain rs where
    "list_all2 (pricedAs cat company (resolveDefaultPriceListId cat company) d) (cs_items dto) rs"
    "t = documentTotals (map2 saleLine rs (cs_items dto))" "rows = map2 saleRow rs (cs_items dto)"
    by (auto simp: documentTotals_def)
  with g s db' show ?thesis
    by (intro exI [of _ n] exI [of _ db1] exI [of _ rs]) (simp add: Let_def)
qed

text \<open>With or without a promotion, the items are the priced rows.\<close>

lemma createSaleTx_rows:
  assumes "createSaleTx cat company user dto None d db = Inr (s, db')"
  shows "\<exists>db3 rs. list_all2 (pricedAs cat company (resolveDefaultPriceListId cat company) (sl_date s))
      (cs_items dto) rs
    \<and> db' = fold (insertSaleItem (sl_id s)) (map2 saleRow rs (cs_items dto)) db3
    \<and> saleItems db3 = saleItems db \<and> sl_id s = rowIds db"
proof -
  obtain n db1 where g: "generateSaleNumber company (getUTCFullYear d) db = (n, db1)" by fastforce
  note fr = generateSaleNumber_frame [OF g]
  from assms obtain t rows t' pid db2 where
      loop: "forEach (priceItem cat company (resolveDefaultPriceListId cat company) d) (cs_items dto)
         (zeroTotals, []) = Inr (t, rows)"
    and s: "sl_id s = rowIds db1" "sl_date s = d" and ins: "insertSale s db1 = Inr db2"
    and db': "db' = fold (insertSaleItem (sl_id s)) rows
        (case pid of None \<Rightarrow> db2 | Some p \<Rightarrow> incrementUsage p db2)"
    by (auto simp: createSaleTx_def g Let_def)
  have "saleItems (case pid of None \<Rightarrow> db2 | Some p \<Rightarrow> incrementUsage p db2) = saleItems db"
    using ins fr by (auto simp: insertSale_def incrementUsage_def split: if_splits option.splits)
  with priceItems_loop [OF loop] s db' fr show ?thesis
    by (intro exI [of _ "case pid of None \<Rightarrow> db2 | Some p \<Rightarrow> incrementUsage p db2"]) auto
qed

text \<open>A run with a key leaves its sale under that key.\<close>

lemma createSaleTx_key:
  assumes "createSaleTx cat company user dto (Some (k, h)) d db = Inr (s, db')"
  shows "findByCreationKey company (k, h) db' = Inr (Some s)"
proof -
  obtain n db1 where g: "generateSaleNumber company (getUTCFullYear d) db = (n, db1)" by fastforce
  show ?thesis
  proof (cases "findByCreationKey company (k, h) db1")
    case (Inl e)
    with assms show ?thesis by (auto simp: createSaleTx_def g)
  next
    case (Inr r)
    show ?thesis
    proof (cases r)
      case (Some x)
      with assms Inr show ?thesis by (auto simp: createSaleTx_def g)
    next
      case None
      from assms Inr None obtain db2 where
        "\<forall>x \<in> set (sales db1). \<not> (sl_company x = company \<and> map_option fst (sl_creation x) = Some k)"
        "sl_company s = company" "sl_creation s = Some (k, h)" "\<not> sl_deleted s"
        "sales db' = sales db1 @ [s]"
        by (auto simp: createSaleTx_def g insertSale_def incrementUsage_def insertSaleItem_frame Let_def
            split: if_splits option.splits)
      moreover from this have "List.find (\<lambda>x. sl_company x = company
          \<and> map_option fst (sl_creation x) = Some k) (sales db1) = None"
        by (simp add: find_None_iff)
      ultimately show ?thesis
        by (simp add: findByCreationKey_def find_append assertCreationHash_def)
    qed
  qed
qed

text \<open>A run replays a sale or adds a draft with a new identifier and a new number.\<close>

lemma createSaleTx_adds:
  assumes "createSaleTx cat company user dto creation d db = Inr (s, db')"
  shows "sales db' = sales db \<and> rowIds db \<le> rowIds db'
    \<or> sales db' = sales db @ [s] \<and> sl_id s = rowIds db \<and> rowIds db < rowIds db'
      \<and> (\<forall>k \<in> set (sales db). \<not> (sl_company k = sl_company s \<and> sl_number k = sl_number s))
      \<and> sl_status s = SaleDraft \<and> sl_fulfillment s = None \<and> sl_shippedAt s = None \<and> sl_deliveredAt s = None"
proof -
  obtain n db1 where g: "generateSaleNumber company (getUTCFullYear d) db = (n, db1)" by fastforce
  note fr = generateSaleNumber_frame [OF g]
  from assms consider "db' = db1" | rows pid db2 where "insertSale s db1 = Inr db2"
    "db' = fold (insertSaleItem (sl_id s)) rows (case pid of None \<Rightarrow> db2 | Some p \<Rightarrow> incrementUsage p db2)"
    "sl_id s = rowIds db1" "sl_status s = SaleDraft" "sl_fulfillment s = None" "sl_shippedAt s = None"
    "sl_deliveredAt s = None"
    by (fastforce simp: createSaleTx_def g Let_def split: option.splits)
  then show ?thesis
  proof cases
    case 1
    with fr show ?thesis by simp
  next
    case 2
    let ?d = "case pid of None \<Rightarrow> db2 | Some p \<Rightarrow> incrementUsage p db2"
    have d: "sales ?d = sales db2" "rowIds ?d = rowIds db2"
      by (simp_all add: incrementUsage_def split: option.splits)
    have "rowIds ?d \<le> rowIds db'" unfolding 2(2) by (rule insertSaleItem_frame)
    then have "sales db' = sales db2" "rowIds db2 \<le> rowIds db'" using d by (simp_all add: 2(2) insertSaleItem_frame)
    with 2 fr show ?thesis by (auto simp: insertSale_def split: if_splits)
  qed
qed

text \<open>Without a retry key the service only validates before its transaction.\<close>

lemma createSale_None:
  assumes "createSale org cat company user dto None now db = Inr (s, db')"
  shows "createSaleTx cat company user dto None (case cs_date dto of None \<Rightarrow> now | Some d \<Rightarrow> d) db
    = Inr (s, db')"
  using assms unfolding createSale_def andThen_simps option.case Let_def
  by (auto split: sum.splits error.splits)

lemma createSale_new:
  assumes "createSale org cat company user dto creation now db = Inr (s, db')" "s \<notin> set (sales db)"
  shows "createSaleTx cat company user dto creation (case cs_date dto of None \<Rightarrow> now | Some d \<Rightarrow> d) db
    = Inr (s, db')"
  using assms findByCreationKey_mem [of company _ db s] unfolding createSale_def Let_def
  by (auto split: sum.splits error.splits option.splits)

section \<open>The lines\<close>

lemma resolveItemPricing_cases:
  assumes "resolveItemPricing cat company dl d i = Inr r"
  shows "\<exists>pl. resolveActivePrice cat company pl (sd_variant i) (map_option us_uom (ri_selection r))
      (date_key d) = Some (ri_price r)
    \<and> resolvePriceListId cat (sd_priceList i) company dl = Inr pl
    \<and> resolveSelectionForUsage cat (ri_variant r) company UsageSales (sd_uom i) = Inr (ri_selection r)
    \<and> computeBaseQuantity (sd_quantity i) (selectedFactor (ri_selection r)) = Inr (ri_baseQuantity r)
    \<and> pi_status (ri_price r) = Active"
  using assms by (auto simp: resolveItemPricing_def split: option.splits if_splits)

lemma resolveItemPricing_price:
  assumes "resolveItemPricing cat company dl d i = Inr r"
  shows "ri_price r \<in> set (priceItems cat)"
  using resolveItemPricing_cases [OF assms] by (auto simp: resolveActivePrice_def dest!: find_SomeD)

lemma saleRow_money:
  assumes "0 \<le> ml_discount (saleLine r i)" "0 \<le> ml_tax (saleLine r i)"
    and "ml_discount (saleLine r i) \<le> B" "ml_tax (saleLine r i) \<le> B" "fits B 1"
  shows "money_line.truncate (saleRow r i) = saleLine r i"
proof -
  have "to_fixed2 (js_num c) = c" if "0 \<le> c" "c \<le> B" for c
    using that assms(5) by (intro to_fixed2_near [OF near_num]) auto
  with assms show ?thesis
    by (simp add: money_line.truncate_def saleRow_def Let_def)
qed

lemma saleRow_lineTotal [simp]: "si_lineTotal (saleRow r i) = to_fixed2 (lineTotal (saleLine r i))"
  by (simp add: saleRow_def Let_def)

text \<open>All items of a request, when the stored amounts are known to stay within \<open>B\<close>.\<close>

lemma lines_ok:
  assumes rs: "list_all2 (pricedAs cat company dl d) items rs"
    and rq: "\<forall>i \<in> set items. 1 \<le> sd_quantity i
      \<and> (\<forall>x. sd_discount i = Some x \<longrightarrow> 0 \<le> x \<and> x \<le> B) \<and> (\<forall>t. sd_tax i = Some t \<longrightarrow> 0 \<le> t \<and> t \<le> B)"
    and pos: "\<forall>p \<in> set (priceItems cat). 0 \<le> pi_price p"
    and B: "fits B 3" "sumGross (map2 saleLine rs items) \<le> B"
  shows "(\<forall>l \<in> set (map2 saleLine rs items). line_ok l)
    \<and> map money_line.truncate (map2 saleRow rs items) = map2 saleLine rs items"
  using rs rq B(2)
proof (induction rule: list_all2_induct)
  case (Cons i items r rs)
  let ?l = "saleLine r i"
  have priced: "resolveItemPricing cat company dl d i = Inr r" "assertDiscountFits ?l = Inr ()"
    using Cons.hyps by (simp_all add: pricedAs_def)
  have B0: "0 \<le> B" using B(1) by (simp add: fits_def)
  have l: "0 \<le> ml_price ?l" "0 \<le> ml_quantity ?l" "0 \<le> ml_discount ?l" "0 \<le> ml_tax ?l"
      "ml_discount ?l \<le> B" "ml_tax ?l \<le> B"
    using resolveItemPricing_price [OF priced(1)] pos Cons.prems(1) B0
    by (simp_all add: saleLine_def split: option.splits)
  have nn: "0 \<le> sumGross (map2 saleLine rs items)"
    unfolding sumGross_def
  proof (rule sum_list_nonneg_map)
    fix l assume "l \<in> set (map2 saleLine rs items)"
    then obtain r' i' where l': "l = saleLine r' i'" "(r', i') \<in> set (zip rs items)" by auto
    then have i': "i' \<in> set items" "r' \<in> set rs" by (auto dest: set_zip_leftD set_zip_rightD)
    from l'(2) Cons.hyps(2) have "pricedAs cat company dl d i' r'"
      by (auto simp: list_all2_conv_all_nth set_zip)
    then have "ri_price r' \<in> set (priceItems cat)"
      using resolveItemPricing_price [of cat company dl d i' r'] by (simp add: pricedAs_def)
    then show "0 \<le> gross l" using pos Cons.prems(1) i'
      by (force simp: l'(1) gross_def saleLine_def intro!: mult_nonneg_nonneg)
  qed
  then have g: "gross ?l \<le> B" using Cons.prems(2) by simp
  have "ml_discount ?l \<le> gross ?l"
    using assertDiscountFits_sound [OF l(1,2,3) g l(5) B(1) priced(2)] .
  with l have "line_ok ?l" by (simp add: line_ok_def)
  moreover have "money_line.truncate (saleRow r i) = ?l"
    using l fits_mono [OF B(1), of 1] by (intro saleRow_money) auto
  moreover have "0 \<le> gross ?l" using l by (simp add: gross_def)
  ultimately show ?case using Cons by simp
qed simp

lemma line_le_sums:
  assumes "\<forall>l \<in> set ls. line_ok l" "l \<in> set ls"
  shows "gross l \<le> sumGross ls" "ml_tax l \<le> sumTax ls"
  using assms(1) unfolding sumGross_def sumTax_def
  by (auto intro!: member_le_sum_map assms(2) simp: gross_nonneg line_ok_def)

section \<open>A concrete sale\<close>

text \<open>Three pieces at 12.50 with a discount of 2.50 and a tax of 0.50, from a stock of five.\<close>

definition demo_org_shop :: org_db where
  "demo_org_shop = demo_org_wh\<lparr>customers := [5 \<mapsto> \<lparr>cu_company = 1, cu_status = PActive,
     cu_receivableAccount = None\<rparr>]\<rparr>"

definition demo_shop :: sales_db where
  "demo_shop = \<lparr>warehouseStock = [(2, 20) \<mapsto> \<lparr>onHandQuantity = 5, reservedQuantity = 0\<rparr>],
     stockMovements = stockMovements demo_stock5, rowIds = 102, stockAdjustments = stockAdjustments demo_stock5,
     stockTransfers = [], transferItems = [], adjustmentCounters = adjustmentCounters demo_stock5,
     transferCounters = Map.empty, promotions = [], loyaltyPrograms = [], pointsRows = [], sales = [],
     saleItems = [], saleCounters = Map.empty, salesAccounts = Map.empty, salesAssignments = []\<rparr>"

definition demo_sale_item :: sale_item_dto where
  "demo_sale_item = \<lparr>sd_variant = 20, sd_uom = None, sd_quantity = 3, sd_priceList = None,
     sd_discount = Some 250, sd_tax = Some 50\<rparr>"

definition demo_sale_dto :: create_sale_dto where
  "demo_sale_dto = \<lparr>cs_type = None, cs_customer = 5, cs_salesAccount = None, cs_branch = None,
     cs_warehouse = Some 2, cs_date = None, cs_items = [demo_sale_item], cs_promotion = None,
     cs_currency = ''USD''\<rparr>"

definition demo_sale :: sale where
  "demo_sale = \<lparr>sl_id = 102, sl_creation = None, sl_number = formatSaleNumber 2026 1, sl_type = Retail,
     sl_customer = 5, sl_salesAccount = None, sl_company = 1, sl_branch = None, sl_warehouse = Some 2,
     sl_date = ((2026, 2, 1), 0), sl_status = SaleDraft, sl_subtotal = 3750, sl_discount = 250,
     sl_tax = 50, sl_grandTotal = 3550, sl_paid = 0, sl_balance = 3550, sl_currency = ''USD'',
     sl_fulfillment = None, sl_shippedAt = None, sl_deliveredAt = None, sl_createdBy = 9,
     sl_updatedBy = 9, sl_deleted = False\<rparr>"

definition demo_line :: sale_item where
  "demo_line = \<lparr>ml_price = 1250, ml_quantity = 3, ml_discount = 250, ml_tax = 50, si_variant = 20,
     si_uom = Some 30, si_baseQuantity = 3, si_factor = 10000, si_lineTotal = 3550,
     si_productName = ''Tee'', si_sku = ''TEE-M'', si_id = 103, si_sale = 102\<rparr>"

definition demo_shop1 :: sales_db where
  "demo_shop1 = demo_shop\<lparr>sales := [demo_sale], saleItems := [demo_line],
     saleCounters := [(1, 2026) \<mapsto> 1], rowIds := 104\<rparr>"

lemma demo_numbers:
  "js_num 0 = 0" "js_num 1250 = 25 / 2" "js_num 250 = 5 / 2" "js_num 50 = 1 / 2"
  "js_mul (25 / 2) 3 = 75 / 2" "js_sub (75 / 2) (5 / 2) = 35" "js_add 35 (1 / 2) = 71 / 2"
  "js_add 0 (75 / 2) = 75 / 2" "js_add 0 (5 / 2) = 5 / 2" "js_add 0 (1 / 2) = 1 / 2"
  "to_fixed2 (75 / 2) = 3750" "to_fixed2 (5 / 2) = 250" "to_fixed2 (1 / 2) = 50"
  "to_fixed2 (71 / 2) = 3550"
  using fl_half [of 25] fl_half [of 5] fl_half [of 1] fl_half [of 75] fl_half [of 71]
  by (simp_all add: js_defs to_fixed2_def)

lemma demo_resolve:
  "resolveItemPricing demo_catalog 1 (Some 40) ((2026, 2, 1), 0) demo_sale_item
    = Inr \<lparr>ri_variant = demo_variant, ri_selection = Some \<lparr>us_uom = 30, us_code = ''PC'',
        us_name = ''Piece'', us_factor = 10000, us_usage = UsageBoth, us_isBase = True\<rparr>, ri_baseQuantity = 3,
        ri_price = demo_price\<rparr>"
  using computeBaseQuantity_exact [of 3 10000]
  by (simp add: resolveItemPricing_def demo_catalog_def demo_catalog1_def demo_catalog0_def
      demo_variant_def demo_sale_item_def demo_box_def demo_price_def resolveSelectionForUsage_def
      findActiveUomOrThrow_def findMapping_def isUsageAllowed_def selectedFactor_def resolvePriceListId_def
      resolveActivePrice_def priceMatches_def priceCovers_def livePrice_def beforeEnd_def Let_def)

lemma demo_createAs:
  assumes s: "s = demo_sale\<lparr>sl_creation := c\<rparr>" and db': "db' = demo_shop1\<lparr>sales := [s]\<rparr>"
  shows "createSale demo_org_shop demo_catalog 1 9 demo_sale_dto c ((2026, 2, 1), 0) demo_shop = Inr (s, db')"
proof -
  let ?r = "\<lparr>ri_variant = demo_variant, ri_selection = Some \<lparr>us_uom = 30, us_code = ''PC'',
      us_name = ''Piece'', us_factor = 10000, us_usage = UsageBoth, us_isBase = True\<rparr>, ri_baseQuantity = 3,
      ri_price = demo_price\<rparr>"
  have l: "saleLine ?r demo_sale_item = \<lparr>ml_price = 1250, ml_quantity = 3, ml_discount = 250, ml_tax = 50\<rparr>"
    by (simp add: saleLine_def demo_sale_item_def demo_price_def)
  have p: "priceItem demo_catalog 1 (Some 40) ((2026, 2, 1), 0) demo_sale_item (zeroTotals, [])
      = Inr (\<lparr>mt_subtotal = 75 / 2, mt_discount = 5 / 2, mt_tax = 1 / 2\<rparr>, [saleRow ?r demo_sale_item])"
    unfolding priceItem_def demo_resolve
    by (simp add: l Let_def assertNonNegative_def assertDiscountFits_def lineSubtotal_def addLine_def
        zeroTotals_def demo_numbers)
  have dl: "resolveDefaultPriceListId demo_catalog 1 = Some 40"
    by (simp add: resolveDefaultPriceListId_def demo_catalog_def demo_catalog1_def demo_catalog0_def)
  have v: "assertVariantActive demo_catalog 1 20 = Inr ()"
    by (simp add: assertVariantActive_def findVariantInCompany_def demo_catalog_def demo_catalog1_def
        demo_catalog0_def demo_variant_def)
  have row: "saleRow ?r demo_sale_item = \<lparr>ml_price = 1250, ml_quantity = 3, ml_discount = 250,
      ml_tax = 50, si_variant = 20, si_uom = Some 30, si_baseQuantity = 3, si_factor = 10000,
      si_lineTotal = 3550, si_productName = ''Tee'', si_sku = ''TEE-M''\<rparr>"
  proof -
    have "pv_productName demo_variant = ''Tee''" "pv_sku demo_variant = ''TEE-M''"
      "sd_variant demo_sale_item = 20" by (simp_all add: demo_variant_def demo_sale_item_def)
    then show ?thesis
      by (simp add: saleRow_def l Let_def lineTotal_def lineSubtotal_def demo_numbers selectedFactor_def)
  qed
  have g: "generateSaleNumber 1 2026 demo_shop
      = (formatSaleNumber 2026 1, demo_shop\<lparr>saleCounters := [(1, 2026) \<mapsto> 1]\<rparr>)"
    by (simp add: generateSaleNumber_def next_sequence_eq last_sequence_def demo_shop_def)
  have key: "(case c of None \<Rightarrow> Inr None | Some c \<Rightarrow> findByCreationKey 1 c d) = Inr None"
    if "sales d = []" for d :: sales_db
    using that by (cases c) (simp_all add: findByCreationKey_def)
  have e: "sales demo_shop = []" by (simp add: demo_shop_def)
  have "createSaleTx demo_catalog 1 9 demo_sale_dto c ((2026, 2, 1), 0) demo_shop = Inr (s, db')"
    unfolding s db' by (simp add: createSaleTx_def key e demo_sale_dto_def getUTCFullYear_def g dl p row promotionDiscount_def
        grandTotal_def demo_numbers insertSale_def Let_def del: One_nat_def)
      (simp add: demo_shop1_def demo_sale_def demo_line_def insertSaleItem_def demo_shop_def)
  then show ?thesis
    by (simp add: createSale_def key e demo_sale_dto_def demo_sale_item_def v demo_org_shop_def demo_org_wh_def
        assertBranchIfGiven_def assertValidWarehouse_def findWarehouse_def assertValidCustomer_def
        del: One_nat_def)
qed

lemma demo_createSale:
  "createSale demo_org_shop demo_catalog 1 9 demo_sale_dto None ((2026, 2, 1), 0) demo_shop
    = Inr (demo_sale, demo_shop1)"
  by (rule demo_createAs) (simp_all add: demo_sale_def demo_shop1_def)


lemma demo_create_key:
  "createSale demo_org_shop demo_catalog 1 9 demo_sale_dto (Some (''k'', ''h'')) ((2026, 2, 1), 0) demo_shop
    = Inr (demo_sale\<lparr>sl_creation := Some (''k'', ''h'')\<rparr>,
        demo_shop1\<lparr>sales := [demo_sale\<lparr>sl_creation := Some (''k'', ''h'')\<rparr>]\<rparr>)"
  by (rule demo_createAs) simp_all

section \<open>Properties\<close>

text \<open>C13: the money columns of a new sale without a promotion are exact, whether or not the request has a
  creation key. The stored subtotal, discount, tax and grand total are the sums over the stored items, to the
  cent, every discount is within its line, every line total is its line, and the balance is the grand total.
  The condition of size: the gross amount and the tax of the items are at most \<open>B\<close> cents, and ten roundings
  per line of amounts up to \<open>B\<close> stay below half a cent, as with 400 items and ten billion units. With a
  promotion the discount is a fraction of a cent in general, and these equations do not hold.\<close>

theorem sale_totals_exact:
  assumes run: "createSale org cat company user dto creation now db = Inr (s, db')"
    and new: "s \<notin> set (sales db)"
    and promo: "cs_promotion dto = None"
    and rq: "request_within B dto"
    and pos: "\<forall>p \<in> set (priceItems cat). 0 \<le> pi_price p"
    and ids: "\<forall>x \<in> set (saleItems db). si_sale x < rowIds db"
    and B: "sumGross (itemsOfSale (sl_id s) db') + sumTax (itemsOfSale (sl_id s) db') \<le> B"
      "fits B (10 * length (cs_items dto) + 20)"
  shows "(\<forall>x \<in> set (itemsOfSale (sl_id s) db'). line_ok x
      \<and> si_lineTotal x = gross x - ml_discount x + ml_tax x)
    \<and> sl_subtotal s = sumGross (itemsOfSale (sl_id s) db')
    \<and> sl_discount s = sumDiscount (itemsOfSale (sl_id s) db')
    \<and> sl_tax s = sumTax (itemsOfSale (sl_id s) db')
    \<and> sl_grandTotal s = sl_subtotal s - sl_discount s + sl_tax s
    \<and> sl_balance s = sl_grandTotal s \<and> sl_paid s = 0"
proof -
  let ?d = "case cs_date dto of None \<Rightarrow> now | Some d \<Rightarrow> d"
  let ?dl = "resolveDefaultPriceListId cat company"
  from createSaleTx_new [OF createSale_new [OF run new] promo new] obtain n db1 rs where
    n: "generateSaleNumber company (getUTCFullYear ?d) db = (n, db1)"
    and rs: "list_all2 (pricedAs cat company ?dl ?d) (cs_items dto) rs"
    and db': "db' = fold (insertSaleItem (rowIds db1)) (map2 saleRow rs (cs_items dto))
        (db1\<lparr>sales := sales db1 @ [s], rowIds := rowIds db1 + 1\<rparr>)"
    and s: "sl_id s = rowIds db1" "sl_paid s = 0"
    and t: "sl_subtotal s = to_fixed2 (mt_subtotal (documentTotals (map2 saleLine rs (cs_items dto))))"
      "sl_discount s = to_fixed2 (mt_discount (documentTotals (map2 saleLine rs (cs_items dto))))"
      "sl_tax s = to_fixed2 (mt_tax (documentTotals (map2 saleLine rs (cs_items dto))))"
      "sl_grandTotal s = to_fixed2 (grandTotal (documentTotals (map2 saleLine rs (cs_items dto))))"
      "sl_balance s = to_fixed2 (grandTotal (documentTotals (map2 saleLine rs (cs_items dto))))"
    unfolding Let_def by blast
  define ls where "ls = map2 saleLine rs (cs_items dto)"
  define rows where "rows = map2 saleRow rs (cs_items dto)"
  let ?items = "itemsOfSale (sl_id s) db'"
  have f: "fits B k" if "k \<le> 20" for k using fits_mono [OF B(2)] that by simp
  have "\<forall>x \<in> set (saleItems (db1\<lparr>sales := sales db1 @ [s], rowIds := rowIds db1 + 1\<rparr>)). si_sale x \<noteq> rowIds db1"
    using ids generateSaleNumber_frame [OF n] by auto
  from itemsOfSale_new [OF this, of rows]
  have items: "map money_line.truncate ?items = map money_line.truncate rows"
      "map si_lineTotal ?items = map si_lineTotal rows"
    by (simp_all add: s db' rows_def)
  have len: "length rs = length (cs_items dto)" using list_all2_lengthD [OF rs] by simp
  have gr: "sumGross rows = sumGross ls"
    by (simp add: rows_def ls_def sumGross_def gross_def saleRow_def Let_def o_def split_def)
  have tx: "0 \<le> sumTax rows"
    unfolding sumTax_def
  proof (rule sum_list_nonneg_map)
    fix x assume "x \<in> set rows"
    then obtain r i where x: "x = saleRow r i" and i: "i \<in> set (cs_items dto)"
      by (auto simp: rows_def dest: set_zip_rightD)
    have "0 \<le> ml_tax (saleLine r i)" "ml_tax (saleLine r i) \<le> B"
      using i rq f [of 0] by (auto simp: saleLine_def request_within_def fits_def split: option.splits)
    then have "to_fixed2 (js_num (ml_tax (saleLine r i))) = ml_tax (saleLine r i)"
      using f [of 1] by (intro to_fixed2_near [OF near_num]) auto
    then show "0 \<le> ml_tax x" using \<open>0 \<le> ml_tax (saleLine r i)\<close> by (simp add: x saleRow_def Let_def)
  qed
  have sums: "sumGross ?items = sumGross rows" "sumDiscount ?items = sumDiscount rows"
      "sumTax ?items = sumTax rows"
    using sums_truncate [of ?items] sums_truncate [of rows] by (simp_all add: items)
  have lines: "(\<forall>l \<in> set ls. line_ok l) \<and> map money_line.truncate rows = ls"
    unfolding ls_def rows_def using rq B(1) gr tx f [of 3]
    by (intro lines_ok [OF rs _ pos, of B]) (simp_all add: request_within_def sums rows_def ls_def)
  then have sums': "sumGross ?items = sumGross ls" "sumDiscount ?items = sumDiscount ls"
      "sumTax ?items = sumTax ls"
    using sums sums_truncate [of rows] by simp_all
  have "document_fits B ls"
    using lines B sums' len by (simp add: document_fits_def ls_def)
  note exact = document_totals_exact [OF this]
  have all: "line_ok x \<and> si_lineTotal x = gross x - ml_discount x + ml_tax x" if x: "x \<in> set ?items" for x
  proof -
    from x obtain k where k: "k < length ?items" "x = ?items ! k" by (auto simp: in_set_conv_nth)
    have lk: "length ?items = length rows" using arg_cong [OF items(2), of length] by simp
    have xt: "money_line.truncate x = ls ! k" "ls ! k \<in> set ls"
      using k lk lines items(1) by (metis length_map nth_map nth_mem)+
    have xl: "si_lineTotal x = to_fixed2 (lineTotal (ls ! k))"
      using k lk arg_cong [OF items(2), of "\<lambda>l. l ! k"] len by (simp add: rows_def ls_def)
    have le: "gross (ls ! k) \<le> sumGross ls" "ml_tax (ls ! k) \<le> sumTax ls"
      using line_le_sums [of ls] lines xt(2) by simp_all
    have "to_fixed2 (lineTotal (ls ! k)) = gross (ls ! k) - ml_discount (ls ! k) + ml_tax (ls ! k)"
      using lines xt(2) le B(1) sums' f [of 6] by (intro lineTotal_exact [of _ B]) auto
    then show ?thesis using xl lines xt truncate_money [of x] by metis
  qed
  then show ?thesis using t exact s sums' by (simp add: ls_def)
qed

theorem sale_totals_exact_witness:
  "sl_grandTotal demo_sale = sumGross [demo_line] - sumDiscount [demo_line] + sumTax [demo_line]"
  using sale_totals_exact [OF demo_create_key, of "10 ^ 10"]
  by (simp add: demo_sale_dto_def demo_sale_item_def request_within_def demo_catalog_def
      demo_catalog1_def demo_catalog0_def demo_price_def demo_shop_def demo_shop1_def demo_sale_def
      demo_line_def itemsOfSale_def gross_def fits_def)

text \<open>A sale never takes a price from the request. Every stored item of a new sale carries the
  requested variant and quantity, the price of an active row of the resolved price list whose
  window covers the sale date and whose unit is the item's, and a base quantity that is exactly
  quantity times factor.\<close>

theorem sale_prices_from_price_list:
  assumes run: "createSale org cat company user dto None now db = Inr (s, db')"
    and cat: "catalog_reachable cat0 cat"
    and qty: "\<forall>i \<in> set (cs_items dto). 1 \<le> sd_quantity i"
    and size: "\<forall>x \<in> set (itemsOfSale (sl_id s) db'). 0 < si_factor x \<and> ml_quantity x * si_factor x \<le> 4 * 10 ^ 10"
    and ids: "\<forall>x \<in> set (saleItems db). si_sale x < rowIds db"
  shows "list_all2 (\<lambda>i x. si_variant x = sd_variant i \<and> ml_quantity x = sd_quantity i
      \<and> 10000 * si_baseQuantity x = sd_quantity i * si_factor x
      \<and> (\<exists>pl. resolvePriceListId cat (sd_priceList i) company (resolveDefaultPriceListId cat company) = Inr pl
          \<and> (\<exists>p \<in> set (priceItems cat). priceMatches company pl (sd_variant i) p
              \<and> priceCovers (si_uom x) (date_key (sl_date s)) p \<and> ml_price x = pi_price p)))
    (cs_items dto) (itemsOfSale (sl_id s) db')"
proof -
  let ?dl = "resolveDefaultPriceListId cat company"
  from createSaleTx_rows [OF createSale_None [OF run]] obtain db3 rs where
    rs: "list_all2 (pricedAs cat company ?dl (sl_date s)) (cs_items dto) rs"
    and db': "db' = fold (insertSaleItem (sl_id s)) (map2 saleRow rs (cs_items dto)) db3"
    and db3: "saleItems db3 = saleItems db" "sl_id s = rowIds db" by blast
  have "\<forall>x \<in> set (saleItems db3). si_sale x \<noteq> sl_id s" using ids db3 by auto
  from itemsOfSale_new(3) [OF this]
  have items: "map sale_row.truncate (itemsOfSale (sl_id s) db') = map2 saleRow rs (cs_items dto)"
    by (simp add: db')
  have len: "length rs = length (cs_items dto)" using list_all2_lengthD [OF rs] by simp
  show ?thesis
  proof (rule list_all2_all_nthI)
    show "length (cs_items dto) = length (itemsOfSale (sl_id s) db')"
      using arg_cong [OF items, of length] len by simp
    fix k assume k: "k < length (cs_items dto)"
    let ?i = "cs_items dto ! k" and ?x = "itemsOfSale (sl_id s) db' ! k" and ?r = "rs ! k"
    have kx: "k < length (itemsOfSale (sl_id s) db')" using arg_cong [OF items, of length] len k by simp
    have "sale_row.truncate ?x = saleRow ?r ?i"
      using arg_cong [OF items, of "\<lambda>l. l ! k"] k kx len by simp
    then have x: "ml_price ?x = pi_price (ri_price ?r)" "ml_quantity ?x = sd_quantity ?i"
      "si_variant ?x = sd_variant ?i" "si_uom ?x = map_option us_uom (ri_selection ?r)"
      "si_baseQuantity ?x = ri_baseQuantity ?r" "si_factor ?x = selectedFactor (ri_selection ?r)"
      by (simp_all add: sale_row.truncate_def saleRow_def saleLine_def Let_def)
    have "resolveItemPricing cat company ?dl (sl_date s) ?i = Inr ?r"
      using list_all2_nthD [OF rs k] by (simp add: pricedAs_def)
    from resolveItemPricing_cases [OF this] obtain pl where
      p: "resolveActivePrice cat company pl (sd_variant ?i) (si_uom ?x) (date_key (sl_date s)) = Some (ri_price ?r)"
      "resolvePriceListId cat (sd_priceList ?i) company ?dl = Inr pl"
      "computeBaseQuantity (sd_quantity ?i) (si_factor ?x) = Inr (si_baseQuantity ?x)"
      by (auto simp: x)
    have "0 < sd_quantity ?i" "0 < si_factor ?x" "sd_quantity ?i * si_factor ?x \<le> 4 * 10 ^ 10"
      using qty size nth_mem [OF k] nth_mem [OF kx] x(2) by force+
    from computeBaseQuantity_exact [OF this] p(3)
    have "10000 * si_baseQuantity ?x = sd_quantity ?i * si_factor ?x" by (auto split: if_splits)
    moreover have "prices_ok cat" using catalog_reachable_ok [OF cat] by simp
    ultimately show "si_variant ?x = sd_variant ?i \<and> ml_quantity ?x = sd_quantity ?i
      \<and> 10000 * si_baseQuantity ?x = sd_quantity ?i * si_factor ?x
      \<and> (\<exists>pl. resolvePriceListId cat (sd_priceList ?i) company ?dl = Inr pl
          \<and> (\<exists>p \<in> set (priceItems cat). priceMatches company pl (sd_variant ?i) p
              \<and> priceCovers (si_uom ?x) (date_key (sl_date s)) p \<and> ml_price ?x = pi_price p))"
      using p x(1-3) resolveActivePrice_iff by blast
  qed
qed

theorem sale_prices_from_price_list_witness:
  "si_variant demo_line = sd_variant demo_sale_item
    \<and> (\<exists>p \<in> set (priceItems demo_catalog). ml_price demo_line = pi_price p)"
  using sale_prices_from_price_list [OF demo_createSale demo_catalog_reachable]
  by (simp add: demo_sale_dto_def demo_sale_item_def demo_shop_def demo_shop1_def demo_sale_def
      demo_line_def itemsOfSale_def) blast

text \<open>C14: a creation key is used once. After a create with a key and a request hash, every create of
  the company with that key returns the same sale and changes nothing if the hash is the same, and
  is a conflict otherwise, whatever else the request says.\<close>

theorem creation_key_replays:
  assumes "createSale org cat company user dto (Some (k, h)) now db = Inr (s, db')"
  shows "createSale org2 cat2 company user2 dto2 (Some (k, h2)) now2 db' =
    (if h2 = h then Inr (s, db') else Inl (AppException Conflict))"
proof -
  have replay: "createSale org2 cat2 company user2 dto2 (Some (k, h2)) now2 d =
      (if h2 = h then Inr (s, d) else Inl (AppException Conflict))"
    if "findByCreationKey company (k, h) d = Inr (Some s)" for d :: "'b sales_db_scheme"
    using that by (auto simp: createSale_def findByCreationKey_def assertCreationHash_def
        split: option.splits if_splits)
  have "findByCreationKey company (k, h) db' = Inr (Some s)"
  proof (cases "findByCreationKey company (k, h) db")
    case (Inr r)
    show ?thesis
    proof (cases r)
      case (Some x)
      then show ?thesis using assms Inr by (simp add: createSale_def)
    next
      case None
      let ?d = "case cs_date dto of None \<Rightarrow> now | Some d \<Rightarrow> d"
      have "createSaleTx cat company user dto (Some (k, h)) ?d db = Inr (s, db')
        \<or> findByCreationKey company (k, h) db = Inr (Some s)"
        using assms Inr None unfolding createSale_def
        by (auto simp: Let_def split: sum.splits error.splits option.splits)
      then show ?thesis using Inr None createSaleTx_key [of cat company user dto k h ?d db s db'] by auto
    qed
  qed (use assms in \<open>simp add: createSale_def\<close>)
  then show ?thesis by (rule replay)
qed

theorem creation_key_replays_witness:
  "\<exists>s db'. createSale demo_org_shop demo_catalog 1 9 demo_sale_dto (Some (''k'', ''h'')) ((2026, 2, 1), 0)
      demo_shop = Inr (s, db')
    \<and> createSale demo_org_shop demo_catalog 1 9 demo_sale_dto (Some (''k'', ''h'')) ((2026, 2, 2), 0) db'
      = Inr (s, db')
    \<and> createSale demo_org_shop demo_catalog 1 9 demo_sale_dto (Some (''k'', ''x'')) ((2026, 2, 2), 0) db'
      = Inl (AppException Conflict)"
  using creation_key_replays [OF demo_create_key] demo_create_key by simp

text \<open>A discount of exactly the whole line can be refused: a hundred pieces at 0.57 are 57.00, but
  the product of doubles is a little below 57, so the discount of 57.00 is rejected although it does
  not exceed the line.\<close>

theorem full_discount_refused:
  "assertDiscountFits \<lparr>ml_price = 57, ml_quantity = 100, ml_discount = 5700, ml_tax = 0\<rparr>
      = Inl (AppException ValidationError)
    \<and> line_ok \<lparr>ml_price = 57, ml_quantity = 100, ml_discount = 5700, ml_tax = 0\<rparr>"
proof -
  have "js_num 57 = of_int 5134103575202365 / 2 powi (52 - (- 1))"
    unfolding js_num_def by (rule fl_eqI) (use binade_lt1 [of "57 / 100" 0] in \<open>simp_all add: power_int_def\<close>)
  then have p: "js_num 57 = 5134103575202365 / 2 ^ 53" by (simp add: power_int_def)
  have "fl (js_num 57 * 100) = of_int 8022036836253695 / 2 powi (52 - 5)"
    unfolding p by (rule fl_eqI) (use binade_ge1 [of 5 "5134103575202365 / 2 ^ 53 * 100"] in \<open>simp_all add: power_int_def\<close>)
  then have "js_mul (js_num 57) 100 < 57" by (simp add: js_mul_def power_int_def)
  moreover have "js_num 5700 = 57" using fl_of_int [of 57] by (simp add: js_num_def)
  ultimately show ?thesis by (simp add: assertDiscountFits_def lineSubtotal_def line_ok_def gross_def)
qed

end
