(* ===== verification/Stock_Moves.thy ===== *)
theory Stock_Moves
  imports Stock_Documents
begin

text \<open>
  The contract shared by the document services that move one locked stock row per item: sale
  confirmation, sale return confirmation and purchase return completion
  (\<open>sales.service.ts\<close>, \<open>sale-returns.service.ts\<close>, \<open>purchase-returns.service.ts\<close>). The locale
  \<open>stock_line_step\<close> states what one turn of their loop promises; the laws of the whole loop are proved
  once.
\<close>

text \<open>The movement of a list of lines of one warehouse.\<close>

definition lineDelta :: "id \<Rightarrow> ('i \<Rightarrow> id) \<Rightarrow> ('i \<Rightarrow> int) \<Rightarrow> 'i list \<Rightarrow> id \<Rightarrow> id \<Rightarrow> int" where
  "lineDelta wh var delta items w v =
     (if w = wh then sum_list (map delta (filter (\<lambda>i. var i = v) items)) else 0)"

lemma lineDelta_simps [simp]:
  "lineDelta wh var delta [] w v = 0"
  "lineDelta wh var delta (i # items) w v
    = (if w = wh \<and> v = var i then delta i else 0) + lineDelta wh var delta items w v"
  by (auto simp: lineDelta_def)

lemma lineDelta_sort [simp]:
  "lineDelta wh var delta (sort_key var items) w v = lineDelta wh var delta items w v"
  by (simp add: lineDelta_def filter_sort sum_list_sort_key)

lemma lineDelta_distinct:
  assumes "distinct (map var items)" "i \<in> set items"
  shows "lineDelta wh var delta items wh (var i) = delta i"
  using filter_key_distinct [OF assms] by (simp add: lineDelta_def)

lemma lineDelta_none:
  assumes "v \<notin> var ` set items \<or> w \<noteq> wh"
  shows "lineDelta wh var delta items w v = 0"
proof -
  have "w = wh \<Longrightarrow> filter (\<lambda>i. var i = v) items = []" using assms by (intro filter_False) auto
  then show ?thesis by (auto simp: lineDelta_def)
qed

text \<open>Every movement records the balance of its row just after it.\<close>

definition running :: "'a stock_db_scheme \<Rightarrow> stock_movement list \<Rightarrow> bool" where
  "running db ms \<longleftrightarrow> (\<forall>k < length ms. let m = ms ! k in
     mv_after m = level db (mv_warehouse m) (mv_variant m)
       + movementSum (take (Suc k) ms) (mv_warehouse m) (mv_variant m))"

lemma running_Nil [simp]: "running db []"
  by (simp add: running_def)

lemma running_Cons:
  assumes "logs db d [m]" "mv_after m = level d (mv_warehouse m) (mv_variant m)" "running d ms"
  shows "running db (m # ms)"
  unfolding running_def
proof (intro allI impI)
  fix k assume "k < length (m # ms)"
  then show "let x = (m # ms) ! k in mv_after x = level db (mv_warehouse x) (mv_variant x)
      + movementSum (take (Suc k) (m # ms)) (mv_warehouse x) (mv_variant x)"
    using assms by (cases k) (simp_all add: logs_def running_def Let_def)
qed

text \<open>One turn of a loop over items: it appends one movement on the row of its item.\<close>

definition moves_row ::
  "id \<Rightarrow> id \<Rightarrow> int \<Rightarrow> 'a stock_db_scheme \<Rightarrow> 'a stock_db_scheme \<Rightarrow> bool" where
  "moves_row w v d db db' \<longleftrightarrow> stock_frame db db' \<and> rowIds db \<le> rowIds db'
     \<and> (\<exists>m. logs db db' [m] \<and> mv_warehouse m = w \<and> mv_variant m = v \<and> mv_change m = d
           \<and> mv_after m = level db' w v)"

definition moves_rows ::
  "(id \<Rightarrow> id \<Rightarrow> int) \<Rightarrow> 'a stock_db_scheme \<Rightarrow> 'a stock_db_scheme \<Rightarrow> bool" where
  "moves_rows f db db' \<longleftrightarrow> stock_frame db db' \<and> rowIds db \<le> rowIds db'
     \<and> (\<exists>ms. logs db db' ms \<and> running db ms \<and> (\<forall>w v. movementSum ms w v = f w v))"

lemma moves_rows_refl: "(\<And>w v. f w v = 0) \<Longrightarrow> moves_rows f db db"
  unfolding moves_rows_def using logs_refl by fastforce

lemma moves_row_rows:
  assumes "moves_row w v d db e" "moves_rows f e db'"
    and "\<And>x y. g x y = (if x = w \<and> y = v then d else 0) + f x y"
  shows "moves_rows g db db'"
proof -
  from assms(1) obtain m where m: "logs db e [m]" "mv_warehouse m = w" "mv_variant m = v"
    "mv_change m = d" "mv_after m = level e w v" by (auto simp: moves_row_def)
  from assms(2) obtain ms where ms: "logs e db' ms" "running e ms" "\<forall>x y. movementSum ms x y = f x y"
    by (auto simp: moves_rows_def)
  have "logs db db' (m # ms)" using logs_trans [OF m(1) ms(1)] by simp
  moreover have "running db (m # ms)" using m ms(2) by (intro running_Cons) auto
  moreover have "\<forall>x y. movementSum (m # ms) x y = g x y" using m ms(3) assms(3) by auto
  moreover have "stock_frame db db'" "rowIds db \<le> rowIds db'"
    using assms(1,2) stock_frame_trans by (auto simp: moves_row_def moves_rows_def)
  ultimately show ?thesis unfolding moves_rows_def by blast
qed

text \<open>Moving the rows before a state with the same stock.\<close>

lemma moves_rows_logs:
  assumes "moves_rows f db db'"
  shows "\<exists>ms. logs db db' ms \<and> running db ms \<and> (\<forall>w v. movementSum ms w v = f w v)"
    and "level db' w v = level db w v + f w v"
  using assms by (auto simp: moves_rows_def logs_def)

locale stock_turns =
  fixes turn :: "'i \<Rightarrow> 's \<Rightarrow> 's" and proj :: "'s \<Rightarrow> 'a stock_db_scheme" and ready :: "'s \<Rightarrow> 'i \<Rightarrow> bool"
    and wh :: id and var :: "'i \<Rightarrow> id" and delta :: "'i \<Rightarrow> int"
  assumes turn_moves: "ready s i \<Longrightarrow> moves_row wh (var i) (delta i) (proj s) (proj (turn i s))"
    and turn_ready: "ready s i \<Longrightarrow> ready s j \<Longrightarrow> ready (turn i s) j"
begin

lemma fold_turns:
  "\<forall>i \<in> set items. ready s i \<Longrightarrow>
    moves_rows (lineDelta wh var delta items) (proj s) (proj (fold turn items s))"
proof (induction items arbitrary: s)
  case Nil
  then show ?case by (simp add: moves_rows_refl)
next
  case (Cons i items)
  then have "\<forall>j \<in> set items. ready (turn i s) j" using turn_ready by simp
  from Cons.IH [OF this] Cons.prems show ?case
    by (auto intro: moves_row_rows [OF turn_moves])
qed

end

text \<open>The services that lock all rows first and then change the row objects they hold.\<close>

definition row_ready :: "id \<Rightarrow> ('i \<Rightarrow> id) \<Rightarrow> (id \<times> id \<rightharpoonup> stock_row) \<times> 'a stock_db_scheme \<Rightarrow> 'i \<Rightarrow> bool" where
  "row_ready w var s i \<longleftrightarrow> mirrors (fst s) (snd s) \<and> fst s (w, var i) \<noteq> None"

locale stock_line_step =
  fixes turn :: "'i \<Rightarrow> (id \<times> id \<rightharpoonup> stock_row) \<times> 'a stock_db_scheme \<Rightarrow> (id \<times> id \<rightharpoonup> stock_row) \<times> 'a stock_db_scheme"
    and wh :: id and var :: "'i \<Rightarrow> id" and delta :: "'i \<Rightarrow> int"
  assumes turn_laws: "turn i (rows, db) = (rows', db') \<Longrightarrow> mirrors rows db \<Longrightarrow> rows (wh, var i) \<noteq> None \<Longrightarrow>
      mirrors rows' db' \<and> (\<forall>k. (rows' k = None) = (rows k = None)) \<and> moves_row wh (var i) (delta i) db db'"

sublocale stock_line_step \<subseteq> stock_turns turn snd "row_ready wh var" wh var delta
proof (unfold_locales, goal_cases)
  case (1 s i)
  obtain rows db rows' db' where s: "s = (rows, db)" "turn i (rows, db) = (rows', db')"
    by (metis prod.exhaust)
  show ?case using turn_laws [OF s(2)] 1 by (simp add: s row_ready_def)
next
  case (2 s i j)
  obtain rows db rows' db' where s: "s = (rows, db)" "turn i (rows, db) = (rows', db')"
    by (metis prod.exhaust)
  show ?case using turn_laws [OF s(2)] 2 by (simp add: s row_ready_def)
qed

context stock_line_step
begin

text \<open>The whole loop, from the locking of the rows of its items.\<close>

lemma locked_turns:
  assumes "lockWarehouseStockRows (map (\<lambda>i. (wh, var i)) items) Map.empty db = (rows, db1)"
    and "fold turn items (rows, db1) = (rows', db')"
  shows "moves_rows (lineDelta wh var delta items) db db'
    \<and> (\<forall>i \<in> set items. onHandOf rows (wh, var i) = level db wh (var i))"
proof -
  have "mirrors Map.empty db" by (simp add: mirrors_def)
  note lock = lockRows_laws [OF assms(1) this]
  have ne: "\<forall>i \<in> set items. rows (wh, var i) \<noteq> None" using lock by auto
  have "moves_rows (lineDelta wh var delta items) db1 db'"
    using fold_turns [of items "(rows, db1)"] ne lock assms(2) by (simp add: row_ready_def)
  then have "moves_rows (lineDelta wh var delta items) db db'"
    using lock by (auto simp: moves_rows_def logs_def running_def intro: stock_frame_trans)
  moreover have "\<forall>i \<in> set items. onHandOf rows (wh, var i) = level db wh (var i)"
    using ne lock by (force simp: onHandOf_def mirrors_def)
  ultimately show ?thesis by blast
qed

end

text \<open>The turn the services share: the row object is changed, written back and logged.\<close>

definition postLine ::
  "id \<Rightarrow> id \<Rightarrow> int \<Rightarrow> (int \<Rightarrow> id \<Rightarrow> stock_movement) \<Rightarrow> (id \<times> id \<rightharpoonup> stock_row) \<times> 'a stock_db_scheme
    \<Rightarrow> (id \<times> id \<rightharpoonup> stock_row) \<times> 'a stock_db_scheme" where
  "postLine w v d mv st =
     (let (rows, db) = st;
          rows' = adjustRow rows (stockKey w v) d;
          after = onHandOf rows' (stockKey w v)
      in (rows', saveMovement (mv after) (updateOnHand w v after db)))"

lemma postLine_laws:
  assumes p: "postLine w v d mv (rows, db) = (rows', db')" and mi: "mirrors rows db"
    and ne: "rows (w, v) \<noteq> None"
    and mv: "\<And>a k. mv_warehouse (mv a k) = w \<and> mv_variant (mv a k) = v \<and> mv_change (mv a k) = d
      \<and> mv_after (mv a k) = a"
  shows "mirrors rows' db' \<and> (\<forall>k. (rows' k = None) = (rows k = None)) \<and> moves_row w v d db db'"
proof -
  obtain r where r: "rows (w, v) = Some r" using ne by auto
  have lev: "onHandQuantity r = level db w v" and w: "warehouseStock db (w, v) \<noteq> None"
    using mi r unfolding mirrors_def by blast+
  let ?a = "onHandQuantity r + d"
  from p have rows': "rows' = rows((w, v) \<mapsto> r\<lparr>onHandQuantity := ?a\<rparr>)"
    and db': "db' = saveMovement (mv ?a) (updateOnHand w v ?a db)"
    using r by (auto simp: postLine_def adjustRow_def onHandOf_def stockKey_def Let_def)
  have up: "level db' x y = (if x = w \<and> y = v then ?a else level db x y)" for x y
    unfolding db' saveMovement_laws level_updateOnHand [OF w] by simp
  have "mirrors rows' db'"
    unfolding mirrors_def
  proof (intro allI impI)
    fix x y q assume "rows' (x, y) = Some q"
    then show "warehouseStock db' (x, y) \<noteq> None \<and> onHandQuantity q = level db' x y"
      using mi w unfolding up rows' by (auto simp: db' mirrors_def split: if_splits)
  qed
  moreover have "stock_frame db db'"
    unfolding db' by (rule stock_frame_trans [OF updateOnHand_frame saveMovement_frame])
  moreover have "rowIds db \<le> rowIds db'" by (simp add: db' saveMovement_def)
  moreover have "logs db db' [mv ?a (rowIds db)]"
    using mv lev by (auto simp: logs_def up) (simp_all add: db')
  moreover have "\<forall>k. (rows' k = None) = (rows k = None)" using r by (simp add: rows')
  moreover have "mv_after (mv ?a (rowIds db)) = level db' w v" using mv up by simp
  ultimately show ?thesis using mv unfolding moves_row_def by blast
qed

text \<open>The services that lock one row per turn, change it and log it.\<close>

definition postRow ::
  "id \<Rightarrow> id \<Rightarrow> int \<Rightarrow> (int \<Rightarrow> id \<Rightarrow> stock_movement) \<Rightarrow> 'a stock_db_scheme \<Rightarrow> 'a stock_db_scheme" where
  "postRow w v d mv db =
     (let (r, db1) = lockWarehouseStockRow w v db;
          after = onHandQuantity r + d
      in saveMovement (mv after) (updateOnHand w v after db1))"

lemma postRow_moves:
  assumes mv: "\<And>a k. mv_warehouse (mv a k) = w \<and> mv_variant (mv a k) = v \<and> mv_change (mv a k) = d
      \<and> mv_after (mv a k) = a"
  shows "moves_row w v d db (postRow w v d mv db)"
proof -
  obtain r d1 where l: "lockWarehouseStockRow w v db = (r, d1)" by force
  note laws = lockWarehouseStockRow_laws [OF l]
  let ?a = "onHandQuantity r + d" and ?db' = "postRow w v d mv db"
  have db': "?db' = saveMovement (mv ?a) (updateOnHand w v ?a d1)" by (simp add: postRow_def l Let_def)
  have ne: "warehouseStock d1 (w, v) \<noteq> None" using laws(3) by simp
  have up: "level ?db' x y = level db x y + (if x = w \<and> y = v then d else 0)" for x y
    unfolding db' saveMovement_laws level_updateOnHand [OF ne] using laws(1,2) by simp
  have "logs db ?db' [mv ?a (rowIds db)]"
    using mv laws by (auto simp: logs_def up) (simp_all add: db')
  moreover have "stock_frame db ?db'"
    unfolding db' by (rule stock_frame_trans [OF laws(7) stock_frame_trans [OF updateOnHand_frame saveMovement_frame]])
  moreover have "rowIds db \<le> rowIds ?db'" using laws(6) by (simp add: db' saveMovement_def)
  moreover have "mv_after (mv ?a (rowIds db)) = level ?db' w v" using mv up laws(1) by simp
  ultimately show ?thesis using mv unfolding moves_row_def by blast
qed

end
