(* ===== verification/Sale_Lifecycle.thy ===== *)
theory Sale_Lifecycle
  imports Sale_Creation Stock_Moves
begin

text \<open>
  The life of a sale after its creation (\<open>sales/services/sales.service.ts\<close>): confirmation with the
  stock issue and the loyalty points, cancellation, shipping, delivery, and the application of a
  payment. A transaction is \<open>Inl\<close> or the new state; what runs outside the transaction is a
  separate read step.
\<close>

section \<open>Operations\<close>

definition ALLOWED_TRANSITIONS :: "sale_status \<Rightarrow> sale_status list" where
  "ALLOWED_TRANSITIONS s =
     (case s of SaleDraft \<Rightarrow> [SaleConfirmed, SaleCancelled] | SaleConfirmed \<Rightarrow> [] | SaleCancelled \<Rightarrow> [])"

definition assertTransitionAllowed :: "sale_status \<Rightarrow> sale_status \<Rightarrow> unit result" where
  "assertTransitionAllowed current target =
     (if target \<notin> set (ALLOWED_TRANSITIONS current) then Inl (AppException Conflict) else Inr ())"

text \<open>\<open>repository.save\<close> of an entity that was read: every column is written.\<close>

definition saveSale :: "sale \<Rightarrow> 'a sales_db_scheme \<Rightarrow> 'a sales_db_scheme" where
  "saveSale s db = db\<lparr>sales := map (\<lambda>x. if sl_id x = sl_id s then s else x) (sales db)\<rparr>"

text \<open>The part of \<open>confirm\<close> before the transaction: the sale, its warehouse and its items.\<close>

definition confirmRead ::
  "id \<Rightarrow> id \<Rightarrow> 'a sales_db_scheme \<Rightarrow> (sale \<times> id \<times> sale_item list) result" where
  "confirmRead i company db =
     andThen (findSaleInCompany i company db) (\<lambda>s.
     andThen (assertTransitionAllowed (sl_status s) SaleConfirmed) (\<lambda>_.
     case sl_warehouse s of
       None \<Rightarrow> Inl (AppException ValidationError)
     | Some w \<Rightarrow> Inr (s, w, itemsOfSale i db)))"

definition assertItemStock ::
  "id \<Rightarrow> (id \<times> id \<rightharpoonup> stock_row) \<Rightarrow> 'b sale_row_scheme \<Rightarrow> unit result" where
  "assertItemStock w rows i =
     (if onHandOf rows (stockKey w (si_variant i)) < si_baseQuantity i then Inl (AppException Conflict)
      else Inr ())"

text \<open>The row object of the variant is decreased, written back, and logged.\<close>

definition issueItem ::
  "id \<Rightarrow> id \<Rightarrow> id \<Rightarrow> jdate \<Rightarrow> 'b sale_row_scheme \<Rightarrow> (id \<times> id \<rightharpoonup> stock_row) \<times> 'a stock_db_scheme
    \<Rightarrow> (id \<times> id \<rightharpoonup> stock_row) \<times> 'a stock_db_scheme" where
  "issueItem w saleId user now i st =
     (let (rows, db) = st;
          rows' = adjustRow rows (stockKey w (si_variant i)) (- si_baseQuantity i);
          after = onHandOf rows' (stockKey w (si_variant i));
          db1 = updateOnHand w (si_variant i) after db
      in (rows', saveMovement (\<lambda>k. \<lparr>mv_id = k, mv_warehouse = w, mv_variant = si_variant i,
            mv_type = SaleIssue, mv_change = - si_baseQuantity i, mv_after = after,
            mv_refType = RefSale, mv_refId = saleId, mv_createdAt = now,
            mv_createdBy = Some user\<rparr>) db1))"

definition confirmRun ::
  "sale \<times> id \<times> sale_item list \<Rightarrow> id \<Rightarrow> jdate \<Rightarrow> 'a sales_db_scheme \<Rightarrow> (sale \<times> 'a sales_db_scheme) result" where
  "confirmRun r user now db =
     (let (s, w, items) = r;
          sortedItems = sort_key si_variant items;
          (rows, db1) = lockWarehouseStockRows (map (\<lambda>i. (w, si_variant i)) sortedItems) Map.empty db
      in andThen (checkAll (assertItemStock w rows) sortedItems) (\<lambda>_.
         let (rows', db2) = fold (issueItem w (sl_id s) user now) sortedItems (rows, db1);
             s' = s\<lparr>sl_status := SaleConfirmed, sl_fulfillment := Some PendingShipment,
                    sl_updatedBy := user\<rparr>;
             db3 = saveSale s' db2
         in andThen (earnForSale (sl_company s') (sl_customer s') (sl_id s') (sl_grandTotal s') user db3)
              (\<lambda>(_, db4). Inr (s', db4))))"

definition confirmSale ::
  "id \<Rightarrow> id \<Rightarrow> id \<Rightarrow> jdate \<Rightarrow> 'a sales_db_scheme \<Rightarrow> (sale \<times> 'a sales_db_scheme) result" where
  "confirmSale i company user now db = andThen (confirmRead i company db) (\<lambda>r. confirmRun r user now db)"

definition cancelRead :: "id \<Rightarrow> id \<Rightarrow> 'a sales_db_scheme \<Rightarrow> sale result" where
  "cancelRead i company db =
     andThen (findSaleInCompany i company db) (\<lambda>s.
     andThen (assertTransitionAllowed (sl_status s) SaleCancelled) (\<lambda>_. Inr s))"

definition cancelSave :: "sale \<Rightarrow> id \<Rightarrow> 'a sales_db_scheme \<Rightarrow> sale \<times> 'a sales_db_scheme" where
  "cancelSave s user db =
     (let s' = s\<lparr>sl_status := SaleCancelled, sl_updatedBy := user\<rparr> in (s', saveSale s' db))"

definition cancelSale ::
  "id \<Rightarrow> id \<Rightarrow> id \<Rightarrow> 'a sales_db_scheme \<Rightarrow> (sale \<times> 'a sales_db_scheme) result" where
  "cancelSale i company user db = andThen (cancelRead i company db) (\<lambda>s. Inr (cancelSave s user db))"

definition shipRead :: "id \<Rightarrow> id \<Rightarrow> 'a sales_db_scheme \<Rightarrow> sale result" where
  "shipRead i company db =
     andThen (findSaleInCompany i company db) (\<lambda>s.
     if sl_fulfillment s \<noteq> Some PendingShipment then Inl (AppException Conflict) else Inr s)"

definition shipSave :: "sale \<Rightarrow> id \<Rightarrow> jdate \<Rightarrow> 'a sales_db_scheme \<Rightarrow> sale \<times> 'a sales_db_scheme" where
  "shipSave s user now db =
     (let s' = s\<lparr>sl_fulfillment := Some Shipped, sl_shippedAt := Some now, sl_updatedBy := user\<rparr>
      in (s', saveSale s' db))"

definition shipSale ::
  "id \<Rightarrow> id \<Rightarrow> id \<Rightarrow> jdate \<Rightarrow> 'a sales_db_scheme \<Rightarrow> (sale \<times> 'a sales_db_scheme) result" where
  "shipSale i company user now db = andThen (shipRead i company db) (\<lambda>s. Inr (shipSave s user now db))"

definition deliverRead :: "id \<Rightarrow> id \<Rightarrow> 'a sales_db_scheme \<Rightarrow> sale result" where
  "deliverRead i company db =
     andThen (findSaleInCompany i company db) (\<lambda>s.
     if sl_fulfillment s \<noteq> Some Shipped then Inl (AppException Conflict) else Inr s)"

definition deliverSave :: "sale \<Rightarrow> id \<Rightarrow> jdate \<Rightarrow> 'a sales_db_scheme \<Rightarrow> sale \<times> 'a sales_db_scheme" where
  "deliverSave s user now db =
     (let s' = s\<lparr>sl_fulfillment := Some Delivered, sl_deliveredAt := Some now, sl_updatedBy := user\<rparr>
      in (s', saveSale s' db))"

definition deliverSale ::
  "id \<Rightarrow> id \<Rightarrow> id \<Rightarrow> jdate \<Rightarrow> 'a sales_db_scheme \<Rightarrow> (sale \<times> 'a sales_db_scheme) result" where
  "deliverSale i company user now db = andThen (deliverRead i company db) (\<lambda>s. Inr (deliverSave s user now db))"

text \<open>\<open>allocated\<close> is the JavaScript number the payment service passes.\<close>

definition applySalePayment ::
  "id \<Rightarrow> id \<Rightarrow> real \<Rightarrow> id \<Rightarrow> 'a sales_db_scheme \<Rightarrow> 'a sales_db_scheme result" where
  "applySalePayment i company allocated user db =
     andThen (findSaleInCompany i company db) (\<lambda>s.
     let currentPaid = js_num (sl_paid s); limit = js_num (sl_grandTotal s);
         newPaid = js_add currentPaid allocated
     in if exceeds newPaid limit then Inl (AppException Conflict)
        else
          let newBalance = js_sub limit newPaid
          in Inr (saveSale (s\<lparr>sl_paid := to_fixed2 newPaid, sl_balance := to_fixed2 newBalance,
               sl_updatedBy := user\<rparr>) db))"

section \<open>What a confirmation does\<close>

lemma stock_frame_sales:
  "stock_frame db d \<Longrightarrow> sales d = sales db \<and> saleItems d = saleItems db"
  by (cases db; cases d) (simp add: stock_frame_def)

lemma points_frame_sales:
  "points_frame db d \<Longrightarrow> sales d = sales db \<and> saleItems d = saleItems db"
  by (cases db; cases d) (simp add: points_frame_def)

lemma issueItem_post:
  "issueItem w saleId user now i = postLine w (si_variant i) (- si_baseQuantity i)
     (\<lambda>after k. \<lparr>mv_id = k, mv_warehouse = w, mv_variant = si_variant i, mv_type = SaleIssue,
        mv_change = - si_baseQuantity i, mv_after = after, mv_refType = RefSale, mv_refId = saleId,
        mv_createdAt = now, mv_createdBy = Some user\<rparr>)"
  by (rule ext) (simp add: issueItem_def postLine_def Let_def split_def)

interpretation issue: stock_line_step "issueItem w saleId user now" w si_variant "\<lambda>i. - si_baseQuantity i"
  for w saleId user now
proof unfold_locales
  fix i rows db rows' db'
  assume t: "issueItem w saleId user now i (rows, db) = (rows', db')" and m: "mirrors rows db"
    "rows (w, si_variant i) \<noteq> None"
  show "mirrors rows' db' \<and> (\<forall>k. (rows' k = None) = (rows k = None))
      \<and> moves_row w (si_variant i) (- si_baseQuantity i) db db'"
    by (rule postLine_laws [OF t [unfolded issueItem_post] m]) simp
qed

lemma saveSale_stock [simp]:
  "warehouseStock (saveSale s db) = warehouseStock db" "stockMovements (saveSale s db) = stockMovements db"
  "saleItems (saveSale s db) = saleItems db" "level (saveSale s db) w v = level db w v"
  "rowIds (saveSale s db) = rowIds db"
  by (simp_all add: saveSale_def level_def)

definition issueDelta :: "id \<Rightarrow> sale_item list \<Rightarrow> id \<Rightarrow> id \<Rightarrow> int" where
  "issueDelta w items = lineDelta w si_variant (\<lambda>i. - si_baseQuantity i) items"

lemma confirmRun_laws:
  assumes "confirmRun (s, w, items) user now db = Inr (s', db')"
  shows "\<exists>ms. logs db db' ms \<and> running db ms \<and> (\<forall>x v. movementSum ms x v = issueDelta w items x v)"
    and "\<forall>i \<in> set items. si_baseQuantity i \<le> level db w (si_variant i)"
    and "s' = s\<lparr>sl_status := SaleConfirmed, sl_fulfillment := Some PendingShipment, sl_updatedBy := user\<rparr>"
    and "sales db' = map (\<lambda>x. if sl_id x = sl_id s then s' else x) (sales db)"
    and "saleItems db' = saleItems db" and "rowIds db \<le> rowIds db'"
proof -
  let ?items = "sort_key si_variant items"
  obtain rows db1 where l: "lockWarehouseStockRows (map (\<lambda>i. (w, si_variant i)) ?items) Map.empty db = (rows, db1)"
    by force
  obtain rows' db2 where f: "fold (issueItem w (sl_id s) user now) ?items (rows, db1) = (rows', db2)" by force
  note laws = issue.locked_turns [OF l f]
  from assms l f obtain r where ck: "\<forall>i \<in> set items. assertItemStock w rows i = Inr ()"
    and s': "s' = s\<lparr>sl_status := SaleConfirmed, sl_fulfillment := Some PendingShipment, sl_updatedBy := user\<rparr>"
    and e: "earnForSale (sl_company s') (sl_customer s') (sl_id s') (sl_grandTotal s') user (saveSale s' db2)
      = Inr (r, db')"
    by (auto simp: confirmRun_def Let_def)
  note pf = earnForSale_frame [OF e]
  from laws obtain ms where ms: "logs db db2 ms" "running db ms"
      "\<forall>x v. movementSum ms x v = lineDelta w si_variant (\<lambda>i. - si_baseQuantity i) ?items x v"
    and mf: "stock_frame db db2" "rowIds db \<le> rowIds db2" by (auto simp: moves_rows_def)
  have "level db' x v = level db2 x v" for x v
    using pf by (intro level_cong) (simp add: points_frame_def)
  then have "logs db db' ms" using ms(1) pf by (simp add: logs_def points_frame_def)
  with ms show "\<exists>ms. logs db db' ms \<and> running db ms \<and> (\<forall>x v. movementSum ms x v = issueDelta w items x v)"
    by (auto simp: issueDelta_def)
  show "\<forall>i \<in> set items. si_baseQuantity i \<le> level db w (si_variant i)"
    using ck laws by (force simp: assertItemStock_def stockKey_def split: if_splits)
  show "s' = s\<lparr>sl_status := SaleConfirmed, sl_fulfillment := Some PendingShipment, sl_updatedBy := user\<rparr>"
    by (rule s')
  have fr: "sales db2 = sales db" "saleItems db2 = saleItems db"
    using mf stock_frame_sales by blast+
  show "sales db' = map (\<lambda>x. if sl_id x = sl_id s then s' else x) (sales db)"
    using points_frame_sales [OF pf] fr by (simp add: saveSale_def s')
  show "saleItems db' = saleItems db" using points_frame_sales [OF pf] fr by simp
  show "rowIds db \<le> rowIds db'" using mf pf by (simp add: points_frame_def)
qed

type_synonym confirm_request = "id \<times> id \<times> id \<times> jdate"

definition serveConfirm :: "confirm_request \<Rightarrow> sales_db \<Rightarrow> (sale \<times> sales_db) result" where
  "serveConfirm p db = (case p of (i, company, user, now) \<Rightarrow> confirmSale i company user now db)"

lemma confirmSale_cases:
  assumes "confirmSale i company user now db = Inr (s', db')"
  shows "\<exists>s w. findSaleInCompany i company db = Inr s \<and> sl_status s = SaleDraft \<and> sl_warehouse s = Some w
    \<and> confirmRun (s, w, itemsOfSale i db) user now db = Inr (s', db')"
  using assms by (auto simp: confirmSale_def confirmRead_def assertTransitionAllowed_def
      ALLOWED_TRANSITIONS_def split: option.splits if_splits sale_status.splits)

interpretation confirmations: stock_operation serveConfirm
proof unfold_locales
  fix p :: confirm_request and db r db'
  assume a: "serveConfirm p db = Inr (r, db')"
  obtain i company user now where p: "p = (i, company, user, now)" by (metis prod.exhaust)
  from a have "confirmSale i company user now db = Inr (r, db')" by (simp add: serveConfirm_def p)
  from confirmSale_cases [OF this] obtain s w where
    "confirmRun (s, w, itemsOfSale i db) user now db = Inr (r, db')" by blast
  from confirmRun_laws(1) [OF this] show "\<exists>ms. logs db db' ms" by blast
qed

section \<open>The life of a sale\<close>

text \<open>How far a sale has come; cancelling leaves the line for good.\<close>

definition sale_rank :: "sale \<Rightarrow> nat" where
  "sale_rank s = (case sl_status s of SaleDraft \<Rightarrow> 0 | SaleCancelled \<Rightarrow> 1
     | SaleConfirmed \<Rightarrow> (case sl_fulfillment s of None \<Rightarrow> 2 | Some PendingShipment \<Rightarrow> 2 | Some Shipped \<Rightarrow> 3
         | Some Delivered \<Rightarrow> 4))"

definition sale_ok :: "sale \<Rightarrow> bool" where
  "sale_ok s \<longleftrightarrow> (sl_fulfillment s \<noteq> None) = (sl_status s = SaleConfirmed)
     \<and> (sl_status s = SaleConfirmed \<longrightarrow> sl_warehouse s \<noteq> None)
     \<and> (sl_shippedAt s \<noteq> None) = (sl_fulfillment s \<in> {Some Shipped, Some Delivered})
     \<and> (sl_deliveredAt s \<noteq> None) = (sl_fulfillment s = Some Delivered)"

text \<open>What later steps may change of a sale.\<close>

definition sale_follows :: "sale \<Rightarrow> sale \<Rightarrow> bool" where
  "sale_follows s t \<longleftrightarrow> sl_id t = sl_id s \<and> sale_rank s \<le> sale_rank t
     \<and> (sl_status s = SaleCancelled \<longrightarrow> sl_status t = SaleCancelled)
     \<and> (sl_status s = SaleConfirmed \<longrightarrow> sl_status t = SaleConfirmed)
     \<and> sl_number t = sl_number s \<and> sl_customer t = sl_customer s \<and> sl_company t = sl_company s
     \<and> sl_warehouse t = sl_warehouse s \<and> sl_grandTotal t = sl_grandTotal s
     \<and> sl_subtotal t = sl_subtotal s \<and> sl_discount t = sl_discount s \<and> sl_tax t = sl_tax s"

inductive sale_step :: "sales_db \<Rightarrow> sales_db \<Rightarrow> bool" where
  create: "createSale org cat company user dto creation now db = Inr (s, db') \<Longrightarrow> sale_step db db'"
| confirm: "confirmSale i company user now db = Inr (s, db') \<Longrightarrow> sale_step db db'"
| cancel: "cancelSale i company user db = Inr (s, db') \<Longrightarrow> sale_step db db'"
| ship: "shipSale i company user now db = Inr (s, db') \<Longrightarrow> sale_step db db'"
| deliver: "deliverSale i company user now db = Inr (s, db') \<Longrightarrow> sale_step db db'"
| pay: "applySalePayment i company allocated user db = Inr db' \<Longrightarrow> sale_step db db'"

definition sales_ok :: "sales_db \<Rightarrow> bool" where
  "sales_ok db \<longleftrightarrow> distinct (map sl_id (sales db)) \<and> (\<forall>s \<in> set (sales db). sl_id s < rowIds db \<and> sale_ok s)
     \<and> distinct (map (\<lambda>s. (sl_company s, sl_number s)) (sales db))"

text \<open>An update of the sale that was read.\<close>

lemma updated_sale:
  assumes ok: "sales_ok db" and s: "findSaleInCompany i company db = Inr s"
    and t: "sale_ok t" "sale_follows s t"
    and db': "sales db' = map (\<lambda>x. if sl_id x = sl_id t then t else x) (sales db)" "rowIds db \<le> rowIds db'"
  shows "sales_ok db' \<and> list_all2 (\<lambda>x y. x = y \<or> sale_follows x y) (sales db) (sales db')"
proof -
  have mem: "s \<in> set (sales db)" using s by (auto simp: findSaleInCompany_def dest: find_SomeD)
  have same: "x = s" if "x \<in> set (sales db)" "sl_id x = sl_id t" for x
    using that mem ok t(2) by (auto simp: sales_ok_def sale_follows_def distinct_map inj_on_def)
  have keep: "map f (sales db') = map f (sales db)" if "f t = f s" for f :: "sale \<Rightarrow> 'x"
    unfolding db'(1) using same that by (auto simp: sale_follows_def)
  have "map sl_id (sales db') = map sl_id (sales db)" using t(2) by (intro keep) (simp add: sale_follows_def)
  moreover have "map (\<lambda>s. (sl_company s, sl_number s)) (sales db') = map (\<lambda>s. (sl_company s, sl_number s)) (sales db)"
    using t(2) by (intro keep) (simp add: sale_follows_def)
  moreover have "sl_id x < rowIds db' \<and> sale_ok x" if x: "x \<in> set (sales db')" for x
  proof -
    from x obtain y where y: "y \<in> set (sales db)" "x = (if sl_id y = sl_id t then t else y)"
      unfolding db'(1) by auto
    have "sl_id y < rowIds db" "sale_ok y" using ok y(1) by (auto simp: sales_ok_def)
    then show ?thesis using y(2) t(1) db'(2) by (auto split: if_splits)
  qed
  ultimately have "sales_ok db'" using ok unfolding sales_ok_def by simp
  moreover have "list_all2 (\<lambda>x y. x = y \<or> sale_follows x y) (sales db) (sales db')"
    unfolding db'(1) list_all2_map2
    by (rule list_all2_all_nthI) (use same t(2) in \<open>auto dest!: nth_mem\<close>)
  ultimately show ?thesis by blast
qed

lemma sale_follows_refl [simp]: "sale_follows s s"
  by (simp add: sale_follows_def)

lemma sale_follows_trans: "sale_follows s t \<Longrightarrow> sale_follows t u \<Longrightarrow> sale_follows s u"
  by (auto simp: sale_follows_def)

text \<open>What one step does to the table: updates in place, then at most one new row.\<close>

definition sales_grow :: "sales_db \<Rightarrow> sales_db \<Rightarrow> bool" where
  "sales_grow db db' \<longleftrightarrow> (\<exists>xs ys. sales db' = xs @ ys \<and> list_all2 sale_follows (sales db) xs)"

lemma grow_updated:
  "list_all2 (\<lambda>x y. x = y \<or> sale_follows x y) (sales db) (sales db') \<Longrightarrow> sales_grow db db'"
  unfolding sales_grow_def
  by (rule exI [of _ "sales db'"], rule exI [of _ "[]"]) (auto elim: list_all2_mono)

lemma saved_sale:
  assumes "sales_ok db" "findSaleInCompany i company db = Inr s" "sale_ok t" "sale_follows s t"
  shows "sales_ok (saveSale t db) \<and> sales_grow db (saveSale t db)"
proof -
  have "sales (saveSale t db) = map (\<lambda>x. if sl_id x = sl_id t then t else x) (sales db)"
    "rowIds db \<le> rowIds (saveSale t db)" by (simp_all add: saveSale_def)
  from updated_sale [OF assms this] show ?thesis by (simp add: grow_updated)
qed

lemma sales_grow_mem: "sales_grow db db' \<Longrightarrow> s \<in> set (sales db) \<Longrightarrow> \<exists>t \<in> set (sales db'). sale_follows s t"
  unfolding sales_grow_def by (metis Un_iff in_set_conv_nth list_all2_conv_all_nth set_append)

text \<open>A creation adds a draft under a new identifier and a new number, or replays.\<close>

lemma createSale_adds:
  assumes ok: "sales_ok db" and c: "createSale org cat company user dto creation now db = Inr (s, db')"
  shows "sales_ok db' \<and> sales_grow db db'"
proof -
  have same: "sales_ok d \<and> sales_grow db d" if "sales d = sales db" "rowIds db \<le> rowIds d" for d
  proof
    show "sales_ok d" using ok that by (force simp: sales_ok_def)
    show "sales_grow db d" unfolding sales_grow_def that(1)
      by (intro exI [of _ "sales db"] exI [of _ "[]"]) (simp add: list_all2_refl)
  qed
  let ?d = "case cs_date dto of None \<Rightarrow> now | Some d \<Rightarrow> d"
  from c have "db' = db \<or> createSaleTx cat company user dto creation ?d db = Inr (s, db')"
    unfolding createSale_def by (auto simp: Let_def split: sum.splits error.splits option.splits)
  then show ?thesis
  proof
    assume t: "createSaleTx cat company user dto creation ?d db = Inr (s, db')"
    from createSaleTx_adds [OF t]
    show ?thesis
    proof (elim disjE conjE exE)
      assume "sales db' = sales db" "rowIds db \<le> rowIds db'"
      then show ?thesis by (rule same)
    next
      assume n: "sales db' = sales db @ [s]" "sl_id s = rowIds db" "rowIds db < rowIds db'"
        "\<forall>k \<in> set (sales db). \<not> (sl_company k = sl_company s \<and> sl_number k = sl_number s)"
        "sl_status s = SaleDraft" "sl_fulfillment s = None" "sl_shippedAt s = None" "sl_deliveredAt s = None"
      have "sale_ok s" using n by (simp add: sale_ok_def)
      then have "sales_ok db'" using ok n unfolding sales_ok_def n(1) by force
      moreover have "sales_grow db db'" unfolding sales_grow_def n(1)
        by (intro exI [of _ "sales db"] exI [of _ "[s]"]) (simp add: list_all2_refl)
      ultimately show ?thesis ..
    qed
  qed (use same in simp)
qed

lemma sale_step_ok:
  assumes "sale_step db db'" "sales_ok db"
  shows "sales_ok db' \<and> sales_grow db db'"
  using assms(1)
proof cases
  case (create org cat company user dto creation now s)
  then show ?thesis using createSale_adds assms(2) by blast
next
  case (confirm i company user now s')
  from confirmSale_cases [OF this] obtain s w where
    s: "findSaleInCompany i company db = Inr s" "sl_status s = SaleDraft" "sl_warehouse s = Some w"
    and c: "confirmRun (s, w, itemsOfSale i db) user now db = Inr (s', db')" by blast
  note laws = confirmRun_laws [OF c]
  have "sale_ok s" using s(1) assms(2) by (auto simp: findSaleInCompany_def sales_ok_def dest: find_SomeD)
  then have "sale_ok s'" "sale_follows s s'"
    using s by (simp_all add: laws(3) sale_ok_def sale_follows_def sale_rank_def)
  moreover have "rowIds db \<le> rowIds db'" by (rule laws(6))
  moreover have "sales db' = map (\<lambda>x. if sl_id x = sl_id s' then s' else x) (sales db)"
    unfolding laws(4) by (simp add: laws(3))
  ultimately show ?thesis using updated_sale [OF assms(2) s(1)] grow_updated by blast
next
  case (cancel i company user t)
  from cancel obtain s where s: "findSaleInCompany i company db = Inr s" "sl_status s = SaleDraft"
    and t: "t = s\<lparr>sl_status := SaleCancelled, sl_updatedBy := user\<rparr>" "db' = saveSale t db"
    by (auto simp: cancelSale_def cancelRead_def cancelSave_def assertTransitionAllowed_def
        ALLOWED_TRANSITIONS_def Let_def split: if_splits sale_status.splits)
  have "sale_ok s" using s(1) assms(2) by (auto simp: findSaleInCompany_def sales_ok_def dest: find_SomeD)
  then have "sale_ok t" "sale_follows s t"
    using s by (simp_all add: t(1) sale_ok_def sale_follows_def sale_rank_def)
  then show ?thesis unfolding t(2) by (rule saved_sale [OF assms(2) s(1)])
next
  case (ship i company user now t)
  from ship obtain s where s: "findSaleInCompany i company db = Inr s" "sl_fulfillment s = Some PendingShipment"
    and t: "t = s\<lparr>sl_fulfillment := Some Shipped, sl_shippedAt := Some now, sl_updatedBy := user\<rparr>"
      "db' = saveSale t db"
    by (auto simp: shipSale_def shipRead_def shipSave_def Let_def split: if_splits)
  have "sale_ok s" using s(1) assms(2) by (auto simp: findSaleInCompany_def sales_ok_def dest: find_SomeD)
  then have "sale_ok t" "sale_follows s t"
    using s by (simp_all add: t(1) sale_ok_def sale_follows_def sale_rank_def)
  then show ?thesis unfolding t(2) by (rule saved_sale [OF assms(2) s(1)])
next
  case (deliver i company user now t)
  from deliver obtain s where s: "findSaleInCompany i company db = Inr s" "sl_fulfillment s = Some Shipped"
    and t: "t = s\<lparr>sl_fulfillment := Some Delivered, sl_deliveredAt := Some now, sl_updatedBy := user\<rparr>"
      "db' = saveSale t db"
    by (auto simp: deliverSale_def deliverRead_def deliverSave_def Let_def split: if_splits)
  have "sale_ok s" using s(1) assms(2) by (auto simp: findSaleInCompany_def sales_ok_def dest: find_SomeD)
  then have "sale_ok t" "sale_follows s t"
    using s by (simp_all add: t(1) sale_ok_def sale_follows_def sale_rank_def)
  then show ?thesis unfolding t(2) by (rule saved_sale [OF assms(2) s(1)])
next
  case (pay i company allocated user)
  from pay obtain s p b where s: "findSaleInCompany i company db = Inr s"
    and t: "db' = saveSale (s\<lparr>sl_paid := p, sl_balance := b, sl_updatedBy := user\<rparr>) db"
    by (auto simp: applySalePayment_def Let_def split: if_splits)
  let ?t = "s\<lparr>sl_paid := p, sl_balance := b, sl_updatedBy := user\<rparr>"
  have "sale_ok s" using s(1) assms(2) by (auto simp: findSaleInCompany_def sales_ok_def dest: find_SomeD)
  then have "sale_ok ?t" by (simp add: sale_ok_def)
  moreover have "sale_rank ?t = sale_rank s" by (cases "sl_status s") (simp_all add: sale_rank_def)
  then have "sale_follows s ?t" by (simp add: sale_follows_def)
  ultimately show ?thesis unfolding t by (rule saved_sale [OF assms(2) s(1)])
qed

lemma sale_steps_ok:
  "sale_step\<^sup>*\<^sup>* db db' \<Longrightarrow> sales_ok db \<Longrightarrow> sales_ok db' \<and> (\<forall>s \<in> set (sales db). \<exists>t \<in> set (sales db'). sale_follows s t)"
proof (induction rule: rtranclp_induct)
  case (step d e)
  then show ?case using sale_step_ok [of d e] sales_grow_mem sale_follows_trans by meson
qed (use sale_follows_refl in blast)

end
