(* ===== verification/Sale_Properties.thy ===== *)
theory Sale_Properties
  imports Sale_Lifecycle
begin

text \<open>
  The properties of the sale after its creation: stock, life cycle, payments, and what a concurrent
  or oversized request can do.
\<close>

section \<open>A confirmed sale\<close>

definition demo_confirmed :: sale where
  "demo_confirmed = demo_sale\<lparr>sl_status := SaleConfirmed, sl_fulfillment := Some PendingShipment\<rparr>"

definition demo_issue :: stock_movement where
  "demo_issue = \<lparr>mv_id = 104, mv_warehouse = 2, mv_variant = 20, mv_type = SaleIssue, mv_change = - 3,
     mv_after = 2, mv_refType = RefSale, mv_refId = 102, mv_createdAt = ((2026, 2, 2), 0),
     mv_createdBy = Some 9\<rparr>"

definition demo_shop2 :: sales_db where
  "demo_shop2 = demo_shop1\<lparr>warehouseStock := [(2, 20) \<mapsto> \<lparr>onHandQuantity = 2, reservedQuantity = 0\<rparr>],
     stockMovements := stockMovements demo_stock5 @ [demo_issue], sales := [demo_confirmed], rowIds := 105\<rparr>"

lemmas sale_run_defs = confirmSale_def confirmRead_def findSaleInCompany_def assertTransitionAllowed_def
  ALLOWED_TRANSITIONS_def confirmRun_def itemsOfSale_def lockWarehouseStockRow_def stockKey_def
  assertItemStock_def onHandOf_def issueItem_def adjustRow_def updateOnHand_def saveMovement_def
  saveSale_def earnForSale_def findPointsBySource_def getActiveProgramOrNull_def Let_def

lemma demo_confirm:
  "confirmSale 102 1 9 ((2026, 2, 2), 0) demo_shop1 = Inr (demo_confirmed, demo_shop2)"
  by (simp add: sale_run_defs demo_shop1_def demo_shop_def demo_sale_def demo_line_def)
    (simp add: demo_shop2_def demo_shop1_def demo_shop_def demo_confirmed_def demo_sale_def demo_issue_def
      demo_line_def fun_eq_iff)

section \<open>Properties\<close>

text \<open>A confirmation issues exactly the items of a draft sale from its warehouse: the level of
  every row changes by the base quantities of the items, the same amounts are logged with the running
  balance after each movement, every single item was covered, and the sale leaves the draft state.\<close>

theorem confirm_issues_stock:
  assumes "confirmSale i company user now db = Inr (s', db')"
  shows "\<exists>s w. findSaleInCompany i company db = Inr s \<and> sl_status s = SaleDraft \<and> sl_warehouse s = Some w
    \<and> sl_status s' = SaleConfirmed \<and> sl_fulfillment s' = Some PendingShipment
    \<and> (\<forall>x \<in> set (itemsOfSale i db). si_baseQuantity x \<le> level db w (si_variant x))
    \<and> (\<exists>ms. logs db db' ms \<and> running db ms \<and> (\<forall>x v. movementSum ms x v
        = (if x = w then - sum_list (map si_baseQuantity (filter (\<lambda>i. si_variant i = v) (itemsOfSale i db)))
           else 0)))"
proof -
  from confirmSale_cases [OF assms] obtain s w where s: "findSaleInCompany i company db = Inr s"
    "sl_status s = SaleDraft" "sl_warehouse s = Some w"
    and c: "confirmRun (s, w, itemsOfSale i db) user now db = Inr (s', db')" by blast
  note laws = confirmRun_laws [OF c]
  have "issueDelta w items x v
      = (if x = w then - sum_list (map si_baseQuantity (filter (\<lambda>i. si_variant i = v) items)) else 0)"
    for items x v
    by (simp add: issueDelta_def lineDelta_def uminus_sum_list_map o_def)
  with s laws show ?thesis by auto
qed

theorem confirm_issues_stock_witness:
  "\<exists>ms. logs demo_shop1 demo_shop2 ms \<and> running demo_shop1 ms \<and> movementSum ms 2 20 = - 3"
  using confirm_issues_stock [OF demo_confirm]
  by (auto simp: findSaleInCompany_def demo_shop1_def demo_sale_def itemsOfSale_def demo_line_def)

text \<open>When the items of a sale are of different variants, a confirmation never takes the stock below
  zero.\<close>

theorem confirm_keeps_stock_nonneg:
  assumes "confirmSale i company user now db = Inr (s', db')"
    and "stock_nonneg db" and "distinct (map si_variant (itemsOfSale i db))"
  shows "stock_nonneg db'"
proof -
  from confirmSale_cases [OF assms(1)] obtain s w where
    c: "confirmRun (s, w, itemsOfSale i db) user now db = Inr (s', db')" by blast
  note laws = confirmRun_laws [OF c]
  from laws(1) obtain ms where ms: "logs db db' ms"
    "\<forall>x v. movementSum ms x v = issueDelta w (itemsOfSale i db) x v" by blast
  have "0 \<le> level db' x v" for x v
  proof (cases "x = w \<and> v \<in> si_variant ` set (itemsOfSale i db)")
    case True
    then obtain j where j: "j \<in> set (itemsOfSale i db)" "v = si_variant j" by auto
    with True have "level db' x v = level db w v - si_baseQuantity j"
      using ms lineDelta_distinct [OF assms(3) j(1)] by (simp add: logs_def issueDelta_def)
    with laws(2) j show ?thesis by auto
  next
    case False
    then have "level db' x v = level db x v"
      using ms lineDelta_none [of v si_variant "itemsOfSale i db" x w] by (auto simp: logs_def issueDelta_def)
    with assms(2) show ?thesis by (simp add: stock_nonneg_def)
  qed
  then show ?thesis by (simp add: stock_nonneg_def)
qed

theorem confirm_keeps_stock_nonneg_witness: "stock_nonneg demo_shop2"
  by (rule confirm_keeps_stock_nonneg [OF demo_confirm])
    (simp_all add: stock_nonneg_def level_def demo_shop1_def demo_shop_def itemsOfSale_def)

definition demo_two_lines :: sales_db where
  "demo_two_lines = demo_shop1\<lparr>saleItems := [demo_line, demo_line\<lparr>si_id := 110\<rparr>]\<rparr>"

text \<open>The check looks at each line alone, so a sale with two lines of one variant can overdraw the
  stock: two lines of three pieces are issued from a stock of five.\<close>

theorem confirm_overdraws:
  "\<exists>s db'. confirmSale 102 1 9 ((2026, 2, 2), 0) demo_two_lines = Inr (s, db')
    \<and> level demo_two_lines 2 20 = 5 \<and> level db' 2 20 = - 1"
  by (simp add: sale_run_defs demo_two_lines_def demo_shop1_def demo_shop_def demo_sale_def demo_line_def
      level_def insort_key_def)

text \<open>The status is checked outside the transaction. If a second confirmation has read the sale
  before the first one committed, both go through when the stock covers both, and every row is
  issued twice; the points are still earned once.\<close>

theorem double_confirm_issues_twice:
  assumes "confirmRead i company db = Inr r"
    and "confirmRun r user1 now1 db = Inr (s1, db1)" and "confirmRun r user2 now2 db1 = Inr (s2, db2)"
  shows "\<exists>s w. r = (s, w, itemsOfSale i db) \<and> sl_status s = SaleDraft \<and> sl_status s2 = SaleConfirmed
    \<and> (\<forall>v. level db2 w v
        = level db w v - 2 * sum_list (map si_baseQuantity (filter (\<lambda>x. si_variant x = v) (itemsOfSale i db))))"
proof -
  from assms(1) obtain s w where r: "r = (s, w, itemsOfSale i db)" "sl_status s = SaleDraft"
    by (auto simp: confirmRead_def assertTransitionAllowed_def ALLOWED_TRANSITIONS_def
        split: option.splits if_splits sale_status.splits)
  note one = confirmRun_laws [OF assms(2) [unfolded r(1)]]
  note two = confirmRun_laws [OF assms(3) [unfolded r(1)]]
  have "issueDelta w (itemsOfSale i db) w v
      = - sum_list (map si_baseQuantity (filter (\<lambda>x. si_variant x = v) (itemsOfSale i db)))" for v
    by (simp add: issueDelta_def lineDelta_def uminus_sum_list_map o_def)
  then have "level db2 w v
      = level db w v - 2 * sum_list (map si_baseQuantity (filter (\<lambda>x. si_variant x = v) (itemsOfSale i db)))" for v
    using one(1) two(1) by (auto simp: logs_def)
  with r two(3) show ?thesis by auto
qed

definition demo_shop10 :: sales_db where
  "demo_shop10 = demo_shop1\<lparr>warehouseStock := [(2, 20) \<mapsto> \<lparr>onHandQuantity = 10, reservedQuantity = 0\<rparr>]\<rparr>"

theorem double_confirm_issues_twice_witness:
  "\<exists>r s1 db1 s2 db2. confirmRead 102 1 demo_shop10 = Inr r
    \<and> confirmRun r 9 ((2026, 2, 2), 0) demo_shop10 = Inr (s1, db1)
    \<and> confirmRun r 8 ((2026, 2, 2), 5) db1 = Inr (s2, db2) \<and> level db2 2 20 = 4"
proof -
  let ?r = "(demo_sale, 2, [demo_line])"
  have r: "confirmRead 102 1 demo_shop10 = Inr ?r"
    by (simp add: sale_run_defs demo_shop10_def demo_shop1_def demo_shop_def demo_sale_def demo_line_def)
  obtain s1 db1 where 1: "confirmRun ?r 9 ((2026, 2, 2), 0) demo_shop10 = Inr (s1, db1)"
    and k: "warehouseStock db1 (2, 20) = Some \<lparr>onHandQuantity = 7, reservedQuantity = 0\<rparr>"
      "pointsRows db1 = []" "loyaltyPrograms db1 = []"
    by (simp add: sale_run_defs demo_shop10_def demo_shop1_def demo_shop_def demo_sale_def demo_line_def)
  obtain s2 db2 where 2: "confirmRun ?r 8 ((2026, 2, 2), 5) db1 = Inr (s2, db2)"
    using k by (simp add: sale_run_defs demo_sale_def demo_line_def)
  have "level db2 2 20 = 4"
    using double_confirm_issues_twice [OF r 1 2]
    by (auto simp: itemsOfSale_def demo_shop10_def demo_shop1_def demo_line_def level_def)
  with r 1 2 show ?thesis by blast
qed

text \<open>C15: whatever operations run one after the other, every sale stays consistent (a fulfilment state
  exactly when confirmed, a shipping date exactly from shipped on, a delivery date exactly when
  delivered), numbers stay unique per company, and a sale only moves forward along draft, confirmed,
  shipped, delivered or ends cancelled, with its number, customer, warehouse and amounts unchanged.\<close>

theorem sale_life_cycle:
  assumes "sales db0 = []" and "sale_step\<^sup>*\<^sup>* db0 db" and "sale_step\<^sup>*\<^sup>* db db'" and "s \<in> set (sales db)"
  shows "sale_ok s \<and> (\<exists>t \<in> set (sales db'). sale_follows s t)
    \<and> distinct (map (\<lambda>s. (sl_company s, sl_number s)) (sales db'))"
proof -
  have "sales_ok db0" using assms(1) by (simp add: sales_ok_def)
  with assms(2) have db: "sales_ok db" using sale_steps_ok by blast
  with sale_steps_ok [OF assms(3)] assms(4) show ?thesis by (simp add: sales_ok_def)
qed

theorem sale_life_cycle_witness:
  "sale_ok demo_sale \<and> sale_follows demo_sale demo_confirmed"
proof -
  have 1: "sale_step\<^sup>*\<^sup>* demo_shop demo_shop1" using sale_step.create [OF demo_createSale] by blast
  have 2: "sale_step\<^sup>*\<^sup>* demo_shop1 demo_shop2" using sale_step.confirm [OF demo_confirm] by blast
  have "sales demo_shop = []" "demo_sale \<in> set (sales demo_shop1)" "sales demo_shop2 = [demo_confirmed]"
    by (simp_all add: demo_shop_def demo_shop1_def demo_shop2_def)
  with sale_life_cycle [OF _ 1 2] show ?thesis by auto
qed

text \<open>C16: for sales of up to a million units, the application of a payment is exact: it is refused
  exactly when it would pay more than the grand total, and otherwise paid amount and balance are
  the exact sums, although all of it is computed in doubles with a tolerance of 1e-9.\<close>

theorem sale_payment_exact:
  assumes s: "findSaleInCompany i company db = Inr s"
    and "0 \<le> sl_paid s" and "sl_paid s \<le> sl_grandTotal s" and "sl_grandTotal s \<le> 10 ^ 8"
    and "0 \<le> a" and "a \<le> 10 ^ 8"
  shows "applySalePayment i company (js_num a) user db =
    (if sl_grandTotal s < sl_paid s + a then Inl (AppException Conflict)
     else Inr (saveSale (s\<lparr>sl_paid := sl_paid s + a, sl_balance := sl_grandTotal s - (sl_paid s + a),
       sl_updatedBy := user\<rparr>) db))"
proof -
  let ?B = "2 * 10 ^ 8 :: int"
  have f: "fits ?B 6" by (simp add: fits_def)
  have p: "to_fixed2 (js_add (js_num (sl_paid s)) (js_num a)) = sl_paid s + a"
    using assms by (intro newPaid_exact [OF _ _ _ f]) auto
  have b: "to_fixed2 (js_sub (js_num (sl_grandTotal s)) (js_add (js_num (sl_paid s)) (js_num a)))
      = sl_grandTotal s - (sl_paid s + a)"
    using assms by (intro newBalance_exact [OF _ _ _ _ _ f]) auto
  have e: "exceeds (js_add (js_num (sl_paid s)) (js_num a)) (js_num (sl_grandTotal s))
      \<longleftrightarrow> sl_grandTotal s < sl_paid s + a"
  proof (cases "sl_grandTotal s < sl_paid s + a")
    case True
    with assms exceeds_over [OF _ _ _ _ _ f, of "sl_paid s" a "sl_grandTotal s"] show ?thesis by auto
  next
    case False
    with assms not_exceeds_within [of "sl_paid s" a "sl_grandTotal s"] show ?thesis by auto
  qed
  show ?thesis by (simp add: applySalePayment_def s Let_def e p b)
qed

theorem sale_payment_exact_witness:
  "applySalePayment 102 1 (js_num 3550) 9 demo_shop2
      = Inr (saveSale (demo_confirmed\<lparr>sl_paid := 3550, sl_balance := 0, sl_updatedBy := 9\<rparr>) demo_shop2)
    \<and> applySalePayment 102 1 (js_num 3551) 9 demo_shop2 = Inl (AppException Conflict)"
proof -
  have s: "findSaleInCompany 102 1 demo_shop2 = Inr demo_confirmed"
    by (simp add: findSaleInCompany_def demo_shop2_def demo_confirmed_def demo_sale_def)
  from sale_payment_exact [OF s, of 3550 9] sale_payment_exact [OF s, of 3551 9] show ?thesis
    by (simp add: demo_confirmed_def demo_sale_def)
qed

text \<open>A payment never takes a sale above its grand total, for amounts up to a trillion units.\<close>

theorem sale_payment_never_over:
  assumes "applySalePayment i company (js_num a) user db = Inr db'"
    and s: "findSaleInCompany i company db = Inr s"
    and "0 \<le> sl_paid s" and "0 \<le> a" and "0 \<le> sl_grandTotal s"
    and "sl_paid s \<le> 10 ^ 14" and "a \<le> 10 ^ 14" and "sl_grandTotal s \<le> 10 ^ 14"
  shows "\<exists>t. db' = saveSale t db \<and> sl_paid t = sl_paid s + a \<and> sl_paid t \<le> sl_grandTotal s
    \<and> sl_paid t + sl_balance t = sl_grandTotal s"
proof -
  let ?B = "2 * 10 ^ 14 :: int"
  have f: "fits ?B 6" by (simp add: fits_def)
  have p: "to_fixed2 (js_add (js_num (sl_paid s)) (js_num a)) = sl_paid s + a"
    using assms by (intro newPaid_exact [OF _ _ _ f]) auto
  have b: "to_fixed2 (js_sub (js_num (sl_grandTotal s)) (js_add (js_num (sl_paid s)) (js_num a)))
      = sl_grandTotal s - (sl_paid s + a)"
    using assms by (intro newBalance_exact [OF _ _ _ _ _ f]) auto
  have "\<not> exceeds (js_add (js_num (sl_paid s)) (js_num a)) (js_num (sl_grandTotal s))"
    and db': "db' = saveSale (s\<lparr>sl_paid := sl_paid s + a, sl_balance := sl_grandTotal s - (sl_paid s + a),
       sl_updatedBy := user\<rparr>) db"
    using assms(1) by (auto simp: applySalePayment_def s Let_def p b split: if_splits)
  then have "sl_paid s + a \<le> sl_grandTotal s"
    using assms exceeds_over [OF _ _ _ _ _ f, of "sl_paid s" a "sl_grandTotal s"] by force
  with db' show ?thesis by (intro exI conjI) (rule db', simp_all)
qed

theorem sale_payment_never_over_witness:
  "\<exists>db' t. applySalePayment 102 1 (js_num 1000) 9 demo_shop2 = Inr db' \<and> db' = saveSale t demo_shop2
    \<and> sl_paid t = 1000"
proof -
  have s: "findSaleInCompany 102 1 demo_shop2 = Inr demo_confirmed"
    by (simp add: findSaleInCompany_def demo_shop2_def demo_confirmed_def demo_sale_def)
  have "\<not> exceeds (js_add (js_num 0) (js_num 1000)) (js_num 3550)" by (rule not_exceeds_within) simp_all
  then obtain db' where run: "applySalePayment 102 1 (js_num 1000) 9 demo_shop2 = Inr db'"
    by (simp add: applySalePayment_def s Let_def demo_numbers demo_confirmed_def demo_sale_def del: One_nat_def)
  from sale_payment_never_over [OF this s] run show ?thesis by (auto simp: demo_confirmed_def demo_sale_def)
qed

definition demo_large :: sales_db where
  "demo_large = demo_shop2\<lparr>sales := [demo_confirmed\<lparr>sl_grandTotal := 1678436945, sl_paid := 778268723,
     sl_balance := 900168222\<rparr>]\<rparr>"

text \<open>The tolerance of 1e-9 is smaller than the rounding error of large amounts: a sale of
  16784369.45 of which 7782687.23 is paid refuses the exact remainder of 9001682.22.\<close>

theorem exact_remainder_refused:
  "applySalePayment 102 1 (js_num 900168222) 9 demo_large = Inl (AppException Conflict)
    \<and> map sl_balance (sales demo_large) = [900168222]"
proof -
  have "js_num 778268723 = of_int 8356596781961708 / 2 powi (52 - 22)"
    unfolding js_num_def by (rule fl_eqI) (use binade_ge1 [of 22 "778268723 / 100"] in \<open>simp_all add: power_int_def\<close>)
  then have a: "js_num 778268723 = 8356596781961708 / 2 ^ 30" by (simp add: power_int_def)
  have "js_num 900168222 = of_int 4832741342985585 / 2 powi (52 - 23)"
    unfolding js_num_def by (rule fl_eqI) (use binade_ge1 [of 23 "900168222 / 100"] in \<open>simp_all add: power_int_def\<close>)
  then have b: "js_num 900168222 = 4832741342985585 / 2 ^ 29" by (simp add: power_int_def)
  have "js_num 1678436945 = of_int 4505519866983219 / 2 powi (52 - 24)"
    unfolding js_num_def by (rule fl_eqI) (use binade_ge1 [of 24 "1678436945 / 100"] in \<open>simp_all add: power_int_def\<close>)
  then have c: "js_num 1678436945 = 4505519866983219 / 2 ^ 28" by (simp add: power_int_def)
  have "fl (js_num 778268723 + js_num 900168222) = of_int (4505519866983219 + 1) / 2 powi (52 - 24)"
    unfolding a b by (rule fl_tieI)
      (use binade_ge1 [of 24 "8356596781961708 / 2 ^ 30 + 4832741342985585 / 2 ^ 29"] in \<open>simp_all add: power_int_def\<close>)
  then have s: "js_add (js_num 778268723) (js_num 900168222) = 4505519866983220 / 2 ^ 28"
    by (simp add: js_add_def power_int_def)
  define y where "y = 4505519866983219 / 2 ^ 28 + js_eps"
  have y: "4505519866983219 / 2 ^ 28 < y" "y < 4505519866983219 / 2 ^ 28 + 1 / 2 ^ 29"
    using js_eps_bounds unfolding y_def by simp_all
  have "fl y = of_int 4505519866983219 / 2 powi (52 - 24)"
  proof (rule fl_eqI)
    show "binade y = 24" using binade_ge1 [of 24 y] y by simp
    show "0 < y" using y by simp
    show "\<bar>y * 2 powi (52 - 24) - of_int 4505519866983219\<bar> < 1 / 2"
      using y by (simp add: power_int_def abs_real_def field_simps)
  qed
  then have "exceeds (js_add (js_num 778268723) (js_num 900168222)) (js_num 1678436945)"
    unfolding exceeds_def js_add_def [of _ js_eps] c s y_def [symmetric] by (simp add: power_int_def)
  then show ?thesis
    by (simp add: applySalePayment_def findSaleInCompany_def demo_large_def demo_confirmed_def demo_sale_def
        Let_def)
qed

text \<open>Shipping saves the row it read before. A payment applied between the read and the save is
  lost: the sale is shipped with the paid amount and the balance from before the payment.\<close>

theorem stale_ship_loses_payment:
  assumes "sales_ok db" and read: "shipRead i company db = Inr s"
    and "applySalePayment i company allocated user db = Inr db1" and save: "shipSave s user2 now db1 = (s', db2)"
  shows "findSaleInCompany i company db2 = Inr s' \<and> sl_paid s' = sl_paid s \<and> sl_balance s' = sl_balance s"
proof -
  have s: "findSaleInCompany i company db = Inr s" using read by (auto simp: shipRead_def split: if_splits)
  with assms(3) obtain t where db1: "db1 = saveSale t db" "sl_id t = sl_id s"
    by (auto simp: applySalePayment_def Let_def split: if_splits)
  have s': "s' = s\<lparr>sl_fulfillment := Some Shipped, sl_shippedAt := Some now, sl_updatedBy := user2\<rparr>"
    and db2: "db2 = saveSale s' db1" using save by (auto simp: shipSave_def Let_def)
  have eq: "sales db2 = map (\<lambda>x. if sl_id x = sl_id s' then s' else x) (sales db)"
    unfolding db2 db1 saveSale_def by (auto simp: s' db1(2))
  have mem: "s \<in> set (sales db)" "sl_id s = i" "sl_company s = company" "\<not> sl_deleted s"
    using s by (auto simp: findSaleInCompany_def dest!: find_SomeD)
  have "List.find (\<lambda>x. sl_id x = i \<and> sl_company x = company \<and> \<not> sl_deleted x)
      (map (\<lambda>x. if sl_id x = sl_id s' then s' else x) xs) = Some s'" if "s \<in> set xs" for xs
    using that mem by (induction xs) (auto simp: s')
  with mem(1) have "findSaleInCompany i company db2 = Inr s'" by (simp add: findSaleInCompany_def eq)
  then show ?thesis by (simp add: s')
qed

theorem stale_ship_loses_payment_witness:
  "\<exists>db1 s' db2. shipRead 102 1 demo_shop2 = Inr demo_confirmed
    \<and> applySalePayment 102 1 (js_num 3550) 9 demo_shop2 = Inr db1
    \<and> shipSave demo_confirmed 9 ((2026, 2, 3), 0) db1 = (s', db2)
    \<and> findSaleInCompany 102 1 db2 = Inr s' \<and> sl_paid s' = 0"
proof -
  have ok: "sales_ok demo_shop2"
    by (simp add: sales_ok_def demo_shop2_def demo_confirmed_def demo_sale_def sale_ok_def)
  have r: "shipRead 102 1 demo_shop2 = Inr demo_confirmed"
    by (simp add: shipRead_def findSaleInCompany_def demo_shop2_def demo_confirmed_def demo_sale_def)
  have "\<not> exceeds (js_add (js_num 0) (js_num 3550)) (js_num 3550)" by (rule not_exceeds_within) simp_all
  then obtain db1 where 1: "applySalePayment 102 1 (js_num 3550) 9 demo_shop2 = Inr db1"
    by (auto simp: applySalePayment_def findSaleInCompany_def demo_shop2_def Let_def demo_numbers
        demo_confirmed_def demo_sale_def)
  obtain s' db2 where 2: "shipSave demo_confirmed 9 ((2026, 2, 3), 0) db1 = (s', db2)" by force
  from stale_ship_loses_payment [OF ok r 1 2] r 1 2 show ?thesis
    by (simp add: demo_confirmed_def demo_sale_def)
qed

end
