(* ===== verification/Sale_Returns.thy ===== *)
theory Sale_Returns
  imports Sale_Properties
begin

text \<open>
  Returns of sales (\<open>sales-returns/services/sale-returns.service.ts\<close>): creation against the returnable
  quantities of a confirmed sale, confirmation with the restock and the reversal of loyalty points,
  cancellation, and the application of a refund.
\<close>

section \<open>Tables\<close>

datatype return_status = RtDraft | RtConfirmed | RtRefunded | RtCancelled
datatype item_condition = Restock | Damaged

record return_row =
  ry_saleItem :: id
  ry_variant :: id
  ry_quantity :: int
  ry_price :: int
  ry_discount :: int
  ry_lineTotal :: int
  ry_condition :: item_condition
  ry_productName :: string
  ry_sku :: string

record return_item = return_row +
  ry_id :: id
  ry_return :: id

record sale_return =
  rt_id :: id
  rt_number :: string
  rt_company :: id
  rt_branch :: "id option"
  rt_sale :: id
  rt_customer :: id
  rt_status :: return_status
  rt_subtotal :: int
  rt_discount :: int
  rt_refund :: int
  rt_refunded :: int
  rt_currency :: string
  rt_createdBy :: id
  rt_confirmedBy :: "id option"
  rt_confirmedAt :: "jdate option"

record returns_db = sales_db +
  saleReturns :: "sale_return list"
  returnItems :: "return_item list"
  returnCounters :: counters

definition generateReturnNumber ::
  "id \<Rightarrow> nat \<Rightarrow> 'a returns_db_scheme \<Rightarrow> string \<times> 'a returns_db_scheme" where
  "generateReturnNumber company year db =
     (let (nextSequence, t) = next_sequence company year (returnCounters db)
      in (formatDocumentNumber ''RET'' year nextSequence, db\<lparr>returnCounters := t\<rparr>))"

interpretation return_numbers: numbering generateReturnNumber returnCounters "''RET''"
  by unfold_locales (simp_all add: generateReturnNumber_def next_sequence_eq)

section \<open>Creation\<close>

record return_item_dto =
  rd_saleItem :: id
  rd_quantity :: int
  rd_discount :: "int option"
  rd_condition :: "item_condition option"

record return_dto =
  rd_sale :: id
  rd_items :: "return_item_dto list"

text \<open>What the returns that are not cancelled hold of a sale item.\<close>

definition returnedQuantity :: "id \<Rightarrow> 'a returns_db_scheme \<Rightarrow> int" where
  "returnedQuantity i db =
     sum_list (map ry_quantity (filter (\<lambda>x. ry_saleItem x = i
       \<and> (\<exists>r \<in> set (saleReturns db). rt_id r = ry_return x \<and> rt_status r \<noteq> RtCancelled)) (returnItems db)))"

definition getRemainingReturnableQuantity :: "id \<Rightarrow> int \<Rightarrow> 'a returns_db_scheme \<Rightarrow> int" where
  "getRemainingReturnableQuantity i originalQuantity db = originalQuantity - returnedQuantity i db"

definition returnLine :: "'b sale_row_scheme \<Rightarrow> return_item_dto \<Rightarrow> money_line" where
  "returnLine x dto =
     \<lparr>ml_price = ml_price x, ml_quantity = rd_quantity dto,
      ml_discount = (case rd_discount dto of None \<Rightarrow> 0 | Some d \<Rightarrow> d), ml_tax = 0\<rparr>"

definition returnRow :: "sale_item \<Rightarrow> return_item_dto \<Rightarrow> return_row" where
  "returnRow x dto =
     (let l = returnLine x dto; lineTotal = js_sub (lineSubtotal l) (js_num (ml_discount l))
      in \<lparr>ry_saleItem = si_id x, ry_variant = si_variant x, ry_quantity = rd_quantity dto,
          ry_price = ml_price x, ry_discount = to_fixed2 (js_num (ml_discount l)),
          ry_lineTotal = to_fixed2 lineTotal,
          ry_condition = (case rd_condition dto of None \<Rightarrow> Restock | Some c \<Rightarrow> c),
          ry_productName = si_productName x, ry_sku = si_sku x\<rparr>)"

definition addReturnLine :: "money_line \<Rightarrow> real \<times> real \<Rightarrow> real \<times> real" where
  "addReturnLine l t = (js_add (fst t) (lineSubtotal l), js_add (snd t) (js_num (ml_discount l)))"

text \<open>One turn of the item loop; the totals are the subtotal and the discount.\<close>

definition returnItem ::
  "sale \<Rightarrow> 'a returns_db_scheme \<Rightarrow> return_item_dto \<Rightarrow> (real \<times> real) \<times> return_row list
    \<Rightarrow> ((real \<times> real) \<times> return_row list) result" where
  "returnItem s db dto st =
     andThen (orThrow (List.find (\<lambda>x. si_id x = rd_saleItem dto \<and> si_sale x = sl_id s) (saleItems db))
        (AppException ValidationError)) (\<lambda>x.
     if getRemainingReturnableQuantity (si_id x) (ml_quantity x) db < rd_quantity dto
     then Inl (AppException Conflict)
     else andThen (assertDiscountFits (returnLine x dto)) (\<lambda>_.
       Inr (addReturnLine (returnLine x dto) (fst st), snd st @ [returnRow x dto])))"

definition insertReturnItem :: "id \<Rightarrow> return_row \<Rightarrow> 'a returns_db_scheme \<Rightarrow> 'a returns_db_scheme" where
  "insertReturnItem r row db =
     db\<lparr>returnItems := returnItems db @ [return_row.extend row \<lparr>ry_id = rowIds db, ry_return = r\<rparr>],
        rowIds := rowIds db + 1\<rparr>"

definition createSaleReturn ::
  "id \<Rightarrow> id \<Rightarrow> return_dto \<Rightarrow> jdate \<Rightarrow> 'a returns_db_scheme
    \<Rightarrow> (sale_return \<times> 'a returns_db_scheme) result" where
  "createSaleReturn company user dto now db =
     andThen (orThrow (List.find (\<lambda>s. sl_id s = rd_sale dto \<and> sl_company s = company \<and> \<not> sl_deleted s)
        (sales db)) (AppException ValidationError)) (\<lambda>s.
     if sl_status s \<noteq> SaleConfirmed then Inl (AppException UnprocessableEntity)
     else andThen (forEach (returnItem s db) (sort_key rd_saleItem (rd_items dto)) ((0, 0), []))
       (\<lambda>((subtotal, discount), rows).
       let (number, db1) = generateReturnNumber company (getUTCFullYear now) db;
           r = \<lparr>rt_id = rowIds db1, rt_number = number, rt_company = company, rt_branch = sl_branch s,
                rt_sale = sl_id s, rt_customer = sl_customer s, rt_status = RtDraft,
                rt_subtotal = to_fixed2 subtotal, rt_discount = to_fixed2 discount,
                rt_refund = to_fixed2 (js_sub subtotal discount), rt_refunded = 0,
                rt_currency = sl_currency s, rt_createdBy = user, rt_confirmedBy = None,
                rt_confirmedAt = None\<rparr>;
           db2 = db1\<lparr>saleReturns := saleReturns db1 @ [r], rowIds := rowIds db1 + 1\<rparr>
       in Inr (r, fold (insertReturnItem (rt_id r)) rows db2)))"

section \<open>Confirmation, cancellation, refund\<close>

definition findReturn :: "id \<Rightarrow> id \<Rightarrow> 'a returns_db_scheme \<Rightarrow> sale_return result" where
  "findReturn i company db =
     orThrow (List.find (\<lambda>r. rt_id r = i \<and> rt_company r = company) (saleReturns db)) (AppException NotFound)"

definition saveReturn :: "sale_return \<Rightarrow> 'a returns_db_scheme \<Rightarrow> 'a returns_db_scheme" where
  "saveReturn r db = db\<lparr>saleReturns := map (\<lambda>x. if rt_id x = rt_id r then r else x) (saleReturns db)\<rparr>"

text \<open>The warehouse of the sale, inferred and stored when a legacy sale has none.\<close>

definition resolveWarehouseIdForReturnConfirmation ::
  "org_db \<Rightarrow> sale \<Rightarrow> id \<Rightarrow> 'a returns_db_scheme \<Rightarrow> (id \<times> 'a returns_db_scheme) result" where
  "resolveWarehouseIdForReturnConfirmation org s company db =
     (case sl_warehouse s of
        Some w \<Rightarrow> Inr (w, db)
      | None \<Rightarrow>
          (case sl_branch s of
             None \<Rightarrow> Inl (AppException ValidationError)
           | Some b \<Rightarrow>
               (case activeWarehousesOf org company b of
                  [w] \<Rightarrow> Inr (w, db\<lparr>sales := map (\<lambda>x. if sl_id x = sl_id s then x\<lparr>sl_warehouse := Some w\<rparr> else x)
                                   (sales db)\<rparr>)
                | _ \<Rightarrow> Inl (AppException ValidationError))))"

text \<open>The stock change of an item: nothing for a damaged one.\<close>

definition restocked :: "'b return_row_scheme \<Rightarrow> int" where
  "restocked i = (case ry_condition i of Restock \<Rightarrow> ry_quantity i | Damaged \<Rightarrow> 0)"

definition returnTurn ::
  "id \<Rightarrow> id \<Rightarrow> id \<Rightarrow> jdate \<Rightarrow> 'b return_row_scheme \<Rightarrow> 'a stock_db_scheme \<Rightarrow> 'a stock_db_scheme" where
  "returnTurn w returnId user now i db =
     (let (stock, db1) = lockWarehouseStockRow w (ry_variant i) db;
          movement = (\<lambda>change after k. \<lparr>mv_id = k, mv_warehouse = w, mv_variant = ry_variant i,
            mv_type = SaleReturnMovement, mv_change = change, mv_after = after, mv_refType = RefSaleReturn,
            mv_refId = returnId, mv_createdAt = now, mv_createdBy = Some user\<rparr>)
      in case ry_condition i of
           Restock \<Rightarrow>
             (let after = onHandQuantity stock + ry_quantity i
              in saveMovement (movement (ry_quantity i) after) (updateOnHand w (ry_variant i) after db1))
         | Damaged \<Rightarrow> saveMovement (movement 0 (onHandQuantity stock)) db1)"

text \<open>The points to take back: the share of the refund in the sale, at most all, rounded down.\<close>

definition reversalPoints :: "int \<Rightarrow> int \<Rightarrow> int \<Rightarrow> int" where
  "reversalPoints earned refund saleTotal =
     \<lfloor>js_mul (of_int earned) (min (js_div (js_num refund) (js_num saleTotal)) 1)\<rfloor>"

definition reversePoints ::
  "sale \<Rightarrow> sale_return \<Rightarrow> id \<Rightarrow> id \<Rightarrow> 'a returns_db_scheme \<Rightarrow> 'a returns_db_scheme result" where
  "reversePoints s r company user db =
     (if 0 < js_num (sl_grandTotal s) then
        (case findPointsBySource company FromSale (sl_id s) db of
           None \<Rightarrow> Inr db
         | Some originalEarn \<Rightarrow>
             andThen (reverseForSaleReturn company (rt_customer r) (sl_id s) (rt_id r)
               (reversalPoints (lt_delta originalEarn) (rt_refund r) (sl_grandTotal s)) user db)
               (\<lambda>(_, db'). Inr db'))
      else Inr db)"

definition confirmReturn ::
  "org_db \<Rightarrow> id \<Rightarrow> id \<Rightarrow> id \<Rightarrow> jdate \<Rightarrow> 'a returns_db_scheme
    \<Rightarrow> (sale_return \<times> 'a returns_db_scheme) result" where
  "confirmReturn org i company user now db =
     andThen (findReturn i company db) (\<lambda>r.
     if rt_status r \<noteq> RtDraft then Inl (AppException UnprocessableEntity)
     else andThen (orThrow (List.find (\<lambda>s. sl_id s = rt_sale r \<and> \<not> sl_deleted s) (sales db)) EntityNotFound) (\<lambda>s.
          andThen (resolveWarehouseIdForReturnConfirmation org s company db) (\<lambda>(w, db1).
          let items = sort_key ry_variant (filter (\<lambda>x. ry_return x = rt_id r) (returnItems db1));
              db2 = fold (returnTurn w (rt_id r) user now) items db1
          in andThen (reversePoints s r company user db2) (\<lambda>db3.
             let r' = r\<lparr>rt_status := RtConfirmed, rt_confirmedBy := Some user, rt_confirmedAt := Some now\<rparr>
             in Inr (r', saveReturn r' db3)))))"

definition cancelReturn ::
  "id \<Rightarrow> id \<Rightarrow> 'a returns_db_scheme \<Rightarrow> (sale_return \<times> 'a returns_db_scheme) result" where
  "cancelReturn i company db =
     andThen (findReturn i company db) (\<lambda>r.
     if rt_status r \<noteq> RtDraft then Inl (AppException UnprocessableEntity)
     else let r' = r\<lparr>rt_status := RtCancelled\<rparr> in Inr (r', saveReturn r' db))"

definition applyRefund ::
  "id \<Rightarrow> id \<Rightarrow> real \<Rightarrow> 'a returns_db_scheme \<Rightarrow> 'a returns_db_scheme result" where
  "applyRefund i company allocated db =
     andThen (findReturn i company db) (\<lambda>r.
     if rt_status r \<noteq> RtConfirmed \<and> rt_status r \<noteq> RtRefunded then Inl (AppException UnprocessableEntity)
     else
       let eligible = js_num (rt_refund r); newRefunded = js_add (js_num (rt_refunded r)) allocated
       in if exceeds newRefunded eligible then Inl (AppException Conflict)
          else Inr (saveReturn (r\<lparr>rt_refunded := to_fixed2 newRefunded,
            rt_status := (if reaches newRefunded eligible then RtRefunded else RtConfirmed)\<rparr>) db))"

end
