(* ===== verification/Return_Properties.thy ===== *)
theory Return_Properties
  imports Sale_Returns
begin

text \<open>
  What the sale returns guarantee: exact refund amounts, the stock that comes back, the bound on
  returned quantities, refunds that never exceed the eligible amount, and where the code falls short.
\<close>

section \<open>Creation\<close>

definition returnedAs :: "sale \<Rightarrow> 'a returns_db_scheme \<Rightarrow> return_item_dto \<Rightarrow> sale_item \<Rightarrow> bool" where
  "returnedAs s db i x \<longleftrightarrow> x \<in> set (saleItems db) \<and> si_id x = rd_saleItem i \<and> si_sale x = sl_id s
     \<and> rd_quantity i \<le> getRemainingReturnableQuantity (si_id x) (ml_quantity x) db
     \<and> assertDiscountFits (returnLine x i) = Inr ()"

lemma returnItem_Inr:
  assumes "returnItem s db i (t0, rows0) = Inr st"
  shows "\<exists>x. returnedAs s db i x \<and> st = (addReturnLine (returnLine x i) t0, rows0 @ [returnRow x i])"
  using assms by (auto simp: returnItem_def returnedAs_def split: if_splits dest!: find_SomeD)

lemma returnItems_loop:
  assumes "forEach (returnItem s db) items (t0, rows0) = Inr (t, rows)"
  shows "\<exists>xs. list_all2 (returnedAs s db) items xs \<and> t = fold addReturnLine (map2 returnLine xs items) t0
    \<and> rows = rows0 @ map2 returnRow xs items"
  using assms
proof (induction items arbitrary: t0 rows0)
  case (Cons i items)
  from Cons.prems obtain st where st: "returnItem s db i (t0, rows0) = Inr st"
    "forEach (returnItem s db) items st = Inr (t, rows)" by auto
  from returnItem_Inr [OF st(1)] obtain x where x: "returnedAs s db i x"
    "st = (addReturnLine (returnLine x i) t0, rows0 @ [returnRow x i])" by blast
  from Cons.IH [OF st(2) [unfolded x(2)]] obtain xs where
    "list_all2 (returnedAs s db) items xs"
    "t = fold addReturnLine (map2 returnLine xs items) (addReturnLine (returnLine x i) t0)"
    "rows = (rows0 @ [returnRow x i]) @ map2 returnRow xs items" by blast
  with x show ?case by (intro exI [of _ "x # xs"]) simp
qed simp

text \<open>The two running totals are those of the sale service.\<close>

lemma fold_addReturnLine:
  "fold addReturnLine ls (mt_subtotal t, mt_discount t)
    = (mt_subtotal (fold addLine ls t), mt_discount (fold addLine ls t))"
proof (induction ls arbitrary: t)
  case (Cons l ls)
  have "addReturnLine l (mt_subtotal t, mt_discount t) = (mt_subtotal (addLine l t), mt_discount (addLine l t))"
    by (simp add: addReturnLine_def addLine_def)
  with Cons show ?case by simp
qed simp

lemma return_totals:
  assumes ok: "document_fits B ls" and t: "fold addReturnLine ls (0, 0) = (subtotal, discount)"
  shows "to_fixed2 subtotal = sumGross ls \<and> to_fixed2 discount = sumDiscount ls
    \<and> to_fixed2 (js_sub subtotal discount) = sumGross ls - sumDiscount ls"
proof -
  have e: "subtotal = mt_subtotal (documentTotals ls)" "discount = mt_discount (documentTotals ls)"
    using fold_addReturnLine [of ls zeroTotals] t by (simp_all add: zeroTotals_def documentTotals_def)
  have f: "fits B (10 * length ls + 20)" and b: "sumGross ls + sumTax ls \<le> B"
    and lines: "\<forall>l \<in> set ls. line_ok l" using ok by (simp_all add: document_fits_def)
  note nn = sums_nonneg [OF lines]
  have "near B (Suc (5 * length ls)) (js_sub subtotal discount) (sumGross ls - sumDiscount ls)"
    using near_sub [OF documentTotals_near(1,2) [OF ok]] nn b fits_mono [OF f, of "5 * length ls"]
    by (simp add: e)
  then have "to_fixed2 (js_sub subtotal discount) = sumGross ls - sumDiscount ls"
    by (rule to_fixed2_near [OF _ fits_mono [OF f]]) simp
  with document_totals_exact [OF ok] show ?thesis by (simp add: e)
qed

lemma createSaleReturn_cases:
  assumes "createSaleReturn company user dto now db = Inr (r, db')"
  shows "\<exists>s xs subtotal discount n db1. s \<in> set (sales db) \<and> sl_id s = rd_sale dto \<and> sl_company s = company
    \<and> sl_status s = SaleConfirmed
    \<and> list_all2 (returnedAs s db) (sort_key rd_saleItem (rd_items dto)) xs
    \<and> fold addReturnLine (map2 returnLine xs (sort_key rd_saleItem (rd_items dto))) (0, 0) = (subtotal, discount)
    \<and> generateReturnNumber company (getUTCFullYear now) db = (n, db1)
    \<and> rt_id r = rowIds db1 \<and> rt_company r = company \<and> rt_sale r = sl_id s \<and> rt_status r = RtDraft
    \<and> rt_refunded r = 0 \<and> rt_number r = n
    \<and> rt_subtotal r = to_fixed2 subtotal \<and> rt_discount r = to_fixed2 discount
    \<and> rt_refund r = to_fixed2 (js_sub subtotal discount)
    \<and> db' = fold (insertReturnItem (rt_id r)) (map2 returnRow xs (sort_key rd_saleItem (rd_items dto)))
        (db1\<lparr>saleReturns := saleReturns db1 @ [r], rowIds := rowIds db1 + 1\<rparr>)"
proof -
  let ?items = "sort_key rd_saleItem (rd_items dto)"
  obtain n db1 where g: "generateReturnNumber company (getUTCFullYear now) db = (n, db1)" by fastforce
  from assms g obtain s subtotal discount rows where
    s: "List.find (\<lambda>s. sl_id s = rd_sale dto \<and> sl_company s = company \<and> \<not> sl_deleted s) (sales db) = Some s"
      "sl_status s = SaleConfirmed"
    and loop: "forEach (returnItem s db) ?items ((0, 0), []) = Inr ((subtotal, discount), rows)"
    and r: "r = \<lparr>rt_id = rowIds db1, rt_number = n, rt_company = company, rt_branch = sl_branch s,
        rt_sale = sl_id s, rt_customer = sl_customer s, rt_status = RtDraft,
        rt_subtotal = to_fixed2 subtotal, rt_discount = to_fixed2 discount,
        rt_refund = to_fixed2 (js_sub subtotal discount), rt_refunded = 0,
        rt_currency = sl_currency s, rt_createdBy = user, rt_confirmedBy = None, rt_confirmedAt = None\<rparr>"
    and db': "db' = fold (insertReturnItem (rt_id r)) rows
        (db1\<lparr>saleReturns := saleReturns db1 @ [r], rowIds := rowIds db1 + 1\<rparr>)"
    by (auto simp: createSaleReturn_def Let_def split: if_splits)
  from returnItems_loop [OF loop] obtain xs where "list_all2 (returnedAs s db) ?items xs"
    "fold addReturnLine (map2 returnLine xs ?items) (0, 0) = (subtotal, discount)"
    "rows = map2 returnRow xs ?items" by auto
  with g s(2) find_SomeD [OF s(1)] db' show ?thesis
    by (intro exI [of _ s] exI [of _ xs] exI [of _ subtotal] exI [of _ discount] exI [of _ n] exI [of _ db1])
      (simp add: r)
qed

lemma insertReturnItems:
  "map return_row.truncate (returnItems (fold (insertReturnItem r) rows db))
    = map return_row.truncate (returnItems db) @ rows"
  "map ry_return (returnItems (fold (insertReturnItem r) rows db))
    = map ry_return (returnItems db) @ replicate (length rows) r"
  "saleReturns (fold (insertReturnItem r) rows db) = saleReturns db"
  "saleItems (fold (insertReturnItem r) rows db) = saleItems db"
proof -
  show "map return_row.truncate (returnItems (fold (insertReturnItem r) rows db))
    = map return_row.truncate (returnItems db) @ rows"
  proof (induction rows arbitrary: db)
    case (Cons x rows)
    then show ?case by (cases x) (simp add: insertReturnItem_def return_row.truncate_def return_row.extend_def)
  qed simp
qed ((induction rows arbitrary: db; simp add: insertReturnItem_def return_row.extend_def
    replicate_append_same [symmetric])+)

lemma insertReturnItems_new:
  "\<exists>new. returnItems (fold (insertReturnItem r) rows db) = returnItems db @ new
    \<and> map return_row.truncate new = rows \<and> map ry_return new = replicate (length rows) r"
proof (induction rows arbitrary: db)
  case (Cons x rows)
  obtain y where y: "returnItems (insertReturnItem r x db) = returnItems db @ [y]" "return_row.truncate y = x"
      "ry_return y = r"
    by (cases x) (simp add: insertReturnItem_def return_row.truncate_def return_row.extend_def)
  from Cons [of "insertReturnItem r x db"] obtain new where
    "returnItems (fold (insertReturnItem r) rows (insertReturnItem r x db))
      = returnItems (insertReturnItem r x db) @ new"
    "map return_row.truncate new = rows" "map ry_return new = replicate (length rows) r" by blast
  with y show ?case by (intro exI [of _ "y # new"]) simp
qed simp

lemma generateReturnNumber_frame:
  "generateReturnNumber company y db = (n, db') \<Longrightarrow> saleReturns db' = saleReturns db
    \<and> returnItems db' = returnItems db \<and> saleItems db' = saleItems db \<and> rowIds db' = rowIds db"
  by (auto simp: generateReturnNumber_def next_sequence_eq)

definition itemsOfReturn :: "id \<Rightarrow> 'a returns_db_scheme \<Rightarrow> return_item list" where
  "itemsOfReturn r db = filter (\<lambda>x. ry_return x = r) (returnItems db)"

text \<open>A stored row in exact cents.\<close>

definition row_line :: "'b return_row_scheme \<Rightarrow> money_line" where
  "row_line x = \<lparr>ml_price = ry_price x, ml_quantity = ry_quantity x, ml_discount = ry_discount x, ml_tax = 0\<rparr>"

text \<open>The request as its DTO validates it, with discounts of at most \<open>B\<close> cents.\<close>

definition return_request_within :: "int \<Rightarrow> return_dto \<Rightarrow> bool" where
  "return_request_within B dto \<longleftrightarrow> (\<forall>i \<in> set (rd_items dto). 1 \<le> rd_quantity i
     \<and> (\<forall>d. rd_discount i = Some d \<longrightarrow> 0 \<le> d \<and> d \<le> B))"

lemma return_lines_ok:
  assumes xs: "list_all2 (returnedAs s db) items xs"
    and rq: "\<forall>i \<in> set items. 1 \<le> rd_quantity i \<and> (\<forall>d. rd_discount i = Some d \<longrightarrow> 0 \<le> d \<and> d \<le> B)"
    and pos: "\<forall>x \<in> set (saleItems db). 0 \<le> ml_price x"
    and B: "fits B 3" "sumGross (map2 returnLine xs items) \<le> B"
  shows "(\<forall>l \<in> set (map2 returnLine xs items). line_ok l)
    \<and> map row_line (map2 returnRow xs items) = map2 returnLine xs items"
  using xs rq B(2)
proof (induction rule: list_all2_induct)
  case (Cons i items x xs)
  let ?l = "returnLine x i"
  have x: "0 \<le> ml_price x" "assertDiscountFits ?l = Inr ()"
    using Cons.hyps(1) pos by (simp_all add: returnedAs_def)
  have B0: "0 \<le> B" using B(1) by (simp add: fits_def)
  have l: "0 \<le> ml_price ?l" "0 \<le> ml_quantity ?l" "0 \<le> ml_discount ?l" "ml_discount ?l \<le> B"
    using x Cons.prems(1) B0 by (simp_all add: returnLine_def split: option.splits)
  have nn: "0 \<le> sumGross (map2 returnLine xs items)"
    unfolding sumGross_def
  proof (rule sum_list_nonneg_map)
    fix l assume "l \<in> set (map2 returnLine xs items)"
    then obtain x' i' where l': "l = returnLine x' i'" "(x', i') \<in> set (zip xs items)" by auto
    then have "i' \<in> set items" by (auto dest: set_zip_rightD)
    moreover have "returnedAs s db i' x'" using l'(2) Cons.hyps(2)
      by (auto simp: list_all2_conv_all_nth set_zip)
    ultimately show "0 \<le> gross l" using pos Cons.prems(1)
      by (force simp: l'(1) gross_def returnLine_def returnedAs_def intro!: mult_nonneg_nonneg)
  qed
  then have g: "gross ?l \<le> B" using Cons.prems(2) by simp
  have "ml_discount ?l \<le> gross ?l" using assertDiscountFits_sound [OF l(1-3) g l(4) B(1) x(2)] .
  with l have "line_ok ?l" by (simp add: line_ok_def returnLine_def)
  moreover have "to_fixed2 (js_num (ml_discount ?l)) = ml_discount ?l"
    using l fits_mono [OF B(1), of 1] by (intro to_fixed2_near [OF near_num]) auto
  then have "row_line (returnRow x i) = ?l"
    by (simp add: row_line_def returnRow_def Let_def) (simp add: returnLine_def)
  moreover have "0 \<le> gross ?l" using l by (simp add: gross_def)
  ultimately show ?case using Cons by simp
qed simp

section \<open>Confirmation\<close>

lemma updateOnHand_same:
  "warehouseStock db (w, v) = Some r \<Longrightarrow> updateOnHand w v (onHandQuantity r) db = db"
  by (simp add: updateOnHand_def fun_upd_idem)

text \<open>Both branches of the turn post one movement; a damaged item posts a zero.\<close>

lemma returnTurn_post:
  "returnTurn w rid user now i db = postRow w (ry_variant i) (restocked i)
     (\<lambda>after k. \<lparr>mv_id = k, mv_warehouse = w, mv_variant = ry_variant i, mv_type = SaleReturnMovement,
        mv_change = restocked i, mv_after = after, mv_refType = RefSaleReturn, mv_refId = rid,
        mv_createdAt = now, mv_createdBy = Some user\<rparr>) db"
proof -
  obtain r d where l: "lockWarehouseStockRow w (ry_variant i) db = (r, d)" by force
  from lockWarehouseStockRow_laws(3) [OF l] show ?thesis
    by (cases "ry_condition i")
      (simp_all add: returnTurn_def postRow_def restocked_def l Let_def updateOnHand_same)
qed

interpretation restock: stock_turns "returnTurn w rid user now" "\<lambda>db. db" "\<lambda>_ _. True" w ry_variant restocked
  for w rid user now
proof (unfold_locales, goal_cases)
  case (1 s i)
  show ?case unfolding returnTurn_post by (rule postRow_moves) simp
qed simp

lemma resolveWarehouse_cases:
  assumes "resolveWarehouseIdForReturnConfirmation org s company db = Inr (w, db')"
  shows "(sl_warehouse s = Some w \<or> (sl_warehouse s = None \<and> (\<exists>b. sl_branch s = Some b
      \<and> activeWarehousesOf org company b = [w])))
    \<and> warehouseStock db' = warehouseStock db \<and> stockMovements db' = stockMovements db
    \<and> returnItems db' = returnItems db \<and> saleReturns db' = saleReturns db \<and> saleItems db' = saleItems db"
  using assms by (auto simp: resolveWarehouseIdForReturnConfirmation_def split: option.splits list.splits)

lemma stock_frame_returns:
  "stock_frame db d \<Longrightarrow> saleReturns d = saleReturns db \<and> returnItems d = returnItems db
    \<and> saleItems d = saleItems db"
  by (cases db; cases d) (simp add: stock_frame_def)

lemma reversePoints_frame:
  assumes "reversePoints s r company user db = Inr db'"
  shows "warehouseStock db' = warehouseStock db \<and> stockMovements db' = stockMovements db
    \<and> saleReturns db' = saleReturns db \<and> returnItems db' = returnItems db \<and> saleItems db' = saleItems db"
proof -
  from assms have "db' = db \<or> (\<exists>t n. reverseForSaleReturn company (rt_customer r) (sl_id s) (rt_id r) n user db
      = Inr (t, db'))"
    by (auto simp: reversePoints_def split: if_splits option.splits)
  then have pf: "db' = db \<or> points_frame db db'" using reverseForSaleReturn_frame by blast
  have "points_frame db db' \<Longrightarrow> saleReturns db' = saleReturns db \<and> returnItems db' = returnItems db
      \<and> saleItems db' = saleItems db"
    by (cases db; cases db') (simp add: points_frame_def)
  with pf show ?thesis unfolding points_frame_def by blast
qed

lemma saveReturn_stock [simp]:
  "warehouseStock (saveReturn r db) = warehouseStock db" "stockMovements (saveReturn r db) = stockMovements db"
  "returnItems (saveReturn r db) = returnItems db" "level (saveReturn r db) w v = level db w v"
  "saleItems (saveReturn r db) = saleItems db"
  by (simp_all add: saveReturn_def level_def)

lemma confirmReturn_laws:
  assumes "confirmReturn org i company user now db = Inr (r', db')"
  shows "\<exists>r s w d. findReturn i company db = Inr r \<and> rt_status r = RtDraft
    \<and> s \<in> set (sales db) \<and> sl_id s = rt_sale r
    \<and> List.find (\<lambda>s. sl_id s = rt_sale r \<and> \<not> sl_deleted s) (sales db) = Some s
    \<and> resolveWarehouseIdForReturnConfirmation org s company db = Inr (w, d)
    \<and> (sl_warehouse s = Some w \<or> (sl_warehouse s = None \<and> (\<exists>b. sl_branch s = Some b
        \<and> activeWarehousesOf org company b = [w])))
    \<and> r' = r\<lparr>rt_status := RtConfirmed, rt_confirmedBy := Some user, rt_confirmedAt := Some now\<rparr>
    \<and> saleReturns db' = map (\<lambda>x. if rt_id x = rt_id r then r' else x) (saleReturns db)
    \<and> returnItems db' = returnItems db \<and> saleItems db' = saleItems db
    \<and> (\<exists>ms. logs db db' ms \<and> running db ms
        \<and> (\<forall>x v. movementSum ms x v = lineDelta w ry_variant restocked (itemsOfReturn (rt_id r) db) x v))"
proof -
  from assms obtain r s w db1 db3 where
    r: "findReturn i company db = Inr r" "rt_status r = RtDraft"
    and s: "List.find (\<lambda>s. sl_id s = rt_sale r \<and> \<not> sl_deleted s) (sales db) = Some s"
    and w: "resolveWarehouseIdForReturnConfirmation org s company db = Inr (w, db1)"
    and db3: "reversePoints s r company user (fold (returnTurn w (rt_id r) user now)
        (sort_key ry_variant (filter (\<lambda>x. ry_return x = rt_id r) (returnItems db1))) db1) = Inr db3"
    and r': "r' = r\<lparr>rt_status := RtConfirmed, rt_confirmedBy := Some user, rt_confirmedAt := Some now\<rparr>"
    and db': "db' = saveReturn r' db3"
    by (auto simp: confirmReturn_def Let_def split: if_splits)
  let ?items = "sort_key ry_variant (itemsOfReturn (rt_id r) db)"
  let ?db2 = "fold (returnTurn w (rt_id r) user now) ?items db1"
  note wl = resolveWarehouse_cases [OF w]
  have eq: "sort_key ry_variant (filter (\<lambda>x. ry_return x = rt_id r) (returnItems db1)) = ?items"
    using wl by (simp add: itemsOfReturn_def)
  note fr = reversePoints_frame [OF db3 [unfolded eq]]
  have mv: "moves_rows (lineDelta w ry_variant restocked ?items) db1 ?db2"
    by (rule restock.fold_turns) simp
  then have sf: "stock_frame db1 ?db2" by (simp add: moves_rows_def)
  from moves_rows_logs(1) [OF mv] obtain ms where ms: "logs db1 ?db2 ms" "running db1 ms"
    "\<forall>x v. movementSum ms x v = lineDelta w ry_variant restocked ?items x v" by blast
  have lev: "level db1 x v = level db x v" "level db' x v = level ?db2 x v" for x v
    using wl fr by (auto intro!: level_cong simp: db')
  have "logs db db' ms" using ms(1) wl fr lev by (simp add: logs_def db')
  moreover have "running db ms" using ms(2) lev by (simp add: running_def)
  ultimately have "\<exists>ms. logs db db' ms \<and> running db ms
      \<and> (\<forall>x v. movementSum ms x v = lineDelta w ry_variant restocked (itemsOfReturn (rt_id r) db) x v)"
    using ms(3) by auto
  moreover have "saleReturns db' = map (\<lambda>x. if rt_id x = rt_id r then r' else x) (saleReturns db)"
    "returnItems db' = returnItems db" "saleItems db' = saleItems db"
    using fr wl stock_frame_returns [OF sf] by (simp_all add: db' saveReturn_def r')
  ultimately show ?thesis using r r' wl s w find_SomeD [OF s] by blast
qed

lemma confirmReturn_ids:
  assumes "confirmReturn org i company user now db = Inr (r', db')"
  shows "rowIds db \<le> rowIds db'"
proof -
  from assms obtain r s w db1 db3 where
    w: "resolveWarehouseIdForReturnConfirmation org s company db = Inr (w, db1)"
    and db3: "reversePoints s r company user (fold (returnTurn w (rt_id r) user now)
        (sort_key ry_variant (filter (\<lambda>x. ry_return x = rt_id r) (returnItems db1))) db1) = Inr db3"
    and db': "rowIds db' = rowIds db3"
    by (auto simp: confirmReturn_def saveReturn_def Let_def split: if_splits)
  have "moves_rows (lineDelta w ry_variant restocked (sort_key ry_variant (filter (\<lambda>x. ry_return x = rt_id r) (returnItems db1)))) db1
      (fold (returnTurn w (rt_id r) user now) (sort_key ry_variant (filter (\<lambda>x. ry_return x = rt_id r) (returnItems db1))) db1)"
    by (rule restock.fold_turns) simp
  moreover have "rowIds db1 = rowIds db"
    using w by (auto simp: resolveWarehouseIdForReturnConfirmation_def split: option.splits list.splits)
  moreover have "rowIds d \<le> rowIds db3" if "reversePoints s r company user d = Inr db3" for d
  proof -
    from that have "db3 = d \<or> (\<exists>t n. reverseForSaleReturn company (rt_customer r) (sl_id s) (rt_id r) n user d
        = Inr (t, db3))"
      by (auto simp: reversePoints_def split: if_splits option.splits)
    then show ?thesis using reverseForSaleReturn_frame by (fastforce simp: points_frame_def)
  qed
  ultimately show ?thesis using db3 db' by (fastforce simp: moves_rows_def)
qed

type_synonym return_request = "org_db \<times> id \<times> id \<times> id \<times> jdate"

definition serveReturn :: "return_request \<Rightarrow> returns_db \<Rightarrow> (sale_return \<times> returns_db) result" where
  "serveReturn p db = (case p of (org, i, company, user, now) \<Rightarrow> confirmReturn org i company user now db)"

interpretation return_confirmations: stock_operation serveReturn
proof unfold_locales
  fix p :: return_request and db r db'
  assume a: "serveReturn p db = Inr (r, db')"
  obtain org i company user now where p: "p = (org, i, company, user, now)" by (metis prod.exhaust)
  from a have "confirmReturn org i company user now db = Inr (r, db')" by (simp add: serveReturn_def p)
  from confirmReturn_laws [OF this] show "\<exists>ms. logs db db' ms" by blast
qed

section \<open>The bound on returned quantities\<close>

text \<open>No sale item has more returned than sold, and the keys needed to keep it so.\<close>

definition returns_ok :: "returns_db \<Rightarrow> bool" where
  "returns_ok db \<longleftrightarrow> distinct (map si_id (saleItems db)) \<and> distinct (map rt_id (saleReturns db))
     \<and> (\<forall>r \<in> set (saleReturns db). rt_id r < rowIds db)
     \<and> (\<forall>x \<in> set (returnItems db). ry_return x < rowIds db \<and> 0 \<le> ry_quantity x)
     \<and> (\<forall>i \<in> set (saleItems db). returnedQuantity (si_id i) db \<le> ml_quantity i)"

text \<open>The quantity a row counts towards a sale item.\<close>

definition liveReturn :: "sale_return list \<Rightarrow> id \<Rightarrow> bool" where
  "liveReturn rs r \<longleftrightarrow> (\<exists>x \<in> set rs. rt_id x = r \<and> rt_status x \<noteq> RtCancelled)"

lemma returnedQuantity_live:
  "returnedQuantity i db
    = sum_list (map ry_quantity (filter (\<lambda>x. ry_saleItem x = i \<and> liveReturn (saleReturns db) (ry_return x)) (returnItems db)))"
  by (simp add: returnedQuantity_def liveReturn_def)

lemma returnedQuantity_mono:
  assumes "returnItems db' = returnItems db" "\<forall>x \<in> set (returnItems db). 0 \<le> ry_quantity x"
    and "\<And>r. liveReturn (saleReturns db') r \<Longrightarrow> liveReturn (saleReturns db) r"
  shows "returnedQuantity i db' \<le> returnedQuantity i db"
proof -
  have "filter (\<lambda>x. ry_saleItem x = i \<and> liveReturn (saleReturns db') (ry_return x)) (returnItems db)
      = filter (\<lambda>x. liveReturn (saleReturns db') (ry_return x))
          (filter (\<lambda>x. ry_saleItem x = i \<and> liveReturn (saleReturns db) (ry_return x)) (returnItems db))"
    using assms(3) by (auto intro: filter_cong)
  then show ?thesis unfolding returnedQuantity_live assms(1)
    using assms(2) by (simp only:) (rule sum_list_filter_le, auto)
qed

text \<open>Saving a return that keeps its identifier and does not come back to life.\<close>

lemma saved_return_ok:
  assumes ok: "returns_ok db" and r: "findReturn i company db = Inr r"
    and t: "rt_id t = rt_id r" "rt_status t \<noteq> RtCancelled \<longrightarrow> rt_status r \<noteq> RtCancelled"
    and db': "saleReturns db' = map (\<lambda>x. if rt_id x = rt_id r then t else x) (saleReturns db)"
      "returnItems db' = returnItems db" "saleItems db' = saleItems db" "rowIds db \<le> rowIds db'"
  shows "returns_ok db'"
proof -
  have mem: "r \<in> set (saleReturns db)" using r by (auto simp: findReturn_def dest: find_SomeD)
  have live: "liveReturn (saleReturns db') x \<Longrightarrow> liveReturn (saleReturns db) x" for x
    using t mem unfolding liveReturn_def db'(1) by (auto split: if_splits)
  have "returnedQuantity j db' \<le> returnedQuantity j db" for j
    using ok by (intro returnedQuantity_mono db' live) (auto simp: returns_ok_def)
  moreover have "map rt_id (saleReturns db') = map rt_id (saleReturns db)" unfolding db'(1) using t(1) by simp
  moreover have "\<forall>x \<in> set (saleReturns db'). rt_id x < rowIds db'"
    using ok mem t(1) db'(4) unfolding db'(1) by (fastforce simp: returns_ok_def)
  moreover have "\<forall>x \<in> set (returnItems db'). ry_return x < rowIds db' \<and> 0 \<le> ry_quantity x"
    using ok db'(2,4) by (fastforce simp: returns_ok_def)
  ultimately show ?thesis using ok unfolding returns_ok_def db'(3) by (metis order_trans)
qed

lemma map_rows_quantity:
  assumes "list_all2 (returnedAs s db) items xs"
  shows "sum_list (map ry_quantity (filter (\<lambda>x. ry_saleItem x = i) (map2 returnRow xs items)))
    = sum_list (map rd_quantity (filter (\<lambda>x. rd_saleItem x = i) items))"
  using assms by (induction rule: list_all2_induct) (auto simp: returnRow_def returnedAs_def Let_def)

text \<open>A creation whose items name different sale items keeps the bound.\<close>

lemma createSaleReturn_ok:
  assumes ok: "returns_ok db" and run: "createSaleReturn company user dto now db = Inr (r, db')"
    and q: "\<forall>i \<in> set (rd_items dto). 1 \<le> rd_quantity i" "distinct (map rd_saleItem (rd_items dto))"
  shows "returns_ok db'"
proof -
  let ?is = "sort_key rd_saleItem (rd_items dto)"
  from createSaleReturn_cases [OF run] obtain s xs n db1 where
    xs: "list_all2 (returnedAs s db) ?is xs"
    and g: "generateReturnNumber company (getUTCFullYear now) db = (n, db1)"
    and r: "rt_id r = rowIds db1" "rt_status r = RtDraft"
    and db': "db' = fold (insertReturnItem (rt_id r)) (map2 returnRow xs ?is)
        (db1\<lparr>saleReturns := saleReturns db1 @ [r], rowIds := rowIds db1 + 1\<rparr>)" by blast
  define rows where "rows = map2 returnRow xs ?is"
  note fr = generateReturnNumber_frame [OF g]
  have ret: "saleReturns db' = saleReturns db @ [r]" "saleItems db' = saleItems db"
    using fr by (simp_all add: db' insertReturnItems)
  have ids: "rowIds db < rowIds db'"
  proof -
    have "rowIds d \<le> rowIds (fold (insertReturnItem k) zs d)" for k zs and d :: returns_db
    proof (induction zs arbitrary: d)
      case (Cons z zs)
      have "rowIds d \<le> rowIds (insertReturnItem k z d)" by (simp add: insertReturnItem_def)
      with Cons [of "insertReturnItem k z d"] show ?case by simp
    qed simp
    from this [of "db1\<lparr>saleReturns := saleReturns db1 @ [r], rowIds := rowIds db1 + 1\<rparr>" "rt_id r" rows] fr
    show ?thesis by (simp add: db' rows_def)
  qed
  obtain new where new: "returnItems db' = returnItems db @ new" "map return_row.truncate new = rows"
      "map ry_return new = replicate (length rows) (rt_id r)"
    using insertReturnItems_new [of "rt_id r" rows "db1\<lparr>saleReturns := saleReturns db1 @ [r], rowIds := rowIds db1 + 1\<rparr>"]
      fr by (auto simp: db' rows_def)
  have rows_q: "\<forall>x \<in> set rows. 0 \<le> ry_quantity x"
    using q(1) by (auto simp: rows_def returnRow_def Let_def dest!: set_zip_rightD) fastforce
  have new_ret: "ry_return x = rt_id r" if "x \<in> set new" for x
  proof -
    from that have "ry_return x \<in> set (map ry_return new)" by simp
    then show ?thesis unfolding new(3) by simp
  qed
  have new_q: "0 \<le> ry_quantity x" if "x \<in> set new" for x
  proof -
    have "return_row.truncate x \<in> set rows" using that new(2) by (metis image_eqI set_map)
    with rows_q show ?thesis by (force simp: return_row.truncate_def)
  qed
  have live: "liveReturn (saleReturns db') x = (liveReturn (saleReturns db) x \<or> x = rt_id r)" for x
    using r(2) by (auto simp: liveReturn_def ret(1))
  have old: "ry_return x \<noteq> rt_id r" if "x \<in> set (returnItems db)" for x
    using that ok r(1) fr by (fastforce simp: returns_ok_def)
  have count: "returnedQuantity i db'
      = returnedQuantity i db + sum_list (map rd_quantity (filter (\<lambda>x. rd_saleItem x = i) ?is))" for i
  proof -
    have "filter (\<lambda>x. ry_saleItem x = i \<and> liveReturn (saleReturns db') (ry_return x)) (returnItems db)
        = filter (\<lambda>x. ry_saleItem x = i \<and> liveReturn (saleReturns db) (ry_return x)) (returnItems db)"
      using old by (intro filter_cong) (auto simp: live)
    moreover have "filter (\<lambda>x. ry_saleItem x = i \<and> liveReturn (saleReturns db') (ry_return x)) new
        = filter (\<lambda>x. ry_saleItem x = i) new"
      using new_ret by (intro filter_cong) (auto simp: live)
    moreover have "sum_list (map ry_quantity (filter (\<lambda>x. ry_saleItem x = i) new))
        = sum_list (map ry_quantity (filter (\<lambda>x. ry_saleItem x = i) (map return_row.truncate new)))"
      by (induction new) (auto simp: return_row.truncate_def)
    ultimately show ?thesis
      using map_rows_quantity [OF xs, of i] new(2)
      by (simp add: returnedQuantity_live new(1) rows_def)
  qed
  have "returnedQuantity (si_id x) db' \<le> ml_quantity x" if x: "x \<in> set (saleItems db)" for x
  proof (cases "si_id x \<in> rd_saleItem ` set (rd_items dto)")
    case False
    then have "filter (\<lambda>y. rd_saleItem y = si_id x) ?is = []"
      by (intro filter_False) (auto simp: image_iff)
    with ok x show ?thesis by (simp add: count returns_ok_def)
  next
    case True
    then obtain i where i: "i \<in> set ?is" "rd_saleItem i = si_id x" by auto
    have "distinct (map rd_saleItem ?is)" using q(2) by (simp add: distinct_map)
    then have "filter (\<lambda>y. rd_saleItem y = si_id x) ?is = [i]"
      using i filter_key_distinct by metis
    moreover obtain y where "returnedAs s db i y"
    proof -
      from i(1) obtain k where "k < length ?is" "i = ?is ! k" unfolding in_set_conv_nth by blast
      with list_all2_nthD [OF xs] that show thesis by blast
    qed
    then have "y \<in> set (saleItems db)" "si_id y = si_id x"
        "rd_quantity i \<le> ml_quantity y - returnedQuantity (si_id y) db"
      using i(2) by (auto simp: returnedAs_def getRemainingReturnableQuantity_def)
    moreover from this have "y = x" using ok x by (auto simp: returns_ok_def distinct_map inj_on_def)
    ultimately show ?thesis by (simp add: count)
  qed
  moreover have "distinct (map rt_id (saleReturns db'))" "\<forall>x \<in> set (saleReturns db'). rt_id x < rowIds db'"
    using ok r(1) fr ids by (fastforce simp: returns_ok_def ret(1))+
  moreover have "\<forall>x \<in> set (returnItems db'). ry_return x < rowIds db' \<and> 0 \<le> ry_quantity x"
    using ok ids new_ret new_q r(1) fr by (fastforce simp: returns_ok_def new(1))
  ultimately show ?thesis using ok unfolding returns_ok_def ret(2) by blast
qed

text \<open>The operations on returns, one after the other.\<close>

inductive return_step :: "returns_db \<Rightarrow> returns_db \<Rightarrow> bool" where
  create: "createSaleReturn company user dto now db = Inr (r, db') \<Longrightarrow>
    \<forall>i \<in> set (rd_items dto). 1 \<le> rd_quantity i \<Longrightarrow> distinct (map rd_saleItem (rd_items dto)) \<Longrightarrow>
    return_step db db'"
| confirm: "confirmReturn org i company user now db = Inr (r, db') \<Longrightarrow> return_step db db'"
| cancel: "cancelReturn i company db = Inr (r, db') \<Longrightarrow> return_step db db'"
| refund: "applyRefund i company allocated db = Inr db' \<Longrightarrow> return_step db db'"

lemma return_step_ok: "return_step db db' \<Longrightarrow> returns_ok db \<Longrightarrow> returns_ok db' \<and> saleItems db' = saleItems db"
proof (induction rule: return_step.induct)
  case (create company user dto now db r db')
  from createSaleReturn_cases [OF create(1)] obtain xs n db1 where
    "generateReturnNumber company (getUTCFullYear now) db = (n, db1)"
    "db' = fold (insertReturnItem (rt_id r)) xs (db1\<lparr>saleReturns := saleReturns db1 @ [r], rowIds := rowIds db1 + 1\<rparr>)"
    by blast
  then have "saleItems db' = saleItems db"
    using generateReturnNumber_frame [of company _ db n db1] by (auto simp: insertReturnItems)
  with createSaleReturn_ok [OF create(4,1,2,3)] show ?case by simp
next
  case (confirm org i company user now db r' db')
  from confirmReturn_laws [OF confirm(1)] obtain r where r: "findReturn i company db = Inr r" "rt_status r = RtDraft"
    and r': "r' = r\<lparr>rt_status := RtConfirmed, rt_confirmedBy := Some user, rt_confirmedAt := Some now\<rparr>"
    and db': "saleReturns db' = map (\<lambda>x. if rt_id x = rt_id r then r' else x) (saleReturns db)"
      "returnItems db' = returnItems db" "saleItems db' = saleItems db" by blast
  have "rowIds db \<le> rowIds db'" by (rule confirmReturn_ids [OF confirm(1)])
  from saved_return_ok [OF confirm(2) r(1) _ _ db' this] r(2) db'(3) show ?case by (simp add: r')
next
  case (cancel i company db r' db')
  then obtain r where r: "findReturn i company db = Inr r" and db': "db' = saveReturn (r\<lparr>rt_status := RtCancelled\<rparr>) db"
    by (auto simp: cancelReturn_def Let_def split: if_splits)
  have "returns_ok db'"
    by (rule saved_return_ok [OF cancel(2) r, of "r\<lparr>rt_status := RtCancelled\<rparr>"])
      (simp_all add: db' saveReturn_def)
  then show ?case by (simp add: db')
next
  case (refund i company allocated db db')
  then obtain r a st where r: "findReturn i company db = Inr r" "rt_status r = RtConfirmed \<or> rt_status r = RtRefunded"
    and db': "db' = saveReturn (r\<lparr>rt_refunded := a, rt_status := st\<rparr>) db" "st \<noteq> RtCancelled"
    by (auto simp: applyRefund_def Let_def split: if_splits)
  have "returns_ok db'"
    by (rule saved_return_ok [OF refund(2) r(1), of "r\<lparr>rt_refunded := a, rt_status := st\<rparr>"])
      (use r(2) in \<open>auto simp: db' saveReturn_def\<close>)
  then show ?case by (simp add: db'(1))
qed

section \<open>A concrete return\<close>

text \<open>Two of the three pieces of the confirmed sale come back.\<close>

definition demo_returns0 :: returns_db where
  "demo_returns0 = sales_db.extend demo_shop2 \<lparr>saleReturns = [], returnItems = [], returnCounters = Map.empty\<rparr>"

definition demo_return_dto :: return_dto where
  "demo_return_dto = \<lparr>rd_sale = 102, rd_items = [\<lparr>rd_saleItem = 103, rd_quantity = 2, rd_discount = None,
     rd_condition = None\<rparr>]\<rparr>"

definition demo_return :: sale_return where
  "demo_return = \<lparr>rt_id = 105, rt_number = formatDocumentNumber ''RET'' 2026 1, rt_company = 1,
     rt_branch = None, rt_sale = 102, rt_customer = 5, rt_status = RtDraft, rt_subtotal = 2500,
     rt_discount = 0, rt_refund = 2500, rt_refunded = 0, rt_currency = ''USD'', rt_createdBy = 9,
     rt_confirmedBy = None, rt_confirmedAt = None\<rparr>"

definition demo_return_line :: return_item where
  "demo_return_line = \<lparr>ry_saleItem = 103, ry_variant = 20, ry_quantity = 2, ry_price = 1250, ry_discount = 0,
     ry_lineTotal = 2500, ry_condition = Restock, ry_productName = ''Tee'', ry_sku = ''TEE-M'',
     ry_id = 106, ry_return = 105\<rparr>"

definition demo_returns1 :: returns_db where
  "demo_returns1 = demo_returns0\<lparr>saleReturns := [demo_return], returnItems := [demo_return_line],
     returnCounters := [(1, 2026) \<mapsto> 1], rowIds := 107\<rparr>"

lemmas demo_shop_eval = demo_returns0_def sales_db.extend_def demo_shop2_def demo_shop1_def demo_shop_def
  demo_confirmed_def demo_sale_def demo_line_def

lemma demo_amounts:
  "js_mul (25 / 2) 2 = 25" "js_mul (25 / 2) 3 = 75 / 2" "js_add 0 25 = 25" "js_add 0 (75 / 2) = 75 / 2"
  "js_add 0 0 = 0" "js_sub 25 0 = 25" "js_sub (75 / 2) 0 = 75 / 2" "js_add (75 / 2) (75 / 2) = 75"
  "js_mul (25 / 2) 1 = 25 / 2" "js_add 0 (25 / 2) = 25 / 2" "js_sub (25 / 2) 0 = 25 / 2"
  "to_fixed2 (25 / 2) = 1250" "js_sub 75 0 = 75" "to_fixed2 25 = 2500" "to_fixed2 0 = 0" "to_fixed2 75 = 7500"
  using fl_half [of 75] fl_half [of 25] by (simp_all add: js_defs to_fixed2_def)

lemmas return_run_defs = createSaleReturn_def returnItem_def getRemainingReturnableQuantity_def
  returnedQuantity_def returnLine_def returnRow_def addReturnLine_def assertDiscountFits_def lineSubtotal_def
  generateReturnNumber_def next_sequence_eq last_sequence_def insertReturnItem_def return_row.extend_def
  getUTCFullYear_def Let_def demo_numbers demo_amounts

lemma demo_createReturn:
  "createSaleReturn 1 9 demo_return_dto ((2026, 3, 1), 0) demo_returns0 = Inr (demo_return, demo_returns1)"
  by (simp add: return_run_defs demo_return_dto_def demo_shop_eval)
    (simp add: demo_returns1_def demo_return_def demo_return_line_def demo_shop_eval)

definition demo_return_done :: sale_return where
  "demo_return_done = demo_return\<lparr>rt_status := RtConfirmed, rt_confirmedBy := Some 9,
     rt_confirmedAt := Some ((2026, 3, 2), 0)\<rparr>"

definition demo_returns2 :: returns_db where
  "demo_returns2 = demo_returns1\<lparr>warehouseStock := [(2, 20) \<mapsto> \<lparr>onHandQuantity = 4, reservedQuantity = 0\<rparr>],
     stockMovements := stockMovements demo_shop2 @ [\<lparr>mv_id = 107, mv_warehouse = 2, mv_variant = 20,
        mv_type = SaleReturnMovement, mv_change = 2, mv_after = 4, mv_refType = RefSaleReturn, mv_refId = 105,
        mv_createdAt = ((2026, 3, 2), 0), mv_createdBy = Some 9\<rparr>],
     saleReturns := [demo_return_done], rowIds := 108\<rparr>"

lemmas return_confirm_defs = confirmReturn_def findReturn_def resolveWarehouseIdForReturnConfirmation_def
  returnTurn_def lockWarehouseStockRow_def updateOnHand_def saveMovement_def reversePoints_def
  findPointsBySource_def saveReturn_def Let_def

lemma demo_confirmReturn:
  "confirmReturn demo_org_shop 105 1 9 ((2026, 3, 2), 0) demo_returns1 = Inr (demo_return_done, demo_returns2)"
  by (simp add: return_confirm_defs demo_returns1_def demo_return_def demo_return_line_def demo_shop_eval)
    (simp add: demo_returns2_def demo_returns1_def demo_return_done_def demo_return_def demo_return_line_def
      demo_shop_eval fun_eq_iff)

section \<open>Properties\<close>

text \<open>The amounts of a new return are exact: subtotal, discount and refund are the sums over its
  stored items at the prices of the sale, every discount is within its line, and the sale is a
  confirmed sale of the company.\<close>

theorem return_totals_exact:
  assumes run: "createSaleReturn company user dto now db = Inr (r, db')"
    and rq: "return_request_within B dto"
    and pos: "\<forall>x \<in> set (saleItems db). 0 \<le> ml_price x"
    and ids: "\<forall>x \<in> set (returnItems db). ry_return x < rowIds db"
    and B: "sumGross (map row_line (itemsOfReturn (rt_id r) db')) \<le> B"
      "fits B (10 * length (rd_items dto) + 20)"
  shows "rt_subtotal r = sumGross (map row_line (itemsOfReturn (rt_id r) db'))
    \<and> rt_discount r = sumDiscount (map row_line (itemsOfReturn (rt_id r) db'))
    \<and> rt_refund r = rt_subtotal r - rt_discount r \<and> rt_refunded r = 0
    \<and> (\<forall>x \<in> set (itemsOfReturn (rt_id r) db'). line_ok (row_line x))
    \<and> (\<exists>s \<in> set (sales db). sl_id s = rt_sale r \<and> sl_company s = company \<and> sl_status s = SaleConfirmed)"
proof -
  let ?is = "sort_key rd_saleItem (rd_items dto)"
  from createSaleReturn_cases [OF run] obtain s xs subtotal discount n db1 where
    s: "s \<in> set (sales db)" "sl_company s = company" "sl_status s = SaleConfirmed"
    and xs: "list_all2 (returnedAs s db) ?is xs"
    and t: "fold addReturnLine (map2 returnLine xs ?is) (0, 0) = (subtotal, discount)"
    and g: "generateReturnNumber company (getUTCFullYear now) db = (n, db1)"
    and r: "rt_id r = rowIds db1" "rt_sale r = sl_id s" "rt_refunded r = 0"
      "rt_subtotal r = to_fixed2 subtotal" "rt_discount r = to_fixed2 discount"
      "rt_refund r = to_fixed2 (js_sub subtotal discount)"
    and db': "db' = fold (insertReturnItem (rt_id r)) (map2 returnRow xs ?is)
        (db1\<lparr>saleReturns := saleReturns db1 @ [r], rowIds := rowIds db1 + 1\<rparr>)" by blast
  define ls where "ls = map2 returnLine xs ?is"
  define rows where "rows = map2 returnRow xs ?is"
  let ?d = "db1\<lparr>saleReturns := saleReturns db1 @ [r], rowIds := rowIds db1 + 1\<rparr>"
  note fr = generateReturnNumber_frame [OF g]
  have old: "\<forall>x \<in> set (returnItems ?d). ry_return x \<noteq> rt_id r" using ids fr r(1) by auto
  have "itemsOfReturn (rt_id r) db' = drop (length (returnItems ?d)) (returnItems db')"
    unfolding itemsOfReturn_def db' by (rule filter_new_suffix [OF insertReturnItems(2) old])
  then have "map return_row.truncate (itemsOfReturn (rt_id r) db') = rows"
    by (simp add: db' rows_def insertReturnItems flip: drop_map)
  moreover have "row_line (return_row.truncate x) = row_line x" for x :: return_item
    by (simp add: row_line_def return_row.truncate_def)
  ultimately have items: "map row_line (itemsOfReturn (rt_id r) db') = map row_line rows"
    by (metis (no_types, lifting) map_map comp_apply map_eq_conv)
  have len: "length xs = length (rd_items dto)" using list_all2_lengthD [OF xs] by simp
  have "sumGross (map row_line rows) = sumGross ls"
    by (simp add: rows_def ls_def sumGross_def gross_def row_line_def returnRow_def returnLine_def Let_def
        o_def split_def)
  with B(1) have "sumGross ls \<le> B" by (simp add: items)
  then have lines: "(\<forall>l \<in> set ls. line_ok l) \<and> map row_line rows = ls"
    unfolding ls_def rows_def using rq fits_mono [OF B(2), of 3]
    by (intro return_lines_ok [OF xs _ pos]) (simp_all add: return_request_within_def)
  have "sumTax ls = 0" by (simp add: ls_def sumTax_def returnLine_def o_def split_def)
  with lines \<open>sumGross ls \<le> B\<close> B(2) len have "document_fits B ls" by (simp add: document_fits_def ls_def)
  from return_totals [OF this t [folded ls_def]] lines items r s show ?thesis by auto
qed




theorem return_totals_exact_witness:
  "rt_refund demo_return = sumGross (map row_line [demo_return_line])"
  using return_totals_exact [OF demo_createReturn, of "10 ^ 10"]
  by (simp add: return_request_within_def demo_return_dto_def demo_returns1_def demo_returns0_def
      itemsOfReturn_def demo_return_def demo_return_line_def row_line_def gross_def fits_def
      sales_db.extend_def demo_shop2_def demo_shop1_def demo_line_def)

text \<open>C17: no sale item ever has more returned than was sold, as long as each creation request names a sale
  item at most once: whatever such returns are created, confirmed, cancelled and refunded, one request after
  the other, the quantities of the returns that are not cancelled stay within the sale. A request that names
  an item twice is not covered, and it can return the item twice (\<open>duplicate_lines_over_return\<close>).\<close>

theorem returns_within_sale:
  assumes "returnItems db0 = []" and "saleReturns db0 = []" and "distinct (map si_id (saleItems db0))"
    and "\<forall>x \<in> set (saleItems db0). 0 \<le> ml_quantity x"
    and "return_step\<^sup>*\<^sup>* db0 db" and "x \<in> set (saleItems db)"
  shows "returnedQuantity (si_id x) db \<le> ml_quantity x"
proof -
  have "returns_ok db0" using assms by (simp add: returns_ok_def returnedQuantity_def)
  with assms(5) have "returns_ok db" by (induction) (use return_step_ok in blast)+
  with assms(6) show ?thesis by (simp add: returns_ok_def)
qed

theorem returns_within_sale_witness:
  "returnedQuantity 103 demo_returns2 = 2 \<and> returnedQuantity 103 demo_returns2 \<le> 3"
proof -
  have "return_step demo_returns0 demo_returns1"
    by (rule return_step.create [OF demo_createReturn]) (simp_all add: demo_return_dto_def)
  moreover have "return_step demo_returns1 demo_returns2" by (rule return_step.confirm [OF demo_confirmReturn])
  ultimately have "return_step\<^sup>*\<^sup>* demo_returns0 demo_returns2" by simp
  from returns_within_sale [OF _ _ _ _ this, of demo_line] show ?thesis
    by (simp add: demo_returns2_def demo_returns1_def demo_shop_eval returnedQuantity_def demo_return_line_def
        demo_return_done_def demo_return_def)
qed

text \<open>The check counts the stored returns only, so a request with two lines of one sale item returns it
  twice: six of three pieces are accepted, with twice the refund.\<close>

theorem duplicate_lines_over_return:
  "\<exists>r db. createSaleReturn 1 9 \<lparr>rd_sale = 102, rd_items = [
        \<lparr>rd_saleItem = 103, rd_quantity = 3, rd_discount = None, rd_condition = None\<rparr>,
        \<lparr>rd_saleItem = 103, rd_quantity = 3, rd_discount = None, rd_condition = None\<rparr>]\<rparr>
        ((2026, 3, 1), 0) demo_returns0 = Inr (r, db)
    \<and> returnedQuantity 103 db = 6 \<and> rt_refund r = 7500 \<and> map ml_quantity (saleItems db) = [3]"
  by (simp add: return_run_defs demo_shop_eval insort_key_def)

text \<open>The refund is computed from the unit prices without the discount of the sale: returning a whole
  sale of 35.50 yields a refund of 37.50.\<close>

theorem refund_ignores_sale_discount:
  "\<exists>r db. createSaleReturn 1 9 \<lparr>rd_sale = 102, rd_items = [
        \<lparr>rd_saleItem = 103, rd_quantity = 3, rd_discount = None, rd_condition = None\<rparr>]\<rparr>
        ((2026, 3, 1), 0) demo_returns0 = Inr (r, db)
    \<and> rt_refund r = 3750 \<and> map sl_grandTotal (sales demo_returns0) = [3550]"
  by (simp add: return_run_defs demo_shop_eval)

text \<open>Confirming a return puts back exactly its restockable items into the warehouse of the sale (or the
  only active warehouse of its branch): every row changes by the quantities of the undamaged items,
  with matching movements and running balances, and the return leaves the draft state.\<close>

theorem return_restocks:
  assumes "confirmReturn org i company user now db = Inr (r', db')"
  shows "\<exists>r s w. findReturn i company db = Inr r \<and> rt_status r = RtDraft \<and> rt_status r' = RtConfirmed
    \<and> s \<in> set (sales db) \<and> sl_id s = rt_sale r
    \<and> (sl_warehouse s = Some w \<or> (sl_warehouse s = None \<and> (\<exists>b. sl_branch s = Some b
        \<and> activeWarehousesOf org company b = [w])))
    \<and> (\<exists>ms. logs db db' ms \<and> running db ms \<and> (\<forall>x v. movementSum ms x v
        = (if x = w then sum_list (map ry_quantity (filter (\<lambda>y. ry_variant y = v \<and> ry_condition y = Restock)
             (itemsOfReturn (rt_id r) db))) else 0)))"
proof -
  have e: "lineDelta w ry_variant restocked items x v = (if x = w then sum_list (map ry_quantity
      (filter (\<lambda>y. ry_variant y = v \<and> ry_condition y = Restock) items)) else 0)" for w x v and items :: "return_item list"
    by (induction items) (auto simp: restocked_def split: item_condition.splits)
  from confirmReturn_laws [OF assms] obtain r s w ms where
    "findReturn i company db = Inr r" "rt_status r = RtDraft" "s \<in> set (sales db)" "sl_id s = rt_sale r"
    "sl_warehouse s = Some w \<or> (sl_warehouse s = None \<and> (\<exists>b. sl_branch s = Some b
        \<and> activeWarehousesOf org company b = [w]))"
    "rt_status r' = RtConfirmed" "logs db db' ms" "running db ms"
    "\<forall>x v. movementSum ms x v = lineDelta w ry_variant restocked (itemsOfReturn (rt_id r) db) x v"
    by auto
  then show ?thesis
    by (intro exI [of _ r] exI [of _ s] exI [of _ w] conjI exI [of _ ms]) (simp_all add: e)
qed

theorem return_restocks_witness:
  "\<exists>ms. logs demo_returns1 demo_returns2 ms \<and> movementSum ms 2 20 = 2"
  using return_restocks [OF demo_confirmReturn]
  by (auto simp: findReturn_def demo_returns1_def demo_return_def itemsOfReturn_def demo_return_line_def demo_shop_eval)

text \<open>C18: refunds of amounts of up to a million units are exact. A refund of a return that is neither
  confirmed nor refunded is refused as unprocessable; of any other return, with a total of at most a million
  units of which a part may be refunded already, it is refused with a conflict exactly when it would exceed
  that total, and otherwise added to the cent, and the return becomes refunded exactly when nothing
  remains. Far above that bound the tolerance of the comparison is below the rounding of doubles.\<close>

theorem refund_exact:
  assumes r: "findReturn i company db = Inr r"
    and "0 \<le> rt_refunded r" and "rt_refunded r \<le> rt_refund r" and "rt_refund r \<le> 10 ^ 8"
    and "0 \<le> a" and "a \<le> 10 ^ 8"
  shows "applyRefund i company (js_num a) db =
    (if rt_status r \<notin> {RtConfirmed, RtRefunded} then Inl (AppException UnprocessableEntity)
     else if rt_refund r < rt_refunded r + a then Inl (AppException Conflict)
     else Inr (saveReturn (r\<lparr>rt_refunded := rt_refunded r + a,
       rt_status := (if rt_refunded r + a = rt_refund r then RtRefunded else RtConfirmed)\<rparr>) db))"
proof (cases "rt_refund r < rt_refunded r + a")
  case True
  have "fits (2 * 10 ^ 8) 6" by (simp add: fits_def)
  then have "exceeds (js_add (js_num (rt_refunded r)) (js_num a)) (js_num (rt_refund r))"
    using True assms by (intro exceeds_over [where B = "2 * 10 ^ 8"]) auto
  with True show ?thesis by (simp add: applyRefund_def r Let_def)
next
  case False
  have f: "fits (10 ^ 8) 6" by (simp add: fits_def)
  have "\<not> exceeds (js_add (js_num (rt_refunded r)) (js_num a)) (js_num (rt_refund r))"
    using False assms by (intro not_exceeds_within) auto
  moreover have "to_fixed2 (js_add (js_num (rt_refunded r)) (js_num a)) = rt_refunded r + a"
    using False assms by (intro newPaid_exact [OF _ _ _ f]) auto
  moreover have "reaches (js_add (js_num (rt_refunded r)) (js_num a)) (js_num (rt_refund r))
      \<longleftrightarrow> rt_refunded r + a = rt_refund r"
    using False assms by (subst reaches_exact) auto
  ultimately show ?thesis using False by (simp add: applyRefund_def r Let_def)
qed

theorem refund_exact_witness:
  "applyRefund 105 1 (js_num 2500) demo_returns2
      = Inr (saveReturn (demo_return_done\<lparr>rt_refunded := 2500, rt_status := RtRefunded\<rparr>) demo_returns2)
    \<and> applyRefund 105 1 (js_num 2501) demo_returns2 = Inl (AppException Conflict)
    \<and> applyRefund 105 1 (js_num 100) demo_returns1 = Inl (AppException UnprocessableEntity)"
proof -
  have d: "findReturn 105 1 demo_returns1 = Inr demo_return"
    by (simp add: findReturn_def demo_returns1_def demo_return_def)
  have r: "findReturn 105 1 demo_returns2 = Inr demo_return_done"
    by (simp add: findReturn_def demo_returns2_def demo_return_done_def demo_return_def)
  from refund_exact [OF r, of 2500] refund_exact [OF r, of 2501] refund_exact [OF d, of 100] show ?thesis
    by (simp add: demo_return_done_def demo_return_def)
qed

text \<open>One box of twelve pieces, sold from a stock of twelve.\<close>

definition demo_box_line :: sale_item where
  "demo_box_line = demo_line\<lparr>ml_quantity := 1, ml_discount := 0, ml_tax := 0, si_uom := Some 31,
     si_baseQuantity := 12, si_factor := 120000, si_lineTotal := 1250\<rparr>"

definition demo_box_shop :: returns_db where
  "demo_box_shop = sales_db.extend (demo_shop1\<lparr>warehouseStock := [(2, 20) \<mapsto> \<lparr>onHandQuantity = 12,
     reservedQuantity = 0\<rparr>], saleItems := [demo_box_line]\<rparr>)
     \<lparr>saleReturns = [], returnItems = [], returnCounters = Map.empty\<rparr>"

text \<open>A confirmation issues base units, but a return puts back the quantity in the unit of the sale:
  selling one box of twelve takes twelve pieces from the stock, returning the box adds one.\<close>

theorem return_restocks_sale_units:
  "\<exists>s d1 r d2 r' d3. confirmSale 102 1 9 ((2026, 2, 2), 0) demo_box_shop = Inr (s, d1)
    \<and> createSaleReturn 1 9 \<lparr>rd_sale = 102, rd_items = [
        \<lparr>rd_saleItem = 103, rd_quantity = 1, rd_discount = None, rd_condition = None\<rparr>]\<rparr>
        ((2026, 3, 1), 0) d1 = Inr (r, d2)
    \<and> confirmReturn demo_org_shop (rt_id r) 1 9 ((2026, 3, 2), 0) d2 = Inr (r', d3)
    \<and> level demo_box_shop 2 20 = 12 \<and> level d1 2 20 = 0 \<and> level d3 2 20 = 1"
proof -
  note state = demo_box_shop_def demo_box_line_def demo_shop_eval
  obtain s d1 where 1: "confirmSale 102 1 9 ((2026, 2, 2), 0) demo_box_shop = Inr (s, d1)"
    and d1: "warehouseStock d1 (2, 20) = Some \<lparr>onHandQuantity = 0, reservedQuantity = 0\<rparr>"
      "sales d1 = [demo_confirmed]" "saleItems d1 = [demo_box_line]" "saleReturns d1 = []" "returnItems d1 = []"
      "returnCounters d1 = Map.empty" "pointsRows d1 = []"
    by (simp add: sale_run_defs state)
  define r where "r = \<lparr>rt_id = rowIds d1, rt_number = formatDocumentNumber ''RET'' 2026 1, rt_company = 1,
    rt_branch = None, rt_sale = 102, rt_customer = 5, rt_status = RtDraft, rt_subtotal = 1250,
    rt_discount = 0, rt_refund = 1250, rt_refunded = 0, rt_currency = ''USD'', rt_createdBy = 9,
    rt_confirmedBy = None, rt_confirmedAt = None\<rparr>"
  obtain d2 where 2: "createSaleReturn 1 9 \<lparr>rd_sale = 102, rd_items = [
        \<lparr>rd_saleItem = 103, rd_quantity = 1, rd_discount = None, rd_condition = None\<rparr>]\<rparr>
        ((2026, 3, 1), 0) d1 = Inr (r, d2)"
    and d2: "warehouseStock d2 (2, 20) = Some \<lparr>onHandQuantity = 0, reservedQuantity = 0\<rparr>"
      "sales d2 = [demo_confirmed]" "saleReturns d2 = [r]" "rt_status r = RtDraft" "rt_company r = 1" "rt_sale r = 102"
      "pointsRows d2 = []"
      "\<exists>k. returnItems d2 = [\<lparr>ry_saleItem = 103, ry_variant = 20, ry_quantity = 1, ry_price = 1250,
        ry_discount = 0, ry_lineTotal = 1250, ry_condition = Restock, ry_productName = ''Tee'',
        ry_sku = ''TEE-M'', ry_id = k, ry_return = rt_id r\<rparr>]"
    using d1
    by (simp add: return_run_defs demo_box_line_def demo_confirmed_def demo_sale_def demo_line_def r_def)
  obtain r' d3 where 3: "confirmReturn demo_org_shop (rt_id r) 1 9 ((2026, 3, 2), 0) d2 = Inr (r', d3)"
    and d3: "warehouseStock d3 (2, 20) = Some \<lparr>onHandQuantity = 1, reservedQuantity = 0\<rparr>"
    using d2 by (auto simp: return_confirm_defs demo_confirmed_def demo_sale_def)
  have "level demo_box_shop 2 20 = 12" "level d1 2 20 = 0" "level d3 2 20 = 1"
    by (simp_all add: level_def d1 d3) (simp add: state)
  with 1 2 3 show ?thesis by blast
qed

text \<open>One return never takes back more points than the sale earned, and never a negative number.\<close>

theorem reversal_bounded:
  assumes "0 \<le> earned" and "earned < 2 ^ 53" and "0 \<le> refund" and "0 < js_num saleTotal"
  shows "0 \<le> reversalPoints earned refund saleTotal \<and> reversalPoints earned refund saleTotal \<le> earned"
proof -
  define q where "q = min (js_div (js_num refund) (js_num saleTotal)) 1"
  have "0 \<le> js_num refund" using js_num_neg [of refund] assms(3) by simp
  then have "0 \<le> js_num refund / js_num saleTotal" using assms(4) by simp
  then have q: "0 \<le> q" "q \<le> 1" by (simp_all add: q_def js_div_def fl_nonneg)
  define x where "x = of_int earned * q"
  have x: "0 \<le> x" "x \<le> of_int earned"
    using q assms(1) mult_left_mono [of q 1 "of_int earned"] by (simp_all add: x_def)
  have e: "(of_int earned :: real) < 2 ^ 53"
    using assms(2) by (metis of_int_less_iff of_int_numeral of_int_power)
  have "\<bar>fl x - x\<bar> \<le> \<bar>x\<bar> / 2 ^ 53" by (rule fl_error)
  then have "fl x \<le> x + x / 2 ^ 53" using x by linarith
  moreover have "x / 2 ^ 53 < 1" using x e by simp
  ultimately have "fl x < of_int earned + 1" using x by linarith
  moreover have "0 \<le> fl x" using x by (intro fl_nonneg)
  ultimately show ?thesis
    by (simp add: reversalPoints_def js_mul_def q_def [symmetric] x_def [symmetric] floor_le_iff)
qed

theorem reversal_bounded_witness:
  "reversalPoints 35 2500 3550 \<le> 35"
proof -
  have "0 < js_num 3550" by (rule js_num_pos) simp_all
  with reversal_bounded [of 35 2500 3550] show ?thesis by simp
qed

end
