(* ===== verification/Procurement.thy ===== *)
theory Procurement
  imports Sale_Returns
begin

text \<open>
  The documents before a purchase order (\<open>purchase/services/purchase-requests.service.ts\<close>,
  \<open>purchase-rfqs.service.ts\<close>, \<open>supplier-quotations.service.ts\<close>): requests, requests for
  quotation, and the quotations of suppliers, one of which may be awarded. The status change of a
  quotation reads the quotation before its transaction, so it is a read and a run. Texts nobody reads
  (reasons, notes, titles) are left out. The amounts of a quotation are validated as number strings
  only, so they are decimals with any number of digits: \<open>(m, k)\<close> is \<open>m / 10 ^ k\<close>.
\<close>

section \<open>Tables\<close>

datatype request_status = RqDraft | RqSubmitted | RqApproved | RqRejected | RqConverted
datatype rfq_status = RfqDraft | RfqSent | RfqClosed | RfqCancelled
datatype quotation_status = QtSubmitted | QtAwarded | QtRejected

record purchase_request =
  rq_id :: id
  rq_number :: string
  rq_company :: id
  rq_branch :: "id option"
  rq_requiredDate :: jdate
  rq_status :: request_status
  rq_createdBy :: id
  rq_updatedBy :: id

record request_item =
  qi_id :: id
  qi_request :: id
  qi_variant :: id
  qi_quantity :: int
  qi_productName :: string
  qi_sku :: string

record purchase_rfq =
  rf_id :: id
  rf_number :: string
  rf_company :: id
  rf_branch :: "id option"
  rf_request :: "id option"
  rf_requiredDate :: jdate
  rf_status :: rfq_status
  rf_invited :: "id list"
  rf_createdBy :: id
  rf_updatedBy :: id

record rfq_item =
  fi_id :: id
  fi_rfq :: id
  fi_variant :: id
  fi_quantity :: int
  fi_productName :: string
  fi_sku :: string

record quotation =
  qt_id :: id
  qt_number :: string
  qt_company :: id
  qt_rfq :: id
  qt_supplier :: id
  qt_paymentTerm :: "id option"
  qt_leadTimeDays :: "nat option"
  qt_status :: quotation_status
  qt_subtotal :: int
  qt_discount :: int
  qt_tax :: int
  qt_grandTotal :: int
  qt_currency :: string
  qt_createdBy :: id
  qt_updatedBy :: id

record quotation_row =
  qr_rfqItem :: id
  qr_variant :: id
  qr_quantity :: int
  qr_unitCost :: int
  qr_discount :: int
  qr_tax :: int
  qr_lineTotal :: int
  qr_productName :: string
  qr_sku :: string

record quotation_item = quotation_row +
  qr_id :: id
  qr_quotation :: id

record procurement_db = returns_db +
  purchaseRequests :: "purchase_request list"
  requestItems :: "request_item list"
  requestCounters :: counters
  rfqs :: "purchase_rfq list"
  rfqItems :: "rfq_item list"
  rfqCounters :: counters
  quotations :: "quotation list"
  quotationItems :: "quotation_item list"
  quotationCounters :: counters

section \<open>Requests\<close>

definition REQUEST_TRANSITIONS :: "request_status \<Rightarrow> request_status list" where
  "REQUEST_TRANSITIONS s =
     (case s of RqDraft \<Rightarrow> [RqSubmitted] | RqSubmitted \<Rightarrow> [RqApproved, RqRejected]
      | RqApproved \<Rightarrow> [RqConverted] | RqRejected \<Rightarrow> [RqSubmitted] | RqConverted \<Rightarrow> [])"

definition formatPurchaseRequestNumber :: "nat \<Rightarrow> nat \<Rightarrow> string" where
  "formatPurchaseRequestNumber year sq =
     ''PR-'' @ nat_str year @ ''-'' @ padStart (nat_str sq) 6 (CHR ''0'')"

definition formatPurchaseRfqNumber :: "nat \<Rightarrow> nat \<Rightarrow> string" where
  "formatPurchaseRfqNumber year sq =
     ''RFQ-'' @ nat_str year @ ''-'' @ padStart (nat_str sq) 4 (CHR ''0'')"

definition formatSupplierQuotationNumber :: "nat \<Rightarrow> nat \<Rightarrow> string" where
  "formatSupplierQuotationNumber year sq =
     ''SQ-'' @ nat_str year @ ''-'' @ padStart (nat_str sq) 4 (CHR ''0'')"

definition findRequest :: "id \<Rightarrow> id \<Rightarrow> 'a procurement_db_scheme \<Rightarrow> purchase_request result" where
  "findRequest i company db =
     orThrow (List.find (\<lambda>r. rq_id r = i \<and> rq_company r = company) (purchaseRequests db)) (AppException NotFound)"

definition generateRequestNumber ::
  "id \<Rightarrow> nat \<Rightarrow> 'a procurement_db_scheme \<Rightarrow> string \<times> 'a procurement_db_scheme" where
  "generateRequestNumber company year db =
     (let (nextSequence, t) = next_sequence company year (requestCounters db)
      in (formatPurchaseRequestNumber year nextSequence, db\<lparr>requestCounters := t\<rparr>))"

record item_request =
  ir_variant :: id
  ir_quantity :: int

record request_dto =
  rqd_branch :: "id option"
  rqd_requiredDate :: jdate
  rqd_items :: "item_request list"

definition insertRequestItem ::
  "catalog_db \<Rightarrow> id \<Rightarrow> id \<Rightarrow> item_request \<Rightarrow> 'a procurement_db_scheme \<Rightarrow> 'a procurement_db_scheme result" where
  "insertRequestItem cat company request item db =
     andThen (findVariantInCompany cat (ir_variant item) company) (\<lambda>v.
     Inr (db\<lparr>requestItems := requestItems db @ [\<lparr>qi_id = rowIds db, qi_request = request,
        qi_variant = pv_id v, qi_quantity = ir_quantity item, qi_productName = pv_productName v,
        qi_sku = pv_sku v\<rparr>], rowIds := rowIds db + 1\<rparr>))"

definition createRequest ::
  "org_db \<Rightarrow> catalog_db \<Rightarrow> id \<Rightarrow> id \<Rightarrow> request_dto \<Rightarrow> 'a procurement_db_scheme
    \<Rightarrow> (purchase_request \<times> 'a procurement_db_scheme) result" where
  "createRequest org cat company user dto db =
     andThen (assertActiveCompany org company) (\<lambda>_.
     andThen (assertBranchIfGiven org (rqd_branch dto) company) (\<lambda>_.
     let (number, db1) = generateRequestNumber company (getUTCFullYear (rqd_requiredDate dto)) db;
         r = \<lparr>rq_id = rowIds db1, rq_number = number, rq_company = company, rq_branch = rqd_branch dto,
              rq_requiredDate = rqd_requiredDate dto, rq_status = RqDraft, rq_createdBy = user,
              rq_updatedBy = user\<rparr>;
         db2 = db1\<lparr>purchaseRequests := purchaseRequests db1 @ [r], rowIds := rowIds db1 + 1\<rparr>
     in andThen (forEach (insertRequestItem cat company (rq_id r)) (rqd_items dto) db2) (\<lambda>db3.
        Inr (r, db3))))"

definition updateRequestStatus ::
  "id \<Rightarrow> id \<Rightarrow> id \<Rightarrow> request_status \<Rightarrow> 'a procurement_db_scheme
    \<Rightarrow> (purchase_request \<times> 'a procurement_db_scheme) result" where
  "updateRequestStatus i company user nextStatus db =
     andThen (findRequest i company db) (\<lambda>r.
     if nextStatus \<notin> set (REQUEST_TRANSITIONS (rq_status r)) then Inl (AppException Conflict)
     else let r' = r\<lparr>rq_status := nextStatus, rq_updatedBy := user\<rparr>
          in Inr (r', db\<lparr>purchaseRequests := map (\<lambda>x. if rq_id x = rq_id r then r' else x) (purchaseRequests db)\<rparr>))"

section \<open>Requests for quotation\<close>

definition RFQ_TRANSITIONS :: "rfq_status \<Rightarrow> rfq_status list" where
  "RFQ_TRANSITIONS s =
     (case s of RfqDraft \<Rightarrow> [RfqSent, RfqCancelled] | RfqSent \<Rightarrow> [RfqClosed, RfqCancelled]
      | RfqClosed \<Rightarrow> [] | RfqCancelled \<Rightarrow> [])"

definition findRfq :: "id \<Rightarrow> id \<Rightarrow> 'a procurement_db_scheme \<Rightarrow> purchase_rfq result" where
  "findRfq i company db =
     orThrow (List.find (\<lambda>r. rf_id r = i \<and> rf_company r = company) (rfqs db)) (AppException NotFound)"

definition itemsOfRfq :: "id \<Rightarrow> 'a procurement_db_scheme \<Rightarrow> rfq_item list" where
  "itemsOfRfq i db = filter (\<lambda>x. fi_rfq x = i) (rfqItems db)"

definition generateRfqNumber ::
  "id \<Rightarrow> nat \<Rightarrow> 'a procurement_db_scheme \<Rightarrow> string \<times> 'a procurement_db_scheme" where
  "generateRfqNumber company year db =
     (let (nextSequence, t) = next_sequence company year (rfqCounters db)
      in (formatPurchaseRfqNumber year nextSequence, db\<lparr>rfqCounters := t\<rparr>))"

record rfq_dto =
  rfd_branch :: "id option"
  rfd_request :: "id option"
  rfd_requiredDate :: jdate
  rfd_invited :: "id list"
  rfd_items :: "item_request list"

definition insertRfqItem ::
  "catalog_db \<Rightarrow> id \<Rightarrow> id \<Rightarrow> item_request \<Rightarrow> 'a procurement_db_scheme \<Rightarrow> 'a procurement_db_scheme result" where
  "insertRfqItem cat company rfq item db =
     andThen (findVariantInCompany cat (ir_variant item) company) (\<lambda>v.
     Inr (db\<lparr>rfqItems := rfqItems db @ [\<lparr>fi_id = rowIds db, fi_rfq = rfq, fi_variant = pv_id v,
        fi_quantity = ir_quantity item, fi_productName = pv_productName v, fi_sku = pv_sku v\<rparr>],
        rowIds := rowIds db + 1\<rparr>))"

definition createRfq ::
  "org_db \<Rightarrow> catalog_db \<Rightarrow> id \<Rightarrow> id \<Rightarrow> rfq_dto \<Rightarrow> 'a procurement_db_scheme
    \<Rightarrow> (purchase_rfq \<times> 'a procurement_db_scheme) result" where
  "createRfq org cat company user dto db =
     andThen (assertActiveCompany org company) (\<lambda>_.
     andThen (assertBranchIfGiven org (rfd_branch dto) company) (\<lambda>_.
     andThen (case rfd_request dto of None \<Rightarrow> Inr ()
        | Some q \<Rightarrow> andThen (findRequest q company db) (\<lambda>_. Inr ())) (\<lambda>_.
     andThen (checkAll (\<lambda>s. andThen (findSupplierInCompany org s company) (\<lambda>_. Inr ())) (rfd_invited dto)) (\<lambda>_.
     andThen (checkAll (\<lambda>i. andThen (findVariantInCompany cat (ir_variant i) company) (\<lambda>_. Inr ()))
        (rfd_items dto)) (\<lambda>_.
     let (number, db1) = generateRfqNumber company (getUTCFullYear (rfd_requiredDate dto)) db;
         r = \<lparr>rf_id = rowIds db1, rf_number = number, rf_company = company, rf_branch = rfd_branch dto,
              rf_request = rfd_request dto, rf_requiredDate = rfd_requiredDate dto, rf_status = RfqDraft,
              rf_invited = rfd_invited dto, rf_createdBy = user, rf_updatedBy = user\<rparr>;
         db2 = db1\<lparr>rfqs := rfqs db1 @ [r], rowIds := rowIds db1 + 1\<rparr>
     in andThen (forEach (insertRfqItem cat company (rf_id r)) (rfd_items dto) db2) (\<lambda>db3.
        Inr (r, db3)))))))"

definition updateRfqStatus ::
  "id \<Rightarrow> id \<Rightarrow> id \<Rightarrow> rfq_status \<Rightarrow> 'a procurement_db_scheme
    \<Rightarrow> (purchase_rfq \<times> 'a procurement_db_scheme) result" where
  "updateRfqStatus i company user nextStatus db =
     andThen (findRfq i company db) (\<lambda>r.
     if nextStatus \<notin> set (RFQ_TRANSITIONS (rf_status r)) then Inl (AppException Conflict)
     else let r' = r\<lparr>rf_status := nextStatus, rf_updatedBy := user\<rparr>
          in Inr (r', db\<lparr>rfqs := map (\<lambda>x. if rf_id x = rf_id r then r' else x) (rfqs db)\<rparr>))"

section \<open>Quotations\<close>

definition QUOTATION_TRANSITIONS :: "quotation_status \<Rightarrow> quotation_status list" where
  "QUOTATION_TRANSITIONS s = (case s of QtSubmitted \<Rightarrow> [QtAwarded, QtRejected] | QtAwarded \<Rightarrow> [] | QtRejected \<Rightarrow> [])"

definition findQuotation :: "id \<Rightarrow> id \<Rightarrow> 'a procurement_db_scheme \<Rightarrow> quotation result" where
  "findQuotation i company db =
     orThrow (List.find (\<lambda>q. qt_id q = i \<and> qt_company q = company) (quotations db)) (AppException NotFound)"

definition findAwardedQuotation :: "id \<Rightarrow> id \<Rightarrow> 'a procurement_db_scheme \<Rightarrow> quotation result" where
  "findAwardedQuotation i company db =
     andThen (findQuotation i company db) (\<lambda>q.
     if qt_status q \<noteq> QtAwarded then Inl (AppException ValidationError) else Inr q)"

definition generateQuotationNumber ::
  "id \<Rightarrow> nat \<Rightarrow> 'a procurement_db_scheme \<Rightarrow> string \<times> 'a procurement_db_scheme" where
  "generateQuotationNumber company year db =
     (let (nextSequence, t) = next_sequence company year (quotationCounters db)
      in (formatSupplierQuotationNumber year nextSequence, db\<lparr>quotationCounters := t\<rparr>))"

type_synonym decimal = "int \<times> nat"

definition js_decimal :: "decimal \<Rightarrow> real" where
  "js_decimal d = fl (of_int (fst d) / 10 ^ snd d)"

record quotation_item_dto =
  qd_rfqItem :: id
  qd_unitCost :: decimal
  qd_discount :: "decimal option"
  qd_tax :: "decimal option"

record quotation_dto =
  qd_rfq :: id
  qd_supplier :: id
  qd_paymentTerm :: "id option"
  qd_leadTimeDays :: "nat option"
  qd_currency :: string
  qd_items :: "quotation_item_dto list"

definition assertActivePaymentTerm :: "org_db \<Rightarrow> id \<Rightarrow> id \<Rightarrow> unit result" where
  "assertActivePaymentTerm org term company =
     andThen (findPaymentTermInCompany org term company) (\<lambda>t.
     if pt_status t \<noteq> Active then Inl (AppException ValidationError) else Inr ())"

text \<open>The checks before the transaction; the result is the request for quotation and its items.\<close>

definition quotationRead ::
  "org_db \<Rightarrow> id \<Rightarrow> quotation_dto \<Rightarrow> 'a procurement_db_scheme \<Rightarrow> (purchase_rfq \<times> rfq_item list) result" where
  "quotationRead org company dto db =
     andThen (assertActiveCompany org company) (\<lambda>_.
     andThen (findSupplierInCompany org (qd_supplier dto) company) (\<lambda>_.
     andThen (findRfq (qd_rfq dto) company db) (\<lambda>rfq.
     if rf_status rfq = RfqCancelled \<or> rf_status rfq = RfqClosed then Inl (AppException Conflict)
     else if rf_invited rfq \<noteq> [] \<and> qd_supplier dto \<notin> set (rf_invited rfq) then Inl (AppException ValidationError)
     else andThen (case qd_paymentTerm dto of None \<Rightarrow> Inr () | Some t \<Rightarrow> assertActivePaymentTerm org t company) (\<lambda>_.
       if \<exists>q \<in> set (quotations db). qt_company q = company \<and> qt_rfq q = qd_rfq dto \<and> qt_supplier q = qd_supplier dto
       then Inl (AppException Conflict)
       else
         let items = itemsOfRfq (rf_id rfq) db
         in if \<exists>i \<in> set (qd_items dto). qd_rfqItem i \<notin> fi_id ` set items then Inl (AppException ValidationError)
            else if length (qd_items dto) \<noteq> card (fi_id ` set items) then Inl (AppException ValidationError)
            else Inr (rfq, items)))))"

text \<open>One element of the mapping over the items, with its side effects on the totals.\<close>

definition quoteItem ::
  "rfq_item list \<Rightarrow> quotation_item_dto \<Rightarrow> money_totals \<times> quotation_row list
    \<Rightarrow> (money_totals \<times> quotation_row list) result" where
  "quoteItem items i st =
     andThen (orThrow (List.find (\<lambda>x. fi_id x = qd_rfqItem i) items) (DbError ''TypeError'')) (\<lambda>x.
     let unitCost = js_decimal (qd_unitCost i);
         discount = (case qd_discount i of None \<Rightarrow> 0 | Some d \<Rightarrow> js_decimal d);
         tax = (case qd_tax i of None \<Rightarrow> 0 | Some d \<Rightarrow> js_decimal d)
     in if unitCost < 0 \<or> discount < 0 \<or> tax < 0 then Inl (AppException ValidationError)
        else let subtotal = js_mul unitCost (of_int (fi_quantity x))
             in if subtotal < discount then Inl (AppException ValidationError)
                else Inr (\<lparr>mt_subtotal = js_add (mt_subtotal (fst st)) subtotal,
                           mt_discount = js_add (mt_discount (fst st)) discount,
                           mt_tax = js_add (mt_tax (fst st)) tax\<rparr>,
                  snd st @ [\<lparr>qr_rfqItem = fi_id x, qr_variant = fi_variant x, qr_quantity = fi_quantity x,
                    qr_unitCost = to_fixed2 unitCost, qr_discount = to_fixed2 discount,
                    qr_tax = to_fixed2 tax, qr_lineTotal = to_fixed2 (js_add (js_sub subtotal discount) tax),
                    qr_productName = fi_productName x, qr_sku = fi_sku x\<rparr>]))"

definition insertQuotationItem :: "id \<Rightarrow> quotation_row \<Rightarrow> 'a procurement_db_scheme \<Rightarrow> 'a procurement_db_scheme" where
  "insertQuotationItem q row db =
     db\<lparr>quotationItems := quotationItems db @ [quotation_row.extend row \<lparr>qr_id = rowIds db, qr_quotation = q\<rparr>],
        rowIds := rowIds db + 1\<rparr>"

text \<open>The unique index on company, request for quotation and supplier.\<close>

definition insertQuotation :: "quotation \<Rightarrow> 'a procurement_db_scheme \<Rightarrow> 'a procurement_db_scheme result" where
  "insertQuotation q db =
     (if \<exists>k \<in> set (quotations db). qt_company k = qt_company q \<and> qt_rfq k = qt_rfq q \<and> qt_supplier k = qt_supplier q
      then Inl (DupEntry ''purchase_rfq_supplier'')
      else Inr (db\<lparr>quotations := quotations db @ [q], rowIds := rowIds db + 1\<rparr>))"

definition quotationRun ::
  "id \<Rightarrow> id \<Rightarrow> quotation_dto \<Rightarrow> jdate \<Rightarrow> purchase_rfq \<times> rfq_item list \<Rightarrow> 'a procurement_db_scheme
    \<Rightarrow> (quotation \<times> 'a procurement_db_scheme) result" where
  "quotationRun company user dto now read db =
     (let (number, db1) = generateQuotationNumber company (getUTCFullYear now) db
      in andThen (forEach (quoteItem (snd read)) (qd_items dto) (zeroTotals, [])) (\<lambda>(t, rows).
         let q = \<lparr>qt_id = rowIds db1, qt_number = number, qt_company = company, qt_rfq = qd_rfq dto,
               qt_supplier = qd_supplier dto, qt_paymentTerm = qd_paymentTerm dto,
               qt_leadTimeDays = qd_leadTimeDays dto, qt_status = QtSubmitted,
               qt_subtotal = to_fixed2 (mt_subtotal t), qt_discount = to_fixed2 (mt_discount t),
               qt_tax = to_fixed2 (mt_tax t), qt_grandTotal = to_fixed2 (grandTotal t),
               qt_currency = qd_currency dto, qt_createdBy = user, qt_updatedBy = user\<rparr>
         in andThen (insertQuotation q db1) (\<lambda>db2.
            Inr (q, fold (insertQuotationItem (qt_id q)) rows db2))))"

definition createQuotation ::
  "org_db \<Rightarrow> id \<Rightarrow> id \<Rightarrow> quotation_dto \<Rightarrow> jdate \<Rightarrow> 'a procurement_db_scheme
    \<Rightarrow> (quotation \<times> 'a procurement_db_scheme) result" where
  "createQuotation org company user dto now db =
     andThen (quotationRead org company dto db) (\<lambda>read. quotationRun company user dto now read db)"

text \<open>The status change: the check on the quotation that was read, then the transaction.\<close>

definition statusRead :: "id \<Rightarrow> id \<Rightarrow> quotation_status \<Rightarrow> 'a procurement_db_scheme \<Rightarrow> quotation result" where
  "statusRead i company nextStatus db =
     andThen (findQuotation i company db) (\<lambda>q.
     if nextStatus \<notin> set (QUOTATION_TRANSITIONS (qt_status q)) then Inl (AppException Conflict) else Inr q)"

definition statusRun ::
  "quotation \<Rightarrow> id \<Rightarrow> id \<Rightarrow> quotation_status \<Rightarrow> 'a procurement_db_scheme \<Rightarrow> 'a procurement_db_scheme" where
  "statusRun q company user nextStatus db =
     (let setStatus = (\<lambda>s x. x\<lparr>qt_status := s, qt_updatedBy := user\<rparr>)
      in if nextStatus = QtAwarded then
           db\<lparr>quotations := map (\<lambda>x.
                if qt_id x = qt_id q then setStatus QtAwarded x
                else if qt_rfq x = qt_rfq q \<and> qt_company x = company \<and> qt_status x = QtSubmitted
                then setStatus QtRejected x else x) (quotations db),
              rfqs := map (\<lambda>r. if rf_id r = qt_rfq q then r\<lparr>rf_status := RfqClosed, rf_updatedBy := user\<rparr> else r)
                (rfqs db)\<rparr>
         else db\<lparr>quotations := map (\<lambda>x. if qt_id x = qt_id q then setStatus nextStatus x else x) (quotations db)\<rparr>)"

definition updateQuotationStatus ::
  "id \<Rightarrow> id \<Rightarrow> id \<Rightarrow> quotation_status \<Rightarrow> 'a procurement_db_scheme
    \<Rightarrow> (quotation \<times> 'a procurement_db_scheme) result" where
  "updateQuotationStatus i company user nextStatus db =
     andThen (statusRead i company nextStatus db) (\<lambda>q.
     let db' = statusRun q company user nextStatus db
     in andThen (findQuotation i company db') (\<lambda>q'. Inr (q', db')))"

lemma number_formats:
  "formatPurchaseRequestNumber = formatDocumentNumber ''PR''"
  "formatPurchaseRfqNumber = padded_number 4 ''RFQ''"
  "formatSupplierQuotationNumber = padded_number 4 ''SQ''"
  by (simp_all add: fun_eq_iff formatPurchaseRequestNumber_def formatPurchaseRfqNumber_def
      formatSupplierQuotationNumber_def formatDocumentNumber_def padded_number_def)

interpretation request_numbers: numbering generateRequestNumber requestCounters "''PR''"
  by unfold_locales (simp_all add: generateRequestNumber_def next_sequence_eq number_formats)

interpretation rfq_numbers: numbered generateRfqNumber rfqCounters formatPurchaseRfqNumber
  by unfold_locales (simp_all add: generateRfqNumber_def next_sequence_eq number_formats)

interpretation quotation_numbers: numbered generateQuotationNumber quotationCounters formatSupplierQuotationNumber
  by unfold_locales (simp_all add: generateQuotationNumber_def next_sequence_eq number_formats)

end
