(* ===== verification/Purchase_Orders.thy ===== *)
theory Purchase_Orders
  imports Procurement
begin

text \<open>
  Purchase orders (\<open>purchase/services/purchase-orders.service.ts\<close>): creation with the buyer's costs,
  the approval states, closing, cancellation and the application of a payment. The tables of the goods
  receipts are declared here because closing and cancelling read them; the receipts themselves are in
  \<open>Goods_Receipts\<close>. An operation that reads the order, checks it and saves it is one step.
\<close>

section \<open>Tables\<close>

datatype order_status =
    PoDraft | PoSubmitted | PoApproved | PoConfirmed | PoRejected | PoClosed | PoCancelled
datatype purchase_type = StandardPurchase | CreditPurchase

record order_row = money_line +
  pw_variant :: id
  pw_uom :: "id option"
  pw_baseQuantity :: int
  pw_factor :: int
  pw_lineTotal :: int
  pw_productName :: string
  pw_sku :: string

record order_item = order_row +
  pw_id :: id
  pw_order :: id

record purchase_order =
  po_id :: id
  po_number :: string
  po_type :: purchase_type
  po_supplier :: id
  po_company :: id
  po_branch :: "id option"
  po_warehouse :: "id option"
  po_paymentTerm :: "id option"
  po_quotation :: "id option"
  po_date :: jdate
  po_expected :: "jdate option"
  po_status :: order_status
  po_subtotal :: int
  po_discount :: int
  po_tax :: int
  po_grandTotal :: int
  po_paid :: int
  po_balance :: int
  po_currency :: string
  po_createdBy :: id
  po_updatedBy :: id
  po_submittedAt :: "jdate option"
  po_submittedBy :: "id option"
  po_approvedAt :: "jdate option"
  po_approvedBy :: "id option"
  po_rejectedAt :: "jdate option"
  po_rejectedBy :: "id option"
  po_rejectedReason :: "string option"
  po_closedAt :: "jdate option"
  po_closedBy :: "id option"
  po_closeReason :: "string option"

record receipt_row =
  gi_orderItem :: id
  gi_variant :: id
  gi_uom :: "id option"
  gi_received :: int
  gi_rejected :: int
  gi_factor :: int
  gi_baseReceived :: int
  gi_baseRejected :: int

record receipt_item = receipt_row +
  gi_id :: id
  gi_receipt :: id

record goods_receipt =
  gr_id :: id
  gr_number :: string
  gr_order :: id
  gr_warehouse :: id
  gr_supplier :: id
  gr_company :: id
  gr_date :: jdate
  gr_receivedBy :: id

record purchase_db = procurement_db +
  purchaseOrders :: "purchase_order list"
  orderItems :: "order_item list"
  orderCounters :: counters
  goodsReceipts :: "goods_receipt list"
  receiptItems :: "receipt_item list"
  receiptCounters :: counters

section \<open>Checks and numbers\<close>

definition findOrder :: "id \<Rightarrow> id \<Rightarrow> 'a purchase_db_scheme \<Rightarrow> purchase_order result" where
  "findOrder i company db =
     orThrow (List.find (\<lambda>o'. po_id o' = i \<and> po_company o' = company) (purchaseOrders db)) (AppException NotFound)"

definition itemsOfOrder :: "id \<Rightarrow> 'a purchase_db_scheme \<Rightarrow> order_item list" where
  "itemsOfOrder i db = filter (\<lambda>x. pw_order x = i) (orderItems db)"

definition saveOrder :: "purchase_order \<Rightarrow> 'a purchase_db_scheme \<Rightarrow> 'a purchase_db_scheme" where
  "saveOrder o' db = db\<lparr>purchaseOrders := map (\<lambda>x. if po_id x = po_id o' then o' else x) (purchaseOrders db)\<rparr>"

definition assertValidSupplier :: "org_db \<Rightarrow> id \<Rightarrow> id \<Rightarrow> unit result" where
  "assertValidSupplier org supplier company =
     andThen (findSupplierInCompany org supplier company) (\<lambda>s.
     if su_status s = PBlocked then Inl (AppException ValidationError) else Inr ())"

definition assertQuotationOfSupplier ::
  "id option \<Rightarrow> id \<Rightarrow> id \<Rightarrow> 'a procurement_db_scheme \<Rightarrow> unit result" where
  "assertQuotationOfSupplier quotationId supplier company db =
     (case quotationId of None \<Rightarrow> Inr ()
      | Some i \<Rightarrow> andThen (findAwardedQuotation i company db) (\<lambda>q.
          if qt_supplier q \<noteq> supplier then Inl (AppException ValidationError) else Inr ()))"

definition generatePurchaseOrderNumber ::
  "id \<Rightarrow> nat \<Rightarrow> 'a purchase_db_scheme \<Rightarrow> string \<times> 'a purchase_db_scheme" where
  "generatePurchaseOrderNumber company year db =
     (let (nextSequence, t) = next_sequence company year (orderCounters db)
      in (formatPurchaseOrderNumber year nextSequence, db\<lparr>orderCounters := t\<rparr>))"

interpretation order_numbers: numbering generatePurchaseOrderNumber orderCounters "''PO''"
  by unfold_locales (simp_all add: generatePurchaseOrderNumber_def next_sequence_eq formatPurchaseOrderNumber_eq)

section \<open>Creation\<close>

record order_item_dto =
  od_variant :: id
  od_uom :: "id option"
  od_quantity :: int
  od_unitCost :: int
  od_discount :: "int option"
  od_tax :: "int option"

record order_dto =
  oc_type :: "purchase_type option"
  oc_supplier :: id
  oc_branch :: "id option"
  oc_warehouse :: "id option"
  oc_paymentTerm :: "id option"
  oc_quotation :: "id option"
  oc_date :: "jdate option"
  oc_expected :: "jdate option"
  oc_currency :: string
  oc_items :: "order_item_dto list"

definition orderLine :: "order_item_dto \<Rightarrow> money_line" where
  "orderLine i =
     \<lparr>ml_price = od_unitCost i, ml_quantity = od_quantity i,
      ml_discount = (case od_discount i of None \<Rightarrow> 0 | Some d \<Rightarrow> d),
      ml_tax = (case od_tax i of None \<Rightarrow> 0 | Some t \<Rightarrow> t)\<rparr>"

definition assertCostNonNegative :: "money_line \<Rightarrow> unit result" where
  "assertCostNonNegative l =
     (if js_num (ml_price l) < 0 \<or> js_num (ml_discount l) < 0 \<or> js_num (ml_tax l) < 0
      then Inl (AppException ValidationError) else Inr ())"

definition orderRow :: "product_variant \<Rightarrow> uom_selection option \<Rightarrow> int \<Rightarrow> order_item_dto \<Rightarrow> order_row" where
  "orderRow v sel baseQuantity i =
     (let l = orderLine i
      in \<lparr>ml_price = to_fixed2 (js_num (ml_price l)), ml_quantity = ml_quantity l,
          ml_discount = to_fixed2 (js_num (ml_discount l)), ml_tax = to_fixed2 (js_num (ml_tax l)),
          pw_variant = od_variant i, pw_uom = map_option us_uom sel, pw_baseQuantity = baseQuantity,
          pw_factor = selectedFactor sel, pw_lineTotal = to_fixed2 (lineTotal l),
          pw_productName = pv_productName v, pw_sku = pv_sku v\<rparr>)"

text \<open>One turn of the item loop.\<close>

definition costItem ::
  "catalog_db \<Rightarrow> id \<Rightarrow> order_item_dto \<Rightarrow> money_totals \<times> order_row list \<Rightarrow> (money_totals \<times> order_row list) result" where
  "costItem cat company i st =
     andThen (orThrow (List.find (\<lambda>v. pv_id v = od_variant i \<and> pv_company v = company
        \<and> \<not> pv_deleted v) (variants cat)) EntityNotFound) (\<lambda>v.
     andThen (resolveSelectionForUsage cat v company UsagePurchase (od_uom i)) (\<lambda>sel.
     andThen (computeBaseQuantity (od_quantity i) (selectedFactor sel)) (\<lambda>baseQuantity.
     andThen (assertCostNonNegative (orderLine i)) (\<lambda>_.
     andThen (assertDiscountFits (orderLine i)) (\<lambda>_.
     Inr (addLine (orderLine i) (fst st), snd st @ [orderRow v sel baseQuantity i]))))))"

definition insertOrder :: "purchase_order \<Rightarrow> 'a purchase_db_scheme \<Rightarrow> 'a purchase_db_scheme result" where
  "insertOrder o' db =
     (if \<exists>k \<in> set (purchaseOrders db). po_company k = po_company o' \<and> po_number k = po_number o'
      then Inl (DupEntry ''purchase_order_number'')
      else Inr (db\<lparr>purchaseOrders := purchaseOrders db @ [o'], rowIds := rowIds db + 1\<rparr>))"

definition insertOrderItem :: "id \<Rightarrow> order_row \<Rightarrow> 'a purchase_db_scheme \<Rightarrow> 'a purchase_db_scheme" where
  "insertOrderItem orderId r db =
     db\<lparr>orderItems := orderItems db @ [order_row.extend r \<lparr>pw_id = rowIds db, pw_order = orderId\<rparr>],
        rowIds := rowIds db + 1\<rparr>"

definition newOrder ::
  "id \<Rightarrow> id \<Rightarrow> order_dto \<Rightarrow> jdate \<Rightarrow> id \<Rightarrow> string \<Rightarrow> money_totals \<Rightarrow> purchase_order" where
  "newOrder company user dto transactionDate i number t =
     \<lparr>po_id = i, po_number = number,
      po_type = (case oc_type dto of None \<Rightarrow> StandardPurchase | Some x \<Rightarrow> x),
      po_supplier = oc_supplier dto, po_company = company, po_branch = oc_branch dto,
      po_warehouse = oc_warehouse dto, po_paymentTerm = oc_paymentTerm dto, po_quotation = oc_quotation dto,
      po_date = transactionDate, po_expected = oc_expected dto, po_status = PoDraft,
      po_subtotal = to_fixed2 (mt_subtotal t), po_discount = to_fixed2 (mt_discount t),
      po_tax = to_fixed2 (mt_tax t), po_grandTotal = to_fixed2 (grandTotal t), po_paid = 0,
      po_balance = to_fixed2 (grandTotal t), po_currency = oc_currency dto, po_createdBy = user,
      po_updatedBy = user, po_submittedAt = None, po_submittedBy = None, po_approvedAt = None,
      po_approvedBy = None, po_rejectedAt = None, po_rejectedBy = None, po_rejectedReason = None,
      po_closedAt = None, po_closedBy = None, po_closeReason = None\<rparr>"

definition createOrderTx ::
  "catalog_db \<Rightarrow> id \<Rightarrow> id \<Rightarrow> order_dto \<Rightarrow> jdate \<Rightarrow> 'a purchase_db_scheme
    \<Rightarrow> (purchase_order \<times> 'a purchase_db_scheme) result" where
  "createOrderTx cat company user dto transactionDate db =
     (let (number, db1) = generatePurchaseOrderNumber company (getUTCFullYear transactionDate) db
      in andThen (forEach (costItem cat company) (oc_items dto) (zeroTotals, [])) (\<lambda>(t, rows).
         let o' = newOrder company user dto transactionDate (rowIds db1) number t
         in andThen (insertOrder o' db1) (\<lambda>db2. Inr (o', fold (insertOrderItem (po_id o')) rows db2))))"

definition createOrder ::
  "org_db \<Rightarrow> catalog_db \<Rightarrow> id \<Rightarrow> id \<Rightarrow> order_dto \<Rightarrow> jdate \<Rightarrow> 'a purchase_db_scheme
    \<Rightarrow> (purchase_order \<times> 'a purchase_db_scheme) result" where
  "createOrder org cat company user dto now db =
     andThen (assertActiveCompany org company) (\<lambda>_.
     andThen (assertBranchIfGiven org (oc_branch dto) company) (\<lambda>_.
     andThen (case oc_warehouse dto of None \<Rightarrow> Inr ()
        | Some w \<Rightarrow> assertValidWarehouse org w company (oc_branch dto)) (\<lambda>_.
     andThen (assertValidSupplier org (oc_supplier dto) company) (\<lambda>_.
     andThen (case oc_paymentTerm dto of None \<Rightarrow> Inr ()
        | Some t \<Rightarrow> assertActivePaymentTerm org t company) (\<lambda>_.
     andThen (assertQuotationOfSupplier (oc_quotation dto) (oc_supplier dto) company db) (\<lambda>_.
     andThen (checkAll (\<lambda>i. assertVariantActive cat company (od_variant i)) (oc_items dto)) (\<lambda>_.
     createOrderTx cat company user dto (case oc_date dto of None \<Rightarrow> now | Some d \<Rightarrow> d) db)))))))"

section \<open>States\<close>

definition ORDER_TRANSITIONS :: "order_status \<Rightarrow> order_status list" where
  "ORDER_TRANSITIONS s =
     (case s of
        PoDraft \<Rightarrow> [PoSubmitted, PoApproved, PoConfirmed, PoCancelled]
      | PoSubmitted \<Rightarrow> [PoApproved, PoConfirmed, PoRejected, PoCancelled]
      | PoApproved \<Rightarrow> [PoClosed] | PoConfirmed \<Rightarrow> [PoClosed]
      | PoRejected \<Rightarrow> [] | PoClosed \<Rightarrow> [] | PoCancelled \<Rightarrow> [])"

definition assertOrderTransition :: "order_status \<Rightarrow> order_status \<Rightarrow> unit result" where
  "assertOrderTransition current target =
     (if target \<notin> set (ORDER_TRANSITIONS current) then Inl (AppException Conflict) else Inr ())"

definition isReleasedStatus :: "order_status \<Rightarrow> bool" where
  "isReleasedStatus s \<longleftrightarrow> s = PoApproved \<or> s = PoConfirmed"

text \<open>\<open>a ?? b\<close>.\<close>

definition orElse :: "'a option \<Rightarrow> 'a \<Rightarrow> 'a option" where
  "orElse a b = (case a of None \<Rightarrow> Some b | Some x \<Rightarrow> Some x)"

definition submitOrder ::
  "id \<Rightarrow> id \<Rightarrow> id \<Rightarrow> jdate \<Rightarrow> 'a purchase_db_scheme \<Rightarrow> (purchase_order \<times> 'a purchase_db_scheme) result" where
  "submitOrder i company user now db =
     andThen (findOrder i company db) (\<lambda>o'.
     andThen (assertOrderTransition (po_status o') PoSubmitted) (\<lambda>_.
     let r = o'\<lparr>po_status := PoSubmitted, po_submittedAt := Some now, po_submittedBy := Some user,
               po_updatedBy := user\<rparr>
     in Inr (r, saveOrder r db)))"

definition approveOrder ::
  "id \<Rightarrow> id \<Rightarrow> id \<Rightarrow> jdate \<Rightarrow> 'a purchase_db_scheme \<Rightarrow> (purchase_order \<times> 'a purchase_db_scheme) result" where
  "approveOrder i company user now db =
     andThen (findOrder i company db) (\<lambda>o'.
     andThen (assertOrderTransition (po_status o') PoApproved) (\<lambda>_.
     let r = o'\<lparr>po_status := PoApproved, po_submittedAt := orElse (po_submittedAt o') now,
               po_submittedBy := orElse (po_submittedBy o') user, po_approvedAt := Some now,
               po_approvedBy := Some user, po_updatedBy := user\<rparr>
     in Inr (r, saveOrder r db)))"

definition confirmOrder ::
  "id \<Rightarrow> id \<Rightarrow> id \<Rightarrow> jdate \<Rightarrow> 'a purchase_db_scheme \<Rightarrow> (purchase_order \<times> 'a purchase_db_scheme) result" where
  "confirmOrder i company user now db =
     andThen (findOrder i company db) (\<lambda>o'.
     andThen (assertOrderTransition (po_status o') PoConfirmed) (\<lambda>_.
     let r = o'\<lparr>po_status := PoConfirmed, po_approvedAt := orElse (po_approvedAt o') now,
               po_approvedBy := orElse (po_approvedBy o') user,
               po_submittedAt := orElse (po_submittedAt o') now,
               po_submittedBy := orElse (po_submittedBy o') user, po_updatedBy := user\<rparr>
     in Inr (r, saveOrder r db)))"

definition rejectOrder ::
  "id \<Rightarrow> id \<Rightarrow> id \<Rightarrow> string \<Rightarrow> jdate \<Rightarrow> 'a purchase_db_scheme
    \<Rightarrow> (purchase_order \<times> 'a purchase_db_scheme) result" where
  "rejectOrder i company user reason now db =
     andThen (findOrder i company db) (\<lambda>o'.
     andThen (assertOrderTransition (po_status o') PoRejected) (\<lambda>_.
     let r = o'\<lparr>po_status := PoRejected, po_rejectedAt := Some now, po_rejectedBy := Some user,
               po_rejectedReason := Some reason, po_updatedBy := user\<rparr>
     in Inr (r, saveOrder r db)))"

text \<open>The quantities received or rejected of an order item, over some receipts.\<close>

definition handledBy :: "(goods_receipt \<Rightarrow> bool) \<Rightarrow> id \<Rightarrow> 'a purchase_db_scheme \<Rightarrow> int" where
  "handledBy p item db =
     sum_list (map (\<lambda>x. gi_received x + gi_rejected x) (filter (\<lambda>x. gi_orderItem x = item
       \<and> (\<exists>g \<in> set (goodsReceipts db). p g \<and> gr_id g = gi_receipt x)) (receiptItems db)))"

definition assertCloseable :: "purchase_order \<Rightarrow> id \<Rightarrow> 'a purchase_db_scheme \<Rightarrow> unit result" where
  "assertCloseable o' company db =
     (let mine = (\<lambda>g. gr_order g = po_id o' \<and> gr_company g = company)
      in if filter mine (goodsReceipts db) = [] then Inl (AppException Conflict)
         else if \<exists>x \<in> set (itemsOfOrder (po_id o') db). handledBy mine (pw_id x) db < ml_quantity x
         then Inl (AppException Conflict)
         else if js_eps < js_num (po_balance o') then Inl (AppException Conflict)
         else Inr ())"

definition closeOrder ::
  "id \<Rightarrow> id \<Rightarrow> id \<Rightarrow> string option \<Rightarrow> jdate \<Rightarrow> 'a purchase_db_scheme
    \<Rightarrow> (purchase_order \<times> 'a purchase_db_scheme) result" where
  "closeOrder i company user reason now db =
     andThen (findOrder i company db) (\<lambda>o'.
     andThen (assertOrderTransition (po_status o') PoClosed) (\<lambda>_.
     andThen (assertCloseable o' company db) (\<lambda>_.
     let r = o'\<lparr>po_status := PoClosed, po_closedAt := Some now, po_closedBy := Some user,
               po_closeReason := reason, po_updatedBy := user\<rparr>
     in Inr (r, saveOrder r db))))"

definition cancelOrder ::
  "id \<Rightarrow> id \<Rightarrow> id \<Rightarrow> 'a purchase_db_scheme \<Rightarrow> (purchase_order \<times> 'a purchase_db_scheme) result" where
  "cancelOrder i company user db =
     andThen (findOrder i company db) (\<lambda>o'.
     if filter (\<lambda>g. gr_order g = i) (goodsReceipts db) \<noteq> [] then Inl (AppException Conflict)
     else andThen (assertOrderTransition (po_status o') PoCancelled) (\<lambda>_.
       let r = o'\<lparr>po_status := PoCancelled, po_updatedBy := user\<rparr> in Inr (r, saveOrder r db)))"

definition applyOrderPayment ::
  "id \<Rightarrow> id \<Rightarrow> real \<Rightarrow> id \<Rightarrow> 'a purchase_db_scheme \<Rightarrow> 'a purchase_db_scheme result" where
  "applyOrderPayment i company allocated user db =
     andThen (findOrder i company db) (\<lambda>o'.
     if \<not> isReleasedStatus (po_status o') then Inl (AppException Conflict)
     else
       let currentPaid = js_num (po_paid o'); limit = js_num (po_grandTotal o');
           newPaid = js_add currentPaid allocated
       in if exceeds newPaid limit then Inl (AppException Conflict)
          else
            let newBalance = js_sub limit newPaid
            in Inr (saveOrder (o'\<lparr>po_paid := to_fixed2 newPaid, po_balance := to_fixed2 newBalance,
                 po_updatedBy := user\<rparr>) db))"

end
