(* ===== verification/Goods_Receipts.thy ===== *)
theory Goods_Receipts
  imports Purchase_Orders
begin

text \<open>
  Goods receipts (\<open>inventory/services/goods-receipts.service.ts\<close>): the received and rejected quantities
  of the items of a released order, checked against what earlier receipts left open; the stock rows are
  increased in the item loop, and the movements are written in a second loop, after the receipt.
\<close>

definition generateReceiptNumber ::
  "id \<Rightarrow> nat \<Rightarrow> 'a purchase_db_scheme \<Rightarrow> string \<times> 'a purchase_db_scheme" where
  "generateReceiptNumber company year db =
     (let (nextSequence, t) = next_sequence company year (receiptCounters db)
      in (formatDocumentNumber ''GR'' year nextSequence, db\<lparr>receiptCounters := t\<rparr>))"

interpretation receipt_numbers: numbering generateReceiptNumber receiptCounters "''GR''"
  by unfold_locales (simp_all add: generateReceiptNumber_def next_sequence_eq)

record receipt_item_dto =
  gd_orderItem :: id
  gd_variant :: id
  gd_received :: int
  gd_rejected :: "int option"

record receipt_dto =
  gc_order :: id
  gc_warehouse :: id
  gc_date :: "jdate option"
  gc_items :: "receipt_item_dto list"

text \<open>The released order that the warehouse fits.\<close>

definition receivableOrder ::
  "receipt_dto \<Rightarrow> warehouse \<Rightarrow> id \<Rightarrow> 'a purchase_db_scheme \<Rightarrow> purchase_order result" where
  "receivableOrder dto wh company db =
     andThen (findOrder (gc_order dto) company db) (\<lambda>o'.
     if po_status o' = PoDraft \<or> po_status o' = PoSubmitted then Inl (AppException Conflict)
     else if po_status o' = PoCancelled \<or> po_status o' = PoRejected \<or> po_status o' = PoClosed
     then Inl (AppException Conflict)
     else if po_branch o' \<noteq> None \<and> po_branch o' \<noteq> Some (wh_branch wh) then Inl (AppException ValidationError)
     else if po_warehouse o' \<noteq> None \<and> po_warehouse o' \<noteq> Some (gc_warehouse dto)
     then Inl (AppException ValidationError)
     else Inr o')"

text \<open>What all stored receipts hold of an order item.\<close>

definition priorHandled :: "id \<Rightarrow> 'a purchase_db_scheme \<Rightarrow> int" where
  "priorHandled i db =
     sum_list (map (\<lambda>x. gi_received x + gi_rejected x) (filter (\<lambda>x. gi_orderItem x = i) (receiptItems db)))"

definition rejectedQuantity :: "receipt_item_dto \<Rightarrow> int" where
  "rejectedQuantity i = (case gd_rejected i of None \<Rightarrow> 0 | Some q \<Rightarrow> q)"

text \<open>The checks of one item and the row it gives.\<close>

definition receiptRow ::
  "catalog_db \<Rightarrow> id \<Rightarrow> id \<Rightarrow> receipt_item_dto \<Rightarrow> 'a purchase_db_scheme \<Rightarrow> receipt_row result" where
  "receiptRow cat company orderId i db =
     andThen (orThrow (List.find (\<lambda>x. pw_id x = gd_orderItem i \<and> pw_order x = orderId) (orderItems db))
       (AppException NotFound)) (\<lambda>x.
     if pw_variant x \<noteq> gd_variant i then Inl (AppException ValidationError)
     else andThen (orThrow (List.find (\<lambda>v. pv_id v = gd_variant i \<and> pv_company v = company) (variants cat))
       (AppException NotFound)) (\<lambda>_.
     let remaining = ml_quantity x - priorHandled (gd_orderItem i) db;
         rejected = rejectedQuantity i; handled = gd_received i + rejected
     in andThen (computeReceiptBaseQuantity (gd_received i) (pw_factor x)) (\<lambda>baseReceived.
        andThen (computeReceiptBaseQuantity rejected (pw_factor x)) (\<lambda>baseRejected.
        if handled \<le> 0 then Inl (AppException ValidationError)
        else if remaining < handled then Inl (AppException Conflict)
        else Inr \<lparr>gi_orderItem = gd_orderItem i, gi_variant = gd_variant i, gi_uom = pw_uom x,
               gi_received = gd_received i, gi_rejected = rejected, gi_factor = pw_factor x,
               gi_baseReceived = baseReceived, gi_baseRejected = baseRejected\<rparr>))))"

text \<open>The stock row of a received row is locked and increased; nothing is logged yet.\<close>

definition increaseStock :: "id \<Rightarrow> 'b receipt_row_scheme \<Rightarrow> 'a stock_db_scheme \<Rightarrow> 'a stock_db_scheme" where
  "increaseStock w r db =
     (if 0 < gi_received r then
        (let (stock, db1) = lockWarehouseStockRow w (gi_variant r) db
         in updateOnHand w (gi_variant r) (onHandQuantity stock + gi_baseReceived r) db1)
      else db)"

definition receiveItem ::
  "catalog_db \<Rightarrow> id \<Rightarrow> id \<Rightarrow> id \<Rightarrow> receipt_item_dto \<Rightarrow> 'a purchase_db_scheme \<times> receipt_row list
    \<Rightarrow> ('a purchase_db_scheme \<times> receipt_row list) result" where
  "receiveItem cat company orderId w i st =
     andThen (receiptRow cat company orderId i (fst st)) (\<lambda>r.
     Inr (increaseStock w r (fst st), snd st @ [r]))"

text \<open>The second loop: the item row, and the movement with the balance the row has by then.\<close>

definition insertReceiptItem :: "id \<Rightarrow> receipt_row \<Rightarrow> 'a purchase_db_scheme \<Rightarrow> 'a purchase_db_scheme" where
  "insertReceiptItem receiptId r db =
     db\<lparr>receiptItems := receiptItems db @ [receipt_row.extend r \<lparr>gi_id = rowIds db, gi_receipt = receiptId\<rparr>],
        rowIds := rowIds db + 1\<rparr>"

definition logReceipt ::
  "id \<Rightarrow> id \<Rightarrow> id \<Rightarrow> jdate \<Rightarrow> 'b receipt_row_scheme \<Rightarrow> 'a stock_db_scheme \<Rightarrow> 'a stock_db_scheme result" where
  "logReceipt w receiptId user now r db =
     (if 0 < gi_received r then
        andThen (orThrow (warehouseStock db (w, gi_variant r)) EntityNotFound) (\<lambda>stock.
        Inr (saveMovement (\<lambda>k. \<lparr>mv_id = k, mv_warehouse = w, mv_variant = gi_variant r,
          mv_type = PurchaseReceipt, mv_change = gi_baseReceived r, mv_after = onHandQuantity stock,
          mv_refType = RefGoodsReceipt, mv_refId = receiptId, mv_createdAt = now,
          mv_createdBy = Some user\<rparr>) db))
      else Inr db)"

definition finishItem ::
  "id \<Rightarrow> id \<Rightarrow> id \<Rightarrow> jdate \<Rightarrow> receipt_row \<Rightarrow> 'a purchase_db_scheme \<Rightarrow> 'a purchase_db_scheme result" where
  "finishItem w receiptId user now r db = logReceipt w receiptId user now r (insertReceiptItem receiptId r db)"

definition createReceiptTx ::
  "catalog_db \<Rightarrow> warehouse \<Rightarrow> id \<Rightarrow> id \<Rightarrow> receipt_dto \<Rightarrow> jdate \<Rightarrow> jdate \<Rightarrow> 'a purchase_db_scheme
    \<Rightarrow> (goods_receipt \<times> 'a purchase_db_scheme) result" where
  "createReceiptTx cat wh company user dto receiptDate now db =
     andThen (receivableOrder dto wh company db) (\<lambda>o'.
     let (number, db1) = generateReceiptNumber company (getUTCFullYear receiptDate) db
     in andThen (forEach (receiveItem cat company (gc_order dto) (gc_warehouse dto))
          (sort_key gd_orderItem (gc_items dto)) (db1, [])) (\<lambda>(db2, rows).
        let g = \<lparr>gr_id = rowIds db2, gr_number = number, gr_order = gc_order dto,
                 gr_warehouse = gc_warehouse dto, gr_supplier = po_supplier o', gr_company = company,
                 gr_date = receiptDate, gr_receivedBy = user\<rparr>;
            db3 = db2\<lparr>goodsReceipts := goodsReceipts db2 @ [g], rowIds := rowIds db2 + 1\<rparr>
        in andThen (forEach (finishItem (gc_warehouse dto) (gr_id g) user now) rows db3) (\<lambda>db4. Inr (g, db4))))"

definition createReceipt ::
  "org_db \<Rightarrow> catalog_db \<Rightarrow> id \<Rightarrow> id \<Rightarrow> receipt_dto \<Rightarrow> jdate \<Rightarrow> 'a purchase_db_scheme
    \<Rightarrow> (goods_receipt \<times> 'a purchase_db_scheme) result" where
  "createReceipt org cat company user dto now db =
     andThen (findWarehouse org (gc_warehouse dto)) (\<lambda>wh.
     if wh_status wh \<noteq> Active then Inl (AppException ValidationError)
     else if wh_company wh \<noteq> company then Inl (AppException ValidationError)
     else createReceiptTx cat wh company user dto (case gc_date dto of None \<Rightarrow> now | Some d \<Rightarrow> d) now db)"

section \<open>The two loops\<close>

text \<open>What a receipt adds to a stock row.\<close>

definition receivedBase :: "'b receipt_row_scheme \<Rightarrow> int" where
  "receivedBase r = (if 0 < gi_received r then gi_baseReceived r else 0)"

lemma stock_frame_purchase:
  "stock_frame db d \<Longrightarrow> orderItems d = orderItems db \<and> receiptItems d = receiptItems db
    \<and> purchaseOrders d = purchaseOrders db \<and> goodsReceipts d = goodsReceipts db"
  by (cases db; cases d) (simp add: stock_frame_def)

lemma increaseStock_laws:
  "level (increaseStock w r db) x v = level db x v + (if x = w \<and> v = gi_variant r then receivedBase r else 0)"
  "stockMovements (increaseStock w r db) = stockMovements db" "rowIds (increaseStock w r db) = rowIds db"
  "stock_frame db (increaseStock w r db)"
  "warehouseStock db k \<noteq> None \<Longrightarrow> warehouseStock (increaseStock w r db) k \<noteq> None"
  "0 < gi_received r \<Longrightarrow> warehouseStock (increaseStock w r db) (w, gi_variant r) \<noteq> None"
proof -
  obtain s d1 where l: "lockWarehouseStockRow w (gi_variant r) db = (s, d1)" by force
  note laws = lockWarehouseStockRow_laws [OF l]
  have e: "increaseStock w r db = (if 0 < gi_received r
      then updateOnHand w (gi_variant r) (onHandQuantity s + gi_baseReceived r) d1 else db)"
    by (simp add: increaseStock_def l)
  have ne: "warehouseStock d1 (w, gi_variant r) \<noteq> None" using laws(3) by simp
  show "level (increaseStock w r db) x v = level db x v + (if x = w \<and> v = gi_variant r then receivedBase r else 0)"
    using laws(1,2) by (simp add: e level_updateOnHand [OF ne] receivedBase_def)
  show "stockMovements (increaseStock w r db) = stockMovements db" "rowIds (increaseStock w r db) = rowIds db"
    "stock_frame db (increaseStock w r db)"
    using laws stock_frame_trans [OF laws(7) updateOnHand_frame] by (simp_all add: e)
  show "warehouseStock (increaseStock w r db) k \<noteq> None" if "warehouseStock db k \<noteq> None"
    using laws(5) [OF that] that by (simp add: e del: not_None_eq)
  show "warehouseStock (increaseStock w r db) (w, gi_variant r) \<noteq> None" if "0 < gi_received r"
    using ne that by (simp add: e)
qed

lemma increaseStocks_laws:
  fixes rows :: "'b receipt_row_scheme list" and db :: "'a stock_db_scheme" and w :: id
  defines "db' \<equiv> fold (increaseStock w) rows db"
  shows "level db' x v = level db x v + lineDelta w gi_variant receivedBase rows x v"
    "stockMovements db' = stockMovements db" "rowIds db' = rowIds db" "stock_frame db db'"
    "(\<forall>k. warehouseStock db k \<noteq> None \<longrightarrow> warehouseStock db' k \<noteq> None)
      \<and> (\<forall>r \<in> set rows. 0 < gi_received r \<longrightarrow> warehouseStock db' (w, gi_variant r) \<noteq> None)"
proof -
  have "level db' x v = level db x v + lineDelta w gi_variant receivedBase rows x v
    \<and> stockMovements db' = stockMovements db \<and> rowIds db' = rowIds db \<and> stock_frame db db'
    \<and> (\<forall>k. warehouseStock db k \<noteq> None \<longrightarrow> warehouseStock db' k \<noteq> None)
      \<and> (\<forall>r \<in> set rows. 0 < gi_received r \<longrightarrow> warehouseStock db' (w, gi_variant r) \<noteq> None)"
    unfolding db'_def
  proof (induction rows arbitrary: db)
    case (Cons r rows)
    note laws = increaseStock_laws [where w = w and r = r and db = db]
    from Cons.IH [of "increaseStock w r db"] laws show ?case
      by (auto intro: stock_frame_trans)
  qed simp
  then show "level db' x v = level db x v + lineDelta w gi_variant receivedBase rows x v"
    "stockMovements db' = stockMovements db" "rowIds db' = rowIds db" "stock_frame db db'"
    "(\<forall>k. warehouseStock db k \<noteq> None \<longrightarrow> warehouseStock db' k \<noteq> None)
      \<and> (\<forall>r \<in> set rows. 0 < gi_received r \<longrightarrow> warehouseStock db' (w, gi_variant r) \<noteq> None)" by blast+
qed

text \<open>The checks of an item do not depend on the stock, so all rows are those of the state before.\<close>

lemma receiptRow_cong:
  assumes "orderItems d = orderItems db" "receiptItems d = receiptItems db"
  shows "receiptRow cat company i item d = receiptRow cat company i item db"
  unfolding receiptRow_def priorHandled_def assms by (rule refl)

lemma receiptRow_frame:
  "stock_frame db d \<Longrightarrow> receiptRow cat company i item d = receiptRow cat company i item db"
  using stock_frame_purchase [of db d] by (intro receiptRow_cong) blast+

lemma receiveItems_loop:
  assumes "forEach (receiveItem cat company i w) items (db, rows0) = Inr (db', rows)"
  shows "\<exists>new. rows = rows0 @ new \<and> list_all2 (\<lambda>x r. receiptRow cat company i x db = Inr r) items new
    \<and> db' = fold (increaseStock w) new db"
  using assms
proof (induction items arbitrary: db rows0)
  case (Cons x items)
  from Cons.prems obtain r where r: "receiptRow cat company i x db = Inr r"
    and rest: "forEach (receiveItem cat company i w) items (increaseStock w r db, rows0 @ [r]) = Inr (db', rows)"
    by (auto simp: receiveItem_def [of _ _ _ _ x])
  from Cons.IH [OF rest] obtain new where new: "rows = (rows0 @ [r]) @ new"
    "list_all2 (\<lambda>x r'. receiptRow cat company i x (increaseStock w r db) = Inr r') items new"
    "db' = fold (increaseStock w) new (increaseStock w r db)" by blast
  from new(2) have "list_all2 (\<lambda>x r. receiptRow cat company i x db = Inr r) items new"
    by (simp add: receiptRow_frame [OF increaseStock_laws(4)])
  with r new show ?case by (intro exI [of _ "r # new"]) simp
qed simp

lemma finishItem_laws:
  assumes "finishItem w i user now r db = Inr db'"
  shows "\<exists>ms. stockMovements db' = stockMovements db @ ms \<and> warehouseStock db' = warehouseStock db
    \<and> (\<forall>x v. movementSum ms x v = (if x = w \<and> v = gi_variant r then receivedBase r else 0))
    \<and> (\<forall>m \<in> set ms. mv_after m = level db (mv_warehouse m) (mv_variant m))
    \<and> receiptItems db' = receiptItems db @ [receipt_row.extend r \<lparr>gi_id = rowIds db, gi_receipt = i\<rparr>]
    \<and> rowIds db < rowIds db' \<and> purchaseOrders db' = purchaseOrders db \<and> orderItems db' = orderItems db
    \<and> goodsReceipts db' = goodsReceipts db"
proof (cases "0 < gi_received r")
  case True
  with assms obtain s where s: "warehouseStock db (w, gi_variant r) = Some s"
    and db': "db' = saveMovement (\<lambda>k. \<lparr>mv_id = k, mv_warehouse = w, mv_variant = gi_variant r,
          mv_type = PurchaseReceipt, mv_change = gi_baseReceived r, mv_after = onHandQuantity s,
          mv_refType = RefGoodsReceipt, mv_refId = i, mv_createdAt = now,
          mv_createdBy = Some user\<rparr>) (insertReceiptItem i r db)"
    by (auto simp: finishItem_def logReceipt_def insertReceiptItem_def)
  show ?thesis
    using True s by (simp add: db' insertReceiptItem_def receivedBase_def level_def)
      (simp add: saveMovement_def insertReceiptItem_def)
next
  case False
  with assms have db': "db' = insertReceiptItem i r db" by (simp add: finishItem_def logReceipt_def)
  show ?thesis using False by (intro exI [of _ "[]"]) (simp add: db' insertReceiptItem_def receivedBase_def)
qed

lemma finishItems_laws:
  assumes "forEach (finishItem w i user now) rows db = Inr db'"
  shows "\<exists>ms new. stockMovements db' = stockMovements db @ ms \<and> warehouseStock db' = warehouseStock db
    \<and> (\<forall>x v. movementSum ms x v = lineDelta w gi_variant receivedBase rows x v)
    \<and> (\<forall>m \<in> set ms. mv_after m = level db (mv_warehouse m) (mv_variant m))
    \<and> receiptItems db' = receiptItems db @ new \<and> map receipt_row.truncate new = rows
    \<and> (\<forall>x \<in> set new. gi_receipt x = i)
    \<and> rowIds db \<le> rowIds db' \<and> purchaseOrders db' = purchaseOrders db \<and> orderItems db' = orderItems db
    \<and> goodsReceipts db' = goodsReceipts db"
  using assms
proof (induction rows arbitrary: db)
  case Nil
  then show ?case by (intro exI [of _ "[]"]) simp
next
  case (Cons r rows)
  from Cons.prems obtain d where d: "finishItem w i user now r db = Inr d"
    and rest: "forEach (finishItem w i user now) rows d = Inr db'" by auto
  from finishItem_laws [OF d] obtain m1 where m1: "stockMovements d = stockMovements db @ m1"
    "warehouseStock d = warehouseStock db"
    "\<forall>x v. movementSum m1 x v = (if x = w \<and> v = gi_variant r then receivedBase r else 0)"
    "\<forall>m \<in> set m1. mv_after m = level db (mv_warehouse m) (mv_variant m)"
    "receiptItems d = receiptItems db @ [receipt_row.extend r \<lparr>gi_id = rowIds db, gi_receipt = i\<rparr>]"
    "rowIds db < rowIds d" "purchaseOrders d = purchaseOrders db" "orderItems d = orderItems db"
    "goodsReceipts d = goodsReceipts db" by blast
  from Cons.IH [OF rest] obtain m2 new where m2: "stockMovements db' = stockMovements d @ m2"
    "warehouseStock db' = warehouseStock d"
    "\<forall>x v. movementSum m2 x v = lineDelta w gi_variant receivedBase rows x v"
    "\<forall>m \<in> set m2. mv_after m = level d (mv_warehouse m) (mv_variant m)"
    "receiptItems db' = receiptItems d @ new" "map receipt_row.truncate new = rows"
    "\<forall>x \<in> set new. gi_receipt x = i"
    "rowIds d \<le> rowIds db'" "purchaseOrders db' = purchaseOrders d" "orderItems db' = orderItems d"
    "goodsReceipts db' = goodsReceipts d" by blast
  have l: "level d x v = level db x v" for x v by (simp add: level_def m1(2))
  have t: "receipt_row.truncate (receipt_row.extend r \<lparr>gi_id = rowIds db, gi_receipt = i\<rparr>) = r"
    by (cases r) (simp add: receipt_row.truncate_def receipt_row.extend_def)
  show ?case
    using m1 m2 l t
    by (intro exI [of _ "m1 @ m2"] exI [of _ "receipt_row.extend r \<lparr>gi_id = rowIds db, gi_receipt = i\<rparr> # new"])
      (auto simp: receipt_row.extend_def)
qed

text \<open>The whole receipt.\<close>

lemma createReceipt_laws:
  assumes "createReceipt org cat company user dto now db = Inr (g, db')"
  shows "\<exists>o' rows ms new wh. receivableOrder dto wh company db = Inr o'
    \<and> list_all2 (\<lambda>i r. receiptRow cat company (gc_order dto) i db = Inr r)
        (sort_key gd_orderItem (gc_items dto)) rows
    \<and> logs db db' ms \<and> (\<forall>x v. movementSum ms x v = lineDelta (gc_warehouse dto) gi_variant receivedBase rows x v)
    \<and> (\<forall>m \<in> set ms. mv_after m = level db' (mv_warehouse m) (mv_variant m))
    \<and> receiptItems db' = receiptItems db @ new \<and> map receipt_row.truncate new = rows
    \<and> (\<forall>x \<in> set new. gi_receipt x = gr_id g)
    \<and> goodsReceipts db' = goodsReceipts db @ [g] \<and> gr_order g = gc_order dto \<and> gr_company g = company
    \<and> gr_id g = rowIds db \<and> rowIds db < rowIds db' \<and> purchaseOrders db' = purchaseOrders db
    \<and> orderItems db' = orderItems db"
proof -
  let ?d = "case gc_date dto of None \<Rightarrow> now | Some d \<Rightarrow> d" and ?w = "gc_warehouse dto"
  obtain n db1 where gn: "generateReceiptNumber company (getUTCFullYear ?d) db = (n, db1)" by force
  have fr1: "warehouseStock db1 = warehouseStock db" "stockMovements db1 = stockMovements db"
    "rowIds db1 = rowIds db" "purchaseOrders db1 = purchaseOrders db" "orderItems db1 = orderItems db"
    "receiptItems db1 = receiptItems db" "goodsReceipts db1 = goodsReceipts db"
    using gn by (auto simp: generateReceiptNumber_def next_sequence_eq)
  from assms gn obtain wh o' db2 rows where o: "receivableOrder dto wh company db = Inr o'"
    and loop1: "forEach (receiveItem cat company (gc_order dto) ?w) (sort_key gd_orderItem (gc_items dto)) (db1, [])
        = Inr (db2, rows)"
    and g: "gr_order g = gc_order dto" "gr_company g = company" "gr_id g = rowIds db2"
    and loop2: "forEach (finishItem ?w (gr_id g) user now) rows
        (db2\<lparr>goodsReceipts := goodsReceipts db2 @ [g], rowIds := rowIds db2 + 1\<rparr>) = Inr db'"
    by (auto simp: createReceipt_def createReceiptTx_def Let_def)
  from receiveItems_loop [OF loop1] have
    rows: "list_all2 (\<lambda>i r. receiptRow cat company (gc_order dto) i db1 = Inr r) (sort_key gd_orderItem (gc_items dto)) rows"
    and db2: "db2 = fold (increaseStock ?w) rows db1" by auto
  have same: "receiptRow cat company (gc_order dto) i db1 = receiptRow cat company (gc_order dto) i db" for i
    by (rule receiptRow_cong) (simp_all add: fr1)
  note inc = increaseStocks_laws [where rows = rows and w = ?w and db = db1, folded db2]
  note fr2 = stock_frame_purchase [OF inc(4)]
  from finishItems_laws [OF loop2] obtain ms new where f: "stockMovements db' = stockMovements db2 @ ms"
    "warehouseStock db' = warehouseStock db2"
    "\<forall>x v. movementSum ms x v = lineDelta ?w gi_variant receivedBase rows x v"
    "\<forall>m \<in> set ms. mv_after m = level db2 (mv_warehouse m) (mv_variant m)"
    "receiptItems db' = receiptItems db2 @ new" "map receipt_row.truncate new = rows"
    "\<forall>x \<in> set new. gi_receipt x = gr_id g" "rowIds db2 + 1 \<le> rowIds db'"
    "purchaseOrders db' = purchaseOrders db2" "orderItems db' = orderItems db2"
    "goodsReceipts db' = goodsReceipts db2 @ [g]"
    by (auto simp: level_def)
  have lev: "level db' x v = level db2 x v" for x v by (simp add: level_def f(2))
  have lev1: "level db1 x v = level db x v" for x v by (simp add: level_def fr1)
  have "logs db db' ms" using f inc fr1 lev lev1 by (simp add: logs_def)
  moreover have "\<forall>m \<in> set ms. mv_after m = level db' (mv_warehouse m) (mv_variant m)" using f(4) lev by simp
  moreover have "list_all2 (\<lambda>i r. receiptRow cat company (gc_order dto) i db = Inr r)
      (sort_key gd_orderItem (gc_items dto)) rows" using rows by (simp add: same)
  ultimately show ?thesis using o g f fr1 fr2 inc(3)
    by (intro exI [of _ o'] exI [of _ rows] exI [of _ ms] exI [of _ new] exI [of _ wh]) simp
qed

text \<open>The receipts are one more writer of the stock.\<close>

type_synonym receipt_request = "org_db \<times> catalog_db \<times> id \<times> id \<times> receipt_dto \<times> jdate"

definition serveReceipt :: "receipt_request \<Rightarrow> purchase_db \<Rightarrow> (goods_receipt \<times> purchase_db) result" where
  "serveReceipt p db = (case p of (org, cat, company, user, dto, now) \<Rightarrow> createReceipt org cat company user dto now db)"

interpretation receipts: stock_operation serveReceipt
proof (unfold_locales, goal_cases)
  case (1 p db r db')
  obtain org cat company user dto now where p: "p = (org, cat, company, user, dto, now)" by (metis prod.exhaust)
  from 1 have "createReceipt org cat company user dto now db = Inr (r, db')" by (simp add: serveReceipt_def p)
  from createReceipt_laws [OF this] show ?case by blast
qed

end
