(* ===== verification/Purchase_Properties.thy ===== *)
theory Purchase_Properties
  imports Goods_Receipts
begin

text \<open>
  The lemmas about purchase orders and goods receipts: the run of a creation and its exact amounts, the
  invariant of orders, items and receipts, and its preservation by every operation. The properties are
  in \<open>Purchase_Theorems\<close>.
\<close>

section \<open>The run of a creation\<close>

definition costedAs :: "catalog_db \<Rightarrow> id \<Rightarrow> order_item_dto \<Rightarrow> order_row \<Rightarrow> bool" where
  "costedAs cat company i r \<longleftrightarrow> assertCostNonNegative (orderLine i) = Inr () \<and> assertDiscountFits (orderLine i) = Inr ()
     \<and> (\<exists>v sel b. resolveSelectionForUsage cat v company UsagePurchase (od_uom i) = Inr sel
        \<and> computeBaseQuantity (od_quantity i) (selectedFactor sel) = Inr b \<and> r = orderRow v sel b i)"

lemma costItems_loop:
  assumes "forEach (costItem cat company) items (t0, rows0) = Inr (t, rows)"
  shows "\<exists>new. rows = rows0 @ new \<and> list_all2 (costedAs cat company) items new
    \<and> t = fold addLine (map orderLine items) t0"
  using assms
proof (induction items arbitrary: t0 rows0)
  case (Cons i items)
  from Cons.prems obtain s1 where s1: "costItem cat company i (t0, rows0) = Inr s1"
    and rest: "forEach (costItem cat company) items s1 = Inr (t, rows)" by auto
  from s1 obtain r where r: "costedAs cat company i r" and e: "s1 = (addLine (orderLine i) t0, rows0 @ [r])"
    by (auto simp: costItem_def costedAs_def)
  from Cons.IH [OF rest [unfolded e]] obtain new where
    "rows = (rows0 @ [r]) @ new" "list_all2 (costedAs cat company) items new"
    "t = fold addLine (map orderLine items) (addLine (orderLine i) t0)" by blast
  with r show ?case by (intro exI [of _ "r # new"]) simp
qed simp

lemma insertOrderItems:
  "orderItems (fold (insertOrderItem i) rows db) = orderItems db
     @ map (\<lambda>(k, r). order_row.extend r \<lparr>pw_id = rowIds db + k, pw_order = i\<rparr>) (enumerate 0 rows)"
  "purchaseOrders (fold (insertOrderItem i) rows db) = purchaseOrders db"
  "receiptItems (fold (insertOrderItem i) rows db) = receiptItems db"
  "goodsReceipts (fold (insertOrderItem i) rows db) = goodsReceipts db"
  "rowIds (fold (insertOrderItem i) rows db) = rowIds db + length rows"
proof -
  have "orderItems (fold (insertOrderItem i) rows db) = orderItems db
      @ map (\<lambda>(k, r). order_row.extend r \<lparr>pw_id = rowIds db + k - n, pw_order = i\<rparr>) (enumerate n rows)" for n
  proof (induction rows arbitrary: db n)
    case (Cons r rows)
    from Cons [of "insertOrderItem i r db" "Suc n"] show ?case
      by (simp add: insertOrderItem_def)
  qed simp
  from this [of 0] show "orderItems (fold (insertOrderItem i) rows db) = orderItems db
     @ map (\<lambda>(k, r). order_row.extend r \<lparr>pw_id = rowIds db + k, pw_order = i\<rparr>) (enumerate 0 rows)" by simp
  show "purchaseOrders (fold (insertOrderItem i) rows db) = purchaseOrders db"
    "receiptItems (fold (insertOrderItem i) rows db) = receiptItems db"
    "goodsReceipts (fold (insertOrderItem i) rows db) = goodsReceipts db"
    "rowIds (fold (insertOrderItem i) rows db) = rowIds db + length rows"
    by (induction rows arbitrary: db) (simp_all add: insertOrderItem_def)
qed

lemma newOrder_simps [simp]:
  "po_id (newOrder company user dto d i n t) = i" "po_company (newOrder company user dto d i n t) = company"
  "po_number (newOrder company user dto d i n t) = n" "po_status (newOrder company user dto d i n t) = PoDraft"
  by (simp_all add: newOrder_def)

lemma createOrder_laws:
  assumes "createOrder org cat company user dto now db = Inr (o', db')"
  shows "\<exists>rows number d. list_all2 (costedAs cat company) (oc_items dto) rows
    \<and> o' = newOrder company user dto d (rowIds db) number (documentTotals (map orderLine (oc_items dto)))
    \<and> purchaseOrders db' = purchaseOrders db @ [o']
    \<and> (\<forall>k \<in> set (purchaseOrders db). \<not> (po_company k = po_company o' \<and> po_number k = po_number o'))
    \<and> orderItems db' = orderItems db @ map (\<lambda>(k, r). order_row.extend r
        \<lparr>pw_id = Suc (rowIds db) + k, pw_order = rowIds db\<rparr>) (enumerate 0 rows)
    \<and> receiptItems db' = receiptItems db \<and> goodsReceipts db' = goodsReceipts db
    \<and> rowIds db' = Suc (rowIds db) + length rows"
proof -
  let ?d = "case oc_date dto of None \<Rightarrow> now | Some d \<Rightarrow> d"
  obtain n db1 where g: "generatePurchaseOrderNumber company (getUTCFullYear ?d) db = (n, db1)" by force
  have fr: "purchaseOrders db1 = purchaseOrders db" "orderItems db1 = orderItems db" "rowIds db1 = rowIds db"
    "receiptItems db1 = receiptItems db" "goodsReceipts db1 = goodsReceipts db"
    using g by (auto simp: generatePurchaseOrderNumber_def next_sequence_eq)
  from assms g obtain t rows db2 where
      loop: "forEach (costItem cat company) (oc_items dto) (zeroTotals, []) = Inr (t, rows)"
    and o: "o' = newOrder company user dto ?d (rowIds db1) n t" and ins: "insertOrder o' db1 = Inr db2"
    and db': "db' = fold (insertOrderItem (po_id o')) rows db2"
    by (auto simp: createOrder_def createOrderTx_def Let_def)
  from costItems_loop [OF loop] have rows: "list_all2 (costedAs cat company) (oc_items dto) rows"
    and t: "t = documentTotals (map orderLine (oc_items dto))" by (auto simp: documentTotals_def)
  have d2: "db2 = db1\<lparr>purchaseOrders := purchaseOrders db1 @ [o'], rowIds := rowIds db1 + 1\<rparr>"
    and u: "\<forall>k \<in> set (purchaseOrders db1). \<not> (po_company k = po_company o' \<and> po_number k = po_number o')"
    using ins by (auto simp: insertOrder_def split: if_splits)
  show ?thesis
    using rows o t u
    by (intro exI [of _ rows] exI [of _ n] exI [of _ ?d]) (simp add: db' insertOrderItems d2 fr)
qed

section \<open>Exact totals\<close>

lemma costed_line:
  assumes c: "costedAs cat company i r" and q: "1 \<le> od_quantity i"
    and B: "gross (orderLine i) \<le> B" "ml_discount (orderLine i) \<le> B" "ml_tax (orderLine i) \<le> B"
      "ml_price (orderLine i) \<le> B" "fits B 6" "gross (orderLine i) + ml_tax (orderLine i) \<le> B"
  shows "line_ok (orderLine i)" "money_line.truncate r = orderLine i"
    "pw_lineTotal r = gross r - ml_discount r + ml_tax r"
proof -
  let ?l = "orderLine i"
  from c have nn: "0 \<le> ml_price ?l" "0 \<le> ml_discount ?l" "0 \<le> ml_tax ?l" and d: "assertDiscountFits ?l = Inr ()"
    by (auto simp: costedAs_def assertCostNonNegative_def js_num_neg split: if_splits)
  have quantity: "0 \<le> ml_quantity ?l" using q by (simp add: orderLine_def)
  have f: "fits B 3" "fits B 1" using fits_mono [OF B(5)] by simp_all
  show ok: "line_ok ?l"
    using assertDiscountFits_sound [OF nn(1) quantity nn(2) B(1,2) f(1) d] nn quantity by (simp add: line_ok_def)
  have "to_fixed2 (js_num x) = x" if "0 \<le> x" "x \<le> B" for x
    using that f(2) by (intro to_fixed2_near [OF near_num]) auto
  with c nn B show t: "money_line.truncate r = ?l"
    by (auto simp: costedAs_def orderRow_def Let_def money_line.truncate_def)
  have "gross r = gross ?l" "ml_discount r = ml_discount ?l" "ml_tax r = ml_tax ?l"
    using arg_cong [OF t, of gross] arg_cong [OF t, of ml_discount] arg_cong [OF t, of ml_tax] by simp_all
  moreover have "pw_lineTotal r = to_fixed2 (lineTotal ?l)" using c by (auto simp: costedAs_def orderRow_def Let_def)
  ultimately show "pw_lineTotal r = gross r - ml_discount r + ml_tax r"
    using lineTotal_exact [OF ok B(6,5)] by simp
qed

text \<open>A request with amounts the money arithmetic represents exactly: \<open>fits B\<close>.\<close>

definition order_within :: "int \<Rightarrow> order_dto \<Rightarrow> bool" where
  "order_within B dto \<longleftrightarrow>
     (\<forall>i \<in> set (oc_items dto). 1 \<le> od_quantity i \<and> 0 \<le> od_unitCost i \<and> 0 \<le> ml_tax (orderLine i)
        \<and> ml_discount (orderLine i) \<le> B)
     \<and> sumGross (map orderLine (oc_items dto)) + sumTax (map orderLine (oc_items dto)) \<le> B
     \<and> fits B (10 * length (oc_items dto) + 20)"

lemma order_within_item:
  assumes "order_within B dto" "i \<in> set (oc_items dto)"
  shows "gross (orderLine i) + ml_tax (orderLine i) \<le> B" "0 \<le> gross (orderLine i)" "0 \<le> ml_tax (orderLine i)"
    "ml_price (orderLine i) \<le> gross (orderLine i)"
proof -
  have l: "0 \<le> gross (orderLine x)" "ml_price (orderLine x) \<le> gross (orderLine x)" "0 \<le> ml_tax (orderLine x)"
    if "x \<in> set (oc_items dto)" for x
    using assms(1) that mult_left_mono [of 1 "od_quantity x" "od_unitCost x"]
    by (auto simp: order_within_def gross_def orderLine_def)
  have "gross (orderLine i) \<le> sumGross (map orderLine (oc_items dto))"
    "ml_tax (orderLine i) \<le> sumTax (map orderLine (oc_items dto))"
    using member_le_sum_map [OF assms(2), of "\<lambda>x. gross (orderLine x)"]
      member_le_sum_map [OF assms(2), of "\<lambda>x. ml_tax (orderLine x)"] l
    by (simp_all add: sumGross_def sumTax_def o_def)
  then show "gross (orderLine i) + ml_tax (orderLine i) \<le> B" using assms(1) by (simp add: order_within_def)
  show "0 \<le> gross (orderLine i)" "0 \<le> ml_tax (orderLine i)"
    "ml_price (orderLine i) \<le> gross (orderLine i)" using l assms(2) by auto
qed

lemma truncate_extended:
  "money_line.truncate (order_row.extend r m) = money_line.truncate r"
  "pw_lineTotal (order_row.extend r m) = pw_lineTotal r" "gross (order_row.extend r m) = gross r"
  "ml_discount (order_row.extend r m) = ml_discount r" "ml_tax (order_row.extend r m) = ml_tax r"
  by (simp_all add: order_row.extend_def money_line.truncate_def gross_def)

section \<open>Histories\<close>

definition order_moves :: "order_status \<Rightarrow> order_status \<Rightarrow> bool" where
  "order_moves a b \<longleftrightarrow> b \<in> set (ORDER_TRANSITIONS a)"

text \<open>What later steps may change of an order.\<close>

definition order_follows :: "purchase_order \<Rightarrow> purchase_order \<Rightarrow> bool" where
  "order_follows s t \<longleftrightarrow> po_id t = po_id s \<and> order_moves\<^sup>*\<^sup>* (po_status s) (po_status t)
     \<and> po_number t = po_number s \<and> po_company t = po_company s \<and> po_supplier t = po_supplier s
     \<and> po_warehouse t = po_warehouse s \<and> po_grandTotal t = po_grandTotal s \<and> po_subtotal t = po_subtotal s
     \<and> po_discount t = po_discount s \<and> po_tax t = po_tax s \<and> po_branch t = po_branch s
     \<and> po_paymentTerm t = po_paymentTerm s \<and> po_quotation t = po_quotation s \<and> po_date t = po_date s
     \<and> po_currency t = po_currency s \<and> po_createdBy t = po_createdBy s"

text \<open>Receipts as their DTO validates them, naming each order item once.\<close>

definition receipt_request_ok :: "receipt_dto \<Rightarrow> bool" where
  "receipt_request_ok dto \<longleftrightarrow> distinct (map gd_orderItem (gc_items dto))
     \<and> (\<forall>i \<in> set (gc_items dto). 0 \<le> gd_received i \<and> 0 \<le> rejectedQuantity i)"

inductive purchase_step :: "'a purchase_db_scheme \<Rightarrow> 'a purchase_db_scheme \<Rightarrow> bool" where
  create: "createOrder org cat company user dto now db = Inr (r, db') \<Longrightarrow>
    \<forall>i \<in> set (oc_items dto). 1 \<le> od_quantity i \<Longrightarrow> purchase_step db db'"
| submit: "submitOrder i company user now db = Inr (r, db') \<Longrightarrow> purchase_step db db'"
| approve: "approveOrder i company user now db = Inr (r, db') \<Longrightarrow> purchase_step db db'"
| confirm: "confirmOrder i company user now db = Inr (r, db') \<Longrightarrow> purchase_step db db'"
| reject: "rejectOrder i company user reason now db = Inr (r, db') \<Longrightarrow> purchase_step db db'"
| close: "closeOrder i company user why now db = Inr (r, db') \<Longrightarrow> purchase_step db db'"
| cancel: "cancelOrder i company user db = Inr (r, db') \<Longrightarrow> purchase_step db db'"
| pay: "applyOrderPayment i company allocated user db = Inr db' \<Longrightarrow> purchase_step db db'"
| receive: "createReceipt org cat company user gdto now db = Inr (g, db') \<Longrightarrow> receipt_request_ok gdto \<Longrightarrow>
    purchase_step db db'"

text \<open>The time stamps and users an order carries in each state.\<close>

definition order_stamped :: "purchase_order \<Rightarrow> bool" where
  "order_stamped s \<longleftrightarrow>
     (po_status s = PoDraft \<longrightarrow> po_submittedAt s = None \<and> po_approvedAt s = None)
     \<and> (po_status s \<in> {PoSubmitted, PoRejected, PoApproved, PoConfirmed, PoClosed} \<longrightarrow>
          po_submittedAt s \<noteq> None \<and> po_submittedBy s \<noteq> None)
     \<and> (po_status s \<in> {PoApproved, PoConfirmed, PoClosed} \<longrightarrow> po_approvedAt s \<noteq> None \<and> po_approvedBy s \<noteq> None)
     \<and> (po_approvedAt s \<noteq> None \<longrightarrow> po_status s \<in> {PoApproved, PoConfirmed, PoClosed})
     \<and> (po_rejectedAt s \<noteq> None \<longleftrightarrow> po_status s = PoRejected) \<and> (po_rejectedReason s \<noteq> None \<longleftrightarrow> po_status s = PoRejected)
     \<and> (po_closedAt s \<noteq> None \<longleftrightarrow> po_status s = PoClosed) \<and> (po_closedBy s \<noteq> None \<longleftrightarrow> po_status s = PoClosed)"

definition purchase_ok :: "'a purchase_db_scheme \<Rightarrow> bool" where
  "purchase_ok db \<longleftrightarrow>
     (\<forall>s \<in> set (purchaseOrders db). order_stamped s)
     \<and> distinct (map po_id (purchaseOrders db)) \<and> (\<forall>s \<in> set (purchaseOrders db). po_id s < rowIds db)
     \<and> distinct (map (\<lambda>s. (po_company s, po_number s)) (purchaseOrders db))
     \<and> distinct (map pw_id (orderItems db))
     \<and> (\<forall>x \<in> set (orderItems db). pw_id x < rowIds db \<and> pw_order x < rowIds db \<and> 0 \<le> ml_quantity x)
     \<and> (\<forall>y \<in> set (receiptItems db). 0 \<le> gi_received y \<and> 0 \<le> gi_rejected y \<and> gi_orderItem y < rowIds db)
     \<and> (\<forall>x \<in> set (orderItems db). priorHandled (pw_id x) db \<le> ml_quantity x)"

text \<open>An update of the order that was read, everything else as before.\<close>

lemma findOrder_mem: "findOrder i company db = Inr s \<Longrightarrow> s \<in> set (purchaseOrders db) \<and> po_id s = i \<and> po_company s = company"
  by (auto simp: findOrder_def dest: find_SomeD)

lemma saved_order:
  assumes ok: "purchase_ok db" and s: "findOrder i company db = Inr s" and t: "order_follows s t" "order_stamped t"
  shows "purchase_ok (saveOrder t db)
    \<and> list_all2 order_follows (purchaseOrders db) (purchaseOrders (saveOrder t db))"
proof -
  let ?u = "\<lambda>x. if po_id x = po_id t then t else x"
  have same: "x = s" if "x \<in> set (purchaseOrders db)" "po_id x = po_id t" for x
    using that findOrder_mem [OF s] ok t by (auto simp: purchase_ok_def order_follows_def distinct_map inj_on_def)
  have keep: "map f (purchaseOrders (saveOrder t db)) = map f (purchaseOrders db)" if "f t = f s" for f :: "purchase_order \<Rightarrow> 'x"
    using same that by (auto simp: saveOrder_def)
  have "map po_id (purchaseOrders (saveOrder t db)) = map po_id (purchaseOrders db)"
    "map (\<lambda>s. (po_company s, po_number s)) (purchaseOrders (saveOrder t db))
      = map (\<lambda>s. (po_company s, po_number s)) (purchaseOrders db)"
    using t by (intro keep; simp add: order_follows_def)+
  moreover have "\<forall>x \<in> set (purchaseOrders (saveOrder t db)). po_id x < rowIds db \<and> order_stamped x"
    using ok t findOrder_mem [OF s] by (auto simp: saveOrder_def purchase_ok_def order_follows_def)
  moreover have "orderItems (saveOrder t db) = orderItems db" "receiptItems (saveOrder t db) = receiptItems db"
    "rowIds (saveOrder t db) = rowIds db" "priorHandled i (saveOrder t db) = priorHandled i db" for i
    by (simp_all add: saveOrder_def priorHandled_def)
  ultimately have "purchase_ok (saveOrder t db)" using ok by (simp add: purchase_ok_def)
  moreover have "list_all2 order_follows (purchaseOrders db) (map ?u (purchaseOrders db))"
    by (rule list_all2_all_nthI) (use same t in \<open>auto simp: order_follows_def dest!: nth_mem\<close>)
  ultimately show ?thesis by (simp add: saveOrder_def)
qed

lemma order_moves_step: "assertOrderTransition a b = Inr u \<Longrightarrow> order_moves\<^sup>*\<^sup>* a b"
  by (rule r_into_rtranclp) (simp add: assertOrderTransition_def order_moves_def split: if_splits)

lemma order_follows_refl [simp]: "order_follows s s"
  by (simp add: order_follows_def)

lemma order_follows_trans: "order_follows s t \<Longrightarrow> order_follows t u \<Longrightarrow> order_follows s u"
  by (auto simp: order_follows_def)

definition orders_grow :: "'a purchase_db_scheme \<Rightarrow> 'a purchase_db_scheme \<Rightarrow> bool" where
  "orders_grow db db' \<longleftrightarrow> (\<exists>xs ys. purchaseOrders db' = xs @ ys \<and> list_all2 order_follows (purchaseOrders db) xs)"

lemma orders_grow_same: "list_all2 order_follows (purchaseOrders db) (purchaseOrders db') \<Longrightarrow> orders_grow db db'"
  unfolding orders_grow_def by (intro exI [of _ "purchaseOrders db'"] exI [of _ "[]"]) simp

text \<open>All status changes follow one pattern.\<close>

lemma status_change:
  assumes ok: "purchase_ok db" and s: "findOrder i company db = Inr s"
    and m: "assertOrderTransition (po_status s) (po_status t) = Inr u"
    and st: "order_stamped t" and t: "po_id t = po_id s" "po_number t = po_number s" "po_company t = po_company s" "po_supplier t = po_supplier s"
      "po_warehouse t = po_warehouse s" "po_grandTotal t = po_grandTotal s" "po_subtotal t = po_subtotal s"
      "po_discount t = po_discount s" "po_tax t = po_tax s" "po_branch t = po_branch s" "po_paymentTerm t = po_paymentTerm s"
      "po_quotation t = po_quotation s" "po_date t = po_date s" "po_currency t = po_currency s" "po_createdBy t = po_createdBy s"
  shows "purchase_ok (saveOrder t db) \<and> orders_grow db (saveOrder t db)"
proof -
  have "order_follows s t" using order_moves_step [OF m] t by (simp add: order_follows_def)
  from saved_order [OF ok s this st] orders_grow_same show ?thesis by blast
qed

lemma createOrder_ok:
  assumes ok: "purchase_ok db" and c: "createOrder org cat company user dto now db = Inr (r, db')"
    and q: "\<forall>i \<in> set (oc_items dto). 1 \<le> od_quantity i"
  shows "purchase_ok db' \<and> orders_grow db db'"
proof
  from createOrder_laws [OF c] obtain rows n d where rows: "list_all2 (costedAs cat company) (oc_items dto) rows"
    and r: "r = newOrder company user dto d (rowIds db) n (documentTotals (map orderLine (oc_items dto)))"
    and db': "purchaseOrders db' = purchaseOrders db @ [r]"
      "orderItems db' = orderItems db @ map (\<lambda>(k, r). order_row.extend r
        \<lparr>pw_id = Suc (rowIds db) + k, pw_order = rowIds db\<rparr>) (enumerate 0 rows)"
      "receiptItems db' = receiptItems db" "rowIds db' = Suc (rowIds db) + length rows"
    and u: "\<forall>k \<in> set (purchaseOrders db). \<not> (po_company k = po_company r \<and> po_number k = po_number r)" by blast
  let ?new = "map (\<lambda>(k, r). order_row.extend r \<lparr>pw_id = Suc (rowIds db) + k, pw_order = rowIds db\<rparr>) (enumerate 0 rows)"
  have ids: "map pw_id ?new = map (\<lambda>k. Suc (rowIds db) + k) [0..<length rows]"
    by (rule nth_equalityI) (simp_all add: order_row.extend_def nth_enumerate_eq split_def)
  have new: "Suc (rowIds db) \<le> pw_id x \<and> pw_id x < rowIds db' \<and> pw_order x < rowIds db' \<and> 0 \<le> ml_quantity x"
    if x: "x \<in> set ?new" for x
  proof -
    from x obtain k y where x: "x = order_row.extend y \<lparr>pw_id = Suc (rowIds db) + k, pw_order = rowIds db\<rparr>"
      and "(k, y) \<in> set (enumerate 0 rows)" by auto
    then have k: "k < length rows" "y = rows ! k" by (auto simp: in_set_enumerate_eq)
    then have "costedAs cat company (oc_items dto ! k) y" "1 \<le> od_quantity (oc_items dto ! k)"
      using rows q by (auto simp: list_all2_conv_all_nth)
    then have "0 \<le> ml_quantity y" by (auto simp: costedAs_def orderRow_def orderLine_def Let_def)
    with k show ?thesis by (simp add: x order_row.extend_def db')
  qed
  have prior: "priorHandled i db' = priorHandled i db" for i by (simp add: priorHandled_def db')
  have none: "priorHandled (pw_id x) db = 0" if "x \<in> set ?new" for x
  proof -
    have "filter (\<lambda>y. gi_orderItem y = pw_id x) (receiptItems db) = []"
      using ok new [OF that] by (intro filter_False) (auto simp: purchase_ok_def)
    then show ?thesis by (simp add: priorHandled_def)
  qed
  have "distinct (map pw_id (orderItems db'))"
    unfolding db' map_append ids using ok by (auto simp: distinct_map purchase_ok_def)
  moreover have "\<forall>x \<in> set (orderItems db'). pw_id x < rowIds db' \<and> pw_order x < rowIds db' \<and> 0 \<le> ml_quantity x
      \<and> priorHandled (pw_id x) db' \<le> ml_quantity x"
  proof
    fix x assume "x \<in> set (orderItems db')"
    then have "x \<in> set (orderItems db) \<or> x \<in> set ?new" unfolding db'(2) by (simp only: set_append Un_iff)
    then show "pw_id x < rowIds db' \<and> pw_order x < rowIds db' \<and> 0 \<le> ml_quantity x
      \<and> priorHandled (pw_id x) db' \<le> ml_quantity x"
      using ok new none by (elim disjE) (fastforce simp: prior purchase_ok_def db'(4))+
  qed
  moreover have "distinct (map po_id (purchaseOrders db'))
     \<and> (\<forall>s \<in> set (purchaseOrders db'). order_stamped s \<and> po_id s < rowIds db')
     \<and> distinct (map (\<lambda>s. (po_company s, po_number s)) (purchaseOrders db'))"
    using ok u by (auto simp: purchase_ok_def db' r less_SucI) (simp add: order_stamped_def newOrder_def)
  moreover have "\<forall>y \<in> set (receiptItems db'). 0 \<le> gi_received y \<and> 0 \<le> gi_rejected y \<and> gi_orderItem y < rowIds db'"
    using ok by (auto simp: purchase_ok_def db')
  ultimately show "purchase_ok db'" unfolding purchase_ok_def by blast
  show "orders_grow db db'"
    unfolding orders_grow_def db' by (intro exI [of _ "purchaseOrders db"] exI [of _ "[r]"]) (simp add: list_all2_refl)
qed

lemma receiptRow_cases:
  assumes "receiptRow cat company i item db = Inr r"
  shows "\<exists>x \<in> set (orderItems db). pw_id x = gi_orderItem r \<and> gi_orderItem r = gd_orderItem item
    \<and> gi_variant r = pw_variant x \<and> gi_received r = gd_received item \<and> gi_rejected r = rejectedQuantity item
    \<and> 0 < gi_received r + gi_rejected r
    \<and> priorHandled (pw_id x) db + (gi_received r + gi_rejected r) \<le> ml_quantity x
    \<and> computeReceiptBaseQuantity (gi_received r) (pw_factor x) = Inr (gi_baseReceived r)"
  using assms by (auto simp: receiptRow_def Let_def split: if_splits dest!: find_SomeD)

lemma priorHandled_append:
  assumes "receiptItems db' = receiptItems db @ new"
  shows "priorHandled i db' = priorHandled i db
    + sum_list (map (\<lambda>x. gi_received x + gi_rejected x) (filter (\<lambda>x. gi_orderItem x = i) (map receipt_row.truncate new)))"
  by (simp add: priorHandled_def assms filter_map o_def receipt_row.truncate_def)

lemma createReceipt_ok:
  assumes ok: "purchase_ok db" and c: "createReceipt org cat company user dto now db = Inr (g, db')"
    and dto: "receipt_request_ok dto"
  shows "purchase_ok db' \<and> orders_grow db db'"
proof
  from createReceipt_laws [OF c] obtain rows new where
      rows: "list_all2 (\<lambda>i r. receiptRow cat company (gc_order dto) i db = Inr r) (sort_key gd_orderItem (gc_items dto)) rows"
    and new: "receiptItems db' = receiptItems db @ new" "map receipt_row.truncate new = rows"
    and fr: "rowIds db < rowIds db'" "purchaseOrders db' = purchaseOrders db" "orderItems db' = orderItems db" by blast
  have keys: "map gi_orderItem rows = map gd_orderItem (sort_key gd_orderItem (gc_items dto))"
    using rows receiptRow_cases by (fastforce simp: list_all2_conv_all_nth intro!: nth_equalityI)
  have d: "distinct (map gi_orderItem rows)" using dto by (simp add: keys receipt_request_ok_def distinct_map)
  have each: "\<exists>x \<in> set (orderItems db). pw_id x = gi_orderItem r \<and> 0 \<le> gi_received r \<and> 0 \<le> gi_rejected r
      \<and> priorHandled (pw_id x) db + (gi_received r + gi_rejected r) \<le> ml_quantity x" if "r \<in> set rows" for r
  proof -
    from that obtain k where k: "k < length rows" "r = rows ! k" by (auto simp: in_set_conv_nth)
    let ?i = "sort_key gd_orderItem (gc_items dto) ! k"
    have r: "receiptRow cat company (gc_order dto) ?i db = Inr r" and "k < length (gc_items dto)"
      using rows k by (auto simp: list_all2_conv_all_nth)
    then have "?i \<in> set (gc_items dto)" by (metis length_sort nth_mem set_sort)
    with receiptRow_cases [OF r] dto show ?thesis by (auto simp: receipt_request_ok_def)
  qed
  have within: "priorHandled (pw_id x) db' \<le> ml_quantity x" if x: "x \<in> set (orderItems db)" for x
  proof (cases "pw_id x \<in> gi_orderItem ` set rows")
    case True
    then obtain r where r: "r \<in> set rows" "gi_orderItem r = pw_id x" by auto
    from each [OF r(1)] obtain y where y: "y \<in> set (orderItems db)" "pw_id y = gi_orderItem r"
      "priorHandled (pw_id y) db + (gi_received r + gi_rejected r) \<le> ml_quantity y" by blast
    have "y = x" using ok x y r(2) by (auto simp: purchase_ok_def distinct_map inj_on_def)
    moreover have "filter (\<lambda>z. gi_orderItem z = pw_id x) rows = [r]"
      using filter_key_distinct [OF d r(1)] r(2) by simp
    ultimately show ?thesis using y(3) by (simp add: priorHandled_append [OF new(1)] new(2))
  next
    case False
    then have "filter (\<lambda>z. gi_orderItem z = pw_id x) rows = []" by (intro filter_False) (metis image_eqI)
    then show ?thesis using ok x by (simp add: priorHandled_append [OF new(1)] new(2) purchase_ok_def)
  qed
  have "0 \<le> gi_received y \<and> 0 \<le> gi_rejected y \<and> gi_orderItem y < rowIds db'" if "y \<in> set (receiptItems db')" for y
  proof (cases "y \<in> set (receiptItems db)")
    case True
    with ok fr(1) show ?thesis by (auto simp: purchase_ok_def)
  next
    case False
    with that new have "receipt_row.truncate y \<in> set rows" by auto
    from each [OF this] ok fr(1) show ?thesis by (auto simp: receipt_row.truncate_def purchase_ok_def)
  qed
  then show "purchase_ok db'" using ok within unfolding purchase_ok_def by (auto simp: fr intro: less_trans [OF _ fr(1)])
  show "orders_grow db db'" by (rule orders_grow_same) (simp add: fr list_all2_refl)
qed

lemma purchase_step_ok:
  assumes "purchase_step db db'" "purchase_ok db"
  shows "purchase_ok db' \<and> orders_grow db db'"
proof -
  have stamped: "order_stamped s" if "findOrder i company db = Inr s" for i company s
    using findOrder_mem [OF that] assms(2) by (simp add: purchase_ok_def)
  note change = status_change [OF assms(2)]
  from assms(1) show ?thesis
  proof cases
    case (create org cat company user dto now r)
    then show ?thesis using createOrder_ok [OF assms(2)] by blast
  next
    case (submit i company user now r)
    then obtain s where s: "findOrder i company db = Inr s" "assertOrderTransition (po_status s) PoSubmitted = Inr ()"
      and r: "db' = saveOrder (s\<lparr>po_status := PoSubmitted, po_submittedAt := Some now, po_submittedBy := Some user,
        po_updatedBy := user\<rparr>) db" by (auto simp: submitOrder_def Let_def)
    show ?thesis unfolding r
      by (rule change [OF s(1)]) (use s stamped [OF s(1)] in
        \<open>auto simp: order_stamped_def assertOrderTransition_def ORDER_TRANSITIONS_def split: order_status.splits\<close>)
  next
    case (approve i company user now r)
    then obtain s where s: "findOrder i company db = Inr s" "assertOrderTransition (po_status s) PoApproved = Inr ()"
      and r: "db' = saveOrder (s\<lparr>po_status := PoApproved, po_submittedAt := orElse (po_submittedAt s) now,
               po_submittedBy := orElse (po_submittedBy s) user, po_approvedAt := Some now,
               po_approvedBy := Some user, po_updatedBy := user\<rparr>) db" by (auto simp: approveOrder_def Let_def)
    show ?thesis unfolding r
      by (rule change [OF s(1)]) (use s stamped [OF s(1)] in
        \<open>auto simp: order_stamped_def assertOrderTransition_def ORDER_TRANSITIONS_def orElse_def
          simp del: split_paired_Ex split_paired_All split: order_status.splits option.splits\<close>)
  next
    case (confirm i company user now r)
    then obtain s where s: "findOrder i company db = Inr s" "assertOrderTransition (po_status s) PoConfirmed = Inr ()"
      and r: "db' = saveOrder (s\<lparr>po_status := PoConfirmed, po_approvedAt := orElse (po_approvedAt s) now,
               po_approvedBy := orElse (po_approvedBy s) user,
               po_submittedAt := orElse (po_submittedAt s) now,
               po_submittedBy := orElse (po_submittedBy s) user, po_updatedBy := user\<rparr>) db"
      by (auto simp: confirmOrder_def Let_def)
    show ?thesis unfolding r
      by (rule change [OF s(1)]) (use s stamped [OF s(1)] in
        \<open>auto simp: order_stamped_def assertOrderTransition_def ORDER_TRANSITIONS_def orElse_def
          simp del: split_paired_Ex split_paired_All split: order_status.splits option.splits\<close>)
  next
    case (reject i company user reason now r)
    then obtain s where s: "findOrder i company db = Inr s" "assertOrderTransition (po_status s) PoRejected = Inr ()"
      and r: "db' = saveOrder (s\<lparr>po_status := PoRejected, po_rejectedAt := Some now, po_rejectedBy := Some user,
               po_rejectedReason := Some reason, po_updatedBy := user\<rparr>) db" by (auto simp: rejectOrder_def Let_def)
    show ?thesis unfolding r
      by (rule change [OF s(1)]) (use s stamped [OF s(1)] in
        \<open>auto simp: order_stamped_def assertOrderTransition_def ORDER_TRANSITIONS_def split: order_status.splits\<close>)
  next
    case (close i company user why now r)
    then obtain s where s: "findOrder i company db = Inr s" "assertOrderTransition (po_status s) PoClosed = Inr ()"
      and r: "db' = saveOrder (s\<lparr>po_status := PoClosed, po_closedAt := Some now, po_closedBy := Some user,
               po_closeReason := why, po_updatedBy := user\<rparr>) db" by (auto simp: closeOrder_def Let_def)
    show ?thesis unfolding r
      by (rule change [OF s(1)]) (use s stamped [OF s(1)] in
        \<open>auto simp: order_stamped_def assertOrderTransition_def ORDER_TRANSITIONS_def split: order_status.splits\<close>)
  next
    case (cancel i company user r)
    then obtain s where s: "findOrder i company db = Inr s" "assertOrderTransition (po_status s) PoCancelled = Inr ()"
      and r: "db' = saveOrder (s\<lparr>po_status := PoCancelled, po_updatedBy := user\<rparr>) db"
      by (auto simp: cancelOrder_def Let_def split: if_splits)
    show ?thesis unfolding r
      by (rule change [OF s(1)]) (use s stamped [OF s(1)] in
        \<open>auto simp: order_stamped_def assertOrderTransition_def ORDER_TRANSITIONS_def split: order_status.splits\<close>)
  next
    case (pay i company allocated user)
    then obtain s p b where s: "findOrder i company db = Inr s"
      and r: "db' = saveOrder (s\<lparr>po_paid := p, po_balance := b, po_updatedBy := user\<rparr>) db"
      by (auto simp: applyOrderPayment_def Let_def split: if_splits)
    let ?t = "s\<lparr>po_paid := p, po_balance := b, po_updatedBy := user\<rparr>"
    have "order_follows s ?t" "order_stamped ?t"
      using stamped [OF s] by (simp_all add: order_follows_def order_stamped_def)
    from saved_order [OF assms(2) s this] orders_grow_same show ?thesis unfolding r by blast
  next
    case (receive org cat company user gdto now g)
    then show ?thesis using createReceipt_ok [OF assms(2)] by blast
  qed
qed

lemma orders_grow_mem:
  "orders_grow db db' \<Longrightarrow> s \<in> set (purchaseOrders db) \<Longrightarrow> \<exists>t \<in> set (purchaseOrders db'). order_follows s t"
  unfolding orders_grow_def by (metis Un_iff in_set_conv_nth list_all2_conv_all_nth set_append)

lemma purchase_steps_ok:
  "purchase_step\<^sup>*\<^sup>* db db' \<Longrightarrow> purchase_ok db \<Longrightarrow>
    purchase_ok db' \<and> (\<forall>s \<in> set (purchaseOrders db). \<exists>t \<in> set (purchaseOrders db'). order_follows s t)"
proof (induction rule: rtranclp_induct)
  case (step d e)
  then show ?case using purchase_step_ok [of d e] orders_grow_mem order_follows_trans by meson
qed (use order_follows_refl in blast)

text \<open>The items of an order stay as they are.\<close>

lemma saveOrder_items: "itemsOfOrder i (saveOrder t db) = itemsOfOrder i db" "rowIds (saveOrder t db) = rowIds db"
  by (simp_all add: saveOrder_def itemsOfOrder_def)

lemma purchase_step_items:
  assumes "purchase_step db db'" "i < rowIds db"
  shows "itemsOfOrder i db' = itemsOfOrder i db \<and> rowIds db \<le> rowIds db'"
  using assms(1)
proof cases
  case (create org cat company user dto now r)
  from createOrder_laws [OF create(1)] obtain rows where
      it: "orderItems db' = orderItems db @ map (\<lambda>(k, r). order_row.extend r
        \<lparr>pw_id = Suc (rowIds db) + k, pw_order = rowIds db\<rparr>) (enumerate 0 rows)"
    and n: "rowIds db' = Suc (rowIds db) + length rows" by blast
  have "filter (\<lambda>x. pw_order x = i) (map (\<lambda>(k, r). order_row.extend r
      \<lparr>pw_id = Suc (rowIds db) + k, pw_order = rowIds db\<rparr>) (enumerate 0 rows)) = []"
    using assms(2) by (intro filter_False) (auto simp: order_row.extend_def)
  then show ?thesis by (simp add: itemsOfOrder_def it n)
next
  case (receive org cat company user gdto now g)
  from createReceipt_laws [OF receive(1)] have "rowIds db < rowIds db'" "orderItems db' = orderItems db" by blast+
  then show ?thesis by (simp add: itemsOfOrder_def)
next
  case (submit j company user now r)
  then show ?thesis by (auto simp: submitOrder_def Let_def saveOrder_items)
next
  case (approve j company user now r)
  then show ?thesis by (auto simp: approveOrder_def Let_def saveOrder_items)
next
  case (confirm j company user now r)
  then show ?thesis by (auto simp: confirmOrder_def Let_def saveOrder_items)
next
  case (reject j company user reason now r)
  then show ?thesis by (auto simp: rejectOrder_def Let_def saveOrder_items)
next
  case (close j company user why now r)
  then show ?thesis by (auto simp: closeOrder_def Let_def saveOrder_items)
next
  case (cancel j company user r)
  then show ?thesis by (auto simp: cancelOrder_def Let_def saveOrder_items split: if_splits)
next
  case (pay j company allocated user)
  then show ?thesis by (auto simp: applyOrderPayment_def Let_def saveOrder_items split: if_splits)
qed

lemma purchase_steps_items:
  "purchase_step\<^sup>*\<^sup>* db db' \<Longrightarrow> i < rowIds db \<Longrightarrow> itemsOfOrder i db' = itemsOfOrder i db \<and> rowIds db \<le> rowIds db'"
proof (induction rule: rtranclp_induct)
  case (step d e)
  then show ?case using purchase_step_items [of d e i] by simp
qed simp

end
