(* ===== verification/Procurement_Properties.thy ===== *)
theory Procurement_Properties
  imports Procurement
begin

text \<open>
  The invariant of the procurement documents: a request for quotation has at most one quotation per
  supplier and at most one awarded quotation, it is closed by the award, and its other quotations are
  rejected. The status change decides on a quotation read before its transaction; the last lemma shows
  the interleaving this allows.
\<close>

definition procurement_ok :: "procurement_db \<Rightarrow> bool" where
  "procurement_ok db \<longleftrightarrow>
     distinct (map rf_id (rfqs db)) \<and> distinct (map qt_id (quotations db))
     \<and> (\<forall>r \<in> set (rfqs db). rf_id r < rowIds db) \<and> (\<forall>q \<in> set (quotations db). qt_id q < rowIds db)
     \<and> distinct (map (\<lambda>q. (qt_company q, qt_rfq q, qt_supplier q)) (quotations db))
     \<and> (\<forall>q \<in> set (quotations db). \<exists>r \<in> set (rfqs db). rf_id r = qt_rfq q \<and> rf_company r = qt_company q
          \<and> (qt_status q = QtAwarded \<longrightarrow> rf_status r = RfqClosed))
     \<and> (\<forall>q \<in> set (quotations db). \<forall>q' \<in> set (quotations db).
          qt_rfq q' = qt_rfq q \<longrightarrow> qt_status q = QtAwarded \<longrightarrow> q' = q \<or> qt_status q' = QtRejected)"

inductive procurement_step :: "procurement_db \<Rightarrow> procurement_db \<Rightarrow> bool" where
  request: "createRequest org cat company user rdto db = Inr (r, db') \<Longrightarrow> procurement_step db db'"
| request_status: "updateRequestStatus i company user rs db = Inr (r, db') \<Longrightarrow> procurement_step db db'"
| rfq: "createRfq org cat company user fdto db = Inr (f, db') \<Longrightarrow> procurement_step db db'"
| rfq_status: "updateRfqStatus i company user fs db = Inr (f, db') \<Longrightarrow> procurement_step db db'"
| quotation: "createQuotation org company user qdto now db = Inr (q, db') \<Longrightarrow> procurement_step db db'"
| quotation_status: "updateQuotationStatus i company user qs db = Inr (q, db') \<Longrightarrow> procurement_step db db'"

section \<open>Preservation\<close>

lemma procurement_ok_same:
  assumes "procurement_ok db" "rfqs db' = rfqs db" "quotations db' = quotations db" "rowIds db \<le> rowIds db'"
  shows "procurement_ok db'"
  using assms unfolding procurement_ok_def by force

lemma request_items_frame:
  assumes "forEach (insertRequestItem cat c r) xs db = Inr db'"
  shows "rfqs db' = rfqs db \<and> quotations db' = quotations db \<and> rowIds db \<le> rowIds db'"
  by (rule forEach_invariant [OF assms]) (auto simp: insertRequestItem_def)

lemma rfq_items_frame:
  assumes "forEach (insertRfqItem cat c r) xs db = Inr db'"
  shows "rfqs db' = rfqs db \<and> quotations db' = quotations db \<and> rowIds db \<le> rowIds db'"
  by (rule forEach_invariant [OF assms]) (auto simp: insertRfqItem_def)

lemma quotation_items_frame:
  "rfqs (fold (insertQuotationItem q) rows db) = rfqs db
    \<and> quotations (fold (insertQuotationItem q) rows db) = quotations db
    \<and> rowIds db \<le> rowIds (fold (insertQuotationItem q) rows db)"
proof (induction rows arbitrary: db)
  case (Cons r rows)
  from Cons [of "insertQuotationItem q r db"] show ?case by (simp add: insertQuotationItem_def)
qed simp

text \<open>Status changes of the rows in place.\<close>

lemma procurement_ok_statuses:
  assumes ok: "procurement_ok db"
    and db': "quotations db' = map f (quotations db)" "rfqs db' = map g (rfqs db)" "rowIds db' = rowIds db"
    and f: "\<And>q. qt_id (f q) = qt_id q \<and> qt_company (f q) = qt_company q \<and> qt_rfq (f q) = qt_rfq q
      \<and> qt_supplier (f q) = qt_supplier q"
    and g: "\<And>r. rf_id (g r) = rf_id r \<and> rf_company (g r) = rf_company r"
    and closed: "\<And>q r. q \<in> set (quotations db) \<Longrightarrow> r \<in> set (rfqs db) \<Longrightarrow> rf_id r = qt_rfq q \<Longrightarrow>
      (qt_status q = QtAwarded \<longrightarrow> rf_status r = RfqClosed) \<Longrightarrow>
      qt_status (f q) = QtAwarded \<Longrightarrow> rf_status (g r) = RfqClosed"
    and one: "\<And>q q'. q \<in> set (quotations db) \<Longrightarrow> q' \<in> set (quotations db) \<Longrightarrow> qt_rfq q' = qt_rfq q \<Longrightarrow>
      qt_status (f q) = QtAwarded \<Longrightarrow> f q' = f q \<or> qt_status (f q') = QtRejected"
  shows "procurement_ok db'"
  unfolding procurement_ok_def
proof (intro conjI ballI impI)
  have keys: "map h (quotations db') = map h (quotations db)" if "\<And>q. h (f q) = h q" for h :: "quotation \<Rightarrow> 'k"
    using that by (simp add: db')
  show "distinct (map rf_id (rfqs db'))" using ok by (simp add: db' g o_def procurement_ok_def)
  show "distinct (map qt_id (quotations db'))"
    using ok keys [of qt_id] f unfolding procurement_ok_def by metis
  show "distinct (map (\<lambda>q. (qt_company q, qt_rfq q, qt_supplier q)) (quotations db'))"
    using ok keys [of "\<lambda>q. (qt_company q, qt_rfq q, qt_supplier q)"] f unfolding procurement_ok_def by simp
  show "rf_id r < rowIds db'" if "r \<in> set (rfqs db')" for r
    using that ok g by (auto simp: db' procurement_ok_def)
  show "qt_id q < rowIds db'" if "q \<in> set (quotations db')" for q
    using that ok f by (auto simp: db' procurement_ok_def)
next
  fix q assume "q \<in> set (quotations db')"
  then obtain p where p: "p \<in> set (quotations db)" "q = f p" by (auto simp: db')
  then obtain r where r: "r \<in> set (rfqs db)" "rf_id r = qt_rfq p" "rf_company r = qt_company p"
    "qt_status p = QtAwarded \<longrightarrow> rf_status r = RfqClosed"
    using ok unfolding procurement_ok_def by blast
  have "qt_status q = QtAwarded \<longrightarrow> rf_status (g r) = RfqClosed" using closed [OF p(1) r(1,2,4)] p(2) by simp
  moreover have "g r \<in> set (rfqs db')" using r(1) by (simp add: db')
  ultimately show "\<exists>r \<in> set (rfqs db'). rf_id r = qt_rfq q \<and> rf_company r = qt_company q
      \<and> (qt_status q = QtAwarded \<longrightarrow> rf_status r = RfqClosed)"
    using p(2) r(2,3) f g by (intro bexI [of _ "g r"]) simp_all
next
  fix q q' assume a: "q \<in> set (quotations db')" "q' \<in> set (quotations db')" "qt_rfq q' = qt_rfq q"
    "qt_status q = QtAwarded"
  then obtain p p' where "p \<in> set (quotations db)" "q = f p" "p' \<in> set (quotations db)" "q' = f p'"
    by (auto simp: db')
  with a one [of p p'] f show "q' = q \<or> qt_status q' = QtRejected" by simp
qed

lemma findQuotation_mem: "findQuotation i company db = Inr q \<Longrightarrow> q \<in> set (quotations db) \<and> qt_company q = company"
  by (auto simp: findQuotation_def dest: find_SomeD)

lemma findRfq_mem: "findRfq i company db = Inr r \<Longrightarrow> r \<in> set (rfqs db) \<and> rf_id r = i \<and> rf_company r = company"
  by (auto simp: findRfq_def dest: find_SomeD)

lemma statusRun_ok:
  assumes ok: "procurement_ok db" and q: "findQuotation i company db = Inr q" "qt_status q = QtSubmitted"
    and s: "s \<noteq> QtSubmitted"
  shows "procurement_ok (statusRun q company user s db)"
proof -
  note q = findQuotation_mem [OF q(1)] q(2)
  let ?set = "\<lambda>s x. x\<lparr>qt_status := s, qt_updatedBy := user\<rparr>"
  have same: "x = q" if "x \<in> set (quotations db)" "qt_id x = qt_id q" for x
    using that q(1) ok by (auto simp: procurement_ok_def distinct_map inj_on_def)
  have sub: "qt_company x = company" if "x \<in> set (quotations db)" "qt_rfq x = qt_rfq q" for x
  proof -
    from ok that(1) obtain r where "r \<in> set (rfqs db)" "rf_id r = qt_rfq x" "rf_company r = qt_company x"
      unfolding procurement_ok_def by blast
    moreover from ok q(1) obtain r' where "r' \<in> set (rfqs db)" "rf_id r' = qt_rfq q" "rf_company r' = qt_company q"
      unfolding procurement_ok_def by blast
    moreover have "distinct (map rf_id (rfqs db))" using ok by (simp add: procurement_ok_def)
    ultimately show ?thesis using that(2) q(1) by (metis distinct_map inj_onD)
  qed
  have none: "qt_status x \<noteq> QtAwarded" if "x \<in> set (quotations db)" "qt_rfq x = qt_rfq q" for x
    using ok that q unfolding procurement_ok_def by (metis quotation_status.distinct(1,3))
  have st: "qt_status x = QtSubmitted \<or> qt_status x = QtRejected \<or> qt_status x = QtAwarded" for x :: quotation
    by (cases "qt_status x") auto
  show ?thesis
  proof (cases "s = QtAwarded")
    case True
    let ?f = "\<lambda>x. if qt_id x = qt_id q then ?set QtAwarded x
      else if qt_rfq x = qt_rfq q \<and> qt_company x = company \<and> qt_status x = QtSubmitted then ?set QtRejected x else x"
    let ?g = "\<lambda>r. if rf_id r = qt_rfq q then r\<lparr>rf_status := RfqClosed, rf_updatedBy := user\<rparr> else r"
    have award: "x = q" if "x \<in> set (quotations db)" "qt_rfq x = qt_rfq q" "qt_status (?f x) = QtAwarded" for x
      using that same none sub by (simp split: if_splits)
    have other: "qt_status x = QtAwarded" "qt_rfq x \<noteq> qt_rfq q"
      if "x \<in> set (quotations db)" "x \<noteq> q" "qt_status (?f x) = QtAwarded" for x
      using that same none by (auto split: if_splits)
    show ?thesis
    proof (rule procurement_ok_statuses [OF ok, where f = ?f and g = ?g])
      show "rf_status (?g r) = RfqClosed" if "x \<in> set (quotations db)" "rf_id r = qt_rfq x"
        "qt_status x = QtAwarded \<longrightarrow> rf_status r = RfqClosed" "qt_status (?f x) = QtAwarded" for x r
        using that other [of x] by (cases "x = q") simp_all
      show "?f y = ?f x \<or> qt_status (?f y) = QtRejected"
        if a: "x \<in> set (quotations db)" "y \<in> set (quotations db)" "qt_rfq y = qt_rfq x" "qt_status (?f x) = QtAwarded" for x y
      proof (cases "x = q")
        case True
        with a sub [of y] none [of y] st [of y] same [of y] show ?thesis by (auto split: if_splits)
      next
        case False
        note x = other [OF a(1) False a(4)]
        have "y = x \<or> qt_status y = QtRejected" using ok a(1-3) x unfolding procurement_ok_def by blast
        moreover have "y \<noteq> q" using x a(3) by auto
        then have "qt_id y \<noteq> qt_id q" using same a(2) by blast
        ultimately show ?thesis by auto
      qed
    qed (simp_all add: statusRun_def True)
  next
    case False
    then have s: "s = QtRejected" using s by (cases s) auto
    let ?f = "\<lambda>x. if qt_id x = qt_id q then ?set s x else x"
    have old: "qt_status x = QtAwarded" if "qt_status (?f x) = QtAwarded" for x
      using that s by (auto split: if_splits)
    show ?thesis
    proof (rule procurement_ok_statuses [OF ok, where f = ?f and g = id])
      show "rf_status (id r) = RfqClosed" if "qt_status x = QtAwarded \<longrightarrow> rf_status r = RfqClosed"
        "qt_status (?f x) = QtAwarded" for x r
        using that(1) old [OF that(2)] by simp
      show "?f y = ?f x \<or> qt_status (?f y) = QtRejected"
        if a: "x \<in> set (quotations db)" "y \<in> set (quotations db)" "qt_rfq y = qt_rfq x" "qt_status (?f x) = QtAwarded" for x y
      proof -
        have "y = x \<or> qt_status y = QtRejected" using ok a(1-3) old [OF a(4)] unfolding procurement_ok_def by blast
        then show ?thesis using s by auto
      qed
    qed (simp_all add: statusRun_def False)
  qed
qed

lemma createQuotation_ok:
  assumes ok: "procurement_ok db" and c: "createQuotation org company user dto now db = Inr (q, db')"
  shows "procurement_ok db'"
proof -
  from c obtain rfq items where r: "findRfq (qd_rfq dto) company db = Inr rfq"
    "rf_status rfq \<noteq> RfqClosed" and run: "quotationRun company user dto now (rfq, items) db = Inr (q, db')"
    by (auto simp: createQuotation_def quotationRead_def Let_def split: if_splits)
  obtain n db1 where g: "generateQuotationNumber company (getUTCFullYear now) db = (n, db1)" by force
  have fr: "rfqs db1 = rfqs db" "quotations db1 = quotations db" "rowIds db1 = rowIds db"
    using g by (auto simp: generateQuotationNumber_def next_sequence_eq)
  from run g obtain rows db2 where ins: "insertQuotation q db1 = Inr db2" "db' = fold (insertQuotationItem (qt_id q)) rows db2"
    and q: "qt_id q = rowIds db1" "qt_company q = company" "qt_rfq q = qd_rfq dto" "qt_status q = QtSubmitted"
    by (auto simp: quotationRun_def Let_def)
  from ins(1) fr have new: "quotations db2 = quotations db @ [q]" "rfqs db2 = rfqs db" "rowIds db2 = Suc (rowIds db)"
    "\<forall>k \<in> set (quotations db). \<not> (qt_company k = qt_company q \<and> qt_rfq k = qt_rfq q \<and> qt_supplier k = qt_supplier q)"
    by (auto simp: insertQuotation_def split: if_splits)
  have same: "x = rfq" if "x \<in> set (rfqs db)" "rf_id x = qd_rfq dto" for x
    using that findRfq_mem [OF r(1)] ok by (auto simp: procurement_ok_def distinct_map inj_on_def)
  have none: "qt_status x \<noteq> QtAwarded" if "x \<in> set (quotations db)" "qt_rfq x = qt_rfq q" for x
    using ok that r(2) same q(3) unfolding procurement_ok_def by metis
  have "procurement_ok db2"
    using ok new q fr none findRfq_mem [OF r(1)] unfolding procurement_ok_def by (auto simp: less_Suc_eq)
  with quotation_items_frame [of "qt_id q" rows db2] show ?thesis
    unfolding ins(2) by (blast intro: procurement_ok_same)
qed

lemma procurement_step_ok:
  assumes "procurement_step db db'" "procurement_ok db"
  shows "procurement_ok db'"
  using assms(1)
proof cases
  case (request org cat company user rdto r)
  then have "rfqs db' = rfqs db \<and> quotations db' = quotations db \<and> rowIds db \<le> rowIds db'"
    by (auto simp: createRequest_def generateRequestNumber_def next_sequence_eq Let_def dest!: request_items_frame)
  with assms(2) show ?thesis using procurement_ok_same by blast
next
  case (request_status i company user rs r)
  then show ?thesis using assms(2)
    by (auto simp: updateRequestStatus_def Let_def intro!: procurement_ok_same [OF assms(2)])
next
  case (rfq org cat company user fdto f)
  obtain n db1 where g: "generateRfqNumber company (getUTCFullYear (rfd_requiredDate fdto)) db = (n, db1)" by force
  then have fr: "rfqs db1 = rfqs db" "quotations db1 = quotations db" "rowIds db1 = rowIds db"
    by (auto simp: generateRfqNumber_def next_sequence_eq)
  define db2 where "db2 = db1\<lparr>rfqs := rfqs db1 @ [f], rowIds := rowIds db1 + 1\<rparr>"
  from rfq g have f: "rf_id f = rowIds db1"
    and fe: "forEach (insertRfqItem cat company (rf_id f)) (rfd_items fdto) db2 = Inr db'"
    by (auto simp: createRfq_def Let_def db2_def)
  have d: "rfqs db2 = rfqs db @ [f]" "quotations db2 = quotations db" "rf_id f = rowIds db" "rowIds db2 = Suc (rowIds db)"
    using fr f by (simp_all add: db2_def)
  have "procurement_ok db2"
    using assms(2) d unfolding procurement_ok_def by (auto simp: less_Suc_eq)
  with rfq_items_frame [OF fe] show ?thesis by (blast intro: procurement_ok_same)
next
  case (rfq_status i company user fs f)
  then obtain r where r: "findRfq i company db = Inr r" "fs \<in> set (RFQ_TRANSITIONS (rf_status r))"
    and db': "db' = db\<lparr>rfqs := map (\<lambda>x. if rf_id x = rf_id r then r\<lparr>rf_status := fs, rf_updatedBy := user\<rparr> else x) (rfqs db)\<rparr>"
    by (auto simp: updateRfqStatus_def Let_def split: if_splits)
  have same: "x = r" if "x \<in> set (rfqs db)" "rf_id x = rf_id r" for x
    using that findRfq_mem [OF r(1)] assms(2) by (auto simp: procurement_ok_def distinct_map inj_on_def)
  have open_rfq: "rf_status r \<noteq> RfqClosed" using r(2) by (auto simp: RFQ_TRANSITIONS_def)
  have eq: "map (\<lambda>x. if rf_id x = rf_id r then r\<lparr>rf_status := fs, rf_updatedBy := user\<rparr> else x) (rfqs db)
      = map (\<lambda>x. if rf_id x = rf_id r then x\<lparr>rf_status := fs, rf_updatedBy := user\<rparr> else x) (rfqs db)"
    using same by auto
  let ?g = "\<lambda>x. if rf_id x = rf_id r then x\<lparr>rf_status := fs, rf_updatedBy := user\<rparr> else x"
  show ?thesis
    unfolding db' eq
  proof (rule procurement_ok_statuses [OF assms(2), where f = id and g = ?g])
    show "rf_status (?g y) = RfqClosed" if "y \<in> set (rfqs db)" "qt_status x = QtAwarded \<longrightarrow> rf_status y = RfqClosed"
      "qt_status (id x) = QtAwarded" for x y
      using that same [of y] open_rfq by auto
    show "id y = id x \<or> qt_status (id y) = QtRejected"
      if "x \<in> set (quotations db)" "y \<in> set (quotations db)" "qt_rfq y = qt_rfq x" "qt_status (id x) = QtAwarded" for x y
      using assms(2) that unfolding procurement_ok_def by simp
  qed simp_all
next
  case (quotation org company user qdto now q)
  from createQuotation_ok [OF assms(2) this] show ?thesis .
next
  case (quotation_status i company user qs q)
  then obtain p where "findQuotation i company db = Inr p" "qs \<in> set (QUOTATION_TRANSITIONS (qt_status p))"
    and db': "db' = statusRun p company user qs db"
    by (auto simp: updateQuotationStatus_def statusRead_def Let_def split: if_splits)
  then have "findQuotation i company db = Inr p" "qt_status p = QtSubmitted" "qs \<noteq> QtSubmitted"
    by (auto simp: QUOTATION_TRANSITIONS_def split: quotation_status.splits)
  from statusRun_ok [OF assms(2) this] show ?thesis unfolding db' .
qed

lemma procurement_steps_ok: "procurement_step\<^sup>*\<^sup>* db db' \<Longrightarrow> procurement_ok db \<Longrightarrow> procurement_ok db'"
  by (induction rule: rtranclp_induct) (auto dest: procurement_step_ok)

section \<open>Properties\<close>

text \<open>C19: whatever requests, requests for quotation, quotations and status changes run, a supplier has at
  most one quotation per request for quotation, and once a quotation is awarded its request for
  quotation is closed and every other quotation for it is rejected.\<close>

theorem one_award_per_rfq:
  assumes "procurement_step\<^sup>*\<^sup>* db db'" and "procurement_ok db"
    and "q \<in> set (quotations db')" and "q' \<in> set (quotations db')" and "qt_rfq q' = qt_rfq q" and "q' \<noteq> q"
  shows "qt_supplier q' \<noteq> qt_supplier q \<and> (qt_status q = QtAwarded \<longrightarrow> qt_status q' = QtRejected
    \<and> (\<exists>r \<in> set (rfqs db'). rf_id r = qt_rfq q \<and> rf_status r = RfqClosed))"
proof -
  have ok: "procurement_ok db'" by (rule procurement_steps_ok [OF assms(1,2)])
  obtain r r' where r: "r \<in> set (rfqs db')" "rf_id r = qt_rfq q" "rf_company r = qt_company q"
      "qt_status q = QtAwarded \<longrightarrow> rf_status r = RfqClosed"
    and r': "r' \<in> set (rfqs db')" "rf_id r' = qt_rfq q'" "rf_company r' = qt_company q'"
    using ok assms(3,4) unfolding procurement_ok_def by meson
  have "r' = r" using ok r r' assms(5) by (auto simp: procurement_ok_def distinct_map inj_on_def)
  then have "qt_company q' = qt_company q" using r r' by simp
  moreover have "(qt_company q', qt_rfq q', qt_supplier q') \<noteq> (qt_company q, qt_rfq q, qt_supplier q)"
    using ok assms(3,4,6) unfolding procurement_ok_def distinct_map by (auto dest: inj_onD)
  ultimately have "qt_supplier q' \<noteq> qt_supplier q" using assms(5) by simp
  moreover have "qt_status q = QtAwarded \<Longrightarrow> qt_status q' = QtRejected"
    using ok assms(3-6) unfolding procurement_ok_def by blast
  ultimately show ?thesis using r by blast
qed

definition demo_org_buy :: org_db where
  "demo_org_buy = demo_org_shop\<lparr>suppliers :=
     [6 \<mapsto> \<lparr>su_company = 1, su_status = PActive, su_payableAccount = None, su_creditDays = 30\<rparr>,
      7 \<mapsto> \<lparr>su_company = 1, su_status = PActive, su_payableAccount = None, su_creditDays = 0\<rparr>]\<rparr>"

definition demo_quotation :: "id \<Rightarrow> id \<Rightarrow> nat \<Rightarrow> int \<Rightarrow> quotation" where
  "demo_quotation i supplier n amount =
     \<lparr>qt_id = i, qt_number = formatSupplierQuotationNumber 2026 n, qt_company = 1, qt_rfq = 110,
      qt_supplier = supplier, qt_paymentTerm = None, qt_leadTimeDays = None, qt_status = QtSubmitted,
      qt_subtotal = amount, qt_discount = 0, qt_tax = 0, qt_grandTotal = amount, qt_currency = ''USD'',
      qt_createdBy = 9, qt_updatedBy = 9\<rparr>"

definition demo_procurement :: procurement_db where
  "demo_procurement = (returns_db.extend (sales_db.extend demo_shop1
      \<lparr>saleReturns = [], returnItems = [], returnCounters = Map.empty\<rparr>)
     \<lparr>purchaseRequests = [], requestItems = [], requestCounters = Map.empty,
      rfqs = [\<lparr>rf_id = 110, rf_number = formatPurchaseRfqNumber 2026 1, rf_company = 1, rf_branch = None,
        rf_request = None, rf_requiredDate = ((2026, 3, 1), 0), rf_status = RfqSent, rf_invited = [6, 7],
        rf_createdBy = 9, rf_updatedBy = 9\<rparr>],
      rfqItems = [\<lparr>fi_id = 111, fi_rfq = 110, fi_variant = 20, fi_quantity = 10, fi_productName = ''Tee'',
        fi_sku = ''TEE-M''\<rparr>], rfqCounters = [(1, 2026) \<mapsto> 1],
      quotations = [demo_quotation 112 6 1 5000, demo_quotation 113 7 2 4800], quotationItems = [],
      quotationCounters = [(1, 2026) \<mapsto> 2]\<rparr>)\<lparr>rowIds := 114\<rparr>"

lemma demo_procurement_tables:
  "quotations demo_procurement = [demo_quotation 112 6 1 5000, demo_quotation 113 7 2 4800]"
  "map rf_id (rfqs demo_procurement) = [110]" "map rf_company (rfqs demo_procurement) = [1]"
  "map rf_status (rfqs demo_procurement) = [RfqSent]" "rowIds demo_procurement = 114"
  by (simp_all add: demo_procurement_def procurement_db.defs returns_db.defs sales_db.defs)

lemma demo_procurement_ok: "procurement_ok demo_procurement"
  by (auto simp: procurement_ok_def demo_procurement_def demo_quotation_def returns_db.defs sales_db.defs)

definition demo_awarded :: procurement_db where
  "demo_awarded = statusRun (demo_quotation 113 7 2 4800) 1 9 QtAwarded demo_procurement"

lemma demo_award:
  "updateQuotationStatus 113 1 9 QtAwarded demo_procurement
    = Inr ((demo_quotation 113 7 2 4800)\<lparr>qt_status := QtAwarded\<rparr>, demo_awarded)"
  by (simp add: updateQuotationStatus_def statusRead_def findQuotation_def demo_procurement_tables
      demo_quotation_def QUOTATION_TRANSITIONS_def statusRun_def Let_def demo_awarded_def)

theorem one_award_per_rfq_witness:
  "map (\<lambda>q. (qt_id q, qt_status q)) (quotations demo_awarded) = [(112, QtRejected), (113, QtAwarded)]
    \<and> (\<exists>r \<in> set (rfqs demo_awarded). rf_id r = 110 \<and> rf_status r = RfqClosed)"
proof -
  let ?q = "(demo_quotation 113 7 2 4800)\<lparr>qt_status := QtAwarded\<rparr>"
  let ?q' = "(demo_quotation 112 6 1 5000)\<lparr>qt_status := QtRejected\<rparr>"
  have t: "quotations demo_awarded = [?q', ?q]"
    by (simp add: demo_awarded_def statusRun_def demo_procurement_tables demo_quotation_def Let_def)
  have "procurement_step\<^sup>*\<^sup>* demo_procurement demo_awarded"
    by (rule r_into_rtranclp, rule procurement_step.quotation_status [OF demo_award])
  note one_award_per_rfq [OF this demo_procurement_ok, of ?q ?q']
  then show ?thesis by (simp add: t demo_quotation_def)
qed

text \<open>Two awards that both read their quotation before either ran leave two awarded quotations.\<close>

lemma award_race:
  "\<exists>q1 q2. statusRead 112 1 QtAwarded demo_procurement = Inr q1 \<and> statusRead 113 1 QtAwarded demo_procurement = Inr q2
    \<and> map (\<lambda>q. (qt_id q, qt_status q))
        (quotations (statusRun q2 1 9 QtAwarded (statusRun q1 1 9 QtAwarded demo_procurement)))
      = [(112, QtAwarded), (113, QtAwarded)]"
  by (simp add: statusRead_def findQuotation_def demo_procurement_tables demo_quotation_def
      QUOTATION_TRANSITIONS_def statusRun_def Let_def)

end
