(* ===== verification/Purchase_Theorems.thy ===== *)
theory Purchase_Theorems
  imports Purchase_Properties Procurement_Properties Return_Properties
begin

text \<open>
  What purchase orders and goods receipts guarantee: exact totals of an order, its life cycle and time
  stamps, the quantities received against it, the stock a receipt adds, what closing an order means, and
  which error each operation gives.
\<close>

section \<open>A concrete order\<close>

text \<open>Three pieces at 12.50 with a discount of 2.50 and a tax of 0.50, from the awarded supplier; two
  pieces are received and one is rejected.\<close>

definition demo_purchase0 :: purchase_db where
  "demo_purchase0 = procurement_db.extend demo_awarded
     \<lparr>purchaseOrders = [], orderItems = [], orderCounters = Map.empty, goodsReceipts = [], receiptItems = [],
      receiptCounters = Map.empty\<rparr>"

definition demo_order_dto :: order_dto where
  "demo_order_dto = \<lparr>oc_type = None, oc_supplier = 7, oc_branch = None, oc_warehouse = Some 2,
     oc_paymentTerm = None, oc_quotation = Some 113, oc_date = None, oc_expected = None, oc_currency = ''USD'',
     oc_items = [\<lparr>od_variant = 20, od_uom = None, od_quantity = 3, od_unitCost = 1250, od_discount = Some 250,
       od_tax = Some 50\<rparr>]\<rparr>"

definition demo_order :: purchase_order where
  "demo_order = \<lparr>po_id = 114, po_number = formatPurchaseOrderNumber 2026 1, po_type = StandardPurchase,
     po_supplier = 7, po_company = 1, po_branch = None, po_warehouse = Some 2, po_paymentTerm = None,
     po_quotation = Some 113, po_date = ((2026, 3, 1), 0), po_expected = None, po_status = PoDraft,
     po_subtotal = 3750, po_discount = 250, po_tax = 50, po_grandTotal = 3550, po_paid = 0, po_balance = 3550,
     po_currency = ''USD'', po_createdBy = 9, po_updatedBy = 9, po_submittedAt = None, po_submittedBy = None,
     po_approvedAt = None, po_approvedBy = None, po_rejectedAt = None, po_rejectedBy = None,
     po_rejectedReason = None, po_closedAt = None, po_closedBy = None, po_closeReason = None\<rparr>"

definition demo_order_item :: order_item where
  "demo_order_item = \<lparr>ml_price = 1250, ml_quantity = 3, ml_discount = 250, ml_tax = 50, pw_variant = 20,
     pw_uom = Some 30, pw_baseQuantity = 3, pw_factor = 10000, pw_lineTotal = 3550, pw_productName = ''Tee'',
     pw_sku = ''TEE-M'', pw_id = 115, pw_order = 114\<rparr>"

definition demo_purchase1 :: purchase_db where
  "demo_purchase1 = demo_purchase0\<lparr>purchaseOrders := [demo_order], orderItems := [demo_order_item],
     orderCounters := [(1, 2026) \<mapsto> 1], rowIds := 116\<rparr>"

lemma demo_purchase0_tables:
  "purchaseOrders demo_purchase0 = []" "orderItems demo_purchase0 = []" "receiptItems demo_purchase0 = []"
  "goodsReceipts demo_purchase0 = []" "orderCounters demo_purchase0 = Map.empty" "receiptCounters demo_purchase0 = Map.empty"
  "rowIds demo_purchase0 = 114" "quotations demo_purchase0 = quotations demo_awarded"
  "warehouseStock demo_purchase0 = warehouseStock demo_shop1" "stockMovements demo_purchase0 = stockMovements demo_shop1"
  by (simp_all add: demo_purchase0_def procurement_db.extend_def demo_awarded_def statusRun_def
      demo_procurement_def returns_db.defs sales_db.defs Let_def)

lemma demo_purchase_ok: "purchase_ok demo_purchase0"
  by (simp add: purchase_ok_def demo_purchase0_tables)

lemma demo_costItem:
  "forEach (costItem demo_catalog 1) (oc_items demo_order_dto) (zeroTotals, [])
    = Inr (\<lparr>mt_subtotal = 75 / 2, mt_discount = 5 / 2, mt_tax = 1 / 2\<rparr>, [order_row.truncate demo_order_item])"
  using computeBaseQuantity_exact [of 3 10000]
  by (simp add: demo_order_dto_def costItem_def demo_catalog_def demo_catalog1_def demo_catalog0_def demo_variant_def
      resolveSelectionForUsage_def findActiveUomOrThrow_def findMapping_def demo_box_def selectedFactor_def
      orderLine_def assertCostNonNegative_def assertDiscountFits_def lineSubtotal_def addLine_def zeroTotals_def
      demo_numbers demo_amounts Let_def orderRow_def lineTotal_def demo_order_item_def order_row.truncate_def)

lemma demo_createOrder:
  "createOrder demo_org_buy demo_catalog 1 9 demo_order_dto ((2026, 3, 1), 0) demo_purchase0
    = Inr (demo_order, demo_purchase1)"
proof -
  have v: "assertVariantActive demo_catalog 1 20 = Inr ()"
    by (simp add: assertVariantActive_def findVariantInCompany_def demo_catalog_def demo_catalog1_def
        demo_catalog0_def demo_variant_def)
  have q: "assertQuotationOfSupplier (Some 113) 7 1 demo_purchase0 = Inr ()"
    by (simp add: assertQuotationOfSupplier_def findAwardedQuotation_def findQuotation_def demo_purchase0_tables
        demo_awarded_def statusRun_def demo_procurement_tables demo_quotation_def Let_def)
  have g: "generatePurchaseOrderNumber 1 2026 demo_purchase0
      = (formatPurchaseOrderNumber 2026 1, demo_purchase0\<lparr>orderCounters := [(1, 2026) \<mapsto> 1]\<rparr>)"
    by (simp add: generatePurchaseOrderNumber_def next_sequence_eq last_sequence_def demo_purchase0_tables)
  have "createOrderTx demo_catalog 1 9 demo_order_dto ((2026, 3, 1), 0) demo_purchase0 = Inr (demo_order, demo_purchase1)"
    by (simp add: createOrderTx_def getUTCFullYear_def g demo_costItem insertOrder_def demo_purchase0_tables Let_def
        newOrder_def grandTotal_def demo_numbers del: One_nat_def)
      (simp add: demo_order_dto_def demo_order_def demo_purchase1_def insertOrderItem_def demo_purchase0_tables
        demo_order_item_def order_row.defs)
  then show ?thesis
    by (simp add: createOrder_def v q demo_order_dto_def demo_org_buy_def demo_org_shop_def demo_org_wh_def
        assertBranchIfGiven_def assertValidWarehouse_def findWarehouse_def assertValidSupplier_def
        del: One_nat_def)
qed

section \<open>Totals\<close>

text \<open>The amounts of a new purchase order are exact: its items carry the amounts of the request, each
  line total is cost times quantity less discount plus tax, and subtotal, discount, tax and total of
  the order are the sums over its items; nothing is paid and the balance is the total.\<close>

theorem order_totals_exact:
  assumes run: "createOrder org cat company user dto now db = Inr (o', db')"
    and B: "order_within B dto" and ids: "\<forall>x \<in> set (orderItems db). pw_order x < rowIds db"
  shows "map money_line.truncate (itemsOfOrder (po_id o') db') = map orderLine (oc_items dto)
    \<and> (\<forall>x \<in> set (itemsOfOrder (po_id o') db'). pw_lineTotal x = gross x - ml_discount x + ml_tax x)
    \<and> po_subtotal o' = sumGross (itemsOfOrder (po_id o') db')
    \<and> po_discount o' = sumDiscount (itemsOfOrder (po_id o') db')
    \<and> po_tax o' = sumTax (itemsOfOrder (po_id o') db')
    \<and> po_grandTotal o' = po_subtotal o' - po_discount o' + po_tax o'
    \<and> po_balance o' = po_grandTotal o' \<and> po_paid o' = 0"
proof -
  let ?ls = "map orderLine (oc_items dto)" and ?items = "itemsOfOrder (po_id o') db'"
  from createOrder_laws [OF run] obtain rows n d where rows: "list_all2 (costedAs cat company) (oc_items dto) rows"
    and o: "o' = newOrder company user dto d (rowIds db) n (documentTotals ?ls)"
    and it: "orderItems db' = orderItems db @ map (\<lambda>(k, r). order_row.extend r
        \<lparr>pw_id = Suc (rowIds db) + k, pw_order = rowIds db\<rparr>) (enumerate 0 rows)" by blast
  have items: "?items = map (\<lambda>(k, r). order_row.extend r
      \<lparr>pw_id = Suc (rowIds db) + k, pw_order = rowIds db\<rparr>) (enumerate 0 rows)"
  proof -
    have "filter (\<lambda>x. pw_order x = rowIds db) (orderItems db) = []" using ids by (intro filter_False) auto
    moreover have "filter (\<lambda>x. pw_order x = rowIds db) (map (\<lambda>(k, r). order_row.extend r
        \<lparr>pw_id = Suc (rowIds db) + k, pw_order = rowIds db\<rparr>) (enumerate 0 rows))
      = map (\<lambda>(k, r). order_row.extend r \<lparr>pw_id = Suc (rowIds db) + k, pw_order = rowIds db\<rparr>) (enumerate 0 rows)"
      by (intro filter_True) (auto simp: order_row.extend_def)
    ultimately show ?thesis by (simp add: itemsOfOrder_def it o newOrder_def)
  qed
  have f: "fits B 6" using B fits_mono [of B "10 * length (oc_items dto) + 20" 6] by (simp add: order_within_def)
  have line: "line_ok (orderLine i)" "money_line.truncate r = orderLine i"
      "pw_lineTotal r = gross r - ml_discount r + ml_tax r"
    if "costedAs cat company i r" "i \<in> set (oc_items dto)" for i r
    using costed_line [OF that(1), of B] that(2) order_within_item [OF B that(2)] B f by (auto simp: order_within_def)
  have trunc: "map money_line.truncate rows = ?ls"
    using rows line(2) by (auto simp: list_all2_conv_all_nth intro!: nth_equalityI)
  have same: "map (\<lambda>(k, r). money_line.truncate r) (enumerate 0 rows) = map money_line.truncate rows"
    by (simp add: split_def flip: map_map [of money_line.truncate snd, unfolded o_def])
  have 1: "map money_line.truncate ?items = ?ls"
    unfolding items trunc [symmetric] same [symmetric] by (simp add: split_def truncate_extended)
  have 2: "\<forall>x \<in> set ?items. pw_lineTotal x = gross x - ml_discount x + ml_tax x"
  proof
    fix x assume "x \<in> set ?items"
    then obtain k r where x: "x = order_row.extend r \<lparr>pw_id = Suc (rowIds db) + k, pw_order = rowIds db\<rparr>"
      and "(k, r) \<in> set (enumerate 0 rows)" unfolding items by auto
    then have "r \<in> set rows" by (auto simp: enumerate_eq_zip dest: set_zip_rightD)
    then obtain j where "j < length rows" "r = rows ! j" by (auto simp: in_set_conv_nth)
    then have "oc_items dto ! j \<in> set (oc_items dto)" "costedAs cat company (oc_items dto ! j) r"
      using rows by (auto simp: list_all2_conv_all_nth)
    then obtain i where "i \<in> set (oc_items dto)" "costedAs cat company i r" by blast
    from line(3) [OF this(2,1)] show "pw_lineTotal x = gross x - ml_discount x + ml_tax x"
      by (simp add: x truncate_extended)
  qed
  have "\<forall>l \<in> set ?ls. line_ok l"
    using rows line(1) by (fastforce simp: list_all2_conv_all_nth in_set_conv_nth)
  then have fit: "document_fits B ?ls" using B by (simp add: document_fits_def order_within_def)
  have sums: "sumGross ?items = sumGross ?ls" "sumDiscount ?items = sumDiscount ?ls" "sumTax ?items = sumTax ?ls"
    using sums_truncate [of ?items] by (simp_all add: 1)
  show ?thesis
    using document_totals_exact [OF fit] 1 2 by (simp add: sums) (simp add: o newOrder_def)
qed

theorem order_totals_exact_witness:
  "po_grandTotal demo_order = sumGross [demo_order_item] - sumDiscount [demo_order_item] + sumTax [demo_order_item]"
  using order_totals_exact [OF demo_createOrder, of "10 ^ 10"]
  by (simp add: order_within_def demo_order_dto_def orderLine_def gross_def fits_def demo_purchase0_tables
      demo_purchase1_def demo_order_def itemsOfOrder_def demo_order_item_def)

section \<open>The life of an order\<close>

definition demo_approved :: purchase_order where
  "demo_approved = demo_order\<lparr>po_status := PoApproved, po_submittedAt := Some ((2026, 3, 2), 0),
     po_submittedBy := Some 8, po_approvedAt := Some ((2026, 3, 2), 0), po_approvedBy := Some 8, po_updatedBy := 8\<rparr>"

definition demo_purchase2 :: purchase_db where
  "demo_purchase2 = demo_purchase1\<lparr>purchaseOrders := [demo_approved]\<rparr>"

lemma demo_approve: "approveOrder 114 1 8 ((2026, 3, 2), 0) demo_purchase1 = Inr (demo_approved, demo_purchase2)"
  by (simp add: approveOrder_def findOrder_def demo_purchase1_def demo_order_def assertOrderTransition_def
      ORDER_TRANSITIONS_def orElse_def saveOrder_def demo_purchase2_def demo_approved_def Let_def)

lemma demo_purchase_steps: "purchase_step\<^sup>*\<^sup>* demo_purchase0 demo_purchase2"
proof -
  have "purchase_step demo_purchase0 demo_purchase1"
    by (rule purchase_step.create [OF demo_createOrder]) (simp add: demo_order_dto_def)
  moreover have "purchase_step demo_purchase1 demo_purchase2" by (rule purchase_step.approve [OF demo_approve])
  ultimately show ?thesis by simp
qed

lemma order_moves_end: "order_moves\<^sup>*\<^sup>* a b \<Longrightarrow> ORDER_TRANSITIONS a = [] \<Longrightarrow> b = a"
  by (erule converse_rtranclpE) (simp_all add: order_moves_def)

lemma order_moves_released:
  "order_moves\<^sup>*\<^sup>* a b \<Longrightarrow> isReleasedStatus a \<Longrightarrow> b = a \<or> b = PoClosed"
proof (induction rule: rtranclp_induct)
  case (step b c)
  then show ?case by (cases b) (auto simp: isReleasedStatus_def order_moves_def ORDER_TRANSITIONS_def)
qed simp

lemma order_moves_back:
  "order_moves\<^sup>*\<^sup>* a b \<Longrightarrow> (b = PoDraft \<longrightarrow> a = PoDraft) \<and> (b = PoSubmitted \<longrightarrow> a = PoDraft \<or> a = PoSubmitted)
    \<and> (b = PoRejected \<longrightarrow> a \<in> {PoDraft, PoSubmitted, PoRejected})
    \<and> (b = PoCancelled \<longrightarrow> a \<in> {PoDraft, PoSubmitted, PoCancelled})"
proof (induction rule: rtranclp_induct)
  case (step b c)
  then show ?case by (cases b) (auto simp: order_moves_def ORDER_TRANSITIONS_def)
qed simp

text \<open>C20: whatever purchase operations run, one request after the other, no two orders of a company share a
  number, and an order keeps its number, parties, date, currency, items and amounts (subtotal, discount, tax and
  grand total) and never goes back: an order that is no draft never becomes one, only a draft becomes
  submitted, a rejected, closed or cancelled order stays what it is, and an approved or confirmed order stays so
  unless it is closed: it is never submitted, rejected or cancelled afterwards and neither of the two becomes
  the other. (\<open>docs/PURCHASE_ARCHITECTURE.md\<close> still describes a first version of the life cycle with the
  states draft, confirmed and cancelled only; all that is excluded here is excluded there.)\<close>

theorem order_life_cycle:
  assumes "purchase_step\<^sup>*\<^sup>* db db'" and "purchase_ok db" and "s \<in> set (purchaseOrders db)"
  shows "distinct (map (\<lambda>o'. (po_company o', po_number o')) (purchaseOrders db'))
    \<and> itemsOfOrder (po_id s) db' = itemsOfOrder (po_id s) db
    \<and> (\<exists>t \<in> set (purchaseOrders db'). po_id t = po_id s \<and> po_number t = po_number s \<and> po_company t = po_company s
        \<and> po_branch t = po_branch s \<and> po_warehouse t = po_warehouse s \<and> po_supplier t = po_supplier s
        \<and> po_paymentTerm t = po_paymentTerm s \<and> po_quotation t = po_quotation s \<and> po_date t = po_date s
        \<and> po_currency t = po_currency s \<and> po_createdBy t = po_createdBy s
        \<and> po_subtotal t = po_subtotal s \<and> po_discount t = po_discount s \<and> po_tax t = po_tax s
        \<and> po_grandTotal t = po_grandTotal s
        \<and> (po_status t = PoDraft \<longrightarrow> po_status s = PoDraft)
        \<and> (po_status t = PoSubmitted \<longrightarrow> po_status s \<in> {PoDraft, PoSubmitted})
        \<and> (po_status s \<in> {PoRejected, PoClosed, PoCancelled} \<longrightarrow> po_status t = po_status s)
        \<and> (isReleasedStatus (po_status s) \<longrightarrow> po_status t \<in> {po_status s, PoClosed}))"
proof -
  from purchase_steps_ok [OF assms(1,2)] assms(3) obtain t where t: "t \<in> set (purchaseOrders db')" "order_follows s t"
    and ok: "purchase_ok db'" by blast
  have items: "itemsOfOrder (po_id s) db' = itemsOfOrder (po_id s) db"
    using purchase_steps_items [OF assms(1)] assms(2,3) by (simp add: purchase_ok_def)
  have nums: "distinct (map (\<lambda>o'. (po_company o', po_number o')) (purchaseOrders db'))"
    using ok by (simp add: purchase_ok_def)
  have fixed: "po_id t = po_id s \<and> po_number t = po_number s \<and> po_company t = po_company s
      \<and> po_branch t = po_branch s \<and> po_warehouse t = po_warehouse s \<and> po_supplier t = po_supplier s
      \<and> po_paymentTerm t = po_paymentTerm s \<and> po_quotation t = po_quotation s \<and> po_date t = po_date s
      \<and> po_currency t = po_currency s \<and> po_createdBy t = po_createdBy s
      \<and> po_subtotal t = po_subtotal s \<and> po_discount t = po_discount s \<and> po_tax t = po_tax s
      \<and> po_grandTotal t = po_grandTotal s"
    using t(2) unfolding order_follows_def by (elim conjE) (intro conjI; assumption)
  have "po_status s \<in> {PoRejected, PoClosed, PoCancelled} \<Longrightarrow> po_status t = po_status s"
    using t(2) order_moves_end [of "po_status s" "po_status t"] by (auto simp: order_follows_def ORDER_TRANSITIONS_def)
  moreover have "isReleasedStatus (po_status s) \<Longrightarrow> po_status t \<in> {po_status s, PoClosed}"
    using t(2) order_moves_released [of "po_status s" "po_status t"] by (auto simp: order_follows_def)
  moreover have "po_status t = PoDraft \<Longrightarrow> po_status s = PoDraft" "po_status t = PoSubmitted \<Longrightarrow> po_status s \<in> {PoDraft, PoSubmitted}"
    using t(2) order_moves_back [of "po_status s" "po_status t"] by (auto simp: order_follows_def)
  ultimately have moves: "(po_status t = PoDraft \<longrightarrow> po_status s = PoDraft)
      \<and> (po_status t = PoSubmitted \<longrightarrow> po_status s \<in> {PoDraft, PoSubmitted})
      \<and> (po_status s \<in> {PoRejected, PoClosed, PoCancelled} \<longrightarrow> po_status t = po_status s)
      \<and> (isReleasedStatus (po_status s) \<longrightarrow> po_status t \<in> {po_status s, PoClosed})" by blast
  show ?thesis
    by (rule conjI [OF nums], rule conjI [OF items], rule bexI [OF _ t(1)]) (insert fixed moves, elim conjE, intro conjI; assumption)
qed

theorem order_life_cycle_witness:
  "\<exists>t \<in> set (purchaseOrders demo_purchase2). po_id t = 114 \<and> po_supplier t = 7 \<and> po_grandTotal t = 3550
    \<and> po_discount t = 250 \<and> po_tax t = 50"
proof -
  have "purchase_step\<^sup>*\<^sup>* demo_purchase1 demo_purchase2" using purchase_step.approve [OF demo_approve] by simp
  moreover have "purchase_ok demo_purchase1"
    using purchase_step_ok [OF purchase_step.create [OF demo_createOrder] demo_purchase_ok]
    by (simp add: demo_order_dto_def)
  ultimately show ?thesis
    using order_life_cycle [of demo_purchase1 demo_purchase2 demo_order] by (auto simp: demo_purchase1_def demo_order_def)
qed

text \<open>C21: in every reachable state each order carries the time stamps of its state: submission for all
  but drafts and cancelled drafts, approval exactly for released and closed orders, rejection with a reason
  and closing exactly for the rejected and the closed ones.\<close>

theorem order_stamps:
  assumes "purchase_step\<^sup>*\<^sup>* db db'" and "purchase_ok db" and "s \<in> set (purchaseOrders db')"
  shows "(po_approvedAt s \<noteq> None \<longleftrightarrow> po_status s \<in> {PoApproved, PoConfirmed, PoClosed})
    \<and> (po_status s \<notin> {PoDraft, PoCancelled} \<longrightarrow> po_submittedAt s \<noteq> None \<and> po_submittedBy s \<noteq> None)
    \<and> (po_rejectedAt s \<noteq> None \<longleftrightarrow> po_status s = PoRejected) \<and> (po_rejectedReason s \<noteq> None \<longleftrightarrow> po_status s = PoRejected)
    \<and> (po_closedAt s \<noteq> None \<longleftrightarrow> po_status s = PoClosed)"
proof -
  have "order_stamped s" using purchase_steps_ok [OF assms(1,2)] assms(3) by (auto simp: purchase_ok_def)
  then show ?thesis by (cases "po_status s") (simp_all add: order_stamped_def)
qed

theorem order_stamps_witness:
  "po_approvedAt demo_approved \<noteq> None \<and> po_closedAt demo_approved = None"
  using order_stamps [OF demo_purchase_steps demo_purchase_ok, of demo_approved]
  by (simp add: demo_purchase2_def demo_approved_def demo_order_def)

section \<open>Errors\<close>

lemma js_num_above_eps: "js_eps < js_num c \<longleftrightarrow> 0 < c"
proof -
  have e: "\<bar>js_num c - of_int c / 100\<bar> \<le> \<bar>of_int c / 100\<bar> / 2 ^ 53" unfolding js_num_def by (rule fl_error)
  show ?thesis
  proof (cases "0 < c")
    case True
    then have "(1 :: real) \<le> of_int c" by simp
    then have "\<bar>of_int c / 100 :: real\<bar> / 2 ^ 53 \<le> of_int c / 200" by simp
    with e have "\<bar>js_num c - of_int c / 100\<bar> \<le> of_int c / 200" by (rule order_trans)
    then have "of_int c / 200 \<le> js_num c" by linarith
    with \<open>1 \<le> of_int c\<close> have "1 / 200 \<le> js_num c" by simp
    with js_eps_bounds True show ?thesis by simp
  next
    case False
    then have "js_num c \<le> 0" using e by (simp add: abs_real_def split: if_splits)
    with js_eps_bounds False show ?thesis by simp
  qed
qed

text \<open>When each operation on an existing order fails, and how.\<close>

lemma order_errors:
  assumes "findOrder i company db = Inr s"
  shows "(submitOrder i company user now db = Inl e \<longleftrightarrow> e = AppException Conflict \<and> po_status s \<noteq> PoDraft)
    \<and> (approveOrder i company user now db = Inl e
        \<longleftrightarrow> e = AppException Conflict \<and> po_status s \<notin> {PoDraft, PoSubmitted})
    \<and> (confirmOrder i company user now db = Inl e
        \<longleftrightarrow> e = AppException Conflict \<and> po_status s \<notin> {PoDraft, PoSubmitted})
    \<and> (rejectOrder i company user reason now db = Inl e
        \<longleftrightarrow> e = AppException Conflict \<and> po_status s \<noteq> PoSubmitted)
    \<and> (cancelOrder i company user db = Inl e
        \<longleftrightarrow> e = AppException Conflict
          \<and> ((\<exists>g \<in> set (goodsReceipts db). gr_order g = i) \<or> po_status s \<notin> {PoDraft, PoSubmitted}))
    \<and> (closeOrder i company user why now db = Inl e
        \<longleftrightarrow> e = AppException Conflict
          \<and> (\<not> isReleasedStatus (po_status s) \<or> \<not> (\<exists>g \<in> set (goodsReceipts db). gr_order g = i \<and> gr_company g = company)
            \<or> (\<exists>x \<in> set (itemsOfOrder i db).
                handledBy (\<lambda>g. gr_order g = i \<and> gr_company g = company) (pw_id x) db < ml_quantity x)
            \<or> 0 < po_balance s))"
proof -
  have i: "po_id s = i" using findOrder_mem [OF assms] by simp
  have m: "assertOrderTransition a b = (if b \<in> set (ORDER_TRANSITIONS a) then Inr () else Inl (AppException Conflict))" for a b
    by (simp add: assertOrderTransition_def)
  have c: "assertCloseable s company db = Inl e \<longleftrightarrow> e = AppException Conflict
      \<and> (\<not> (\<exists>g \<in> set (goodsReceipts db). gr_order g = i \<and> gr_company g = company)
         \<or> (\<exists>x \<in> set (itemsOfOrder i db).
              handledBy (\<lambda>g. gr_order g = i \<and> gr_company g = company) (pw_id x) db < ml_quantity x)
         \<or> 0 < po_balance s)"
    by (auto simp: assertCloseable_def i js_num_above_eps filter_empty_conv Let_def)
  have cl: "closeOrder i company user why now db = Inl e \<longleftrightarrow>
      (e = AppException Conflict \<and> \<not> isReleasedStatus (po_status s))
      \<or> (isReleasedStatus (po_status s) \<and> assertCloseable s company db = Inl e)"
    using assms by (cases "po_status s")
      (auto simp: closeOrder_def andThen_Inl_iff m ORDER_TRANSITIONS_def isReleasedStatus_def Let_def)
  have "closeOrder i company user why now db = Inl e
        \<longleftrightarrow> e = AppException Conflict
          \<and> (\<not> isReleasedStatus (po_status s) \<or> \<not> (\<exists>g \<in> set (goodsReceipts db). gr_order g = i \<and> gr_company g = company)
            \<or> (\<exists>x \<in> set (itemsOfOrder i db).
                handledBy (\<lambda>g. gr_order g = i \<and> gr_company g = company) (pw_id x) db < ml_quantity x)
            \<or> 0 < po_balance s)"
    unfolding cl c by blast
  moreover have "submitOrder i company user now db = Inl e \<longleftrightarrow> e = AppException Conflict \<and> po_status s \<noteq> PoDraft"
    "approveOrder i company user now db = Inl e
        \<longleftrightarrow> e = AppException Conflict \<and> po_status s \<notin> {PoDraft, PoSubmitted}"
    "confirmOrder i company user now db = Inl e
        \<longleftrightarrow> e = AppException Conflict \<and> po_status s \<notin> {PoDraft, PoSubmitted}"
    "rejectOrder i company user reason now db = Inl e
        \<longleftrightarrow> e = AppException Conflict \<and> po_status s \<noteq> PoSubmitted"
    "cancelOrder i company user db = Inl e
        \<longleftrightarrow> e = AppException Conflict
          \<and> ((\<exists>g \<in> set (goodsReceipts db). gr_order g = i) \<or> po_status s \<notin> {PoDraft, PoSubmitted})"
    using assms by (cases "po_status s";
      auto simp: submitOrder_def approveOrder_def confirmOrder_def rejectOrder_def cancelOrder_def m
        ORDER_TRANSITIONS_def filter_empty_conv Let_def)+
  ultimately show ?thesis by blast
qed

text \<open>C22: what the operations on an order refuse, always with a conflict and whatever the caller: submitting
  anything but a draft, approving and confirming anything but a draft or a submitted order, rejecting anything
  but a submitted one, cancelling an order with a receipt or in any other state than those two, and closing an
  order that is not released, of which nothing was received, of which an item is still open, or on which anything
  is left to pay. A draft is confirmed, and a draft without receipts is cancelled, with nothing else changed in
  the tables.\<close>

theorem order_refusals:
  assumes "findOrder i company db = Inr s"
  shows "(po_status s \<noteq> PoDraft \<longrightarrow> submitOrder i company user now db = Inl (AppException Conflict))
    \<and> (po_status s \<notin> {PoDraft, PoSubmitted} \<longrightarrow> approveOrder i company user now db = Inl (AppException Conflict)
        \<and> confirmOrder i company user now db = Inl (AppException Conflict))
    \<and> (po_status s \<noteq> PoSubmitted \<longrightarrow> rejectOrder i company user reason now db = Inl (AppException Conflict))
    \<and> ((\<exists>g \<in> set (goodsReceipts db). gr_order g = i) \<or> po_status s \<notin> {PoDraft, PoSubmitted}
        \<longrightarrow> cancelOrder i company user db = Inl (AppException Conflict))
    \<and> (\<not> isReleasedStatus (po_status s) \<or> \<not> (\<exists>g \<in> set (goodsReceipts db). gr_order g = i \<and> gr_company g = company)
          \<or> (\<exists>x \<in> set (itemsOfOrder i db).
              handledBy (\<lambda>g. gr_order g = i \<and> gr_company g = company) (pw_id x) db < ml_quantity x)
          \<or> 0 < po_balance s
        \<longrightarrow> closeOrder i company user why now db = Inl (AppException Conflict))
    \<and> (po_status s = PoDraft \<longrightarrow> (\<exists>r. confirmOrder i company user now db = Inr (r, saveOrder r db) \<and> po_status r = PoConfirmed))
    \<and> (po_status s = PoDraft \<and> \<not> (\<exists>g \<in> set (goodsReceipts db). gr_order g = i)
        \<longrightarrow> cancelOrder i company user db = Inr (s\<lparr>po_status := PoCancelled, po_updatedBy := user\<rparr>,
              saveOrder (s\<lparr>po_status := PoCancelled, po_updatedBy := user\<rparr>) db))"
proof -
  note e = order_errors [OF assms, of user now "AppException Conflict" reason why]
  have "\<exists>r. confirmOrder i company user now db = Inr (r, saveOrder r db) \<and> po_status r = PoConfirmed"
    if "po_status s = PoDraft"
    by (simp add: confirmOrder_def assms that assertOrderTransition_def ORDER_TRANSITIONS_def Let_def)
  moreover have "cancelOrder i company user db = Inr (s\<lparr>po_status := PoCancelled, po_updatedBy := user\<rparr>,
      saveOrder (s\<lparr>po_status := PoCancelled, po_updatedBy := user\<rparr>) db)"
    if "po_status s = PoDraft" "\<not> (\<exists>g \<in> set (goodsReceipts db). gr_order g = i)"
    using that(2)
    by (simp add: cancelOrder_def assms that(1) assertOrderTransition_def ORDER_TRANSITIONS_def Let_def filter_empty_conv)
  ultimately show ?thesis using e by blast
qed

theorem order_refusals_witness:
  "submitOrder 114 1 8 ((2026, 3, 3), 0) demo_purchase2 = Inl (AppException Conflict)
    \<and> cancelOrder 114 1 8 demo_purchase2 = Inl (AppException Conflict)
    \<and> closeOrder 114 1 8 None ((2026, 3, 3), 0) demo_purchase2 = Inl (AppException Conflict)
    \<and> (\<exists>r. confirmOrder 114 1 8 ((2026, 3, 3), 0) demo_purchase1 = Inr (r, saveOrder r demo_purchase1))"
proof -
  have f: "findOrder 114 1 demo_purchase2 = Inr demo_approved" "findOrder 114 1 demo_purchase1 = Inr demo_order"
    by (simp_all add: findOrder_def demo_purchase2_def demo_purchase1_def demo_approved_def demo_order_def)
  have st: "po_status demo_approved = PoApproved" "po_status demo_order = PoDraft" "0 < po_balance demo_approved"
    by (simp_all add: demo_approved_def demo_order_def)
  from order_refusals [OF f(1), of 8 "((2026, 3, 3), 0)" _ None] order_refusals [OF f(2), of 8 "((2026, 3, 3), 0)"]
  show ?thesis unfolding st by (metis insertE empty_iff order_status.distinct st(3))
qed

section \<open>Receipts\<close>

definition demo_receipt_dto :: receipt_dto where
  "demo_receipt_dto = \<lparr>gc_order = 114, gc_warehouse = 2, gc_date = None, gc_items =
     [\<lparr>gd_orderItem = 115, gd_variant = 20, gd_received = 2, gd_rejected = Some 1\<rparr>]\<rparr>"

definition demo_receipt :: goods_receipt where
  "demo_receipt = \<lparr>gr_id = 116, gr_number = formatDocumentNumber ''GR'' 2026 1, gr_order = 114, gr_warehouse = 2,
     gr_supplier = 7, gr_company = 1, gr_date = ((2026, 3, 5), 0), gr_receivedBy = 9\<rparr>"

definition demo_receipt_row :: receipt_row where
  "demo_receipt_row = \<lparr>gi_orderItem = 115, gi_variant = 20, gi_uom = Some 30, gi_received = 2, gi_rejected = 1,
     gi_factor = 10000, gi_baseReceived = 2, gi_baseRejected = 1\<rparr>"

definition demo_purchase3 :: purchase_db where
  "demo_purchase3 = demo_purchase2\<lparr>goodsReceipts := [demo_receipt],
     receiptItems := [receipt_row.extend demo_receipt_row \<lparr>gi_id = 117, gi_receipt = 116\<rparr>],
     receiptCounters := [(1, 2026) \<mapsto> 1], rowIds := 119,
     warehouseStock := [(2, 20) \<mapsto> \<lparr>onHandQuantity = 7, reservedQuantity = 0\<rparr>],
     stockMovements := stockMovements demo_shop1 @ [\<lparr>mv_id = 118, mv_warehouse = 2, mv_variant = 20,
        mv_type = PurchaseReceipt, mv_change = 2, mv_after = 7, mv_refType = RefGoodsReceipt, mv_refId = 116,
        mv_createdAt = ((2026, 3, 5), 0), mv_createdBy = Some 9\<rparr>]\<rparr>"

lemma demo_purchase2_tables:
  "purchaseOrders demo_purchase2 = [demo_approved]" "orderItems demo_purchase2 = [demo_order_item]"
  "receiptItems demo_purchase2 = []" "goodsReceipts demo_purchase2 = []" "receiptCounters demo_purchase2 = Map.empty"
  "rowIds demo_purchase2 = 116"
  "warehouseStock demo_purchase2 = [(2, 20) \<mapsto> \<lparr>onHandQuantity = 5, reservedQuantity = 0\<rparr>]"
  "stockMovements demo_purchase2 = stockMovements demo_shop1"
  by (simp_all add: demo_purchase2_def demo_purchase1_def demo_purchase0_tables demo_shop1_def demo_shop_def)

lemma demo_receivable:
  "wh_branch wh = 8 \<Longrightarrow> receivableOrder demo_receipt_dto wh 1 demo_purchase2 = Inr demo_approved"
  by (simp add: receivableOrder_def demo_receipt_dto_def findOrder_def demo_purchase2_tables demo_approved_def
      demo_order_def)

lemma demo_receiptRow:
  assumes "orderItems db = [demo_order_item]" "receiptItems db = []"
  shows "receiptRow demo_catalog 1 114 \<lparr>gd_orderItem = 115, gd_variant = 20, gd_received = 2, gd_rejected = Some 1\<rparr> db
    = Inr demo_receipt_row"
  using computeReceiptBaseQuantity_exact [of 2 10000] computeReceiptBaseQuantity_exact [of 1 10000]
  by (simp add: receiptRow_def assms demo_order_item_def demo_catalog_def demo_catalog1_def demo_catalog0_def
      demo_variant_def priorHandled_def rejectedQuantity_def Let_def demo_receipt_row_def)

lemma demo_createReceipt:
  "createReceipt demo_org_buy demo_catalog 1 9 demo_receipt_dto ((2026, 3, 5), 0) demo_purchase2
    = Inr (demo_receipt, demo_purchase3)"
proof -
  have w: "findWarehouse demo_org_buy 2 = Inr \<lparr>wh_company = 1, wh_branch = 8, wh_status = Active\<rparr>"
    by (simp add: findWarehouse_def demo_org_buy_def demo_org_shop_def demo_org_wh_def)
  have g: "generateReceiptNumber 1 2026 demo_purchase2
      = (formatDocumentNumber ''GR'' 2026 1, demo_purchase2\<lparr>receiptCounters := [(1, 2026) \<mapsto> 1]\<rparr>)"
    by (simp add: generateReceiptNumber_def next_sequence_eq last_sequence_def demo_purchase2_tables)
  have items: "gc_items demo_receipt_dto = [\<lparr>gd_orderItem = 115, gd_variant = 20, gd_received = 2, gd_rejected = Some 1\<rparr>]"
    "gc_order demo_receipt_dto = 114" "gc_warehouse demo_receipt_dto = 2" "gc_date demo_receipt_dto = None"
    by (simp_all add: demo_receipt_dto_def)
  show ?thesis
    by (simp add: createReceipt_def w items createReceiptTx_def demo_receivable getUTCFullYear_def g receiveItem_def
        demo_receiptRow demo_purchase2_tables Let_def del: One_nat_def)
      (simp add: demo_receipt_row_def increaseStock_def lockWarehouseStockRow_def demo_purchase2_tables updateOnHand_def
        finishItem_def logReceipt_def insertReceiptItem_def saveMovement_def demo_receipt_def demo_purchase3_def
        demo_approved_def demo_order_def Let_def receipt_row.defs)
qed

text \<open>A receipt adds to the stock exactly the received quantities in base units: the rows checked
  against the order are stored as its items, every stock row changes by their received base quantities and
  nothing else, and the movements sum to the same amounts and carry the final balance of their row.\<close>

theorem receipt_adds_stock:
  assumes "createReceipt org cat company user dto now db = Inr (g, db')"
  shows "\<exists>rows ms. list_all2 (\<lambda>i r. receiptRow cat company (gc_order dto) i db = Inr r)
        (sort_key gd_orderItem (gc_items dto)) rows
    \<and> map receipt_row.truncate (drop (length (receiptItems db)) (receiptItems db')) = rows
    \<and> (\<forall>w v. level db' w v = level db w v + lineDelta (gc_warehouse dto) gi_variant receivedBase rows w v)
    \<and> stockMovements db' = stockMovements db @ ms
    \<and> (\<forall>w v. movementSum ms w v = lineDelta (gc_warehouse dto) gi_variant receivedBase rows w v)
    \<and> (\<forall>m \<in> set ms. mv_after m = level db' (mv_warehouse m) (mv_variant m))"
proof -
  from createReceipt_laws [OF assms] obtain rows ms new where
    r: "list_all2 (\<lambda>i r. receiptRow cat company (gc_order dto) i db = Inr r) (sort_key gd_orderItem (gc_items dto)) rows"
      "logs db db' ms" "\<forall>x v. movementSum ms x v = lineDelta (gc_warehouse dto) gi_variant receivedBase rows x v"
      "\<forall>m \<in> set ms. mv_after m = level db' (mv_warehouse m) (mv_variant m)"
      "receiptItems db' = receiptItems db @ new" "map receipt_row.truncate new = rows" by blast
  then show ?thesis by (intro exI [of _ rows] exI [of _ ms]) (simp add: logs_def)
qed

theorem receipt_adds_stock_witness:
  "\<exists>rows. level demo_purchase3 2 20 = level demo_purchase2 2 20 + lineDelta 2 gi_variant receivedBase rows 2 20
    \<and> rows = [demo_receipt_row]"
proof -
  from receipt_adds_stock [OF demo_createReceipt] obtain rows where
    "map receipt_row.truncate (drop (length (receiptItems demo_purchase2)) (receiptItems demo_purchase3)) = rows"
    "level demo_purchase3 2 20 = level demo_purchase2 2 20
      + lineDelta (gc_warehouse demo_receipt_dto) gi_variant receivedBase rows 2 20" by blast
  moreover have "map receipt_row.truncate (receiptItems demo_purchase3) = [demo_receipt_row]"
    by (simp add: demo_purchase3_def demo_receipt_row_def receipt_row.defs)
  ultimately show ?thesis by (simp add: demo_purchase2_tables demo_receipt_dto_def)
qed

text \<open>C23: no order item is ever handled beyond its ordered quantity, as long as each receipt names an order
  item at most once: whatever orders and such receipts are created and whatever else is done with the orders, one
  request after the other, the quantities received and rejected stay within the order. A receipt that names an
  item twice is not covered, and it can receive the item twice (\<open>duplicate_lines_over_receive\<close>).\<close>

theorem receipts_within_order:
  assumes "purchase_step\<^sup>*\<^sup>* db db'" and "purchase_ok db" and "x \<in> set (orderItems db')"
  shows "0 \<le> priorHandled (pw_id x) db' \<and> priorHandled (pw_id x) db' \<le> ml_quantity x"
proof -
  have ok: "purchase_ok db'" using purchase_steps_ok [OF assms(1,2)] by simp
  have "0 \<le> priorHandled (pw_id x) db'"
    unfolding priorHandled_def using ok by (intro sum_list_nonneg_map) (auto simp: purchase_ok_def)
  with ok assms(3) show ?thesis by (simp add: purchase_ok_def)
qed

lemma demo_purchase3_steps: "purchase_step\<^sup>*\<^sup>* demo_purchase0 demo_purchase3"
  using demo_purchase_steps purchase_step.receive [OF demo_createReceipt]
  by (simp add: receipt_request_ok_def demo_receipt_dto_def rejectedQuantity_def)

theorem receipts_within_order_witness:
  "priorHandled 115 demo_purchase3 = 3 \<and> priorHandled 115 demo_purchase3 \<le> 3"
  using receipts_within_order [OF demo_purchase3_steps demo_purchase_ok, of demo_order_item]
  by (simp add: demo_purchase3_def demo_purchase2_tables)
    (simp add: demo_order_item_def priorHandled_def demo_receipt_row_def receipt_row.defs)

text \<open>The check counts the stored receipts only, so two lines of one order item in a request are received
  twice: six of three pieces.\<close>

lemma duplicate_lines_over_receive:
  "\<exists>g db. createReceipt demo_org_buy demo_catalog 1 9 \<lparr>gc_order = 114, gc_warehouse = 2, gc_date = None, gc_items =
        [\<lparr>gd_orderItem = 115, gd_variant = 20, gd_received = 2, gd_rejected = Some 1\<rparr>,
         \<lparr>gd_orderItem = 115, gd_variant = 20, gd_received = 2, gd_rejected = Some 1\<rparr>]\<rparr>
        ((2026, 3, 5), 0) demo_purchase2 = Inr (g, db)
    \<and> priorHandled 115 db = 6 \<and> map ml_quantity (orderItems db) = [3]"
proof -
  let ?dto = "\<lparr>gc_order = 114, gc_warehouse = 2, gc_date = None, gc_items =
        [\<lparr>gd_orderItem = 115, gd_variant = 20, gd_received = 2, gd_rejected = Some 1\<rparr>,
         \<lparr>gd_orderItem = 115, gd_variant = 20, gd_received = 2, gd_rejected = Some 1\<rparr>]\<rparr>"
  have w: "findWarehouse demo_org_buy 2 = Inr \<lparr>wh_company = 1, wh_branch = 8, wh_status = Active\<rparr>"
    by (simp add: findWarehouse_def demo_org_buy_def demo_org_shop_def demo_org_wh_def)
  have r: "receivableOrder ?dto wh 1 demo_purchase2 = Inr demo_approved" if "wh_branch wh = 8" for wh
    using demo_receivable [OF that] by (simp add: receivableOrder_def demo_receipt_dto_def)
  have s: "sort_key gd_orderItem (gc_items ?dto) = gc_items ?dto" by (simp add: insort_key_def)
  show ?thesis
    by (simp add: createReceipt_def w createReceiptTx_def r s generateReceiptNumber_def next_sequence_eq receiveItem_def
        demo_receiptRow demo_purchase2_tables increaseStock_laws stock_frame_purchase [OF increaseStock_laws(4)]
        Let_def del: One_nat_def)
      (simp add: demo_receipt_row_def increaseStock_def lockWarehouseStockRow_def demo_purchase2_tables updateOnHand_def
        finishItem_def logReceipt_def insertReceiptItem_def saveMovement_def demo_order_item_def
        priorHandled_def Let_def receipt_row.defs)
qed

text \<open>C24: an order is closed only when it is complete: something was received, of every item exactly the
  ordered quantity was received or rejected, and nothing is left to pay.\<close>

theorem closed_order_complete:
  assumes "purchase_step\<^sup>*\<^sup>* db0 db" and "purchase_ok db0"
    and "closeOrder i company user why now db = Inr (r, db')"
  shows "\<exists>s. findOrder i company db = Inr s \<and> isReleasedStatus (po_status s) \<and> po_status r = PoClosed
    \<and> po_balance s \<le> 0 \<and> (\<exists>g \<in> set (goodsReceipts db). gr_order g = i)
    \<and> (\<forall>x \<in> set (itemsOfOrder i db). priorHandled (pw_id x) db = ml_quantity x)"
proof -
  from assms(3) obtain s where s: "findOrder i company db = Inr s"
    and m: "assertOrderTransition (po_status s) PoClosed = Inr ()"
    and c: "assertCloseable s company db = Inr ()" and r: "po_status r = PoClosed"
    by (auto simp: closeOrder_def Let_def)
  have i: "po_id s = i" using findOrder_mem [OF s] by simp
  have ok: "purchase_ok db" using purchase_steps_ok [OF assms(1,2)] by simp
  have le: "handledBy p k db \<le> priorHandled k db" for p k
  proof -
    let ?xs = "filter (\<lambda>x. gi_orderItem x = k) (receiptItems db)"
    let ?f = "\<lambda>x. gi_received x + gi_rejected x"
    have "handledBy p k db = sum_list (map ?f (filter (\<lambda>x. \<exists>g \<in> set (goodsReceipts db). p g \<and> gr_id g = gi_receipt x) ?xs))"
      by (simp add: handledBy_def conj_commute)
    also have "\<dots> \<le> sum_list (map ?f ?xs)" using ok by (intro sum_list_filter_le) (auto simp: purchase_ok_def)
    finally show ?thesis by (simp add: priorHandled_def)
  qed
  have "priorHandled (pw_id x) db = ml_quantity x" if x: "x \<in> set (itemsOfOrder i db)" for x
  proof (rule order_antisym)
    show "priorHandled (pw_id x) db \<le> ml_quantity x" using ok x by (simp add: purchase_ok_def itemsOfOrder_def)
    have "\<not> handledBy (\<lambda>g. gr_order g = i \<and> gr_company g = company) (pw_id x) db < ml_quantity x"
      using c x by (auto simp: assertCloseable_def i Let_def split: if_splits)
    with le show "ml_quantity x \<le> priorHandled (pw_id x) db" by (meson not_less order_trans)
  qed
  moreover have "isReleasedStatus (po_status s)"
    using m by (cases "po_status s") (auto simp: assertOrderTransition_def ORDER_TRANSITIONS_def isReleasedStatus_def)
  moreover have "po_balance s \<le> 0" "\<exists>g \<in> set (goodsReceipts db). gr_order g = i"
    using c by (auto simp: assertCloseable_def i js_num_above_eps filter_empty_conv Let_def split: if_splits)
  ultimately show ?thesis using s r by blast
qed

definition demo_paid_order :: purchase_order where
  "demo_paid_order = demo_approved\<lparr>po_paid := 3550, po_balance := 0, po_updatedBy := 9\<rparr>"

definition demo_purchase4 :: purchase_db where
  "demo_purchase4 = demo_purchase3\<lparr>purchaseOrders := [demo_paid_order]\<rparr>"

lemma demo_payOrder: "applyOrderPayment 114 1 (js_num 3550) 9 demo_purchase3 = Inr demo_purchase4"
proof -
  have "\<not> exceeds (js_add (js_num 0) (js_num 3550)) (js_num 3550)" by (rule not_exceeds_within) simp_all
  moreover have "to_fixed2 (js_add (js_num 0) (js_num 3550)) = 3550"
    using newPaid_exact [of 0 3550 "10 ^ 8"] by (simp add: fits_def)
  moreover have "to_fixed2 (js_sub (js_num 3550) (js_add (js_num 0) (js_num 3550))) = 0"
    using newBalance_exact [of 0 3550 "10 ^ 8" 3550] by (simp add: fits_def)
  ultimately show ?thesis
    by (simp add: applyOrderPayment_def findOrder_def demo_purchase3_def demo_purchase2_tables demo_approved_def
        demo_order_def isReleasedStatus_def saveOrder_def demo_purchase4_def demo_paid_order_def Let_def)
qed

lemma demo_closeOrder:
  "\<exists>r db'. closeOrder 114 1 9 None ((2026, 3, 9), 0) demo_purchase4 = Inr (r, db') \<and> po_status r = PoClosed"
proof -
  have "findOrder 114 1 demo_purchase4 = Inr demo_paid_order"
    by (simp add: findOrder_def demo_purchase4_def demo_paid_order_def demo_approved_def demo_order_def)
  moreover have "assertCloseable demo_paid_order 1 demo_purchase4 = Inr ()"
    using js_num_above_eps [of 0]
    by (simp add: assertCloseable_def demo_purchase4_def demo_purchase3_def demo_purchase2_tables itemsOfOrder_def
        handledBy_def demo_paid_order_def demo_approved_def demo_order_def demo_order_item_def demo_receipt_def
        demo_receipt_row_def receipt_row.defs)
  ultimately show ?thesis
    by (simp add: closeOrder_def assertOrderTransition_def ORDER_TRANSITIONS_def demo_paid_order_def demo_approved_def
        Let_def)
qed

theorem closed_order_complete_witness:
  "priorHandled 115 demo_purchase4 = 3 \<and> \<not> isl (closeOrder 114 1 9 None ((2026, 3, 9), 0) demo_purchase4)"
proof -
  obtain r db' where c: "closeOrder 114 1 9 None ((2026, 3, 9), 0) demo_purchase4 = Inr (r, db')"
    using demo_closeOrder by blast
  have "purchase_step\<^sup>*\<^sup>* demo_purchase0 demo_purchase4"
    using demo_purchase3_steps purchase_step.pay [OF demo_payOrder] by simp
  from closed_order_complete [OF this demo_purchase_ok c]
  have "\<forall>x \<in> set (itemsOfOrder 114 demo_purchase4). priorHandled (pw_id x) demo_purchase4 = ml_quantity x" by blast
  moreover have "itemsOfOrder 114 demo_purchase4 = [demo_order_item]"
    by (simp add: itemsOfOrder_def demo_purchase4_def demo_purchase3_def demo_purchase2_tables demo_order_item_def)
  ultimately show ?thesis using c by (simp add: demo_order_item_def)
qed

end
