(* ===== verification/Calendar.thy ===== *)
theory Calendar
  imports Organization
begin

text \<open>
  Calendar arithmetic of JavaScript dates in UTC: the successor of a day, \<open>setUTCDate(getUTCDate() + n)\<close>
  and \<open>getTime()\<close> in milliseconds from a fixed day. The lemma \<open>getTime_addUTCDays\<close> says that adding
  \<open>n\<close> days moves the instant by exactly \<open>n\<close> times 24 hours, over the ends of months and leap years.
\<close>

definition leap_year :: "nat \<Rightarrow> bool" where
  "leap_year y \<longleftrightarrow> 4 dvd y \<and> (\<not> 100 dvd y \<or> 400 dvd y)"

definition days_in_month :: "nat \<Rightarrow> nat \<Rightarrow> nat" where
  "days_in_month y m =
     (if m = 2 then (if leap_year y then 29 else 28) else if m \<in> {4, 6, 9, 11} then 30 else 31)"

fun next_day :: "day \<Rightarrow> day" where
  "next_day (y, m, d) =
     (if d < days_in_month y m then (y, m, Suc d) else if m < 12 then (y, Suc m, 1) else (Suc y, 1, 1))"

definition addUTCDays :: "jdate \<Rightarrow> nat \<Rightarrow> jdate" where
  "addUTCDays d n = ((next_day ^^ n) (fst d), snd d)"

text \<open>Days and milliseconds since the first day of the year 1.\<close>

definition days_before_year :: "nat \<Rightarrow> nat" where
  "days_before_year y = 365 * (y - 1) + (y - 1) div 4 + (y - 1) div 400 - (y - 1) div 100"

fun day_number :: "day \<Rightarrow> nat" where
  "day_number (y, m, d) = days_before_year y + sum_list (map (days_in_month y) [1..<m]) + d"

definition getTime :: "jdate \<Rightarrow> nat" where
  "getTime d = day_number (fst d) * 86400000 + snd d"

fun real_day :: "day \<Rightarrow> bool" where
  "real_day (y, m, d) = (1 \<le> y \<and> 1 \<le> m \<and> m \<le> 12 \<and> 1 \<le> d \<and> d \<le> days_in_month y m)"

lemma leap_step: "(Suc n) div k = n div k + (if k dvd Suc n then 1 else 0)" for n k :: nat
  by (simp add: div_Suc dvd_eq_mod_eq_0)

lemma days_before_next:
  assumes "1 \<le> y"
  shows "days_before_year (Suc y) = days_before_year y + 365 + (if leap_year y then 1 else 0)"
proof -
  obtain n where y: "y = Suc n" using assms by (cases y) auto
  have le: "n div 100 \<le> n div 4" by (rule div_le_mono2) simp_all
  have key: "365 * Suc n + (a + i) + (c + k) - (b + j) = 365 * n + a + c - b + 365 + (i + k - j)"
    if "b \<le> a" "j \<le> i + k" for a b c i j k :: nat
    using that by simp
  have "(100 dvd Suc n \<longrightarrow> 4 dvd Suc n) \<and> (400 dvd Suc n \<longrightarrow> 100 dvd Suc n)"
    using dvd_trans [of 4 100 "Suc n"] dvd_trans [of 100 400 "Suc n"] by simp
  then have leap: "(if leap_year (Suc n) then 1 else 0) = (if 4 dvd Suc n then 1 else 0)
      + (if 400 dvd Suc n then 1 else 0) - (if 100 dvd Suc n then 1 else 0 :: nat)"
    and j: "(if 100 dvd Suc n then 1 else 0) \<le> (if 4 dvd Suc n then 1 else 0) + (if 400 dvd Suc n then 1 else 0 :: nat)"
    by (cases "4 dvd Suc n"; cases "100 dvd Suc n"; cases "400 dvd Suc n"; simp add: leap_year_def)+
  show ?thesis
    unfolding days_before_year_def y diff_Suc_1 leap_step leap by (rule key [OF le j])
qed

lemma days_of_year:
  "sum_list (map (days_in_month y) [1..<12]) + 31 = 365 + (if leap_year y then 1 else 0)"
proof -
  have "[1..<12] = [1, 2, 3, 4, 5, 6, 7, 8, 9, 10, 11 :: nat]" by (simp add: upt_rec)
  then show ?thesis by (simp add: days_in_month_def)
qed

lemma real_next_day: "real_day x \<Longrightarrow> real_day (next_day x)"
  by (cases x) (auto simp: days_in_month_def)

lemma day_number_next:
  assumes "real_day x"
  shows "day_number (next_day x) = Suc (day_number x)"
proof -
  obtain y m d where x: "x = (y, m, d)" by (cases x)
  have "m < 12 \<or> m = 12" using assms by (auto simp: x)
  then consider "d < days_in_month y m" | "\<not> d < days_in_month y m" "m < 12" | "\<not> d < days_in_month y m" "m = 12"
    by blast
  then show ?thesis
  proof cases
    case 2
    then have "[1..<Suc m] = [1..<m] @ [m]" "d = days_in_month y m" using assms by (auto simp: x)
    then show ?thesis using 2 by (simp add: x)
  next
    case 3
    then have "d = 31" using assms by (auto simp: x days_in_month_def)
    then show ?thesis
      using 3 assms days_of_year [of y] by (simp add: x days_before_next days_in_month_def)
  qed (simp add: x)
qed

lemma getTime_addUTCDays:
  assumes "real_day (fst d)"
  shows "real_day (fst (addUTCDays d n))" "getTime (addUTCDays d n) = getTime d + n * 86400000"
proof -
  have "real_day ((next_day ^^ n) (fst d)) \<and> day_number ((next_day ^^ n) (fst d)) = day_number (fst d) + n"
    by (induction n) (use assms in \<open>auto simp: day_number_next real_next_day\<close>)
  then show "real_day (fst (addUTCDays d n))" "getTime (addUTCDays d n) = getTime d + n * 86400000"
    by (simp_all add: addUTCDays_def getTime_def algebra_simps)
qed

section \<open>Counting days\<close>

lemma days_of_months: "sum_list (map (days_in_month y) [1..<13]) = 365 + (if leap_year y then 1 else 0)"
  using days_of_year [of y] by (simp add: days_in_month_def upt_rec)

lemma months_mono:
  assumes "1 \<le> m" "m < k"
  shows "sum_list (map (days_in_month y) [1..<m]) + days_in_month y m \<le> sum_list (map (days_in_month y) [1..<k])"
proof -
  have "[1..<k] = [1..<m] @ m # [Suc m..<k]" using assms upt_conv_Cons [of m k] upt_add_eq_append [of 1 m "k - m"] by simp
  then show ?thesis by simp
qed

lemma years_mono: "1 \<le> y \<Longrightarrow> y < z \<Longrightarrow> days_before_year (Suc y) \<le> days_before_year z"
proof (induction z)
  case (Suc z)
  then show ?case using days_before_next [of z] by (cases "y = z") auto
qed simp

lemma within_year:
  assumes "real_day (y, m, d)"
  shows "days_before_year y < day_number (y, m, d)" "day_number (y, m, d) \<le> days_before_year (Suc y)"
proof -
  show "days_before_year y < day_number (y, m, d)" using assms by simp
  have "sum_list (map (days_in_month y) [1..<m]) + days_in_month y m \<le> sum_list (map (days_in_month y) [1..<13])"
    by (rule months_mono) (use assms in auto)
  then show "day_number (y, m, d) \<le> days_before_year (Suc y)"
    using assms days_of_months [of y] by (simp add: days_before_next del: upt_Suc)
qed

lemma day_number_less:
  assumes "real_day a" "real_day b" "\<not> day_le b a"
  shows "day_number a < day_number b"
proof -
  obtain y m d where a: "a = (y, m, d)" by (cases a)
  obtain y' m' d' where b: "b = (y', m', d')" by (cases b)
  from assms(3) consider "y < y'" | "y = y'" "m < m'" | "y = y'" "m = m'" "d < d'" unfolding a b by (fastforce simp: not_le)
  then show ?thesis
  proof cases
    case 1
    then show ?thesis using within_year assms(1,2) years_mono [of y y'] unfolding a b by fastforce
  next
    case 2
    then show ?thesis using months_mono [of m m' y] assms(1,2) by (simp add: a b)
  qed (simp add: a b)
qed

lemma day_le_iff: "real_day a \<Longrightarrow> real_day b \<Longrightarrow> day_le a b \<longleftrightarrow> day_number a \<le> day_number b"
  using day_number_less [of b a] day_number_less [of a b] day_le_antisym [of a b] by fastforce

lemma day_number_inj: "real_day a \<Longrightarrow> real_day b \<Longrightarrow> day_number a = day_number b \<Longrightarrow> a = b"
  using day_le_iff [of a b] day_le_iff [of b a] day_le_antisym [of a b] by simp

lemma next_days:
  assumes "real_day s"
  shows "real_day ((next_day ^^ n) s)" "day_number ((next_day ^^ n) s) = day_number s + n"
  using getTime_addUTCDays [of "(s, 0)" n] assms by (simp_all add: addUTCDays_def getTime_def)

definition days_between :: "day \<Rightarrow> day \<Rightarrow> day set" where
  "days_between s e = {x. real_day x \<and> day_le s x \<and> day_le x e}"

lemma card_days_between:
  assumes "real_day s" "real_day e"
  shows "finite (days_between s e)" "card (days_between s e) = day_number e + 1 - day_number s"
proof -
  have b: "bij_betw day_number (days_between s e) {day_number s..day_number e}"
    unfolding bij_betw_def
  proof
    show "inj_on day_number (days_between s e)" unfolding inj_on_def days_between_def using day_number_inj by blast
    show "day_number ` days_between s e = {day_number s..day_number e}"
    proof
      show "day_number ` days_between s e \<subseteq> {day_number s..day_number e}"
        using assms by (auto simp: days_between_def day_le_iff simp del: real_day.simps day_number.simps day_le.simps)
      show "{day_number s..day_number e} \<subseteq> day_number ` days_between s e"
      proof
        fix n assume n: "n \<in> {day_number s..day_number e}"
        let ?x = "(next_day ^^ (n - day_number s)) s"
        have "real_day ?x" "day_number ?x = n" using next_days [OF assms(1)] n by simp_all
        then show "n \<in> day_number ` days_between s e" using assms n by (force simp: days_between_def day_le_iff simp del: real_day.simps day_number.simps day_le.simps)
      qed
    qed
  qed
  show "finite (days_between s e)" using bij_betw_finite [OF b] by simp
  show "card (days_between s e) = day_number e + 1 - day_number s" using bij_betw_same_card [OF b] by simp
qed

end
