(* ===== verification/Payables.thy ===== *)
theory Payables
  imports Purchase_Properties Calendar
begin

text \<open>
  Accounts payable: the invoices of purchase orders (\<open>purchase/services/purchase-invoices.service.ts\<close>),
  which are created when they are first read, posted, voided, paid and unpaid, and the returns to
  suppliers (\<open>purchase/services/purchase-returns.service.ts\<close>), which take goods out of the stock and
  credit the invoice. \<open>post\<close> and \<open>void\<close> are one step after the synchronisation they start with; the
  synchronisation is committed even when the operation behind it is refused.
\<close>

section \<open>Tables\<close>

datatype invoice_status = InvDraft | InvPosted | InvVoided

record purchase_invoice =
  iv_id :: id
  iv_number :: string
  iv_company :: id
  iv_supplier :: id
  iv_order :: id
  iv_date :: jdate
  iv_dueDate :: jdate
  iv_status :: invoice_status
  iv_subtotal :: int
  iv_discount :: int
  iv_tax :: int
  iv_grandTotal :: int
  iv_paid :: int
  iv_credited :: int
  iv_balance :: int
  iv_currency :: string
  iv_createdBy :: id
  iv_updatedBy :: id
  iv_postedAt :: "jdate option"
  iv_postedBy :: "id option"
  iv_voidedAt :: "jdate option"
  iv_voidedBy :: "id option"
  iv_voidReason :: "string option"

datatype purchase_return_status = PrDraft | PrCompleted | PrCancelled

record purchase_return_row =
  px_orderItem :: id
  px_variant :: id
  px_quantity :: int
  px_unitCost :: int
  px_lineTotal :: int
  px_productName :: string
  px_sku :: string

record purchase_return_item = purchase_return_row +
  px_id :: id
  px_return :: id

record purchase_return =
  prt_id :: id
  prt_number :: string
  prt_company :: id
  prt_branch :: "id option"
  prt_supplier :: id
  prt_order :: id
  prt_invoice :: id
  prt_status :: purchase_return_status
  prt_subtotal :: int
  prt_creditApplied :: int
  prt_supplierCredit :: int
  prt_currency :: string
  prt_createdBy :: id
  prt_completedBy :: "id option"
  prt_completedAt :: "jdate option"

record payables_db = purchase_db +
  purchaseInvoices :: "purchase_invoice list"
  purchaseReturns :: "purchase_return list"
  purchaseReturnItems :: "purchase_return_item list"
  purchaseReturnCounters :: counters

definition buildDueDate :: "jdate \<Rightarrow> nat \<Rightarrow> jdate" where
  "buildDueDate invoiceDate creditDays = addUTCDays invoiceDate creditDays"

section \<open>Creating invoices on read\<close>

text \<open>\<open>replace(/^PO-/, 'PINV-')\<close>.\<close>

definition deriveInvoiceNumber :: "string \<Rightarrow> string" where
  "deriveInvoiceNumber s = (if take 3 s = ''PO-'' then ''PINV-'' @ drop 3 s else s)"

definition isReleasedPurchaseOrder :: "order_status \<Rightarrow> bool" where
  "isReleasedPurchaseOrder s \<longleftrightarrow> s = PoApproved \<or> s = PoConfirmed \<or> s = PoClosed"

definition receiptsOfOrder :: "id \<Rightarrow> id \<Rightarrow> 'a purchase_db_scheme \<Rightarrow> goods_receipt list" where
  "receiptsOfOrder company orderId db =
     filter (\<lambda>g. gr_company g = company \<and> gr_order g = orderId) (goodsReceipts db)"

definition draftInvoice ::
  "org_db \<Rightarrow> purchase_order \<Rightarrow> goods_receipt list \<Rightarrow> id \<Rightarrow> purchase_invoice" where
  "draftInvoice org o' receipts i =
     (let invoiceDate = (case sort_key date_key (map gr_date receipts) of [] \<Rightarrow> po_date o' | d # _ \<Rightarrow> d);
          creditDays = (case suppliers org (po_supplier o') of None \<Rightarrow> 0 | Some s \<Rightarrow> su_creditDays s)
      in \<lparr>iv_id = i, iv_number = deriveInvoiceNumber (po_number o'), iv_company = po_company o',
          iv_supplier = po_supplier o', iv_order = po_id o', iv_date = invoiceDate,
          iv_dueDate = buildDueDate invoiceDate creditDays, iv_status = InvDraft,
          iv_subtotal = po_subtotal o', iv_discount = po_discount o', iv_tax = po_tax o',
          iv_grandTotal = po_grandTotal o', iv_paid = po_paid o', iv_credited = 0,
          iv_balance = po_balance o', iv_currency = po_currency o', iv_createdBy = po_createdBy o',
          iv_updatedBy = po_updatedBy o', iv_postedAt = None, iv_postedBy = None, iv_voidedAt = None,
          iv_voidedBy = None, iv_voidReason = None\<rparr>)"

text \<open>The orders an invoice is still to be created for.\<close>

definition ordersToInvoice :: "id \<Rightarrow> id option \<Rightarrow> 'a payables_db_scheme \<Rightarrow> purchase_order list" where
  "ordersToInvoice company supplierId db =
     filter (\<lambda>o'. po_company o' = company \<and> isReleasedPurchaseOrder (po_status o')
         \<and> (supplierId = None \<or> supplierId = Some (po_supplier o'))
         \<and> receiptsOfOrder company (po_id o') db \<noteq> []
         \<and> \<not> (\<exists>v \<in> set (purchaseInvoices db). iv_company v = company \<and> iv_order v = po_id o'))
       (purchaseOrders db)"

definition insertInvoice ::
  "org_db \<Rightarrow> id \<Rightarrow> purchase_order \<Rightarrow> 'a payables_db_scheme \<Rightarrow> 'a payables_db_scheme result" where
  "insertInvoice org company o' db =
     (let v = draftInvoice org o' (receiptsOfOrder company (po_id o') db) (rowIds db)
      in if \<exists>x \<in> set (purchaseInvoices db). iv_company x = iv_company v \<and> iv_number x = iv_number v
         then Inl (DupEntry ''invoice_number'')
         else Inr (db\<lparr>purchaseInvoices := purchaseInvoices db @ [v], rowIds := rowIds db + 1\<rparr>))"

definition syncEligibleInvoices ::
  "org_db \<Rightarrow> id \<Rightarrow> id option \<Rightarrow> 'a payables_db_scheme \<Rightarrow> 'a payables_db_scheme result" where
  "syncEligibleInvoices org company supplierId db =
     forEach (insertInvoice org company) (ordersToInvoice company supplierId db) db"

text \<open>An operation behind a synchronisation.\<close>

definition afterSync ::
  "org_db \<Rightarrow> id \<Rightarrow> ('a payables_db_scheme \<Rightarrow> ('r \<times> 'a payables_db_scheme) result) \<Rightarrow> 'a payables_db_scheme
    \<Rightarrow> 'r result \<times> 'a payables_db_scheme" where
  "afterSync org company run db =
     (case syncEligibleInvoices org company None db of
        Inl e \<Rightarrow> (Inl e, db)
      | Inr db1 \<Rightarrow> (case run db1 of Inl e \<Rightarrow> (Inl e, db1) | Inr (r, db2) \<Rightarrow> (Inr r, db2)))"

section \<open>Reading, posting, voiding\<close>

definition findInvoice :: "id \<Rightarrow> id \<Rightarrow> 'a payables_db_scheme \<Rightarrow> purchase_invoice result" where
  "findInvoice i company db =
     orThrow (List.find (\<lambda>v. iv_id v = i \<and> iv_company v = company) (purchaseInvoices db)) (AppException NotFound)"

definition saveInvoice :: "purchase_invoice \<Rightarrow> 'a payables_db_scheme \<Rightarrow> 'a payables_db_scheme" where
  "saveInvoice v db =
     db\<lparr>purchaseInvoices := map (\<lambda>x. if iv_id x = iv_id v then v else x) (purchaseInvoices db)\<rparr>"

datatype invoice_payment_status = Paid | Partial | Overdue | Unpaid

definition resolvePaymentStatus :: "real \<Rightarrow> real \<Rightarrow> real \<Rightarrow> jdate \<Rightarrow> jdate \<Rightarrow> invoice_payment_status" where
  "resolvePaymentStatus amountPaid balanceAmount grand dueDate now =
     (if balanceAmount \<le> 0 then Paid
      else if 0 < amountPaid \<and> amountPaid < grand
      then (if date_key dueDate < date_key now then Overdue else Partial)
      else (if date_key dueDate < date_key now then Overdue else Unpaid))"

record invoice_response =
  vr_invoice :: purchase_invoice
  vr_receipts :: "id list"
  vr_paymentStatus :: invoice_payment_status

definition mapInvoice :: "purchase_invoice \<Rightarrow> goods_receipt list \<Rightarrow> jdate \<Rightarrow> invoice_response" where
  "mapInvoice v receipts now =
     \<lparr>vr_invoice = v, vr_receipts = map gr_id receipts,
      vr_paymentStatus = resolvePaymentStatus (js_num (iv_paid v)) (js_num (iv_balance v))
        (js_num (iv_grandTotal v)) (iv_dueDate v) now\<rparr>"

definition readInvoice ::
  "org_db \<Rightarrow> id \<Rightarrow> id \<Rightarrow> jdate \<Rightarrow> 'a payables_db_scheme \<Rightarrow> invoice_response result \<times> 'a payables_db_scheme" where
  "readInvoice org i company now =
     afterSync org company (\<lambda>db.
       andThen (findInvoice i company db) (\<lambda>v.
       Inr (mapInvoice v (receiptsOfOrder company (iv_order v) db) now, db)))"

definition postRun ::
  "id \<Rightarrow> id \<Rightarrow> id \<Rightarrow> jdate \<Rightarrow> 'a payables_db_scheme \<Rightarrow> (purchase_invoice \<times> 'a payables_db_scheme) result" where
  "postRun i company user now db =
     andThen (findInvoice i company db) (\<lambda>v.
     if iv_status v \<noteq> InvDraft then Inl (AppException Conflict)
     else andThen (findOrder (iv_order v) company db) (\<lambda>o'.
       if \<not> isReleasedPurchaseOrder (po_status o') then Inl (AppException Conflict)
       else if receiptsOfOrder company (iv_order v) db = [] then Inl (AppException Conflict)
       else let v' = v\<lparr>iv_status := InvPosted, iv_postedAt := Some now, iv_postedBy := Some user,
                     iv_updatedBy := user\<rparr>
            in Inr (v', saveInvoice v' db)))"

definition voidRun ::
  "id \<Rightarrow> id \<Rightarrow> id \<Rightarrow> string \<Rightarrow> jdate \<Rightarrow> 'a payables_db_scheme
    \<Rightarrow> (purchase_invoice \<times> 'a payables_db_scheme) result" where
  "voidRun i company user reason now db =
     andThen (findInvoice i company db) (\<lambda>v.
     if iv_status v = InvVoided then Inl (AppException Conflict)
     else if js_eps < js_num (iv_paid v) \<or> js_eps < js_num (iv_credited v) then Inl (AppException Conflict)
     else let v' = v\<lparr>iv_status := InvVoided, iv_voidedAt := Some now, iv_voidedBy := Some user,
                   iv_voidReason := Some reason, iv_balance := 0, iv_updatedBy := user\<rparr>
          in Inr (v', saveInvoice v' db))"

definition postInvoice ::
  "org_db \<Rightarrow> id \<Rightarrow> id \<Rightarrow> id \<Rightarrow> jdate \<Rightarrow> 'a payables_db_scheme
    \<Rightarrow> purchase_invoice result \<times> 'a payables_db_scheme" where
  "postInvoice org i company user now = afterSync org company (postRun i company user now)"

definition voidInvoice ::
  "org_db \<Rightarrow> id \<Rightarrow> id \<Rightarrow> id \<Rightarrow> string \<Rightarrow> jdate \<Rightarrow> 'a payables_db_scheme
    \<Rightarrow> purchase_invoice result \<times> 'a payables_db_scheme" where
  "voidInvoice org i company user reason now = afterSync org company (voidRun i company user reason now)"

section \<open>Applying and taking back a payment\<close>

text \<open>The payload written to the invoice and to its order.\<close>

definition settle ::
  "purchase_invoice \<Rightarrow> purchase_order \<Rightarrow> int \<Rightarrow> int \<Rightarrow> id \<Rightarrow> 'a payables_db_scheme \<Rightarrow> 'a payables_db_scheme" where
  "settle v o' paid balance user db =
     saveOrder (o'\<lparr>po_paid := paid, po_balance := balance, po_updatedBy := user\<rparr>)
       (saveInvoice (v\<lparr>iv_paid := paid, iv_balance := balance, iv_updatedBy := user\<rparr>) db)"

definition applyInvoicePayment ::
  "id \<Rightarrow> id \<Rightarrow> real \<Rightarrow> id \<Rightarrow> 'a payables_db_scheme \<Rightarrow> 'a payables_db_scheme result" where
  "applyInvoicePayment i company allocated user db =
     andThen (findInvoice i company db) (\<lambda>v.
     if iv_status v \<noteq> InvPosted then Inl (AppException Conflict)
     else andThen (findOrder (iv_order v) company db) (\<lambda>o'.
       let effectiveTotal = js_sub (js_num (iv_grandTotal v)) (js_num (iv_credited v));
           newPaid = js_add (js_num (iv_paid v)) allocated
       in if exceeds newPaid effectiveTotal then Inl (AppException Conflict)
          else let newBalance = js_sub effectiveTotal newPaid
               in Inr (settle v o' (to_fixed2 newPaid) (to_fixed2 newBalance) user db)))"

definition unapplyInvoicePayment ::
  "id \<Rightarrow> id \<Rightarrow> real \<Rightarrow> id \<Rightarrow> 'a payables_db_scheme \<Rightarrow> 'a payables_db_scheme result" where
  "unapplyInvoicePayment i company allocated user db =
     andThen (findInvoice i company db) (\<lambda>v.
     andThen (findOrder (iv_order v) company db) (\<lambda>o'.
       let newPaid = js_sub (js_num (iv_paid v)) allocated
       in if newPaid < - js_eps then Inl (AppException Conflict)
          else let effectiveTotal = js_sub (js_num (iv_grandTotal v)) (js_num (iv_credited v))
               in Inr (settle v o' (to_fixed2 (max 0 newPaid))
                    (to_fixed2 (js_sub effectiveTotal (max 0 newPaid))) user db)))"


section \<open>Returns to suppliers\<close>

record purchase_return_item_dto =
  pd_orderItem :: id
  pd_quantity :: int

record purchase_return_dto =
  pc_supplier :: id
  pc_invoice :: id
  pc_items :: "purchase_return_item_dto list"

definition generatePurchaseReturnNumber ::
  "id \<Rightarrow> nat \<Rightarrow> 'a payables_db_scheme \<Rightarrow> string \<times> 'a payables_db_scheme" where
  "generatePurchaseReturnNumber company year db =
     (let (nextSequence, t) = next_sequence company year (purchaseReturnCounters db)
      in (formatDocumentNumber ''PRTN'' year nextSequence, db\<lparr>purchaseReturnCounters := t\<rparr>))"

interpretation purchase_return_numbers:
  numbering generatePurchaseReturnNumber purchaseReturnCounters "''PRTN''"
  by unfold_locales (simp_all add: generatePurchaseReturnNumber_def next_sequence_eq)

text \<open>What the receipts of an order hold of an item, and what returns that are not cancelled took back.\<close>

definition receivedQuantity :: "id \<Rightarrow> id \<Rightarrow> id \<Rightarrow> 'a purchase_db_scheme \<Rightarrow> int" where
  "receivedQuantity orderId company i db =
     sum_list (map gi_received (filter (\<lambda>x. gi_orderItem x = i
       \<and> (\<exists>g \<in> set (goodsReceipts db). gr_id g = gi_receipt x \<and> gr_company g = company \<and> gr_order g = orderId))
       (receiptItems db)))"

definition getReturnedQuantityForOrderItem :: "id \<Rightarrow> 'a payables_db_scheme \<Rightarrow> int" where
  "getReturnedQuantityForOrderItem i db =
     sum_list (map px_quantity (filter (\<lambda>x. px_orderItem x = i
       \<and> (\<exists>r \<in> set (purchaseReturns db). prt_id r = px_return x \<and> prt_status r \<noteq> PrCancelled))
       (purchaseReturnItems db)))"

definition supplierReturnRow :: "order_item \<Rightarrow> purchase_return_item_dto \<Rightarrow> purchase_return_row" where
  "supplierReturnRow x dto =
     \<lparr>px_orderItem = pw_id x, px_variant = pw_variant x, px_quantity = pd_quantity dto,
      px_unitCost = ml_price x,
      px_lineTotal = to_fixed2 (js_mul (js_num (ml_price x)) (of_int (pd_quantity dto))),
      px_productName = pw_productName x, px_sku = pw_sku x\<rparr>"

text \<open>One turn of the item loop: the running subtotal and the rows so far.\<close>

definition supplierReturnItem ::
  "id \<Rightarrow> id \<Rightarrow> 'a payables_db_scheme \<Rightarrow> purchase_return_item_dto \<Rightarrow> real \<times> purchase_return_row list
    \<Rightarrow> (real \<times> purchase_return_row list) result" where
  "supplierReturnItem orderId company db dto st =
     andThen (orThrow (List.find (\<lambda>x. pw_id x = pd_orderItem dto \<and> pw_order x = orderId) (orderItems db))
       (AppException ValidationError)) (\<lambda>x.
     let received = receivedQuantity orderId company (pw_id x) db
     in if received \<le> 0 then Inl (AppException Conflict)
        else if received - getReturnedQuantityForOrderItem (pw_id x) db < pd_quantity dto
        then Inl (AppException Conflict)
        else Inr (js_add (fst st) (js_mul (js_num (ml_price x)) (of_int (pd_quantity dto))),
                  snd st @ [supplierReturnRow x dto]))"

definition insertPurchaseReturnItem ::
  "id \<Rightarrow> purchase_return_row \<Rightarrow> 'a payables_db_scheme \<Rightarrow> 'a payables_db_scheme" where
  "insertPurchaseReturnItem r row db =
     db\<lparr>purchaseReturnItems := purchaseReturnItems db
          @ [purchase_return_row.extend row \<lparr>px_id = rowIds db, px_return = r\<rparr>],
        rowIds := rowIds db + 1\<rparr>"

definition createPurchaseReturn ::
  "id \<Rightarrow> id \<Rightarrow> purchase_return_dto \<Rightarrow> jdate \<Rightarrow> 'a payables_db_scheme
    \<Rightarrow> (purchase_return \<times> 'a payables_db_scheme) result" where
  "createPurchaseReturn company user dto now db =
     andThen (orThrow (List.find (\<lambda>v. iv_id v = pc_invoice dto \<and> iv_company v = company) (purchaseInvoices db))
       (AppException ValidationError)) (\<lambda>v.
     if pc_supplier dto \<noteq> iv_supplier v then Inl (AppException ValidationError)
     else andThen (orThrow (List.find (\<lambda>o'. po_id o' = iv_order v \<and> po_company o' = company) (purchaseOrders db))
            (AppException ValidationError)) (\<lambda>o'.
          andThen (forEach (supplierReturnItem (po_id o') company db) (sort_key pd_orderItem (pc_items dto)) (0, []))
            (\<lambda>(subtotal, rows).
          let (number, db1) = generatePurchaseReturnNumber company (getUTCFullYear now) db;
              r = \<lparr>prt_id = rowIds db1, prt_number = number, prt_company = company, prt_branch = po_branch o',
                   prt_supplier = iv_supplier v, prt_order = po_id o', prt_invoice = iv_id v,
                   prt_status = PrDraft, prt_subtotal = to_fixed2 subtotal, prt_creditApplied = 0,
                   prt_supplierCredit = 0, prt_currency = iv_currency v, prt_createdBy = user,
                   prt_completedBy = None, prt_completedAt = None\<rparr>;
              db2 = db1\<lparr>purchaseReturns := purchaseReturns db1 @ [r], rowIds := rowIds db1 + 1\<rparr>
          in Inr (r, fold (insertPurchaseReturnItem (prt_id r)) rows db2))))"

definition findPurchaseReturn :: "id \<Rightarrow> id \<Rightarrow> 'a payables_db_scheme \<Rightarrow> purchase_return result" where
  "findPurchaseReturn i company db =
     orThrow (List.find (\<lambda>r. prt_id r = i \<and> prt_company r = company) (purchaseReturns db)) (AppException NotFound)"

definition savePurchaseReturn :: "purchase_return \<Rightarrow> 'a payables_db_scheme \<Rightarrow> 'a payables_db_scheme" where
  "savePurchaseReturn r db =
     db\<lparr>purchaseReturns := map (\<lambda>x. if prt_id x = prt_id r then r else x) (purchaseReturns db)\<rparr>"

text \<open>One turn of the stock loop.\<close>

definition sendBack ::
  "id \<Rightarrow> id \<Rightarrow> id \<Rightarrow> jdate \<Rightarrow> 'b purchase_return_row_scheme \<Rightarrow> 'a stock_db_scheme \<Rightarrow> 'a stock_db_scheme result" where
  "sendBack w returnId user now i db =
     (let (stock, db1) = lockWarehouseStockRow w (px_variant i) db
      in if onHandQuantity stock < px_quantity i then Inl (AppException Conflict)
         else let after = onHandQuantity stock - px_quantity i
              in Inr (saveMovement (\<lambda>k. \<lparr>mv_id = k, mv_warehouse = w, mv_variant = px_variant i,
                   mv_type = PurchaseReturnMovement, mv_change = - px_quantity i, mv_after = after,
                   mv_refType = RefPurchaseReturn, mv_refId = returnId, mv_createdAt = now,
                   mv_createdBy = Some user\<rparr>) (updateOnHand w (px_variant i) after db1)))"

text \<open>The credit of a completed return: what the invoice still owes is reduced, the rest is owed by the
  supplier. The four amounts are the credit applied, the supplier credit, and the credited amount and
  balance of the invoice.\<close>

definition creditNote :: "purchase_invoice \<Rightarrow> purchase_return \<Rightarrow> int \<times> int \<times> int \<times> int" where
  "creditNote v r =
     (let returnAmount = js_num (prt_subtotal r); previousBalance = js_num (iv_balance v);
          creditApplied = min previousBalance returnAmount;
          supplierCredit = max 0 (js_sub returnAmount previousBalance);
          newCredited = js_add (js_num (iv_credited v)) creditApplied;
          newBalance = max 0 (js_sub (js_sub (js_num (iv_grandTotal v)) (js_num (iv_paid v))) newCredited)
      in (to_fixed2 creditApplied, to_fixed2 supplierCredit, to_fixed2 newCredited, to_fixed2 newBalance))"

definition completePurchaseReturn ::
  "id \<Rightarrow> id \<Rightarrow> id \<Rightarrow> jdate \<Rightarrow> 'a payables_db_scheme \<Rightarrow> (purchase_return \<times> 'a payables_db_scheme) result" where
  "completePurchaseReturn i company user now db =
     andThen (findPurchaseReturn i company db) (\<lambda>r.
     if prt_status r \<noteq> PrDraft then Inl (AppException UnprocessableEntity)
     else andThen (findInvoice (prt_invoice r) company db) (\<lambda>v.
          andThen (findOrder (prt_order r) company db) (\<lambda>o'.
          case po_warehouse o' of
            None \<Rightarrow> Inl (AppException ValidationError)
          | Some w \<Rightarrow>
              andThen (forEach (sendBack w (prt_id r) user now)
                (sort_key px_variant (filter (\<lambda>x. px_return x = prt_id r) (purchaseReturnItems db))) db) (\<lambda>db1.
              let (creditApplied, supplierCredit, credited, balance) = creditNote v r;
                  db2 = saveInvoice (v\<lparr>iv_credited := credited, iv_balance := balance, iv_updatedBy := user\<rparr>) db1;
                  db3 = saveOrder (o'\<lparr>po_balance := balance, po_updatedBy := user\<rparr>) db2;
                  r' = r\<lparr>prt_status := PrCompleted, prt_creditApplied := creditApplied,
                       prt_supplierCredit := supplierCredit, prt_completedBy := Some user,
                       prt_completedAt := Some now\<rparr>
              in Inr (r', savePurchaseReturn r' db3)))))"

definition cancelPurchaseReturn ::
  "id \<Rightarrow> id \<Rightarrow> 'a payables_db_scheme \<Rightarrow> (purchase_return \<times> 'a payables_db_scheme) result" where
  "cancelPurchaseReturn i company db =
     andThen (findPurchaseReturn i company db) (\<lambda>r.
     if prt_status r \<noteq> PrDraft then Inl (AppException UnprocessableEntity)
     else let r' = r\<lparr>prt_status := PrCancelled\<rparr> in Inr (r', savePurchaseReturn r' db))"

end
