(* ===== verification/Payables_Properties.thy ===== *)
theory Payables_Properties
  imports Payables
begin

text \<open>
  The lemmas about supplier invoices and returns: the arithmetic of a payment, of its reversal and of a
  credit note in exact cents, what the order operations leave alone, and the invariant that ties each
  invoice to its order. The properties are in \<open>Payables_Theorems\<close>. A bound \<open>B\<close> on the amounts in cents
  and a number \<open>k\<close> of roundings with \<open>fits B (k + 20)\<close> run through it: with the largest amount of a
  DECIMAL(14,2) column, \<open>10 ^ 14\<close>, the theorems hold as they are for the totals of up to ten summands,
  and with amounts of a hundred million units for thousands of them.
\<close>

section \<open>Exact cents\<close>

lemma near_nonneg_max: "near B k x c \<Longrightarrow> near B k (max 0 x) (max 0 c)"
  by (auto simp: near_def max_def abs_le_iff)

lemma near_min:
  assumes "near B k x a" "near B k y b"
  shows "near B k (min x y) (min a b)"
  using assms unfolding near_def by (cases "x \<le> y"; cases "a \<le> b") (auto simp: min_def abs_le_iff divide_simps)

lemma exceeds_beyond:
  assumes n: "near B i x p" and t: "near B j y c" and f: "fits B (i + j + 2)" and c: "0 \<le> c" "c < B" "c < p"
  shows "exceeds x y"
proof -
  let ?u = "ulp_of B"
  have u: "(of_nat i + of_nat j + 2) * ?u < 1 / 200" "0 < ?u"
    using fits_lt [OF f] f ulp_of_pos by (simp_all add: fits_def ac_simps)
  then have d: "of_nat i * ?u + of_nat j * ?u + 2 * ?u < 1 / 200" by (simp add: algebra_simps)
  have nn: "0 \<le> of_nat i * ?u" "0 \<le> of_nat j * ?u" using u(2) by simp_all
  have p: "of_int p / 100 - of_nat i * ?u \<le> x" using n unfolding near_def by (simp add: abs_le_iff)
  have e: "0 \<le> js_eps" "js_eps \<le> 1 / 1000" using js_eps_bounds by simp_all
  have y: "y \<le> of_int c / 100 + of_nat j * ?u" "of_int c / 100 - of_nat j * ?u \<le> y"
    using t unfolding near_def by (simp_all add: abs_le_iff)
  have "0 \<le> (of_int c :: real)" using c(1) by simp
  with y e d nn u(2) have s: "y + js_eps \<le> of_int c / 100 + of_nat j * ?u + 1 / 1000" "- (1 / 200) \<le> y + js_eps"
    by linarith+
  have cB: "(of_int c :: real) + 1 \<le> of_int B" "(of_int c :: real) + 1 \<le> of_int p" "0 \<le> (of_int c :: real)"
    using c by linarith+
  have "y + js_eps \<le> (of_int B + 1) / 100" "- (y + js_eps) \<le> (of_int B + 1) / 100"
    using s cB d nn u(2) by (simp_all only: add_divide_distrib)
  then have "\<bar>y + js_eps\<bar> \<le> (of_int B + 1) / 100" by (rule abs_leI)
  then have "\<bar>y + js_eps\<bar> / 2 ^ 53 \<le> ?u" by (simp add: ulp_of_def)
  with fl_error [of "y + js_eps"] have "fl (y + js_eps) \<le> y + js_eps + ?u" by linarith
  then have "fl (y + js_eps) \<le> of_int c / 100 + of_nat j * ?u + 1 / 1000 + ?u" using s by linarith
  also have "\<dots> < x" using p d cB nn u(2) by (simp add: field_simps)
  finally show ?thesis by (simp add: exceeds_def js_add_def)
qed

lemma not_below_zero:
  assumes "near B k x c" "fits B k" "\<not> x < - js_eps"
  shows "0 \<le> c"
proof (rule ccontr)
  assume "\<not> 0 \<le> c"
  then have "(of_int c :: real) \<le> - 1" by linarith
  moreover have "x \<le> of_int c / 100 + 1 / 200" using assms(1) fits_lt [OF assms(2)] unfolding near_def by (simp add: abs_le_iff)
  ultimately show False using assms(3) js_eps_bounds by simp
qed

text \<open>The amounts after a payment: the new paid amount and balance of an invoice with paid amount \<open>p\<close>,
  credited amount \<open>c\<close> and total \<open>g\<close>.\<close>

lemma pay_exact:
  assumes a: "near B k a n" "0 \<le> n" "2 * n \<le> B" and f: "fits B (k + 20)"
    and m: "0 \<le> p" "0 \<le> c" "p + c \<le> g" "2 * g \<le> B" "0 < B"
    and ok: "\<not> exceeds (js_add (js_num p) a) (js_sub (js_num g) (js_num c))"
  shows "p + n + c \<le> g" "to_fixed2 (js_add (js_num p) a) = p + n"
    "to_fixed2 (js_sub (js_sub (js_num g) (js_num c)) (js_add (js_num p) a)) = g - c - (p + n)"
proof -
  note fm = fits_mono [OF f]
  have 1: "near B 3 (js_sub (js_num g) (js_num c)) (g - c)"
    using near_sub [OF near_num near_num, of g B c] m fm [of 2] by (simp add: numeral_eq_Suc)
  have 2: "near B (k + 2) (js_add (js_num p) a) (p + n)"
    using near_add [OF near_num a(1), of p] a m fm [of "Suc k"] by simp
  show le: "p + n + c \<le> g"
  proof (rule ccontr)
    assume "\<not> p + n + c \<le> g"
    then have "exceeds (js_add (js_num p) a) (js_sub (js_num g) (js_num c))"
      using m fm [of "k + 2 + 3 + 2"] by (intro exceeds_beyond [OF 2 1]) auto
    with ok show False ..
  qed
  show "to_fixed2 (js_add (js_num p) a) = p + n" by (rule to_fixed2_near [OF 2 fm]) simp
  have "near B (k + 6) (js_sub (js_sub (js_num g) (js_num c)) (js_add (js_num p) a)) (g - c - (p + n))"
    using near_sub [OF 1 2] le m a fm [of "k + 5"] by (simp add: numeral_eq_Suc)
  then show "to_fixed2 (js_sub (js_sub (js_num g) (js_num c)) (js_add (js_num p) a)) = g - c - (p + n)"
    by (rule to_fixed2_near [OF _ fm]) simp
qed

lemma unpay_exact:
  assumes a: "near B k a n" "0 \<le> n" "2 * n \<le> B" and f: "fits B (k + 20)"
    and m: "0 \<le> p" "0 \<le> c" "p + c \<le> g" "2 * g \<le> B"
    and ok: "\<not> js_sub (js_num p) a < - js_eps"
  shows "n \<le> p" "to_fixed2 (max 0 (js_sub (js_num p) a)) = p - n"
    "to_fixed2 (js_sub (js_sub (js_num g) (js_num c)) (max 0 (js_sub (js_num p) a))) = g - c - (p - n)"
proof -
  note fm = fits_mono [OF f]
  have 1: "near B 3 (js_sub (js_num g) (js_num c)) (g - c)"
    using near_sub [OF near_num near_num, of g B c] m fm [of 2] by (simp add: numeral_eq_Suc)
  have 2: "near B (k + 2) (js_sub (js_num p) a) (p - n)"
    using near_sub [OF near_num a(1), of p] a m fm [of "Suc k"] by simp
  show le: "n \<le> p" using not_below_zero [OF 2 _ ok] fm [of "k + 2"] by simp
  have 3: "near B (k + 2) (max 0 (js_sub (js_num p) a)) (p - n)"
    using near_nonneg_max [OF 2] le by simp
  show "to_fixed2 (max 0 (js_sub (js_num p) a)) = p - n" by (rule to_fixed2_near [OF 3 fm]) simp
  have "near B (k + 6) (js_sub (js_sub (js_num g) (js_num c)) (max 0 (js_sub (js_num p) a))) (g - c - (p - n))"
    using near_sub [OF 1 3] le m a fm [of "k + 5"] by (simp add: numeral_eq_Suc)
  then show "to_fixed2 (js_sub (js_sub (js_num g) (js_num c)) (max 0 (js_sub (js_num p) a))) = g - c - (p - n)"
    by (rule to_fixed2_near [OF _ fm]) simp
qed

lemma creditNote_exact:
  assumes "0 \<le> iv_paid v" "0 \<le> iv_credited v" "0 \<le> iv_balance v"
    "iv_paid v + iv_credited v + iv_balance v \<le> iv_grandTotal v" "2 * iv_grandTotal v \<le> B"
    "0 \<le> prt_subtotal r" "2 * prt_subtotal r \<le> B" and f: "fits B 20"
  shows "creditNote v r =
    (min (iv_balance v) (prt_subtotal r), max 0 (prt_subtotal r - iv_balance v),
     iv_credited v + min (iv_balance v) (prt_subtotal r),
     iv_grandTotal v - iv_paid v - (iv_credited v + min (iv_balance v) (prt_subtotal r)))"
proof -
  note fm = fits_mono [OF f]
  let ?m = "min (iv_balance v) (prt_subtotal r)"
  have 1: "near B 1 (min (js_num (iv_balance v)) (js_num (prt_subtotal r))) ?m"
    using assms by (intro near_min near_num) auto
  have 2: "near B 3 (max 0 (js_sub (js_num (prt_subtotal r)) (js_num (iv_balance v)))) (max 0 (prt_subtotal r - iv_balance v))"
    using near_nonneg_max [OF near_sub [OF near_num near_num, of "prt_subtotal r" B "iv_balance v"]] assms fm [of 2]
    by (simp add: numeral_eq_Suc)
  have 3: "near B 3 (js_add (js_num (iv_credited v)) (min (js_num (iv_balance v)) (js_num (prt_subtotal r))))
      (iv_credited v + ?m)"
    using near_add [OF near_num 1, of "iv_credited v"] assms fm [of 2] by (simp add: numeral_eq_Suc)
  have 4: "near B 3 (js_sub (js_num (iv_grandTotal v)) (js_num (iv_paid v))) (iv_grandTotal v - iv_paid v)"
    using near_sub [OF near_num near_num, of "iv_grandTotal v" B "iv_paid v"] assms fm [of 2] by (simp add: numeral_eq_Suc)
  have 5: "near B 7 (max 0 (js_sub (js_sub (js_num (iv_grandTotal v)) (js_num (iv_paid v)))
      (js_add (js_num (iv_credited v)) (min (js_num (iv_balance v)) (js_num (prt_subtotal r))))))
      (max 0 (iv_grandTotal v - iv_paid v - (iv_credited v + ?m)))"
    using near_nonneg_max [OF near_sub [OF 4 3]] assms fm [of 6] by (simp add: numeral_eq_Suc)
  show ?thesis
    using to_fixed2_near [OF 1 fm] to_fixed2_near [OF 2 fm] to_fixed2_near [OF 3 fm] to_fixed2_near [OF 5 fm] assms
    by (simp add: creditNote_def)
qed


section \<open>What the order operations leave alone\<close>

text \<open>The order operations other than the payment of an order, which no service calls since payments go
  to invoices; totals are amounts of at most \<open>B / 2\<close>.\<close>

inductive order_step :: "int \<Rightarrow> 'a purchase_db_scheme \<Rightarrow> 'a purchase_db_scheme \<Rightarrow> bool" for B where
  create: "createOrder org cat company user dto now db = Inr (r, db') \<Longrightarrow>
    \<forall>i \<in> set (oc_items dto). 1 \<le> od_quantity i \<Longrightarrow> 0 \<le> po_grandTotal r \<Longrightarrow> 2 * po_grandTotal r \<le> B \<Longrightarrow>
    order_step B db db'"
| submit: "submitOrder i company user now db = Inr (r, db') \<Longrightarrow> order_step B db db'"
| approve: "approveOrder i company user now db = Inr (r, db') \<Longrightarrow> order_step B db db'"
| confirm: "confirmOrder i company user now db = Inr (r, db') \<Longrightarrow> order_step B db db'"
| reject: "rejectOrder i company user reason now db = Inr (r, db') \<Longrightarrow> order_step B db db'"
| close: "closeOrder i company user why now db = Inr (r, db') \<Longrightarrow> order_step B db db'"
| cancel: "cancelOrder i company user db = Inr (r, db') \<Longrightarrow> order_step B db db'"
| receive: "createReceipt org cat company user gdto now db = Inr (g, db') \<Longrightarrow> receipt_request_ok gdto \<Longrightarrow>
    order_step B db db'"

lemma order_step_purchase: "order_step B db db' \<Longrightarrow> purchase_step db db'"
  by (induction rule: order_step.induct) (blast intro: purchase_step.intros)+

definition same_money :: "purchase_order \<Rightarrow> purchase_order \<Rightarrow> bool" where
  "same_money s t \<longleftrightarrow> po_id t = po_id s \<and> po_company t = po_company s \<and> po_paid t = po_paid s
     \<and> po_balance t = po_balance s \<and> po_grandTotal t = po_grandTotal s"

definition unpaid_order :: "int \<Rightarrow> purchase_order \<Rightarrow> bool" where
  "unpaid_order B s \<longleftrightarrow> po_paid s = 0 \<and> po_balance s = po_grandTotal s \<and> 0 \<le> po_grandTotal s
     \<and> 2 * po_grandTotal s \<le> B"

definition keeps_money :: "int \<Rightarrow> 'a purchase_db_scheme \<Rightarrow> 'a purchase_db_scheme \<Rightarrow> bool" where
  "keeps_money B db db' \<longleftrightarrow> purchase_db.more db' = purchase_db.more db \<and> rowIds db \<le> rowIds db'
     \<and> (\<exists>old new. purchaseOrders db' = old @ new \<and> list_all2 same_money (purchaseOrders db) old
          \<and> (\<forall>s \<in> set new. rowIds db \<le> po_id s \<and> unpaid_order B s))"

lemma keeps_moneyI:
  assumes "purchase_db.more db' = purchase_db.more db" "rowIds db \<le> rowIds db'"
    "list_all2 same_money (purchaseOrders db) (purchaseOrders db')"
  shows "keeps_money B db db'"
proof -
  have "purchaseOrders db' = purchaseOrders db' @ [] \<and> (\<forall>s \<in> set []. rowIds db \<le> po_id s \<and> unpaid_order B s)" by simp
  with assms show ?thesis unfolding keeps_money_def by blast
qed

lemma keeps_money_same:
  "purchase_db.more db' = purchase_db.more db \<Longrightarrow> rowIds db \<le> rowIds db' \<Longrightarrow> purchaseOrders db' = purchaseOrders db \<Longrightarrow>
    keeps_money B db db'"
  by (rule keeps_moneyI) (simp_all add: same_money_def list_all2_refl)

text \<open>The order read is the only one with its identifier.\<close>

lemma found_order_unique:
  assumes "purchase_ok db" "findOrder i company db = Inr s" "x \<in> set (purchaseOrders db)" "po_id x = po_id s"
  shows "x = s"
proof -
  have "inj_on po_id (set (purchaseOrders db))" using assms(1) by (simp add: purchase_ok_def distinct_map)
  from inj_onD [OF this assms(4,3)] findOrder_mem [OF assms(2)] show ?thesis by blast
qed

lemma keeps_money_save:
  assumes "purchase_ok db" "findOrder i company db = Inr s" "same_money s t"
  shows "keeps_money B db (saveOrder t db)"
proof -
  have u: "x = s" if "x \<in> set (purchaseOrders db)" "po_id x = po_id t" for x
    by (rule found_order_unique [OF assms(1,2) that(1)]) (use that(2) assms(3) in \<open>simp add: same_money_def\<close>)
  have "same_money x (if po_id x = po_id t then t else x)" if "x \<in> set (purchaseOrders db)" for x
  proof (cases "po_id x = po_id t")
    case True
    with u [OF that True] assms(3) show ?thesis by simp
  next
    case False
    then show ?thesis by (simp add: same_money_def)
  qed
  then have l: "list_all2 same_money (purchaseOrders db) (purchaseOrders (saveOrder t db))"
    by (simp add: saveOrder_def list.rel_map list_all2_same)
  show ?thesis by (rule keeps_moneyI [OF _ _ l]) (simp_all add: saveOrder_def)
qed

lemma more_of_frame: "stock_frame db d \<Longrightarrow> purchase_db.more d = purchase_db.more (db :: 'a purchase_db_scheme)"
  by (cases db; cases d) (simp add: stock_frame_def)

lemma createReceipt_more:
  assumes "createReceipt org cat company user dto now db = Inr (g, db')"
  shows "purchase_db.more db' = purchase_db.more db"
proof -
  let ?d = "case gc_date dto of None \<Rightarrow> now | Some d \<Rightarrow> d"
  obtain n db1 where gn: "generateReceiptNumber company (getUTCFullYear ?d) db = (n, db1)" by force
  then have fr1: "purchase_db.more db1 = purchase_db.more db"
    by (auto simp: generateReceiptNumber_def next_sequence_eq)
  from assms gn obtain db2 rows where
      loop1: "forEach (receiveItem cat company (gc_order dto) (gc_warehouse dto)) (sort_key gd_orderItem (gc_items dto))
        (db1, []) = Inr (db2, rows)"
    and loop2: "forEach (finishItem (gc_warehouse dto) (gr_id g) user now) rows
        (db2\<lparr>goodsReceipts := goodsReceipts db2 @ [g], rowIds := rowIds db2 + 1\<rparr>) = Inr db'"
    by (auto simp: createReceipt_def createReceiptTx_def Let_def)
  have "purchase_db.more (fst (db2, rows)) = purchase_db.more db1"
    by (rule forEach_invariant [OF loop1]) (auto simp: receiveItem_def more_of_frame [OF increaseStock_laws(4)])
  moreover have "purchase_db.more db' = purchase_db.more db2"
    by (rule forEach_invariant [OF loop2])
      (auto simp: finishItem_def logReceipt_def insertReceiptItem_def saveMovement_def split: if_splits)
  ultimately show ?thesis using fr1 by simp
qed

lemma createOrder_more:
  assumes "createOrder org cat company user dto now db = Inr (r, db')"
  shows "purchase_db.more db' = purchase_db.more db"
proof -
  have f: "purchase_db.more (fold (insertOrderItem i) rows d) = purchase_db.more d" for i rows and d :: "'a purchase_db_scheme"
    by (induction rows arbitrary: d) (simp_all add: insertOrderItem_def)
  show ?thesis
    using assms by (auto simp: createOrder_def createOrderTx_def Let_def generatePurchaseOrderNumber_def
        next_sequence_eq f insertOrder_def split: if_splits)
qed

lemma order_step_keeps:
  assumes "order_step B db db'" "purchase_ok db"
  shows "keeps_money B db db'"
proof -
  note save = keeps_money_save [OF assms(2)]
  from assms(1) show ?thesis
  proof cases
    case (create org cat company user dto now r)
    from createOrder_laws [OF create(1)] obtain rows :: "order_row list" and n d where
        r: "r = newOrder company user dto d (rowIds db) n (documentTotals (map orderLine (oc_items dto)))" and o: "purchaseOrders db' = purchaseOrders db @ [r]"
      and i: "rowIds db' = Suc (rowIds db) + length rows" by (elim exE conjE) (rule that)
    have "unpaid_order B r" using create by (simp add: unpaid_order_def) (simp add: r newOrder_def)
    then show ?thesis
      unfolding keeps_money_def using createOrder_more [OF create(1)] i
      by (intro conjI exI [of _ "purchaseOrders db"] exI [of _ "[r]"])
        (simp_all add: o r same_money_def list_all2_refl)
  next
    case (receive org cat company user gdto now g)
    from createReceipt_laws [OF receive(1)] createReceipt_more [OF receive(1)] show ?thesis
      by (intro keeps_money_same) auto
  qed (auto simp: submitOrder_def approveOrder_def confirmOrder_def rejectOrder_def closeOrder_def cancelOrder_def
      Let_def same_money_def split: if_splits intro!: save)
qed


section \<open>The invariant of invoices\<close>

definition invoice_ok :: "int \<Rightarrow> purchase_invoice \<Rightarrow> bool" where
  "invoice_ok B v \<longleftrightarrow> 0 \<le> iv_paid v \<and> 0 \<le> iv_credited v \<and> 0 \<le> iv_balance v \<and> 2 * iv_grandTotal v \<le> B
     \<and> iv_paid v + iv_credited v + iv_balance v \<le> iv_grandTotal v
     \<and> (iv_status v \<noteq> InvVoided \<longrightarrow> iv_paid v + iv_credited v + iv_balance v = iv_grandTotal v)
     \<and> (iv_status v = InvVoided \<longrightarrow> iv_paid v = 0)"

definition linked :: "purchase_order list \<Rightarrow> purchase_invoice \<Rightarrow> bool" where
  "linked os v \<longleftrightarrow> (\<exists>s \<in> set os. po_id s = iv_order v \<and> po_company s = iv_company v
     \<and> po_grandTotal s = iv_grandTotal v
     \<and> (iv_status v \<noteq> InvVoided \<longrightarrow> po_paid s = iv_paid v \<and> po_balance s = iv_balance v))"

definition return_linked :: "int \<Rightarrow> purchase_invoice list \<Rightarrow> purchase_return \<Rightarrow> bool" where
  "return_linked B vs r \<longleftrightarrow> 0 \<le> prt_subtotal r \<and> 2 * prt_subtotal r \<le> B
     \<and> (\<exists>v \<in> set vs. iv_id v = prt_invoice r \<and> iv_order v = prt_order r \<and> iv_company v = prt_company r)"

definition payables_ok :: "int \<Rightarrow> 'a payables_db_scheme \<Rightarrow> bool" where
  "payables_ok B db \<longleftrightarrow> purchase_ok db
     \<and> distinct (map iv_id (purchaseInvoices db)) \<and> (\<forall>v \<in> set (purchaseInvoices db). iv_id v < rowIds db)
     \<and> distinct (map iv_order (purchaseInvoices db))
     \<and> (\<forall>v \<in> set (purchaseInvoices db). invoice_ok B v \<and> linked (purchaseOrders db) v)
     \<and> (\<forall>s \<in> set (purchaseOrders db).
          (\<forall>v \<in> set (purchaseInvoices db). iv_order v \<noteq> po_id s) \<longrightarrow> unpaid_order B s)
     \<and> distinct (map prt_id (purchaseReturns db)) \<and> (\<forall>r \<in> set (purchaseReturns db). prt_id r < rowIds db)
     \<and> (\<forall>r \<in> set (purchaseReturns db). return_linked B (purchaseInvoices db) r)"

lemma purchase_ok_tables:
  assumes "purchase_ok db" "purchaseOrders d = purchaseOrders db" "orderItems d = orderItems db"
    "receiptItems d = receiptItems db" "rowIds db \<le> rowIds d"
  shows "purchase_ok d"
proof -
  have "priorHandled i d = priorHandled i db" for i by (simp add: priorHandled_def assms)
  then show ?thesis using assms unfolding purchase_ok_def by (auto intro: less_le_trans)
qed

lemma stock_frame_payables:
  "stock_frame db d \<Longrightarrow> purchaseInvoices d = purchaseInvoices db \<and> purchaseReturns d = purchaseReturns db
    \<and> purchaseReturnItems d = purchaseReturnItems db"
  by (cases db; cases d) (simp add: stock_frame_def)

lemma payables_ok_tables:
  assumes "payables_ok B db" "purchaseOrders d = purchaseOrders db" "orderItems d = orderItems db"
    "receiptItems d = receiptItems db" "rowIds db \<le> rowIds d" "purchaseInvoices d = purchaseInvoices db"
    "purchaseReturns d = purchaseReturns db"
  shows "payables_ok B d"
  using assms purchase_ok_tables [of db d] unfolding payables_ok_def by (auto intro: less_le_trans)

lemma findInvoice_mem:
  "findInvoice i company db = Inr v \<Longrightarrow> v \<in> set (purchaseInvoices db) \<and> iv_id v = i \<and> iv_company v = company"
  by (auto simp: findInvoice_def dest: find_SomeD)

lemma found_invoice_unique:
  assumes "payables_ok B db" "v \<in> set (purchaseInvoices db)" "x \<in> set (purchaseInvoices db)"
    "iv_id x = iv_id v \<or> iv_order x = iv_order v"
  shows "x = v"
proof -
  have "inj_on iv_id (set (purchaseInvoices db))" "inj_on iv_order (set (purchaseInvoices db))"
    using assms(1) by (simp_all add: payables_ok_def distinct_map)
  then show ?thesis using assms(2-4) by (auto dest: inj_onD)
qed

text \<open>A later version of an invoice.\<close>

definition invoice_follows :: "purchase_invoice \<Rightarrow> purchase_invoice \<Rightarrow> bool" where
  "invoice_follows v w \<longleftrightarrow> iv_id w = iv_id v \<and> iv_order w = iv_order v \<and> iv_company w = iv_company v
     \<and> iv_number w = iv_number v \<and> iv_supplier w = iv_supplier v \<and> iv_grandTotal w = iv_grandTotal v
     \<and> (iv_status v = InvVoided \<longrightarrow> iv_status w = InvVoided)
     \<and> (iv_status v = InvPosted \<longrightarrow> iv_status w \<noteq> InvDraft)"

lemma invoice_follows_refl [simp]: "invoice_follows v v"
  by (simp add: invoice_follows_def)

lemma invoice_follows_trans: "invoice_follows u v \<Longrightarrow> invoice_follows v w \<Longrightarrow> invoice_follows u w"
  by (cases "iv_status v") (auto simp: invoice_follows_def)

definition invoices_grow :: "'a payables_db_scheme \<Rightarrow> 'a payables_db_scheme \<Rightarrow> bool" where
  "invoices_grow db db' \<longleftrightarrow>
     (\<forall>v \<in> set (purchaseInvoices db). \<exists>w \<in> set (purchaseInvoices db'). invoice_follows v w)"

lemma invoices_grow_same: "purchaseInvoices db' = purchaseInvoices db \<Longrightarrow> invoices_grow db db'"
  unfolding invoices_grow_def using invoice_follows_refl by fastforce

lemma invoices_grow_trans: "invoices_grow a b \<Longrightarrow> invoices_grow b c \<Longrightarrow> invoices_grow a c"
  unfolding invoices_grow_def using invoice_follows_trans by blast

text \<open>A new version of an invoice together with a new version of its order.\<close>

lemma settled:
  assumes ok: "payables_ok B db" and v: "v \<in> set (purchaseInvoices db)" and s: "findOrder (iv_order v) company db = Inr s"
    and w: "invoice_follows v w" "invoice_ok B w"
    and t: "order_follows s t" "order_stamped t"
    and l: "iv_status w \<noteq> InvVoided \<longrightarrow> po_paid t = iv_paid w \<and> po_balance t = iv_balance w"
  shows "payables_ok B (saveOrder t (saveInvoice w db)) \<and> invoices_grow db (saveOrder t (saveInvoice w db))"
proof
  let ?db = "saveOrder t (saveInvoice w db)"
  let ?f = "\<lambda>x. if iv_id x = iv_id w then w else x" and ?g = "\<lambda>x. if po_id x = po_id t then t else x"
  have tabs: "purchaseInvoices ?db = map ?f (purchaseInvoices db)" "purchaseOrders ?db = map ?g (purchaseOrders db)"
    "purchaseReturns ?db = purchaseReturns db" "rowIds ?db = rowIds db"
    by (simp_all add: saveOrder_def saveInvoice_def)
  have f: "invoice_follows x (?f x) \<and> (?f x = w \<and> x = v \<or> ?f x = x \<and> iv_order x \<noteq> iv_order v)"
    if x: "x \<in> set (purchaseInvoices db)" for x
  proof (cases "iv_id x = iv_id w")
    case True
    then have "x = v" using w(1) by (intro found_invoice_unique [OF ok v x]) (simp add: invoice_follows_def)
    then show ?thesis using w(1) True by simp
  next
    case False
    then have "x \<noteq> v" using w(1) by (auto simp: invoice_follows_def)
    then have "iv_order x \<noteq> iv_order v" using found_invoice_unique [OF ok v x] by blast
    then show ?thesis using False by simp
  qed
  have pok: "purchase_ok db" using ok by (simp add: payables_ok_def)
  have s': "s \<in> set (purchaseOrders db)" "po_id s = iv_order v" "po_company s = company" using findOrder_mem [OF s] by simp_all
  have g: "?g x = t \<and> x = s \<or> ?g x = x \<and> po_id x \<noteq> iv_order v" if x: "x \<in> set (purchaseOrders db)" for x
    using found_order_unique [OF pok s x] t(1) s'(2) by (auto simp: order_follows_def)
  have "purchase_ok (saveOrder t db)" using saved_order [OF pok s t] by blast
  then have 1: "purchase_ok ?db" by (rule purchase_ok_tables) (simp_all add: saveOrder_def saveInvoice_def)
  have ids: "map iv_id (purchaseInvoices ?db) = map iv_id (purchaseInvoices db)"
    "map iv_order (purchaseInvoices ?db) = map iv_order (purchaseInvoices db)"
    unfolding tabs map_map o_def
    by (intro map_cong refl; use f in \<open>unfold invoice_follows_def, blast\<close>)+
  have grow: "\<exists>z \<in> set (purchaseInvoices ?db). invoice_follows y z" if "y \<in> set (purchaseInvoices db)" for y
    using f [OF that] that unfolding tabs set_map by blast
  have mem: "(\<exists>y \<in> set (purchaseInvoices db). x = ?f y)" if "x \<in> set (purchaseInvoices ?db)" for x
    using that unfolding tabs by auto
  have 2: "\<forall>x \<in> set (purchaseInvoices ?db). iv_id x < rowIds ?db"
    using ok w v f unfolding tabs by (auto simp: payables_ok_def invoice_follows_def)
  have 3: "\<forall>x \<in> set (purchaseInvoices ?db). invoice_ok B x \<and> linked (purchaseOrders ?db) x"
  proof
    fix x assume "x \<in> set (purchaseInvoices ?db)"
    then obtain y where y: "y \<in> set (purchaseInvoices db)" "x = ?f y" using mem by blast
    have ly: "linked (purchaseOrders db) y" "invoice_ok B y" using ok y(1) by (simp_all add: payables_ok_def)
    from ly(1) obtain o' where o': "o' \<in> set (purchaseOrders db)" "po_id o' = iv_order y" "po_company o' = iv_company y"
      "po_grandTotal o' = iv_grandTotal y"
      "iv_status y \<noteq> InvVoided \<longrightarrow> po_paid o' = iv_paid y \<and> po_balance o' = iv_balance y"
      by (auto simp: linked_def)
    have o'': "?g o' \<in> set (purchaseOrders ?db)" using o'(1) unfolding tabs set_map by (rule imageI)
    from f [OF y(1)] show "invoice_ok B x \<and> linked (purchaseOrders ?db) x"
    proof
      assume a: "invoice_follows y (?f y)" "?f y = w \<and> y = v \<or> ?f y = y \<and> iv_order y \<noteq> iv_order v"
      then consider "x = w" "y = v" | "x = y" "iv_order y \<noteq> iv_order v" using y(2) by auto
      then show ?thesis
      proof cases
        case 1
        then have "?g o' = t" "o' = s" using g [OF o'(1)] o'(2) by blast+
        then have "linked (purchaseOrders ?db) w"
          unfolding linked_def using o' o'' w(1) t(1) l 1 by (intro bexI [of _ t]) (auto simp: order_follows_def invoice_follows_def)
        with 1 w(2) show ?thesis by simp
      next
        case 2
        then have "o' \<noteq> s" using o'(2) s'(2) by metis
        then have "?g o' = o'" using g [OF o'(1)] by blast
        then have "linked (purchaseOrders ?db) y" unfolding linked_def using o' o'' by (intro bexI [of _ o']) auto
        with 2 ly(2) show ?thesis by simp
      qed
    qed
  qed
  have 4: "unpaid_order B x" if x: "x \<in> set (purchaseOrders ?db)" "\<forall>y \<in> set (purchaseInvoices ?db). iv_order y \<noteq> po_id x" for x
  proof -
    from x(1) obtain y where y: "y \<in> set (purchaseOrders db)" "x = ?g y" unfolding tabs by auto
    have "iv_order v \<in> iv_order ` set (purchaseInvoices ?db)"
      using v ids(2) by (metis image_eqI list.set_map)
    then have "po_id x \<noteq> iv_order v" using x(2) by auto
    then have "x = y" using g [OF y(1)] y(2) t(1) s'(2) by (auto simp: order_follows_def)
    have "iv_order ` set (purchaseInvoices ?db) = iv_order ` set (purchaseInvoices db)"
      using ids(2) by (metis list.set_map)
    then have "\<forall>z \<in> set (purchaseInvoices db). iv_order z \<noteq> po_id y" using x(2) \<open>x = y\<close> by (metis image_iff)
    then show ?thesis using ok y(1) \<open>x = y\<close> by (simp add: payables_ok_def)
  qed
  have 5: "return_linked B (purchaseInvoices ?db) r" if "r \<in> set (purchaseReturns db)" for r
  proof -
    from ok that obtain y where y: "y \<in> set (purchaseInvoices db)" "iv_id y = prt_invoice r" "iv_order y = prt_order r"
      "iv_company y = prt_company r" "0 \<le> prt_subtotal r" "2 * prt_subtotal r \<le> B"
      by (auto simp: payables_ok_def return_linked_def)
    from grow [OF y(1)] obtain z where "z \<in> set (purchaseInvoices ?db)" "invoice_follows y z" by blast
    with y show ?thesis unfolding return_linked_def by (intro conjI bexI [of _ z]) (simp_all add: invoice_follows_def)
  qed
  have 6: "distinct (map iv_id (purchaseInvoices ?db))" "distinct (map iv_order (purchaseInvoices ?db))"
    "distinct (map prt_id (purchaseReturns ?db))" "\<forall>r \<in> set (purchaseReturns ?db). prt_id r < rowIds ?db"
    unfolding ids tabs(3,4) using ok by (simp_all add: payables_ok_def)
  have 7: "\<forall>r \<in> set (purchaseReturns ?db). return_linked B (purchaseInvoices ?db) r"
    unfolding tabs(3) using 5 by blast
  show "payables_ok B ?db" unfolding payables_ok_def using 1 2 3 4 6 7 by blast
  show "invoices_grow db ?db" unfolding invoices_grow_def using grow by blast
qed

end
