(* ===== verification/Payables_Theorems.thy ===== *)
theory Payables_Theorems
  imports Payables_Properties Purchase_Theorems
begin

text \<open>
  Histories of orders, invoices and returns to suppliers, and the properties: each invoice stays in step
  with its order and its amounts add up, a completed return takes its goods out of the stock and credits
  the invoice, and what voiding leaves behind.
\<close>

section \<open>The stock loop of a return\<close>

definition backMovement ::
  "id \<Rightarrow> id \<Rightarrow> id \<Rightarrow> jdate \<Rightarrow> 'b purchase_return_row_scheme \<Rightarrow> int \<Rightarrow> id \<Rightarrow> stock_movement" where
  "backMovement w returnId user now i after k =
     \<lparr>mv_id = k, mv_warehouse = w, mv_variant = px_variant i, mv_type = PurchaseReturnMovement,
      mv_change = - px_quantity i, mv_after = after, mv_refType = RefPurchaseReturn, mv_refId = returnId,
      mv_createdAt = now, mv_createdBy = Some user\<rparr>"

definition backTurn ::
  "id \<Rightarrow> id \<Rightarrow> id \<Rightarrow> jdate \<Rightarrow> 'b purchase_return_row_scheme \<Rightarrow> 'a stock_db_scheme \<Rightarrow> 'a stock_db_scheme" where
  "backTurn w returnId user now i =
     postRow w (px_variant i) (- px_quantity i) (backMovement w returnId user now i)"

interpretation back_turns: stock_turns "backTurn w returnId user now" "\<lambda>s. s" "\<lambda>_ _. True" w px_variant "\<lambda>i. - px_quantity i"
  for w returnId user now
  by unfold_locales (auto simp: backTurn_def backMovement_def intro!: postRow_moves)

lemma sendBack_Inr:
  "sendBack w returnId user now i db = Inr d \<longleftrightarrow>
    px_quantity i \<le> level db w (px_variant i) \<and> d = backTurn w returnId user now i db"
proof -
  obtain s d1 where l: "lockWarehouseStockRow w (px_variant i) db = (s, d1)" by force
  from lockWarehouseStockRow_laws(1) [OF l] show ?thesis
    by (auto simp: sendBack_def l backTurn_def postRow_def backMovement_def [abs_def] Let_def)
qed

lemma sendBacks:
  assumes "forEach (sendBack w returnId user now) items db = Inr d"
  shows "moves_rows (lineDelta w px_variant (\<lambda>i. - px_quantity i) items) db d"
    "stock_nonneg db \<Longrightarrow> stock_nonneg d"
proof -
  have r: "d = fold (backTurn w returnId user now) items db \<and> (stock_nonneg db \<longrightarrow> stock_nonneg d)"
    using assms
  proof (induction items arbitrary: db)
    case (Cons i items)
    let ?e = "backTurn w returnId user now i db"
    from Cons.prems have q: "px_quantity i \<le> level db w (px_variant i)"
      and rest: "forEach (sendBack w returnId user now) items ?e = Inr d" by (auto simp: sendBack_Inr)
    have "moves_row w (px_variant i) (- px_quantity i) db ?e" by (rule back_turns.turn_moves) simp
    then have "level ?e x v = level db x v - (if x = w \<and> v = px_variant i then px_quantity i else 0)" for x v
      by (auto simp: moves_row_def logs_def)
    then have "stock_nonneg db \<Longrightarrow> stock_nonneg ?e" using q by (simp add: stock_nonneg_def)
    with Cons.IH [OF rest] show ?case by (simp only: fold_simps) blast
  qed simp
  then show "stock_nonneg db \<Longrightarrow> stock_nonneg d" by blast
  show "moves_rows (lineDelta w px_variant (\<lambda>i. - px_quantity i) items) db d"
    using back_turns.fold_turns [where items = items and s = db] by (simp add: r)
qed

section \<open>Histories\<close>

inductive payables_step :: "int \<Rightarrow> 'a payables_db_scheme \<Rightarrow> 'a payables_db_scheme \<Rightarrow> bool" for B where
  order: "order_step B db db' \<Longrightarrow> payables_step B db db'"
| sync: "syncEligibleInvoices org company supplierId db = Inr db' \<Longrightarrow> payables_step B db db'"
| post: "postRun i company user now db = Inr (v, db') \<Longrightarrow> payables_step B db db'"
| void: "voidRun i company user reason now db = Inr (v, db') \<Longrightarrow> payables_step B db db'"
| pay: "applyInvoicePayment i company a user db = Inr db' \<Longrightarrow> near B k a n \<Longrightarrow> 0 \<le> n \<Longrightarrow> 2 * n \<le> B \<Longrightarrow>
    fits B (k + 20) \<Longrightarrow> payables_step B db db'"
| unpay: "unapplyInvoicePayment i company a user db = Inr db' \<Longrightarrow> near B k a n \<Longrightarrow> 0 \<le> n \<Longrightarrow> 2 * n \<le> B \<Longrightarrow>
    fits B (k + 20) \<Longrightarrow> payables_step B db db'"
| return: "createPurchaseReturn company user dto now db = Inr (r, db') \<Longrightarrow> 0 \<le> prt_subtotal r \<Longrightarrow>
    2 * prt_subtotal r \<le> B \<Longrightarrow> payables_step B db db'"
| complete: "completePurchaseReturn i company user now db = Inr (r, db') \<Longrightarrow> payables_step B db db'"
| abandon: "cancelPurchaseReturn i company db = Inr (r, db') \<Longrightarrow> payables_step B db db'"

lemma linked_find:
  assumes "linked (purchaseOrders db) v"
  shows "\<exists>s. findOrder (iv_order v) (iv_company v) db = Inr s"
  using assms unfolding linked_def findOrder_def
  by (cases "List.find (\<lambda>o'. po_id o' = iv_order v \<and> po_company o' = iv_company v) (purchaseOrders db)")
    (auto simp: find_None_iff)

lemma found_linked:
  assumes ok: "payables_ok B db" and v: "v \<in> set (purchaseInvoices db)" and s: "findOrder (iv_order v) company db = Inr s"
    and st: "iv_status v \<noteq> InvVoided"
  shows "po_paid s = iv_paid v" "po_balance s = iv_balance v"
proof -
  from ok v have "linked (purchaseOrders db) v" and p: "purchase_ok db" by (simp_all add: payables_ok_def)
  then obtain x where x: "x \<in> set (purchaseOrders db)" "po_id x = iv_order v" "po_paid x = iv_paid v" "po_balance x = iv_balance v"
    using st by (auto simp: linked_def)
  have "x = s" using found_order_unique [OF p s x(1)] x(2) findOrder_mem [OF s] by simp
  with x show "po_paid s = iv_paid v" "po_balance s = iv_balance v" by simp_all
qed

lemma saveOrder_same:
  assumes "purchase_ok db" "findOrder i company db = Inr s"
  shows "saveOrder s db = db"
proof -
  have "map (\<lambda>x. if po_id x = po_id s then s else x) (purchaseOrders db) = map (\<lambda>x. x) (purchaseOrders db)"
    by (rule map_cong [OF refl]) (metis assms found_order_unique)
  then show ?thesis by (simp add: saveOrder_def)
qed

lemma findOrder_saveInvoice [simp]: "findOrder i company (saveInvoice w db) = findOrder i company db"
  by (simp add: findOrder_def saveInvoice_def)

text \<open>A new version of an invoice alone.\<close>

lemma saved_invoice:
  assumes ok: "payables_ok B db" and v: "v \<in> set (purchaseInvoices db)"
    and w: "invoice_follows v w" "invoice_ok B w"
    and l: "iv_status w \<noteq> InvVoided \<longrightarrow> iv_status v \<noteq> InvVoided \<and> iv_paid w = iv_paid v \<and> iv_balance w = iv_balance v"
  shows "payables_ok B (saveInvoice w db) \<and> invoices_grow db (saveInvoice w db)"
proof -
  from ok v have "linked (purchaseOrders db) v" and p: "purchase_ok db" by (simp_all add: payables_ok_def)
  then obtain s where s: "findOrder (iv_order v) (iv_company v) db = Inr s" using linked_find by blast
  have "order_stamped s" using p findOrder_mem [OF s] by (simp add: purchase_ok_def)
  then have "payables_ok B (saveOrder s (saveInvoice w db)) \<and> invoices_grow db (saveOrder s (saveInvoice w db))"
    using l found_linked [OF ok v s] by (intro settled [OF ok v s w]) auto
  moreover have "saveOrder s (saveInvoice w db) = saveInvoice w db"
  proof (rule saveOrder_same [of _ "iv_order v" "iv_company v"])
    show "purchase_ok (saveInvoice w db)" by (rule purchase_ok_tables [OF p]) (simp_all add: saveInvoice_def)
  qed (simp add: s)
  ultimately show ?thesis by simp
qed


lemma sync_ok:
  assumes ok: "payables_ok B db" and os: "distinct (map po_id os)" "set os \<subseteq> set (purchaseOrders db)"
    "\<forall>s \<in> set os. \<forall>v \<in> set (purchaseInvoices db). iv_order v \<noteq> po_id s"
    and f: "forEach (insertInvoice org company) os db = Inr db'"
  shows "payables_ok B db' \<and> invoices_grow db db'"
  using assms
proof (induction os arbitrary: db)
  case Nil
  then show ?case by (simp add: invoices_grow_same)
next
  case (Cons s os)
  from Cons.prems(5) obtain d where d: "insertInvoice org company s db = Inr d"
    and rest: "forEach (insertInvoice org company) os d = Inr db'" by auto
  let ?v = "draftInvoice org s (receiptsOfOrder company (po_id s) db) (rowIds db)"
  from d have t: "d = db\<lparr>purchaseInvoices := purchaseInvoices db @ [?v], rowIds := rowIds db + 1\<rparr>"
    by (auto simp: insertInvoice_def Let_def split: if_splits)
  have s: "s \<in> set (purchaseOrders db)" "\<forall>v \<in> set (purchaseInvoices db). iv_order v \<noteq> po_id s" using Cons.prems by auto
  have v: "iv_id ?v = rowIds db" "iv_order ?v = po_id s" "iv_company ?v = po_company s" "iv_status ?v = InvDraft"
    "iv_paid ?v = po_paid s" "iv_credited ?v = 0" "iv_balance ?v = po_balance s" "iv_grandTotal ?v = po_grandTotal s"
    by (simp_all add: draftInvoice_def Let_def)
  have "unpaid_order B s" using Cons.prems(1) s by (simp add: payables_ok_def)
  then have vok: "invoice_ok B ?v" "linked (purchaseOrders db) ?v"
    using s(1) by (auto simp: invoice_ok_def unpaid_order_def linked_def v)
  have "payables_ok B d"
    unfolding payables_ok_def
  proof (intro conjI)
    show "purchase_ok d"
      by (rule purchase_ok_tables [of db]) (use Cons.prems(1) in \<open>simp_all add: payables_ok_def t\<close>)
    show "distinct (map iv_order (purchaseInvoices d))" "distinct (map iv_id (purchaseInvoices d))"
      "\<forall>v \<in> set (purchaseInvoices d). iv_id v < rowIds d"
      "distinct (map prt_id (purchaseReturns d))" "\<forall>r \<in> set (purchaseReturns d). prt_id r < rowIds d"
      using Cons.prems(1) s(2) by (auto simp: payables_ok_def t v less_SucI)
    show "\<forall>v \<in> set (purchaseInvoices d). invoice_ok B v \<and> linked (purchaseOrders d) v"
      using Cons.prems(1) vok by (simp add: payables_ok_def t)
    show "\<forall>x \<in> set (purchaseOrders d). (\<forall>v \<in> set (purchaseInvoices d). iv_order v \<noteq> po_id x) \<longrightarrow> unpaid_order B x"
      using Cons.prems(1) by (simp add: payables_ok_def t)
    show "\<forall>r \<in> set (purchaseReturns d). return_linked B (purchaseInvoices d) r"
      using Cons.prems(1) by (auto simp: payables_ok_def t return_linked_def)
  qed
  then have "payables_ok B db' \<and> invoices_grow d db'"
    by (rule Cons.IH) (use Cons.prems rest in \<open>auto simp: t v\<close>)
  moreover have "invoices_grow db d"
    unfolding invoices_grow_def t using invoice_follows_refl by fastforce
  ultimately show ?case using invoices_grow_trans by blast
qed

lemma orders_kept:
  assumes k: "keeps_money B db db'" and ok: "payables_ok B db" and p: "purchase_ok db'"
  shows "payables_ok B (db' :: 'a payables_db_scheme) \<and> invoices_grow db db'"
proof
  from k have m: "purchase_db.more db' = purchase_db.more db" and i: "rowIds db \<le> rowIds db'" by (simp_all add: keeps_money_def)
  from m have t: "purchaseInvoices db' = purchaseInvoices db" "purchaseReturns db' = purchaseReturns db"
    by (cases db; cases db'; simp)+
  from k obtain old new where o: "purchaseOrders db' = old @ new" "list_all2 same_money (purchaseOrders db) old"
    "\<forall>s \<in> set new. rowIds db \<le> po_id s \<and> unpaid_order B s" by (auto simp: keeps_money_def)
  have "linked (purchaseOrders db') v" if v: "v \<in> set (purchaseInvoices db)" for v
  proof -
    have "linked (purchaseOrders db) v" using ok v by (simp add: payables_ok_def)
    then obtain s where s: "s \<in> set (purchaseOrders db)" "po_id s = iv_order v" "po_company s = iv_company v"
      "po_grandTotal s = iv_grandTotal v"
      "iv_status v \<noteq> InvVoided \<longrightarrow> po_paid s = iv_paid v \<and> po_balance s = iv_balance v"
      unfolding linked_def by blast
    from s(1) o(2) obtain x where "x \<in> set old" "same_money s x"
      by (metis in_set_conv_nth list_all2_conv_all_nth)
    with s o(1) show ?thesis unfolding linked_def by (intro bexI [of _ x]) (auto simp: same_money_def)
  qed
  moreover have "unpaid_order B x"
    if x: "x \<in> set (purchaseOrders db')" "\<forall>v \<in> set (purchaseInvoices db). iv_order v \<noteq> po_id x" for x
  proof (cases "x \<in> set new")
    case False
    with x(1) o(1) have "x \<in> set old" by simp
    then obtain s where s: "s \<in> set (purchaseOrders db)" "same_money s x"
      using o(2) by (metis in_set_conv_nth list_all2_conv_all_nth)
    then have "unpaid_order B s" using ok x(2) by (simp add: payables_ok_def same_money_def)
    with s(2) show ?thesis by (simp add: unpaid_order_def same_money_def)
  qed (use o(3) in blast)
  ultimately show "payables_ok B db'" using ok p i unfolding payables_ok_def t by (auto intro: less_le_trans)
  show "invoices_grow db db'" using t by (intro invoices_grow_same)
qed


lemma saved_return:
  assumes ok: "payables_ok B db" and r: "findPurchaseReturn i company db = Inr r"
    and s: "prt_id s = prt_id r" "prt_invoice s = prt_invoice r" "prt_order s = prt_order r"
      "prt_company s = prt_company r" "prt_subtotal s = prt_subtotal r"
  shows "payables_ok B (savePurchaseReturn s db)"
proof -
  let ?f = "\<lambda>x. if prt_id x = prt_id s then s else x"
  have r': "r \<in> set (purchaseReturns db)" using r by (auto simp: findPurchaseReturn_def dest: find_SomeD)
  have ids: "map prt_id (map ?f (purchaseReturns db)) = map prt_id (purchaseReturns db)" by simp
  have l: "return_linked B (purchaseInvoices db) x" if "x \<in> set (purchaseReturns db)" for x
    using ok that by (simp add: payables_ok_def)
  have "return_linked B (purchaseInvoices db) s" using l [OF r'] s by (simp add: return_linked_def)
  then have k: "\<forall>x \<in> set (map ?f (purchaseReturns db)). return_linked B (purchaseInvoices db) x" using l by auto
  have b: "\<forall>x \<in> set (map ?f (purchaseReturns db)). prt_id x < rowIds db"
    using ok by (auto simp: payables_ok_def)
  have "distinct (map prt_id (map ?f (purchaseReturns db)))" unfolding ids using ok by (simp add: payables_ok_def)
  moreover have "purchase_ok (savePurchaseReturn s db)"
    by (rule purchase_ok_tables [of db]) (use ok in \<open>simp_all add: payables_ok_def savePurchaseReturn_def\<close>)
  moreover have t: "purchaseReturns (savePurchaseReturn s db) = map ?f (purchaseReturns db)"
    "purchaseInvoices (savePurchaseReturn s db) = purchaseInvoices db"
    "purchaseOrders (savePurchaseReturn s db) = purchaseOrders db" "rowIds (savePurchaseReturn s db) = rowIds db"
    by (simp_all add: savePurchaseReturn_def)
  ultimately show ?thesis using ok k b unfolding payables_ok_def t by blast
qed

text \<open>The completion of a return, from the state after the stock loop.\<close>

lemma completePurchaseReturn_cases:
  assumes "completePurchaseReturn i company user now db = Inr (r', db')"
  shows "\<exists>r v s w d. findPurchaseReturn i company db = Inr r \<and> prt_status r = PrDraft
    \<and> findInvoice (prt_invoice r) company db = Inr v \<and> findOrder (prt_order r) company db = Inr s
    \<and> po_warehouse s = Some w
    \<and> forEach (sendBack w (prt_id r) user now)
        (sort_key px_variant (filter (\<lambda>x. px_return x = prt_id r) (purchaseReturnItems db))) db = Inr d
    \<and> r' = r\<lparr>prt_status := PrCompleted, prt_creditApplied := fst (creditNote v r),
         prt_supplierCredit := fst (snd (creditNote v r)), prt_completedBy := Some user,
         prt_completedAt := Some now\<rparr>
    \<and> db' = savePurchaseReturn r' (saveOrder (s\<lparr>po_balance := snd (snd (snd (creditNote v r))), po_updatedBy := user\<rparr>)
        (saveInvoice (v\<lparr>iv_credited := fst (snd (snd (creditNote v r))),
           iv_balance := snd (snd (snd (creditNote v r))), iv_updatedBy := user\<rparr>) d))"
  using assms unfolding completePurchaseReturn_def
  by (auto simp: Let_def case_prod_unfold split: if_splits option.splits)

lemma return_invoice:
  assumes ok: "payables_ok B db" and r: "findPurchaseReturn i company db = Inr r"
    and v: "findInvoice (prt_invoice r) company db = Inr v"
  shows "iv_order v = prt_order r" "0 \<le> prt_subtotal r" "2 * prt_subtotal r \<le> B"
proof -
  have "r \<in> set (purchaseReturns db)" using r by (auto simp: findPurchaseReturn_def dest: find_SomeD)
  then have l: "return_linked B (purchaseInvoices db) r" using ok by (simp add: payables_ok_def)
  then obtain x where x: "x \<in> set (purchaseInvoices db)" "iv_id x = prt_invoice r" "iv_order x = prt_order r"
    by (auto simp: return_linked_def)
  have "x = v" using found_invoice_unique [OF ok _ x(1), of v] findInvoice_mem [OF v] x(2) by simp
  with x l show "iv_order v = prt_order r" "0 \<le> prt_subtotal r" "2 * prt_subtotal r \<le> B"
    by (simp_all add: return_linked_def)
qed

lemma find_frame:
  assumes "stock_frame db d"
  shows "findInvoice i company d = findInvoice i company (db :: 'a payables_db_scheme)"
    "findOrder i company d = findOrder i company db" "findPurchaseReturn i company d = findPurchaseReturn i company db"
  using stock_frame_payables [OF assms] stock_frame_purchase [OF assms]
  by (simp_all add: findInvoice_def findOrder_def findPurchaseReturn_def)

lemma complete_ok:
  assumes ok: "payables_ok B db" and B: "fits B 20"
    and c: "completePurchaseReturn i company user now db = Inr (r', db')"
  shows "payables_ok B db' \<and> invoices_grow db (db' :: 'a payables_db_scheme)"
proof -
  from completePurchaseReturn_cases [OF c] obtain r v s w d where
      r: "findPurchaseReturn i company db = Inr r" and v: "findInvoice (prt_invoice r) company db = Inr v"
    and s: "findOrder (prt_order r) company db = Inr s"
    and loop: "forEach (sendBack w (prt_id r) user now)
        (sort_key px_variant (filter (\<lambda>x. px_return x = prt_id r) (purchaseReturnItems db))) db = Inr d"
    and r': "r' = r\<lparr>prt_status := PrCompleted, prt_creditApplied := fst (creditNote v r),
         prt_supplierCredit := fst (snd (creditNote v r)), prt_completedBy := Some user,
         prt_completedAt := Some now\<rparr>"
    and db': "db' = savePurchaseReturn r' (saveOrder (s\<lparr>po_balance := snd (snd (snd (creditNote v r))), po_updatedBy := user\<rparr>)
        (saveInvoice (v\<lparr>iv_credited := fst (snd (snd (creditNote v r))),
           iv_balance := snd (snd (snd (creditNote v r))), iv_updatedBy := user\<rparr>) d))" by blast
  have "moves_rows (lineDelta w px_variant (\<lambda>i. - px_quantity i)
      (sort_key px_variant (filter (\<lambda>x. px_return x = prt_id r) (purchaseReturnItems db)))) db d"
    by (rule sendBacks [OF loop])
  then have fr: "stock_frame db d" "rowIds db \<le> rowIds d" by (simp_all add: moves_rows_def)
  note same = stock_frame_payables [OF fr(1)] stock_frame_purchase [OF fr(1)]
  have okd: "payables_ok B d"
    by (rule payables_ok_tables [OF ok _ _ _ fr(2)]) (use same in blast)+
  note ri = return_invoice [OF ok r v]
  have vm: "v \<in> set (purchaseInvoices d)" using findInvoice_mem [OF v] same by simp
  have sd: "findOrder (iv_order v) company d = Inr s" using s ri(1) find_frame [OF fr(1)] by simp
  have vok: "invoice_ok B v" using okd vm by (simp add: payables_ok_def)
  have cn: "creditNote v r =
    (min (iv_balance v) (prt_subtotal r), max 0 (prt_subtotal r - iv_balance v),
     iv_credited v + min (iv_balance v) (prt_subtotal r),
     iv_grandTotal v - iv_paid v - (iv_credited v + min (iv_balance v) (prt_subtotal r)))"
    using vok ri by (intro creditNote_exact [OF _ _ _ _ _ _ _ B]) (auto simp: invoice_ok_def)
  let ?w = "v\<lparr>iv_credited := fst (snd (snd (creditNote v r))), iv_balance := snd (snd (snd (creditNote v r))),
      iv_updatedBy := user\<rparr>"
  let ?t = "s\<lparr>po_balance := snd (snd (snd (creditNote v r))), po_updatedBy := user\<rparr>"
  have st: "order_stamped s" using okd findOrder_mem [OF sd] by (simp add: payables_ok_def purchase_ok_def)
  have "payables_ok B (saveOrder ?t (saveInvoice ?w d)) \<and> invoices_grow d (saveOrder ?t (saveInvoice ?w d))"
  proof (rule settled [OF okd vm sd])
    show "invoice_ok B ?w" using vok ri by (auto simp: invoice_ok_def cn)
    show "iv_status ?w \<noteq> InvVoided \<longrightarrow> po_paid ?t = iv_paid ?w \<and> po_balance ?t = iv_balance ?w"
      using found_linked [OF okd vm sd] by simp
  qed (use st in \<open>simp_all add: invoice_follows_def order_follows_def order_stamped_def\<close>)
  moreover have "findPurchaseReturn i company (saveOrder ?t (saveInvoice ?w d)) = Inr r"
    using r find_frame(3) [OF fr(1), of i company] by (simp add: findPurchaseReturn_def saveOrder_def saveInvoice_def)
  ultimately have "payables_ok B db'" unfolding db' by (intro saved_return) (auto simp: r')
  moreover have "purchaseInvoices db' = purchaseInvoices (saveOrder ?t (saveInvoice ?w d))"
    by (simp add: db' savePurchaseReturn_def)
  ultimately show ?thesis
    using \<open>payables_ok B (saveOrder ?t (saveInvoice ?w d)) \<and> _\<close> same by (auto simp: invoices_grow_def)
qed


lemma insertPurchaseReturnItems:
  "purchaseReturns (fold (insertPurchaseReturnItem i) rows db) = purchaseReturns db"
  "purchaseInvoices (fold (insertPurchaseReturnItem i) rows db) = purchaseInvoices db"
  "purchaseOrders (fold (insertPurchaseReturnItem i) rows db) = purchaseOrders db"
  "orderItems (fold (insertPurchaseReturnItem i) rows db) = orderItems db"
  "receiptItems (fold (insertPurchaseReturnItem i) rows db) = receiptItems db"
  "rowIds (fold (insertPurchaseReturnItem i) rows db) = rowIds db + length rows"
  by (induction rows arbitrary: db) (simp_all add: insertPurchaseReturnItem_def)

lemma createPurchaseReturn_laws:
  assumes "createPurchaseReturn company user dto now db = Inr (r, db')"
  shows "\<exists>v. v \<in> set (purchaseInvoices db) \<and> prt_invoice r = iv_id v \<and> prt_order r = iv_order v
    \<and> prt_company r = iv_company v \<and> prt_id r = rowIds db
    \<and> purchaseReturns db' = purchaseReturns db @ [r] \<and> purchaseInvoices db' = purchaseInvoices db
    \<and> purchaseOrders db' = purchaseOrders db \<and> orderItems db' = orderItems db \<and> receiptItems db' = receiptItems db
    \<and> rowIds db < rowIds db'"
proof -
  obtain n db1 where g: "generatePurchaseReturnNumber company (getUTCFullYear now) db = (n, db1)" by force
  have fr: "purchaseReturns db1 = purchaseReturns db" "purchaseInvoices db1 = purchaseInvoices db"
    "purchaseOrders db1 = purchaseOrders db" "orderItems db1 = orderItems db" "receiptItems db1 = receiptItems db"
    "rowIds db1 = rowIds db"
    using g by (auto simp: generatePurchaseReturnNumber_def next_sequence_eq)
  show ?thesis
    using assms g
    by (auto simp: createPurchaseReturn_def Let_def insertPurchaseReturnItems fr split: if_splits dest!: find_SomeD)
qed

lemma uninvoiced:
  assumes ok: "payables_ok B db"
    and s: "s \<in> set (ordersToInvoice company supplierId db)" "v \<in> set (purchaseInvoices db)"
  shows "iv_order v \<noteq> po_id s"
proof
  assume e: "iv_order v = po_id s"
  have s': "s \<in> set (purchaseOrders db)" "po_company s = company" and n: "iv_company v \<noteq> company"
    using s e by (auto simp: ordersToInvoice_def)
  have "linked (purchaseOrders db) v" using ok s(2) by (simp add: payables_ok_def)
  then obtain x where x: "x \<in> set (purchaseOrders db)" "po_id x = po_id s" "po_company x = iv_company v"
    using e by (auto simp: linked_def)
  have "inj_on po_id (set (purchaseOrders db))" using ok by (simp add: payables_ok_def purchase_ok_def distinct_map)
  from inj_onD [OF this x(2,1) s'(1)] x(3) s'(2) n show False by simp
qed

lemma payables_step_ok:
  assumes step: "payables_step B db db'" and ok: "payables_ok B db" and B: "fits B 20" "0 < B"
  shows "payables_ok B db' \<and> invoices_grow db db'"
  using step
proof cases
  case order
  have p: "purchase_ok db" using ok by (simp add: payables_ok_def)
  have "purchase_ok db'" using purchase_step_ok [OF order_step_purchase [OF order] p] by blast
  with order_step_keeps [OF order p] ok show ?thesis by (rule orders_kept [rotated 2, rotated])
next
  case (sync org company supplierId)
  have "distinct (map po_id (purchaseOrders db))" using ok by (simp add: payables_ok_def purchase_ok_def)
  then have d: "distinct (map po_id (ordersToInvoice company supplierId db))"
    by (simp add: ordersToInvoice_def distinct_map_filter)
  have "iv_order v \<noteq> po_id s" if "s \<in> set (ordersToInvoice company supplierId db)" "v \<in> set (purchaseInvoices db)" for s v
    using uninvoiced [OF ok that] .
  then show ?thesis
    using sync by (intro sync_ok [OF ok d]) (auto simp: syncEligibleInvoices_def ordersToInvoice_def)
next
  case (post i company user now v')
  then obtain v where v: "findInvoice i company db = Inr v" "iv_status v = InvDraft"
    and t: "db' = saveInvoice (v\<lparr>iv_status := InvPosted, iv_postedAt := Some now, iv_postedBy := Some user,
                     iv_updatedBy := user\<rparr>) db"
    by (auto simp: postRun_def Let_def split: if_splits)
  have "invoice_ok B v" using ok findInvoice_mem [OF v(1)] by (simp add: payables_ok_def)
  then show ?thesis unfolding t using findInvoice_mem [OF v(1)] v(2)
    by (intro saved_invoice [OF ok]) (auto simp: invoice_ok_def invoice_follows_def)
next
  case (void i company user reason now v')
  then obtain v where v: "findInvoice i company db = Inr v" "iv_status v \<noteq> InvVoided"
    and z: "\<not> js_eps < js_num (iv_paid v)" "\<not> js_eps < js_num (iv_credited v)"
    and t: "db' = saveInvoice (v\<lparr>iv_status := InvVoided, iv_voidedAt := Some now, iv_voidedBy := Some user,
                   iv_voidReason := Some reason, iv_balance := 0, iv_updatedBy := user\<rparr>) db"
    by (auto simp: voidRun_def Let_def split: if_splits)
  have "invoice_ok B v" using ok findInvoice_mem [OF v(1)] by (simp add: payables_ok_def)
  then show ?thesis unfolding t using findInvoice_mem [OF v(1)] v(2) z
    by (intro saved_invoice [OF ok]) (auto simp: invoice_ok_def invoice_follows_def js_num_above_eps)
next
  case (pay i company a user k n)
  then obtain v s where v: "findInvoice i company db = Inr v" "iv_status v = InvPosted"
    and s: "findOrder (iv_order v) company db = Inr s"
    and e: "\<not> exceeds (js_add (js_num (iv_paid v)) a) (js_sub (js_num (iv_grandTotal v)) (js_num (iv_credited v)))"
    and t: "db' = settle v s (to_fixed2 (js_add (js_num (iv_paid v)) a)) (to_fixed2 (js_sub (js_sub (js_num (iv_grandTotal v))
        (js_num (iv_credited v))) (js_add (js_num (iv_paid v)) a))) user db"
    by (auto simp: applyInvoicePayment_def Let_def split: if_splits)
  have m: "v \<in> set (purchaseInvoices db)" and iok: "invoice_ok B v" and st: "order_stamped s"
    using ok findInvoice_mem [OF v(1)] findOrder_mem [OF s] by (auto simp: payables_ok_def purchase_ok_def)
  have g: "iv_paid v + n + iv_credited v \<le> iv_grandTotal v" "to_fixed2 (js_add (js_num (iv_paid v)) a) = iv_paid v + n"
    "to_fixed2 (js_sub (js_sub (js_num (iv_grandTotal v)) (js_num (iv_credited v))) (js_add (js_num (iv_paid v)) a))
      = iv_grandTotal v - iv_credited v - (iv_paid v + n)"
    using iok B(2) by (intro pay_exact [OF pay(2-5) _ _ _ _ _ e]; simp add: invoice_ok_def)+
  show ?thesis unfolding t settle_def g(2,3)
    by (rule settled [OF ok m s])
      (use iok st g(1) pay(3) v(2) in \<open>auto simp: invoice_ok_def invoice_follows_def order_follows_def order_stamped_def\<close>)
next
  case (unpay i company a user k n)
  then obtain v s where v: "findInvoice i company db = Inr v"
    and s: "findOrder (iv_order v) company db = Inr s"
    and e: "\<not> js_sub (js_num (iv_paid v)) a < - js_eps"
    and t: "db' = settle v s (to_fixed2 (max 0 (js_sub (js_num (iv_paid v)) a)))
        (to_fixed2 (js_sub (js_sub (js_num (iv_grandTotal v)) (js_num (iv_credited v)))
          (max 0 (js_sub (js_num (iv_paid v)) a)))) user db"
    by (auto simp: unapplyInvoicePayment_def Let_def split: if_splits)
  have m: "v \<in> set (purchaseInvoices db)" and iok: "invoice_ok B v" and st: "order_stamped s"
    using ok findInvoice_mem [OF v] findOrder_mem [OF s] by (auto simp: payables_ok_def purchase_ok_def)
  have c: "0 \<le> iv_paid v" "0 \<le> iv_credited v" "iv_paid v + iv_credited v \<le> iv_grandTotal v" "2 * iv_grandTotal v \<le> B"
    using iok by (simp_all add: invoice_ok_def)
  have g: "n \<le> iv_paid v" "to_fixed2 (max 0 (js_sub (js_num (iv_paid v)) a)) = iv_paid v - n"
    "to_fixed2 (js_sub (js_sub (js_num (iv_grandTotal v)) (js_num (iv_credited v))) (max 0 (js_sub (js_num (iv_paid v)) a)))
      = iv_grandTotal v - iv_credited v - (iv_paid v - n)"
    by (rule unpay_exact [OF unpay(2-5) c e])+
  have "invoice_ok B (v\<lparr>iv_paid := iv_paid v - n, iv_balance := iv_grandTotal v - iv_credited v - (iv_paid v - n),
      iv_updatedBy := user\<rparr>)"
    using iok g(1) unpay(3) unfolding invoice_ok_def by (cases "iv_status v") simp_all
  then show ?thesis unfolding t settle_def g(2,3)
    by (rule settled [OF ok m s, rotated])
      (use st in \<open>simp_all add: invoice_follows_def order_follows_def order_stamped_def\<close>)
next
  case (return company user dto now r)
  from createPurchaseReturn_laws [OF return(1)] obtain v where v: "v \<in> set (purchaseInvoices db)"
      "prt_invoice r = iv_id v" "prt_order r = iv_order v" "prt_company r = iv_company v" "prt_id r = rowIds db"
    and t: "purchaseReturns db' = purchaseReturns db @ [r]" "purchaseInvoices db' = purchaseInvoices db"
      "purchaseOrders db' = purchaseOrders db" "orderItems db' = orderItems db" "receiptItems db' = receiptItems db"
      "rowIds db < rowIds db'" by blast
  have "purchase_ok db" using ok by (simp add: payables_ok_def)
  then have "purchase_ok db'" by (rule purchase_ok_tables [OF _ t(3-5) less_imp_le [OF t(6)]])
  moreover have "return_linked B (purchaseInvoices db) r" 
    unfolding return_linked_def using return(2,3) v by (intro conjI bexI [of _ v]) simp_all
  moreover have "\<forall>v \<in> set (purchaseInvoices db). iv_id v < rowIds db'"
    "\<forall>x \<in> set (purchaseReturns db @ [r]). prt_id x < rowIds db'" "distinct (map prt_id (purchaseReturns db @ [r]))"
    using ok v(5) t(6) by (auto simp: payables_ok_def intro: less_trans)
  ultimately have "payables_ok B db'" using ok unfolding payables_ok_def t(1-3) by simp
  then show ?thesis using t(2) by (auto intro: invoices_grow_same)
next
  case (complete i company user now r)
  from complete_ok [OF ok B(1) this] show ?thesis .
next
  case (abandon i company r')
  then obtain r where r: "findPurchaseReturn i company db = Inr r"
    and t: "db' = savePurchaseReturn (r\<lparr>prt_status := PrCancelled\<rparr>) db"
    by (auto simp: cancelPurchaseReturn_def Let_def split: if_splits)
  have "payables_ok B db'" unfolding t by (rule saved_return [OF ok r]) simp_all
  moreover have "purchaseInvoices db' = purchaseInvoices db" by (simp add: t savePurchaseReturn_def)
  ultimately show ?thesis using invoices_grow_same by blast
qed


lemma payables_steps_ok:
  "(payables_step B)\<^sup>*\<^sup>* db db' \<Longrightarrow> payables_ok B db \<Longrightarrow> fits B 20 \<Longrightarrow> 0 < B \<Longrightarrow>
    payables_ok B db' \<and> invoices_grow db db'"
proof (induction rule: rtranclp_induct)
  case base
  then show ?case by (simp add: invoices_grow_same)
next
  case (step d e)
  then show ?case using payables_step_ok [of B d e] invoices_grow_trans by blast
qed

section \<open>A concrete invoice\<close>

definition demo_payables0 :: payables_db where
  "demo_payables0 = purchase_db.extend demo_purchase3
     \<lparr>purchaseInvoices = [], purchaseReturns = [], purchaseReturnItems = [], purchaseReturnCounters = Map.empty\<rparr>"

lemma demo_payables0_tables:
  "purchaseOrders demo_payables0 = [demo_approved]" "orderItems demo_payables0 = [demo_order_item]"
  "receiptItems demo_payables0 = [receipt_row.extend demo_receipt_row \<lparr>gi_id = 117, gi_receipt = 116\<rparr>]"
  "goodsReceipts demo_payables0 = [demo_receipt]" "rowIds demo_payables0 = 119"
  "warehouseStock demo_payables0 = [(2, 20) \<mapsto> \<lparr>onHandQuantity = 7, reservedQuantity = 0\<rparr>]"
  "purchaseInvoices demo_payables0 = []" "purchaseReturns demo_payables0 = []" "purchaseReturnItems demo_payables0 = []"
  "purchaseReturnCounters demo_payables0 = Map.empty"
  by (simp_all add: demo_payables0_def purchase_db.extend_def demo_purchase3_def demo_purchase2_tables
      del: One_nat_def)

lemma demo_payables_ok: "payables_ok (10 ^ 10) demo_payables0"
proof -
  have "purchase_ok demo_purchase3" using purchase_steps_ok [OF demo_purchase3_steps demo_purchase_ok] by blast
  then have "purchase_ok demo_payables0"
    by (rule purchase_ok_tables) (simp_all add: demo_payables0_tables demo_purchase3_def demo_purchase2_tables)
  then show ?thesis
    by (simp add: payables_ok_def demo_payables0_tables unpaid_order_def demo_approved_def demo_order_def)
qed

definition demo_invoice :: purchase_invoice where
  "demo_invoice = \<lparr>iv_id = 119, iv_number = ''PINV-2026-000001'', iv_company = 1, iv_supplier = 7, iv_order = 114,
     iv_date = ((2026, 3, 5), 0), iv_dueDate = ((2026, 3, 5), 0), iv_status = InvDraft, iv_subtotal = 3750,
     iv_discount = 250, iv_tax = 50, iv_grandTotal = 3550, iv_paid = 0, iv_credited = 0, iv_balance = 3550,
     iv_currency = ''USD'', iv_createdBy = 9, iv_updatedBy = 8, iv_postedAt = None, iv_postedBy = None,
     iv_voidedAt = None, iv_voidedBy = None, iv_voidReason = None\<rparr>"

definition demo_payables1 :: payables_db where
  "demo_payables1 = demo_payables0\<lparr>purchaseInvoices := [demo_invoice], rowIds := 120\<rparr>"

lemma demo_sync: "syncEligibleInvoices demo_org_buy 1 None demo_payables0 = Inr demo_payables1"
proof -
  have n: "formatPurchaseOrderNumber 2026 (Suc 0) = ''PO-2026-000001''"
    by code_simp
  have r: "receiptsOfOrder 1 114 demo_payables0 = [demo_receipt]"
    by (simp add: receiptsOfOrder_def demo_payables0_tables demo_receipt_def)
  have o': "ordersToInvoice 1 None demo_payables0 = [demo_approved]"
    by (simp add: ordersToInvoice_def demo_payables0_tables demo_approved_def demo_order_def isReleasedPurchaseOrder_def r del: One_nat_def)
  have "draftInvoice demo_org_buy demo_approved [demo_receipt] 119 = demo_invoice"
    by (simp add: draftInvoice_def demo_approved_def demo_order_def demo_receipt_def demo_org_buy_def buildDueDate_def
        addUTCDays_def deriveInvoiceNumber_def n demo_invoice_def Let_def)
  then show ?thesis
    by (simp add: syncEligibleInvoices_def o' insertInvoice_def r demo_payables0_tables demo_payables1_def
        Let_def del: One_nat_def) (simp add: demo_approved_def demo_order_def r demo_payables0_tables del: One_nat_def)
qed


section \<open>Invoices in step with their orders\<close>

text \<open>C25: an order has at most one invoice; an invoice that is not voided splits its total exactly into paid,
  credited and open amounts, none of them negative, with its order carrying the same paid and open amounts; a
  voided invoice has nothing paid, stays voided, and its credited and open amounts do not exceed its total; an
  invoice never loses its number, order or total. This holds after any sequence of: orders created, submitted,
  approved, confirmed, rejected, closed and cancelled, receipts that name an order item at most once, invoices
  synchronised, posted and voided, payments applied to invoices and taken back, returns created, completed and
  cancelled, one request after the other, with amounts such that twenty roundings of the bound \<open>B\<close> stay below
  half a cent. Payments applied to an order directly are left out: the payment service admits invoices only, so
  nothing calls that operation with effect.\<close>

theorem invoice_in_step:
  assumes "(payables_step B)\<^sup>*\<^sup>* db db'" and "payables_ok B db" and "fits B 20" and "0 < B"
  shows "distinct (map iv_order (purchaseInvoices db'))
    \<and> (\<forall>v \<in> set (purchaseInvoices db'). iv_status v \<noteq> InvVoided \<longrightarrow>
        iv_paid v + iv_credited v + iv_balance v = iv_grandTotal v
        \<and> 0 \<le> iv_paid v \<and> 0 \<le> iv_credited v \<and> 0 \<le> iv_balance v
        \<and> (\<exists>s \<in> set (purchaseOrders db'). po_id s = iv_order v \<and> po_paid s = iv_paid v \<and> po_balance s = iv_balance v))
    \<and> (\<forall>v \<in> set (purchaseInvoices db'). iv_status v = InvVoided \<longrightarrow>
        iv_paid v = 0 \<and> 0 \<le> iv_credited v \<and> 0 \<le> iv_balance v \<and> iv_credited v + iv_balance v \<le> iv_grandTotal v)
    \<and> (\<forall>v \<in> set (purchaseInvoices db). \<exists>w \<in> set (purchaseInvoices db'). iv_id w = iv_id v
        \<and> iv_number w = iv_number v \<and> iv_order w = iv_order v \<and> iv_grandTotal w = iv_grandTotal v
        \<and> (iv_status v = InvVoided \<longrightarrow> iv_status w = InvVoided))"
proof -
  note r = payables_steps_ok [OF assms]
  have "\<forall>v \<in> set (purchaseInvoices db'). iv_status v \<noteq> InvVoided \<longrightarrow>
        iv_paid v + iv_credited v + iv_balance v = iv_grandTotal v
        \<and> 0 \<le> iv_paid v \<and> 0 \<le> iv_credited v \<and> 0 \<le> iv_balance v
        \<and> (\<exists>s \<in> set (purchaseOrders db'). po_id s = iv_order v \<and> po_paid s = iv_paid v \<and> po_balance s = iv_balance v)"
    using r unfolding payables_ok_def invoice_ok_def linked_def by blast
  moreover have "\<forall>v \<in> set (purchaseInvoices db). \<exists>w \<in> set (purchaseInvoices db'). iv_id w = iv_id v
        \<and> iv_number w = iv_number v \<and> iv_order w = iv_order v \<and> iv_grandTotal w = iv_grandTotal v
        \<and> (iv_status v = InvVoided \<longrightarrow> iv_status w = InvVoided)"
    using r unfolding invoices_grow_def invoice_follows_def by blast
  moreover have "distinct (map iv_order (purchaseInvoices db'))" using r by (simp add: payables_ok_def)
  moreover have "iv_paid v = 0 \<and> 0 \<le> iv_credited v \<and> 0 \<le> iv_balance v \<and> iv_credited v + iv_balance v \<le> iv_grandTotal v"
    if v: "v \<in> set (purchaseInvoices db')" "iv_status v = InvVoided" for v
  proof -
    have "invoice_ok B v" using r v(1) by (simp add: payables_ok_def)
    with v(2) show ?thesis unfolding invoice_ok_def by simp
  qed
  ultimately show ?thesis by blast
qed

lemma demo_payables_steps: "(payables_step B)\<^sup>*\<^sup>* demo_payables0 demo_payables1"
  using payables_step.sync [OF demo_sync] by (rule r_into_rtranclp)

theorem invoice_in_step_witness:
  "iv_paid demo_invoice + iv_credited demo_invoice + iv_balance demo_invoice = iv_grandTotal demo_invoice
    \<and> (\<exists>s \<in> set (purchaseOrders demo_payables1). po_id s = 114 \<and> po_balance s = 3550)"
  using invoice_in_step [OF demo_payables_steps demo_payables_ok]
  by (auto simp: fits_def demo_payables1_def demo_invoice_def)

section \<open>Completing a return\<close>

lemma lineDelta_minus: "lineDelta w var (\<lambda>i. - f i) items x v = - lineDelta w var f items x v"
  by (induction items) simp_all

text \<open>C26: completing a return to a supplier takes exactly its quantities out of the warehouse of the order,
  with movements that say so, never below zero, and settles its amount in full: up to the open amount of
  the invoice as credit, which reduces what is open there, and the rest as credit with the supplier.\<close>

theorem return_credits_invoice:
  assumes c: "completePurchaseReturn i company user now db = Inr (r', db')" and ok: "payables_ok B db"
    and B: "fits B 20" and nn: "stock_nonneg db"
  shows "\<exists>v w items ms u. v \<in> set (purchaseInvoices db) \<and> iv_id v = prt_invoice r'
    \<and> items = filter (\<lambda>x. px_return x = i) (purchaseReturnItems db)
    \<and> (\<forall>x y. level db' x y = level db x y - lineDelta w px_variant px_quantity items x y)
    \<and> stockMovements db' = stockMovements db @ ms
    \<and> (\<forall>x y. movementSum ms x y = - lineDelta w px_variant px_quantity items x y) \<and> stock_nonneg db'
    \<and> prt_creditApplied r' = min (iv_balance v) (prt_subtotal r')
    \<and> prt_creditApplied r' + prt_supplierCredit r' = prt_subtotal r'
    \<and> u \<in> set (purchaseInvoices db') \<and> iv_id u = iv_id v \<and> iv_credited u = iv_credited v + prt_creditApplied r'
    \<and> (iv_status v \<noteq> InvVoided \<longrightarrow> iv_balance u = iv_balance v - prt_creditApplied r')"
proof -
  from completePurchaseReturn_cases [OF c] obtain r v s w d where
      r: "findPurchaseReturn i company db = Inr r" and v: "findInvoice (prt_invoice r) company db = Inr v"
    and loop: "forEach (sendBack w (prt_id r) user now)
        (sort_key px_variant (filter (\<lambda>x. px_return x = prt_id r) (purchaseReturnItems db))) db = Inr d"
    and r': "r' = r\<lparr>prt_status := PrCompleted, prt_creditApplied := fst (creditNote v r),
         prt_supplierCredit := fst (snd (creditNote v r)), prt_completedBy := Some user,
         prt_completedAt := Some now\<rparr>"
    and db': "db' = savePurchaseReturn r' (saveOrder (s\<lparr>po_balance := snd (snd (snd (creditNote v r))), po_updatedBy := user\<rparr>)
        (saveInvoice (v\<lparr>iv_credited := fst (snd (snd (creditNote v r))),
           iv_balance := snd (snd (snd (creditNote v r))), iv_updatedBy := user\<rparr>) d))" by blast
  let ?items = "filter (\<lambda>x. px_return x = i) (purchaseReturnItems db)"
  have ri: "prt_id r = i" using r by (auto simp: findPurchaseReturn_def dest: find_SomeD)
  note mr = sendBacks [OF loop]
  from moves_rows_logs [OF mr(1)] obtain ms where ms: "logs db d ms"
      "\<forall>x y. movementSum ms x y = lineDelta w px_variant (\<lambda>i. - px_quantity i) ?items x y" by (auto simp: ri)
  have fr: "stock_frame db d" using mr(1) by (simp add: moves_rows_def)
  have lev: "level db' x y = level d x y" "stockMovements db' = stockMovements d" for x y
    by (simp_all add: db' savePurchaseReturn_def saveOrder_def saveInvoice_def level_def)
  have vm: "v \<in> set (purchaseInvoices db)" "iv_id v = prt_invoice r" using findInvoice_mem [OF v] by simp_all
  have vok: "invoice_ok B v" using ok vm by (simp add: payables_ok_def)
  have cn: "creditNote v r =
    (min (iv_balance v) (prt_subtotal r), max 0 (prt_subtotal r - iv_balance v),
     iv_credited v + min (iv_balance v) (prt_subtotal r),
     iv_grandTotal v - iv_paid v - (iv_credited v + min (iv_balance v) (prt_subtotal r)))"
    using vok return_invoice [OF ok r v] by (intro creditNote_exact [OF _ _ _ _ _ _ _ B]) (auto simp: invoice_ok_def)
  let ?u = "v\<lparr>iv_credited := iv_credited v + min (iv_balance v) (prt_subtotal r),
      iv_balance := iv_grandTotal v - iv_paid v - (iv_credited v + min (iv_balance v) (prt_subtotal r)),
      iv_updatedBy := user\<rparr>"
  have "?u \<in> set (purchaseInvoices db')"
    using vm(1) stock_frame_payables [OF fr] by (auto simp: db' savePurchaseReturn_def saveOrder_def saveInvoice_def cn image_iff)
  moreover have "iv_status v \<noteq> InvVoided \<longrightarrow> iv_balance ?u = iv_balance v - min (iv_balance v) (prt_subtotal r)"
    using vok by (auto simp: invoice_ok_def)
  moreover have "stock_nonneg db'" using mr(2) [OF nn] by (simp add: stock_nonneg_def lev)
  ultimately show ?thesis
    using vm ms by (intro exI [of _ v] exI [of _ w] exI [of _ ?items] exI [of _ ms] exI [of _ ?u])
      (auto simp: r' cn lev logs_def lineDelta_minus)
qed

definition demo_supplier_return :: purchase_return where
  "demo_supplier_return = \<lparr>prt_id = 120, prt_number = formatDocumentNumber ''PRTN'' 2026 1, prt_company = 1,
     prt_branch = None, prt_supplier = 7, prt_order = 114, prt_invoice = 119, prt_status = PrDraft,
     prt_subtotal = 1250, prt_creditApplied = 0, prt_supplierCredit = 0, prt_currency = ''USD'',
     prt_createdBy = 9, prt_completedBy = None, prt_completedAt = None\<rparr>"

definition demo_sent_back :: purchase_return_item where
  "demo_sent_back = \<lparr>px_orderItem = 115, px_variant = 20, px_quantity = 1, px_unitCost = 1250, px_lineTotal = 1250,
     px_productName = ''Tee'', px_sku = ''TEE-M'', px_id = 121, px_return = 120\<rparr>"

definition demo_payables2 :: payables_db where
  "demo_payables2 = demo_payables1\<lparr>purchaseReturns := [demo_supplier_return], purchaseReturnItems := [demo_sent_back],
     purchaseReturnCounters := [(1, 2026) \<mapsto> 1], rowIds := 122\<rparr>"

lemma demo_createPurchaseReturn:
  "createPurchaseReturn 1 9 \<lparr>pc_supplier = 7, pc_invoice = 119, pc_items = [\<lparr>pd_orderItem = 115, pd_quantity = 1\<rparr>]\<rparr>
     ((2026, 3, 8), 0) demo_payables1 = Inr (demo_supplier_return, demo_payables2)"
proof -
  have t: "purchaseInvoices demo_payables1 = [demo_invoice]" "purchaseOrders demo_payables1 = [demo_approved]"
    "orderItems demo_payables1 = [demo_order_item]" "goodsReceipts demo_payables1 = [demo_receipt]"
    "receiptItems demo_payables1 = [receipt_row.extend demo_receipt_row \<lparr>gi_id = 117, gi_receipt = 116\<rparr>]"
    "purchaseReturns demo_payables1 = []" "purchaseReturnItems demo_payables1 = []" "rowIds demo_payables1 = 120"
    "purchaseReturnCounters demo_payables1 = Map.empty"
    by (simp_all add: demo_payables1_def demo_payables0_tables)
  have g: "generatePurchaseReturnNumber 1 2026 demo_payables1
      = (formatDocumentNumber ''PRTN'' 2026 1, demo_payables1\<lparr>purchaseReturnCounters := [(1, 2026) \<mapsto> 1]\<rparr>)"
    by (simp add: generatePurchaseReturnNumber_def next_sequence_eq last_sequence_def t)
  have q: "receivedQuantity 114 1 115 demo_payables1 = 2"
    by (simp add: receivedQuantity_def t demo_receipt_def demo_receipt_row_def receipt_row.defs)
  have i: "supplierReturnItem 114 1 demo_payables1 \<lparr>pd_orderItem = 115, pd_quantity = 1\<rparr> (0, [])
      = Inr (25 / 2, [purchase_return_row.truncate demo_sent_back])"
    by (simp add: supplierReturnItem_def t getReturnedQuantityForOrderItem_def supplierReturnRow_def demo_order_item_def
        demo_sent_back_def purchase_return_row.defs demo_numbers demo_amounts Let_def q del: One_nat_def)
  show ?thesis
    by (simp add: createPurchaseReturn_def t demo_invoice_def demo_approved_def demo_order_def i getUTCFullYear_def g
        Let_def del: One_nat_def)
      (simp add: demo_supplier_return_def demo_payables2_def insertPurchaseReturnItem_def demo_sent_back_def
        purchase_return_row.defs demo_amounts t demo_invoice_def)
qed


lemma demo_completePurchaseReturn:
  "\<exists>r db. completePurchaseReturn 120 1 9 ((2026, 3, 8), 1) demo_payables2 = Inr (r, db) \<and> level db 2 20 = 6
    \<and> prt_creditApplied r = 1250"
proof -
  have t: "purchaseInvoices demo_payables2 = [demo_invoice]" "purchaseOrders demo_payables2 = [demo_approved]"
    "purchaseReturns demo_payables2 = [demo_supplier_return]" "purchaseReturnItems demo_payables2 = [demo_sent_back]"
    "level demo_payables2 2 20 = 7"
    by (simp_all add: demo_payables2_def demo_payables1_def demo_payables0_tables level_def)
  have f: "prt_id demo_supplier_return = 120" "prt_status demo_supplier_return = PrDraft"
    "prt_company demo_supplier_return = 1" "prt_invoice demo_supplier_return = 119" "prt_order demo_supplier_return = 114"
    "iv_id demo_invoice = 119" "iv_company demo_invoice = 1" "px_return demo_sent_back = 120"
    by (simp_all add: demo_supplier_return_def demo_invoice_def demo_sent_back_def)
  have m: "moves_row 2 20 (- 1) demo_payables2 (backTurn 2 120 9 ((2026, 3, 8), 1) demo_sent_back demo_payables2)"
    using back_turns.turn_moves [where i = demo_sent_back and w = 2] by (simp add: demo_sent_back_def)
  have "creditNote demo_invoice demo_supplier_return = (1250, 0, 1250, 2300)"
    using creditNote_exact [of demo_invoice "10 ^ 10" demo_supplier_return]
    by (simp add: demo_invoice_def demo_supplier_return_def fits_def)
  moreover have "sendBack 2 120 9 ((2026, 3, 8), 1) demo_sent_back demo_payables2
      = Inr (backTurn 2 120 9 ((2026, 3, 8), 1) demo_sent_back demo_payables2)"
    using t(5) by (simp add: sendBack_Inr) (simp add: demo_sent_back_def)
  moreover have "level (backTurn 2 120 9 ((2026, 3, 8), 1) demo_sent_back demo_payables2) 2 20 = 6"
    using m t(5) by (auto simp: moves_row_def logs_def)
  ultimately show ?thesis
    by (simp add: completePurchaseReturn_def findPurchaseReturn_def findInvoice_def findOrder_def t
        f demo_approved_def demo_order_def
        savePurchaseReturn_def saveOrder_def saveInvoice_def level_def Let_def del: One_nat_def)
qed

theorem return_credits_invoice_witness:
  "\<exists>r db. completePurchaseReturn 120 1 9 ((2026, 3, 8), 1) demo_payables2 = Inr (r, db)
    \<and> prt_creditApplied r + prt_supplierCredit r = 1250 \<and> stock_nonneg db"
proof -
  from demo_completePurchaseReturn obtain r db where
    c: "completePurchaseReturn 120 1 9 ((2026, 3, 8), 1) demo_payables2 = Inr (r, db)" by blast
  have "(payables_step (10 ^ 10))\<^sup>*\<^sup>* demo_payables0 demo_payables2"
    by (rule rtranclp.rtrancl_into_rtrancl [OF demo_payables_steps payables_step.return [OF demo_createPurchaseReturn]])
      (simp_all add: demo_supplier_return_def)
  then have ok: "payables_ok (10 ^ 10) demo_payables2"
    using payables_steps_ok [OF _ demo_payables_ok] by (simp add: fits_def)
  have "stock_nonneg demo_payables2"
    by (simp add: stock_nonneg_def level_def demo_payables2_def demo_payables1_def demo_payables0_tables)
  from return_credits_invoice [OF c ok _ this] have
    "prt_creditApplied r + prt_supplierCredit r = prt_subtotal r \<and> stock_nonneg db" by (simp add: fits_def) blast
  moreover have "prt_subtotal r = 1250"
    using completePurchaseReturn_cases [OF c]
    by (auto simp: findPurchaseReturn_def demo_payables2_def demo_supplier_return_def split: if_splits)
  ultimately show ?thesis using c by auto
qed

section \<open>What voiding leaves behind\<close>

text \<open>A return completed after its invoice was voided opens the voided invoice again, and its order, for
  the full total.\<close>

lemma voided_invoice_reopened:
  assumes c: "completePurchaseReturn i company user now db = Inr (r', db')" and ok: "payables_ok B db" and B: "fits B 20"
    and r: "findPurchaseReturn i company db = Inr r" and v: "findInvoice (prt_invoice r) company db = Inr v"
    and void: "iv_status v = InvVoided" "iv_credited v = 0" "iv_balance v = 0"
  shows "\<exists>u \<in> set (purchaseInvoices db'). iv_id u = iv_id v \<and> iv_status u = InvVoided \<and> iv_balance u = iv_grandTotal v"
proof -
  from completePurchaseReturn_cases [OF c] obtain s w d where
      loop: "forEach (sendBack w (prt_id r) user now)
        (sort_key px_variant (filter (\<lambda>x. px_return x = prt_id r) (purchaseReturnItems db))) db = Inr d"
    and db': "db' = savePurchaseReturn r' (saveOrder (s\<lparr>po_balance := snd (snd (snd (creditNote v r))), po_updatedBy := user\<rparr>)
        (saveInvoice (v\<lparr>iv_credited := fst (snd (snd (creditNote v r))),
           iv_balance := snd (snd (snd (creditNote v r))), iv_updatedBy := user\<rparr>) d))" using r v by auto
  have fr: "stock_frame db d" using sendBacks(1) [OF loop] by (simp add: moves_rows_def)
  have vm: "v \<in> set (purchaseInvoices db)" using findInvoice_mem [OF v] by simp
  have vok: "invoice_ok B v" using ok vm by (simp add: payables_ok_def)
  have "snd (snd (snd (creditNote v r))) = iv_grandTotal v"
    using vok return_invoice [OF ok r v] void
    by (subst creditNote_exact [OF _ _ _ _ _ _ _ B]) (auto simp: invoice_ok_def)
  then show ?thesis
    using vm stock_frame_payables [OF fr] void(1)
    by (intro bexI [of _ "v\<lparr>iv_credited := fst (snd (snd (creditNote v r))), iv_balance := snd (snd (snd (creditNote v r))),
      iv_updatedBy := user\<rparr>"]) (auto simp: db' savePurchaseReturn_def saveOrder_def saveInvoice_def image_iff)
qed

end
