(* ===== verification/Outbox.thy ===== *)
theory Outbox
  imports Prelude
begin

text \<open>
  The transactional outbox (\<open>outbox/services/outbox.service.ts\<close>,
  \<open>outbox-publisher.service.ts\<close>, \<open>utils/backoff.ts\<close>, \<open>outbox-topic-resolver.ts\<close>) and the consumer of
  its payment events (\<open>payments/consumers/payment-event.consumer.ts\<close>). A row of \<open>outbox_events\<close> is
  written in the business transaction; a poll claims a batch of due rows, sends each to Kafka and records
  the outcome; the consumer keeps a table of the events it has processed. Times are milliseconds; the
  columns are timestamps of whole seconds, to which the database rounds them. Kafka is a parameter: for each attempt it says whether the message is stored in the topic and what the producer
  is told, so a message may be stored although the producer sees an error (or the update that records the
  success fails, which the code treats the same way); the error text is the one left
  after \<open>sanitizeErrorMessage\<close>, whose regular expressions are not modelled.
\<close>

section \<open>Events\<close>

record 'p envelope =
  en_event :: id
  en_type :: string
  en_version :: nat
  en_occurredAt :: nat
  en_aggregateType :: string
  en_aggregate :: id
  en_company :: id
  en_branch :: "id option"
  en_source :: string
  en_correlation :: "string option"
  en_causation :: "string option"
  en_payload :: 'p

datatype event_status = EvPending | EvPublished | EvFailed

record 'p outbox_event = "'p envelope" +
  ob_id :: id
  ob_status :: event_status
  ob_attempts :: nat
  ob_availableAt :: nat
  ob_publishedAt :: "nat option"
  ob_lastError :: "string option"

record 'p outbox_input =
  oi_type :: string
  oi_version :: "nat option"
  oi_aggregateType :: string
  oi_aggregate :: id
  oi_company :: id
  oi_branch :: "id option"
  oi_correlation :: "string option"
  oi_causation :: "string option"
  oi_payload :: 'p

definition EVENT_SOURCE :: string where
  "EVENT_SOURCE = ''fashion-erp-api''"

definition DEFAULT_EVENT_VERSION :: nat where
  "DEFAULT_EVENT_VERSION = 1"

text \<open>\<open>OutboxService.create\<close>: the row as it is stored, given its two identifiers.\<close>

definition createEvent :: "'p outbox_input \<Rightarrow> id \<Rightarrow> id \<Rightarrow> nat \<Rightarrow> 'p outbox_event" where
  "createEvent e i eventId now =
     \<lparr>en_event = eventId, en_type = oi_type e, en_version = (case oi_version e of None \<Rightarrow> DEFAULT_EVENT_VERSION | Some v \<Rightarrow> v), en_occurredAt = toTimestamp now,
      en_aggregateType = oi_aggregateType e, en_aggregate = oi_aggregate e, en_company = oi_company e,
      en_branch = oi_branch e, en_source = EVENT_SOURCE, en_correlation = oi_correlation e,
      en_causation = oi_causation e, en_payload = oi_payload e, ob_id = i, ob_status = EvPending, ob_attempts = 0,
      ob_availableAt = toTimestamp now, ob_publishedAt = None, ob_lastError = None\<rparr>"

definition toEnvelope :: "'p outbox_event \<Rightarrow> 'p envelope" where
  "toEnvelope e = envelope.truncate e"

section \<open>Backoff\<close>

definition MAX_BACKOFF_MS :: nat where
  "MAX_BACKOFF_MS = 5 * 60 * 1000"

definition BASE_BACKOFF_MS :: nat where
  "BASE_BACKOFF_MS = 1000"

definition computeBackoffMs :: "nat \<Rightarrow> nat" where
  "computeBackoffMs attemptCount =
     (if attemptCount \<le> 0 then 0 else min (BASE_BACKOFF_MS * 2 ^ (attemptCount - 1)) MAX_BACKOFF_MS)"

lemma computeBackoffMs_mono: "m \<le> n \<Longrightarrow> computeBackoffMs m \<le> computeBackoffMs n"
proof -
  assume "m \<le> n"
  then have "(2 :: nat) ^ (m - 1) \<le> 2 ^ (n - 1)" by (intro power_increasing) auto
  then have "BASE_BACKOFF_MS * 2 ^ (m - 1) \<le> BASE_BACKOFF_MS * 2 ^ (n - 1)" by (rule mult_le_mono2)
  with \<open>m \<le> n\<close> show ?thesis by (simp add: computeBackoffMs_def min.coboundedI1)
qed

lemma computeBackoffMs_bounds: "0 < n \<Longrightarrow> 1000 \<le> computeBackoffMs n" "computeBackoffMs n \<le> 300000"
  by (simp_all add: computeBackoffMs_def BASE_BACKOFF_MS_def MAX_BACKOFF_MS_def min_def)

section \<open>The publisher\<close>

definition resolveTopicForEventType :: "string \<Rightarrow> string option" where
  "resolveTopicForEventType t = (if t = ''payment.confirmed'' then Some ''erp.payment.events'' else None)"

text \<open>What an attempt to publish comes to.\<close>

datatype kafka_reply = Acked | StoredUnacked string | NotStored string

type_synonym 'p kafka = "nat \<Rightarrow> 'p outbox_event \<Rightarrow> kafka_reply"

text \<open>The rows and the messages of the topic, oldest first.\<close>

type_synonym 'p outbox_state = "'p outbox_event list \<times> 'p envelope list"

definition claimBatch :: "nat \<Rightarrow> nat \<Rightarrow> 'p outbox_event list \<Rightarrow> 'p outbox_event list" where
  "claimBatch now batchSize rows =
     take batchSize (sort_key ob_availableAt
       (filter (\<lambda>e. ob_status e \<in> {EvPending, EvFailed} \<and> ob_availableAt e \<le> now) rows))"

definition markPublished :: "id \<Rightarrow> nat \<Rightarrow> 'p outbox_event list \<Rightarrow> 'p outbox_event list" where
  "markPublished i now rows =
     map (\<lambda>e. if ob_id e = i then e\<lparr>ob_status := EvPublished, ob_publishedAt := Some (toTimestamp now)\<rparr> else e) rows"

definition markFailed :: "'p outbox_event \<Rightarrow> string \<Rightarrow> nat \<Rightarrow> 'p outbox_event list \<Rightarrow> 'p outbox_event list" where
  "markFailed event err now rows =
     (let attemptCount = ob_attempts event + 1; delayMs = computeBackoffMs attemptCount
      in map (\<lambda>e. if ob_id e = ob_id event
           then e\<lparr>ob_status := EvFailed, ob_attempts := attemptCount, ob_lastError := Some err,
                  ob_availableAt := toTimestamp (now + delayMs)\<rparr> else e) rows)"

definition publishOne :: "'p kafka \<Rightarrow> nat \<Rightarrow> 'p outbox_event \<Rightarrow> 'p outbox_state \<Rightarrow> 'p outbox_state" where
  "publishOne kafka now event st =
     (case resolveTopicForEventType (en_type event) of
        None \<Rightarrow> (markFailed event ''No Kafka topic is registered'' now (fst st), snd st)
      | Some topic \<Rightarrow>
          (case kafka now event of
             Acked \<Rightarrow> (markPublished (ob_id event) now (fst st), snd st @ [toEnvelope event])
           | StoredUnacked err \<Rightarrow> (markFailed event err now (fst st), snd st @ [toEnvelope event])
           | NotStored err \<Rightarrow> (markFailed event err now (fst st), snd st)))"

definition tick :: "'p kafka \<Rightarrow> nat \<Rightarrow> nat \<Rightarrow> 'p outbox_state \<Rightarrow> 'p outbox_state" where
  "tick kafka batchSize now st = fold (publishOne kafka now) (claimBatch now batchSize (fst st)) st"

text \<open>Polls at increasing times.\<close>

definition ticks :: "'p kafka \<Rightarrow> nat \<Rightarrow> nat list \<Rightarrow> 'p outbox_state \<Rightarrow> 'p outbox_state" where
  "ticks kafka batchSize = fold (tick kafka batchSize)"

section \<open>The consumer\<close>

text \<open>The table of processed events, the audit lines written to the log, and the handlers in flight: those whose
  lookup found no row and whose line is still to come, and those that have written their line and whose insert is still
  to come. A message is an envelope or text that does not parse. \<open>handleMessage\<close> runs to the answer of the
  lookup, which may fail; \<open>writeAudit\<close> is the line, \<open>insertProcessed\<close> the insert, and between them other
  deliveries may run. The insert may fail, which the handler passes on, so that Kafka delivers the
  message again; a duplicate in the unique index is taken as the work of another delivery. A process that stops loses
  its handlers and nothing else.\<close>

record consumer =
  co_processed :: "id list"
  co_checked :: "id list"
  co_audit :: "id list"
  co_inserting :: "id list"

definition processIdempotently :: "'p envelope \<Rightarrow> bool \<Rightarrow> consumer \<Rightarrow> consumer" where
  "processIdempotently envelope database_ok st =
     (if \<not> database_ok then st
      else if en_event envelope \<in> set (co_processed st) then st
      else st\<lparr>co_checked := co_checked st @ [en_event envelope]\<rparr>)"

definition handleMessage :: "'p envelope option \<Rightarrow> bool \<Rightarrow> consumer \<Rightarrow> consumer" where
  "handleMessage message database_ok st =
     (case message of
        None \<Rightarrow> st
      | Some envelope \<Rightarrow>
          if en_type envelope \<noteq> ''payment.confirmed'' then st else processIdempotently envelope database_ok st)"

definition writeAudit :: "id \<Rightarrow> consumer \<Rightarrow> consumer" where
  "writeAudit i st =
     (if i \<notin> set (co_checked st) then st
      else st\<lparr>co_checked := remove1 i (co_checked st), co_audit := co_audit st @ [i],
              co_inserting := co_inserting st @ [i]\<rparr>)"

definition insertProcessed :: "id \<Rightarrow> bool \<Rightarrow> consumer \<Rightarrow> consumer" where
  "insertProcessed i database_ok st =
     (if i \<notin> set (co_inserting st) then st
      else let st' = st\<lparr>co_inserting := remove1 i (co_inserting st)\<rparr>
        in if \<not> database_ok \<or> i \<in> set (co_processed st) then st'
           else st'\<lparr>co_processed := co_processed st @ [i]\<rparr>)"

datatype 'p consumer_event = Deliver "'p envelope option" bool | Line id | Insert id bool | Stop

fun consume :: "'p consumer_event \<Rightarrow> consumer \<Rightarrow> consumer" where
  "consume (Deliver message database_ok) st = handleMessage message database_ok st"
| "consume (Line i) st = writeAudit i st"
| "consume (Insert i database_ok) st = insertProcessed i database_ok st"
| "consume Stop st = st\<lparr>co_checked := [], co_inserting := []\<rparr>"

definition idle :: consumer where
  "idle = \<lparr>co_processed = [], co_checked = [], co_audit = [], co_inserting = []\<rparr>"

text \<open>The payment events among the messages of a run.\<close>

definition delivered :: "'p consumer_event list \<Rightarrow> id set" where
  "delivered es = {en_event m |m b. Deliver (Some m) b \<in> set es \<and> en_type m = ''payment.confirmed''}"

lemma delivered_simps [simp]:
  "delivered [] = {}" "delivered (xs @ ys) = delivered xs \<union> delivered ys"
  "delivered (Line i # es) = delivered es" "delivered (Insert i b # es) = delivered es" "delivered (Stop # es) = delivered es"
  "delivered (Deliver None b # es) = delivered es"
  "delivered (Deliver (Some m) b # es) = (if en_type m = ''payment.confirmed'' then {en_event m} else {}) \<union> delivered es"
  by (auto simp: delivered_def)

text \<open>A processed event was audited, and so was an event with an insert to come.\<close>

definition consumer_ok :: "consumer \<Rightarrow> bool" where
  "consumer_ok st \<longleftrightarrow> distinct (co_processed st)
     \<and> set (co_processed st) \<union> set (co_inserting st) \<subseteq> set (co_audit st)"

text \<open>One step: nothing audited or processed is forgotten, only delivered events are taken up, and an event taken up
  stays so until its line is written or the process stops.\<close>

definition steps_on :: "id set \<Rightarrow> consumer \<Rightarrow> consumer \<Rightarrow> bool" where
  "steps_on new st st' \<longleftrightarrow> consumer_ok st' \<and> set (co_audit st) \<subseteq> set (co_audit st')
     \<and> set (co_processed st) \<subseteq> set (co_processed st')
     \<and> set (co_audit st') \<union> set (co_checked st') \<subseteq> set (co_audit st) \<union> set (co_checked st) \<union> new"

lemmas consume_defs = handleMessage_def processIdempotently_def writeAudit_def insertProcessed_def Let_def

lemma consume_on:
  assumes "consumer_ok st"
  shows "steps_on (delivered [e]) st (consume e st)"
proof (cases e)
  case (Deliver m b)
  show ?thesis unfolding Deliver using assms
    by (cases m) (auto simp: steps_on_def consumer_ok_def consume_defs)
next
  case (Line i)
  show ?thesis unfolding Line using assms set_remove1_subset [of i "co_checked st"]
    by (auto simp: steps_on_def consumer_ok_def consume_defs)
next
  case (Insert i b)
  show ?thesis unfolding Insert using assms set_remove1_subset [of i "co_inserting st"]
    by (auto simp: steps_on_def consumer_ok_def consume_defs)
next
  case Stop
  show ?thesis unfolding Stop using assms by (auto simp: steps_on_def consumer_ok_def)
qed

lemma consume_run:
  "consumer_ok st \<Longrightarrow> steps_on (delivered es) st (fold consume es st)"
proof (induction es arbitrary: st)
  case (Cons e es)
  have d: "delivered (e # es) = delivered [e] \<union> delivered es" using delivered_simps(2) [of "[e]" es] by simp
  note one = consume_on [OF Cons.prems, of e]
  then have "consumer_ok (consume e st)" by (simp add: steps_on_def)
  from Cons.IH [OF this] one show ?case unfolding d fold_simps steps_on_def by blast
qed (simp add: steps_on_def)

text \<open>A delivery whose lookup is answered and whose process goes on to the line audits its event, unless it is
  in the table, and then it was audited.\<close>

definition handled :: "'p envelope \<Rightarrow> 'p consumer_event list \<Rightarrow> bool" where
  "handled m es \<longleftrightarrow> (\<exists>before during later. es = before @ Deliver (Some m) True # during @ later \<and> Stop \<notin> set during
     \<and> en_event m \<notin> set (co_checked (fold consume (before @ Deliver (Some m) True # during) idle)))"

lemma in_flight:
  assumes "consumer_ok st" "i \<in> set (co_audit st) \<union> set (co_checked st)" "Stop \<notin> set es"
  shows "i \<in> set (co_audit (fold consume es st)) \<union> set (co_checked (fold consume es st))"
  using assms
proof (induction es arbitrary: st)
  case (Cons e es)
  have on: "steps_on (delivered [e]) st (consume e st)" by (rule consume_on [OF Cons.prems(1)])
  have "i \<in> set (co_audit (consume e st)) \<union> set (co_checked (consume e st))"
  proof (cases "i \<in> set (co_audit st)")
    case True
    then show ?thesis using on by (auto simp: steps_on_def)
  next
    case False
    then have "i \<in> set (co_checked st)" using Cons.prems(2) by simp
    then show ?thesis using Cons.prems(3) by (cases e) (auto simp: consume_defs split: option.splits)
  qed
  with Cons.IH [of "consume e st"] on Cons.prems(3) show ?case by (simp add: steps_on_def)
qed simp

lemma idle_ok: "consumer_ok idle"
  by (simp add: consumer_ok_def idle_def)

lemma run_ok: "consumer_ok (fold consume es idle)"
  using consume_run [OF idle_ok, of es] by (simp add: steps_on_def)

lemma handled_audited:
  assumes h: "handled m es" and t: "en_type m = ''payment.confirmed''"
  shows "en_event m \<in> set (co_audit (fold consume es idle))"
proof -
  obtain before during later where es: "es = before @ Deliver (Some m) True # during @ later" "Stop \<notin> set during"
    and gone: "en_event m \<notin> set (co_checked (fold consume (before @ Deliver (Some m) True # during) idle))"
    using h unfolding handled_def by blast
  let ?a = "fold consume before idle"
  let ?b = "consume (Deliver (Some m) True) ?a"
  have b: "en_event m \<in> set (co_audit ?b) \<union> set (co_checked ?b)"
    using run_ok [of before] t by (auto simp: consumer_ok_def consume_defs)
  have ok: "consumer_ok ?b"
    using consume_on [OF run_ok, of "Deliver (Some m) True" before] unfolding steps_on_def by blast
  have "en_event m \<in> set (co_audit (fold consume (before @ Deliver (Some m) True # during) idle))"
    using in_flight [OF ok b es(2)] gone by simp
  moreover have "set (co_audit (fold consume (before @ Deliver (Some m) True # during) idle))
      \<subseteq> set (co_audit (fold consume later (fold consume (before @ Deliver (Some m) True # during) idle)))"
    using consume_run [OF run_ok, of later] unfolding steps_on_def by blast
  ultimately show ?thesis unfolding es(1) by auto
qed

text \<open>A delivery that begins when its event is in the table audits nothing: what is still written comes from the
  handlers whose lookup was answered before.\<close>

lemma line_moved: "i \<in> set (co_checked st) \<Longrightarrow> Suc (count_list (co_checked st) i - Suc 0) = count_list (co_checked st) i"
  using count_list_0_iff [of "co_checked st" i] by auto

lemma processed_is_quiet:
  assumes "consumer_ok st" "i \<in> set (co_processed st)"
  shows "count_list (co_audit (fold consume es st)) i \<le> count_list (co_audit st) i + count_list (co_checked st) i"
  using assms
proof (induction es arbitrary: st)
  case (Cons e es)
  have "count_list (co_audit (consume e st)) i + count_list (co_checked (consume e st)) i
      \<le> count_list (co_audit st) i + count_list (co_checked st) i"
    using Cons.prems(2) line_moved [of i st] by (cases e) (auto simp: consume_defs split: option.splits)
  moreover have "consumer_ok (consume e st)" "i \<in> set (co_processed (consume e st))"
    using consume_on [OF Cons.prems(1), of e] Cons.prems(2) by (auto simp: steps_on_def)
  ultimately show ?case using Cons.IH [of "consume e st"] by simp
qed simp

lemma inserted_stays:
  assumes "consumer_ok st" "i \<in> set (co_inserting st)"
  shows "i \<in> set (co_processed (fold consume (Insert i True # es) st))"
proof -
  let ?st = "insertProcessed i True st"
  have "i \<in> set (co_processed ?st)" using assms(2) by (simp add: insertProcessed_def Let_def)
  moreover have "consumer_ok ?st" using consume_on [OF assms(1), of "Insert i True"] by (simp add: steps_on_def)
  ultimately show ?thesis using consume_run [of ?st es] by (auto simp: steps_on_def)
qed

text \<open>Deliveries that run one after the other, each with an insert that succeeds, audit an event once.\<close>

lemma undisturbed_audits_once:
  assumes "co_checked st = []" "co_inserting st = []" "set (co_audit st) = set (co_processed st)" "distinct (co_audit st)"
  shows "distinct (co_audit (fold (\<lambda>m. insertProcessed (en_event m) True \<circ> writeAudit (en_event m)
    \<circ> handleMessage (Some m) True) ms st))"
  using assms
proof (induction ms arbitrary: st)
  case (Cons m ms)
  let ?st = "insertProcessed (en_event m) True (writeAudit (en_event m) (handleMessage (Some m) True st))"
  have "co_checked ?st = []" "co_inserting ?st = []" "set (co_audit ?st) = set (co_processed ?st)" "distinct (co_audit ?st)"
    using Cons.prems by (auto simp: consume_defs)
  then show ?case using Cons.IH [of ?st] by (simp only: fold_simps comp_def)
qed simp

section \<open>The outbox tells the truth\<close>

text \<open>A published row has its message in the topic, and every message there is the envelope of a row.\<close>

definition outbox_ok :: "'p outbox_state \<Rightarrow> bool" where
  "outbox_ok st \<longleftrightarrow> distinct (map ob_id (fst st))
     \<and> (\<forall>e \<in> set (fst st). ob_status e = EvPublished \<longrightarrow> toEnvelope e \<in> set (snd st))
     \<and> set (snd st) \<subseteq> toEnvelope ` set (fst st)"

text \<open>An outcome is recorded without touching identifiers and envelopes.\<close>

lemma toEnvelope_marked [simp]:
  "toEnvelope (e\<lparr>ob_status := a, ob_publishedAt := b\<rparr>) = toEnvelope e"
  "toEnvelope (e\<lparr>ob_status := a, ob_attempts := n, ob_lastError := l, ob_availableAt := t\<rparr>) = toEnvelope e"
  by (simp_all add: toEnvelope_def envelope.truncate_def)

lemma marked:
  "map (\<lambda>e. (ob_id e, toEnvelope e)) (markPublished i now rows) = map (\<lambda>e. (ob_id e, toEnvelope e)) rows"
  "map (\<lambda>e. (ob_id e, toEnvelope e)) (markFailed event err now rows) = map (\<lambda>e. (ob_id e, toEnvelope e)) rows"
  by (simp_all add: markPublished_def markFailed_def Let_def)

lemma publishOne_rows:
  "map (\<lambda>e. (ob_id e, toEnvelope e)) (fst (publishOne kafka now event st)) = map (\<lambda>e. (ob_id e, toEnvelope e)) (fst st)"
  by (simp add: publishOne_def marked split: option.splits kafka_reply.splits)

lemma rows_same:
  assumes "map (\<lambda>e. (ob_id e, toEnvelope e)) rows = map (\<lambda>e. (ob_id e, toEnvelope e)) rows'"
  shows "map ob_id rows = map ob_id rows'" "toEnvelope ` set rows = toEnvelope ` set rows'"
  using arg_cong [OF assms, of "map fst"] arg_cong [OF assms, of "\<lambda>xs. snd ` set xs"]
  by (simp_all add: o_def image_image)

lemma publishOne_ok:
  assumes ok: "outbox_ok st" and c: "c \<in> set (fst st)" and e: "ob_id event = ob_id c" "toEnvelope event = toEnvelope c"
  shows "outbox_ok (publishOne kafka now event st)"
proof -
  let ?st = "publishOne kafka now event st"
  note same = rows_same [OF publishOne_rows [of kafka now event st]]
  have inj: "x = c" if "x \<in> set (fst st)" "ob_id x = ob_id event" for x
    using that e c ok by (metis outbox_ok_def distinct_map inj_on_eq_iff)
  have topic: "set (snd ?st) = set (snd st) \<or> set (snd ?st) = insert (toEnvelope event) (set (snd st))"
    by (auto simp: publishOne_def split: option.splits kafka_reply.splits)
  have "toEnvelope event \<in> toEnvelope ` set (fst st)" using c e(2) by simp
  then have "set (snd ?st) \<subseteq> toEnvelope ` set (fst ?st)"
    unfolding same using topic ok by (auto simp: outbox_ok_def)
  moreover have "toEnvelope x \<in> set (snd ?st)" if x: "x \<in> set (fst ?st)" "ob_status x = EvPublished" for x
  proof -
    have p: "\<exists>y \<in> set (fst st). (ob_status y = EvPublished \<and> toEnvelope x = toEnvelope y)
        \<or> (x = y\<lparr>ob_status := EvPublished, ob_publishedAt := Some (toTimestamp now)\<rparr> \<and> ob_id y = ob_id event
            \<and> toEnvelope event \<in> set (snd ?st))"
      using x by (auto simp: publishOne_def markPublished_def markFailed_def Let_def
          split: option.splits kafka_reply.splits if_splits)
    then show ?thesis using topic ok inj e(2) by (auto simp: outbox_ok_def)
  qed
  ultimately show ?thesis using ok unfolding outbox_ok_def same(1) by blast
qed

lemma publishMany_ok:
  assumes "outbox_ok st" "\<forall>e \<in> set es. \<exists>c \<in> set (fst st). ob_id e = ob_id c \<and> toEnvelope e = toEnvelope c"
  shows "outbox_ok (fold (publishOne kafka now) es st)
    \<and> map (\<lambda>e. (ob_id e, toEnvelope e)) (fst (fold (publishOne kafka now) es st)) = map (\<lambda>e. (ob_id e, toEnvelope e)) (fst st)"
  using assms
proof (induction es arbitrary: st)
  case (Cons e es)
  let ?st = "publishOne kafka now e st"
  have "outbox_ok ?st" using Cons.prems publishOne_ok by fastforce
  moreover have "\<exists>c \<in> set (fst ?st). ob_id x = ob_id c \<and> toEnvelope x = toEnvelope c" if "x \<in> set es" for x
  proof -
    from Cons.prems(2) that have "(ob_id x, toEnvelope x) \<in> set (map (\<lambda>e. (ob_id e, toEnvelope e)) (fst st))" by auto
    then have "(ob_id x, toEnvelope x) \<in> set (map (\<lambda>e. (ob_id e, toEnvelope e)) (fst ?st))"
      by (simp only: publishOne_rows)
    then show ?thesis by auto
  qed
  ultimately show ?case using Cons.IH [of ?st] publishOne_rows [of kafka now e st] by simp
qed simp

lemma claimed_rows: "e \<in> set (claimBatch now n rows) \<Longrightarrow> e \<in> set rows \<and> ob_status e \<noteq> EvPublished \<and> ob_availableAt e \<le> now"
  unfolding claimBatch_def by (drule in_set_takeD) auto

lemma tick_ok:
  assumes "outbox_ok st"
  shows "outbox_ok (tick kafka n now st)
    \<and> map (\<lambda>e. (ob_id e, toEnvelope e)) (fst (tick kafka n now st)) = map (\<lambda>e. (ob_id e, toEnvelope e)) (fst st)"
  unfolding tick_def using assms by (intro publishMany_ok) (auto dest: claimed_rows)

lemma ticks_ok:
  "outbox_ok st \<Longrightarrow> outbox_ok (ticks kafka n polls st)
    \<and> map (\<lambda>e. (ob_id e, toEnvelope e)) (fst (ticks kafka n polls st)) = map (\<lambda>e. (ob_id e, toEnvelope e)) (fst st)"
proof (induction polls arbitrary: st)
  case (Cons t polls)
  then show ?case using tick_ok [OF Cons.prems, of kafka n t] by (simp add: ticks_def)
qed (simp add: ticks_def)

section \<open>Delivered at least once\<close>

lemma en_event_toEnvelope [simp]: "en_event (toEnvelope e) = en_event e" "en_type (toEnvelope e) = en_type e"
  by (simp_all add: toEnvelope_def envelope.truncate_def)

text \<open>C27: At least once, end to end. Start from rows that are all waiting and an empty topic, and let the publisher
  poll any number of times against any Kafka (messages refused, or stored although the producer saw an
  error and so sent again). Suppose that Kafka delivers payment events from that topic only, and every message of the
  topic until one of its deliveries is handled, that is, its lookup is answered and the process does not stop before the
  line is written. Otherwise messages come in any order and any number of times, deliveries overlap, lookups and
  inserts into the table of processed events fail or meet a duplicate, and the process stops at any moment. Then every
  payment event whose row is marked published is audited, nothing is audited that is not a payment event with a row
  of its own, the table holds an event once and only after its audit, a handler whose insert succeeds leaves
  its event in the table, and once an event is in the table no delivery that begins later audits it again: all that can
  still be written are the lines of the handlers then in flight, whose lookup was answered before. An event may so be
  audited twice: see \<open>overlapping_deliveries_audit_twice\<close>.\<close>

theorem outbox_at_least_once:
  fixes rows :: "'p outbox_event list" and es :: "'p consumer_event list"
  assumes rows: "distinct (map ob_id rows)" "\<forall>e \<in> set rows. ob_status e \<noteq> EvPublished"
    and polls: "ticks kafka n polls (rows, []) = (rows', topic)"
    and seen: "\<forall>m \<in> set topic. handled m es"
      "\<forall>m b. Deliver (Some m) b \<in> set es \<and> en_type m = ''payment.confirmed'' \<longrightarrow> m \<in> set topic"
    and run: "st = fold consume es idle"
  shows "en_event ` {e \<in> set rows'. ob_status e = EvPublished \<and> en_type e = ''payment.confirmed''} \<subseteq> set (co_audit st)
    \<and> set (co_audit st) \<subseteq> en_event ` {e \<in> set rows. en_type e = ''payment.confirmed''}
    \<and> distinct (co_processed st) \<and> set (co_processed st) \<subseteq> set (co_audit st)
    \<and> (\<forall>before later i. es = before @ Insert i True # later \<and> i \<in> set (co_inserting (fold consume before idle))
        \<longrightarrow> i \<in> set (co_processed st))
    \<and> (\<forall>before later i. es = before @ later \<and> i \<in> set (co_processed (fold consume before idle))
        \<longrightarrow> count_list (co_audit st) i \<le> count_list (co_audit (fold consume before idle)) i
              + count_list (co_checked (fold consume before idle)) i)"
proof -
  have "outbox_ok (rows, [])" using rows by (auto simp: outbox_ok_def)
  from ticks_ok [OF this, of kafka n polls]
  have ok: "outbox_ok (rows', topic)" and same: "toEnvelope ` set rows' = toEnvelope ` set rows"
    using rows_same(2) [of rows' rows] unfolding polls by simp_all
  have aud: "consumer_ok st" "set (co_audit st) \<subseteq> delivered es"
    using consume_run [OF idle_ok, of es] unfolding run by (auto simp: steps_on_def idle_def)
  have "en_event e \<in> set (co_audit st)"
    if "e \<in> set rows'" "ob_status e = EvPublished" "en_type e = ''payment.confirmed''" for e
  proof -
    have "handled (toEnvelope e) es" using ok that seen(1) by (auto simp: outbox_ok_def)
    from handled_audited [OF this] that(3) show ?thesis by (simp add: run)
  qed
  moreover have "a \<in> en_event ` {e \<in> set rows. en_type e = ''payment.confirmed''}" if a: "a \<in> delivered es" for a
  proof -
    obtain m :: "'p envelope" and b where m: "a = en_event m" "Deliver (Some m) b \<in> set es" "en_type m = ''payment.confirmed''"
      using a unfolding delivered_def by blast
    then have "m \<in> toEnvelope ` set rows" using seen(2) ok same by (auto simp: outbox_ok_def)
    with m show ?thesis by force
  qed
  moreover have "count_list (co_audit st) i \<le> count_list (co_audit (fold consume before idle)) i
      + count_list (co_checked (fold consume before idle)) i"
    if "es = before @ later" "i \<in> set (co_processed (fold consume before idle))" for before later i
    using processed_is_quiet [OF run_ok that(2), of later] that(1) unfolding run by simp
  moreover have "i \<in> set (co_processed st)"
    if "es = before @ Insert i True # later" "i \<in> set (co_inserting (fold consume before idle))" for before later i
    using inserted_stays [OF run_ok that(2), of later] that(1) unfolding run by simp
  ultimately show ?thesis using aud unfolding consumer_ok_def by blast
qed

section \<open>Everything is delivered\<close>

definition unpublished :: "'p outbox_event list \<Rightarrow> 'p outbox_event list" where
  "unpublished = filter (\<lambda>e. ob_status e \<noteq> EvPublished)"

text \<open>Rows with identifiers of their own and a known type, due at the latest at the given time.\<close>

definition due_by :: "nat \<Rightarrow> 'p outbox_event list \<Rightarrow> bool" where
  "due_by t rows \<longleftrightarrow> distinct (map ob_id rows)
     \<and> (\<forall>e \<in> set rows. resolveTopicForEventType (en_type e) \<noteq> None
          \<and> (ob_status e \<noteq> EvPublished \<longrightarrow> ob_availableAt e \<le> t))"

lemma due_by_mono: "due_by t rows \<Longrightarrow> t \<le> u \<Longrightarrow> due_by u rows"
  by (force simp: due_by_def)

text \<open>A poll delays no row by more than five minutes and the half second of the rounding.\<close>

definition put_off :: "nat \<Rightarrow> 'p outbox_event \<Rightarrow> bool" where
  "put_off t e \<longleftrightarrow> resolveTopicForEventType (en_type e) \<noteq> None
     \<and> (ob_status e \<noteq> EvPublished \<longrightarrow> ob_availableAt e \<le> t)"

lemma put_off_marked:
  "put_off t e \<Longrightarrow> put_off t (e\<lparr>ob_status := EvPublished, ob_publishedAt := b\<rparr>)"
  "put_off t e \<Longrightarrow> u \<le> t
    \<Longrightarrow> put_off t (e\<lparr>ob_status := EvFailed, ob_attempts := n, ob_lastError := l, ob_availableAt := u\<rparr>)"
  by (simp_all add: put_off_def)

lemma due_by_eq: "due_by t rows \<longleftrightarrow> distinct (map ob_id rows) \<and> (\<forall>e \<in> set rows. put_off t e)"
  by (simp add: due_by_def put_off_def)

lemma publishOne_due:
  assumes "due_by (T + 300500) (fst st)" "now \<le> T"
  shows "due_by (T + 300500) (fst (publishOne kafka now event st))"
proof -
  let ?t = "T + 300500"
  have b: "toTimestamp (now + computeBackoffMs k) \<le> ?t" for k
    using toTimestamp_bounds(1) [of "now + computeBackoffMs k"] computeBackoffMs_bounds(2) [of k] assms(2) by linarith
  have ids: "map ob_id (fst (publishOne kafka now event st)) = map ob_id (fst st)"
    using rows_same(1) [OF publishOne_rows] .
  have o: "\<forall>e \<in> set (fst st). put_off ?t e" using assms(1) unfolding due_by_eq by blast
  have "\<forall>e \<in> set (markPublished i now (fst st)). put_off ?t e"
    "\<forall>e \<in> set (markFailed event err now (fst st)). put_off ?t e" for i err
    using o b unfolding markPublished_def markFailed_def Let_def
    by (simp_all add: put_off_marked ball_Un)
  then have "\<forall>e \<in> set (fst (publishOne kafka now event st)). put_off ?t e"
    unfolding publishOne_def by (auto split: option.splits kafka_reply.splits)
  with assms(1) ids show ?thesis unfolding due_by_eq by simp
qed

lemma ticks_due:
  "due_by (T + 300500) (fst st) \<Longrightarrow> \<forall>now \<in> set polls. now \<le> T
    \<Longrightarrow> due_by (T + 300500) (fst (ticks kafka n polls st))"
proof (induction polls arbitrary: st)
  case (Cons now polls)
  have "due_by (T + 300500) (fst (fold (publishOne kafka now) es st))" for es
    using Cons.prems by (induction es arbitrary: st) (auto simp: publishOne_due)
  then show ?case using Cons.IH [of "tick kafka n now st"] Cons.prems by (simp add: ticks_def tick_def)
qed (simp add: ticks_def)

text \<open>When Kafka answers, the claimed rows become published and no others change.\<close>

lemma publish_acked:
  assumes "\<forall>e \<in> set es. kafka now e = Acked \<and> resolveTopicForEventType (en_type e) \<noteq> None"
  shows "fst (fold (publishOne kafka now) es st)
    = map (\<lambda>e. if ob_id e \<in> ob_id ` set es then e\<lparr>ob_status := EvPublished, ob_publishedAt := Some (toTimestamp now)\<rparr> else e) (fst st)"
  using assms
proof (induction es arbitrary: st)
  case (Cons c es)
  have "fst (publishOne kafka now c st) = markPublished (ob_id c) now (fst st)"
    using Cons.prems by (auto simp: publishOne_def)
  then show ?case using Cons.IH [of "publishOne kafka now c st"] Cons.prems
    by (auto simp: markPublished_def)
qed simp

lemma tick_acked:
  assumes due: "due_by t (fst st)" "t \<le> now" and ack: "\<forall>e. kafka now e = Acked"
  shows "due_by t (fst (tick kafka n now st))"
    "length (unpublished (fst (tick kafka n now st))) = length (unpublished (fst st)) - n"
proof -
  let ?rows = "fst st" and ?c = "claimBatch now n (fst st)"
  let ?mark = "\<lambda>e. if ob_id e \<in> ob_id ` set ?c then e\<lparr>ob_status := EvPublished, ob_publishedAt := Some (toTimestamp now)\<rparr> else e"
  have rows: "fst (tick kafka n now st) = map ?mark ?rows"
    unfolding tick_def using due ack by (intro publish_acked) (auto simp: due_by_def dest: claimed_rows)
  have ids: "map ob_id (map ?mark ?rows) = map ob_id ?rows" by simp
  have "\<forall>e \<in> set (map ?mark ?rows). resolveTopicForEventType (en_type e) \<noteq> None
      \<and> (ob_status e \<noteq> EvPublished \<longrightarrow> ob_availableAt e \<le> t)"
    using due by (auto simp: due_by_def)
  then show "due_by t (fst (tick kafka n now st))" using due unfolding rows due_by_def ids by blast
  have dist: "distinct ?rows" "inj_on ob_id (set ?rows)" using due by (auto simp: due_by_def distinct_map)
  have all: "filter (\<lambda>e. ob_status e \<in> {EvPending, EvFailed} \<and> ob_availableAt e \<le> now) ?rows = unpublished ?rows"
    unfolding unpublished_def
  proof (rule filter_cong [OF refl])
    fix e assume "e \<in> set ?rows"
    then show "ob_status e \<in> {EvPending, EvFailed} \<and> ob_availableAt e \<le> now \<longleftrightarrow> ob_status e \<noteq> EvPublished"
      using due by (cases "ob_status e") (auto simp: due_by_def)
  qed
  have c: "set ?c \<subseteq> set (unpublished ?rows)" "distinct ?c" "length ?c = min n (length (unpublished ?rows))"
    unfolding claimBatch_def all using dist
    by (auto dest: in_set_takeD simp: unpublished_def distinct_take min_def)
  have mine: "ob_id e \<in> ob_id ` set ?c \<longleftrightarrow> e \<in> set ?c" if "e \<in> set ?rows" for e
    using that c(1) dist(2) by (auto simp: unpublished_def inj_on_def subset_iff)
  have "length (unpublished (map ?mark ?rows)) = length (filter (\<lambda>e. e \<notin> set ?c) (unpublished ?rows))"
    unfolding unpublished_def filter_map length_map filter_filter
    by (rule arg_cong [of _ _ length], rule filter_cong) (auto simp: mine)
  also have "\<dots> = card (set (unpublished ?rows) - set ?c)"
    using dist(1) by (subst distinct_card [symmetric])
      (auto simp: unpublished_def intro!: arg_cong [of _ _ card])
  also have "\<dots> = length (unpublished ?rows) - n"
  proof -
    have "card (set (unpublished ?rows)) = length (unpublished ?rows)"
      using dist(1) by (simp add: distinct_card unpublished_def del: set_filter)
    with c show ?thesis by (simp add: card_Diff_subset distinct_card)
  qed
  finally show "length (unpublished (fst (tick kafka n now st))) = length (unpublished (fst st)) - n"
    unfolding rows .
qed

lemma ticks_acked:
  assumes "due_by t (fst st)" "\<forall>now \<in> set polls. t \<le> now \<and> (\<forall>e. kafka now e = Acked)"
  shows "length (unpublished (fst (ticks kafka n polls st))) = length (unpublished (fst st)) - length polls * n"
  using assms
proof (induction polls arbitrary: st)
  case (Cons now polls)
  note step = tick_acked [of t st now kafka n]
  show ?case using Cons.IH [of "tick kafka n now st"] Cons.prems step by (simp add: ticks_def algebra_simps)
qed (simp add: ticks_def)

text \<open>C28: Nothing is lost in an outage. Whatever Kafka does up to a time T, once it answers every poll that
  comes five minutes and half a second after T or later publishes a full batch of what is left, so that
  enough polls publish every row: the backoff, rounded to whole seconds by the column, never puts a row off
  for longer than that and no row is given up.\<close>

theorem outbox_drains:
  assumes "due_by T rows" "\<forall>now \<in> set outage. now \<le> T"
    and "\<forall>now \<in> set polls. T + 300500 \<le> now \<and> (\<forall>e. kafka now e = Acked)"
  shows "length (unpublished (fst (ticks kafka n (outage @ polls) (rows, topic))))
    = length (unpublished (fst (ticks kafka n outage (rows, topic)))) - length polls * n"
proof -
  have "due_by (T + 300500) (fst (ticks kafka n outage (rows, topic)))"
    using assms(1,2) by (intro ticks_due) (auto intro: due_by_mono)
  from ticks_acked [OF this assms(3)] show ?thesis by (simp add: ticks_def)
qed

section \<open>Witnesses\<close>

definition demo_event :: "id \<Rightarrow> nat outbox_event" where
  "demo_event i = createEvent \<lparr>oi_type = ''payment.confirmed'', oi_version = None, oi_aggregateType = ''Payment'',
     oi_aggregate = i, oi_company = 1, oi_branch = None, oi_correlation = None, oi_causation = None, oi_payload = 5\<rparr> i (i + 100) 0"

lemmas run_outbox = demo_event_def createEvent_def ticks_def tick_def claimBatch_def publishOne_def markPublished_def
  markFailed_def computeBackoffMs_def BASE_BACKOFF_MS_def MAX_BACKOFF_MS_def resolveTopicForEventType_def
  toEnvelope_def envelope.truncate_def unpublished_def due_by_def toTimestamp_def

text \<open>The first message is stored although the producer sees an error. It is in the topic twice. The lookup of the
  first delivery fails, the process stops after the line of the second, and the insert of the third succeeds.\<close>

definition demo_kafka :: "nat kafka" where
  "demo_kafka now e = (if now < 10 then StoredUnacked ''timeout'' else Acked)"

definition demo_deliveries :: "nat consumer_event list" where
  "demo_deliveries = (let m = toEnvelope (demo_event 1)
     in [Deliver None True, Deliver (Some m) False, Deliver (Some m) True, Line 101, Stop, Deliver (Some m) True, Line 101,
         Insert 101 True, Deliver (Some m) True])"

lemma demo_topic:
  "snd (ticks demo_kafka 1 [5, 2000] ([demo_event 1], [])) = [toEnvelope (demo_event 1), toEnvelope (demo_event 1)]"
  "unpublished (fst (ticks demo_kafka 1 [5, 2000] ([demo_event 1], []))) = []"
  by (simp_all add: run_outbox demo_kafka_def)

lemma demo_handled: "handled (toEnvelope (demo_event 1)) demo_deliveries"
  unfolding handled_def
proof (intro exI conjI)
  show "demo_deliveries = take 2 demo_deliveries @ Deliver (Some (toEnvelope (demo_event 1))) True # [Line 101] @ drop 4 demo_deliveries"
    by (simp add: demo_deliveries_def Let_def)
qed (simp_all add: demo_deliveries_def idle_def consume_defs run_outbox)

lemma outbox_at_least_once_witness:
  "\<exists>rows' topic. ticks demo_kafka 1 [5, 2000] ([demo_event 1], []) = (rows', topic)
    \<and> length topic = 2 \<and> unpublished rows' = []
    \<and> co_audit (fold consume demo_deliveries idle) = [101, 101]
    \<and> distinct (co_processed (fold consume demo_deliveries idle))
    \<and> count_list (co_audit (fold consume demo_deliveries idle)) 101
      \<le> count_list (co_audit (fold consume (take 8 demo_deliveries) idle)) 101"
proof -
  obtain rows' topic where st: "ticks demo_kafka 1 [5, 2000] ([demo_event 1], []) = (rows', topic)"
    by (cases "ticks demo_kafka 1 [5, 2000] ([demo_event 1], [])") blast
  have topic: "topic = [toEnvelope (demo_event 1), toEnvelope (demo_event 1)]" and none: "unpublished rows' = []"
    using demo_topic unfolding st by simp_all
  have rows: "distinct (map ob_id [demo_event 1])"
    "\<forall>e \<in> set [demo_event 1]. ob_status e \<noteq> EvPublished"
    by (simp_all add: demo_event_def createEvent_def)
  have seen: "\<forall>m \<in> set topic. handled m demo_deliveries"
    "\<forall>m b. Deliver (Some m) b \<in> set demo_deliveries \<and> en_type m = ''payment.confirmed'' \<longrightarrow> m \<in> set topic"
    using demo_handled by (simp add: topic) (auto simp: topic demo_deliveries_def Let_def)
  have audit: "co_audit (fold consume demo_deliveries idle) = [101, 101]"
    "101 \<in> set (co_processed (fold consume (take 8 demo_deliveries) idle))"
    "co_checked (fold consume (take 8 demo_deliveries) idle) = []"
    by (simp_all add: demo_deliveries_def idle_def consume_defs run_outbox)
  from outbox_at_least_once [OF rows st seen refl]
  have "distinct (co_processed (fold consume demo_deliveries idle))"
    and quiet: "\<forall>before later i. demo_deliveries = before @ later \<and> i \<in> set (co_processed (fold consume before idle))
      \<longrightarrow> count_list (co_audit (fold consume demo_deliveries idle)) i
        \<le> count_list (co_audit (fold consume before idle)) i + count_list (co_checked (fold consume before idle)) i"
    by blast+
  moreover have "count_list (co_audit (fold consume demo_deliveries idle)) 101
      \<le> count_list (co_audit (fold consume (take 8 demo_deliveries) idle)) 101"
    using quiet [rule_format, of "take 8 demo_deliveries" "drop 8 demo_deliveries" 101] audit(2,3) by simp
  ultimately show ?thesis using st topic none audit(1) by auto
qed

text \<open>Two overlapping deliveries of the same event, as at a rebalance: both find the table without it, and the
  second line is written after the first insert.\<close>

lemma overlapping_deliveries_audit_twice:
  "let m = toEnvelope (demo_event 1);
       st = fold consume [Deliver (Some m) True, Deliver (Some m) True, Line 101, Insert 101 True, Line 101, Insert 101 True,
         Deliver (Some m) True] idle
   in co_audit st = [101, 101] \<and> co_processed st = [101] \<and> co_checked st = [] \<and> co_inserting st = []"
  by (simp add: idle_def consume_defs run_outbox)

lemma outbox_drains_witness:
  "unpublished (fst (ticks demo_kafka 1 ([5] @ [400000, 500000]) ([demo_event 1, demo_event 2], []))) = []"
proof -
  have "due_by 9 [demo_event 1, demo_event 2]" by (simp add: run_outbox demo_kafka_def)
  moreover have "length (unpublished (fst (ticks demo_kafka 1 [5] ([demo_event 1, demo_event 2], [])))) = 2"
    by (simp add: run_outbox demo_kafka_def)
  ultimately show ?thesis
    using outbox_drains [of 9 "[demo_event 1, demo_event 2]" "[5]" "[400000, 500000]" demo_kafka 1 "[]"]
    by (simp add: demo_kafka_def)
qed

text \<open>The claim's lock is released before the rows are sent: two publishers that both claim before
  either has recorded an outcome send the same message twice.\<close>

lemma double_publish:
  "let rows = [demo_event 1]; claimed = claimBatch 10 5 rows
   in length (snd (fold (publishOne demo_kafka 11) claimed (fold (publishOne demo_kafka 10) claimed (rows, [])))) = 2"
  by (simp add: run_outbox demo_kafka_def)

end
