(* ===== verification/Js_String.thy ===== *)
theory Js_String
  imports Doc_Number
begin

text \<open>
  The JavaScript string operations the services use on codes and keys, on Latin-1 strings, and the codes
  \<open>categories.service.ts\<close> and \<open>brands.service.ts\<close> derive from a name: a candidate, then the same with a
  growing number, until one is free. The loop may not end for every table, so it is a partial function; the
  lemmas show that it ends whenever finitely many codes are taken, at a free code of at most 50 characters.
\<close>

section \<open>Strings\<close>

definition white_space :: "char \<Rightarrow> bool" where
  "white_space c \<longleftrightarrow> c \<in> set (map char_of [9 :: nat, 10, 11, 12, 13, 32, 160])"

definition trim :: "string \<Rightarrow> string" where
  "trim s = rev (dropWhile white_space (rev (dropWhile white_space s)))"

text \<open>\<open>toUpperCase\<close>: the letters of ASCII, and the sharp s, which becomes two letters; the other letters of
  Latin-1 become letters that are neither of \<open>A-Z\<close> nor digits, which is all the callers ask.\<close>

definition upper_char :: "char \<Rightarrow> string" where
  "upper_char c =
     (let n = of_char c :: nat
      in if 97 \<le> n \<and> n \<le> 122 then [char_of (n - 32)] else if n = 223 then ''SS'' else [c])"

definition toUpperCase :: "string \<Rightarrow> string" where
  "toUpperCase s = concat (map upper_char s)"

text \<open>\<open>slice(0, e)\<close>: a negative end counts from the end of the string.\<close>

definition slice0 :: "string \<Rightarrow> int \<Rightarrow> string" where
  "slice0 s e = take (nat (if e < 0 then int (length s) + e else e)) s"

definition code_char :: "char \<Rightarrow> bool" where
  "code_char c \<longleftrightarrow> (let n = of_char c :: nat in 65 \<le> n \<and> n \<le> 90 \<or> 48 \<le> n \<and> n \<le> 57)"

text \<open>\<open>replace(/[^A-Z0-9]+/g, '-')\<close>.\<close>

function dashed :: "string \<Rightarrow> string" where
  "dashed [] = []"
| "dashed (c # cs) =
     (if code_char c then c # dashed cs else CHR ''-'' # dashed (dropWhile (\<lambda>x. \<not> code_char x) cs))"
  by pat_completeness auto

termination
  by (relation "measure length") (auto simp: le_imp_less_Suc length_dropWhile_le)

definition stripEnd :: "string \<Rightarrow> string" where
  "stripEnd s = rev (dropWhile (\<lambda>c. c = CHR ''-'') (rev s))"

definition stripDashes :: "string \<Rightarrow> string" where
  "stripDashes s = stripEnd (dropWhile (\<lambda>c. c = CHR ''-'') s)"

section \<open>Codes from names\<close>

definition truncateCode :: "string \<Rightarrow> string \<Rightarrow> string" where
  "truncateCode prefix code =
     (let truncated = stripEnd (take 50 code) in if truncated = [] then prefix @ ''ITEM'' else truncated)"

definition buildBaseCode :: "string \<Rightarrow> string \<Rightarrow> string" where
  "buildBaseCode prefix name =
     (let slug = stripDashes (dashed (toUpperCase (trim name)))
      in truncateCode prefix (prefix @ (if slug = [] then ''ITEM'' else slug)))"

definition appendNumericSuffix :: "string \<Rightarrow> nat \<Rightarrow> string" where
  "appendNumericSuffix baseCode suffix =
     (let suffixText = ''-'' @ nat_str suffix;
          maxBaseLength = 50 - int (length suffixText)
      in stripEnd (slice0 baseCode maxBaseLength) @ suffixText)"

partial_function (option) nextFreeCode :: "(string \<Rightarrow> bool) \<Rightarrow> string \<Rightarrow> string \<Rightarrow> nat \<Rightarrow> string option" where
  "nextFreeCode taken baseCode candidate suffix =
     (if taken candidate then nextFreeCode taken baseCode (appendNumericSuffix baseCode suffix) (suffix + 1)
      else Some candidate)"

definition generateUniqueCode :: "string \<Rightarrow> (string \<Rightarrow> bool) \<Rightarrow> string \<Rightarrow> string option" where
  "generateUniqueCode prefix taken name =
     (let baseCode = buildBaseCode prefix name in nextFreeCode taken baseCode baseCode 2)"

text \<open>\<open>resolveCreateCode\<close>: a requested code is refused when it is taken.\<close>

definition resolveCreateCode ::
  "string \<Rightarrow> (string \<Rightarrow> bool) \<Rightarrow> string option \<Rightarrow> string \<Rightarrow> string result option" where
  "resolveCreateCode prefix taken requestedCode name =
     (let normalized = (case requestedCode of None \<Rightarrow> [] | Some c \<Rightarrow> trim c)
      in if normalized \<noteq> [] then Some (if taken normalized then Inl (AppException Conflict) else Inr normalized)
         else map_option Inr (generateUniqueCode prefix taken name))"

section \<open>The loop ends\<close>

text \<open>The number after the last dash can be read back, so no two candidates are the same.\<close>

lemma last_part: "CHR ''-'' \<notin> set t \<Longrightarrow> takeWhile (\<lambda>c. c \<noteq> CHR ''-'') (rev (s @ CHR ''-'' # t)) = rev t"
  by (auto simp: takeWhile_tail)

lemma suffix_inject: "appendNumericSuffix b m = appendNumericSuffix b n \<longleftrightarrow> m = n"
proof
  assume e: "appendNumericSuffix b m = appendNumericSuffix b n"
  have "takeWhile (\<lambda>c. c \<noteq> CHR ''-'') (rev (appendNumericSuffix b k)) = rev (nat_str k)" for k
    using last_part [OF nat_str_no_dash] by (simp add: appendNumericSuffix_def Let_def)
  with e have "nat_str m = nat_str n" by (metis rev_rev_ident)
  then show "m = n" by (metis str_nat_nat_str)
qed simp

text \<open>The candidates in order, and where the loop stops.\<close>

fun candidate :: "string \<Rightarrow> nat \<Rightarrow> string" where
  "candidate b 0 = b"
| "candidate b (Suc k) = appendNumericSuffix b (k + 2)"

lemma nextFreeCode_from:
  "nextFreeCode taken b (candidate b k) (k + 2)
    = (if taken (candidate b k) then nextFreeCode taken b (candidate b (Suc k)) (Suc k + 2) else Some (candidate b k))"
  by (subst nextFreeCode.simps) simp

lemma nextFreeCode_stops:
  assumes "\<forall>i < n. taken (candidate b i)" "\<not> taken (candidate b n)"
  shows "nextFreeCode taken b b 2 = Some (candidate b n)"
proof -
  have "k \<le> n \<Longrightarrow> nextFreeCode taken b b 2 = nextFreeCode taken b (candidate b k) (k + 2)" for k
  proof (induction k)
    case (Suc k)
    then have "nextFreeCode taken b b 2 = nextFreeCode taken b (candidate b k) (k + 2)" by simp
    also have "\<dots> = nextFreeCode taken b (candidate b (Suc k)) (Suc k + 2)"
      using assms(1) Suc.prems by (subst nextFreeCode_from) simp
    finally show ?case .
  qed (simp add: numeral_2_eq_2)
  from this [of n] have "nextFreeCode taken b b 2 = nextFreeCode taken b (candidate b n) (n + 2)" by simp
  also have "\<dots> = Some (candidate b n)" using assms(2) by (subst nextFreeCode_from) simp
  finally show ?thesis .
qed

lemma some_candidate_free:
  assumes "finite {c. taken c}"
  shows "\<exists>n \<le> Suc (card {c. taken c}). \<not> taken (candidate b n) \<and> (\<forall>i < n. taken (candidate b i))"
proof -
  let ?N = "Suc (card {c. taken c})"
  let ?f = "\<lambda>k. appendNumericSuffix b (k + 2)"
  have inj: "inj_on ?f {..<?N}"
  proof (rule inj_onI)
    fix x y assume "?f x = ?f y"
    then show "x = y" unfolding suffix_inject by simp
  qed
  have "card (?f ` {..<?N}) = ?N" unfolding card_image [OF inj] by simp
  then have "\<not> ?f ` {..<?N} \<subseteq> {c. taken c}"
    using card_mono [OF assms, of "?f ` {..<?N}"] by linarith
  then obtain k where k: "k < ?N" "\<not> taken (?f k)" by blast
  have "\<not> taken (candidate b (Suc k))" using k(2) by simp
  then obtain n where n: "\<not> taken (candidate b n)" "\<forall>i < n. taken (candidate b i)" "n \<le> Suc k"
    using ex_least_nat_le [of "\<lambda>n. \<not> taken (candidate b n)" "Suc k"] by blast
  with k(1) show ?thesis by (intro exI [of _ n]) simp
qed

lemma stripEnd_length: "length (stripEnd s) \<le> length s"
  using length_dropWhile_le [of "\<lambda>c. c = CHR ''-''" "rev s"] by (simp add: stripEnd_def)

lemma nat_str_length: "n < 10 ^ k \<Longrightarrow> 0 < k \<Longrightarrow> length (nat_str n) \<le> k"
proof (induction k arbitrary: n)
  case (Suc k)
  show ?case
  proof (cases "n < 10")
    case False
    then have "0 < k" using Suc.prems by (cases k) auto
    moreover have "n div 10 < 10 ^ k" using Suc.prems by (simp add: less_mult_imp_div_less mult.commute)
    ultimately have "length (nat_str (n div 10)) \<le> k" using Suc.IH by blast
    then show ?thesis using False by (subst nat_str.simps) simp
  qed (subst nat_str.simps, simp)
qed simp

lemma candidate_length:
  assumes "length b \<le> 50" "n + 2 < 10 ^ 49"
  shows "length (candidate b n) \<le> 50"
proof (cases n)
  case (Suc k)
  have "length (nat_str (k + 2)) \<le> 49" using assms(2) Suc by (intro nat_str_length) auto
  then have "length (slice0 b (50 - int (Suc (length (nat_str (k + 2)))))) \<le> 49 - length (nat_str (k + 2))"
    by (simp add: slice0_def)
  with stripEnd_length [of "slice0 b (50 - int (Suc (length (nat_str (k + 2)))))"]
  have "length (stripEnd (slice0 b (50 - int (Suc (length (nat_str (k + 2))))))) + Suc (length (nat_str (k + 2))) \<le> 50"
    using \<open>length (nat_str (k + 2)) \<le> 49\<close> by linarith
  then show ?thesis using Suc by (simp add: appendNumericSuffix_def Let_def)
qed (use assms in simp)

lemma truncateCode_length: "length prefix \<le> 46 \<Longrightarrow> length (truncateCode prefix s) \<le> 50"
  using stripEnd_length [of "take 50 s"] by (simp add: truncateCode_def Let_def)

lemma baseCode_length: "length prefix \<le> 46 \<Longrightarrow> length (buildBaseCode prefix name) \<le> 50"
  by (simp add: buildBaseCode_def Let_def truncateCode_length)

lemma generateUniqueCode_ends:
  assumes f: "finite {c. taken c}"
  shows "\<exists>code n. generateUniqueCode prefix taken name = Some code \<and> \<not> taken code
    \<and> n \<le> Suc (card {c. taken c}) \<and> code = candidate (buildBaseCode prefix name) n
    \<and> (length prefix \<le> 46 \<longrightarrow> card {c. taken c} + 3 < 10 ^ 49 \<longrightarrow> length code \<le> 50)"
proof -
  let ?b = "buildBaseCode prefix name"
  obtain n where n: "n \<le> Suc (card {c. taken c})" "\<not> taken (candidate ?b n)" "\<forall>i < n. taken (candidate ?b i)"
    using some_candidate_free [OF f] by blast
  have "generateUniqueCode prefix taken name = Some (candidate ?b n)"
    unfolding generateUniqueCode_def Let_def by (rule nextFreeCode_stops [OF n(3,2)])
  then show ?thesis using n candidate_length [OF baseCode_length] by (intro exI [of _ "candidate ?b n"] exI [of _ n]) auto
qed

end
