(* ===== verification/Payments.thy ===== *)
theory Payments
  imports Payables Sale_Returns Posting Outbox Calendar Js_String
begin

text \<open>
  Payments (\<open>payments/services/payments.service.ts\<close>, entities and DTOs under \<open>payments/\<close>): a payment with
  its allocations is created in one transaction that takes a number, applies each allocation to its
  document (a sale, a supplier invoice, a purchase order or a sale return), stores the payment, posts it to
  the ledger and writes the event \<open>payment.confirmed\<close> to the outbox; a supplier payment can be reversed and
  reallocated. The state adds four tables and the ledger to the one of \<open>Payables\<close>. Amounts of requests are
  numbers of cents (the pattern of the DTOs admits two digits after the point).
\<close>

section \<open>Rows and requests\<close>

datatype reference_type = SaleRef | PurchaseOrderRef | PurchaseInvoiceRef | SaleReturnRef

record allocation_dto =
  al_type :: reference_type
  al_ref :: id
  al_amount :: int

record payment_allocation = allocation_dto +
  al_id :: id
  al_payment :: id

record payment_payload =
  pp_payment :: id
  pp_number :: string
  pp_direction :: payment_direction
  pp_amount :: int
  pp_currency :: string
  pp_method :: id
  pp_customer :: "id option"
  pp_supplier :: "id option"
  pp_date :: jdate
  pp_allocations :: "id list"

record payments_db = payables_db +
  payments :: "payment list"
  paymentAllocations :: "payment_allocation list"
  paymentCounters :: counters
  outboxEvents :: "payment_payload outbox_event list"
  ledger :: acct_db

record payment_dto =
  yc_branch :: "id option"
  yc_direction :: payment_direction
  yc_customer :: "id option"
  yc_supplier :: "id option"
  yc_method :: id
  yc_amount :: int
  yc_currency :: string
  yc_date :: "jdate option"
  yc_allocations :: "allocation_dto list"

definition generatePaymentNumber ::
  "id \<Rightarrow> nat \<Rightarrow> 'a payments_db_scheme \<Rightarrow> string \<times> 'a payments_db_scheme" where
  "generatePaymentNumber company year db =
     (let (nextSequence, t) = next_sequence company year (paymentCounters db)
      in (formatDocumentNumber ''PMT'' year nextSequence, db\<lparr>paymentCounters := t\<rparr>))"

interpretation payment_numbers: numbering generatePaymentNumber paymentCounters "''PMT''"
  by unfold_locales (simp_all add: generatePaymentNumber_def next_sequence_eq)

section \<open>Checks\<close>

fun VALID_DIRECTION_REFERENCE_PAIRS :: "payment_direction \<Rightarrow> reference_type" where
  "VALID_DIRECTION_REFERENCE_PAIRS Receipt = SaleRef"
| "VALID_DIRECTION_REFERENCE_PAIRS Payment = PurchaseInvoiceRef"
| "VALID_DIRECTION_REFERENCE_PAIRS Refund = SaleReturnRef"

definition assertValidPartyForDirection ::
  "org_db \<Rightarrow> payment_direction \<Rightarrow> id \<Rightarrow> id option \<Rightarrow> id option \<Rightarrow> unit result" where
  "assertValidPartyForDirection org direction company customerId supplierId =
     (if direction = Receipt \<or> direction = Refund then
        (case (customerId, supplierId) of
           (Some c, None) \<Rightarrow>
             andThen (findCustomerInCompany org c company) (\<lambda>cu.
             if cu_status cu = PBlocked then Inl (AppException ValidationError) else Inr ())
         | _ \<Rightarrow> Inl (AppException ValidationError))
      else
        (case (supplierId, customerId) of
           (Some s, None) \<Rightarrow>
             andThen (findSupplierInCompany org s company) (\<lambda>su.
             if su_status su = PBlocked then Inl (AppException ValidationError) else Inr ())
         | _ \<Rightarrow> Inl (AppException ValidationError)))"

definition assertValidPaymentMethod :: "org_db \<Rightarrow> id \<Rightarrow> id \<Rightarrow> unit result" where
  "assertValidPaymentMethod org i company =
     andThen (findPaymentMethodInCompany org i company) (\<lambda>pm.
     if pm_status pm \<noteq> Active then Inl (AppException ValidationError) else Inr ())"

text \<open>One turn of the loop over the allocations, with the running sum.\<close>

definition checkAllocation :: "payment_direction \<Rightarrow> 'b allocation_dto_scheme \<Rightarrow> real \<Rightarrow> real result" where
  "checkAllocation direction a allocatedTotal =
     (if al_type a \<noteq> VALID_DIRECTION_REFERENCE_PAIRS direction then Inl (AppException ValidationError)
      else let amount = js_num (al_amount a)
           in if \<not> 0 < amount then Inl (AppException ValidationError)
              else Inr (js_add allocatedTotal amount))"

definition assertAllocationsValid :: "payment_direction \<Rightarrow> real \<Rightarrow> 'b allocation_dto_scheme list \<Rightarrow> unit result" where
  "assertAllocationsValid direction paymentAmount allocations =
     andThen (forEach (checkAllocation direction) allocations 0) (\<lambda>allocatedTotal.
     if exceeds allocatedTotal paymentAmount then Inl (AppException ValidationError) else Inr ())"

definition assertAllocationsFullyCoverAmount :: "real \<Rightarrow> 'b allocation_dto_scheme list \<Rightarrow> unit result" where
  "assertAllocationsFullyCoverAmount paymentAmount allocations =
     (let allocatedTotal = foldl (\<lambda>sum a. js_add sum (js_num (al_amount a))) 0 allocations
      in if js_eps < \<bar>js_sub allocatedTotal paymentAmount\<bar> then Inl (AppException ValidationError) else Inr ())"

definition assertPurchaseInvoiceOnlyAllocations :: "payment \<Rightarrow> payment_allocation list \<Rightarrow> unit result" where
  "assertPurchaseInvoiceOnlyAllocations p allocations =
     (if pa_direction p \<noteq> Payment then Inl (AppException Conflict)
      else if \<exists>a \<in> set allocations. al_type a \<noteq> PurchaseInvoiceRef then Inl (AppException Conflict)
      else Inr ())"

section \<open>Targets\<close>

text \<open>The sum of the allocations of each target, in order of first appearance.\<close>

definition buildAllocationTotals :: "'b allocation_dto_scheme list \<Rightarrow> ((reference_type \<times> id) \<times> real) list" where
  "buildAllocationTotals allocations =
     foldl (\<lambda>totals a. AList.update (al_type a, al_ref a)
       (js_add (case map_of totals (al_type a, al_ref a) of None \<Rightarrow> 0 | Some t \<Rightarrow> t) (js_num (al_amount a))) totals)
       [] allocations"

text \<open>\<open>localeCompare\<close> of the type names.\<close>

fun type_rank :: "reference_type \<Rightarrow> nat" where
  "type_rank PurchaseInvoiceRef = 0"
| "type_rank PurchaseOrderRef = 1"
| "type_rank SaleRef = 2"
| "type_rank SaleReturnRef = 3"

definition sortedTargets :: "((reference_type \<times> id) \<times> real) list \<Rightarrow> ((reference_type \<times> id) \<times> real) list" where
  "sortedTargets totals = sort_key (\<lambda>t. type_rank (fst (fst t))) (sort_key (\<lambda>t. snd (fst t)) totals)"

definition applyToTarget ::
  "id \<Rightarrow> id \<Rightarrow> (reference_type \<times> id) \<times> real \<Rightarrow> 'a payables_db_scheme \<Rightarrow> 'a payables_db_scheme result" where
  "applyToTarget company user target db =
     (case target of ((t, i), totalForTarget) \<Rightarrow>
        (case t of
           SaleRef \<Rightarrow> applySalePayment i company totalForTarget user db
         | PurchaseInvoiceRef \<Rightarrow> applyInvoicePayment i company totalForTarget user db
         | PurchaseOrderRef \<Rightarrow> applyOrderPayment i company totalForTarget user db
         | SaleReturnRef \<Rightarrow> applyRefund i company totalForTarget db))"

section \<open>Storing\<close>

definition findByIdempotencyKey :: "id \<Rightarrow> string \<Rightarrow> 'a payments_db_scheme \<Rightarrow> payment option" where
  "findByIdempotencyKey company key db =
     List.find (\<lambda>p. pa_company p = company \<and> pa_idempotencyKey p = Some key) (payments db)"

definition insertPayment :: "payment \<Rightarrow> 'a payments_db_scheme \<Rightarrow> 'a payments_db_scheme result" where
  "insertPayment p db =
     (if \<exists>x \<in> set (payments db). pa_company x = pa_company p \<and> pa_number x = pa_number p
      then Inl (DupEntry ''company_payment_number'')
      else if pa_idempotencyKey p \<noteq> None
        \<and> (\<exists>x \<in> set (payments db). pa_company x = pa_company p \<and> pa_idempotencyKey x = pa_idempotencyKey p)
      then Inl (DupEntry ''company_idempotency_key'')
      else Inr (db\<lparr>payments := payments db @ [p], rowIds := rowIds db + 1\<rparr>))"

definition insertAllocation ::
  "id \<Rightarrow> 'b allocation_dto_scheme \<Rightarrow> 'a payments_db_scheme \<Rightarrow> 'a payments_db_scheme" where
  "insertAllocation p a db =
     db\<lparr>paymentAllocations := paymentAllocations db
          @ [\<lparr>al_type = al_type a, al_ref = al_ref a, al_amount = to_fixed2 (js_num (al_amount a)),
              al_id = rowIds db, al_payment = p\<rparr>],
        rowIds := rowIds db + 1\<rparr>"

definition allocationsOf :: "id \<Rightarrow> 'a payments_db_scheme \<Rightarrow> payment_allocation list" where
  "allocationsOf p db = filter (\<lambda>a. al_payment a = p) (paymentAllocations db)"

text \<open>Posting: the method is read with \<open>findOneOrFail\<close>, the party with \<open>findOne\<close>; a refund is not posted.\<close>

definition postToLedger ::
  "org_db \<Rightarrow> payment \<Rightarrow> id \<Rightarrow> jdate \<Rightarrow> 'a payments_db_scheme \<Rightarrow> 'a payments_db_scheme result" where
  "postToLedger org p user now db =
     andThen (orThrow (paymentMethods org (pa_method p)) EntityNotFound) (\<lambda>pm.
     if pa_direction p = Refund then Inr db
     else andThen (postPayment p pm (Option.bind (pa_customer p) (customers org))
            (Option.bind (pa_supplier p) (suppliers org)) user now (ledger db)) (\<lambda>(j, l).
          Inr (db\<lparr>ledger := l\<rparr>)))"

definition confirmedEvent :: "payment \<Rightarrow> id list \<Rightarrow> string option \<Rightarrow> payment_payload outbox_input" where
  "confirmedEvent p allocationIds requestId =
     \<lparr>oi_type = ''payment.confirmed'', oi_version = Some 1, oi_aggregateType = ''Payment'',
      oi_aggregate = pa_id p, oi_company = pa_company p, oi_branch = pa_branch p,
      oi_correlation = requestId, oi_causation = None,
      oi_payload = \<lparr>pp_payment = pa_id p, pp_number = pa_number p, pp_direction = pa_direction p,
        pp_amount = pa_amount p, pp_currency = pa_currency p, pp_method = pa_method p,
        pp_customer = pa_customer p, pp_supplier = pa_supplier p, pp_date = pa_date p,
        pp_allocations = allocationIds\<rparr>\<rparr>"

definition emitEvent ::
  "payment_payload outbox_input \<Rightarrow> jdate \<Rightarrow> 'a payments_db_scheme \<Rightarrow> 'a payments_db_scheme" where
  "emitEvent e now db =
     db\<lparr>outboxEvents := outboxEvents db @ [createEvent e (rowIds db) (rowIds db + 1) (getTime now)],
        rowIds := rowIds db + 2\<rparr>"

section \<open>Creation\<close>

text \<open>The body of the transaction.\<close>

definition createPaymentTx ::
  "org_db \<Rightarrow> id \<Rightarrow> id \<Rightarrow> payment_dto \<Rightarrow> string option \<Rightarrow> string option \<Rightarrow> jdate \<Rightarrow> 'a payments_db_scheme
    \<Rightarrow> (payment \<times> 'a payments_db_scheme) result" where
  "createPaymentTx org company user dto key requestId now db =
     (let paymentDate = (case yc_date dto of None \<Rightarrow> now | Some d \<Rightarrow> d);
          (number, db1) = generatePaymentNumber company (getUTCFullYear paymentDate) db
      in andThen (forEach (applyToTarget company user) (sortedTargets (buildAllocationTotals (yc_allocations dto))) db1)
           (\<lambda>db2.
         let p = \<lparr>pa_id = rowIds db2, pa_number = number, pa_company = company, pa_branch = yc_branch dto,
                pa_direction = yc_direction dto, pa_customer = yc_customer dto, pa_supplier = yc_supplier dto,
                pa_method = yc_method dto, pa_amount = to_fixed2 (js_num (yc_amount dto)),
                pa_currency = yc_currency dto, pa_idempotencyKey = key, pa_status = Confirmed,
                pa_date = paymentDate, pa_createdBy = user, pa_updatedBy = user, pa_reversedAt = None,
                pa_reversedBy = None, pa_reallocatedAt = None, pa_reallocatedBy = None\<rparr>
         in andThen (insertPayment p db2) (\<lambda>db3.
            let db4 = fold (insertAllocation (pa_id p)) (yc_allocations dto) db3
            in andThen (postToLedger org p user now db4) (\<lambda>db5.
               Inr (p, emitEvent (confirmedEvent p (map al_id (allocationsOf (pa_id p) db4)) requestId) now db5)))))"

definition createPaymentChecks :: "org_db \<Rightarrow> id \<Rightarrow> payment_dto \<Rightarrow> unit result" where
  "createPaymentChecks org company dto =
     andThen (assertActiveCompany org company) (\<lambda>_.
     andThen (assertBranchIfGiven org (yc_branch dto) company) (\<lambda>_.
     andThen (assertValidPartyForDirection org (yc_direction dto) company (yc_customer dto) (yc_supplier dto)) (\<lambda>_.
     andThen (assertValidPaymentMethod org (yc_method dto) company) (\<lambda>_.
     assertAllocationsValid (yc_direction dto) (js_num (yc_amount dto)) (yc_allocations dto)))))"

definition isDuplicateIdempotencyKeyError :: "error \<Rightarrow> bool" where
  "isDuplicateIdempotencyKeyError e \<longleftrightarrow> e = DupEntry ''company_idempotency_key''"

text \<open>\<open>idempotencyKeyHeader?.trim() || undefined\<close>.\<close>

definition keyOfHeader :: "string option \<Rightarrow> string option" where
  "keyOfHeader h = (case h of None \<Rightarrow> None | Some s \<Rightarrow> if trim s = [] then None else Some (trim s))"

text \<open>A request whose lookup of the key read \<open>seen\<close> and whose transaction runs on \<open>db\<close>; the result says
  whether the payment existed before.\<close>

definition createPayment ::
  "org_db \<Rightarrow> id \<Rightarrow> id \<Rightarrow> payment_dto \<Rightarrow> string option \<Rightarrow> string option \<Rightarrow> jdate \<Rightarrow> 'a payments_db_scheme
    \<Rightarrow> 'a payments_db_scheme \<Rightarrow> (payment \<times> bool) result \<times> 'a payments_db_scheme" where
  "createPayment org company user dto header requestId now seen db =
     (let key = keyOfHeader header
      in case Option.bind key (\<lambda>k. findByIdempotencyKey company k seen) of
           Some existing \<Rightarrow> (Inr (existing, True), db)
         | None \<Rightarrow>
             (case createPaymentChecks org company dto of
                Inl e \<Rightarrow> (Inl e, db)
              | Inr _ \<Rightarrow>
                  (case createPaymentTx org company user dto key requestId now db of
                     Inr (p, db') \<Rightarrow> (Inr (p, False), db')
                   | Inl e \<Rightarrow>
                       if isDuplicateIdempotencyKeyError e
                       then (case Option.bind key (\<lambda>k. findByIdempotencyKey company k db) of
                               Some existing \<Rightarrow> (Inr (existing, True), db)
                             | None \<Rightarrow> (Inl e, db))
                       else (Inl e, db))))"

section \<open>Reversal and reallocation\<close>

definition findPayment :: "id \<Rightarrow> id \<Rightarrow> 'a payments_db_scheme \<Rightarrow> payment result" where
  "findPayment i company db =
     orThrow (List.find (\<lambda>p. pa_id p = i \<and> pa_company p = company) (payments db)) (AppException NotFound)"

definition savePayment :: "payment \<Rightarrow> 'a payments_db_scheme \<Rightarrow> 'a payments_db_scheme" where
  "savePayment p db = db\<lparr>payments := map (\<lambda>x. if pa_id x = pa_id p then p else x) (payments db)\<rparr>"

definition invoiceTotals :: "'b allocation_dto_scheme list \<Rightarrow> (id \<times> real) list" where
  "invoiceTotals allocations = sort_key fst (map (\<lambda>((t, i), total). (i, total)) (buildAllocationTotals allocations))"

definition unapplyTotal :: "id \<Rightarrow> id \<Rightarrow> id \<times> real \<Rightarrow> 'a payables_db_scheme \<Rightarrow> 'a payables_db_scheme result" where
  "unapplyTotal company user t db = unapplyInvoicePayment (fst t) company (snd t) user db"

definition applyTotal :: "id \<Rightarrow> id \<Rightarrow> id \<times> real \<Rightarrow> 'a payables_db_scheme \<Rightarrow> 'a payables_db_scheme result" where
  "applyTotal company user t db = applyInvoicePayment (fst t) company (snd t) user db"

definition reverse ::
  "id \<Rightarrow> id \<Rightarrow> id \<Rightarrow> jdate \<Rightarrow> 'a payments_db_scheme \<Rightarrow> (payment \<times> 'a payments_db_scheme) result" where
  "reverse i company user now db =
     andThen (findPayment i company db) (\<lambda>p.
     if pa_status p \<noteq> Confirmed then Inl (AppException Conflict)
     else let allocations = allocationsOf (pa_id p) db
          in andThen (assertPurchaseInvoiceOnlyAllocations p allocations) (\<lambda>_.
             andThen (forEach (unapplyTotal company user) (invoiceTotals allocations) db) (\<lambda>db1.
             let p' = p\<lparr>pa_status := Cancelled, pa_reversedAt := Some now, pa_reversedBy := Some user,
                   pa_updatedBy := user\<rparr>;
                 db2 = savePayment p' db1
             in andThen (reversePayment p' user now (ledger db2)) (\<lambda>(j, l).
                Inr (p', db2\<lparr>ledger := l\<rparr>)))))"

definition reallocate ::
  "id \<Rightarrow> id \<Rightarrow> id \<Rightarrow> allocation_dto list \<Rightarrow> jdate \<Rightarrow> 'a payments_db_scheme
    \<Rightarrow> (payment \<times> 'a payments_db_scheme) result" where
  "reallocate i company user newAllocations now db =
     andThen (findPayment i company db) (\<lambda>p.
     if pa_status p \<noteq> Confirmed then Inl (AppException Conflict)
     else let allocations = allocationsOf (pa_id p) db
          in andThen (assertPurchaseInvoiceOnlyAllocations p allocations) (\<lambda>_.
             andThen (assertAllocationsValid (pa_direction p) (js_num (pa_amount p)) newAllocations) (\<lambda>_.
             andThen (assertAllocationsFullyCoverAmount (js_num (pa_amount p)) newAllocations) (\<lambda>_.
             andThen (forEach (unapplyTotal company user) (invoiceTotals allocations) db) (\<lambda>db1.
             let db2 = db1\<lparr>paymentAllocations := filter (\<lambda>a. al_payment a \<noteq> pa_id p) (paymentAllocations db1)\<rparr>
             in andThen (forEach (applyTotal company user) (invoiceTotals newAllocations) db2) (\<lambda>db3.
                let p' = p\<lparr>pa_reallocatedAt := Some now, pa_reallocatedBy := Some user, pa_updatedBy := user\<rparr>
                in Inr (p', savePayment p' (fold (insertAllocation (pa_id p)) newAllocations db3))))))))"

end
