(* ===== verification/Payment_Effects.thy ===== *)
theory Payment_Effects
  imports Payments Payables_Theorems
begin

text \<open>
  What the loops of \<open>Payments\<close> do: the sum of the allocations of each target in exact cents, and the effect of
  a run of payments, or of reversals, on the invoices and orders. The properties are in
  \<open>Payment_Theorems\<close>.
\<close>

section \<open>The totals of a request\<close>

text \<open>The cents allocated to a target.\<close>

definition allocated :: "reference_type \<times> id \<Rightarrow> 'b allocation_dto_scheme list \<Rightarrow> int" where
  "allocated k as = sum_list (map al_amount (filter (\<lambda>a. (al_type a, al_ref a) = k) as))"

lemma allocated_simps [simp]:
  "allocated k [] = 0"
  "allocated k (a # as) = (if (al_type a, al_ref a) = k then al_amount a else 0) + allocated k as"
  "allocated k (as @ bs) = allocated k as + allocated k bs"
  by (simp_all add: allocated_def)

definition nonneg_amounts :: "'b allocation_dto_scheme list \<Rightarrow> bool" where
  "nonneg_amounts as \<longleftrightarrow> (\<forall>a \<in> set as. 0 \<le> al_amount a)"

lemma allocated_bounds:
  assumes "nonneg_amounts as"
  shows "0 \<le> allocated k as" "allocated k as \<le> sum_list (map al_amount as)"
  using assms unfolding allocated_def nonneg_amounts_def
  by (auto intro: sum_list_nonneg_map sum_list_filter_le)

lemma allocated_absent: "k \<notin> (\<lambda>a. (al_type a, al_ref a)) ` set as \<Longrightarrow> allocated k as = 0"
  by (induction as) auto

lemma totals_snoc:
  "buildAllocationTotals (as @ [a]) = AList.update (al_type a, al_ref a)
     (js_add (case map_of (buildAllocationTotals as) (al_type a, al_ref a) of None \<Rightarrow> 0 | Some t \<Rightarrow> t)
       (js_num (al_amount a))) (buildAllocationTotals as)"
  by (simp add: buildAllocationTotals_def)

lemma totals_keys:
  "distinct (map fst (buildAllocationTotals as))"
  "fst ` set (buildAllocationTotals as) = (\<lambda>a. (al_type a, al_ref a)) ` set as"
proof (induction as rule: rev_induct)
  case (snoc a as)
  { case 1 then show ?case using snoc by (simp add: totals_snoc distinct_update) }
  { case 2
    have "fst ` set (AList.update k v xs) = insert k (fst ` set xs)" for k v and xs :: "((reference_type \<times> id) \<times> real) list"
      by (induction xs) auto
    then show ?case using snoc by (simp add: totals_snoc) }
qed (simp_all add: buildAllocationTotals_def)

lemma totals_near:
  assumes "nonneg_amounts as" "sum_list (map al_amount as) \<le> B" "fits B (2 * length as)"
    and "map_of (buildAllocationTotals as) k = Some x"
  shows "near B (2 * length as) x (allocated k as)"
  using assms
proof (induction as arbitrary: x rule: rev_induct)
  case (snoc a as)
  have nn: "nonneg_amounts as" "0 \<le> al_amount a" using snoc.prems(1) by (auto simp: nonneg_amounts_def)
  have s: "0 \<le> sum_list (map al_amount as)"
    using nn(1) unfolding nonneg_amounts_def by (intro sum_list_nonneg_map) auto
  have le: "sum_list (map al_amount as) \<le> B" "al_amount a \<le> B" and B: "0 \<le> B"
    using snoc.prems(2,3) nn(2) s by (simp_all add: fits_def)
  have f: "fits B (2 * length as)" "fits B (2 * length as + 1)" by (rule fits_mono [OF snoc.prems(3)]; simp)+
  have ih: "near B (2 * length as) y (allocated k as)" if "map_of (buildAllocationTotals as) k = Some y" for y
    by (rule snoc.IH [OF nn(1) le(1) f(1)]) (use snoc.prems that in simp)
  show ?case
  proof (cases "(al_type a, al_ref a) = k")
    case True
    let ?t = "case map_of (buildAllocationTotals as) k of None \<Rightarrow> 0 | Some t \<Rightarrow> t"
    have t: "near B (2 * length as) ?t (allocated k as)"
    proof (cases "map_of (buildAllocationTotals as) k")
      case None
      then have "k \<notin> (\<lambda>a. (al_type a, al_ref a)) ` set as" by (simp add: map_of_eq_None_iff totals_keys)
      then show ?thesis using near_mono [OF near_0 _ B] None by (simp add: allocated_absent)
    qed (use ih in auto)
    have "x = js_add ?t (js_num (al_amount a))" using snoc.prems(4) True by (simp add: totals_snoc update_conv')
    moreover have "\<bar>allocated k as + al_amount a\<bar> \<le> B"
      using allocated_bounds [OF snoc.prems(1), of k] snoc.prems(2) True by simp
    ultimately show ?thesis using near_add [OF t near_num, of "al_amount a"] True nn(2) le(2) f(2) by simp
  next
    case False
    then have "map_of (buildAllocationTotals as) k = Some x" using snoc.prems(4) by (simp add: totals_snoc update_conv')
    then have "near B (2 * length as) x (allocated k as)" by (rule ih)
    then show ?thesis using near_mono [OF _ _ B] False by fastforce
  qed
qed (simp add: buildAllocationTotals_def)

lemma allocated_absent_ref: "i \<notin> al_ref ` set as \<Longrightarrow> allocated (t, i) as = 0"
  by (induction as) auto

text \<open>The running sum of \<open>assertAllocationsValid\<close>.\<close>

lemma checkAllocation_Inr:
  "checkAllocation direction a t = Inr u \<longleftrightarrow> al_type a = VALID_DIRECTION_REFERENCE_PAIRS direction
     \<and> 0 < js_num (al_amount a) \<and> u = js_add t (js_num (al_amount a))"
  by (auto simp: checkAllocation_def Let_def)

lemma checked_sum:
  assumes "forEach (checkAllocation direction) as t = Inr u" "near B k t c" "0 \<le> c" "nonneg_amounts as"
    "c + sum_list (map al_amount as) \<le> B" "fits B (k + 2 * length as)"
  shows "near B (k + 2 * length as) u (c + sum_list (map al_amount as))
    \<and> (\<forall>a \<in> set as. al_type a = VALID_DIRECTION_REFERENCE_PAIRS direction)"
  using assms
proof (induction as arbitrary: t c k)
  case (Cons a as)
  have nn: "nonneg_amounts as" "0 \<le> al_amount a" using Cons.prems(4) by (auto simp: nonneg_amounts_def)
  have s: "0 \<le> sum_list (map al_amount as)"
    using nn(1) unfolding nonneg_amounts_def by (intro sum_list_nonneg_map) auto
  from Cons.prems(1) have a: "al_type a = VALID_DIRECTION_REFERENCE_PAIRS direction"
    and r: "forEach (checkAllocation direction) as (js_add t (js_num (al_amount a))) = Inr u"
    by (auto simp: checkAllocation_Inr)
  have "near B (Suc (k + 1)) (js_add t (js_num (al_amount a))) (c + al_amount a)"
    using near_add [OF Cons.prems(2) near_num, of "al_amount a"] Cons.prems(3,5) nn(2) s
      fits_mono [OF Cons.prems(6), of "k + 1"] by simp
  from Cons.IH [OF r this] Cons.prems(3,5,6) nn a show ?case by (simp add: algebra_simps)
qed simp

lemma assertAllocationsValid_sound:
  assumes v: "assertAllocationsValid direction (js_num amount) as = Inr ()"
    and a: "nonneg_amounts as" "2 * sum_list (map al_amount as) \<le> B" "fits B (2 * length as + 20)"
      "0 \<le> amount" "2 * amount \<le> B" "0 < B"
  shows "sum_list (map al_amount as) \<le> amount \<and> (\<forall>a \<in> set as. al_type a = VALID_DIRECTION_REFERENCE_PAIRS direction)"
proof -
  have s: "0 \<le> sum_list (map al_amount as)"
    using a(1) unfolding nonneg_amounts_def by (intro sum_list_nonneg_map) auto
  from v obtain u where u: "forEach (checkAllocation direction) as 0 = Inr u" "\<not> exceeds u (js_num amount)"
    by (auto simp: assertAllocationsValid_def split: if_splits)
  have n: "near B (2 * length as) u (sum_list (map al_amount as))"
    and t: "\<forall>a \<in> set as. al_type a = VALID_DIRECTION_REFERENCE_PAIRS direction"
    using checked_sum [OF u(1) near_0 _ a(1), of B] a(2,6) s fits_mono [OF a(3), of "2 * length as"] by simp_all
  have "sum_list (map al_amount as) \<le> amount"
  proof (rule ccontr)
    assume "\<not> sum_list (map al_amount as) \<le> amount"
    then have "exceeds u (js_num amount)"
      using a s by (intro exceeds_beyond [OF n near_num fits_mono [OF a(3)]]) auto
    with u(2) show False ..
  qed
  with t show ?thesis by blast
qed

section \<open>Runs over invoices\<close>

text \<open>A state that differs in the amounts of the invoices \<open>T\<close> and of the orders \<open>P\<close>, the paid amount of an
  invoice by \<open>f\<close>.\<close>

definition same_invoice :: "purchase_invoice \<Rightarrow> purchase_invoice \<Rightarrow> bool" where
  "same_invoice v w \<longleftrightarrow> iv_id w = iv_id v \<and> iv_company w = iv_company v \<and> iv_order w = iv_order v
     \<and> iv_status w = iv_status v \<and> iv_grandTotal w = iv_grandTotal v \<and> iv_credited w = iv_credited v"

definition paid_shift ::
  "id set \<Rightarrow> id set \<Rightarrow> (id \<Rightarrow> int) \<Rightarrow> 'a payables_db_scheme \<Rightarrow> 'a payables_db_scheme \<Rightarrow> bool" where
  "paid_shift T P f db db' \<longleftrightarrow> payables_db.more db' = payables_db.more db \<and> rowIds db' = rowIds db
     \<and> list_all2 (\<lambda>v w. same_invoice v w \<and> iv_paid w = iv_paid v + f (iv_id v) \<and> (iv_id v \<notin> T \<longrightarrow> w = v))
         (purchaseInvoices db) (purchaseInvoices db')
     \<and> list_all2 (\<lambda>s t. po_id t = po_id s \<and> (po_id s \<notin> P \<longrightarrow> t = s)) (purchaseOrders db) (purchaseOrders db')"

lemma list_all2_trans3:
  "list_all2 P xs ys \<Longrightarrow> list_all2 Q ys zs \<Longrightarrow> (\<And>x y z. P x y \<Longrightarrow> Q y z \<Longrightarrow> R x z) \<Longrightarrow> list_all2 R xs zs"
  by (rule list_all2_trans [of P Q R]) auto

lemma paid_shift_refl: "paid_shift {} {} (\<lambda>_. 0) db db"
  by (simp add: paid_shift_def same_invoice_def list_all2_same)

lemma paid_shift_trans:
  assumes "paid_shift T P f a b" "paid_shift U Q g b c"
  shows "paid_shift (T \<union> U) (P \<union> Q) (\<lambda>i. f i + g i) a c"
  using assms unfolding paid_shift_def
  by (elim conjE, intro conjI) (simp, simp, (erule (1) list_all2_trans3, auto simp: same_invoice_def)+)

lemma paid_shift_mem:
  assumes "paid_shift T P f db db'"
  shows "v \<in> set (purchaseInvoices db) \<Longrightarrow> \<exists>w \<in> set (purchaseInvoices db'). same_invoice v w
      \<and> iv_paid w = iv_paid v + f (iv_id v) \<and> (iv_id v \<notin> T \<longrightarrow> w = v)"
    "w \<in> set (purchaseInvoices db') \<Longrightarrow> \<exists>v \<in> set (purchaseInvoices db). same_invoice v w
      \<and> iv_paid w = iv_paid v + f (iv_id v) \<and> (iv_id v \<notin> T \<longrightarrow> w = v)"
    "s \<in> set (purchaseOrders db) \<Longrightarrow> \<exists>t \<in> set (purchaseOrders db'). po_id t = po_id s \<and> (po_id s \<notin> P \<longrightarrow> t = s)"
  using assms unfolding paid_shift_def list_all2_conv_all_nth by (metis in_set_conv_nth)+

lemma settle_shift:
  assumes ok: "payables_ok B db" and v: "findInvoice i company db = Inr v"
    and s: "findOrder (iv_order v) company db = Inr s"
  shows "paid_shift {i} {iv_order v} (\<lambda>j. if j = i then p - iv_paid v else 0) db (settle v s p b user db)"
proof -
  have p: "purchase_ok db" using ok by (simp add: payables_ok_def)
  note m = findInvoice_mem [OF v] findOrder_mem [OF s]
  have i: "x = v" if "x \<in> set (purchaseInvoices db)" "iv_id x = iv_id v" for x
    using found_invoice_unique [OF ok _ that(1)] m that(2) by blast
  have o: "x = s" if "x \<in> set (purchaseOrders db)" "po_id x = po_id s" for x
    using found_order_unique [OF p s that] .
  show ?thesis
    unfolding paid_shift_def settle_def saveOrder_def saveInvoice_def
    using m by (auto simp: list.rel_map list_all2_same same_invoice_def dest: i o)
qed

text \<open>A turn of a loop over distinct invoices.\<close>

definition hits :: "(id \<Rightarrow> invoice_status \<Rightarrow> bool) \<Rightarrow> id \<Rightarrow> id \<Rightarrow> 'a payables_db_scheme \<Rightarrow> bool" where
  "hits Q i ord db \<longleftrightarrow> (\<exists>v \<in> set (purchaseInvoices db). iv_id v = i \<and> iv_order v = ord \<and> Q (iv_company v) (iv_status v))"

locale invoice_turns =
  fixes B :: int and turn :: "id \<times> real \<Rightarrow> 'a payables_db_scheme \<Rightarrow> 'a payables_db_scheme result"
    and m :: "id \<Rightarrow> int" and good :: "id \<times> real \<Rightarrow> bool" and Q :: "id \<Rightarrow> invoice_status \<Rightarrow> bool"
  assumes turn_shifts: "turn t db = Inr db' \<Longrightarrow> payables_ok B db \<Longrightarrow> good t \<Longrightarrow>
      payables_ok B db' \<and> (\<exists>ord. hits Q (fst t) ord db
        \<and> paid_shift {fst t} {ord} (\<lambda>j. if j = fst t then m j else 0) db db')"
begin

lemma run_shifts:
  assumes "forEach turn ts db = Inr db'" "payables_ok B db" "\<forall>t \<in> set ts. good t" "distinct (map fst ts)"
  shows "payables_ok B db' \<and> (\<exists>P. paid_shift (fst ` set ts) P (\<lambda>j. if j \<in> fst ` set ts then m j else 0) db db'
      \<and> (\<forall>ord \<in> P. \<exists>i \<in> fst ` set ts. hits Q i ord db)
      \<and> (\<forall>i \<in> fst ` set ts. \<exists>ord. hits Q i ord db))"
  using assms
proof (induction ts arbitrary: db)
  case Nil
  have "paid_shift {} {} (\<lambda>_. 0) db db'" using Nil by (simp add: paid_shift_refl)
  with Nil show ?case by (intro conjI exI [of _ "{}"]) auto
next
  case (Cons t ts)
  from Cons.prems(1) obtain d where d: "turn t db = Inr d" "forEach turn ts d = Inr db'" by auto
  from turn_shifts [OF d(1) Cons.prems(2)] Cons.prems(3) obtain ord where okd: "payables_ok B d"
    and h: "hits Q (fst t) ord db" and s: "paid_shift {fst t} {ord} (\<lambda>j. if j = fst t then m j else 0) db d" by auto
  from Cons.IH [OF d(2) okd] Cons.prems(3,4) obtain P where ok': "payables_ok B db'"
    and s': "paid_shift (fst ` set ts) P (\<lambda>j. if j \<in> fst ` set ts then m j else 0) d db'"
    and P: "\<forall>ord \<in> P. \<exists>i \<in> fst ` set ts. hits Q i ord d" "\<forall>i \<in> fst ` set ts. \<exists>ord. hits Q i ord d" by auto
  have pre: "hits Q i ord' db" if "hits Q i ord' d" for i ord'
    using that paid_shift_mem(2) [OF s] by (force simp: hits_def same_invoice_def)
  have f: "(\<lambda>j. (if j = fst t then m j else 0) + (if j \<in> fst ` set ts then m j else 0))
      = (\<lambda>j. if j \<in> fst ` set (t # ts) then m j else 0)"
    using Cons.prems(4) by (auto simp: fun_eq_iff)
  have "paid_shift (fst ` set (t # ts)) ({ord} \<union> P) (\<lambda>j. if j \<in> fst ` set (t # ts) then m j else 0) db db'"
    using paid_shift_trans [OF s s'] unfolding f by simp
  moreover have "\<forall>ord' \<in> {ord} \<union> P. \<exists>i \<in> fst ` set (t # ts). hits Q i ord' db" using h P(1) pre by auto
  moreover have "\<forall>i \<in> fst ` set (t # ts). \<exists>ord'. hits Q i ord' db" using h P(2) pre by simp blast
  ultimately show ?case using ok' by blast
qed

end

text \<open>An amount that is close to the cents it stands for.\<close>

definition close_to :: "int \<Rightarrow> nat \<Rightarrow> (id \<Rightarrow> int) \<Rightarrow> id \<times> real \<Rightarrow> bool" where
  "close_to B k n t \<longleftrightarrow> near B k (snd t) (n (fst t)) \<and> 0 \<le> n (fst t) \<and> 2 * n (fst t) \<le> B \<and> fits B (k + 20) \<and> 0 < B"

interpretation paying: invoice_turns B "applyTotal company user" n "close_to B k n" "\<lambda>c s. c = company \<and> s = InvPosted"
  for B company user n k
proof
  fix t and db db' :: "'a payables_db_scheme"
  assume r: "applyTotal company user t db = Inr db'" and ok: "payables_ok B db" and g: "close_to B k n t"
  let ?i = "fst t" and ?n = "n (fst t)"
  have g: "near B k (snd t) ?n" "0 \<le> ?n" "2 * ?n \<le> B" "fits B (k + 20)" "0 < B" using g by (simp_all add: close_to_def)
  from r have a: "applyInvoicePayment ?i company (snd t) user db = Inr db'" by (simp add: applyTotal_def)
  have ok': "payables_ok B db'"
    using payables_step_ok [OF payables_step.pay [OF a g(1-4)] ok] g(4,5) fits_mono [OF g(4)] by simp
  from a obtain v s where v: "findInvoice ?i company db = Inr v" "iv_status v = InvPosted"
    and s: "findOrder (iv_order v) company db = Inr s"
    and e: "\<not> exceeds (js_add (js_num (iv_paid v)) (snd t)) (js_sub (js_num (iv_grandTotal v)) (js_num (iv_credited v)))"
    and db': "db' = settle v s (to_fixed2 (js_add (js_num (iv_paid v)) (snd t))) (to_fixed2 (js_sub (js_sub (js_num (iv_grandTotal v))
        (js_num (iv_credited v))) (js_add (js_num (iv_paid v)) (snd t)))) user db"
    by (auto simp: applyInvoicePayment_def Let_def split: if_splits)
  have "invoice_ok B v" using ok findInvoice_mem [OF v(1)] by (simp add: payables_ok_def)
  then have p: "to_fixed2 (js_add (js_num (iv_paid v)) (snd t)) = iv_paid v + ?n"
    using g(5) by (intro pay_exact(2) [OF g(1-4) _ _ _ _ _ e]) (auto simp: invoice_ok_def)
  have eq: "(\<lambda>j. if j = ?i then iv_paid v + ?n - iv_paid v else 0) = (\<lambda>j. if j = ?i then n j else 0)" by auto
  have "paid_shift {?i} {iv_order v} (\<lambda>j. if j = ?i then n j else 0) db db'"
    using settle_shift [OF ok v(1) s, where p = "iv_paid v + ?n"] unfolding db' p eq by blast
  moreover have "hits (\<lambda>c s. c = company \<and> s = InvPosted) ?i (iv_order v) db"
    using findInvoice_mem [OF v(1)] v(2) by (auto simp: hits_def)
  ultimately show "payables_ok B db' \<and> (\<exists>ord. hits (\<lambda>c s. c = company \<and> s = InvPosted) ?i ord db
      \<and> paid_shift {?i} {ord} (\<lambda>j. if j = ?i then n j else 0) db db')" using ok' by blast
qed

interpretation reversing: invoice_turns B "unapplyTotal company user" "\<lambda>i. - n i"
  "\<lambda>t. close_to B k n t \<and> 0 < n (fst t)" "\<lambda>c s. c = company \<and> s \<noteq> InvVoided"
  for B company user n k
proof
  fix t and db db' :: "'a payables_db_scheme"
  assume r: "unapplyTotal company user t db = Inr db'" and ok: "payables_ok B db"
    and "close_to B k n t \<and> 0 < n (fst t)"
  let ?i = "fst t" and ?n = "n (fst t)"
  have g: "near B k (snd t) ?n" "0 \<le> ?n" "2 * ?n \<le> B" "fits B (k + 20)" "0 < B" "0 < ?n"
    using \<open>close_to B k n t \<and> _\<close> by (simp_all add: close_to_def)
  from r have a: "unapplyInvoicePayment ?i company (snd t) user db = Inr db'" by (simp add: unapplyTotal_def)
  have ok': "payables_ok B db'"
    using payables_step_ok [OF payables_step.unpay [OF a g(1-4)] ok] g(4,5) fits_mono [OF g(4)] by simp
  from a obtain v s where v: "findInvoice ?i company db = Inr v" and s: "findOrder (iv_order v) company db = Inr s"
    and e: "\<not> js_sub (js_num (iv_paid v)) (snd t) < - js_eps"
    and db': "db' = settle v s (to_fixed2 (max 0 (js_sub (js_num (iv_paid v)) (snd t))))
        (to_fixed2 (js_sub (js_sub (js_num (iv_grandTotal v)) (js_num (iv_credited v)))
          (max 0 (js_sub (js_num (iv_paid v)) (snd t))))) user db"
    by (auto simp: unapplyInvoicePayment_def Let_def split: if_splits)
  have iok: "invoice_ok B v" using ok findInvoice_mem [OF v] by (simp add: payables_ok_def)
  then have c: "0 \<le> iv_paid v" "0 \<le> iv_credited v" "iv_paid v + iv_credited v \<le> iv_grandTotal v" "2 * iv_grandTotal v \<le> B"
    by (simp_all add: invoice_ok_def)
  have p: "?n \<le> iv_paid v" "to_fixed2 (max 0 (js_sub (js_num (iv_paid v)) (snd t))) = iv_paid v - ?n"
    using unpay_exact [OF g(1-4) c e] by simp_all
  have eq: "(\<lambda>j. if j = ?i then iv_paid v - ?n - iv_paid v else 0) = (\<lambda>j. if j = ?i then - n j else 0)" by auto
  have "paid_shift {?i} {iv_order v} (\<lambda>j. if j = ?i then - n j else 0) db db'"
    using settle_shift [OF ok v s, where p = "iv_paid v - ?n"] unfolding db' p eq by blast
  moreover have "hits (\<lambda>c s. c = company \<and> s \<noteq> InvVoided) ?i (iv_order v) db"
    using findInvoice_mem [OF v] iok p(1) g(6) by (auto simp: hits_def invoice_ok_def)
  ultimately show "payables_ok B db' \<and> (\<exists>ord. hits (\<lambda>c s. c = company \<and> s \<noteq> InvVoided) ?i ord db
      \<and> paid_shift {?i} {ord} (\<lambda>j. if j = ?i then - n j else 0) db db')" using ok' by blast
qed

text \<open>The run over the totals of a list of allocations to invoices.\<close>

definition invoice_allocations :: "int \<Rightarrow> 'b allocation_dto_scheme list \<Rightarrow> bool" where
  "invoice_allocations B as \<longleftrightarrow> (\<forall>a \<in> set as. al_type a = PurchaseInvoiceRef \<and> 0 < al_amount a)
     \<and> 2 * sum_list (map al_amount as) \<le> B \<and> fits B (2 * length as + 20) \<and> 0 < B"

lemma invoice_allocations_totals:
  assumes "invoice_allocations B as"
  shows "distinct (map fst (invoiceTotals as))"
    "fst ` set (invoiceTotals as) = al_ref ` set as"
    "\<forall>t \<in> set (invoiceTotals as). close_to B (2 * length as) (\<lambda>i. allocated (PurchaseInvoiceRef, i) as) t
        \<and> 0 < allocated (PurchaseInvoiceRef, fst t) as"
proof -
  have ty: "al_type a = PurchaseInvoiceRef" if "a \<in> set as" for a using assms that by (simp add: invoice_allocations_def)
  have nn: "nonneg_amounts as" using assms by (force simp: invoice_allocations_def nonneg_amounts_def)
  have s: "0 \<le> sum_list (map al_amount as)"
    using nn unfolding nonneg_amounts_def by (intro sum_list_nonneg_map) auto
  let ?t = "buildAllocationTotals as"
  have keys: "fst ` set ?t = (\<lambda>a. (al_type a, al_ref a)) ` set as" by (rule totals_keys)
  have tk': "fst k = PurchaseInvoiceRef" if "k \<in> fst ` set ?t" for k
    using that ty unfolding keys by auto
  then have tk: "fst k = PurchaseInvoiceRef" if "(k, x) \<in> set ?t" for k x
    using that by (metis fst_conv image_eqI)
  have d: "distinct (map fst ?t)" by (rule totals_keys)
  have "inj_on snd (fst ` set ?t)" using tk' by (intro inj_onI prod_eqI) simp_all
  then have "distinct (map snd (map fst ?t))" using d by (metis distinct_map set_map)
  moreover have "map fst (map (\<lambda>((t, i), total). (i, total)) ?t) = map snd (map fst ?t)" by (simp add: split_beta')
  moreover have "mset (map fst (invoiceTotals as)) = mset (map fst (map (\<lambda>((t, i), total). (i, total)) ?t))"
    unfolding invoiceTotals_def mset_map mset_sort ..
  ultimately show "distinct (map fst (invoiceTotals as))" using mset_eq_imp_distinct_iff by metis
  have "fst ` set (invoiceTotals as) = snd ` fst ` set ?t" by (simp add: invoiceTotals_def image_image split_beta')
  also have "\<dots> = al_ref ` set as" unfolding keys by (simp add: image_image)
  finally show "fst ` set (invoiceTotals as) = al_ref ` set as" .
  show "\<forall>t \<in> set (invoiceTotals as). close_to B (2 * length as) (\<lambda>i. allocated (PurchaseInvoiceRef, i) as) t
        \<and> 0 < allocated (PurchaseInvoiceRef, fst t) as"
  proof
    fix t assume "t \<in> set (invoiceTotals as)"
    then obtain k x where k: "(k, x) \<in> set ?t" "t = (snd k, x)" by (force simp: invoiceTotals_def)
    have kk: "k = (PurchaseInvoiceRef, snd k)" using tk [OF k(1)] by (cases k) simp
    have "map_of ?t k = Some x" using k(1) d by simp
    moreover have "fits B (2 * length as)" "sum_list (map al_amount as) \<le> B"
      using assms s fits_mono [of B "2 * length as + 20" "2 * length as"] by (simp_all add: invoice_allocations_def)
    ultimately have "near B (2 * length as) x (allocated k as)" by (intro totals_near [OF nn]) auto
    moreover have "0 < allocated k as"
    proof -
      have "k \<in> fst ` set ?t" using k(1) by (metis fst_conv image_eqI)
      then obtain a where a: "a \<in> set as" "k = (al_type a, al_ref a)" unfolding keys by blast
      then have "al_amount a \<le> allocated k as" unfolding allocated_def
        using nn by (intro member_le_sum_map) (auto simp: nonneg_amounts_def)
      with a(1) assms show ?thesis by (auto simp: invoice_allocations_def)
    qed
    moreover have "2 * allocated k as \<le> B" using allocated_bounds [OF nn, of k] assms by (simp add: invoice_allocations_def)
    ultimately show "close_to B (2 * length as) (\<lambda>i. allocated (PurchaseInvoiceRef, i) as) t
        \<and> 0 < allocated (PurchaseInvoiceRef, fst t) as"
      using assms k(2) kk by (auto simp: close_to_def invoice_allocations_def)
  qed
qed

lemma pay_run:
  assumes "forEach (applyTotal company user) (invoiceTotals as) db = Inr db'" "payables_ok B db" "invoice_allocations B as"
  shows "payables_ok B db' \<and> (\<exists>P. paid_shift (al_ref ` set as) P (\<lambda>i. allocated (PurchaseInvoiceRef, i) as) db db'
      \<and> (\<forall>ord \<in> P. \<exists>i \<in> al_ref ` set as. hits (\<lambda>c s. c = company \<and> s = InvPosted) i ord db)
      \<and> (\<forall>i \<in> al_ref ` set as. \<exists>ord. hits (\<lambda>c s. c = company \<and> s = InvPosted) i ord db))"
proof -
  note t = invoice_allocations_totals [OF assms(3)]
  have "(\<lambda>j. if j \<in> al_ref ` set as then allocated (PurchaseInvoiceRef, j) as else 0)
      = (\<lambda>i. allocated (PurchaseInvoiceRef, i) as)" by (auto simp: fun_eq_iff simp: allocated_absent_ref)
  then show ?thesis
    using paying.run_shifts [OF assms(1,2) _ t(1), of "2 * length as" "\<lambda>i. allocated (PurchaseInvoiceRef, i) as"] t(3)
    unfolding t(2) by simp
qed

lemma unpay_run:
  assumes "forEach (unapplyTotal company user) (invoiceTotals as) db = Inr db'" "payables_ok B db" "invoice_allocations B as"
  shows "payables_ok B db' \<and> (\<exists>P. paid_shift (al_ref ` set as) P (\<lambda>i. - allocated (PurchaseInvoiceRef, i) as) db db'
      \<and> (\<forall>ord \<in> P. \<exists>i \<in> al_ref ` set as. hits (\<lambda>c s. c = company \<and> s \<noteq> InvVoided) i ord db)
      \<and> (\<forall>i \<in> al_ref ` set as. \<exists>ord. hits (\<lambda>c s. c = company \<and> s \<noteq> InvVoided) i ord db))"
proof -
  note t = invoice_allocations_totals [OF assms(3)]
  have "(\<lambda>j. if j \<in> al_ref ` set as then - allocated (PurchaseInvoiceRef, j) as else 0)
      = (\<lambda>i. - allocated (PurchaseInvoiceRef, i) as)" by (auto simp: fun_eq_iff simp: allocated_absent_ref)
  then show ?thesis
    using reversing.run_shifts [OF assms(1,2) _ t(1), of "2 * length as" "\<lambda>i. allocated (PurchaseInvoiceRef, i) as"] t(3)
    unfolding t(2) by simp
qed

section \<open>Runs over sales and returns\<close>

text \<open>A table in which the amount of each row has grown by a function of its key.\<close>

definition bumped :: "('r \<Rightarrow> id) \<Rightarrow> ('r \<Rightarrow> int) \<Rightarrow> (id \<Rightarrow> int) \<Rightarrow> 'r list \<Rightarrow> 'r list \<Rightarrow> bool" where
  "bumped key amount f xs ys \<longleftrightarrow>
     list_all2 (\<lambda>x y. key y = key x \<and> amount y = amount x + f (key x) \<and> (f (key x) = 0 \<longrightarrow> y = x)) xs ys"

lemma bumped_refl: "bumped key amount (\<lambda>_. 0) xs xs"
  by (simp add: bumped_def list_all2_same)

lemma bumped_trans:
  assumes "bumped key amount f xs ys" "bumped key amount g ys zs" "\<forall>k. 0 \<le> f k \<and> 0 \<le> g k"
  shows "bumped key amount (\<lambda>k. f k + g k) xs zs"
proof -
  have "f k = 0 \<and> g k = 0" if "f k + g k = 0" for k using that assms(3) by (metis add_nonneg_eq_0_iff)
  then show ?thesis
    unfolding bumped_def by (intro list_all2_trans3 [OF assms(1) [unfolded bumped_def] assms(2) [unfolded bumped_def]]) auto
qed

lemma bumped_save:
  assumes "distinct (map key xs)" "r \<in> set xs" "key r' = key r" "amount r' = amount r + n" "n \<noteq> 0"
  shows "bumped key amount (\<lambda>k. if k = key r then n else 0) xs (map (\<lambda>x. if key x = key r' then r' else x) xs)"
proof -
  have "x = r" if "x \<in> set xs" "key x = key r" for x using that assms(1,2) by (auto simp: distinct_map dest: inj_onD)
  with assms(3-5) show ?thesis by (auto simp: bumped_def list.rel_map list_all2_same)
qed

lemma bumped_mem:
  "bumped key amount f xs ys \<Longrightarrow> x \<in> set xs \<Longrightarrow>
    \<exists>y \<in> set ys. key y = key x \<and> amount y = amount x + f (key x) \<and> (f (key x) = 0 \<longrightarrow> y = x)"
  unfolding bumped_def list_all2_conv_all_nth by (metis in_set_conv_nth)

text \<open>Sales and returns whose amounts are in range, and not overpaid.\<close>

definition documents_ok :: "int \<Rightarrow> 'a returns_db_scheme \<Rightarrow> bool" where
  "documents_ok B db \<longleftrightarrow> distinct (map sl_id (sales db)) \<and> distinct (map rt_id (saleReturns db))
     \<and> (\<forall>s \<in> set (sales db). 0 \<le> sl_paid s \<and> sl_paid s \<le> sl_grandTotal s \<and> 2 * sl_grandTotal s \<le> B)
     \<and> (\<forall>r \<in> set (saleReturns db). 0 \<le> rt_refunded r \<and> rt_refunded r \<le> rt_refund r \<and> 2 * rt_refund r \<le> B)"

lemma fill_exact:
  assumes a: "near B k a n" "0 \<le> n" "2 * n \<le> B" and f: "fits B (k + 20)"
    and m: "0 \<le> p" "p \<le> g" "2 * g \<le> B" "0 < B"
    and ok: "\<not> exceeds (js_add (js_num p) a) (js_num g)"
  shows "p + n \<le> g" "to_fixed2 (js_add (js_num p) a) = p + n"
proof -
  note fm = fits_mono [OF f]
  have 2: "near B (k + 2) (js_add (js_num p) a) (p + n)"
    using near_add [OF near_num a(1), of p] a m fm [of "Suc k"] by simp
  show "p + n \<le> g"
  proof (rule ccontr)
    assume "\<not> p + n \<le> g"
    then have "exceeds (js_add (js_num p) a) (js_num g)"
      using m a by (intro exceeds_beyond [OF 2 near_num fm]) auto
    with ok show False ..
  qed
  show "to_fixed2 (js_add (js_num p) a) = p + n" by (rule to_fixed2_near [OF 2 fm]) simp
qed

lemma save_documents:
  "documents_ok B db \<Longrightarrow> 0 \<le> sl_paid s \<Longrightarrow> sl_paid s \<le> sl_grandTotal s \<Longrightarrow> 2 * sl_grandTotal s \<le> B \<Longrightarrow> documents_ok B (saveSale s db)"
  "documents_ok B db \<Longrightarrow> 0 \<le> rt_refunded r \<Longrightarrow> rt_refunded r \<le> rt_refund r \<Longrightarrow> 2 * rt_refund r \<le> B
    \<Longrightarrow> documents_ok B (saveReturn r db)"
  by (auto simp: documents_ok_def saveSale_def saveReturn_def o_def if_distrib cong: if_cong)

text \<open>A positive amount that is close to its cents, for one target.\<close>

lemma applied_bumps:
  fixes db :: "'a payables_db_scheme"
  assumes a: "applyToTarget company user ((t, i), x) db = Inr d" and ok: "documents_ok B db"
    and n: "near B k x n" "0 < n" "2 * n \<le> B" and f: "fits B (k + 20)" "0 < B"
    and t: "t \<noteq> PurchaseOrderRef"
  shows "documents_ok B d
    \<and> bumped sl_id sl_paid (\<lambda>j. if (SaleRef, j) = (t, i) then n else 0) (sales db) (sales d)
    \<and> bumped rt_id rt_refunded (\<lambda>j. if (SaleReturnRef, j) = (t, i) then n else 0) (saleReturns db) (saleReturns d)"
proof (cases t)
  case SaleRef
  then obtain s b where s: "findSaleInCompany i company db = Inr s"
    and e: "\<not> exceeds (js_add (js_num (sl_paid s)) x) (js_num (sl_grandTotal s))"
    and d: "d = saveSale (s\<lparr>sl_paid := to_fixed2 (js_add (js_num (sl_paid s)) x), sl_balance := b, sl_updatedBy := user\<rparr>) db"
    using a by (auto simp: applyToTarget_def applySalePayment_def Let_def split: if_splits)
  have m: "s \<in> set (sales db)" "sl_id s = i" using s by (auto simp: findSaleInCompany_def dest: find_SomeD)
  have b: "0 \<le> sl_paid s" "sl_paid s \<le> sl_grandTotal s" "2 * sl_grandTotal s \<le> B" using ok m(1) by (simp_all add: documents_ok_def)
  note p = fill_exact [OF n(1) less_imp_le [OF n(2)] n(3) f(1) b f(2) e]
  let ?s = "s\<lparr>sl_paid := sl_paid s + n, sl_balance := b, sl_updatedBy := user\<rparr>"
  have d: "d = saveSale ?s db" unfolding d p(2) ..
  have "documents_ok B d" unfolding d by (rule save_documents(1) [OF ok]) (use b n p in simp_all)
  moreover have "bumped sl_id sl_paid (\<lambda>j. if j = sl_id s then n else 0) (sales db) (sales d)"
    using bumped_save [of sl_id "sales db" s ?s sl_paid n] ok m(1) n(2) by (simp add: d saveSale_def documents_ok_def)
  moreover have "saleReturns d = saleReturns db" by (simp add: d saveSale_def)
  ultimately show ?thesis by (simp add: SaleRef m(2) bumped_refl)
next
  case SaleReturnRef
  then obtain r st where r: "findReturn i company db = Inr r"
    and e: "\<not> exceeds (js_add (js_num (rt_refunded r)) x) (js_num (rt_refund r))"
    and d: "d = saveReturn (r\<lparr>rt_refunded := to_fixed2 (js_add (js_num (rt_refunded r)) x), rt_status := st\<rparr>) db"
    using a by (auto simp: applyToTarget_def applyRefund_def Let_def split: if_splits)
  have m: "r \<in> set (saleReturns db)" "rt_id r = i" using r by (auto simp: findReturn_def dest: find_SomeD)
  have b: "0 \<le> rt_refunded r" "rt_refunded r \<le> rt_refund r" "2 * rt_refund r \<le> B" using ok m(1) by (simp_all add: documents_ok_def)
  note p = fill_exact [OF n(1) less_imp_le [OF n(2)] n(3) f(1) b f(2) e]
  let ?r = "r\<lparr>rt_refunded := rt_refunded r + n, rt_status := st\<rparr>"
  have d: "d = saveReturn ?r db" unfolding d p(2) ..
  have "documents_ok B d" unfolding d by (rule save_documents(2) [OF ok]) (use b n p in simp_all)
  moreover have "bumped rt_id rt_refunded (\<lambda>j. if j = rt_id r then n else 0) (saleReturns db) (saleReturns d)"
    using bumped_save [of rt_id "saleReturns db" r ?r rt_refunded n] ok m(1) n(2) by (simp add: d saveReturn_def documents_ok_def)
  moreover have "sales d = sales db" by (simp add: d saveReturn_def)
  ultimately show ?thesis by (simp add: SaleReturnRef m(2) bumped_refl)
next
  case PurchaseInvoiceRef
  then have "\<exists>v s p b. d = settle v s p b user db"
    using a by (auto simp: applyToTarget_def applyInvoicePayment_def Let_def split: if_splits)
  then have "sales d = sales db" "saleReturns d = saleReturns db"
    by (auto simp: settle_def saveOrder_def saveInvoice_def)
  with ok show ?thesis by (simp add: PurchaseInvoiceRef documents_ok_def bumped_refl)
qed (use t in simp)

lemma applied_run:
  fixes db :: "'a payables_db_scheme"
  assumes "forEach (applyToTarget company user) ts db = Inr d" "documents_ok B db" "distinct (map fst ts)"
    and "\<forall>t \<in> set ts. fst (fst t) \<noteq> PurchaseOrderRef \<and> near B k (snd t) (n (fst t)) \<and> 0 < n (fst t) \<and> 2 * n (fst t) \<le> B"
    and f: "fits B (k + 20)" "0 < B"
  shows "documents_ok B d
    \<and> bumped sl_id sl_paid (\<lambda>j. if (SaleRef, j) \<in> fst ` set ts then n (SaleRef, j) else 0) (sales db) (sales d)
    \<and> bumped rt_id rt_refunded (\<lambda>j. if (SaleReturnRef, j) \<in> fst ` set ts then n (SaleReturnRef, j) else 0) (saleReturns db) (saleReturns d)"
  using assms(1-4)
proof (induction ts arbitrary: db)
  case (Cons t ts)
  obtain r i x where t: "t = ((r, i), x)" by (metis prod.collapse)
  from Cons.prems(1) obtain e where e: "applyToTarget company user t db = Inr e" "forEach (applyToTarget company user) ts e = Inr d" by auto
  let ?one = "\<lambda>q j. if (q, j) = (r, i) then n (r, i) else 0"
  let ?rest = "\<lambda>q j. if (q, j) \<in> fst ` set ts then n (q, j) else 0"
  let ?all = "\<lambda>q j. if (q, j) \<in> fst ` set (t # ts) then n (q, j) else 0"
  have head: "r \<noteq> PurchaseOrderRef" "near B k x (n (r, i))" "0 < n (r, i)" "2 * n (r, i) \<le> B"
    using Cons.prems(4) t by auto
  from applied_bumps [OF e(1) [unfolded t] Cons.prems(2) head(2-4) f head(1)]
  have one: "documents_ok B e" "bumped sl_id sl_paid (?one SaleRef) (sales db) (sales e)"
    "bumped rt_id rt_refunded (?one SaleReturnRef) (saleReturns db) (saleReturns e)" by blast+
  from Cons.IH [OF e(2) one(1)] Cons.prems(3,4)
  have rest: "documents_ok B d" "bumped sl_id sl_paid (?rest SaleRef) (sales e) (sales d)"
    "bumped rt_id rt_refunded (?rest SaleReturnRef) (saleReturns e) (saleReturns d)" by auto
  have nn: "\<forall>k. 0 \<le> ?one q k \<and> 0 \<le> ?rest q k" for q
    using head(3) Cons.prems(4) by (auto simp: less_imp_le)
  have eq: "(\<lambda>j. ?one q j + ?rest q j) = ?all q" for q
    using Cons.prems(3) by (auto simp: t fun_eq_iff)
  show ?case
    using rest(1) bumped_trans [OF one(2) rest(2) nn] bumped_trans [OF one(3) rest(3) nn] unfolding eq by blast
qed (simp add: bumped_refl)

text \<open>What the loop over the targets of a request does to sales and returns.\<close>

lemma targets_bump:
  fixes db :: "'a payables_db_scheme"
  assumes r: "forEach (applyToTarget company user) (sortedTargets (buildAllocationTotals as)) db = Inr d" and ok: "documents_ok B db"
    and as: "\<forall>a \<in> set as. al_type a \<noteq> PurchaseOrderRef \<and> 0 < al_amount a" "2 * sum_list (map al_amount as) \<le> B"
      "fits B (2 * length as + 20)" "0 < B"
  shows "bumped sl_id sl_paid (\<lambda>j. allocated (SaleRef, j) as) (sales db) (sales d)
    \<and> bumped rt_id rt_refunded (\<lambda>j. allocated (SaleReturnRef, j) as) (saleReturns db) (saleReturns d)"
proof -
  let ?t = "buildAllocationTotals as" and ?ts = "sortedTargets (buildAllocationTotals as)"
  have nn: "nonneg_amounts as" using as(1) by (force simp: nonneg_amounts_def)
  have s: "0 \<le> sum_list (map al_amount as)"
    using nn unfolding nonneg_amounts_def by (intro sum_list_nonneg_map) auto
  have set_ts: "set ?ts = set ?t" by (simp add: sortedTargets_def)
  have ms: "mset (map fst ?ts) = mset (map fst ?t)" by (simp add: sortedTargets_def mset_map)
  have dist: "distinct (map fst ?ts)" using mset_eq_imp_distinct_iff [OF ms] totals_keys(1) by simp
  have each: "fst (fst t) \<noteq> PurchaseOrderRef \<and> near B (2 * length as) (snd t) (allocated (fst t) as)
      \<and> 0 < allocated (fst t) as \<and> 2 * allocated (fst t) as \<le> B" if t: "t \<in> set ?ts" for t
  proof -
    have "fst t \<in> fst ` set ?t" using t set_ts by auto
    then obtain a where a: "a \<in> set as" "fst t = (al_type a, al_ref a)" unfolding totals_keys(2) by blast
    have "map_of ?t (fst t) = Some (snd t)" using t set_ts by (intro map_of_is_SomeI [OF totals_keys(1)]) simp
    moreover have "fits B (2 * length as)" "sum_list (map al_amount as) \<le> B"
      using as s fits_mono [OF as(3), of "2 * length as"] by simp_all
    ultimately have "near B (2 * length as) (snd t) (allocated (fst t) as)" by (intro totals_near [OF nn]) auto
    moreover have "al_amount a \<le> allocated (fst t) as"
      unfolding allocated_def using a nn by (intro member_le_sum_map) (auto simp: nonneg_amounts_def)
    moreover have "2 * allocated (fst t) as \<le> B" using allocated_bounds [OF nn, of "fst t"] as(2) by simp
    ultimately show ?thesis using a as(1) by fastforce
  qed
  have "(\<lambda>j. if (q, j) \<in> fst ` set ?ts then allocated (q, j) as else 0) = (\<lambda>j. allocated (q, j) as)" for q
    using allocated_absent [of _ as] by (auto simp: fun_eq_iff set_ts totals_keys(2))
  with applied_run [OF r ok dist _ as(3,4), of "\<lambda>k. allocated k as"] each show ?thesis by auto
qed

end
