(* ===== verification/Payment_Ledger.thy ===== *)
theory Payment_Ledger
  imports Payments
begin

text \<open>
  What the postings of payments add to the journal: the rows of a new entry and of its reversal, and that no
  payment is posted under the identifier of another. Used by \<open>Payment_Theorems\<close>.
\<close>

lemma createInternal_adds:
  assumes "createInternal ps now db = Inr (j, db')"
  shows "journals db' = journals db @ [j]
    \<and> journalLines db' = journalLines db @ map (storeLine (je_id j)) (ip_lines ps)
    \<and> je_company j = ip_company ps \<and> je_sourceType j = ip_sourceType ps \<and> je_sourceId j = Some (ip_sourceId ps)"
proof -
  from assms obtain td tc p db1 where b: "assertBalanced (ip_lines ps) = Inr (td, tc)"
    and r: "resolveOpenPeriod (ip_company ps) (ip_entryDate ps) db = Inr (p, db1)"
    unfolding createInternal_def by auto
  obtain n db2 where g: "generateJournalNumber (ip_company ps) (getUTCFullYear (ip_entryDate ps)) db1 = (n, db2)"
    by force
  from assms b r g obtain db3 where i: "insertJournal j (db2\<lparr>nextId := nextId db2 + 1\<rparr>) = Inr db3"
    and j: "je_company j = ip_company ps" "je_sourceType j = ip_sourceType ps" "je_sourceId j = Some (ip_sourceId ps)"
    and db': "db' = insertLines (je_id j) (ip_lines ps) db3"
    unfolding createInternal_def by (auto simp: Let_def)
  have "same_ledger db db2"
    using resolveOpenPeriod_same [OF r] generateJournalNumber_same [OF g] by (rule same_ledger_trans)
  with i j show ?thesis by (simp add: db' insertJournal_Inr insertLines_def same_ledger_def)
qed

lemma account_net_append [simp]: "account_net a (xs @ ys) = account_net a xs + account_net a ys"
  by (simp add: account_net_def)

text \<open>No entry has the payment as its source.\<close>

definition unposted :: "id \<Rightarrow> acct_db \<Rightarrow> bool" where
  "unposted i db \<longleftrightarrow> (\<forall>k \<in> set (journals db). je_sourceType k = SPayment \<longrightarrow> je_sourceId k \<noteq> Some i)"

lemma findBySource_unposted: "unposted i db \<Longrightarrow> findBySource company SPayment i db = None"
  by (auto simp: unposted_def findBySource_def find_None_iff)

lemma postPayment_adds:
  assumes ok: "ledger_ok db" and amount: "\<bar>pa_amount p\<bar> \<le> 2 ^ 50" and new: "unposted (pa_id p) db"
    and post: "postPayment p pm cust supp user now db = Inr (j, db')"
  shows "ledger_ok db' \<and> keeps_posted db db' \<and> journals db' = journals db @ [j] \<and> je_status j = JPosted
    \<and> je_totalDebit j = pa_amount p \<and> je_company j = pa_company p \<and> je_sourceType j = SPayment
    \<and> je_sourceId j = Some (pa_id p)
    \<and> (\<exists>d c. journalLines db' = journalLines db @ map (storeLine (je_id j)) (postingLines p d c (pa_amount p))
         \<and> linesOf (je_id j) db' = map (storeLine (je_id j)) (postingLines p d c (pa_amount p)))"
proof -
  note none = findBySource_unposted [OF new, of "pa_company p"]
  from postPayment_fresh [OF ok amount none post] obtain d c where
    f: "ledger_ok db'" "keeps_posted db db'" "je_status j = JPosted" "je_totalDebit j = pa_amount p"
      "linesOf (je_id j) db' = map (storeLine (je_id j)) (postingLines p d c (pa_amount p))" by blast
  have a: "to_fixed2 (js_num (pa_amount p)) = pa_amount p"
    using amount by (intro to_fixed2_js_num) auto
  from post none obtain cashBank d' c' where
    r: "resolveCashBankAccount pm (pa_company p) db = Inr cashBank"
      "postingAccounts p cashBank cust supp db = Inr (d', c')"
    unfolding postPayment_def by auto
  let ?ps = "\<lparr>ip_company = pa_company p, ip_branch = pa_branch p,
        ip_entryDate = pa_date p, ip_sourceType = SPayment, ip_sourceId = pa_id p, ip_user = user,
        ip_lines = postingLines p d' c' (pa_amount p)\<rparr>"
  have i: "createInternal ?ps now db = Inr (j, db')"
    using post none a r by (cases "createInternal ?ps now db") (simp_all add: postPayment_def split: if_splits)
  note ad = createInternal_adds [OF i]
  have "moderate (ip_lines ?ps)" using moderate_posting [OF amount] by simp
  from createInternal_ok [OF ok this i] have "linesOf (je_id j) db' = map (storeLine (je_id j)) (postingLines p d' c' (pa_amount p))"
    by simp
  with f ad show ?thesis by auto
qed

text \<open>A reversal of a posting that is in the journal.\<close>

lemma reversePayment_adds:
  assumes ok: "ledger_ok db" and rev: "reversePayment p user now db = Inr (r, db')"
  shows "ledger_ok db' \<and> keeps_posted db db'
    \<and> (journals db' = journals db \<or> (\<exists>j. journals db' = journals db @ [j] \<and> je_sourceType j = SManual))"
proof (cases r)
  case None
  then have "db' = db" using rev by (auto simp: reversePayment_def split: if_splits option.splits)
  with ok show ?thesis by simp
next
  case (Some j)
  let ?db = "db\<lparr>nextId := nextId db + 1\<rparr>"
  from rev Some obtain original :: journal where
    i: "createInternal \<lparr>ip_company = pa_company p, ip_branch = pa_branch p, ip_entryDate = now,
        ip_sourceType = SManual, ip_sourceId = nextId db, ip_user = user,
        ip_lines = map (reversalLine p) (linesOf (je_id original) db)\<rparr> now ?db = Inr (j, db')"
    by (auto simp: reversePayment_def split: option.splits if_splits)
  from createInternal_adds [OF i] have "journals db' = journals db @ [j] \<and> je_sourceType j = SManual" by simp
  moreover have "ledger_ok db' \<and> keeps_posted db db'" using reversePayment_nets [OF ok] rev Some by blast
  ultimately show ?thesis by blast
qed

lemma reversePayment_cancels:
  assumes ok: "ledger_ok db" and rev: "reversePayment p user now db = Inr (r, db')" and dir: "pa_direction p \<noteq> Refund"
    and j: "findBySource (pa_company p) SPayment (pa_id p) db = Some j" "linesOf (je_id j) db \<noteq> []"
  shows "account_net a (journalLines db') = account_net a (journalLines db) - account_net a (linesOf (je_id j) db)"
proof -
  let ?ls = "map (reversalLine p) (linesOf (je_id j) db)"
  from rev dir j obtain k where
    i: "createInternal \<lparr>ip_company = pa_company p, ip_branch = pa_branch p, ip_entryDate = now,
        ip_sourceType = SManual, ip_sourceId = nextId db, ip_user = user, ip_lines = ?ls\<rparr> now
        (db\<lparr>nextId := nextId db + 1\<rparr>) = Inr (k, db')"
    by (auto simp: reversePayment_def)
  have "moderate (linesOf (je_id j) db)" using findBySource_Some [OF j(1)] ok by (simp add: ledger_ok_def entry_ok_def)
  then have m: "moderate ?ls" by (simp only: moderate_reversal)
  have "journalLines db' = journalLines db @ map (storeLine (je_id k)) ?ls"
    using createInternal_adds [OF i] by (simp del: map_map)
  then show ?thesis by (simp add: account_net_stored [OF m] account_net_reversal del: map_map)
qed

end
