(* ===== verification/Supply_Steps.thy ===== *)
theory Supply_Steps
  imports Payables_Theorems
begin

text \<open>
  The operations on orders, receipts, supplier invoices and returns, other than payments, and what they leave
  alone: the paid amount of every invoice, and every table beyond the payables. Used by
  \<open>Payment_Theorems\<close>.
\<close>

inductive supply_step :: "int \<Rightarrow> 'a payables_db_scheme \<Rightarrow> 'a payables_db_scheme \<Rightarrow> bool" for B where
  order: "order_step B db db' \<Longrightarrow> supply_step B db db'"
| sync: "syncEligibleInvoices org company supplierId db = Inr db' \<Longrightarrow> supply_step B db db'"
| post: "postRun i company user now db = Inr (v, db') \<Longrightarrow> supply_step B db db'"
| void: "voidRun i company user reason now db = Inr (v, db') \<Longrightarrow> supply_step B db db'"
| return: "createPurchaseReturn company user dto now db = Inr (r, db') \<Longrightarrow> 0 \<le> prt_subtotal r \<Longrightarrow>
    2 * prt_subtotal r \<le> B \<Longrightarrow> supply_step B db db'"
| complete: "completePurchaseReturn i company user now db = Inr (r, db') \<Longrightarrow> supply_step B db db'"
| abandon: "cancelPurchaseReturn i company db = Inr (r, db') \<Longrightarrow> supply_step B db db'"

lemma supply_payables: "supply_step B db db' \<Longrightarrow> payables_step B db db'"
  by (induction rule: supply_step.induct) (rule payables_step.intros; assumption)+

definition keeps_paid :: "'a payables_db_scheme \<Rightarrow> 'a payables_db_scheme \<Rightarrow> bool" where
  "keeps_paid db db' \<longleftrightarrow> payables_db.more db' = payables_db.more db \<and> rowIds db \<le> rowIds db'
     \<and> (\<forall>w \<in> set (purchaseInvoices db').
          (\<exists>v \<in> set (purchaseInvoices db). iv_id v = iv_id w \<and> iv_paid v = iv_paid w)
          \<or> rowIds db \<le> iv_id w \<and> iv_paid w = 0)"

lemma keeps_paid_same:
  "payables_db.more db' = payables_db.more db \<Longrightarrow> rowIds db \<le> rowIds db'
    \<Longrightarrow> purchaseInvoices db' = purchaseInvoices db \<Longrightarrow> keeps_paid db db'"
  by (auto simp: keeps_paid_def)

lemma keeps_paid_save:
  assumes "findInvoice i company db = Inr v" "iv_id w = iv_id v" "iv_paid w = iv_paid v"
  shows "keeps_paid db (saveInvoice w db)"
  using findInvoice_mem [OF assms(1)] assms(2,3) by (auto simp: keeps_paid_def saveInvoice_def)

lemma insertInvoices_keep:
  assumes "forEach (insertInvoice org company) os db = Inr db'" "\<forall>s \<in> set os. po_paid s = 0"
  shows "keeps_paid db db'"
proof -
  have "keeps_paid db d'" if k: "keeps_paid db d" and s: "s \<in> set os" and i: "insertInvoice org company s d = Inr d'" for s d d'
  proof -
    from i obtain v where t: "d' = d\<lparr>purchaseInvoices := purchaseInvoices d @ [v], rowIds := rowIds d + 1\<rparr>"
      and v: "iv_id v = rowIds d" "iv_paid v = po_paid s"
      unfolding insertInvoice_def draftInvoice_def Let_def by (auto split: if_splits)
    have "payables_db.more d' = payables_db.more d" "rowIds d \<le> rowIds d'"
      "set (purchaseInvoices d') = insert v (set (purchaseInvoices d))" by (simp_all add: t)
    moreover have "iv_paid v = 0" using v(2) assms(2) s by simp
    moreover have "rowIds db \<le> iv_id v" using k v(1) by (simp add: keeps_paid_def)
    ultimately show ?thesis using k unfolding keeps_paid_def by (simp only: ball_simps) (simp add: order_trans)
  qed
  then show ?thesis using forEach_invariant [OF assms(1), of "keeps_paid db"] keeps_paid_same [of db db] by blast
qed

lemma supply_keeps_paid:
  assumes step: "supply_step B db db'" and ok: "payables_ok B db" and B: "fits B 20"
  shows "keeps_paid db db'"
  using step
proof cases
  case order
  have "keeps_money B db db'" using order_step_keeps [OF order] ok by (simp add: payables_ok_def)
  then show ?thesis by (intro keeps_paid_same) (cases db; cases db'; simp add: keeps_money_def)+
next
  case (sync org company supplierId)
  have "po_paid s = 0" if s: "s \<in> set (ordersToInvoice company supplierId db)" for s
  proof -
    have "s \<in> set (purchaseOrders db)" using s by (simp add: ordersToInvoice_def)
    then have "unpaid_order B s" using ok uninvoiced [OF ok s] by (simp add: payables_ok_def)
    then show ?thesis by (simp add: unpaid_order_def)
  qed
  then show ?thesis using sync by (intro insertInvoices_keep) (auto simp: syncEligibleInvoices_def)
next
  case (post i company user now v')
  then obtain v where v: "findInvoice i company db = Inr v"
    and t: "db' = saveInvoice (v\<lparr>iv_status := InvPosted, iv_postedAt := Some now, iv_postedBy := Some user,
                     iv_updatedBy := user\<rparr>) db"
    by (auto simp: postRun_def Let_def split: if_splits)
  show ?thesis unfolding t by (rule keeps_paid_save [OF v]) simp_all
next
  case (void i company user reason now v')
  then obtain v where v: "findInvoice i company db = Inr v"
    and t: "db' = saveInvoice (v\<lparr>iv_status := InvVoided, iv_voidedAt := Some now, iv_voidedBy := Some user,
                   iv_voidReason := Some reason, iv_balance := 0, iv_updatedBy := user\<rparr>) db"
    by (auto simp: voidRun_def Let_def split: if_splits)
  show ?thesis unfolding t by (rule keeps_paid_save [OF v]) simp_all
next
  case (return company user dto now r)
  note l = createPurchaseReturn_laws [OF return(1)]
  obtain n db1 where g: "generatePurchaseReturnNumber company (getUTCFullYear now) db = (n, db1)" by force
  then have m1: "payables_db.more db1 = payables_db.more db"
    by (auto simp: generatePurchaseReturnNumber_def next_sequence_eq)
  have ins: "payables_db.more (fold (insertPurchaseReturnItem k) rows d) = payables_db.more d"
    for k rows and d :: "'a payables_db_scheme"
    by (induction rows arbitrary: d) (simp_all add: insertPurchaseReturnItem_def)
  have "payables_db.more db' = payables_db.more db"
    using return(1) g m1 by (auto simp: createPurchaseReturn_def Let_def ins split: if_splits)
  with l show ?thesis by (intro keeps_paid_same) auto
next
  case (complete i company user now r')
  from completePurchaseReturn_cases [OF complete] obtain r v s w d where
      v: "findInvoice (prt_invoice r) company db = Inr v"
    and loop: "forEach (sendBack w (prt_id r) user now)
        (sort_key px_variant (filter (\<lambda>x. px_return x = prt_id r) (purchaseReturnItems db))) db = Inr d"
    and db': "db' = savePurchaseReturn r' (saveOrder (s\<lparr>po_balance := snd (snd (snd (creditNote v r))), po_updatedBy := user\<rparr>)
        (saveInvoice (v\<lparr>iv_credited := fst (snd (snd (creditNote v r))),
           iv_balance := snd (snd (snd (creditNote v r))), iv_updatedBy := user\<rparr>) d))" by blast
  have "stock_frame db d \<and> rowIds db \<le> rowIds d" using sendBacks(1) [OF loop] by (simp add: moves_rows_def)
  then have fr: "payables_db.more d = payables_db.more db" "purchaseInvoices d = purchaseInvoices db" "rowIds db \<le> rowIds d"
    by (cases db; cases d; simp add: stock_frame_def)+
  have "keeps_paid db d" by (rule keeps_paid_same) (use fr in simp_all)
  then show ?thesis using findInvoice_mem [OF v] fr
    by (auto simp: keeps_paid_def db' savePurchaseReturn_def saveOrder_def saveInvoice_def)
next
  case (abandon i company r')
  then show ?thesis
    by (auto simp: cancelPurchaseReturn_def Let_def savePurchaseReturn_def intro!: keeps_paid_same split: if_splits)
qed

end
