(* ===== verification/Payment_Steps.thy ===== *)
theory Payment_Steps
  imports Payment_Effects Payment_Ledger Supply_Steps
begin

text \<open>
  The invariant of the payments and its preservation by every operation: the paid amount of each supplier
  invoice is what the confirmed payments allocate to it, allocations fit their payment, no number or
  idempotency key is used twice, and the ledger is in order. The properties are in \<open>Payment_Theorems\<close>.
\<close>

section \<open>Stored allocations\<close>

definition entry_of :: "'b allocation_dto_scheme \<Rightarrow> reference_type \<times> id \<times> int" where
  "entry_of a = (al_type a, al_ref a, al_amount a)"

lemma entries_all:
  assumes "map entry_of rows = map entry_of as"
  shows "(\<forall>a \<in> set rows. P (entry_of a)) = (\<forall>a \<in> set as. P (entry_of a))"
proof -
  have "entry_of ` set rows = entry_of ` set as" using arg_cong [OF assms, of set] by simp
  then show ?thesis by (metis (no_types, opaque_lifting) imageE imageI)
qed

lemma same_entries:
  assumes "map entry_of rows = map entry_of as"
  shows "allocated k rows = allocated k as" "sum_list (map al_amount rows) = sum_list (map al_amount as)"
    "invoice_allocations B rows = invoice_allocations B as" "al_ref ` set rows = al_ref ` set as"
    "nonneg_amounts rows = nonneg_amounts as"
proof -
  have l: "length rows = length as" using arg_cong [OF assms, of length] by simp
  have s: "(\<lambda>a. entry_of a) ` set rows = (\<lambda>a. entry_of a) ` set as" using arg_cong [OF assms, of set] by simp
  note all = entries_all [OF assms]
  show "al_ref ` set rows = al_ref ` set as" using arg_cong [OF s, of "image (\<lambda>e. fst (snd e))"]
    by (simp add: image_image entry_of_def)
  show sm: "sum_list (map al_amount rows) = sum_list (map al_amount as)"
    using arg_cong [OF assms, of "map (\<lambda>e. snd (snd e))"] by (simp add: o_def entry_of_def)
  show "allocated k rows = allocated k as" using assms
    by (induction rows as rule: list_induct2') (auto simp: entry_of_def)
  show "nonneg_amounts rows = nonneg_amounts as"
    unfolding nonneg_amounts_def using all [of "\<lambda>e. 0 \<le> snd (snd e)"] by (simp add: entry_of_def)
  show "invoice_allocations B rows = invoice_allocations B as"
    unfolding invoice_allocations_def sm l using all [of "\<lambda>e. fst e = PurchaseInvoiceRef \<and> 0 < snd (snd e)"]
    by (simp add: entry_of_def)
qed

lemma insertAllocations:
  assumes "\<forall>a \<in> set as. \<bar>al_amount a\<bar> < 2 ^ 51"
  shows "\<exists>rows. fold (insertAllocation i) as d
      = d\<lparr>paymentAllocations := paymentAllocations d @ rows, rowIds := rowIds d + length as\<rparr>
    \<and> map entry_of rows = map entry_of as \<and> (\<forall>r \<in> set rows. al_payment r = i)"
  using assms
proof (induction as arbitrary: d)
  case Nil
  show ?case by (intro exI [of _ "[]"]) simp
next
  case (Cons a as)
  let ?r = "\<lparr>al_type = al_type a, al_ref = al_ref a, al_amount = to_fixed2 (js_num (al_amount a)),
      al_id = rowIds d, al_payment = i\<rparr>"
  let ?d = "d\<lparr>paymentAllocations := paymentAllocations d @ [?r], rowIds := rowIds d + 1\<rparr>"
  have d: "insertAllocation i a d = ?d" by (simp add: insertAllocation_def)
  have "\<forall>a \<in> set as. \<bar>al_amount a\<bar> < 2 ^ 51" using Cons.prems by simp
  from Cons.IH [OF this, of ?d] obtain rows where r: "fold (insertAllocation i) as ?d
      = ?d\<lparr>paymentAllocations := paymentAllocations ?d @ rows, rowIds := rowIds ?d + length as\<rparr>"
    "map entry_of rows = map entry_of as" "\<forall>r \<in> set rows. al_payment r = i" by blast
  have "to_fixed2 (js_num (al_amount a)) = al_amount a" using Cons.prems by (intro to_fixed2_js_num) simp
  then have e: "entry_of ?r = entry_of a" by (simp add: entry_of_def)
  show ?case
  proof (intro exI [of _ "?r # rows"] conjI)
    show "fold (insertAllocation i) (a # as) d
        = d\<lparr>paymentAllocations := paymentAllocations d @ ?r # rows, rowIds := rowIds d + length (a # as)\<rparr>"
      unfolding fold_simps d r(1) by simp
  qed (use r(2,3) e in simp_all)
qed

section \<open>The targets of a new payment\<close>

lemma sort_key_const: "\<forall>x \<in> set xs. f x = c \<Longrightarrow> sort_key f xs = xs"
proof (induction xs)
  case (Cons x xs)
  then show ?case by (cases xs) simp_all
qed simp

lemma sort_key_map_comp: "sort_key f (map h xs) = map h (sort_key (\<lambda>x. f (h x)) xs)"
proof -
  have "insort_key f (h x) (map h ys) = map h (insort_key (\<lambda>x. f (h x)) x ys)" for x ys
    by (induction ys) auto
  then show ?thesis by (induction xs) simp_all
qed

lemma forEach_map: "forEach f (map h xs) s = forEach (\<lambda>x. f (h x)) xs s"
  by (induction xs arbitrary: s) (simp_all add: andThen_def split: sum.splits)

lemma forEach_same: "\<forall>x \<in> set xs. f x = g x \<Longrightarrow> forEach f xs s = forEach g xs s"
  by (induction xs arbitrary: s) (simp_all add: andThen_def split: sum.splits)

lemma invoice_targets:
  assumes "\<forall>a \<in> set as. al_type a = PurchaseInvoiceRef"
  shows "forEach (applyToTarget company user) (sortedTargets (buildAllocationTotals as)) db
    = forEach (applyTotal company user) (invoiceTotals as) db"
proof -
  let ?ts = "buildAllocationTotals as" and ?h = "\<lambda>((t :: reference_type, i :: id), total :: real). (i, total)"
  have pi: "fst (fst t) = PurchaseInvoiceRef" if "t \<in> set ?ts" for t
    using imageI [OF that, of fst] assms unfolding totals_keys(2) by force
  have "sortedTargets ?ts = sort_key (\<lambda>t. snd (fst t)) ?ts"
    unfolding sortedTargets_def by (rule sort_key_const [where c = "type_rank PurchaseInvoiceRef"]) (use pi in auto)
  moreover have "invoiceTotals as = map ?h (sort_key (\<lambda>t. snd (fst t)) ?ts)"
    unfolding invoiceTotals_def sort_key_map_comp by (simp add: split_beta')
  moreover have "forEach (applyToTarget company user) (sort_key (\<lambda>t. snd (fst t)) ?ts) db
      = forEach (\<lambda>t. applyTotal company user (?h t)) (sort_key (\<lambda>t. snd (fst t)) ?ts) db"
  proof (rule forEach_same, rule ballI)
    fix t assume t: "t \<in> set (sort_key (\<lambda>t. snd (fst t)) ?ts)"
    obtain i x where "t = ((PurchaseInvoiceRef, i), x)" using pi [of t] t by (cases t) (auto simp: prod_eq_iff)
    then show "applyToTarget company user t = (\<lambda>d. applyTotal company user (?h t) d)"
      by (simp add: applyToTarget_def applyTotal_def fun_eq_iff)
  qed
  ultimately show ?thesis by (simp add: forEach_map)
qed

text \<open>A receipt or a refund leaves the payables alone.\<close>

lemma other_targets:
  fixes db :: "'a payables_db_scheme"
  assumes f: "forEach (applyToTarget company user) (sortedTargets (buildAllocationTotals as)) db = Inr d"
    and t: "\<forall>a \<in> set as. al_type a = SaleRef \<or> al_type a = SaleReturnRef"
  shows "purchaseOrders d = purchaseOrders db \<and> orderItems d = orderItems db \<and> receiptItems d = receiptItems db
    \<and> purchaseInvoices d = purchaseInvoices db \<and> purchaseReturns d = purchaseReturns db \<and> rowIds d = rowIds db
    \<and> payables_db.more d = payables_db.more db" (is "?P d")
proof (rule forEach_invariant [OF f, where P = ?P])
  fix x and s u :: "'a payables_db_scheme"
  assume x: "x \<in> set (sortedTargets (buildAllocationTotals as))" and s: "?P s" and a: "applyToTarget company user x s = Inr u"
  have "fst x \<in> fst ` set (buildAllocationTotals as)" using x by (simp add: sortedTargets_def)
  then have "fst (fst x) = SaleRef \<or> fst (fst x) = SaleReturnRef" using t unfolding totals_keys(2) by force
  then obtain i r where "x = ((SaleRef, i), r) \<or> x = ((SaleReturnRef, i), r)" by (metis prod.collapse)
  then have "(\<exists>v. u = saveSale v s) \<or> (\<exists>w. u = saveReturn w s)" using a
    by (elim disjE) (simp add: applyToTarget_def applySalePayment_def applyRefund_def Let_def, blast)+
  then obtain v w where "u = saveSale v s \<or> u = saveReturn w s" by blast
  then show "?P u" using s by (elim disjE) (simp_all add: saveSale_def saveReturn_def)
qed simp

text \<open>What the allocations of a payment must be like for the arithmetic to be exact.\<close>

definition sound_allocations :: "int \<Rightarrow> payment_direction \<Rightarrow> int \<Rightarrow> 'b allocation_dto_scheme list \<Rightarrow> bool" where
  "sound_allocations B dir amount as \<longleftrightarrow>
     (\<forall>a \<in> set as. al_type a = VALID_DIRECTION_REFERENCE_PAIRS dir \<and> 0 < al_amount a)
     \<and> 2 * sum_list (map al_amount as) \<le> B \<and> fits B (2 * length as + 20) \<and> 0 < B
     \<and> sum_list (map al_amount as) \<le> amount \<and> 2 * amount \<le> B"

lemma same_sound:
  assumes "map entry_of rows = map entry_of as"
  shows "sound_allocations B dir amount rows = sound_allocations B dir amount as"
proof -
  have "length rows = length as" using arg_cong [OF assms, of length] by simp
  then show ?thesis
    unfolding sound_allocations_def same_entries(2) [OF assms]
    using entries_all [OF assms, of "\<lambda>e. fst e = VALID_DIRECTION_REFERENCE_PAIRS dir \<and> 0 < snd (snd e)"]
    by (simp add: entry_of_def)
qed

lemma sound_invoice_allocations: "sound_allocations B Payment amount as \<Longrightarrow> invoice_allocations B as"
  by (auto simp: sound_allocations_def invoice_allocations_def)

definition posted_in :: "id \<Rightarrow> id \<Rightarrow> invoice_status \<Rightarrow> bool" where
  "posted_in company c s \<longleftrightarrow> c = company \<and> s = InvPosted"

lemma targets_applied:
  fixes db :: "'a payables_db_scheme"
  assumes f: "forEach (applyToTarget company user) (sortedTargets (buildAllocationTotals as)) db = Inr d"
    and ok: "payables_ok B db" and s: "sound_allocations B dir amount as"
  shows "payables_ok B d \<and> (\<exists>T P. paid_shift T P (\<lambda>i. allocated (PurchaseInvoiceRef, i) as) db d
      \<and> (\<forall>ord \<in> P. \<exists>i \<in> T. hits (posted_in company) i ord db) \<and> (\<forall>i \<in> T. \<exists>ord. hits (posted_in company) i ord db)
      \<and> (dir = Payment \<longrightarrow> T = al_ref ` set as) \<and> (dir \<noteq> Payment \<longrightarrow> T = {}))"
proof (cases "dir = Payment")
  case True
  have ia: "invoice_allocations B as" using s True sound_invoice_allocations by blast
  then have "\<forall>a \<in> set as. al_type a = PurchaseInvoiceRef" by (simp add: invoice_allocations_def)
  from invoice_targets [OF this, of company user db] f have "forEach (applyTotal company user) (invoiceTotals as) db = Inr d" by simp
  from pay_run [OF this ok ia] True show ?thesis unfolding posted_in_def [abs_def] by blast
next
  case False
  have t: "\<forall>a \<in> set as. al_type a = SaleRef \<or> al_type a = SaleReturnRef"
    using s False by (cases dir) (auto simp: sound_allocations_def)
  note o = other_targets [OF f t]
  have "allocated (PurchaseInvoiceRef, i) as = 0" for i using t by (intro allocated_absent) auto
  then have "paid_shift {} {} (\<lambda>i. allocated (PurchaseInvoiceRef, i) as) db d"
    using o by (simp add: paid_shift_def same_invoice_def list_all2_same)
  moreover have "payables_ok B d" by (rule payables_ok_tables [OF ok]) (use o in simp_all)
  ultimately show ?thesis using False by blast
qed

section \<open>The invariant\<close>

definition confirmedAllocations :: "'a payments_db_scheme \<Rightarrow> payment_allocation list" where
  "confirmedAllocations db =
     filter (\<lambda>a. \<exists>p \<in> set (payments db). pa_id p = al_payment a \<and> pa_status p = Confirmed) (paymentAllocations db)"

text \<open>What the confirmed payments allocate to an invoice.\<close>

definition paidBy :: "id \<Rightarrow> 'a payments_db_scheme \<Rightarrow> int" where
  "paidBy i db = allocated (PurchaseInvoiceRef, i) (confirmedAllocations db)"

definition clashing :: "payment \<Rightarrow> payment \<Rightarrow> bool" where
  "clashing x y \<longleftrightarrow> pa_company x = pa_company y \<and> (pa_number x = pa_number y
     \<or> pa_idempotencyKey x \<noteq> None \<and> pa_idempotencyKey x = pa_idempotencyKey y)"

definition payments_ok :: "int \<Rightarrow> 'a payments_db_scheme \<Rightarrow> bool" where
  "payments_ok B db \<longleftrightarrow> payables_ok B db
     \<and> distinct (map pa_id (payments db)) \<and> (\<forall>p \<in> set (payments db). pa_id p < rowIds db)
     \<and> (\<forall>x \<in> set (payments db). \<forall>y \<in> set (payments db). clashing x y \<longrightarrow> x = y)
     \<and> (\<forall>a \<in> set (paymentAllocations db). \<exists>p \<in> set (payments db). pa_id p = al_payment a)
     \<and> (\<forall>a \<in> set (paymentAllocations db). al_type a = PurchaseInvoiceRef \<longrightarrow> al_ref a < rowIds db)
     \<and> (\<forall>p \<in> set (payments db). sound_allocations B (pa_direction p) (pa_amount p) (allocationsOf (pa_id p) db))
     \<and> (\<forall>v \<in> set (purchaseInvoices db). iv_paid v = paidBy (iv_id v) db)
     \<and> ledger_ok (ledger db)
     \<and> (\<forall>k \<in> set (journals (ledger db)). je_sourceType k = SPayment \<longrightarrow> (\<exists>s < rowIds db. je_sourceId k = Some s))"

lemma more_payments:
  assumes "payables_db.more d = payables_db.more (e :: 'a payments_db_scheme)"
  shows "payments d = payments e" "paymentAllocations d = paymentAllocations e"
    "outboxEvents d = outboxEvents e" "ledger d = ledger e"
  using assms by (cases d; cases e; simp)+

section \<open>Creation\<close>

text \<open>Bounds on a request: no amount is negative and all are small against \<open>B\<close>.\<close>

definition request_fits :: "int \<Rightarrow> payment_dto \<Rightarrow> bool" where
  "request_fits B dto \<longleftrightarrow> nonneg_amounts (yc_allocations dto) \<and> 2 * sum_list (map al_amount (yc_allocations dto)) \<le> B
     \<and> fits B (2 * length (yc_allocations dto) + 20) \<and> 0 \<le> yc_amount dto \<and> 2 * yc_amount dto \<le> B \<and> 0 < B"

lemma fits_small: "fits B (k + 20) \<Longrightarrow> B < 2 ^ 48"
  using fits_mono [of B "k + 20" 20] by (simp add: fits_def)

lemma checked_positive: "forEach (checkAllocation dir) as t = Inr u \<Longrightarrow> a \<in> set as \<Longrightarrow> 0 < js_num (al_amount a)"
  by (induction as arbitrary: t) (auto simp: checkAllocation_Inr)

lemma valid_allocations:
  assumes v: "assertAllocationsValid dir (js_num amount) as = Inr ()"
    and b: "nonneg_amounts as" "2 * sum_list (map al_amount as) \<le> B" "fits B (2 * length as + 20)" "0 \<le> amount"
      "2 * amount \<le> B" "0 < B"
  shows "sound_allocations B dir amount as"
proof -
  note s = assertAllocationsValid_sound [OF v b]
  have "0 < al_amount a" if a: "a \<in> set as" for a
  proof -
    from v obtain u where "forEach (checkAllocation dir) as 0 = Inr u" by (auto simp: assertAllocationsValid_def)
    from checked_positive [OF this a] have "al_amount a \<noteq> 0" by (auto simp: js_num_def)
    with a b(1) show ?thesis by (force simp: nonneg_amounts_def)
  qed
  with s b show ?thesis by (simp add: sound_allocations_def)
qed

lemma checked_request:
  assumes "createPaymentChecks org company dto = Inr ()" "request_fits B dto"
  shows "sound_allocations B (yc_direction dto) (yc_amount dto) (yc_allocations dto)"
  using assms by (intro valid_allocations) (auto simp: createPaymentChecks_def request_fits_def)

lemma andThen_InrE: "andThen m f = Inr r \<Longrightarrow> (\<And>x. m = Inr x \<Longrightarrow> f x = Inr r \<Longrightarrow> thesis) \<Longrightarrow> thesis"
  by (cases m) simp_all

lemma postToLedger_cases:
  assumes "postToLedger org p user now d = Inr d'"
  shows "\<exists>l. (if pa_direction p = Refund then l = ledger d
       else \<exists>pm cust supp j. postPayment p pm cust supp user now (ledger d) = Inr (j, l)) \<and> d' = d\<lparr>ledger := l\<rparr>"
proof (cases "pa_direction p = Refund")
  case True
  then have "d' = d" using assms by (simp add: postToLedger_def)
  with True show ?thesis by (intro exI [of _ "ledger d"]) simp
next
  case False
  with assms obtain pm cust supp j l where "postPayment p pm cust supp user now (ledger d) = Inr (j, l)" "d' = d\<lparr>ledger := l\<rparr>"
    by (auto simp: postToLedger_def)
  with False show ?thesis by (intro exI [of _ l]) auto
qed

lemma createPaymentTx_cases:
  fixes db :: "'a payments_db_scheme"
  assumes "createPaymentTx org company user dto key rq now db = Inr (p, db')"
  shows "\<exists>t db2 db4 l.
    forEach (applyToTarget company user) (sortedTargets (buildAllocationTotals (yc_allocations dto)))
      (db\<lparr>paymentCounters := t\<rparr>) = Inr db2
    \<and> pa_id p = rowIds db2 \<and> pa_company p = company \<and> pa_direction p = yc_direction dto
    \<and> pa_amount p = to_fixed2 (js_num (yc_amount dto)) \<and> pa_status p = Confirmed \<and> pa_idempotencyKey p = key
    \<and> (\<forall>x \<in> set (payments db2). \<not> clashing x p)
    \<and> db4 = fold (insertAllocation (pa_id p)) (yc_allocations dto)
        (db2\<lparr>payments := payments db2 @ [p], rowIds := rowIds db2 + 1\<rparr>)
    \<and> (if pa_direction p = Refund then l = ledger db4
       else \<exists>pm cust supp j. postPayment p pm cust supp user now (ledger db4) = Inr (j, l))
    \<and> db' = emitEvent (confirmedEvent p (map al_id (allocationsOf (pa_id p) db4)) rq) now (db4\<lparr>ledger := l\<rparr>)"
proof -
  let ?d = "case yc_date dto of None \<Rightarrow> now | Some d \<Rightarrow> d"
  obtain number db1 where g: "generatePaymentNumber company (getUTCFullYear ?d) db = (number, db1)" by force
  then obtain t where t: "db1 = db\<lparr>paymentCounters := t\<rparr>" by (auto simp: generatePaymentNumber_def next_sequence_eq)
  let ?p = "\<lambda>db2. \<lparr>pa_id = rowIds db2, pa_number = number, pa_company = company, pa_branch = yc_branch dto,
                pa_direction = yc_direction dto, pa_customer = yc_customer dto, pa_supplier = yc_supplier dto,
                pa_method = yc_method dto, pa_amount = to_fixed2 (js_num (yc_amount dto)),
                pa_currency = yc_currency dto, pa_idempotencyKey = key, pa_status = Confirmed,
                pa_date = ?d, pa_createdBy = user, pa_updatedBy = user, pa_reversedAt = None,
                pa_reversedBy = None, pa_reallocatedAt = None, pa_reallocatedBy = None\<rparr>"
  from assms have 1: "andThen (forEach (applyToTarget company user) (sortedTargets (buildAllocationTotals (yc_allocations dto))) db1)
      (\<lambda>db2. andThen (insertPayment (?p db2) db2) (\<lambda>db3.
         andThen (postToLedger org (?p db2) user now (fold (insertAllocation (pa_id (?p db2))) (yc_allocations dto) db3))
         (\<lambda>db5. Inr (?p db2, emitEvent (confirmedEvent (?p db2) (map al_id (allocationsOf (pa_id (?p db2))
            (fold (insertAllocation (pa_id (?p db2))) (yc_allocations dto) db3))) rq) now db5)))) = Inr (p, db')"
    unfolding createPaymentTx_def Let_def g prod.case .
  from 1 obtain db2 where f: "forEach (applyToTarget company user) (sortedTargets (buildAllocationTotals (yc_allocations dto))) db1 = Inr db2"
    and 2: "andThen (insertPayment (?p db2) db2) (\<lambda>db3.
         andThen (postToLedger org (?p db2) user now (fold (insertAllocation (pa_id (?p db2))) (yc_allocations dto) db3))
         (\<lambda>db5. Inr (?p db2, emitEvent (confirmedEvent (?p db2) (map al_id (allocationsOf (pa_id (?p db2))
            (fold (insertAllocation (pa_id (?p db2))) (yc_allocations dto) db3))) rq) now db5))) = Inr (p, db')"
    by (rule andThen_InrE)
  from 2 obtain db3 where i: "insertPayment (?p db2) db2 = Inr db3"
    and 3: "andThen (postToLedger org (?p db2) user now (fold (insertAllocation (pa_id (?p db2))) (yc_allocations dto) db3))
         (\<lambda>db5. Inr (?p db2, emitEvent (confirmedEvent (?p db2) (map al_id (allocationsOf (pa_id (?p db2))
            (fold (insertAllocation (pa_id (?p db2))) (yc_allocations dto) db3))) rq) now db5)) = Inr (p, db')"
    by (rule andThen_InrE)
  from 3 obtain db5 where l: "postToLedger org (?p db2) user now (fold (insertAllocation (pa_id (?p db2))) (yc_allocations dto) db3) = Inr db5"
    and 4: "Inr (?p db2, emitEvent (confirmedEvent (?p db2) (map al_id (allocationsOf (pa_id (?p db2))
            (fold (insertAllocation (pa_id (?p db2))) (yc_allocations dto) db3))) rq) now db5) = (Inr (p, db') :: (payment \<times> 'a payments_db_scheme) result)"
    by (rule andThen_InrE)
  from 4 have p: "?p db2 = p" by simp
  note i = i [unfolded p] and l = l [unfolded p] and 4 = 4 [unfolded p]
  have db': "db' = emitEvent (confirmedEvent p (map al_id (allocationsOf (pa_id p)
        (fold (insertAllocation (pa_id p)) (yc_allocations dto) db3))) rq) now db5" using 4 by simp
  have pf: "pa_id p = rowIds db2" "pa_company p = company" "pa_direction p = yc_direction dto"
    "pa_amount p = to_fixed2 (js_num (yc_amount dto))" "pa_status p = Confirmed" "pa_idempotencyKey p = key"
    by (simp_all add: p [symmetric])
  let ?db4 = "fold (insertAllocation (pa_id p)) (yc_allocations dto) db3"
  have db3: "db3 = db2\<lparr>payments := payments db2 @ [p], rowIds := rowIds db2 + 1\<rparr>"
    and cl: "\<forall>x \<in> set (payments db2). \<not> clashing x p"
    using i by (auto simp: insertPayment_def clashing_def split: if_splits)
  have "\<exists>l. (if pa_direction p = Refund then l = ledger ?db4
       else \<exists>pm cust supp j. postPayment p pm cust supp user now (ledger ?db4) = Inr (j, l)) \<and> db5 = ?db4\<lparr>ledger := l\<rparr>"
    by (rule postToLedger_cases [OF l])
  then obtain l where "if pa_direction p = Refund then l = ledger ?db4
       else \<exists>pm cust supp j. postPayment p pm cust supp user now (ledger ?db4) = Inr (j, l)" "db5 = ?db4\<lparr>ledger := l\<rparr>"
    by blast
  then show ?thesis using f cl pf unfolding t db3 db' by blast
qed

lemma hits_counters [simp]: "hits Q i ord (db\<lparr>paymentCounters := t\<rparr>) = hits Q i ord db"
  by (simp add: hits_def)

text \<open>A new payment: the state \<open>db2\<close> after the allocations were applied, and the rows added to it.\<close>

lemma create_effect:
  fixes db :: "'a payments_db_scheme"
  assumes c: "createPaymentTx org company user dto key rq now db = Inr (p, db')" and ok: "payments_ok B db"
    and s: "sound_allocations B (yc_direction dto) (yc_amount dto) (yc_allocations dto)"
    and a: "0 \<le> yc_amount dto" "2 * yc_amount dto \<le> B"
  shows "\<exists>t db2 T P rows l. payables_ok B db2
    \<and> paid_shift T P (\<lambda>i. allocated (PurchaseInvoiceRef, i) (yc_allocations dto)) (db\<lparr>paymentCounters := t\<rparr>) db2
    \<and> (\<forall>ord \<in> P. \<exists>i \<in> T. hits (posted_in company) i ord db) \<and> (\<forall>i \<in> T. \<exists>ord. hits (posted_in company) i ord db)
    \<and> (yc_direction dto = Payment \<longrightarrow> T = al_ref ` set (yc_allocations dto)) \<and> (yc_direction dto \<noteq> Payment \<longrightarrow> T = {})
    \<and> pa_id p = rowIds db \<and> pa_company p = company \<and> pa_direction p = yc_direction dto
    \<and> pa_amount p = yc_amount dto \<and> pa_status p = Confirmed \<and> pa_idempotencyKey p = key
    \<and> (\<forall>x \<in> set (payments db). \<not> clashing x p)
    \<and> map entry_of rows = map entry_of (yc_allocations dto) \<and> (\<forall>r \<in> set rows. al_payment r = pa_id p)
    \<and> (if pa_direction p = Refund then l = ledger db
       else \<exists>pm cust supp j. postPayment p pm cust supp user now (ledger db) = Inr (j, l))
    \<and> (\<exists>i. rowIds db < i \<and> db' = db2\<lparr>payments := payments db @ [p], paymentAllocations := paymentAllocations db @ rows,
        outboxEvents := outboxEvents db @ [createEvent (confirmedEvent p (map al_id rows) rq) i (i + 1) (getTime now)],
        ledger := l, rowIds := i + 2\<rparr>)"
proof -
  let ?as = "yc_allocations dto"
  from createPaymentTx_cases [OF c] obtain t db2 db4 l where
      f: "forEach (applyToTarget company user) (sortedTargets (buildAllocationTotals ?as)) (db\<lparr>paymentCounters := t\<rparr>) = Inr db2"
    and p: "pa_id p = rowIds db2" "pa_company p = company" "pa_direction p = yc_direction dto"
      "pa_amount p = to_fixed2 (js_num (yc_amount dto))" "pa_status p = Confirmed" "pa_idempotencyKey p = key"
    and cl: "\<forall>x \<in> set (payments db2). \<not> clashing x p"
    and db4: "db4 = fold (insertAllocation (pa_id p)) ?as (db2\<lparr>payments := payments db2 @ [p], rowIds := rowIds db2 + 1\<rparr>)"
    and l: "if pa_direction p = Refund then l = ledger db4
       else \<exists>pm cust supp j. postPayment p pm cust supp user now (ledger db4) = Inr (j, l)"
    and db': "db' = emitEvent (confirmedEvent p (map al_id (allocationsOf (pa_id p) db4)) rq) now (db4\<lparr>ledger := l\<rparr>)"
    by blast
  have pok: "payables_ok B db" using ok by (simp add: payments_ok_def)
  have "payables_ok B (db\<lparr>paymentCounters := t\<rparr>)" by (rule payables_ok_tables [OF pok]) simp_all
  from targets_applied [OF f this s] obtain T P where ok2: "payables_ok B db2"
    and sh: "paid_shift T P (\<lambda>i. allocated (PurchaseInvoiceRef, i) ?as) (db\<lparr>paymentCounters := t\<rparr>) db2"
    and h: "\<forall>ord \<in> P. \<exists>i \<in> T. hits (posted_in company) i ord db" "\<forall>i \<in> T. \<exists>ord. hits (posted_in company) i ord db"
      "yc_direction dto = Payment \<longrightarrow> T = al_ref ` set ?as" "yc_direction dto \<noteq> Payment \<longrightarrow> T = {}"
    unfolding hits_counters by blast
  have m: "payables_db.more db2 = payables_db.more (db\<lparr>paymentCounters := t\<rparr>)" "rowIds db2 = rowIds db"
    using sh by (simp_all add: paid_shift_def)
  note tab = more_payments [OF m(1), simplified]
  have small: "B < 2 ^ 48" using s fits_small by (auto simp: sound_allocations_def)
  have "al_amount x \<le> sum_list (map al_amount ?as) \<and> 0 < al_amount x" if "x \<in> set ?as" for x
    using that s member_le_sum_map [OF that, of al_amount] by (force simp: sound_allocations_def)
  then have am: "\<forall>x \<in> set ?as. \<bar>al_amount x\<bar> < 2 ^ 51" using s small by (force simp: sound_allocations_def)
  from insertAllocations [OF am, of "pa_id p" "db2\<lparr>payments := payments db2 @ [p], rowIds := rowIds db2 + 1\<rparr>"]
  obtain rows where rows: "db4 = db2\<lparr>payments := payments db @ [p], paymentAllocations := paymentAllocations db @ rows,
        rowIds := rowIds db + 1 + length ?as\<rparr>"
      "map entry_of rows = map entry_of ?as" "\<forall>r \<in> set rows. al_payment r = pa_id p"
    unfolding db4 by (auto simp: tab m(2))
  have "al_payment x \<noteq> pa_id p" if x: "x \<in> set (paymentAllocations db)" for x
  proof -
    obtain q where "q \<in> set (payments db)" "pa_id q = al_payment x" using ok x by (auto simp: payments_ok_def)
    then show ?thesis using ok p(1) m(2) by (auto simp: payments_ok_def)
  qed
  then have al: "allocationsOf (pa_id p) db4 = rows" using rows(3) by (simp add: rows(1) allocationsOf_def filter_empty_conv)
  have "\<bar>yc_amount dto\<bar> < 2 ^ 51" using a small by simp
  then have amount: "pa_amount p = yc_amount dto" using p(4) to_fixed2_js_num by simp
  have led: "ledger db4 = ledger db" using rows(1) tab by simp
  let ?i = "rowIds db + 1 + length ?as"
  have d: "db' = db2\<lparr>payments := payments db @ [p], paymentAllocations := paymentAllocations db @ rows,
        outboxEvents := outboxEvents db @ [createEvent (confirmedEvent p (map al_id rows) rq) ?i (?i + 1) (getTime now)],
        ledger := l, rowIds := ?i + 2\<rparr>"
    unfolding db' al emitEvent_def by (simp add: rows(1) tab)
  have "rowIds db < ?i" by simp
  note ex = exI [of "\<lambda>i. rowIds db < i \<and> db' = db2\<lparr>payments := payments db @ [p], paymentAllocations := paymentAllocations db @ rows,
        outboxEvents := outboxEvents db @ [createEvent (confirmedEvent p (map al_id rows) rq) i (i + 1) (getTime now)],
        ledger := l, rowIds := i + 2\<rparr>", OF conjI [OF this d]]
  show ?thesis using ok2 sh h p(1-3,5,6) amount cl rows(2,3) l ex unfolding led m(2) tab by blast
qed

lemma create_keeps:
  fixes db :: "'a payments_db_scheme"
  assumes c: "createPaymentTx org company user dto key rq now db = Inr (p, db')" and ok: "payments_ok B db"
    and s: "sound_allocations B (yc_direction dto) (yc_amount dto) (yc_allocations dto)"
    and a: "0 \<le> yc_amount dto" "2 * yc_amount dto \<le> B"
  shows "payments_ok B db'"
proof -
  let ?as = "yc_allocations dto"
  from create_effect [OF assms] obtain t db2 T P rows l i where ok2: "payables_ok B db2"
    and sh: "paid_shift T P (\<lambda>i. allocated (PurchaseInvoiceRef, i) ?as) (db\<lparr>paymentCounters := t\<rparr>) db2"
    and h: "\<forall>i \<in> T. \<exists>ord. hits (posted_in company) i ord db" "yc_direction dto = Payment \<longrightarrow> T = al_ref ` set ?as"
    and p: "pa_id p = rowIds db" "pa_direction p = yc_direction dto" "pa_amount p = yc_amount dto" "pa_status p = Confirmed"
    and cl: "\<forall>x \<in> set (payments db). \<not> clashing x p"
    and rows: "map entry_of rows = map entry_of ?as" "\<forall>r \<in> set rows. al_payment r = pa_id p"
    and l: "if pa_direction p = Refund then l = ledger db
       else \<exists>pm cust supp j. postPayment p pm cust supp user now (ledger db) = Inr (j, l)"
    and i: "rowIds db < i"
    and db': "db' = db2\<lparr>payments := payments db @ [p], paymentAllocations := paymentAllocations db @ rows,
        outboxEvents := outboxEvents db @ [createEvent (confirmedEvent p (map al_id rows) rq) i (i + 1) (getTime now)],
        ledger := l, rowIds := i + 2\<rparr>"
    by blast
  note e = same_entries [OF rows(1)]
  have tabs: "payments db' = payments db @ [p]" "paymentAllocations db' = paymentAllocations db @ rows" "ledger db' = l"
      "rowIds db' = i + 2" "purchaseInvoices db' = purchaseInvoices db2" by (simp_all add: db')
  have old: "\<exists>q \<in> set (payments db). pa_id q = al_payment x \<and> al_payment x \<noteq> pa_id p" if "x \<in> set (paymentAllocations db)" for x
    using ok that p(1) unfolding payments_ok_def by (metis less_irrefl_nat)
  have conf: "confirmedAllocations db' = confirmedAllocations db @ rows"
  proof -
    have "filter (\<lambda>x. \<exists>q \<in> set (payments db @ [p]). pa_id q = al_payment x \<and> pa_status q = Confirmed) (paymentAllocations db)
        = confirmedAllocations db"
      unfolding confirmedAllocations_def
    proof (rule filter_cong [OF refl])
      fix x assume "x \<in> set (paymentAllocations db)"
      from old [OF this] show "(\<exists>q \<in> set (payments db @ [p]). pa_id q = al_payment x \<and> pa_status q = Confirmed)
          = (\<exists>q \<in> set (payments db). pa_id q = al_payment x \<and> pa_status q = Confirmed)" by auto
    qed
    moreover have "filter (\<lambda>x. \<exists>q \<in> set (payments db @ [p]). pa_id q = al_payment x \<and> pa_status q = Confirmed) rows = rows"
      using rows(2) p(4) by (intro filter_True) auto
    ultimately show ?thesis unfolding confirmedAllocations_def tabs by simp
  qed
  have paid: "paidBy k db' = paidBy k db + allocated (PurchaseInvoiceRef, k) ?as" for k
    by (simp add: paidBy_def conf e(1))
  have pok: "payables_ok B db'" by (rule payables_ok_tables [OF ok2]) (use i sh in \<open>simp_all add: db' paid_shift_def\<close>)
  moreover have "iv_paid w = paidBy (iv_id w) db'" if w: "w \<in> set (purchaseInvoices db')" for w
  proof -
    from paid_shift_mem(2) [OF sh] w obtain v where "v \<in> set (purchaseInvoices db)" "same_invoice v w"
        "iv_paid w = iv_paid v + allocated (PurchaseInvoiceRef, iv_id v) ?as"
      unfolding tabs by auto
    then show ?thesis using ok by (simp add: payments_ok_def same_invoice_def paid)
  qed
  moreover have "distinct (map pa_id (payments db'))" "\<forall>q \<in> set (payments db'). pa_id q < rowIds db'"
    using ok i p(1) by (auto simp: payments_ok_def tabs)
  moreover have "\<forall>x \<in> set (payments db'). \<forall>y \<in> set (payments db'). clashing x y \<longrightarrow> x = y"
  proof -
    have "clashing x y = clashing y x" for x y unfolding clashing_def by metis
    then show ?thesis using ok cl by (auto simp: payments_ok_def tabs)
  qed
  moreover have "\<forall>x \<in> set (paymentAllocations db'). \<exists>q \<in> set (payments db'). pa_id q = al_payment x"
    using old rows(2) by (auto simp: tabs)
  moreover have "al_ref x < rowIds db'" if x: "x \<in> set (paymentAllocations db')" "al_type x = PurchaseInvoiceRef" for x
  proof (cases "x \<in> set (paymentAllocations db)")
    case True
    then have "al_ref x < rowIds db" using ok x(2) by (simp add: payments_ok_def)
    then show ?thesis using i by (simp add: tabs)
  next
    case False
    then have xr: "x \<in> set rows" using x(1) by (simp add: tabs)
    then have "entry_of x \<in> entry_of ` set ?as" using arg_cong [OF rows(1), of set] by auto
    then have "yc_direction dto = Payment" using x(2) s
      by (cases "yc_direction dto") (auto simp: entry_of_def sound_allocations_def)
    then have "al_ref x \<in> T" using h(2) e(4) xr by auto
    then obtain v where "v \<in> set (purchaseInvoices db)" "iv_id v = al_ref x" using h(1) by (auto simp: hits_def)
    then have "al_ref x < rowIds db" using ok by (auto simp: payments_ok_def payables_ok_def)
    then show ?thesis using i by (simp add: tabs)
  qed
  moreover have "sound_allocations B (pa_direction q) (pa_amount q) (allocationsOf (pa_id q) db')"
    if q: "q \<in> set (payments db')" for q
  proof (cases "q = p")
    case True
    have "allocationsOf (pa_id p) db' = rows" using rows(2) old by (auto simp: allocationsOf_def tabs filter_empty_conv)
    then show ?thesis using True s p(2,3) same_sound [OF rows(1)] by simp
  next
    case False
    then have q': "q \<in> set (payments db)" using q by (simp add: tabs)
    then have "pa_id q \<noteq> pa_id p" using ok p(1) by (auto simp: payments_ok_def)
    then have "allocationsOf (pa_id q) db' = allocationsOf (pa_id q) db"
      using rows(2) by (auto simp: allocationsOf_def tabs filter_empty_conv)
    with ok q' show ?thesis by (simp add: payments_ok_def)
  qed
  moreover have "ledger_ok l \<and> (\<forall>k \<in> set (journals l). je_sourceType k = SPayment \<longrightarrow> (\<exists>s < rowIds db'. je_sourceId k = Some s))"
  proof (cases "pa_direction p = Refund")
    case True
    then show ?thesis using l ok i by (fastforce simp: payments_ok_def tabs)
  next
    case False
    with l obtain pm cust supp j where post: "postPayment p pm cust supp user now (ledger db) = Inr (j, l)" by auto
    have lo: "ledger_ok (ledger db)" and un: "unposted (pa_id p) (ledger db)"
      using ok p(1) by (auto simp: payments_ok_def unposted_def)
    have "\<bar>pa_amount p\<bar> \<le> 2 ^ 50" using p(3) a s fits_small by (fastforce simp: sound_allocations_def)
    from postPayment_adds [OF lo this un post] ok i p(1) show ?thesis by (fastforce simp: payments_ok_def tabs)
  qed
  ultimately show ?thesis unfolding payments_ok_def tabs(3) by blast
qed

end
