(* ===== verification/Payment_Changes.thy ===== *)
theory Payment_Changes
  imports Payment_Steps
begin

text \<open>
  The invariant of the payments under the other operations: a reversal, a reallocation, and what the purchase
  side and the other services do between payments. Used by \<open>Payment_Theorems\<close>.
\<close>

section \<open>Splitting the confirmed allocations\<close>

lemma allocated_filter_split:
  "allocated k (filter Q xs) = allocated k (filter (\<lambda>x. Q x \<and> R x) xs) + allocated k (filter (\<lambda>x. Q x \<and> \<not> R x) xs)"
  by (induction xs) auto

text \<open>The allocations of one confirmed payment, and those of the others.\<close>

lemma confirmed_split:
  assumes "distinct (map pa_id (payments db))" "p \<in> set (payments db)" "pa_status p = Confirmed"
  shows "paidBy k db = allocated (PurchaseInvoiceRef, k) (allocationsOf (pa_id p) db)
    + allocated (PurchaseInvoiceRef, k) (filter (\<lambda>a. al_payment a \<noteq> pa_id p) (confirmedAllocations db))"
proof -
  let ?Q = "\<lambda>a. \<exists>q \<in> set (payments db). pa_id q = al_payment a \<and> pa_status q = Confirmed"
  have "filter (\<lambda>a. ?Q a \<and> al_payment a = pa_id p) (paymentAllocations db) = allocationsOf (pa_id p) db"
    unfolding allocationsOf_def using assms(2,3) by (intro filter_cong [OF refl]) auto
  moreover have "filter (\<lambda>a. ?Q a \<and> \<not> al_payment a = pa_id p) (paymentAllocations db)
      = filter (\<lambda>a. al_payment a \<noteq> pa_id p) (confirmedAllocations db)"
    unfolding confirmedAllocations_def filter_filter ..
  ultimately show ?thesis
    unfolding paidBy_def confirmedAllocations_def
    by (subst allocated_filter_split [where R = "\<lambda>a. al_payment a = pa_id p"]) simp
qed

lemma findPayment_mem:
  "findPayment i company db = Inr p \<Longrightarrow> p \<in> set (payments db) \<and> pa_id p = i \<and> pa_company p = company"
  by (auto simp: findPayment_def find_Some_iff orThrow_def split: option.splits)

lemma payment_unique:
  "distinct (map pa_id ps) \<Longrightarrow> x \<in> set ps \<Longrightarrow> y \<in> set ps \<Longrightarrow> pa_id x = pa_id y \<Longrightarrow> x = y"
  by (simp add: distinct_map inj_on_def)

text \<open>A payment row replaced by one of the same identity.\<close>

definition same_payment :: "payment \<Rightarrow> payment \<Rightarrow> bool" where
  "same_payment p q \<longleftrightarrow> pa_id q = pa_id p \<and> pa_company q = pa_company p \<and> pa_number q = pa_number p
     \<and> pa_idempotencyKey q = pa_idempotencyKey p \<and> pa_direction q = pa_direction p \<and> pa_amount q = pa_amount p"

lemma saved_payments:
  assumes d: "distinct (map pa_id ps)" and p: "p \<in> set ps" and q: "same_payment p q"
  defines "qs \<equiv> map (\<lambda>x. if pa_id x = pa_id q then q else x) ps"
  shows "map pa_id qs = map pa_id ps"
    "\<And>y. y \<in> set qs \<Longrightarrow> \<exists>x \<in> set ps. same_payment x y"
    "\<And>x. x \<in> set ps \<Longrightarrow> \<exists>y \<in> set qs. same_payment x y"
    "\<And>x. x \<in> set qs \<longleftrightarrow> x = q \<or> x \<in> set ps \<and> pa_id x \<noteq> pa_id q"
    "\<forall>x \<in> set ps. \<forall>y \<in> set ps. clashing x y \<longrightarrow> x = y \<Longrightarrow> \<forall>x \<in> set qs. \<forall>y \<in> set qs. clashing x y \<longrightarrow> x = y"
proof -
  have q': "pa_id q = pa_id p" using q by (simp add: same_payment_def)
  show "map pa_id qs = map pa_id ps" unfolding qs_def by (auto simp: q')
  have x: "x = p" if "x \<in> set ps" "pa_id x = pa_id q" for x using payment_unique [OF d that(1) p] that(2) q' by simp
  have refl: "same_payment x x" for x by (simp add: same_payment_def)
  show old: "\<exists>x \<in> set ps. same_payment x y" if "y \<in> set qs" for y
    using that p q refl unfolding qs_def by (fastforce split: if_splits)
  show "\<exists>y \<in> set qs. same_payment x y" if "x \<in> set ps" for x
    using that q refl x [OF that] unfolding qs_def by (cases "pa_id x = pa_id q") force+
  show "x \<in> set qs \<longleftrightarrow> x = q \<or> x \<in> set ps \<and> pa_id x \<noteq> pa_id q" for x
    using p q' unfolding qs_def by (auto simp: image_iff)
  assume cl: "\<forall>x \<in> set ps. \<forall>y \<in> set ps. clashing x y \<longrightarrow> x = y"
  show "\<forall>x \<in> set qs. \<forall>y \<in> set qs. clashing x y \<longrightarrow> x = y"
  proof (intro ballI impI)
    fix y z assume y: "y \<in> set qs" and z: "z \<in> set qs" and c: "clashing y z"
    from old [OF y] old [OF z] obtain a b where ab: "a \<in> set ps" "same_payment a y" "b \<in> set ps" "same_payment b z" by blast
    then have "clashing a b" using c by (simp add: clashing_def same_payment_def)
    then have "a = b" using cl ab by blast
    then have "pa_id y = pa_id z" using ab by (simp add: same_payment_def)
    moreover have "distinct (map pa_id qs)" using d \<open>map pa_id qs = map pa_id ps\<close> by simp
    ultimately show "y = z" using payment_unique y z by blast
  qed
qed

section \<open>Reversal\<close>

lemma purchase_only:
  "assertPurchaseInvoiceOnlyAllocations p as = Inr () \<longleftrightarrow>
    pa_direction p = Payment \<and> (\<forall>a \<in> set as. al_type a = PurchaseInvoiceRef)"
  by (auto simp: assertPurchaseInvoiceOnlyAllocations_def)

text \<open>Undoing the allocations of a confirmed payment.\<close>

lemma undo_effect:
  fixes db :: "'a payments_db_scheme"
  assumes f: "forEach (unapplyTotal company user) (invoiceTotals (allocationsOf (pa_id p) db)) db = Inr d"
    and ok: "payments_ok B db" and p: "p \<in> set (payments db)" "pa_direction p = Payment"
  shows "\<exists>P. payables_ok B d \<and> paid_shift (al_ref ` set (allocationsOf (pa_id p) db)) P
      (\<lambda>i. - allocated (PurchaseInvoiceRef, i) (allocationsOf (pa_id p) db)) db d
    \<and> (\<forall>ord \<in> P. \<exists>i \<in> al_ref ` set (allocationsOf (pa_id p) db). hits (\<lambda>c s. c = company \<and> s \<noteq> InvVoided) i ord db)
    \<and> (\<forall>i \<in> al_ref ` set (allocationsOf (pa_id p) db). \<exists>ord. hits (\<lambda>c s. c = company \<and> s \<noteq> InvVoided) i ord db)"
proof -
  have "sound_allocations B Payment (pa_amount p) (allocationsOf (pa_id p) db)"
    using ok p by (auto simp: payments_ok_def)
  then have "invoice_allocations B (allocationsOf (pa_id p) db)" by (rule sound_invoice_allocations)
  from unpay_run [OF f _ this] ok show ?thesis unfolding payments_ok_def by blast
qed

lemma reverse_effect:
  fixes db :: "'a payments_db_scheme"
  assumes r: "reverse i company user now db = Inr (p', db')" and ok: "payments_ok B db"
  shows "\<exists>p d P j l. p \<in> set (payments db) \<and> pa_id p = i \<and> pa_company p = company \<and> pa_status p = Confirmed
    \<and> pa_direction p = Payment \<and> pa_status p' = Cancelled \<and> same_payment p p' \<and> payables_ok B d
    \<and> paid_shift (al_ref ` set (allocationsOf i db)) P
        (\<lambda>k. - allocated (PurchaseInvoiceRef, k) (allocationsOf i db)) db d
    \<and> (\<forall>ord \<in> P. \<exists>k \<in> al_ref ` set (allocationsOf i db). hits (\<lambda>c s. c = company \<and> s \<noteq> InvVoided) k ord db)
    \<and> reversePayment p' user now (ledger db) = Inr (j, l)
    \<and> db' = d\<lparr>payments := map (\<lambda>x. if pa_id x = pa_id p' then p' else x) (payments db), ledger := l\<rparr>"
proof -
  from r obtain p where p: "findPayment i company db = Inr p" and 1: "(if pa_status p \<noteq> Confirmed then Inl (AppException Conflict)
     else let allocations = allocationsOf (pa_id p) db
          in andThen (assertPurchaseInvoiceOnlyAllocations p allocations) (\<lambda>_.
             andThen (forEach (unapplyTotal company user) (invoiceTotals allocations) db) (\<lambda>db1.
             let p' = p\<lparr>pa_status := Cancelled, pa_reversedAt := Some now, pa_reversedBy := Some user,
                   pa_updatedBy := user\<rparr>;
                 db2 = savePayment p' db1
             in andThen (reversePayment p' user now (ledger db2)) (\<lambda>(j, l).
                Inr (p', db2\<lparr>ledger := l\<rparr>))))) = Inr (p', db')"
    unfolding reverse_def by (rule andThen_InrE)
  note m = findPayment_mem [OF p]
  let ?p = "p\<lparr>pa_status := Cancelled, pa_reversedAt := Some now, pa_reversedBy := Some user, pa_updatedBy := user\<rparr>"
  have s: "pa_status p = Confirmed" using 1 by (simp split: if_splits)
  with 1 have "andThen (assertPurchaseInvoiceOnlyAllocations p (allocationsOf i db)) (\<lambda>_.
             andThen (forEach (unapplyTotal company user) (invoiceTotals (allocationsOf i db)) db) (\<lambda>db1.
             andThen (reversePayment ?p user now (ledger (savePayment ?p db1))) (\<lambda>(j, l).
                Inr (?p, (savePayment ?p db1)\<lparr>ledger := l\<rparr>)))) = Inr (p', db')"
    using m by (simp add: Let_def)
  then obtain z where po: "assertPurchaseInvoiceOnlyAllocations p (allocationsOf i db) = Inr z"
    and 3: "andThen (forEach (unapplyTotal company user) (invoiceTotals (allocationsOf i db)) db) (\<lambda>db1.
             andThen (reversePayment ?p user now (ledger (savePayment ?p db1))) (\<lambda>(j, l).
                Inr (?p, (savePayment ?p db1)\<lparr>ledger := l\<rparr>))) = Inr (p', db')"
    by (rule andThen_InrE)
  from 3 obtain d where f: "forEach (unapplyTotal company user) (invoiceTotals (allocationsOf i db)) db = Inr d"
    and 2: "andThen (reversePayment ?p user now (ledger (savePayment ?p d))) (\<lambda>(j, l).
                Inr (?p, (savePayment ?p d)\<lparr>ledger := l\<rparr>)) = Inr (p', db')"
    by (rule andThen_InrE)
  from 2 obtain j l where l: "reversePayment ?p user now (ledger (savePayment ?p d)) = Inr (j, l)"
      "p' = ?p" "db' = (savePayment ?p d)\<lparr>ledger := l\<rparr>"
    by (rule andThen_InrE) (auto split: prod.splits)
  have dir: "pa_direction p = Payment" using po by (cases z) (simp add: purchase_only)
  from undo_effect [of company user p, OF _ ok] f m dir obtain P where u: "payables_ok B d"
    "paid_shift (al_ref ` set (allocationsOf i db)) P (\<lambda>k. - allocated (PurchaseInvoiceRef, k) (allocationsOf i db)) db d"
    "\<forall>ord \<in> P. \<exists>k \<in> al_ref ` set (allocationsOf i db). hits (\<lambda>c s. c = company \<and> s \<noteq> InvVoided) k ord db" by blast
  have "payables_db.more d = payables_db.more db" using u(2) by (simp add: paid_shift_def)
  note tab = more_payments [OF this]
  have "same_payment p ?p" by (simp add: same_payment_def)
  moreover have "db' = d\<lparr>payments := map (\<lambda>x. if pa_id x = pa_id p' then p' else x) (payments db), ledger := l\<rparr>"
    using l(2,3) by (simp add: savePayment_def tab)
  moreover have "reversePayment p' user now (ledger db) = Inr (j, l)" using l(1,2) by (simp add: savePayment_def tab)
  moreover have "pa_status p' = Cancelled" by (simp add: l(2))
  ultimately show ?thesis using m s dir u l(2) by blast
qed

lemma reverse_keeps:
  fixes db :: "'a payments_db_scheme"
  assumes r: "reverse i company user now db = Inr (p', db')" and ok: "payments_ok B db"
  shows "payments_ok B db'"
proof -
  from reverse_effect [OF assms] obtain p d P j l where p: "p \<in> set (payments db)" "pa_id p = i" "pa_status p = Confirmed"
      "pa_direction p = Payment" and p': "pa_status p' = Cancelled" "same_payment p p'" and okd: "payables_ok B d"
    and sh: "paid_shift (al_ref ` set (allocationsOf i db)) P
        (\<lambda>k. - allocated (PurchaseInvoiceRef, k) (allocationsOf i db)) db d"
    and l: "reversePayment p' user now (ledger db) = Inr (j, l)"
    and db': "db' = d\<lparr>payments := map (\<lambda>x. if pa_id x = pa_id p' then p' else x) (payments db), ledger := l\<rparr>" by blast
  have dist: "distinct (map pa_id (payments db))" using ok by (simp add: payments_ok_def)
  note sv = saved_payments [OF dist p(1) p'(2)]
  have m: "payables_db.more d = payables_db.more db" "rowIds d = rowIds db" using sh by (simp_all add: paid_shift_def)
  note tab = more_payments [OF m(1)]
  have tabs: "payments db' = map (\<lambda>x. if pa_id x = pa_id p' then p' else x) (payments db)"
      "paymentAllocations db' = paymentAllocations db" "ledger db' = l" "rowIds db' = rowIds db"
      "purchaseInvoices db' = purchaseInvoices d" by (simp_all add: db' tab m(2))
  have i: "pa_id p' = i" using p'(2) p(2) by (simp add: same_payment_def)
  have al: "allocationsOf k db' = allocationsOf k db" for k by (simp add: allocationsOf_def tabs)
  have c: "pa_status p' \<noteq> Confirmed" and e: "pa_id p' = pa_id p" using p'(1) i p(2) by simp_all
  have conf: "confirmedAllocations db' = filter (\<lambda>a. al_payment a \<noteq> pa_id p) (confirmedAllocations db)"
    unfolding confirmedAllocations_def filter_filter tabs(2)
  proof (rule filter_cong [OF refl])
    fix a assume "a \<in> set (paymentAllocations db)"
    show "(\<exists>q \<in> set (payments db'). pa_id q = al_payment a \<and> pa_status q = Confirmed)
        = ((\<exists>q \<in> set (payments db). pa_id q = al_payment a \<and> pa_status q = Confirmed) \<and> al_payment a \<noteq> pa_id p)"
      unfolding tabs(1) Bex_def sv(4) using c e by metis
  qed
  have paid: "paidBy k db' = paidBy k db - allocated (PurchaseInvoiceRef, k) (allocationsOf i db)" for k
    unfolding confirmed_split [OF dist p(1,3)] paidBy_def [of k db'] conf p(2) by simp
  have "payables_ok B db'" by (rule payables_ok_tables [OF okd]) (simp_all add: db')
  moreover have "iv_paid w = paidBy (iv_id w) db'" if w: "w \<in> set (purchaseInvoices db')" for w
  proof -
    from paid_shift_mem(2) [OF sh] w obtain v where "v \<in> set (purchaseInvoices db)" "same_invoice v w"
        "iv_paid w = iv_paid v - allocated (PurchaseInvoiceRef, iv_id v) (allocationsOf i db)"
      unfolding tabs by force
    then show ?thesis using ok by (simp add: payments_ok_def same_invoice_def paid)
  qed
  moreover have "distinct (map pa_id (payments db'))" unfolding tabs(1) sv(1) by (rule dist)
  moreover have "pa_id q < rowIds db' \<and> sound_allocations B (pa_direction q) (pa_amount q) (allocationsOf (pa_id q) db')"
    if q: "q \<in> set (payments db')" for q
  proof -
    from sv(2) [of q] q obtain x where x: "x \<in> set (payments db)" "same_payment x q" unfolding tabs(1) by blast
    then have "pa_id x < rowIds db \<and> sound_allocations B (pa_direction x) (pa_amount x) (allocationsOf (pa_id x) db)"
      using ok by (simp add: payments_ok_def)
    then show ?thesis using x(2) by (simp add: same_payment_def al tabs(4))
  qed
  moreover have "\<forall>x \<in> set (payments db'). \<forall>y \<in> set (payments db'). clashing x y \<longrightarrow> x = y"
    unfolding tabs(1) by (rule sv(5)) (use ok in \<open>simp add: payments_ok_def\<close>)
  moreover have "\<exists>q \<in> set (payments db'). pa_id q = al_payment a"
    if "a \<in> set (paymentAllocations db')" for a
  proof -
    from that ok obtain q where "q \<in> set (payments db)" "pa_id q = al_payment a" by (auto simp: payments_ok_def tabs)
    moreover from sv(3) [OF this(1)] obtain y where "y \<in> set (payments db')" "same_payment q y" unfolding tabs(1) by blast
    ultimately show ?thesis by (metis same_payment_def)
  qed
  moreover have "\<forall>a \<in> set (paymentAllocations db'). al_type a = PurchaseInvoiceRef \<longrightarrow> al_ref a < rowIds db'"
    using ok by (simp add: payments_ok_def tabs)
  moreover have "ledger_ok (ledger db') \<and> (\<forall>k \<in> set (journals (ledger db')). je_sourceType k = SPayment
      \<longrightarrow> (\<exists>s < rowIds db'. je_sourceId k = Some s))"
  proof -
    have lo: "ledger_ok (ledger db)" and src: "\<forall>k \<in> set (journals (ledger db)). je_sourceType k = SPayment
        \<longrightarrow> (\<exists>s < rowIds db. je_sourceId k = Some s)"
      using ok by (simp_all add: payments_ok_def)
    from reversePayment_adds [OF lo l] src show ?thesis unfolding tabs(3,4) by (elim conjE disjE exE) simp_all
  qed
  ultimately show ?thesis unfolding payments_ok_def by blast
qed

section \<open>Reallocation\<close>

lemma reallocate_effect:
  fixes db :: "'a payments_db_scheme"
  assumes r: "reallocate i company user as now db = Inr (p', db')" and ok: "payments_ok B db"
    and a: "nonneg_amounts as" "2 * sum_list (map al_amount as) \<le> B" "fits B (2 * length as + 20)"
  shows "\<exists>p d e P Q rows. p \<in> set (payments db) \<and> pa_id p = i \<and> pa_company p = company \<and> pa_status p = Confirmed
    \<and> pa_direction p = Payment \<and> pa_status p' = Confirmed \<and> same_payment p p' \<and> payables_ok B e
    \<and> sound_allocations B Payment (pa_amount p) as
    \<and> paid_shift (al_ref ` set (allocationsOf i db)) P
        (\<lambda>k. - allocated (PurchaseInvoiceRef, k) (allocationsOf i db)) db d
    \<and> paid_shift (al_ref ` set as) Q (\<lambda>k. allocated (PurchaseInvoiceRef, k) as)
        (d\<lparr>paymentAllocations := filter (\<lambda>a. al_payment a \<noteq> i) (paymentAllocations db)\<rparr>) e
    \<and> (\<forall>k \<in> al_ref ` set as. \<exists>v \<in> set (purchaseInvoices d). iv_id v = k)
    \<and> map entry_of rows = map entry_of as \<and> (\<forall>r \<in> set rows. al_payment r = i)
    \<and> db' = e\<lparr>payments := map (\<lambda>x. if pa_id x = pa_id p' then p' else x) (payments db),
        paymentAllocations := filter (\<lambda>a. al_payment a \<noteq> i) (paymentAllocations db) @ rows,
        rowIds := rowIds db + length as\<rparr>"
proof -
  from r obtain p where p: "findPayment i company db = Inr p" and 1: "(if pa_status p \<noteq> Confirmed then Inl (AppException Conflict)
     else let allocations = allocationsOf (pa_id p) db
          in andThen (assertPurchaseInvoiceOnlyAllocations p allocations) (\<lambda>_.
             andThen (assertAllocationsValid (pa_direction p) (js_num (pa_amount p)) as) (\<lambda>_.
             andThen (assertAllocationsFullyCoverAmount (js_num (pa_amount p)) as) (\<lambda>_.
             andThen (forEach (unapplyTotal company user) (invoiceTotals allocations) db) (\<lambda>db1.
             let db2 = db1\<lparr>paymentAllocations := filter (\<lambda>a. al_payment a \<noteq> pa_id p) (paymentAllocations db1)\<rparr>
             in andThen (forEach (applyTotal company user) (invoiceTotals as) db2) (\<lambda>db3.
                let p' = p\<lparr>pa_reallocatedAt := Some now, pa_reallocatedBy := Some user, pa_updatedBy := user\<rparr>
                in Inr (p', savePayment p' (fold (insertAllocation (pa_id p)) as db3)))))))) = Inr (p', db')"
    unfolding reallocate_def by (rule andThen_InrE)
  note m = findPayment_mem [OF p]
  let ?p = "p\<lparr>pa_reallocatedAt := Some now, pa_reallocatedBy := Some user, pa_updatedBy := user\<rparr>"
  let ?F = "\<lambda>d. d\<lparr>paymentAllocations := filter (\<lambda>a. al_payment a \<noteq> i) (paymentAllocations d)\<rparr>"
  have s: "pa_status p = Confirmed" using 1 by (simp split: if_splits)
  with 1 have "andThen (assertPurchaseInvoiceOnlyAllocations p (allocationsOf i db)) (\<lambda>_.
             andThen (assertAllocationsValid (pa_direction p) (js_num (pa_amount p)) as) (\<lambda>_.
             andThen (assertAllocationsFullyCoverAmount (js_num (pa_amount p)) as) (\<lambda>_.
             andThen (forEach (unapplyTotal company user) (invoiceTotals (allocationsOf i db)) db) (\<lambda>db1.
             andThen (forEach (applyTotal company user) (invoiceTotals as) (?F db1)) (\<lambda>db3.
                Inr (?p, savePayment ?p (fold (insertAllocation i) as db3))))))) = Inr (p', db')"
    using m by (simp add: Let_def)
  then obtain z where po: "assertPurchaseInvoiceOnlyAllocations p (allocationsOf i db) = Inr z"
    and 2: "andThen (assertAllocationsValid (pa_direction p) (js_num (pa_amount p)) as) (\<lambda>_.
             andThen (assertAllocationsFullyCoverAmount (js_num (pa_amount p)) as) (\<lambda>_.
             andThen (forEach (unapplyTotal company user) (invoiceTotals (allocationsOf i db)) db) (\<lambda>db1.
             andThen (forEach (applyTotal company user) (invoiceTotals as) (?F db1)) (\<lambda>db3.
                Inr (?p, savePayment ?p (fold (insertAllocation i) as db3)))))) = Inr (p', db')"
    by (rule andThen_InrE)
  from 2 obtain y where v: "assertAllocationsValid (pa_direction p) (js_num (pa_amount p)) as = Inr y"
    and 3: "andThen (assertAllocationsFullyCoverAmount (js_num (pa_amount p)) as) (\<lambda>_.
             andThen (forEach (unapplyTotal company user) (invoiceTotals (allocationsOf i db)) db) (\<lambda>db1.
             andThen (forEach (applyTotal company user) (invoiceTotals as) (?F db1)) (\<lambda>db3.
                Inr (?p, savePayment ?p (fold (insertAllocation i) as db3))))) = Inr (p', db')"
    by (rule andThen_InrE)
  from 3 obtain c where
    4: "andThen (forEach (unapplyTotal company user) (invoiceTotals (allocationsOf i db)) db) (\<lambda>db1.
             andThen (forEach (applyTotal company user) (invoiceTotals as) (?F db1)) (\<lambda>db3.
                Inr (?p, savePayment ?p (fold (insertAllocation i) as db3)))) = Inr (p', db')"
    by (rule andThen_InrE)
  from 4 obtain d where u: "forEach (unapplyTotal company user) (invoiceTotals (allocationsOf i db)) db = Inr d"
    and 5: "andThen (forEach (applyTotal company user) (invoiceTotals as) (?F d)) (\<lambda>db3.
                Inr (?p, savePayment ?p (fold (insertAllocation i) as db3))) = Inr (p', db')"
    by (rule andThen_InrE)
  from 5 obtain e where f: "forEach (applyTotal company user) (invoiceTotals as) (?F d) = Inr e"
    and 6: "Inr (?p, savePayment ?p (fold (insertAllocation i) as e)) = (Inr (p', db') :: (payment \<times> 'a payments_db_scheme) result)"
    by (rule andThen_InrE)
  have dir: "pa_direction p = Payment" using po by (cases z) (simp add: purchase_only)
  have "sound_allocations B Payment (pa_amount p) (allocationsOf i db)" using ok m dir by (auto simp: payments_ok_def)
  moreover from this have "0 \<le> sum_list (map al_amount (allocationsOf i db))"
    by (intro sum_list_nonneg_map) (auto simp: sound_allocations_def less_imp_le)
  ultimately have b: "0 \<le> pa_amount p" "2 * pa_amount p \<le> B" "0 < B" by (simp_all add: sound_allocations_def)
  from valid_allocations [OF _ a b] v have snd: "sound_allocations B Payment (pa_amount p) as" by (cases y) (simp add: dir)
  from undo_effect [of company user p, OF _ ok] u m dir obtain P where U: "payables_ok B d"
    "paid_shift (al_ref ` set (allocationsOf i db)) P (\<lambda>k. - allocated (PurchaseInvoiceRef, k) (allocationsOf i db)) db d" by blast
  have mo: "payables_db.more d = payables_db.more db" "rowIds d = rowIds db" using U(2) by (simp_all add: paid_shift_def)
  note tab = more_payments [OF mo(1)]
  have "payables_ok B (?F d)" by (rule payables_ok_tables [OF U(1)]) simp_all
  from pay_run [OF f this sound_invoice_allocations [OF snd]] obtain Q where A: "payables_ok B e"
    "paid_shift (al_ref ` set as) Q (\<lambda>k. allocated (PurchaseInvoiceRef, k) as) (?F d) e"
    "\<forall>k \<in> al_ref ` set as. \<exists>ord. hits (\<lambda>c s. c = company \<and> s = InvPosted) k ord (?F d)" by blast
  have h: "\<forall>k \<in> al_ref ` set as. \<exists>v \<in> set (purchaseInvoices d). iv_id v = k" using A(3) by (force simp: hits_def)
  have Fd: "?F d = d\<lparr>paymentAllocations := filter (\<lambda>a. al_payment a \<noteq> i) (paymentAllocations db)\<rparr>" by (simp add: tab)
  have mo': "payables_db.more e = payables_db.more (?F d)" "rowIds e = rowIds db"
    using A(2) mo(2) by (simp_all add: paid_shift_def)
  note tab' = more_payments [OF mo'(1)]
  have small: "B < 2 ^ 48" using snd fits_small by (auto simp: sound_allocations_def)
  have "al_amount x \<le> sum_list (map al_amount as) \<and> 0 < al_amount x" if "x \<in> set as" for x
    using that snd member_le_sum_map [OF that, of al_amount] by (force simp: sound_allocations_def)
  then have am: "\<forall>x \<in> set as. \<bar>al_amount x\<bar> < 2 ^ 51" using a(2) small by force
  from insertAllocations [OF am, of i e] obtain rows where rows: "fold (insertAllocation i) as e
      = e\<lparr>paymentAllocations := paymentAllocations e @ rows, rowIds := rowIds e + length as\<rparr>"
      "map entry_of rows = map entry_of as" "\<forall>r \<in> set rows. al_payment r = i" by blast
  have 7: "(?p, savePayment ?p (fold (insertAllocation i) as e)) = (p', db')" using 6 by (rule sum.inject(2) [THEN iffD1])
  then have p': "p' = ?p" by (rule prod.inject [THEN iffD1, THEN conjunct1, symmetric])
  from 7 have d': "db' = savePayment ?p (fold (insertAllocation i) as e)"
    by (rule prod.inject [THEN iffD1, THEN conjunct2, symmetric])
  have "db' = e\<lparr>payments := map (\<lambda>x. if pa_id x = pa_id p' then p' else x) (payments db),
        paymentAllocations := filter (\<lambda>a. al_payment a \<noteq> i) (paymentAllocations db) @ rows,
        rowIds := rowIds db + length as\<rparr>"
    unfolding p' d' rows(1) savePayment_def by (simp add: tab tab' mo'(2))
  moreover have "same_payment p p'" "pa_status p' = Confirmed" by (simp_all add: p' same_payment_def s)
  ultimately show ?thesis using m s dir A(1) snd U(2) A(2) [unfolded Fd] h rows(2,3) by blast
qed

lemma reallocate_keeps:
  fixes db :: "'a payments_db_scheme"
  assumes r: "reallocate i company user as now db = Inr (p', db')" and ok: "payments_ok B db"
    and a: "nonneg_amounts as" "2 * sum_list (map al_amount as) \<le> B" "fits B (2 * length as + 20)"
  shows "payments_ok B db'"
proof -
  from reallocate_effect [OF assms] obtain p d e P Q rows where p: "p \<in> set (payments db)" "pa_id p = i" "pa_status p = Confirmed"
      "pa_direction p = Payment" and p': "pa_status p' = Confirmed" "same_payment p p'" and oke: "payables_ok B e"
    and snd: "sound_allocations B Payment (pa_amount p) as"
    and sh: "paid_shift (al_ref ` set (allocationsOf i db)) P
        (\<lambda>k. - allocated (PurchaseInvoiceRef, k) (allocationsOf i db)) db d"
    and sh': "paid_shift (al_ref ` set as) Q (\<lambda>k. allocated (PurchaseInvoiceRef, k) as)
        (d\<lparr>paymentAllocations := filter (\<lambda>a. al_payment a \<noteq> i) (paymentAllocations db)\<rparr>) e"
    and h: "\<forall>k \<in> al_ref ` set as. \<exists>v \<in> set (purchaseInvoices d). iv_id v = k"
    and rows: "map entry_of rows = map entry_of as" "\<forall>r \<in> set rows. al_payment r = i"
    and db': "db' = e\<lparr>payments := map (\<lambda>x. if pa_id x = pa_id p' then p' else x) (payments db),
        paymentAllocations := filter (\<lambda>a. al_payment a \<noteq> i) (paymentAllocations db) @ rows,
        rowIds := rowIds db + length as\<rparr>" by blast
  have dist: "distinct (map pa_id (payments db))" using ok by (simp add: payments_ok_def)
  note sv = saved_payments [OF dist p(1) p'(2)]
  note en = same_entries [OF rows(1)]
  have m: "payables_db.more d = payables_db.more db" "rowIds d = rowIds db" using sh by (simp_all add: paid_shift_def)
  have m': "payables_db.more e = payables_db.more (d\<lparr>paymentAllocations := filter (\<lambda>a. al_payment a \<noteq> i) (paymentAllocations db)\<rparr>)"
    "rowIds e = rowIds db" using sh' m by (simp_all add: paid_shift_def)
  have "ledger e = ledger db" using more_payments(4) [OF m'(1)] more_payments(4) [OF m(1)] by simp
  then have tabs: "payments db' = map (\<lambda>x. if pa_id x = pa_id p' then p' else x) (payments db)"
      "paymentAllocations db' = filter (\<lambda>a. al_payment a \<noteq> i) (paymentAllocations db) @ rows"
      "ledger db' = ledger db" "rowIds db' = rowIds db + length as"
      "purchaseInvoices db' = purchaseInvoices e" by (simp_all add: db')
  have e: "pa_id p' = pa_id p" using p'(2) by (simp add: same_payment_def)
  have al: "allocationsOf k db' = (if k = i then rows else allocationsOf k db)" for k
    using rows(2) by (auto simp: allocationsOf_def tabs filter_empty_conv intro: filter_cong)
  have st: "(\<exists>q \<in> set (payments db'). pa_id q = x \<and> pa_status q = Confirmed)
        = (\<exists>q \<in> set (payments db). pa_id q = x \<and> pa_status q = Confirmed)" for x
    unfolding tabs(1) Bex_def sv(4) using p'(1) e p(1,3) by metis
  have "filter (\<lambda>a. \<exists>q \<in> set (payments db). pa_id q = al_payment a \<and> pa_status q = Confirmed) rows = rows"
    using rows(2) p(1-3) by (intro filter_True) auto
  then have conf: "confirmedAllocations db' = filter (\<lambda>a. al_payment a \<noteq> pa_id p) (confirmedAllocations db) @ rows"
    unfolding confirmedAllocations_def st tabs(2) p(2) by (simp add: conj_commute)
  have paid: "paidBy k db' = paidBy k db - allocated (PurchaseInvoiceRef, k) (allocationsOf i db)
      + allocated (PurchaseInvoiceRef, k) as" for k
    unfolding confirmed_split [OF dist p(1,3)] paidBy_def [of k db'] conf p(2) by (simp add: en(1))
  have "payables_ok B db'" by (rule payables_ok_tables [OF oke]) (simp_all add: db' m'(2))
  moreover have "iv_paid w = paidBy (iv_id w) db'" if w: "w \<in> set (purchaseInvoices db')" for w
  proof -
    from w have "w \<in> set (purchaseInvoices e)" by (simp only: tabs)
    from paid_shift_mem(2) [OF sh' this] obtain v where v: "v \<in> set (purchaseInvoices d)" "same_invoice v w"
        "iv_paid w = iv_paid v + allocated (PurchaseInvoiceRef, iv_id v) as" by auto
    from paid_shift_mem(2) [OF sh v(1)] obtain u where "u \<in> set (purchaseInvoices db)" "same_invoice u v"
        "iv_paid v = iv_paid u - allocated (PurchaseInvoiceRef, iv_id u) (allocationsOf i db)" by auto
    with v(2,3) ok show ?thesis by (simp add: payments_ok_def same_invoice_def paid)
  qed
  moreover have "distinct (map pa_id (payments db'))" unfolding tabs(1) sv(1) by (rule dist)
  moreover have "pa_id q < rowIds db' \<and> sound_allocations B (pa_direction q) (pa_amount q) (allocationsOf (pa_id q) db')"
    if q: "q \<in> set (payments db')" for q
  proof -
    from sv(2) [of q] q obtain x where x: "x \<in> set (payments db)" "same_payment x q" unfolding tabs(1) by blast
    then have xo: "pa_id x < rowIds db \<and> sound_allocations B (pa_direction x) (pa_amount x) (allocationsOf (pa_id x) db)"
      using ok by (simp add: payments_ok_def)
    show ?thesis
    proof (cases "pa_id x = i")
      case True
      then have "x = p" using payment_unique [OF dist x(1) p(1)] p(2) by simp
      then show ?thesis using x(2) xo snd same_sound [OF rows(1)] p(2,4) by (simp add: same_payment_def al tabs(4))
    qed (use x(2) xo in \<open>simp add: same_payment_def al tabs(4)\<close>)
  qed
  moreover have "\<forall>x \<in> set (payments db'). \<forall>y \<in> set (payments db'). clashing x y \<longrightarrow> x = y"
    unfolding tabs(1) by (rule sv(5)) (use ok in \<open>simp add: payments_ok_def\<close>)
  moreover have "\<exists>q \<in> set (payments db'). pa_id q = al_payment x"
    if "x \<in> set (paymentAllocations db')" for x
  proof -
    from that ok rows(2) p(1,2) obtain q where "q \<in> set (payments db)" "pa_id q = al_payment x"
      unfolding tabs by (auto simp: payments_ok_def)
    moreover from sv(3) [OF this(1)] obtain y where "y \<in> set (payments db')" "same_payment q y" unfolding tabs(1) by blast
    ultimately show ?thesis by (metis same_payment_def)
  qed
  moreover have "al_ref x < rowIds db'" if x: "x \<in> set (paymentAllocations db')" "al_type x = PurchaseInvoiceRef" for x
  proof (cases "x \<in> set rows")
    case True
    then have "al_ref x \<in> al_ref ` set as" using en(4) by auto
    then obtain v where "v \<in> set (purchaseInvoices d)" "iv_id v = al_ref x" using h by blast
    moreover from paid_shift_mem(2) [OF sh this(1)] obtain u where "u \<in> set (purchaseInvoices db)" "same_invoice u v" by blast
    ultimately have "al_ref x < rowIds db" using ok by (auto simp: payments_ok_def payables_ok_def same_invoice_def)
    then show ?thesis by (simp add: tabs)
  next
    case False
    then have "x \<in> set (paymentAllocations db)" using x(1) by (simp add: tabs)
    then have "al_ref x < rowIds db" using ok x(2) by (simp add: payments_ok_def)
    then show ?thesis by (simp add: tabs)
  qed
  moreover have "ledger_ok (ledger db') \<and> (\<forall>k \<in> set (journals (ledger db')). je_sourceType k = SPayment
      \<longrightarrow> (\<exists>s < rowIds db'. je_sourceId k = Some s))"
    using ok unfolding payments_ok_def tabs(3,4) by (meson trans_less_add1)
  ultimately show ?thesis unfolding payments_ok_def by blast
qed

section \<open>Between payments\<close>

lemma supply_keeps:
  fixes db :: "'a payments_db_scheme"
  assumes step: "supply_step B db db'" and ok: "payments_ok B db" and B: "fits B 20" "0 < B"
  shows "payments_ok B db'"
proof -
  have pok: "payables_ok B db" using ok by (simp add: payments_ok_def)
  have kp: "keeps_paid db db'" by (rule supply_keeps_paid [OF step pok B(1)])
  have pok': "payables_ok B db'" using payables_step_ok [OF supply_payables [OF step] pok B] ..
  have m: "payables_db.more db' = payables_db.more db" and r: "rowIds db \<le> rowIds db'" using kp by (simp_all add: keeps_paid_def)
  note tab = more_payments [OF m]
  have al: "allocationsOf k db' = allocationsOf k db" "paidBy k db' = paidBy k db" for k
    by (simp_all add: allocationsOf_def paidBy_def confirmedAllocations_def tab)
  have "iv_paid w = paidBy (iv_id w) db'" if w: "w \<in> set (purchaseInvoices db')" for w
  proof (cases "\<exists>v \<in> set (purchaseInvoices db). iv_id v = iv_id w \<and> iv_paid v = iv_paid w")
    case True
    then show ?thesis using ok by (auto simp: payments_ok_def al)
  next
    case False
    then have n: "rowIds db \<le> iv_id w" "iv_paid w = 0" using kp w by (auto simp: keeps_paid_def)
    have "allocated (PurchaseInvoiceRef, iv_id w) (confirmedAllocations db) = 0"
    proof (rule allocated_absent, rule notI)
      assume "(PurchaseInvoiceRef, iv_id w) \<in> (\<lambda>a. (al_type a, al_ref a)) ` set (confirmedAllocations db)"
      then obtain a where "a \<in> set (paymentAllocations db)" "al_type a = PurchaseInvoiceRef" "al_ref a = iv_id w"
        by (auto simp: confirmedAllocations_def)
      then have "iv_id w < rowIds db" using ok by (auto simp: payments_ok_def)
      with n(1) show False by simp
    qed
    with n(2) show ?thesis unfolding al by (simp add: paidBy_def)
  qed
  moreover have "\<forall>p \<in> set (payments db'). pa_id p < rowIds db'" "\<forall>a \<in> set (paymentAllocations db').
      al_type a = PurchaseInvoiceRef \<longrightarrow> al_ref a < rowIds db'"
    using ok r unfolding tab payments_ok_def by (meson less_le_trans)+
  moreover have "ledger_ok (ledger db') \<and> (\<forall>k \<in> set (journals (ledger db')). je_sourceType k = SPayment
      \<longrightarrow> (\<exists>s < rowIds db'. je_sourceId k = Some s))"
    using ok r unfolding tab payments_ok_def by (meson less_le_trans)
  ultimately show ?thesis using pok' ok unfolding payments_ok_def al tab by blast
qed

end
