(* ===== verification/Payment_Theorems.thy ===== *)
theory Payment_Theorems
  imports Payment_Changes Accounting
begin

text \<open>
  Payments as a state machine, with the purchase side and the journal around it, and the properties of
  payments: the invoices, the allocations, the ledger and the outbox agree in every reachable state, a
  reversal restores what the payment changed, and a key pays at most once.
\<close>

section \<open>Steps\<close>

text \<open>What the accounting service does to the journal by hand.\<close>

inductive manual_step :: "acct_db \<Rightarrow> acct_db \<Rightarrow> bool" where
  create: "moderate (cj_lines dto) \<Longrightarrow> createJournal org company user dto now l = Inr (j, l') \<Longrightarrow> manual_step l l'"
| post: "postJournal i company user now l = Inr l' \<Longrightarrow> manual_step l l'"
| cancel: "cancelJournal i company l = Inr l' \<Longrightarrow> manual_step l l'"

definition keeps_sources :: "acct_db \<Rightarrow> acct_db \<Rightarrow> bool" where
  "keeps_sources l l' \<longleftrightarrow> (\<forall>k \<in> set (journals l'). je_sourceType k = SPayment \<longrightarrow>
     (\<exists>m \<in> set (journals l). je_sourceType m = SPayment \<and> je_sourceId m = je_sourceId k))"

lemma keeps_sources_update:
  assumes "findJournalInCompany i company l = Inr j" "je_sourceType (f j) = je_sourceType j" "je_sourceId (f j) = je_sourceId j"
    "\<And>k. je_id k = je_id j \<Longrightarrow> k \<in> set (journals l) \<Longrightarrow> f k = f j"
  shows "keeps_sources l (updateJournal (je_id j) f l)"
  unfolding keeps_sources_def
proof (intro ballI impI)
  fix k assume k: "k \<in> set (journals (updateJournal (je_id j) f l))" and t: "je_sourceType k = SPayment"
  have j: "j \<in> set (journals l)" using findJournalInCompany_Inr [OF assms(1)] by simp
  from k obtain m where m: "m \<in> set (journals l)" "k = (if je_id m = je_id j then f m else m)"
    by (auto simp: updateJournal_def)
  show "\<exists>m \<in> set (journals l). je_sourceType m = SPayment \<and> je_sourceId m = je_sourceId k"
  proof (cases "je_id m = je_id j")
    case True
    then have "k = f j" using m assms(4) by simp
    then show ?thesis using j t assms(2,3) by metis
  qed (use m t in auto)
qed

lemma manual_step_ok:
  assumes step: "manual_step l l'" and ok: "ledger_ok l"
  shows "ledger_ok l' \<and> keeps_sources l l'"
  using step
proof cases
  case (create dto org company user now j)
  define d where "d = (case cj_entryDate dto of Some d \<Rightarrow> d | None \<Rightarrow> now)"
  from create(2) obtain p l1 where r: "resolveOpenPeriod company d l = Inr (p, l1)"
    unfolding createJournal_def Let_def d_def [symmetric] by auto
  obtain n l2 where g: "generateJournalNumber company (getUTCFullYear d) l1 = (n, l2)" by force
  from create(2) r g obtain l3 where i: "je_sourceType j = SManual" "insertJournal j (l2\<lparr>nextId := nextId l2 + 1\<rparr>) = Inr l3"
      "l' = insertLines (je_id j) (cj_lines dto) l3"
    unfolding createJournal_def Let_def d_def [symmetric] by (auto simp: split_beta)
  have "journals l2 = journals l"
    using resolveOpenPeriod_same [OF r] generateJournalNumber_same [OF g] by (simp add: same_ledger_def)
  then have "journals l' = journals l @ [j]" using i by (simp add: insertJournal_Inr insertLines_def)
  then have "keeps_sources l l'" using i(1) by (auto simp: keeps_sources_def)
  with createJournal_ok [OF ok create] show ?thesis by blast
next
  case (post i company user now)
  then obtain td tc where l': "l' = updateJournal i (\<lambda>j. j\<lparr>je_status := JPosted, je_totalDebit := td,
      je_totalCredit := tc, je_postedBy := Some user, je_postedAt := Some now\<rparr>) l"
    by (auto simp: postJournal_def split: if_splits)
  have "keeps_sources l l'" unfolding l' keeps_sources_def updateJournal_def by force
  with postJournal_ok [OF ok post] show ?thesis by blast
next
  case (cancel i company)
  then obtain j where j: "findJournalInCompany i company l = Inr j"
    and l': "l' = updateJournal (je_id j) (\<lambda>_. j\<lparr>je_status := JCancelled\<rparr>) l"
    by (auto simp: cancelJournal_def cancelJournalRead_def cancelJournalSave_def split: if_splits)
  have "keeps_sources l l'" unfolding l' by (rule keeps_sources_update [OF j]) simp_all
  with cancelJournal_ok [OF ok cancel] show ?thesis by blast
qed

text \<open>A step: a payment request (whatever the lookup of its key saw), a reversal, a reallocation, an operation
  of the purchase side, an entry by hand.\<close>

inductive payment_step :: "int \<Rightarrow> 'a payments_db_scheme \<Rightarrow> 'a payments_db_scheme \<Rightarrow> bool" for B where
  create: "createPayment org company user dto header rq now seen db = (res, db') \<Longrightarrow> request_fits B dto \<Longrightarrow>
    payment_step B db db'"
| reverse: "reverse i company user now db = Inr (p, db') \<Longrightarrow> payment_step B db db'"
| reallocate: "reallocate i company user as now db = Inr (p, db') \<Longrightarrow> nonneg_amounts as \<Longrightarrow>
    2 * sum_list (map al_amount as) \<le> B \<Longrightarrow> fits B (2 * length as + 20) \<Longrightarrow> payment_step B db db'"
| purchasing: "supply_step B db db' \<Longrightarrow> payment_step B db db'"
| journal: "manual_step (ledger db) l \<Longrightarrow> payment_step B db (db\<lparr>ledger := l\<rparr>)"

lemma createPayment_cases:
  assumes "createPayment org company user dto header rq now seen db = (res, db')"
  shows "db' = db \<and> (\<forall>p. res \<noteq> Inr (p, False)) \<or> (\<exists>p. res = Inr (p, False) \<and> createPaymentChecks org company dto = Inr ()
    \<and> createPaymentTx org company user dto (keyOfHeader header) rq now db = Inr (p, db'))"
  using assms unfolding createPayment_def Let_def
  by (auto split: option.splits sum.splits if_splits prod.splits)

lemma payment_step_ok:
  assumes step: "payment_step B db db'" and ok: "payments_ok B db" and B: "fits B 20" "0 < B"
  shows "payments_ok B db'"
  using step
proof cases
  case (create org company user dto header rq now seen res)
  from createPayment_cases [OF create(1)] show ?thesis
  proof (elim disjE conjE exE)
    fix p
    assume c: "createPaymentChecks org company dto = Inr ()"
      and t: "createPaymentTx org company user dto (keyOfHeader header) rq now db = Inr (p, db')"
    show ?thesis by (rule create_keeps [OF t ok checked_request [OF c create(2)]]) (use create(2) in \<open>simp_all add: request_fits_def\<close>)
  qed (use ok in simp)
next
  case (reverse i company user now p)
  then show ?thesis using reverse_keeps ok by blast
next
  case (reallocate i company user as now p)
  then show ?thesis using reallocate_keeps ok by blast
next
  case purchasing
  then show ?thesis using supply_keeps ok B by blast
next
  case (journal l)
  have "payables_ok B db'" by (rule payables_ok_tables [of B db]) (use ok journal(1) in \<open>simp_all add: payments_ok_def\<close>)
  moreover have "ledger_ok l \<and> keeps_sources (ledger db) l" using manual_step_ok [OF journal(2)] ok by (simp add: payments_ok_def)
  ultimately show ?thesis using ok journal(1)
    by (fastforce simp: payments_ok_def paidBy_def confirmedAllocations_def allocationsOf_def keeps_sources_def)
qed

lemma payment_steps_ok:
  "(payment_step B)\<^sup>*\<^sup>* db db' \<Longrightarrow> payments_ok B db \<Longrightarrow> fits B 20 \<Longrightarrow> 0 < B \<Longrightarrow> payments_ok B db'"
  by (induction rule: rtranclp_induct) (use payment_step_ok in blast)+

section \<open>Payments and invoices agree\<close>

text \<open>C29: however payments, reversals, reallocations, purchase operations and journal entries interleave, the
  paid amount of every supplier invoice is the sum of what the confirmed payments allocate to it, no
  payment allocates more than its amount, and no two payments of a company share a number or a key.\<close>

theorem payments_cover_invoices:
  assumes "(payment_step B)\<^sup>*\<^sup>* db db'" and "payments_ok B db" and "fits B 20" and "0 < B"
  shows "(\<forall>v \<in> set (purchaseInvoices db'). iv_paid v = paidBy (iv_id v) db')
    \<and> (\<forall>p \<in> set (payments db'). sum_list (map al_amount (allocationsOf (pa_id p) db')) \<le> pa_amount p)
    \<and> (\<forall>x \<in> set (payments db'). \<forall>y \<in> set (payments db'). clashing x y \<longrightarrow> x = y)"
  using payment_steps_ok [OF assms] by (auto simp: payments_ok_def sound_allocations_def)

section \<open>What a payment books\<close>

text \<open>What a new payment does to sales and returns.\<close>

lemma insertAllocations_documents:
  "sales (fold (insertAllocation i) as d) = sales d \<and> saleReturns (fold (insertAllocation i) as d) = saleReturns d"
  by (induction as arbitrary: d) (simp_all add: insertAllocation_def)

lemma create_documents:
  fixes db :: "'a payments_db_scheme"
  assumes c: "createPaymentTx org company user dto key rq now db = Inr (p, db')" and ok: "documents_ok B db"
    and s: "sound_allocations B (yc_direction dto) (yc_amount dto) (yc_allocations dto)"
  shows "bumped sl_id sl_paid (\<lambda>j. allocated (SaleRef, j) (yc_allocations dto)) (sales db) (sales db')
    \<and> bumped rt_id rt_refunded (\<lambda>j. allocated (SaleReturnRef, j) (yc_allocations dto)) (saleReturns db) (saleReturns db')"
proof -
  from createPaymentTx_cases [OF c] obtain t db2 db4 l where
      f: "forEach (applyToTarget company user) (sortedTargets (buildAllocationTotals (yc_allocations dto)))
        (db\<lparr>paymentCounters := t\<rparr>) = Inr db2"
    and db4: "db4 = fold (insertAllocation (pa_id p)) (yc_allocations dto)
        (db2\<lparr>payments := payments db2 @ [p], rowIds := rowIds db2 + 1\<rparr>)"
    and db': "db' = emitEvent (confirmedEvent p (map al_id (allocationsOf (pa_id p) db4)) rq) now (db4\<lparr>ledger := l\<rparr>)"
    by blast
  have ok': "documents_ok B (db\<lparr>paymentCounters := t\<rparr>)" using ok by (simp add: documents_ok_def)
  have ty: "\<forall>a \<in> set (yc_allocations dto). al_type a \<noteq> PurchaseOrderRef \<and> 0 < al_amount a"
    using s by (cases "yc_direction dto") (auto simp: sound_allocations_def)
  have same: "sales db' = sales db2" "saleReturns db' = saleReturns db2"
    by (simp_all add: db' emitEvent_def db4 insertAllocations_documents)
  from targets_bump [OF f ok' ty] s show ?thesis by (simp add: same sound_allocations_def)
qed

text \<open>C30: a newly created payment is booked everywhere at once. One confirmed payment with the requested amount is
  added; one row per requested allocation with its target and amount; the paid amount of every supplier invoice
  and of every sale, and the refunded amount of every return, grow by exactly what the request allocates to
  them, and sales and returns to which nothing is allocated do not change at all; one pending event names the
  payment and its allocations; and one posted journal entry of that amount is added, none for a refund, which
  the code does not post. Amounts are at most \<open>B\<close> cents, where twenty roundings per request and two more per
  allocation stay below half a cent.\<close>

theorem payment_books_everything:
  fixes db :: "'a payments_db_scheme"
  assumes "createPayment org company user dto header rq now seen db = (Inr (p, False), db')"
    and "payments_ok B db" and "request_fits B dto" and "documents_ok B db"
  shows "payments db' = payments db @ [p] \<and> pa_amount p = yc_amount dto \<and> pa_status p = Confirmed
    \<and> (\<forall>s \<in> set (sales db). \<exists>t \<in> set (sales db'). sl_id t = sl_id s
        \<and> sl_paid t = sl_paid s + allocated (SaleRef, sl_id s) (yc_allocations dto)
        \<and> (allocated (SaleRef, sl_id s) (yc_allocations dto) = 0 \<longrightarrow> t = s))
    \<and> (\<forall>r \<in> set (saleReturns db). \<exists>u \<in> set (saleReturns db'). rt_id u = rt_id r
        \<and> rt_refunded u = rt_refunded r + allocated (SaleReturnRef, rt_id r) (yc_allocations dto)
        \<and> (allocated (SaleReturnRef, rt_id r) (yc_allocations dto) = 0 \<longrightarrow> u = r))
    \<and> (\<forall>v \<in> set (purchaseInvoices db). \<exists>w \<in> set (purchaseInvoices db'). same_invoice v w
        \<and> iv_paid w = iv_paid v + allocated (PurchaseInvoiceRef, iv_id v) (yc_allocations dto))
    \<and> (\<exists>rows e. paymentAllocations db' = paymentAllocations db @ rows
        \<and> map entry_of rows = map entry_of (yc_allocations dto) \<and> (\<forall>r \<in> set rows. al_payment r = pa_id p)
        \<and> outboxEvents db' = outboxEvents db @ [e] \<and> ob_status e = EvPending \<and> en_type e = ''payment.confirmed''
        \<and> pp_payment (en_payload e) = pa_id p \<and> pp_amount (en_payload e) = yc_amount dto
        \<and> pp_allocations (en_payload e) = map al_id rows)
    \<and> (if yc_direction dto = Refund then ledger db' = ledger db
       else \<exists>j. journals (ledger db') = journals (ledger db) @ [j] \<and> je_status j = JPosted
         \<and> je_totalDebit j = yc_amount dto \<and> je_sourceType j = SPayment \<and> je_sourceId j = Some (pa_id p))"
proof -
  from createPayment_cases [OF assms(1)] have c: "createPaymentChecks org company dto = Inr ()"
    and t: "createPaymentTx org company user dto (keyOfHeader header) rq now db = Inr (p, db')" by auto
  note s = checked_request [OF c assms(3)]
  have a: "0 \<le> yc_amount dto" "2 * yc_amount dto \<le> B" using assms(3) by (simp_all add: request_fits_def)
  from create_effect [OF t assms(2) s a] obtain u db2 T P rows l i where
      sh: "paid_shift T P (\<lambda>i. allocated (PurchaseInvoiceRef, i) (yc_allocations dto)) (db\<lparr>paymentCounters := u\<rparr>) db2"
    and p: "pa_id p = rowIds db" "pa_direction p = yc_direction dto" "pa_amount p = yc_amount dto" "pa_status p = Confirmed"
    and rows: "map entry_of rows = map entry_of (yc_allocations dto)" "\<forall>r \<in> set rows. al_payment r = pa_id p"
    and l: "if pa_direction p = Refund then l = ledger db
       else \<exists>pm cust supp j. postPayment p pm cust supp user now (ledger db) = Inr (j, l)"
    and db': "db' = db2\<lparr>payments := payments db @ [p], paymentAllocations := paymentAllocations db @ rows,
        outboxEvents := outboxEvents db @ [createEvent (confirmedEvent p (map al_id rows) rq) i (i + 1) (getTime now)],
        ledger := l, rowIds := i + 2\<rparr>" by blast
  let ?e = "createEvent (confirmedEvent p (map al_id rows) rq) i (i + 1) (getTime now)"
  have e: "ob_status ?e = EvPending" "en_type ?e = ''payment.confirmed''" "pp_payment (en_payload ?e) = pa_id p"
      "pp_amount (en_payload ?e) = yc_amount dto" "pp_allocations (en_payload ?e) = map al_id rows"
    by (simp_all add: createEvent_def confirmedEvent_def p(3))
  have tabs: "payments db' = payments db @ [p]" "paymentAllocations db' = paymentAllocations db @ rows"
      "outboxEvents db' = outboxEvents db @ [?e]" "ledger db' = l" "purchaseInvoices db' = purchaseInvoices db2"
    by (simp_all add: db')
  have inv: "\<exists>w \<in> set (purchaseInvoices db'). same_invoice v w
        \<and> iv_paid w = iv_paid v + allocated (PurchaseInvoiceRef, iv_id v) (yc_allocations dto)"
    if v: "v \<in> set (purchaseInvoices db)" for v
  proof -
    have "v \<in> set (purchaseInvoices (db\<lparr>paymentCounters := u\<rparr>))" using v by simp
    from paid_shift_mem(1) [OF sh this] show ?thesis unfolding tabs by blast
  qed
  have led: "if yc_direction dto = Refund then ledger db' = ledger db
       else \<exists>j. journals (ledger db') = journals (ledger db) @ [j] \<and> je_status j = JPosted
         \<and> je_totalDebit j = yc_amount dto \<and> je_sourceType j = SPayment \<and> je_sourceId j = Some (pa_id p)"
  proof (cases "yc_direction dto = Refund")
    case True
    then show ?thesis using l p(2) tabs by simp
  next
    case False
    with l p(2) obtain pm cust supp j where post: "postPayment p pm cust supp user now (ledger db) = Inr (j, l)" by auto
    have lo: "ledger_ok (ledger db)" and un: "unposted (pa_id p) (ledger db)"
      using assms(2) p(1) by (auto simp: payments_ok_def unposted_def)
    have "\<bar>pa_amount p\<bar> \<le> 2 ^ 50" using p(3) a s fits_small by (fastforce simp: sound_allocations_def)
    from postPayment_adds [OF lo this un post] False show ?thesis by (auto simp: tabs p(3))
  qed
  note docs = create_documents [OF t assms(4) s]
  have docs': "(\<forall>s \<in> set (sales db). \<exists>t \<in> set (sales db'). sl_id t = sl_id s
        \<and> sl_paid t = sl_paid s + allocated (SaleRef, sl_id s) (yc_allocations dto)
        \<and> (allocated (SaleRef, sl_id s) (yc_allocations dto) = 0 \<longrightarrow> t = s))
    \<and> (\<forall>r \<in> set (saleReturns db). \<exists>u \<in> set (saleReturns db'). rt_id u = rt_id r
        \<and> rt_refunded u = rt_refunded r + allocated (SaleReturnRef, rt_id r) (yc_allocations dto)
        \<and> (allocated (SaleReturnRef, rt_id r) (yc_allocations dto) = 0 \<longrightarrow> u = r))"
    using bumped_mem [OF conjunct1 [OF docs]] bumped_mem [OF conjunct2 [OF docs]] by blast
  show ?thesis using tabs(1-3) p(3,4) inv rows e led docs' by blast
qed

section \<open>A reversal undoes a payment\<close>

lemma posted_found:
  assumes "unposted i l" "journals l' = journals l @ [j]" "je_company j = company" "je_sourceType j = SPayment" "je_sourceId j = Some i"
  shows "findBySource company SPayment i l' = Some j"
proof -
  have "List.find (\<lambda>k. je_company k = company \<and> je_sourceType k = SPayment \<and> je_sourceId k = Some i) (journals l) = None"
    using assms(1) by (auto simp: unposted_def find_None_iff)
  then show ?thesis using assms(2-5) by (simp add: findBySource_def find_append)
qed

text \<open>C31: reversing a supplier payment that was just made restores the paid amount of every invoice, the open
  amount of every invoice that is not voided together with the amounts of its order, and the balance of
  every account of the journal; the payment remains, cancelled.\<close>

theorem reverse_undoes_payment:
  fixes db :: "'a payments_db_scheme"
  assumes "createPayment org company user dto header rq now seen db = (Inr (p, False), d)"
    and "payments_ok B db" and "request_fits B dto"
    and "reverse (pa_id p) company user' now' d = Inr (p', db')"
  shows "(\<forall>v \<in> set (purchaseInvoices db). \<exists>w \<in> set (purchaseInvoices db'). iv_id w = iv_id v \<and> iv_paid w = iv_paid v
        \<and> (iv_status v \<noteq> InvVoided \<longrightarrow> iv_balance w = iv_balance v
          \<and> (\<exists>s \<in> set (purchaseOrders db'). po_id s = iv_order v \<and> po_paid s = iv_paid v \<and> po_balance s = iv_balance v)))
    \<and> (\<forall>a. account_net a (journalLines (ledger db')) = account_net a (journalLines (ledger db)))
    \<and> pa_id p' = pa_id p \<and> pa_status p' = Cancelled \<and> p' \<in> set (payments db')"
proof -
  from createPayment_cases [OF assms(1)] have c: "createPaymentChecks org company dto = Inr ()"
    and t: "createPaymentTx org company user dto (keyOfHeader header) rq now db = Inr (p, d)" by auto
  note s = checked_request [OF c assms(3)]
  have a: "0 \<le> yc_amount dto" "2 * yc_amount dto \<le> B" using assms(3) by (simp_all add: request_fits_def)
  have okd: "payments_ok B d" by (rule create_keeps [OF t assms(2) s a])
  have ok': "payments_ok B db'" by (rule reverse_keeps [OF assms(4) okd])
  from create_effect [OF t assms(2) s a] obtain u db2 T P rows l i where
      sh: "paid_shift T P (\<lambda>i. allocated (PurchaseInvoiceRef, i) (yc_allocations dto)) (db\<lparr>paymentCounters := u\<rparr>) db2"
    and p: "pa_id p = rowIds db" "pa_company p = company" "pa_direction p = yc_direction dto" "pa_amount p = yc_amount dto"
    and rows: "map entry_of rows = map entry_of (yc_allocations dto)" "\<forall>r \<in> set rows. al_payment r = pa_id p"
    and l: "if pa_direction p = Refund then l = ledger db
       else \<exists>pm cust supp j. postPayment p pm cust supp user now (ledger db) = Inr (j, l)"
    and d: "d = db2\<lparr>payments := payments db @ [p], paymentAllocations := paymentAllocations db @ rows,
        outboxEvents := outboxEvents db @ [createEvent (confirmedEvent p (map al_id rows) rq) i (i + 1) (getTime now)],
        ledger := l, rowIds := i + 2\<rparr>" by blast
  have "al_payment x \<noteq> pa_id p" if "x \<in> set (paymentAllocations db)" for x
    using assms(2) that p(1) unfolding payments_ok_def by (metis less_irrefl_nat)
  then have al: "allocationsOf (pa_id p) d = rows" using rows(2) by (simp add: d allocationsOf_def filter_empty_conv)
  from reverse_effect [OF assms(4) okd] obtain q e Q j l' where q: "q \<in> set (payments d)" "pa_id q = pa_id p"
      "pa_direction q = Payment" "same_payment q p'" "pa_status p' = Cancelled"
    and sh': "paid_shift (al_ref ` set rows) Q (\<lambda>k. - allocated (PurchaseInvoiceRef, k) rows) d e"
    and rev: "reversePayment p' user' now' (ledger d) = Inr (j, l')"
    and db': "db' = e\<lparr>payments := map (\<lambda>x. if pa_id x = pa_id p' then p' else x) (payments d), ledger := l'\<rparr>"
    unfolding al by blast
  have pd: "p \<in> set (payments d)" "distinct (map pa_id (payments d))" using okd by (simp_all add: d payments_ok_def)
  have qp: "q = p" by (rule payment_unique [OF pd(2) q(1) pd(1) q(2)])
  have p': "pa_id p' = pa_id p" "pa_company p' = company" "pa_direction p' = Payment"
    using q(3,4) p(2) by (simp_all add: qp same_payment_def)
  have inv: "\<exists>w \<in> set (purchaseInvoices db'). iv_id w = iv_id v \<and> iv_paid w = iv_paid v
        \<and> (iv_status v \<noteq> InvVoided \<longrightarrow> iv_balance w = iv_balance v
          \<and> (\<exists>s \<in> set (purchaseOrders db'). po_id s = iv_order v \<and> po_paid s = iv_paid v \<and> po_balance s = iv_balance v))"
    if v: "v \<in> set (purchaseInvoices db)" for v
  proof -
    have "v \<in> set (purchaseInvoices (db\<lparr>paymentCounters := u\<rparr>))" using v by simp
    from paid_shift_mem(1) [OF sh this] obtain x where x: "x \<in> set (purchaseInvoices d)" "same_invoice v x"
      "iv_paid x = iv_paid v + allocated (PurchaseInvoiceRef, iv_id v) (yc_allocations dto)" by (auto simp: d)
    from paid_shift_mem(1) [OF sh' x(1)] obtain w where w: "w \<in> set (purchaseInvoices db')" "same_invoice x w"
      "iv_paid w = iv_paid x - allocated (PurchaseInvoiceRef, iv_id x) rows" by (auto simp: db')
    have sw: "same_invoice v w" "iv_paid w = iv_paid v"
      using x w same_entries(1) [OF rows(1)] by (simp_all add: same_invoice_def)
    have "payables_ok B db" "payables_ok B db'" using assms(2) ok' by (simp_all add: payments_ok_def)
    then have vo: "invoice_ok B v" "invoice_ok B w" "linked (purchaseOrders db') w"
      using v w(1) unfolding payables_ok_def by blast+
    have "iv_balance w = iv_balance v" if "iv_status v \<noteq> InvVoided"
      using vo(1,2) sw that by (simp add: invoice_ok_def same_invoice_def)
    then show ?thesis using w(1) sw vo(3) unfolding linked_def same_invoice_def by metis
  qed
  have net: "account_net a (journalLines (ledger db')) = account_net a (journalLines (ledger db))" for a
  proof -
    have dir: "yc_direction dto = Payment" using q(3) qp p(3) by simp
    with l p(3) obtain pm cust supp k where post: "postPayment p pm cust supp user now (ledger db) = Inr (k, l)" by auto
    have lo: "ledger_ok (ledger db)" and un: "unposted (pa_id p) (ledger db)"
      using assms(2) p(1) by (auto simp: payments_ok_def unposted_def)
    have "\<bar>pa_amount p\<bar> \<le> 2 ^ 50" using p(4) a s fits_small by (fastforce simp: sound_allocations_def)
    from postPayment_adds [OF lo this un post] obtain x y where
        k: "ledger_ok l" "journals l = journals (ledger db) @ [k]" "je_company k = company" "je_sourceType k = SPayment"
          "je_sourceId k = Some (pa_id p)"
        and ls: "journalLines l = journalLines (ledger db) @ linesOf (je_id k) l"
          "linesOf (je_id k) l = map (storeLine (je_id k)) (postingLines p x y (pa_amount p))" using p(2) by auto
    have ne: "linesOf (je_id k) l \<noteq> []" unfolding ls(2) by (simp add: postingLines_def)
    have ld: "ledger d = l" by (simp add: d)
    have "findBySource (pa_company p') SPayment (pa_id p') l = Some k"
      unfolding p'(1,2) by (rule posted_found [OF un k(2-5)])
    from reversePayment_cancels [OF k(1) rev [unfolded ld] _ this ne] p'(3)
    have "account_net a (journalLines l') = account_net a (journalLines l) - account_net a (linesOf (je_id k) l)" by simp
    then show ?thesis using arg_cong [OF ls(1), of "account_net a"] by (simp add: db')
  qed
  have "p' \<in> set (payments db')" using saved_payments(4) [OF pd(2) q(1,4), of p'] by (simp add: db')
  then show ?thesis using inv net p'(1) q(5) by blast
qed

section \<open>A key pays once\<close>

lemma applyToTarget_saves:
  fixes d :: "'a payables_db_scheme"
  assumes "applyToTarget company user ((t, i), r) d = Inr e"
  shows "(\<exists>v. e = saveSale v d) \<or> (\<exists>s v. e = saveOrder s (saveInvoice v d)) \<or> (\<exists>s. e = saveOrder s d) \<or> (\<exists>w. e = saveReturn w d)"
proof (cases t)
  case SaleRef
  then have "\<exists>v. e = saveSale v d" using assms by (simp add: applyToTarget_def applySalePayment_def Let_def) blast
  then show ?thesis by blast
next
  case PurchaseOrderRef
  then have "\<exists>s. e = saveOrder s d" using assms by (simp add: applyToTarget_def applyOrderPayment_def Let_def) blast
  then show ?thesis by blast
next
  case PurchaseInvoiceRef
  then have "\<exists>s v. e = saveOrder s (saveInvoice v d)"
    using assms by (simp add: applyToTarget_def applyInvoicePayment_def settle_def Let_def) blast
  then show ?thesis by blast
next
  case SaleReturnRef
  then have "\<exists>w. e = saveReturn w d" using assms by (simp add: applyToTarget_def applyRefund_def Let_def) blast
  then show ?thesis by blast
qed

lemma targets_more:
  fixes d :: "'a payables_db_scheme"
  assumes "forEach (applyToTarget company user) ts d = Inr e"
  shows "payables_db.more e = payables_db.more d"
proof (rule forEach_invariant [OF assms, where P = "\<lambda>x. payables_db.more x = payables_db.more d"])
  fix x and s u :: "'a payables_db_scheme"
  assume s: "payables_db.more s = payables_db.more d" and a: "applyToTarget company user x s = Inr u"
  obtain t i r where x: "x = ((t, i), r)" by (metis prod.collapse)
  show "payables_db.more u = payables_db.more d"
    using applyToTarget_saves [OF a [unfolded x]] s
    by (elim disjE exE) (simp_all add: saveSale_def saveInvoice_def saveOrder_def saveReturn_def)
qed simp

lemma used_key_fails:
  fixes db :: "'a payments_db_scheme"
  assumes "findByIdempotencyKey company k db = Some p"
  shows "createPaymentTx org company user dto (Some k) rq now db \<noteq> Inr (q, db')"
proof
  assume "createPaymentTx org company user dto (Some k) rq now db = Inr (q, db')"
  from createPaymentTx_cases [OF this] obtain t db2 where
      f: "forEach (applyToTarget company user) (sortedTargets (buildAllocationTotals (yc_allocations dto)))
        (db\<lparr>paymentCounters := t\<rparr>) = Inr db2"
    and q: "pa_company q = company" "pa_idempotencyKey q = Some k" "\<forall>x \<in> set (payments db2). \<not> clashing x q" by blast
  have "payments db2 = payments db" using more_payments(1) [OF targets_more [OF f]] by simp
  moreover have "p \<in> set (payments db) \<and> pa_company p = company \<and> pa_idempotencyKey p = Some k"
    using assms by (auto simp: findByIdempotencyKey_def find_Some_iff)
  ultimately show False using q by (auto simp: clashing_def)
qed

text \<open>C32: once a payment of the company carries a key, no request with that key pays again: whatever the request
  contains and whatever its own lookup saw, the state is left as it is, and an answer is never a new
  payment; a request whose lookup sees the payment is answered with it.\<close>

theorem key_pays_once:
  fixes db :: "'a payments_db_scheme"
  assumes "findByIdempotencyKey company k db = Some p" and "keyOfHeader header = Some k"
  shows "snd (createPayment org company user dto header rq now seen db) = db
    \<and> fst (createPayment org company user dto header rq now seen db) \<noteq> Inr (q, False)
    \<and> createPayment org company user dto header rq now db db = (Inr (p, True), db)"
proof -
  obtain res db' where c: "createPayment org company user dto header rq now seen db = (res, db')" by force
  from createPayment_cases [OF c] used_key_fails [OF assms(1)] have "db' = db \<and> (\<forall>p. res \<noteq> Inr (p, False))"
    unfolding assms(2) by blast
  moreover have "createPayment org company user dto header rq now db db = (Inr (p, True), db)"
    by (simp add: createPayment_def assms)
  ultimately show ?thesis using c by simp
qed

section \<open>A concrete payment\<close>

definition demo_open_invoice :: purchase_invoice where
  "demo_open_invoice = demo_invoice\<lparr>iv_status := InvPosted, iv_postedAt := Some ((2026, 3, 6), 0), iv_postedBy := Some 8,
     iv_updatedBy := 8\<rparr>"

definition demo_books :: acct_db where
  "demo_books = demo_ledger\<lparr>accounts := [\<lparr>ac_id = 10, ac_company = 1, ac_code = ''1000'', ac_active = True\<rparr>,
     \<lparr>ac_id = 12, ac_company = 1, ac_code = ''2000'', ac_active = True\<rparr>]\<rparr>"

definition demo_org_pay :: org_db where
  "demo_org_pay = demo_org_buy\<lparr>suppliers := [7 \<mapsto> \<lparr>su_company = 1, su_status = PActive, su_payableAccount = Some 12,
     su_creditDays = 0\<rparr>], paymentMethods := [3 \<mapsto> demo_cash]\<rparr>"

definition demo_pay0 :: payments_db where
  "demo_pay0 = payables_db.extend (demo_payables1\<lparr>purchaseInvoices := [demo_open_invoice]\<rparr>)
     \<lparr>payments = [], paymentAllocations = [], paymentCounters = Map.empty, outboxEvents = [], ledger = demo_books\<rparr>"

definition demo_pay_dto :: payment_dto where
  "demo_pay_dto = \<lparr>yc_branch = None, yc_direction = Payment, yc_customer = None, yc_supplier = Some 7, yc_method = 3,
     yc_amount = 3500, yc_currency = ''USD'', yc_date = None,
     yc_allocations = [\<lparr>al_type = PurchaseInvoiceRef, al_ref = 119, al_amount = 3500\<rparr>]\<rparr>"

definition demo_paid :: payment where
  "demo_paid = \<lparr>pa_id = 120, pa_number = formatDocumentNumber ''PMT'' 2026 1, pa_company = 1, pa_branch = None,
     pa_direction = Payment, pa_customer = None, pa_supplier = Some 7, pa_method = 3, pa_amount = 3500,
     pa_currency = ''USD'', pa_idempotencyKey = Some ''k1'', pa_status = Confirmed, pa_date = ((2026, 3, 9), 0),
     pa_createdBy = 9, pa_updatedBy = 9, pa_reversedAt = None, pa_reversedBy = None, pa_reallocatedAt = None,
     pa_reallocatedBy = None\<rparr>"

definition demo_paid_entry :: journal where
  "demo_paid_entry = \<lparr>je_id = 102, je_number = formatDocumentNumber ''JE'' 2026 1, je_company = 1,
     je_branch = None, je_period = 101, je_entryDate = ((2026, 3, 9), 0), je_status = JPosted,
     je_sourceType = SPayment, je_sourceId = Some 120, je_totalDebit = 3500, je_totalCredit = 3500,
     je_createdBy = 9, je_postedBy = Some 9, je_postedAt = Some ((2026, 3, 9), 0)\<rparr>"

definition demo_paid_books :: acct_db where
  "demo_paid_books = demo_books\<lparr>
     fiscalYears := [100 \<mapsto> \<lparr>fy_company = 1, fy_start = (2026, 1, 1), fy_end = (2026, 12, 31), fy_status = FYOpen\<rparr>],
     periods := [demo_period], journals := [demo_paid_entry],
     journalLines := map (storeLine 102) (postingLines demo_paid 12 10 3500),
     journalCounters := [(1, 2026) \<mapsto> 1], nextId := 103\<rparr>"

definition demo_pay1 :: payments_db where
  "demo_pay1 = demo_pay0\<lparr>purchaseInvoices := [demo_open_invoice\<lparr>iv_paid := 3500, iv_balance := 50, iv_updatedBy := 9\<rparr>],
     purchaseOrders := [demo_approved\<lparr>po_paid := 3500, po_balance := 50, po_updatedBy := 9\<rparr>],
     payments := [demo_paid], paymentCounters := [(1, 2026) \<mapsto> 1],
     paymentAllocations := [\<lparr>al_type = PurchaseInvoiceRef, al_ref = 119, al_amount = 3500, al_id = 121, al_payment = 120\<rparr>],
     outboxEvents := [createEvent (confirmedEvent demo_paid [121] None) 122 123 (getTime ((2026, 3, 9), 0))],
     ledger := demo_paid_books, rowIds := 124\<rparr>"

lemma demo_pay0_tables:
  "payables_db.more demo_pay0 = \<lparr>payments = [], paymentAllocations = [], paymentCounters = Map.empty, outboxEvents = [],
     ledger = demo_books\<rparr>"
  "payments demo_pay0 = []" "paymentAllocations demo_pay0 = []" "paymentCounters demo_pay0 = Map.empty"
  "outboxEvents demo_pay0 = []" "ledger demo_pay0 = demo_books" "purchaseInvoices demo_pay0 = [demo_open_invoice]"
  "purchaseOrders demo_pay0 = [demo_approved]" "rowIds demo_pay0 = 120"
  by (simp_all add: demo_pay0_def payables_db.extend_def demo_payables1_def demo_payables0_tables del: One_nat_def)

lemma demo_cents: "js_num 3500 = 35" "to_fixed2 35 = 3500" "js_num 0 = 0"
proof -
  show "js_num 3500 = 35" by (simp add: js_num_def)
  show "js_num 0 = 0" by (simp add: js_num_def)
  have "\<lfloor>(7001 / 2 :: real)\<rfloor> = 3500" by (rule floor_unique) simp_all
  then show "to_fixed2 35 = 3500" by (simp add: to_fixed2_def)
qed

lemma demo_room: "\<not> exceeds (js_add (js_num 0) 35) (js_sub (js_num 3550) (js_num 0))"
proof -
  have e: "0 \<le> js_eps" using js_eps_bounds by simp
  have 1: "\<bar>js_num 3550 - 71 / 2\<bar> \<le> 71 / 2 / 2 ^ 53" using fl_error [of "71 / 2"] by (simp add: js_num_def)
  have 2: "\<bar>js_sub (js_num 3550) (js_num 0) - js_num 3550\<bar> \<le> \<bar>js_num 3550\<bar> / 2 ^ 53"
    using fl_error [of "js_num 3550"] by (simp add: js_sub_def demo_cents(3))
  let ?x = "js_sub (js_num 3550) (js_num 0)"
  have x: "351 / 10 \<le> ?x" using 1 2 by (simp add: abs_real_def split: if_splits)
  have "\<bar>js_add ?x js_eps - (?x + js_eps)\<bar> \<le> \<bar>?x + js_eps\<bar> / 2 ^ 53" unfolding js_add_def by (rule fl_error)
  then have "35 \<le> js_add ?x js_eps" using x e by (simp add: abs_real_def split: if_splits)
  then show ?thesis by (simp add: exceeds_def demo_cents(3) js_add_def [of 0])
qed

lemma demo_post_paid:
  "postPayment demo_paid demo_cash None (suppliers demo_org_pay 7) 9 ((2026, 3, 9), 0) demo_books
    = Inr (demo_paid_entry, demo_paid_books)"
proof -
  have b: "assertBalanced (postingLines p d c 3500) = Inr (3500, 3500)" for p d c
    by (rule posting_balanced) simp_all
  show ?thesis
    by (simp add: postPayment_def demo_paid_books_def demo_books_def demo_org_pay_def demo_ledger_def demo_period_def
        demo_paid_def demo_cash_def demo_paid_entry_def findBySource_def
        resolveCashBankAccount_def resolvePayableAccount_def findActiveAccount_def
        postingAccounts_def createInternal_def resolveOpenPeriod_def createYearPeriod_def
        generateJournalNumber_def next_sequence_eq last_sequence_def insertJournal_def
        insertLines_def getUTCFullYear_def b demo_cents Let_def)
qed

lemma demo_settled:
  fixes db :: "'a payables_db_scheme"
  assumes "purchaseInvoices db = [demo_open_invoice]" "purchaseOrders db = [demo_approved]"
  shows "applyInvoicePayment 119 1 35 9 db = Inr (db\<lparr>purchaseInvoices :=
      [demo_open_invoice\<lparr>iv_paid := 3500, iv_balance := 50, iv_updatedBy := 9\<rparr>],
    purchaseOrders := [demo_approved\<lparr>po_paid := 3500, po_balance := 50, po_updatedBy := 9\<rparr>]\<rparr>)"
proof -
  have n: "near (10 ^ 10) 0 35 3500" by (simp add: near_def)
  have f: "fits (10 ^ 10) (0 + 20)" by (simp add: fits_def)
  have e: "to_fixed2 (js_add (js_num 0) 35) = 3500"
    "to_fixed2 (js_sub (js_sub (js_num 3550) (js_num 0)) (js_add (js_num 0) 35)) = 50"
    using pay_exact [OF n _ _ f, of 0 0 3550] demo_room by simp_all
  show ?thesis
    using demo_room
    by (simp add: applyInvoicePayment_def findInvoice_def findOrder_def settle_def saveInvoice_def saveOrder_def assms
        demo_open_invoice_def demo_invoice_def demo_approved_def demo_order_def e Let_def)
qed

lemma demo_createPayment:
  "createPayment demo_org_pay 1 9 demo_pay_dto (Some '' k1'') None ((2026, 3, 9), 0) demo_pay0 demo_pay0
    = (Inr (demo_paid, False), demo_pay1)"
proof -
  have k: "keyOfHeader (Some '' k1'') = Some ''k1''" by code_simp
  have room: "\<not> exceeds 35 35"
  proof -
    have "35 \<le> js_add 35 js_eps" using js_eps_bounds fl_error [of "35 + js_eps"]
      by (simp add: js_add_def abs_real_def split: if_splits)
    then show ?thesis by (simp add: exceeds_def)
  qed
  have a: "js_add 0 35 = 35" by (simp add: js_add_def)
  have checks: "createPaymentChecks demo_org_pay 1 demo_pay_dto = Inr ()"
    using room
    by (simp add: createPaymentChecks_def demo_pay_dto_def assertActiveCompany_def findActiveCompany_def demo_org_pay_def
      demo_org_buy_def demo_org_shop_def demo_org_wh_def assertBranchIfGiven_def assertValidPartyForDirection_def
      findSupplierInCompany_def assertValidPaymentMethod_def findPaymentMethodInCompany_def demo_cash_def
      assertAllocationsValid_def checkAllocation_def demo_cents a Let_def)
  have yc: "yc_date demo_pay_dto = None" "yc_branch demo_pay_dto = None" "yc_direction demo_pay_dto = Payment"
    "yc_customer demo_pay_dto = None" "yc_supplier demo_pay_dto = Some 7" "yc_method demo_pay_dto = 3"
    "yc_amount demo_pay_dto = 3500" "yc_currency demo_pay_dto = ''USD''"
    "yc_allocations demo_pay_dto = [\<lparr>al_type = PurchaseInvoiceRef, al_ref = 119, al_amount = 3500\<rparr>]"
    by (simp_all add: demo_pay_dto_def)
  have m: "paymentMethods demo_org_pay 3 = Some demo_cash" by (simp add: demo_org_pay_def)
  have t: "sortedTargets (buildAllocationTotals (yc_allocations demo_pay_dto)) = [((PurchaseInvoiceRef, 119), 35)]"
    by (simp add: sortedTargets_def buildAllocationTotals_def demo_pay_dto_def demo_cents a)
  let ?d = "demo_pay0\<lparr>paymentCounters := [(1, 2026) \<mapsto> 1],
     purchaseInvoices := [demo_open_invoice\<lparr>iv_paid := 3500, iv_balance := 50, iv_updatedBy := 9\<rparr>],
     purchaseOrders := [demo_approved\<lparr>po_paid := 3500, po_balance := 50, po_updatedBy := 9\<rparr>]\<rparr>"
  have ap: "applyToTarget 1 9 ((PurchaseInvoiceRef, 119), 35) (demo_pay0\<lparr>paymentCounters := [(1, 2026) \<mapsto> 1]\<rparr>) = Inr ?d"
    by (simp add: applyToTarget_def demo_settled demo_pay0_tables del: One_nat_def)
  have g: "generatePaymentNumber 1 2026 demo_pay0
      = (formatDocumentNumber ''PMT'' 2026 1, demo_pay0\<lparr>paymentCounters := [(1, 2026) \<mapsto> 1]\<rparr>)"
    by (simp add: generatePaymentNumber_def next_sequence_eq last_sequence_def demo_pay0_tables)
  have p: "postToLedger demo_org_pay demo_paid 9 ((2026, 3, 9), 0) d = Inr (d\<lparr>ledger := demo_paid_books\<rparr>)"
    if "ledger d = demo_books" for d :: payments_db
    using demo_post_paid m that by (simp add: postToLedger_def demo_paid_def)
  have "createPaymentTx demo_org_pay 1 9 demo_pay_dto (Some ''k1'') None ((2026, 3, 9), 0) demo_pay0 = Inr (demo_paid, demo_pay1)"
    unfolding createPaymentTx_def t Let_def
    by (simp add: yc getUTCFullYear_def g ap demo_cents demo_paid_def [symmetric] insertPayment_def
      demo_pay0_tables insertAllocation_def p allocationsOf_def emitEvent_def demo_pay1_def del: One_nat_def)
  then show ?thesis unfolding createPayment_def k Let_def by (simp add: checks findByIdempotencyKey_def demo_pay0_tables del: One_nat_def)
qed

lemma demo_pay_ok: "payments_ok (10 ^ 10) demo_pay0"
proof -
  have r: "isReleasedPurchaseOrder (po_status demo_approved)" "po_id demo_approved = 114" "po_company demo_approved = 1"
    by (simp_all add: isReleasedPurchaseOrder_def demo_approved_def demo_order_def)
  have t: "purchaseInvoices demo_payables1 = [demo_invoice]" "purchaseOrders demo_payables1 = [demo_approved]"
    "goodsReceipts demo_payables1 = [demo_receipt]" by (simp_all add: demo_payables1_def demo_payables0_tables)
  have i: "iv_id demo_invoice = 119" "iv_company demo_invoice = 1" "iv_status demo_invoice = InvDraft" "iv_order demo_invoice = 114"
    by (simp_all add: demo_invoice_def)
  have "receiptsOfOrder 1 114 demo_payables1 = [demo_receipt]" by (simp add: receiptsOfOrder_def t demo_receipt_def)
  then have "postRun 119 1 8 ((2026, 3, 6), 0) demo_payables1
      = Inr (demo_open_invoice, demo_payables1\<lparr>purchaseInvoices := [demo_open_invoice]\<rparr>)"
    by (simp add: postRun_def findInvoice_def findOrder_def t i r saveInvoice_def demo_open_invoice_def Let_def del: One_nat_def)
  then have "(payables_step (10 ^ 10))\<^sup>*\<^sup>* demo_payables0 (demo_payables1\<lparr>purchaseInvoices := [demo_open_invoice]\<rparr>)"
    by (rule rtranclp.rtrancl_into_rtrancl [OF demo_payables_steps payables_step.post])
  from payables_steps_ok [OF this demo_payables_ok]
  have ok: "payables_ok (10 ^ 10) (demo_payables1\<lparr>purchaseInvoices := [demo_open_invoice]\<rparr>)" by (simp add: fits_def)
  have "payables_ok (10 ^ 10) demo_pay0"
    by (rule payables_ok_tables [OF ok]) (simp_all add: demo_pay0_def payables_db.extend_def)
  then show ?thesis
    by (simp add: payments_ok_def demo_pay0_tables paidBy_def confirmedAllocations_def demo_open_invoice_def demo_invoice_def
      ledger_ok_def demo_books_def demo_ledger_def)
qed

lemma demo_fits: "request_fits (10 ^ 10) demo_pay_dto"
  by (simp add: request_fits_def demo_pay_dto_def nonneg_amounts_def fits_def)

lemma demo_documents: "documents_ok (10 ^ 10) demo_pay0"
  by (simp add: documents_ok_def demo_pay0_def payables_db.extend_def demo_payables1_def demo_payables0_def
      purchase_db.extend_def demo_purchase3_def demo_purchase2_def demo_purchase1_def demo_purchase0_def procurement_db.extend_def
      demo_awarded_def statusRun_def demo_procurement_def returns_db.defs sales_db.defs demo_shop1_def demo_sale_def Let_def)

theorem payment_books_everything_witness:
  "\<exists>w \<in> set (purchaseInvoices demo_pay1). iv_paid w = 3500"
  using payment_books_everything [OF demo_createPayment demo_pay_ok demo_fits demo_documents]
  by (simp add: demo_pay0_tables demo_open_invoice_def demo_invoice_def demo_pay_dto_def) blast

theorem payments_cover_invoices_witness:
  "paidBy 119 demo_pay1 = 3500"
  using payments_cover_invoices [OF r_into_rtranclp [where r = "payment_step (10 ^ 10)", OF payment_step.create [OF demo_createPayment demo_fits]] demo_pay_ok]
  by (simp add: fits_def demo_pay1_def demo_open_invoice_def demo_invoice_def)

lemma demo_key: "keyOfHeader (Some ''k1'') = Some ''k1''"
  by code_simp

theorem key_pays_once_witness:
  "createPayment demo_org_pay 1 9 demo_pay_dto (Some ''k1'') None ((2026, 3, 10), 0) demo_pay1 demo_pay1
    = (Inr (demo_paid, True), demo_pay1)"
proof -
  have "findByIdempotencyKey 1 ''k1'' demo_pay1 = Some demo_paid"
    by (simp add: findByIdempotencyKey_def demo_pay1_def) (simp add: demo_paid_def)
  from key_pays_once [OF this demo_key] show ?thesis by blast
qed

lemma demo_unsettled:
  fixes db :: "'a payables_db_scheme"
  assumes "purchaseInvoices db = [demo_open_invoice\<lparr>iv_paid := 3500, iv_balance := 50, iv_updatedBy := 9\<rparr>]"
    "purchaseOrders db = [demo_approved\<lparr>po_paid := 3500, po_balance := 50, po_updatedBy := 9\<rparr>]"
  shows "\<exists>v s. unapplyInvoicePayment 119 1 35 9 db = Inr (saveOrder s (saveInvoice v db))"
proof -
  have "\<not> js_sub 35 35 < - js_eps" using js_eps_bounds by (simp add: js_sub_def)
  then show ?thesis
    by (simp add: unapplyInvoicePayment_def findInvoice_def findOrder_def settle_def assms
        demo_open_invoice_def demo_invoice_def demo_approved_def demo_order_def demo_cents Let_def) blast
qed

lemma demo_reverse_books:
  assumes "pa_company p = 1" "pa_branch p = None" "pa_direction p = Payment" "pa_id p = 120"
  shows "\<exists>j l. reversePayment p 9 ((2026, 3, 10), 0) demo_paid_books = Inr (j, l)"
proof -
  have n: "to_fixed2 (js_num 3500) = 3500" "to_fixed2 (js_num 0) = 0" by (rule to_fixed2_js_num, simp)+
  have b: "assertBalanced (map (reversalLine p) (map (storeLine 102) (postingLines q d c 3500))) = Inr (3500, 3500)" for q d c
    by (subst assertBalanced_spec)
      (simp_all add: moderate_def balanced_def one_sided_def postingLines_def storeLine_def reversalLine_def n)
  have l: "linesOf 102 demo_paid_books = map (storeLine 102) (postingLines demo_paid 12 10 3500)"
    by (simp add: linesOf_def demo_paid_books_def postingLines_def storeLine_def)
  have f: "findBySource 1 SPayment 120 demo_paid_books = Some demo_paid_entry"
    by (simp add: findBySource_def demo_paid_books_def) (simp add: demo_paid_entry_def)
  have j: "je_id demo_paid_entry = 102" by (simp add: demo_paid_entry_def)
  have ne: "postingLines p d c a \<noteq> []" for p d c a by (simp add: postingLines_def)
  show ?thesis
    unfolding reversePayment_def
    by (simp add: f l j ne assms del: One_nat_def)
      (simp add: b [unfolded map_map] createInternal_def resolveOpenPeriod_def demo_paid_books_def demo_books_def
        demo_ledger_def demo_period_def demo_paid_entry_def
        period_of_company_def covers_def toDateOnly_def assertPostable_def generateJournalNumber_def
        next_sequence_eq last_sequence_def insertJournal_def getUTCFullYear_def assms Let_def)
qed

lemma demo_reverse_paid: "\<exists>p d. reverse 120 1 9 ((2026, 3, 10), 0) demo_pay1 = Inr (p, d)"
proof -
  let ?p = "demo_paid\<lparr>pa_status := Cancelled, pa_reversedAt := Some ((2026, 3, 10), 0), pa_reversedBy := Some 9,
      pa_updatedBy := 9\<rparr>"
  have q: "pa_id demo_paid = 120" "pa_company demo_paid = 1" "pa_branch demo_paid = None"
    "pa_direction demo_paid = Payment" "pa_status demo_paid = Confirmed" by (simp_all add: demo_paid_def)
  have f: "findPayment 120 1 demo_pay1 = Inr demo_paid" by (simp add: findPayment_def demo_pay1_def q del: One_nat_def)
  let ?r = "\<lparr>al_type = PurchaseInvoiceRef, al_ref = 119, al_amount = 3500, al_id = 121, al_payment = 120\<rparr> :: payment_allocation"
  have al: "allocationsOf 120 demo_pay1 = [?r]" by (simp add: allocationsOf_def demo_pay1_def)
  have po: "assertPurchaseInvoiceOnlyAllocations demo_paid [?r] = Inr ()" by (simp add: purchase_only q)
  have t: "invoiceTotals [?r] = [(119, 35)]"
    by (simp add: invoiceTotals_def buildAllocationTotals_def demo_cents js_add_def)
  from demo_unsettled [of demo_pay1] obtain v s where
    u: "unapplyInvoicePayment 119 1 35 9 demo_pay1 = Inr (saveOrder s (saveInvoice v demo_pay1))"
    by (auto simp: demo_pay1_def)
  have l: "ledger (savePayment ?p (saveOrder s (saveInvoice v demo_pay1))) = demo_paid_books"
    by (simp add: savePayment_def saveOrder_def saveInvoice_def demo_pay1_def)
  from demo_reverse_books [of ?p] q obtain j b where "reversePayment ?p 9 ((2026, 3, 10), 0) demo_paid_books = Inr (j, b)" by auto
  then show ?thesis
    by (simp add: reverse_def f q al po t unapplyTotal_def u l Let_def del: One_nat_def)
qed

theorem reverse_undoes_payment_witness:
  "\<exists>p d. reverse 120 1 9 ((2026, 3, 10), 0) demo_pay1 = Inr (p, d) \<and> pa_status p = Cancelled
    \<and> (\<exists>w \<in> set (purchaseInvoices d). iv_paid w = 0 \<and> iv_balance w = 3550)"
proof -
  from demo_reverse_paid obtain p d where r: "reverse 120 1 9 ((2026, 3, 10), 0) demo_pay1 = Inr (p, d)" by blast
  have i: "pa_id demo_paid = 120" by (simp add: demo_paid_def)
  have v: "demo_open_invoice \<in> set (purchaseInvoices demo_pay0)" "iv_paid demo_open_invoice = 0"
    "iv_balance demo_open_invoice = 3550" "iv_status demo_open_invoice = InvPosted"
    by (simp_all add: demo_pay0_tables demo_open_invoice_def demo_invoice_def)
  from reverse_undoes_payment [OF demo_createPayment demo_pay_ok demo_fits r [folded i]] v r show ?thesis
    by (metis invoice_status.distinct(5))
qed

end
