(* ===== verification/Forest.thy ===== *)
theory Forest
  imports Prelude
begin

text \<open>
  Trees kept in one table by a column with the row of the parent, as the categories of the catalogue and the
  chart of accounts are. The services share the walk of \<open>assertNoCycle\<close> up the chain of a proposed
  parent, bounded by the number of rows of the company. The locale \<open>tree_table\<close> states what the two operations on the
  table promise; in it the walk is shown to decide exactly whether the new parent lies below the row, and the table to
  stay a forest.
\<close>

section \<open>The walk\<close>

function walkUp :: "(id \<Rightarrow> id option) \<Rightarrow> id \<Rightarrow> nat \<Rightarrow> nat \<Rightarrow> id option \<Rightarrow> unit result" where
  "walkUp up i maxDepth steps None = Inr ()"
| "walkUp up i maxDepth steps (Some current) =
     (if current = i then Inl (AppException ValidationError)
      else if maxDepth < Suc steps then Inl (AppException ValidationError)
      else walkUp up i maxDepth (Suc steps) (up current))"
  by pat_completeness auto

termination
  by (relation "measure (\<lambda>(up, i, maxDepth, steps, current). maxDepth - steps)") auto

section \<open>Tables of trees\<close>

locale tree_table =
  fixes rows :: "'s \<Rightarrow> 'n list" and key :: "'n \<Rightarrow> id" and comp :: "'n \<Rightarrow> id" and up :: "'n \<Rightarrow> id option"
    and dead :: "'n \<Rightarrow> bool" and insert_row :: "'n \<Rightarrow> 's \<Rightarrow> 's" and save_row :: "'n \<Rightarrow> 's \<Rightarrow> 's"
  assumes rows_insert: "rows (insert_row n s) = rows s @ [n]"
    and rows_save: "rows (save_row n s) = map (\<lambda>x. if key x = key n then n else x) (rows s)"
begin

definition live :: "'s \<Rightarrow> 'n list" where
  "live s = filter (\<lambda>n. \<not> dead n) (rows s)"

definition upOf :: "'s \<Rightarrow> id \<Rightarrow> id option" where
  "upOf s i = Option.bind (List.find (\<lambda>n. key n = i) (live s)) up"

definition climbs :: "'s \<Rightarrow> (id \<times> id) set" where
  "climbs s = {(key n, p) | n p. n \<in> set (live s) \<and> up n = Some p}"

definition rooted :: "'s \<Rightarrow> 'n \<Rightarrow> bool" where
  "rooted s n \<longleftrightarrow> (\<forall>p. up n = Some p \<longrightarrow> (\<exists>m \<in> set (live s). key m = p \<and> comp m = comp n))"

definition forest_ok :: "'s \<Rightarrow> bool" where
  "forest_ok s \<longleftrightarrow> distinct (map key (rows s)) \<and> (\<forall>n \<in> set (live s). rooted s n) \<and> acyclic (climbs s)"

lemma live_unique:
  "forest_ok s \<Longrightarrow> m \<in> set (live s) \<Longrightarrow> n \<in> set (live s) \<Longrightarrow> key m = key n \<Longrightarrow> m = n"
  by (auto simp: forest_ok_def live_def distinct_map dest: inj_onD)

lemma upOf_live: "forest_ok s \<Longrightarrow> n \<in> set (live s) \<Longrightarrow> upOf s (key n) = up n"
proof (cases "List.find (\<lambda>m. key m = key n) (live s)")
  case (Some m)
  assume "forest_ok s" "n \<in> set (live s)"
  moreover have "m \<in> set (live s)" "key m = key n" using Some by (auto simp: find_Some_iff)
  ultimately have "m = n" using live_unique by blast
  with Some show ?thesis by (simp add: upOf_def)
qed (auto simp: find_None_iff)

lemma climbs_step:
  assumes "forest_ok s" "n \<in> set (live s)"
  shows "(key n, p) \<in> climbs s \<longleftrightarrow> up n = Some p"
  using live_unique [OF assms(1) _ assms(2)] assms(2) by (auto simp: climbs_def)

lemma climbs_rtrancl:
  assumes "forest_ok s" "n \<in> set (live s)"
  shows "(key n, i) \<in> (climbs s)\<^sup>* \<longleftrightarrow> key n = i \<or> (\<exists>p. up n = Some p \<and> (p, i) \<in> (climbs s)\<^sup>*)"
  using climbs_step [OF assms] by (metis converse_rtranclE converse_rtrancl_into_rtrancl rtrancl.rtrancl_refl)

text \<open>The rows passed are distinct rows of the company, so the bound on the number of steps is never reached.\<close>

lemma walk_from:
  assumes ok: "forest_ok s" and n: "n \<in> set (live s)" "comp n = c"
    and V: "V \<subseteq> key ` {m \<in> set (live s). comp m = c}" "card V = steps" "\<forall>v \<in> V. (v, key n) \<in> (climbs s)\<^sup>+"
  shows "walkUp (upOf s) i (length (filter (\<lambda>m. comp m = c) (live s))) steps (Some (key n))
    = (if (key n, i) \<in> (climbs s)\<^sup>* then Inl (AppException ValidationError) else Inr ())"
  using n V
proof (induction "length (filter (\<lambda>m. comp m = c) (live s)) - steps" arbitrary: n V steps rule: less_induct)
  case less
  let ?N = "length (filter (\<lambda>m. comp m = c) (live s))" and ?K = "key ` {m \<in> set (live s). comp m = c}"
  have acy: "acyclic (climbs s)" using ok by (simp add: forest_ok_def)
  show ?case
  proof (cases "key n = i")
    case False
    have "distinct (map key (rows s))" using ok by (simp add: forest_ok_def)
    then have d: "distinct (map key (filter (\<lambda>m. comp m = c) (live s)))"
      by (simp add: live_def distinct_map_filter)
    have K: "card ?K = ?N" using distinct_card [OF d] by simp
    have new: "key n \<notin> V" using less.prems(5) acy by (auto simp: acyclic_def)
    have fin: "finite V" using finite_subset [OF less.prems(3)] by simp
    have sub: "insert (key n) V \<subseteq> ?K" using less.prems(1-3) by auto
    have cd: "card (insert (key n) V) = Suc steps" using new fin less.prems(4) by simp
    then have le: "Suc steps \<le> ?N" using card_mono [OF _ sub] K by simp
    show ?thesis
    proof (cases "up n")
      case None
      then have "(key n, i) \<notin> (climbs s)\<^sup>*" using climbs_rtrancl [OF ok less.prems(1)] False by simp
      then show ?thesis using False le None upOf_live [OF ok less.prems(1)] by simp
    next
      case (Some p)
      have "rooted s n" using ok less.prems(1) by (simp add: forest_ok_def)
      then obtain m where m: "m \<in> set (live s)" "key m = p" "comp m = c" using Some less.prems(2) by (auto simp: rooted_def)
      have e: "(key n, p) \<in> climbs s" using climbs_step [OF ok less.prems(1)] Some by simp
      then have "\<forall>v \<in> insert (key n) V. (v, key m) \<in> (climbs s)\<^sup>+"
        using less.prems(5) m(2) by (auto intro: trancl_into_trancl)
      from less.hyps [OF _ m(1,3) sub cd this] le
      have "walkUp (upOf s) i ?N (Suc steps) (Some p)
          = (if (p, i) \<in> (climbs s)\<^sup>* then Inl (AppException ValidationError) else Inr ())" using m(2) by simp
      then show ?thesis
        using False le Some upOf_live [OF ok less.prems(1)] climbs_rtrancl [OF ok less.prems(1), of i] by simp
    qed
  qed simp
qed

lemma walk_exact:
  assumes "forest_ok s" "n \<in> set (live s)"
  shows "walkUp (upOf s) i (length (filter (\<lambda>m. comp m = comp n) (live s))) 0 (Some (key n))
    = (if (key n, i) \<in> (climbs s)\<^sup>* then Inl (AppException ValidationError) else Inr ())"
  by (rule walk_from [OF assms refl, of "{}"]) simp_all

text \<open>A new row, below a row of its company or at the top.\<close>

lemma insert_ok:
  assumes ok: "forest_ok s" and new: "key n \<notin> key ` set (rows s)" and r: "rooted s n" and a: "\<not> dead n"
  shows "forest_ok (insert_row n s)"
proof -
  let ?s = "insert_row n s"
  have l: "live ?s = live s @ [n]" using a by (simp add: live_def rows_insert)
  have sub: "set (live s) \<subseteq> set (rows s)" by (auto simp: live_def)
  have rt: "rooted ?s m" if "rooted s m" for m using that unfolding rooted_def l by auto
  have "climbs ?s = climbs s \<union> {(key n, p) | p. up n = Some p}" by (auto simp: climbs_def l)
  moreover have "acyclic (climbs s \<union> {(key n, p) | p. up n = Some p})"
  proof (cases "up n")
    case None
    then show ?thesis using ok by (simp add: forest_ok_def)
  next
    case (Some p)
    then obtain m where m: "m \<in> set (live s)" "key m = p" using r by (auto simp: rooted_def)
    have "(p, key n) \<notin> (climbs s)\<^sup>*"
    proof
      assume "(p, key n) \<in> (climbs s)\<^sup>*"
      then consider "p = key n" | q where "(q, key n) \<in> climbs s" by (metis rtranclE)
      then have "key n \<in> key ` set (live s)"
      proof cases
        case 1
        then show ?thesis using m imageI [of m "set (live s)" key] by simp
      next
        case 2
        then obtain x where "x \<in> set (live s)" "up x = Some (key n)" by (auto simp: climbs_def)
        then show ?thesis using ok unfolding forest_ok_def rooted_def by (metis imageI)
      qed
      then show False using new sub by auto
    qed
    then show ?thesis using ok Some by (simp add: forest_ok_def)
  qed
  ultimately show ?thesis
    using ok new r rt unfolding forest_ok_def l by (auto simp: rows_insert)
qed

text \<open>A row replaced: it moves below a row that is not below it, or is deleted when no row is below it.\<close>

lemma save_live:
  assumes ok: "forest_ok s" and n: "n \<in> set (live s)" and k: "key n' = key n"
  shows "set (live (save_row n' s)) = (if dead n' then set (live s) - {n} else insert n' (set (live s) - {n}))"
proof -
  have d: "distinct (map key (rows s))" using ok by (simp add: forest_ok_def)
  have nr: "n \<in> set (rows s)" "\<not> dead n" using n by (simp_all add: live_def)
  have u: "x = n" if "x \<in> set (rows s)" "key x = key n" for x using inj_onD [OF _ that(2) that(1) nr(1)] d by (simp add: distinct_map)
  have "set (rows (save_row n' s)) = insert n' (set (rows s) - {n})"
    unfolding rows_save k using nr(1) u by (auto simp: image_iff k)
  then show ?thesis unfolding live_def set_filter using nr(2) by auto
qed

lemma save_ok:
  assumes ok: "forest_ok s" and n: "n \<in> set (live s)" and same: "key n' = key n" "comp n' = comp n"
    and c: "\<not> dead n' \<and> (up n' = up n \<or> rooted s n' \<and> (\<forall>q. up n' = Some q \<longrightarrow> (q, key n) \<notin> (climbs s)\<^sup>*))
      \<or> dead n' \<and> (\<forall>m \<in> set (live s). up m \<noteq> Some (key n))"
  shows "forest_ok (save_row n' s)"
proof -
  let ?s = "save_row n' s"
  note l = save_live [OF ok n same(1)]
  have d: "distinct (map key (rows ?s))"
  proof -
    have "map key (rows ?s) = map key (rows s)" by (auto simp: rows_save)
    then show ?thesis using ok by (simp add: forest_ok_def)
  qed
  have rn: "rooted s m" if "m \<in> set (live s)" for m using ok that by (simp add: forest_ok_def)
  show ?thesis
  proof (cases "dead n'")
    case True
    have "rooted ?s m" if "m \<in> set (live s) - {n}" for m
      using rn [of m] that c True same(1) unfolding rooted_def l by (metis DiffD1 DiffI True empty_iff insert_iff)
    moreover have "climbs ?s \<subseteq> climbs s" using l True by (auto simp: climbs_def)
    ultimately show ?thesis using ok d True acyclic_subset unfolding forest_ok_def l by auto
  next
    case False
    have r': "rooted s n'" using c False rn [OF n] same(2) by (auto simp: rooted_def)
    have keep: "\<exists>y \<in> set (live ?s). key y = key x \<and> comp y = comp x" if "x \<in> set (live s)" for x
      using that same False unfolding l by (cases "x = n") auto
    have rt: "rooted ?s m" if "rooted s m" for m using that keep unfolding rooted_def by metis
    have "acyclic (climbs ?s)"
    proof (cases "up n'")
      case None
      then have "climbs ?s \<subseteq> climbs s" using l False by (auto simp: climbs_def)
      then show ?thesis using ok acyclic_subset by (auto simp: forest_ok_def)
    next
      case (Some q)
      have "climbs ?s \<subseteq> insert (key n, q) (climbs s)" using l False Some same by (auto simp: climbs_def)
      moreover have "acyclic (insert (key n, q) (climbs s))"
      proof (cases "up n' = up n")
        case True
        then have "(key n, q) \<in> climbs s" using climbs_step [OF ok n] Some by simp
        then show ?thesis using ok by (simp add: insert_absorb forest_ok_def)
      next
        case ne: False
        then show ?thesis using c False Some ok by (simp add: forest_ok_def)
      qed
      ultimately show ?thesis using acyclic_subset by blast
    qed
    then show ?thesis using d rt rn r' False unfolding forest_ok_def l by auto
  qed
qed

end

end
