(* ===== verification/Master_Data.thy ===== *)
theory Master_Data
  imports Organization Js_String Forest
begin

text \<open>
  Categories and brands (\<open>master-data/services/categories.service.ts\<close>, \<open>brands.service.ts\<close>): creation with
  a given or a generated code, re-parenting of a category with its check against cycles, activation, and soft
  deletion, refused while children or products refer to the row. A lookup skips soft-deleted rows; the unique
  index on company and code does not.
\<close>

section \<open>State\<close>

record category =
  ct_id :: id
  ct_company :: id
  ct_code :: string
  ct_name :: string
  ct_description :: "string option"
  ct_parent :: "id option"
  ct_status :: active_status
  ct_sortOrder :: int
  ct_deleted :: bool

record brand =
  bd_id :: id
  bd_company :: id
  bd_code :: string
  bd_name :: string
  bd_description :: "string option"
  bd_country :: "string option"
  bd_status :: active_status
  bd_deleted :: bool

record product =
  pd_id :: id
  pd_company :: id
  pd_category :: id
  pd_brand :: id
  pd_deleted :: bool

record master_db =
  categories :: "category list"
  brands :: "brand list"
  productRows :: "product list"
  masterIds :: id

record category_dto =
  kc_code :: "string option"
  kc_name :: string
  kc_description :: "string option"
  kc_parent :: "id option"
  kc_sortOrder :: "int option"

text \<open>In an update a missing field keeps the old value; \<open>null\<close> clears it, and a parent \<open>null\<close> moves the category to the top.\<close>

record category_update_dto =
  ku_name :: "string option"
  ku_description :: "string option option"
  ku_parent :: "id option option"
  ku_sortOrder :: "int option"

record brand_dto =
  kb_code :: "string option"
  kb_name :: string
  kb_description :: "string option"
  kb_country :: "string option"

record brand_update_dto =
  bu_name :: "string option"
  bu_description :: "string option option"
  bu_country :: "string option option"

section \<open>Categories\<close>

definition liveCategories :: "'a master_db_scheme \<Rightarrow> category list" where
  "liveCategories db = filter (\<lambda>c. \<not> ct_deleted c) (categories db)"

definition findCategory :: "id \<Rightarrow> id \<Rightarrow> 'a master_db_scheme \<Rightarrow> category result" where
  "findCategory i company db =
     orThrow (List.find (\<lambda>c. ct_id c = i \<and> ct_company c = company) (liveCategories db)) (AppException NotFound)"

definition saveCategory :: "category \<Rightarrow> 'a master_db_scheme \<Rightarrow> 'a master_db_scheme" where
  "saveCategory c db = db\<lparr>categories := map (\<lambda>x. if ct_id x = ct_id c then c else x) (categories db)\<rparr>"

definition appendCategory :: "category \<Rightarrow> 'a master_db_scheme \<Rightarrow> 'a master_db_scheme" where
  "appendCategory c db = db\<lparr>categories := categories db @ [c], masterIds := masterIds db + 1\<rparr>"

definition insertCategory :: "category \<Rightarrow> 'a master_db_scheme \<Rightarrow> 'a master_db_scheme result" where
  "insertCategory c db =
     (if \<exists>x \<in> set (categories db). ct_company x = ct_company c \<and> ct_code x = ct_code c
      then Inl (DupEntry ''company_code'') else Inr (appendCategory c db))"

definition assertValidParent :: "id \<Rightarrow> id \<Rightarrow> 'a master_db_scheme \<Rightarrow> unit result" where
  "assertValidParent parent company db =
     (if \<exists>c \<in> set (liveCategories db). ct_id c = parent \<and> ct_company c = company \<and> ct_status c = Active
      then Inr () else Inl (AppException ValidationError))"

definition assertNoCycle :: "id \<Rightarrow> id \<Rightarrow> id \<Rightarrow> 'a master_db_scheme \<Rightarrow> unit result" where
  "assertNoCycle categoryId newParentId company db =
     walkUp (\<lambda>i. Option.bind (List.find (\<lambda>c. ct_id c = i) (liveCategories db)) ct_parent) categoryId
       (length (filter (\<lambda>c. ct_company c = company) (liveCategories db))) 0 (Some newParentId)"

definition categoryCodeTaken :: "id \<Rightarrow> 'a master_db_scheme \<Rightarrow> string \<Rightarrow> bool" where
  "categoryCodeTaken company db code \<longleftrightarrow> (\<exists>c \<in> set (liveCategories db). ct_company c = company \<and> ct_code c = code)"

text \<open>\<open>None\<close> is a request whose search for a free code does not end.\<close>

definition createCategory ::
  "org_db \<Rightarrow> id \<Rightarrow> category_dto \<Rightarrow> 'a master_db_scheme \<Rightarrow> (category \<times> 'a master_db_scheme) result option" where
  "createCategory org company dto db =
     (case andThen (assertActiveCompany org company) (\<lambda>_.
           case kc_parent dto of None \<Rightarrow> Inr () | Some p \<Rightarrow> assertValidParent p company db) of
        Inl e \<Rightarrow> Some (Inl e)
      | Inr _ \<Rightarrow>
          map_option (\<lambda>r. andThen r (\<lambda>code.
            let c = \<lparr>ct_id = masterIds db, ct_company = company, ct_code = code, ct_name = kc_name dto,
                  ct_description = kc_description dto,
                  ct_parent = kc_parent dto, ct_status = Active,
                  ct_sortOrder = (case kc_sortOrder dto of None \<Rightarrow> 0 | Some n \<Rightarrow> n), ct_deleted = False\<rparr>
            in andThen (insertCategory c db) (\<lambda>db'. Inr (c, db'))))
          (resolveCreateCode ''CAT-'' (categoryCodeTaken company db) (kc_code dto) (kc_name dto)))"

text \<open>An update runs outside a transaction: a read with its checks, then the save of the changed row.\<close>

definition updateCategoryRead ::
  "id \<Rightarrow> id \<Rightarrow> category_update_dto \<Rightarrow> 'a master_db_scheme \<Rightarrow> category result" where
  "updateCategoryRead i company dto db =
     andThen (findCategory i company db) (\<lambda>c.
     andThen
       (case ku_parent dto of
          None \<Rightarrow> Inr c
        | Some p \<Rightarrow>
            if p = Some i then Inl (AppException ValidationError)
            else andThen
              (case p of None \<Rightarrow> Inr ()
               | Some q \<Rightarrow> andThen (assertValidParent q company db) (\<lambda>_. assertNoCycle i q company db))
              (\<lambda>_. Inr (c\<lparr>ct_parent := p\<rparr>)))
       (\<lambda>c1. Inr (c1\<lparr>ct_name := (case ku_name dto of None \<Rightarrow> ct_name c1 | Some n \<Rightarrow> n),
                    ct_description := (case ku_description dto of None \<Rightarrow> ct_description c1 | Some d \<Rightarrow> d),
                    ct_sortOrder := (case ku_sortOrder dto of None \<Rightarrow> ct_sortOrder c1 | Some n \<Rightarrow> n)\<rparr>)))"

definition updateCategory ::
  "id \<Rightarrow> id \<Rightarrow> category_update_dto \<Rightarrow> 'a master_db_scheme \<Rightarrow> (category \<times> 'a master_db_scheme) result" where
  "updateCategory i company dto db =
     andThen (updateCategoryRead i company dto db) (\<lambda>c. Inr (c, saveCategory c db))"

definition activateCategory :: "id \<Rightarrow> id \<Rightarrow> 'a master_db_scheme \<Rightarrow> (category \<times> 'a master_db_scheme) result" where
  "activateCategory i company db =
     andThen (findCategory i company db) (\<lambda>c.
     let c' = c\<lparr>ct_status := Active\<rparr> in Inr (c', saveCategory c' db))"

definition deactivateCategory :: "id \<Rightarrow> id \<Rightarrow> 'a master_db_scheme \<Rightarrow> (category \<times> 'a master_db_scheme) result" where
  "deactivateCategory i company db =
     andThen (findCategory i company db) (\<lambda>c.
     let c' = c\<lparr>ct_status := Inactive\<rparr> in Inr (c', saveCategory c' db))"

definition removeCategory :: "id \<Rightarrow> id \<Rightarrow> 'a master_db_scheme \<Rightarrow> 'a master_db_scheme result" where
  "removeCategory i company db =
     andThen (findCategory i company db) (\<lambda>c.
     if filter (\<lambda>x. ct_parent x = Some i) (liveCategories db) \<noteq> [] then Inl (AppException Conflict)
     else if filter (\<lambda>p. pd_company p = company \<and> pd_category p = i \<and> \<not> pd_deleted p) (productRows db) \<noteq> []
       then Inl (AppException Conflict)
     else Inr (saveCategory (c\<lparr>ct_deleted := True\<rparr>) db))"

section \<open>Brands\<close>

definition findBrand :: "id \<Rightarrow> id \<Rightarrow> 'a master_db_scheme \<Rightarrow> brand result" where
  "findBrand i company db =
     orThrow (List.find (\<lambda>b. bd_id b = i \<and> bd_company b = company \<and> \<not> bd_deleted b) (brands db)) (AppException NotFound)"

definition saveBrand :: "brand \<Rightarrow> 'a master_db_scheme \<Rightarrow> 'a master_db_scheme" where
  "saveBrand b db = db\<lparr>brands := map (\<lambda>x. if bd_id x = bd_id b then b else x) (brands db)\<rparr>"

definition insertBrand :: "brand \<Rightarrow> 'a master_db_scheme \<Rightarrow> 'a master_db_scheme result" where
  "insertBrand b db =
     (if \<exists>x \<in> set (brands db). bd_company x = bd_company b \<and> bd_code x = bd_code b
      then Inl (DupEntry ''company_code'')
      else Inr (db\<lparr>brands := brands db @ [b], masterIds := masterIds db + 1\<rparr>))"

definition brandCodeTaken :: "id \<Rightarrow> 'a master_db_scheme \<Rightarrow> string \<Rightarrow> bool" where
  "brandCodeTaken company db code \<longleftrightarrow>
     (\<exists>b \<in> set (brands db). bd_company b = company \<and> bd_code b = code \<and> \<not> bd_deleted b)"

definition createBrand ::
  "org_db \<Rightarrow> id \<Rightarrow> brand_dto \<Rightarrow> 'a master_db_scheme \<Rightarrow> (brand \<times> 'a master_db_scheme) result option" where
  "createBrand org company dto db =
     (case assertActiveCompany org company of
        Inl e \<Rightarrow> Some (Inl e)
      | Inr _ \<Rightarrow>
          map_option (\<lambda>r. andThen r (\<lambda>code.
            let b = \<lparr>bd_id = masterIds db, bd_company = company, bd_code = code, bd_name = kb_name dto,
                  bd_description = kb_description dto, bd_country = kb_country dto,
                  bd_status = Active, bd_deleted = False\<rparr>
            in andThen (insertBrand b db) (\<lambda>db'. Inr (b, db'))))
          (resolveCreateCode ''BR-'' (brandCodeTaken company db) (kb_code dto) (kb_name dto)))"

definition updateBrand ::
  "id \<Rightarrow> id \<Rightarrow> brand_update_dto \<Rightarrow> 'a master_db_scheme \<Rightarrow> (brand \<times> 'a master_db_scheme) result" where
  "updateBrand i company dto db =
     andThen (findBrand i company db) (\<lambda>b.
     let b' = b\<lparr>bd_name := (case bu_name dto of None \<Rightarrow> bd_name b | Some n \<Rightarrow> n),
           bd_description := (case bu_description dto of None \<Rightarrow> bd_description b | Some d \<Rightarrow> d),
           bd_country := (case bu_country dto of None \<Rightarrow> bd_country b | Some c \<Rightarrow> c)\<rparr>
     in Inr (b', saveBrand b' db))"

definition setBrandStatus :: "active_status \<Rightarrow> id \<Rightarrow> id \<Rightarrow> 'a master_db_scheme \<Rightarrow> (brand \<times> 'a master_db_scheme) result" where
  "setBrandStatus st i company db =
     andThen (findBrand i company db) (\<lambda>b. let b' = b\<lparr>bd_status := st\<rparr> in Inr (b', saveBrand b' db))"

definition removeBrand :: "id \<Rightarrow> id \<Rightarrow> 'a master_db_scheme \<Rightarrow> 'a master_db_scheme result" where
  "removeBrand i company db =
     andThen (findBrand i company db) (\<lambda>b.
     if filter (\<lambda>p. pd_company p = company \<and> pd_brand p = i \<and> \<not> pd_deleted p) (productRows db) \<noteq> []
     then Inl (AppException Conflict)
     else Inr (saveBrand (b\<lparr>bd_deleted := True\<rparr>) db))"

end
