(* ===== verification/Master_Theorems.thy ===== *)
theory Master_Theorems
  imports Master_Data
begin

text \<open>
  The categories as a forest: the interpretation of \<open>tree_table\<close> on their table, the steps of the services on
  categories and brands, and the properties: codes are found, the tree stays a tree and the check of a new parent is
  exact. The last section shows what two updates at once and a deleted code do.
\<close>

section \<open>The forest of the categories\<close>

interpretation cats: tree_table categories ct_id ct_company ct_parent ct_deleted appendCategory saveCategory
  by unfold_locales (simp_all add: appendCategory_def saveCategory_def)

text \<open>A category and its parent.\<close>

definition parentOf :: "'a master_db_scheme \<Rightarrow> (id \<times> id) set" where
  "parentOf db = {(ct_id c, p) | c p. c \<in> set (liveCategories db) \<and> ct_parent c = Some p}"

definition category_forest :: "'a master_db_scheme \<Rightarrow> bool" where
  "category_forest db \<longleftrightarrow> distinct (map ct_id (categories db)) \<and> (\<forall>c \<in> set (categories db). ct_id c < masterIds db)
     \<and> (\<forall>c \<in> set (liveCategories db). \<forall>p. ct_parent c = Some p \<longrightarrow>
          (\<exists>q \<in> set (liveCategories db). ct_id q = p \<and> ct_company q = ct_company c))
     \<and> acyclic (parentOf db)"

lemma cats_live: "cats.live db = liveCategories db"
  by (simp add: cats.live_def liveCategories_def)

lemma cats_climbs: "cats.climbs db = parentOf db"
  by (simp add: cats.climbs_def parentOf_def cats_live)

lemma category_forest_eq:
  "category_forest db \<longleftrightarrow> cats.forest_ok db \<and> (\<forall>c \<in> set (categories db). ct_id c < masterIds db)"
  by (auto simp: category_forest_def cats.forest_ok_def cats.rooted_def cats_live cats_climbs)

lemma findCategory_Inr:
  "findCategory i company db = Inr c \<Longrightarrow> c \<in> set (liveCategories db) \<and> ct_id c = i \<and> ct_company c = company"
  by (auto simp: findCategory_def orThrow_def find_Some_iff split: option.splits)

lemma live_category: "c \<in> set (liveCategories db) \<Longrightarrow> c \<in> set (categories db) \<and> \<not> ct_deleted c"
  by (simp add: liveCategories_def)

lemma assertValidParent_Inr:
  "assertValidParent p company db = Inr u \<longleftrightarrow>
    (\<exists>c \<in> set (liveCategories db). ct_id c = p \<and> ct_company c = company \<and> ct_status c = Active)"
  by (simp add: assertValidParent_def)

text \<open>The check is exact for every live category as the new parent.\<close>

lemma assertNoCycle_exact:
  assumes "category_forest db" "c \<in> set (liveCategories db)"
  shows "assertNoCycle i (ct_id c) (ct_company c) db
    = (if (ct_id c, i) \<in> (parentOf db)\<^sup>* then Inl (AppException ValidationError) else Inr ())"
  using cats.walk_exact [of db c i] assms
  by (simp add: category_forest_eq assertNoCycle_def cats_live cats_climbs cats.upOf_def [abs_def])

section \<open>Steps\<close>

inductive master_step :: "'a master_db_scheme \<Rightarrow> 'a master_db_scheme \<Rightarrow> bool" where
  create: "createCategory org company dto db = Some (Inr (c, db')) \<Longrightarrow> master_step db db'"
| update: "updateCategory i company dto' db = Inr (c, db') \<Longrightarrow> master_step db db'"
| activate: "activateCategory i company db = Inr (c, db') \<Longrightarrow> master_step db db'"
| deactivate: "deactivateCategory i company db = Inr (c, db') \<Longrightarrow> master_step db db'"
| remove: "removeCategory i company db = Inr db' \<Longrightarrow> master_step db db'"
| brand_create: "createBrand org company bdto db = Some (Inr (b, db')) \<Longrightarrow> master_step db db'"
| brand_update: "updateBrand i company bu db = Inr (b, db') \<Longrightarrow> master_step db db'"
| brand_status: "setBrandStatus st i company db = Inr (b, db') \<Longrightarrow> master_step db db'"
| brand_remove: "removeBrand i company db = Inr db' \<Longrightarrow> master_step db db'"

lemma forest_same:
  "categories db' = categories db \<Longrightarrow> masterIds db \<le> masterIds db' \<Longrightarrow> category_forest db \<Longrightarrow> category_forest db'"
  by (auto simp: category_forest_def liveCategories_def parentOf_def)

lemma forest_save:
  assumes ok: "category_forest db" and c: "findCategory i company db = Inr c"
    and same: "ct_id c' = ct_id c" "ct_company c' = ct_company c"
    and p: "\<not> ct_deleted c' \<and> (ct_parent c' = ct_parent c \<or> (\<forall>q. ct_parent c' = Some q \<longrightarrow>
        assertValidParent q company db = Inr () \<and> assertNoCycle i q company db = Inr ()))
      \<or> ct_deleted c' \<and> filter (\<lambda>x. ct_parent x = Some i) (liveCategories db) = []"
  shows "category_forest (saveCategory c' db)"
proof -
  note m = findCategory_Inr [OF c]
  have fo: "cats.forest_ok db" and ids: "\<forall>c \<in> set (categories db). ct_id c < masterIds db"
    using ok by (simp_all add: category_forest_eq)
  have new: "(\<exists>m \<in> set (cats.live db). ct_id m = q \<and> ct_company m = ct_company c') \<and> (q, ct_id c) \<notin> (cats.climbs db)\<^sup>*"
    if "assertValidParent q company db = Inr ()" "assertNoCycle i q company db = Inr ()" for q
  proof -
    from that(1) obtain x where x: "x \<in> set (liveCategories db)" "ct_id x = q" "ct_company x = company"
      by (auto simp: assertValidParent_Inr)
    have "(q, i) \<notin> (parentOf db)\<^sup>*" using assertNoCycle_exact [OF ok x(1), of i] that(2) x by (auto split: if_splits)
    then show ?thesis using x m same(2) by (auto simp: cats_live cats_climbs)
  qed
  have "cats.forest_ok (saveCategory c' db)"
  proof (rule cats.save_ok [OF fo _ same])
    show "c \<in> set (cats.live db)" using m by (simp add: cats_live)
    show "\<not> ct_deleted c' \<and> (ct_parent c' = ct_parent c \<or> cats.rooted db c' \<and> (\<forall>q. ct_parent c' = Some q \<longrightarrow> (q, ct_id c) \<notin> (cats.climbs db)\<^sup>*))
      \<or> ct_deleted c' \<and> (\<forall>m \<in> set (cats.live db). ct_parent m \<noteq> Some (ct_id c))"
      using p
    proof (elim disjE conjE)
      assume a: "\<not> ct_deleted c'" and q: "\<forall>q. ct_parent c' = Some q \<longrightarrow>
        assertValidParent q company db = Inr () \<and> assertNoCycle i q company db = Inr ()"
      then show ?thesis using new unfolding cats.rooted_def by blast
    qed (use m in \<open>auto simp: cats_live filter_empty_conv\<close>)
  qed
  moreover have "\<forall>x \<in> set (categories (saveCategory c' db)). ct_id x < masterIds (saveCategory c' db)"
    using ids m live_category [of c db] same(1) by (auto simp: saveCategory_def)
  ultimately show ?thesis by (simp add: category_forest_eq)
qed

lemma updateCategoryRead_parent:
  assumes "updateCategoryRead i company dto db = Inr c'"
  shows "\<exists>c. findCategory i company db = Inr c \<and> ct_id c' = ct_id c \<and> ct_company c' = ct_company c \<and> ct_deleted c' = ct_deleted c
    \<and> (ct_parent c' = ct_parent c \<or> (\<forall>q. ct_parent c' = Some q \<longrightarrow>
        assertValidParent q company db = Inr () \<and> assertNoCycle i q company db = Inr ()))"
proof (cases "ku_parent dto")
  case None
  with assms show ?thesis by (auto simp: updateCategoryRead_def)
next
  case (Some p)
  show ?thesis
  proof (cases p)
    case None
    with assms Some show ?thesis by (auto simp: updateCategoryRead_def)
  next
    case (Some q)
    with assms \<open>ku_parent dto = Some p\<close> show ?thesis by (auto simp: updateCategoryRead_def split: if_splits)
  qed
qed

lemma createCategory_Inr:
  assumes "createCategory org company dto db = Some (Inr (c, db'))"
  shows "(\<forall>p. kc_parent dto = Some p \<longrightarrow> assertValidParent p company db = Inr ())
    \<and> ct_id c = masterIds db \<and> ct_company c = company \<and> ct_parent c = kc_parent dto \<and> \<not> ct_deleted c
    \<and> resolveCreateCode ''CAT-'' (categoryCodeTaken company db) (kc_code dto) (kc_name dto) = Some (Inr (ct_code c))
    \<and> db' = appendCategory c db \<and> (\<forall>x \<in> set (categories db). ct_company x = company \<longrightarrow> ct_code x \<noteq> ct_code c)"
proof -
  let ?v = "andThen (assertActiveCompany org company) (\<lambda>_.
           case kc_parent dto of None \<Rightarrow> Inr () | Some p \<Rightarrow> assertValidParent p company db)"
  from assms have v: "?v = Inr ()" unfolding createCategory_def by (cases ?v) simp_all
  have p: "\<forall>p. kc_parent dto = Some p \<longrightarrow> assertValidParent p company db = Inr ()" using v by auto
  from assms v obtain r where r: "resolveCreateCode ''CAT-'' (categoryCodeTaken company db) (kc_code dto) (kc_name dto) = Some r"
    and 1: "andThen r (\<lambda>code.
            let c = \<lparr>ct_id = masterIds db, ct_company = company, ct_code = code, ct_name = kc_name dto, ct_description = kc_description dto,
                  ct_parent = kc_parent dto, ct_status = Active,
                  ct_sortOrder = (case kc_sortOrder dto of None \<Rightarrow> 0 | Some n \<Rightarrow> n), ct_deleted = False\<rparr>
            in andThen (insertCategory c db) (\<lambda>db'. Inr (c, db'))) = Inr (c, db')"
    unfolding createCategory_def v by (auto simp del: andThen_Inr_iff)
  from 1 obtain code where code: "r = Inr code" and c: "c = \<lparr>ct_id = masterIds db, ct_company = company, ct_code = code,
      ct_name = kc_name dto, ct_description = kc_description dto, ct_parent = kc_parent dto, ct_status = Active,
      ct_sortOrder = (case kc_sortOrder dto of None \<Rightarrow> 0 | Some n \<Rightarrow> n), ct_deleted = False\<rparr>"
    and i: "insertCategory c db = Inr db'" unfolding Let_def andThen_Inr_iff by blast
  from i have "db' = appendCategory c db" "\<forall>x \<in> set (categories db). ct_company x = ct_company c \<longrightarrow> ct_code x \<noteq> ct_code c"
    by (auto simp: insertCategory_def split: if_splits)
  with p r code c show ?thesis by simp
qed

lemma master_step_forest:
  assumes step: "master_step db db'" and ok: "category_forest db"
  shows "category_forest db'"
  using step
proof cases
  case (create org company dto c)
  note i = createCategory_Inr [OF create]
  have "cats.forest_ok (appendCategory c db)"
  proof (rule cats.insert_ok)
    show "ct_id c \<notin> ct_id ` set (categories db)" using ok i by (auto simp: category_forest_def)
    show "cats.rooted db c" using i by (auto simp: cats.rooted_def cats_live assertValidParent_Inr)
  qed (use ok i in \<open>simp_all add: category_forest_eq\<close>)
  then show ?thesis using ok i by (auto simp: category_forest_eq appendCategory_def)
next
  case (update i company dto c)
  then obtain c where "updateCategoryRead i company dto db = Inr c" and db': "db' = saveCategory c db"
    by (auto simp: updateCategory_def)
  from updateCategoryRead_parent [OF this(1)] show ?thesis unfolding db'
    using findCategory_Inr live_category by (elim exE conjE, intro forest_save [OF ok]) (assumption | fast)+
next
  case (activate i company c)
  then obtain c where "findCategory i company db = Inr c" "db' = saveCategory (c\<lparr>ct_status := Active\<rparr>) db"
    by (auto simp: activateCategory_def Let_def)
  then show ?thesis using findCategory_Inr [of i company db c] live_category [of c db] by (auto intro: forest_save [OF ok])
next
  case (deactivate i company c)
  then obtain c where "findCategory i company db = Inr c" "db' = saveCategory (c\<lparr>ct_status := Inactive\<rparr>) db"
    by (auto simp: deactivateCategory_def Let_def)
  then show ?thesis using findCategory_Inr [of i company db c] live_category [of c db] by (auto intro: forest_save [OF ok])
next
  case (remove i company)
  then obtain c where "findCategory i company db = Inr c" "db' = saveCategory (c\<lparr>ct_deleted := True\<rparr>) db"
    "filter (\<lambda>x. ct_parent x = Some i) (liveCategories db) = []"
    by (auto simp: removeCategory_def split: if_splits)
  then show ?thesis by (auto intro: forest_save [OF ok])
next
  case (brand_create org company bdto b)
  then show ?thesis
    by (intro forest_same [OF _ _ ok]) (auto simp: createBrand_def insertBrand_def Let_def split: sum.splits if_splits)
next
  case (brand_update i company bu b)
  then show ?thesis by (intro forest_same [OF _ _ ok]) (auto simp: updateBrand_def saveBrand_def Let_def)
next
  case (brand_status st i company b)
  then show ?thesis by (intro forest_same [OF _ _ ok]) (auto simp: setBrandStatus_def saveBrand_def Let_def)
next
  case (brand_remove i company)
  then show ?thesis by (intro forest_same [OF _ _ ok]) (auto simp: removeBrand_def saveBrand_def split: if_splits)
qed

lemma master_steps_forest: "master_step\<^sup>*\<^sup>* db db' \<Longrightarrow> category_forest db \<Longrightarrow> category_forest db'"
  by (induction rule: rtranclp_induct) (use master_step_forest in blast)+

section \<open>The tree stays a tree\<close>

text \<open>C33: whatever requests on categories and brands are served, the live categories form a forest: every parent is a
  live category of the same company and no category is above itself; and the walk of the cycle check answers
  exactly: it refuses a new parent if and only if that is the category itself or lies below it.\<close>

theorem category_tree:
  assumes "master_step\<^sup>*\<^sup>* db db'" and "category_forest db"
  shows "category_forest db'
    \<and> (\<forall>c \<in> set (liveCategories db'). assertNoCycle i (ct_id c) (ct_company c) db'
        = (if (ct_id c, i) \<in> (parentOf db')\<^sup>* then Inl (AppException ValidationError) else Inr ()))"
  using master_steps_forest [OF assms] assertNoCycle_exact by blast

definition demo_tree :: master_db where
  "demo_tree = \<lparr>categories =
     [\<lparr>ct_id = 1, ct_company = 1, ct_code = ''CAT-TOPS'', ct_name = ''Tops'', ct_description = None, ct_parent = None, ct_status = Active,
        ct_sortOrder = 0, ct_deleted = False\<rparr>,
      \<lparr>ct_id = 2, ct_company = 1, ct_code = ''CAT-TEES'', ct_name = ''Tees'', ct_description = None, ct_parent = None, ct_status = Active,
        ct_sortOrder = 0, ct_deleted = False\<rparr>], brands = [], productRows = [], masterIds = 3\<rparr>"

definition demo_under :: "id \<Rightarrow> category_update_dto" where
  "demo_under p = \<lparr>ku_name = None, ku_description = None, ku_parent = Some (Some p), ku_sortOrder = None\<rparr>"

definition demo_tees :: category where
  "demo_tees = \<lparr>ct_id = 2, ct_company = 1, ct_code = ''CAT-TEES'', ct_name = ''Tees'', ct_description = None, ct_parent = Some 1, ct_status = Active,
     ct_sortOrder = 0, ct_deleted = False\<rparr>"

lemma demo_tree_forest: "category_forest demo_tree"
proof -
  have "parentOf demo_tree = {}" by (auto simp: parentOf_def liveCategories_def demo_tree_def)
  then have "acyclic (parentOf demo_tree)" by (simp add: acyclic_def)
  then show ?thesis by (simp add: category_forest_def demo_tree_def liveCategories_def)
qed

lemma demo_reparent: "updateCategory 2 1 (demo_under 1) demo_tree = Inr (demo_tees, saveCategory demo_tees demo_tree)"
  by code_simp

lemma category_tree_witness:
  "assertNoCycle 1 2 1 (saveCategory demo_tees demo_tree) = Inl (AppException ValidationError)"
proof -
  let ?db = "saveCategory demo_tees demo_tree"
  have m: "demo_tees \<in> set (liveCategories ?db)" by (simp add: liveCategories_def saveCategory_def demo_tree_def demo_tees_def)
  then have "(ct_id demo_tees, 1) \<in> parentOf ?db" unfolding parentOf_def by (force simp: demo_tees_def)
  with category_tree [OF r_into_rtranclp [where r = master_step, OF master_step.update [OF demo_reparent]] demo_tree_forest, of 1] m
  show ?thesis by (auto simp: demo_tees_def r_into_rtrancl)
qed

section \<open>A free code is found\<close>

lemma taken_codes:
  "finite {c. categoryCodeTaken company db c}" "card {c. categoryCodeTaken company db c} \<le> length (categories db)"
  "finite {c. brandCodeTaken company db c}" "card {c. brandCodeTaken company db c} \<le> length (brands db)"
proof -
  have s: "{c. categoryCodeTaken company db c} \<subseteq> ct_code ` set (categories db)"
    by (auto simp: categoryCodeTaken_def liveCategories_def)
  show "finite {c. categoryCodeTaken company db c}" by (rule finite_subset [OF s]) simp
  show "card {c. categoryCodeTaken company db c} \<le> length (categories db)"
    using card_mono [OF _ s] card_image_le [of "set (categories db)" ct_code] card_length [of "categories db"] by fastforce
  have b: "{c. brandCodeTaken company db c} \<subseteq> bd_code ` set (brands db)" by (auto simp: brandCodeTaken_def)
  show "finite {c. brandCodeTaken company db c}" by (rule finite_subset [OF b]) simp
  show "card {c. brandCodeTaken company db c} \<le> length (brands db)"
    using card_mono [OF _ b] card_image_le [of "set (brands db)" bd_code] card_length [of "brands db"] by fastforce
qed

lemma resolve_ends: "finite {c. taken c} \<Longrightarrow> \<exists>r. resolveCreateCode prefix taken code name = Some r"
  using generateUniqueCode_ends [of taken prefix name] by (auto simp: resolveCreateCode_def Let_def)

text \<open>A search among at most k taken codes: the code it ends on is not taken, it is reached after at most k + 1
  candidates, and it fits a column of 50 characters.\<close>

definition found_code :: "string \<Rightarrow> (string \<Rightarrow> bool) \<Rightarrow> nat \<Rightarrow> string \<Rightarrow> bool" where
  "found_code prefix taken k name \<longleftrightarrow> (\<exists>code n. generateUniqueCode prefix taken name = Some code \<and> \<not> taken code
     \<and> n \<le> Suc k \<and> code = candidate (buildBaseCode prefix name) n \<and> (k + 3 < 10 ^ 49 \<longrightarrow> length code \<le> 50))"

lemma search_finds:
  assumes "finite {c. taken c}" "card {c. taken c} \<le> k" "length prefix \<le> 46"
  shows "found_code prefix taken k name"
proof -
  obtain code n where c: "generateUniqueCode prefix taken name = Some code" "\<not> taken code"
    "n \<le> Suc (card {c. taken c})" "code = candidate (buildBaseCode prefix name) n"
    "card {c. taken c} + 3 < 10 ^ 49 \<longrightarrow> length code \<le> 50"
    using generateUniqueCode_ends [OF assms(1), of prefix name] assms(3) by auto
  have "n \<le> Suc k" using c(3) assms(2) by linarith
  moreover have "k + 3 < 10 ^ 49 \<longrightarrow> length code \<le> 50"
    using c(5) assms(2) by (meson add_le_mono1 order_le_less_trans)
  ultimately show ?thesis unfolding found_code_def using c(1,2,4) by blast
qed

text \<open>C34: the search for a code always ends, whatever codes exist: every request to create a category or a brand is
  answered. For both, the generated code is held by no live row of the company, is reached after at most one candidate
  more than there are rows, and has at most the 50 characters of its column as long as there are fewer than 10 to the 49
  rows less three. Only live rows are searched: the code may still be that of a deleted row, which the unique index
  refuses (lemma deleted_code_blocks).\<close>

theorem code_search_ends:
  "(\<exists>r. createCategory org company dto db = Some r) \<and> (\<exists>r. createBrand org company bdto db = Some r)
    \<and> (\<exists>code n. generateUniqueCode ''CAT-'' (categoryCodeTaken company db) name = Some code
        \<and> (\<forall>c \<in> set (categories db). ct_company c = company \<and> ct_code c = code \<longrightarrow> ct_deleted c)
        \<and> n \<le> Suc (length (categories db)) \<and> code = candidate (buildBaseCode ''CAT-'' name) n
        \<and> (length (categories db) + 3 < 10 ^ 49 \<longrightarrow> length code \<le> 50))
    \<and> (\<exists>code n. generateUniqueCode ''BR-'' (brandCodeTaken company db) name = Some code
        \<and> (\<forall>b \<in> set (brands db). bd_company b = company \<and> bd_code b = code \<longrightarrow> bd_deleted b)
        \<and> n \<le> Suc (length (brands db)) \<and> code = candidate (buildBaseCode ''BR-'' name) n
        \<and> (length (brands db) + 3 < 10 ^ 49 \<longrightarrow> length code \<le> 50))"
proof (intro conjI)
  show "\<exists>r. createCategory org company dto db = Some r"
    using resolve_ends [OF taken_codes(1) [of company db], of "''CAT-''" "kc_code dto" "kc_name dto"]
    unfolding createCategory_def by (elim exE, simp split: sum.split)
  show "\<exists>r. createBrand org company bdto db = Some r"
    using resolve_ends [OF taken_codes(3) [of company db], of "''BR-''" "kb_code bdto" "kb_name bdto"]
    unfolding createBrand_def by (elim exE, simp split: sum.split)
  have live: "categoryCodeTaken company db code
      \<longleftrightarrow> \<not> (\<forall>c \<in> set (categories db). ct_company c = company \<and> ct_code c = code \<longrightarrow> ct_deleted c)"
    "brandCodeTaken company db code
      \<longleftrightarrow> \<not> (\<forall>b \<in> set (brands db). bd_company b = company \<and> bd_code b = code \<longrightarrow> bd_deleted b)" for code
    by (auto simp: categoryCodeTaken_def liveCategories_def brandCodeTaken_def)
  show "\<exists>code n. generateUniqueCode ''CAT-'' (categoryCodeTaken company db) name = Some code
        \<and> (\<forall>c \<in> set (categories db). ct_company c = company \<and> ct_code c = code \<longrightarrow> ct_deleted c)
        \<and> n \<le> Suc (length (categories db)) \<and> code = candidate (buildBaseCode ''CAT-'' name) n
        \<and> (length (categories db) + 3 < 10 ^ 49 \<longrightarrow> length code \<le> 50)"
    using search_finds [OF taken_codes(1,2) [of company db], of "''CAT-''" name]
    unfolding found_code_def live(1) not_not by simp
  show "\<exists>code n. generateUniqueCode ''BR-'' (brandCodeTaken company db) name = Some code
        \<and> (\<forall>b \<in> set (brands db). bd_company b = company \<and> bd_code b = code \<longrightarrow> bd_deleted b)
        \<and> n \<le> Suc (length (brands db)) \<and> code = candidate (buildBaseCode ''BR-'' name) n
        \<and> (length (brands db) + 3 < 10 ^ 49 \<longrightarrow> length code \<le> 50)"
    using search_finds [OF taken_codes(3,4) [of company db], of "''BR-''" name]
    unfolding found_code_def live(2) not_not by simp
qed

lemma code_search_ends_witness:
  "\<exists>code. generateUniqueCode ''CAT-'' (categoryCodeTaken 1 demo_tree) ''Tees'' = Some code \<and> length code \<le> 50
    \<and> code \<noteq> ''CAT-TEES''"
proof -
  have "length (categories demo_tree) + 3 < 10 ^ 49" by (simp add: demo_tree_def)
  moreover have "\<not> (\<forall>c \<in> set (categories demo_tree). ct_company c = 1 \<and> ct_code c = ''CAT-TEES'' \<longrightarrow> ct_deleted c)"
    by (simp add: demo_tree_def)
  moreover obtain code n where
    "generateUniqueCode ''CAT-'' (categoryCodeTaken 1 demo_tree) ''Tees'' = Some code"
    "\<forall>c \<in> set (categories demo_tree). ct_company c = 1 \<and> ct_code c = code \<longrightarrow> ct_deleted c"
    "length (categories demo_tree) + 3 < 10 ^ 49 \<longrightarrow> length code \<le> 50"
    using code_search_ends [of undefined 1 undefined demo_tree undefined "''Tees''"] by (elim conjE exE)
  ultimately show ?thesis by auto
qed

text \<open>The second category of a name takes the suffix 2.\<close>

lemma second_tees: "generateUniqueCode ''CAT-'' (categoryCodeTaken 1 demo_tree) ''Tees'' = Some ''CAT-TEES-2''"
proof -
  have b: "buildBaseCode ''CAT-'' ''Tees'' = ''CAT-TEES''" by code_simp
  have c: "candidate ''CAT-TEES'' (Suc 0) = ''CAT-TEES-2''" by code_simp
  have t: "categoryCodeTaken 1 demo_tree ''CAT-TEES''" "\<not> categoryCodeTaken 1 demo_tree ''CAT-TEES-2''" by code_simp+
  have "nextFreeCode (categoryCodeTaken 1 demo_tree) ''CAT-TEES'' ''CAT-TEES'' 2 = Some (candidate ''CAT-TEES'' (Suc 0))"
  proof (rule nextFreeCode_stops)
    show "\<forall>i < Suc 0. categoryCodeTaken 1 demo_tree (candidate ''CAT-TEES'' i)" using t(1) by simp
    show "\<not> categoryCodeTaken 1 demo_tree (candidate ''CAT-TEES'' (Suc 0))" unfolding c by (rule t(2))
  qed
  then show ?thesis unfolding generateUniqueCode_def b c Let_def .
qed

section \<open>What the services do not prevent\<close>

text \<open>The check of a new parent and the save are two statements without a lock. Two updates that interleave, each
  moving one category below the other, both pass the check and leave a cycle.\<close>

lemma reparent_race_cycles:
  "\<exists>c d. updateCategoryRead 2 1 (demo_under 1) demo_tree = Inr c \<and> updateCategoryRead 1 1 (demo_under 2) demo_tree = Inr d
    \<and> \<not> category_forest (saveCategory d (saveCategory c demo_tree))"
proof -
  let ?c = "(categories demo_tree ! 1)\<lparr>ct_parent := Some 1\<rparr>" and ?d = "(categories demo_tree ! 0)\<lparr>ct_parent := Some 2\<rparr>"
  have "updateCategoryRead 2 1 (demo_under 1) demo_tree = Inr ?c" "updateCategoryRead 1 1 (demo_under 2) demo_tree = Inr ?d"
    by code_simp+
  moreover have "liveCategories (saveCategory ?d (saveCategory ?c demo_tree)) = [?d, ?c]"
    by (simp add: liveCategories_def saveCategory_def demo_tree_def)
  then have m: "?d \<in> set (liveCategories (saveCategory ?d (saveCategory ?c demo_tree)))"
    "?c \<in> set (liveCategories (saveCategory ?d (saveCategory ?c demo_tree)))" by simp_all
  have "(ct_id ?d, 2) \<in> parentOf (saveCategory ?d (saveCategory ?c demo_tree))"
    "(ct_id ?c, 1) \<in> parentOf (saveCategory ?d (saveCategory ?c demo_tree))"
    using m unfolding parentOf_def by (fastforce, fastforce)
  then have "(1, 2) \<in> parentOf (saveCategory ?d (saveCategory ?c demo_tree))"
    "(2, 1) \<in> parentOf (saveCategory ?d (saveCategory ?c demo_tree))"
    by (simp_all add: demo_tree_def)
  then have "(1, 1) \<in> (parentOf (saveCategory ?d (saveCategory ?c demo_tree)))\<^sup>+" by (meson r_into_trancl trancl_trans)
  then have "\<not> category_forest (saveCategory ?d (saveCategory ?c demo_tree))" by (auto simp: category_forest_def acyclic_def)
  ultimately show ?thesis by blast
qed

text \<open>The search skips deleted categories, the unique index does not: after a category was deleted, creating one of the
  same name fails in the database.\<close>

lemma deleted_code_blocks:
  assumes c: "c \<in> set (categories db)" "ct_company c = company" "ct_code c = buildBaseCode ''CAT-'' name"
    and dead: "\<not> categoryCodeTaken company db (buildBaseCode ''CAT-'' name)"
    and ok: "assertActiveCompany org company = Inr ()"
  shows "createCategory org company \<lparr>kc_code = None, kc_name = name, kc_description = None, kc_parent = None, kc_sortOrder = None\<rparr> db
    = Some (Inl (DupEntry ''company_code''))"
proof -
  have "generateUniqueCode ''CAT-'' (categoryCodeTaken company db) name = Some (candidate (buildBaseCode ''CAT-'' name) 0)"
    unfolding generateUniqueCode_def Let_def by (rule nextFreeCode_stops) (use dead in simp_all)
  then have "resolveCreateCode ''CAT-'' (categoryCodeTaken company db) None name = Some (Inr (ct_code c))"
    by (simp add: resolveCreateCode_def c)
  moreover have "\<exists>x \<in> set (categories db). ct_company x = company \<and> ct_code x = ct_code c" using c by blast
  ultimately show ?thesis by (simp add: createCategory_def insertCategory_def ok)
qed

end
