(* ===== verification/Stock_Refinement.thy ===== *)
theory Stock_Refinement
  imports Payables_Theorems
begin

text \<open>
  The contract of the stock: shelves with a quantity for each warehouse and variant, a journal of changes, and six
  kinds of events that move goods. The services that write stock rows and movements (adjustments, transfers, sale
  confirmation, return confirmation, goods receipts, returns to suppliers) are shown to implement it: every run of
  theirs, abstracted to shelves and journal, is a run of the contract with the same events.
\<close>

section \<open>The contract\<close>

record stock_spec =
  shelf :: "id \<Rightarrow> id \<Rightarrow> int"
  entries :: "(id \<times> id \<times> int) list"

text \<open>Lines are variants with quantities; one variant may stand in several lines.\<close>

datatype goods_event =
    Adjusted id id int
  | Transferred id id "(id \<times> int) list"
  | Issued id "(id \<times> int) list"
  | Restocked id "(id \<times> int) list"
  | Received id "(id \<times> int) list"
  | SentBack id "(id \<times> int) list"

definition quantity_of :: "(id \<times> int) list \<Rightarrow> id \<Rightarrow> int" where
  "quantity_of ls v = sum_list (map snd (filter (\<lambda>l. fst l = v) ls))"

fun effect :: "goods_event \<Rightarrow> id \<Rightarrow> id \<Rightarrow> int" where
  "effect (Adjusted a b d) w v = (if w = a \<and> v = b then d else 0)"
| "effect (Transferred s d ls) w v = (if w = d then quantity_of ls v else 0) - (if w = s then quantity_of ls v else 0)"
| "effect (Issued a ls) w v = (if w = a then - quantity_of ls v else 0)"
| "effect (Restocked a ls) w v = (if w = a then quantity_of ls v else 0)"
| "effect (Received a ls) w v = (if w = a then quantity_of ls v else 0)"
| "effect (SentBack a ls) w v = (if w = a then - quantity_of ls v else 0)"

text \<open>What the shelves must hold. Transfers and sales ask for each line alone, returns to suppliers for all lines of a
  variant together.\<close>

fun permitted :: "(id \<Rightarrow> id \<Rightarrow> int) \<Rightarrow> goods_event \<Rightarrow> bool" where
  "permitted sh (Adjusted a b d) \<longleftrightarrow> d \<noteq> 0 \<and> 0 \<le> sh a b + d"
| "permitted sh (Transferred s d ls) \<longleftrightarrow> s \<noteq> d \<and> (\<forall>l \<in> set ls. snd l \<le> sh s (fst l))"
| "permitted sh (Issued a ls) \<longleftrightarrow> (\<forall>l \<in> set ls. snd l \<le> sh a (fst l))"
| "permitted sh (Restocked a ls) \<longleftrightarrow> True"
| "permitted sh (Received a ls) \<longleftrightarrow> True"
| "permitted sh (SentBack a ls) \<longleftrightarrow> (\<forall>l \<in> set ls. quantity_of ls (fst l) \<le> sh a (fst l))"

definition booked :: "(id \<times> id \<times> int) list \<Rightarrow> id \<Rightarrow> id \<Rightarrow> int" where
  "booked es w v = sum_list (map (\<lambda>(_, _, d). d) (filter (\<lambda>(x, y, _). x = w \<and> y = v) es))"

inductive goods_step :: "stock_spec \<Rightarrow> goods_event \<Rightarrow> stock_spec \<Rightarrow> bool" where
  move: "permitted (shelf s) e \<Longrightarrow> \<forall>w v. shelf s' w v = shelf s w v + effect e w v \<Longrightarrow>
    entries s' = entries s @ new \<Longrightarrow> \<forall>w v. booked new w v = effect e w v \<Longrightarrow> goods_step s e s'"

definition balanced :: "stock_spec \<Rightarrow> bool" where
  "balanced s \<longleftrightarrow> (\<forall>w v. shelf s w v = booked (entries s) w v)"

lemma booked_append [simp]: "booked (es @ fs) w v = booked es w v + booked fs w v"
  by (simp add: booked_def)

lemma goods_step_balanced: "goods_step s e s' \<Longrightarrow> balanced s \<Longrightarrow> balanced s'"
  by (auto simp: balanced_def elim!: goods_step.cases)

lemma goods_step_shelf: "goods_step s e s' \<Longrightarrow> shelf s' w v = shelf s w v + effect e w v"
  by (auto elim: goods_step.cases)

section \<open>Runs and simulations\<close>

inductive runs :: "('s \<Rightarrow> 'e \<Rightarrow> 's \<Rightarrow> bool) \<Rightarrow> 's \<Rightarrow> 'e list \<Rightarrow> 's \<Rightarrow> bool" for R where
  stop: "runs R s [] s"
| go: "R s e t \<Longrightarrow> runs R t es u \<Longrightarrow> runs R s (e # es) u"

lemma goods_runs:
  assumes "runs goods_step s es s'"
  shows "shelf s' w v = shelf s w v + sum_list (map (\<lambda>e. effect e w v) es)" and "balanced s \<Longrightarrow> balanced s'"
  using assms by (induction rule: runs.induct) (auto simp: goods_step_shelf intro: goods_step_balanced)

locale forward_simulation =
  fixes low :: "'c \<Rightarrow> 'e \<Rightarrow> 'c \<Rightarrow> bool" and high :: "'a \<Rightarrow> 'e \<Rightarrow> 'a \<Rightarrow> bool" and up :: "'c \<Rightarrow> 'a"
  assumes simulates: "low s e t \<Longrightarrow> high (up s) e (up t)"
begin

lemma runs_up: "runs low s es t \<Longrightarrow> runs high (up s) es (up t)"
  by (induction rule: runs.induct) (auto intro: runs.intros simulates)

end

section \<open>The services as the implementation\<close>

definition goods_of :: "'a stock_db_scheme \<Rightarrow> stock_spec" where
  "goods_of db = \<lparr>shelf = level db,
     entries = map (\<lambda>m. (mv_warehouse m, mv_variant m, mv_change m)) (stockMovements db)\<rparr>"

definition lines_of :: "('i \<Rightarrow> id) \<Rightarrow> ('i \<Rightarrow> int) \<Rightarrow> 'i list \<Rightarrow> (id \<times> int) list" where
  "lines_of var q items = map (\<lambda>i. (var i, q i)) items"

text \<open>The served requests that write stock, each with the event it stands for. A receipt adds its rows at the end of
  their table; a return confirmation may have to resolve the warehouse of its sale.\<close>

inductive stock_run :: "'a payables_db_scheme \<Rightarrow> goods_event \<Rightarrow> 'a payables_db_scheme \<Rightarrow> bool" where
  adjust: "createAdjustment org cat company user dto now db = Inr (a, db') \<Longrightarrow>
    stock_run db (Adjusted (ad_warehouse dto) (ad_variant dto) (ad_change dto)) db'"
| transfer: "createTransfer org cat company user tdto now db = Inr (t, db') \<Longrightarrow>
    stock_run db (Transferred (tr_source tdto) (tr_destination tdto) (lines_of td_variant td_quantity (tr_items tdto))) db'"
| confirm: "confirmSale i company user now db = Inr (s', db') \<Longrightarrow> findSaleInCompany i company db = Inr s \<Longrightarrow>
    sl_warehouse s = Some w \<Longrightarrow> stock_run db (Issued w (lines_of si_variant si_baseQuantity (itemsOfSale i db))) db'"
| restock: "confirmReturn org i company user now db = Inr (r', db') \<Longrightarrow> findReturn i company db = Inr r \<Longrightarrow>
    List.find (\<lambda>s. sl_id s = rt_sale r \<and> \<not> sl_deleted s) (sales db) = Some s \<Longrightarrow>
    resolveWarehouseIdForReturnConfirmation org s company db = Inr (w, d) \<Longrightarrow>
    stock_run db (Restocked w (lines_of ry_variant restocked (itemsOfReturn (rt_id r) db))) db'"
| receive: "createReceipt org cat company user gdto now db = Inr (g, db') \<Longrightarrow>
    stock_run db (Received (gc_warehouse gdto)
      (lines_of gi_variant receivedBase (drop (length (receiptItems db)) (receiptItems db')))) db'"
| sendback: "completePurchaseReturn i company user now db = Inr (p', db') \<Longrightarrow> findPurchaseReturn i company db = Inr p \<Longrightarrow>
    findOrder (prt_order p) company db = Inr o' \<Longrightarrow> po_warehouse o' = Some w \<Longrightarrow>
    stock_run db (SentBack w (lines_of px_variant px_quantity
      (filter (\<lambda>x. px_return x = prt_id p) (purchaseReturnItems db)))) db'"

section \<open>The simulation\<close>

lemma quantity_lines: "quantity_of (lines_of var q items) v = sum_list (map q (filter (\<lambda>i. var i = v) items))"
  by (induction items) (auto simp: quantity_of_def lines_of_def)

lemma lineDelta_quantity:
  "lineDelta a var q items w v = (if w = a then quantity_of (lines_of var q items) v else 0)"
  by (simp add: lineDelta_def quantity_lines)

lemma booked_movements:
  "booked (map (\<lambda>m. (mv_warehouse m, mv_variant m, mv_change m)) ms) w v = movementSum ms w v"
  by (induction ms) (auto simp: booked_def movementSum_def)

text \<open>Every logged change is a step of the contract.\<close>

lemma logged_step:
  assumes "logs db db' ms" "\<And>w v. movementSum ms w v = effect e w v" "permitted (level db) e"
  shows "goods_step (goods_of db) e (goods_of db')"
  using assms by (intro goods_step.move) (auto simp: goods_of_def logs_def booked_movements)

lemma transferDelta_quantity:
  "transferDelta s d items w v = effect (Transferred s d (lines_of td_variant td_quantity items)) w v"
  by (induction items) (auto simp: transferDelta_def itemDelta_def lines_of_def quantity_of_def)

text \<open>After the stock loop of a return no row it touched is negative.\<close>

lemma sendBacks_covered:
  "forEach (sendBack w returnId user now) items db = Inr d \<Longrightarrow> v \<in> px_variant ` set items \<Longrightarrow> 0 \<le> level d w v"
proof (induction items arbitrary: db)
  case (Cons i items)
  let ?e = "backTurn w returnId user now i db"
  from Cons.prems(1) have q: "px_quantity i \<le> level db w (px_variant i)"
    and rest: "forEach (sendBack w returnId user now) items ?e = Inr d" by (auto simp: sendBack_Inr)
  show ?case
  proof (cases "v \<in> px_variant ` set items")
    case False
    then have v: "v = px_variant i" using Cons.prems(2) by auto
    have "moves_row w (px_variant i) (- px_quantity i) db ?e" by (rule back_turns.turn_moves) simp
    then have "0 \<le> level ?e w v" using q v by (auto simp: moves_row_def logs_def)
    moreover have "level d w v = level ?e w v"
      using moves_rows_logs(2) [OF sendBacks(1) [OF rest]] lineDelta_none [of v px_variant items] False by simp
    ultimately show ?thesis by simp
  qed (rule Cons.IH [OF rest])
qed simp

lemma receivedBase_truncate [simp]:
  "receivedBase (receipt_row.truncate x) = receivedBase x" "gi_variant (receipt_row.truncate x) = gi_variant x"
  by (simp_all add: receivedBase_def receipt_row.defs)

lemma adjust_simulates:
  assumes "createAdjustment org cat company user dto now db = Inr (a, db')"
  shows "goods_step (goods_of db) (Adjusted (ad_warehouse dto) (ad_variant dto) (ad_change dto)) (goods_of db')"
proof -
  note l = applyAdjustment_logs [OF createAdjustment_applies [OF assms]]
  have "ad_change dto \<noteq> 0" using assms by (auto simp: createAdjustment_def split: if_splits)
  then show ?thesis
    using l by (intro logged_step [OF l(1)]) (auto simp: logs_def)
qed

lemma transfer_simulates:
  assumes "createTransfer org cat company user dto now db = Inr (t, db')"
  shows "goods_step (goods_of db)
    (Transferred (tr_source dto) (tr_destination dto) (lines_of td_variant td_quantity (tr_items dto))) (goods_of db')"
proof -
  from createTransfer_applies [OF assms] have sd: "tr_source dto \<noteq> tr_destination dto"
    and a: "applyTransfer cat company user dto now db = Inr (t, db')" by auto
  from applyTransfer_laws(1) [OF a sd] obtain ms where "logs db db' ms"
    "\<forall>w v. movementSum ms w v = transferDelta (tr_source dto) (tr_destination dto) (tr_items dto) w v" by blast
  then show ?thesis
    using applyTransfer_laws(2) [OF a sd] sd
    by (intro logged_step [of db db' ms]) (auto simp: transferDelta_quantity simp del: effect.simps, auto simp: lines_of_def)
qed

lemma confirm_simulates:
  assumes "confirmSale i company user now db = Inr (s', db')" "findSaleInCompany i company db = Inr s" "sl_warehouse s = Some w"
  shows "goods_step (goods_of db) (Issued w (lines_of si_variant si_baseQuantity (itemsOfSale i db))) (goods_of db')"
proof -
  from confirmSale_cases [OF assms(1)] assms(2,3) have c: "confirmRun (s, w, itemsOfSale i db) user now db = Inr (s', db')"
    by auto
  from confirmRun_laws(1) [OF c] obtain ms where "logs db db' ms" "\<forall>x v. movementSum ms x v = issueDelta w (itemsOfSale i db) x v"
    by blast
  then show ?thesis
    using confirmRun_laws(2) [OF c]
    by (intro logged_step [of db db' ms]) (auto simp: issueDelta_def lineDelta_minus lineDelta_quantity, auto simp: lines_of_def)
qed

lemma restock_simulates:
  assumes "confirmReturn org i company user now db = Inr (r', db')" "findReturn i company db = Inr r"
    and "List.find (\<lambda>s. sl_id s = rt_sale r \<and> \<not> sl_deleted s) (sales db) = Some s"
    and "resolveWarehouseIdForReturnConfirmation org s company db = Inr (w, d)"
  shows "goods_step (goods_of db) (Restocked w (lines_of ry_variant restocked (itemsOfReturn (rt_id r) db))) (goods_of db')"
proof -
  from confirmReturn_laws [OF assms(1)] assms(2-4) obtain ms where "logs db db' ms"
    "\<forall>x v. movementSum ms x v = lineDelta w ry_variant restocked (itemsOfReturn (rt_id r) db) x v" by auto
  then show ?thesis by (intro logged_step [of db db' ms]) (simp_all add: lineDelta_quantity)
qed

lemma receive_simulates:
  assumes "createReceipt org cat company user dto now db = Inr (g, db')"
  shows "goods_step (goods_of db) (Received (gc_warehouse dto)
      (lines_of gi_variant receivedBase (drop (length (receiptItems db)) (receiptItems db')))) (goods_of db')"
proof -
  from createReceipt_laws [OF assms] obtain rows ms new where ms: "logs db db' ms"
    "\<forall>x v. movementSum ms x v = lineDelta (gc_warehouse dto) gi_variant receivedBase rows x v"
    and n: "receiptItems db' = receiptItems db @ new" "map receipt_row.truncate new = rows" by blast
  have "lines_of gi_variant receivedBase rows = lines_of gi_variant receivedBase new"
    by (simp add: lines_of_def n(2) [symmetric])
  then show ?thesis using ms by (intro logged_step [of db db' ms]) (simp_all add: lineDelta_quantity n(1))
qed

lemma sendback_simulates:
  assumes "completePurchaseReturn i company user now db = Inr (p', db')" "findPurchaseReturn i company db = Inr p"
    "findOrder (prt_order p) company db = Inr o'" "po_warehouse o' = Some w"
  shows "goods_step (goods_of db) (SentBack w (lines_of px_variant px_quantity
      (filter (\<lambda>x. px_return x = prt_id p) (purchaseReturnItems db)))) (goods_of db')"
proof -
  let ?items = "filter (\<lambda>x. px_return x = prt_id p) (purchaseReturnItems db)"
  from completePurchaseReturn_cases [OF assms(1)] assms(2-4) obtain v d where
      loop: "forEach (sendBack w (prt_id p) user now) (sort_key px_variant ?items) db = Inr d"
    and db': "db' = savePurchaseReturn p' (saveOrder (o'\<lparr>po_balance := snd (snd (snd (creditNote v p))), po_updatedBy := user\<rparr>)
        (saveInvoice (v\<lparr>iv_credited := fst (snd (snd (creditNote v p))),
           iv_balance := snd (snd (snd (creditNote v p))), iv_updatedBy := user\<rparr>) d))" by auto
  have lev: "level db' x y = level d x y" "stockMovements db' = stockMovements d" for x y
    by (simp_all add: db' savePurchaseReturn_def saveOrder_def saveInvoice_def level_def)
  have "lineDelta w px_variant (\<lambda>i. - px_quantity i) (sort_key px_variant ?items)
    = lineDelta w px_variant (\<lambda>i. - px_quantity i) ?items" by (intro ext) simp
  with sendBacks(1) [OF loop] have m: "moves_rows (lineDelta w px_variant (\<lambda>i. - px_quantity i) ?items) db d" by simp
  from moves_rows_logs(1) [OF m] obtain ms where ms: "logs db d ms"
    "\<forall>x y. movementSum ms x y = lineDelta w px_variant (\<lambda>i. - px_quantity i) ?items x y" by auto
  have "quantity_of (lines_of px_variant px_quantity ?items) v \<le> level db w v" if "v \<in> px_variant ` set ?items" for v
    using sendBacks_covered [OF loop, of v] that moves_rows_logs(2) [OF m, of w v]
    by (simp add: lineDelta_minus lineDelta_quantity)
  then have "permitted (level db) (SentBack w (lines_of px_variant px_quantity ?items))" by (auto simp: lines_of_def)
  moreover have "logs db db' ms" using ms(1) by (simp add: logs_def lev)
  ultimately show ?thesis using ms(2) by (intro logged_step [of db db' ms]) (simp_all add: lineDelta_minus lineDelta_quantity)
qed

interpretation goods: forward_simulation stock_run goods_step goods_of
proof unfold_locales
  fix db e and db' :: "'a payables_db_scheme"
  assume "stock_run db e db'"
  then show "goods_step (goods_of db) e (goods_of db')"
    by cases (simp_all add: adjust_simulates transfer_simulates confirm_simulates restock_simulates receive_simulates
        sendback_simulates del: effect.simps)
qed

text \<open>C35: the services that write stock implement the contract of the shelves: each of their runs is, event by event, a
  run of the contract, so every shelf holds what it held before plus the effects of the events, and shelves that
  agreed with the journal of movements still do.\<close>

theorem stock_refines_contract:
  assumes "runs stock_run db es db'"
  shows "runs goods_step (goods_of db) es (goods_of db')
    \<and> (\<forall>w v. level db' w v = level db w v + sum_list (map (\<lambda>e. effect e w v) es))
    \<and> (balanced (goods_of db) \<longrightarrow> balanced (goods_of db'))"
proof -
  have r: "runs goods_step (goods_of db) es (goods_of db')" by (rule goods.runs_up [OF assms])
  show ?thesis using r goods_runs(1) [OF r] goods_runs(2) [OF r] by (simp add: goods_of_def)
qed

lemma stock_refines_contract_witness:
  "\<exists>r db. completePurchaseReturn 120 1 9 ((2026, 3, 8), 1) demo_payables2 = Inr (r, db)
    \<and> runs goods_step (goods_of demo_payables2) [SentBack 2 [(20, 1)]] (goods_of db)"
proof -
  from demo_completePurchaseReturn obtain r db where
    c: "completePurchaseReturn 120 1 9 ((2026, 3, 8), 1) demo_payables2 = Inr (r, db)" by blast
  have t: "purchaseReturns demo_payables2 = [demo_supplier_return]" "purchaseReturnItems demo_payables2 = [demo_sent_back]"
    "purchaseOrders demo_payables2 = [demo_approved]"
    by (simp_all add: demo_payables2_def demo_payables1_def demo_payables0_tables)
  have f: "findPurchaseReturn 120 1 demo_payables2 = Inr demo_supplier_return"
    by (simp add: findPurchaseReturn_def t) (simp add: demo_supplier_return_def)
  have o': "findOrder (prt_order demo_supplier_return) 1 demo_payables2 = Inr demo_approved"
    by (simp add: findOrder_def t) (simp add: demo_supplier_return_def demo_approved_def demo_order_def)
  have "stock_run demo_payables2 (SentBack 2 (lines_of px_variant px_quantity
      (filter (\<lambda>x. px_return x = prt_id demo_supplier_return) (purchaseReturnItems demo_payables2)))) db"
    by (rule stock_run.sendback [OF c f o']) (simp add: demo_approved_def demo_order_def)
  then have "stock_run demo_payables2 (SentBack 2 [(20, 1)]) db"
    by (simp add: t lines_of_def) (simp add: demo_sent_back_def demo_supplier_return_def)
  then have "runs stock_run demo_payables2 [SentBack 2 [(20, 1)]] db" by (rule runs.go [OF _ runs.stop])
  from stock_refines_contract [OF this] c show ?thesis by blast
qed

end
