(* ===== verification/Chart_Of_Accounts.thy ===== *)
theory Chart_Of_Accounts
  imports Journals Forest
begin

text \<open>
  The chart of accounts (\<open>accounting/services/accounts.service.ts\<close>): creation, renaming, re-parenting with the
  cycle check, and deactivation; accounts are never deleted. The rows extend the ones the journal reads. The table
  is the second interpretation of \<open>tree_table\<close>.
\<close>

section \<open>State\<close>

datatype account_type = TAsset | TLiability | TEquity | TRevenue | TExpense

record chart_account = account +
  ca_name :: string
  ca_type :: account_type
  ca_parent :: "id option"
  ca_system :: bool

record chart_db =
  chart :: "chart_account list"
  chartIds :: id

record account_dto =
  kd_code :: string
  kd_name :: string
  kd_type :: account_type
  kd_parent :: "id option"

record account_update_dto =
  kp_name :: "string option"
  kp_parent :: "id option option"
  kp_active :: "bool option"

section \<open>Operations\<close>

definition findAccount :: "id \<Rightarrow> id \<Rightarrow> chart_db \<Rightarrow> chart_account result" where
  "findAccount i company db =
     orThrow (List.find (\<lambda>a. ac_id a = i \<and> ac_company a = company) (chart db)) (AppException NotFound)"

definition saveAccount :: "chart_account \<Rightarrow> chart_db \<Rightarrow> chart_db" where
  "saveAccount a db = db\<lparr>chart := map (\<lambda>x. if ac_id x = ac_id a then a else x) (chart db)\<rparr>"

definition appendAccount :: "chart_account \<Rightarrow> chart_db \<Rightarrow> chart_db" where
  "appendAccount a db = db\<lparr>chart := chart db @ [a], chartIds := chartIds db + 1\<rparr>"

definition assertAccountParent :: "id \<Rightarrow> id \<Rightarrow> chart_db \<Rightarrow> unit result" where
  "assertAccountParent parent company db =
     (if \<exists>a \<in> set (chart db). ac_id a = parent \<and> ac_company a = company then Inr ()
      else Inl (AppException ValidationError))"

definition assertNoAccountCycle :: "id \<Rightarrow> id \<Rightarrow> id \<Rightarrow> chart_db \<Rightarrow> unit result" where
  "assertNoAccountCycle accountId newParentId company db =
     walkUp (\<lambda>i. Option.bind (List.find (\<lambda>a. ac_id a = i) (chart db)) ca_parent) accountId
       (length (filter (\<lambda>a. ac_company a = company) (chart db))) 0 (Some newParentId)"

definition createAccount :: "org_db \<Rightarrow> id \<Rightarrow> account_dto \<Rightarrow> chart_db \<Rightarrow> (chart_account \<times> chart_db) result" where
  "createAccount org company dto db =
     andThen (assertActiveCompany org company) (\<lambda>_.
     andThen (case kd_parent dto of None \<Rightarrow> Inr () | Some p \<Rightarrow> assertAccountParent p company db) (\<lambda>_.
     if \<exists>x \<in> set (chart db). ac_company x = company \<and> ac_code x = kd_code dto then Inl (AppException Conflict)
     else
       let a = \<lparr>ac_id = chartIds db, ac_company = company, ac_code = kd_code dto, ac_active = True, ca_name = kd_name dto,
             ca_type = kd_type dto, ca_parent = kd_parent dto, ca_system = False\<rparr>
       in Inr (a, appendAccount a db)))"

definition updateAccount :: "id \<Rightarrow> id \<Rightarrow> account_update_dto \<Rightarrow> chart_db \<Rightarrow> (chart_account \<times> chart_db) result" where
  "updateAccount i company dto db =
     andThen (findAccount i company db) (\<lambda>a.
     andThen
       (case kp_parent dto of
          None \<Rightarrow> Inr a
        | Some p \<Rightarrow>
            if p = Some i then Inl (AppException ValidationError)
            else andThen
              (case p of None \<Rightarrow> Inr ()
               | Some q \<Rightarrow> andThen (assertAccountParent q company db) (\<lambda>_. assertNoAccountCycle i q company db))
              (\<lambda>_. Inr (a\<lparr>ca_parent := p\<rparr>)))
       (\<lambda>a1.
        let a2 = a1\<lparr>ca_name := (case kp_name dto of None \<Rightarrow> ca_name a1 | Some n \<Rightarrow> n),
               ac_active := (case kp_active dto of None \<Rightarrow> ac_active a1 | Some b \<Rightarrow> b)\<rparr>
        in Inr (a2, saveAccount a2 db)))"

section \<open>The forest of the accounts\<close>

interpretation ledger: tree_table chart ac_id ac_company ca_parent "\<lambda>_. False" appendAccount saveAccount
  by unfold_locales (simp_all add: appendAccount_def saveAccount_def)

definition accountAbove :: "chart_db \<Rightarrow> (id \<times> id) set" where
  "accountAbove db = {(ac_id a, p) | a p. a \<in> set (chart db) \<and> ca_parent a = Some p}"

definition chart_ok :: "chart_db \<Rightarrow> bool" where
  "chart_ok db \<longleftrightarrow> distinct (map ac_id (chart db)) \<and> (\<forall>a \<in> set (chart db). ac_id a < chartIds db)
     \<and> distinct (map (\<lambda>a. (ac_company a, ac_code a)) (chart db))
     \<and> (\<forall>a \<in> set (chart db). \<forall>p. ca_parent a = Some p \<longrightarrow>
          (\<exists>q \<in> set (chart db). ac_id q = p \<and> ac_company q = ac_company a))
     \<and> acyclic (accountAbove db)"

lemma ledger_simps: "ledger.live db = chart db" "ledger.climbs db = accountAbove db"
  by (simp_all add: ledger.live_def ledger.climbs_def accountAbove_def)

lemma chart_ok_eq:
  "chart_ok db \<longleftrightarrow> ledger.forest_ok db \<and> (\<forall>a \<in> set (chart db). ac_id a < chartIds db)
     \<and> distinct (map (\<lambda>a. (ac_company a, ac_code a)) (chart db))"
  by (auto simp: chart_ok_def ledger.forest_ok_def ledger.rooted_def ledger_simps)

lemma assertNoAccountCycle_exact:
  assumes "chart_ok db" "a \<in> set (chart db)"
  shows "assertNoAccountCycle i (ac_id a) (ac_company a) db
    = (if (ac_id a, i) \<in> (accountAbove db)\<^sup>* then Inl (AppException ValidationError) else Inr ())"
  using ledger.walk_exact [of db a i] assms
  by (simp add: chart_ok_eq assertNoAccountCycle_def ledger_simps ledger.upOf_def [abs_def])

inductive chart_step :: "chart_db \<Rightarrow> chart_db \<Rightarrow> bool" where
  create: "createAccount org company dto db = Inr (a, db') \<Longrightarrow> chart_step db db'"
| update: "updateAccount i company udto db = Inr (a, db') \<Longrightarrow> chart_step db db'"

lemma createAccount_ok:
  assumes "createAccount org company dto db = Inr (a, db')" and ok: "chart_ok db"
  shows "chart_ok db'"
proof -
  from assms(1) have p: "\<forall>p. kd_parent dto = Some p \<longrightarrow> assertAccountParent p company db = Inr ()"
    and c: "\<forall>x \<in> set (chart db). ac_company x = company \<longrightarrow> ac_code x \<noteq> kd_code dto"
    and a: "a = \<lparr>ac_id = chartIds db, ac_company = company, ac_code = kd_code dto, ac_active = True, ca_name = kd_name dto,
             ca_type = kd_type dto, ca_parent = kd_parent dto, ca_system = False\<rparr>"
    and db': "db' = appendAccount a db"
    by (auto simp: createAccount_def Let_def split: if_splits)
  have "ledger.forest_ok (appendAccount a db)"
  proof (rule ledger.insert_ok)
    show "ac_id a \<notin> ac_id ` set (chart db)" using ok by (auto simp: chart_ok_def a)
    show "ledger.rooted db a" using p by (auto simp: ledger.rooted_def ledger_simps assertAccountParent_def a split: if_splits)
  qed (use ok in \<open>simp_all add: chart_ok_eq\<close>)
  then show ?thesis using ok c by (auto simp: chart_ok_eq db' appendAccount_def a)
qed

lemma updateAccount_ok:
  assumes u: "updateAccount i company dto db = Inr (b, db')" and ok: "chart_ok db"
  shows "chart_ok db'"
proof -
  obtain a where a: "findAccount i company db = Inr a" using u by (auto simp: updateAccount_def)
  then have m: "a \<in> set (chart db)" "ac_id a = i" "ac_company a = company"
    by (auto simp: findAccount_def dest: find_SomeD)
  have db': "db' = saveAccount b db" and same: "ac_id b = ac_id a" "ac_company b = ac_company a" "ac_code b = ac_code a"
    and p: "ca_parent b = ca_parent a \<or> (\<forall>q. ca_parent b = Some q \<longrightarrow>
      assertAccountParent q company db = Inr () \<and> assertNoAccountCycle i q company db = Inr ())"
    using u a by (auto simp: updateAccount_def Let_def split: option.splits if_splits)
  have new: "(\<exists>m \<in> set (chart db). ac_id m = q \<and> ac_company m = ac_company b) \<and> (q, i) \<notin> (accountAbove db)\<^sup>*"
    if "assertAccountParent q company db = Inr ()" "assertNoAccountCycle i q company db = Inr ()" for q
  proof -
    from that(1) obtain x where x: "x \<in> set (chart db)" "ac_id x = q" "ac_company x = company"
      by (auto simp: assertAccountParent_def split: if_splits)
    then show ?thesis using assertNoAccountCycle_exact [OF ok x(1), of i] that(2) m same by (auto split: if_splits)
  qed
  have "ledger.forest_ok (saveAccount b db)"
    by (rule ledger.save_ok [where n = a])
      (use ok m same p new in \<open>auto simp: chart_ok_eq ledger_simps ledger.rooted_def\<close>)
  moreover have "map (\<lambda>x. (ac_company x, ac_code x)) (chart db') = map (\<lambda>x. (ac_company x, ac_code x)) (chart db)"
  proof -
    have "x = a" if "x \<in> set (chart db)" "ac_id x = ac_id b" for x
      using ok that m same(1) by (auto simp: chart_ok_def distinct_map dest: inj_onD)
    then show ?thesis using same by (auto simp: db' saveAccount_def)
  qed
  moreover have "\<forall>x \<in> set (chart db'). ac_id x < chartIds db'"
    using ok m same(1) by (auto simp: chart_ok_def db' saveAccount_def)
  ultimately show ?thesis using ok by (simp add: chart_ok_eq db')
qed

lemma chart_steps_ok: "chart_step\<^sup>*\<^sup>* db db' \<Longrightarrow> chart_ok db \<Longrightarrow> chart_ok db'"
  by (induction rule: rtranclp_induct) (auto elim!: chart_step.cases intro: createAccount_ok updateAccount_ok)

text \<open>Whatever requests on the chart of accounts are served, the accounts of each company form a forest with unique
  codes, and the cycle check refuses a new parent exactly when it is the account itself or lies below it.\<close>

theorem account_tree:
  assumes "chart_step\<^sup>*\<^sup>* db db'" and "chart_ok db"
  shows "chart_ok db'
    \<and> (\<forall>a \<in> set (chart db'). assertNoAccountCycle i (ac_id a) (ac_company a) db'
        = (if (ac_id a, i) \<in> (accountAbove db')\<^sup>* then Inl (AppException ValidationError) else Inr ()))"
  using chart_steps_ok [OF assms] assertNoAccountCycle_exact by blast

end
