(* ===== verification/Dated_Rows.thy ===== *)
theory Dated_Rows
  imports Organization
begin

text \<open>
  Rows that hold from one day to another, or without end: assignments of employees, their compensation, their
  payroll components and their shifts. Four services guard such a table with the same query, \<open>assertNoOverlap\<close>, and
  read it as of a day. The locale \<open>dated_table\<close> states what their tables promise; in it the windows of one key are
  shown to stay disjoint, so that the row as of a day is unique.
\<close>

text \<open>A date of a request: the day written in its first ten characters, and the instant it denotes, which
  may lie on another day when the string has a time and an offset.\<close>

type_synonym date_string = "day \<times> jdate"

text \<open>\<open>validateDateRange\<close> compares the instants.\<close>

definition validateDateRange :: "jdate option \<Rightarrow> jdate option \<Rightarrow> unit result" where
  "validateDateRange fromDate toDate =
     (case (fromDate, toDate) of
        (Some f, Some t) \<Rightarrow> if date_le f t then Inr () else Inl (AppException ValidationError)
      | _ \<Rightarrow> Inr ())"

record dated =
  dr_id :: id
  dr_from :: day
  dr_to :: "day option"

text \<open>The condition of the query: an existing row and a new window share a day.\<close>

definition clashes :: "day \<Rightarrow> day option \<Rightarrow> 'r dated_scheme \<Rightarrow> bool" where
  "clashes from_day to_day r \<longleftrightarrow>
     (case dr_to r of None \<Rightarrow> True | Some t \<Rightarrow> day_le from_day t)
     \<and> (case to_day of None \<Rightarrow> True | Some t \<Rightarrow> day_le (dr_from r) t)"

definition assertNoOverlap ::
  "('r dated_scheme \<Rightarrow> bool) \<Rightarrow> day \<Rightarrow> day option \<Rightarrow> id option \<Rightarrow> 'r dated_scheme list \<Rightarrow> unit result" where
  "assertNoOverlap same from_day to_day ignoreId rows =
     (if \<exists>r \<in> set rows. same r \<and> clashes from_day to_day r \<and> ignoreId \<noteq> Some (dr_id r)
      then Inl (AppException Conflict) else Inr ())"

text \<open>A row as of a day.\<close>

definition effectiveOn :: "day \<Rightarrow> 'r dated_scheme \<Rightarrow> bool" where
  "effectiveOn d r \<longleftrightarrow> day_le (dr_from r) d \<and> (case dr_to r of None \<Rightarrow> True | Some t \<Rightarrow> day_le d t)"

definition saveDated :: "'r dated_scheme \<Rightarrow> 'r dated_scheme list \<Rightarrow> 'r dated_scheme list" where
  "saveDated r rows = map (\<lambda>x. if dr_id x = dr_id r then r else x) rows"

lemma clashes_sym: "clashes (dr_from a) (dr_to a) b \<longleftrightarrow> clashes (dr_from b) (dr_to b) a"
  by (auto simp: clashes_def split: option.splits)

lemma effective_clash: "effectiveOn d a \<Longrightarrow> effectiveOn d b \<Longrightarrow> clashes (dr_from a) (dr_to a) b"
  by (auto simp: effectiveOn_def clashes_def split: option.splits intro: day_le_trans)

locale dated_table =
  fixes rows :: "'s \<Rightarrow> 'r dated_scheme list" and of_key :: "'r dated_scheme \<Rightarrow> 'k" and fresh :: "'s \<Rightarrow> id"
    and put :: "'r dated_scheme \<Rightarrow> 's \<Rightarrow> 's"
  assumes put_rows: "rows (put r s) = rows s @ [r]" and put_fresh: "fresh (put r s) = Suc (fresh s)"
begin

definition disjoint_rows :: "'s \<Rightarrow> bool" where
  "disjoint_rows s \<longleftrightarrow> distinct (map dr_id (rows s)) \<and> (\<forall>r \<in> set (rows s). dr_id r < fresh s)
     \<and> (\<forall>a \<in> set (rows s). \<forall>b \<in> set (rows s). of_key a = of_key b \<longrightarrow> dr_id a \<noteq> dr_id b \<longrightarrow> \<not> clashes (dr_from a) (dr_to a) b)"

lemma put_disjoint:
  assumes ok: "disjoint_rows s" and i: "dr_id r = fresh s"
    and free: "assertNoOverlap (\<lambda>x. of_key x = of_key r) (dr_from r) (dr_to r) None (rows s) = Inr ()"
  shows "disjoint_rows (put r s)"
proof -
  have "\<not> clashes (dr_from r) (dr_to r) b \<and> \<not> clashes (dr_from b) (dr_to b) r" if "b \<in> set (rows s)" "of_key b = of_key r" for b
    using free that clashes_sym [of b r] by (auto simp: assertNoOverlap_def)
  then show ?thesis using ok i by (auto simp: disjoint_rows_def put_rows put_fresh less_Suc_eq)
qed

text \<open>Operations that leave the table alone only take ids.\<close>

lemma disjoint_frame: "disjoint_rows s \<Longrightarrow> rows t = rows s \<Longrightarrow> fresh s \<le> fresh t \<Longrightarrow> disjoint_rows t"
  by (auto simp: disjoint_rows_def)

text \<open>The row of a key as of a day is unique.\<close>

lemma effective_unique:
  assumes "disjoint_rows s" "a \<in> set (rows s)" "b \<in> set (rows s)" "of_key a = of_key b" "effectiveOn d a" "effectiveOn d b"
  shows "a = b"
proof -
  have "dr_id a = dr_id b" using assms effective_clash [OF assms(5,6)] by (auto simp: disjoint_rows_def)
  then show ?thesis using assms(1-3) by (auto simp: disjoint_rows_def distinct_map dest: inj_onD)
qed

end

text \<open>A table whose rows are updated too.\<close>

locale dated_table_update = dated_table rows of_key fresh put
  for rows :: "'s \<Rightarrow> 'r dated_scheme list" and of_key :: "'r dated_scheme \<Rightarrow> 'k" and fresh :: "'s \<Rightarrow> id"
    and put :: "'r dated_scheme \<Rightarrow> 's \<Rightarrow> 's" +
  fixes replace :: "'r dated_scheme \<Rightarrow> 's \<Rightarrow> 's"
  assumes replace_rows: "rows (replace r s) = saveDated r (rows s)" and replace_fresh: "fresh (replace r s) = fresh s"
begin

lemma replace_disjoint:
  assumes ok: "disjoint_rows s" and m: "r \<in> set (rows s)" and same: "dr_id r' = dr_id r" "of_key r' = of_key r"
    and free: "assertNoOverlap (\<lambda>x. of_key x = of_key r) (dr_from r') (dr_to r') (Some (dr_id r)) (rows s) = Inr ()"
  shows "disjoint_rows (replace r' s)"
proof -
  have d: "map dr_id (rows (replace r' s)) = map dr_id (rows s)" by (auto simp: replace_rows saveDated_def)
  have x: "x \<in> set (rows (replace r' s)) \<longleftrightarrow> x = r' \<or> x \<in> set (rows s) \<and> dr_id x \<noteq> dr_id r" for x
    using m same by (auto simp: replace_rows saveDated_def image_iff)
  have "\<not> clashes (dr_from r') (dr_to r') b \<and> \<not> clashes (dr_from b) (dr_to b) r'"
    if "b \<in> set (rows s)" "of_key b = of_key r" "dr_id b \<noteq> dr_id r" for b
    using free that clashes_sym [of b r'] by (auto simp: assertNoOverlap_def)
  then show ?thesis using ok m same unfolding disjoint_rows_def d x replace_fresh Ball_def by metis
qed

end

end
