(* ===== verification/Hr.thy ===== *)
theory Hr
  imports Dated_Rows Js_String
begin

text \<open>
  Human resources (\<open>hr/services/\<close>): departments and designations, leave types, leave requests with their decision,
  assignments of employees to branches, and attendance. Employees themselves are rows that these services only read.
  The list queries are left out; a lookup with own access is restricted to the employee of the user.
\<close>

section \<open>State\<close>

datatype employee_status = EmActive | EmInactive | EmTerminated

record employee =
  em_id :: id
  em_code :: string
  em_name :: string
  em_company :: id
  em_branch :: id
  em_user :: "id option"
  em_status :: employee_status

text \<open>Departments and designations have the same columns.\<close>

record org_unit =
  ou_id :: id
  ou_company :: id
  ou_name :: string
  ou_code :: "string option"
  ou_description :: "string option"
  ou_status :: active_status
  ou_deleted :: bool

record unit_dto =
  ud_name :: string
  ud_code :: "string option"
  ud_description :: "string option"

record unit_update_dto =
  uu_name :: "string option"
  uu_code :: "string option option"
  uu_description :: "string option option"

record leave_type =
  lt_id :: id
  lt_company :: id
  lt_name :: string
  lt_code :: string
  lt_description :: "string option"
  lt_paid :: bool
  lt_defaultDays :: "int option"
  lt_status :: active_status
  lt_deleted :: bool

record leave_type_dto =
  ltd_name :: string
  ltd_code :: string
  ltd_description :: "string option"
  ltd_paid :: "bool option"
  ltd_defaultDays :: "int option"

record leave_type_update_dto =
  ltu_name :: "string option"
  ltu_code :: "string option"
  ltu_description :: "string option option"
  ltu_paid :: "bool option"
  ltu_defaultDays :: "int option option"

datatype leave_status = LvPending | LvApproved | LvRejected | LvCancelled

record leave_request =
  lv_id :: id
  lv_employee :: id
  lv_company :: id
  lv_branch :: id
  lv_type :: id
  lv_from :: day
  lv_to :: day
  lv_reason :: "string option"
  lv_status :: leave_status
  lv_approvedBy :: "id option"
  lv_rejectedBy :: "id option"
  lv_decisionAt :: "jdate option"
  lv_cancelledAt :: "jdate option"

record leave_dto =
  ld_employee :: id
  ld_type :: id
  ld_from :: date_string
  ld_to :: date_string
  ld_reason :: "string option"

record leave_update_dto =
  lu_from :: "date_string option"
  lu_to :: "date_string option"
  lu_reason :: "string option option"

record assignment = dated +
  ea_employee :: id
  ea_company :: id
  ea_branch :: id
  ea_department :: "id option"
  ea_designation :: "id option"
  ea_warehouse :: "id option"
  ea_status :: active_status

record assignment_dto =
  eo_employee :: id
  eo_company :: id
  eo_branch :: id
  eo_department :: "id option"
  eo_designation :: "id option"
  eo_warehouse :: "id option"
  eo_from :: date_string
  eo_to :: "date_string option"

text \<open>The fields of an update: \<open>None\<close> is absent, \<open>Some None\<close> is null.\<close>

record assignment_update_dto =
  ep_department :: "id option option"
  ep_designation :: "id option option"
  ep_warehouse :: "id option option"
  ep_from :: "date_string option"
  ep_to :: "date_string option option"
  ep_status :: "active_status option"

datatype attendance_status = AtPresent | AtAbsent | AtLate | AtLeave | AtHalfDay

record attendance =
  at_id :: id
  at_employee :: id
  at_company :: id
  at_branch :: id
  at_date :: day
  at_status :: attendance_status
  at_checkIn :: "jdate option"
  at_checkOut :: "jdate option"
  at_note :: "string option"

record attendance_dto =
  ac_employee :: id
  ac_date :: date_string
  ac_status :: attendance_status
  ac_checkIn :: "jdate option"
  ac_checkOut :: "jdate option"
  ac_note :: "string option"

record attendance_update_dto =
  au_status :: "attendance_status option"
  au_checkIn :: "jdate option option"
  au_checkOut :: "jdate option option"
  au_note :: "string option option"

record hr_db =
  employees :: "employee list"
  departments :: "org_unit list"
  designations :: "org_unit list"
  leaveTypes :: "leave_type list"
  leaveRequests :: "leave_request list"
  assignments :: "assignment list"
  attendances :: "attendance list"
  hrIds :: id

text \<open>\<open>text?.trim() || null\<close>.\<close>

definition trimOrNull :: "string option \<Rightarrow> string option" where
  "trimOrNull s = (case s of None \<Rightarrow> None | Some t \<Rightarrow> if trim t = [] then None else Some (trim t))"

definition keep :: "'x option \<Rightarrow> 'x \<Rightarrow> 'x" where
  "keep new old = (case new of None \<Rightarrow> old | Some x \<Rightarrow> x)"

lemma keep_simps [simp]: "keep None x = x" "keep (Some y) x = y"
  by (simp_all add: keep_def)

definition findEmployee :: "id \<Rightarrow> id \<Rightarrow> 'a hr_db_scheme \<Rightarrow> employee option" where
  "findEmployee i company db = List.find (\<lambda>e. em_id e = i \<and> em_company e = company) (employees db)"

section \<open>Departments and designations\<close>

text \<open>The services run the same code on their own table; the unique indexes on company and name, and on company and
  code, also cover deleted rows, the queries do not.\<close>

definition findUnit :: "id \<Rightarrow> id \<Rightarrow> org_unit list \<Rightarrow> org_unit result" where
  "findUnit i company us =
     orThrow (List.find (\<lambda>u. ou_id u = i \<and> ou_company u = company \<and> \<not> ou_deleted u) us) (AppException NotFound)"

definition assertUnique :: "id \<Rightarrow> string \<Rightarrow> string option \<Rightarrow> id option \<Rightarrow> org_unit list \<Rightarrow> unit result" where
  "assertUnique company name code ignoreId us =
     (if \<exists>u \<in> set us. ou_company u = company \<and> (ou_name u = name \<or> code \<noteq> None \<and> ou_code u = code)
          \<and> ignoreId \<noteq> Some (ou_id u) \<and> \<not> ou_deleted u
      then Inl (AppException Conflict) else Inr ())"

definition unitIndexFree :: "org_unit \<Rightarrow> org_unit list \<Rightarrow> bool" where
  "unitIndexFree u us \<longleftrightarrow> \<not> (\<exists>x \<in> set us. ou_id x \<noteq> ou_id u \<and> ou_company x = ou_company u
     \<and> (ou_name x = ou_name u \<or> ou_code u \<noteq> None \<and> ou_code x = ou_code u))"

definition saveUnit :: "org_unit \<Rightarrow> org_unit list \<Rightarrow> org_unit list result" where
  "saveUnit u us =
     (if unitIndexFree u us then Inr (map (\<lambda>x. if ou_id x = ou_id u then u else x) us)
      else Inl (DupEntry ''company_name''))"

definition createUnit ::
  "org_db \<Rightarrow> id \<Rightarrow> unit_dto \<Rightarrow> id \<Rightarrow> org_unit list \<Rightarrow> (org_unit \<times> org_unit list) result" where
  "createUnit org company dto k us =
     andThen (assertActiveCompany org company) (\<lambda>_.
     andThen (assertUnique company (ud_name dto) (ud_code dto) None us) (\<lambda>_.
     let u = \<lparr>ou_id = k, ou_company = company, ou_name = ud_name dto, ou_code = ud_code dto,
           ou_description = ud_description dto, ou_status = Active, ou_deleted = False\<rparr>
     in if unitIndexFree u us then Inr (u, us @ [u]) else Inl (DupEntry ''company_name'')))"

definition updateUnit :: "id \<Rightarrow> id \<Rightarrow> unit_update_dto \<Rightarrow> org_unit list \<Rightarrow> (org_unit \<times> org_unit list) result" where
  "updateUnit i company dto us =
     andThen (findUnit i company us) (\<lambda>u.
     let nextName = keep (uu_name dto) (ou_name u);
         nextCode = (case uu_code dto of None \<Rightarrow> ou_code u | Some c \<Rightarrow> trimOrNull c)
     in andThen (assertUnique company nextName nextCode (Some i) us) (\<lambda>_.
        let u' = u\<lparr>ou_name := nextName, ou_code := nextCode,
              ou_description := (case uu_description dto of None \<Rightarrow> ou_description u | Some d \<Rightarrow> trimOrNull d)\<rparr>
        in andThen (saveUnit u' us) (\<lambda>us'. Inr (u', us'))))"

definition setUnitStatus :: "active_status \<Rightarrow> id \<Rightarrow> id \<Rightarrow> org_unit list \<Rightarrow> (org_unit \<times> org_unit list) result" where
  "setUnitStatus st i company us =
     andThen (findUnit i company us) (\<lambda>u.
     let u' = u\<lparr>ou_status := st\<rparr> in andThen (saveUnit u' us) (\<lambda>us'. Inr (u', us')))"

definition removeUnit :: "(id \<Rightarrow> bool) \<Rightarrow> id \<Rightarrow> id \<Rightarrow> org_unit list \<Rightarrow> org_unit list result" where
  "removeUnit assigned i company us =
     andThen (findUnit i company us) (\<lambda>u.
     if assigned i then Inl (AppException Conflict) else saveUnit (u\<lparr>ou_deleted := True\<rparr>) us)"

text \<open>The two services.\<close>

definition createDepartment ::
  "org_db \<Rightarrow> id \<Rightarrow> unit_dto \<Rightarrow> 'a hr_db_scheme \<Rightarrow> (org_unit \<times> 'a hr_db_scheme) result" where
  "createDepartment org company dto db =
     andThen (createUnit org company dto (hrIds db) (departments db)) (\<lambda>(u, us).
     Inr (u, db\<lparr>departments := us, hrIds := Suc (hrIds db)\<rparr>))"

definition updateDepartment ::
  "id \<Rightarrow> id \<Rightarrow> unit_update_dto \<Rightarrow> 'a hr_db_scheme \<Rightarrow> (org_unit \<times> 'a hr_db_scheme) result" where
  "updateDepartment i company dto db =
     andThen (updateUnit i company dto (departments db)) (\<lambda>(u, us). Inr (u, db\<lparr>departments := us\<rparr>))"

definition setDepartmentStatus ::
  "active_status \<Rightarrow> id \<Rightarrow> id \<Rightarrow> 'a hr_db_scheme \<Rightarrow> (org_unit \<times> 'a hr_db_scheme) result" where
  "setDepartmentStatus st i company db =
     andThen (setUnitStatus st i company (departments db)) (\<lambda>(u, us). Inr (u, db\<lparr>departments := us\<rparr>))"

definition removeDepartment :: "id \<Rightarrow> id \<Rightarrow> 'a hr_db_scheme \<Rightarrow> 'a hr_db_scheme result" where
  "removeDepartment i company db =
     andThen (removeUnit (\<lambda>k. \<exists>a \<in> set (assignments db). ea_department a = Some k) i company (departments db))
       (\<lambda>us. Inr (db\<lparr>departments := us\<rparr>))"

definition createDesignation ::
  "org_db \<Rightarrow> id \<Rightarrow> unit_dto \<Rightarrow> 'a hr_db_scheme \<Rightarrow> (org_unit \<times> 'a hr_db_scheme) result" where
  "createDesignation org company dto db =
     andThen (createUnit org company dto (hrIds db) (designations db)) (\<lambda>(u, us).
     Inr (u, db\<lparr>designations := us, hrIds := Suc (hrIds db)\<rparr>))"

definition updateDesignation ::
  "id \<Rightarrow> id \<Rightarrow> unit_update_dto \<Rightarrow> 'a hr_db_scheme \<Rightarrow> (org_unit \<times> 'a hr_db_scheme) result" where
  "updateDesignation i company dto db =
     andThen (updateUnit i company dto (designations db)) (\<lambda>(u, us). Inr (u, db\<lparr>designations := us\<rparr>))"

definition setDesignationStatus ::
  "active_status \<Rightarrow> id \<Rightarrow> id \<Rightarrow> 'a hr_db_scheme \<Rightarrow> (org_unit \<times> 'a hr_db_scheme) result" where
  "setDesignationStatus st i company db =
     andThen (setUnitStatus st i company (designations db)) (\<lambda>(u, us). Inr (u, db\<lparr>designations := us\<rparr>))"

definition removeDesignation :: "id \<Rightarrow> id \<Rightarrow> 'a hr_db_scheme \<Rightarrow> 'a hr_db_scheme result" where
  "removeDesignation i company db =
     andThen (removeUnit (\<lambda>k. \<exists>a \<in> set (assignments db). ea_designation a = Some k) i company (designations db))
       (\<lambda>us. Inr (db\<lparr>designations := us\<rparr>))"

section \<open>Leave types\<close>

definition findLeaveType :: "id \<Rightarrow> id \<Rightarrow> 'a hr_db_scheme \<Rightarrow> leave_type result" where
  "findLeaveType i company db =
     orThrow (List.find (\<lambda>t. lt_id t = i \<and> lt_company t = company \<and> \<not> lt_deleted t) (leaveTypes db)) (AppException NotFound)"

definition leaveTypeTaken :: "id \<Rightarrow> string \<Rightarrow> string \<Rightarrow> id option \<Rightarrow> 'a hr_db_scheme \<Rightarrow> bool" where
  "leaveTypeTaken company name code ignoreId db \<longleftrightarrow>
     (\<exists>t \<in> set (leaveTypes db). lt_company t = company \<and> (lt_name t = name \<or> lt_code t = code)
        \<and> ignoreId \<noteq> Some (lt_id t) \<and> \<not> lt_deleted t)"

definition leaveTypeIndexFree :: "leave_type \<Rightarrow> 'a hr_db_scheme \<Rightarrow> bool" where
  "leaveTypeIndexFree t db \<longleftrightarrow> \<not> (\<exists>x \<in> set (leaveTypes db). lt_id x \<noteq> lt_id t \<and> lt_company x = lt_company t
     \<and> (lt_name x = lt_name t \<or> lt_code x = lt_code t))"

definition saveLeaveType :: "leave_type \<Rightarrow> 'a hr_db_scheme \<Rightarrow> (leave_type \<times> 'a hr_db_scheme) result" where
  "saveLeaveType t db =
     (if leaveTypeIndexFree t db
      then Inr (t, db\<lparr>leaveTypes := map (\<lambda>x. if lt_id x = lt_id t then t else x) (leaveTypes db)\<rparr>)
      else Inl (DupEntry ''company_name''))"

definition createLeaveType ::
  "org_db \<Rightarrow> id \<Rightarrow> leave_type_dto \<Rightarrow> 'a hr_db_scheme \<Rightarrow> (leave_type \<times> 'a hr_db_scheme) result" where
  "createLeaveType org company dto db =
     andThen (assertActiveCompany org company) (\<lambda>_.
     if leaveTypeTaken company (ltd_name dto) (ltd_code dto) None db then Inl (AppException Conflict)
     else
       let t = \<lparr>lt_id = hrIds db, lt_company = company, lt_name = ltd_name dto, lt_code = ltd_code dto,
             lt_description = ltd_description dto, lt_paid = keep (ltd_paid dto) False,
             lt_defaultDays = ltd_defaultDays dto, lt_status = Active, lt_deleted = False\<rparr>
       in if leaveTypeIndexFree t db
          then Inr (t, db\<lparr>leaveTypes := leaveTypes db @ [t], hrIds := Suc (hrIds db)\<rparr>)
          else Inl (DupEntry ''company_name''))"

definition updateLeaveType ::
  "id \<Rightarrow> id \<Rightarrow> leave_type_update_dto \<Rightarrow> 'a hr_db_scheme \<Rightarrow> (leave_type \<times> 'a hr_db_scheme) result" where
  "updateLeaveType i company dto db =
     andThen (findLeaveType i company db) (\<lambda>t.
     let nextName = keep (ltu_name dto) (lt_name t); nextCode = keep (ltu_code dto) (lt_code t)
     in if leaveTypeTaken company nextName nextCode (Some i) db then Inl (AppException Conflict)
        else saveLeaveType (t\<lparr>lt_name := nextName, lt_code := nextCode,
               lt_description := (case ltu_description dto of None \<Rightarrow> lt_description t | Some d \<Rightarrow> trimOrNull d),
               lt_paid := keep (ltu_paid dto) (lt_paid t),
               lt_defaultDays := keep (ltu_defaultDays dto) (lt_defaultDays t)\<rparr>) db)"

definition setLeaveTypeStatus ::
  "active_status \<Rightarrow> id \<Rightarrow> id \<Rightarrow> 'a hr_db_scheme \<Rightarrow> (leave_type \<times> 'a hr_db_scheme) result" where
  "setLeaveTypeStatus st i company db =
     andThen (findLeaveType i company db) (\<lambda>t. saveLeaveType (t\<lparr>lt_status := st\<rparr>) db)"

definition removeLeaveType :: "id \<Rightarrow> id \<Rightarrow> 'a hr_db_scheme \<Rightarrow> (leave_type \<times> 'a hr_db_scheme) result" where
  "removeLeaveType i company db =
     andThen (findLeaveType i company db) (\<lambda>t.
     if \<exists>v \<in> set (leaveRequests db). lv_type v = i then Inl (AppException Conflict)
     else saveLeaveType (t\<lparr>lt_deleted := True\<rparr>) db)"

section \<open>Leave requests\<close>

definition employeeOf :: "id \<Rightarrow> 'a hr_db_scheme \<Rightarrow> employee option" where
  "employeeOf i db = List.find (\<lambda>e. em_id e = i) (employees db)"

definition saveLeave :: "leave_request \<Rightarrow> 'a hr_db_scheme \<Rightarrow> 'a hr_db_scheme" where
  "saveLeave v db = db\<lparr>leaveRequests := map (\<lambda>x. if lv_id x = lv_id v then v else x) (leaveRequests db)\<rparr>"

definition createLeaveRequest ::
  "id \<Rightarrow> id \<Rightarrow> leave_dto \<Rightarrow> bool \<Rightarrow> 'a hr_db_scheme \<Rightarrow> (leave_request \<times> 'a hr_db_scheme) result" where
  "createLeaveRequest actor company dto ownOnly db =
     andThen (validateDateRange (Some (snd (ld_from dto))) (Some (snd (ld_to dto)))) (\<lambda>_.
     andThen (orThrow
       (if ownOnly then List.find (\<lambda>e. em_id e = ld_employee dto \<and> em_user e = Some actor) (employees db)
        else findEmployee (ld_employee dto) company db) (AppException ValidationError)) (\<lambda>e.
     if ownOnly \<and> em_user e \<noteq> Some actor then Inl (AppException Forbidden)
     else andThen (orThrow (List.find (\<lambda>t. lt_id t = ld_type dto \<and> lt_company t = em_company e \<and> lt_status t = Active
            \<and> \<not> lt_deleted t) (leaveTypes db)) (AppException ValidationError)) (\<lambda>t.
          let v = \<lparr>lv_id = hrIds db, lv_employee = em_id e, lv_company = em_company e, lv_branch = em_branch e,
                lv_type = lt_id t, lv_from = fst (ld_from dto), lv_to = fst (ld_to dto), lv_reason = ld_reason dto,
                lv_status = LvPending, lv_approvedBy = None, lv_rejectedBy = None, lv_decisionAt = None,
                lv_cancelledAt = None\<rparr>
          in Inr (v, db\<lparr>leaveRequests := leaveRequests db @ [v], hrIds := Suc (hrIds db)\<rparr>))))"

definition findLeave :: "id \<Rightarrow> id \<Rightarrow> id \<Rightarrow> bool \<Rightarrow> 'a hr_db_scheme \<Rightarrow> leave_request result" where
  "findLeave i user company ownOnly db =
     orThrow (List.find (\<lambda>v. lv_id v = i \<and> (case employeeOf (lv_employee v) db of None \<Rightarrow> False
         | Some e \<Rightarrow> if ownOnly then em_user e = Some user else lv_company v = company)) (leaveRequests db))
       (AppException NotFound)"

text \<open>An update runs outside a transaction: the read with its checks, then the save of the entity that was read.\<close>

definition updateLeaveRead ::
  "id \<Rightarrow> id \<Rightarrow> id \<Rightarrow> leave_update_dto \<Rightarrow> bool \<Rightarrow> 'a hr_db_scheme \<Rightarrow> leave_request result" where
  "updateLeaveRead i user company dto ownOnly db =
     andThen (findLeave i user company ownOnly db) (\<lambda>v.
     if lv_status v \<noteq> LvPending then Inl (AppException Conflict)
     else andThen (validateDateRange
            (Some (case lu_from dto of None \<Rightarrow> (lv_from v, 0) | Some d \<Rightarrow> snd d))
            (Some (case lu_to dto of None \<Rightarrow> (lv_to v, 0) | Some d \<Rightarrow> snd d))) (\<lambda>_.
          Inr (v\<lparr>lv_from := (case lu_from dto of None \<Rightarrow> lv_from v | Some d \<Rightarrow> fst d),
                lv_to := (case lu_to dto of None \<Rightarrow> lv_to v | Some d \<Rightarrow> fst d),
                lv_reason := (case lu_reason dto of None \<Rightarrow> lv_reason v | Some r \<Rightarrow> trimOrNull r)\<rparr>)))"

definition updateLeave ::
  "id \<Rightarrow> id \<Rightarrow> id \<Rightarrow> leave_update_dto \<Rightarrow> bool \<Rightarrow> 'a hr_db_scheme \<Rightarrow> (leave_request \<times> 'a hr_db_scheme) result" where
  "updateLeave i user company dto ownOnly db =
     andThen (updateLeaveRead i user company dto ownOnly db) (\<lambda>v. Inr (v, saveLeave v db))"

definition lockedLeave :: "id \<Rightarrow> id \<Rightarrow> 'a hr_db_scheme \<Rightarrow> leave_request result" where
  "lockedLeave i company db =
     orThrow (List.find (\<lambda>v. lv_id v = i \<and> lv_company v = company) (leaveRequests db)) (AppException NotFound)"

text \<open>\<open>transition\<close>, for an approval or a rejection.\<close>

definition decideLeave ::
  "bool \<Rightarrow> id \<Rightarrow> id \<Rightarrow> id \<Rightarrow> jdate \<Rightarrow> 'a hr_db_scheme \<Rightarrow> (leave_request \<times> 'a hr_db_scheme) result" where
  "decideLeave approve i actor company now db =
     andThen (lockedLeave i company db) (\<lambda>v.
     if (case employeeOf (lv_employee v) db of None \<Rightarrow> False | Some e \<Rightarrow> em_user e = Some actor)
     then Inl (AppException Forbidden)
     else if lv_status v \<noteq> LvPending then Inl (AppException Conflict)
     else
       let v' = v\<lparr>lv_status := (if approve then LvApproved else LvRejected), lv_decisionAt := Some now,
             lv_cancelledAt := None, lv_approvedBy := (if approve then Some actor else None),
             lv_rejectedBy := (if approve then None else Some actor)\<rparr>
       in Inr (v', saveLeave v' db))"

definition cancelLeave ::
  "id \<Rightarrow> id \<Rightarrow> id \<Rightarrow> jdate \<Rightarrow> 'a hr_db_scheme \<Rightarrow> (leave_request \<times> 'a hr_db_scheme) result" where
  "cancelLeave i actor company now db =
     andThen (lockedLeave i company db) (\<lambda>v.
     if (case employeeOf (lv_employee v) db of None \<Rightarrow> True | Some e \<Rightarrow> em_user e \<noteq> Some actor)
     then Inl (AppException Forbidden)
     else if lv_status v \<noteq> LvPending then Inl (AppException Conflict)
     else
       let v' = v\<lparr>lv_status := LvCancelled, lv_cancelledAt := Some now, lv_decisionAt := Some now\<rparr>
       in Inr (v', saveLeave v' db))"

section \<open>Assignments\<close>

record relations =
  re_employee :: id
  re_company :: id
  re_branch :: id
  re_department :: "id option"
  re_designation :: "id option"
  re_warehouse :: "id option"

definition unitInCompany :: "org_unit list \<Rightarrow> id option \<Rightarrow> id \<Rightarrow> bool" where
  "unitInCompany us i company \<longleftrightarrow>
     (case i of None \<Rightarrow> True | Some k \<Rightarrow> \<exists>u \<in> set us. ou_id u = k \<and> ou_company u = company \<and> \<not> ou_deleted u)"

definition assertValidRelations :: "org_db \<Rightarrow> relations \<Rightarrow> 'a hr_db_scheme \<Rightarrow> unit result" where
  "assertValidRelations org r db =
     andThen (orThrow (findEmployee (re_employee r) (re_company r) db) (AppException ValidationError)) (\<lambda>e.
     if em_branch e \<noteq> re_branch r then Inl (AppException ValidationError)
     else if (case branches org (re_branch r) of None \<Rightarrow> True | Some b \<Rightarrow> br_company b \<noteq> re_company r)
       then Inl (AppException ValidationError)
     else if \<not> unitInCompany (departments db) (re_department r) (re_company r) then Inl (AppException ValidationError)
     else if \<not> unitInCompany (designations db) (re_designation r) (re_company r) then Inl (AppException ValidationError)
     else case re_warehouse r of
         None \<Rightarrow> Inr ()
       | Some w \<Rightarrow>
           (case warehouses org w of
              None \<Rightarrow> Inl (AppException ValidationError)
            | Some x \<Rightarrow>
                if wh_company x \<noteq> re_company r \<or> wh_branch x \<noteq> re_branch r then Inl (AppException ValidationError)
                else Inr ()))"

definition putAssignment :: "assignment \<Rightarrow> 'a hr_db_scheme \<Rightarrow> 'a hr_db_scheme" where
  "putAssignment a db = db\<lparr>assignments := assignments db @ [a], hrIds := Suc (hrIds db)\<rparr>"

definition saveAssignment :: "assignment \<Rightarrow> 'a hr_db_scheme \<Rightarrow> 'a hr_db_scheme" where
  "saveAssignment a db = db\<lparr>assignments := saveDated a (assignments db)\<rparr>"

interpretation assignment_table: dated_table_update assignments ea_employee hrIds putAssignment saveAssignment
  by unfold_locales (simp_all add: putAssignment_def saveAssignment_def)

definition createAssignment ::
  "org_db \<Rightarrow> assignment_dto \<Rightarrow> 'a hr_db_scheme \<Rightarrow> (assignment \<times> 'a hr_db_scheme) result" where
  "createAssignment org dto db =
     andThen (validateDateRange (Some (snd (eo_from dto))) (map_option snd (eo_to dto))) (\<lambda>_.
     andThen (assertValidRelations org \<lparr>re_employee = eo_employee dto, re_company = eo_company dto,
        re_branch = eo_branch dto, re_department = eo_department dto, re_designation = eo_designation dto,
        re_warehouse = eo_warehouse dto\<rparr> db) (\<lambda>_.
     andThen (assertNoOverlap (\<lambda>a. ea_employee a = eo_employee dto) (fst (eo_from dto)) (map_option fst (eo_to dto))
       None (assignments db)) (\<lambda>_.
     let a = \<lparr>dr_id = hrIds db, dr_from = fst (eo_from dto), dr_to = map_option fst (eo_to dto),
           ea_employee = eo_employee dto, ea_company = eo_company dto, ea_branch = eo_branch dto,
           ea_department = eo_department dto, ea_designation = eo_designation dto,
           ea_warehouse = eo_warehouse dto, ea_status = Active\<rparr>
     in Inr (a, putAssignment a db))))"

definition updateAssignment ::
  "org_db \<Rightarrow> id \<Rightarrow> id \<Rightarrow> assignment_update_dto \<Rightarrow> 'a hr_db_scheme \<Rightarrow> (assignment \<times> 'a hr_db_scheme) result" where
  "updateAssignment org i company dto db =
     andThen (orThrow (List.find (\<lambda>a. dr_id a = i \<and> ea_company a = company) (assignments db)) (AppException NotFound)) (\<lambda>a.
     let from_date = (case ep_from dto of None \<Rightarrow> (dr_from a, (dr_from a, 0)) | Some d \<Rightarrow> d);
         to_date = (case ep_to dto of None \<Rightarrow> map_option (\<lambda>t. (t, (t, 0))) (dr_to a) | Some d \<Rightarrow> d);
         department = keep (ep_department dto) (ea_department a);
         designation = keep (ep_designation dto) (ea_designation a);
         warehouse = keep (ep_warehouse dto) (ea_warehouse a)
     in andThen (validateDateRange (Some (snd from_date)) (map_option snd to_date)) (\<lambda>_.
        andThen (assertValidRelations org \<lparr>re_employee = ea_employee a, re_company = ea_company a, re_branch = ea_branch a,
           re_department = department, re_designation = designation, re_warehouse = warehouse\<rparr> db) (\<lambda>_.
        andThen (assertNoOverlap (\<lambda>x. ea_employee x = ea_employee a) (fst from_date) (map_option fst to_date)
          (Some i) (assignments db)) (\<lambda>_.
        let a' = a\<lparr>dr_from := fst from_date, dr_to := map_option fst to_date, ea_department := department,
              ea_designation := designation, ea_warehouse := warehouse,
              ea_status := keep (ep_status dto) (ea_status a)\<rparr>
        in Inr (a', saveAssignment a' db)))))"

section \<open>Attendance\<close>

definition assertCheckInOut :: "jdate option \<Rightarrow> jdate option \<Rightarrow> unit result" where
  "assertCheckInOut checkIn checkOut =
     (case (checkIn, checkOut) of
        (Some i, Some out) \<Rightarrow> if date_le i out then Inr () else Inl (AppException ValidationError)
      | _ \<Rightarrow> Inr ())"

definition createAttendance ::
  "id \<Rightarrow> attendance_dto \<Rightarrow> 'a hr_db_scheme \<Rightarrow> (attendance \<times> 'a hr_db_scheme) result" where
  "createAttendance company dto db =
     andThen (orThrow (findEmployee (ac_employee dto) company db) (AppException ValidationError)) (\<lambda>e.
     if \<exists>a \<in> set (attendances db). at_employee a = ac_employee dto \<and> at_date a = fst (ac_date dto)
     then Inl (AppException Conflict)
     else
       let a = \<lparr>at_id = hrIds db, at_employee = ac_employee dto, at_company = company, at_branch = em_branch e,
             at_date = fst (ac_date dto), at_status = ac_status dto, at_checkIn = ac_checkIn dto,
             at_checkOut = ac_checkOut dto, at_note = ac_note dto\<rparr>
       in andThen (assertCheckInOut (at_checkIn a) (at_checkOut a)) (\<lambda>_.
          Inr (a, db\<lparr>attendances := attendances db @ [a], hrIds := Suc (hrIds db)\<rparr>)))"

definition updateAttendance ::
  "id \<Rightarrow> id \<Rightarrow> attendance_update_dto \<Rightarrow> 'a hr_db_scheme \<Rightarrow> (attendance \<times> 'a hr_db_scheme) result" where
  "updateAttendance i company dto db =
     andThen (orThrow (List.find (\<lambda>a. at_id a = i \<and> at_company a = company) (attendances db)) (AppException NotFound)) (\<lambda>a.
     let a' = a\<lparr>at_status := keep (au_status dto) (at_status a), at_checkIn := keep (au_checkIn dto) (at_checkIn a),
           at_checkOut := keep (au_checkOut dto) (at_checkOut a),
           at_note := (case au_note dto of None \<Rightarrow> at_note a | Some n \<Rightarrow> trimOrNull n)\<rparr>
     in andThen (assertCheckInOut (at_checkIn a') (at_checkOut a')) (\<lambda>_.
        Inr (a', db\<lparr>attendances := map (\<lambda>x. if at_id x = at_id a' then a' else x) (attendances db)\<rparr>)))"

end
