(* ===== verification/Payroll_Setup.thy ===== *)
theory Payroll_Setup
  imports Hr Doc_Number
begin

text \<open>
  What payroll is calculated from (\<open>payroll/services/\<close>): payroll components, the components and the compensation of
  employees over time, the configuration of a company, and shifts with their assignments. The tables of the runs are
  declared here too, since components look at the payroll history; the runs are in \<open>Payroll\<close>. Amounts are cents,
  percentages ten-thousandths (DECIMAL(7,4)).
\<close>

section \<open>State\<close>

datatype component_type = Earning | Deduction | EmployerContribution
datatype calculation_type = FixedAmount | PercentageOfBase

record pay_component =
  cp_id :: id
  cp_company :: id
  cp_name :: string
  cp_code :: string
  cp_type :: component_type
  cp_calc :: calculation_type
  cp_fixed :: "int option"
  cp_percentage :: "int option"
  cp_taxable :: bool
  cp_active :: bool
  cp_updatedBy :: id
  cp_deleted :: bool

record component_dto =
  co_name :: string
  co_code :: string
  co_type :: component_type
  co_calc :: calculation_type
  co_fixed :: "int option"
  co_percentage :: "int option"
  co_taxable :: "bool option"

record component_update_dto =
  cx_name :: "string option"
  cx_fixed :: "int option"
  cx_percentage :: "int option"
  cx_taxable :: "bool option"
  cx_active :: "bool option"

record compensation = dated +
  cm_company :: id
  cm_employee :: id
  cm_salary :: int
  cm_currency :: string
  cm_createdBy :: id

record compensation_dto =
  ct_from :: date_string
  ct_to :: "date_string option"
  ct_salary :: int
  ct_currency :: string

record employee_component = dated +
  ec_employee :: id
  ec_component :: id
  ec_amount :: "int option"
  ec_percentage :: "int option"

record employee_component_dto =
  et_component :: id
  et_amount :: "int option"
  et_percentage :: "int option"
  et_from :: date_string
  et_to :: "date_string option"

datatype unpaid_leave = CalcNone | DailyRate

record pay_config =
  cf_company :: id
  cf_currency :: string
  cf_unpaid :: unpaid_leave
  cf_workingDays :: "nat option"
  cf_updatedBy :: id

record shift =
  sh_id :: id
  sh_company :: id
  sh_branch :: "id option"
  sh_name :: string
  sh_code :: string
  sh_start :: string
  sh_end :: string
  sh_break :: nat
  sh_grace :: nat
  sh_active :: bool
  sh_updatedBy :: id
  sh_deleted :: bool

record shift_dto =
  so_branch :: "id option"
  so_name :: string
  so_code :: string
  so_start :: string
  so_end :: string
  so_break :: "nat option"
  so_grace :: "nat option"

record shift_update_dto =
  su_name :: "string option"
  su_start :: "string option"
  su_end :: "string option"
  su_break :: "nat option"
  su_grace :: "nat option"
  su_active :: "bool option"

record shift_assignment = dated +
  sx_employee :: id
  sx_shift :: id

record shift_assignment_dto =
  st_shift :: id
  st_from :: date_string
  st_to :: "date_string option"

datatype pay_period_status = PpOpen | PpProcessing | PpFinalized | PpCancelled

record pay_period =
  pp_id :: id
  pp_company :: id
  pp_number :: string
  pp_name :: string
  pp_start :: day
  pp_end :: day
  pp_pay :: day
  pp_status :: pay_period_status
  pp_updatedBy :: id

datatype pay_run_status = RnDraft | RnProcessing | RnCalculated | RnFinalized | RnCancelled

record pay_run =
  rn_id :: id
  rn_company :: id
  rn_period :: id
  rn_number :: string
  rn_status :: pay_run_status
  rn_employeeCount :: nat
  rn_gross :: int
  rn_deductions :: int
  rn_net :: int
  rn_startedAt :: "jdate option"
  rn_completedAt :: "jdate option"
  rn_finalizedAt :: "jdate option"
  rn_createdBy :: id
  rn_finalizedBy :: "id option"

datatype payslip_status = PsCalculated | PsFinalized

record payslip =
  ps_id :: id
  ps_run :: id
  ps_employee :: id
  ps_code :: string
  ps_name :: string
  ps_department :: "string option"
  ps_designation :: "string option"
  ps_base :: int
  ps_gross :: int
  ps_deductions :: int
  ps_net :: int
  ps_status :: payslip_status

record pay_item =
  py_slip :: id
  py_component :: "id option"
  py_name :: string
  py_code :: string
  py_type :: component_type
  py_calc :: calculation_type
  py_amount :: int

record payroll_db = hr_db +
  payComponents :: "pay_component list"
  compensations :: "compensation list"
  employeeComponents :: "employee_component list"
  payConfigs :: "pay_config list"
  shifts :: "shift list"
  shiftAssignments :: "shift_assignment list"
  payPeriods :: "pay_period list"
  payRuns :: "pay_run list"
  payslips :: "payslip list"
  payItems :: "pay_item list"
  periodCounters :: counters
  runCounters :: counters

section \<open>Components\<close>

definition findComponent :: "id \<Rightarrow> id \<Rightarrow> 'a payroll_db_scheme \<Rightarrow> pay_component result" where
  "findComponent i company db =
     orThrow (List.find (\<lambda>c. cp_id c = i \<and> cp_company c = company \<and> \<not> cp_deleted c) (payComponents db))
       (AppException NotFound)"

definition assertCalculationFieldsMatch :: "calculation_type \<Rightarrow> int option \<Rightarrow> int option \<Rightarrow> unit result" where
  "assertCalculationFieldsMatch calc fixedAmount percentage =
     (case calc of
        FixedAmount \<Rightarrow>
          if fixedAmount = None \<or> percentage \<noteq> None then Inl (AppException ValidationError) else Inr ()
      | PercentageOfBase \<Rightarrow>
          if percentage = None \<or> fixedAmount \<noteq> None then Inl (AppException ValidationError) else Inr ())"

definition componentCodeFree :: "pay_component \<Rightarrow> 'a payroll_db_scheme \<Rightarrow> bool" where
  "componentCodeFree c db \<longleftrightarrow> \<not> (\<exists>x \<in> set (payComponents db). cp_id x \<noteq> cp_id c \<and> cp_company x = cp_company c
     \<and> cp_code x = cp_code c)"

definition saveComponent :: "pay_component \<Rightarrow> 'a payroll_db_scheme \<Rightarrow> pay_component \<times> 'a payroll_db_scheme" where
  "saveComponent c db = (c, db\<lparr>payComponents := map (\<lambda>x. if cp_id x = cp_id c then c else x) (payComponents db)\<rparr>)"

definition createComponent ::
  "org_db \<Rightarrow> id \<Rightarrow> id \<Rightarrow> component_dto \<Rightarrow> 'a payroll_db_scheme \<Rightarrow> (pay_component \<times> 'a payroll_db_scheme) result" where
  "createComponent org company user dto db =
     andThen (assertActiveCompany org company) (\<lambda>_.
     if \<exists>x \<in> set (payComponents db). cp_company x = company \<and> (cp_name x = co_name dto \<or> cp_code x = co_code dto)
          \<and> \<not> cp_deleted x
     then Inl (AppException Conflict)
     else andThen (assertCalculationFieldsMatch (co_calc dto) (co_fixed dto) (co_percentage dto)) (\<lambda>_.
       let c = \<lparr>cp_id = hrIds db, cp_company = company, cp_name = co_name dto, cp_code = co_code dto,
             cp_type = co_type dto, cp_calc = co_calc dto,
             cp_fixed = (if co_calc dto = FixedAmount then co_fixed dto else None),
             cp_percentage = (if co_calc dto = PercentageOfBase then co_percentage dto else None),
             cp_taxable = keep (co_taxable dto) False, cp_active = True, cp_updatedBy = user, cp_deleted = False\<rparr>
       in if componentCodeFree c db
          then Inr (c, db\<lparr>payComponents := payComponents db @ [c], hrIds := Suc (hrIds db)\<rparr>)
          else Inl (DupEntry ''company_code'')))"

definition updateComponent ::
  "id \<Rightarrow> id \<Rightarrow> id \<Rightarrow> component_update_dto \<Rightarrow> 'a payroll_db_scheme \<Rightarrow> (pay_component \<times> 'a payroll_db_scheme) result" where
  "updateComponent i company user dto db =
     andThen (findComponent i company db) (\<lambda>c.
     andThen
       (case cx_name dto of
          None \<Rightarrow> Inr c
        | Some n \<Rightarrow>
            if \<exists>x \<in> set (payComponents db). cp_company x = company \<and> cp_name x = n \<and> cp_id x \<noteq> i \<and> \<not> cp_deleted x
            then Inl (AppException Conflict) else Inr (c\<lparr>cp_name := n\<rparr>)) (\<lambda>c1.
     andThen
       (if cx_fixed dto = None \<and> cx_percentage dto = None then Inr c1
        else
          let nextFixed = (case cx_fixed dto of None \<Rightarrow> cp_fixed c1 | Some f \<Rightarrow> Some f);
              nextPercentage = (case cx_percentage dto of None \<Rightarrow> cp_percentage c1 | Some p \<Rightarrow> Some p)
          in andThen (assertCalculationFieldsMatch (cp_calc c1) nextFixed nextPercentage) (\<lambda>_.
             Inr (if cp_calc c1 = FixedAmount then c1\<lparr>cp_fixed := nextFixed\<rparr>
                  else c1\<lparr>cp_percentage := nextPercentage\<rparr>))) (\<lambda>c2.
     Inr (saveComponent (c2\<lparr>cp_taxable := keep (cx_taxable dto) (cp_taxable c2),
       cp_active := keep (cx_active dto) (cp_active c2), cp_updatedBy := user\<rparr>) db))))"

definition setComponentActive ::
  "bool \<Rightarrow> id \<Rightarrow> id \<Rightarrow> id \<Rightarrow> 'a payroll_db_scheme \<Rightarrow> (pay_component \<times> 'a payroll_db_scheme) result" where
  "setComponentActive active i company user db =
     andThen (findComponent i company db) (\<lambda>c.
     Inr (saveComponent (c\<lparr>cp_active := active, cp_updatedBy := user\<rparr>) db))"

definition getUsageSummary :: "id \<Rightarrow> 'a payroll_db_scheme \<Rightarrow> nat \<times> nat \<times> bool" where
  "getUsageSummary i db =
     (let assignmentCount = length (filter (\<lambda>a. ec_component a = i) (employeeComponents db));
          historyCount = length (filter (\<lambda>p. py_component p = Some i) (payItems db))
      in (assignmentCount, historyCount, assignmentCount = 0 \<and> historyCount = 0))"

definition removeComponent :: "id \<Rightarrow> id \<Rightarrow> 'a payroll_db_scheme \<Rightarrow> (pay_component \<times> 'a payroll_db_scheme) result" where
  "removeComponent i company db =
     andThen (findComponent i company db) (\<lambda>c.
     let (assignmentCount, historyCount, _) = getUsageSummary i db
     in if 0 < assignmentCount \<or> 0 < historyCount then Inl (AppException Conflict)
        else Inr (saveComponent (c\<lparr>cp_deleted := True\<rparr>) db))"

section \<open>Compensation of employees\<close>

definition putCompensation :: "compensation \<Rightarrow> 'a payroll_db_scheme \<Rightarrow> 'a payroll_db_scheme" where
  "putCompensation c db = db\<lparr>compensations := compensations db @ [c], hrIds := Suc (hrIds db)\<rparr>"

interpretation compensation_table: dated_table compensations cm_employee hrIds putCompensation
  by unfold_locales (simp_all add: putCompensation_def)

definition createCompensation ::
  "id \<Rightarrow> id \<Rightarrow> id \<Rightarrow> compensation_dto \<Rightarrow> 'a payroll_db_scheme \<Rightarrow> (compensation \<times> 'a payroll_db_scheme) result" where
  "createCompensation employeeId company user dto db =
     andThen (validateDateRange (Some (snd (ct_from dto))) (map_option snd (ct_to dto))) (\<lambda>_.
     andThen (orThrow (findEmployee employeeId company db) (AppException ValidationError)) (\<lambda>_.
     andThen (assertNoOverlap (\<lambda>c. cm_employee c = employeeId) (fst (ct_from dto)) (map_option fst (ct_to dto))
       None (compensations db)) (\<lambda>_.
     let c = \<lparr>dr_id = hrIds db, dr_from = fst (ct_from dto), dr_to = map_option fst (ct_to dto), cm_company = company,
           cm_employee = employeeId, cm_salary = ct_salary dto, cm_currency = ct_currency dto, cm_createdBy = user\<rparr>
     in Inr (c, putCompensation c db))))"

text \<open>\<open>ORDER BY effectiveFrom DESC\<close> with \<open>getOne\<close>.\<close>

definition latestFrom :: "'r dated_scheme list \<Rightarrow> 'r dated_scheme option" where
  "latestFrom rs =
     (case rs of [] \<Rightarrow> None
      | r # rest \<Rightarrow> Some (fold (\<lambda>x best. if day_le (dr_from x) (dr_from best) then best else x) rest r))"

definition compensationAsOf :: "id \<Rightarrow> day \<Rightarrow> 'a payroll_db_scheme \<Rightarrow> compensation option" where
  "compensationAsOf employeeId d db =
     latestFrom (filter (\<lambda>c. cm_employee c = employeeId \<and> effectiveOn d c) (compensations db))"

section \<open>Components of employees\<close>

definition putEmployeeComponent :: "employee_component \<Rightarrow> 'a payroll_db_scheme \<Rightarrow> 'a payroll_db_scheme" where
  "putEmployeeComponent c db = db\<lparr>employeeComponents := employeeComponents db @ [c], hrIds := Suc (hrIds db)\<rparr>"

interpretation component_table: dated_table employeeComponents "\<lambda>a. (ec_employee a, ec_component a)" hrIds putEmployeeComponent
  by unfold_locales (simp_all add: putEmployeeComponent_def)

definition createEmployeeComponent ::
  "id \<Rightarrow> id \<Rightarrow> employee_component_dto \<Rightarrow> 'a payroll_db_scheme \<Rightarrow> (employee_component \<times> 'a payroll_db_scheme) result" where
  "createEmployeeComponent employeeId company dto db =
     andThen (validateDateRange (Some (snd (et_from dto))) (map_option snd (et_to dto))) (\<lambda>_.
     andThen (orThrow (findEmployee employeeId company db) (AppException ValidationError)) (\<lambda>_.
     andThen (orThrow (List.find (\<lambda>c. cp_id c = et_component dto \<and> cp_company c = company \<and> \<not> cp_deleted c)
       (payComponents db)) (AppException ValidationError)) (\<lambda>c.
     if \<not> cp_active c then Inl (AppException ValidationError)
     else andThen (assertNoOverlap (\<lambda>x. ec_employee x = employeeId \<and> ec_component x = et_component dto)
       (fst (et_from dto)) (map_option fst (et_to dto)) None (employeeComponents db)) (\<lambda>_.
     let a = \<lparr>dr_id = hrIds db, dr_from = fst (et_from dto), dr_to = map_option fst (et_to dto),
           ec_employee = employeeId, ec_component = et_component dto, ec_amount = et_amount dto,
           ec_percentage = et_percentage dto\<rparr>
     in Inr (a, putEmployeeComponent a db)))))"

definition componentsAsOf :: "id \<Rightarrow> day \<Rightarrow> 'a payroll_db_scheme \<Rightarrow> employee_component list" where
  "componentsAsOf employeeId d db = filter (\<lambda>a. ec_employee a = employeeId \<and> effectiveOn d a) (employeeComponents db)"

section \<open>Configuration\<close>

definition configOf :: "id \<Rightarrow> 'a payroll_db_scheme \<Rightarrow> pay_config result" where
  "configOf company db =
     orThrow (List.find (\<lambda>c. cf_company c = company) (payConfigs db)) (AppException UnprocessableEntity)"

definition upsertConfig ::
  "org_db \<Rightarrow> id \<Rightarrow> id \<Rightarrow> string \<Rightarrow> unpaid_leave \<Rightarrow> nat option \<Rightarrow> 'a payroll_db_scheme
    \<Rightarrow> (pay_config \<times> 'a payroll_db_scheme) result" where
  "upsertConfig org company user currency unpaid workingDays db =
     andThen (assertActiveCompany org company) (\<lambda>_.
     if unpaid = DailyRate \<and> (workingDays = None \<or> workingDays = Some 0) then Inl (AppException ValidationError)
     else
       let c = \<lparr>cf_company = company, cf_currency = currency, cf_unpaid = unpaid,
             cf_workingDays = (if unpaid = DailyRate then workingDays else None), cf_updatedBy = user\<rparr>
       in Inr (c, if \<exists>x \<in> set (payConfigs db). cf_company x = company
                  then db\<lparr>payConfigs := map (\<lambda>x. if cf_company x = company then c else x) (payConfigs db)\<rparr>
                  else db\<lparr>payConfigs := payConfigs db @ [c]\<rparr>))"

section \<open>Shifts\<close>

definition findShift :: "id \<Rightarrow> id \<Rightarrow> 'a payroll_db_scheme \<Rightarrow> shift result" where
  "findShift i company db =
     orThrow (List.find (\<lambda>s. sh_id s = i \<and> sh_company s = company \<and> \<not> sh_deleted s) (shifts db)) (AppException NotFound)"

definition saveShift :: "shift \<Rightarrow> 'a payroll_db_scheme \<Rightarrow> shift \<times> 'a payroll_db_scheme" where
  "saveShift s db = (s, db\<lparr>shifts := map (\<lambda>x. if sh_id x = sh_id s then s else x) (shifts db)\<rparr>)"

definition createShift ::
  "org_db \<Rightarrow> id \<Rightarrow> id \<Rightarrow> shift_dto \<Rightarrow> 'a payroll_db_scheme \<Rightarrow> (shift \<times> 'a payroll_db_scheme) result" where
  "createShift org company user dto db =
     andThen (assertActiveCompany org company) (\<lambda>_.
     if \<exists>x \<in> set (shifts db). sh_company x = company \<and> sh_code x = so_code dto \<and> \<not> sh_deleted x
     then Inl (AppException Conflict)
     else if \<exists>x \<in> set (shifts db). sh_company x = company \<and> sh_code x = so_code dto
     then Inl (DupEntry ''company_code'')
     else
       let s = \<lparr>sh_id = hrIds db, sh_company = company, sh_branch = so_branch dto, sh_name = so_name dto,
             sh_code = so_code dto, sh_start = so_start dto, sh_end = so_end dto, sh_break = keep (so_break dto) 0,
             sh_grace = keep (so_grace dto) 0, sh_active = True, sh_updatedBy = user, sh_deleted = False\<rparr>
       in Inr (s, db\<lparr>shifts := shifts db @ [s], hrIds := Suc (hrIds db)\<rparr>))"

definition updateShift ::
  "id \<Rightarrow> id \<Rightarrow> id \<Rightarrow> shift_update_dto \<Rightarrow> 'a payroll_db_scheme \<Rightarrow> (shift \<times> 'a payroll_db_scheme) result" where
  "updateShift i company user dto db =
     andThen (findShift i company db) (\<lambda>s.
     Inr (saveShift (s\<lparr>sh_name := keep (su_name dto) (sh_name s), sh_start := keep (su_start dto) (sh_start s),
       sh_end := keep (su_end dto) (sh_end s), sh_break := keep (su_break dto) (sh_break s),
       sh_grace := keep (su_grace dto) (sh_grace s), sh_active := keep (su_active dto) (sh_active s),
       sh_updatedBy := user\<rparr>) db))"

definition removeShift :: "id \<Rightarrow> id \<Rightarrow> 'a payroll_db_scheme \<Rightarrow> (shift \<times> 'a payroll_db_scheme) result" where
  "removeShift i company db =
     andThen (findShift i company db) (\<lambda>s.
     if \<exists>a \<in> set (shiftAssignments db). sx_shift a = i then Inl (AppException Conflict)
     else Inr (saveShift (s\<lparr>sh_deleted := True\<rparr>) db))"

definition putShiftAssignment :: "shift_assignment \<Rightarrow> 'a payroll_db_scheme \<Rightarrow> 'a payroll_db_scheme" where
  "putShiftAssignment a db = db\<lparr>shiftAssignments := shiftAssignments db @ [a], hrIds := Suc (hrIds db)\<rparr>"

interpretation shift_table: dated_table shiftAssignments sx_employee hrIds putShiftAssignment
  by unfold_locales (simp_all add: putShiftAssignment_def)

definition createShiftAssignment ::
  "id \<Rightarrow> id \<Rightarrow> shift_assignment_dto \<Rightarrow> 'a payroll_db_scheme \<Rightarrow> (shift_assignment \<times> 'a payroll_db_scheme) result" where
  "createShiftAssignment employeeId company dto db =
     andThen (validateDateRange (Some (snd (st_from dto))) (map_option snd (st_to dto))) (\<lambda>_.
     andThen (orThrow (findEmployee employeeId company db) (AppException ValidationError)) (\<lambda>_.
     andThen (orThrow (List.find (\<lambda>s. sh_id s = st_shift dto \<and> sh_company s = company \<and> \<not> sh_deleted s) (shifts db))
       (AppException ValidationError)) (\<lambda>_.
     andThen (assertNoOverlap (\<lambda>x. sx_employee x = employeeId) (fst (st_from dto)) (map_option fst (st_to dto))
       None (shiftAssignments db)) (\<lambda>_.
     let a = \<lparr>dr_id = hrIds db, dr_from = fst (st_from dto), dr_to = map_option fst (st_to dto),
           sx_employee = employeeId, sx_shift = st_shift dto\<rparr>
     in Inr (a, putShiftAssignment a db)))))"

definition shiftAsOf :: "id \<Rightarrow> day \<Rightarrow> 'a payroll_db_scheme \<Rightarrow> shift_assignment option" where
  "shiftAsOf employeeId d db =
     latestFrom (filter (\<lambda>a. sx_employee a = employeeId \<and> effectiveOn d a) (shiftAssignments db))"

end
