(* ===== verification/Payroll.thy ===== *)
theory Payroll
  imports Payroll_Setup Double_Entry Catalog Calendar
begin

text \<open>
  Payroll periods (\<open>payroll/services/payroll-periods.service.ts\<close>) and runs (\<open>payroll-runs.service.ts\<close>): a run is
  created for an open period, calculated once, and then finalized or cancelled; the calculation takes each active
  employee's compensation and components as of the first day of the period, the approved unpaid leave within it, and
  stores a payslip with its items and the totals of the run, all in one transaction. Cents are JavaScript numbers while
  they are added up.
\<close>

section \<open>Periods\<close>

definition generatePeriodNumber :: "id \<Rightarrow> nat \<Rightarrow> 'a payroll_db_scheme \<Rightarrow> string \<times> 'a payroll_db_scheme" where
  "generatePeriodNumber company year db =
     (let (nextSequence, t) = next_sequence company year (periodCounters db)
      in (formatDocumentNumber ''PP'' year nextSequence, db\<lparr>periodCounters := t\<rparr>))"

interpretation period_numbers: numbering generatePeriodNumber periodCounters "''PP''"
  by unfold_locales (simp_all add: generatePeriodNumber_def next_sequence_eq)

record period_dto =
  pd_name :: string
  pd_start :: date_string
  pd_end :: date_string
  pd_pay :: date_string

definition savePeriod :: "pay_period \<Rightarrow> 'a payroll_db_scheme \<Rightarrow> 'a payroll_db_scheme" where
  "savePeriod p db = db\<lparr>payPeriods := map (\<lambda>x. if pp_id x = pp_id p then p else x) (payPeriods db)\<rparr>"

definition createPeriod ::
  "org_db \<Rightarrow> id \<Rightarrow> id \<Rightarrow> period_dto \<Rightarrow> 'a payroll_db_scheme \<Rightarrow> (pay_period \<times> 'a payroll_db_scheme) result" where
  "createPeriod org company user dto db =
     andThen (validateDateRange (Some (snd (pd_start dto))) (Some (snd (pd_end dto)))) (\<lambda>_.
     if \<not> date_le (snd (pd_end dto)) (snd (pd_pay dto)) then Inl (AppException ValidationError)
     else andThen (assertActiveCompany org company) (\<lambda>_.
     if \<exists>p \<in> set (payPeriods db). pp_company p = company \<and> pp_start p = fst (pd_start dto) \<and> pp_end p = fst (pd_end dto)
     then Inl (AppException Conflict)
     else
       let (number, db1) = generatePeriodNumber company (getUTCFullYear (snd (pd_start dto))) db;
           p = \<lparr>pp_id = hrIds db1, pp_company = company, pp_number = number, pp_name = pd_name dto,
             pp_start = fst (pd_start dto), pp_end = fst (pd_end dto), pp_pay = fst (pd_pay dto), pp_status = PpOpen,
             pp_updatedBy = user\<rparr>
       in Inr (p, db1\<lparr>payPeriods := payPeriods db1 @ [p], hrIds := Suc (hrIds db1)\<rparr>)))"

text \<open>The run that \<open>findOne\<close> returns for a period is the first in the order of the database.\<close>

definition cancelPeriod ::
  "id \<Rightarrow> id \<Rightarrow> id \<Rightarrow> 'a payroll_db_scheme \<Rightarrow> (pay_period \<times> 'a payroll_db_scheme) result" where
  "cancelPeriod i company user db =
     andThen (orThrow (List.find (\<lambda>p. pp_id p = i \<and> pp_company p = company) (payPeriods db)) (AppException NotFound)) (\<lambda>p.
     if pp_status p \<noteq> PpOpen \<and> pp_status p \<noteq> PpProcessing then Inl (AppException UnprocessableEntity)
     else if (case List.find (\<lambda>r. rn_period r = i) (payRuns db) of
                None \<Rightarrow> False | Some r \<Rightarrow> rn_status r \<noteq> RnCancelled \<and> rn_status r \<noteq> RnDraft)
     then Inl (AppException Conflict)
     else let p' = p\<lparr>pp_status := PpCancelled, pp_updatedBy := user\<rparr> in Inr (p', savePeriod p' db))"

definition markProcessing :: "id \<Rightarrow> 'a payroll_db_scheme \<Rightarrow> 'a payroll_db_scheme result" where
  "markProcessing i db =
     andThen (orThrow (List.find (\<lambda>p. pp_id p = i) (payPeriods db)) (AppException NotFound)) (\<lambda>p.
     if pp_status p \<noteq> PpOpen then Inl (AppException UnprocessableEntity)
     else Inr (savePeriod (p\<lparr>pp_status := PpProcessing\<rparr>) db))"

definition markFinalized :: "id \<Rightarrow> 'a payroll_db_scheme \<Rightarrow> 'a payroll_db_scheme result" where
  "markFinalized i db =
     andThen (orThrow (List.find (\<lambda>p. pp_id p = i) (payPeriods db)) (AppException NotFound)) (\<lambda>p.
     if pp_status p \<noteq> PpProcessing then Inl (AppException UnprocessableEntity)
     else Inr (savePeriod (p\<lparr>pp_status := PpFinalized\<rparr>) db))"

definition revertToOpen :: "id \<Rightarrow> 'a payroll_db_scheme \<Rightarrow> 'a payroll_db_scheme result" where
  "revertToOpen i db =
     andThen (orThrow (List.find (\<lambda>p. pp_id p = i) (payPeriods db)) (AppException NotFound)) (\<lambda>p.
     Inr (if pp_status p \<noteq> PpProcessing then db else savePeriod (p\<lparr>pp_status := PpOpen\<rparr>) db))"

section \<open>Runs\<close>

definition generateRunNumber :: "id \<Rightarrow> nat \<Rightarrow> 'a payroll_db_scheme \<Rightarrow> string \<times> 'a payroll_db_scheme" where
  "generateRunNumber company year db =
     (let (nextSequence, t) = next_sequence company year (runCounters db)
      in (formatDocumentNumber ''PR'' year nextSequence, db\<lparr>runCounters := t\<rparr>))"

interpretation run_numbers: numbering generateRunNumber runCounters "''PR''"
  by unfold_locales (simp_all add: generateRunNumber_def next_sequence_eq)

definition saveRun :: "pay_run \<Rightarrow> 'a payroll_db_scheme \<Rightarrow> 'a payroll_db_scheme" where
  "saveRun r db = db\<lparr>payRuns := map (\<lambda>x. if rn_id x = rn_id r then r else x) (payRuns db)\<rparr>"

definition lockedRun :: "id \<Rightarrow> id \<Rightarrow> 'a payroll_db_scheme \<Rightarrow> pay_run result" where
  "lockedRun i company db =
     orThrow (List.find (\<lambda>r. rn_id r = i \<and> rn_company r = company) (payRuns db)) (AppException NotFound)"

definition createRun :: "id \<Rightarrow> id \<Rightarrow> id \<Rightarrow> 'a payroll_db_scheme \<Rightarrow> (pay_run \<times> 'a payroll_db_scheme) result" where
  "createRun company user periodId db =
     andThen (orThrow (List.find (\<lambda>p. pp_id p = periodId \<and> pp_company p = company) (payPeriods db))
       (AppException ValidationError)) (\<lambda>p.
     if pp_status p \<noteq> PpOpen then Inl (AppException UnprocessableEntity)
     else if \<exists>r \<in> set (payRuns db). rn_period r = periodId \<and> rn_status r \<noteq> RnCancelled then Inl (AppException Conflict)
     else
       let (number, db1) = generateRunNumber company (getUTCFullYear (pp_start p, 0)) db;
           r = \<lparr>rn_id = hrIds db1, rn_company = company, rn_period = periodId, rn_number = number, rn_status = RnDraft,
             rn_employeeCount = 0, rn_gross = 0, rn_deductions = 0, rn_net = 0, rn_startedAt = None,
             rn_completedAt = None, rn_finalizedAt = None, rn_createdBy = user, rn_finalizedBy = None\<rparr>
       in Inr (r, db1\<lparr>payRuns := payRuns db1 @ [r], hrIds := Suc (hrIds db1)\<rparr>))"

section \<open>Unpaid leave\<close>

definition unpaidLeaves :: "id \<Rightarrow> day \<Rightarrow> day \<Rightarrow> 'a payroll_db_scheme \<Rightarrow> leave_request list" where
  "unpaidLeaves employeeId periodStart periodEnd db =
     filter (\<lambda>v. lv_employee v = employeeId \<and> lv_status v = LvApproved
        \<and> (\<exists>t \<in> set (leaveTypes db). lt_id t = lv_type v \<and> \<not> lt_deleted t \<and> \<not> lt_paid t)
        \<and> day_le (lv_from v) periodEnd \<and> day_le periodStart (lv_to v)) (leaveRequests db)"

text \<open>The days of a leave within the period, from the difference of two midnights in milliseconds.\<close>

definition overlapDays :: "day \<Rightarrow> day \<Rightarrow> leave_request \<Rightarrow> int" where
  "overlapDays periodStart periodEnd v =
     (let overlapStart = (if day_le (lv_from v) periodStart then periodStart else lv_from v);
          overlapEnd = (if day_le periodEnd (lv_to v) then periodEnd else lv_to v)
      in math_round (js_div (of_int (int (getTime (overlapEnd, 0)) - int (getTime (overlapStart, 0)))) 86400000) + 1)"

definition resolveUnpaidLeaveDays :: "id \<Rightarrow> day \<Rightarrow> day \<Rightarrow> 'a payroll_db_scheme \<Rightarrow> int" where
  "resolveUnpaidLeaveDays employeeId periodStart periodEnd db =
     sum_list (map (\<lambda>v. max (overlapDays periodStart periodEnd v) 0)
       (unpaidLeaves employeeId periodStart periodEnd db))"

section \<open>The payslip of an employee\<close>

text \<open>A line before it is stored, with its amount in cents.\<close>

record pay_line =
  pl_component :: "id option"
  pl_name :: string
  pl_code :: string
  pl_type :: component_type
  pl_calc :: calculation_type
  pl_cents :: real

definition amountCents :: "int \<Rightarrow> employee_component \<Rightarrow> pay_component \<Rightarrow> real" where
  "amountCents baseSalaryCents a c =
     (case cp_calc c of
        FixedAmount \<Rightarrow>
          of_int (toCents (case ec_amount a of Some x \<Rightarrow> x | None \<Rightarrow> (case cp_fixed c of Some y \<Rightarrow> y | None \<Rightarrow> 0)))
      | PercentageOfBase \<Rightarrow>
          let percentage = (case ec_percentage a of Some x \<Rightarrow> x
                            | None \<Rightarrow> (case cp_percentage c of Some y \<Rightarrow> y | None \<Rightarrow> 0))
          in of_int (math_round (js_div (js_mul (of_int baseSalaryCents) (js_num4 percentage)) 100)))"

definition componentLine ::
  "'a payroll_db_scheme \<Rightarrow> int \<Rightarrow> employee_component \<Rightarrow> pay_line list \<Rightarrow> pay_line list result" where
  "componentLine db baseSalaryCents a ls =
     andThen (orThrow (List.find (\<lambda>c. cp_id c = ec_component a \<and> \<not> cp_deleted c) (payComponents db)) EntityNotFound) (\<lambda>c.
     Inr (if \<not> cp_active c then ls
          else ls @ [\<lparr>pl_component = Some (cp_id c), pl_name = cp_name c, pl_code = cp_code c, pl_type = cp_type c,
                 pl_calc = cp_calc c, pl_cents = amountCents baseSalaryCents a c\<rparr>]))"

definition unpaidLine :: "int \<Rightarrow> int \<Rightarrow> nat \<Rightarrow> pay_line" where
  "unpaidLine baseSalaryCents unpaidDays workingDays =
     (let dailyRateCents = math_round (js_div (of_int baseSalaryCents) (of_nat workingDays))
      in \<lparr>pl_component = None, pl_name = ''Unpaid Leave Deduction'', pl_code = ''UNPAID_LEAVE'', pl_type = Deduction,
           pl_calc = FixedAmount, pl_cents = js_mul (of_int dailyRateCents) (of_int unpaidDays)\<rparr>)"

definition payLines ::
  "pay_config \<Rightarrow> pay_period \<Rightarrow> employee \<Rightarrow> compensation \<Rightarrow> 'a payroll_db_scheme \<Rightarrow> pay_line list result" where
  "payLines config p e salary db =
     (let baseSalaryCents = toCents (cm_salary salary)
      in andThen (forEach (componentLine db baseSalaryCents) (componentsAsOf (em_id e) (pp_start p) db) []) (\<lambda>ls.
         let unpaidDays = resolveUnpaidLeaveDays (em_id e) (pp_start p) (pp_end p) db
         in Inr (if cf_unpaid config = DailyRate
                 then (case cf_workingDays config of
                         None \<Rightarrow> ls
                       | Some n \<Rightarrow> if 0 < unpaidDays \<and> n \<noteq> 0 then ls @ [unpaidLine baseSalaryCents unpaidDays n] else ls)
                 else ls)))"

definition sumLines :: "component_type \<Rightarrow> pay_line list \<Rightarrow> real" where
  "sumLines ty ls = foldl (\<lambda>t l. js_add t (pl_cents l)) 0 (filter (\<lambda>l. pl_type l = ty) ls)"

definition assignmentAsOf :: "id \<Rightarrow> day \<Rightarrow> 'a payroll_db_scheme \<Rightarrow> assignment option" where
  "assignmentAsOf employeeId d db =
     latestFrom (filter (\<lambda>a. ea_employee a = employeeId \<and> effectiveOn d a) (assignments db))"

definition unitName :: "org_unit list \<Rightarrow> id option \<Rightarrow> string option" where
  "unitName us i =
     Option.bind i (\<lambda>k. map_option ou_name (List.find (\<lambda>u. ou_id u = k \<and> \<not> ou_deleted u) us))"

definition storeItem :: "id \<Rightarrow> pay_line \<Rightarrow> 'a payroll_db_scheme \<Rightarrow> 'a payroll_db_scheme" where
  "storeItem slip l db =
     db\<lparr>payItems := payItems db @ [\<lparr>py_slip = slip, py_component = pl_component l, py_name = pl_name l,
           py_code = pl_code l, py_type = pl_type l, py_calc = pl_calc l,
           py_amount = centsToDecimalString (pl_cents l)\<rparr>]\<rparr>"

text \<open>One turn of the loop over the employees; the totals are gross, deductions and net.\<close>

definition payEmployee ::
  "pay_config \<Rightarrow> pay_period \<Rightarrow> id \<Rightarrow> employee \<Rightarrow> 'a payroll_db_scheme \<times> real \<times> real \<times> real
    \<Rightarrow> ('a payroll_db_scheme \<times> real \<times> real \<times> real) result" where
  "payEmployee config p runId e st =
     (case st of (db, totalGross, totalDeductions, totalNet) \<Rightarrow>
        case compensationAsOf (em_id e) (pp_start p) db of
          None \<Rightarrow> Inr (db, totalGross, totalDeductions, totalNet)
        | Some salary \<Rightarrow>
            andThen (payLines config p e salary db) (\<lambda>ls.
            let a = assignmentAsOf (em_id e) (pp_start p) db;
                gross = js_add (of_int (toCents (cm_salary salary))) (sumLines Earning ls);
                deductions = sumLines Deduction ls;
                net = js_sub gross deductions;
                slip = \<lparr>ps_id = hrIds db, ps_run = runId, ps_employee = em_id e, ps_code = em_code e, ps_name = em_name e,
                  ps_department = unitName (departments db) (Option.bind a ea_department),
                  ps_designation = unitName (designations db) (Option.bind a ea_designation),
                  ps_base = cm_salary salary, ps_gross = centsToDecimalString gross,
                  ps_deductions = centsToDecimalString deductions, ps_net = centsToDecimalString net,
                  ps_status = PsCalculated\<rparr>;
                db1 = db\<lparr>payslips := payslips db @ [slip], hrIds := Suc (hrIds db)\<rparr>
            in Inr (fold (storeItem (ps_id slip)) ls db1,
                 js_add totalGross gross, js_add totalDeductions deductions, js_add totalNet net)))"

section \<open>Calculation, finalization, cancellation\<close>

definition calculateRun ::
  "id \<Rightarrow> id \<Rightarrow> jdate \<Rightarrow> jdate \<Rightarrow> 'a payroll_db_scheme \<Rightarrow> (pay_run \<times> 'a payroll_db_scheme) result" where
  "calculateRun i company startedAt completedAt db =
     andThen (lockedRun i company db) (\<lambda>r.
     if rn_status r \<noteq> RnDraft then Inl (AppException UnprocessableEntity)
     else
       let r1 = r\<lparr>rn_status := RnProcessing, rn_startedAt := Some startedAt\<rparr>;
           db1 = saveRun r1 db
       in andThen (orThrow (List.find (\<lambda>p. pp_id p = rn_period r) (payPeriods db1)) EntityNotFound) (\<lambda>p.
          andThen (markProcessing (pp_id p) db1) (\<lambda>db2.
          andThen (configOf company db2) (\<lambda>config.
          andThen (forEach (payEmployee config p (rn_id r))
            (filter (\<lambda>e. em_company e = company \<and> em_status e = EmActive) (employees db2)) (db2, 0, 0, 0))
            (\<lambda>(db3, totalGross, totalDeductions, totalNet).
            let r2 = r1\<lparr>rn_status := RnCalculated,
                  rn_employeeCount := length (filter (\<lambda>s. ps_run s = rn_id r) (payslips db3)),
                  rn_gross := centsToDecimalString totalGross, rn_deductions := centsToDecimalString totalDeductions,
                  rn_net := centsToDecimalString totalNet, rn_completedAt := Some completedAt\<rparr>
            in Inr (r2, saveRun r2 db3))))))"

definition finalizeRun ::
  "id \<Rightarrow> id \<Rightarrow> id \<Rightarrow> jdate \<Rightarrow> 'a payroll_db_scheme \<Rightarrow> (pay_run \<times> 'a payroll_db_scheme) result" where
  "finalizeRun i company user now db =
     andThen (lockedRun i company db) (\<lambda>r.
     if rn_status r \<noteq> RnCalculated then Inl (AppException UnprocessableEntity)
     else
       let db1 = db\<lparr>payslips := map (\<lambda>s. if ps_run s = rn_id r then s\<lparr>ps_status := PsFinalized\<rparr> else s) (payslips db)\<rparr>;
           r' = r\<lparr>rn_status := RnFinalized, rn_finalizedAt := Some now, rn_finalizedBy := Some user\<rparr>
       in andThen (markFinalized (rn_period r) (saveRun r' db1)) (\<lambda>db2. Inr (r', db2)))"

definition cancelRun :: "id \<Rightarrow> id \<Rightarrow> 'a payroll_db_scheme \<Rightarrow> (pay_run \<times> 'a payroll_db_scheme) result" where
  "cancelRun i company db =
     andThen (lockedRun i company db) (\<lambda>r.
     if rn_status r \<noteq> RnDraft \<and> rn_status r \<noteq> RnCalculated then Inl (AppException UnprocessableEntity)
     else
       let r' = r\<lparr>rn_status := RnCancelled\<rparr>; db1 = saveRun r' db
       in if rn_status r = RnCalculated then andThen (revertToOpen (rn_period r) db1) (\<lambda>db2. Inr (r', db2))
          else Inr (r', db1))"

end
