(* ===== verification/Payroll_Properties.thy ===== *)
theory Payroll_Properties
  imports Payroll
begin

text \<open>
  The lemmas about payroll: exact sums of the lines of a payslip and of the totals of a run, what the loop over the
  employees adds, and the invariant of periods, runs and payslips with its preservation by every operation. The
  properties are in \<open>Payroll_Theorems\<close>. The bound \<open>2 ^ 50\<close> on the cents of a run is eleven billion units.
\<close>

section \<open>Exact lines\<close>

definition line_int :: "pay_line \<Rightarrow> int" where
  "line_int l = \<lfloor>pl_cents l\<rfloor>"

definition integral :: "pay_line \<Rightarrow> bool" where
  "integral l \<longleftrightarrow> pl_cents l = of_int (line_int l)"

definition lines_size :: "pay_line list \<Rightarrow> int" where
  "lines_size ls = sum_list (map (\<lambda>l. \<bar>line_int l\<bar>) ls)"

definition lineTotal :: "component_type \<Rightarrow> pay_line list \<Rightarrow> int" where
  "lineTotal ty ls = sum_list (map line_int (filter (\<lambda>l. pl_type l = ty) ls))"

lemma lines_size_nonneg: "0 \<le> lines_size ls"
  unfolding lines_size_def by (rule abs_sum_nonneg)

lemma lineTotal_size: "\<bar>lineTotal ty ls\<bar> \<le> lines_size ls"
proof -
  have "\<bar>lineTotal ty ls\<bar> \<le> sum_list (map (\<lambda>l. \<bar>line_int l\<bar>) (filter (\<lambda>l. pl_type l = ty) ls))"
    unfolding lineTotal_def by (rule abs_sum_le)
  also have "\<dots> \<le> lines_size ls" unfolding lines_size_def by (rule sum_list_filter_le) simp
  finally show ?thesis .
qed

lemma sum_cents_from:
  assumes "\<bar>t\<bar> + lines_size ls \<le> 2 ^ 50" "\<forall>l \<in> set ls. integral l"
  shows "foldl (\<lambda>t l. js_add t (pl_cents l)) (of_int t) ls = of_int (t + sum_list (map line_int ls))"
  using assms
proof (induction ls arbitrary: t)
  case (Cons l ls)
  note n = lines_size_nonneg [of ls]
  have b: "\<bar>t + line_int l\<bar> + lines_size ls \<le> 2 ^ 50" using Cons.prems(1) by (simp add: lines_size_def)
  have "js_add (of_int t) (of_int (line_int l)) = of_int (t + line_int l)"
    using b n by (intro js_add_of_int) (simp; linarith)
  then show ?case using Cons.IH [OF b] Cons.prems(2) by (simp add: integral_def del: of_int_add)
qed simp

lemma sumLines_exact:
  assumes "lines_size ls \<le> 2 ^ 50" "\<forall>l \<in> set ls. integral l"
  shows "sumLines ty ls = of_int (lineTotal ty ls)"
proof -
  have "lines_size (filter (\<lambda>l. pl_type l = ty) ls) \<le> lines_size ls"
    unfolding lines_size_def by (rule sum_list_filter_le) simp
  then show ?thesis
    using sum_cents_from [of 0 "filter (\<lambda>l. pl_type l = ty) ls"] assms by (simp add: sumLines_def lineTotal_def)
qed

lemma js_sub_of_int: "\<bar>a - b\<bar> \<le> 2 ^ 53 - 1 \<Longrightarrow> js_sub (of_int a) (of_int b) = of_int (a - b)"
  unfolding js_sub_def by (metis fl_of_int of_int_diff)

text \<open>Whole numbers round to whole numbers, so every line is whole cents.\<close>

lemma fl_integral: "\<exists>m. fl (of_int n) = of_int m"
proof (cases "\<bar>n\<bar> \<le> 2 ^ 53 - 1")
  case True
  then show ?thesis using fl_of_int by blast
next
  case False
  define e where "e = binade \<bar>of_int n\<bar>"
  have "n \<noteq> 0" using False by auto
  then have n1: "(1::real) \<le> \<bar>of_int n\<bar>" by (simp flip: of_int_abs)
  have f: "\<lfloor>\<bar>of_int n :: real\<bar>\<rfloor> = \<bar>n\<bar>" by (simp flip: of_int_abs)
  have "\<not> bitlen \<bar>n\<bar> \<le> 53" using bitlen_le_iff_power [of "\<bar>n\<bar>" 53] False by simp
  then have "53 \<le> e" using n1 by (simp add: e_def binade_def f)
  then have p: "(2 :: real) powi (52 - e) = inverse (2 ^ nat (e - 52))" by (simp add: power_int_def inverse_eq_divide power_one_over)
  have "fl (of_int n) = of_int (rne (of_int n * 2 powi (52 - e))) / 2 powi (52 - e)"
    using \<open>n \<noteq> 0\<close> by (simp add: fl_def Let_def e_def)
  also have "\<dots> = of_int (rne (of_int n * 2 powi (52 - e)) * 2 ^ nat (e - 52))"
    by (subst (2) p) (simp add: divide_inverse)
  finally show ?thesis by blast
qed

lemma amountCents_floor: "of_int \<lfloor>amountCents b a c\<rfloor> = amountCents b a c"
  by (auto simp: amountCents_def Let_def split: calculation_type.splits)

lemma componentLines_integral:
  assumes "forEach (componentLine db b) as ls = Inr ls'" "\<forall>l \<in> set ls. integral l"
  shows "\<forall>l \<in> set ls'. integral l"
proof (rule forEach_invariant [where P = "\<lambda>ls. \<forall>l \<in> set ls. integral l", OF assms])
  fix a s t assume s: "\<forall>l \<in> set s. integral l" and t: "componentLine db b a s = Inr t"
  then show "\<forall>l \<in> set t. integral l"
    by (auto simp: componentLine_def integral_def line_int_def amountCents_floor split: if_splits)
qed

lemma unpaidLine_integral: "integral (unpaidLine b d n)"
proof -
  obtain m where "js_mul (of_int (math_round (js_div (of_int b) (of_nat n)))) (of_int d) = of_int m"
    unfolding js_mul_def using fl_integral [of "math_round (js_div (of_int b) (of_nat n)) * d"] by auto
  then show ?thesis by (simp add: integral_def line_int_def unpaidLine_def Let_def)
qed

lemma payLines_integral: "payLines config p e salary db = Inr ls \<Longrightarrow> \<forall>l \<in> set ls. integral l"
proof -
  assume p: "payLines config p e salary db = Inr ls"
  then obtain ls0 where f: "forEach (componentLine db (toCents (cm_salary salary))) (componentsAsOf (em_id e) (pp_start p) db) []
      = Inr ls0"
    and ls: "ls = ls0 \<or> (\<exists>d n. ls = ls0 @ [unpaidLine (toCents (cm_salary salary)) d n])"
    unfolding payLines_def Let_def by (auto split: if_splits option.splits)
  have "\<forall>l \<in> set ls0. integral l" by (rule componentLines_integral [OF f]) simp
  with ls show ?thesis using unpaidLine_integral by auto
qed

section \<open>One payslip\<close>

definition itemOf :: "id \<Rightarrow> pay_line \<Rightarrow> pay_item" where
  "itemOf slip l = \<lparr>py_slip = slip, py_component = pl_component l, py_name = pl_name l,
     py_code = pl_code l, py_type = pl_type l, py_calc = pl_calc l, py_amount = centsToDecimalString (pl_cents l)\<rparr>"

lemma storeItems: "fold (storeItem k) ls db = db\<lparr>payItems := payItems db @ map (itemOf k) ls\<rparr>"
  by (induction ls arbitrary: db) (simp_all add: storeItem_def itemOf_def)

definition itemSum :: "pay_item list \<Rightarrow> id \<Rightarrow> component_type \<Rightarrow> int" where
  "itemSum items k ty = sum_list (map py_amount (filter (\<lambda>y. py_slip y = k \<and> py_type y = ty) items))"

definition slip_exact :: "pay_item list \<Rightarrow> payslip \<Rightarrow> bool" where
  "slip_exact items s \<longleftrightarrow> ps_gross s = ps_base s + itemSum items (ps_id s) Earning
     \<and> ps_deductions s = itemSum items (ps_id s) Deduction \<and> ps_net s = ps_gross s - ps_deductions s"

lemma itemSum_append [simp]: "itemSum (xs @ ys) k ty = itemSum xs k ty + itemSum ys k ty"
  by (simp add: itemSum_def)

lemma itemSum_other: "\<forall>y \<in> set ys. py_slip y \<noteq> k \<Longrightarrow> itemSum ys k ty = 0"
proof -
  assume "\<forall>y \<in> set ys. py_slip y \<noteq> k"
  then have "filter (\<lambda>y. py_slip y = k \<and> py_type y = ty) ys = []" by (auto simp: filter_empty_conv)
  then show ?thesis by (simp add: itemSum_def)
qed

lemma item_amount:
  assumes "integral l" "\<bar>line_int l\<bar> \<le> 2 ^ 50"
  shows "py_amount (itemOf k l) = line_int l"
proof -
  have "centsToDecimalString (of_int (line_int l)) = line_int l" using assms(2) by (intro centsToDecimalString_exact) simp
  then show ?thesis using assms(1) by (simp add: itemOf_def integral_def)
qed

lemma line_size: "l \<in> set ls \<Longrightarrow> \<bar>line_int l\<bar> \<le> lines_size ls"
  unfolding lines_size_def by (rule member_le_sum_map) auto

lemma itemSum_lines:
  assumes "\<forall>l \<in> set ls. integral l" "lines_size ls \<le> 2 ^ 50"
  shows "itemSum (map (itemOf k) ls) k ty = lineTotal ty ls"
proof -
  have "\<forall>l \<in> set ls. py_amount (itemOf k l) = line_int l"
  proof
    fix l assume l: "l \<in> set ls"
    show "py_amount (itemOf k l) = line_int l" by (rule item_amount) (use assms l line_size [OF l] in auto)
  qed
  then show ?thesis
    by (induction ls) (simp_all add: itemSum_def lineTotal_def, simp add: itemOf_def)
qed

section \<open>The loop over the employees\<close>

text \<open>What the loop changes.\<close>

definition slips_frame :: "'a payroll_db_scheme \<Rightarrow> 'a payroll_db_scheme \<Rightarrow> bool" where
  "slips_frame db d \<longleftrightarrow> (\<exists>a b c. d = db\<lparr>payslips := a, payItems := b, hrIds := c\<rparr>)"

lemma slips_frame_refl: "slips_frame db db"
proof -
  have "db = db\<lparr>payslips := payslips db, payItems := payItems db, hrIds := hrIds db\<rparr>" by simp
  then show ?thesis unfolding slips_frame_def by blast
qed

lemma slips_frame_trans: "slips_frame db d \<Longrightarrow> slips_frame d e \<Longrightarrow> slips_frame db e"
  unfolding slips_frame_def by force

lemma slips_frame_same:
  assumes "slips_frame db d"
  shows "compensationAsOf i x d = compensationAsOf i x db" "payLines config p e c d = payLines config p e c db"
    "payRuns d = payRuns db" "payPeriods d = payPeriods db"
proof -
  obtain a b c' where d: "d = db\<lparr>payslips := a, payItems := b, hrIds := c'\<rparr>" using assms by (auto simp: slips_frame_def)
  have "componentLine d = componentLine db" by (intro ext) (simp add: d componentLine_def)
  then show "payLines config p e c d = payLines config p e c db"
    by (simp add: payLines_def componentsAsOf_def resolveUnpaidLeaveDays_def unpaidLeaves_def d)
  show "compensationAsOf i x d = compensationAsOf i x db" "payRuns d = payRuns db" "payPeriods d = payPeriods db"
    by (simp_all add: compensationAsOf_def d)
qed

definition paySize :: "pay_config \<Rightarrow> pay_period \<Rightarrow> 'a payroll_db_scheme \<Rightarrow> employee \<Rightarrow> int" where
  "paySize config p db e =
     (case compensationAsOf (em_id e) (pp_start p) db of None \<Rightarrow> 0
      | Some c \<Rightarrow> \<bar>cm_salary c\<bar> + (case payLines config p e c db of Inl _ \<Rightarrow> 0 | Inr ls \<Rightarrow> lines_size ls))"

lemma paySize_nonneg: "0 \<le> paySize config p db e"
  using lines_size_nonneg by (auto simp: paySize_def split: option.splits sum.splits)

text \<open>A payslip with its lines.\<close>

definition paysOut ::
  "pay_config \<Rightarrow> pay_period \<Rightarrow> id \<Rightarrow> 'a payroll_db_scheme \<Rightarrow> employee \<Rightarrow> payslip \<times> pay_line list \<Rightarrow> bool" where
  "paysOut config p k db e sl \<longleftrightarrow> (case sl of (s, ls) \<Rightarrow>
     (\<exists>c. compensationAsOf (em_id e) (pp_start p) db = Some c \<and> payLines config p e c db = Inr ls
        \<and> ps_base s = cm_salary c)
     \<and> (\<forall>l \<in> set ls. integral l) \<and> lines_size ls \<le> 2 ^ 50
     \<and> ps_run s = k \<and> ps_employee s = em_id e \<and> ps_status s = PsCalculated
     \<and> ps_gross s = ps_base s + lineTotal Earning ls \<and> ps_deductions s = lineTotal Deduction ls
     \<and> ps_net s = ps_gross s - ps_deductions s)"

text \<open>The bounds as numerals, for linear arithmetic.\<close>

lemma small_sums:
  "\<bar>a + b\<bar> \<le> 2251799813685247 \<Longrightarrow> js_add (of_int a) (of_int b) = of_int (a + b)"
  "\<bar>a - b\<bar> \<le> 2251799813685247 \<Longrightarrow> js_sub (of_int a) (of_int b) = of_int (a - b)"
  "\<bar>a\<bar> \<le> 2251799813685247 \<Longrightarrow> centsToDecimalString (of_int a) = a"
  by (simp_all add: js_add_of_int js_sub_of_int centsToDecimalString_exact del: of_int_add of_int_diff)

lemma payEmployee_step:
  assumes st: "payEmployee config p k e (db, of_int g, of_int d, of_int n) = Inr (db', G, D, N)"
    and some: "compensationAsOf (em_id e) (pp_start p) db = Some c"
    and b: "\<bar>g\<bar> + paySize config p db e \<le> 2 ^ 50" "\<bar>d\<bar> + paySize config p db e \<le> 2 ^ 50"
      "\<bar>n\<bar> + paySize config p db e \<le> 2 ^ 50"
  shows "\<exists>s ls. paysOut config p k db e (s, ls) \<and> ps_id s = hrIds db
    \<and> db' = db\<lparr>payslips := payslips db @ [s], payItems := payItems db @ map (itemOf (ps_id s)) ls, hrIds := Suc (hrIds db)\<rparr>
    \<and> G = of_int (g + ps_gross s) \<and> D = of_int (d + ps_deductions s) \<and> N = of_int (n + ps_net s)
    \<and> \<bar>g + ps_gross s\<bar> \<le> \<bar>g\<bar> + paySize config p db e \<and> \<bar>d + ps_deductions s\<bar> \<le> \<bar>d\<bar> + paySize config p db e
    \<and> \<bar>n + ps_net s\<bar> \<le> \<bar>n\<bar> + paySize config p db e"
proof -
  from st some obtain ls where ls: "payLines config p e c db = Inr ls" by (auto simp: payEmployee_def)
  note int = payLines_integral [OF ls]
  have size: "paySize config p db e = \<bar>cm_salary c\<bar> + lines_size ls" by (simp add: paySize_def some ls)
  have small: "\<bar>cm_salary c\<bar> + lines_size ls \<le> 2 ^ 50" using b(1) unfolding size by linarith
  then have small': "\<bar>cm_salary c\<bar> + lines_size ls \<le> 1125899906842624" by simp
  have b': "\<bar>g\<bar> + paySize config p db e \<le> 1125899906842624" "\<bar>d\<bar> + paySize config p db e \<le> 1125899906842624"
    "\<bar>n\<bar> + paySize config p db e \<le> 1125899906842624" using b by simp_all
  from small have lb: "lines_size ls \<le> 2 ^ 50" "\<bar>cm_salary c\<bar> \<le> 2 ^ 50" using lines_size_nonneg [of ls] by linarith+
  let ?b = "cm_salary c" and ?E = "lineTotal Earning ls" and ?D = "lineTotal Deduction ls"
  have disj: "\<bar>?E\<bar> + \<bar>?D\<bar> \<le> lines_size ls"
    unfolding lines_size_def lineTotal_def by (induction ls) auto
  have t: "toCents ?b = ?b" by (rule toCents_bounded [OF lb(2)])
  note sums = sumLines_exact [OF lb(1) int]
  have gross: "js_add (of_int ?b) (of_int ?E) = of_int (?b + ?E)" using disj small' by (intro small_sums(1)) linarith
  have net: "js_sub (of_int (?b + ?E)) (of_int ?D) = of_int (?b + ?E - ?D)" using disj small' by (intro small_sums(2)) linarith
  have dec: "centsToDecimalString (of_int (?b + ?E)) = ?b + ?E" "centsToDecimalString (of_int ?D) = ?D"
    "centsToDecimalString (of_int (?b + ?E - ?D)) = ?b + ?E - ?D"
    by (rule small_sums(3); use disj small' in linarith)+
  have tot: "js_add (of_int g) (of_int (?b + ?E)) = of_int (g + (?b + ?E))" "js_add (of_int d) (of_int ?D) = of_int (d + ?D)"
    "js_add (of_int n) (of_int (?b + ?E - ?D)) = of_int (n + (?b + ?E - ?D))"
    by (rule small_sums(1); use disj b' size in linarith)+
  define s where "s = \<lparr>ps_id = hrIds db, ps_run = k, ps_employee = em_id e, ps_code = em_code e, ps_name = em_name e,
    ps_department = unitName (departments db) (Option.bind (assignmentAsOf (em_id e) (pp_start p) db) ea_department),
    ps_designation = unitName (designations db) (Option.bind (assignmentAsOf (em_id e) (pp_start p) db) ea_designation),
    ps_base = ?b, ps_gross = ?b + ?E, ps_deductions = ?D, ps_net = ?b + ?E - ?D, ps_status = PsCalculated\<rparr>"
  have s: "ps_id s = hrIds db" "ps_run s = k" "ps_employee s = em_id e" "ps_base s = ?b" "ps_status s = PsCalculated"
    "ps_gross s = ?b + ?E" "ps_deductions s = ?D" "ps_net s = ?b + ?E - ?D" by (simp_all add: s_def)
  from st have db': "db' = db\<lparr>payslips := payslips db @ [s], hrIds := Suc (hrIds db), payItems := payItems db @ map (itemOf (ps_id s)) ls\<rparr>"
    and GDN: "G = of_int (g + (?b + ?E))" "D = of_int (d + ?D)" "N = of_int (n + (?b + ?E - ?D))"
    unfolding payEmployee_def
    by (simp_all add: some ls Let_def t sums gross net dec tot storeItems s_def del: of_int_add of_int_diff)
  have "paysOut config p k db e (s, ls)" using s some ls int lb(1) by (simp add: paysOut_def)
  moreover have "db' = db\<lparr>payslips := payslips db @ [s], payItems := payItems db @ map (itemOf (ps_id s)) ls, hrIds := Suc (hrIds db)\<rparr>"
    by (simp add: db')
  ultimately show ?thesis using s GDN disj size by (intro exI [of _ s] exI [of _ ls] conjI) (assumption | simp | linarith)+
qed

lemma pay_same:
  assumes "slips_frame db d"
  shows "paysOut config p k d = paysOut config p k db" "paySize config p d = paySize config p db"
  unfolding paysOut_def [abs_def] paySize_def [abs_def] slips_frame_same [OF assms] by (rule refl)+

definition paid :: "pay_period \<Rightarrow> 'a payroll_db_scheme \<Rightarrow> employee \<Rightarrow> bool" where
  "paid p db e \<longleftrightarrow> compensationAsOf (em_id e) (pp_start p) db \<noteq> None"

lemma payEmployees:
  assumes "forEach (payEmployee config p k) es (db, of_int g, of_int d, of_int n) = Inr (db', G, D, N)"
    and "\<bar>g\<bar> + sum_list (map (paySize config p db) es) \<le> 2 ^ 50" "\<bar>d\<bar> + sum_list (map (paySize config p db) es) \<le> 2 ^ 50"
      "\<bar>n\<bar> + sum_list (map (paySize config p db) es) \<le> 2 ^ 50"
  shows "\<exists>out. slips_frame db db' \<and> payslips db' = payslips db @ map fst out
    \<and> payItems db' = payItems db @ concat (map (\<lambda>(s, ls). map (itemOf (ps_id s)) ls) out)
    \<and> map (ps_id \<circ> fst) out = [hrIds db..<hrIds db'] \<and> hrIds db \<le> hrIds db'
    \<and> list_all2 (paysOut config p k db) (filter (paid p db) es) out
    \<and> G = of_int (g + sum_list (map (ps_gross \<circ> fst) out)) \<and> D = of_int (d + sum_list (map (ps_deductions \<circ> fst) out))
    \<and> N = of_int (n + sum_list (map (ps_net \<circ> fst) out))
    \<and> \<bar>g + sum_list (map (ps_gross \<circ> fst) out)\<bar> \<le> \<bar>g\<bar> + sum_list (map (paySize config p db) es)
    \<and> \<bar>d + sum_list (map (ps_deductions \<circ> fst) out)\<bar> \<le> \<bar>d\<bar> + sum_list (map (paySize config p db) es)
    \<and> \<bar>n + sum_list (map (ps_net \<circ> fst) out)\<bar> \<le> \<bar>n\<bar> + sum_list (map (paySize config p db) es)"
  using assms
proof (induction es arbitrary: db g d n)
  case Nil
  then show ?case using slips_frame_refl [of db] by (intro exI [of _ "[]"]) simp
next
  case (Cons e es)
  let ?S = "sum_list (map (paySize config p db) es)"
  have S: "0 \<le> ?S" "0 \<le> paySize config p db e" by (rule sum_list_nonneg_map) (simp_all add: paySize_nonneg)
  have w: "sum_list (map (paySize config p db) (e # es)) = paySize config p db e + ?S" by simp
  note bounds = Cons.prems(2-4) [unfolded w]
  show ?case
  proof (cases "compensationAsOf (em_id e) (pp_start p) db")
    case None
    then have t: "payEmployee config p k e (db, of_int g, of_int d, of_int n) = Inr (db, of_int g, of_int d, of_int n)"
      by (simp add: payEmployee_def)
    have b: "\<bar>g\<bar> + ?S \<le> 2 ^ 50" "\<bar>d\<bar> + ?S \<le> 2 ^ 50" "\<bar>n\<bar> + ?S \<le> 2 ^ 50" using bounds S by linarith+
    have "filter (paid p db) (e # es) = filter (paid p db) es" by (simp add: paid_def None)
    moreover have "paySize config p db e = 0" by (simp add: paySize_def None)
    ultimately show ?thesis using Cons.IH [OF _ b] Cons.prems(1) by (simp add: t)
  next
    case (Some c)
    from Cons.prems(1) obtain db1 G1 D1 N1 where
      e: "payEmployee config p k e (db, of_int g, of_int d, of_int n) = Inr (db1, G1, D1, N1)"
      and rest: "forEach (payEmployee config p k) es (db1, G1, D1, N1) = Inr (db', G, D, N)" by auto
    have "\<bar>g\<bar> + paySize config p db e \<le> 2 ^ 50" "\<bar>d\<bar> + paySize config p db e \<le> 2 ^ 50" "\<bar>n\<bar> + paySize config p db e \<le> 2 ^ 50"
      using bounds S by linarith+
    from payEmployee_step [OF e Some this] obtain s ls where
      s: "paysOut config p k db e (s, ls)" "ps_id s = hrIds db"
      and db1: "db1 = db\<lparr>payslips := payslips db @ [s], payItems := payItems db @ map (itemOf (ps_id s)) ls, hrIds := Suc (hrIds db)\<rparr>"
      and G1: "G1 = of_int (g + ps_gross s)" "D1 = of_int (d + ps_deductions s)" "N1 = of_int (n + ps_net s)"
      and le: "\<bar>g + ps_gross s\<bar> \<le> \<bar>g\<bar> + paySize config p db e" "\<bar>d + ps_deductions s\<bar> \<le> \<bar>d\<bar> + paySize config p db e"
        "\<bar>n + ps_net s\<bar> \<le> \<bar>n\<bar> + paySize config p db e" by blast
    have f: "slips_frame db db1" unfolding slips_frame_def db1 by blast
    note same = pay_same [OF f]
    have b: "\<bar>g + ps_gross s\<bar> + sum_list (map (paySize config p db1) es) \<le> 2 ^ 50"
      "\<bar>d + ps_deductions s\<bar> + sum_list (map (paySize config p db1) es) \<le> 2 ^ 50"
      "\<bar>n + ps_net s\<bar> + sum_list (map (paySize config p db1) es) \<le> 2 ^ 50"
      using bounds le unfolding same by linarith+
    have pd: "paid p db1 = paid p db" using slips_frame_same(1) [OF f] by (auto simp: paid_def fun_eq_iff)
    from Cons.IH [OF rest [unfolded G1] b] obtain out where
      out: "slips_frame db1 db'" "payslips db' = payslips db1 @ map fst out"
        "payItems db' = payItems db1 @ concat (map (\<lambda>(s, ls). map (itemOf (ps_id s)) ls) out)"
        "map (ps_id \<circ> fst) out = [hrIds db1..<hrIds db']" "hrIds db1 \<le> hrIds db'"
        "list_all2 (paysOut config p k db) (filter (paid p db) es) out"
      and sums: "G = of_int (g + ps_gross s + sum_list (map (ps_gross \<circ> fst) out))"
        "D = of_int (d + ps_deductions s + sum_list (map (ps_deductions \<circ> fst) out))"
        "N = of_int (n + ps_net s + sum_list (map (ps_net \<circ> fst) out))"
        "\<bar>g + ps_gross s + sum_list (map (ps_gross \<circ> fst) out)\<bar> \<le> \<bar>g + ps_gross s\<bar> + ?S"
        "\<bar>d + ps_deductions s + sum_list (map (ps_deductions \<circ> fst) out)\<bar> \<le> \<bar>d + ps_deductions s\<bar> + ?S"
        "\<bar>n + ps_net s + sum_list (map (ps_net \<circ> fst) out)\<bar> \<le> \<bar>n + ps_net s\<bar> + ?S"
      unfolding same pd by blast
    have ids: "map (ps_id \<circ> fst) ((s, ls) # out) = [hrIds db..<hrIds db']"
      using out(4,5) s(2) by (simp add: db1 upt_conv_Cons)
    have fl: "filter (paid p db) (e # es) = e # filter (paid p db) es" by (simp add: paid_def Some)
    have c: "sum_list (map (f \<circ> fst) ((s, ls) # out)) = f s + sum_list (map (f \<circ> fst) out)" for f :: "payslip \<Rightarrow> int" by simp
    show ?thesis
    proof (intro exI [of _ "(s, ls) # out"] conjI)
      show "slips_frame db db'" by (rule slips_frame_trans [OF f out(1)])
      show "payslips db' = payslips db @ map fst ((s, ls) # out)" unfolding out(2) by (simp add: db1)
      show "payItems db' = payItems db @ concat (map (\<lambda>(s, ls). map (itemOf (ps_id s)) ls) ((s, ls) # out))"
        unfolding out(3) by (simp add: db1)
      show "map (ps_id \<circ> fst) ((s, ls) # out) = [hrIds db..<hrIds db']" by (rule ids)
      show "hrIds db \<le> hrIds db'" using out(5) by (simp add: db1)
      show "list_all2 (paysOut config p k db) (filter (paid p db) (e # es)) ((s, ls) # out)"
        unfolding fl using s(1) out(6) by simp
      show "G = of_int (g + sum_list (map (ps_gross \<circ> fst) ((s, ls) # out)))"
        unfolding c sums(1) add.assoc by (rule refl)
      show "D = of_int (d + sum_list (map (ps_deductions \<circ> fst) ((s, ls) # out)))"
        unfolding c sums(2) add.assoc by (rule refl)
      show "N = of_int (n + sum_list (map (ps_net \<circ> fst) ((s, ls) # out)))"
        unfolding c sums(3) add.assoc by (rule refl)
      show "\<bar>g + sum_list (map (ps_gross \<circ> fst) ((s, ls) # out))\<bar> \<le> \<bar>g\<bar> + sum_list (map (paySize config p db) (e # es))"
        unfolding c w using sums(4) le(1) by linarith
      show "\<bar>d + sum_list (map (ps_deductions \<circ> fst) ((s, ls) # out))\<bar> \<le> \<bar>d\<bar> + sum_list (map (paySize config p db) (e # es))"
        unfolding c w using sums(5) le(2) by linarith
      show "\<bar>n + sum_list (map (ps_net \<circ> fst) ((s, ls) # out))\<bar> \<le> \<bar>n\<bar> + sum_list (map (paySize config p db) (e # es))"
        unfolding c w using sums(6) le(3) by linarith
    qed
  qed
qed

section \<open>The calculation of a run\<close>

definition activeEmployees :: "id \<Rightarrow> 'a payroll_db_scheme \<Rightarrow> employee list" where
  "activeEmployees company db = filter (\<lambda>e. em_company e = company \<and> em_status e = EmActive) (employees db)"

definition calcSize :: "id \<Rightarrow> pay_run \<Rightarrow> 'a payroll_db_scheme \<Rightarrow> int" where
  "calcSize company r db =
     (case (configOf company db, List.find (\<lambda>p. pp_id p = rn_period r) (payPeriods db)) of
        (Inr config, Some p) \<Rightarrow> sum_list (map (paySize config p db) (activeEmployees company db))
      | _ \<Rightarrow> 0)"

lemma saved_same:
  "compensationAsOf i x (savePeriod q (saveRun r db)) = compensationAsOf i x db"
  "payLines config p e c (savePeriod q (saveRun r db)) = payLines config p e c db"
proof -
  have "componentLine (savePeriod q (saveRun r db)) = componentLine db"
    by (intro ext) (simp add: componentLine_def savePeriod_def saveRun_def)
  then show "payLines config p e c (savePeriod q (saveRun r db)) = payLines config p e c db"
    by (simp add: payLines_def componentsAsOf_def resolveUnpaidLeaveDays_def unpaidLeaves_def savePeriod_def saveRun_def)
  show "compensationAsOf i x (savePeriod q (saveRun r db)) = compensationAsOf i x db"
    by (simp add: compensationAsOf_def savePeriod_def saveRun_def)
qed

lemma saved_pay:
  "paySize config p (savePeriod q (saveRun r db)) = paySize config p db"
  "paysOut config p k (savePeriod q (saveRun r db)) = paysOut config p k db"
  "paid p (savePeriod q (saveRun r db)) = paid p db"
  unfolding paySize_def [abs_def] paysOut_def [abs_def] paid_def [abs_def] saved_same by (rule refl)+

lemma calculateRun_laws:
  assumes c: "calculateRun i company t0 t1 db = Inr (r2, db')"
    and size: "\<And>r. lockedRun i company db = Inr r \<Longrightarrow> calcSize company r db \<le> 2 ^ 50"
  shows "\<exists>r p config out. lockedRun i company db = Inr r \<and> rn_status r = RnDraft
    \<and> List.find (\<lambda>p. pp_id p = rn_period r) (payPeriods db) = Some p \<and> pp_status p = PpOpen
    \<and> configOf company db = Inr config \<and> payPeriods db' = payPeriods (savePeriod (p\<lparr>pp_status := PpProcessing\<rparr>) db)
    \<and> payslips db' = payslips db @ map fst out
    \<and> payItems db' = payItems db @ concat (map (\<lambda>(s, ls). map (itemOf (ps_id s)) ls) out)
    \<and> map (ps_id \<circ> fst) out = [hrIds db..<hrIds db'] \<and> hrIds db \<le> hrIds db'
    \<and> list_all2 (paysOut config p (rn_id r) db) (filter (paid p db) (activeEmployees company db)) out
    \<and> r2 = r\<lparr>rn_status := RnCalculated, rn_startedAt := Some t0, rn_completedAt := Some t1,
         rn_employeeCount := length (filter (\<lambda>s. ps_run s = rn_id r) (payslips db')),
         rn_gross := sum_list (map (ps_gross \<circ> fst) out), rn_deductions := sum_list (map (ps_deductions \<circ> fst) out),
         rn_net := sum_list (map (ps_net \<circ> fst) out)\<rparr>
    \<and> payRuns db' = payRuns (saveRun r2 db)"
proof -
  from c obtain r where r: "lockedRun i company db = Inr r" "rn_status r = RnDraft"
    by (auto simp: calculateRun_def Let_def split: if_splits)
  let ?r1 = "r\<lparr>rn_status := RnProcessing, rn_startedAt := Some t0\<rparr>"
  from c r obtain p where p: "List.find (\<lambda>p. pp_id p = rn_period r) (payPeriods db) = Some p"
    by (auto simp: calculateRun_def Let_def saveRun_def)
  have pid: "pp_id p = rn_period r" using find_SomeD [OF p] by simp
  let ?db2 = "savePeriod (p\<lparr>pp_status := PpProcessing\<rparr>) (saveRun ?r1 db)"
  have mp: "markProcessing (pp_id p) (saveRun ?r1 db) = (if pp_status p \<noteq> PpOpen then Inl (AppException UnprocessableEntity)
      else Inr ?db2)"
    using p by (simp add: markProcessing_def pid) (simp add: saveRun_def)
  have open_p: "pp_status p = PpOpen" using c r p mp by (auto simp: calculateRun_def Let_def saveRun_def split: if_splits)
  have same: "employees ?db2 = employees db" "configOf company ?db2 = configOf company db" "payPeriods (saveRun ?r1 db) = payPeriods db"
    "payslips ?db2 = payslips db" "payItems ?db2 = payItems db" "hrIds ?db2 = hrIds db"
    by (simp_all add: savePeriod_def saveRun_def configOf_def)
  have f: "List.find (\<lambda>p. pp_id p = rn_period r) (payPeriods (saveRun ?r1 db)) = Some p" using p same(3) by simp
  have mp': "markProcessing (pp_id p) (saveRun ?r1 db) = Inr ?db2" using mp open_p by simp
  have run: "andThen (configOf company db) (\<lambda>config.
      andThen (forEach (payEmployee config p (rn_id r)) (activeEmployees company db) (?db2, 0, 0, 0))
        (\<lambda>(db3, totalGross, totalDeductions, totalNet).
          let r2 = ?r1\<lparr>rn_status := RnCalculated,
                  rn_employeeCount := length (filter (\<lambda>s. ps_run s = rn_id r) (payslips db3)),
                  rn_gross := centsToDecimalString totalGross, rn_deductions := centsToDecimalString totalDeductions,
                  rn_net := centsToDecimalString totalNet, rn_completedAt := Some t1\<rparr>
            in Inr (r2, saveRun r2 db3))) = Inr (r2, db')"
    using c unfolding calculateRun_def r(1) andThen_simps Let_def f mp' orThrow_simps same(2) activeEmployees_def [symmetric] same(1)
    by (simp add: r(2) activeEmployees_def same(1))
  then obtain config where config0: "configOf company db = Inr config" by (cases "configOf company db") simp_all
  obtain db3 G D N where config: "configOf company db = Inr config"
    and loop: "forEach (payEmployee config p (rn_id r)) (activeEmployees company db) (?db2, 0, 0, 0) = Inr (db3, G, D, N)"
    and r2: "r2 = ?r1\<lparr>rn_status := RnCalculated,
                  rn_employeeCount := length (filter (\<lambda>s. ps_run s = rn_id r) (payslips db3)),
                  rn_gross := centsToDecimalString G, rn_deductions := centsToDecimalString D,
                  rn_net := centsToDecimalString N, rn_completedAt := Some t1\<rparr>"
    and db': "db' = saveRun r2 db3"
    using run config0 by (simp add: Let_def) (elim exE conjE, blast)
  have size': "sum_list (map (paySize config p ?db2) (activeEmployees company db)) \<le> 2 ^ 50"
    using size [OF r(1)] by (simp add: calcSize_def config p saved_pay)
  have z: "\<bar>0 :: int\<bar> + sum_list (map (paySize config p ?db2) (activeEmployees company db)) \<le> 2 ^ 50" using size' by simp
  have loop': "forEach (payEmployee config p (rn_id r)) (activeEmployees company db) (?db2, of_int 0, of_int 0, of_int 0) = Inr (db3, G, D, N)"
    using loop by simp
  from payEmployees [OF loop' z z z] obtain out where
    fr: "slips_frame ?db2 db3" and out: "payslips db3 = payslips db @ map fst out"
      "payItems db3 = payItems db @ concat (map (\<lambda>(s, ls). map (itemOf (ps_id s)) ls) out)"
      "map (ps_id \<circ> fst) out = [hrIds db..<hrIds db3]" "hrIds db \<le> hrIds db3"
      "list_all2 (paysOut config p (rn_id r) db) (filter (paid p db) (activeEmployees company db)) out"
    and sums: "G = of_int (sum_list (map (ps_gross \<circ> fst) out))" "D = of_int (sum_list (map (ps_deductions \<circ> fst) out))"
      "N = of_int (sum_list (map (ps_net \<circ> fst) out))"
      "\<bar>sum_list (map (ps_gross \<circ> fst) out)\<bar> \<le> sum_list (map (paySize config p ?db2) (activeEmployees company db))"
      "\<bar>sum_list (map (ps_deductions \<circ> fst) out)\<bar> \<le> sum_list (map (paySize config p ?db2) (activeEmployees company db))"
      "\<bar>sum_list (map (ps_net \<circ> fst) out)\<bar> \<le> sum_list (map (paySize config p ?db2) (activeEmployees company db))"
    unfolding saved_pay same by auto
  have dec: "centsToDecimalString G = sum_list (map (ps_gross \<circ> fst) out)"
    "centsToDecimalString D = sum_list (map (ps_deductions \<circ> fst) out)" "centsToDecimalString N = sum_list (map (ps_net \<circ> fst) out)"
    unfolding sums(1-3) by (rule small_sums(3); use sums(4-6) size' in simp)+
  have "payRuns db3 = payRuns (saveRun ?r1 db)" "payPeriods db3 = payPeriods (savePeriod (p\<lparr>pp_status := PpProcessing\<rparr>) db)"
    using slips_frame_same(3,4) [OF fr] by (simp_all add: savePeriod_def saveRun_def)
  then have "payRuns db' = payRuns (saveRun r2 db)" "payPeriods db' = payPeriods (savePeriod (p\<lparr>pp_status := PpProcessing\<rparr>) db)"
    by (simp_all add: db' saveRun_def r2)
  moreover have "payslips db' = payslips db3" "payItems db' = payItems db3" "hrIds db' = hrIds db3" by (simp_all add: db' saveRun_def)
  ultimately show ?thesis using r p open_p config out
    by (intro exI [of _ r] exI [of _ p] exI [of _ config] exI [of _ out]) (simp add: r2 dec)
qed

end
