(* ===== verification/Payroll_Steps.thy ===== *)
theory Payroll_Steps
  imports Payroll
begin

text \<open>
  The operations of human resources and payroll as one step relation over the payroll database, and what each leaves
  alone: the maintenance of departments, leave types, attendance, components, shifts and the configuration touches
  neither the dated tables nor the leave requests, periods, runs and payslips.
\<close>

section \<open>The steps\<close>

text \<open>Maintenance: what payroll reads but no invariant is about. The employees change in their own service.\<close>

inductive setup_step :: "org_db \<Rightarrow> 'a payroll_db_scheme \<Rightarrow> 'a payroll_db_scheme \<Rightarrow> bool" for org where
  employees: "setup_step org db (db\<lparr>employees := es\<rparr>)"
| create_department: "createDepartment org company ud db = Inr (u, db') \<Longrightarrow> setup_step org db db'"
| update_department: "updateDepartment i company uu db = Inr (u, db') \<Longrightarrow> setup_step org db db'"
| department_status: "setDepartmentStatus st i company db = Inr (u, db') \<Longrightarrow> setup_step org db db'"
| remove_department: "removeDepartment i company db = Inr db' \<Longrightarrow> setup_step org db db'"
| create_designation: "createDesignation org company ud db = Inr (u, db') \<Longrightarrow> setup_step org db db'"
| update_designation: "updateDesignation i company uu db = Inr (u, db') \<Longrightarrow> setup_step org db db'"
| designation_status: "setDesignationStatus st i company db = Inr (u, db') \<Longrightarrow> setup_step org db db'"
| remove_designation: "removeDesignation i company db = Inr db' \<Longrightarrow> setup_step org db db'"
| create_leave_type: "createLeaveType org company ltd db = Inr (t, db') \<Longrightarrow> setup_step org db db'"
| update_leave_type: "updateLeaveType i company ltu db = Inr (t, db') \<Longrightarrow> setup_step org db db'"
| leave_type_status: "setLeaveTypeStatus st i company db = Inr (t, db') \<Longrightarrow> setup_step org db db'"
| remove_leave_type: "removeLeaveType i company db = Inr (t, db') \<Longrightarrow> setup_step org db db'"
| create_attendance: "createAttendance company ac db = Inr (a, db') \<Longrightarrow> setup_step org db db'"
| update_attendance: "updateAttendance i company au db = Inr (a, db') \<Longrightarrow> setup_step org db db'"
| create_component: "createComponent org company user co db = Inr (c, db') \<Longrightarrow> setup_step org db db'"
| update_component: "updateComponent i company user cx db = Inr (c, db') \<Longrightarrow> setup_step org db db'"
| component_active: "setComponentActive active i company user db = Inr (c, db') \<Longrightarrow> setup_step org db db'"
| remove_component: "removeComponent i company db = Inr (c, db') \<Longrightarrow> setup_step org db db'"
| upsert_config: "upsertConfig org company user currency unpaid n db = Inr (f, db') \<Longrightarrow> setup_step org db db'"
| create_shift: "createShift org company user so db = Inr (s, db') \<Longrightarrow> setup_step org db db'"
| update_shift: "updateShift i company user su db = Inr (s, db') \<Longrightarrow> setup_step org db db'"
| remove_shift: "removeShift i company db = Inr (s, db') \<Longrightarrow> setup_step org db db'"

text \<open>Rows with a window.\<close>

inductive dated_step :: "org_db \<Rightarrow> 'a payroll_db_scheme \<Rightarrow> 'a payroll_db_scheme \<Rightarrow> bool" for org where
  create_assignment: "createAssignment org eo db = Inr (a, db') \<Longrightarrow> dated_step org db db'"
| update_assignment: "updateAssignment org i company ep db = Inr (a, db') \<Longrightarrow> dated_step org db db'"
| create_compensation: "createCompensation e company user ct db = Inr (c, db') \<Longrightarrow> dated_step org db db'"
| create_employee_component: "createEmployeeComponent e company et db = Inr (x, db') \<Longrightarrow> dated_step org db db'"
| create_shift_assignment: "createShiftAssignment e company st db = Inr (y, db') \<Longrightarrow> dated_step org db db'"

inductive leave_step :: "'a payroll_db_scheme \<Rightarrow> 'a payroll_db_scheme \<Rightarrow> bool" where
  create_leave: "createLeaveRequest actor company ld ownOnly db = Inr (v, db') \<Longrightarrow> leave_step db db'"
| update_leave: "updateLeave i user company lu ownOnly db = Inr (v, db') \<Longrightarrow> leave_step db db'"
| decide_leave: "decideLeave approve i actor company now db = Inr (v, db') \<Longrightarrow> leave_step db db'"
| cancel_leave: "cancelLeave i actor company now db = Inr (v, db') \<Longrightarrow> leave_step db db'"

section \<open>Frames\<close>

definition pay_frame :: "'a payroll_db_scheme \<Rightarrow> 'a payroll_db_scheme \<Rightarrow> bool" where
  "pay_frame db d \<longleftrightarrow> payPeriods d = payPeriods db \<and> payRuns d = payRuns db \<and> payslips d = payslips db
     \<and> payItems d = payItems db \<and> hrIds db \<le> hrIds d"

definition dated_frame :: "'a payroll_db_scheme \<Rightarrow> 'a payroll_db_scheme \<Rightarrow> bool" where
  "dated_frame db d \<longleftrightarrow> assignments d = assignments db \<and> compensations d = compensations db
     \<and> employeeComponents d = employeeComponents db \<and> shiftAssignments d = shiftAssignments db \<and> hrIds db \<le> hrIds d"

definition leave_frame :: "'a payroll_db_scheme \<Rightarrow> 'a payroll_db_scheme \<Rightarrow> bool" where
  "leave_frame db d \<longleftrightarrow> leaveRequests d = leaveRequests db \<and> hrIds db \<le> hrIds d"

lemmas frame_defs = pay_frame_def dated_frame_def leave_frame_def

lemma setup_frames:
  assumes "setup_step org db d"
  shows "pay_frame db d \<and> dated_frame db d \<and> leave_frame db d"
  using assms
proof cases
  case employees
  then show ?thesis by (simp add: frame_defs)
next
  case create_department
  then show ?thesis by (auto simp: frame_defs createDepartment_def)
next
  case update_department
  then show ?thesis by (auto simp: frame_defs updateDepartment_def)
next
  case department_status
  then show ?thesis by (auto simp: frame_defs setDepartmentStatus_def)
next
  case remove_department
  then show ?thesis by (auto simp: frame_defs removeDepartment_def)
next
  case create_designation
  then show ?thesis by (auto simp: frame_defs createDesignation_def)
next
  case update_designation
  then show ?thesis by (auto simp: frame_defs updateDesignation_def)
next
  case designation_status
  then show ?thesis by (auto simp: frame_defs setDesignationStatus_def)
next
  case remove_designation
  then show ?thesis by (auto simp: frame_defs removeDesignation_def)
next
  case create_leave_type
  then show ?thesis by (auto simp: frame_defs createLeaveType_def Let_def split: if_splits)
next
  case update_leave_type
  then show ?thesis by (auto simp: frame_defs updateLeaveType_def saveLeaveType_def Let_def split: if_splits)
next
  case leave_type_status
  then show ?thesis by (auto simp: frame_defs setLeaveTypeStatus_def saveLeaveType_def split: if_splits)
next
  case remove_leave_type
  then show ?thesis by (auto simp: frame_defs removeLeaveType_def saveLeaveType_def split: if_splits)
next
  case create_attendance
  then show ?thesis by (auto simp: frame_defs createAttendance_def Let_def split: if_splits)
next
  case update_attendance
  then show ?thesis by (auto simp: frame_defs updateAttendance_def Let_def)
next
  case create_component
  then show ?thesis by (auto simp: frame_defs createComponent_def Let_def split: if_splits)
next
  case update_component
  then show ?thesis by (auto simp: frame_defs updateComponent_def saveComponent_def)
next
  case component_active
  then show ?thesis by (auto simp: frame_defs setComponentActive_def saveComponent_def)
next
  case remove_component
  then show ?thesis by (auto simp: frame_defs removeComponent_def getUsageSummary_def saveComponent_def Let_def split: if_splits)
next
  case upsert_config
  then show ?thesis by (auto simp: frame_defs upsertConfig_def Let_def split: if_splits)
next
  case create_shift
  then show ?thesis by (auto simp: frame_defs createShift_def Let_def split: if_splits)
next
  case update_shift
  then show ?thesis by (auto simp: frame_defs updateShift_def saveShift_def)
next
  case remove_shift
  then show ?thesis by (auto simp: frame_defs removeShift_def saveShift_def split: if_splits)
qed

lemma dated_frames:
  assumes "dated_step org db d"
  shows "pay_frame db d \<and> leave_frame db d"
  using assms
proof cases
  case create_assignment
  then show ?thesis by (auto simp: frame_defs createAssignment_def putAssignment_def Let_def)
next
  case update_assignment
  then show ?thesis by (auto simp: frame_defs updateAssignment_def saveAssignment_def Let_def)
next
  case create_compensation
  then show ?thesis by (auto simp: frame_defs createCompensation_def putCompensation_def Let_def)
next
  case create_employee_component
  then show ?thesis by (auto simp: frame_defs createEmployeeComponent_def putEmployeeComponent_def Let_def split: if_splits)
next
  case create_shift_assignment
  then show ?thesis by (auto simp: frame_defs createShiftAssignment_def putShiftAssignment_def Let_def)
qed

lemma leave_frames:
  assumes "leave_step db d"
  shows "pay_frame db d \<and> dated_frame db d"
  using assms
proof cases
  case create_leave
  then show ?thesis by (auto simp: frame_defs createLeaveRequest_def Let_def split: if_splits)
next
  case update_leave
  then show ?thesis by (auto simp: frame_defs updateLeave_def saveLeave_def)
next
  case decide_leave
  then show ?thesis by (auto simp: frame_defs decideLeave_def saveLeave_def Let_def split: if_splits)
next
  case cancel_leave
  then show ?thesis by (auto simp: frame_defs cancelLeave_def saveLeave_def Let_def split: if_splits)
qed

section \<open>Windows of one key are disjoint\<close>

definition windows_ok :: "'a payroll_db_scheme \<Rightarrow> bool" where
  "windows_ok db \<longleftrightarrow> assignment_table.disjoint_rows db \<and> compensation_table.disjoint_rows db
     \<and> component_table.disjoint_rows db \<and> shift_table.disjoint_rows db"

lemma windows_frame: "windows_ok db \<Longrightarrow> dated_frame db d \<Longrightarrow> windows_ok d"
  unfolding windows_ok_def dated_frame_def
  by (blast intro: assignment_table.disjoint_frame compensation_table.disjoint_frame component_table.disjoint_frame
    shift_table.disjoint_frame)

lemma dated_step_windows:
  assumes "dated_step org db d" "windows_ok db"
  shows "windows_ok d"
  using assms(1)
proof cases
  case (create_assignment eo a)
  from create_assignment have d: "d = putAssignment a db" and i: "dr_id a = hrIds db"
    and free: "assertNoOverlap (\<lambda>x. ea_employee x = ea_employee a) (dr_from a) (dr_to a) None (assignments db) = Inr ()"
    by (auto simp: createAssignment_def Let_def)
  have "assignment_table.disjoint_rows d" unfolding d
    by (rule assignment_table.put_disjoint [OF _ i free]) (use assms(2) in \<open>simp add: windows_ok_def\<close>)
  moreover have "compensations d = compensations db" "employeeComponents d = employeeComponents db"
    "shiftAssignments d = shiftAssignments db" "hrIds db \<le> hrIds d" by (simp_all add: d putAssignment_def)
  ultimately show ?thesis using assms(2) unfolding windows_ok_def
    by (blast intro: compensation_table.disjoint_frame component_table.disjoint_frame shift_table.disjoint_frame)
next
  case (update_assignment i company ep a)
  from update_assignment obtain a0 where f: "List.find (\<lambda>a. dr_id a = i \<and> ea_company a = company) (assignments db) = Some a0"
    and d: "d = saveAssignment a db" and same: "dr_id a = dr_id a0" "ea_employee a = ea_employee a0"
    and free: "assertNoOverlap (\<lambda>x. ea_employee x = ea_employee a0) (dr_from a) (dr_to a) (Some i) (assignments db) = Inr ()"
    by (auto simp: updateAssignment_def Let_def)
  from find_SomeD [OF f] have m: "a0 \<in> set (assignments db)" "dr_id a0 = i" by auto
  have "assignment_table.disjoint_rows d" unfolding d
    by (rule assignment_table.replace_disjoint [OF _ m(1) same free [folded m(2)]]) (use assms(2) in \<open>simp add: windows_ok_def\<close>)
  moreover have "compensations d = compensations db" "employeeComponents d = employeeComponents db"
    "shiftAssignments d = shiftAssignments db" "hrIds db \<le> hrIds d" by (simp_all add: d saveAssignment_def)
  ultimately show ?thesis using assms(2) unfolding windows_ok_def
    by (blast intro: compensation_table.disjoint_frame component_table.disjoint_frame shift_table.disjoint_frame)
next
  case (create_compensation e company user ct c)
  from create_compensation have d: "d = putCompensation c db" and i: "dr_id c = hrIds db"
    and free: "assertNoOverlap (\<lambda>x. cm_employee x = cm_employee c) (dr_from c) (dr_to c) None (compensations db) = Inr ()"
    by (auto simp: createCompensation_def Let_def)
  have "compensation_table.disjoint_rows d" unfolding d
    by (rule compensation_table.put_disjoint [OF _ i free]) (use assms(2) in \<open>simp add: windows_ok_def\<close>)
  moreover have "assignments d = assignments db" "employeeComponents d = employeeComponents db"
    "shiftAssignments d = shiftAssignments db" "hrIds db \<le> hrIds d" by (simp_all add: d putCompensation_def)
  ultimately show ?thesis using assms(2) unfolding windows_ok_def
    by (blast intro: assignment_table.disjoint_frame component_table.disjoint_frame shift_table.disjoint_frame)
next
  case (create_employee_component e company et x)
  from create_employee_component have d: "d = putEmployeeComponent x db" and i: "dr_id x = hrIds db"
    and free: "assertNoOverlap (\<lambda>y. (ec_employee y, ec_component y) = (ec_employee x, ec_component x)) (dr_from x) (dr_to x) None
      (employeeComponents db) = Inr ()"
    by (auto simp: createEmployeeComponent_def Let_def split: if_splits)
  have "component_table.disjoint_rows d" unfolding d
    by (rule component_table.put_disjoint [OF _ i free]) (use assms(2) in \<open>simp add: windows_ok_def\<close>)
  moreover have "assignments d = assignments db" "compensations d = compensations db"
    "shiftAssignments d = shiftAssignments db" "hrIds db \<le> hrIds d" by (simp_all add: d putEmployeeComponent_def)
  ultimately show ?thesis using assms(2) unfolding windows_ok_def
    by (blast intro: assignment_table.disjoint_frame compensation_table.disjoint_frame shift_table.disjoint_frame)
next
  case (create_shift_assignment e company st y)
  from create_shift_assignment have d: "d = putShiftAssignment y db" and i: "dr_id y = hrIds db"
    and free: "assertNoOverlap (\<lambda>x. sx_employee x = sx_employee y) (dr_from y) (dr_to y) None (shiftAssignments db) = Inr ()"
    by (auto simp: createShiftAssignment_def Let_def)
  have "shift_table.disjoint_rows d" unfolding d
    by (rule shift_table.put_disjoint [OF _ i free]) (use assms(2) in \<open>simp add: windows_ok_def\<close>)
  moreover have "assignments d = assignments db" "compensations d = compensations db"
    "employeeComponents d = employeeComponents db" "hrIds db \<le> hrIds d" by (simp_all add: d putShiftAssignment_def)
  ultimately show ?thesis using assms(2) unfolding windows_ok_def
    by (blast intro: assignment_table.disjoint_frame compensation_table.disjoint_frame component_table.disjoint_frame)
qed

section \<open>Decided leave requests stay\<close>

definition leaves_ok :: "'a hr_db_scheme \<Rightarrow> bool" where
  "leaves_ok db \<longleftrightarrow> distinct (map lv_id (leaveRequests db)) \<and> (\<forall>v \<in> set (leaveRequests db). lv_id v < hrIds db)"

definition leaves_kept :: "'a hr_db_scheme \<Rightarrow> 'a hr_db_scheme \<Rightarrow> bool" where
  "leaves_kept db d \<longleftrightarrow> (\<forall>v \<in> set (leaveRequests db). lv_status v \<noteq> LvPending \<longrightarrow> v \<in> set (leaveRequests d))"

lemma saveLeave_laws:
  assumes ok: "leaves_ok db" and m: "v \<in> set (leaveRequests db)" "lv_status v = LvPending" and i: "lv_id v' = lv_id v"
  shows "leaves_ok (saveLeave v' db) \<and> leaves_kept db (saveLeave v' db)"
proof -
  have ids: "map lv_id (leaveRequests (saveLeave v' db)) = map lv_id (leaveRequests db)" by (auto simp: saveLeave_def)
  have "lv_id x < hrIds db" if "x \<in> set (leaveRequests (saveLeave v' db))" for x
    using ok that i m by (auto simp: saveLeave_def leaves_ok_def split: if_splits)
  moreover have "x \<in> set (leaveRequests (saveLeave v' db))" if x: "x \<in> set (leaveRequests db)" "lv_status x \<noteq> LvPending" for x
  proof -
    have "lv_id x \<noteq> lv_id v" using ok x m by (auto simp: leaves_ok_def distinct_map dest: inj_onD)
    then show ?thesis using x i by (force simp: saveLeave_def)
  qed
  ultimately show ?thesis using ok unfolding leaves_ok_def leaves_kept_def ids by (simp add: saveLeave_def)
qed

lemma leave_step_laws:
  assumes "leave_step db d" "leaves_ok db"
  shows "leaves_ok d \<and> leaves_kept db d"
  using assms(1)
proof cases
  case (create_leave actor company ld ownOnly v)
  then have "leaveRequests d = leaveRequests db @ [v]" "hrIds d = Suc (hrIds db)" "lv_id v = hrIds db"
    by (auto simp: createLeaveRequest_def Let_def split: if_splits)
  then show ?thesis using assms(2) by (auto simp: leaves_ok_def leaves_kept_def less_Suc_eq)
next
  case (update_leave i user company lu ownOnly v)
  then obtain v0 where f: "findLeave i user company ownOnly db = Inr v0" "lv_status v0 = LvPending"
    and v: "lv_id v = lv_id v0" "d = saveLeave v db"
    by (auto simp: updateLeave_def updateLeaveRead_def split: if_splits)
  have "v0 \<in> set (leaveRequests db)" using f(1) find_SomeD by (fastforce simp: findLeave_def)
  then show ?thesis unfolding v(2) by (rule saveLeave_laws [OF assms(2) _ f(2) v(1)])
next
  case (decide_leave approve i actor company now v)
  then obtain v0 where f: "lockedLeave i company db = Inr v0" "lv_status v0 = LvPending"
    and v: "lv_id v = lv_id v0" "d = saveLeave v db"
    by (auto simp: decideLeave_def Let_def split: if_splits)
  have "v0 \<in> set (leaveRequests db)" using f(1) find_SomeD by (fastforce simp: lockedLeave_def)
  then show ?thesis unfolding v(2) by (rule saveLeave_laws [OF assms(2) _ f(2) v(1)])
next
  case (cancel_leave i actor company now v)
  then obtain v0 where f: "lockedLeave i company db = Inr v0" "lv_status v0 = LvPending"
    and v: "lv_id v = lv_id v0" "d = saveLeave v db"
    by (auto simp: cancelLeave_def Let_def split: if_splits)
  have "v0 \<in> set (leaveRequests db)" using f(1) find_SomeD by (fastforce simp: lockedLeave_def)
  then show ?thesis unfolding v(2) by (rule saveLeave_laws [OF assms(2) _ f(2) v(1)])
qed

end
