(* ===== verification/Payroll_Invariant.thy ===== *)
theory Payroll_Invariant
  imports Payroll_Properties Payroll_Steps
begin

text \<open>
  The invariant of payroll and its preservation: periods, runs and payslips have their own ids, a payslip adds up to its
  items and belongs to a run that was calculated, the totals of a run are those of its payslips, a period has one run
  that is not cancelled at most, and the status of a run agrees with that of its period, but for one case: the
  cancellation of a period reads one of its runs only, and may miss a calculated run behind a cancelled one.
\<close>

section \<open>The invariant\<close>

definition slipsOf :: "id \<Rightarrow> payslip list \<Rightarrow> payslip list" where
  "slipsOf k ss = filter (\<lambda>s. ps_run s = k) ss"

definition run_exact :: "payslip list \<Rightarrow> pay_run \<Rightarrow> bool" where
  "run_exact ss r \<longleftrightarrow> rn_employeeCount r = length (slipsOf (rn_id r) ss)
     \<and> rn_gross r = sum_list (map ps_gross (slipsOf (rn_id r) ss))
     \<and> rn_deductions r = sum_list (map ps_deductions (slipsOf (rn_id r) ss))
     \<and> rn_net r = sum_list (map ps_net (slipsOf (rn_id r) ss))"

definition status_agrees :: "pay_run \<Rightarrow> pay_period \<Rightarrow> bool" where
  "status_agrees r p \<longleftrightarrow>
     (case rn_status r of
        RnDraft \<Rightarrow> pp_status p = PpOpen \<or> pp_status p = PpCancelled
      | RnProcessing \<Rightarrow> False
      | RnCalculated \<Rightarrow> pp_status p = PpProcessing
      | RnFinalized \<Rightarrow> pp_status p = PpFinalized
      | RnCancelled \<Rightarrow> True)"

text \<open>A calculated run that the cancellation of its period has missed: an earlier run of the period was cancelled.\<close>

definition missed_cancel :: "pay_run list \<Rightarrow> pay_run \<Rightarrow> pay_period \<Rightarrow> bool" where
  "missed_cancel rs r p \<longleftrightarrow> rn_status r = RnCalculated \<and> pp_status p = PpCancelled
     \<and> (\<exists>a \<in> set rs. rn_period a = rn_period r \<and> rn_status a = RnCancelled)"

definition slip_run :: "pay_run list \<Rightarrow> payslip \<Rightarrow> bool" where
  "slip_run rs s \<longleftrightarrow> (\<exists>r \<in> set rs. rn_id r = ps_run s \<and> rn_status r \<noteq> RnDraft
     \<and> (ps_status s = PsFinalized \<longleftrightarrow> rn_status r = RnFinalized))"

definition one_run :: "pay_run list \<Rightarrow> bool" where
  "one_run rs \<longleftrightarrow> (\<forall>a \<in> set rs. \<forall>b \<in> set rs. rn_period a = rn_period b \<longrightarrow> rn_status a \<noteq> RnCancelled
     \<longrightarrow> rn_status b \<noteq> RnCancelled \<longrightarrow> rn_id a = rn_id b)"

definition runs_agree :: "pay_run list \<Rightarrow> pay_period list \<Rightarrow> bool" where
  "runs_agree rs ps \<longleftrightarrow> (\<forall>r \<in> set rs. \<exists>p \<in> set ps. pp_id p = rn_period r
     \<and> (status_agrees r p \<or> missed_cancel rs r p))"

definition ids_ok :: "'a payroll_db_scheme \<Rightarrow> bool" where
  "ids_ok db \<longleftrightarrow> distinct (map pp_id (payPeriods db)) \<and> distinct (map rn_id (payRuns db))
     \<and> distinct (map ps_id (payslips db)) \<and> (\<forall>p \<in> set (payPeriods db). pp_id p < hrIds db)
     \<and> (\<forall>r \<in> set (payRuns db). rn_id r < hrIds db) \<and> (\<forall>s \<in> set (payslips db). ps_id s < hrIds db)
     \<and> (\<forall>y \<in> set (payItems db). py_slip y < hrIds db)"

definition payroll_ok :: "'a payroll_db_scheme \<Rightarrow> bool" where
  "payroll_ok db \<longleftrightarrow> ids_ok db \<and> (\<forall>s \<in> set (payslips db). slip_exact (payItems db) s \<and> slip_run (payRuns db) s)
     \<and> (\<forall>r \<in> set (payRuns db). run_exact (payslips db) r) \<and> one_run (payRuns db)
     \<and> runs_agree (payRuns db) (payPeriods db)"

lemma payroll_frame:
  assumes "payroll_ok db" "pay_frame db d"
  shows "payroll_ok d"
proof -
  have "payPeriods d = payPeriods db" "payRuns d = payRuns db" "payslips d = payslips db" "payItems d = payItems db"
    and "hrIds db \<le> hrIds d" using assms(2) by (simp_all add: pay_frame_def)
  then show ?thesis using assms(1) by (auto simp: payroll_ok_def ids_ok_def)
qed

lemma periods_same:
  "payPeriods (savePeriod p db) = map (\<lambda>x. if pp_id x = pp_id p then p else x) (payPeriods db)"
  "payRuns (savePeriod p db) = payRuns db" "payslips (savePeriod p db) = payslips db"
  "payItems (savePeriod p db) = payItems db" "hrIds (savePeriod p db) = hrIds db"
  by (simp_all add: savePeriod_def)

lemma runs_same:
  "payRuns (saveRun r db) = map (\<lambda>x. if rn_id x = rn_id r then r else x) (payRuns db)"
  "payPeriods (saveRun r db) = payPeriods db" "payslips (saveRun r db) = payslips db"
  "payItems (saveRun r db) = payItems db" "hrIds (saveRun r db) = hrIds db"
  by (simp_all add: saveRun_def)

lemma by_id: "distinct (map f xs) \<Longrightarrow> x \<in> set xs \<Longrightarrow> y \<in> set xs \<Longrightarrow> f x = f y \<Longrightarrow> x = y"
  by (auto simp: distinct_map dest: inj_onD)

section \<open>Periods\<close>

text \<open>A period whose status changes: only the agreement with its runs is at stake.\<close>

lemma save_period_ok:
  assumes ok: "payroll_ok db" and p: "p \<in> set (payPeriods db)" and i: "pp_id p' = pp_id p"
    and agree: "\<And>r. r \<in> set (payRuns db) \<Longrightarrow> rn_period r = pp_id p
      \<Longrightarrow> status_agrees r p \<or> missed_cancel (payRuns db) r p \<Longrightarrow> status_agrees r p' \<or> missed_cancel (payRuns db) r p'"
  shows "payroll_ok (savePeriod p' db)"
proof -
  have ids: "map pp_id (payPeriods (savePeriod p' db)) = map pp_id (payPeriods db)" by (auto simp: periods_same(1))
  have lt: "pp_id q < hrIds db" if "q \<in> set (payPeriods (savePeriod p' db))" for q
    using ok that p i by (auto simp: periods_same(1) payroll_ok_def ids_ok_def split: if_splits)
  have "runs_agree (payRuns db) (payPeriods (savePeriod p' db))"
    unfolding runs_agree_def
  proof
    fix r assume r: "r \<in> set (payRuns db)"
    then obtain q where q: "q \<in> set (payPeriods db)" "pp_id q = rn_period r"
      "status_agrees r q \<or> missed_cancel (payRuns db) r q"
      using ok unfolding payroll_ok_def runs_agree_def by blast
    show "\<exists>q \<in> set (payPeriods (savePeriod p' db)). pp_id q = rn_period r
      \<and> (status_agrees r q \<or> missed_cancel (payRuns db) r q)"
    proof (cases "pp_id q = pp_id p")
      case True
      then have "q = p" using ok q(1) p by (auto simp: payroll_ok_def ids_ok_def dest: by_id)
      then have "status_agrees r p' \<or> missed_cancel (payRuns db) r p'" using agree [OF r] q by simp
      then show ?thesis using p q True i by (force simp: periods_same(1))
    next
      case False
      then show ?thesis using q i by (force simp: periods_same(1))
    qed
  qed
  then show ?thesis using ok lt unfolding payroll_ok_def ids_ok_def ids periods_same(2-5) by blast
qed

lemma createPeriod_ok:
  assumes ok: "payroll_ok db" and c: "createPeriod org company user pd db = Inr (p, d)"
  shows "payroll_ok d"
proof -
  from c have "payPeriods d = payPeriods db @ [p]" "pp_id p = hrIds db" "hrIds d = Suc (hrIds db)"
    "payRuns d = payRuns db" "payslips d = payslips db" "payItems d = payItems db"
    by (auto simp: createPeriod_def generatePeriodNumber_def Let_def split: if_splits prod.splits)
  then show ?thesis using ok by (auto simp: payroll_ok_def ids_ok_def runs_agree_def less_Suc_eq)
qed

lemma cancelPeriod_ok:
  assumes ok: "payroll_ok db" and c: "cancelPeriod i company user db = Inr (p', d)"
  shows "payroll_ok d"
proof -
  from c obtain p where f: "List.find (\<lambda>p. pp_id p = i \<and> pp_company p = company) (payPeriods db) = Some p"
    and st: "pp_status p = PpOpen \<or> pp_status p = PpProcessing"
    and guard: "\<not> (case List.find (\<lambda>r. rn_period r = i) (payRuns db) of
      None \<Rightarrow> False | Some r \<Rightarrow> rn_status r \<noteq> RnCancelled \<and> rn_status r \<noteq> RnDraft)"
    and p': "p' = p\<lparr>pp_status := PpCancelled, pp_updatedBy := user\<rparr>" and d: "d = savePeriod p' db"
    by (auto simp: cancelPeriod_def Let_def split: if_splits)
  have calculated: "\<exists>a \<in> set (payRuns db). rn_period a = i \<and> rn_status a = RnCancelled"
    if r: "r \<in> set (payRuns db)" "rn_period r = i" "rn_status r = RnCalculated" for r
  proof -
    obtain a where a: "List.find (\<lambda>r. rn_period r = i) (payRuns db) = Some a"
      using r(1,2) by (cases "List.find (\<lambda>r. rn_period r = i) (payRuns db)") (auto simp: find_None_iff)
    have m: "a \<in> set (payRuns db)" "rn_period a = i" using find_SomeD [OF a] by auto
    have "rn_status a \<noteq> RnDraft"
    proof
      assume s: "rn_status a = RnDraft"
      then have "rn_id a = rn_id r" using ok m r unfolding payroll_ok_def one_run_def by (metis pay_run_status.distinct)
      then have "a = r" using by_id [of rn_id "payRuns db" a r] ok m(1) r(1) by (simp add: payroll_ok_def ids_ok_def)
      then show False using s r(3) by simp
    qed
    then show ?thesis using guard m by (auto simp: a)
  qed
  show ?thesis unfolding d
  proof (rule save_period_ok [OF ok])
    show "p \<in> set (payPeriods db)" "pp_id p' = pp_id p" using find_SomeD [OF f] by (simp_all add: p')
    show "status_agrees r p' \<or> missed_cancel (payRuns db) r p'"
      if r: "r \<in> set (payRuns db)" "rn_period r = pp_id p" "status_agrees r p \<or> missed_cancel (payRuns db) r p" for r
    proof -
      have i: "pp_id p = i" using find_SomeD [OF f] by simp
      have s: "status_agrees r p" using r(3) st by (auto simp: missed_cancel_def)
      show ?thesis
      proof (cases "rn_status r = RnCalculated")
        case True
        then show ?thesis using calculated [OF r(1)] r(2) i by (simp add: missed_cancel_def p')
      next
        case False
        then show ?thesis using s st by (auto simp: status_agrees_def p' split: pay_run_status.splits)
      qed
    qed
  qed
qed

section \<open>A run and its period move together\<close>

lemma saved_run:
  assumes "distinct (map rn_id rs)" "r \<in> set rs" "rn_id r' = rn_id r"
  shows "x \<in> set (map (\<lambda>x. if rn_id x = rn_id r' then r' else x) rs) \<longleftrightarrow> x = r' \<or> x \<in> set rs \<and> rn_id x \<noteq> rn_id r"
  using assms by (auto simp: image_iff)

lemma saved_period:
  assumes "distinct (map pp_id ps)" "p \<in> set ps" "pp_id p' = pp_id p"
  shows "x \<in> set (map (\<lambda>x. if pp_id x = pp_id p' then p' else x) ps) \<longleftrightarrow> x = p' \<or> x \<in> set ps \<and> pp_id x \<noteq> pp_id p"
  using assms by (auto simp: image_iff)

lemma move_together:
  assumes ok: "payroll_ok db" and r: "r \<in> set (payRuns db)" "rn_id r' = rn_id r" "rn_period r' = rn_period r"
    and p: "p \<in> set (payPeriods db)" "pp_id p' = pp_id p" "pp_id p = rn_period r"
    and live: "rn_status r \<noteq> RnCancelled" and agree: "status_agrees r' p'"
  shows "one_run (payRuns (saveRun r' db))" "runs_agree (payRuns (saveRun r' db)) (payPeriods (savePeriod p' db))"
proof -
  have d: "distinct (map rn_id (payRuns db))" "distinct (map pp_id (payPeriods db))" and one: "one_run (payRuns db)"
    and ra: "runs_agree (payRuns db) (payPeriods db)"
    using ok by (simp_all add: payroll_ok_def ids_ok_def)
  note mr = saved_run [OF d(1) r(1,2)] and mp = saved_period [OF d(2) p(1,2)]
  have other: "rn_status x = RnCancelled" if "x \<in> set (payRuns db)" "rn_id x \<noteq> rn_id r" "rn_period x = rn_period r" for x
    using one r(1) live that unfolding one_run_def by metis
  have stay: "a \<in> set (payRuns (saveRun r' db))" if "a \<in> set (payRuns db)" "rn_status a = RnCancelled" for a
  proof -
    have "rn_id a \<noteq> rn_id r" using by_id [OF d(1) that(1) r(1)] live that(2) by auto
    then show ?thesis unfolding runs_same(1) mr using that(1) by blast
  qed
  show "one_run (payRuns (saveRun r' db))"
    unfolding one_run_def runs_same(1) Ball_def mr using one other r(2,3) unfolding one_run_def by metis
  show "runs_agree (payRuns (saveRun r' db)) (payPeriods (savePeriod p' db))"
    unfolding runs_agree_def
  proof
    fix x assume "x \<in> set (payRuns (saveRun r' db))"
    then consider "x = r'" | "x \<in> set (payRuns db)" "rn_id x \<noteq> rn_id r" unfolding runs_same(1) mr by blast
    then show "\<exists>q \<in> set (payPeriods (savePeriod p' db)). pp_id q = rn_period x
      \<and> (status_agrees x q \<or> missed_cancel (payRuns (saveRun r' db)) x q)"
    proof cases
      case 1
      then show ?thesis unfolding periods_same(1) Bex_def mp using agree p r(3) by metis
    next
      case 2
      then obtain q where q: "q \<in> set (payPeriods db)" "pp_id q = rn_period x"
        "status_agrees x q \<or> missed_cancel (payRuns db) x q"
        using ra unfolding runs_agree_def by blast
      have p': "status_agrees x p'" if "pp_id q = pp_id p"
        using other [OF 2] that q(2) p(3) by (simp add: status_agrees_def)
      have "status_agrees x q \<or> missed_cancel (payRuns (saveRun r' db)) x q"
        using q(3) stay unfolding missed_cancel_def by blast
      then show ?thesis unfolding periods_same(1) Bex_def mp using p' q(1,2) p(2) by metis
    qed
  qed
qed

text \<open>The payslips and the runs when a run changes in its status.\<close>

lemma run_ids_ok:
  assumes "payroll_ok db" "r \<in> set (payRuns db)" "rn_id r' = rn_id r"
  shows "distinct (map rn_id (payRuns (saveRun r' db)))" "\<forall>x \<in> set (payRuns (saveRun r' db)). rn_id x < hrIds db"
proof -
  have "map rn_id (payRuns (saveRun r' db)) = map rn_id (payRuns db)" by (auto simp: runs_same(1))
  then show "distinct (map rn_id (payRuns (saveRun r' db)))" using assms(1) unfolding payroll_ok_def ids_ok_def by presburger
  show "\<forall>x \<in> set (payRuns (saveRun r' db)). rn_id x < hrIds db"
    using assms by (auto simp: payroll_ok_def ids_ok_def runs_same(1))
qed

lemma period_ids_ok:
  assumes "payroll_ok db" "p \<in> set (payPeriods db)" "pp_id p' = pp_id p"
  shows "distinct (map pp_id (payPeriods (savePeriod p' db)))" "\<forall>x \<in> set (payPeriods (savePeriod p' db)). pp_id x < hrIds db"
proof -
  have "map pp_id (payPeriods (savePeriod p' db)) = map pp_id (payPeriods db)" by (auto simp: periods_same(1))
  then show "distinct (map pp_id (payPeriods (savePeriod p' db)))" using assms(1) unfolding payroll_ok_def ids_ok_def by presburger
  show "\<forall>x \<in> set (payPeriods (savePeriod p' db)). pp_id x < hrIds db"
    using assms by (auto simp: payroll_ok_def ids_ok_def periods_same(1))
qed

lemma slip_of_run:
  assumes "payroll_ok db" "s \<in> set (payslips db)" "r \<in> set (payRuns db)" "ps_run s = rn_id r"
  shows "rn_status r \<noteq> RnDraft \<and> (ps_status s = PsFinalized \<longleftrightarrow> rn_status r = RnFinalized)"
proof -
  obtain r0 where r0: "r0 \<in> set (payRuns db)" "rn_id r0 = ps_run s" "rn_status r0 \<noteq> RnDraft"
    "ps_status s = PsFinalized \<longleftrightarrow> rn_status r0 = RnFinalized"
    using assms(1,2) by (auto simp: payroll_ok_def slip_run_def)
  have "r0 = r" using by_id [of rn_id "payRuns db" r0 r] assms r0 by (simp add: payroll_ok_def ids_ok_def)
  then show ?thesis using r0 by simp
qed

lemma lockedRun_laws:
  assumes "payroll_ok db" "lockedRun i company db = Inr r"
  shows "r \<in> set (payRuns db)" "rn_id r = i" "\<exists>p \<in> set (payPeriods db). pp_id p = rn_period r"
proof -
  from assms(2) have f: "List.find (\<lambda>r. rn_id r = i \<and> rn_company r = company) (payRuns db) = Some r"
    by (simp add: lockedRun_def)
  from find_SomeD [OF f] show r: "r \<in> set (payRuns db)" "rn_id r = i" by auto
  show "\<exists>p \<in> set (payPeriods db). pp_id p = rn_period r"
    using assms(1) r(1) unfolding payroll_ok_def runs_agree_def by blast
qed

lemma find_period:
  assumes "payroll_ok db" "p \<in> set (payPeriods db)"
  shows "List.find (\<lambda>x. pp_id x = pp_id p) (payPeriods db) = Some p"
proof (cases "List.find (\<lambda>x. pp_id x = pp_id p) (payPeriods db)")
  case None
  then show ?thesis using assms(2) by (auto simp: find_None_iff)
next
  case (Some q)
  from find_SomeD [OF Some] have "q = p"
    using assms by (auto simp: payroll_ok_def ids_ok_def dest: by_id)
  then show ?thesis by (simp add: Some)
qed

section \<open>Creation and cancellation of a run\<close>

lemma createRun_ok:
  assumes ok: "payroll_ok db" and c: "createRun company user k db = Inr (r, d)"
  shows "payroll_ok d"
proof -
  from c obtain p where f: "List.find (\<lambda>p. pp_id p = k \<and> pp_company p = company) (payPeriods db) = Some p" "pp_status p = PpOpen"
    and free: "\<forall>r \<in> set (payRuns db). rn_period r = k \<longrightarrow> rn_status r = RnCancelled"
    and d: "payRuns d = payRuns db @ [r]" "hrIds d = Suc (hrIds db)" "payPeriods d = payPeriods db" "payslips d = payslips db"
      "payItems d = payItems db"
    and r: "rn_id r = hrIds db" "rn_period r = k" "rn_status r = RnDraft" "rn_employeeCount r = 0" "rn_gross r = 0"
      "rn_deductions r = 0" "rn_net r = 0"
    by (auto simp: createRun_def generateRunNumber_def Let_def case_prod_unfold split: if_splits)
  have p: "p \<in> set (payPeriods db)" "pp_id p = k" using find_SomeD [OF f(1)] by auto
  have "ps_run s < hrIds db" if "s \<in> set (payslips db)" for s
  proof -
    have "slip_run (payRuns db) s" "\<forall>r \<in> set (payRuns db). rn_id r < hrIds db" using ok that by (simp_all add: payroll_ok_def ids_ok_def)
    then show ?thesis by (auto simp: slip_run_def)
  qed
  then have "slipsOf (rn_id r) (payslips db) = []" unfolding slipsOf_def filter_empty_conv r(1) by (simp add: less_imp_neq)
  then have ex: "run_exact (payslips db) r" by (simp add: run_exact_def r)
  have agree: "status_agrees r p" by (simp add: status_agrees_def r f(2))
  have one: "one_run (payRuns db @ [r])" 
  proof -
    have o: "one_run (payRuns db)" using ok by (simp add: payroll_ok_def)
    show ?thesis unfolding one_run_def
    proof (intro ballI impI)
      fix a b assume ab: "a \<in> set (payRuns db @ [r])" "b \<in> set (payRuns db @ [r])" "rn_period a = rn_period b"
        "rn_status a \<noteq> RnCancelled" "rn_status b \<noteq> RnCancelled"
      show "rn_id a = rn_id b"
      proof (cases "rn_period a = k")
        case True
        then have "a = r" "b = r" using free ab by auto
        then show ?thesis by simp
      next
        case False
        then have "a \<in> set (payRuns db)" "b \<in> set (payRuns db)" using ab r(2) by auto
        then show ?thesis using o ab(3-5) unfolding one_run_def by blast
      qed
    qed
  qed
  have agrees: "runs_agree (payRuns db @ [r]) (payPeriods db)"
    using ok p r(2) agree unfolding payroll_ok_def runs_agree_def missed_cancel_def by simp blast
  have slips: "\<forall>s \<in> set (payslips db). slip_exact (payItems db) s \<and> slip_run (payRuns db @ [r]) s"
    using ok by (auto simp: payroll_ok_def slip_run_def)
  have runs: "\<forall>x \<in> set (payRuns db @ [r]). run_exact (payslips db) x" using ok ex by (simp add: payroll_ok_def)
  have "ids_ok db" using ok by (simp add: payroll_ok_def)
  then have "ids_ok d" unfolding ids_ok_def d by (auto simp: r(1) less_Suc_eq)
  then show ?thesis using one agrees slips runs unfolding payroll_ok_def d by blast
qed

lemma cancelRun_ok:
  assumes ok: "payroll_ok db" and c: "cancelRun i company db = Inr (r', d)"
  shows "payroll_ok d"
proof -
  from c obtain r where l: "lockedRun i company db = Inr r" and st: "rn_status r = RnDraft \<or> rn_status r = RnCalculated"
    and r': "r' = r\<lparr>rn_status := RnCancelled\<rparr>"
    by (auto simp: cancelRun_def Let_def split: if_splits)
  note r = lockedRun_laws [OF ok l]
  then obtain p where p: "p \<in> set (payPeriods db)" "pp_id p = rn_period r" by blast
  define p' where "p' = (if rn_status r = RnCalculated \<and> pp_status p = PpProcessing then p\<lparr>pp_status := PpOpen\<rparr> else p)"
  have f: "List.find (\<lambda>x. pp_id x = rn_period r) (payPeriods (saveRun r' db)) = Some p"
    using find_period [OF ok p(1)] p(2) by (simp add: runs_same)
  have self: "savePeriod p (saveRun r' db) = saveRun r' db"
  proof -
    have "map (\<lambda>x. if pp_id x = pp_id p then p else x) (payPeriods db) = payPeriods db"
      using ok p(1) by (intro map_idI) (auto simp: payroll_ok_def ids_ok_def dest: by_id)
    then show ?thesis by (simp add: savePeriod_def runs_same)
  qed
  have d: "d = savePeriod p' (saveRun r' db)"
    using c st f self unfolding cancelRun_def l
    by (auto simp: r'[symmetric] revertToOpen_def p'_def Let_def split: if_splits)
  have i: "rn_id r' = rn_id r" "rn_period r' = rn_period r" "pp_id p' = pp_id p" by (simp_all add: r' p'_def)
  have same: "payRuns d = payRuns (saveRun r' db)" "payPeriods d = payPeriods (savePeriod p' db)" "payslips d = payslips db"
    "payItems d = payItems db" "hrIds d = hrIds db"
    by (simp_all add: d savePeriod_def saveRun_def)
  have "status_agrees r' p'" by (simp add: status_agrees_def r')
  note mv = move_together [OF ok r(1) i(1,2) p(1) i(3) p(2) _ this]
  have live: "rn_status r \<noteq> RnCancelled" using st by auto
  have ex: "run_exact (payslips db) x" if "x \<in> set (payRuns (saveRun r' db))" for x
    using ok r(1) that by (auto simp: runs_same(1) payroll_ok_def run_exact_def r' split: if_splits)
  have sl: "slip_run (payRuns (saveRun r' db)) s" if s: "s \<in> set (payslips db)" for s
  proof (cases "ps_run s = rn_id r")
    case True
    then have "ps_status s \<noteq> PsFinalized" using slip_of_run [OF ok s r(1)] st by auto
    moreover have "r' \<in> set (payRuns (saveRun r' db))" using r(1) i(1) by (auto simp: runs_same(1) image_iff)
    ultimately show ?thesis using True unfolding slip_run_def by (intro bexI [of _ r']) (simp_all add: r')
  next
    case False
    then show ?thesis using ok s i(1) by (force simp: payroll_ok_def slip_run_def runs_same(1))
  qed
  show ?thesis using ok mv [OF live] ex sl run_ids_ok [OF ok r(1) i(1)] period_ids_ok [OF ok p(1) i(3)]
    unfolding payroll_ok_def ids_ok_def same by blast
qed

section \<open>Calculation\<close>

definition itemsOf :: "id \<Rightarrow> pay_item list \<Rightarrow> pay_item list" where
  "itemsOf k ys = filter (\<lambda>y. py_slip y = k) ys"

lemma itemsOf_own:
  assumes "distinct (map (ps_id \<circ> fst) out)" "(s, ls) \<in> set out"
  shows "itemsOf (ps_id s) (concat (map (\<lambda>(s, ls). map (itemOf (ps_id s)) ls) out)) = map (itemOf (ps_id s)) ls"
  using assms
proof (induction out)
  case (Cons x out)
  obtain t ms where x: "x = (t, ms)" by (cases x)
  have own: "filter (\<lambda>y. py_slip y = k) (map (itemOf j) ms) = (if j = k then map (itemOf j) ms else [])" for k j
    by (induction ms) (simp_all add: itemOf_def)
  show ?case
  proof (cases "(s, ls) = x")
    case True
    have "py_slip y \<noteq> ps_id s" if "y \<in> set (concat (map (\<lambda>(s, ls). map (itemOf (ps_id s)) ls) out))" for y
      using Cons.prems(1) True that by (auto simp: x itemOf_def) (metis fst_conv image_eqI)
    then show ?thesis using True x own by (auto simp: itemsOf_def filter_empty_conv)
  next
    case False
    then have m: "(s, ls) \<in> set out" using Cons.prems(2) by simp
    then have "ps_id t \<noteq> ps_id s" using Cons.prems(1) by (force simp: x)
    then show ?thesis using Cons.IH m Cons.prems(1) own by (simp add: x itemsOf_def)
  qed
qed simp

lemma itemSum_own:
  assumes "distinct (map (ps_id \<circ> fst) out)" "(s, ls) \<in> set out"
  shows "itemSum (concat (map (\<lambda>(s, ls). map (itemOf (ps_id s)) ls) out)) (ps_id s) ty
    = itemSum (map (itemOf (ps_id s)) ls) (ps_id s) ty"
proof -
  have "itemSum ys k ty = itemSum (itemsOf k ys) k ty" for ys k by (simp add: itemSum_def itemsOf_def conj_commute)
  then show ?thesis using itemsOf_own [OF assms] by metis
qed

lemma paysOut_exact:
  assumes "paysOut config p k db e (s, ls)"
  shows "slip_exact (map (itemOf (ps_id s)) ls) s" "ps_run s = k" "ps_status s = PsCalculated"
  using assms by (auto simp: paysOut_def slip_exact_def itemSum_lines)

text \<open>The payslips of a calculation beside the ones before.\<close>

lemma new_slips:
  assumes ids: "map (ps_id \<circ> fst) out = [n..<m]" and pays: "\<And>sl. sl \<in> set out \<Longrightarrow> \<exists>e. paysOut config p k db e sl"
    and old: "\<forall>y \<in> set items. py_slip y < n" "\<forall>s \<in> set ss. ps_id s < n" "\<forall>s \<in> set ss. slip_exact items s"
    and items': "items' = items @ concat (map (\<lambda>(s, ls). map (itemOf (ps_id s)) ls) out)"
  shows "\<forall>s \<in> set (ss @ map fst out). slip_exact items' s"
proof
  have id: "n \<le> ps_id s" if "(s, ls) \<in> set out" for s ls
  proof -
    have "ps_id s \<in> set (map (ps_id \<circ> fst) out)" using that by force
    then show ?thesis unfolding ids by simp
  qed
  have dis: "distinct (map (ps_id \<circ> fst) out)" unfolding ids by simp
  fix s assume "s \<in> set (ss @ map fst out)"
  then consider "s \<in> set ss" | ls where "(s, ls) \<in> set out" by auto
  then show "slip_exact items' s"
  proof cases
    case 1
    then have "\<forall>y \<in> set (concat (map (\<lambda>(s, ls). map (itemOf (ps_id s)) ls) out)). py_slip y \<noteq> ps_id s"
      using old(2) id by (fastforce simp: itemOf_def)
    then show ?thesis using 1 old(3) by (simp add: slip_exact_def items' itemSum_other)
  next
    case 2
    have "\<forall>y \<in> set items. py_slip y \<noteq> ps_id s" using old(1) id [OF 2] by fastforce
    moreover obtain e where "paysOut config p k db e (s, ls)" using pays [OF 2] by blast
    ultimately show ?thesis using paysOut_exact(1)
      by (simp add: slip_exact_def items' itemSum_other itemSum_own [OF dis 2])
  qed
qed

lemma out_pays: "list_all2 (paysOut config p k db) es out \<Longrightarrow> sl \<in> set out \<Longrightarrow> \<exists>e. paysOut config p k db e sl"
  by (auto simp: list_all2_conv_all_nth in_set_conv_nth)

lemma calculateRun_ok:
  assumes ok: "payroll_ok db" and c: "calculateRun i company t0 t1 db = Inr (r2, d)"
    and size: "\<And>r. lockedRun i company db = Inr r \<Longrightarrow> calcSize company r db \<le> 2 ^ 50"
  shows "payroll_ok d"
proof -
  from calculateRun_laws [OF c size] obtain r p config out where
    l: "lockedRun i company db = Inr r" "rn_status r = RnDraft"
    and f: "List.find (\<lambda>p. pp_id p = rn_period r) (payPeriods db) = Some p"
    and per: "payPeriods d = payPeriods (savePeriod (p\<lparr>pp_status := PpProcessing\<rparr>) db)"
    and sl: "payslips d = payslips db @ map fst out"
    and it: "payItems d = payItems db @ concat (map (\<lambda>(s, ls). map (itemOf (ps_id s)) ls) out)"
    and ids: "map (ps_id \<circ> fst) out = [hrIds db..<hrIds d]" "hrIds db \<le> hrIds d"
    and all: "list_all2 (paysOut config p (rn_id r) db) (filter (paid p db) (activeEmployees company db)) out"
    and r2: "r2 = r\<lparr>rn_status := RnCalculated, rn_startedAt := Some t0, rn_completedAt := Some t1,
         rn_employeeCount := length (filter (\<lambda>s. ps_run s = rn_id r) (payslips d)),
         rn_gross := sum_list (map (ps_gross \<circ> fst) out), rn_deductions := sum_list (map (ps_deductions \<circ> fst) out),
         rn_net := sum_list (map (ps_net \<circ> fst) out)\<rparr>"
    and run: "payRuns d = payRuns (saveRun r2 db)" by blast
  note r = lockedRun_laws [OF ok l(1)]
  have p: "p \<in> set (payPeriods db)" "pp_id p = rn_period r" using find_SomeD [OF f] by auto
  let ?p = "p\<lparr>pp_status := PpProcessing\<rparr>"
  have i: "rn_id r2 = rn_id r" "rn_period r2 = rn_period r" "pp_id ?p = pp_id p" "rn_status r2 = RnCalculated" by (simp_all add: r2)
  have "status_agrees r2 ?p" by (simp add: status_agrees_def i)
  note mv = move_together [OF ok r(1) i(1,2) p(1) i(3) p(2) _ this, unfolded l(2), simplified]
  note out = out_pays [OF all]
  have none: "slipsOf (rn_id r) (payslips db) = []"
    using slip_of_run [OF ok _ r(1)] l(2) by (auto simp: slipsOf_def filter_empty_conv)
  have new: "ps_run s = rn_id r \<and> ps_status s = PsCalculated" if "s \<in> set (map fst out)" for s
    using that out paysOut_exact(2,3) by fastforce
  have mine: "slipsOf (rn_id r) (payslips d) = map fst out"
    using none new by (simp add: slipsOf_def sl)
  have other: "slipsOf k (payslips d) = slipsOf k (payslips db)" if "k \<noteq> rn_id r" for k
  proof -
    have "filter (\<lambda>s. ps_run s = k) (map fst out) = []" using new that by (auto simp: filter_empty_conv)
    then show ?thesis by (simp add: slipsOf_def sl)
  qed
  have ex: "run_exact (payslips d) x" if "x \<in> set (payRuns d)" for x
  proof (cases "rn_id x = rn_id r")
    case True
    then have "x = r2" using that ok r(1) i(1) by (auto simp: run runs_same(1) split: if_splits)
    then show ?thesis by (simp add: run_exact_def mine i(1)) (simp add: r2 mine slipsOf_def [symmetric])
  next
    case False
    then have "x \<in> set (payRuns db)" using that i(1) by (auto simp: run runs_same(1) split: if_splits)
    then show ?thesis using ok other [OF False] by (simp add: payroll_ok_def run_exact_def)
  qed
  have sr: "slip_run (payRuns d) s" if s: "s \<in> set (payslips d)" for s
  proof (cases "s \<in> set (map fst out)")
    case True
    have "r2 \<in> set (payRuns d)" using r(1) i(1) by (auto simp: run runs_same(1) image_iff)
    then show ?thesis using new [OF True] i unfolding slip_run_def by (intro bexI [of _ r2]) simp_all
  next
    case False
    then have s: "s \<in> set (payslips db)" using s by (auto simp: sl)
    have "ps_run s \<noteq> rn_id r" using slip_of_run [OF ok s r(1)] l(2) by auto
    then show ?thesis using ok s i(1) by (force simp: payroll_ok_def slip_run_def run runs_same(1))
  qed
  have okd: "ids_ok db" "\<forall>s \<in> set (payslips db). slip_exact (payItems db) s" using ok by (simp_all add: payroll_ok_def)
  then have se: "\<forall>s \<in> set (payslips d). slip_exact (payItems d) s"
    unfolding sl by (intro new_slips [OF ids(1) out _ _ _ it]) (simp_all add: ids_ok_def)
  have idsd: "distinct (map ps_id (payslips d))" "\<forall>s \<in> set (payslips d). ps_id s < hrIds d" "\<forall>y \<in> set (payItems d). py_slip y < hrIds d"
  proof -
    have m: "map ps_id (payslips d) = map ps_id (payslips db) @ [hrIds db..<hrIds d]" using ids(1) by (simp add: sl)
    have lt: "ps_id s < hrIds d" if "(s, ls) \<in> set out" for s ls
    proof -
      have "ps_id s \<in> set (map (ps_id \<circ> fst) out)" using that by force
      then show ?thesis unfolding ids by simp
    qed
    show "distinct (map ps_id (payslips d))" unfolding m using okd(1) by (auto simp: ids_ok_def)
    show "\<forall>s \<in> set (payslips d). ps_id s < hrIds d" using okd(1) ids(2) lt by (auto simp: sl ids_ok_def)
    show "\<forall>y \<in> set (payItems d). py_slip y < hrIds d" using okd(1) ids(2) lt by (auto simp: it ids_ok_def itemOf_def)
  qed
  have "\<forall>x \<in> set (payRuns d). rn_id x < hrIds d" "\<forall>x \<in> set (payPeriods d). pp_id x < hrIds d"
    using run_ids_ok(2) [OF ok r(1) i(1)] period_ids_ok(2) [OF ok p(1) i(3)] ids(2) unfolding run per by fastforce+
  then show ?thesis using mv ex sr se idsd run_ids_ok(1) [OF ok r(1) i(1)] period_ids_ok(1) [OF ok p(1) i(3)]
    unfolding payroll_ok_def ids_ok_def run per by blast
qed

section \<open>Finalization\<close>

lemma finalizeRun_laws:
  assumes ok: "payroll_ok db" and c: "finalizeRun i company user now db = Inr (r', d)"
  shows "\<exists>r p. r \<in> set (payRuns db) \<and> rn_id r = i \<and> rn_status r = RnCalculated
    \<and> p \<in> set (payPeriods db) \<and> pp_id p = rn_period r \<and> pp_status p = PpProcessing
    \<and> r' = r\<lparr>rn_status := RnFinalized, rn_finalizedAt := Some now, rn_finalizedBy := Some user\<rparr>
    \<and> payslips d = map (\<lambda>s. if ps_run s = i then s\<lparr>ps_status := PsFinalized\<rparr> else s) (payslips db)
    \<and> payItems d = payItems db \<and> hrIds d = hrIds db \<and> payRuns d = payRuns (saveRun r' db)
    \<and> payPeriods d = payPeriods (savePeriod (p\<lparr>pp_status := PpFinalized\<rparr>) db)"
proof -
  from c obtain r where l: "lockedRun i company db = Inr r" and st: "rn_status r = RnCalculated"
    and r': "r' = r\<lparr>rn_status := RnFinalized, rn_finalizedAt := Some now, rn_finalizedBy := Some user\<rparr>"
    by (auto simp: finalizeRun_def Let_def split: if_splits)
  note r = lockedRun_laws [OF ok l]
  then obtain p where p: "p \<in> set (payPeriods db)" "pp_id p = rn_period r" by blast
  let ?db1 = "db\<lparr>payslips := map (\<lambda>s. if ps_run s = rn_id r then s\<lparr>ps_status := PsFinalized\<rparr> else s) (payslips db)\<rparr>"
  have f: "List.find (\<lambda>x. pp_id x = rn_period r) (payPeriods (saveRun r' ?db1)) = Some p"
    using find_period [OF ok p(1)] p(2) by (simp add: saveRun_def)
  have m: "markFinalized (rn_period r) (saveRun r' ?db1) = Inr d"
    using c st unfolding finalizeRun_def l by (auto simp: r'[symmetric] Let_def)
  have "pp_status p = PpProcessing" "d = savePeriod (p\<lparr>pp_status := PpFinalized\<rparr>) (saveRun r' ?db1)"
    using m f by (auto simp: markFinalized_def split: if_splits)
  then show ?thesis using r(1,2) st p by (intro exI [of _ r] exI [of _ p]) (simp add: r' savePeriod_def saveRun_def)
qed

lemma finalizeRun_ok:
  assumes ok: "payroll_ok db" and c: "finalizeRun i company user now db = Inr (r', d)"
  shows "payroll_ok d"
proof -
  from finalizeRun_laws [OF assms] obtain r p where r: "r \<in> set (payRuns db)" "rn_id r = i" and st: "rn_status r = RnCalculated"
    and p: "p \<in> set (payPeriods db)" "pp_id p = rn_period r"
    and r': "r' = r\<lparr>rn_status := RnFinalized, rn_finalizedAt := Some now, rn_finalizedBy := Some user\<rparr>"
    and sl: "payslips d = map (\<lambda>s. if ps_run s = i then s\<lparr>ps_status := PsFinalized\<rparr> else s) (payslips db)"
    and it: "payItems d = payItems db" "hrIds d = hrIds db" and run: "payRuns d = payRuns (saveRun r' db)"
    and per: "payPeriods d = payPeriods (savePeriod (p\<lparr>pp_status := PpFinalized\<rparr>) db)" by blast
  let ?p = "p\<lparr>pp_status := PpFinalized\<rparr>"
  have i: "rn_id r' = rn_id r" "rn_period r' = rn_period r" "pp_id ?p = pp_id p" "rn_status r' = RnFinalized" by (simp_all add: r')
  have "status_agrees r' ?p" by (simp add: status_agrees_def i)
  note mv = move_together [OF ok r(1) i(1,2) p(1) i(3) p(2) _ this, unfolded st, simplified]
  let ?f = "\<lambda>s. if ps_run s = i then s\<lparr>ps_status := PsFinalized\<rparr> else s"
  have sums: "slipsOf k (payslips d) = map ?f (slipsOf k (payslips db))" for k
    unfolding slipsOf_def sl filter_map by (rule arg_cong [of _ _ "map ?f"], rule filter_cong) auto
  have fields: "ps_gross (?f s) = ps_gross s" "ps_deductions (?f s) = ps_deductions s" "ps_net (?f s) = ps_net s"
    "ps_id (?f s) = ps_id s" "ps_base (?f s) = ps_base s" "ps_run (?f s) = ps_run s" for s by simp_all
  have re: "run_exact (payslips d) x = run_exact (payslips db) x" for x
    by (simp add: run_exact_def sums o_def fields del: if_split)
  have ex: "run_exact (payslips d) x" if "x \<in> set (payRuns d)" for x
    using that ok r(1) unfolding re by (auto simp: run runs_same(1) payroll_ok_def run_exact_def r' split: if_splits)
  have se: "slip_exact (payItems d) (?f s)" if "s \<in> set (payslips db)" for s
    using ok that by (simp add: payroll_ok_def slip_exact_def it fields del: if_split)
  have r'm: "r' \<in> set (payRuns d)" using r(1) i(1) by (auto simp: run runs_same(1) image_iff)
  have sr: "slip_run (payRuns d) (?f s)" if s: "s \<in> set (payslips db)" for s
  proof (cases "ps_run s = i")
    case True
    then show ?thesis using r'm i(1,4) r(2) unfolding slip_run_def by (intro bexI [of _ r']) simp_all
  next
    case False
    then show ?thesis using ok s i(1) r(2) by (force simp: payroll_ok_def slip_run_def run runs_same(1))
  qed
  have ids: "map ps_id (payslips d) = map ps_id (payslips db)" by (simp add: sl)
  have lt: "\<forall>s \<in> set (payslips d). ps_id s < hrIds db" using ok by (auto simp: sl payroll_ok_def ids_ok_def)
  have slips: "\<forall>s \<in> set (payslips d). slip_exact (payItems d) s \<and> slip_run (payRuns d) s"
    unfolding sl set_map ball_simps(9) using se sr by blast
  show ?thesis using ok mv ex slips lt run_ids_ok [OF ok r(1) i(1)] period_ids_ok [OF ok p(1) i(3)]
    unfolding payroll_ok_def ids_ok_def run per ids it by blast
qed

end
