(* ===== verification/Payroll_System.thy ===== *)
theory Payroll_System
  imports Payroll_Invariant
begin

text \<open>
  Human resources and payroll as one system: the states that the operations reach from empty tables, the invariant they
  keep, and a small company that goes through a whole payroll. A calculation is a step when the cents of its payslips
  stay below \<open>2 ^ 50\<close> in sum, so that the JavaScript numbers in which they are added are exact.
\<close>

section \<open>Reachable states\<close>

inductive payroll_step :: "org_db \<Rightarrow> 'a payroll_db_scheme \<Rightarrow> 'a payroll_db_scheme \<Rightarrow> bool" for org where
  set_up: "setup_step org db d \<Longrightarrow> payroll_step org db d"
| dated: "dated_step org db d \<Longrightarrow> payroll_step org db d"
| leave: "leave_step db d \<Longrightarrow> payroll_step org db d"
| create_period: "createPeriod org company user pd db = Inr (p, d) \<Longrightarrow> payroll_step org db d"
| cancel_period: "cancelPeriod i company user db = Inr (p, d) \<Longrightarrow> payroll_step org db d"
| create_run: "createRun company user k db = Inr (r, d) \<Longrightarrow> payroll_step org db d"
| calculate_run: "calculateRun i company t0 t1 db = Inr (r, d) \<Longrightarrow>
    (\<And>r. lockedRun i company db = Inr r \<Longrightarrow> calcSize company r db \<le> 2 ^ 50) \<Longrightarrow> payroll_step org db d"
| finalize_run: "finalizeRun i company user now db = Inr (r, d) \<Longrightarrow> payroll_step org db d"
| cancel_run: "cancelRun i company db = Inr (r, d) \<Longrightarrow> payroll_step org db d"

definition no_payroll :: "payroll_db" where
  "no_payroll = \<lparr>employees = [], departments = [], designations = [], leaveTypes = [], leaveRequests = [], assignments = [],
     attendances = [], hrIds = 0, payComponents = [], compensations = [], employeeComponents = [], payConfigs = [],
     shifts = [], shiftAssignments = [], payPeriods = [], payRuns = [], payslips = [], payItems = [],
     periodCounters = Map.empty, runCounters = Map.empty\<rparr>"

definition payroll_reachable :: "org_db \<Rightarrow> payroll_db \<Rightarrow> bool" where
  "payroll_reachable org db \<longleftrightarrow> (payroll_step org)\<^sup>*\<^sup>* no_payroll db"

definition hr_ok :: "'a payroll_db_scheme \<Rightarrow> bool" where
  "hr_ok db \<longleftrightarrow> payroll_ok db \<and> windows_ok db \<and> leaves_ok db"

lemma leaves_frame: "leaves_ok db \<Longrightarrow> leave_frame db d \<Longrightarrow> leaves_ok d"
  by (auto simp: leaves_ok_def leave_frame_def)

lemma createPeriod_frames: "createPeriod org company user pd db = Inr (p, d) \<Longrightarrow> dated_frame db d \<and> leave_frame db d"
  by (auto simp: frame_defs createPeriod_def generatePeriodNumber_def Let_def split: if_splits prod.splits)

lemma cancelPeriod_frames: "cancelPeriod i company user db = Inr (p, d) \<Longrightarrow> dated_frame db d \<and> leave_frame db d"
  by (auto simp: frame_defs cancelPeriod_def savePeriod_def Let_def split: if_splits)

lemma createRun_frames: "createRun company user k db = Inr (r, d) \<Longrightarrow> dated_frame db d \<and> leave_frame db d"
  by (auto simp: frame_defs createRun_def generateRunNumber_def Let_def case_prod_unfold split: if_splits)

lemma saved_frames:
  "dated_frame db (saveRun r db) \<and> leave_frame db (saveRun r db)"
  "dated_frame db (savePeriod p db) \<and> leave_frame db (savePeriod p db)"
  by (simp_all add: frame_defs saveRun_def savePeriod_def)

lemma hr_frames_trans:
  "dated_frame a b \<and> leave_frame a b \<Longrightarrow> dated_frame b c \<and> leave_frame b c \<Longrightarrow> dated_frame a c \<and> leave_frame a c"
  by (auto simp: frame_defs)

lemma revertToOpen_frames: "revertToOpen k db = Inr d \<Longrightarrow> dated_frame db d \<and> leave_frame db d"
  using saved_frames(2) by (auto simp: revertToOpen_def frame_defs split: if_splits)

lemma cancelRun_frames:
  assumes "cancelRun i company db = Inr (r, d)"
  shows "dated_frame db d \<and> leave_frame db d"
proof -
  from assms consider "d = saveRun r db" | k where "revertToOpen k (saveRun r db) = Inr d"
    by (auto simp: cancelRun_def Let_def split: if_splits)
  then show ?thesis using saved_frames(1) revertToOpen_frames hr_frames_trans by metis
qed

lemma finalizeRun_frames:
  assumes "finalizeRun i company user now db = Inr (r, d)"
  shows "dated_frame db d \<and> leave_frame db d"
proof -
  from assms obtain k ss where "markFinalized k (saveRun r (db\<lparr>payslips := ss\<rparr>)) = Inr d"
    by (auto simp: finalizeRun_def Let_def split: if_splits)
  then obtain p where "d = savePeriod p (saveRun r (db\<lparr>payslips := ss\<rparr>))" by (auto simp: markFinalized_def split: if_splits)
  then show ?thesis by (simp add: frame_defs saveRun_def savePeriod_def)
qed

lemma payEmployee_frame:
  assumes "payEmployee config p k e st = Inr st'" "slips_frame db0 (fst st) \<and> hrIds db0 \<le> hrIds (fst st)"
  shows "slips_frame db0 (fst st') \<and> hrIds db0 \<le> hrIds (fst st')"
proof -
  obtain db g x n where st: "st = (db, g, x, n)" by (cases st)
  show ?thesis
  proof (cases "compensationAsOf (em_id e) (pp_start p) db")
    case None
    then show ?thesis using assms by (simp add: payEmployee_def st)
  next
    case (Some c)
    with assms(1) obtain a b where st': "fst st' = db\<lparr>payslips := a, hrIds := Suc (hrIds db), payItems := b\<rparr>"
      by (auto simp: payEmployee_def st storeItems Let_def)
    have "slips_frame db (fst st')" unfolding slips_frame_def st'
      by (intro exI [of _ a] exI [of _ b] exI [of _ "Suc (hrIds db)"]) simp
    then show ?thesis using assms(2) slips_frame_trans [of db0 db "fst st'"] by (simp add: st st')
  qed
qed

lemma calculateRun_frames:
  assumes "calculateRun i company t0 t1 db = Inr (r2, d)"
  shows "dated_frame db d \<and> leave_frame db d"
proof -
  from assms obtain db1 db2 db3 config p k G D N r where
    l: "markProcessing (pp_id p) (saveRun db1 db) = Inr db2"
    and f: "forEach (payEmployee config p k) (filter (\<lambda>e. em_company e = company \<and> em_status e = EmActive) (employees db2))
      (db2, 0, 0, 0) = Inr (db3, G, D, N)"
    and d: "d = saveRun r db3"
    by (auto simp: calculateRun_def Let_def case_prod_unfold split: if_splits)
  have "slips_frame db2 db3 \<and> hrIds db2 \<le> hrIds db3"
    using forEach_invariant [where P = "\<lambda>st. slips_frame db2 (fst st) \<and> hrIds db2 \<le> hrIds (fst st)", OF f] payEmployee_frame slips_frame_refl
    by fastforce
  then have "dated_frame db2 db3 \<and> leave_frame db2 db3" by (auto simp: slips_frame_def frame_defs)
  moreover have "dated_frame db db2 \<and> leave_frame db db2"
    using l by (auto simp: markProcessing_def frame_defs savePeriod_def saveRun_def split: if_splits)
  ultimately show ?thesis by (simp add: d frame_defs saveRun_def)
qed

lemma payroll_step_ok:
  assumes "payroll_step org db d" "hr_ok db"
  shows "hr_ok d"
proof -
  have ok: "payroll_ok db" "windows_ok db" "leaves_ok db" using assms(2) by (simp_all add: hr_ok_def)
  note frames = payroll_frame [OF ok(1)] windows_frame [OF ok(2)] leaves_frame [OF ok(3)]
  show ?thesis
    using assms(1) unfolding hr_ok_def
  proof cases
    case set_up
    then show "payroll_ok d \<and> windows_ok d \<and> leaves_ok d" using frames setup_frames by blast
  next
    case dated
    then show "payroll_ok d \<and> windows_ok d \<and> leaves_ok d" using frames dated_frames dated_step_windows ok by blast
  next
    case leave
    then show "payroll_ok d \<and> windows_ok d \<and> leaves_ok d" using frames leave_frames leave_step_laws ok by blast
  next
    case create_period
    then show "payroll_ok d \<and> windows_ok d \<and> leaves_ok d" using frames createPeriod_frames createPeriod_ok ok by blast
  next
    case cancel_period
    then show "payroll_ok d \<and> windows_ok d \<and> leaves_ok d" using frames cancelPeriod_frames cancelPeriod_ok ok by blast
  next
    case create_run
    then show "payroll_ok d \<and> windows_ok d \<and> leaves_ok d" using frames createRun_frames createRun_ok ok by blast
  next
    case calculate_run
    then show "payroll_ok d \<and> windows_ok d \<and> leaves_ok d" using frames calculateRun_frames calculateRun_ok ok by blast
  next
    case finalize_run
    then show "payroll_ok d \<and> windows_ok d \<and> leaves_ok d" using frames finalizeRun_frames finalizeRun_ok ok by blast
  next
    case cancel_run
    then show "payroll_ok d \<and> windows_ok d \<and> leaves_ok d" using frames cancelRun_frames cancelRun_ok ok by blast
  qed
qed

lemma no_payroll_ok: "hr_ok no_payroll"
  by (simp add: hr_ok_def no_payroll_def payroll_ok_def ids_ok_def one_run_def runs_agree_def windows_ok_def leaves_ok_def
    assignment_table.disjoint_rows_def compensation_table.disjoint_rows_def component_table.disjoint_rows_def
    shift_table.disjoint_rows_def)

lemma steps_ok: "(payroll_step org)\<^sup>*\<^sup>* db d \<Longrightarrow> hr_ok db \<Longrightarrow> hr_ok d"
  by (induction rule: rtranclp_induct) (auto intro: payroll_step_ok)

lemma reachable_ok: "payroll_reachable org db \<Longrightarrow> hr_ok db"
  unfolding payroll_reachable_def using steps_ok no_payroll_ok by blast

section \<open>A small company\<close>

text \<open>One employee with a salary and an allowance takes two days of unpaid leave in March; the payroll of the month is
  created, calculated and finalized.\<close>

definition pay_org :: org_db where
  "pay_org = \<lparr>companies = [1 \<mapsto> Active], branches = Map.empty, warehouses = Map.empty, warehouseIds = [],
     customers = Map.empty, suppliers = Map.empty, paymentMethods = Map.empty, paymentTerms = Map.empty\<rparr>"

definition on_day :: "nat \<Rightarrow> nat \<Rightarrow> date_string" where
  "on_day m d = ((2026, m, d), ((2026, m, d), 0))"

definition pay_employee :: employee where
  "pay_employee = \<lparr>em_id = 50, em_code = ''E1'', em_name = ''Aye'', em_company = 1, em_branch = 2, em_user = Some 7, em_status = EmActive\<rparr>"

definition pay_salary :: compensation where
  "pay_salary = \<lparr>dr_id = 0, dr_from = (2026, 1, 1), dr_to = None, cm_company = 1, cm_employee = 50, cm_salary = 100000,
     cm_currency = ''MMK'', cm_createdBy = 9\<rparr>"

definition pay_transport :: pay_component where
  "pay_transport = \<lparr>cp_id = 1, cp_company = 1, cp_name = ''Transport'', cp_code = ''TRN'', cp_type = Earning, cp_calc = FixedAmount,
     cp_fixed = Some 5000, cp_percentage = None, cp_taxable = False, cp_active = True, cp_updatedBy = 9, cp_deleted = False\<rparr>"

definition pay_allowance :: employee_component where
  "pay_allowance = \<lparr>dr_id = 2, dr_from = (2026, 1, 1), dr_to = None, ec_employee = 50, ec_component = 1, ec_amount = None, ec_percentage = None\<rparr>"

definition pay_leave_type :: leave_type where
  "pay_leave_type = \<lparr>lt_id = 3, lt_company = 1, lt_name = ''Unpaid'', lt_code = ''UNP'', lt_description = None, lt_paid = False,
     lt_defaultDays = None, lt_status = Active, lt_deleted = False\<rparr>"

definition pay_leave :: leave_request where
  "pay_leave = \<lparr>lv_id = 4, lv_employee = 50, lv_company = 1, lv_branch = 2, lv_type = 3, lv_from = (2026, 3, 9), lv_to = (2026, 3, 10),
     lv_reason = None, lv_status = LvPending, lv_approvedBy = None, lv_rejectedBy = None, lv_decisionAt = None, lv_cancelledAt = None\<rparr>"

definition pay_leave_approved :: leave_request where
  "pay_leave_approved = pay_leave\<lparr>lv_status := LvApproved, lv_decisionAt := Some ((2026, 3, 2), 0), lv_approvedBy := Some 9\<rparr>"

definition pay_march :: pay_period where
  "pay_march = \<lparr>pp_id = 5, pp_company = 1, pp_number = formatDocumentNumber ''PP'' 2026 1, pp_name = ''March'', pp_start = (2026, 3, 1),
     pp_end = (2026, 3, 31), pp_pay = (2026, 3, 31), pp_status = PpOpen, pp_updatedBy = 9\<rparr>"

definition pay_draft :: pay_run where
  "pay_draft = \<lparr>rn_id = 6, rn_company = 1, rn_period = 5, rn_number = formatDocumentNumber ''PR'' 2026 1, rn_status = RnDraft,
     rn_employeeCount = 0, rn_gross = 0, rn_deductions = 0, rn_net = 0, rn_startedAt = None, rn_completedAt = None,
     rn_finalizedAt = None, rn_createdBy = 9, rn_finalizedBy = None\<rparr>"

definition pay_calculated :: pay_run where
  "pay_calculated = pay_draft\<lparr>rn_status := RnCalculated, rn_startedAt := Some ((2026, 3, 31), 1), rn_employeeCount := 1,
     rn_gross := 105000, rn_deductions := 10000, rn_net := 95000, rn_completedAt := Some ((2026, 3, 31), 2)\<rparr>"

definition pay_finalized :: pay_run where
  "pay_finalized = pay_calculated\<lparr>rn_status := RnFinalized, rn_finalizedAt := Some ((2026, 3, 31), 3), rn_finalizedBy := Some 9\<rparr>"

definition pay_slip :: payslip where
  "pay_slip = \<lparr>ps_id = 7, ps_run = 6, ps_employee = 50, ps_code = ''E1'', ps_name = ''Aye'', ps_department = None, ps_designation = None,
     ps_base = 100000, ps_gross = 105000, ps_deductions = 10000, ps_net = 95000, ps_status = PsCalculated\<rparr>"

definition pay_lines_stored :: "pay_item list" where
  "pay_lines_stored =
     [\<lparr>py_slip = 7, py_component = Some 1, py_name = ''Transport'', py_code = ''TRN'', py_type = Earning, py_calc = FixedAmount, py_amount = 5000\<rparr>,
      \<lparr>py_slip = 7, py_component = None, py_name = ''Unpaid Leave Deduction'', py_code = ''UNPAID_LEAVE'', py_type = Deduction,
        py_calc = FixedAmount, py_amount = 10000\<rparr>]"

definition pay_config1 :: pay_config where
  "pay_config1 = \<lparr>cf_company = 1, cf_currency = ''MMK'', cf_unpaid = DailyRate, cf_workingDays = Some 20, cf_updatedBy = 9\<rparr>"

text \<open>The states.\<close>

definition pay0 :: payroll_db where "pay0 = no_payroll\<lparr>employees := [pay_employee]\<rparr>"

definition pay1 :: payroll_db where "pay1 = pay0\<lparr>payConfigs := [pay_config1]\<rparr>"

definition pay2 :: payroll_db where "pay2 = pay1\<lparr>compensations := [pay_salary], hrIds := 1\<rparr>"

definition pay3 :: payroll_db where "pay3 = pay2\<lparr>payComponents := [pay_transport], hrIds := 2\<rparr>"

definition pay4 :: payroll_db where "pay4 = pay3\<lparr>employeeComponents := [pay_allowance], hrIds := 3\<rparr>"

definition pay5 :: payroll_db where "pay5 = pay4\<lparr>leaveTypes := [pay_leave_type], hrIds := 4\<rparr>"

definition pay6 :: payroll_db where "pay6 = pay5\<lparr>leaveRequests := [pay_leave], hrIds := 5\<rparr>"

definition pay7 :: payroll_db where "pay7 = pay6\<lparr>leaveRequests := [pay_leave_approved]\<rparr>"

definition pay8 :: payroll_db where
  "pay8 = pay7\<lparr>payPeriods := [pay_march], periodCounters := [(1, 2026) \<mapsto> 1], hrIds := 6\<rparr>"

definition pay9 :: payroll_db where
  "pay9 = pay8\<lparr>payRuns := [pay_draft], runCounters := [(1, 2026) \<mapsto> 1], hrIds := 7\<rparr>"

definition pay10 :: payroll_db where
  "pay10 = pay9\<lparr>payPeriods := [pay_march\<lparr>pp_status := PpProcessing\<rparr>], payRuns := [pay_calculated], payslips := [pay_slip],
     payItems := pay_lines_stored, hrIds := 8\<rparr>"

definition pay11 :: payroll_db where
  "pay11 = pay10\<lparr>payPeriods := [pay_march\<lparr>pp_status := PpFinalized\<rparr>], payRuns := [pay_finalized],
     payslips := [pay_slip\<lparr>ps_status := PsFinalized\<rparr>]\<rparr>"

lemmas pay_rows = pay_org_def on_day_def pay_employee_def pay_salary_def pay_transport_def pay_allowance_def pay_leave_type_def
  pay_leave_def pay_leave_approved_def pay_march_def pay_draft_def pay_config1_def

lemmas pay_states = no_payroll_def pay0_def pay1_def pay2_def pay3_def pay4_def pay5_def pay6_def pay7_def pay8_def pay9_def

lemma pay_active [simp]: "companies pay_org (Suc 0) = Some Active" "assertActiveCompany pay_org (Suc 0) = Inr ()"
  by (simp_all add: assertActiveCompany_def findActiveCompany_def pay_org_def)

lemma pay_step1: "upsertConfig pay_org 1 9 ''MMK'' DailyRate (Some 20) pay0 = Inr (pay_config1, pay1)"
  by (simp add: Let_def upsertConfig_def pay1_def pay0_def no_payroll_def pay_config1_def)

lemma pay_step2:
  "createCompensation 50 1 9 \<lparr>ct_from = on_day 1 1, ct_to = None, ct_salary = 100000, ct_currency = ''MMK''\<rparr> pay1 = Inr (pay_salary, pay2)"
  by (simp add: Let_def createCompensation_def validateDateRange_def findEmployee_def assertNoOverlap_def putCompensation_def pay_states pay_rows)

lemma pay_step3:
  "createComponent pay_org 1 9 \<lparr>co_name = ''Transport'', co_code = ''TRN'', co_type = Earning, co_calc = FixedAmount, co_fixed = Some 5000,
     co_percentage = None, co_taxable = None\<rparr> pay2 = Inr (pay_transport, pay3)"
  by (simp add: Let_def createComponent_def assertCalculationFieldsMatch_def componentCodeFree_def pay3_def pay2_def pay1_def pay0_def no_payroll_def
    pay_transport_def)

lemma pay_step4:
  "createEmployeeComponent 50 1 \<lparr>et_component = 1, et_amount = None, et_percentage = None, et_from = on_day 1 1, et_to = None\<rparr> pay3
    = Inr (pay_allowance, pay4)"
  by (simp add: Let_def createEmployeeComponent_def validateDateRange_def findEmployee_def assertNoOverlap_def putEmployeeComponent_def pay_states pay_rows)

lemma pay_step5:
  "createLeaveType pay_org 1 \<lparr>ltd_name = ''Unpaid'', ltd_code = ''UNP'', ltd_description = None, ltd_paid = None, ltd_defaultDays = None\<rparr> pay4
    = Inr (pay_leave_type, pay5)"
  by (simp add: Let_def createLeaveType_def leaveTypeTaken_def leaveTypeIndexFree_def pay5_def pay4_def pay3_def pay2_def pay1_def pay0_def
    no_payroll_def pay_leave_type_def)

lemma pay_step6:
  "createLeaveRequest 7 1 \<lparr>ld_employee = 50, ld_type = 3, ld_from = on_day 3 9, ld_to = on_day 3 10, ld_reason = None\<rparr> True pay5
    = Inr (pay_leave, pay6)"
  by (simp add: Let_def createLeaveRequest_def validateDateRange_def date_le_def pay_states pay_rows)

lemma pay_step7: "decideLeave True 4 9 1 ((2026, 3, 2), 0) pay6 = Inr (pay_leave_approved, pay7)"
  by (simp add: Let_def decideLeave_def lockedLeave_def employeeOf_def saveLeave_def pay_states pay_rows)

lemma pay_step8:
  "createPeriod pay_org 1 9 \<lparr>pd_name = ''March'', pd_start = on_day 3 1, pd_end = on_day 3 31, pd_pay = on_day 3 31\<rparr> pay7 = Inr (pay_march, pay8)"
  by (simp add: Let_def createPeriod_def validateDateRange_def date_le_def generatePeriodNumber_def next_sequence_eq last_sequence_def getUTCFullYear_def
    on_day_def pay8_def pay7_def pay6_def pay5_def pay4_def pay3_def pay2_def pay1_def pay0_def no_payroll_def pay_march_def)

lemma pay_step9: "createRun 1 9 5 pay8 = Inr (pay_draft, pay9)"
  by (simp add: Let_def createRun_def generateRunNumber_def next_sequence_eq last_sequence_def getUTCFullYear_def pay_states pay_march_def pay_draft_def)

text \<open>The calculation.\<close>

definition pay9p :: payroll_db where
  "pay9p = pay9\<lparr>payRuns := [pay_draft\<lparr>rn_status := RnProcessing, rn_startedAt := Some ((2026, 3, 31), 1)\<rparr>],
     payPeriods := [pay_march\<lparr>pp_status := PpProcessing\<rparr>]\<rparr>"

lemma pay_overlap: "overlapDays (2026, 3, 1) (2026, 3, 31) pay_leave_approved = 2"
  by (simp add: overlapDays_def pay_leave_approved_def pay_leave_def getTime_def Let_def js_div_def math_round_of_int [of 1, simplified] del: One_nat_def)

lemma pay_unpaid: "resolveUnpaidLeaveDays 50 (2026, 3, 1) (2026, 3, 31) pay9p = 2"
proof -
  have "unpaidLeaves 50 (2026, 3, 1) (2026, 3, 31) pay9p = [pay_leave_approved]"
    by (simp add: unpaidLeaves_def pay9p_def pay_states pay_rows)
  then show ?thesis by (simp add: resolveUnpaidLeaveDays_def pay_overlap del: One_nat_def)
qed

definition pay_lines :: "pay_line list" where
  "pay_lines =
     [\<lparr>pl_component = Some 1, pl_name = ''Transport'', pl_code = ''TRN'', pl_type = Earning, pl_calc = FixedAmount, pl_cents = 5000\<rparr>,
      \<lparr>pl_component = None, pl_name = ''Unpaid Leave Deduction'', pl_code = ''UNPAID_LEAVE'', pl_type = Deduction,
        pl_calc = FixedAmount, pl_cents = 10000\<rparr>]"

lemma cents_numeral [simp]: "toCents (numeral k) = numeral k" if "(numeral k :: int) \<le> 2 ^ 50"
  by (rule toCents_bounded) (use that in simp)

lemma decimal_numeral: "centsToDecimalString (numeral k) = numeral k" if "(numeral k :: int) < 2 ^ 51"
  using centsToDecimalString_exact [of "numeral k"] that by simp

lemma round_numeral: "math_round (numeral k) = numeral k"
  using math_round_of_int [of "numeral k"] by simp

lemma pay_payLines: "payLines pay_config1 pay_march pay_employee pay_salary pay9p = Inr pay_lines"
proof -
  have c: "componentsAsOf 50 (2026, 3, 1) pay9p = [pay_allowance]"
    by (simp add: componentsAsOf_def effectiveOn_def pay9p_def pay_states pay_allowance_def del: One_nat_def)
  have l: "componentLine pay9p 100000 pay_allowance [] = Inr [hd pay_lines]"
    by (simp add: componentLine_def amountCents_def pay9p_def pay_states pay_allowance_def pay_transport_def pay_lines_def del: One_nat_def)
  have u: "unpaidLine 100000 2 20 = pay_lines ! 1"
    by (simp add: unpaidLine_def pay_lines_def Let_def js_div_def js_mul_def round_numeral)
  show ?thesis
    by (simp add: payLines_def Let_def pay_config1_def pay_march_def pay_employee_def pay_salary_def c l pay_unpaid u del: One_nat_def)
      (simp add: pay_lines_def)
qed

lemma pay_comp: "compensationAsOf 50 (2026, 3, 1) pay9p = Some pay_salary" "assignmentAsOf 50 (2026, 3, 1) pay9p = None"
  by (simp_all add: compensationAsOf_def assignmentAsOf_def latestFrom_def effectiveOn_def pay9p_def pay_states pay_salary_def del: One_nat_def)

lemma pay_pays:
  "payEmployee pay_config1 pay_march 6 pay_employee (pay9p, 0, 0, 0)
    = Inr (pay9p\<lparr>payslips := [pay_slip], payItems := pay_lines_stored, hrIds := 8\<rparr>, 105000, 10000, 95000)"
proof -
  have i: "hrIds pay9p = 7" "payslips pay9p = []" "payItems pay9p = []" by (simp_all add: pay9p_def pay_states)
  have e: "em_id pay_employee = 50" "pp_start pay_march = (2026, 3, 1)" "cm_salary pay_salary = 100000" "em_code pay_employee = ''E1''"
    "em_name pay_employee = ''Aye''" by (simp_all add: pay_employee_def pay_march_def pay_salary_def)
  have s: "sumLines Earning pay_lines = 5000" "sumLines Deduction pay_lines = 10000" by (simp_all add: sumLines_def pay_lines_def js_add_def)
  have g: "js_add 100000 5000 = 105000" "js_sub 105000 10000 = 95000" by (simp_all add: js_add_def js_sub_def)
  have items: "map (itemOf 7) pay_lines = pay_lines_stored" by (simp add: pay_lines_def pay_lines_stored_def itemOf_def decimal_numeral)
  show ?thesis
    by (simp add: payEmployee_def e pay_comp pay_payLines Let_def s g storeItems items i unitName_def decimal_numeral js_add_def pay_slip_def del: One_nat_def)
qed

lemma pay_step10: "calculateRun 6 1 ((2026, 3, 31), 1) ((2026, 3, 31), 2) pay9 = Inr (pay_calculated, pay10)"
proof -
  have l: "lockedRun 6 (1) pay9 = Inr pay_draft" by (simp add: lockedRun_def pay_draft_def pay9_def del: One_nat_def)
  have d: "rn_status pay_draft = RnDraft" "rn_period pay_draft = 5" "rn_id pay_draft = 6" "rn_id pay_calculated = 6"
    by (simp_all add: pay_draft_def pay_calculated_def)
  let ?r1 = "pay_draft\<lparr>rn_status := RnProcessing, rn_startedAt := Some ((2026, 3, 31), 1)\<rparr>"
  have p: "List.find (\<lambda>p. pp_id p = 5) (payPeriods (saveRun ?r1 pay9)) = Some pay_march" "pp_id pay_march = 5"
    by (simp_all add: saveRun_def pay9_def pay8_def pay_march_def del: One_nat_def)
  have m: "markProcessing 5 (saveRun ?r1 pay9) = Inr pay9p"
    by (simp add: markProcessing_def saveRun_def savePeriod_def pay9_def pay8_def pay9p_def pay_march_def pay_draft_def del: One_nat_def)
  have c: "configOf (1) pay9p = Inr pay_config1" by (simp add: configOf_def pay9p_def pay_states pay_config1_def del: One_nat_def)
  have e: "filter (\<lambda>e. em_company e = 1 \<and> em_status e = EmActive) (employees pay9p) = [pay_employee]"
    by (simp add: pay9p_def pay_states pay_employee_def del: One_nat_def)
  show ?thesis
    by (simp add: calculateRun_def l d p m c e pay_pays Let_def decimal_numeral del: One_nat_def andThen_Inr_iff)
      (simp add: pay_calculated_def pay10_def pay9p_def saveRun_def pay_slip_def pay_draft_def)
qed

lemma pay_step11: "finalizeRun 6 1 9 ((2026, 3, 31), 3) pay10 = Inr (pay_finalized, pay11)"
  by (simp add: finalizeRun_def lockedRun_def markFinalized_def saveRun_def savePeriod_def Let_def pay11_def pay10_def pay_finalized_def
    pay_calculated_def pay_draft_def pay_march_def pay_slip_def del: One_nat_def)

text \<open>The states are reachable.\<close>

lemma reach_step: "payroll_reachable org db \<Longrightarrow> payroll_step org db d \<Longrightarrow> payroll_reachable org d"
  unfolding payroll_reachable_def by simp

lemma pay_reach0: "payroll_reachable pay_org pay0"
  unfolding payroll_reachable_def pay0_def by (rule r_into_rtranclp) (rule set_up [OF setup_step.employees])

lemmas pay_reach1 = reach_step [OF pay_reach0 set_up [OF upsert_config [OF pay_step1]]]
lemmas pay_reach2 = reach_step [OF pay_reach1 dated [OF create_compensation [OF pay_step2]]]
lemmas pay_reach3 = reach_step [OF pay_reach2 set_up [OF create_component [OF pay_step3]]]
lemmas pay_reach4 = reach_step [OF pay_reach3 dated [OF create_employee_component [OF pay_step4]]]
lemmas pay_reach5 = reach_step [OF pay_reach4 set_up [OF create_leave_type [OF pay_step5]]]
lemmas pay_reach6 = reach_step [OF pay_reach5 leave [OF create_leave [OF pay_step6]]]
lemmas pay_reach7 = reach_step [OF pay_reach6 leave [OF decide_leave [OF pay_step7]]]
lemmas pay_reach8 = reach_step [OF pay_reach7 create_period [OF pay_step8]]
lemmas pay_reach9 = reach_step [OF pay_reach8 create_run [OF pay_step9]]

lemma pay_size: "lockedRun 6 1 pay9 = Inr r \<Longrightarrow> calcSize 1 r pay9 \<le> 2 ^ 50"
proof -
  assume "lockedRun 6 1 pay9 = Inr r"
  then have r: "rn_period r = 5" by (auto simp: lockedRun_def pay_draft_def pay9_def)
  have p: "List.find (\<lambda>p. pp_id p = 5) (payPeriods pay9) = Some pay_march" by (simp add: pay9_def pay8_def pay_march_def)
  have c: "configOf 1 pay9 = Inr pay_config1" by (simp add: configOf_def pay_states pay_config1_def)
  have e: "activeEmployees 1 pay9 = [pay_employee]" by (simp add: activeEmployees_def pay_states pay_employee_def)
  have s: "pay9p = savePeriod (pay_march\<lparr>pp_status := PpProcessing\<rparr>)
      (saveRun (pay_draft\<lparr>rn_status := RnProcessing, rn_startedAt := Some ((2026, 3, 31), 1)\<rparr>) pay9)"
    by (simp add: saveRun_def savePeriod_def pay9_def pay8_def pay9p_def pay_march_def pay_draft_def del: One_nat_def)
  have i: "em_id pay_employee = 50" "pp_start pay_march = (2026, 3, 1)" by (simp_all add: pay_employee_def pay_march_def)
  have "paySize pay_config1 pay_march pay9p pay_employee = 115000"
    by (simp add: paySize_def i pay_comp pay_payLines del: One_nat_def)
      (simp add: pay_salary_def pay_lines_def lines_size_def line_int_def)
  then have "paySize pay_config1 pay_march pay9 pay_employee = 115000" unfolding s saved_pay(1) .
  then show ?thesis by (simp add: calcSize_def r p c e del: One_nat_def)
qed

lemmas pay_reach10 = reach_step [OF pay_reach9 calculate_run [OF pay_step10 pay_size]]
lemmas pay_last = finalize_run [where org = pay_org, OF pay_step11]
lemmas pay_reach11 = reach_step [OF pay_reach10 pay_last]

lemma pay_steps: "(payroll_step pay_org)\<^sup>*\<^sup>* pay7 pay11"
proof -
  have "payroll_step pay_org pay7 pay8" "payroll_step pay_org pay8 pay9" "payroll_step pay_org pay10 pay11"
    by (rule create_period [OF pay_step8], rule create_run [OF pay_step9], rule pay_last)
  moreover have "payroll_step pay_org pay9 pay10" by (rule calculate_run [OF pay_step10 pay_size])
  ultimately show ?thesis by (meson rtranclp.rtrancl_refl converse_rtranclp_into_rtranclp)
qed

end
