(* ===== verification/Payroll_Theorems.thy ===== *)
theory Payroll_Theorems
  imports Payroll_System
begin

text \<open>
  The properties of human resources and payroll, over every sequence of their operations from empty tables: payroll
  adds up, a finalized payroll is fixed, lookups as of a day answer the covering row, leave is decided once.
\<close>

section \<open>Payroll adds up\<close>

text \<open>C36: In every reachable state each payslip adds up to its stored items (gross is base plus earnings, deductions the
  deductions, net the difference), each run carries the count and the exact totals of its payslips, and a period has one
  run that is not cancelled at most. The period of a draft run is open or cancelled, that of a finalized run is
  finalized, no run is left in processing, and the period of a calculated run is in processing, except that a period may
  have been cancelled over it when another run of the same period is cancelled: the check of the cancellation
  reads only one run of the period (lemma period_cancelled_under_run).\<close>

theorem payroll_adds_up:
  assumes "payroll_reachable org db"
  shows "(\<forall>s \<in> set (payslips db). slip_exact (payItems db) s) \<and> (\<forall>r \<in> set (payRuns db). run_exact (payslips db) r)
    \<and> (\<forall>a \<in> set (payRuns db). \<forall>b \<in> set (payRuns db). rn_period a = rn_period b \<and> rn_status a \<noteq> RnCancelled
         \<and> rn_status b \<noteq> RnCancelled \<longrightarrow> a = b)
    \<and> (\<forall>r \<in> set (payRuns db). \<exists>p \<in> set (payPeriods db). pp_id p = rn_period r
         \<and> (status_agrees r p \<or> missed_cancel (payRuns db) r p))"
proof -
  have ok: "payroll_ok db" using reachable_ok [OF assms] by (simp add: hr_ok_def)
  have "a = b" if "a \<in> set (payRuns db)" "b \<in> set (payRuns db)" "rn_period a = rn_period b" "rn_status a \<noteq> RnCancelled"
    "rn_status b \<noteq> RnCancelled" for a b
  proof (rule by_id [OF _ that(1,2)])
    show "distinct (map rn_id (payRuns db))" using ok by (simp add: payroll_ok_def ids_ok_def)
    show "rn_id a = rn_id b" using ok that unfolding payroll_ok_def one_run_def by blast
  qed
  then show ?thesis using ok unfolding payroll_ok_def runs_agree_def by blast
qed

lemma payroll_adds_up_witness:
  "slip_exact (payItems pay11) (pay_slip\<lparr>ps_status := PsFinalized\<rparr>) \<and> run_exact (payslips pay11) pay_finalized"
  using payroll_adds_up [OF pay_reach11] by (simp add: pay11_def)

section \<open>A finalized payroll is fixed\<close>

definition run_kept :: "pay_run \<Rightarrow> 'a payroll_db_scheme \<Rightarrow> 'a payroll_db_scheme \<Rightarrow> bool" where
  "run_kept r db d \<longleftrightarrow> r \<in> set (payRuns d) \<and> slipsOf (rn_id r) (payslips d) = slipsOf (rn_id r) (payslips db)
     \<and> (\<forall>s \<in> set (slipsOf (rn_id r) (payslips db)). itemsOf (ps_id s) (payItems d) = itemsOf (ps_id s) (payItems db))"

lemma run_kept_same:
  assumes "r \<in> set (payRuns d)" "payslips d = payslips db" "payItems d = payItems db"
  shows "run_kept r db d"
  using assms by (simp add: run_kept_def)

lemma other_saved: "r \<in> set (payRuns db) \<Longrightarrow> rn_id x \<noteq> rn_id r \<Longrightarrow> r \<in> set (payRuns (saveRun x db))"
  by (force simp: runs_same(1))

lemma calculateRun_keeps:
  assumes ok: "payroll_ok db" and r: "r \<in> set (payRuns db)" "rn_status r = RnFinalized"
    and c: "calculateRun i company t0 t1 db = Inr (r2, d)"
    and size: "\<And>r. lockedRun i company db = Inr r \<Longrightarrow> calcSize company r db \<le> 2 ^ 50"
  shows "run_kept r db d"
proof -
  from calculateRun_laws [OF c size] obtain r0 p config out where
    l: "lockedRun i company db = Inr r0" "rn_status r0 = RnDraft"
    and sl: "payslips d = payslips db @ map fst out"
    and it: "payItems d = payItems db @ concat (map (\<lambda>(s, ls). map (itemOf (ps_id s)) ls) out)"
    and ids: "map (ps_id \<circ> fst) out = [hrIds db..<hrIds d]"
    and all: "list_all2 (paysOut config p (rn_id r0) db) (filter (paid p db) (activeEmployees company db)) out"
    and i2: "rn_id r2 = rn_id r0" and run: "payRuns d = payRuns (saveRun r2 db)" by auto
  note r0 = lockedRun_laws [OF ok l(1)]
  have ne: "rn_id r0 \<noteq> rn_id r"
  proof
    assume "rn_id r0 = rn_id r"
    then have "r0 = r" using by_id [of rn_id "payRuns db" r0 r] ok r(1) r0(1) by (simp add: payroll_ok_def ids_ok_def)
    then show False using l(2) r(2) by simp
  qed
  have "ps_run s = rn_id r0" if "s \<in> set (map fst out)" for s using that out_pays [OF all] paysOut_exact(2) by fastforce
  then have "filter (\<lambda>s. ps_run s = rn_id r) (map fst out) = []" using ne by (auto simp: filter_empty_conv)
  then have "slipsOf (rn_id r) (payslips d) = slipsOf (rn_id r) (payslips db)" by (simp add: slipsOf_def sl)
  moreover have "itemsOf (ps_id s) (payItems d) = itemsOf (ps_id s) (payItems db)" if s: "s \<in> set (payslips db)" for s
  proof -
    have lt: "ps_id s < hrIds db" using ok s by (simp add: payroll_ok_def ids_ok_def)
    have "hrIds db \<le> ps_id t" if "(t, ls) \<in> set out" for t ls
    proof -
      have "ps_id t \<in> set (map (ps_id \<circ> fst) out)" using that by force
      then show ?thesis unfolding ids by simp
    qed
    then have "filter (\<lambda>y. py_slip y = ps_id s) (concat (map (\<lambda>(s, ls). map (itemOf (ps_id s)) ls) out)) = []"
      using lt by (fastforce simp: filter_empty_conv itemOf_def)
    then show ?thesis by (simp add: itemsOf_def it)
  qed
  moreover have "r \<in> set (payRuns d)" using r(1) ne i2 by (force simp: run runs_same(1))
  ultimately show ?thesis by (simp add: run_kept_def slipsOf_def)
qed

lemma other_finalized:
  assumes "k \<noteq> i"
  shows "slipsOf k (map (\<lambda>s. if ps_run s = i then s\<lparr>ps_status := PsFinalized\<rparr> else s) ss) = slipsOf k ss"
  unfolding slipsOf_def by (induction ss) (use assms in simp_all)

lemma other_run:
  assumes "payroll_ok db" "r \<in> set (payRuns db)" "rn_status r = RnFinalized" "x \<in> set (payRuns db)" "rn_status x \<noteq> RnFinalized"
  shows "rn_id x \<noteq> rn_id r"
proof
  assume "rn_id x = rn_id r"
  then have "x = r" using by_id [of rn_id "payRuns db" x r] assms by (simp add: payroll_ok_def ids_ok_def)
  then show False using assms(3,5) by simp
qed

lemma finalizeRun_keeps:
  assumes ok: "payroll_ok db" and r: "r \<in> set (payRuns db)" "rn_status r = RnFinalized"
    and c: "finalizeRun i company user now db = Inr (x, d)"
  shows "run_kept r db d"
proof -
  from finalizeRun_laws [OF ok c] obtain x0 where x0: "x0 \<in> set (payRuns db)" "rn_id x0 = i" "rn_status x0 = RnCalculated"
    and x: "x = x0\<lparr>rn_status := RnFinalized, rn_finalizedAt := Some now, rn_finalizedBy := Some user\<rparr>"
    and sl: "payslips d = map (\<lambda>s. if ps_run s = i then s\<lparr>ps_status := PsFinalized\<rparr> else s) (payslips db)"
    and it: "payItems d = payItems db" and run: "payRuns d = payRuns (saveRun x db)" by blast
  have "rn_id x0 \<noteq> rn_id r" by (rule other_run [OF ok r x0(1)]) (simp add: x0(3))
  then have ne: "rn_id r \<noteq> i" using x0(2) by simp
  have "r \<in> set (payRuns d)" unfolding run by (rule other_saved [OF r(1)]) (use ne x0(2) in \<open>simp add: x\<close>)
  then show ?thesis by (simp add: run_kept_def it sl other_finalized [OF ne])
qed

lemma revertToOpen_result: "revertToOpen k db = Inr d \<Longrightarrow> d = db \<or> (\<exists>p. d = savePeriod p db)"
  by (auto simp: revertToOpen_def split: if_splits)

lemma cancelRun_result:
  assumes c: "cancelRun i company db = Inr (x, d)"
  shows "\<exists>x0. lockedRun i company db = Inr x0 \<and> (rn_status x0 = RnDraft \<or> rn_status x0 = RnCalculated) \<and> rn_id x = rn_id x0
    \<and> payslips d = payslips db \<and> payItems d = payItems db \<and> payRuns d = payRuns (saveRun x db)"
proof -
  obtain x0 where l: "lockedRun i company db = Inr x0"
  proof (cases "lockedRun i company db")
    case (Inl e)
    have False using c unfolding cancelRun_def Inl andThen_simps by (simp only: sum.distinct)
    then show ?thesis ..
  qed
  define y where "y = x0\<lparr>rn_status := RnCancelled\<rparr>"
  have c': "(if rn_status x0 \<noteq> RnDraft \<and> rn_status x0 \<noteq> RnCalculated then Inl (AppException UnprocessableEntity)
    else if rn_status x0 = RnCalculated then andThen (revertToOpen (rn_period x0) (saveRun y db)) (\<lambda>db2. Inr (y, db2))
    else Inr (y, saveRun y db)) = Inr (x, d)"
    using c unfolding cancelRun_def l andThen_simps Let_def y_def .
  have st: "rn_status x0 = RnDraft \<or> rn_status x0 = RnCalculated" using c' by (simp split: if_splits)
  have y: "y = x" using c' by (simp split: if_splits)
  have "revertToOpen (rn_period x0) (saveRun x db) = Inr d \<or> d = saveRun x db" using c' unfolding y by (auto split: if_splits)
  then consider "d = saveRun x db" | p where "d = savePeriod p (saveRun x db)" using revertToOpen_result by blast
  then have "payslips d = payslips db \<and> payItems d = payItems db \<and> payRuns d = payRuns (saveRun x db)"
    by cases (simp_all add: periods_same runs_same(3,4))
  moreover have "rn_id x = rn_id x0" by (simp add: y [symmetric] y_def)
  ultimately show ?thesis using l st by blast
qed

lemma cancelRun_keeps:
  assumes ok: "payroll_ok db" and r: "r \<in> set (payRuns db)" "rn_status r = RnFinalized"
    and c: "cancelRun i company db = Inr (x, d)"
  shows "run_kept r db d"
proof -
  from cancelRun_result [OF c] obtain x0 where l: "lockedRun i company db = Inr x0" "rn_status x0 = RnDraft \<or> rn_status x0 = RnCalculated"
    and x: "rn_id x = rn_id x0" and same: "payslips d = payslips db" "payItems d = payItems db" "payRuns d = payRuns (saveRun x db)"
    by blast
  have "rn_id x0 \<noteq> rn_id r" by (rule other_run [OF ok r lockedRun_laws(1) [OF ok l(1)]]) (use l(2) in auto)
  then have "r \<in> set (payRuns d)" unfolding same(3) by (intro other_saved [OF r(1)]) (simp add: x)
  then show ?thesis using same by (intro run_kept_same)
qed

lemma final_step:
  assumes st: "payroll_step org db d" and h: "hr_ok db" and r: "r \<in> set (payRuns db)" "rn_status r = RnFinalized"
  shows "run_kept r db d"
proof -
  have ok: "payroll_ok db" using h by (simp add: hr_ok_def)
  have frame: "run_kept r db d" if "pay_frame db d"
    by (rule run_kept_same) (use that r(1) in \<open>auto simp: pay_frame_def\<close>)
  show ?thesis
    using st
  proof cases
    case set_up
    then show ?thesis using frame setup_frames by blast
  next
    case dated
    then show ?thesis using frame dated_frames by blast
  next
    case leave
    then show ?thesis using frame leave_frames by blast
  next
    case (create_period company user pd p)
    then have "payslips d = payslips db" "payItems d = payItems db" "payRuns d = payRuns db"
      by (auto simp: createPeriod_def generatePeriodNumber_def Let_def split: if_splits prod.splits)
    then show ?thesis using r(1) by (intro run_kept_same) simp_all
  next
    case (cancel_period i company user p)
    then have "payslips d = payslips db" "payItems d = payItems db" "payRuns d = payRuns db"
      by (auto simp: cancelPeriod_def savePeriod_def Let_def split: if_splits)
    then show ?thesis using r(1) by (intro run_kept_same) simp_all
  next
    case (create_run company user k x)
    then have "payslips d = payslips db" "payItems d = payItems db" "payRuns d = payRuns db @ [x]"
      by (auto simp: createRun_def generateRunNumber_def Let_def case_prod_unfold split: if_splits)
    then show ?thesis using r(1) by (intro run_kept_same) simp_all
  next
    case (calculate_run i company t0 t1 x)
    then show ?thesis by (intro calculateRun_keeps [OF ok r]) blast+
  next
    case finalize_run
    then show ?thesis by (rule finalizeRun_keeps [OF ok r])
  next
    case cancel_run
    then show ?thesis by (rule cancelRun_keeps [OF ok r])
  qed
qed

text \<open>C37: Once a run is finalized, no operation changes the run, its payslips or their items, whatever follows:
  the payroll that was paid out stays as it was computed.\<close>

theorem final_payroll_fixed:
  assumes "payroll_reachable org db" "(payroll_step org)\<^sup>*\<^sup>* db d" "r \<in> set (payRuns db)" "rn_status r = RnFinalized"
  shows "r \<in> set (payRuns d) \<and> slipsOf (rn_id r) (payslips d) = slipsOf (rn_id r) (payslips db)
    \<and> (\<forall>s \<in> set (slipsOf (rn_id r) (payslips db)).
         ps_status s = PsFinalized \<and> itemsOf (ps_id s) (payItems d) = itemsOf (ps_id s) (payItems db))"
proof -
  have ok: "hr_ok db" by (rule reachable_ok [OF assms(1)])
  have "run_kept r db d"
    using assms(2)
  proof (induction rule: rtranclp_induct)
    case base
    then show ?case using assms(3) by (simp add: run_kept_def)
  next
    case (step e d)
    then have "run_kept r e d" using final_step [OF step(2) steps_ok [OF step(1) ok] _ assms(4)] by (simp add: run_kept_def)
    then show ?case using step.IH by (simp add: run_kept_def)
  qed
  moreover have "ps_status s = PsFinalized" if "s \<in> set (slipsOf (rn_id r) (payslips db))" for s
    using slip_of_run [of db s r] ok that assms(3,4) by (auto simp: slipsOf_def hr_ok_def)
  ultimately show ?thesis by (simp add: run_kept_def)
qed

lemma final_payroll_fixed_witness:
  "pay_finalized \<in> set (payRuns (pay11\<lparr>employees := []\<rparr>))
    \<and> slipsOf 6 (payslips (pay11\<lparr>employees := []\<rparr>)) = slipsOf 6 (payslips pay11)"
proof -
  have r: "pay_finalized \<in> set (payRuns pay11)" "rn_status pay_finalized = RnFinalized" "rn_id pay_finalized = 6"
    by (simp_all add: pay11_def pay_finalized_def pay_calculated_def pay_draft_def)
  have "payroll_step pay_org pay11 (pay11\<lparr>employees := []\<rparr>)" by (rule set_up [OF setup_step.employees])
  then show ?thesis using final_payroll_fixed [OF pay_reach11 r_into_rtranclp r(1,2)] unfolding r(3) by blast
qed

section \<open>What holds on a day\<close>

lemma latestFrom_unique:
  assumes "\<And>a b. a \<in> set rs \<Longrightarrow> b \<in> set rs \<Longrightarrow> a = b"
  shows "latestFrom rs = Some c \<longleftrightarrow> c \<in> set rs"
proof (cases rs)
  case Nil
  then show ?thesis by (simp add: latestFrom_def)
next
  case (Cons r rest)
  then have "\<forall>x \<in> set rest. x = r" using assms by simp
  then have "fold (\<lambda>x best. if day_le (dr_from x) (dr_from best) then best else x) rest r = r" by (induction rest) auto
  then show ?thesis using Cons assms by (auto simp: latestFrom_def)
qed

text \<open>In every reachable state the rows of one employee never overlap, so that the lookup as of a day answers
  exactly the row that covers the day: the compensation, the assignment and the shift, and one amount per component.\<close>

theorem lookups_are_the_covering_row:
  assumes "payroll_reachable org db"
  shows "(compensationAsOf e x db = Some c \<longleftrightarrow> c \<in> set (compensations db) \<and> cm_employee c = e \<and> effectiveOn x c)
    \<and> (assignmentAsOf e x db = Some a \<longleftrightarrow> a \<in> set (assignments db) \<and> ea_employee a = e \<and> effectiveOn x a)
    \<and> (shiftAsOf e x db = Some s \<longleftrightarrow> s \<in> set (shiftAssignments db) \<and> sx_employee s = e \<and> effectiveOn x s)
    \<and> distinct (map ec_component (componentsAsOf e x db))"
proof -
  have ok: "windows_ok db" using reachable_ok [OF assms] by (simp add: hr_ok_def)
  have compensationAsOf: "compensationAsOf e x db = Some c \<longleftrightarrow> c \<in> set (compensations db) \<and> cm_employee c = e \<and> effectiveOn x c"
    unfolding compensationAsOf_def using ok
    by (subst latestFrom_unique) (auto simp: windows_ok_def intro: compensation_table.effective_unique [of db _ _ x])
  have assignmentAsOf: "assignmentAsOf e x db = Some a \<longleftrightarrow> a \<in> set (assignments db) \<and> ea_employee a = e \<and> effectiveOn x a"
    unfolding assignmentAsOf_def using ok
    by (subst latestFrom_unique) (auto simp: windows_ok_def intro: assignment_table.effective_unique [of db _ _ x])
  have shiftAsOf: "shiftAsOf e x db = Some s \<longleftrightarrow> s \<in> set (shiftAssignments db) \<and> sx_employee s = e \<and> effectiveOn x s"
    unfolding shiftAsOf_def using ok
    by (subst latestFrom_unique) (auto simp: windows_ok_def intro: shift_table.effective_unique [of db _ _ x])
  have "distinct (map dr_id (employeeComponents db))" using ok by (simp add: windows_ok_def component_table.disjoint_rows_def)
  then have "distinct (componentsAsOf e x db)" by (simp add: componentsAsOf_def distinct_map)
  moreover have "inj_on ec_component (set (componentsAsOf e x db))"
    using ok by (auto simp: inj_on_def componentsAsOf_def windows_ok_def intro: component_table.effective_unique [of db _ _ x])
  ultimately have "distinct (map ec_component (componentsAsOf e x db))" by (simp add: distinct_map)
  then show ?thesis using compensationAsOf assignmentAsOf shiftAsOf by blast
qed

lemma lookups_are_the_covering_row_witness:
  "compensationAsOf 50 (2026, 3, 1) pay7 = Some pay_salary"
  using lookups_are_the_covering_row [OF pay_reach7, where e = 50 and x = "(2026, 3, 1)" and c = pay_salary]
  by (simp add: pay_states pay_salary_def effectiveOn_def)

section \<open>Leave decisions\<close>

lemma leaves_kept_step:
  assumes "payroll_step org db d" "hr_ok db"
  shows "leaves_kept db d"
proof -
  have same: "leaves_kept db d" if "leave_frame db d" using that by (simp add: leaves_kept_def leave_frame_def)
  have ok: "leaves_ok db" using assms(2) by (simp add: hr_ok_def)
  show ?thesis
    using assms(1)
  proof cases
    case set_up
    then show ?thesis using same setup_frames by blast
  next
    case dated
    then show ?thesis using same dated_frames by blast
  next
    case leave
    then show ?thesis using leave_step_laws ok by blast
  next
    case create_period
    then show ?thesis using same createPeriod_frames by blast
  next
    case cancel_period
    then show ?thesis using same cancelPeriod_frames by blast
  next
    case create_run
    then show ?thesis using same createRun_frames by blast
  next
    case calculate_run
    then show ?thesis using same calculateRun_frames by blast
  next
    case finalize_run
    then show ?thesis using same finalizeRun_frames by blast
  next
    case cancel_run
    then show ?thesis using same cancelRun_frames by blast
  qed
qed

lemma decided_stays:
  assumes "(payroll_step org)\<^sup>*\<^sup>* db d" "hr_ok db" "v \<in> set (leaveRequests db)" "lv_status v \<noteq> LvPending"
  shows "v \<in> set (leaveRequests d)"
  using assms(1)
proof (induction rule: rtranclp_induct)
  case (step e d)
  then show ?case using leaves_kept_step [OF step(2) steps_ok [OF step(1) assms(2)]] assms(4) by (simp add: leaves_kept_def)
qed (rule assms(3))

text \<open>C40: A leave request is decided once, while it is pending, by a user who is not the employee's own; the row
  records the decision, its author and time, and no later operation changes it.\<close>

theorem leave_decisions:
  assumes "payroll_reachable org db" "decideLeave approve i actor company now db = Inr (v', d)" "(payroll_step org)\<^sup>*\<^sup>* d e"
  shows "\<exists>v \<in> set (leaveRequests db). lv_id v = i \<and> lv_company v = company \<and> lv_status v = LvPending
    \<and> (\<forall>m. employeeOf (lv_employee v) db = Some m \<longrightarrow> em_user m \<noteq> Some actor)
    \<and> v' = v\<lparr>lv_status := (if approve then LvApproved else LvRejected), lv_decisionAt := Some now, lv_cancelledAt := None,
         lv_approvedBy := (if approve then Some actor else None), lv_rejectedBy := (if approve then None else Some actor)\<rparr>
    \<and> v' \<in> set (leaveRequests e)"
proof -
  let ?v = "\<lambda>v. v\<lparr>lv_status := (if approve then LvApproved else LvRejected), lv_decisionAt := Some now, lv_cancelledAt := None,
         lv_approvedBy := (if approve then Some actor else None), lv_rejectedBy := (if approve then None else Some actor)\<rparr>"
  have ok: "hr_ok db" by (rule reachable_ok [OF assms(1)])
  have okd: "hr_ok d" by (rule payroll_step_ok [OF leave [OF decide_leave [OF assms(2)]] ok])
  from assms(2) obtain v where f: "List.find (\<lambda>v. lv_id v = i \<and> lv_company v = company) (leaveRequests db) = Some v"
    and g: "lv_status v = LvPending" "\<forall>m. employeeOf (lv_employee v) db = Some m \<longrightarrow> em_user m \<noteq> Some actor"
    and v': "v' = ?v v" "d = saveLeave v' db"
    by (auto simp: decideLeave_def lockedLeave_def Let_def split: if_splits option.splits)
  from find_SomeD [OF f] have m: "v \<in> set (leaveRequests db)" "lv_id v = i" "lv_company v = company" by auto
  have "v' \<in> set (leaveRequests d)" using m(1) by (auto simp: v' saveLeave_def image_iff)
  moreover have "lv_status v' \<noteq> LvPending" by (simp add: v'(1))
  ultimately have "v' \<in> set (leaveRequests e)" by (intro decided_stays [OF assms(3) okd])
  then show ?thesis using m g v'(1) by blast
qed

lemma leave_decisions_witness:
  "pay_leave_approved \<in> set (leaveRequests pay11) \<and> lv_approvedBy pay_leave_approved = Some 9"
  using leave_decisions [OF pay_reach6 pay_step7 pay_steps] by (auto simp: pay_leave_approved_def)

text \<open>The update of a pending request reads and saves outside a transaction: saved after a decision that came in
  between, it makes the request pending again.\<close>

lemma update_reverts_decision:
  assumes "updateLeaveRead i user company dto ownOnly db = Inr v" "decideLeave approve i actor company now db = Inr (v', d)"
    and "leaves_ok db"
  shows "\<exists>x \<in> set (leaveRequests (saveLeave v d)). lv_id x = i \<and> lv_status x = LvPending"
proof -
  from assms(1) obtain v0 where f: "findLeave i user company ownOnly db = Inr v0" and v: "lv_id v = lv_id v0" "lv_status v = LvPending"
    by (auto simp: updateLeaveRead_def split: if_splits)
  have m: "v0 \<in> set (leaveRequests db)" "lv_id v0 = i" using f find_SomeD by (fastforce simp: findLeave_def)+
  from assms(2) have d: "d = saveLeave v' db" by (auto simp: decideLeave_def Let_def split: if_splits)
  have "i \<in> set (map lv_id (leaveRequests d))" using m by (force simp: d saveLeave_def)
  then have "v \<in> set (leaveRequests (saveLeave v d))" using v(1) m(2) by (auto simp: saveLeave_def image_iff)
  then show ?thesis using v m(2) by auto
qed

section \<open>A period cancelled under a calculated run\<close>

text \<open>The cancellation of a period asks one run of the period for its status. After a run was cancelled and a second one
  calculated, the first answers and the period is cancelled; the calculated run can then not be finalized.\<close>

lemma period_cancelled_under_run:
  assumes ok: "payroll_ok db" and p: "List.find (\<lambda>p. pp_id p = i \<and> pp_company p = company) (payPeriods db) = Some p"
    and st: "pp_status p = PpProcessing"
    and r0: "List.find (\<lambda>r. rn_period r = i) (payRuns db) = Some r0" "rn_status r0 = RnCancelled"
  shows "\<exists>p' d. cancelPeriod i company user db = Inr (p', d) \<and> payRuns d = payRuns db
    \<and> markFinalized i d = Inl (AppException UnprocessableEntity)"
proof -
  let ?p = "p\<lparr>pp_status := PpCancelled, pp_updatedBy := user\<rparr>"
  have c: "cancelPeriod i company user db = Inr (?p, savePeriod ?p db)" by (simp add: cancelPeriod_def p st r0 Let_def)
  have m: "p \<in> set (payPeriods db)" "pp_id p = i" using find_SomeD [OF p] by auto
  have "?p \<in> set (payPeriods (savePeriod ?p db))" using m(1) by (auto simp: periods_same(1) image_iff)
  from find_period [OF cancelPeriod_ok [OF ok c] this] have "List.find (\<lambda>x. pp_id x = i) (payPeriods (savePeriod ?p db)) = Some ?p"
    using m(2) by simp
  then have "markFinalized i (savePeriod ?p db) = Inl (AppException UnprocessableEntity)" by (simp add: markFinalized_def)
  then show ?thesis using c by (auto simp: periods_same(2))
qed

end
