(* ===== verification/Payroll_Amounts.thy ===== *)
theory Payroll_Amounts
  imports Payroll_Theorems
begin

text \<open>
  What a calculated run pays: one payslip for each active employee with compensation on the first day of the period,
  whose items are the employee's components of that day and the deduction of unpaid leave. A percentage is computed
  with doubles; its item is within half a cent of the exact amount and the error of three roundings. The days of unpaid
  leave are calendar days.
\<close>

section \<open>Days of unpaid leave\<close>

text \<open>A day with a year of four digits.\<close>

definition short_day :: "day \<Rightarrow> bool" where
  "short_day x \<longleftrightarrow> real_day x \<and> fst x \<le> 9999"

lemma short_day_number: "short_day x \<Longrightarrow> day_number x \<le> 3660000"
proof -
  assume s: "short_day x"
  obtain y m d where x: "x = (y, m, d)" by (cases x)
  have "day_number x \<le> days_before_year (Suc y)" using s unfolding x short_day_def by (intro within_year(2)) simp
  also have "\<dots> \<le> 366 * y" by (simp add: days_before_year_def)
  finally show ?thesis using s by (simp add: x short_day_def)
qed

lemma overlapDays_eq:
  assumes "short_day s" "short_day t" "short_day (lv_from v)" "short_day (lv_to v)"
  shows "overlapDays s t v = int (min (day_number (lv_to v)) (day_number t)) - int (max (day_number (lv_from v)) (day_number s)) + 1"
proof -
  let ?a = "if day_le (lv_from v) s then s else lv_from v" and ?b = "if day_le t (lv_to v) then t else lv_to v"
  have n: "day_number ?a = max (day_number (lv_from v)) (day_number s)" "day_number ?b = min (day_number (lv_to v)) (day_number t)"
    using assms by (simp_all add: short_day_def day_le_iff)
  have b: "day_number ?a \<le> 3660000" "day_number ?b \<le> 3660000" using assms short_day_number by simp_all
  have "of_int (int (getTime (?b, 0)) - int (getTime (?a, 0))) / 86400000 = (of_int (int (day_number ?b) - int (day_number ?a)) :: real)"
    by (simp add: getTime_def left_diff_distrib)
  moreover have small: "\<bar>int (day_number ?b) - int (day_number ?a)\<bar> \<le> 2 ^ 53 - 1" using b by simp
  ultimately have "js_div (of_int (int (getTime (?b, 0)) - int (getTime (?a, 0)))) 86400000 = of_int (int (day_number ?b) - int (day_number ?a))"
    unfolding js_div_def by (simp only: fl_of_int [OF small])
  then show ?thesis unfolding overlapDays_def Let_def by (simp only: math_round_of_int n)
qed

definition unpaid_leave :: "'a payroll_db_scheme \<Rightarrow> id \<Rightarrow> leave_request \<Rightarrow> bool" where
  "unpaid_leave db e v \<longleftrightarrow> lv_employee v = e \<and> lv_status v = LvApproved
     \<and> (\<exists>t \<in> set (leaveTypes db). lt_id t = lv_type v \<and> \<not> lt_deleted t \<and> \<not> lt_paid t)"

lemma common_days:
  assumes "short_day s" "short_day t" "short_day (lv_from v)" "short_day (lv_to v)"
  shows "max (overlapDays s t v) 0 = int (card (days_between (lv_from v) (lv_to v) \<inter> days_between s t))"
proof -
  let ?a = "if day_le (lv_from v) s then s else lv_from v" and ?b = "if day_le t (lv_to v) then t else lv_to v"
  have r: "real_day ?a" "real_day ?b" using assms by (simp_all add: short_day_def)
  have n: "day_number ?a = max (day_number (lv_from v)) (day_number s)" "day_number ?b = min (day_number (lv_to v)) (day_number t)"
    using assms by (simp_all add: short_day_def day_le_iff)
  have "days_between (lv_from v) (lv_to v) \<inter> days_between s t = days_between ?a ?b"
    using assms r unfolding days_between_def short_day_def by (auto simp: day_le_iff n simp del: real_day.simps day_number.simps day_le.simps)
  moreover have "max (int a - int b + 1) 0 = int (a + 1 - b)" for a b by (cases "b \<le> a + 1") (auto simp: of_nat_diff)
  ultimately show ?thesis unfolding overlapDays_eq [OF assms] using card_days_between(2) [OF r] n by (simp only:)
qed

text \<open>C39: The days deducted from an employee's pay are the calendar days of the period that lie in an approved
  unpaid leave, counted once for each such leave, over the ends of months and leap years.\<close>

theorem unpaid_days_counted:
  assumes "short_day s" "short_day t" "\<forall>v \<in> set (leaveRequests db). short_day (lv_from v) \<and> short_day (lv_to v)"
  shows "resolveUnpaidLeaveDays e s t db =
    (\<Sum>v \<leftarrow> filter (unpaid_leave db e) (leaveRequests db). int (card (days_between (lv_from v) (lv_to v) \<inter> days_between s t)))"
proof -
  have none: "card (days_between (lv_from v) (lv_to v) \<inter> days_between s t) = 0"
    if "\<not> (day_le (lv_from v) t \<and> day_le s (lv_to v))" for v
  proof -
    have "days_between (lv_from v) (lv_to v) \<inter> days_between s t = {}" using that by (auto simp: days_between_def intro: day_le_trans)
    then show ?thesis by simp
  qed
  have "(\<Sum>v \<leftarrow> filter (\<lambda>v. unpaid_leave db e v \<and> day_le (lv_from v) t \<and> day_le s (lv_to v)) vs. max (overlapDays s t v) 0)
      = (\<Sum>v \<leftarrow> filter (unpaid_leave db e) vs. int (card (days_between (lv_from v) (lv_to v) \<inter> days_between s t)))"
    if "set vs \<subseteq> set (leaveRequests db)" for vs
    using that by (induction vs) (use assms none in \<open>auto simp: common_days\<close>)
  then show ?thesis by (simp add: resolveUnpaidLeaveDays_def unpaidLeaves_def unpaid_leave_def conj_assoc)
qed

lemma unpaid_days_counted_witness:
  "resolveUnpaidLeaveDays 50 (2026, 3, 1) (2026, 3, 31) pay9
    = int (card (days_between (2026, 3, 9) (2026, 3, 10) \<inter> days_between (2026, 3, 1) (2026, 3, 31)))"
proof -
  have l: "leaveRequests pay9 = [pay_leave_approved]" by (simp add: pay_states)
  have f: "lv_from pay_leave_approved = (2026, 3, 9)" "lv_to pay_leave_approved = (2026, 3, 10)"
    by (simp_all add: pay_leave_approved_def pay_leave_def)
  have "unpaid_leave pay9 50 pay_leave_approved" by (simp add: unpaid_leave_def pay_states pay_rows)
  then show ?thesis
    using unpaid_days_counted [of "(2026, 3, 1)" "(2026, 3, 31)" pay9 50] by (simp add: l f short_day_def days_in_month_def)
qed

section \<open>The amounts of a payslip\<close>

definition componentOf :: "'a payroll_db_scheme \<Rightarrow> employee_component \<Rightarrow> pay_component option" where
  "componentOf db a = List.find (\<lambda>c. cp_id c = ec_component a \<and> \<not> cp_deleted c) (payComponents db)"

text \<open>The components an employee has on a day, as far as they are active.\<close>

definition payable :: "id \<Rightarrow> day \<Rightarrow> 'a payroll_db_scheme \<Rightarrow> employee_component list" where
  "payable e x db = filter (\<lambda>a. \<exists>c. componentOf db a = Some c \<and> cp_active c) (componentsAsOf e x db)"

definition fixed_due :: "employee_component \<Rightarrow> pay_component \<Rightarrow> int" where
  "fixed_due a c = (case ec_amount a of Some x \<Rightarrow> x | None \<Rightarrow> (case cp_fixed c of Some y \<Rightarrow> y | None \<Rightarrow> 0))"

definition percentage_due :: "int \<Rightarrow> employee_component \<Rightarrow> pay_component \<Rightarrow> real" where
  "percentage_due base a c =
     of_int base * of_int (case ec_percentage a of Some x \<Rightarrow> x | None \<Rightarrow> (case cp_percentage c of Some y \<Rightarrow> y | None \<Rightarrow> 0)) / 1000000"

definition item_pays :: "'a payroll_db_scheme \<Rightarrow> int \<Rightarrow> employee_component \<Rightarrow> pay_item \<Rightarrow> bool" where
  "item_pays db base a y \<longleftrightarrow> (\<exists>c. componentOf db a = Some c \<and> py_component y = Some (cp_id c) \<and> py_type y = cp_type c
     \<and> (case cp_calc c of
          FixedAmount \<Rightarrow> py_amount y = fixed_due a c
        | PercentageOfBase \<Rightarrow> \<bar>of_int (py_amount y) - percentage_due base a c\<bar> \<le> 1 / 2 + \<bar>percentage_due base a c\<bar> / 2 ^ 51))"

definition unpaid_item :: "int \<Rightarrow> int \<Rightarrow> nat \<Rightarrow> pay_item \<Rightarrow> bool" where
  "unpaid_item base days n y \<longleftrightarrow> py_component y = None \<and> py_type y = Deduction
     \<and> (\<exists>rate. py_amount y = rate * days \<and> \<bar>of_int rate - real_of_int base / of_nat n\<bar> \<le> 1 / 2 + \<bar>real_of_int base / of_nat n\<bar> / 2 ^ 53)"

lemma math_round_error: "\<bar>of_int (math_round x) - x\<bar> \<le> 1 / 2"
  unfolding math_round_def by linarith

lemma rate_error:
  "\<bar>of_int (math_round (js_div (of_int b) (of_nat n))) - real_of_int b / of_nat n\<bar> \<le> 1 / 2 + \<bar>real_of_int b / of_nat n\<bar> / 2 ^ 53"
  using math_round_error [of "js_div (of_int b) (of_nat n)"] fl_error [of "of_int b / of_nat n"]
  unfolding js_div_def by linarith

lemma hundredths: "\<bar>m - q\<bar> \<le> \<bar>q\<bar> * u \<Longrightarrow> \<bar>m / 100 - q / 100\<bar> \<le> \<bar>q / 100\<bar> * u" for m q u :: real
  by (simp flip: diff_divide_distrib)

text \<open>Three roundings, relative to the exact value.\<close>

lemma percentage_error:
  "\<bar>of_int (math_round (js_div (js_mul (of_int b) (js_num4 p)) 100)) - real_of_int b * of_int p / 1000000\<bar>
    \<le> 1 / 2 + \<bar>real_of_int b * of_int p / 1000000\<bar> / 2 ^ 51"
proof -
  let ?X = "of_int b * of_int p / 1000000 :: real" and ?u = "1 / 2 ^ 53 :: real"
  let ?P = "js_num4 p" and ?M = "js_mul (of_int b) (js_num4 p)" and ?D = "js_div (js_mul (of_int b) (js_num4 p)) 100"
  have "\<bar>?P - of_int p / 10000\<bar> \<le> \<bar>of_int p / 10000\<bar> * ?u" unfolding js_num4_def using fl_error [of "of_int p / 10000"] by simp
  then have "\<bar>of_int b / 100 :: real\<bar> * \<bar>?P - of_int p / 10000\<bar> \<le> \<bar>of_int b / 100\<bar> * (\<bar>of_int p / 10000\<bar> * ?u)"
    by (intro mult_left_mono) simp_all
  then have "\<bar>of_int b / 100 * (?P - of_int p / 10000)\<bar> \<le> \<bar>of_int b / 100 * (of_int p / 10000)\<bar> * ?u"
    by (simp only: abs_mult mult.assoc)
  then have 1: "\<bar>of_int b * ?P / 100 - ?X\<bar> \<le> \<bar>?X\<bar> * ?u" by (simp add: algebra_simps)
  have "\<bar>?M - of_int b * ?P\<bar> \<le> \<bar>of_int b * ?P\<bar> * ?u" unfolding js_mul_def using fl_error [of "of_int b * ?P"] by simp
  then have 2: "\<bar>?M / 100 - of_int b * ?P / 100\<bar> \<le> \<bar>of_int b * ?P / 100\<bar> * ?u"
    by (rule hundredths)
  have 3: "\<bar>?D - ?M / 100\<bar> \<le> \<bar>?M / 100\<bar> * ?u" unfolding js_div_def using fl_error [of "?M / 100"] by simp
  have 4: "\<bar>of_int (math_round ?D) - ?D\<bar> \<le> 1 / 2" by (rule math_round_error)
  define Y where "Y = \<bar>?X\<bar> * ?u"
  have Y: "0 \<le> Y" "\<bar>?X\<bar> = Y * 2 ^ 53" by (simp_all add: Y_def)
  from 1 have a: "\<bar>of_int b * ?P / 100 - ?X\<bar> \<le> Y" by (simp add: Y_def)
  then have "\<bar>of_int b * ?P / 100\<bar> \<le> Y * 2 ^ 53 + Y" using Y(2) by linarith
  then have "\<bar>of_int b * ?P / 100\<bar> * ?u \<le> 9 / 8 * Y" using Y(1) by (simp add: field_simps)
  with 2 have b: "\<bar>?M / 100 - of_int b * ?P / 100\<bar> \<le> 9 / 8 * Y" by linarith
  with a have "\<bar>?M / 100\<bar> \<le> Y * 2 ^ 53 + Y + 9 / 8 * Y" using Y(2) by linarith
  then have "\<bar>?M / 100\<bar> * ?u \<le> 9 / 8 * Y" using Y(1) by (simp add: field_simps)
  with 3 have "\<bar>?D - ?M / 100\<bar> \<le> 9 / 8 * Y" by linarith
  with a b have "\<bar>?D - ?X\<bar> \<le> 4 * Y" using Y(1) by linarith
  moreover have "4 * Y = \<bar>?X\<bar> / 2 ^ 51" by (simp add: Y_def)
  ultimately show ?thesis using 4 by linarith
qed

lemma amountCents_due:
  assumes "\<forall>x. ec_amount a = Some x \<longrightarrow> decimal14_2 x" "\<forall>x. cp_fixed c = Some x \<longrightarrow> decimal14_2 x"
  shows "case cp_calc c of FixedAmount \<Rightarrow> amountCents base a c = of_int (fixed_due a c)
    | PercentageOfBase \<Rightarrow> \<exists>m. amountCents base a c = of_int m
        \<and> \<bar>of_int m - percentage_due base a c\<bar> \<le> 1 / 2 + \<bar>percentage_due base a c\<bar> / 2 ^ 51"
proof (cases "cp_calc c")
  case FixedAmount
  have "decimal14_2 (fixed_due a c)" using assms by (auto simp: fixed_due_def decimal14_2_def split: option.splits)
  then show ?thesis by (simp add: FixedAmount amountCents_def fixed_due_def [symmetric])
next
  case PercentageOfBase
  then show ?thesis unfolding amountCents_def percentage_due_def Let_def
    by (simp only: calculation_type.case) (intro exI conjI, rule refl, rule percentage_error)
qed

section \<open>The lines of an employee\<close>

definition component_line :: "'a payroll_db_scheme \<Rightarrow> int \<Rightarrow> employee_component \<Rightarrow> pay_line \<Rightarrow> bool" where
  "component_line db b a l \<longleftrightarrow> (\<exists>c. componentOf db a = Some c \<and> pl_component l = Some (cp_id c) \<and> pl_type l = cp_type c
     \<and> pl_cents l = amountCents b a c)"

lemma componentLines:
  assumes "forEach (componentLine db b) as ls = Inr ls'"
  shows "\<exists>ms. ls' = ls @ ms
    \<and> list_all2 (component_line db b) (filter (\<lambda>a. \<exists>c. componentOf db a = Some c \<and> cp_active c) as) ms"
  using assms
proof (induction as arbitrary: ls)
  case (Cons a as)
  from Cons.prems obtain l1 where l1: "componentLine db b a ls = Inr l1" and rest: "forEach (componentLine db b) as l1 = Inr ls'" by auto
  from l1 obtain c where c: "componentOf db a = Some c" by (auto simp: componentLine_def componentOf_def)
  from Cons.IH [OF rest] obtain ms where ms: "ls' = l1 @ ms"
    "list_all2 (component_line db b) (filter (\<lambda>a. \<exists>c. componentOf db a = Some c \<and> cp_active c) as) ms" by blast
  show ?case
  proof (cases "cp_active c")
    case True
    then obtain l where "l1 = ls @ [l]" "component_line db b a l"
      using l1 c by (auto simp: componentLine_def componentOf_def component_line_def)
    then show ?thesis using ms True c by (intro exI [of _ "l # ms"]) simp
  next
    case False
    then have "l1 = ls" using l1 c by (auto simp: componentLine_def componentOf_def)
    then show ?thesis using ms False c by (intro exI [of _ ms]) simp
  qed
qed simp

lemma line_int_eq: "pl_cents l = of_int m \<Longrightarrow> line_int l = m"
  by (simp add: line_int_def)

lemma component_item:
  assumes "component_line db b a l" "integral l" "\<bar>line_int l\<bar> \<le> 2 ^ 50"
    and "\<forall>a \<in> set (employeeComponents db). \<forall>x. ec_amount a = Some x \<longrightarrow> decimal14_2 x" "a \<in> set (employeeComponents db)"
    and "\<forall>c \<in> set (payComponents db). \<forall>x. cp_fixed c = Some x \<longrightarrow> decimal14_2 x"
  shows "item_pays db b a (itemOf k l)"
proof -
  from assms(1) obtain c where c: "componentOf db a = Some c" "pl_component l = Some (cp_id c)" "pl_type l = cp_type c"
    "pl_cents l = amountCents b a c" by (auto simp: component_line_def)
  have "c \<in> set (payComponents db)" using c(1) find_SomeD unfolding componentOf_def by fastforce
  then have due: "case cp_calc c of FixedAmount \<Rightarrow> amountCents b a c = of_int (fixed_due a c)
    | PercentageOfBase \<Rightarrow> \<exists>m. amountCents b a c = of_int m
        \<and> \<bar>of_int m - percentage_due b a c\<bar> \<le> 1 / 2 + \<bar>percentage_due b a c\<bar> / 2 ^ 51"
    using assms(4-6) by (intro amountCents_due) blast+
  have amt: "py_amount (itemOf k l) = line_int l" by (rule item_amount [OF assms(2,3)])
  have fields: "py_component (itemOf k l) = pl_component l" "py_type (itemOf k l) = pl_type l" by (simp_all add: itemOf_def)
  show ?thesis
  proof (cases "cp_calc c")
    case FixedAmount
    then have "line_int l = fixed_due a c" using due c(4) by (intro line_int_eq) simp
    then show ?thesis using c FixedAmount by (simp add: item_pays_def amt fields)
  next
    case PercentageOfBase
    then obtain m where m: "amountCents b a c = of_int m" "\<bar>of_int m - percentage_due b a c\<bar> \<le> 1 / 2 + \<bar>percentage_due b a c\<bar> / 2 ^ 51"
      using due by auto
    then have "line_int l = m" using c(4) by (intro line_int_eq) simp
    then show ?thesis using c PercentageOfBase m(2) by (simp add: item_pays_def amt fields)
  qed
qed

lemma fl_small: "\<bar>fl x\<bar> \<le> 2 ^ 50 \<Longrightarrow> \<bar>x\<bar> \<le> 2 ^ 51"
proof -
  assume f: "\<bar>fl x\<bar> \<le> 2 ^ 50"
  have "\<bar>x\<bar> - \<bar>fl x\<bar> \<le> \<bar>fl x - x\<bar>" by linarith
  also have "\<dots> \<le> \<bar>x\<bar> / 2 ^ 53" by (rule fl_error)
  finally show ?thesis using f by simp
qed

lemma unpaid_line_item:
  assumes "\<bar>line_int (unpaidLine b days n)\<bar> \<le> 2 ^ 50"
  shows "unpaid_item b days n (itemOf k (unpaidLine b days n))"
proof -
  let ?l = "unpaidLine b days n" and ?r = "math_round (js_div (of_int b) (of_nat n))"
  have i: "integral ?l" by (rule unpaidLine_integral)
  have c: "pl_cents ?l = fl (of_int (?r * days))" by (simp add: unpaidLine_def Let_def js_mul_def)
  have "\<bar>of_int (line_int ?l) :: real\<bar> \<le> 2 ^ 50" using assms by (metis of_int_abs of_int_le_iff of_int_numeral of_int_power)
  then have "\<bar>of_int (?r * days) :: real\<bar> \<le> 2 ^ 51" using i unfolding integral_def c by (intro fl_small) simp
  then have "\<bar>?r * days\<bar> \<le> 2 ^ 51" by (metis of_int_abs of_int_le_iff of_int_numeral of_int_power)
  then have "pl_cents ?l = of_int (?r * days)" unfolding c by (intro fl_of_int) simp
  then have "line_int ?l = ?r * days" by (rule line_int_eq)
  then have "py_amount (itemOf k ?l) = ?r * days" using item_amount [OF i assms, of k] by simp
  then show ?thesis using rate_error [of b n] unfolding unpaid_item_def
    by (intro conjI exI [of _ ?r]) (simp_all add: itemOf_def unpaidLine_def Let_def)
qed

section \<open>A run pays its employees\<close>

text \<open>The items of a payslip: one for each payable component, in order, then the deduction of unpaid leave.\<close>

definition slip_pays :: "pay_config \<Rightarrow> pay_period \<Rightarrow> 'a payroll_db_scheme \<Rightarrow> payslip \<Rightarrow> pay_item list \<Rightarrow> bool" where
  "slip_pays config p db s items \<longleftrightarrow> (\<exists>c cs us. compensationAsOf (ps_employee s) (pp_start p) db = Some c \<and> ps_base s = cm_salary c
     \<and> items = cs @ us \<and> list_all2 (item_pays db (ps_base s)) (payable (ps_employee s) (pp_start p) db) cs
     \<and> (let days = resolveUnpaidLeaveDays (ps_employee s) (pp_start p) (pp_end p) db
        in case cf_workingDays config of
             None \<Rightarrow> us = []
           | Some n \<Rightarrow>
               if cf_unpaid config = DailyRate \<and> 0 < days \<and> n \<noteq> 0 then \<exists>u. us = [u] \<and> unpaid_item (ps_base s) days n u
               else us = []))"

definition decimals :: "'a payroll_db_scheme \<Rightarrow> bool" where
  "decimals db \<longleftrightarrow> (\<forall>a \<in> set (employeeComponents db). \<forall>x. ec_amount a = Some x \<longrightarrow> decimal14_2 x)
     \<and> (\<forall>c \<in> set (payComponents db). \<forall>x. cp_fixed c = Some x \<longrightarrow> decimal14_2 x)
     \<and> (\<forall>c \<in> set (compensations db). decimal14_2 (cm_salary c))"

lemma latestFrom_mem: "latestFrom rs = Some c \<Longrightarrow> c \<in> set rs"
proof -
  have "fold (\<lambda>x best. if day_le (dr_from x) (dr_from best) then best else x) xs r \<in> insert r (set xs)" for xs r
    by (induction xs arbitrary: r) auto
  then show "latestFrom rs = Some c \<Longrightarrow> c \<in> set rs" by (cases rs) (auto simp: latestFrom_def)
qed

lemma paysOut_pays:
  assumes p: "paysOut config p k db e (s, ls)" and d: "decimals db"
  shows "slip_pays config p db s (map (itemOf (ps_id s)) ls)"
proof -
  from p obtain c where c: "compensationAsOf (em_id e) (pp_start p) db = Some c" and pl: "payLines config p e c db = Inr ls"
    and s: "ps_base s = cm_salary c" "ps_employee s = em_id e" and int: "\<forall>l \<in> set ls. integral l" and sz: "lines_size ls \<le> 2 ^ 50"
    by (auto simp: paysOut_def)
  have "c \<in> set (compensations db)" using latestFrom_mem c unfolding compensationAsOf_def by fastforce
  then have b: "toCents (cm_salary c) = cm_salary c" using d by (simp add: decimals_def)
  let ?days = "resolveUnpaidLeaveDays (em_id e) (pp_start p) (pp_end p) db" and ?b = "ps_base s"
  from pl obtain ms where f: "forEach (componentLine db ?b) (componentsAsOf (em_id e) (pp_start p) db) [] = Inr ms"
    and ls: "ls = (if cf_unpaid config = DailyRate
                 then (case cf_workingDays config of
                         None \<Rightarrow> ms
                       | Some n \<Rightarrow> if 0 < ?days \<and> n \<noteq> 0 then ms @ [unpaidLine ?b ?days n] else ms)
                 else ms)"
    unfolding payLines_def Let_def b s(1) by auto
  define us where "us = (case cf_workingDays config of None \<Rightarrow> [] | Some n \<Rightarrow>
    if cf_unpaid config = DailyRate \<and> 0 < ?days \<and> n \<noteq> 0 then [unpaidLine ?b ?days n] else [])"
  have ls': "ls = ms @ us" unfolding ls us_def by (auto split: option.splits)
  from componentLines [OF f] have all: "list_all2 (component_line db ?b) (payable (em_id e) (pp_start p) db) ms"
    by (simp add: payable_def)
  have item: "item_pays db ?b a (itemOf (ps_id s) l)"
    if "a \<in> set (payable (em_id e) (pp_start p) db)" "l \<in> set ms" "component_line db ?b a l" for a l
  proof (rule component_item [OF that(3)])
    show "integral l" "\<bar>line_int l\<bar> \<le> 2 ^ 50" using int that(2) line_size [of l ls] sz by (auto simp: ls')
    show "a \<in> set (employeeComponents db)" using that(1) by (auto simp: payable_def componentsAsOf_def)
  qed (use d in \<open>simp_all add: decimals_def\<close>)
  have "list_all2 (item_pays db ?b) (payable (em_id e) (pp_start p) db) (map (itemOf (ps_id s)) ms)"
    unfolding list_all2_map2 by (rule list.rel_mono_strong [OF all item])
  moreover have "case cf_workingDays config of None \<Rightarrow> map (itemOf (ps_id s)) us = []
     | Some n \<Rightarrow> if cf_unpaid config = DailyRate \<and> 0 < ?days \<and> n \<noteq> 0
         then \<exists>u. map (itemOf (ps_id s)) us = [u] \<and> unpaid_item ?b ?days n u else map (itemOf (ps_id s)) us = []"
  proof (cases "cf_workingDays config")
    case (Some n)
    show ?thesis
    proof (cases "cf_unpaid config = DailyRate \<and> 0 < ?days \<and> n \<noteq> 0")
      case True
      then have us: "us = [unpaidLine ?b ?days n]" by (simp add: us_def Some)
      have "\<bar>line_int (unpaidLine ?b ?days n)\<bar> \<le> 2 ^ 50" using line_size [of "unpaidLine ?b ?days n" ls] sz by (simp add: ls' us)
      then show ?thesis using True us unpaid_line_item by (simp add: Some)
    qed (auto simp: us_def Some)
  qed (simp add: us_def)
  ultimately show ?thesis unfolding slip_pays_def Let_def s(2) ls' map_append using c s(1) by blast
qed

text \<open>C38: A calculated run holds one payslip for each active employee of the company with compensation on the first day
  of the period, in order; the payslip has the salary of that day and one item for each payable component, a fixed
  amount to the cent and a percentage within half a cent and the error of the doubles, and the unpaid days at the rate
  of a working day.\<close>

theorem run_pays_employees:
  assumes "payroll_reachable org db" "calculateRun i company t0 t1 db = Inr (r, d)"
    and "\<forall>r. lockedRun i company db = Inr r \<longrightarrow> calcSize company r db \<le> 2 ^ 50" and "decimals db"
  shows "\<exists>p config. p \<in> set (payPeriods db) \<and> pp_id p = rn_period r \<and> configOf company db = Inr config
    \<and> map ps_employee (slipsOf i (payslips d)) = map em_id (filter (\<lambda>e. compensationAsOf (em_id e) (pp_start p) db \<noteq> None)
        (filter (\<lambda>e. em_company e = company \<and> em_status e = EmActive) (employees db)))
    \<and> (\<forall>s \<in> set (slipsOf i (payslips d)). slip_pays config p db s (itemsOf (ps_id s) (payItems d)))"
proof -
  have ok: "payroll_ok db" using reachable_ok [OF assms(1)] by (simp add: hr_ok_def)
  from calculateRun_laws [OF assms(2)] assms(3) obtain r0 p config out where
    l: "lockedRun i company db = Inr r0" "rn_status r0 = RnDraft"
    and f: "List.find (\<lambda>p. pp_id p = rn_period r0) (payPeriods db) = Some p" and cf: "configOf company db = Inr config"
    and sl: "payslips d = payslips db @ map fst out"
    and it: "payItems d = payItems db @ concat (map (\<lambda>(s, ls). map (itemOf (ps_id s)) ls) out)"
    and ids: "map (ps_id \<circ> fst) out = [hrIds db..<hrIds d]"
    and all: "list_all2 (paysOut config p (rn_id r0) db) (filter (paid p db) (activeEmployees company db)) out"
    and r: "rn_period r = rn_period r0" by auto
  note r0 = lockedRun_laws [OF ok l(1)]
  have none: "slipsOf i (payslips db) = []"
    using slip_of_run [OF ok _ r0(1)] l(2) r0(2) by (auto simp: slipsOf_def filter_empty_conv)
  have "ps_run s = i" if "s \<in> set (map fst out)" for s using that out_pays [OF all] paysOut_exact(2) r0(2) by fastforce
  then have mine: "slipsOf i (payslips d) = map fst out" using none by (simp add: slipsOf_def sl)
  have emp: "map ps_employee (map fst out) = map em_id (filter (paid p db) (activeEmployees company db))"
  proof (rule sym, rule nth_equalityI)
    show "length (map em_id (filter (paid p db) (activeEmployees company db))) = length (map ps_employee (map fst out))"
      using all by (simp add: list_all2_lengthD)
    fix j assume j: "j < length (map em_id (filter (paid p db) (activeEmployees company db)))"
    then have "paysOut config p (rn_id r0) db (filter (paid p db) (activeEmployees company db) ! j) (out ! j)"
      using all by (simp add: list_all2_conv_all_nth)
    then show "map em_id (filter (paid p db) (activeEmployees company db)) ! j = map ps_employee (map fst out) ! j"
      using j list_all2_lengthD [OF all] by (auto simp: paysOut_def split: prod.splits)
  qed
  have pays: "slip_pays config p db s (itemsOf (ps_id s) (payItems d))" if "s \<in> set (map fst out)" for s
  proof -
    from that obtain ls where m: "(s, ls) \<in> set out" by auto
    then obtain e where e: "paysOut config p (rn_id r0) db e (s, ls)" using out_pays [OF all] by blast
    have dis: "distinct (map (ps_id \<circ> fst) out)" unfolding ids by simp
    have "ps_id s \<in> set (map (ps_id \<circ> fst) out)" using m by force
    then have "hrIds db \<le> ps_id s" unfolding ids by simp
    then have "itemsOf (ps_id s) (payItems db) = []"
      using ok by (auto simp: itemsOf_def filter_empty_conv payroll_ok_def ids_ok_def)
    then have "itemsOf (ps_id s) (payItems d) = map (itemOf (ps_id s)) ls"
      using itemsOf_own [OF dis m] by (simp add: itemsOf_def it)
    then show ?thesis using paysOut_pays [OF e assms(4)] by simp
  qed
  show ?thesis using find_SomeD [OF f] cf r emp pays unfolding mine activeEmployees_def paid_def by auto
qed

lemma run_pays_employees_witness:
  "map ps_employee (slipsOf 6 (payslips pay10)) = [50] \<and> (\<exists>p. pp_id p = 5 \<and> slip_pays pay_config1 p pay9 pay_slip pay_lines_stored)"
proof -
  have d: "decimals pay9" by (simp add: decimals_def decimal14_2_def pay_states pay_rows)
  have c: "configOf 1 pay9 = Inr pay_config1" by (simp add: configOf_def pay_states pay_config1_def)
  have s: "slipsOf 6 (payslips pay10) = [pay_slip]" "itemsOf 7 (payItems pay10) = pay_lines_stored" "ps_id pay_slip = 7" "ps_employee pay_slip = 50"
    "rn_period pay_calculated = 5"
    by (simp_all add: slipsOf_def itemsOf_def pay10_def pay_slip_def pay_lines_stored_def pay_calculated_def pay_draft_def)
  from run_pays_employees [OF pay_reach9 pay_step10 _ d] pay_size obtain p config where
    p: "pp_id p = 5" "configOf 1 pay9 = Inr config"
      "\<forall>x \<in> set (slipsOf 6 (payslips pay10)). slip_pays config p pay9 x (itemsOf (ps_id x) (payItems pay10))"
    unfolding s(5) by blast
  then show ?thesis using c s by (intro conjI exI [of _ p]) simp_all
qed

end
