(* ===== verification/Users.thy ===== *)
theory Users
  imports Organization Js_String
begin

text \<open>
  Users and their administration (\<open>users/services/users.service.ts\<close>), the password policy
  (\<open>auth/services/password.service.ts\<close>), and the tables of identity and access that the theories of roles, scopes and
  sessions work on. Deleting is marking: a lookup skips marked rows, a unique index does not. A caller acts on the users
  of the companies that it is allowed, \<open>None\<close> for all of them. The Argon2 hash is a parameter.
\<close>

section \<open>State\<close>

datatype user_status = UsActive | UsInactive | UsSuspended | UsLocked

record user =
  us_id :: id
  us_email :: string
  us_hash :: string
  us_firstName :: string
  us_lastName :: string
  us_displayName :: string
  us_status :: user_status
  us_emailVerified :: bool
  us_lastLogin :: "nat option"
  us_passwordChanged :: "nat option"
  us_deleted :: bool

text \<open>Membership of a company, a branch or a warehouse: the three tables have the same columns.\<close>

record membership =
  mb_user :: id
  mb_of :: id
  mb_status :: active_status
  mb_primary :: bool
  mb_deleted :: bool

record role =
  rl_id :: id
  rl_name :: string
  rl_code :: string
  rl_description :: "string option"
  rl_status :: active_status
  rl_system :: bool
  rl_deleted :: bool

record permission =
  pe_id :: id
  pe_resource :: string
  pe_action :: string
  pe_code :: string

datatype data_scope = ScOwn | ScAccount | ScTeam | ScBranch | ScWarehouse | ScCompany | ScOrganization | ScAll

record role_scope =
  rs_role :: id
  rs_resource :: string
  rs_scope :: data_scope
  rs_value :: "string option"

record session =
  se_id :: id
  se_user :: id
  se_hash :: string
  se_expires :: nat
  se_revoked :: "nat option"
  se_replacedBy :: "id option"

record reset_token =
  rt_id :: id
  rt_user :: id
  rt_hash :: string
  rt_expires :: nat
  rt_used :: "nat option"

text \<open>
  The rows of \<open>role_permissions\<close> and \<open>user_roles\<close> are pairs: a role with a permission, a user with a role. They and the
  scopes of a role are deleted for good; permissions come from the seed and no service writes them.
\<close>

record access_db =
  users :: "user list"
  userCompanies :: "membership list"
  userBranches :: "membership list"
  userWarehouses :: "membership list"
  roles :: "role list"
  permissions :: "permission list"
  rolePermissions :: "(id \<times> id) list"
  roleScopes :: "role_scope list"
  userRoles :: "(id \<times> id) list"
  sessions :: "session list"
  resetTokens :: "reset_token list"
  accessIds :: id

text \<open>\<open>repository.save\<close> of a row that was read: the row with its id is replaced.\<close>

definition putRow :: "('r \<Rightarrow> id) \<Rightarrow> 'r \<Rightarrow> 'r list \<Rightarrow> 'r list" where
  "putRow key r rows = map (\<lambda>x. if key x = key r then r else x) rows"

lemma putRow_ids [simp]: "map key (putRow key r rows) = map key rows"
  by (auto simp: putRow_def)

lemma putRow_set: "set (putRow key r rows) = {x \<in> set rows. key x \<noteq> key r} \<union> {y. y = r \<and> (\<exists>x \<in> set rows. key x = key r)}"
  by (auto simp: putRow_def)

lemma putRow_mem: "x \<in> set (putRow key r rows) \<Longrightarrow> x = r \<or> x \<in> set rows \<and> key x \<noteq> key r"
  by (auto simp: putRow_def)

section \<open>Strings\<close>

text \<open>\<open>toLowerCase\<close> on Latin-1: the letters \<open>A-Z\<close> and those from 192 to 222, where 215 is the multiplication sign.\<close>

definition lower_char :: "char \<Rightarrow> char" where
  "lower_char c =
     (let n = of_char c :: nat
      in if 65 \<le> n \<and> n \<le> 90 \<or> 192 \<le> n \<and> n \<le> 222 \<and> n \<noteq> 215 then char_of (n + 32) else c)"

definition toLowerCase :: "string \<Rightarrow> string" where
  "toLowerCase s = map lower_char s"

definition normalizeEmail :: "string \<Rightarrow> string" where
  "normalizeEmail email = toLowerCase (trim email)"

section \<open>The password policy\<close>

definition MIN_PASSWORD_LENGTH :: nat where
  "MIN_PASSWORD_LENGTH = 12"

definition MAX_PASSWORD_LENGTH :: nat where
  "MAX_PASSWORD_LENGTH = 128"

definition COMMON_WEAK_PASSWORDS :: "string list" where
  "COMMON_WEAK_PASSWORDS = [''password'', ''password123'', ''password1234'', ''12345678'', ''123456789'', ''1234567890'',
     ''qwertyuiop'', ''letmein123'', ''welcome123'', ''admin1234'', ''iloveyou1'']"

definition letter :: "char \<Rightarrow> bool" where
  "letter c \<longleftrightarrow> (let n = of_char c :: nat in 65 \<le> n \<and> n \<le> 90 \<or> 97 \<le> n \<and> n \<le> 122)"

definition digit :: "char \<Rightarrow> bool" where
  "digit c \<longleftrightarrow> (let n = of_char c :: nat in 48 \<le> n \<and> n \<le> 57)"

text \<open>\<open>\W\<close> is every character but \<open>A-Z\<close>, \<open>a-z\<close>, \<open>0-9\<close> and the underscore.\<close>

definition word_char :: "char \<Rightarrow> bool" where
  "word_char c \<longleftrightarrow> letter c \<or> digit c \<or> c = CHR ''_''"

definition validatePolicy :: "string \<Rightarrow> bool" where
  "validatePolicy p =
     (if length p < MIN_PASSWORD_LENGTH \<or> length p > MAX_PASSWORD_LENGTH then False
      else if toLowerCase p \<in> set COMMON_WEAK_PASSWORDS then False
      else list_ex letter p \<and> list_ex (\<lambda>c. digit c \<or> \<not> word_char c) p)"

section \<open>Lookups\<close>

definition findUser :: "id \<Rightarrow> access_db \<Rightarrow> user option" where
  "findUser i db = List.find (\<lambda>u. us_id u = i \<and> \<not> us_deleted u) (users db)"

definition findUserByEmail :: "string \<Rightarrow> access_db \<Rightarrow> user option" where
  "findUserByEmail email db = List.find (\<lambda>u. us_email u = email \<and> \<not> us_deleted u) (users db)"

definition findActiveById :: "id \<Rightarrow> access_db \<Rightarrow> user option" where
  "findActiveById i db =
     (case findUser i db of None \<Rightarrow> None | Some u \<Rightarrow> if us_status u \<noteq> UsActive then None else Some u)"

text \<open>The companies a caller may operate against; \<open>None\<close> is the scope of all.\<close>

type_synonym allowed = "id list option"

definition activeMember :: "id \<Rightarrow> id \<Rightarrow> membership \<Rightarrow> bool" where
  "activeMember u i m \<longleftrightarrow> mb_user m = u \<and> mb_of m = i \<and> mb_status m = Active \<and> \<not> mb_deleted m"

definition isVisible :: "id \<Rightarrow> allowed \<Rightarrow> access_db \<Rightarrow> bool" where
  "isVisible u allowedCompanyIds db =
     (case allowedCompanyIds of None \<Rightarrow> True
      | Some cs \<Rightarrow> if cs = [] then False
          else 0 < length (filter (\<lambda>m. \<exists>c \<in> set cs. activeMember u c m) (userCompanies db)))"

definition getUser :: "id \<Rightarrow> allowed \<Rightarrow> access_db \<Rightarrow> user result" where
  "getUser i allowedCompanyIds db =
     (case findUser i db of None \<Rightarrow> Inl (AppException NotFound)
      | Some u \<Rightarrow> if \<not> isVisible i allowedCompanyIds db then Inl (AppException NotFound) else Inr u)"

text \<open>
  The rows that \<open>findAll\<close> selects, before its sorting and paging. The join brings a row once for each membership, and
  entities are merged by id. \<open>like\<close> is the match of the database for a search text.
\<close>

record list_query =
  lq_status :: "user_status option"
  lq_search :: "string option"

definition listUsers :: "(string \<Rightarrow> string \<Rightarrow> bool) \<Rightarrow> list_query \<Rightarrow> allowed \<Rightarrow> access_db \<Rightarrow> user list" where
  "listUsers like q allowedCompanyIds db =
     (if allowedCompanyIds = Some [] then []
      else filter (\<lambda>u. \<not> us_deleted u
        \<and> (case allowedCompanyIds of None \<Rightarrow> True
           | Some cs \<Rightarrow> \<exists>m \<in> set (userCompanies db). \<exists>c \<in> set cs. activeMember (us_id u) c m)
        \<and> (case lq_status q of None \<Rightarrow> True | Some s \<Rightarrow> us_status u = s)
        \<and> (case lq_search q of None \<Rightarrow> True
           | Some t \<Rightarrow> t = [] \<or> like t (us_email u) \<or> like t (us_displayName u))) (users db))"

section \<open>Administration\<close>

record user_dto =
  ku_email :: string
  ku_password :: string
  ku_firstName :: string
  ku_lastName :: string
  ku_displayName :: "string option"

record user_update_dto =
  uu_firstName :: "string option"
  uu_lastName :: "string option"
  uu_displayName :: "string option"

definition saveUser :: "user \<Rightarrow> access_db \<Rightarrow> access_db" where
  "saveUser u db = db\<lparr>users := putRow us_id u (users db)\<rparr>"

definition createUser :: "(string \<Rightarrow> string) \<Rightarrow> user_dto \<Rightarrow> access_db \<Rightarrow> (user \<times> access_db) result" where
  "createUser hash d db =
     (let email = normalizeEmail (ku_email d)
      in if findUserByEmail email db \<noteq> None then Inl (AppException Conflict)
         else if \<not> validatePolicy (ku_password d) then Inl (AppException ValidationError)
         else if \<exists>u \<in> set (users db). us_email u = email then Inl (DupEntry ''email'')
         else (let u = \<lparr>us_id = accessIds db, us_email = email, us_hash = hash (ku_password d), us_firstName = ku_firstName d,
                  us_lastName = ku_lastName d,
                  us_displayName = (case ku_displayName d of None \<Rightarrow> ku_firstName d @ '' '' @ ku_lastName d | Some n \<Rightarrow> n),
                  us_status = UsActive, us_emailVerified = False, us_lastLogin = None, us_passwordChanged = None,
                  us_deleted = False\<rparr>
               in Inr (u, db\<lparr>users := users db @ [u], accessIds := Suc (accessIds db)\<rparr>)))"

text \<open>The operations on one user: read it if the caller may see it, change it, save it.\<close>

definition changeUser :: "(user \<Rightarrow> user) \<Rightarrow> id \<Rightarrow> allowed \<Rightarrow> access_db \<Rightarrow> (user \<times> access_db) result" where
  "changeUser f i allowedCompanyIds db =
     andThen (getUser i allowedCompanyIds db) (\<lambda>u. Inr (f u, saveUser (f u) db))"

definition updateUser :: "user_update_dto \<Rightarrow> id \<Rightarrow> allowed \<Rightarrow> access_db \<Rightarrow> (user \<times> access_db) result" where
  "updateUser d = changeUser (\<lambda>u. u\<lparr>
      us_firstName := (case uu_firstName d of None \<Rightarrow> us_firstName u | Some x \<Rightarrow> x),
      us_lastName := (case uu_lastName d of None \<Rightarrow> us_lastName u | Some x \<Rightarrow> x),
      us_displayName := (case uu_displayName d of None \<Rightarrow> us_displayName u | Some x \<Rightarrow> x)\<rparr>)"

definition activateUser :: "id \<Rightarrow> allowed \<Rightarrow> access_db \<Rightarrow> (user \<times> access_db) result" where
  "activateUser = changeUser (\<lambda>u. u\<lparr>us_status := UsActive\<rparr>)"

definition deactivateUser :: "id \<Rightarrow> allowed \<Rightarrow> access_db \<Rightarrow> (user \<times> access_db) result" where
  "deactivateUser = changeUser (\<lambda>u. u\<lparr>us_status := UsInactive\<rparr>)"

definition lockUser :: "id \<Rightarrow> allowed \<Rightarrow> access_db \<Rightarrow> (user \<times> access_db) result" where
  "lockUser = changeUser (\<lambda>u. u\<lparr>us_status := UsLocked\<rparr>)"

definition unlockUser :: "id \<Rightarrow> allowed \<Rightarrow> access_db \<Rightarrow> (user \<times> access_db) result" where
  "unlockUser = changeUser (\<lambda>u. u\<lparr>us_status := UsActive\<rparr>)"

definition removeUser :: "id \<Rightarrow> allowed \<Rightarrow> access_db \<Rightarrow> (user \<times> access_db) result" where
  "removeUser = changeUser (\<lambda>u. u\<lparr>us_deleted := True\<rparr>)"

lemmas user_op_defs = updateUser_def activateUser_def deactivateUser_def lockUser_def unlockUser_def removeUser_def

section \<open>What the lookups promise\<close>

lemma findUser_SomeD: "findUser i db = Some u \<Longrightarrow> u \<in> set (users db) \<and> us_id u = i \<and> \<not> us_deleted u"
  by (auto simp: findUser_def dest: find_SomeD)

lemma isVisible_iff:
  "isVisible u allowedCompanyIds db \<longleftrightarrow>
    (case allowedCompanyIds of None \<Rightarrow> True
     | Some cs \<Rightarrow> \<exists>m \<in> set (userCompanies db). \<exists>c \<in> set cs. activeMember u c m)"
  by (auto simp: isVisible_def filter_empty_conv split: option.splits)

lemma getUser_Inr:
  "getUser i al db = Inr u \<longleftrightarrow> findUser i db = Some u \<and> isVisible i al db"
  by (auto simp: getUser_def split: option.splits if_splits)

lemma changeUser_Inr:
  "changeUser f i al db = Inr (u, d) \<longleftrightarrow>
    (\<exists>u0. findUser i db = Some u0 \<and> isVisible i al db \<and> u = f u0 \<and> d = saveUser (f u0) db)"
  by (auto simp: changeUser_def getUser_Inr)

lemma find_only: "x \<in> set xs \<Longrightarrow> P x \<Longrightarrow> (\<And>y. y \<in> set xs \<Longrightarrow> P y \<Longrightarrow> y = x) \<Longrightarrow> List.find P xs = Some x"
  by (cases "List.find P xs") (metis find_None_iff, metis find_SomeD)

lemma findUser_live:
  "distinct (map us_id (users db)) \<Longrightarrow> u \<in> set (users db) \<Longrightarrow> \<not> us_deleted u \<Longrightarrow> findUser (us_id u) db = Some u"
  unfolding findUser_def by (rule find_only) (simp_all, metis distinct_map inj_onD)

text \<open>A listed user is one that the lookup finds, and the list without filters has them all.\<close>

lemma listed_iff:
  assumes "distinct (map us_id (users db))"
  shows "u \<in> set (listUsers like \<lparr>lq_status = None, lq_search = None\<rparr> al db) \<longleftrightarrow> getUser (us_id u) al db = Inr u"
proof -
  have "findUser (us_id u) db = Some u \<longleftrightarrow> u \<in> set (users db) \<and> \<not> us_deleted u"
    using findUser_live [OF assms] findUser_SomeD [of "us_id u" db u] by blast
  then show ?thesis
    unfolding getUser_Inr isVisible_iff by (cases al) (auto simp: listUsers_def)
qed

text \<open>The deny list adds one password to what the length already refuses.\<close>

lemma policy_iff:
  "validatePolicy p \<longleftrightarrow> 12 \<le> length p \<and> length p \<le> 128 \<and> toLowerCase p \<noteq> ''password1234''
    \<and> (\<exists>c \<in> set p. letter c) \<and> (\<exists>c \<in> set p. digit c \<or> \<not> word_char c)"
proof -
  have "toLowerCase p \<in> set COMMON_WEAK_PASSWORDS \<longleftrightarrow> toLowerCase p = ''password1234''" if "12 \<le> length p"
  proof -
    have "12 \<le> length (toLowerCase p)" using that by (simp add: toLowerCase_def)
    then show ?thesis by (auto simp: COMMON_WEAK_PASSWORDS_def)
  qed
  then show ?thesis
    by (auto simp: validatePolicy_def MIN_PASSWORD_LENGTH_def MAX_PASSWORD_LENGTH_def list_ex_iff)
qed

text \<open>An email that a deleted user had cannot be used again: the index answers, not the check.\<close>

lemma deleted_email_stays_taken:
  assumes "u \<in> set (users db)" "us_email u = normalizeEmail (ku_email d)" "validatePolicy (ku_password d)"
    "findUserByEmail (normalizeEmail (ku_email d)) db = None"
  shows "createUser hash d db = Inl (DupEntry ''email'')"
  using assms by (auto simp: createUser_def Let_def)

end
