(* ===== verification/Roles.thy ===== *)
theory Roles
  imports Users
begin

text \<open>
  Roles with their permissions and scopes, the roles of a user, and what they permit (\<open>rbac/services/roles.service.ts\<close>,
  \<open>user-roles.service.ts\<close>, \<open>super-admin-invariant.service.ts\<close>, \<open>authorization.service.ts\<close> and
  \<open>rbac/guards/permission.guard.ts\<close>). A changing operation returns what the service returns and the new tables; the
  rows that it writes before a failing check are rolled back. \<open>replaceForUserAt\<close> is the same transaction when others run beside it.
\<close>

section \<open>Roles\<close>

record role_dto =
  kr_name :: string
  kr_code :: string
  kr_description :: "string option"

text \<open>A missing field of an update is \<open>None\<close>; a description may be set to null.\<close>

record role_update_dto =
  qr_name :: "string option"
  qr_description :: "string option option"

record scope_input =
  si_resource :: string
  si_scope :: data_scope
  si_value :: "string option"

definition findRole :: "id \<Rightarrow> access_db \<Rightarrow> role option" where
  "findRole i db = List.find (\<lambda>r. rl_id r = i \<and> \<not> rl_deleted r) (roles db)"

definition getRoleOrThrow :: "id \<Rightarrow> access_db \<Rightarrow> role result" where
  "getRoleOrThrow i db = orThrow (findRole i db) (AppException NotFound)"

definition saveRole :: "role \<Rightarrow> access_db \<Rightarrow> access_db" where
  "saveRole r db = db\<lparr>roles := putRow rl_id r (roles db)\<rparr>"

definition createRole :: "role_dto \<Rightarrow> access_db \<Rightarrow> (role \<times> access_db) result" where
  "createRole d db =
     (if \<exists>r \<in> set (roles db). rl_code r = kr_code d \<and> \<not> rl_deleted r then Inl (AppException Conflict)
      else if \<exists>r \<in> set (roles db). rl_code r = kr_code d then Inl (DupEntry ''code'')
      else (let r = \<lparr>rl_id = accessIds db, rl_name = kr_name d, rl_code = kr_code d, rl_description = kr_description d,
                 rl_status = Active, rl_system = False, rl_deleted = False\<rparr>
            in Inr (r, db\<lparr>roles := roles db @ [r], accessIds := Suc (accessIds db)\<rparr>)))"

definition updateRole :: "id \<Rightarrow> role_update_dto \<Rightarrow> access_db \<Rightarrow> (role \<times> access_db) result" where
  "updateRole i d db =
     andThen (getRoleOrThrow i db) (\<lambda>r.
     let r' = r\<lparr>rl_name := (case qr_name d of None \<Rightarrow> rl_name r | Some n \<Rightarrow> n),
                rl_description := (case qr_description d of None \<Rightarrow> rl_description r | Some x \<Rightarrow> x)\<rparr>
     in Inr (r', saveRole r' db))"

definition activateRole :: "id \<Rightarrow> access_db \<Rightarrow> (role \<times> access_db) result" where
  "activateRole i db =
     andThen (getRoleOrThrow i db) (\<lambda>r. let r' = r\<lparr>rl_status := Active\<rparr> in Inr (r', saveRole r' db))"

section \<open>At least one active super admin\<close>

definition SUPER_ADMIN :: string where
  "SUPER_ADMIN = ''SUPER_ADMIN''"

definition activeSuperAdmin :: "access_db \<Rightarrow> id \<times> id \<Rightarrow> bool" where
  "activeSuperAdmin db ur \<longleftrightarrow>
     list_ex (\<lambda>r. rl_id r = snd ur \<and> rl_code r = SUPER_ADMIN \<and> rl_status r = Active \<and> \<not> rl_deleted r) (roles db)
     \<and> list_ex (\<lambda>u. us_id u = fst ur \<and> us_status u = UsActive \<and> \<not> us_deleted u) (users db)"

definition countActiveSuperAdmins :: "access_db \<Rightarrow> nat" where
  "countActiveSuperAdmins db = length (filter (activeSuperAdmin db) (userRoles db))"

definition assertAtLeastOneActiveSuperAdminRemains :: "access_db \<Rightarrow> unit result" where
  "assertAtLeastOneActiveSuperAdminRemains db =
     (if countActiveSuperAdmins db = 0 then Inl (AppException Conflict) else Inr ())"

definition deactivateRole :: "id \<Rightarrow> access_db \<Rightarrow> (role \<times> access_db) result" where
  "deactivateRole i db =
     andThen (getRoleOrThrow i db) (\<lambda>r.
     if rl_system r then Inl (AppException Forbidden)
     else (let r' = r\<lparr>rl_status := Inactive\<rparr>; db' = saveRole r' db
           in andThen (assertAtLeastOneActiveSuperAdminRemains db') (\<lambda>_. Inr (r', db'))))"

definition removeRole :: "id \<Rightarrow> access_db \<Rightarrow> access_db result" where
  "removeRole i db =
     andThen (getRoleOrThrow i db) (\<lambda>r.
     if rl_system r then Inl (AppException Forbidden)
     else if 0 < length (filter (\<lambda>ur. snd ur = i) (userRoles db)) then Inl (AppException Conflict)
     else Inr (saveRole (r\<lparr>rl_deleted := True\<rparr>) db))"

definition replacePermissions :: "id \<Rightarrow> id list \<Rightarrow> access_db \<Rightarrow> (role \<times> access_db) result" where
  "replacePermissions i permissionIds db =
     andThen (getRoleOrThrow i db) (\<lambda>r.
     if permissionIds \<noteq> []
        \<and> length (filter (\<lambda>p. pe_id p \<in> set permissionIds) (permissions db)) \<noteq> length permissionIds
     then Inl (AppException ValidationError)
     else Inr (r, db\<lparr>rolePermissions :=
       filter (\<lambda>rp. fst rp \<noteq> i) (rolePermissions db) @ map (\<lambda>p. (i, p)) permissionIds\<rparr>))"

definition replaceScopes :: "id \<Rightarrow> scope_input list \<Rightarrow> access_db \<Rightarrow> (role \<times> access_db) result" where
  "replaceScopes i scopes db =
     andThen (getRoleOrThrow i db) (\<lambda>r.
     if \<not> distinct (map si_resource scopes) then Inl (DupEntry ''role_resource'')
     else Inr (r, db\<lparr>roleScopes := filter (\<lambda>s. rs_role s \<noteq> i) (roleScopes db)
       @ map (\<lambda>s. \<lparr>rs_role = i, rs_resource = si_resource s, rs_scope = si_scope s, rs_value = si_value s\<rparr>) scopes\<rparr>))"

section \<open>The roles of a user\<close>

definition listForUser :: "id \<Rightarrow> access_db \<Rightarrow> role option list" where
  "listForUser u db = map (\<lambda>ur. findRole (snd ur) db) (filter (\<lambda>ur. fst ur = u) (userRoles db))"

text \<open>The rows that the transaction writes.\<close>

definition putUserRoles :: "id \<Rightarrow> id list \<Rightarrow> access_db \<Rightarrow> access_db" where
  "putUserRoles u roleIds db =
     db\<lparr>userRoles := filter (\<lambda>ur. fst ur \<noteq> u) (userRoles db) @ map (\<lambda>r. (u, r)) roleIds\<rparr>"

definition replaceForUser :: "id \<Rightarrow> id list \<Rightarrow> access_db \<Rightarrow> (role option list \<times> access_db) result" where
  "replaceForUser u roleIds db =
     andThen (orThrow (findUser u db) (AppException NotFound)) (\<lambda>_.
     if roleIds \<noteq> []
        \<and> length (filter (\<lambda>r. rl_id r \<in> set roleIds \<and> \<not> rl_deleted r) (roles db)) \<noteq> length roleIds
     then Inl (AppException ValidationError)
     else (let db' = putUserRoles u roleIds db
           in andThen (assertAtLeastOneActiveSuperAdminRemains db') (\<lambda>_. Inr (listForUser u db', db'))))"

text \<open>
  The same transaction beside others, at the database's default isolation: its reads, the final count among them, see
  the tables as they were when it began, \<open>view\<close>, with its own writes; its writes go to the tables as they are now.
\<close>

definition replaceForUserAt :: "access_db \<Rightarrow> id \<Rightarrow> id list \<Rightarrow> access_db \<Rightarrow> access_db result" where
  "replaceForUserAt view u roleIds db =
     andThen (replaceForUser u roleIds view) (\<lambda>_. Inr (putUserRoles u roleIds db))"

lemma alone_it_is_the_service:
  "replaceForUserAt db u roleIds db = andThen (replaceForUser u roleIds db) (\<lambda>r. Inr (snd r))"
proof (cases "replaceForUser u roleIds db")
  case (Inr r)
  then have "snd r = putUserRoles u roleIds db"
    by (cases r) (auto simp: replaceForUser_def Let_def split: if_splits)
  with Inr show ?thesis by (simp add: replaceForUserAt_def)
qed (simp add: replaceForUserAt_def)

section \<open>Effective permissions\<close>

text \<open>A JavaScript \<open>Set\<close> keeps its elements in the order they were first added.\<close>

definition setAdd :: "'a \<Rightarrow> 'a list \<Rightarrow> 'a list" where
  "setAdd x xs = (if x \<in> set xs then xs else xs @ [x])"

definition newSet :: "'a list \<Rightarrow> 'a list" where
  "newSet xs = fold setAdd xs []"

text \<open>The active roles that a user holds, by the join of \<open>user_roles\<close> with the roles that are not deleted.\<close>

definition activeRolesOf :: "id \<Rightarrow> access_db \<Rightarrow> role list" where
  "activeRolesOf u db =
     concat (map (\<lambda>ur. case findRole (snd ur) db of None \<Rightarrow> []
       | Some r \<Rightarrow> if rl_status r = Active then [r] else []) (filter (\<lambda>ur. fst ur = u) (userRoles db)))"

definition permissionsOfRole :: "access_db \<Rightarrow> role \<Rightarrow> permission option list" where
  "permissionsOfRole db r =
     map (\<lambda>rp. List.find (\<lambda>p. pe_id p = snd rp) (permissions db)) (filter (\<lambda>rp. fst rp = rl_id r) (rolePermissions db))"

definition getEffectivePermissionCodes :: "id \<Rightarrow> access_db \<Rightarrow> string list result" where
  "getEffectivePermissionCodes u db =
     forEach (\<lambda>r. forEach (\<lambda>p codes. case p of None \<Rightarrow> Inl (DbError ''TypeError'')
         | Some q \<Rightarrow> Inr (setAdd (pe_code q) codes)) (permissionsOfRole db r))
       (activeRolesOf u db) []"

definition can :: "id \<Rightarrow> string \<Rightarrow> access_db \<Rightarrow> bool result" where
  "can u code db = andThen (getEffectivePermissionCodes u db) (\<lambda>codes. Inr (code \<in> set codes))"

definition canAny :: "id \<Rightarrow> string list \<Rightarrow> access_db \<Rightarrow> bool result" where
  "canAny u wanted db = andThen (getEffectivePermissionCodes u db) (\<lambda>codes. Inr (list_ex (\<lambda>c. c \<in> set codes) wanted))"

definition canAll :: "id \<Rightarrow> string list \<Rightarrow> access_db \<Rightarrow> bool result" where
  "canAll u wanted db = andThen (getEffectivePermissionCodes u db) (\<lambda>codes. Inr (list_all (\<lambda>c. c \<in> set codes) wanted))"

definition getActiveRoleCodes :: "id \<Rightarrow> access_db \<Rightarrow> string list" where
  "getActiveRoleCodes u db = newSet (map rl_code (activeRolesOf u db))"

section \<open>The guard of a route\<close>

datatype requirement_mode = ReqAll | ReqAny

type_synonym requirement = "string list \<times> requirement_mode"

definition permissionGuard :: "requirement option \<Rightarrow> id option \<Rightarrow> access_db \<Rightarrow> bool result" where
  "permissionGuard req userId db =
     (case req of None \<Rightarrow> Inl (AppException Forbidden)
      | Some (codes, mode) \<Rightarrow>
          if codes = [] then Inl (AppException Forbidden)
          else (case userId of None \<Rightarrow> Inl (AppException Unauthorized)
            | Some u \<Rightarrow>
                andThen (if mode = ReqAny then canAny u codes db else canAll u codes db) (\<lambda>authorized.
                if \<not> authorized then Inl (AppException Forbidden) else Inr True)))"

end
