(* ===== verification/Scopes.thy ===== *)
theory Scopes
  imports Roles
begin

text \<open>
  Where a user may operate: memberships of companies, branches and warehouses
  (\<open>organization/services/user-organization.service.ts\<close>), the scope that the roles of a user give for a resource and the
  ids it stands for (\<open>rbac/services/data-scope.service.ts\<close>), and the company and branches of a request
  (\<open>master-data/utils/resolve-request-company-id.ts\<close>, \<open>resolve-request-company-branch-scope.ts\<close>). The organization is
  the state of the theory \<open>Organization\<close>, whose maps hold the rows that are not deleted.
\<close>

section \<open>Memberships\<close>

definition findMembership :: "id \<Rightarrow> id \<Rightarrow> membership list \<Rightarrow> membership option" where
  "findMembership u i ms = List.find (\<lambda>m. mb_user m = u \<and> mb_of m = i \<and> \<not> mb_deleted m) ms"

definition hasActiveMembership :: "id \<Rightarrow> id \<Rightarrow> membership list \<Rightarrow> bool" where
  "hasActiveMembership u i ms \<longleftrightarrow> list_ex (activeMember u i) ms"

text \<open>The last part of the three assignments: refuse a second membership, then insert. The unique index on user and
  target also has the deleted rows.\<close>

definition addMembership :: "id \<Rightarrow> id \<Rightarrow> membership list \<Rightarrow> membership list result" where
  "addMembership u i ms =
     (if findMembership u i ms \<noteq> None then Inl (AppException Conflict)
      else if list_ex (\<lambda>m. mb_user m = u \<and> mb_of m = i) ms then Inl (DupEntry ''user_target'')
      else Inr (ms @ [\<lparr>mb_user = u, mb_of = i, mb_status = Active, mb_primary = False, mb_deleted = False\<rparr>]))"

definition dropMembership :: "id \<Rightarrow> id \<Rightarrow> membership list \<Rightarrow> membership list result" where
  "dropMembership u i ms =
     (if findMembership u i ms = None then Inl (AppException NotFound)
      else Inr (map (\<lambda>m. if mb_user m = u \<and> mb_of m = i then m\<lparr>mb_deleted := True\<rparr> else m) ms))"

definition assignCompany :: "org_db \<Rightarrow> id \<Rightarrow> id \<Rightarrow> access_db \<Rightarrow> access_db result" where
  "assignCompany org u company db =
     andThen (orThrow (findActiveCompany org company) (AppException ValidationError)) (\<lambda>_.
     andThen (addMembership u company (userCompanies db)) (\<lambda>ms. Inr (db\<lparr>userCompanies := ms\<rparr>)))"

definition removeCompanyMembership :: "id \<Rightarrow> id \<Rightarrow> access_db \<Rightarrow> access_db result" where
  "removeCompanyMembership u company db =
     andThen (dropMembership u company (userCompanies db)) (\<lambda>ms. Inr (db\<lparr>userCompanies := ms\<rparr>))"

definition assignBranch :: "org_db \<Rightarrow> id \<Rightarrow> id \<Rightarrow> access_db \<Rightarrow> access_db result" where
  "assignBranch org u b db =
     andThen (orThrow (findActiveBranch org b) (AppException ValidationError)) (\<lambda>br.
     if \<not> hasActiveMembership u (br_company br) (userCompanies db) then Inl (AppException ValidationError)
     else andThen (addMembership u b (userBranches db)) (\<lambda>ms. Inr (db\<lparr>userBranches := ms\<rparr>)))"

definition removeBranchMembership :: "id \<Rightarrow> id \<Rightarrow> access_db \<Rightarrow> access_db result" where
  "removeBranchMembership u b db =
     andThen (dropMembership u b (userBranches db)) (\<lambda>ms. Inr (db\<lparr>userBranches := ms\<rparr>))"

definition assignWarehouse :: "org_db \<Rightarrow> id \<Rightarrow> id \<Rightarrow> access_db \<Rightarrow> access_db result" where
  "assignWarehouse org u w db =
     andThen (findWarehouse org w) (\<lambda>wh.
     if \<not> hasActiveMembership u (wh_branch wh) (userBranches db) then Inl (AppException ValidationError)
     else andThen (addMembership u w (userWarehouses db)) (\<lambda>ms. Inr (db\<lparr>userWarehouses := ms\<rparr>)))"

definition removeWarehouseMembership :: "id \<Rightarrow> id \<Rightarrow> access_db \<Rightarrow> access_db result" where
  "removeWarehouseMembership u w db =
     andThen (dropMembership u w (userWarehouses db)) (\<lambda>ms. Inr (db\<lparr>userWarehouses := ms\<rparr>))"

section \<open>The scope of a user for a resource\<close>

definition SCOPE_BREADTH :: "data_scope list" where
  "SCOPE_BREADTH = [ScOwn, ScAccount, ScTeam, ScBranch, ScWarehouse, ScCompany, ScOrganization, ScAll]"

fun indexOf :: "'a list \<Rightarrow> 'a \<Rightarrow> int" where
  "indexOf [] x = -1"
| "indexOf (y # ys) x = (if y = x then 0 else (let k = indexOf ys x in if k = -1 then -1 else k + 1))"

type_synonym resolved_scope = "data_scope \<times> string option"

definition scopesOfRole :: "access_db \<Rightarrow> role \<Rightarrow> role_scope list" where
  "scopesOfRole db r = filter (\<lambda>s. rs_role s = rl_id r) (roleScopes db)"

text \<open>One turn of the loop, on \<open>best\<close> and \<open>bestBreadthIndex\<close>.\<close>

definition broaden :: "string \<Rightarrow> role_scope \<Rightarrow> resolved_scope option \<times> int \<Rightarrow> resolved_scope option \<times> int" where
  "broaden resource s st =
     (if rs_resource s \<noteq> resource then st
      else (let breadthIndex = indexOf SCOPE_BREADTH (rs_scope s)
            in if breadthIndex > snd st then (Some (rs_scope s, rs_value s), breadthIndex) else st))"

definition resolveScope :: "id \<Rightarrow> string \<Rightarrow> access_db \<Rightarrow> resolved_scope option" where
  "resolveScope u resource db =
     fst (fold (\<lambda>r. fold (broaden resource) (scopesOfRole db r)) (activeRolesOf u db) (None, -1))"

section \<open>The ids a scope stands for\<close>

definition activeMemberships :: "id \<Rightarrow> membership list \<Rightarrow> id list" where
  "activeMemberships u ms = map mb_of (filter (\<lambda>m. mb_user m = u \<and> mb_status m = Active \<and> \<not> mb_deleted m) ms)"

text \<open>\<open>None\<close> is the null that means no restriction.\<close>

definition resolveAllowedOrganizationIds :: "id \<Rightarrow> resolved_scope \<Rightarrow> access_db \<Rightarrow> id list option" where
  "resolveAllowedOrganizationIds u resolved db =
     (case fst resolved of
        ScAll \<Rightarrow> None
      | ScCompany \<Rightarrow> Some (activeMemberships u (userCompanies db))
      | ScBranch \<Rightarrow> Some (activeMemberships u (userBranches db))
      | ScWarehouse \<Rightarrow> Some (activeMemberships u (userWarehouses db))
      | _ \<Rightarrow> Some [])"

text \<open>A membership whose branch or warehouse was deleted has no row to read the company from.\<close>

definition companyOf :: "(id \<Rightarrow> id option) \<Rightarrow> id \<Rightarrow> id result" where
  "companyOf parent i = orThrow (parent i) (DbError ''TypeError'')"

definition resolveAllowedCompanyIds :: "org_db \<Rightarrow> id \<Rightarrow> resolved_scope \<Rightarrow> access_db \<Rightarrow> id list option result" where
  "resolveAllowedCompanyIds org u resolved db =
     (case fst resolved of
        ScAll \<Rightarrow> Inr None
      | ScCompany \<Rightarrow> Inr (Some (activeMemberships u (userCompanies db)))
      | ScBranch \<Rightarrow>
          andThen (mapR (companyOf (\<lambda>b. map_option br_company (branches org b))) (activeMemberships u (userBranches db)))
            (\<lambda>cs. Inr (Some (newSet cs)))
      | ScWarehouse \<Rightarrow>
          andThen (mapR (companyOf (\<lambda>w. map_option wh_company (warehouses org w))) (activeMemberships u (userWarehouses db)))
            (\<lambda>cs. Inr (Some (newSet cs)))
      | _ \<Rightarrow> Inr (Some []))"

definition resolveAllowedBranchIds :: "id \<Rightarrow> resolved_scope \<Rightarrow> access_db \<Rightarrow> id list option" where
  "resolveAllowedBranchIds u resolved db =
     (case fst resolved of
        ScAll \<Rightarrow> None
      | ScCompany \<Rightarrow> None
      | ScBranch \<Rightarrow> Some (activeMemberships u (userBranches db))
      | _ \<Rightarrow> Some [])"

section \<open>The company and the branches of a request\<close>

definition resolveRequestCompanyId :: "org_db \<Rightarrow> id \<Rightarrow> string \<Rightarrow> id option \<Rightarrow> access_db \<Rightarrow> id result" where
  "resolveRequestCompanyId org u resource requested db =
     andThen (orThrow (resolveScope u resource db) (AppException Forbidden)) (\<lambda>resolved.
     andThen (resolveAllowedCompanyIds org u resolved db) (\<lambda>allowedCompanyIds.
     case allowedCompanyIds of
       None \<Rightarrow> orThrow requested (AppException ValidationError)
     | Some cs \<Rightarrow>
         if cs = [] then Inl (AppException Forbidden)
         else (case requested of
             Some c \<Rightarrow> if c \<notin> set cs then Inl (AppException Forbidden) else Inr c
           | None \<Rightarrow> if length cs = 1 then Inr (hd cs) else Inl (AppException ValidationError))))"

record request_scope =
  qs_company :: id
  qs_branch :: "id option"
  qs_allowedBranches :: "id list option"

definition resolveRequestCompanyBranchScope ::
  "org_db \<Rightarrow> id \<Rightarrow> string \<Rightarrow> id option \<Rightarrow> id option \<Rightarrow> access_db \<Rightarrow> request_scope result" where
  "resolveRequestCompanyBranchScope org u resource company b db =
     andThen (orThrow (resolveScope u resource db) (AppException Forbidden)) (\<lambda>resolved.
     if fst resolved = ScWarehouse then Inl (AppException Forbidden)
     else andThen (resolveRequestCompanyId org u resource company db) (\<lambda>companyId.
     case resolveAllowedBranchIds u resolved db of
       None \<Rightarrow> Inr \<lparr>qs_company = companyId, qs_branch = b, qs_allowedBranches = None\<rparr>
     | Some bs \<Rightarrow>
         if bs = [] then Inl (AppException Forbidden)
         else (case b of
             Some i \<Rightarrow> if i \<notin> set bs then Inl (AppException Forbidden)
                 else Inr \<lparr>qs_company = companyId, qs_branch = Some i, qs_allowedBranches = Some [i]\<rparr>
           | None \<Rightarrow> Inr \<lparr>qs_company = companyId, qs_branch = None, qs_allowedBranches = Some bs\<rparr>)))"

text \<open>The users a caller may administer (\<open>users.controller.ts\<close>).\<close>

definition allowedUserCompanies :: "org_db \<Rightarrow> id \<Rightarrow> access_db \<Rightarrow> allowed result" where
  "allowedUserCompanies org caller db =
     andThen (orThrow (resolveScope caller ''users'' db) (AppException Forbidden)) (\<lambda>resolved.
     resolveAllowedCompanyIds org caller resolved db)"

section \<open>The broadest scope\<close>

lemma breadths [simp]:
  "indexOf SCOPE_BREADTH ScOwn = 0" "indexOf SCOPE_BREADTH ScAccount = 1" "indexOf SCOPE_BREADTH ScTeam = 2"
  "indexOf SCOPE_BREADTH ScBranch = 3" "indexOf SCOPE_BREADTH ScWarehouse = 4" "indexOf SCOPE_BREADTH ScCompany = 5"
  "indexOf SCOPE_BREADTH ScOrganization = 6" "indexOf SCOPE_BREADTH ScAll = 7"
  by (simp_all add: SCOPE_BREADTH_def)

lemma breadth_nonneg: "0 \<le> indexOf SCOPE_BREADTH s"
  by (cases s) simp_all

lemma breadth_inject: "indexOf SCOPE_BREADTH s = indexOf SCOPE_BREADTH t \<longleftrightarrow> s = t"
  by (cases s; cases t) simp_all

text \<open>The scopes that the active roles of a user have for the resource, and the state of the loop after some of them.\<close>

definition scopesOfUser :: "id \<Rightarrow> string \<Rightarrow> access_db \<Rightarrow> role_scope list" where
  "scopesOfUser u resource db =
     filter (\<lambda>s. rs_resource s = resource) (concat (map (scopesOfRole db) (activeRolesOf u db)))"

definition broadest_of :: "role_scope list \<Rightarrow> resolved_scope option \<times> int \<Rightarrow> bool" where
  "broadest_of ss st \<longleftrightarrow> (case fst st of None \<Rightarrow> ss = [] \<and> snd st = -1
     | Some (sc, v) \<Rightarrow> snd st = indexOf SCOPE_BREADTH sc \<and> (\<exists>s \<in> set ss. rs_scope s = sc \<and> rs_value s = v)
         \<and> (\<forall>s \<in> set ss. indexOf SCOPE_BREADTH (rs_scope s) \<le> indexOf SCOPE_BREADTH sc))"

lemma broaden_step:
  assumes "broadest_of ss st"
  shows "broadest_of (ss @ (if rs_resource s = resource then [s] else [])) (broaden resource s st)"
proof (cases "rs_resource s = resource")
  case True
  show ?thesis
  proof (cases "indexOf SCOPE_BREADTH (rs_scope s) > snd st")
    case bigger: True
    with assms True show ?thesis
      by (force simp: broadest_of_def broaden_def Let_def split: option.splits prod.splits)
  next
    case False
    moreover have "fst st \<noteq> None" using False assms breadth_nonneg [of "rs_scope s"]
      by (cases "fst st") (auto simp: broadest_of_def)
    ultimately show ?thesis using assms True
      by (auto simp: broadest_of_def broaden_def Let_def)
  qed
qed (use assms in \<open>simp add: broaden_def\<close>)

lemma broaden_fold:
  "broadest_of ss st \<Longrightarrow> broadest_of (ss @ filter (\<lambda>s. rs_resource s = resource) xs) (fold (broaden resource) xs st)"
proof (induction xs arbitrary: ss st)
  case (Cons x xs)
  from Cons.IH [OF broaden_step [OF Cons.prems, of x resource]] show ?case by (simp split: if_splits)
qed simp

lemma fold_nested: "fold (\<lambda>x. fold f (g x)) xs s = fold f (concat (map g xs)) s"
  by (induction xs arbitrary: s) auto

lemma resolveScope_broadest:
  "\<exists>k. broadest_of (scopesOfUser u resource db) (resolveScope u resource db, k)"
proof -
  have "broadest_of [] (None :: resolved_scope option, -1)" by (simp add: broadest_of_def)
  from broaden_fold [OF this, of resource "concat (map (scopesOfRole db) (activeRolesOf u db))"]
  have "broadest_of (scopesOfUser u resource db)
      (fold (\<lambda>r. fold (broaden resource) (scopesOfRole db r)) (activeRolesOf u db) (None, -1))"
    unfolding fold_nested scopesOfUser_def by simp
  then show ?thesis unfolding resolveScope_def by (metis prod.collapse)
qed

lemma newSet_set [simp]: "set (newSet xs) = set xs"
proof -
  have "set (fold setAdd xs ys) = set xs \<union> set ys" for ys :: "'a list"
    by (induction xs arbitrary: ys) (auto simp: setAdd_def)
  then show ?thesis by (simp add: newSet_def)
qed

lemma newSet_distinct [simp]: "distinct (newSet xs)"
proof -
  have "distinct ys \<Longrightarrow> distinct (fold setAdd xs ys)" for ys :: "'a list"
    by (induction xs arbitrary: ys) (auto simp: setAdd_def)
  then show ?thesis by (simp add: newSet_def)
qed

lemma activeMemberships_set: "i \<in> set (activeMemberships u ms) \<longleftrightarrow> hasActiveMembership u i ms"
  by (auto simp: activeMemberships_def hasActiveMembership_def list_ex_iff activeMember_def)

end
