(* ===== verification/Sessions.thy ===== *)
theory Sessions
  imports Scopes
begin

text \<open>
  Logging in and staying logged in (\<open>auth/services/auth.service.ts\<close>, \<open>token.service.ts\<close>, \<open>bot-session.service.ts\<close>,
  \<open>auth/guards/jwt-auth.guard.ts\<close>, \<open>auth-rate-limit.guard.ts\<close>). Times are milliseconds. The libraries are the
  parameter \<open>crypto\<close>: Argon2, SHA-256 and the signed tokens of \<open>jsonwebtoken\<close>, which adds the second of issue and of
  expiry to the claims it signs. Random tokens and ids are arguments. A \<open>timestamp\<close> column keeps whole seconds; the
  database rounds.
\<close>

section \<open>The libraries and the configuration\<close>

record claims =
  jw_sub :: id
  jw_jti :: id
  jw_iatMs :: "nat option"

record payload = claims +
  jw_iat :: nat
  jw_exp :: nat

record crypto =
  cr_hash :: "string \<Rightarrow> string"
  cr_verify :: "string \<Rightarrow> string \<Rightarrow> bool"
  cr_sha256 :: "string \<Rightarrow> string"
  cr_sign :: "claims \<Rightarrow> nat \<Rightarrow> nat \<Rightarrow> string"
  cr_verifyToken :: "string \<Rightarrow> nat \<Rightarrow> payload option"

record auth_config =
  ac_accessSeconds :: nat
  ac_refreshDays :: nat
  ac_resetMinutes :: nat
  ac_maxAttempts :: nat
  ac_botEmails :: "string list"

definition signAccessToken :: "crypto \<Rightarrow> auth_config \<Rightarrow> id \<Rightarrow> id \<Rightarrow> nat \<Rightarrow> string" where
  "signAccessToken c cfg u jti now =
     cr_sign c \<lparr>jw_sub = u, jw_jti = jti, jw_iatMs = Some now\<rparr> (ac_accessSeconds cfg) now"

section \<open>Logging in\<close>

record issue =
  iu_access :: string
  iu_refresh :: string
  iu_expires :: nat

definition refreshExpiryDate :: "auth_config \<Rightarrow> nat \<Rightarrow> nat" where
  "refreshExpiryDate cfg now = now + ac_refreshDays cfg * 24 * 60 * 60000"

definition newSession :: "crypto \<Rightarrow> auth_config \<Rightarrow> id \<Rightarrow> id \<Rightarrow> string \<Rightarrow> nat \<Rightarrow> session" where
  "newSession c cfg i u raw now =
     \<lparr>se_id = i, se_user = u, se_hash = cr_sha256 c raw, se_expires = toTimestamp (refreshExpiryDate cfg now),
      se_revoked = None, se_replacedBy = None\<rparr>"

text \<open>The insert, on which the unique index on the hash has a say.\<close>

definition putSession :: "session \<Rightarrow> access_db \<Rightarrow> access_db result" where
  "putSession s db =
     (if \<exists>x \<in> set (sessions db). se_hash x = se_hash s then Inl (DupEntry ''token_hash'')
      else Inr (db\<lparr>sessions := sessions db @ [s], accessIds := Suc (accessIds db)\<rparr>))"

definition saveSession :: "session \<Rightarrow> access_db \<Rightarrow> access_db" where
  "saveSession s db = db\<lparr>sessions := putRow se_id s (sessions db)\<rparr>"

definition findSession :: "string \<Rightarrow> access_db \<Rightarrow> session option" where
  "findSession h db = List.find (\<lambda>s. se_hash s = h) (sessions db)"

text \<open>A random token \<open>raw\<close> and the id \<open>jti\<close> are given. The time of the login is saved before the session is, on its own.\<close>

definition login ::
  "crypto \<Rightarrow> auth_config \<Rightarrow> string \<Rightarrow> string \<Rightarrow> string \<Rightarrow> id \<Rightarrow> nat \<Rightarrow> access_db \<Rightarrow> (user \<times> issue) result \<times> access_db" where
  "login c cfg email password raw jti now db =
     (case findUserByEmail (normalizeEmail email) db of
        None \<Rightarrow> (Inl (AppException Unauthorized), db)
      | Some u \<Rightarrow>
          if \<not> cr_verify c password (us_hash u) then (Inl (AppException Unauthorized), db)
          else if us_status u \<noteq> UsActive then (Inl (AppException Unauthorized), db)
          else (let u' = u\<lparr>us_lastLogin := Some (toTimestamp now)\<rparr>; db1 = saveUser u' db
                in case putSession (newSession c cfg (accessIds db1) (us_id u) raw now) db1 of
                     Inl e \<Rightarrow> (Inl e, db1)
                   | Inr db2 \<Rightarrow> (Inr (u', \<lparr>iu_access = signAccessToken c cfg (us_id u) jti now, iu_refresh = raw,
                       iu_expires = refreshExpiryDate cfg now\<rparr>), db2)))"

section \<open>Rotating a session\<close>

text \<open>The rejected reuse: the row it was rotated into is revoked, in a statement of its own.\<close>

definition revokeSuccessor :: "session \<Rightarrow> nat \<Rightarrow> access_db \<Rightarrow> access_db" where
  "revokeSuccessor s now db =
     (case se_replacedBy s of None \<Rightarrow> db
      | Some i \<Rightarrow> db\<lparr>sessions := map (\<lambda>x. if se_id x = i \<and> se_revoked x = None
            then x\<lparr>se_revoked := Some (toTimestamp now)\<rparr> else x) (sessions db)\<rparr>)"

text \<open>The transaction, given what it reads, \<open>view\<close>; alone, it reads the tables it writes.\<close>

definition rotateAt ::
  "access_db \<Rightarrow> crypto \<Rightarrow> auth_config \<Rightarrow> string \<Rightarrow> string \<Rightarrow> id \<Rightarrow> nat \<Rightarrow> access_db \<Rightarrow> (issue \<times> access_db) result" where
  "rotateAt view c cfg rawRefreshToken raw jti now db =
     (case findSession (cr_sha256 c rawRefreshToken) view of
        None \<Rightarrow> Inl (AppException Unauthorized)
      | Some s \<Rightarrow>
          if se_revoked s \<noteq> None then Inl (AppException Unauthorized)
          else if se_expires s < now then Inl (AppException Unauthorized)
          else (case findUser (se_user s) view of
              None \<Rightarrow> Inl (AppException Unauthorized)
            | Some u \<Rightarrow>
                if us_status u \<noteq> UsActive then Inl (AppException Unauthorized)
                else (let i = accessIds db
                      in andThen (putSession (newSession c cfg i (us_id u) raw now) db) (\<lambda>db1.
                         Inr (\<lparr>iu_access = signAccessToken c cfg (us_id u) jti now, iu_refresh = raw,
                                iu_expires = refreshExpiryDate cfg now\<rparr>,
                              saveSession (s\<lparr>se_revoked := Some (toTimestamp now), se_replacedBy := Some i\<rparr>) db1)))))"

text \<open>The reuse is looked for outside the transaction, so that its revocation outlives the rejection.\<close>

definition refresh ::
  "crypto \<Rightarrow> auth_config \<Rightarrow> string \<Rightarrow> string \<Rightarrow> id \<Rightarrow> nat \<Rightarrow> access_db \<Rightarrow> issue result \<times> access_db" where
  "refresh c cfg rawRefreshToken raw jti now db =
     (case findSession (cr_sha256 c rawRefreshToken) db of
        None \<Rightarrow> (Inl (AppException Unauthorized), db)
      | Some s \<Rightarrow>
          if se_revoked s \<noteq> None then (Inl (AppException Unauthorized), revokeSuccessor s now db)
          else (case rotateAt db c cfg rawRefreshToken raw jti now db of
              Inl e \<Rightarrow> (Inl e, db)
            | Inr (iss, db') \<Rightarrow> (Inr iss, db')))"

definition revokeRefreshSession :: "crypto \<Rightarrow> string \<Rightarrow> nat \<Rightarrow> access_db \<Rightarrow> access_db" where
  "revokeRefreshSession c rawRefreshToken now db =
     db\<lparr>sessions := map (\<lambda>x. if se_hash x = cr_sha256 c rawRefreshToken \<and> se_revoked x = None
         then x\<lparr>se_revoked := Some (toTimestamp now)\<rparr> else x) (sessions db)\<rparr>"

section \<open>Passwords\<close>

definition findActiveUserOrThrow :: "id \<Rightarrow> access_db \<Rightarrow> user result" where
  "findActiveUserOrThrow i db =
     (case findUser i db of None \<Rightarrow> Inl (AppException Unauthorized)
      | Some u \<Rightarrow> if us_status u \<noteq> UsActive then Inl (AppException Unauthorized) else Inr u)"

definition withPassword :: "crypto \<Rightarrow> string \<Rightarrow> nat \<Rightarrow> user \<Rightarrow> user" where
  "withPassword c newPassword now u =
     u\<lparr>us_hash := cr_hash c newPassword, us_passwordChanged := Some (toTimestamp now)\<rparr>"

definition changePassword :: "crypto \<Rightarrow> id \<Rightarrow> string \<Rightarrow> string \<Rightarrow> nat \<Rightarrow> access_db \<Rightarrow> access_db result" where
  "changePassword c i currentPassword newPassword now db =
     andThen (findActiveUserOrThrow i db) (\<lambda>u.
     if \<not> cr_verify c currentPassword (us_hash u) then Inl (AppException Unauthorized)
     else if \<not> validatePolicy newPassword then Inl (AppException ValidationError)
     else Inr (saveUser (withPassword c newPassword now u) db))"

definition forgotPassword :: "crypto \<Rightarrow> auth_config \<Rightarrow> string \<Rightarrow> string \<Rightarrow> nat \<Rightarrow> access_db \<Rightarrow> access_db result" where
  "forgotPassword c cfg email rawToken now db =
     (case findUserByEmail (normalizeEmail email) db of
        None \<Rightarrow> Inr db
      | Some u \<Rightarrow>
          if us_status u \<noteq> UsActive then Inr db
          else if \<exists>t \<in> set (resetTokens db). rt_hash t = cr_sha256 c rawToken then Inl (DupEntry ''token_hash'')
          else Inr (db\<lparr>resetTokens := resetTokens db @ [\<lparr>rt_id = accessIds db, rt_user = us_id u,
                 rt_hash = cr_sha256 c rawToken, rt_expires = toTimestamp (now + ac_resetMinutes cfg * 60000),
                 rt_used = None\<rparr>], accessIds := Suc (accessIds db)\<rparr>))"

definition findResetToken :: "string \<Rightarrow> access_db \<Rightarrow> reset_token option" where
  "findResetToken h db = List.find (\<lambda>t. rt_hash t = h) (resetTokens db)"

definition resetPassword :: "crypto \<Rightarrow> string \<Rightarrow> string \<Rightarrow> nat \<Rightarrow> access_db \<Rightarrow> access_db result" where
  "resetPassword c rawToken newPassword now db =
     (if \<not> validatePolicy newPassword then Inl (AppException ValidationError)
      else (case findResetToken (cr_sha256 c rawToken) db of
          None \<Rightarrow> Inl (AppException ValidationError)
        | Some t \<Rightarrow>
            if rt_used t \<noteq> None \<or> rt_expires t < now then Inl (AppException ValidationError)
            else (case findUser (rt_user t) db of
                None \<Rightarrow> Inl (AppException ValidationError)
              | Some u \<Rightarrow>
                  let db1 = saveUser (withPassword c newPassword now u) db
                  in Inr (db1\<lparr>resetTokens := putRow rt_id (t\<lparr>rt_used := Some (toTimestamp now)\<rparr>) (resetTokens db1)\<rparr>))))"

section \<open>The guard of a session\<close>

text \<open>\<open>/^Bearer\s+(.+)$/i\<close>: the scheme in either case, a space, and at least one more character.\<close>

definition bearerToken :: "string \<Rightarrow> string option" where
  "bearerToken header =
     (let rest = drop 6 header
      in if toLowerCase (take 6 header) = ''bearer'' \<and> 2 \<le> length rest \<and> white_space (hd rest)
         then Some (trim rest) else None)"

definition resolveToken :: "string option \<Rightarrow> string option \<Rightarrow> string option result" where
  "resolveToken header cookie =
     (case header of
        Some h \<Rightarrow> if h \<noteq> [] then orThrow (map_option Some (bearerToken h)) (AppException Unauthorized)
                  else Inr (map_option trim cookie)
      | None \<Rightarrow> Inr (map_option trim cookie))"

definition issuedAtMs :: "payload \<Rightarrow> nat" where
  "issuedAtMs p = (case jw_iatMs p of Some ms \<Rightarrow> ms | None \<Rightarrow> jw_iat p * 1000)"

definition jwtGuard :: "crypto \<Rightarrow> string option \<Rightarrow> string option \<Rightarrow> nat \<Rightarrow> access_db \<Rightarrow> id result" where
  "jwtGuard c header cookie now db =
     andThen (resolveToken header cookie) (\<lambda>token.
     case token of
       None \<Rightarrow> Inl (AppException Unauthorized)
     | Some t \<Rightarrow>
         if t = [] then Inl (AppException Unauthorized)
         else (case cr_verifyToken c t now of
             None \<Rightarrow> Inl (AppException Unauthorized)
           | Some p \<Rightarrow>
               (case findActiveById (jw_sub p) db of
                  None \<Rightarrow> Inl (AppException Unauthorized)
                | Some u \<Rightarrow>
                    (case us_passwordChanged u of
                       Some changed \<Rightarrow> if issuedAtMs p < changed then Inl (AppException Unauthorized) else Inr (jw_sub p)
                     | None \<Rightarrow> Inr (jw_sub p)))))"

section \<open>Limits on attempts\<close>

text \<open>The number of attempts in the window comes from Redis, \<open>None\<close> when it cannot be reached. An exception of Nest is
  given the code that the exception filter finds for its status.\<close>

datatype rate_mode = RmLogin | RmForgotPassword | RmResetPassword | RmRefresh | RmTelegramRequest | RmTelegramVerify

text \<open>The fields of the body that are strings.\<close>

record rate_body =
  rb_email :: "string option"
  rb_token :: "string option"
  rb_telegram :: "string option"

definition givenText :: "string option \<Rightarrow> string option" where
  "givenText v = (case v of None \<Rightarrow> None | Some x \<Rightarrow> if trim x = [] then None else Some (trim x))"

definition buildIdentifier :: "string \<Rightarrow> rate_mode \<Rightarrow> rate_body \<Rightarrow> string" where
  "buildIdentifier ip mode b =
     (let part = (case mode of
          RmLogin \<Rightarrow> map_option toLowerCase (givenText (rb_email b))
        | RmForgotPassword \<Rightarrow> map_option toLowerCase (givenText (rb_email b))
        | RmResetPassword \<Rightarrow> map_option (take 32) (givenText (rb_token b))
        | RmTelegramRequest \<Rightarrow> givenText (rb_telegram b)
        | RmTelegramVerify \<Rightarrow> givenText (rb_telegram b)
        | RmRefresh \<Rightarrow> None)
      in case part of None \<Rightarrow> ip | Some x \<Rightarrow> ip @ '':'' @ x)"

definition rateLimitGuard :: "auth_config \<Rightarrow> rate_mode option \<Rightarrow> nat option \<Rightarrow> bool result" where
  "rateLimitGuard cfg mode attempts =
     (case mode of None \<Rightarrow> Inr True
      | Some _ \<Rightarrow> (case attempts of None \<Rightarrow> Inr True
          | Some k \<Rightarrow> if k > ac_maxAttempts cfg then Inl (AppException RateLimited) else Inr True))"

definition consumeAttempt :: "auth_config \<Rightarrow> nat option \<Rightarrow> unit result" where
  "consumeAttempt cfg attempts =
     (case attempts of None \<Rightarrow> Inl (AppException InternalError)
      | Some k \<Rightarrow> if k > ac_maxAttempts cfg then Inl (AppException RateLimited) else Inr ())"

section \<open>Sessions of bots\<close>

definition EXPIRY_MARGIN_SECONDS :: nat where
  "EXPIRY_MARGIN_SECONDS = 30"

text \<open>The token that the cache holds under the proof of these credentials, decrypted: it is used again unless it ends
  soon, is not of this user, or is older than the password.\<close>

definition olderThanPassword :: "payload \<Rightarrow> user \<Rightarrow> bool" where
  "olderThanPassword p u \<longleftrightarrow> (case us_passwordChanged u of None \<Rightarrow> False | Some changed \<Rightarrow> issuedAtMs p < changed)"

definition readCachedToken :: "crypto \<Rightarrow> string option \<Rightarrow> user \<Rightarrow> nat \<Rightarrow> string option" where
  "readCachedToken c cached u now =
     (case cached of None \<Rightarrow> None
      | Some t \<Rightarrow> (case cr_verifyToken c t now of None \<Rightarrow> None
          | Some p \<Rightarrow> if jw_sub p \<noteq> us_id u \<or> jw_exp p * 1000 \<le> now + EXPIRY_MARGIN_SECONDS * 1000 \<or> olderThanPassword p u
              then None else Some t))"

text \<open>The source has the check of the password commented out; the cache is given by the proof of the credentials, which
  the password is part of.\<close>

type_synonym credential_proof = "id \<times> string \<times> string \<times> nat option \<times> string"

definition botSession ::
  "crypto \<Rightarrow> auth_config \<Rightarrow> string \<Rightarrow> string \<Rightarrow> (credential_proof \<Rightarrow> string option) \<Rightarrow> nat option \<Rightarrow> id \<Rightarrow> nat \<Rightarrow> access_db
    \<Rightarrow> ((user \<times> string) \<times> access_db) result" where
  "botSession c cfg email password cache attempts jti now db =
     (if normalizeEmail email \<notin> set (ac_botEmails cfg)
      then andThen (consumeAttempt cfg attempts) (\<lambda>_. Inl (AppException Unauthorized))
      else (case findUserByEmail (normalizeEmail email) db of
          None \<Rightarrow> andThen (consumeAttempt cfg attempts) (\<lambda>_. Inl (AppException Unauthorized))
        | Some u \<Rightarrow>
            if us_status u \<noteq> UsActive then andThen (consumeAttempt cfg attempts) (\<lambda>_. Inl (AppException Unauthorized))
            else (case readCachedToken c (cache (us_id u, us_email u, us_hash u, us_passwordChanged u, password)) u now of
                Some t \<Rightarrow> Inr ((u, t), db)
              | None \<Rightarrow>
                  andThen (consumeAttempt cfg attempts) (\<lambda>_.
                  let t = signAccessToken c cfg (us_id u) jti now
                  in case cr_verifyToken c t now of None \<Rightarrow> Inl (AppException InternalError)
                     | Some p \<Rightarrow> if olderThanPassword p u then Inl (AppException Unauthorized)
                         else Inr ((u, t), saveUser (u\<lparr>us_lastLogin := Some (toTimestamp now)\<rparr>) db)))))"

end
