(* ===== verification/Access_Steps.thy ===== *)
theory Access_Steps
  imports Sessions
begin

text \<open>
  The operations on identity and access as one step relation, and what every step keeps: ids and token hashes are
  unique, the roles of a user are there and not deleted, permissions of roles exist, and the rows of sessions form
  chains in which only a revoked row has a successor. The three operations that take a user out of service are apart,
  because they do not look at the last super admin. The locale \<open>one_time_tokens\<close> is the contract of a table of hashed tokens
  that are used once; the refresh sessions and the reset tokens meet it.
\<close>

section \<open>Steps\<close>

inductive role_step :: "access_db \<Rightarrow> access_db \<Rightarrow> bool" where
  create_role: "createRole rd db = Inr (r, d) \<Longrightarrow> role_step db d"
| update_role: "updateRole i ru db = Inr (r, d) \<Longrightarrow> role_step db d"
| activate_role: "activateRole i db = Inr (r, d) \<Longrightarrow> role_step db d"
| deactivate_role: "deactivateRole i db = Inr (r, d) \<Longrightarrow> role_step db d"
| remove_role: "removeRole i db = Inr d \<Longrightarrow> role_step db d"
| replace_permissions: "replacePermissions i ps db = Inr (r, d) \<Longrightarrow> role_step db d"
| replace_scopes: "replaceScopes i ss db = Inr (r, d) \<Longrightarrow> role_step db d"
| replace_roles: "replaceForUser u rs db = Inr (x, d) \<Longrightarrow> role_step db d"

inductive user_step :: "access_db \<Rightarrow> access_db \<Rightarrow> bool" where
  create_user: "createUser hash ud db = Inr (u, d) \<Longrightarrow> user_step db d"
| update_user: "updateUser uu i al db = Inr (u, d) \<Longrightarrow> user_step db d"
| activate_user: "activateUser i al db = Inr (u, d) \<Longrightarrow> user_step db d"
| unlock_user: "unlockUser i al db = Inr (u, d) \<Longrightarrow> user_step db d"

inductive suspend_step :: "access_db \<Rightarrow> access_db \<Rightarrow> bool" where
  deactivate_user: "deactivateUser i al db = Inr (u, d) \<Longrightarrow> suspend_step db d"
| lock_user: "lockUser i al db = Inr (u, d) \<Longrightarrow> suspend_step db d"
| remove_user: "removeUser i al db = Inr (u, d) \<Longrightarrow> suspend_step db d"

inductive member_step :: "org_db \<Rightarrow> access_db \<Rightarrow> access_db \<Rightarrow> bool" for org where
  assign_company: "assignCompany org u i db = Inr d \<Longrightarrow> member_step org db d"
| remove_company: "removeCompanyMembership u i db = Inr d \<Longrightarrow> member_step org db d"
| assign_branch: "assignBranch org u i db = Inr d \<Longrightarrow> member_step org db d"
| remove_branch: "removeBranchMembership u i db = Inr d \<Longrightarrow> member_step org db d"
| assign_warehouse: "assignWarehouse org u i db = Inr d \<Longrightarrow> member_step org db d"
| remove_warehouse: "removeWarehouseMembership u i db = Inr d \<Longrightarrow> member_step org db d"

text \<open>A failing login or refresh may change the tables too.\<close>

inductive auth_step :: "crypto \<Rightarrow> auth_config \<Rightarrow> access_db \<Rightarrow> access_db \<Rightarrow> bool" for c cfg where
  log_in: "login c cfg email password raw jti now db = (x, d) \<Longrightarrow> auth_step c cfg db d"
| rotate: "refresh c cfg old raw jti now db = (y, d) \<Longrightarrow> auth_step c cfg db d"
| log_out: "revokeRefreshSession c old now db = d \<Longrightarrow> auth_step c cfg db d"
| change_password: "changePassword c i password password' now db = Inr d \<Longrightarrow> auth_step c cfg db d"
| forgot_password: "forgotPassword c cfg email raw now db = Inr d \<Longrightarrow> auth_step c cfg db d"
| reset_password: "resetPassword c raw password now db = Inr d \<Longrightarrow> auth_step c cfg db d"
| bot_session: "botSession c cfg email password cache attempts jti now db = Inr (z, d) \<Longrightarrow> auth_step c cfg db d"

definition safe_step :: "org_db \<Rightarrow> crypto \<Rightarrow> auth_config \<Rightarrow> access_db \<Rightarrow> access_db \<Rightarrow> bool" where
  "safe_step org c cfg db d \<longleftrightarrow> role_step db d \<or> user_step db d \<or> member_step org db d \<or> auth_step c cfg db d"

definition access_step :: "org_db \<Rightarrow> crypto \<Rightarrow> auth_config \<Rightarrow> access_db \<Rightarrow> access_db \<Rightarrow> bool" where
  "access_step org c cfg db d \<longleftrightarrow> safe_step org c cfg db d \<or> suspend_step db d"

section \<open>What the tables satisfy\<close>

definition users_ok :: "access_db \<Rightarrow> bool" where
  "users_ok db \<longleftrightarrow> distinct (map us_id (users db)) \<and> (\<forall>u \<in> set (users db). us_id u < accessIds db)"

definition roles_ok :: "access_db \<Rightarrow> bool" where
  "roles_ok db \<longleftrightarrow> distinct (map rl_id (roles db)) \<and> (\<forall>r \<in> set (roles db). rl_id r < accessIds db)
     \<and> distinct (map pe_id (permissions db))
     \<and> (\<forall>ur \<in> set (userRoles db). fst ur \<in> us_id ` set (users db)
          \<and> (\<exists>r \<in> set (roles db). rl_id r = snd ur \<and> \<not> rl_deleted r))
     \<and> (\<forall>rp \<in> set (rolePermissions db). snd rp \<in> pe_id ` set (permissions db))"

definition sessions_ok :: "access_db \<Rightarrow> bool" where
  "sessions_ok db \<longleftrightarrow> distinct (map se_id (sessions db)) \<and> distinct (map se_hash (sessions db))
     \<and> (\<forall>s \<in> set (sessions db). se_id s < accessIds db)
     \<and> (\<forall>s \<in> set (sessions db). \<forall>i. se_replacedBy s = Some i \<longrightarrow> se_revoked s \<noteq> None \<and> se_id s < i
          \<and> (\<exists>t \<in> set (sessions db). se_id t = i \<and> se_user t = se_user s))"

definition resets_ok :: "access_db \<Rightarrow> bool" where
  "resets_ok db \<longleftrightarrow> distinct (map rt_id (resetTokens db)) \<and> distinct (map rt_hash (resetTokens db))
     \<and> (\<forall>t \<in> set (resetTokens db). rt_id t < accessIds db)"

definition access_ok :: "access_db \<Rightarrow> bool" where
  "access_ok db \<longleftrightarrow> users_ok db \<and> roles_ok db \<and> sessions_ok db \<and> resets_ok db"

text \<open>Which tables a group of operations leaves alone.\<close>

definition token_frame :: "access_db \<Rightarrow> access_db \<Rightarrow> bool" where
  "token_frame db d \<longleftrightarrow> sessions d = sessions db \<and> resetTokens d = resetTokens db \<and> accessIds db \<le> accessIds d"

definition role_frame :: "access_db \<Rightarrow> access_db \<Rightarrow> bool" where
  "role_frame db d \<longleftrightarrow> roles d = roles db \<and> permissions d = permissions db \<and> rolePermissions d = rolePermissions db
     \<and> userRoles d = userRoles db \<and> us_id ` set (users db) \<subseteq> us_id ` set (users d) \<and> accessIds db \<le> accessIds d"

lemma role_frame_ok: "roles_ok db \<Longrightarrow> role_frame db d \<Longrightarrow> roles_ok d"
  unfolding roles_ok_def role_frame_def by (auto dest: less_le_trans)

lemma token_frame_ok: "sessions_ok db \<Longrightarrow> token_frame db d \<Longrightarrow> sessions_ok d"
  "resets_ok db \<Longrightarrow> token_frame db d \<Longrightarrow> resets_ok d"
  unfolding sessions_ok_def resets_ok_def token_frame_def by (auto dest: less_le_trans)

lemma distinct_putRow [simp]: "distinct (map key (putRow key r rows)) = distinct (map key rows)"
  by simp

lemma putRow_key_image [simp]: "key ` set (putRow key r rows) = key ` set rows"
  using putRow_ids [of key r rows] by (metis list.set_map)

lemma putRow_less [simp]: "(\<forall>x \<in> set (putRow key r rows). key x < n) \<longleftrightarrow> (\<forall>x \<in> set rows. key x < (n :: id))"
  using putRow_key_image [of key r rows] by (metis image_iff)

section \<open>Users\<close>

lemma saveUser_frames: "token_frame db (saveUser u db)" "role_frame db (saveUser u db)"
  by (simp_all add: token_frame_def role_frame_def saveUser_def)

lemma saveUser_ok: "users_ok db \<Longrightarrow> users_ok (saveUser u db)"
  by (simp add: users_ok_def saveUser_def)

lemma changeUser_ok:
  assumes "changeUser f i al db = Inr (u, d)" "access_ok db"
  shows "access_ok d"
proof -
  obtain u0 where d: "d = saveUser (f u0) db" using assms(1) by (auto simp: changeUser_Inr)
  show ?thesis
    using assms(2) saveUser_ok role_frame_ok token_frame_ok saveUser_frames unfolding d access_ok_def by blast
qed

lemma createUser_ok:
  assumes "createUser hash ud db = Inr (u, d)" "access_ok db"
  shows "access_ok d"
proof -
  from assms(1) obtain x where d: "d = db\<lparr>users := users db @ [x], accessIds := Suc (accessIds db)\<rparr>" and i: "us_id x = accessIds db"
    by (auto simp: createUser_def Let_def split: if_splits)
  have "users_ok d" using assms(2) i by (auto simp: d access_ok_def users_ok_def)
  moreover have "role_frame db d" "token_frame db d" by (auto simp: d role_frame_def token_frame_def)
  ultimately show ?thesis using assms(2) role_frame_ok token_frame_ok unfolding access_ok_def by blast
qed

lemma user_step_ok: "user_step db d \<or> suspend_step db d \<Longrightarrow> access_ok db \<Longrightarrow> access_ok d"
  by (auto simp: user_op_defs elim!: user_step.cases suspend_step.cases intro: createUser_ok changeUser_ok)

lemma member_step_frames:
  assumes "member_step org db d"
  shows "users d = users db \<and> role_frame db d \<and> token_frame db d"
  using assms by cases (auto simp: assignCompany_def removeCompanyMembership_def assignBranch_def removeBranchMembership_def
      assignWarehouse_def removeWarehouseMembership_def role_frame_def token_frame_def split: if_splits)

lemma member_step_ok: "member_step org db d \<Longrightarrow> access_ok db \<Longrightarrow> access_ok d"
  using member_step_frames [of org db d] role_frame_ok token_frame_ok
  by (auto simp: access_ok_def users_ok_def token_frame_def dest: less_le_trans)

section \<open>Roles\<close>

text \<open>As many rows as ids were asked for: every id was found.\<close>

lemma all_found:
  assumes "distinct (map key rows)" "length (filter (\<lambda>x. key x \<in> set ids \<and> Q x) rows) = length ids" "i \<in> set ids"
  shows "\<exists>x \<in> set rows. key x = i \<and> Q x"
proof -
  let ?F = "filter (\<lambda>x. key x \<in> set ids \<and> Q x) rows"
  have "distinct (map key ?F)" using assms(1) by (rule distinct_map_filter)
  then have "card (set (map key ?F)) = length ids" using assms(2) distinct_card [of "map key ?F"] by simp
  then have "card (set ids) \<le> card (set (map key ?F))" by (simp add: card_length)
  then have "set (map key ?F) = set ids" by (intro card_seteq) auto
  with assms(3) have "i \<in> set (map key ?F)" by blast
  then show ?thesis by auto
qed

lemma findRole_SomeD: "findRole i db = Some r \<Longrightarrow> r \<in> set (roles db) \<and> rl_id r = i \<and> \<not> rl_deleted r"
  by (auto simp: findRole_def dest: find_SomeD)

lemma saveRole_ok:
  assumes "roles_ok db" "\<forall>ur \<in> set (userRoles db). snd ur = rl_id r \<longrightarrow> \<not> rl_deleted r"
  shows "roles_ok (saveRole r db)"
proof -
  have "\<exists>x \<in> set (putRow rl_id r (roles db)). rl_id x = snd ur \<and> \<not> rl_deleted x" if ur: "ur \<in> set (userRoles db)" for ur
  proof -
    from assms(1) ur obtain x where x: "x \<in> set (roles db)" "rl_id x = snd ur" "\<not> rl_deleted x" by (auto simp: roles_ok_def)
    show ?thesis
    proof (cases "rl_id x = rl_id r")
      case True
      then have "r \<in> set (putRow rl_id r (roles db))" using x(1) unfolding putRow_set by blast
      with True x(2) assms(2) ur show ?thesis by auto
    next
      case False
      with x(1) have "x \<in> set (putRow rl_id r (roles db))" by (auto simp: putRow_set)
      with x show ?thesis by blast
    qed
  qed
  then show ?thesis using assms(1) by (simp add: roles_ok_def saveRole_def)
qed

text \<open>What a step on roles does to the tables.\<close>

lemma role_step_cases:
  assumes "role_step db d"
  obtains (saved) r0 r where "findRole (rl_id r) db = Some r0" "d = saveRole r db" "rl_code r = rl_code r0" "\<not> rl_deleted r"
      "rl_status r0 = Active \<longrightarrow> rl_status r = Active \<or> assertAtLeastOneActiveSuperAdminRemains d = Inr ()"
  | (added) r where "d = db\<lparr>roles := roles db @ [r], accessIds := Suc (accessIds db)\<rparr>" "rl_id r = accessIds db"
  | (removed) r0 r where "findRole (rl_id r) db = Some r0" "d = saveRole r db" "rl_id r \<notin> snd ` set (userRoles db)"
  | (rights) i ps where "d = db\<lparr>rolePermissions := filter (\<lambda>rp. fst rp \<noteq> i) (rolePermissions db) @ map (Pair i) ps\<rparr>"
      "ps \<noteq> [] \<longrightarrow> length (filter (\<lambda>p. pe_id p \<in> set ps) (permissions db)) = length ps"
  | (scopes) ss where "d = db\<lparr>roleScopes := ss\<rparr>"
  | (assigned) u rs where "d = putUserRoles u rs db" "findUser u db \<noteq> None"
      "rs \<noteq> [] \<longrightarrow> length (filter (\<lambda>r. rl_id r \<in> set rs \<and> \<not> rl_deleted r) (roles db)) = length rs"
      "assertAtLeastOneActiveSuperAdminRemains d = Inr ()"
  using assms
proof cases
  case (create_role rd r)
  then show ?thesis by (intro added [of r]) (auto simp: createRole_def Let_def split: if_splits)
next
  case (update_role i ru r)
  then obtain r0 where "findRole i db = Some r0" and r: "r = r0\<lparr>rl_name := rl_name r, rl_description := rl_description r\<rparr>"
    and d: "d = saveRole r db" by (auto simp: updateRole_def getRoleOrThrow_def Let_def)
  moreover from r have "rl_id r = rl_id r0" "rl_code r = rl_code r0" "rl_deleted r = rl_deleted r0" "rl_status r = rl_status r0"
    by (metis role.select_convs role.update_convs role.surjective)+
  ultimately show ?thesis using findRole_SomeD by (intro saved [of r r0]) auto
next
  case (activate_role i r)
  then obtain r0 where "findRole i db = Some r0" "r = r0\<lparr>rl_status := Active\<rparr>" "d = saveRole r db"
    by (auto simp: activateRole_def getRoleOrThrow_def Let_def)
  then show ?thesis using findRole_SomeD by (intro saved [of r r0]) auto
next
  case (deactivate_role i r)
  then obtain r0 where "findRole i db = Some r0" "r = r0\<lparr>rl_status := Inactive\<rparr>" "d = saveRole r db"
    "assertAtLeastOneActiveSuperAdminRemains d = Inr ()"
    by (auto simp: deactivateRole_def getRoleOrThrow_def Let_def split: if_splits)
  then show ?thesis using findRole_SomeD by (intro saved [of r r0]) auto
next
  case (remove_role i)
  then obtain r0 where "findRole i db = Some r0" "d = saveRole (r0\<lparr>rl_deleted := True\<rparr>) db" "i \<notin> snd ` set (userRoles db)"
    by (auto simp: removeRole_def getRoleOrThrow_def filter_empty_conv split: if_splits)
  then show ?thesis using findRole_SomeD by (intro removed [of "r0\<lparr>rl_deleted := True\<rparr>" r0]) auto
next
  case (replace_permissions i ps r)
  then show ?thesis by (intro rights [of i ps]) (auto simp: replacePermissions_def split: if_splits)
next
  case (replace_scopes i ss r)
  then show ?thesis by (intro scopes) (auto simp: replaceScopes_def split: if_splits)
next
  case (replace_roles u rs x)
  then show ?thesis by (intro assigned [of u rs]) (auto simp: replaceForUser_def Let_def split: if_splits)
qed

lemma role_step_frame: "role_step db d \<Longrightarrow> users d = users db \<and> token_frame db d \<and> accessIds db \<le> accessIds d"
  by (erule role_step_cases) (auto simp: saveRole_def putUserRoles_def token_frame_def)

lemma putUserRoles_ok:
  assumes ok: "roles_ok db" and u: "findUser u db \<noteq> None"
    and all: "rs \<noteq> [] \<longrightarrow> length (filter (\<lambda>r. rl_id r \<in> set rs \<and> \<not> rl_deleted r) (roles db)) = length rs"
  shows "roles_ok (putUserRoles u rs db)"
proof -
  have "\<exists>x \<in> set (roles db). rl_id x = i \<and> \<not> rl_deleted x" if "i \<in> set rs" for i
    by (rule all_found [where key = rl_id, OF _ _ that]) (use ok all that in \<open>auto simp: roles_ok_def\<close>)
  moreover have "u \<in> us_id ` set (users db)" using u findUser_SomeD by fastforce
  ultimately show ?thesis using ok by (auto simp: roles_ok_def putUserRoles_def)
qed

lemma role_step_ok:
  assumes "role_step db d" "roles_ok db"
  shows "roles_ok d"
  using assms(1)
proof (cases rule: role_step_cases)
  case (saved r0 r)
  then show ?thesis using saveRole_ok [OF assms(2)] by simp
next
  case (added r)
  then show ?thesis using assms(2) by (auto simp: roles_ok_def)
next
  case (removed r0 r)
  then show ?thesis using saveRole_ok [OF assms(2), of r] by (force simp: image_iff)
next
  case (rights i ps)
  have "\<exists>x \<in> set (permissions db). pe_id x = j \<and> True" if "j \<in> set ps" for j
    by (rule all_found [where key = pe_id, OF _ _ that]) (use assms(2) rights(2) that in \<open>auto simp: roles_ok_def\<close>)
  then show ?thesis using assms(2) by (force simp: roles_ok_def rights(1))
next
  case (scopes ss)
  then show ?thesis using assms(2) by (simp add: roles_ok_def)
next
  case (assigned u rs)
  then show ?thesis using putUserRoles_ok [OF assms(2)] by simp
qed

section \<open>Sessions and reset tokens\<close>

text \<open>Rows are only added or changed in ways that keep what was spent spent.\<close>

definition tokens_kept :: "access_db \<Rightarrow> access_db \<Rightarrow> bool" where
  "tokens_kept db d \<longleftrightarrow>
     (\<forall>s \<in> set (sessions db). \<exists>x \<in> set (sessions d). se_hash x = se_hash s \<and> (se_revoked s \<noteq> None \<longrightarrow> se_revoked x \<noteq> None))
     \<and> (\<forall>t \<in> set (resetTokens db). \<exists>x \<in> set (resetTokens d). rt_hash x = rt_hash t \<and> (rt_used t \<noteq> None \<longrightarrow> rt_used x \<noteq> None))"

lemma tokens_kept_frame: "token_frame db d \<Longrightarrow> tokens_kept db d"
  by (auto simp: tokens_kept_def token_frame_def)

lemma tokens_kept_trans: "tokens_kept a b \<Longrightarrow> tokens_kept b c \<Longrightarrow> tokens_kept a c"
  unfolding tokens_kept_def by metis

lemma findSession_SomeD: "findSession h db = Some s \<Longrightarrow> s \<in> set (sessions db) \<and> se_hash s = h"
  by (auto simp: findSession_def dest: find_SomeD)

text \<open>Rows keep their identity, and a revoked row stays revoked.\<close>

definition session_kept :: "session \<Rightarrow> session \<Rightarrow> bool" where
  "session_kept x y \<longleftrightarrow> se_id y = se_id x \<and> se_hash y = se_hash x \<and> se_user y = se_user x
     \<and> (se_revoked x \<noteq> None \<longrightarrow> se_revoked y \<noteq> None)"

lemma sessions_map:
  assumes ok: "sessions_ok db"
    and d: "sessions d = map f (sessions db)" "accessIds d = accessIds db" "resetTokens d = resetTokens db"
    and kept: "\<And>x. x \<in> set (sessions db) \<Longrightarrow> session_kept x (f x)"
    and succ: "\<And>x i. x \<in> set (sessions db) \<Longrightarrow> se_replacedBy (f x) = Some i \<Longrightarrow>
      se_replacedBy x = Some i \<or> se_revoked (f x) \<noteq> None \<and> se_id x < i \<and> (\<exists>t \<in> set (sessions db). se_id t = i \<and> se_user t = se_user x)"
  shows "sessions_ok d \<and> tokens_kept db d"
proof -
  have ids: "map se_id (sessions d) = map se_id (sessions db)" "map se_hash (sessions d) = map se_hash (sessions db)"
    using kept by (auto simp: d(1) session_kept_def)
  have link: "se_revoked (f x) \<noteq> None \<and> se_id (f x) < i \<and> (\<exists>t \<in> set (sessions db). se_id (f t) = i \<and> se_user (f t) = se_user (f x))"
    if x: "x \<in> set (sessions db)" "se_replacedBy (f x) = Some i" for x i
  proof -
    have "se_revoked (f x) \<noteq> None \<and> se_id x < i \<and> (\<exists>t \<in> set (sessions db). se_id t = i \<and> se_user t = se_user x)"
      using succ [OF x] ok kept [OF x(1)] x(1) unfolding sessions_ok_def session_kept_def by metis
    then show ?thesis using kept x(1) unfolding session_kept_def by metis
  qed
  have "sessions_ok d"
    unfolding sessions_ok_def ids
    using ok link kept unfolding sessions_ok_def d session_kept_def by simp
  moreover have "tokens_kept db d" using kept by (auto simp: tokens_kept_def d session_kept_def)
  ultimately show ?thesis by simp
qed

lemma putSession_ok:
  assumes p: "putSession s db = Inr d" and ok: "sessions_ok db" and s: "se_id s = accessIds db" "se_replacedBy s = None"
  shows "sessions_ok d \<and> s \<in> set (sessions d) \<and> sessions d = sessions db @ [s]"
proof -
  from p have d: "d = db\<lparr>sessions := sessions db @ [s], accessIds := Suc (accessIds db)\<rparr>" "se_hash s \<notin> se_hash ` set (sessions db)"
    by (auto simp: putSession_def split: if_splits)
  have "se_id s \<notin> se_id ` set (sessions db)" using ok s(1) by (auto simp: sessions_ok_def)
  with ok d(2) s show ?thesis unfolding d(1) sessions_ok_def by (simp add: less_Suc_eq)
qed

lemma putSession_frames:
  "putSession s db = Inr d \<Longrightarrow> users d = users db \<and> role_frame db d \<and> tokens_kept db d \<and> resetTokens d = resetTokens db
     \<and> accessIds db \<le> accessIds d"
  by (auto simp: putSession_def role_frame_def tokens_kept_def split: if_splits)

lemma revokeSuccessor_ok:
  "sessions_ok db \<Longrightarrow> sessions_ok (revokeSuccessor s now db) \<and> tokens_kept db (revokeSuccessor s now db)"
proof (cases "se_replacedBy s")
  case (Some i)
  assume ok: "sessions_ok db"
  show ?thesis
    by (rule sessions_map [OF ok, where f = "\<lambda>x. if se_id x = i \<and> se_revoked x = None then x\<lparr>se_revoked := Some (toTimestamp now)\<rparr> else x"])
      (simp_all add: revokeSuccessor_def Some session_kept_def split: if_splits)
qed (auto simp: revokeSuccessor_def tokens_kept_def)

lemma revokeRefreshSession_ok:
  "sessions_ok db \<Longrightarrow> sessions_ok (revokeRefreshSession c raw now db) \<and> tokens_kept db (revokeRefreshSession c raw now db)"
  by (rule sessions_map [where f = "\<lambda>x. if se_hash x = cr_sha256 c raw \<and> se_revoked x = None
      then x\<lparr>se_revoked := Some (toTimestamp now)\<rparr> else x"])
    (simp_all add: revokeRefreshSession_def session_kept_def split: if_splits)

text \<open>What a rotation alone does: a new row for the user of the old one, which is revoked and points to it.\<close>

lemma rotateAt_Inr:
  assumes "rotateAt db c cfg old raw jti now db = Inr (iss, d)"
  obtains s u db1 where "findSession (cr_sha256 c old) db = Some s" "se_revoked s = None" "now \<le> se_expires s"
    "findUser (se_user s) db = Some u" "us_status u = UsActive"
    "putSession (newSession c cfg (accessIds db) (us_id u) raw now) db = Inr db1"
    "d = saveSession (s\<lparr>se_revoked := Some (toTimestamp now), se_replacedBy := Some (accessIds db)\<rparr>) db1"
  using assms by (auto simp: rotateAt_def Let_def split: option.splits if_splits)

lemma rotateAt_ok:
  assumes "rotateAt db c cfg old raw jti now db = Inr (iss, d)" "sessions_ok db"
  shows "sessions_ok d \<and> tokens_kept db d"
proof -
  obtain s u db1 where s: "findSession (cr_sha256 c old) db = Some s" "se_revoked s = None" "findUser (se_user s) db = Some u"
    and p: "putSession (newSession c cfg (accessIds db) (us_id u) raw now) db = Inr db1"
    and d: "d = saveSession (s\<lparr>se_revoked := Some (toTimestamp now), se_replacedBy := Some (accessIds db)\<rparr>) db1"
    using assms(1) by (elim rotateAt_Inr)
  let ?n = "newSession c cfg (accessIds db) (us_id u) raw now"
  have ok1: "sessions_ok db1" "?n \<in> set (sessions db1)" "sessions db1 = sessions db @ [?n]"
    using putSession_ok [OF p assms(2)] by (simp_all add: newSession_def)
  have u: "us_id u = se_user s" using findUser_SomeD [OF s(3)] by simp
  have mem: "s \<in> set (sessions db)" "s \<in> set (sessions db1)" using findSession_SomeD [OF s(1)] ok1(3) by auto
  have lt: "se_id s < accessIds db" using assms(2) mem(1) by (simp add: sessions_ok_def)
  have same: "x = s" if "x \<in> set (sessions db1)" "se_id x = se_id s" for x
    using ok1(1) mem(2) that by (auto simp: sessions_ok_def distinct_map dest: inj_onD)
  have new: "\<exists>t \<in> set (sessions db1). se_id t = accessIds db \<and> se_user t = se_user s"
    using ok1(2) u by (intro bexI [of _ ?n]) (simp_all add: newSession_def)
  have "sessions_ok d \<and> tokens_kept db1 d"
  proof (rule sessions_map [OF ok1(1), where f = "\<lambda>x. if se_id x = se_id s
      then s\<lparr>se_revoked := Some (toTimestamp now), se_replacedBy := Some (accessIds db)\<rparr> else x"])
    fix x i
    assume x: "x \<in> set (sessions db1)"
      "se_replacedBy (if se_id x = se_id s then s\<lparr>se_revoked := Some (toTimestamp now), se_replacedBy := Some (accessIds db)\<rparr> else x) = Some i"
    show "se_replacedBy x = Some i \<or> se_revoked (if se_id x = se_id s
        then s\<lparr>se_revoked := Some (toTimestamp now), se_replacedBy := Some (accessIds db)\<rparr> else x) \<noteq> None \<and> se_id x < i
        \<and> (\<exists>t \<in> set (sessions db1). se_id t = i \<and> se_user t = se_user x)"
    proof (cases "se_id x = se_id s")
      case True
      then show ?thesis using x new lt same [OF x(1)] by simp
    next
      case False
      then show ?thesis using x(2) by simp
    qed
  qed (use same in \<open>auto simp: d saveSession_def putRow_def session_kept_def\<close>)
  then show ?thesis using putSession_frames [OF p] tokens_kept_trans by blast
qed

section \<open>Authentication\<close>

definition user_core :: "user \<Rightarrow> id \<times> user_status \<times> bool" where
  "user_core u = (us_id u, us_status u, us_deleted u)"

text \<open>What authentication keeps: the roles, who the users are and whether they may log in, and the tokens.\<close>

definition auth_kept :: "access_db \<Rightarrow> access_db \<Rightarrow> bool" where
  "auth_kept db d \<longleftrightarrow> access_ok d \<and> map user_core (users d) = map user_core (users db) \<and> role_frame db d \<and> tokens_kept db d"

lemma auth_kept_refl: "access_ok db \<Longrightarrow> auth_kept db db"
  by (auto simp: auth_kept_def role_frame_def tokens_kept_def)

lemma role_frame_trans: "role_frame a b \<Longrightarrow> role_frame b c \<Longrightarrow> role_frame a c"
  unfolding role_frame_def by simp blast

lemma auth_kept_trans: "auth_kept a b \<Longrightarrow> auth_kept b c \<Longrightarrow> auth_kept a c"
  using role_frame_trans [of a b c] tokens_kept_trans [of a b c] by (simp add: auth_kept_def)

lemma putRow_core:
  assumes "distinct (map key rows)" "r \<in> set rows" "key x = key r" "f x = f r"
  shows "map f (putRow key x rows) = map f rows"
  unfolding putRow_def using assms by (auto simp: distinct_map dest: inj_onD)

lemma saveUser_kept:
  assumes "access_ok db" "u \<in> set (users db)" "user_core x = user_core u"
  shows "auth_kept db (saveUser x db)"
proof -
  have "access_ok (saveUser x db)"
    using assms(1) saveUser_ok role_frame_ok token_frame_ok saveUser_frames unfolding access_ok_def by blast
  moreover have "map user_core (users (saveUser x db)) = map user_core (users db)"
    using assms putRow_core [of us_id "users db" u x user_core] by (simp add: saveUser_def access_ok_def users_ok_def user_core_def)
  ultimately show ?thesis using saveUser_frames tokens_kept_frame unfolding auth_kept_def by blast
qed

lemma sessions_kept:
  assumes "access_ok db" "sessions_ok d \<and> tokens_kept db d" "users d = users db" "role_frame db d" "resetTokens d = resetTokens db"
  shows "auth_kept db d"
  using assms role_frame_ok [of db d] by (auto simp: auth_kept_def access_ok_def users_ok_def resets_ok_def role_frame_def dest: less_le_trans)

lemma putSession_kept:
  assumes "putSession s db = Inr d" "access_ok db" "se_id s = accessIds db" "se_replacedBy s = None"
  shows "auth_kept db d"
  using assms(2) by (rule sessions_kept)
    (use putSession_ok [OF assms(1)] putSession_frames [OF assms(1)] assms in \<open>auto simp: access_ok_def\<close>)

lemma login_kept:
  assumes "login c cfg email password raw jti now db = (x, d)" "access_ok db"
  shows "auth_kept db d"
proof -
  consider "d = db" | u where "findUserByEmail (normalizeEmail email) db = Some u" "d = saveUser (u\<lparr>us_lastLogin := Some (toTimestamp now)\<rparr>) db"
    | u db1 where "findUserByEmail (normalizeEmail email) db = Some u" "db1 = saveUser (u\<lparr>us_lastLogin := Some (toTimestamp now)\<rparr>) db"
      "putSession (newSession c cfg (accessIds db1) (us_id u) raw now) db1 = Inr d"
    using assms(1) by (auto simp: login_def Let_def split: option.splits if_splits sum.splits)
  then show ?thesis
  proof cases
    case (2 u)
    then show ?thesis using saveUser_kept [OF assms(2), of u] by (auto simp: findUserByEmail_def user_core_def dest: find_SomeD)
  next
    case (3 u db1)
    then have "auth_kept db db1"
      using saveUser_kept [OF assms(2), of u] by (auto simp: findUserByEmail_def user_core_def dest: find_SomeD)
    moreover have "auth_kept db1 d"
      using putSession_kept [OF 3(3)] \<open>auth_kept db db1\<close> by (simp add: newSession_def auth_kept_def)
    ultimately show ?thesis by (rule auth_kept_trans)
  qed (simp add: auth_kept_refl assms(2))
qed

lemma rotateAt_kept:
  assumes "rotateAt db c cfg old raw jti now db = Inr (iss, d)" "access_ok db"
  shows "auth_kept db d"
  using assms(2)
proof (rule sessions_kept)
  show "sessions_ok d \<and> tokens_kept db d" using rotateAt_ok [OF assms(1)] assms(2) by (simp add: access_ok_def)
  from assms(1) obtain s db1 x where p: "putSession x db = Inr db1" "d = saveSession s db1" by (elim rotateAt_Inr)
  then show "users d = users db" "role_frame db d" "resetTokens d = resetTokens db"
    using putSession_frames [OF p(1)] by (simp_all add: saveSession_def role_frame_def)
qed

lemma refresh_kept:
  assumes "refresh c cfg old raw jti now db = (x, d)" "access_ok db"
  shows "auth_kept db d"
proof -
  consider "d = db" | s where "d = revokeSuccessor s now db" | iss where "rotateAt db c cfg old raw jti now db = Inr (iss, d)"
    using assms(1) by (auto simp: refresh_def split: option.splits if_splits sum.splits prod.splits)
  then show ?thesis
  proof cases
    case (2 s)
    have "users d = users db \<and> role_frame db d \<and> resetTokens d = resetTokens db"
      by (simp add: 2 revokeSuccessor_def role_frame_def split: option.splits)
    then show ?thesis using sessions_kept [OF assms(2)] revokeSuccessor_ok [of db s now] assms(2) 2 by (simp add: access_ok_def)
  next
    case (3 iss)
    then show ?thesis by (rule rotateAt_kept [OF _ assms(2)])
  qed (simp add: auth_kept_refl assms(2))
qed

lemma logout_kept: "access_ok db \<Longrightarrow> auth_kept db (revokeRefreshSession c old now db)"
  by (rule sessions_kept) (use revokeRefreshSession_ok in \<open>auto simp: access_ok_def revokeRefreshSession_def role_frame_def\<close>)

lemma withPassword_core [simp]: "user_core (withPassword c p now u) = user_core u"
  by (simp add: user_core_def withPassword_def)

lemma forgot_kept:
  assumes "forgotPassword c cfg email raw now db = Inr d" "access_ok db"
  shows "auth_kept db d"
proof -
  consider "d = db" | t where "d = db\<lparr>resetTokens := resetTokens db @ [t], accessIds := Suc (accessIds db)\<rparr>"
      "rt_id t = accessIds db" "rt_hash t \<notin> rt_hash ` set (resetTokens db)"
    using assms(1) by (force simp: forgotPassword_def split: option.splits if_splits)
  then show ?thesis
  proof cases
    case (2 t)
    have ok: "resets_ok d" using assms(2) 2 by (auto simp: access_ok_def resets_ok_def less_Suc_eq)
    have "role_frame db d" "users_ok d" "sessions_ok d" "tokens_kept db d"
      using assms(2) by (auto simp: 2(1) role_frame_def access_ok_def users_ok_def sessions_ok_def tokens_kept_def less_Suc_eq)
    then show ?thesis using ok assms(2) role_frame_ok by (auto simp: auth_kept_def access_ok_def 2(1))
  qed (simp add: auth_kept_refl assms(2))
qed

lemma savePassword_kept:
  assumes "access_ok db" "findUser i db = Some u"
  shows "auth_kept db (saveUser (withPassword c new now u) db)"
  using assms(1)
proof (rule saveUser_kept)
  show "u \<in> set (users db)" using findUser_SomeD [OF assms(2)] by simp
qed simp

lemma change_kept:
  assumes "changePassword c i old new now db = Inr d" "access_ok db"
  shows "auth_kept db d"
proof -
  obtain u where "findUser i db = Some u" "d = saveUser (withPassword c new now u) db"
    using assms(1) by (auto simp: changePassword_def findActiveUserOrThrow_def split: option.splits if_splits)
  then show ?thesis using savePassword_kept [OF assms(2)] by simp
qed

text \<open>A reset that succeeds: an unused token that has not expired, and its user.\<close>

lemma resetPassword_Inr:
  assumes "resetPassword c raw new now db = Inr d"
  obtains t u where "findResetToken (cr_sha256 c raw) db = Some t" "rt_used t = None" "now \<le> rt_expires t"
    "findUser (rt_user t) db = Some u" "validatePolicy new"
    "d = (saveUser (withPassword c new now u) db)\<lparr>resetTokens := putRow rt_id (t\<lparr>rt_used := Some (toTimestamp now)\<rparr>) (resetTokens db)\<rparr>"
proof -
  have k: "resetTokens (saveUser x db) = resetTokens db" for x by (simp add: saveUser_def)
  show ?thesis using that assms by (auto simp: resetPassword_def Let_def k split: option.splits if_splits)
qed

lemma spend_kept:
  assumes "access_ok db" "t \<in> set (resetTokens db)" "rt_id x = rt_id t" "rt_hash x = rt_hash t" "rt_used x \<noteq> None"
  shows "auth_kept db (db\<lparr>resetTokens := putRow rt_id x (resetTokens db)\<rparr>)"
proof -
  let ?d = "db\<lparr>resetTokens := putRow rt_id x (resetTokens db)\<rparr>"
  have dist: "distinct (map rt_id (resetTokens db))" using assms(1) by (simp add: access_ok_def resets_ok_def)
  have "map rt_hash (putRow rt_id x (resetTokens db)) = map rt_hash (resetTokens db)"
    using putRow_core [OF dist assms(2) assms(3), of rt_hash] assms(4) by simp
  then have "resets_ok ?d" using assms(1) dist by (simp add: access_ok_def resets_ok_def)
  moreover have "role_frame db ?d" "users_ok ?d" "sessions_ok ?d"
    using assms(1) by (auto simp: role_frame_def access_ok_def users_ok_def sessions_ok_def)
  moreover have "tokens_kept db ?d"
  proof -
    have "\<exists>y \<in> set (putRow rt_id x (resetTokens db)). rt_hash y = rt_hash s \<and> (rt_used s \<noteq> None \<longrightarrow> rt_used y \<noteq> None)"
      if s: "s \<in> set (resetTokens db)" for s
    proof (cases "rt_id s = rt_id x")
      case True
      then have "s = t" using dist s assms(2,3) by (metis distinct_map inj_onD)
      moreover have "x \<in> set (putRow rt_id x (resetTokens db))" using assms(2,3) unfolding putRow_set by fastforce
      ultimately show ?thesis using assms(4,5) by metis
    next
      case False
      then have "s \<in> set (putRow rt_id x (resetTokens db))" using s by (simp add: putRow_set)
      then show ?thesis by blast
    qed
    then show ?thesis by (auto simp: tokens_kept_def)
  qed
  ultimately show ?thesis using assms(1) role_frame_ok [of db ?d] by (simp add: auth_kept_def access_ok_def)
qed

lemma reset_kept:
  assumes "resetPassword c raw new now db = Inr d" "access_ok db"
  shows "auth_kept db d"
proof -
  from assms(1) obtain t u where t: "findResetToken (cr_sha256 c raw) db = Some t" and u: "findUser (rt_user t) db = Some u"
    and d: "d = (saveUser (withPassword c new now u) db)\<lparr>resetTokens := putRow rt_id (t\<lparr>rt_used := Some (toTimestamp now)\<rparr>) (resetTokens db)\<rparr>"
    by (elim resetPassword_Inr)
  let ?b = "saveUser (withPassword c new now u) db"
  have k: "auth_kept db ?b" using savePassword_kept [OF assms(2) u] .
  have b: "access_ok ?b" "resetTokens ?b = resetTokens db" using k by (simp_all add: auth_kept_def saveUser_def)
  have m: "t \<in> set (resetTokens ?b)" using t b(2) by (auto simp: findResetToken_def dest: find_SomeD)
  have "auth_kept ?b d" using spend_kept [OF b(1) m, of "t\<lparr>rt_used := Some (toTimestamp now)\<rparr>"] by (simp add: d b(2))
  with k show ?thesis by (rule auth_kept_trans)
qed

lemma bot_kept:
  assumes "botSession c cfg email password cache attempts jti now db = Inr (z, d)" "access_ok db"
  shows "auth_kept db d"
proof -
  consider "d = db" | u where "findUserByEmail (normalizeEmail email) db = Some u" "d = saveUser (u\<lparr>us_lastLogin := Some (toTimestamp now)\<rparr>) db"
    using assms(1) by (auto simp: botSession_def Let_def split: option.splits if_splits)
  then show ?thesis
  proof cases
    case (2 u)
    then show ?thesis using saveUser_kept [OF assms(2), of u] by (auto simp: findUserByEmail_def user_core_def dest: find_SomeD)
  qed (simp add: auth_kept_refl assms(2))
qed

lemma auth_step_kept: "auth_step c cfg db d \<Longrightarrow> access_ok db \<Longrightarrow> auth_kept db d"
  by (erule auth_step.cases)
    (auto intro: login_kept refresh_kept logout_kept change_kept forgot_kept reset_kept bot_kept)

section \<open>Every step\<close>

lemma role_step_access: "role_step db d \<Longrightarrow> access_ok db \<Longrightarrow> access_ok d"
  using role_step_frame [of db d] role_step_ok [of db d] token_frame_ok [of db d]
  by (auto simp: access_ok_def users_ok_def dest: less_le_trans)

lemma user_step_frame: "user_step db d \<or> suspend_step db d \<Longrightarrow> token_frame db d"
  by (auto simp: user_op_defs changeUser_Inr createUser_def Let_def token_frame_def saveUser_def
      elim!: user_step.cases suspend_step.cases split: if_splits)

lemma access_step_ok: "access_step org c cfg db d \<Longrightarrow> access_ok db \<Longrightarrow> access_ok d"
  unfolding access_step_def safe_step_def
  using role_step_access user_step_ok member_step_ok auth_step_kept auth_kept_def by blast

lemma access_step_tokens: "access_step org c cfg db d \<Longrightarrow> access_ok db \<Longrightarrow> tokens_kept db d"
  unfolding access_step_def safe_step_def
  using role_step_frame user_step_frame member_step_frames auth_step_kept auth_kept_def tokens_kept_frame by blast

lemma access_steps_ok: "(access_step org c cfg)\<^sup>*\<^sup>* db d \<Longrightarrow> access_ok db \<Longrightarrow> access_ok d"
  by (induction rule: rtranclp_induct) (auto intro: access_step_ok)

section \<open>Tokens that are used once\<close>

text \<open>A table of hashed tokens: \<open>spent\<close> rows are refused, and no step makes them fresh again.\<close>

locale one_time_tokens =
  fixes ok :: "'s \<Rightarrow> bool" and step :: "'s \<Rightarrow> 's \<Rightarrow> bool" and rows :: "'s \<Rightarrow> 'r list"
    and hash :: "'r \<Rightarrow> string" and spent :: "'r \<Rightarrow> bool"
  assumes ok_step: "step s t \<Longrightarrow> ok s \<Longrightarrow> ok t"
    and unique: "ok s \<Longrightarrow> distinct (map hash (rows s))"
    and kept: "step s t \<Longrightarrow> ok s \<Longrightarrow> r \<in> set (rows s) \<Longrightarrow> \<exists>x \<in> set (rows t). hash x = hash r \<and> (spent r \<longrightarrow> spent x)"
begin

lemma kept_forever:
  assumes "step\<^sup>*\<^sup>* s t" "ok s" "r \<in> set (rows s)"
  shows "ok t \<and> (\<exists>x \<in> set (rows t). hash x = hash r \<and> (spent r \<longrightarrow> spent x))"
  using assms(1)
proof (induction rule: rtranclp_induct)
  case (step t u)
  then obtain x where "x \<in> set (rows t)" "hash x = hash r" "spent r \<longrightarrow> spent x" by blast
  with kept [of t u x] step ok_step [of t u] show ?case by metis
qed (use assms in auto)

lemma spent_forever:
  assumes "step\<^sup>*\<^sup>* s t" "ok s" "r \<in> set (rows s)" "spent r"
  shows "\<exists>x. List.find (\<lambda>y. hash y = hash r) (rows t) = Some x \<and> spent x"
proof -
  from kept_forever [OF assms(1-3)] assms(4) obtain x where x: "ok t" "x \<in> set (rows t)" "hash x = hash r" "spent x" by blast
  show ?thesis using find_unique [OF unique [OF x(1)] x(2)] x by auto
qed

end

interpretation refresh_tokens: one_time_tokens access_ok "access_step org c cfg" sessions se_hash "\<lambda>s. se_revoked s \<noteq> None"
  for org c cfg
proof unfold_locales
  show "access_ok s \<Longrightarrow> distinct (map se_hash (sessions s))" for s by (simp add: access_ok_def sessions_ok_def)
qed (use access_step_ok access_step_tokens in \<open>auto simp: tokens_kept_def\<close>)

interpretation password_resets: one_time_tokens access_ok "access_step org c cfg" resetTokens rt_hash "\<lambda>t. rt_used t \<noteq> None"
  for org c cfg
proof unfold_locales
  show "access_ok s \<Longrightarrow> distinct (map rt_hash (resetTokens s))" for s by (simp add: access_ok_def resets_ok_def)
qed (use access_step_ok access_step_tokens in \<open>auto simp: tokens_kept_def\<close>)

end
