(* ===== verification/Access_Theorems.thy ===== *)
theory Access_Theorems
  imports Access_Steps
begin

text \<open>
  What identity and access promise: there is always an active super admin, as far as roles and authentication are
  concerned; the guard of a route lets through exactly those whose active roles hold the permission; a request only
  reaches a company that the broadest scope of the user covers; refresh and reset tokens work once, a chain of rotated sessions
  has one live end, and a change of password ends the older access tokens. Small runs show where the code falls short.
\<close>

section \<open>The last super admin\<close>

definition adminRole :: "access_db \<Rightarrow> id \<Rightarrow> bool" where
  "adminRole db i \<longleftrightarrow> (\<exists>r \<in> set (roles db). rl_id r = i \<and> rl_code r = SUPER_ADMIN \<and> rl_status r = Active \<and> \<not> rl_deleted r)"

definition activeUser :: "access_db \<Rightarrow> id \<Rightarrow> bool" where
  "activeUser db i \<longleftrightarrow> (\<exists>u \<in> set (users db). us_id u = i \<and> us_status u = UsActive \<and> \<not> us_deleted u)"

lemma admins_remain_iff:
  "assertAtLeastOneActiveSuperAdminRemains db = Inr () \<longleftrightarrow> (\<exists>ur \<in> set (userRoles db). adminRole db (snd ur) \<and> activeUser db (fst ur))"
  by (auto simp: assertAtLeastOneActiveSuperAdminRemains_def countActiveSuperAdmins_def filter_empty_conv activeSuperAdmin_def
      adminRole_def activeUser_def list_ex_iff)

lemma admins_remain_mono:
  assumes "assertAtLeastOneActiveSuperAdminRemains db = Inr ()" "set (userRoles db) \<subseteq> set (userRoles d)"
    "\<And>ur. ur \<in> set (userRoles db) \<Longrightarrow> adminRole db (snd ur) \<Longrightarrow> adminRole d (snd ur)" "\<And>i. activeUser db i \<Longrightarrow> activeUser d i"
  shows "assertAtLeastOneActiveSuperAdminRemains d = Inr ()"
  using assms unfolding admins_remain_iff by blast

lemma putRow_other: "x \<in> set rows \<Longrightarrow> key x \<noteq> key r \<Longrightarrow> x \<in> set (putRow key r rows)"
  by (simp add: putRow_set)

lemma putRow_self: "x \<in> set rows \<Longrightarrow> key x = key r \<Longrightarrow> r \<in> set (putRow key r rows)"
  unfolding putRow_set by blast

lemma adminRole_saved:
  assumes dist: "distinct (map rl_id (roles db))" and r0: "findRole (rl_id r) db = Some r0"
    and same: "rl_code r = rl_code r0" "\<not> rl_deleted r" "rl_status r0 = Active \<longrightarrow> rl_status r = Active" and i: "adminRole db i"
  shows "adminRole (saveRole r db) i"
proof -
  from i obtain x where x: "x \<in> set (roles db)" "rl_id x = i" "rl_code x = SUPER_ADMIN" "rl_status x = Active" "\<not> rl_deleted x"
    by (auto simp: adminRole_def)
  show ?thesis
  proof (cases "rl_id x = rl_id r")
    case True
    have "r0 \<in> set (roles db)" "rl_id r0 = rl_id r" using findRole_SomeD [OF r0] by simp_all
    then have "x = r0" using dist x(1) True by (metis distinct_map inj_onD)
    then show ?thesis using putRow_self [OF x(1) True] x same True unfolding adminRole_def saveRole_def by auto
  next
    case False
    then show ?thesis using putRow_other [OF x(1) False] x unfolding adminRole_def saveRole_def by auto
  qed
qed

lemma role_step_admin:
  assumes "role_step db d" "access_ok db" "assertAtLeastOneActiveSuperAdminRemains db = Inr ()"
  shows "assertAtLeastOneActiveSuperAdminRemains d = Inr ()"
  using assms(1)
proof (cases rule: role_step_cases)
  case (saved r0 r)
  have dist: "distinct (map rl_id (roles db))" using assms(2) by (simp add: access_ok_def roles_ok_def)
  show ?thesis
  proof (cases "rl_status r0 = Active \<longrightarrow> rl_status r = Active")
    case True
    show ?thesis
      by (rule admins_remain_mono [OF assms(3)])
        (use adminRole_saved [OF dist saved(1,3,4) True] saved(2) in \<open>auto simp: saveRole_def activeUser_def\<close>)
  qed (use saved(5) in blast)
next
  case (added r)
  show ?thesis by (rule admins_remain_mono [OF assms(3)]) (auto simp: added(1) adminRole_def activeUser_def)
next
  case (removed r0 r)
  have "adminRole d (snd ur)" if "ur \<in> set (userRoles db)" "adminRole db (snd ur)" for ur
  proof -
    from that(2) obtain x where x: "x \<in> set (roles db)" "rl_id x = snd ur" "rl_code x = SUPER_ADMIN" "rl_status x = Active" "\<not> rl_deleted x"
      by (auto simp: adminRole_def)
    have "rl_id x \<noteq> rl_id r" using removed(3) that(1) x(2) by (metis image_eqI)
    from putRow_other [OF x(1) this] x show ?thesis unfolding removed(2) adminRole_def saveRole_def by auto
  qed
  then show ?thesis by (rule admins_remain_mono [OF assms(3), rotated]) (auto simp: removed(2) saveRole_def activeUser_def)
next
  case (rights i ps)
  show ?thesis by (rule admins_remain_mono [OF assms(3)]) (auto simp: rights(1) adminRole_def activeUser_def)
next
  case (scopes ss)
  show ?thesis by (rule admins_remain_mono [OF assms(3)]) (auto simp: scopes adminRole_def activeUser_def)
next
  case (assigned u rs)
  then show ?thesis by simp
qed

lemma changeUser_active:
  assumes "changeUser f j al db = Inr (v, d)" "users_ok db" "\<And>u. us_id (f u) = us_id u \<and> us_deleted (f u) = us_deleted u"
    "\<And>u. us_status u = UsActive \<Longrightarrow> us_status (f u) = UsActive" "activeUser db i"
  shows "activeUser d i"
proof -
  from assms(1) obtain u0 where u0: "findUser j db = Some u0" and d: "d = saveUser (f u0) db" by (auto simp: changeUser_Inr)
  from assms(5) obtain x where x: "x \<in> set (users db)" "us_id x = i" "us_status x = UsActive" "\<not> us_deleted x" by (auto simp: activeUser_def)
  show ?thesis
  proof (cases "us_id x = us_id (f u0)")
    case True
    have "x = u0" using True assms(2,3) x(1) findUser_SomeD [OF u0] by (metis distinct_map inj_onD users_ok_def)
    then show ?thesis using putRow_self [OF x(1) True] x assms(3) [of u0] assms(4) [of u0] unfolding d activeUser_def saveUser_def by auto
  next
    case False
    then show ?thesis using putRow_other [OF x(1) False] x unfolding d activeUser_def saveUser_def by auto
  qed
qed

lemma user_step_active:
  assumes "user_step db d" "users_ok db" "activeUser db i"
  shows "activeUser d i"
  using assms(1)
proof cases
  case (create_user hash ud u)
  then show ?thesis using assms(3) by (auto simp: createUser_def Let_def activeUser_def split: if_splits)
next
  case (update_user uu j al u)
  then show ?thesis using changeUser_active [OF _ assms(2) _ _ assms(3)] unfolding user_op_defs by force
next
  case (activate_user j al u)
  then show ?thesis using changeUser_active [OF _ assms(2) _ _ assms(3)] unfolding user_op_defs by force
next
  case (unlock_user j al u)
  then show ?thesis using changeUser_active [OF _ assms(2) _ _ assms(3)] unfolding user_op_defs by force
qed

lemma activeUser_core: "map user_core (users d) = map user_core (users db) \<Longrightarrow> activeUser d i \<longleftrightarrow> activeUser db i"
proof -
  assume same: "map user_core (users d) = map user_core (users db)"
  have "activeUser x i \<longleftrightarrow> (i, UsActive, False) \<in> set (map user_core (users x))" for x
    by (auto simp: activeUser_def user_core_def)
  with same show ?thesis by metis
qed

lemma safe_step_admin:
  assumes "safe_step org c cfg db d" "access_ok db" "assertAtLeastOneActiveSuperAdminRemains db = Inr ()"
  shows "assertAtLeastOneActiveSuperAdminRemains d = Inr ()"
proof -
  have users: "users_ok db" using assms(2) by (simp add: access_ok_def)
  consider "role_step db d" | "user_step db d" | "member_step org db d" | "auth_step c cfg db d" using assms(1) by (auto simp: safe_step_def)
  then show ?thesis
  proof cases
    case 1
    then show ?thesis by (rule role_step_admin [OF _ assms(2,3)])
  next
    case 2
    then have "roles d = roles db \<and> userRoles d = userRoles db"
      by (auto simp: user_op_defs changeUser_Inr saveUser_def createUser_def Let_def elim!: user_step.cases split: if_splits)
    then show ?thesis using user_step_active [OF 2 users] by (intro admins_remain_mono [OF assms(3)]) (auto simp: adminRole_def)
  next
    case 3
    from member_step_frames [OF 3] show ?thesis
      by (intro admins_remain_mono [OF assms(3)]) (auto simp: adminRole_def activeUser_def role_frame_def)
  next
    case 4
    from auth_step_kept [OF 4 assms(2)] show ?thesis
      by (intro admins_remain_mono [OF assms(3)]) (auto simp: adminRole_def auth_kept_def role_frame_def dest: activeUser_core)
  qed
qed

section \<open>A small system\<close>

text \<open>The seed with two administrators, a clerk without roles, and libraries that compute.\<close>

definition demo_user :: "id \<Rightarrow> string \<Rightarrow> user" where
  "demo_user i email = \<lparr>us_id = i, us_email = email, us_hash = ''#long-enough-1'', us_firstName = ''A'', us_lastName = ''B'',
     us_displayName = ''A B'', us_status = UsActive, us_emailVerified = True, us_lastLogin = None, us_passwordChanged = None,
     us_deleted = False\<rparr>"

definition access_seed :: access_db where
  "access_seed = \<lparr>users = [demo_user 0 ''ada@x'', demo_user 1 ''bob@x'', demo_user 2 ''cy@x''],
     userCompanies = [\<lparr>mb_user = 2, mb_of = 7, mb_status = Active, mb_primary = False, mb_deleted = False\<rparr>],
     userBranches = [], userWarehouses = [],
     roles = [\<lparr>rl_id = 3, rl_name = ''Super Admin'', rl_code = ''SUPER_ADMIN'', rl_description = None, rl_status = Active,
         rl_system = True, rl_deleted = False\<rparr>,
       \<lparr>rl_id = 4, rl_name = ''Clerk'', rl_code = ''CLERK'', rl_description = None, rl_status = Active,
         rl_system = False, rl_deleted = False\<rparr>],
     permissions = [\<lparr>pe_id = 5, pe_resource = ''roles'', pe_action = ''read'', pe_code = ''roles.read''\<rparr>,
       \<lparr>pe_id = 6, pe_resource = ''sales'', pe_action = ''read'', pe_code = ''sales.read''\<rparr>],
     rolePermissions = [(3, 5), (3, 6), (4, 6)],
     roleScopes = [\<lparr>rs_role = 3, rs_resource = ''sales'', rs_scope = ScAll, rs_value = None\<rparr>,
       \<lparr>rs_role = 4, rs_resource = ''sales'', rs_scope = ScCompany, rs_value = None\<rparr>],
     userRoles = [(0, 3), (1, 3), (2, 4)], sessions = [], resetTokens = [], accessIds = 10\<rparr>"

definition demo_crypto :: crypto where
  "demo_crypto = \<lparr>cr_hash = (\<lambda>p. CHR ''#'' # p), cr_verify = (\<lambda>p h. h = CHR ''#'' # p), cr_sha256 = (\<lambda>t. CHR ''h'' # t),
     cr_sign = (\<lambda>cl ttl now. ''token''),
     cr_verifyToken = (\<lambda>t now. if t = ''token''
       then Some \<lparr>jw_sub = 0, jw_jti = 1, jw_iatMs = Some 5000, jw_iat = 5, jw_exp = 905\<rparr> else None)\<rparr>"

definition demo_config :: auth_config where
  "demo_config = \<lparr>ac_accessSeconds = 900, ac_refreshDays = 30, ac_resetMinutes = 30, ac_maxAttempts = 10, ac_botEmails = [''bob@x'']\<rparr>"

text \<open>Companies 7 and 8 with a branch each; the warehouse 30 belongs to the first.\<close>

definition demo_org :: org_db where
  "demo_org = \<lparr>companies = [7 \<mapsto> Active, 8 \<mapsto> Active], branches = [20 \<mapsto> \<lparr>br_company = 7, br_status = Active\<rparr>, 21 \<mapsto> \<lparr>br_company = 8, br_status = Active\<rparr>],
     warehouses = [30 \<mapsto> \<lparr>wh_company = 7, wh_branch = 20, wh_status = Active\<rparr>], warehouseIds = [30], customers = Map.empty,
     suppliers = Map.empty, paymentMethods = Map.empty, paymentTerms = Map.empty\<rparr>"

lemma access_seed_ok: "access_ok access_seed"
  by (simp add: access_ok_def users_ok_def roles_ok_def sessions_ok_def resets_ok_def access_seed_def demo_user_def)

section \<open>Properties\<close>

text \<open>C5: From tables with an active super admin, no sequence of operations on roles, permissions, scopes and role
  assignments, no creation, change or activation of users, no membership, and no authentication leads to tables without one.\<close>

theorem super_admin_remains:
  assumes "access_ok db" "0 < countActiveSuperAdmins db" "(safe_step org c cfg)\<^sup>*\<^sup>* db d"
  shows "0 < countActiveSuperAdmins d"
proof -
  have count: "assertAtLeastOneActiveSuperAdminRemains x = Inr () \<longleftrightarrow> 0 < countActiveSuperAdmins x" for x
    by (simp add: assertAtLeastOneActiveSuperAdminRemains_def)
  from assms(3) have "access_ok d \<and> assertAtLeastOneActiveSuperAdminRemains d = Inr ()"
  proof (induction rule: rtranclp_induct)
    case (step x y)
    then show ?case using safe_step_admin [of org c cfg x y] access_step_ok [of org c cfg x y] by (simp add: access_step_def)
  qed (use assms in \<open>simp add: count\<close>)
  then show ?thesis by (simp add: count)
qed

lemma super_admin_remains_witness:
  "0 < countActiveSuperAdmins (snd (the (case replaceForUser 1 [4] access_seed of Inr r \<Rightarrow> Some r | _ \<Rightarrow> None)))"
proof (rule super_admin_remains [OF access_seed_ok, where org = demo_org and c = demo_crypto and cfg = demo_config])
  show "0 < countActiveSuperAdmins access_seed"
    by (simp add: countActiveSuperAdmins_def activeSuperAdmin_def access_seed_def demo_user_def SUPER_ADMIN_def)
  obtain r where "replaceForUser 1 [4] access_seed = Inr r"
    by (simp add: replaceForUser_def findUser_def access_seed_def demo_user_def putUserRoles_def Let_def SUPER_ADMIN_def
        assertAtLeastOneActiveSuperAdminRemains_def countActiveSuperAdmins_def activeSuperAdmin_def)
  then show "(safe_step demo_org demo_crypto demo_config)\<^sup>*\<^sup>* access_seed
      (snd (the (case replaceForUser 1 [4] access_seed of Inr r \<Rightarrow> Some r | _ \<Rightarrow> None)))"
    by (cases r) (auto intro!: r_into_rtranclp role_step.intros simp: safe_step_def)
qed

text \<open>The three operations that take a user out of service do not look: the only administrator can be locked out.\<close>

theorem last_admin_can_be_locked:
  "\<exists>db u d. access_ok db \<and> 0 < countActiveSuperAdmins db \<and> lockUser 0 None db = Inr (u, d) \<and> countActiveSuperAdmins d = 0"
proof -
  let ?db = "access_seed\<lparr>userRoles := [(0, 3)]\<rparr>"
  let ?u = "(demo_user 0 ''ada@x'')\<lparr>us_status := UsLocked\<rparr>"
  have "access_ok ?db"
    by (simp add: access_ok_def users_ok_def roles_ok_def sessions_ok_def resets_ok_def access_seed_def demo_user_def)
  moreover have "0 < countActiveSuperAdmins ?db"
    by (simp add: countActiveSuperAdmins_def activeSuperAdmin_def access_seed_def demo_user_def SUPER_ADMIN_def)
  moreover have "lockUser 0 None ?db = Inr (?u, saveUser ?u ?db)"
    by (simp add: lockUser_def changeUser_def getUser_def findUser_def isVisible_def access_seed_def demo_user_def)
  moreover have "countActiveSuperAdmins (saveUser ?u ?db) = 0"
    by (simp add: countActiveSuperAdmins_def activeSuperAdmin_def saveUser_def putRow_def access_seed_def demo_user_def SUPER_ADMIN_def)
  ultimately show ?thesis by blast
qed

text \<open>Two removals that run side by side each count the administrator that the other removes.\<close>

theorem parallel_removals_leave_no_admin:
  "\<exists>db d e. access_ok db \<and> replaceForUserAt db 0 [] db = Inr d \<and> replaceForUserAt db 1 [] d = Inr e \<and> countActiveSuperAdmins e = 0"
proof -
  note eval = replaceForUserAt_def replaceForUser_def findUser_def putUserRoles_def Let_def SUPER_ADMIN_def access_seed_def
    demo_user_def assertAtLeastOneActiveSuperAdminRemains_def countActiveSuperAdmins_def activeSuperAdmin_def
  let ?d = "putUserRoles 0 [] access_seed" and ?e = "putUserRoles 1 [] (putUserRoles 0 [] access_seed)"
  have "replaceForUserAt access_seed 0 [] access_seed = Inr ?d" by (simp add: eval)
  moreover have "replaceForUserAt access_seed 1 [] ?d = Inr ?e" by (simp add: eval)
  moreover have "countActiveSuperAdmins ?e = 0" by (simp add: eval)
  ultimately show ?thesis using access_seed_ok by blast
qed

section \<open>Permissions\<close>

text \<open>What it means that a user holds a permission: some role of the user that is active and not deleted has it.\<close>

definition holdsRole :: "access_db \<Rightarrow> id \<Rightarrow> id \<Rightarrow> bool" where
  "holdsRole db u i \<longleftrightarrow> (u, i) \<in> set (userRoles db) \<and> (\<exists>r \<in> set (roles db). rl_id r = i \<and> rl_status r = Active \<and> \<not> rl_deleted r)"

definition grants :: "access_db \<Rightarrow> id \<Rightarrow> string \<Rightarrow> bool" where
  "grants db u code \<longleftrightarrow> (\<exists>i p. holdsRole db u i \<and> p \<in> set (permissions db) \<and> (i, pe_id p) \<in> set (rolePermissions db) \<and> pe_code p = code)"

lemma findRole_iff:
  assumes "distinct (map rl_id (roles db))"
  shows "findRole i db = Some r \<longleftrightarrow> r \<in> set (roles db) \<and> rl_id r = i \<and> \<not> rl_deleted r"
proof
  assume r: "r \<in> set (roles db) \<and> rl_id r = i \<and> \<not> rl_deleted r"
  then show "findRole i db = Some r"
    unfolding findRole_def using assms by (intro find_only) (simp_all, metis distinct_map inj_onD)
qed (rule findRole_SomeD)

lemma activeRolesOf_iff:
  assumes "distinct (map rl_id (roles db))"
  shows "r \<in> set (activeRolesOf u db) \<longleftrightarrow> (u, rl_id r) \<in> set (userRoles db) \<and> r \<in> set (roles db) \<and> rl_status r = Active \<and> \<not> rl_deleted r"
proof -
  have "r \<in> set (activeRolesOf u db) \<longleftrightarrow> (\<exists>ur \<in> set (userRoles db). fst ur = u \<and> findRole (snd ur) db = Some r \<and> rl_status r = Active)"
    unfolding activeRolesOf_def
    by (auto simp: Bex_def split: option.splits if_splits)
  then show ?thesis unfolding findRole_iff [OF assms] by force
qed

lemma holdsRole_active:
  assumes "distinct (map rl_id (roles db))"
  shows "holdsRole db u i \<longleftrightarrow> (\<exists>r \<in> set (activeRolesOf u db). rl_id r = i)"
  unfolding holdsRole_def using activeRolesOf_iff [OF assms] by blast

text \<open>Over lists of permissions that are there, the loop collects their codes.\<close>

lemma collect_codes:
  assumes "\<forall>p \<in> set ps. p \<noteq> None"
  shows "\<exists>ys. forEach (\<lambda>p codes. case p of None \<Rightarrow> Inl e | Some q \<Rightarrow> Inr (setAdd (pe_code q) codes)) ps xs = Inr ys
    \<and> set ys = set xs \<union> pe_code ` the ` set ps"
  using assms
proof (induction ps arbitrary: xs)
  case (Cons p ps)
  then obtain q where q: "p = Some q" by auto
  from Cons.IH [of "setAdd (pe_code q) xs"] Cons.prems obtain ys where
    "forEach (\<lambda>p codes. case p of None \<Rightarrow> Inl e | Some q \<Rightarrow> Inr (setAdd (pe_code q) codes)) ps (setAdd (pe_code q) xs) = Inr ys"
    "set ys = set (setAdd (pe_code q) xs) \<union> pe_code ` the ` set ps" by auto
  then show ?case by (auto simp: q setAdd_def)
qed simp

lemma collect_all_codes:
  assumes "\<forall>r \<in> set rs. \<forall>p \<in> set (f r). p \<noteq> None"
  shows "\<exists>ys. forEach (\<lambda>r. forEach (\<lambda>p codes. case p of None \<Rightarrow> Inl e | Some q \<Rightarrow> Inr (setAdd (pe_code q) codes)) (f r)) rs xs = Inr ys
    \<and> set ys = set xs \<union> (\<Union>r \<in> set rs. pe_code ` the ` set (f r))"
  using assms
proof (induction rs arbitrary: xs)
  case (Cons r rs)
  from collect_codes [of "f r" e xs] Cons.prems obtain ys where
    ys: "forEach (\<lambda>p codes. case p of None \<Rightarrow> Inl e | Some q \<Rightarrow> Inr (setAdd (pe_code q) codes)) (f r) xs = Inr ys"
    "set ys = set xs \<union> pe_code ` the ` set (f r)" by auto
  from Cons.IH [of ys] Cons.prems show ?case by (auto simp: ys)
qed simp

lemma effective_codes:
  assumes "roles_ok db"
  obtains codes where "getEffectivePermissionCodes u db = Inr codes" "\<And>c. c \<in> set codes \<longleftrightarrow> grants db u c"
proof -
  have dist: "distinct (map rl_id (roles db))" "distinct (map pe_id (permissions db))" using assms by (simp_all add: roles_ok_def)
  have found: "List.find (\<lambda>p. pe_id p = j) (permissions db) = Some p \<longleftrightarrow> p \<in> set (permissions db) \<and> pe_id p = j" for p j
    using find_unique [OF dist(2)] find_SomeD by fastforce
  have there: "\<forall>p \<in> set (permissionsOfRole db r). p \<noteq> None" for r
    using assms found by (fastforce simp: permissionsOfRole_def roles_ok_def find_None_iff)
  obtain codes where codes: "getEffectivePermissionCodes u db = Inr codes"
      "set codes = (\<Union>r \<in> set (activeRolesOf u db). pe_code ` the ` set (permissionsOfRole db r))"
    using collect_all_codes [of "activeRolesOf u db" "permissionsOfRole db" "DbError ''TypeError''" "[]"] there
    unfolding getEffectivePermissionCodes_def by auto
  have perms: "p \<in> the ` set (permissionsOfRole db r) \<longleftrightarrow> p \<in> set (permissions db) \<and> (rl_id r, pe_id p) \<in> set (rolePermissions db)" for p r
  proof -
    have "p \<in> the ` set (permissionsOfRole db r) \<longleftrightarrow> Some p \<in> set (permissionsOfRole db r)"
      using there [of r] by (force simp: image_iff)
    also have "\<dots> \<longleftrightarrow> (\<exists>rp \<in> set (rolePermissions db). fst rp = rl_id r \<and> List.find (\<lambda>q. pe_id q = snd rp) (permissions db) = Some p)"
      by (force simp: permissionsOfRole_def image_iff eq_commute [of "Some p"])
    finally show ?thesis unfolding found by force
  qed
  have "c \<in> set codes \<longleftrightarrow> grants db u c" for c
    unfolding codes(2) grants_def holdsRole_active [OF dist(1)] using perms by (auto simp: image_iff) metis+
  with codes(1) show ?thesis by (rule that)
qed

text \<open>C6: The guard of a route with a requirement lets a user through when the active roles of the user hold all (or, where the route
  asks for any, one) of the codes, and answers 403 otherwise, for a requirement without codes too.\<close>

theorem permission_guard_exact:
  assumes "roles_ok db"
  shows "permissionGuard (Some (codes, mode)) (Some u) db =
    (if codes \<noteq> [] \<and> (case mode of ReqAny \<Rightarrow> \<exists>c \<in> set codes. grants db u c | ReqAll \<Rightarrow> \<forall>c \<in> set codes. grants db u c)
     then Inr True else Inl (AppException Forbidden))"
proof -
  obtain held where held: "getEffectivePermissionCodes u db = Inr held" "\<And>c. c \<in> set held \<longleftrightarrow> grants db u c"
    using effective_codes [OF assms, of u] by blast
  show ?thesis
    by (cases mode) (auto simp: permissionGuard_def canAny_def canAll_def held list_ex_iff list_all_iff)
qed

lemma permission_guard_exact_witness:
  "permissionGuard (Some ([''sales.read'', ''roles.read''], ReqAll)) (Some 2) access_seed = Inl (AppException Forbidden)"
proof -
  have ok: "roles_ok access_seed" using access_seed_ok by (simp add: access_ok_def)
  have "\<not> grants access_seed 2 ''roles.read''"
    by (auto simp: grants_def holdsRole_def access_seed_def)
  then show ?thesis by (subst permission_guard_exact [OF ok]) simp
qed

section \<open>Scopes\<close>

text \<open>The scopes that the active roles of a user have for a resource.\<close>

definition scopeGiven :: "access_db \<Rightarrow> id \<Rightarrow> string \<Rightarrow> role_scope \<Rightarrow> bool" where
  "scopeGiven db u resource s \<longleftrightarrow> s \<in> set (roleScopes db) \<and> rs_resource s = resource \<and> holdsRole db u (rs_role s)"

lemma scopesOfUser_iff:
  assumes "roles_ok db"
  shows "s \<in> set (scopesOfUser u resource db) \<longleftrightarrow> scopeGiven db u resource s"
proof -
  have "distinct (map rl_id (roles db))" using assms by (simp add: roles_ok_def)
  then show ?thesis by (auto simp: scopesOfUser_def scopesOfRole_def scopeGiven_def holdsRole_active) metis
qed

text \<open>The resolved scope is the broadest of those that the active roles of the user have for the resource, with the value of a role
  that has it; there is none exactly when no such role has a scope for the resource.\<close>

theorem broadest_scope:
  assumes "roles_ok db"
  shows "case resolveScope u resource db of
      None \<Rightarrow> \<forall>s. \<not> scopeGiven db u resource s
    | Some (sc, v) \<Rightarrow> (\<exists>s. scopeGiven db u resource s \<and> rs_scope s = sc \<and> rs_value s = v)
        \<and> (\<forall>s. scopeGiven db u resource s \<longrightarrow> indexOf SCOPE_BREADTH (rs_scope s) \<le> indexOf SCOPE_BREADTH sc)"
proof -
  obtain k where "broadest_of (scopesOfUser u resource db) (resolveScope u resource db, k)"
    using resolveScope_broadest by blast
  then show ?thesis
    unfolding broadest_of_def scopesOfUser_iff [OF assms, symmetric] by (auto split: option.splits)
qed

lemma broadest_scope_witness:
  "\<exists>s. scopeGiven (access_seed\<lparr>userRoles := [(2, 4), (2, 3)]\<rparr>) 2 ''sales'' s \<and> rs_scope s = ScAll"
proof -
  let ?db = "access_seed\<lparr>userRoles := [(2, 4), (2, 3)]\<rparr>"
  have ok: "roles_ok ?db" by (simp add: roles_ok_def access_seed_def demo_user_def)
  have "resolveScope 2 ''sales'' ?db = Some (ScAll, None)"
    by (simp add: resolveScope_def activeRolesOf_def findRole_def access_seed_def scopesOfRole_def broaden_def)
  then show ?thesis using broadest_scope [OF ok, of 2 "''sales''"] by auto
qed

text \<open>Where a scope lets a user operate.\<close>

definition mayOperate :: "org_db \<Rightarrow> access_db \<Rightarrow> id \<Rightarrow> data_scope \<Rightarrow> id \<Rightarrow> bool" where
  "mayOperate org db u sc company \<longleftrightarrow> (case sc of
       ScAll \<Rightarrow> True
     | ScCompany \<Rightarrow> hasActiveMembership u company (userCompanies db)
     | ScBranch \<Rightarrow> \<exists>i b. hasActiveMembership u i (userBranches db) \<and> branches org i = Some b \<and> br_company b = company
     | ScWarehouse \<Rightarrow> \<exists>i w. hasActiveMembership u i (userWarehouses db) \<and> warehouses org i = Some w \<and> wh_company w = company
     | _ \<Rightarrow> False)"

lemma mapR_companyOf:
  "mapR (companyOf f) is = Inr cs \<Longrightarrow> c \<in> set cs \<Longrightarrow> \<exists>i \<in> set is. f i = Some c"
proof (induction "is" arbitrary: cs)
  case (Cons i "is")
  then show ?case by (auto simp: companyOf_def)
qed simp

lemma allowed_companies:
  assumes "resolveAllowedCompanyIds org u r db = Inr al" "case al of None \<Rightarrow> True | Some cs \<Rightarrow> c \<in> set cs"
  shows "mayOperate org db u (fst r) c"
  using assms mapR_companyOf
  by (cases "fst r") (fastforce simp: resolveAllowedCompanyIds_def mayOperate_def activeMemberships_set)+

text \<open>C7: A request that is given a company has a broadest scope that covers it: the scope of all, a membership of the company, or of one
  of its branches or warehouses; and when the request named a company, it is that one.\<close>

theorem request_company_authorised:
  assumes "roles_ok db" "resolveRequestCompanyId org u resource requested db = Inr company"
  shows "(\<exists>s. scopeGiven db u resource s \<and> mayOperate org db u (rs_scope s) company
      \<and> (\<forall>t. scopeGiven db u resource t \<longrightarrow> indexOf SCOPE_BREADTH (rs_scope t) \<le> indexOf SCOPE_BREADTH (rs_scope s)))
    \<and> (requested = None \<or> requested = Some company)"
proof -
  from assms(2) obtain r0 al where r0: "resolveScope u resource db = Some r0" and al0: "resolveAllowedCompanyIds org u r0 db = Inr al"
    and last: "(case al of None \<Rightarrow> orThrow requested (AppException ValidationError)
      | Some cs \<Rightarrow> if cs = [] then Inl (AppException Forbidden)
          else (case requested of Some c \<Rightarrow> if c \<notin> set cs then Inl (AppException Forbidden) else Inr c
            | None \<Rightarrow> if length cs = 1 then Inr (hd cs) else Inl (AppException ValidationError))) = Inr company"
    unfolding resolveRequestCompanyId_def andThen_Inr_iff orThrow_Inr_iff by blast
  obtain sc v where "r0 = (sc, v)" by (cases r0)
  with r0 al0 have r: "resolveScope u resource db = Some (sc, v)" and al: "resolveAllowedCompanyIds org u (sc, v) db = Inr al" by simp_all
  have cases: "(al = None \<and> requested = Some company) \<or> (\<exists>cs. al = Some cs \<and> (requested = Some company \<and> company \<in> set cs
      \<or> requested = None \<and> length cs = 1 \<and> company = hd cs))"
    using last by (auto split: option.splits if_splits)
  have "case al of None \<Rightarrow> True | Some cs \<Rightarrow> company \<in> set cs"
    using cases by (auto simp: length_Suc_conv)
  from allowed_companies [OF al this] have "mayOperate org db u sc company" by simp
  with broadest_scope [OF assms(1), of u resource] cases show ?thesis by (auto simp: r)
qed

lemma request_company_authorised_witness:
  "\<exists>s. scopeGiven access_seed 2 ''sales'' s \<and> mayOperate demo_org access_seed 2 (rs_scope s) 7"
proof -
  have ok: "roles_ok access_seed" using access_seed_ok by (simp add: access_ok_def)
  have "resolveRequestCompanyId demo_org 2 ''sales'' None access_seed = Inr 7"
    by (simp add: resolveRequestCompanyId_def resolveScope_def activeRolesOf_def findRole_def access_seed_def scopesOfRole_def
        broaden_def resolveAllowedCompanyIds_def activeMemberships_def)
  from request_company_authorised [OF ok this] show ?thesis by blast
qed

text \<open>The branches of a request are those of the memberships, unless the scope is broader than a branch.\<close>

lemma request_branches_authorised:
  assumes "resolveRequestCompanyBranchScope org u resource company b db = Inr q"
  shows "resolveRequestCompanyId org u resource company db = Inr (qs_company q) \<and> qs_branch q = b
    \<and> (case qs_allowedBranches q of
         None \<Rightarrow> \<exists>v. resolveScope u resource db = Some (ScAll, v) \<or> resolveScope u resource db = Some (ScCompany, v)
       | Some bs \<Rightarrow> bs \<noteq> [] \<and> (\<forall>i \<in> set bs. hasActiveMembership u i (userBranches db)) \<and> (b = None \<or> bs = [the b]))"
proof -
  from assms obtain r k where r: "resolveScope u resource db = Some r" "fst r \<noteq> ScWarehouse"
    and k: "resolveRequestCompanyId org u resource company db = Inr k"
    and last: "(case resolveAllowedBranchIds u r db of
       None \<Rightarrow> Inr \<lparr>qs_company = k, qs_branch = b, qs_allowedBranches = None\<rparr>
     | Some bs \<Rightarrow>
         if bs = [] then Inl (AppException Forbidden)
         else (case b of
             Some i \<Rightarrow> if i \<notin> set bs then Inl (AppException Forbidden)
                 else Inr \<lparr>qs_company = k, qs_branch = Some i, qs_allowedBranches = Some [i]\<rparr>
           | None \<Rightarrow> Inr \<lparr>qs_company = k, qs_branch = None, qs_allowedBranches = Some bs\<rparr>)) = Inr q"
    unfolding resolveRequestCompanyBranchScope_def andThen_Inr_iff orThrow_Inr_iff throw_Inr_iff by blast
  show ?thesis
  proof (cases "resolveAllowedBranchIds u r db")
    case None
    then have "fst r = ScAll \<or> fst r = ScCompany" by (cases "fst r") (simp_all add: resolveAllowedBranchIds_def)
    with None last k r(1) show ?thesis by (cases r) auto
  next
    case (Some bs)
    then have "\<forall>i \<in> set bs. hasActiveMembership u i (userBranches db)"
      by (cases "fst r") (auto simp: resolveAllowedBranchIds_def activeMemberships_set)
    with Some last k show ?thesis by (auto split: option.splits if_splits)
  qed
qed

text \<open>Dropping the membership of a company leaves those of its branches, which go on giving the company.\<close>

theorem branch_outlives_company:
  "\<exists>db d u. removeCompanyMembership u 7 db = Inr d \<and> \<not> hasActiveMembership u 7 (userCompanies d)
    \<and> resolveRequestCompanyId demo_org u ''sales'' (Some 7) d = Inr 7"
proof -
  let ?s = "\<lparr>rs_role = 4, rs_resource = ''sales'', rs_scope = ScBranch, rs_value = None\<rparr>"
  let ?db = "access_seed\<lparr>roleScopes := [?s], userBranches := [\<lparr>mb_user = 2, mb_of = 20, mb_status = Active, mb_primary = False, mb_deleted = False\<rparr>]\<rparr>"
  let ?d = "?db\<lparr>userCompanies := [\<lparr>mb_user = 2, mb_of = 7, mb_status = Active, mb_primary = False, mb_deleted = True\<rparr>]\<rparr>"
  have "removeCompanyMembership 2 7 ?db = Inr ?d"
    by (simp add: removeCompanyMembership_def dropMembership_def findMembership_def access_seed_def)
  moreover have "\<not> hasActiveMembership 2 7 (userCompanies ?d)" by (simp add: hasActiveMembership_def activeMember_def)
  moreover have "resolveRequestCompanyId demo_org 2 ''sales'' (Some 7) ?d = Inr 7"
    by (simp add: resolveRequestCompanyId_def resolveScope_def activeRolesOf_def findRole_def access_seed_def scopesOfRole_def
        broaden_def resolveAllowedCompanyIds_def activeMemberships_def companyOf_def demo_org_def newSet_def setAdd_def)
  ultimately show ?thesis by blast
qed

text \<open>A membership that was removed cannot be given again: the unique index answers.\<close>

theorem membership_not_given_again:
  assumes "findActiveCompany org company = Some st" "dropMembership u company (userCompanies db) = Inr ms"
  shows "assignCompany org u company (db\<lparr>userCompanies := ms\<rparr>) = Inl (DupEntry ''user_target'')"
proof -
  from assms(2) have "findMembership u company (userCompanies db) \<noteq> None"
    and ms: "ms = map (\<lambda>m. if mb_user m = u \<and> mb_of m = company then m\<lparr>mb_deleted := True\<rparr> else m) (userCompanies db)"
    by (simp_all add: dropMembership_def split: if_splits)
  then obtain m where "findMembership u company (userCompanies db) = Some m" by blast
  then have m: "m \<in> set (userCompanies db)" "mb_user m = u" "mb_of m = company"
    by (auto simp: findMembership_def dest: find_SomeD)
  have "\<forall>x \<in> set ms. mb_user x = u \<and> mb_of x = company \<longrightarrow> mb_deleted x"
    unfolding ms set_map by (rule ballI, erule imageE) (simp split: if_splits, blast)
  then have "findMembership u company ms = None" unfolding findMembership_def find_None_iff by blast
  moreover have "list_ex (\<lambda>m. mb_user m = u \<and> mb_of m = company) ms"
    unfolding list_ex_iff ms set_map by (rule bexI [OF _ imageI [OF m(1)]]) (simp add: m)
  ultimately show ?thesis using assms(1) by (simp add: assignCompany_def addMembership_def)
qed

end
