(* ===== verification/Session_Theorems.thy ===== *)
theory Session_Theorems
  imports Access_Theorems
begin

text \<open>
  Sessions and passwords: a refresh or reset token works once, whatever happens in between; the live
  sessions of a user are no more than the logins; a change of password ends the access tokens that are older, up to the rounding of the column.
  Four runs show what the code does not do: revoke the whole chain on a replay, rotate once when two requests race, end sessions
  with a new password, and ask a bot for its password.
\<close>

section \<open>Tokens work once\<close>

lemma refresh_result:
  "fst (refresh c cfg old raw jti now db) = Inr iss \<longleftrightarrow>
    (\<exists>s. findSession (cr_sha256 c old) db = Some s \<and> se_revoked s = None
      \<and> rotateAt db c cfg old raw jti now db = Inr (iss, snd (refresh c cfg old raw jti now db)))"
  by (auto simp: refresh_def split: option.splits sum.splits prod.splits if_splits)

lemma refresh_revoked:
  "findSession (cr_sha256 c old) db = Some s \<Longrightarrow> se_revoked s \<noteq> None \<Longrightarrow>
    fst (refresh c cfg old raw jti now db) = Inl (AppException Unauthorized)"
  by (simp add: refresh_def)

text \<open>A successful rotation leaves its session revoked.\<close>

lemma rotateAt_spends:
  assumes "rotateAt db c cfg old raw jti now db = Inr (iss, d)"
  shows "\<exists>s \<in> set (sessions d). se_hash s = cr_sha256 c old \<and> se_revoked s \<noteq> None"
proof -
  from assms obtain s x db1 where s: "findSession (cr_sha256 c old) db = Some s" and p: "putSession x db = Inr db1"
    and d: "d = saveSession (s\<lparr>se_revoked := Some (toTimestamp now), se_replacedBy := Some (accessIds db)\<rparr>) db1"
    by (elim rotateAt_Inr)
  have "s \<in> set (sessions db1)" "se_hash s = cr_sha256 c old"
    using findSession_SomeD [OF s] p by (auto simp: putSession_def split: if_splits)
  then show ?thesis unfolding d saveSession_def
    using putRow_self [of s "sessions db1" se_id "s\<lparr>se_revoked := Some (toTimestamp now), se_replacedBy := Some (accessIds db)\<rparr>"]
    by (intro bexI [of _ "s\<lparr>se_revoked := Some (toTimestamp now), se_replacedBy := Some (accessIds db)\<rparr>"]) simp_all
qed

lemma resetPassword_spends:
  assumes "resetPassword c raw new now db = Inr d"
  shows "\<exists>t \<in> set (resetTokens d). rt_hash t = cr_sha256 c raw \<and> rt_used t \<noteq> None"
proof -
  from assms obtain t u where t: "findResetToken (cr_sha256 c raw) db = Some t"
    and d: "d = (saveUser (withPassword c new now u) db)\<lparr>resetTokens := putRow rt_id (t\<lparr>rt_used := Some (toTimestamp now)\<rparr>) (resetTokens db)\<rparr>"
    by (elim resetPassword_Inr)
  have "t \<in> set (resetTokens db)" "rt_hash t = cr_sha256 c raw" using t by (auto simp: findResetToken_def dest: find_SomeD)
  then show ?thesis unfolding d
    using putRow_self [of t "resetTokens db" rt_id "t\<lparr>rt_used := Some (toTimestamp now)\<rparr>"]
    by (intro bexI [of _ "t\<lparr>rt_used := Some (toTimestamp now)\<rparr>"]) simp_all
qed

lemma refresh_works_once:
  assumes "access_ok db" "fst (refresh c cfg old raw jti now db) = Inr iss"
    "(access_step org c cfg)\<^sup>*\<^sup>* (snd (refresh c cfg old raw jti now db)) d"
  shows "fst (refresh c cfg old raw' jti' now' d) = Inl (AppException Unauthorized)"
proof -
  let ?e = "snd (refresh c cfg old raw jti now db)"
  have rot: "rotateAt db c cfg old raw jti now db = Inr (iss, ?e)" using assms(2) unfolding refresh_result by blast
  obtain s where s: "s \<in> set (sessions ?e)" "se_hash s = cr_sha256 c old" "se_revoked s \<noteq> None" using rotateAt_spends [OF rot] by blast
  have "access_ok ?e" using rotateAt_kept [OF rot assms(1)] by (simp add: auth_kept_def)
  from refresh_tokens.spent_forever [OF assms(3) this s(1,3)] s(2)
  obtain x where "findSession (cr_sha256 c old) d = Some x" "se_revoked x \<noteq> None" by (auto simp: findSession_def)
  then show ?thesis by (rule refresh_revoked)
qed

lemma reset_works_once:
  assumes "access_ok db" "resetPassword c token new now db = Inr e" "(access_step org c cfg)\<^sup>*\<^sup>* e d"
  shows "resetPassword c token new' now' d = Inl (AppException ValidationError)"
proof -
  obtain t where t: "t \<in> set (resetTokens e)" "rt_hash t = cr_sha256 c token" "rt_used t \<noteq> None"
    using resetPassword_spends [OF assms(2)] by blast
  have "access_ok e" using reset_kept [OF assms(2,1)] by (simp add: auth_kept_def)
  from password_resets.spent_forever [OF assms(3) this t(1,3)] t(2)
  obtain x where "findResetToken (cr_sha256 c token) d = Some x" "rt_used x \<noteq> None" by (auto simp: findResetToken_def)
  then show ?thesis by (auto simp: resetPassword_def)
qed

section \<open>A login and its rotations\<close>

definition logged_in :: access_db where
  "logged_in = snd (login demo_crypto demo_config ''Ada@x '' ''long-enough-1'' ''t1'' 1 1000 access_seed)"

definition demo_session :: "id \<Rightarrow> string \<Rightarrow> nat \<Rightarrow> session" where
  "demo_session i h expires = \<lparr>se_id = i, se_user = 0, se_hash = h, se_expires = expires, se_revoked = None, se_replacedBy = None\<rparr>"

lemma demo_email: "normalizeEmail ''Ada@x '' = ''ada@x''"
  by code_simp

lemma demo_login:
  "logged_in = access_seed\<lparr>users := [(demo_user 0 ''ada@x'')\<lparr>us_lastLogin := Some 1000\<rparr>, demo_user 1 ''bob@x'', demo_user 2 ''cy@x''],
     sessions := [demo_session 10 ''ht1'' 2592001000], accessIds := 11\<rparr>"
  by (simp add: logged_in_def login_def demo_email findUserByEmail_def access_seed_def demo_user_def demo_crypto_def Let_def
      saveUser_def putRow_def putSession_def newSession_def demo_session_def refreshExpiryDate_def demo_config_def toTimestamp_def)

lemmas run_defs = refresh_def rotateAt_def revokeSuccessor_def findSession_def findUser_def findUserByEmail_def putSession_def
  newSession_def saveSession_def saveUser_def putRow_def refreshExpiryDate_def toTimestamp_def Let_def demo_session_def
  demo_user_def demo_crypto_def demo_config_def

lemma demo_rotation:
  "fst (refresh demo_crypto demo_config ''t1'' ''t2'' 2 2000 logged_in) = Inr \<lparr>iu_access = ''token'', iu_refresh = ''t2'', iu_expires = 2592002000\<rparr>"
  "snd (refresh demo_crypto demo_config ''t1'' ''t2'' 2 2000 logged_in) = logged_in\<lparr>
     sessions := [(demo_session 10 ''ht1'' 2592001000)\<lparr>se_revoked := Some 2000, se_replacedBy := Some 11\<rparr>, demo_session 11 ''ht2'' 2592002000],
     accessIds := 12\<rparr>"
  by (simp_all add: demo_login access_seed_def run_defs signAccessToken_def)

lemma demo_second_rotation:
  "fst (refresh demo_crypto demo_config ''t2'' ''t3'' 3 3000 (snd (refresh demo_crypto demo_config ''t1'' ''t2'' 2 2000 logged_in)))
     = Inr \<lparr>iu_access = ''token'', iu_refresh = ''t3'', iu_expires = 2592003000\<rparr>"
  "snd (refresh demo_crypto demo_config ''t2'' ''t3'' 3 3000 (snd (refresh demo_crypto demo_config ''t1'' ''t2'' 2 2000 logged_in))) = logged_in\<lparr>
     sessions := [(demo_session 10 ''ht1'' 2592001000)\<lparr>se_revoked := Some 2000, se_replacedBy := Some 11\<rparr>,
       (demo_session 11 ''ht2'' 2592002000)\<lparr>se_revoked := Some 3000, se_replacedBy := Some 12\<rparr>, demo_session 12 ''ht3'' 2592003000],
     accessIds := 13\<rparr>"
  unfolding demo_rotation by (simp_all add: demo_login access_seed_def run_defs signAccessToken_def)

lemma login_steps: "(access_step org demo_crypto demo_config)\<^sup>*\<^sup>* access_seed logged_in"
proof -
  have "auth_step demo_crypto demo_config access_seed logged_in"
    unfolding logged_in_def by (rule auth_step.log_in [OF prod.collapse [symmetric]])
  then show ?thesis by (intro r_into_rtranclp) (simp add: access_step_def safe_step_def)
qed

lemma logged_in_ok: "access_ok logged_in"
  using access_steps_ok [OF login_steps access_seed_ok] .

section \<open>Live sessions\<close>

text \<open>The sessions of a user that are not revoked.\<close>

definition liveRow :: "id \<Rightarrow> session \<Rightarrow> bool" where
  "liveRow u s \<longleftrightarrow> se_user s = u \<and> se_revoked s = None"

definition liveSessions :: "id \<Rightarrow> access_db \<Rightarrow> nat" where
  "liveSessions u db = length (filter (liveRow u) (sessions db))"

text \<open>A step that is not a successful login.\<close>

inductive quiet_step :: "org_db \<Rightarrow> crypto \<Rightarrow> auth_config \<Rightarrow> access_db \<Rightarrow> access_db \<Rightarrow> bool" for org c cfg where
  refused: "login c cfg email password raw jti now db = (Inl e, d) \<Longrightarrow> quiet_step org c cfg db d"
| rotate: "refresh c cfg old raw jti now db = (y, d) \<Longrightarrow> quiet_step org c cfg db d"
| log_out: "revokeRefreshSession c old now db = d \<Longrightarrow> quiet_step org c cfg db d"
| change_password: "changePassword c i password password' now db = Inr d \<Longrightarrow> quiet_step org c cfg db d"
| forgot_password: "forgotPassword c cfg email raw now db = Inr d \<Longrightarrow> quiet_step org c cfg db d"
| reset_password: "resetPassword c raw password now db = Inr d \<Longrightarrow> quiet_step org c cfg db d"
| bot_session: "botSession c cfg email password cache attempts jti now db = Inr (z, d) \<Longrightarrow> quiet_step org c cfg db d"
| on_role: "role_step db d \<Longrightarrow> quiet_step org c cfg db d"
| on_user: "user_step db d \<or> suspend_step db d \<Longrightarrow> quiet_step org c cfg db d"
| on_member: "member_step org db d \<Longrightarrow> quiet_step org c cfg db d"

text \<open>A run and the number of successful logins of a user in it.\<close>

inductive login_run :: "org_db \<Rightarrow> crypto \<Rightarrow> auth_config \<Rightarrow> id \<Rightarrow> nat \<Rightarrow> access_db \<Rightarrow> access_db \<Rightarrow> bool" for org c cfg u where
  start: "login_run org c cfg u 0 db db"
| own: "login_run org c cfg u n db d \<Longrightarrow> login c cfg email password raw jti now d = (Inr (v, iss), e) \<Longrightarrow> us_id v = u
    \<Longrightarrow> login_run org c cfg u (Suc n) db e"
| other: "login_run org c cfg u n db d \<Longrightarrow> login c cfg email password raw jti now d = (Inr (v, iss), e) \<Longrightarrow> us_id v \<noteq> u
    \<Longrightarrow> login_run org c cfg u n db e"
| quiet: "login_run org c cfg u n db d \<Longrightarrow> quiet_step org c cfg d e \<Longrightarrow> login_run org c cfg u n db e"

lemma quiet_access: "quiet_step org c cfg db d \<Longrightarrow> access_step org c cfg db d"
  by (erule quiet_step.cases) (auto simp: access_step_def safe_step_def intro: auth_step.intros)

lemma login_access: "login c cfg email password raw jti now db = (x, d) \<Longrightarrow> access_step org c cfg db d"
  by (auto simp: access_step_def safe_step_def intro: auth_step.intros)

lemma login_run_ok: "login_run org c cfg u n db d \<Longrightarrow> access_ok db \<Longrightarrow> access_ok d"
  by (induction rule: login_run.induct) (auto intro: access_step_ok [OF quiet_access] access_step_ok [OF login_access])

lemma filter_map_le: "(\<And>x. P (f x) \<Longrightarrow> P x) \<Longrightarrow> length (filter P (map f xs)) \<le> length (filter P xs)"
  by (induction xs) (auto intro: le_SucI)

lemma live_map:
  assumes "sessions d = map f (sessions db)" "\<And>s. liveRow u (f s) \<Longrightarrow> liveRow u s"
  shows "liveSessions u d \<le> liveSessions u db"
  unfolding liveSessions_def assms(1) by (rule filter_map_le) (rule assms(2))

lemma live_same: "sessions d = sessions db \<Longrightarrow> liveSessions u d = liveSessions u db"
  by (simp add: liveSessions_def)

lemma live_put: "putSession s db = Inr d \<Longrightarrow> se_revoked s = None
  \<Longrightarrow> liveSessions u d = liveSessions u db + (if se_user s = u then 1 else 0)"
  by (auto simp: putSession_def liveSessions_def liveRow_def split: if_splits)

text \<open>Revoking a live row takes one session away from its user.\<close>

lemma filter_put_one:
  assumes "distinct (map key rows)" "r \<in> set rows" "key x = key r" "P r" "\<not> P x"
  shows "Suc (length (filter P (putRow key x rows))) = length (filter P rows)"
  using assms(1,2)
proof (induction rows)
  case (Cons y rows)
  show ?case
  proof (cases "key y = key r")
    case True
    then have "y = r" using Cons.prems by (auto simp: image_iff)
    have "putRow key x rows = rows"
      unfolding putRow_def by (rule map_idI) (use Cons.prems True assms(3) in \<open>auto simp: image_iff\<close>)
    with True \<open>y = r\<close> assms(3-5) show ?thesis by (simp add: putRow_def)
  next
    case False
    then have "r \<in> set rows" using Cons.prems(2) by auto
    with False Cons assms(3) show ?thesis by (simp add: putRow_def)
  qed
qed simp

lemma filter_put_none:
  "\<not> P x \<Longrightarrow> \<forall>y \<in> set rows. key y = key x \<longrightarrow> \<not> P y \<Longrightarrow> length (filter P (putRow key x rows)) = length (filter P rows)"
  by (induction rows) (auto simp: putRow_def)

lemma live_rotate:
  assumes "rotateAt db c cfg old raw jti now db = Inr (iss, d)" "sessions_ok db"
  shows "liveSessions w d = liveSessions w db"
proof -
  obtain s u db1 where s: "findSession (cr_sha256 c old) db = Some s" "se_revoked s = None" "findUser (se_user s) db = Some u"
    and p: "putSession (newSession c cfg (accessIds db) (us_id u) raw now) db = Inr db1"
    and d: "d = saveSession (s\<lparr>se_revoked := Some (toTimestamp now), se_replacedBy := Some (accessIds db)\<rparr>) db1"
    using assms(1) by (elim rotateAt_Inr)
  let ?n = "newSession c cfg (accessIds db) (us_id u) raw now"
  let ?s = "s\<lparr>se_revoked := Some (toTimestamp now), se_replacedBy := Some (accessIds db)\<rparr>"
  have ok1: "sessions_ok db1" "sessions db1 = sessions db @ [?n]"
    using putSession_ok [OF p assms(2)] by (simp_all add: newSession_def)
  have u: "us_id u = se_user s" using findUser_SomeD [OF s(3)] by simp
  have mem: "s \<in> set (sessions db1)" using findSession_SomeD [OF s(1)] ok1(2) by simp
  have dist: "distinct (map se_id (sessions db1))" using ok1(1) by (simp add: sessions_ok_def)
  have put: "liveSessions w db1 = liveSessions w db + (if se_user s = w then 1 else 0)"
    using live_put [OF p, of w] u by (simp add: newSession_def)
  show ?thesis
  proof (cases "se_user s = w")
    case True
    have "Suc (liveSessions w d) = liveSessions w db1"
      unfolding liveSessions_def d saveSession_def using s(2) True
      by (simp, intro filter_put_one [OF dist mem]) (simp_all add: liveRow_def)
    with put True show ?thesis by simp
  next
    case False
    have "\<forall>y \<in> set (sessions db1). se_id y = se_id ?s \<longrightarrow> \<not> liveRow w y"
      using dist mem False by (auto simp: liveRow_def distinct_map dest: inj_onD)
    then have "liveSessions w d = liveSessions w db1"
      unfolding liveSessions_def d saveSession_def
      by (simp, intro filter_put_none) (simp_all add: liveRow_def)
    with put False show ?thesis by simp
  qed
qed

text \<open>The row of the old token is linked to the row of the new one, which is live and of the same user.\<close>

lemma rotateAt_links:
  assumes "rotateAt db c cfg old raw jti now db = Inr (iss, d)" "sessions_ok db"
  shows "\<exists>s \<in> set (sessions d). \<exists>t \<in> set (sessions d). se_hash s = cr_sha256 c old \<and> se_revoked s \<noteq> None
    \<and> se_replacedBy s = Some (se_id t) \<and> se_hash t = cr_sha256 c raw \<and> liveRow (se_user s) t"
proof -
  obtain s u db1 where s: "findSession (cr_sha256 c old) db = Some s" "se_revoked s = None" "findUser (se_user s) db = Some u"
    and p: "putSession (newSession c cfg (accessIds db) (us_id u) raw now) db = Inr db1"
    and d: "d = saveSession (s\<lparr>se_revoked := Some (toTimestamp now), se_replacedBy := Some (accessIds db)\<rparr>) db1"
    using assms(1) by (elim rotateAt_Inr)
  let ?n = "newSession c cfg (accessIds db) (us_id u) raw now"
  let ?s = "s\<lparr>se_revoked := Some (toTimestamp now), se_replacedBy := Some (accessIds db)\<rparr>"
  have rows: "sessions db1 = sessions db @ [?n]" using putSession_ok [OF p assms(2)] by (simp add: newSession_def)
  have mem: "s \<in> set (sessions db)" "se_hash s = cr_sha256 c old" using findSession_SomeD [OF s(1)] by simp_all
  have lt: "se_id s < accessIds db" using assms(2) mem(1) by (simp add: sessions_ok_def)
  have r: "?s \<in> set (sessions d)"
  proof -
    have "s \<in> set (sessions db1)" using mem(1) unfolding rows by simp
    then have "\<exists>x \<in> set (sessions db1). se_id x = se_id ?s" by (intro bexI) simp_all
    then show ?thesis unfolding d saveSession_def by (simp add: putRow_set)
  qed
  have n: "?n \<in> set (sessions d)"
    unfolding d saveSession_def using rows lt by (simp add: putRow_set newSession_def)
  have f: "se_hash ?s = cr_sha256 c old \<and> se_revoked ?s \<noteq> None \<and> se_replacedBy ?s = Some (se_id ?n)
      \<and> se_hash ?n = cr_sha256 c raw \<and> liveRow (se_user ?s) ?n"
    using findUser_SomeD [OF s(3)] mem(2) by (simp add: newSession_def liveRow_def)
  show ?thesis by (rule bexI [OF _ r], rule bexI [OF _ n], rule f)
qed

lemma live_refresh:
  assumes "refresh c cfg old raw jti now db = (y, d)" "sessions_ok db"
  shows "liveSessions w d \<le> liveSessions w db"
proof -
  consider "d = db" | s where "d = revokeSuccessor s now db" | iss where "rotateAt db c cfg old raw jti now db = Inr (iss, d)"
    using assms(1) by (auto simp: refresh_def split: option.splits if_splits sum.splits prod.splits)
  then show ?thesis
  proof cases
    case (2 s)
    show ?thesis
    proof (cases "se_replacedBy s")
      case (Some i)
      then show ?thesis
        by (intro live_map [where f = "\<lambda>x. if se_id x = i \<and> se_revoked x = None then x\<lparr>se_revoked := Some (toTimestamp now)\<rparr> else x"])
          (simp_all add: 2 revokeSuccessor_def liveRow_def split: if_splits)
    qed (simp add: 2 revokeSuccessor_def)
  qed (simp_all add: live_rotate [OF _ assms(2)])
qed

lemma live_logout: "liveSessions w (revokeRefreshSession c old now db) \<le> liveSessions w db"
  by (rule live_map [where f = "\<lambda>x. if se_hash x = cr_sha256 c old \<and> se_revoked x = None
      then x\<lparr>se_revoked := Some (toTimestamp now)\<rparr> else x"])
    (simp_all add: revokeRefreshSession_def liveRow_def split: if_splits)

lemma live_login:
  assumes "login c cfg email password raw jti now db = (x, d)"
  shows "liveSessions w d = liveSessions w db + (case x of Inl _ \<Rightarrow> 0 | Inr (v, iss) \<Rightarrow> if us_id v = w then 1 else 0)"
proof -
  consider e where "d = db" "x = Inl e" | e v where "d = saveUser v db" "x = Inl e"
    | u where "putSession (newSession c cfg (accessIds (saveUser (u\<lparr>us_lastLogin := Some (toTimestamp now)\<rparr>) db)) (us_id u) raw now)
        (saveUser (u\<lparr>us_lastLogin := Some (toTimestamp now)\<rparr>) db) = Inr d"
      "\<exists>iss. x = Inr (u\<lparr>us_lastLogin := Some (toTimestamp now)\<rparr>, iss)"
    using assms by (auto simp: login_def Let_def split: option.splits if_splits sum.splits)
  then show ?thesis
  proof cases
    case (2 e v)
    then show ?thesis by (simp add: liveSessions_def saveUser_def)
  next
    case (3 u)
    have "liveSessions w (saveUser v db) = liveSessions w db" for v by (rule live_same) (simp add: saveUser_def)
    with live_put [OF 3(1), of w] 3(2) show ?thesis by (auto simp: newSession_def)
  qed simp
qed

lemma password_sessions:
  "changePassword c i old new now db = Inr d \<Longrightarrow> sessions d = sessions db"
  "resetPassword c token new now db = Inr d \<Longrightarrow> sessions d = sessions db"
  "forgotPassword c cfg email raw now db = Inr d \<Longrightarrow> sessions d = sessions db"
  "botSession c cfg email password cache attempts jti now db = Inr (z, d) \<Longrightarrow> sessions d = sessions db"
  by (auto simp: changePassword_def resetPassword_def forgotPassword_def botSession_def saveUser_def Let_def
      split: option.splits if_splits)

lemma quiet_live:
  assumes "quiet_step org c cfg db d" "sessions_ok db"
  shows "liveSessions w d \<le> liveSessions w db"
  using assms(1)
proof cases
  case (refused email password raw jti now e)
  then show ?thesis using live_login [OF refused, of w] by simp
next
  case (rotate old raw jti now y)
  then show ?thesis by (rule live_refresh [OF _ assms(2)])
next
  case (log_out old now)
  then show ?thesis using live_logout by blast
next
  case (change_password i password password' now)
  show ?thesis by (simp add: live_same [OF password_sessions(1) [OF change_password]])
next
  case (forgot_password email raw now)
  show ?thesis by (simp add: live_same [OF password_sessions(3) [OF forgot_password]])
next
  case (reset_password raw password now)
  show ?thesis by (simp add: live_same [OF password_sessions(2) [OF reset_password]])
next
  case (bot_session email password cache attempts jti now z)
  show ?thesis by (simp add: live_same [OF password_sessions(4) [OF bot_session]])
next
  case on_role
  then have "sessions d = sessions db" using role_step_frame [of db d] by (simp add: token_frame_def)
  from live_same [OF this] show ?thesis by simp
next
  case on_user
  then have "sessions d = sessions db" using user_step_frame [of db d] by (simp add: token_frame_def)
  from live_same [OF this] show ?thesis by simp
next
  case on_member
  then have "sessions d = sessions db" using member_step_frames [of org db d] by (simp add: token_frame_def)
  from live_same [OF this] show ?thesis by simp
qed

lemma login_run_live:
  "login_run org c cfg u n db d \<Longrightarrow> access_ok db \<Longrightarrow> liveSessions u d \<le> liveSessions u db + n"
proof (induction rule: login_run.induct)
  case (own n db d email password raw jti now v iss e)
  then show ?case using live_login [OF own.hyps(2), of u] by simp
next
  case (other n db d email password raw jti now v iss e)
  then show ?case using live_login [OF other.hyps(2), of u] by simp
next
  case (quiet n db d e)
  have "sessions_ok d" using login_run_ok [OF quiet.hyps(1) quiet.prems] by (simp add: access_ok_def)
  from quiet_live [OF quiet.hyps(2) this, of u] quiet.IH quiet.prems show ?case by simp
qed simp

section \<open>Properties\<close>

text \<open>C8: After a refresh with a token, no refresh with the same token succeeds again, and after a reset with a reset token no second reset does,
  whatever operations come in between.\<close>

theorem tokens_work_once:
  assumes "access_ok db"
  shows "(fst (refresh c cfg old raw jti now db) = Inr iss
        \<and> (access_step org c cfg)\<^sup>*\<^sup>* (snd (refresh c cfg old raw jti now db)) d
      \<longrightarrow> fst (refresh c cfg old raw' jti' now' d) = Inl (AppException Unauthorized))
    \<and> (resetPassword c token new now db = Inr e \<and> (access_step org c cfg)\<^sup>*\<^sup>* e d
      \<longrightarrow> resetPassword c token new' now' d = Inl (AppException ValidationError))"
proof (intro conjI impI)
  assume "fst (refresh c cfg old raw jti now db) = Inr iss \<and> (access_step org c cfg)\<^sup>*\<^sup>* (snd (refresh c cfg old raw jti now db)) d"
  then show "fst (refresh c cfg old raw' jti' now' d) = Inl (AppException Unauthorized)"
    using refresh_works_once [OF assms, of c cfg old raw jti now iss org d] by simp
next
  assume "resetPassword c token new now db = Inr e \<and> (access_step org c cfg)\<^sup>*\<^sup>* e d"
  then show "resetPassword c token new' now' d = Inl (AppException ValidationError)"
    using reset_works_once [OF assms, of c token new now e org cfg d] by simp
qed

lemma tokens_work_once_witness:
  "fst (refresh demo_crypto demo_config ''t1'' ''t4'' 4 4000
      (snd (refresh demo_crypto demo_config ''t2'' ''t3'' 3 3000 (snd (refresh demo_crypto demo_config ''t1'' ''t2'' 2 2000 logged_in)))))
    = Inl (AppException Unauthorized)"
proof -
  let ?e = "snd (refresh demo_crypto demo_config ''t1'' ''t2'' 2 2000 logged_in)"
  have "auth_step demo_crypto demo_config ?e (snd (refresh demo_crypto demo_config ''t2'' ''t3'' 3 3000 ?e))"
    by (rule auth_step.rotate [OF prod.collapse [symmetric]])
  then have "(access_step demo_org demo_crypto demo_config)\<^sup>*\<^sup>* ?e (snd (refresh demo_crypto demo_config ''t2'' ''t3'' 3 3000 ?e))"
    by (intro r_into_rtranclp) (simp add: access_step_def safe_step_def)
  then show ?thesis
    using tokens_work_once [OF logged_in_ok, where c = demo_crypto and cfg = demo_config and org = demo_org and old = "''t1''"
      and raw = "''t2''" and jti = 2 and now = 2000] demo_rotation(1) by metis
qed

text \<open>A row and the row it was rotated into.\<close>

definition rotatedInto :: "access_db \<Rightarrow> id \<Rightarrow> id \<Rightarrow> bool" where
  "rotatedInto db i j \<longleftrightarrow> (\<exists>s \<in> set (sessions db). se_id s = i \<and> se_replacedBy s = Some j)"

definition liveSession :: "access_db \<Rightarrow> id \<Rightarrow> bool" where
  "liveSession db i \<longleftrightarrow> (\<exists>s \<in> set (sessions db). se_id s = i \<and> se_revoked s = None)"

text \<open>C9: Sessions come from logins. In every state that a run of all operations reaches, one request after the other, the
  live sessions of a user are at most those at the start and one for each successful login of the user in the run. A successful
  refresh leaves the number of live sessions of every user as it was, with the session of its token revoked and linked to a new
  live one of the same user, so that a login has at most one live session however often it is rotated. Two rotations that
  overlap are not in these runs, and there the bound fails (\<open>parallel_refreshes_both_live\<close>).\<close>

theorem live_sessions_come_from_logins:
  assumes "access_ok db" "login_run org c cfg u n db d"
  shows "liveSessions u d \<le> liveSessions u db + n
    \<and> (\<forall>old raw jti now iss e. refresh c cfg old raw jti now d = (Inr iss, e) \<longrightarrow>
        (\<forall>w. liveSessions w e = liveSessions w d)
        \<and> (\<exists>s \<in> set (sessions e). \<exists>t \<in> set (sessions e). se_hash s = cr_sha256 c old \<and> se_revoked s \<noteq> None
            \<and> se_replacedBy s = Some (se_id t) \<and> se_hash t = cr_sha256 c raw \<and> liveRow (se_user s) t))"
proof (intro conjI allI impI)
  show "liveSessions u d \<le> liveSessions u db + n" using login_run_live [OF assms(2,1)] .
next
  fix old raw jti now iss e
  assume "refresh c cfg old raw jti now d = (Inr iss, e)"
  then have rot: "rotateAt d c cfg old raw jti now d = Inr (iss, e)"
    using refresh_result [of c cfg old raw jti now d iss] by auto
  have ok: "sessions_ok d" using login_run_ok [OF assms(2,1)] by (simp add: access_ok_def)
  show "liveSessions w e = liveSessions w d" for w by (rule live_rotate [OF rot ok])
  show "\<exists>s \<in> set (sessions e). \<exists>t \<in> set (sessions e). se_hash s = cr_sha256 c old \<and> se_revoked s \<noteq> None
      \<and> se_replacedBy s = Some (se_id t) \<and> se_hash t = cr_sha256 c raw \<and> liveRow (se_user s) t"
    by (rule rotateAt_links [OF rot ok])
qed

lemma live_sessions_come_from_logins_witness:
  "login_run demo_org demo_crypto demo_config 0 1 access_seed (snd (refresh demo_crypto demo_config ''t1'' ''t2'' 2 2000 logged_in))
    \<and> liveSessions 0 access_seed = 0
    \<and> liveSessions 0 (snd (refresh demo_crypto demo_config ''t1'' ''t2'' 2 2000 logged_in)) = 1
    \<and> (\<forall>w. liveSessions w (snd (refresh demo_crypto demo_config ''t1'' ''t2'' 2 2000 logged_in)) = liveSessions w logged_in)"
proof -
  let ?e = "snd (refresh demo_crypto demo_config ''t1'' ''t2'' 2 2000 logged_in)"
  have login: "login demo_crypto demo_config ''Ada@x '' ''long-enough-1'' ''t1'' 1 1000 access_seed
      = (Inr ((demo_user 0 ''ada@x'')\<lparr>us_lastLogin := Some 1000\<rparr>, \<lparr>iu_access = ''token'', iu_refresh = ''t1'', iu_expires = 2592001000\<rparr>), logged_in)"
    unfolding demo_login
    by (simp add: login_def demo_email findUserByEmail_def access_seed_def run_defs signAccessToken_def)
  have run: "login_run demo_org demo_crypto demo_config 0 1 access_seed logged_in"
    using login_run.own [OF login_run.start login] by (simp add: demo_user_def)
  have rot: "refresh demo_crypto demo_config ''t1'' ''t2'' 2 2000 logged_in
      = (Inr \<lparr>iu_access = ''token'', iu_refresh = ''t2'', iu_expires = 2592002000\<rparr>, ?e)"
    using demo_rotation(1) by (metis prod.collapse)
  have run2: "login_run demo_org demo_crypto demo_config 0 1 access_seed ?e"
    by (rule login_run.quiet [OF run quiet_step.rotate [OF rot]])
  have "liveSessions 0 access_seed = 0" by (simp add: liveSessions_def access_seed_def)
  moreover have "liveSessions 0 ?e = 1"
    unfolding demo_rotation(2) by (simp add: liveSessions_def liveRow_def demo_session_def)
  moreover have "\<forall>w. liveSessions w ?e = liveSessions w logged_in"
    using live_sessions_come_from_logins [OF access_seed_ok run] rot by blast
  ultimately show ?thesis using run2 by blast
qed

text \<open>C10: After a change of the password at a time, an access token of the user is refused when it was issued more than half a second before it, and
  accepted when it was issued half a second after it or later; in between, the rounding of the column decides.\<close>

theorem password_change_ends_tokens:
  assumes "access_ok db" "changePassword c i old new t db = Inr d" "resolveToken header cookie = Inr (Some tok)" "tok \<noteq> []"
    "cr_verifyToken c tok now = Some p" "jw_sub p = i"
  shows "jwtGuard c header cookie now d = (if issuedAtMs p < toTimestamp t then Inl (AppException Unauthorized) else Inr i)
    \<and> (issuedAtMs p + 500 < t \<longrightarrow> jwtGuard c header cookie now d = Inl (AppException Unauthorized))
    \<and> (t + 500 \<le> issuedAtMs p \<longrightarrow> jwtGuard c header cookie now d = Inr i)"
proof -
  from assms(2) obtain u where u: "findUser i db = Some u" "us_status u = UsActive" and d: "d = saveUser (withPassword c new t u) db"
    by (auto simp: changePassword_def findActiveUserOrThrow_def split: option.splits if_splits)
  have ids: "distinct (map us_id (users d))" using change_kept [OF assms(2,1)] by (simp add: auth_kept_def access_ok_def users_ok_def)
  have "withPassword c new t u \<in> set (users d)" "us_id (withPassword c new t u) = i" "\<not> us_deleted (withPassword c new t u)"
    using findUser_SomeD [OF u(1)] putRow_self [of u "users db" us_id "withPassword c new t u"]
    by (simp_all add: d saveUser_def withPassword_def)
  from findUser_live [OF ids this(1,3)] this(2) have "findUser i d = Some (withPassword c new t u)" by simp
  then have "findActiveById i d = Some (withPassword c new t u)" using u(2) by (simp add: findActiveById_def withPassword_def)
  then have "jwtGuard c header cookie now d = (if issuedAtMs p < toTimestamp t then Inl (AppException Unauthorized) else Inr i)"
    using assms(3-6) by (simp add: jwtGuard_def withPassword_def)
  then show ?thesis using toTimestamp_bounds [of t] by auto
qed

lemma password_change_ends_tokens_witness:
  "\<exists>d. changePassword demo_crypto 0 ''long-enough-1'' ''another-one-22'' 6000 access_seed = Inr d
    \<and> jwtGuard demo_crypto (Some ''Bearer token'') None 7000 d = Inl (AppException Unauthorized)"
proof -
  have pol: "validatePolicy ''another-one-22''" by code_simp
  have tok: "resolveToken (Some ''Bearer token'') None = Inr (Some ''token'')" by code_simp
  obtain d where d: "changePassword demo_crypto 0 ''long-enough-1'' ''another-one-22'' 6000 access_seed = Inr d"
    by (simp add: changePassword_def findActiveUserOrThrow_def pol access_seed_def run_defs)
  have "cr_verifyToken demo_crypto ''token'' 7000 = Some \<lparr>jw_sub = 0, jw_jti = 1, jw_iatMs = Some 5000, jw_iat = 5, jw_exp = 905\<rparr>"
    by (simp add: demo_crypto_def)
  from password_change_ends_tokens [OF access_seed_ok d tok _ this] d show ?thesis
    by (simp add: issuedAtMs_def toTimestamp_def)
qed

section \<open>What the code does not do\<close>

text \<open>A replay of the first token of a chain revokes the second session, which is revoked already; the third goes on.\<close>

theorem replay_spares_later_session:
  "\<exists>d. (access_step demo_org demo_crypto demo_config)\<^sup>*\<^sup>* access_seed d \<and> (rotatedInto d)\<^sup>*\<^sup>* 10 12
    \<and> fst (refresh demo_crypto demo_config ''t1'' ''t9'' 9 4000 d) = Inl (AppException Unauthorized)
    \<and> fst (refresh demo_crypto demo_config ''t3'' ''t4'' 4 5000 (snd (refresh demo_crypto demo_config ''t1'' ''t9'' 9 4000 d)))
      = Inr \<lparr>iu_access = ''token'', iu_refresh = ''t4'', iu_expires = 2592005000\<rparr>"
proof -
  let ?e = "snd (refresh demo_crypto demo_config ''t1'' ''t2'' 2 2000 logged_in)"
  let ?d = "snd (refresh demo_crypto demo_config ''t2'' ''t3'' 3 3000 ?e)"
  have "auth_step demo_crypto demo_config logged_in ?e" "auth_step demo_crypto demo_config ?e ?d"
    by (rule auth_step.rotate [OF prod.collapse [symmetric]])+
  then have steps: "(access_step demo_org demo_crypto demo_config)\<^sup>*\<^sup>* access_seed ?d"
    using login_steps [of demo_org] by (meson access_step_def rtranclp.rtrancl_into_rtrancl safe_step_def)
  have replay: "refresh demo_crypto demo_config ''t1'' ''t9'' 9 4000 ?d = (Inl (AppException Unauthorized), ?d)"
    unfolding demo_second_rotation by (simp add: demo_login access_seed_def run_defs)
  have "rotatedInto ?d 10 11" "rotatedInto ?d 11 12"
    unfolding demo_second_rotation by (simp_all add: rotatedInto_def demo_session_def)
  then have chain: "(rotatedInto ?d)\<^sup>*\<^sup>* 10 12" by (meson converse_rtranclp_into_rtranclp r_into_rtranclp)
  have "fst (refresh demo_crypto demo_config ''t3'' ''t4'' 4 5000 ?d) = Inr \<lparr>iu_access = ''token'', iu_refresh = ''t4'', iu_expires = 2592005000\<rparr>"
    unfolding demo_second_rotation by (simp add: demo_login access_seed_def run_defs signAccessToken_def)
  with replay chain steps show ?thesis by (intro exI [of _ ?d]) simp
qed

text \<open>Two refreshes with one token that both read before either writes end in two live sessions.\<close>

theorem parallel_refreshes_both_live:
  "\<exists>x y d e. rotateAt logged_in demo_crypto demo_config ''t1'' ''t2'' 2 2000 logged_in = Inr (x, d)
    \<and> rotateAt logged_in demo_crypto demo_config ''t1'' ''t3'' 3 2000 d = Inr (y, e) \<and> liveSession e 11 \<and> liveSession e 12"
proof -
  let ?d = "logged_in\<lparr>sessions := [(demo_session 10 ''ht1'' 2592001000)\<lparr>se_revoked := Some 2000, se_replacedBy := Some 11\<rparr>,
      demo_session 11 ''ht2'' 2592002000], accessIds := 12\<rparr>"
  let ?e = "logged_in\<lparr>sessions := [(demo_session 10 ''ht1'' 2592001000)\<lparr>se_revoked := Some 2000, se_replacedBy := Some 12\<rparr>,
      demo_session 11 ''ht2'' 2592002000, demo_session 12 ''ht3'' 2592002000], accessIds := 13\<rparr>"
  have "rotateAt logged_in demo_crypto demo_config ''t1'' ''t2'' 2 2000 logged_in
      = Inr (\<lparr>iu_access = ''token'', iu_refresh = ''t2'', iu_expires = 2592002000\<rparr>, ?d)"
    by (simp add: demo_login access_seed_def run_defs signAccessToken_def)
  moreover have "rotateAt logged_in demo_crypto demo_config ''t1'' ''t3'' 3 2000 ?d
      = Inr (\<lparr>iu_access = ''token'', iu_refresh = ''t3'', iu_expires = 2592002000\<rparr>, ?e)"
    by (simp add: demo_login access_seed_def run_defs signAccessToken_def)
  moreover have "liveSession ?e 11" "liveSession ?e 12" by (simp_all add: liveSession_def demo_session_def)
  ultimately show ?thesis by blast
qed

text \<open>A new password ends no refresh session, neither by a change nor by a reset.\<close>

theorem new_password_keeps_sessions:
  "(changePassword c i old new now db = Inr d \<longrightarrow> sessions d = sessions db)
    \<and> (resetPassword c token new now db = Inr d \<longrightarrow> sessions d = sessions db)"
  by (auto simp: changePassword_def resetPassword_def saveUser_def Let_def split: option.splits if_splits)

text \<open>An allowed bot gets a token with any password.\<close>

theorem bot_needs_no_password:
  "\<exists>u z. findUserByEmail ''bob@x'' access_seed = Some u \<and> \<not> cr_verify demo_crypto ''wrong'' (us_hash u)
    \<and> botSession demo_crypto demo_config ''bob@x'' ''wrong'' (\<lambda>_. None) (Some 1) 7 9000 access_seed = Inr z"
proof -
  have e: "normalizeEmail ''bob@x'' = ''bob@x''" by code_simp
  show ?thesis
    by (simp add: botSession_def e access_seed_def run_defs readCachedToken_def consumeAttempt_def olderThanPassword_def signAccessToken_def)
qed

end
