(* ===== verification/Spec2Isabelle.thy ===== *)
theory Spec2Isabelle
  imports Accounting Return_Properties Purchase_Theorems Payables_Theorems Outbox Payment_Theorems Master_Theorems
    Stock_Refinement Chart_Of_Accounts Payroll_Amounts Session_Theorems
begin

text \<open>
  A verification library of the business core of an ERP for fashion retail, a NestJS service over MySQL. All paths
  below are under \<open>src/src/modules/\<close>. The services are request handlers: each validates its request against rows of the
  database, runs one transaction and answers with a row or an exception. The core is a chain of documents over shared
  books: sales and their returns issue and restock goods; requests, quotations, purchase orders, goods receipts,
  supplier invoices and returns to suppliers bring goods in and create debts; payments settle sales, refunds and
  invoices; stock rows with a log of movements, and a journal with accounts, are the books; events leave through an
  outbox to Kafka.

  How the code is modelled. An entity is a record of the columns the modelled code reads or writes, with tables as lists
  in the order of insertion (or maps, where the code only looks rows up by a unique key). A state such as \<open>returns_db\<close>
  extends the state of the component it builds on, and an operation on \<open>'a returns_db_scheme\<close> runs unchanged on every
  larger state. A handler is a function from the request and the state to \<open>result\<close>: \<open>Inl\<close> is the exception of the code,
  and the transaction is rolled back; \<open>Inr\<close> has the answer and the new state. A handler that reads outside its
  transaction and writes in it is given as a read and a run, so that interleavings can be stated; otherwise one
  handler is one step. Loops over arrays are \<open>fold\<close>, or \<open>forEach\<close> where a turn may throw. The clock is an argument.
  Row identifiers are numbers, a fresh one from a counter of the state. Strings are compared exactly, where MySQL would use
  its collation, and hold Latin-1 characters.

  Numbers. Columns of type DECIMAL(14,2) are integers of cents, of DECIMAL(14,4) integers of ten-thousandths. What the
  code computes on them in JavaScript numbers is computed on IEEE doubles in \<open>Js_Number\<close> (round to nearest even, 53 bits,
  unbounded exponent). \<open>fits B\<close> bounds an amount \<open>B\<close> in cents times a number of roundings so that the double errors stay
  below half a cent; then the stored amounts are exact. It covers a column at its maximum (\<open>10 ^ 14\<close> cents) for up to ten
  summands, and documents of a hundred million units with thousands of lines. The statements that a payment is refused
  exactly when it exceeds the open amount carry a bound of a million units, since above it the tolerance of the comparison
  is within reach of the errors.

  Foundations:
  \<^item> \<open>Prelude\<close>: error codes, \<open>andThen\<close>, \<open>forEach\<close>, JavaScript maps (\<open>src/src/core/errors\<close>).
  \<^item> \<open>Js_Number\<close>, \<open>Money\<close>, \<open>Double_Entry\<close>: doubles, line arithmetic of documents, the balance check of \<open>double-entry.ts\<close>.
  \<^item> \<open>Js_String\<close>, \<open>Calendar\<close>: strings and generated codes; dates and the addition of days.
  \<^item> \<open>Doc_Number\<close>: document numbers and the retry of a duplicate (\<open>upsert-retry.ts\<close>); the locales \<open>numbered\<close> and \<open>numbering\<close>
    promise unique numbers and are interpreted by each service on its counter table.
  \<^item> \<open>Forest\<close>: the locale \<open>tree_table\<close> of tables with a parent column; the walk of \<open>assertNoCycle\<close> is exact.

  Components, in the order they build on each other:
  \<^item> \<open>Organization\<close>, \<open>Catalog\<close>, \<open>Price_Lists\<close>: the master data that documents check; units; dated prices.
  \<^item> \<open>Master_Data\<close>, \<open>Master_Theorems\<close>: categories and brands. \<open>Chart_Of_Accounts\<close>: the accounts.
  \<^item> \<open>Stock\<close>, \<open>Stock_Documents\<close>, \<open>Stock_Moves\<close>: stock rows and movements, adjustments, transfers, and the loop contract
    \<open>stock_turns\<close> of the document services; the locale \<open>stock_operation\<close> keeps rows and log in agreement.
  \<^item> \<open>Loyalty\<close>, \<open>Sales\<close>, \<open>Sale_Creation\<close>, \<open>Sale_Lifecycle\<close>, \<open>Sale_Properties\<close>: promotions, points and sales.
  \<^item> \<open>Sale_Returns\<close>, \<open>Return_Properties\<close>: returns of customers.
  \<^item> \<open>Procurement\<close>, \<open>Procurement_Properties\<close>: requests, requests for quotation, quotations.
  \<^item> \<open>Purchase_Orders\<close>, \<open>Goods_Receipts\<close>, \<open>Purchase_Properties\<close>, \<open>Purchase_Theorems\<close>: orders and receipts.
  \<^item> \<open>Payables\<close>, \<open>Payables_Properties\<close>, \<open>Payables_Theorems\<close>: supplier invoices and returns to suppliers.
  \<^item> \<open>Journals\<close>, \<open>Posting\<close>, \<open>Ledger_Reports\<close>, \<open>Accounting\<close>: journal entries, posting of payments, the reports of the ledger.
  \<^item> \<open>Payments\<close>, \<open>Payment_Ledger\<close>, \<open>Payment_Effects\<close>, \<open>Supply_Steps\<close>, \<open>Payment_Steps\<close>, \<open>Payment_Changes\<close>, \<open>Payment_Theorems\<close>:
    payments over all the books.
  \<^item> \<open>Outbox\<close>: events from the row of the transaction to the consumer, with Kafka as a parameter that may fail.
  \<^item> \<open>Dated_Rows\<close>, \<open>Hr\<close>: rows with a window of days, whose disjointness the locale \<open>dated_table\<close> keeps; departments, leave,
    assignments, attendance.
  \<^item> \<open>Payroll_Setup\<close>, \<open>Payroll\<close>, \<open>Payroll_Properties\<close>, \<open>Payroll_Steps\<close>, \<open>Payroll_Invariant\<close>, \<open>Payroll_System\<close>,
    \<open>Payroll_Theorems\<close>, \<open>Payroll_Amounts\<close>: components, compensation, shifts, periods and runs with their payslips, which are
    exact while the cents of a run stay below \<open>2 ^ 50\<close> in sum.
  \<^item> \<open>Users\<close>, \<open>Roles\<close>, \<open>Scopes\<close>, \<open>Sessions\<close>: users and the password policy; roles, permissions and the guard of a
    route; memberships, data scopes and the company of a request; login, rotated sessions, resets and the guard of a session, with
    Argon2, SHA-256 and the signed tokens as the parameter \<open>crypto\<close>. \<open>Access_Steps\<close>, \<open>Access_Theorems\<close>, \<open>Session_Theorems\<close>: their
    steps and invariants, and the locale \<open>one_time_tokens\<close> of tables of tokens that work once.
  \<^item> \<open>Stock_Refinement\<close>: the six services that write stock refine one contract of shelves and journal.

  What the theorems show. Components are state machines whose steps are their served requests. Invariants (unique
  numbers, balanced entries, disjoint price windows, returns within sales, receipts within orders, invoices in step with
  orders and payments, forests, payslips that add up, finalized runs that stay, an active super admin,
  no more live sessions than logins) hold in every reachable state; functional theorems say what one accepted request does to
  every book it touches, and which requests are refused; further theorems give the round trip of payment and reversal,
  the end of the search for free codes, delivery of events at least once, and the refinement of the stock contract.
  Theorems at the end of some theories show runs that the code permits and its comments exclude.

  Not modelled. Paged list queries, response mapping and relation loading (they change nothing); free texts nobody
  reads; cookies and the wiring of the guards in front of each handler; row maintenance of parties,
  organization and employees; the customer portal and the assistant, which drive a language model;
  notifications, webhooks, caches and queues, which are clients of other services; migrations and seeds. Retries of a
  duplicate counter row and the locks of rows appear as atomic steps, with the retry loop itself in \<open>Doc_Number\<close>.
\<close>

end
